(* ===== verification/Prelude.thy ===== *)
theory Prelude
  imports Main "HOL-Library.Word"
begin

text \<open>
  Shared vocabulary of the development: Rust's unsigned integers as natural numbers with the
  bound of their width written out, results as sums, decimal printing, and the list and
  arithmetic lemmas that the component theories use.

  Conventions.  A \<open>u64\<close>, \<open>u32\<close> or \<open>usize\<close> value is a \<^typ>\<open>nat\<close>; the target is
  a 64-bit one, so \<open>usize\<close> and \<open>u64\<close> have the same bound.  \<open>checked_*\<close> operations
  return \<^const>\<open>None\<close> exactly where the Rust operation does, \<open>saturating_*\<close> stop at
  the bound, and the plain operators of the release build wrap (\<open>wadd\<close>, \<open>wsub\<close>).
  An \<open>f32\<close> sample is its 32-bit pattern.
\<close>

named_theorems u64_ops \<open>definitions of the bounded arithmetic\<close>
named_theorems res_defs \<open>definitions of the result combinators\<close>

section \<open>Bounded unsigned arithmetic\<close>

type_synonym f32 = "32 word"

definition u64_lim :: nat where
  "u64_lim = 2 ^ 64"

definition u32_lim :: nat where
  "u32_lim = 2 ^ 32"

definition checked_add64 :: "nat \<Rightarrow> nat \<Rightarrow> nat option" where
  [u64_ops]: "checked_add64 a b = (if a + b < u64_lim then Some (a + b) else None)"

definition checked_mul64 :: "nat \<Rightarrow> nat \<Rightarrow> nat option" where
  [u64_ops]: "checked_mul64 a b = (if a * b < u64_lim then Some (a * b) else None)"

definition checked_sub64 :: "nat \<Rightarrow> nat \<Rightarrow> nat option" where
  [u64_ops]: "checked_sub64 a b = (if b \<le> a then Some (a - b) else None)"

definition saturating_add64 :: "nat \<Rightarrow> nat \<Rightarrow> nat" where
  [u64_ops]: "saturating_add64 a b = min (a + b) (u64_lim - 1)"

definition saturating_sub64 :: "nat \<Rightarrow> nat \<Rightarrow> nat" where
  [u64_ops]: "saturating_sub64 a b = a - b"

definition wadd64 :: "nat \<Rightarrow> nat \<Rightarrow> nat" where
  "wadd64 a b = (a + b) mod u64_lim"

definition wsub64 :: "nat \<Rightarrow> nat \<Rightarrow> nat" where
  "wsub64 a b = (if b \<le> a then a - b else a + u64_lim - b)"

definition wadd32 :: "nat \<Rightarrow> nat \<Rightarrow> nat" where
  "wadd32 a b = (a + b) mod u32_lim"

definition wsub32 :: "nat \<Rightarrow> nat \<Rightarrow> nat" where
  "wsub32 a b = (if b \<le> a then a - b else a + u32_lim - b)"

definition div_ceil :: "nat \<Rightarrow> nat \<Rightarrow> nat" where
  "div_ceil a b = (if 0 < a mod b then a div b + 1 else a div b)"

lemma u64_lim_pos [simp]: "0 < u64_lim"
  by (simp add: u64_lim_def)

lemma u32_lim_pos [simp]: "0 < u32_lim"
  by (simp add: u32_lim_def)

lemma u32_lim_le_u64_lim: "u32_lim \<le> u64_lim"
  by (simp add: u32_lim_def u64_lim_def)

lemma wadd64_exact [simp]: "a + b < u64_lim \<Longrightarrow> wadd64 a b = a + b"
  by (simp add: wadd64_def)

lemma wsub64_exact [simp]: "b \<le> a \<Longrightarrow> wsub64 a b = a - b"
  by (simp add: wsub64_def)

lemma wadd32_exact [simp]: "a + b < u32_lim \<Longrightarrow> wadd32 a b = a + b"
  by (simp add: wadd32_def)

lemma wsub32_exact [simp]: "b \<le> a \<Longrightarrow> wsub32 a b = a - b"
  by (simp add: wsub32_def)

lemma checked_add64_Some_iff [simp]:
  "checked_add64 a b = Some c \<longleftrightarrow> c = a + b \<and> a + b < u64_lim"
  by (auto simp: checked_add64_def)

lemma checked_add64_None_iff [simp]: "checked_add64 a b = None \<longleftrightarrow> u64_lim \<le> a + b"
  by (auto simp: checked_add64_def)

lemma checked_mul64_Some_iff [simp]:
  "checked_mul64 a b = Some c \<longleftrightarrow> c = a * b \<and> a * b < u64_lim"
  by (auto simp: checked_mul64_def)

lemma checked_mul64_None_iff [simp]: "checked_mul64 a b = None \<longleftrightarrow> u64_lim \<le> a * b"
  by (auto simp: checked_mul64_def)

lemma checked_sub64_Some_iff [simp]:
  "checked_sub64 a b = Some c \<longleftrightarrow> c = a - b \<and> b \<le> a"
  by (auto simp: checked_sub64_def)

lemma checked_sub64_None_iff [simp]: "checked_sub64 a b = None \<longleftrightarrow> a < b"
  by (auto simp: checked_sub64_def)

lemma div_ceil_mult_ge: "0 < b \<Longrightarrow> a \<le> div_ceil a b * b"
proof -
  assume b: "0 < b"
  have eq: "a = a div b * b + a mod b"
    by simp
  show ?thesis
  proof (cases "0 < a mod b")
    case True
    have "a mod b < b"
      using b by simp
    then have "a \<le> a div b * b + b"
      using eq by linarith
    with True show ?thesis
      by (simp add: div_ceil_def)
  next
    case False
    then have "a div b * b = a"
      using eq by linarith
    with False show ?thesis
      by (simp add: div_ceil_def)
  qed
qed

lemma div_ceil_mult_less: "0 < b \<Longrightarrow> div_ceil a b * b < a + b"
proof -
  assume b: "0 < b"
  have eq: "a = a div b * b + a mod b"
    by simp
  show ?thesis
  proof (cases "0 < a mod b")
    case True
    have "a div b * b < a"
      using True eq by linarith
    then show ?thesis
      using True by (simp add: div_ceil_def)
  next
    case False
    have "a div b * b \<le> a"
      by simp
    also have "a < a + b"
      using b by simp
    finally show ?thesis
      using False by (simp add: div_ceil_def)
  qed
qed

lemma div_ceil_0 [simp]: "div_ceil 0 b = 0"
  by (simp add: div_ceil_def)

lemma div_ceil_le: "0 < b \<Longrightarrow> div_ceil a b \<le> a"
proof -
  assume b: "0 < b"
  have d: "a div b \<le> a"
    by simp
  show ?thesis
  proof (cases "0 < a mod b")
    case True
    have "a div b * 1 + a mod b \<le> a div b * b + a mod b"
      using b by (intro add_right_mono mult_le_mono) simp_all
    then have "a div b + a mod b \<le> a"
      by simp
    with True show ?thesis
      by (simp add: div_ceil_def)
  next
    case False
    with d show ?thesis
      by (simp add: div_ceil_def)
  qed
qed

lemma div_ceil_eq: "0 < b \<Longrightarrow> div_ceil a b = (a + b - 1) div b"
proof -
  assume b: "0 < b"
  have lo: "div_ceil a b * b \<le> a + b - 1"
    using div_ceil_mult_less[OF b, of a] by simp
  have hi: "a + b - 1 < Suc (div_ceil a b) * b"
    using div_ceil_mult_ge[OF b, of a] b by simp
  show ?thesis
    using lo hi b by (intro div_nat_eqI [symmetric]) (simp_all add: mult.commute)
qed

text \<open>Two numbers less than a window apart fall on different slots of a ring.\<close>

lemma mod_window_inj:
  assumes "0 < C" and "q < p" and "p < q + C"
  shows "q mod C \<noteq> p mod (C::nat)"
proof
  assume "q mod C = p mod C"
  then have "C dvd p - q"
    using assms mod_eq_dvd_iff_nat[of q p C] by simp
  with assms show False
    by (auto dest: dvd_imp_le)
qed

section \<open>Results\<close>

text \<open>Rust's \<open>?\<close> operator: the error is passed on, the value goes to the continuation.\<close>

definition bindR :: "'e + 'a \<Rightarrow> ('a \<Rightarrow> 'e + 'b) \<Rightarrow> 'e + 'b" where
  [res_defs]: "bindR m k = (case m of Inl e \<Rightarrow> Inl e | Inr x \<Rightarrow> k x)"

definition ok_or :: "'a option \<Rightarrow> 'e \<Rightarrow> 'e + 'a" where
  [res_defs]: "ok_or m e = (case m of None \<Rightarrow> Inl e | Some x \<Rightarrow> Inr x)"

definition ensure :: "bool \<Rightarrow> 'e \<Rightarrow> 'e + unit" where
  [res_defs]: "ensure b e = (if b then Inr () else Inl e)"

definition is_ok :: "'e + 'a \<Rightarrow> bool" where
  [res_defs]: "is_ok m = (case m of Inl _ \<Rightarrow> False | Inr _ \<Rightarrow> True)"

lemma bindR_simps [simp]:
  "bindR (Inl e) k = Inl e"
  "bindR (Inr x) k = k x"
  by (simp_all add: bindR_def)

lemma bindR_Inr_iff: "bindR m k = Inr y \<longleftrightarrow> (\<exists>x. m = Inr x \<and> k x = Inr y)"
  by (cases m) auto

lemma bindR_Inl_iff: "bindR m k = Inl e \<longleftrightarrow> m = Inl e \<or> (\<exists>x. m = Inr x \<and> k x = Inl e)"
  by (cases m) auto

lemma ok_or_simps [simp]:
  "ok_or None e = Inl e"
  "ok_or (Some x) e = Inr x"
  by (simp_all add: ok_or_def)

lemma ok_or_Inr_iff [simp]: "ok_or m e = Inr x \<longleftrightarrow> m = Some x"
  by (cases m) auto

lemma ok_or_Inl_iff [simp]: "ok_or m e = Inl e' \<longleftrightarrow> m = None \<and> e' = e"
  by (cases m) auto

lemma ensure_Inr_iff [simp]: "ensure b e = Inr u \<longleftrightarrow> b"
  by (simp add: ensure_def)

lemma ensure_Inl_iff [simp]: "ensure b e = Inl e' \<longleftrightarrow> \<not> b \<and> e' = e"
  by (auto simp: ensure_def)

lemma is_ok_simps [simp]:
  "is_ok (Inl e) = False"
  "is_ok (Inr x) = True"
  by (simp_all add: is_ok_def)

text \<open>A fallible fold over a list, \<open>Iterator::try_fold\<close>.\<close>

fun try_fold :: "('s \<Rightarrow> 'a \<Rightarrow> 'e + 's) \<Rightarrow> 's \<Rightarrow> 'a list \<Rightarrow> 'e + 's" where
  "try_fold f s [] = Inr s"
| "try_fold f s (x # xs) = bindR (f s x) (\<lambda>s'. try_fold f s' xs)"

text \<open>Collecting an iterator of results: the first error wins.\<close>

fun collectR :: "('e + 'a) list \<Rightarrow> 'e + 'a list" where
  "collectR [] = Inr []"
| "collectR (m # ms) = bindR m (\<lambda>x. bindR (collectR ms) (\<lambda>xs. Inr (x # xs)))"

lemma try_fold_append:
  "try_fold f s (xs @ ys) = bindR (try_fold f s xs) (\<lambda>s'. try_fold f s' ys)"
proof (induction xs arbitrary: s)
  case Nil
  then show ?case by simp
next
  case (Cons x xs)
  then show ?case by (cases "f s x") simp_all
qed

lemma collectR_Inr_iff: "collectR ms = Inr xs \<longleftrightarrow> ms = map Inr xs"
proof (induction ms arbitrary: xs)
  case Nil
  then show ?case by auto
next
  case (Cons m ms)
  then show ?case
    by (cases m; cases xs) (auto simp: bindR_Inr_iff)
qed

section \<open>Decimal printing\<close>

definition digit_char :: "nat \<Rightarrow> char" where
  "digit_char d = char_of (48 + d)"

fun show_nat :: "nat \<Rightarrow> string" where
  "show_nat n = (if n < 10 then [digit_char n] else show_nat (n div 10) @ [digit_char (n mod 10)])"

declare show_nat.simps [simp del]

text \<open>The format specification \<open>{:0w$}\<close> pads on the left with zeroes up to width \<open>w\<close>.\<close>

definition show_padded :: "nat \<Rightarrow> nat \<Rightarrow> string" where
  "show_padded w n = replicate (w - length (show_nat n)) (CHR ''0'') @ show_nat n"

lemma show_nat_nonempty [simp]: "show_nat n \<noteq> []"
  by (subst show_nat.simps) simp

lemma length_show_nat_le: "n < 10 ^ k \<Longrightarrow> 0 < k \<Longrightarrow> length (show_nat n) \<le> k"
proof (induction k arbitrary: n)
  case 0
  then show ?case by simp
next
  case (Suc k)
  show ?case
  proof (cases "n < 10")
    case True
    then show ?thesis by (simp add: show_nat.simps[of n])
  next
    case False
    with Suc.prems(1) have "0 < k"
      by (cases k) simp_all
    moreover have "n div 10 < 10 ^ k"
      using Suc.prems(1) by (simp add: less_mult_imp_div_less mult.commute)
    ultimately have "length (show_nat (n div 10)) \<le> k"
      using Suc.IH by blast
    with False show ?thesis
      by (simp add: show_nat.simps[of n])
  qed
qed

lemma show_nat_digits: "c \<in> set (show_nat n) \<Longrightarrow> \<exists>d<10. c = digit_char d"
proof (induction n rule: show_nat.induct)
  case (1 n)
  show ?case
  proof (cases "n < 10")
    case True
    with "1.prems" show ?thesis
      by (auto simp: show_nat.simps[of n])
  next
    case False
    with "1.prems" consider "c \<in> set (show_nat (n div 10))" | "c = digit_char (n mod 10)"
      by (auto simp: show_nat.simps[of n])
    then show ?thesis
    proof cases
      case 1
      with "1.IH"[OF False] show ?thesis .
    next
      case 2
      then show ?thesis by (intro exI[of _ "n mod 10"]) simp
    qed
  qed
qed

lemma length_show_nat_u64: "n < u64_lim \<Longrightarrow> length (show_nat n) \<le> 20"
  by (rule length_show_nat_le) (simp_all add: u64_lim_def)

lemma length_show_nat_u32: "n < u32_lim \<Longrightarrow> length (show_nat n) \<le> 10"
  by (rule length_show_nat_le) (simp_all add: u32_lim_def)

lemma length_show_padded [simp]: "length (show_padded w n) = max w (length (show_nat n))"
  by (simp add: show_padded_def)

section \<open>Sample bit patterns\<close>

text \<open>
  \<open>f32::is_finite\<close>: the exponent field is not all ones.  \<open>x == 0.0\<close>: the pattern is the
  one of \<open>+0.0\<close> or of \<open>-0.0\<close>.
\<close>

definition f32_is_finite :: "f32 \<Rightarrow> bool" where
  "f32_is_finite b = (unat b div 2 ^ 23 mod 2 ^ 8 \<noteq> 255)"

definition f32_is_zero :: "f32 \<Rightarrow> bool" where
  "f32_is_zero b = (b = 0 \<or> b = 0x80000000)"

lemma f32_zero_finite: "f32_is_zero b \<Longrightarrow> f32_is_finite b"
  by (auto simp: f32_is_zero_def f32_is_finite_def)

section \<open>Lists\<close>

text \<open>
  \<open>dst[at..at + n].copy_from_slice(src)\<close> for a source of length \<open>n\<close>: the slots from
  \<open>at\<close> on are replaced.
\<close>

definition blit :: "'a list \<Rightarrow> nat \<Rightarrow> 'a list \<Rightarrow> 'a list" where
  "blit dst at src = take at dst @ src @ drop (at + length src) dst"

lemma length_blit [simp]: "at + length src \<le> length dst \<Longrightarrow> length (blit dst at src) = length dst"
  by (simp add: blit_def)

lemma blit_nil [simp]: "blit dst at [] = dst"
  by (simp add: blit_def)

lemma take_blit_before [simp]: "n \<le> at \<Longrightarrow> at \<le> length dst \<Longrightarrow> take n (blit dst at src) = take n dst"
  by (simp add: blit_def)

lemma take_blit_through:
  "at + length src \<le> length dst \<Longrightarrow> take (at + length src) (blit dst at src) = take at dst @ src"
  by (simp add: blit_def)

lemma drop_blit_after:
  "at + length src \<le> length dst \<Longrightarrow> at + length src \<le> n \<Longrightarrow> drop n (blit dst at src) = drop n dst"
  by (simp add: blit_def)

lemma blit_blit_adjacent:
  assumes "at + length xs + length ys \<le> length dst"
  shows "blit (blit dst at xs) (at + length xs) ys = blit dst at (xs @ ys)"
  using assms by (simp add: blit_def add.assoc add.left_commute add.commute)

lemma take_drop_append_take_drop:
  "take m (drop k xs) @ take n (drop (k + m) xs) = take (m + n) (drop k xs)"
  by (simp add: take_add add.commute)

lemma upt_append_upt: "i \<le> j \<Longrightarrow> j \<le> k \<Longrightarrow> [i..<j] @ [j..<k] = [i..<k]"
  using upt_add_eq_append[of i j "k - j"] by simp

end
