(* ===== verification/Errors.thy ===== *)
theory Errors
  imports Prelude
begin

text \<open>
  The error type of the program (\<open>src/error.rs\<close>) and the exit code of a process that ends
  with one of its values.  A formatted message is a string; an \<open>io::Error\<close> and a path are
  the strings they print as.  \<open>Panicked\<close> is not a variant of the Rust enum: it is the
  outcome of an operation that would panic (an index or slice out of range, a division by zero,
  \<open>expect\<close> on \<open>None\<close>), so that panics are branches of the model; a panicking Rust
  process exits with code 101.
\<close>

definition EX_CONFIG :: int where
  "EX_CONFIG = 78"

datatype exit_code = Failure | PermanentBootstrap

fun as_i32 :: "exit_code \<Rightarrow> int" where
  "as_i32 Failure = 1"
| "as_i32 PermanentBootstrap = EX_CONFIG"

datatype lamb_error =
    NonRestartableBootstrap lamb_error
  | Config string
  | Validation string
  | Io string string
  | PersistenceCleanup lamb_error lamb_error
  | IndeterminatePublication lamb_error
  | UnidentifiedStagingCleanup string
  | Control string
  | Capture string
  | DaemonFatal string
  | CaptureInvariant string
  | Export string
  | ExportInvariant string
  | ControlInvariant string
  | Panicked string

type_synonym 'a result = "lamb_error + 'a"

definition non_restartable_bootstrap :: "lamb_error \<Rightarrow> lamb_error" where
  "non_restartable_bootstrap source = NonRestartableBootstrap source"

fun process_exit_code :: "lamb_error \<Rightarrow> int" where
  "process_exit_code (NonRestartableBootstrap _) = as_i32 PermanentBootstrap"
| "process_exit_code (Panicked _) = 101"
| "process_exit_code _ = as_i32 Failure"

definition io_error :: "string \<Rightarrow> string \<Rightarrow> lamb_error" where
  "io_error path source = Io path source"

text \<open>The \<open>Display\<close> of an error, from the attributes of the enum.\<close>

fun error_display :: "lamb_error \<Rightarrow> string" where
  "error_display (NonRestartableBootstrap e) = ''cannot establish inspectable daemon: '' @ error_display e"
| "error_display (Config m) = ''configuration error: '' @ m"
| "error_display (Validation m) = ''validation error: '' @ m"
| "error_display (Io path source) = ''I/O error at '' @ path @ '': '' @ source"
| "error_display (PersistenceCleanup operation cleanup) =
     ''persistence failed ('' @ error_display operation @ ''); cleanup also failed ('' @ error_display cleanup @ '')''"
| "error_display (IndeterminatePublication operation) = ''publication outcome is indeterminate after: '' @ error_display operation"
| "error_display (UnidentifiedStagingCleanup path) = ''unidentified staging at '' @ path @ '' requires manual removal or recovery''"
| "error_display (Control m) = ''control error: '' @ m"
| "error_display (Capture m) = ''capture error: '' @ m"
| "error_display (DaemonFatal m) = ''fatal daemon error: '' @ m"
| "error_display (CaptureInvariant m) = ''capture error: '' @ m"
| "error_display (Export m) = ''export error: '' @ m"
| "error_display (ExportInvariant m) = ''export error: '' @ m"
| "error_display (ControlInvariant m) = ''control error: '' @ m"
| "error_display (Panicked m) = m"

lemma process_exit_code_78_iff:
  "process_exit_code e = 78 \<longleftrightarrow> (\<exists>cause. e = non_restartable_bootstrap cause)"
  by (cases e) (simp_all add: EX_CONFIG_def non_restartable_bootstrap_def)

end
