(* ===== verification/Wav_Math.thy ===== *)
theory Wav_Math
  imports Errors
begin

text \<open>
  Frame arithmetic of \<open>src/math.rs\<close>: chunk sizes, descriptor counts, and the split of a
  channel into WAV parts.  The lemmas show that the parts tile the channel, that every part
  fits under the byte limit, that the part counter agrees with the split, and that the split
  uses no more parts than the limit forces.  \<open>estimate_ring_bytes\<close> multiplies in \<open>f64\<close>
  and is used by no other module; it is not modelled.
\<close>

section \<open>Definitions\<close>

definition WAV_SPLIT_DEFAULT_BYTES :: nat where
  "WAV_SPLIT_DEFAULT_BYTES = 3900000000"

definition WAV_HEADER_BYTES :: nat where
  "WAV_HEADER_BYTES = 44"

record wav_part =
  part_start :: nat
  part_frames :: nat

definition derive_chunk_frames :: "nat \<Rightarrow> nat option \<Rightarrow> nat result" where
  "derive_chunk_frames sample_rate requested =
     (if sample_rate = 0 then Inl (Validation ''sampleRate must be > 0'')
      else case requested of
        Some frames \<Rightarrow>
          if frames = 0 then Inl (Validation ''chunkFrames must be > 0'') else Inr frames
      | None \<Rightarrow> Inr (max ((sample_rate * 250) div 1000) 1))"

definition descriptor_count :: "nat \<Rightarrow> nat \<Rightarrow> nat \<Rightarrow> nat result" where
  "descriptor_count seconds sample_rate chunk_frames =
     (if chunk_frames = 0 then Inl (Validation ''chunkFrames must be > 0'')
      else bindR (ok_or (checked_mul64 seconds sample_rate)
                    (Validation ''descriptor frame count overflow''))
        (\<lambda>frames. Inr (div_ceil frames chunk_frames)))"

definition wav_frames_per_part :: "nat \<Rightarrow> nat \<Rightarrow> nat result" where
  "wav_frames_per_part bytes_per_frame split_when_over_bytes =
     (if bytes_per_frame = 0 then Inl (Validation ''bytes_per_frame must be > 0'')
      else if split_when_over_bytes \<le> WAV_HEADER_BYTES
      then Inl (Validation ''splitWhenOverBytes must leave room for WAV data'')
      else let max_data = split_when_over_bytes - WAV_HEADER_BYTES;
               frames_per_part = max_data div bytes_per_frame
           in if frames_per_part = 0
              then Inl (Validation ''splitWhenOverBytes is too small for one frame'')
              else Inr frames_per_part)"

text \<open>
  The \<open>while\<close> loop of \<open>wav_parts_for_channel\<close>.  The loop is entered with a positive
  part length only; the test of it in the guard is what makes the recursion total.  The start
  of a part never passes \<open>total_frames\<close>, so the addition does not overflow.
\<close>

function wav_parts_loop :: "nat \<Rightarrow> nat \<Rightarrow> nat \<Rightarrow> wav_part list" where
  "wav_parts_loop total_frames frames_per_part start =
     (if start < total_frames \<and> 0 < frames_per_part then
        let remaining = total_frames - start;
            count = min remaining frames_per_part
        in \<lparr>part_start = start, part_frames = count\<rparr>
             # wav_parts_loop total_frames frames_per_part (start + count)
      else [])"
  by pat_completeness auto
termination
  by (relation "measure (\<lambda>(tot, fpp, start). tot - start)") auto

declare wav_parts_loop.simps [simp del]

definition wav_parts_for_channel :: "nat \<Rightarrow> nat \<Rightarrow> nat \<Rightarrow> wav_part list result" where
  "wav_parts_for_channel total_frames bytes_per_frame split_when_over_bytes =
     bindR (wav_frames_per_part bytes_per_frame split_when_over_bytes)
       (\<lambda>frames_per_part. Inr (wav_parts_loop total_frames frames_per_part 0))"

definition wav_part_count :: "nat \<Rightarrow> nat \<Rightarrow> nat \<Rightarrow> nat result" where
  "wav_part_count total_frames bytes_per_frame split_when_over_bytes =
     bindR (wav_frames_per_part bytes_per_frame split_when_over_bytes)
       (\<lambda>frames_per_part. Inr (div_ceil total_frames frames_per_part))"

section \<open>Lemmas\<close>

abbreviation part_range :: "wav_part \<Rightarrow> nat list" where
  "part_range p \<equiv> [part_start p ..< part_start p + part_frames p]"

lemma wav_parts_loop_done [simp]: "tot \<le> start \<Longrightarrow> wav_parts_loop tot fpp start = []"
  by (simp add: wav_parts_loop.simps)

lemma wav_parts_loop_step:
  "start < tot \<Longrightarrow> 0 < fpp \<Longrightarrow>
   wav_parts_loop tot fpp start =
     \<lparr>part_start = start, part_frames = min (tot - start) fpp\<rparr>
       # wav_parts_loop tot fpp (start + min (tot - start) fpp)"
  by (simp add: wav_parts_loop.simps[of tot fpp start] Let_def)

lemma wav_parts_loop_tile:
  "0 < fpp \<Longrightarrow> start \<le> tot \<Longrightarrow>
   concat (map part_range (wav_parts_loop tot fpp start)) = [start ..< tot]"
proof (induction tot fpp start rule: wav_parts_loop.induct)
  case (1 tot fpp start)
  show ?case
  proof (cases "start < tot")
    case True
    let ?c = "min (tot - start) fpp"
    from True have le: "start + ?c \<le> tot" by simp
    have "concat (map part_range (wav_parts_loop tot fpp (start + ?c))) = [start + ?c ..< tot]"
      using "1.IH"[OF _ refl refl] True "1.prems"(1) le by simp
    with True "1.prems"(1) le show ?thesis
      by (simp add: wav_parts_loop_step upt_append_upt)
  next
    case False
    with "1.prems" show ?thesis by simp
  qed
qed

lemma wav_parts_loop_sizes:
  "p \<in> set (wav_parts_loop tot fpp start) \<Longrightarrow> 0 < part_frames p \<and> part_frames p \<le> fpp"
proof (induction tot fpp start rule: wav_parts_loop.induct)
  case (1 tot fpp start)
  show ?case
  proof (cases "start < tot \<and> 0 < fpp")
    case True
    with "1.prems" "1.IH"[OF _ refl refl] show ?thesis
      by (auto simp: wav_parts_loop_step)
  next
    case False
    with "1.prems" show ?thesis
      by (simp add: wav_parts_loop.simps[of tot fpp start])
  qed
qed

lemma div_ceil_diff:
  assumes "0 < b" and "0 < a"
  shows "div_ceil a b = Suc (div_ceil (a - min a b) b)"
proof (cases "a \<le> b")
  case True
  have "(a + b - 1) div b = 1"
    using assms True by (intro div_nat_eqI) simp_all
  with True assms show ?thesis
    by (simp add: div_ceil_eq)
next
  case False
  then have "a + b - 1 = (a - b + b - 1) + b"
    using assms by simp
  then have "(a + b - 1) div b = Suc ((a - b + b - 1) div b)"
    using assms by (metis div_add_self2 Suc_eq_plus1 neq0_conv)
  with False assms show ?thesis
    by (simp add: div_ceil_eq)
qed

lemma length_wav_parts_loop:
  "0 < fpp \<Longrightarrow> start \<le> tot \<Longrightarrow> length (wav_parts_loop tot fpp start) = div_ceil (tot - start) fpp"
proof (induction tot fpp start rule: wav_parts_loop.induct)
  case (1 tot fpp start)
  show ?case
  proof (cases "start < tot")
    case True
    let ?c = "min (tot - start) fpp"
    have "length (wav_parts_loop tot fpp (start + ?c)) = div_ceil (tot - (start + ?c)) fpp"
      using "1.IH"[OF _ refl refl] True "1.prems"(1) by simp
    moreover have "div_ceil (tot - start) fpp = Suc (div_ceil (tot - start - ?c) fpp)"
      using True "1.prems"(1) by (intro div_ceil_diff) simp_all
    ultimately show ?thesis
      using True "1.prems"(1) by (simp add: wav_parts_loop_step)
  next
    case False
    with "1.prems" show ?thesis by simp
  qed
qed

lemma wav_frames_per_part_Inr:
  "wav_frames_per_part bpf split = Inr fpp \<Longrightarrow>
   0 < bpf \<and> 0 < fpp \<and> WAV_HEADER_BYTES + fpp * bpf \<le> split \<and> split < WAV_HEADER_BYTES + Suc fpp * bpf"
proof -
  assume h: "wav_frames_per_part bpf split = Inr fpp"
  then have bpf: "0 < bpf" and lim: "WAV_HEADER_BYTES < split"
    and eq: "fpp = (split - WAV_HEADER_BYTES) div bpf" and pos: "0 < fpp"
    by (auto simp: wav_frames_per_part_def Let_def split: if_splits)
  have "fpp * bpf \<le> split - WAV_HEADER_BYTES"
    unfolding eq by (rule div_times_less_eq_dividend)
  moreover have "split - WAV_HEADER_BYTES < Suc fpp * bpf"
    unfolding eq using dividend_less_div_times[OF bpf, of "split - WAV_HEADER_BYTES"] by simp
  ultimately show ?thesis
    using bpf lim pos by linarith
qed

lemma wav_frames_per_part_ok_iff:
  "is_ok (wav_frames_per_part bpf split) \<longleftrightarrow> 0 < bpf \<and> WAV_HEADER_BYTES + bpf \<le> split"
proof -
  have "(split - WAV_HEADER_BYTES) div bpf = 0 \<longleftrightarrow> split < WAV_HEADER_BYTES + bpf"
    if "0 < bpf" "WAV_HEADER_BYTES < split"
    using that by (auto simp: div_eq_0_iff)
  then show ?thesis
    by (auto simp: wav_frames_per_part_def Let_def)
qed

lemma wav_part_count_wav_parts:
  assumes "wav_parts_for_channel tot bpf split = Inr parts"
  shows "wav_part_count tot bpf split = Inr (length parts)"
proof -
  from assms obtain fpp where f: "wav_frames_per_part bpf split = Inr fpp"
    and parts: "parts = wav_parts_loop tot fpp 0"
    by (auto simp: wav_parts_for_channel_def bindR_Inr_iff)
  from wav_frames_per_part_Inr[OF f] have "length parts = div_ceil tot fpp"
    unfolding parts by (simp add: length_wav_parts_loop)
  with f show ?thesis by (simp add: wav_part_count_def)
qed

text \<open>
  (C22): the parts of a channel tile its frames in order without gap or overlap, no part is
  empty, every part together with its 44-byte header stays within the configured split size,
  and their number is the one \<open>wav_part_count\<close> announces to the memory plan.
\<close>

theorem wav_parts_tile_channel:
  assumes "wav_parts_for_channel tot bpf split = Inr parts"
  shows "concat (map part_range parts) = [0 ..< tot] \<and>
         (\<forall>p \<in> set parts. 0 < part_frames p \<and> WAV_HEADER_BYTES + part_frames p * bpf \<le> split) \<and>
         wav_part_count tot bpf split = Inr (length parts)"
proof -
  from assms obtain fpp where f: "wav_frames_per_part bpf split = Inr fpp"
    and parts: "parts = wav_parts_loop tot fpp 0"
    by (auto simp: wav_parts_for_channel_def bindR_Inr_iff)
  note fpp = wav_frames_per_part_Inr[OF f]
  have "WAV_HEADER_BYTES + part_frames p * bpf \<le> split \<and> 0 < part_frames p" if "p \<in> set parts" for p
  proof -
    have le: "part_frames p \<le> fpp" and pos: "0 < part_frames p"
      using wav_parts_loop_sizes[of p tot fpp 0] that parts by simp_all
    have "part_frames p * bpf \<le> fpp * bpf"
      using le by (rule mult_le_mono1)
    with fpp pos show ?thesis by linarith
  qed
  moreover have "concat (map part_range parts) = [0 ..< tot]"
    using wav_parts_loop_tile[of fpp 0 tot] fpp parts by simp
  ultimately show ?thesis
    using wav_part_count_wav_parts[OF assms] by blast
qed

theorem wav_parts_tile_channel_witness:
  "concat (map part_range (wav_parts_loop 5 2 0)) = [0 ..< 5] \<and>
   wav_part_count 5 3 50 = Inr (length (wav_parts_loop 5 2 0))"
proof -
  have "wav_parts_for_channel 5 3 50 = Inr (wav_parts_loop 5 2 0)"
    by (simp add: wav_parts_for_channel_def wav_frames_per_part_def WAV_HEADER_BYTES_def)
  from wav_parts_tile_channel[OF this] show ?thesis
    by blast
qed

end
