(* ===== verification/Memory_Budget.thy ===== *)
theory Memory_Budget
  imports Errors
begin

text \<open>
  The allocation side of \<open>src/memory_plan.rs\<close>: page-rounded budgets, the metadata budget
  of one ring, exact arrays and zeroed buffers.

  The environment enters as parameters: \<open>sc\<close> is what \<open>sysconf(_SC_PAGESIZE)\<close> returns,
  \<open>alloc i n\<close> whether the \<open>i\<close>-th allocation of a constructor, of \<open>n\<close> bytes,
  succeeds.  Touching the pages of a buffer writes back what it reads, so it leaves the
  contents unchanged and is not visible here.
\<close>

section \<open>Budgets\<close>

definition ALLOCATOR_HEADER_RESERVE_BYTES :: nat where
  "ALLOCATOR_HEADER_RESERVE_BYTES = 64"

definition RING_CHUNK_OBJECT_RESERVE_BYTES :: nat where
  "RING_CHUNK_OBJECT_RESERVE_BYTES = 512"

definition RING_FIXED_METADATA_RESERVE_BYTES :: nat where
  "RING_FIXED_METADATA_RESERVE_BYTES = 512"

definition system_page_size :: "int \<Rightarrow> nat" where
  "system_page_size sc = (if 0 < sc then nat sc else 4096)"

definition checked_add :: "string \<Rightarrow> nat \<Rightarrow> nat \<Rightarrow> nat result" where
  "checked_add context left right = ok_or (checked_add64 left right) (Validation context)"

definition checked_mul :: "string \<Rightarrow> nat \<Rightarrow> nat \<Rightarrow> nat result" where
  "checked_mul context left right = ok_or (checked_mul64 left right) (Validation context)"

definition allocation_budget_bytes :: "int \<Rightarrow> nat \<Rightarrow> nat result" where
  "allocation_budget_bytes sc payload_bytes =
     bindR (checked_add ''allocation reserve overflow'' payload_bytes ALLOCATOR_HEADER_RESERVE_BYTES)
       (\<lambda>reserved. let page_size = system_page_size sc in
          checked_mul ''page-rounded allocation budget overflow''
            (div_ceil reserved page_size) page_size)"

record ring_metadata_budget =
  sample_allocator_padding :: nat
  chunk_objects :: nat
  chunk_index :: nat
  fixed_bytes :: nat

definition ring_metadata_total :: "ring_metadata_budget \<Rightarrow> nat result" where
  "ring_metadata_total b =
     bindR (checked_add ''ring metadata budget overflow'' (sample_allocator_padding b) (chunk_objects b))
       (\<lambda>subtotal. bindR (checked_add ''ring metadata budget overflow'' subtotal (chunk_index b))
       (\<lambda>subtotal. checked_add ''ring metadata budget overflow'' subtotal (fixed_bytes b)))"

definition ring_metadata_budget_of :: "int \<Rightarrow> nat \<Rightarrow> nat \<Rightarrow> ring_metadata_budget result" where
  "ring_metadata_budget_of sc chunk_object_count chunk_sample_bytes =
     bindR (allocation_budget_bytes sc RING_CHUNK_OBJECT_RESERVE_BYTES) (\<lambda>chunk_object_allocation.
     bindR (checked_mul ''ring chunk object budget overflow'' chunk_object_count
              chunk_object_allocation) (\<lambda>chunk_objects.
     bindR (checked_mul ''ring chunk index payload overflow'' chunk_object_count 8)
       (\<lambda>chunk_index_payload.
     bindR (allocation_budget_bytes sc chunk_sample_bytes) (\<lambda>sample_allocation.
     bindR (ok_or (checked_sub64 sample_allocation chunk_sample_bytes)
              (Validation ''ring sample allocator padding underflow'')) (\<lambda>padding.
     bindR (checked_mul ''ring sample allocator padding overflow'' chunk_object_count padding)
       (\<lambda>sample_allocator_padding.
     bindR (allocation_budget_bytes sc chunk_index_payload) (\<lambda>chunk_index.
     bindR (allocation_budget_bytes sc RING_FIXED_METADATA_RESERVE_BYTES) (\<lambda>fixed.
       Inr \<lparr>sample_allocator_padding = sample_allocator_padding, chunk_objects = chunk_objects,
            chunk_index = chunk_index, fixed_bytes = fixed\<rparr>))))))))"

section \<open>Exact arrays and zeroed buffers\<close>

text \<open>\<open>Layout::array\<close> refuses sizes over \<open>isize::MAX\<close>.\<close>

definition isize_max :: nat where
  "isize_max = 2 ^ 63 - 1"

definition exact_array_try_from_fn ::
    "(nat \<Rightarrow> nat \<Rightarrow> bool) \<Rightarrow> nat \<Rightarrow> nat \<Rightarrow> ('s \<Rightarrow> nat \<Rightarrow> ('s \<times> 'a) result) \<Rightarrow> 's \<Rightarrow> ('s \<times> 'a list) result" where
  "exact_array_try_from_fn alloc size_of_T len init s =
     (let size = len * size_of_T in
      if isize_max < size then Inl (Validation ''exact array layout overflow'')
      else if size \<noteq> 0 \<and> \<not> alloc 0 size
      then Inl (Validation (''unable to allocate '' @ show_nat size @ ''-byte exact array''))
      else try_fold (\<lambda>(s, xs) i. bindR (init s i) (\<lambda>(s', x). Inr (s', xs @ [x]))) (s, []) [0..<len])"

definition materialized_new_zeroed :: "(nat \<Rightarrow> nat \<Rightarrow> bool) \<Rightarrow> nat \<Rightarrow> nat \<Rightarrow> f32 list result" where
  "materialized_new_zeroed alloc i len =
     (let size = len * 4 in
      if isize_max < size then Inl (Validation ''materialized buffer layout overflow'')
      else if size \<noteq> 0 \<and> \<not> alloc i size
      then Inl (Validation (''unable to allocate '' @ show_nat size @ ''-byte materialized buffer''))
      else Inr (replicate len 0))"

section \<open>Lemmas on budgets\<close>

lemma checked_add_Inr [simp]:
  "checked_add c a b = Inr n \<longleftrightarrow> n = a + b \<and> a + b < u64_lim"
  by (simp add: checked_add_def)

lemma checked_mul_Inr [simp]:
  "checked_mul c a b = Inr n \<longleftrightarrow> n = a * b \<and> a * b < u64_lim"
  by (simp add: checked_mul_def)

lemma checked_add_Inl: "checked_add c a b = Inl e \<longleftrightarrow> e = Validation c \<and> u64_lim \<le> a + b"
  by (auto simp: checked_add_def)

lemma checked_mul_Inl: "checked_mul c a b = Inl e \<longleftrightarrow> e = Validation c \<and> u64_lim \<le> a * b"
  by (auto simp: checked_mul_def)

lemma system_page_size_pos [simp]: "0 < system_page_size sc"
  by (simp add: system_page_size_def)

text \<open>
  A granted budget is a whole number of pages, holds the payload and the allocator header,
  and wastes less than one page.
\<close>

lemma allocation_budget_bytes_Inr:
  assumes "allocation_budget_bytes sc payload = Inr n"
  shows "payload + ALLOCATOR_HEADER_RESERVE_BYTES \<le> n" "n < payload + ALLOCATOR_HEADER_RESERVE_BYTES + system_page_size sc"
    "system_page_size sc dvd n" "n < u64_lim"
proof -
  let ?p = "system_page_size sc" and ?r = "payload + ALLOCATOR_HEADER_RESERVE_BYTES"
  from assms have n: "n = div_ceil ?r ?p * ?p" "n < u64_lim"
    by (auto simp: allocation_budget_bytes_def bindR_Inr_iff Let_def)
  show "?r \<le> n" and "n < ?r + ?p"
    unfolding n(1) using div_ceil_mult_ge[of ?p ?r] div_ceil_mult_less[of ?p ?r] by simp_all
  show "?p dvd n" and "n < u64_lim"
    using n by simp_all
qed

lemma allocation_budget_bytes_ok:
  assumes "payload + ALLOCATOR_HEADER_RESERVE_BYTES + system_page_size sc \<le> u64_lim"
  shows "is_ok (allocation_budget_bytes sc payload)"
proof -
  let ?p = "system_page_size sc" and ?r = "payload + ALLOCATOR_HEADER_RESERVE_BYTES"
  have "div_ceil ?r ?p * ?p < ?r + ?p"
    by (rule div_ceil_mult_less) simp
  with assms have "div_ceil ?r ?p * ?p < u64_lim" by simp
  moreover have "?r < u64_lim"
    using assms system_page_size_pos[of sc] by linarith
  ultimately show ?thesis
    by (simp add: allocation_budget_bytes_def checked_add_def checked_mul_def Let_def
        checked_add64_def checked_mul64_def)
qed

end
