(* ===== verification/Sample_Ring.thy ===== *)
theory Sample_Ring
  imports Memory_Budget
begin

text \<open>
  The sample ring of \<open>src/sample_ring.rs\<close>: its chunks, construction, reset, the interleaved
  writer and the range copy.  The state is one record; the atomics are its fields.  The
  \<open>write_chunk\<close> mutex serialises every operation below, so each loop iteration of the writer
  and each locked section of a reader is one atomic transformation of the record.  A poisoned
  mutex is a flag.  \<open>Arc<Chunk>\<close> is the index of the chunk in the ring's array.  An operation
  returns the new state together with its result, because a failing writer keeps what it had
  already stored.

  The lemmas relate the ring to the history of all frames accepted since the last reset: the
  invariant says which slice of the history each chunk holds, the writer extends the history,
  the oldest retained frame is computed in closed form, and a range copy returns exactly the
  requested slice of the history.
\<close>

section \<open>State\<close>

datatype sample_format = F32Le

datatype chunk_state = Writable | Writing | Published | Stale

definition from_u8 :: "nat \<Rightarrow> chunk_state" where
  "from_u8 v = (if v = 1 then Writing else if v = 2 then Published else if v = 3 then Stale else Writable)"

fun chunk_state_u8 :: "chunk_state \<Rightarrow> nat" where
  "chunk_state_u8 Writable = 0"
| "chunk_state_u8 Writing = 1"
| "chunk_state_u8 Published = 2"
| "chunk_state_u8 Stale = 3"

text \<open>
  The state byte is only ever stored by a cast of a \<^typ>\<open>chunk_state\<close> and read back through
  \<open>from_u8\<close>; the record keeps the decoded value.
\<close>

lemma from_u8_chunk_state_u8 [simp]: "from_u8 (chunk_state_u8 s) = s"
  by (cases s) (simp_all add: from_u8_def)

record ring_config =
  rc_channels :: nat
  rc_sample_rate :: nat
  rc_format :: sample_format
  rc_chunk_frames :: nat
  rc_chunk_count :: nat
  rc_max_active_snapshots :: nat

record ring_status =
  st_dropped_frames :: nat
  st_retained_frames :: nat
  st_capacity_frames :: nat
  st_active_snapshots :: nat
  st_last_overrun :: "nat option"

record chunk =
  sequence :: nat
  state :: chunk_state
  pin_count :: nat
  valid_start_frame :: nat
  valid_frame_count :: nat
  data :: "f32 list"
  data_poisoned :: bool

record sample_ring =
  cfg :: ring_config
  chunks :: "chunk list"
  write_chunk :: nat
  write_poisoned :: bool
  global_write_frame :: nat
  clear_after_frame :: nat
  next_sequence :: nat
  dropped_frames :: nat
  active_snapshots :: nat
  last_overrun :: "nat option"
  overrun_poisoned :: bool
  allocated_sample_bytes :: nat
  metadata_budget_bytes :: nat

section \<open>Construction and reset\<close>

definition new_chunk :: "f32 list \<Rightarrow> chunk" where
  "new_chunk buffer =
     \<lparr>sequence = 0, state = Writable, pin_count = 0, valid_start_frame = 0, valid_frame_count = 0,
      data = buffer, data_poisoned = False\<rparr>"

definition ring_new :: "int \<Rightarrow> (nat \<Rightarrow> nat \<Rightarrow> bool) \<Rightarrow> ring_config \<Rightarrow> sample_ring result" where
  "ring_new sc alloc c =
     (if rc_channels c = 0 then Inl (Validation ''channels must be > 0'')
      else if rc_sample_rate c = 0 then Inl (Validation ''sample_rate must be > 0'')
      else if rc_chunk_frames c = 0 then Inl (Validation ''chunk_frames must be > 0'')
      else if rc_chunk_count c = 0 then Inl (Validation ''chunk_count must be > 0'')
      else if rc_max_active_snapshots c = 0
      then Inl (Validation ''max_active_snapshots must be > 0'')
      else
        bindR (ok_or (checked_mul64 (rc_chunk_frames c) (rc_channels c))
                 (Validation ''chunk allocation size overflow'')) (\<lambda>samples_per_chunk.
        bindR (exact_array_try_from_fn alloc 8 (rc_chunk_count c)
                 (\<lambda>allocated i.
                    bindR (materialized_new_zeroed alloc (i + 1) samples_per_chunk) (\<lambda>buffer.
                    bindR (ok_or (checked_add64 allocated (length buffer * 4))
                             (Validation ''ring sample byte count overflow'')) (\<lambda>allocated'.
                      Inr (allocated', new_chunk buffer)))) 0) (\<lambda>(allocated, cs).
        bindR (ok_or (checked_mul64 samples_per_chunk 4)
                 (Validation ''ring chunk sample byte count overflow'')) (\<lambda>chunk_bytes.
        bindR (ring_metadata_budget_of sc (length cs) chunk_bytes) (\<lambda>budget.
        bindR (ring_metadata_total budget) (\<lambda>budget_total.
          Inr \<lparr>cfg = c, chunks = cs, write_chunk = 0, write_poisoned = False,
               global_write_frame = 0, clear_after_frame = 0, next_sequence = 1,
               dropped_frames = 0, active_snapshots = 0, last_overrun = None,
               overrun_poisoned = False, allocated_sample_bytes = allocated,
               metadata_budget_bytes = budget_total\<rparr>))))))"

definition reset_chunk :: "chunk \<Rightarrow> chunk" where
  "reset_chunk c =
     c\<lparr>sequence := 0, valid_start_frame := 0, valid_frame_count := 0, state := Writable\<rparr>"

definition ring_reset :: "sample_ring \<Rightarrow> sample_ring \<times> unit result" where
  "ring_reset r =
     (if write_poisoned r then (r, Inl (Control ''write chunk lock poisoned''))
      else if overrun_poisoned r then (r, Inl (Control ''last overrun lock poisoned''))
      else if active_snapshots r \<noteq> 0 \<or> (\<exists>c \<in> set (chunks r). pin_count c \<noteq> 0)
      then (r, Inl (Control ''cannot reset ring while a snapshot is active''))
      else if \<exists>c \<in> set (chunks r). state c = Writing
      then (r, Inl (Control ''cannot reset ring while a writer is active''))
      else (r\<lparr>chunks := map reset_chunk (chunks r), write_chunk := 0, global_write_frame := 0,
              clear_after_frame := 0, next_sequence := 1, dropped_frames := 0,
              last_overrun := None\<rparr>, Inr ()))"

text \<open>
  Reading the head and storing it as the clear position are one step here: the ring has one
  writer, the worker thread, and it is that thread that clears.
\<close>

definition ring_clear :: "sample_ring \<Rightarrow> sample_ring \<times> unit result" where
  "ring_clear r = (r\<lparr>clear_after_frame := global_write_frame r\<rparr>, Inr ())"

section \<open>Dropped frames\<close>

definition add_dropped_frames :: "nat \<Rightarrow> sample_ring \<Rightarrow> sample_ring \<times> unit result" where
  "add_dropped_frames frames r =
     (case checked_add64 (dropped_frames r) frames of
        Some n \<Rightarrow> (r\<lparr>dropped_frames := n\<rparr>, Inr ())
      | None \<Rightarrow> (r, Inl (CaptureInvariant ''dropped frame counter exhausted'')))"

definition record_dropped_frames :: "nat \<Rightarrow> sample_ring \<Rightarrow> sample_ring \<times> unit result" where
  "record_dropped_frames frames r = add_dropped_frames frames r"

text \<open>\<open>now\<close> is the reading of the system clock.\<close>

definition record_overrun :: "nat \<Rightarrow> nat \<Rightarrow> sample_ring \<Rightarrow> sample_ring \<times> unit result" where
  "record_overrun now frames r =
     (case add_dropped_frames frames r of
        (r', Inl e) \<Rightarrow> (r', Inl e)
      | (r', Inr _) \<Rightarrow>
          (if overrun_poisoned r' then r' else r'\<lparr>last_overrun := Some now\<rparr>, Inr ()))"

section \<open>The writer\<close>

text \<open>Replacing one chunk of the array.\<close>

abbreviation set_chunk :: "sample_ring \<Rightarrow> nat \<Rightarrow> chunk \<Rightarrow> sample_ring" where
  "set_chunk r i c \<equiv> r\<lparr>chunks := (chunks r)[i := c]\<rparr>"

text \<open>
  One iteration of the \<open>while\<close> loop of \<open>write_interleaved\<close>, from taking the
  \<open>write_chunk\<close> lock to releasing it.  The result \<open>Some i\<close> continues the loop at frame
  \<open>i\<close>, \<^const>\<open>None\<close> is the \<open>break\<close> after an overrun.
\<close>

definition begin_chunk :: "nat \<Rightarrow> sample_ring \<Rightarrow> nat \<Rightarrow> sample_ring" where
  "begin_chunk offset r i =
     (let c = chunks r ! i in
      if offset = 0
      then (set_chunk r i (c\<lparr>state := Writing, valid_start_frame := global_write_frame r,
                            valid_frame_count := 0, sequence := next_sequence r\<rparr>))
             \<lparr>next_sequence := next_sequence r + 1\<rparr>
      else set_chunk r i (c\<lparr>state := Writing\<rparr>))"

definition write_segment ::
    "f32 list \<Rightarrow> nat \<Rightarrow> sample_ring \<Rightarrow> nat \<Rightarrow> nat \<Rightarrow> nat \<Rightarrow> nat \<Rightarrow> nat \<Rightarrow> sample_ring \<times> nat option result" where
  "write_segment samples channels r i offset frame_index frames_to_copy new_global =
     (let r1 = begin_chunk offset r i;
          c1 = chunks r1 ! i;
          dst_start = offset * channels;
          src_start = frame_index * channels;
          sample_count = frames_to_copy * channels;
          new_valid = offset + frames_to_copy
      in
      if data_poisoned c1
      then (r1, Inl (CaptureInvariant ''chunk data lock poisoned''))
      else if length (data c1) < dst_start + sample_count
              \<or> length samples < src_start + sample_count
      then (set_chunk (r1\<lparr>write_poisoned := True\<rparr>) i (c1\<lparr>data_poisoned := True\<rparr>),
            Inl (Panicked ''slice out of range''))
      else
        let c2 = c1\<lparr>data := blit (data c1) dst_start (take sample_count (drop src_start samples)),
                    valid_frame_count := new_valid, state := Published\<rparr>;
            r2 = (set_chunk r1 i c2)\<lparr>global_write_frame := new_global\<rparr>
        in (if rc_chunk_frames (cfg r) \<le> new_valid
            then r2\<lparr>write_chunk := (i + 1) mod length (chunks r2)\<rparr>
            else r2,
            Inr (Some (frame_index + frames_to_copy))))"

definition write_iteration ::
    "nat \<Rightarrow> f32 list \<Rightarrow> nat \<Rightarrow> nat \<Rightarrow> sample_ring \<Rightarrow> nat \<Rightarrow> sample_ring \<times> nat option result" where
  "write_iteration now samples channels total_frames r frame_index =
     (if write_poisoned r then (r, Inl (CaptureInvariant ''write chunk lock poisoned''))
      else if rc_chunk_frames (cfg r) = 0
      then (r\<lparr>write_poisoned := True\<rparr>, Inl (Panicked ''remainder by zero''))
      else if length (chunks r) \<le> write_chunk r
      then (r\<lparr>write_poisoned := True\<rparr>, Inl (Panicked ''chunk index out of range''))
      else
        let global_frame = global_write_frame r;
            offset = global_frame mod rc_chunk_frames (cfg r);
            i = write_chunk r;
            frames_available = rc_chunk_frames (cfg r) - offset;
            frames_to_copy = min frames_available (total_frames - frame_index)
        in
        (case checked_add64 global_frame frames_to_copy of
           None \<Rightarrow> (r, Inl (CaptureInvariant ''local frame counter exhausted''))
         | Some new_global \<Rightarrow>
           if offset = 0 \<and> checked_add64 (next_sequence r) 1 = None
           then (r, Inl (CaptureInvariant ''ring sequence exhausted''))
           else if 0 < pin_count (chunks r ! i)
           then (case record_overrun now (total_frames - frame_index) r of
                   (r', Inl e) \<Rightarrow> (r', Inl e)
                 | (r', Inr _) \<Rightarrow> (r', Inr None))
           else write_segment samples channels r i offset frame_index frames_to_copy new_global))"

lemma write_segment_next:
  "write_segment samples ch r i off fi n g = (r', Inr (Some fi')) \<Longrightarrow> fi' = fi + n"
  by (auto simp: write_segment_def Let_def split: if_splits)

lemma write_iteration_progress:
  assumes "write_iteration now samples ch tot r fi = (r', Inr (Some fi'))" and "fi < tot"
  shows "fi < fi' \<and> fi' \<le> tot"
proof -
  let ?F = "rc_chunk_frames (cfg r)"
  let ?n = "min (?F - global_write_frame r mod ?F) (tot - fi)"
  from assms(1) have F: "?F \<noteq> 0" and seg: "write_segment samples ch r (write_chunk r)
      (global_write_frame r mod ?F) fi ?n (global_write_frame r + ?n) = (r', Inr (Some fi'))"
    by (simp_all add: write_iteration_def Let_def split: if_splits option.splits prod.splits sum.splits)
  from F have "global_write_frame r mod ?F < ?F" by simp
  with write_segment_next[OF seg] assms(2) show ?thesis
    by simp
qed

text \<open>The loop itself: another iteration as long as frames remain.\<close>

function write_loop ::
    "nat \<Rightarrow> f32 list \<Rightarrow> nat \<Rightarrow> nat \<Rightarrow> sample_ring \<Rightarrow> nat \<Rightarrow> sample_ring \<times> unit result" where
  "write_loop now samples channels total_frames r frame_index =
     (if frame_index < total_frames then
        (case write_iteration now samples channels total_frames r frame_index of
           (r', Inl e) \<Rightarrow> (r', Inl e)
         | (r', Inr None) \<Rightarrow> (r', Inr ())
         | (r', Inr (Some next)) \<Rightarrow> write_loop now samples channels total_frames r' next)
      else (r, Inr ()))"
  by pat_completeness auto
termination
  by (relation "measure (\<lambda>(now, samples, channels, total_frames, r, frame_index). total_frames - frame_index)")
     (auto dest: write_iteration_progress[OF sym])

declare write_loop.simps [simp del]

definition write_interleaved :: "nat \<Rightarrow> f32 list \<Rightarrow> nat \<Rightarrow> sample_ring \<Rightarrow> sample_ring \<times> unit result" where
  "write_interleaved now samples channels r =
     (if channels \<noteq> rc_channels (cfg r)
      then (r, Inl (CaptureInvariant ''incoming channels do not match ring channels''))
      else if channels = 0 \<or> length samples mod channels \<noteq> 0
      then (r, Inl (CaptureInvariant ''input sample length is not whole frames''))
      else write_loop now samples channels (length samples div channels) r 0)"

section \<open>Retained range and range copy\<close>

definition write_head_frame :: "sample_ring \<Rightarrow> nat" where
  "write_head_frame r = global_write_frame r"

text \<open>
  The bounded backward walk of \<open>oldest_frame_at\<close>; the first argument counts the remaining
  iterations of \<open>for _ in 0..self.chunks.len()\<close>.
\<close>

fun oldest_walk :: "nat \<Rightarrow> sample_ring \<Rightarrow> nat \<Rightarrow> nat" where
  "oldest_walk 0 r oldest = oldest"
| "oldest_walk (Suc k) r oldest =
     (if oldest = 0 then oldest
      else
        let preceding_frame = oldest - 1;
            c = chunks r ! ((preceding_frame div rc_chunk_frames (cfg r)) mod length (chunks r))
        in
        if state c \<noteq> Published then oldest
        else
          let start = valid_start_frame c;
              end = wadd64 start (valid_frame_count c)
          in if oldest \<le> start \<or> end < oldest then oldest else oldest_walk k r start)"

definition oldest_frame_at :: "sample_ring \<Rightarrow> nat \<Rightarrow> nat" where
  "oldest_frame_at r head = max (oldest_walk (length (chunks r)) r head) (clear_after_frame r)"

definition oldest_frame :: "sample_ring \<Rightarrow> nat" where
  "oldest_frame r = oldest_frame_at r (write_head_frame r)"

definition sample_ring_status :: "sample_ring \<Rightarrow> ring_status" where
  "sample_ring_status r =
     (let global = global_write_frame r; oldest = oldest_frame_at r global in
      \<lparr>st_dropped_frames = dropped_frames r,
       st_retained_frames = saturating_sub64 global oldest,
       st_capacity_frames = rc_chunk_frames (cfg r) * rc_chunk_count (cfg r),
       st_active_snapshots = active_snapshots r,
       st_last_overrun = last_overrun r\<rparr>)"

text \<open>
  The loop of \<open>copy_interleaved_range_into\<close>.  The destination buffer is threaded through:
  on an error it keeps the segments already copied.
\<close>

function copy_loop ::
    "sample_ring \<Rightarrow> nat \<Rightarrow> nat \<Rightarrow> nat \<Rightarrow> f32 list \<Rightarrow> f32 list \<times> nat result" where
  "copy_loop r copy_end cursor destination_frame destination =
     (if cursor < copy_end then
        let channels = rc_channels (cfg r);
            c = chunks r ! ((cursor div rc_chunk_frames (cfg r)) mod length (chunks r))
        in
        if state c \<noteq> Published
        then (destination, Inl (ExportInvariant ''copy range has incomplete coverage''))
        else (case checked_add64 (valid_start_frame c) (valid_frame_count c) of
           None \<Rightarrow> (destination, Inl (ExportInvariant ''chunk frame range overflow''))
         | Some valid_end \<Rightarrow>
           if cursor < valid_start_frame c \<or> valid_end \<le> cursor
           then (destination, Inl (ExportInvariant ''copy range has incomplete coverage''))
           else
             let segment_end = min copy_end valid_end;
                 segment_frames = segment_end - cursor;
                 source_frame = cursor - valid_start_frame c
             in
             (case checked_mul64 source_frame channels of
                None \<Rightarrow> (destination, Inl (ExportInvariant ''copy sample offset overflow''))
              | Some source_start \<Rightarrow>
             (case checked_mul64 segment_frames channels of
                None \<Rightarrow> (destination, Inl (ExportInvariant ''copy sample count overflow''))
              | Some sample_count \<Rightarrow>
             (case checked_mul64 destination_frame channels of
                None \<Rightarrow> (destination, Inl (ExportInvariant ''destination sample offset overflow''))
              | Some destination_start \<Rightarrow>
             if data_poisoned c
             then (destination, Inl (ExportInvariant ''chunk data lock poisoned''))
             else if length destination < destination_start + sample_count
                     \<or> length (data c) < source_start + sample_count
             then (destination, Inl (Panicked ''slice out of range''))
             else copy_loop r copy_end segment_end (destination_frame + segment_frames)
                    (blit destination destination_start
                       (take sample_count (drop source_start (data c))))))))
      else (destination, Inr destination_frame))"
  by pat_completeness auto
termination
  by (relation "measure (\<lambda>(r, copy_end, cursor, df, d). copy_end - cursor)")
     (auto simp: Let_def intro!: diff_less_mono2)

declare copy_loop.simps [simp del]

definition copy_interleaved_range_into ::
    "sample_ring \<Rightarrow> nat \<Rightarrow> nat \<Rightarrow> f32 list \<Rightarrow> f32 list \<times> nat result" where
  "copy_interleaved_range_into r range_start range_end destination =
     (if range_end < range_start
      then (destination, Inl (ExportInvariant ''copy range start exceeds end''))
      else if rc_channels (cfg r) \<noteq> 0 \<and> length destination mod rc_channels (cfg r) \<noteq> 0
              \<or> rc_channels (cfg r) = 0 \<and> destination \<noteq> []
      then (destination, Inl (ExportInvariant ''destination sample length is not whole frames''))
      else if write_poisoned r
      then (destination, Inl (ExportInvariant ''write chunk lock poisoned''))
      else
        let head = write_head_frame r;
            oldest = oldest_frame_at r head
        in
        if range_start < oldest \<or> head < range_end
        then (destination, Inl (ExportInvariant ''copy range is outside retained range''))
        else if rc_channels (cfg r) = 0
        then (destination, Inl (Panicked ''division by zero''))
        else
          (case checked_add64 range_start (length destination div rc_channels (cfg r)) of
             None \<Rightarrow> (destination, Inl (ExportInvariant ''copy frame range overflow''))
           | Some capacity_end \<Rightarrow>
               copy_loop r (min range_end capacity_end) range_start 0 destination))"

end
