(* ===== verification/Ring_History.thy ===== *)
theory Ring_History
  imports Sample_Ring
begin

text \<open>
  The ring against its specification, the history of all accepted samples: the invariant, its
  preservation by every operation, the closed form of the retained range and the exactness of
  the range copy.
\<close>

section \<open>The invariant\<close>

abbreviation F_of :: "sample_ring \<Rightarrow> nat" where
  "F_of r \<equiv> rc_chunk_frames (cfg r)"

abbreviation ch_of :: "sample_ring \<Rightarrow> nat" where
  "ch_of r \<equiv> rc_channels (cfg r)"

abbreviation C_of :: "sample_ring \<Rightarrow> nat" where
  "C_of r \<equiv> length (chunks r)"

text \<open>The number of chunk generations started so far.\<close>

definition started :: "nat \<Rightarrow> nat \<Rightarrow> nat" where
  "started F N = div_ceil N F"

text \<open>
  Chunk generation \<open>q\<close> covers the frames \<open>[q * F, (q + 1) * F)\<close>; the chunk that carries it
  is published, numbered \<open>q + 1\<close> and holds the written part of that slice of the history.
\<close>

definition chunk_holds :: "nat \<Rightarrow> nat \<Rightarrow> nat \<Rightarrow> f32 list \<Rightarrow> nat \<Rightarrow> chunk \<Rightarrow> bool" where
  "chunk_holds F ch N hist q c \<longleftrightarrow>
     state c = Published \<and> sequence c = q + 1 \<and> valid_start_frame c = q * F \<and>
     valid_frame_count c = min F (N - q * F) \<and>
     take (valid_frame_count c * ch) (data c) = take (valid_frame_count c * ch) (drop (q * F * ch) hist)"

definition ring_geom :: "sample_ring \<Rightarrow> bool" where
  "ring_geom r \<longleftrightarrow>
     0 < F_of r \<and> F_of r < u32_lim \<and> 0 < ch_of r \<and> 0 < C_of r \<and> F_of r * ch_of r < u64_lim \<and>
     rc_chunk_count (cfg r) = C_of r \<and>
     (\<forall>c \<in> set (chunks r). length (data c) = F_of r * ch_of r \<and> \<not> data_poisoned c) \<and>
     \<not> write_poisoned r \<and> \<not> overrun_poisoned r"

definition ring_inv :: "sample_ring \<Rightarrow> f32 list \<Rightarrow> bool" where
  "ring_inv r hist \<longleftrightarrow>
     ring_geom r \<and>
     length hist = global_write_frame r * ch_of r \<and>
     global_write_frame r < u64_lim \<and>
     write_chunk r = (global_write_frame r div F_of r) mod C_of r \<and>
     next_sequence r = started (F_of r) (global_write_frame r) + 1 \<and>
     clear_after_frame r \<le> global_write_frame r \<and>
     (\<forall>q. q < started (F_of r) (global_write_frame r) \<and> started (F_of r) (global_write_frame r) \<le> q + C_of r \<longrightarrow>
        chunk_holds (F_of r) (ch_of r) (global_write_frame r) hist q (chunks r ! (q mod C_of r))) \<and>
     (\<forall>i < C_of r. started (F_of r) (global_write_frame r) \<le> i \<longrightarrow>
        state (chunks r ! i) = Writable \<and> valid_frame_count (chunks r ! i) = 0)"

section \<open>Generation arithmetic\<close>

lemma started_0 [simp]: "started F 0 = 0"
  by (simp add: started_def)

lemma started_mult: "0 < F \<Longrightarrow> N mod F = 0 \<Longrightarrow> started F N = N div F"
  by (simp add: started_def div_ceil_def)

lemma started_partial: "0 < N mod F \<Longrightarrow> started F N = Suc (N div F)"
  by (simp add: started_def div_ceil_def)

lemma started_le_iff: "0 < F \<Longrightarrow> started F N \<le> q \<longleftrightarrow> N \<le> q * F"
proof -
  assume F: "0 < F"
  have "N \<le> q * F" if "started F N \<le> q"
  proof -
    have "N \<le> started F N * F"
      unfolding started_def using F by (rule div_ceil_mult_ge)
    also have "\<dots> \<le> q * F" using that by (rule mult_le_mono1)
    finally show ?thesis .
  qed
  moreover have "started F N \<le> q" if "N \<le> q * F"
  proof (rule ccontr)
    assume "\<not> started F N \<le> q"
    then have "Suc q * F \<le> started F N * F"
      by (intro mult_le_mono1) simp
    moreover have "started F N * F < N + F"
      unfolding started_def using F by (rule div_ceil_mult_less)
    ultimately show False using that by simp
  qed
  ultimately show ?thesis by blast
qed

lemma less_started_iff: "0 < F \<Longrightarrow> q < started F N \<longleftrightarrow> q * F < N"
  using started_le_iff[of F N q] by linarith

lemma started_advance:
  assumes F: "0 < F" and n: "0 < n" "n \<le> F - N mod F"
  shows "started F (N + n) = Suc (N div F)"
proof -
  have N: "N = N div F * F + N mod F" by simp
  have "N mod F < F" using F by simp
  have "N + n \<le> Suc (N div F) * F"
    unfolding mult_Suc using N n \<open>N mod F < F\<close> by linarith
  moreover have "N div F * F < N + n"
    using N n by linarith
  ultimately show ?thesis
    using F by (intro antisym) (simp_all add: started_le_iff less_started_iff Suc_le_eq)
qed

section \<open>One segment of the writer\<close>

lemma chunk_holds_extend:
  assumes "chunk_holds F ch N hist q c" and "Suc q * F \<le> N" and "length hist = N * ch"
  shows "chunk_holds F ch (N + n) (hist @ xs) q c"
proof -
  have "F \<le> N - q * F" using assms(2) by simp
  then have eq: "min F (N + n - q * F) = F" "min F (N - q * F) = F" by simp_all
  have "q * F * ch + F * ch \<le> length hist"
    using mult_le_mono1[OF assms(2), of ch] assms(3) by (simp add: algebra_simps)
  with assms(1) eq show ?thesis
    by (auto simp: chunk_holds_def)
qed

text \<open>The chunk after a segment of \<open>n\<close> frames was stored in it.\<close>

definition filled_chunk :: "nat \<Rightarrow> nat \<Rightarrow> nat \<Rightarrow> nat \<Rightarrow> f32 list \<Rightarrow> chunk \<Rightarrow> chunk" where
  "filled_chunk N sq off ch seg c =
     c\<lparr>state := Published,
       sequence := (if off = 0 then sq else sequence c),
       valid_start_frame := (if off = 0 then N else valid_start_frame c),
       valid_frame_count := off + length seg div ch,
       data := blit (data c) (off * ch) seg\<rparr>"

lemma chunk_holds_filled:
  assumes ch: "0 < ch" and F: "0 < F" and len: "length hist = N * ch"
    and off: "off = N mod F" and q: "q = N div F" and seg: "length seg = n * ch"
    and fits: "off + n \<le> F" and data: "length (data c) = F * ch"
    and old: "0 < off \<Longrightarrow> chunk_holds F ch N hist q c" and sq: "off = 0 \<Longrightarrow> sq = q + 1"
  shows "chunk_holds F ch (N + n) (hist @ seg) q (filled_chunk N sq off ch seg c)"
proof -
  have N: "N = q * F + off" using off q by simp
  have tail: "length (drop (q * F * ch) hist) = off * ch"
    using len N by (simp add: algebra_simps)
  have fit: "off * ch + length seg \<le> length (data c)"
    using mult_le_mono1[OF fits, of ch] seg data by (simp add: algebra_simps)
  have pre: "take (off * ch) (data c) = drop (q * F * ch) hist"
  proof (cases "off = 0")
    case True
    then show ?thesis using tail by simp
  next
    case False
    then have "chunk_holds F ch N hist q c" using old by simp
    moreover have "min F (N - q * F) = off" using N fits by simp
    ultimately show ?thesis using tail by (auto simp: chunk_holds_def)
  qed
  have "take ((off + n) * ch) (blit (data c) (off * ch) seg) = drop (q * F * ch) hist @ seg"
    using take_blit_through[OF fit] pre seg by (simp add: algebra_simps)
  moreover have "take ((off + n) * ch) (drop (q * F * ch) (hist @ seg)) = drop (q * F * ch) hist @ seg"
    using tail seg len N by (simp add: algebra_simps)
  moreover have "min F (N + n - q * F) = off + n" using N fits by simp
  moreover have "sequence (filled_chunk N sq off ch seg c) = q + 1"
    using sq old by (auto simp: filled_chunk_def chunk_holds_def)
  moreover have "valid_start_frame (filled_chunk N sq off ch seg c) = q * F"
    using N old by (auto simp: filled_chunk_def chunk_holds_def)
  ultimately show ?thesis
    using ch seg by (simp add: chunk_holds_def filled_chunk_def)
qed

text \<open>What a write leaves alone: the configuration, all pins, and every pinned chunk.\<close>

definition same_pins :: "sample_ring \<Rightarrow> sample_ring \<Rightarrow> bool" where
  "same_pins r r' \<longleftrightarrow>
     cfg r' = cfg r \<and> map pin_count (chunks r') = map pin_count (chunks r) \<and>
     (\<forall>i < C_of r. 0 < pin_count (chunks r ! i) \<longrightarrow> chunks r' ! i = chunks r ! i) \<and>
     active_snapshots r' = active_snapshots r \<and> clear_after_frame r' = clear_after_frame r \<and>
     allocated_sample_bytes r' = allocated_sample_bytes r \<and>
     metadata_budget_bytes r' = metadata_budget_bytes r"

lemma same_pins_refl [simp]: "same_pins r r"
  by (simp add: same_pins_def)

lemma same_pins_length: "same_pins r r' \<Longrightarrow> C_of r' = C_of r"
  unfolding same_pins_def by (metis length_map)

lemma same_pins_pin_count:
  "same_pins r r' \<Longrightarrow> i < C_of r \<Longrightarrow> pin_count (chunks r' ! i) = pin_count (chunks r ! i)"
  using same_pins_length[of r r'] unfolding same_pins_def by (metis nth_map)

lemma same_pins_trans: "same_pins r r' \<Longrightarrow> same_pins r' r'' \<Longrightarrow> same_pins r r''"
  using same_pins_length[of r r'] same_pins_pin_count[of r r'] by (auto simp: same_pins_def)

lemma filled_chunk_eq:
  "filled_chunk N sq off ch seg c =
     (if off = 0
      then c\<lparr>state := Writing, valid_start_frame := N, valid_frame_count := 0, sequence := sq\<rparr>
             \<lparr>data := blit (data c) (off * ch) seg, valid_frame_count := off + length seg div ch, state := Published\<rparr>
      else c\<lparr>state := Writing\<rparr>
             \<lparr>data := blit (data c) (off * ch) seg, valid_frame_count := off + length seg div ch, state := Published\<rparr>)"
  by (cases c) (simp add: filled_chunk_def)

lemma write_segment_eq:
  assumes inv: "ring_inv r hist" and i: "i = write_chunk r" and off: "off = global_write_frame r mod F_of r"
    and seg: "seg = take (n * ch_of r) (drop (fi * ch_of r) samples)"
    and src: "(fi + n) * ch_of r \<le> length samples" and fits: "off + n \<le> F_of r"
  shows "write_segment samples (ch_of r) r i off fi n g =
     (r\<lparr>chunks := (chunks r)[i := filled_chunk (global_write_frame r) (next_sequence r) off (ch_of r) seg (chunks r ! i)],
        next_sequence := (if off = 0 then next_sequence r + 1 else next_sequence r),
        global_write_frame := g,
        write_chunk := (if F_of r \<le> off + n then (i + 1) mod C_of r else write_chunk r)\<rparr>,
      Inr (Some (fi + n)))"
proof -
  have C: "i < C_of r" and ch: "0 < ch_of r"
    using inv i by (simp_all add: ring_inv_def ring_geom_def)
  then have "chunks r ! i \<in> set (chunks r)" by simp
  with inv have len: "length (data (chunks r ! i)) = F_of r * ch_of r" and np: "\<not> data_poisoned (chunks r ! i)"
    by (auto simp: ring_inv_def ring_geom_def)
  have a: "\<not> F_of r * ch_of r < off * ch_of r + n * ch_of r"
    using mult_le_mono1[OF fits, of "ch_of r"] by (simp add: algebra_simps)
  have b: "\<not> length samples < fi * ch_of r + n * ch_of r" and lseg: "length seg = n * ch_of r"
    using src seg by (simp_all add: algebra_simps)
  show ?thesis
    using C len np a b ch lseg fits
    by (cases r) (simp add: write_segment_def begin_chunk_def Let_def filled_chunk_eq seg)
qed

lemma nth_list_update_window:
  assumes "0 < C" and "q < p" and "p < q + C" and "C = length xs"
  shows "xs[p mod C := x] ! (q mod C) = xs ! (q mod C)"
  using mod_window_inj[OF assms(1-3)] by simp

lemma next_write_chunk:
  assumes "0 < (F::nat)" and "n \<le> F - N mod F" and "0 < n"
  shows "((N + n) div F) mod C =
           (if F \<le> N mod F + n then ((N div F) mod C + 1) mod C else (N div F) mod C)"
proof (cases "F \<le> N mod F + n")
  case True
  have "N mod F < F" using assms(1) by simp
  with True assms(2) have "N mod F + n = F" by simp
  then have "N + n = Suc (N div F) * F"
    unfolding mult_Suc using div_mult_mod_eq[of N F] by linarith
  then have "(N + n) div F = Suc (N div F)"
    using assms(1) by simp
  with True show ?thesis by (simp add: mod_Suc_eq)
next
  case False
  have "(N + n) div F = N div F"
  proof (rule div_nat_eqI)
    show "F * (N div F) \<le> N + n"
      using div_mult_mod_eq[of N F] by (simp add: mult.commute trans_le_add1)
    show "N + n < F * Suc (N div F)"
      unfolding mult_Suc_right using False mult_div_mod_eq[of F N] by linarith
  qed
  with False show ?thesis by simp
qed

lemma ring_inv_segment:
  assumes inv: "ring_inv r hist" and n: "0 < n" "n \<le> F_of r - global_write_frame r mod F_of r"
    and seg: "length seg = n * ch_of r" and lim: "global_write_frame r + n < u64_lim"
    and r': "r' = r\<lparr>chunks := (chunks r)[write_chunk r :=
              filled_chunk (global_write_frame r) (next_sequence r) off (ch_of r) seg (chunks r ! write_chunk r)],
              next_sequence := (if off = 0 then next_sequence r + 1 else next_sequence r),
              global_write_frame := global_write_frame r + n,
              write_chunk := (if F_of r \<le> off + n then (write_chunk r + 1) mod C_of r else write_chunk r)\<rparr>"
    and off: "off = global_write_frame r mod F_of r"
  shows "ring_inv r' (hist @ seg)"
proof -
  let ?N = "global_write_frame r" and ?F = "F_of r" and ?ch = "ch_of r" and ?C = "C_of r"
  let ?q = "?N div ?F" and ?S = "started ?F ?N"
  let ?c = "chunks r ! write_chunk r"
  let ?c' = "filled_chunk ?N (next_sequence r) off ?ch seg ?c"
  from inv have geom: "ring_geom r" and len: "length hist = ?N * ?ch" and wc: "write_chunk r = ?q mod ?C"
    and sq: "next_sequence r = ?S + 1" and clr: "clear_after_frame r \<le> ?N"
    and holds: "\<And>q. q < ?S \<Longrightarrow> ?S \<le> q + ?C \<Longrightarrow> chunk_holds ?F ?ch ?N hist q (chunks r ! (q mod ?C))"
    and fresh: "\<And>i. i < ?C \<Longrightarrow> ?S \<le> i \<Longrightarrow> state (chunks r ! i) = Writable \<and> valid_frame_count (chunks r ! i) = 0"
    by (auto simp: ring_inv_def)
  from geom have F: "0 < ?F" and ch: "0 < ?ch" and C: "0 < ?C"
    by (auto simp: ring_geom_def)
  have wlt: "write_chunk r < ?C" using wc C by simp
  then have cin: "?c \<in> set (chunks r)" by simp
  then have dlen: "length (data ?c) = ?F * ?ch" using geom by (auto simp: ring_geom_def)
  have offlt: "off < ?F" using off F by simp
  have fits: "off + n \<le> ?F" using n(2) off offlt by simp
  have S': "started ?F (?N + n) = Suc ?q" using started_advance[OF F n] .
  have S: "?S = (if off = 0 then ?q else Suc ?q)"
    using started_mult[OF F, of ?N] started_partial[of ?N ?F] off by auto
  have new: "chunk_holds ?F ?ch (?N + n) (hist @ seg) ?q ?c'"
  proof (rule chunk_holds_filled[OF ch F len off refl seg fits dlen])
    show "chunk_holds ?F ?ch ?N hist ?q ?c" if "0 < off"
      using holds[of ?q] S C that wc by simp
    show "next_sequence r = ?q + 1" if "off = 0"
      using sq S that by simp
  qed
  have old: "chunk_holds ?F ?ch (?N + n) (hist @ seg) q (chunks r' ! (q mod ?C))"
    if q: "q < ?q" "Suc ?q \<le> q + ?C" for q
  proof -
    have "chunks r' ! (q mod ?C) = chunks r ! (q mod ?C)"
      using nth_list_update_window[OF C q(1), of "chunks r"] q(2) wc r' by simp
    moreover have "chunk_holds ?F ?ch ?N hist q (chunks r ! (q mod ?C))"
      using holds[of q] q S by (auto split: if_splits)
    moreover have "Suc q * ?F \<le> ?N"
    proof -
      have "Suc q * ?F \<le> ?q * ?F" using q(1) by (intro mult_le_mono1) simp
      also have "\<dots> \<le> ?N" by simp
      finally show ?thesis .
    qed
    ultimately show ?thesis
      using chunk_holds_extend[OF _ _ len] by simp
  qed
  have "chunk_holds ?F ?ch (?N + n) (hist @ seg) q (chunks r' ! (q mod ?C))"
    if "q < Suc ?q" "Suc ?q \<le> q + ?C" for q
    using that old[of q] new wc wlt r' by (cases "q = ?q") auto
  moreover have "state (chunks r' ! i) = Writable \<and> valid_frame_count (chunks r' ! i) = 0"
    if "i < ?C" "Suc ?q \<le> i" for i
    using that fresh[of i] S wc r' by (auto split: if_splits)
  moreover have "ring_geom r'"
  proof -
    have "off * ?ch + length seg \<le> length (data ?c)"
      using mult_le_mono1[OF fits, of ?ch] seg dlen by (simp add: algebra_simps)
    then have "length (data ?c') = ?F * ?ch \<and> \<not> data_poisoned ?c'"
      using dlen geom cin by (auto simp: filled_chunk_def ring_geom_def)
    moreover have "set (chunks r') \<subseteq> insert ?c' (set (chunks r))"
      using r' by (simp add: set_update_subset_insert)
    ultimately show ?thesis
      using geom r' by (auto simp: ring_geom_def)
  qed
  ultimately show ?thesis
    using r' len seg lim S' S sq wc clr next_write_chunk[OF F n(2,1), of ?C] off
    by (auto simp: ring_inv_def algebra_simps)
qed

section \<open>The writer extends the history\<close>

lemma started_le: "0 < F \<Longrightarrow> started F N \<le> N"
  unfolding started_def by (rule div_ceil_le)

lemma ring_inv_cong:
  assumes "ring_inv r hist"
  shows "ring_inv (r\<lparr>dropped_frames := d, last_overrun := t\<rparr>) hist"
    and "ring_inv (r\<lparr>dropped_frames := d\<rparr>) hist"
  using assms by (simp_all add: ring_inv_def ring_geom_def)

lemma write_iteration_pinned:
  assumes inv: "ring_inv r hist" and fi: "fi < tot"
    and lim: "global_write_frame r + (tot - fi) + 2 < u64_lim" "dropped_frames r + (tot - fi) < u64_lim"
    and pin: "0 < pin_count (chunks r ! write_chunk r)"
  shows "write_iteration now samples (ch_of r) tot r fi =
           (r\<lparr>dropped_frames := dropped_frames r + (tot - fi), last_overrun := Some now\<rparr>, Inr None)"
proof -
  have "write_chunk r < C_of r" "0 < F_of r" "\<not> write_poisoned r" "\<not> overrun_poisoned r"
    using inv by (auto simp: ring_inv_def ring_geom_def)
  moreover have "next_sequence r + 1 < u64_lim"
    using inv lim(1) started_le[OF \<open>0 < F_of r\<close>, of "global_write_frame r"] by (simp add: ring_inv_def)
  ultimately show ?thesis
    using lim pin by (simp add: write_iteration_def Let_def record_overrun_def add_dropped_frames_def
        checked_add64_def)
qed

lemma list_update_pinned:
  "pin_count (xs ! w) = 0 \<Longrightarrow> 0 < pin_count (xs ! i) \<Longrightarrow> xs[w := c] ! i = xs ! i"
  by (cases "w = i") simp_all

lemma write_iteration_segment:
  assumes inv: "ring_inv r hist" and fi: "fi < tot" and src: "tot * ch_of r \<le> length samples"
    and pin: "pin_count (chunks r ! write_chunk r) = 0"
    and n_def: "n = min (F_of r - global_write_frame r mod F_of r) (tot - fi)"
    and glim: "global_write_frame r + n < u64_lim"
    and sq: "global_write_frame r mod F_of r = 0 \<longrightarrow> next_sequence r + 1 < u64_lim"
  shows "\<exists>r'. 0 < n \<and> fi + n \<le> tot \<and>
           write_iteration now samples (ch_of r) tot r fi = (r', Inr (Some (fi + n))) \<and>
           ring_inv r' (hist @ take (n * ch_of r) (drop (fi * ch_of r) samples)) \<and>
           same_pins r r' \<and> global_write_frame r' = global_write_frame r + n \<and>
           dropped_frames r' = dropped_frames r"
proof -
  let ?N = "global_write_frame r" and ?F = "F_of r" and ?ch = "ch_of r"
  define off where "off = ?N mod ?F"
  define seg where "seg = take (n * ?ch) (drop (fi * ?ch) samples)"
  have F: "0 < ?F" and wc: "write_chunk r < C_of r" and np: "\<not> write_poisoned r"
    using inv by (auto simp: ring_inv_def ring_geom_def)
  have off: "off < ?F" using F by (simp add: off_def)
  have n: "0 < n" "n \<le> ?F - off" "fi + n \<le> tot" using off fi by (auto simp: n_def off_def)
  have fits: "off + n \<le> ?F" using n(2) off by simp
  have "(fi + n) * ?ch \<le> tot * ?ch" using n(3) by (rule mult_le_mono1)
  from this src have src': "(fi + n) * ?ch \<le> length samples" by (rule le_trans)
  then have lseg: "length seg = n * ?ch" by (simp add: seg_def algebra_simps)
  have "write_iteration now samples ?ch tot r fi = write_segment samples ?ch r (write_chunk r) off fi n (?N + n)"
    using np F wc pin glim sq
    by (auto simp: write_iteration_def Let_def n_def off_def checked_add64_def)
  moreover note write_segment_eq[OF inv refl off_def seg_def src' fits, of "?N + n"]
  moreover note ring_inv_segment[OF inv n(1) n(2)[unfolded off_def] lseg glim refl off_def]
  moreover have "(map pin_count (chunks r))[write_chunk r := pin_count (chunks r ! write_chunk r)] = map pin_count (chunks r)"
    using wc by (metis list_update_id map_update)
  ultimately show ?thesis
    using n pin by (auto simp: seg_def same_pins_def filled_chunk_def map_update
        intro!: list_update_pinned)
qed

lemma write_iteration_free:
  assumes inv: "ring_inv r hist" and fi: "fi < tot" and src: "tot * ch_of r \<le> length samples"
    and lim: "global_write_frame r + (tot - fi) + 2 < u64_lim"
    and pin: "pin_count (chunks r ! write_chunk r) = 0"
  shows "\<exists>n r'. 0 < n \<and> fi + n \<le> tot \<and>
           write_iteration now samples (ch_of r) tot r fi = (r', Inr (Some (fi + n))) \<and>
           ring_inv r' (hist @ take (n * ch_of r) (drop (fi * ch_of r) samples)) \<and>
           same_pins r r' \<and> global_write_frame r' = global_write_frame r + n \<and>
           dropped_frames r' = dropped_frames r"
proof -
  have F: "0 < F_of r" using inv by (auto simp: ring_inv_def ring_geom_def)
  have "next_sequence r + 1 < u64_lim"
    using inv lim started_le[OF F, of "global_write_frame r"] by (simp add: ring_inv_def)
  moreover have "global_write_frame r + min (F_of r - global_write_frame r mod F_of r) (tot - fi) < u64_lim"
    using lim by simp
  ultimately show ?thesis
    using write_iteration_segment[OF inv fi src pin refl] by blast
qed

text \<open>
  Any single iteration, whatever its outcome: the invariant is kept, with the history extended
  exactly when the iteration reports progress; pins and pinned chunks are left alone.
\<close>

lemma write_iteration_inv:
  assumes inv: "ring_inv r hist" and fi: "fi < tot" and src: "tot * ch_of r \<le> length samples"
    and run: "write_iteration now samples (ch_of r) tot r fi = (r', res)"
  shows "same_pins r r' \<and>
         ring_inv r' (hist @ (case res of Inr (Some fi') \<Rightarrow>
            take ((fi' - fi) * ch_of r) (drop (fi * ch_of r) samples) | _ \<Rightarrow> []))"
proof -
  let ?N = "global_write_frame r" and ?F = "F_of r"
  define n where "n = min (?F - ?N mod ?F) (tot - fi)"
  have wc: "write_chunk r < C_of r" "0 < ?F" "\<not> write_poisoned r" "\<not> overrun_poisoned r"
    using inv by (auto simp: ring_inv_def ring_geom_def)
  consider (over) "u64_lim \<le> ?N + n" | (seq) "?N + n < u64_lim" "?N mod ?F = 0" "u64_lim \<le> next_sequence r + 1"
    | (pin) "0 < pin_count (chunks r ! write_chunk r)"
    | (free) "?N + n < u64_lim" "?N mod ?F = 0 \<longrightarrow> next_sequence r + 1 < u64_lim" "pin_count (chunks r ! write_chunk r) = 0"
    by linarith
  then show ?thesis
  proof cases
    case over
    then have "r' = r \<and> (\<exists>e. res = Inl e)" using run wc by (auto simp: write_iteration_def Let_def n_def checked_add64_def)
    then show ?thesis using inv by auto
  next
    case seq
    then have "r' = r \<and> (\<exists>e. res = Inl e)" using run wc by (auto simp: write_iteration_def Let_def n_def checked_add64_def)
    then show ?thesis using inv by auto
  next
    case pin
    then have "(r' = r \<and> (\<exists>e. res = Inl e)) \<or> (res = Inr None \<and> r' = r\<lparr>dropped_frames := dropped_frames r + (tot - fi), last_overrun := Some now\<rparr>)"
      using run wc by (auto simp: write_iteration_def Let_def checked_add64_def record_overrun_def
          add_dropped_frames_def split: if_splits)
    then show ?thesis using inv ring_inv_cong(1)[OF inv] by (auto simp: same_pins_def)
  next
    case free
    with write_iteration_segment[OF inv fi src free(3) n_def free(1,2), of now] run
    show ?thesis by auto
  qed
qed

lemma write_loop_history:
  assumes "ring_inv r hist" and "fi \<le> tot" and "tot * ch_of r \<le> length samples"
    and "global_write_frame r + (tot - fi) + 2 < u64_lim" and "dropped_frames r + (tot - fi) < u64_lim"
  shows "\<exists>k r'. fi \<le> k \<and> k \<le> tot \<and> write_loop now samples (ch_of r) tot r fi = (r', Inr ()) \<and>
           ring_inv r' (hist @ take ((k - fi) * ch_of r) (drop (fi * ch_of r) samples)) \<and>
           same_pins r r' \<and> global_write_frame r' = global_write_frame r + (k - fi) \<and>
           dropped_frames r' = dropped_frames r + (tot - k) \<and>
           (k < tot \<longrightarrow> (\<exists>c \<in> set (chunks r). 0 < pin_count c))"
  using assms
proof (induction "tot - fi" arbitrary: r hist fi rule: less_induct)
  case less
  note inv = less.prems(1)
  let ?ch = "ch_of r"
  have wc: "write_chunk r < C_of r"
    using inv by (auto simp: ring_inv_def ring_geom_def)
  consider "fi = tot" | "fi < tot" "0 < pin_count (chunks r ! write_chunk r)"
    | "fi < tot" "pin_count (chunks r ! write_chunk r) = 0"
    using less.prems(2) by linarith
  then show ?case
  proof cases
    case 1
    then show ?thesis
      using inv by (intro exI[of _ fi] exI[of _ r]) (simp add: write_loop.simps)
  next
    case 2
    let ?r = "r\<lparr>dropped_frames := dropped_frames r + (tot - fi), last_overrun := Some now\<rparr>"
    have "write_loop now samples ?ch tot r fi = (?r, Inr ())"
      using write_iteration_pinned[OF inv 2(1) less.prems(4,5) 2(2), of now samples] 2(1)
      by (simp add: write_loop.simps)
    moreover have "same_pins r ?r" by (simp add: same_pins_def)
    moreover have "chunks r ! write_chunk r \<in> set (chunks r)" using wc by simp
    ultimately show ?thesis
      using ring_inv_cong(1)[OF inv] 2 by (intro exI[of _ fi] exI[of _ ?r]) auto
  next
    case 3
    obtain n r1 where n: "0 < n" "fi + n \<le> tot"
      and it: "write_iteration now samples ?ch tot r fi = (r1, Inr (Some (fi + n)))"
      and inv1: "ring_inv r1 (hist @ take (n * ?ch) (drop (fi * ?ch) samples))"
      and pins: "same_pins r r1" and g: "global_write_frame r1 = global_write_frame r + n"
      and d: "dropped_frames r1 = dropped_frames r"
      using write_iteration_free[OF inv 3(1) less.prems(3,4) 3(2)] by blast
    have ch1: "ch_of r1 = ?ch" using pins by (simp add: same_pins_def)
    have smaller: "tot - (fi + n) < tot - fi" using n 3(1) by simp
    have src1: "tot * ch_of r1 \<le> length samples" using less.prems(3) ch1 by simp
    have lim1: "global_write_frame r1 + (tot - (fi + n)) + 2 < u64_lim"
      "dropped_frames r1 + (tot - (fi + n)) < u64_lim"
      using less.prems(4,5) g d n by linarith+
    obtain k r' where k: "fi + n \<le> k" "k \<le> tot"
      and run: "write_loop now samples ?ch tot r1 (fi + n) = (r', Inr ())"
      and inv': "ring_inv r' ((hist @ take (n * ?ch) (drop (fi * ?ch) samples)) @
                   take ((k - (fi + n)) * ?ch) (drop ((fi + n) * ?ch) samples))"
      and pins': "same_pins r1 r'" and g': "global_write_frame r' = global_write_frame r1 + (k - (fi + n))"
      and d': "dropped_frames r' = dropped_frames r1 + (tot - k)"
      and full: "k < tot \<longrightarrow> (\<exists>c \<in> set (chunks r1). 0 < pin_count c)"
      using less.hyps[OF smaller inv1 n(2) src1 lim1] unfolding ch1 by blast
    have e: "n * ?ch + (k - (fi + n)) * ?ch = (k - fi) * ?ch"
      using k(1) by (simp flip: add_mult_distrib)
    have "take (n * ?ch) (drop (fi * ?ch) samples) @ take ((k - (fi + n)) * ?ch) (drop ((fi + n) * ?ch) samples)
        = take ((k - fi) * ?ch) (drop (fi * ?ch) samples)"
      unfolding add_mult_distrib[of fi n] take_drop_append_take_drop e ..
    moreover have "write_loop now samples ?ch tot r fi = (r', Inr ())"
      using it run 3(1) by (simp add: write_loop.simps[of now samples ?ch tot r fi])
    moreover have "(\<exists>c \<in> set (chunks r1). 0 < pin_count c) \<longleftrightarrow> (\<exists>c \<in> set (chunks r). 0 < pin_count c)"
    proof -
      have "pin_count ` set (chunks r1) = pin_count ` set (chunks r)"
        using pins by (metis same_pins_def set_map)
      then show ?thesis by (metis (no_types, lifting) image_iff)
    qed
    ultimately show ?thesis
      using inv' same_pins_trans[OF pins pins'] g g' d d' k full
      by (intro exI[of _ k] exI[of _ r']) auto
  qed
qed

end
