(* ===== verification/Ring_Copy.thy ===== *)
theory Ring_Copy
  imports Ring_History
begin

text \<open>
  The readers of the ring: the oldest retained frame in closed form, and the exactness of the
  range copy against the history of accepted samples.
\<close>

section \<open>The retained range\<close>

text \<open>The frame at which generation \<open>j\<close> begins, or the head if it is not started.\<close>

definition walk_pos :: "nat \<Rightarrow> nat \<Rightarrow> nat \<Rightarrow> nat" where
  "walk_pos F N j = (if j = started F N then N else j * F)"

lemma walk_pos_pred:
  assumes F: "0 < F" and j: "0 < j" "j \<le> started F N"
  shows "(walk_pos F N j - 1) div F = j - 1" and "(j - 1) * F < walk_pos F N j"
    and "walk_pos F N j \<le> (j - 1) * F + min F (N - (j - 1) * F)"
proof -
  have "j - 1 < started F N" using j by linarith
  then have lt: "(j - 1) * F < N"
    unfolding less_started_iff[OF F] .
  have le: "N \<le> j * F" if "j = started F N"
    using started_le_iff[OF F, of N j] that by simp
  have jF: "j * F = (j - 1) * F + F"
    using j(1) by (cases j) simp_all
  have full: "j * F \<le> N" if "j \<noteq> started F N"
    using less_started_iff[OF F, of j N] that j(2) by simp
  show "(j - 1) * F < walk_pos F N j"
    using lt F jF by (auto simp: walk_pos_def)
  show "(walk_pos F N j - 1) div F = j - 1"
  proof (rule div_nat_eqI)
    show "F * (j - 1) \<le> walk_pos F N j - 1"
      using \<open>(j - 1) * F < walk_pos F N j\<close> by (simp add: mult.commute)
    have "walk_pos F N j \<le> j * F" using le by (simp add: walk_pos_def)
    moreover have "0 < walk_pos F N j" using \<open>(j - 1) * F < walk_pos F N j\<close> by linarith
    moreover have "F * Suc (j - 1) = j * F" using j(1) by (simp add: mult.commute)
    ultimately show "walk_pos F N j - 1 < F * Suc (j - 1)" by linarith
  qed
  show "walk_pos F N j \<le> (j - 1) * F + min F (N - (j - 1) * F)"
    using lt jF le full by (auto simp: walk_pos_def)
qed

lemma walk_pos_le: "0 < F \<Longrightarrow> j \<le> started F N \<Longrightarrow> walk_pos F N j \<le> N"
  using less_started_iff[of F j N] by (auto simp: walk_pos_def)

lemma oldest_walk_eq:
  assumes inv: "ring_inv r hist"
  shows "j \<le> started (F_of r) (global_write_frame r) \<Longrightarrow>
         started (F_of r) (global_write_frame r) - j + k \<le> C_of r \<Longrightarrow>
         oldest_walk k r (walk_pos (F_of r) (global_write_frame r) j) =
           (if k = 0 then walk_pos (F_of r) (global_write_frame r) j else (j - k) * F_of r)"
proof (induction k arbitrary: j)
  case 0
  then show ?case by simp
next
  case (Suc k)
  let ?F = "F_of r" and ?N = "global_write_frame r" and ?C = "C_of r"
  let ?S = "started ?F ?N"
  have F: "0 < ?F" and Nlim: "?N < u64_lim"
    using inv by (auto simp: ring_inv_def ring_geom_def)
  show ?case
  proof (cases "j = 0")
    case True
    then have "walk_pos ?F ?N j = 0"
      using started_le_iff[OF F, of ?N 0] by (auto simp: walk_pos_def)
    with True show ?thesis by simp
  next
    case False
    then have j: "0 < j" by simp
    note pos = walk_pos_pred[OF F j Suc.prems(1)]
    let ?c = "chunks r ! ((j - 1) mod ?C)"
    have holds: "chunk_holds ?F (ch_of r) ?N hist (j - 1) ?c"
    proof -
      have "j - 1 < ?S" and "?S \<le> (j - 1) + ?C" using Suc.prems j by linarith+
      then show ?thesis using inv unfolding ring_inv_def by blast
    qed
    then have c: "state ?c = Published" "valid_start_frame ?c = (j - 1) * ?F"
      "valid_frame_count ?c = min ?F (?N - (j - 1) * ?F)"
      by (simp_all add: chunk_holds_def)
    have "(j - 1) * ?F + min ?F (?N - (j - 1) * ?F) < u64_lim"
      using pos(2) walk_pos_le[OF F, of j ?N] Suc.prems(1) Nlim by linarith
    then have "oldest_walk (Suc k) r (walk_pos ?F ?N j) = oldest_walk k r ((j - 1) * ?F)"
      using pos c by (simp add: Let_def)
    also have "(j - 1) * ?F = walk_pos ?F ?N (j - 1)"
      using Suc.prems(1) j unfolding walk_pos_def by (simp del: One_nat_def) linarith
    also have "oldest_walk k r (walk_pos ?F ?N (j - 1)) = (j - Suc k) * ?F"
      using Suc.IH[of "j - 1"] Suc.prems j by (auto simp: walk_pos_def)
    finally show ?thesis by simp
  qed
qed

lemma oldest_frame_at_eq:
  assumes inv: "ring_inv r hist"
  shows "oldest_frame_at r (global_write_frame r) =
           max ((started (F_of r) (global_write_frame r) - C_of r) * F_of r) (clear_after_frame r)"
proof -
  have "0 < C_of r" using inv by (auto simp: ring_inv_def ring_geom_def)
  then have "oldest_walk (C_of r) r (walk_pos (F_of r) (global_write_frame r) (started (F_of r) (global_write_frame r)))
     = (started (F_of r) (global_write_frame r) - C_of r) * F_of r"
    using oldest_walk_eq[OF inv order.refl, of "C_of r"] by simp
  then show ?thesis
    by (simp add: oldest_frame_at_def walk_pos_def)
qed

lemma oldest_frame_le_head: "ring_inv r hist \<Longrightarrow> oldest_frame r \<le> global_write_frame r"
proof -
  assume inv: "ring_inv r hist"
  let ?F = "F_of r" and ?N = "global_write_frame r"
  have F: "0 < ?F" and C: "0 < C_of r" and clr: "clear_after_frame r \<le> ?N"
    using inv by (auto simp: ring_inv_def ring_geom_def)
  have "(started ?F ?N - C_of r) * ?F \<le> ?N"
  proof (cases "started ?F ?N")
    case (Suc m)
    then have "m * ?F < ?N" using less_started_iff[OF F, of m ?N] by simp
    moreover have "(started ?F ?N - C_of r) * ?F \<le> m * ?F"
      using Suc C by (intro mult_le_mono1) linarith
    ultimately show ?thesis by linarith
  qed simp
  with clr show ?thesis
    by (simp add: oldest_frame_def write_head_frame_def oldest_frame_at_eq[OF inv])
qed

lemma window_of_oldest:
  assumes inv: "ring_inv r hist" and lo: "oldest_frame r \<le> s"
  shows "started (F_of r) (global_write_frame r) \<le> s div F_of r + C_of r"
proof (rule ccontr)
  let ?S = "started (F_of r) (global_write_frame r)"
  have F: "0 < F_of r" using inv by (auto simp: ring_inv_def ring_geom_def)
  assume "\<not> ?thesis"
  then have "Suc (s div F_of r) * F_of r \<le> (?S - C_of r) * F_of r" by (intro mult_le_mono1) simp
  moreover have "(?S - C_of r) * F_of r \<le> s"
    using lo oldest_frame_at_eq[OF inv] by (simp add: oldest_frame_def write_head_frame_def)
  moreover have "s < Suc (s div F_of r) * F_of r"
    using div_mult_mod_eq[of s "F_of r"] mod_less_divisor[OF F, of s] unfolding mult_Suc by linarith
  ultimately show False by linarith
qed

section \<open>The range copy returns the history\<close>

lemma chunk_holds_slice:
  assumes h: "chunk_holds F ch N hist q c" and lo: "q * F \<le> s" and se: "s \<le> e"
    and hi: "e \<le> q * F + min F (N - q * F)"
  shows "take ((e - s) * ch) (drop ((s - q * F) * ch) (data c)) = take ((e - s) * ch) (drop (s * ch) hist)"
proof -
  let ?n = "valid_frame_count c"
  have n: "?n = min F (N - q * F)" and eq: "take (?n * ch) (data c) = take (?n * ch) (drop (q * F * ch) hist)"
    using h by (auto simp: chunk_holds_def)
  have "(e - s) + (s - q * F) \<le> ?n" using lo se hi n by linarith
  then have le: "(e - s) * ch + (s - q * F) * ch \<le> ?n * ch"
    by (simp flip: add_mult_distrib)
  have cut: "take ((e - s) * ch) (drop ((s - q * F) * ch) xs) =
        take ((e - s) * ch) (drop ((s - q * F) * ch) (take (?n * ch) xs))" for xs :: "f32 list"
    using le by (simp add: drop_take min_absorb1)
  have "(s - q * F) * ch + q * F * ch = s * ch"
    using lo by (simp flip: add_mult_distrib)
  then show ?thesis
    unfolding cut[of "data c"] eq cut[symmetric] by (simp add: add.commute)
qed

lemma copy_loop_history:
  assumes inv: "ring_inv r hist"
  shows "\<lbrakk>cur \<le> ce; ce \<le> global_write_frame r;
          (started (F_of r) (global_write_frame r) - C_of r) * F_of r \<le> cur;
          (df + (ce - cur)) * ch_of r \<le> length dest; length dest < u64_lim\<rbrakk> \<Longrightarrow>
         copy_loop r ce cur df dest =
           (blit dest (df * ch_of r) (take ((ce - cur) * ch_of r) (drop (cur * ch_of r) hist)),
            Inr (df + (ce - cur)))"
proof (induction "ce - cur" arbitrary: cur df dest rule: less_induct)
  case less
  let ?F = "F_of r" and ?N = "global_write_frame r" and ?C = "C_of r" and ?ch = "ch_of r"
  let ?S = "started ?F ?N"
  have F: "0 < ?F" and C: "0 < ?C" and Nlim: "?N < u64_lim" and hlen: "length hist = ?N * ?ch"
    and Fch: "?F * ?ch < u64_lim"
    using inv by (auto simp: ring_inv_def ring_geom_def)
  show ?case
  proof (cases "cur < ce")
    case False
    then show ?thesis using less.prems(1) by (simp add: copy_loop.simps)
  next
    case True
    define q where "q = cur div ?F"
    let ?c = "chunks r ! (q mod ?C)"
    have qlo: "q * ?F \<le> cur" and qhi: "cur < q * ?F + ?F"
      using div_mult_mod_eq[of cur ?F] mod_less_divisor[OF F, of cur] unfolding q_def by linarith+
    have qS: "q < ?S" using less_started_iff[OF F, of q ?N] qlo True less.prems(2) by linarith
    have qC: "?S \<le> q + ?C"
    proof (rule ccontr)
      assume "\<not> ?S \<le> q + ?C"
      then have "Suc q * ?F \<le> (?S - ?C) * ?F" by (intro mult_le_mono1) simp
      with less.prems(3) qhi show False by simp
    qed
    have holds: "chunk_holds ?F ?ch ?N hist q ?c"
      using inv qS qC by (auto simp: ring_inv_def)
    have cin: "?c \<in> set (chunks r)" using C by simp
    then have np: "\<not> data_poisoned ?c" and dlen: "length (data ?c) = ?F * ?ch"
      using inv by (auto simp: ring_inv_def ring_geom_def)
    define ve where "ve = q * ?F + min ?F (?N - q * ?F)"
    have c: "state ?c = Published" "valid_start_frame ?c = q * ?F" "valid_frame_count ?c = min ?F (?N - q * ?F)"
      using holds by (simp_all add: chunk_holds_def)
    have ve: "cur < ve" "ve < u64_lim" "ve \<le> q * ?F + ?F"
      using qlo qhi less.prems(2) True Nlim by (auto simp: ve_def)
    define se where "se = min ce ve"
    have se: "cur < se" "se \<le> ce" "se \<le> ve" using True ve by (auto simp: se_def)
    have src: "(cur - q * ?F) * ?ch + (se - cur) * ?ch \<le> ?F * ?ch"
    proof -
      have "(cur - q * ?F) + (se - cur) \<le> ?F" using qlo se ve by linarith
      then show ?thesis by (simp flip: add_mult_distrib)
    qed
    have dst: "df * ?ch + (se - cur) * ?ch \<le> length dest"
    proof -
      have "(df + (se - cur)) * ?ch \<le> (df + (ce - cur)) * ?ch"
        using se by (intro mult_le_mono1) simp
      then show ?thesis using less.prems(4) unfolding add_mult_distrib by linarith
    qed
    let ?seg = "take ((se - cur) * ?ch) (drop ((cur - q * ?F) * ?ch) (data ?c))"
    have seg: "?seg = take ((se - cur) * ?ch) (drop (cur * ?ch) hist)"
      using chunk_holds_slice[OF holds qlo] se by (simp add: ve_def)
    have lseg: "length ?seg = (se - cur) * ?ch" using src dlen by simp
    have step: "copy_loop r ce cur df dest =
        copy_loop r ce se (df + (se - cur)) (blit dest (df * ?ch) ?seg)"
      using True c ve se src dst np dlen less.prems(5) Fch qlo
      by (subst copy_loop.simps) (simp add: Let_def checked_add64_def checked_mul64_def q_def[symmetric] ve_def[symmetric] se_def[symmetric])
    have ih: "ce - se < ce - cur" "se \<le> ce" "(?S - ?C) * ?F \<le> se"
      "df + (se - cur) + (ce - se) = df + (ce - cur)"
      using se True less.prems(3) by linarith+
    have ihl: "length (blit dest (df * ?ch) ?seg) = length dest"
      using dst lseg by (intro length_blit) linarith
    have "copy_loop r ce se (df + (se - cur)) (blit dest (df * ?ch) ?seg) =
        (blit (blit dest (df * ?ch) ?seg) ((df + (se - cur)) * ?ch) (take ((ce - se) * ?ch) (drop (se * ?ch) hist)),
         Inr (df + (se - cur) + (ce - se)))"
      using less.hyps[of se "df + (se - cur)" "blit dest (df * ?ch) ?seg"] less.prems(2,4,5) ih ihl by metis
    moreover have "blit (blit dest (df * ?ch) ?seg) ((df + (se - cur)) * ?ch) (take ((ce - se) * ?ch) (drop (se * ?ch) hist))
        = blit dest (df * ?ch) (take ((ce - cur) * ?ch) (drop (cur * ?ch) hist))"
    proof -
      let ?rest = "take ((ce - se) * ?ch) (drop (se * ?ch) hist)"
      have e: "(se - cur) * ?ch + (ce - se) * ?ch = (ce - cur) * ?ch" "cur * ?ch + (se - cur) * ?ch = se * ?ch"
        using se by (simp_all flip: add_mult_distrib)
      have cat: "?seg @ ?rest = take ((ce - cur) * ?ch) (drop (cur * ?ch) hist)"
        unfolding seg e(2)[symmetric] take_drop_append_take_drop e(1) ..
      have "(df + (ce - cur)) * ?ch = df * ?ch + ((se - cur) * ?ch + (ce - se) * ?ch)"
        unfolding e(1) by (simp add: add_mult_distrib)
      then have "df * ?ch + length ?seg + length ?rest \<le> length dest"
        using less.prems(4) lseg by (simp only: length_take) linarith
      from blit_blit_adjacent[OF this] show ?thesis
        unfolding cat lseg by (simp only: add_mult_distrib)
    qed
    ultimately show ?thesis
      unfolding step ih(4) by simp
  qed
qed


lemma copy_range_exact:
  assumes inv: "ring_inv r hist" and lo: "oldest_frame r \<le> s" and se: "s \<le> e" and hi: "e \<le> global_write_frame r"
    and whole: "length dest mod ch_of r = 0" and cap: "s + length dest div ch_of r < u64_lim" "length dest < u64_lim"
  defines "n \<equiv> min (e - s) (length dest div ch_of r)"
  shows "copy_interleaved_range_into r s e dest =
           (blit dest 0 (take (n * ch_of r) (drop (s * ch_of r) hist)), Inr n)"
proof -
  let ?ch = "ch_of r" and ?cap = "length dest div ch_of r"
  have ch: "0 < ?ch" and np: "\<not> write_poisoned r"
    using inv by (auto simp: ring_inv_def ring_geom_def)
  define ce where "ce = min e (s + ?cap)"
  have ce: "s \<le> ce" "ce \<le> global_write_frame r" "ce - s = n"
    using se hi by (auto simp: ce_def n_def)
  have "(started (F_of r) (global_write_frame r) - C_of r) * F_of r \<le> s"
    using lo oldest_frame_at_eq[OF inv] by (simp add: oldest_frame_def write_head_frame_def)
  moreover have "(0 + (ce - s)) * ?ch \<le> length dest"
  proof -
    have "n * ?ch \<le> ?cap * ?ch" by (intro mult_le_mono1) (simp add: n_def)
    also have "\<dots> \<le> length dest" by simp
    finally show ?thesis using ce by simp
  qed
  ultimately have "copy_loop r ce s 0 dest = (blit dest 0 (take (n * ?ch) (drop (s * ?ch) hist)), Inr n)"
    using copy_loop_history[OF inv ce(1,2), of 0 dest] cap ce(3) by simp
  then show ?thesis
    using lo se hi whole cap ch np
    by (simp add: copy_interleaved_range_into_def Let_def oldest_frame_def write_head_frame_def
        ce_def checked_add64_def)
qed

lemma copy_range_refused:
  assumes "ring_inv r hist" and "s \<le> e" and "length dest mod ch_of r = 0"
    and "s < oldest_frame r \<or> global_write_frame r < e"
  shows "copy_interleaved_range_into r s e dest =
           (dest, Inl (ExportInvariant ''copy range is outside retained range''))"
  using assms
  by (auto simp: copy_interleaved_range_into_def Let_def oldest_frame_def write_head_frame_def
      ring_inv_def ring_geom_def)

section \<open>How much is retained\<close>

lemma retained_bounds:
  assumes inv: "ring_inv r hist" and clr: "clear_after_frame r = 0"
  shows "global_write_frame r - oldest_frame r \<le> C_of r * F_of r"
    and "min (global_write_frame r) ((C_of r - 1) * F_of r) \<le> global_write_frame r - oldest_frame r"
proof -
  let ?F = "F_of r" and ?N = "global_write_frame r" and ?C = "C_of r"
  let ?S = "started ?F ?N"
  have F: "0 < ?F" and C: "0 < ?C" using inv by (auto simp: ring_inv_def ring_geom_def)
  have o: "oldest_frame r = (?S - ?C) * ?F"
    using oldest_frame_at_eq[OF inv] clr by (simp add: oldest_frame_def write_head_frame_def)
  have up: "?N \<le> ?S * ?F" and lo: "?S * ?F < ?N + ?F"
    unfolding started_def using F by (simp_all add: div_ceil_mult_ge div_ceil_mult_less)
  have e: "(?S - ?C) * ?F = ?S * ?F - ?C * ?F" by (simp add: diff_mult_distrib)
  show "?N - oldest_frame r \<le> ?C * ?F"
    unfolding o e using up by linarith
  have "(?C - 1) * ?F + ?F = ?C * ?F" using C by (cases ?C) simp_all
  then show "min ?N ((?C - 1) * ?F) \<le> ?N - oldest_frame r"
    unfolding o e using lo by linarith
qed

section \<open>Construction, reset and clear\<close>

lemma ring_inv_empty:
  assumes "ring_geom r" and "global_write_frame r = 0" and "clear_after_frame r = 0"
    and "write_chunk r = 0" and "next_sequence r = 1"
    and "\<forall>c \<in> set (chunks r). state c = Writable \<and> valid_frame_count c = 0"
  shows "ring_inv r []"
  using assms by (auto simp: ring_inv_def)

lemma exact_array_invariant:
  assumes "exact_array_try_from_fn alloc sz len init s = Inr (s', xs)"
    and "\<And>t i t' x. init t i = Inr (t', x) \<Longrightarrow> P x"
  shows "length xs = len \<and> (\<forall>x \<in> set xs. P x)"
proof -
  let ?f = "\<lambda>(s, xs) i. bindR (init s i) (\<lambda>(s', x). Inr (s', xs @ [x]))"
  have gen: "try_fold ?f (t, ys) is = Inr (t', zs) \<Longrightarrow>
      (\<forall>y \<in> set ys. P y) \<Longrightarrow> length zs = length ys + length is \<and> (\<forall>z \<in> set zs. P z)" for t ys "is" t' zs
  proof (induction "is" arbitrary: t ys)
    case Nil
    then show ?case by simp
  next
    case (Cons i "is")
    then obtain t1 x where x: "init t i = Inr (t1, x)"
      and rest: "try_fold ?f (t1, ys @ [x]) is = Inr (t', zs)"
      by (auto simp: bindR_Inr_iff)
    have "\<forall>y \<in> set (ys @ [x]). P y" using Cons.prems(2) assms(2)[OF x] by simp
    from Cons.IH[OF rest this] show ?case by simp
  qed
  from assms(1) have "try_fold ?f (s, []) [0..<len] = Inr (s', xs)"
    by (auto simp: exact_array_try_from_fn_def Let_def split: if_splits)
  from gen[OF this] show ?thesis by simp
qed

lemma ring_new_inv:
  assumes new: "ring_new sc alloc c = Inr r" and u32: "rc_chunk_frames c < u32_lim"
  shows "ring_inv r [] \<and> cfg r = c \<and> dropped_frames r = 0 \<and> active_snapshots r = 0 \<and>
         (\<forall>k \<in> set (chunks r). pin_count k = 0)"
proof -
  define n where "n = rc_chunk_frames c * rc_channels c"
  define init where "init = (\<lambda>allocated i.
                    bindR (materialized_new_zeroed alloc (i + 1) n) (\<lambda>buffer.
                    bindR (ok_or (checked_add64 allocated (length buffer * 4))
                             (Validation ''ring sample byte count overflow'')) (\<lambda>allocated'.
                      Inr (allocated', new_chunk buffer))))"
  from new obtain al cs bt where pos: "0 < rc_channels c" "0 < rc_chunk_frames c" "0 < rc_chunk_count c"
    and n: "n < u64_lim"
    and arr: "exact_array_try_from_fn alloc 8 (rc_chunk_count c) init 0 = Inr (al, cs)"
    and r: "r = \<lparr>cfg = c, chunks = cs, write_chunk = 0, write_poisoned = False,
               global_write_frame = 0, clear_after_frame = 0, next_sequence = 1,
               dropped_frames = 0, active_snapshots = 0, last_overrun = None,
               overrun_poisoned = False, allocated_sample_bytes = al,
               metadata_budget_bytes = bt\<rparr>"
    by (auto simp: ring_new_def n_def init_def bindR_Inr_iff split: if_splits prod.splits)
  have "init t i = Inr (t', x) \<Longrightarrow> x = new_chunk (replicate n 0)" for t i t' x
    by (auto simp: init_def bindR_Inr_iff materialized_new_zeroed_def Let_def split: if_splits)
  from exact_array_invariant[OF arr this]
  have len: "length cs = rc_chunk_count c" and "\<forall>k \<in> set cs. k = new_chunk (replicate n 0)"
    by auto
  then have cs: "state k = Writable \<and> valid_frame_count k = 0 \<and> pin_count k = 0 \<and>
      length (data k) = n \<and> \<not> data_poisoned k" if "k \<in> set cs" for k
    using that by (auto simp: new_chunk_def)
  have "ring_inv r []"
    by (rule ring_inv_empty) (use pos n u32 len cs in \<open>auto simp: r ring_geom_def n_def\<close>)
  with cs show ?thesis by (auto simp: r)
qed

lemma ring_reset_inv:
  assumes inv: "ring_inv r hist" and ok: "ring_reset r = (r', Inr u)"
  shows "ring_inv r' [] \<and> cfg r' = cfg r \<and> active_snapshots r' = 0 \<and>
         active_snapshots r = 0 \<and> (\<forall>c \<in> set (chunks r). pin_count c = 0) \<and>
         (\<forall>c \<in> set (chunks r'). pin_count c = 0)"
proof -
  from ok have r': "r' = r\<lparr>chunks := map reset_chunk (chunks r), write_chunk := 0, global_write_frame := 0,
              clear_after_frame := 0, next_sequence := 1, dropped_frames := 0, last_overrun := None\<rparr>"
    and free: "active_snapshots r = 0" "\<forall>c \<in> set (chunks r). pin_count c = 0"
    by (auto simp: ring_reset_def split: if_splits)
  have "ring_inv r' []"
    by (rule ring_inv_empty) (use inv in \<open>auto simp: r' ring_inv_def ring_geom_def reset_chunk_def\<close>)
  with free show ?thesis by (auto simp: r' reset_chunk_def)
qed

lemma ring_clear_inv:
  "ring_inv r hist \<Longrightarrow> ring_inv (fst (ring_clear r)) hist \<and> oldest_frame (fst (ring_clear r)) = global_write_frame r"
proof -
  assume inv: "ring_inv r hist"
  let ?r = "r\<lparr>clear_after_frame := global_write_frame r\<rparr>"
  have inv': "ring_inv ?r hist" using inv by (simp add: ring_inv_def ring_geom_def)
  have "oldest_frame ?r \<le> global_write_frame r" using oldest_frame_le_head[OF inv'] by simp
  moreover have "global_write_frame r \<le> oldest_frame ?r"
    by (simp add: oldest_frame_def oldest_frame_at_def)
  ultimately show ?thesis using inv' by (simp add: ring_clear_def)
qed

lemma ring_inv_not_writing:
  assumes inv: "ring_inv r hist"
  shows "\<forall>c \<in> set (chunks r). state c \<noteq> Writing"
proof
  fix c assume "c \<in> set (chunks r)"
  then obtain i where i: "i < C_of r" "c = chunks r ! i" by (auto simp: in_set_conv_nth)
  let ?S = "started (F_of r) (global_write_frame r)" and ?C = "C_of r"
  have C: "0 < ?C" using inv by (auto simp: ring_inv_def ring_geom_def)
  show "state c \<noteq> Writing"
  proof (cases "?S \<le> i")
    case True
    then show ?thesis using inv i by (simp add: ring_inv_def)
  next
    case False
    define q where "q = i + (?S - 1 - i) div ?C * ?C"
    have "q \<le> ?S - 1" and "?S - 1 < q + ?C"
      using False div_mult_mod_eq[of "?S - 1 - i" ?C] mod_less_divisor[OF C, of "?S - 1 - i"]
      unfolding q_def by linarith+
    then have "q < ?S" "?S \<le> q + ?C" using False by linarith+
    moreover have "q mod ?C = i" using i(1) by (simp add: q_def)
    ultimately have "chunk_holds (F_of r) (ch_of r) (global_write_frame r) hist q c"
      using inv i(2) unfolding ring_inv_def by metis
    then show ?thesis by (simp add: chunk_holds_def)
  qed
qed

end
