(* ===== verification/Bounded_Fifo.thy ===== *)
theory Bounded_Fifo
  imports Prelude
begin

text \<open>
  The interface of a bounded first-in first-out channel, which two components of the program
  provide: the ingress queue of the capture runtime and the operation lane of the control
  server.  The laws speak of the list of queued items; the lemma of the locale concerns any
  sequence of pushes and pops, whatever their outcomes.
\<close>

datatype 'a fifo_op = Push 'a | Pop

text \<open>A run returns the final channel, the accepted items and the delivered items.\<close>

fun fifo_run ::
    "('a \<Rightarrow> 'q \<Rightarrow> 'q option) \<Rightarrow> ('q \<Rightarrow> ('a \<times> 'q) option) \<Rightarrow> 'a fifo_op list \<Rightarrow> 'q \<Rightarrow> 'q \<times> 'a list \<times> 'a list" where
  "fifo_run push pop [] q = (q, [], [])"
| "fifo_run push pop (Push x # ops) q =
     (case push x q of
        None \<Rightarrow> fifo_run push pop ops q
      | Some q' \<Rightarrow> (case fifo_run push pop ops q' of (r, acc, out) \<Rightarrow> (r, x # acc, out)))"
| "fifo_run push pop (Pop # ops) q =
     (case pop q of
        None \<Rightarrow> fifo_run push pop ops q
      | Some (x, q') \<Rightarrow> (case fifo_run push pop ops q' of (r, acc, out) \<Rightarrow> (r, acc, x # out)))"

locale bounded_fifo =
  fixes inv :: "'q \<Rightarrow> bool"
    and items :: "'q \<Rightarrow> 'a list"
    and capacity :: "'q \<Rightarrow> nat"
    and fits :: "'q \<Rightarrow> 'a \<Rightarrow> bool"
    and push :: "'a \<Rightarrow> 'q \<Rightarrow> 'q option"
    and pop :: "'q \<Rightarrow> ('a \<times> 'q) option"
  assumes push_Some: "\<lbrakk>inv q; fits q x; push x q = Some q'\<rbrakk> \<Longrightarrow>
            inv q' \<and> items q' = items q @ [x] \<and> capacity q' = capacity q \<and> fits q' = fits q"
    and push_full: "\<lbrakk>inv q; capacity q \<le> length (items q)\<rbrakk> \<Longrightarrow> push x q = None"
    and pop_empty: "\<lbrakk>inv q; items q = []\<rbrakk> \<Longrightarrow> pop q = None"
    and pop_item: "\<lbrakk>inv q; items q = x # xs\<rbrakk> \<Longrightarrow>
            \<exists>q'. pop q = Some (x, q') \<and> inv q' \<and> items q' = xs \<and> capacity q' = capacity q \<and> fits q' = fits q"
    and within: "inv q \<Longrightarrow> length (items q) \<le> capacity q"
begin

lemma pop_Some:
  assumes "inv q" and "pop q = Some (x, q')"
  shows "items q = x # items q' \<and> inv q' \<and> capacity q' = capacity q \<and> fits q' = fits q"
proof (cases "items q")
  case Nil
  with assms pop_empty show ?thesis by simp
next
  case (Cons y ys)
  from pop_item[OF assms(1) this] assms(2) Cons show ?thesis by auto
qed

text \<open>
  Nothing is lost, duplicated or reordered: what was queued, followed by what was accepted, is
  what was delivered, followed by what is still queued.
\<close>

lemma run_conserves:
  assumes "inv q" and "\<forall>x. Push x \<in> set ops \<longrightarrow> fits q x" and "fifo_run push pop ops q = (q', acc, out)"
  shows "inv q' \<and> items q @ acc = out @ items q' \<and> length (items q') \<le> capacity q \<and> capacity q' = capacity q"
  using assms
proof (induction ops arbitrary: q acc out)
  case Nil
  then show ?case using within by simp
next
  case (Cons op ops)
  note prems = Cons.prems
  show ?case
  proof (cases op)
    case (Push x)
    show ?thesis
    proof (cases "push x q")
      case None
      with Push prems Cons.IH[of q acc out] show ?thesis by simp
    next
      case (Some q1)
      from prems(2) Push have "fits q x" by simp
      note p = push_Some[OF prems(1) this Some]
      obtain acc1 where run: "fifo_run push pop ops q1 = (q', acc1, out)" and acc: "acc = x # acc1"
        using prems(3) Push Some by (auto split: prod.splits)
      from Cons.IH[OF _ _ run] p prems(2) Push show ?thesis by (simp add: acc)
    qed
  next
    case Pop
    show ?thesis
    proof (cases "pop q")
      case None
      with Pop prems Cons.IH[of q acc out] show ?thesis by simp
    next
      case (Some p)
      obtain x q1 where p: "p = (x, q1)" by (cases p)
      note d = pop_Some[OF prems(1) Some[unfolded p]]
      obtain out1 where run: "fifo_run push pop ops q1 = (q', acc, out1)" and out: "out = x # out1"
        using prems(3) Pop Some p by (auto split: prod.splits)
      from Cons.IH[OF _ _ run] d prems(2) Pop show ?thesis by (simp add: out)
    qed
  qed
qed

end

end
