(* ===== verification/Ingress_Queue.thy ===== *)
theory Ingress_Queue
  imports Memory_Budget Bounded_Fifo
begin

text \<open>
  The ingress queue of \<open>src/capture_arena.rs\<close>: the single-producer single-consumer ring of
  fixed slots between the audio callback and the capture worker, its drop counters and the
  admission of producers.  The atomics are fields of the record.  The admission word keeps the
  open flag in bit 63 and the number of admitted producers in the bits below.
\<close>

section \<open>State\<close>

record ingress_slot =
  slot_frames_used :: nat
  slot_samples :: "f32 list"

record ingress_queue =
  slots :: "ingress_slot list"
  q_channels :: nat
  q_slot_frames :: nat
  published_sequence :: nat
  consumed_sequence :: nat
  enqueued_frames :: nat
  q_dropped_frames :: nat
  cumulative_dropped_frames :: nat
  drop_counter_exhausted :: bool
  producer_admission :: nat
  producer_generation :: nat
  producer_generation_exhausted :: bool

record push_outcome =
  po_enqueued_frames :: nat
  po_dropped_frames :: nat
  po_published_sequence :: nat

definition PRODUCER_OPEN :: nat where
  "PRODUCER_OPEN = 2 ^ 63"

text \<open>\<open>slot_size\<close> is \<open>size_of::<IngressSlot>()\<close>.\<close>

definition ingress_new ::
    "(nat \<Rightarrow> nat \<Rightarrow> bool) \<Rightarrow> nat \<Rightarrow> nat \<Rightarrow> nat \<Rightarrow> nat \<Rightarrow> ingress_queue result" where
  "ingress_new alloc slot_size slot_count slot_frames channels =
     bindR (ok_or (checked_mul64 slot_frames channels)
              (Validation ''capture queue slot sample count overflow'')) (\<lambda>samples_per_slot.
     bindR (exact_array_try_from_fn alloc slot_size slot_count
              (\<lambda>_ i. bindR (materialized_new_zeroed alloc (i + 1) samples_per_slot) (\<lambda>buffer.
                 Inr ((), \<lparr>slot_frames_used = 0, slot_samples = buffer\<rparr>))) ()) (\<lambda>(_, ss).
       Inr \<lparr>slots = ss, q_channels = channels, q_slot_frames = slot_frames,
            published_sequence = 0, consumed_sequence = 0, enqueued_frames = 0,
            q_dropped_frames = 0, cumulative_dropped_frames = 0, drop_counter_exhausted = False,
            producer_admission = PRODUCER_OPEN, producer_generation = 0,
            producer_generation_exhausted = False\<rparr>))"

section \<open>Counters\<close>

definition add_cumulative_dropped_frames :: "nat \<Rightarrow> ingress_queue \<Rightarrow> ingress_queue \<times> unit result" where
  "add_cumulative_dropped_frames frames q =
     (if drop_counter_exhausted q
      then (q, Inl (CaptureInvariant ''cumulative capture dropped frame counter exhausted''))
      else (case checked_add64 (cumulative_dropped_frames q) frames of
              None \<Rightarrow> (q\<lparr>drop_counter_exhausted := True\<rparr>,
                       Inl (CaptureInvariant ''cumulative capture dropped frame counter exhausted''))
            | Some n \<Rightarrow> (q\<lparr>cumulative_dropped_frames := n\<rparr>, Inr ())))"

definition ingress_add_dropped_frames :: "nat \<Rightarrow> ingress_queue \<Rightarrow> ingress_queue \<times> unit result" where
  "ingress_add_dropped_frames frames q =
     (case add_cumulative_dropped_frames frames q of
        (q1, Inl e) \<Rightarrow> (q1, Inl e)
      | (q1, Inr _) \<Rightarrow>
          (case checked_add64 (q_dropped_frames q1) frames of
             None \<Rightarrow> (q1\<lparr>drop_counter_exhausted := True\<rparr>,
                      Inl (CaptureInvariant ''capture ingress dropped frame counter exhausted''))
           | Some n \<Rightarrow> (q1\<lparr>q_dropped_frames := n\<rparr>, Inr ())))"

definition add_enqueued_frames :: "nat \<Rightarrow> ingress_queue \<Rightarrow> ingress_queue \<times> unit result" where
  "add_enqueued_frames frames q =
     (case checked_add64 (enqueued_frames q) frames of
        None \<Rightarrow> (q, Inl (CaptureInvariant ''capture ingress enqueued frame counter exhausted''))
      | Some n \<Rightarrow> (q\<lparr>enqueued_frames := n\<rparr>, Inr ()))"

section \<open>Push\<close>

text \<open>
  The three accesses of one loop iteration to shared state: reading the two heads, writing the
  slot, publishing it.
\<close>

definition queue_depth :: "ingress_queue \<Rightarrow> nat result" where
  "queue_depth q =
     ok_or (checked_sub64 (published_sequence q) (consumed_sequence q))
       (CaptureInvariant ''capture queue sequence invariant failed'')"

definition slot_index :: "ingress_queue \<Rightarrow> nat \<Rightarrow> nat" where
  "slot_index q n = n mod length (slots q)"

definition fill_slot :: "f32 list \<Rightarrow> nat \<Rightarrow> ingress_queue \<Rightarrow> ingress_queue" where
  "fill_slot src frames q =
     (let i = slot_index q (published_sequence q) in
      q\<lparr>slots := (slots q)[i := \<lparr>slot_frames_used = frames mod u32_lim,
                                 slot_samples = blit (slot_samples (slots q ! i)) 0 src\<rparr>]\<rparr>)"

definition push_store ::
    "f32 list \<Rightarrow> nat \<Rightarrow> nat \<Rightarrow> nat \<Rightarrow> ingress_queue \<Rightarrow> ingress_queue \<times> nat option result" where
  "push_store samples channels source frames q =
     (case checked_add64 (published_sequence q) 1 of
        None \<Rightarrow> (q, Inl (CaptureInvariant ''capture queue sequence exhausted''))
      | Some next_published \<Rightarrow>
        (case add_enqueued_frames frames q of
           (q1, Inl e) \<Rightarrow> (q1, Inl e)
         | (q1, Inr _) \<Rightarrow>
           (case checked_mul64 source channels of
              None \<Rightarrow> (q1, Inl (CaptureInvariant ''capture queue source offset overflow''))
            | Some source_start \<Rightarrow>
              (case checked_mul64 frames channels of
                 None \<Rightarrow> (q1, Inl (CaptureInvariant ''capture queue sample count overflow''))
               | Some sample_count \<Rightarrow>
                 if length (slot_samples (slots q1 ! slot_index q1 (published_sequence q1))) < sample_count
                    \<or> length samples < source_start + sample_count
                 then (q1, Inl (Panicked ''slice out of range''))
                 else ((fill_slot (take sample_count (drop source_start samples)) frames q1)
                         \<lparr>published_sequence := next_published\<rparr>, Inr (Some frames))))))"

definition push_iteration ::
    "f32 list \<Rightarrow> nat \<Rightarrow> nat \<Rightarrow> nat \<Rightarrow> ingress_queue \<Rightarrow> ingress_queue \<times> nat option result" where
  "push_iteration samples channels tot source q =
     (case queue_depth q of
        Inl e \<Rightarrow> (q, Inl e)
      | Inr queued \<Rightarrow>
          if length (slots q) \<le> queued
          then (case ingress_add_dropped_frames (tot - source) q of
                  (q1, Inl e) \<Rightarrow> (q1, Inl e)
                | (q1, Inr _) \<Rightarrow> (q1, Inr None))
          else push_store samples channels source (min (tot - source) (q_slot_frames q)) q)"

lemma ingress_add_dropped_frames_frame:
  "ingress_add_dropped_frames n q = (q', res) \<Longrightarrow>
     slots q' = slots q \<and> consumed_sequence q' = consumed_sequence q \<and>
     published_sequence q' = published_sequence q \<and> q_channels q' = q_channels q \<and>
     q_slot_frames q' = q_slot_frames q \<and> enqueued_frames q' = enqueued_frames q"
  by (auto simp: ingress_add_dropped_frames_def add_cumulative_dropped_frames_def split: if_splits option.splits)

text \<open>What one stored slot does to the queue.\<close>

definition stored :: "f32 list \<Rightarrow> nat \<Rightarrow> ingress_queue \<Rightarrow> ingress_queue" where
  "stored src frames q =
     (fill_slot src frames (q\<lparr>enqueued_frames := enqueued_frames q + frames\<rparr>))
       \<lparr>published_sequence := published_sequence q + 1\<rparr>"

lemma push_store_Some:
  assumes "push_store samples ch source frames q = (q', Inr (Some n))"
  shows "n = frames \<and> q' = stored (take (frames * ch) (drop (source * ch) samples)) frames q \<and>
         source * ch + frames * ch \<le> length samples \<and>
         frames * ch \<le> length (slot_samples (slots q ! slot_index q (published_sequence q))) \<and>
         published_sequence q + 1 < u64_lim"
proof -
  have p: "published_sequence q + 1 < u64_lim"
    using assms by (auto simp: push_store_def split: option.splits)
  have e: "enqueued_frames q + frames < u64_lim"
    using assms p by (auto simp: push_store_def add_enqueued_frames_def split: option.splits)
  let ?q1 = "q\<lparr>enqueued_frames := enqueued_frames q + frames\<rparr>"
  have m: "source * ch < u64_lim" "frames * ch < u64_lim"
    using assms p e by (auto simp: push_store_def add_enqueued_frames_def checked_add64_def split: option.splits)
  show ?thesis
    using assms p e m
    by (auto simp: push_store_def add_enqueued_frames_def checked_add64_def checked_mul64_def stored_def
        slot_index_def split: if_splits)
qed

lemma push_iteration_Some:
  assumes "push_iteration samples ch tot source q = (q', Inr (Some n))"
  shows "n = min (tot - source) (q_slot_frames q) \<and>
         q' = stored (take (n * ch) (drop (source * ch) samples)) n q \<and>
         source * ch + n * ch \<le> length samples \<and>
         n * ch \<le> length (slot_samples (slots q ! slot_index q (published_sequence q))) \<and>
         consumed_sequence q \<le> published_sequence q \<and>
         published_sequence q - consumed_sequence q < length (slots q) \<and> published_sequence q + 1 < u64_lim"
proof -
  have d: "consumed_sequence q \<le> published_sequence q"
    using assms by (auto simp: push_iteration_def queue_depth_def ok_or_def split: sum.splits option.splits)
  then have f: "published_sequence q - consumed_sequence q < length (slots q)"
    using assms by (auto simp: push_iteration_def queue_depth_def checked_sub64_def split: if_splits prod.splits sum.splits)
  with d assms have "push_store samples ch source (min (tot - source) (q_slot_frames q)) q = (q', Inr (Some n))"
    by (simp add: push_iteration_def queue_depth_def checked_sub64_def)
  from push_store_Some[OF this] d f show ?thesis by blast
qed

lemma stored_simps [simp]:
  "length (slots (stored src n q)) = length (slots q)"
  "consumed_sequence (stored src n q) = consumed_sequence q"
  "published_sequence (stored src n q) = published_sequence q + 1"
  "q_channels (stored src n q) = q_channels q"
  "q_slot_frames (stored src n q) = q_slot_frames q"
  "enqueued_frames (stored src n q) = enqueued_frames q + n"
  "q_dropped_frames (stored src n q) = q_dropped_frames q"
  "cumulative_dropped_frames (stored src n q) = cumulative_dropped_frames q"
  "drop_counter_exhausted (stored src n q) = drop_counter_exhausted q"
  "producer_admission (stored src n q) = producer_admission q"
  by (simp_all add: stored_def fill_slot_def Let_def)

lemma push_iteration_progress:
  assumes "push_iteration samples ch tot source q = (q', Inr (Some frames))"
  shows "length (slots q') = length (slots q) \<and> consumed_sequence q' = consumed_sequence q \<and>
         published_sequence q' = published_sequence q + 1 \<and> consumed_sequence q \<le> published_sequence q \<and>
         published_sequence q - consumed_sequence q < length (slots q)"
  using push_iteration_Some[OF assms] by auto

text \<open>
  The loop.  It ends even for slots of no frames: then the queue fills up and the remaining
  frames are dropped.
\<close>

function push_loop ::
    "f32 list \<Rightarrow> nat \<Rightarrow> nat \<Rightarrow> nat \<Rightarrow> nat \<Rightarrow> ingress_queue \<Rightarrow> ingress_queue \<times> push_outcome result" where
  "push_loop samples channels tot source enqueued q =
     (if source < tot then
        (case push_iteration samples channels tot source q of
           (q1, Inl e) \<Rightarrow> (q1, Inl e)
         | (q1, Inr None) \<Rightarrow>
             (q1, Inr \<lparr>po_enqueued_frames = enqueued, po_dropped_frames = tot - source,
                       po_published_sequence = published_sequence q\<rparr>)
         | (q1, Inr (Some frames)) \<Rightarrow>
             push_loop samples channels tot (source + frames) (enqueued + frames) q1)
      else (q, Inr \<lparr>po_enqueued_frames = enqueued, po_dropped_frames = 0,
                    po_published_sequence = published_sequence q\<rparr>))"
  by pat_completeness auto
termination
  by (relation "measures [\<lambda>(samples, ch, tot, source, enq, q). tot - source,
        \<lambda>(samples, ch, tot, source, enq, q). length (slots q) + consumed_sequence q - published_sequence q]")
     (auto dest!: push_iteration_progress[OF sym])

declare push_loop.simps [simp del]

definition try_push :: "f32 list \<Rightarrow> nat \<Rightarrow> ingress_queue \<Rightarrow> ingress_queue \<times> push_outcome result" where
  "try_push samples channels q =
     (if drop_counter_exhausted q
      then (q, Inl (CaptureInvariant ''cumulative capture dropped frame counter exhausted''))
      else if channels \<noteq> q_channels q
      then (q, Inl (CaptureInvariant ''incoming channels do not match capture ingress channels''))
      else if channels = 0 \<or> length samples mod channels \<noteq> 0
      then (q, Inl (CaptureInvariant ''input sample length is not whole frames''))
      else push_loop samples channels (length samples div channels) 0 0 q)"

section \<open>Producer admission\<close>

text \<open>
  The compare-exchange loop of \<open>ProducerAdmission::acquire\<close> ends with an update of the
  value it finally observed; that update is the operation.
\<close>

definition admission_open :: "ingress_queue \<Rightarrow> bool" where
  "admission_open q = (PRODUCER_OPEN \<le> producer_admission q)"

definition admitted_producers :: "ingress_queue \<Rightarrow> nat" where
  "admitted_producers q = producer_admission q mod PRODUCER_OPEN"

definition producer_acquire :: "ingress_queue \<Rightarrow> ingress_queue \<times> unit result" where
  "producer_acquire q =
     (if \<not> admission_open q then (q, Inl (CaptureInvariant ''capture ingress is closed''))
      else if admitted_producers q = PRODUCER_OPEN - 1
      then (q, Inl (CaptureInvariant ''capture producer count exhausted''))
      else (q\<lparr>producer_admission := producer_admission q + 1\<rparr>, Inr ()))"

definition producer_drop :: "ingress_queue \<Rightarrow> ingress_queue" where
  "producer_drop q =
     (let q1 = (case checked_add64 (producer_generation q) 1 of
                  Some n \<Rightarrow> q\<lparr>producer_generation := n\<rparr>
                | None \<Rightarrow> q\<lparr>producer_generation_exhausted := True\<rparr>)
      in q1\<lparr>producer_admission := wsub64 (producer_admission q1) 1\<rparr>)"

definition close_producer_admission :: "ingress_queue \<Rightarrow> ingress_queue" where
  "close_producer_admission q = q\<lparr>producer_admission := admitted_producers q\<rparr>"

definition try_push_interleaved :: "f32 list \<Rightarrow> nat \<Rightarrow> ingress_queue \<Rightarrow> ingress_queue \<times> push_outcome result" where
  "try_push_interleaved samples channels q =
     (case producer_acquire q of
        (q1, Inl e) \<Rightarrow> (q1, Inl e)
      | (q1, Inr _) \<Rightarrow> (case try_push samples channels q1 of (q2, res) \<Rightarrow> (producer_drop q2, res)))"

text \<open>
  \<open>calibration_boundary\<close> runs beside the producer.  \<open>obs i\<close> is the queue at the time
  of its \<open>i\<close>-th load.
\<close>

definition calibration_boundary :: "(nat \<Rightarrow> ingress_queue) \<Rightarrow> (nat \<times> nat) option result" where
  "calibration_boundary obs =
     (if producer_generation_exhausted (obs 0)
      then Inl (CaptureInvariant ''capture producer generation exhausted'')
      else
        let generation = producer_generation (obs 1) in
        if admitted_producers (obs 2) \<noteq> 0 then Inr None
        else
          let first_sequence = published_sequence (obs 3);
              dropped_at_acceptance = cumulative_dropped_frames (obs 4)
          in
          if admitted_producers (obs 5) \<noteq> 0 \<or> producer_generation (obs 6) \<noteq> generation then Inr None
          else Inr (Some (first_sequence, dropped_at_acceptance)))"

section \<open>Consume\<close>

text \<open>The samples, frame count and sequence number handed to the consumer, and the queue after it.\<close>

definition consume_next :: "ingress_queue \<Rightarrow> ((f32 list \<times> nat \<times> nat) \<times> ingress_queue) option" where
  "consume_next q =
     (let consumed = consumed_sequence q in
      if published_sequence q \<le> consumed then None
      else
        let slot = slots q ! slot_index q consumed;
            frames = slot_frames_used slot
        in Some ((take (frames * q_channels q) (slot_samples slot), frames, consumed),
                 q\<lparr>consumed_sequence := consumed + 1\<rparr>))"

section \<open>The queue as a bounded channel\<close>

definition slot_item :: "ingress_queue \<Rightarrow> nat \<Rightarrow> f32 list" where
  "slot_item q n =
     (let slot = slots q ! slot_index q n in take (slot_frames_used slot * q_channels q) (slot_samples slot))"

definition queue_items :: "ingress_queue \<Rightarrow> f32 list list" where
  "queue_items q = map (slot_item q) [consumed_sequence q..<published_sequence q]"

definition queue_capacity :: "ingress_queue \<Rightarrow> nat" where
  "queue_capacity q = length (slots q)"

definition queue_inv :: "ingress_queue \<Rightarrow> bool" where
  "queue_inv q \<longleftrightarrow>
     0 < q_channels q \<and> 0 < q_slot_frames q \<and> q_slot_frames q < u32_lim \<and> 0 < length (slots q) \<and>
     q_slot_frames q * q_channels q < u64_lim \<and>
     (\<forall>slot \<in> set (slots q). length (slot_samples slot) = q_slot_frames q * q_channels q) \<and>
     consumed_sequence q \<le> published_sequence q \<and>
     published_sequence q \<le> consumed_sequence q + length (slots q) \<and> published_sequence q < u64_lim \<and>
     (\<forall>n. consumed_sequence q \<le> n \<and> n < published_sequence q \<longrightarrow>
        slot_frames_used (slots q ! slot_index q n) \<le> q_slot_frames q)"

lemma length_queue_items: "length (queue_items q) = published_sequence q - consumed_sequence q"
  by (simp add: queue_items_def)

lemma stored_slot:
  assumes inv: "queue_inv q" and room: "published_sequence q - consumed_sequence q < length (slots q)"
    and src: "length src = n * q_channels q" and n: "n \<le> q_slot_frames q" and lim: "published_sequence q + 1 < u64_lim"
  shows "queue_inv (stored src n q)" and "queue_items (stored src n q) = queue_items q @ [src]"
proof -
  let ?p = "published_sequence q" and ?c = "consumed_sequence q" and ?C = "length (slots q)" and ?ch = "q_channels q"
  let ?i = "slot_index q ?p" and ?q = "stored src n q"
  from inv have C: "0 < ?C" and le: "?c \<le> ?p" and F: "q_slot_frames q < u32_lim"
    and len: "\<forall>slot \<in> set (slots q). length (slot_samples slot) = q_slot_frames q * ?ch"
    by (auto simp: queue_inv_def)
  have i: "?i < ?C" using C by (simp add: slot_index_def)
  have leni: "length (slot_samples (slots q ! ?i)) = q_slot_frames q * ?ch" using len i by simp
  have fit: "0 + length src \<le> length (slot_samples (slots q ! ?i))"
    using leni src mult_le_mono1[OF n, of ?ch] by simp
  let ?new = "\<lparr>slot_frames_used = n, slot_samples = blit (slot_samples (slots q ! ?i)) 0 src\<rparr>"
  have slots: "slots ?q = (slots q)[?i := ?new]"
    using n F by (simp add: stored_def fill_slot_def slot_index_def Let_def)
  have idx: "slot_index ?q m = slot_index q m" for m by (simp add: slot_index_def)
  have old: "slots ?q ! slot_index q m = slots q ! slot_index q m" if "?c \<le> m" "m < ?p" for m
  proof -
    have "?p < m + ?C" using that room le by linarith
    from mod_window_inj[OF C that(2) this] show ?thesis by (simp add: slots slot_index_def)
  qed
  have new: "slots ?q ! ?i = ?new" using i by (simp add: slots)
  have "slot_item ?q m = slot_item q m" if "?c \<le> m" "m < ?p" for m
    using old[OF that] by (simp add: slot_item_def idx)
  moreover have "slot_item ?q ?p = src"
    using take_blit_through[OF fit] src by (simp add: slot_item_def idx new)
  ultimately show "queue_items ?q = queue_items q @ [src]"
    using le by (simp add: queue_items_def)
  have "length (slot_samples ?new) = q_slot_frames q * ?ch" using length_blit[OF fit] leni by simp
  then have "\<forall>slot \<in> set (slots ?q). length (slot_samples slot) = q_slot_frames q * ?ch"
    using len set_update_subset_insert[of "slots q" ?i ?new] unfolding slots by blast
  moreover have "slot_frames_used (slots ?q ! slot_index q m) \<le> q_slot_frames q" if "?c \<le> m" "m < Suc ?p" for m
  proof (cases "m = ?p")
    case True
    then show ?thesis using new n by simp
  next
    case False
    with that old[of m] inv show ?thesis by (simp add: queue_inv_def)
  qed
  ultimately show "queue_inv ?q"
    using inv room lim by (auto simp: queue_inv_def idx)
qed

lemma consume_next_item:
  assumes inv: "queue_inv q" and items: "queue_items q = x # xs"
  shows "\<exists>n. consume_next q = Some ((x, n, consumed_sequence q), q\<lparr>consumed_sequence := consumed_sequence q + 1\<rparr>) \<and>
           length x = n * q_channels q \<and>
           queue_inv (q\<lparr>consumed_sequence := consumed_sequence q + 1\<rparr>) \<and>
           queue_items (q\<lparr>consumed_sequence := consumed_sequence q + 1\<rparr>) = xs"
proof -
  let ?p = "published_sequence q" and ?c = "consumed_sequence q"
  let ?q = "q\<lparr>consumed_sequence := ?c + 1\<rparr>" and ?slot = "slots q ! slot_index q (consumed_sequence q)"
  have lt: "?c < ?p"
  proof (rule ccontr)
    assume "\<not> ?thesis"
    with items show False by (simp add: queue_items_def)
  qed
  then have up: "[?c..<?p] = ?c # [Suc ?c..<?p]" by (rule upt_conv_Cons)
  have item: "slot_item (q\<lparr>consumed_sequence := k\<rparr>) m = slot_item q m" for m k by (simp add: slot_item_def slot_index_def)
  have x: "x = slot_item q ?c" and xs: "xs = map (slot_item q) [Suc ?c..<?p]"
    using items unfolding queue_items_def up by simp_all
  have "?slot \<in> set (slots q)" using inv by (simp add: slot_index_def queue_inv_def)
  then have "length (slot_samples ?slot) = q_slot_frames q * q_channels q"
    using inv by (simp add: queue_inv_def)
  moreover have "slot_frames_used ?slot * q_channels q \<le> q_slot_frames q * q_channels q"
    using inv lt by (intro mult_le_mono1) (simp add: queue_inv_def)
  ultimately have "length x = slot_frames_used ?slot * q_channels q"
    by (simp add: x slot_item_def Let_def)
  moreover have "consume_next q = Some ((x, slot_frames_used ?slot, ?c), ?q)"
    using lt by (simp add: consume_next_def Let_def x slot_item_def)
  moreover have "queue_inv ?q" using inv lt by (auto simp: queue_inv_def slot_index_def)
  moreover have "queue_items ?q = xs"
    using item by (simp add: queue_items_def xs)
  ultimately show ?thesis by blast
qed

lemma consumed_frames_le:
  assumes "queue_inv q" and "consume_next q = Some ((x, n, sq), q')"
  shows "n \<le> q_slot_frames q"
  using assms by (auto simp: consume_next_def queue_inv_def Let_def split: if_splits)

text \<open>Pushing one slot of whole frames, and taking one slot.\<close>

definition push_slot :: "f32 list \<Rightarrow> ingress_queue \<Rightarrow> ingress_queue option" where
  "push_slot x q =
     (case push_iteration x (q_channels q) (length x div q_channels q) 0 q of
        (q', Inr (Some _)) \<Rightarrow> Some q' | _ \<Rightarrow> None)"

definition pop_slot :: "ingress_queue \<Rightarrow> (f32 list \<times> ingress_queue) option" where
  "pop_slot q = map_option (\<lambda>((x, _, _), q'). (x, q')) (consume_next q)"

definition slot_fits :: "ingress_queue \<Rightarrow> f32 list \<Rightarrow> bool" where
  "slot_fits q x = (x \<noteq> [] \<and> length x mod q_channels q = 0 \<and> length x \<le> q_slot_frames q * q_channels q)"

lemma push_slot_Some:
  assumes inv: "queue_inv q" and fit: "slot_fits q x" and ok: "push_slot x q = Some q'"
  shows "queue_inv q' \<and> queue_items q' = queue_items q @ [x] \<and> queue_capacity q' = queue_capacity q \<and>
         slot_fits q' = slot_fits q"
proof -
  let ?ch = "q_channels q"
  let ?n = "length x div q_channels q"
  have ch: "0 < ?ch" using inv by (simp add: queue_inv_def)
  have len: "length x = ?n * ?ch" using fit by (auto simp: slot_fits_def)
  have "length x div ?ch \<le> (q_slot_frames q * ?ch) div ?ch"
    using fit unfolding slot_fits_def by (intro div_le_mono) simp
  then have n: "?n \<le> q_slot_frames q" using ch by simp
  obtain k where "push_iteration x ?ch ?n 0 q = (q', Inr (Some k))"
    using ok by (auto simp: push_slot_def split: prod.splits sum.splits option.splits)
  from push_iteration_Some[OF this] n
  have q': "q' = stored (take (?n * ?ch) x) ?n q" and room: "published_sequence q - consumed_sequence q < length (slots q)"
    and lim: "published_sequence q + 1 < u64_lim"
    by (auto simp: min_absorb1)
  have "take (?n * ?ch) x = x" using len by simp
  then have q: "q' = stored x ?n q" using q' by simp
  from stored_slot[OF inv room len n lim] show ?thesis
    unfolding q by (auto simp: queue_capacity_def slot_fits_def fun_eq_iff)
qed

lemma push_slot_full:
  assumes "queue_inv q" and "queue_capacity q \<le> length (queue_items q)"
  shows "push_slot x q = None"
  using assms
  by (auto simp: push_slot_def push_iteration_def queue_depth_def queue_inv_def queue_capacity_def
      length_queue_items checked_sub64_def split: prod.splits sum.splits)

interpretation ingress: bounded_fifo queue_inv queue_items queue_capacity slot_fits push_slot pop_slot
proof unfold_locales
  fix q x q' assume "queue_inv q" "slot_fits q x" "push_slot x q = Some q'"
  then show "queue_inv q' \<and> queue_items q' = queue_items q @ [x] \<and> queue_capacity q' = queue_capacity q \<and>
         slot_fits q' = slot_fits q"
    by (rule push_slot_Some)
next
  fix q x assume "queue_inv q" "queue_capacity q \<le> length (queue_items q)"
  then show "push_slot x q = None" by (rule push_slot_full)
next
  fix q assume "queue_inv q" "queue_items q = []"
  then show "pop_slot q = None" by (auto simp: pop_slot_def consume_next_def queue_items_def Let_def)
next
  fix q x xs assume "queue_inv q" "queue_items q = x # xs"
  from consume_next_item[OF this]
  show "\<exists>q'. pop_slot q = Some (x, q') \<and> queue_inv q' \<and> queue_items q' = xs \<and>
      queue_capacity q' = queue_capacity q \<and> slot_fits q' = slot_fits q"
    by (auto simp: pop_slot_def queue_capacity_def slot_fits_def fun_eq_iff)
next
  fix q assume "queue_inv q"
  then show "length (queue_items q) \<le> queue_capacity q"
    by (auto simp: queue_inv_def queue_capacity_def length_queue_items)
qed

end
