(* ===== verification/Calibration_Slot.thy ===== *)
theory Calibration_Slot
  imports Ingress_Queue
begin

text \<open>
  The calibration slot of \<open>src/capture_arena.rs\<close>: the state byte shared by one client and
  the capture worker, the request, and the buffers the worker fills.  Every operation is one
  atomic change of the state byte together with the plain memory accesses it protects.

  Arithmetic on \<open>f64\<close> is a parameter: a record of the operations that the accumulation
  uses.  Nothing below depends on their values.
\<close>

section \<open>State\<close>

type_synonym f64 = "64 word"

record fp_ops =
  fp_of_f32 :: "f32 \<Rightarrow> f64"
  fp_mul :: "f64 \<Rightarrow> f64 \<Rightarrow> f64"
  fp_add :: "f64 \<Rightarrow> f64 \<Rightarrow> f64"
  fp_div :: "f64 \<Rightarrow> f64 \<Rightarrow> f64"
  fp_of_u64 :: "nat \<Rightarrow> f64"
  fp_sqrt :: "f64 \<Rightarrow> f64"
  fp_to_f32 :: "f64 \<Rightarrow> f32"
  fp_max32 :: "f32 \<Rightarrow> f32 \<Rightarrow> f32"

text \<open>\<open>f32::abs\<close> clears the sign bit.\<close>

definition f32_abs :: "f32 \<Rightarrow> f32" where
  "f32_abs b = and b 0x7FFFFFFF"

datatype calibration_state =
    CalIdle | CalReady | CalCapturing | CalComplete | CalLeased | CalPreparing | CalCancelled | CalFailed

record calibration_request =
  cr_channel :: nat
  cr_frames :: nat

record calibration_metadata =
  cm_frames :: nat
  cm_sample_rate :: nat
  cm_complete_windows :: nat
  cm_partial_final_frames :: nat
  cm_dropped_frames :: nat
  cm_usable :: bool

record calibration_slot =
  cal_state :: calibration_state
  cal_request :: "calibration_request option"
  cal_metadata :: calibration_metadata
  cal_samples :: "f32 list"
  cal_rms :: "f32 list"
  cal_peak :: "f32 list"
  cal_window_frames :: nat
  cal_hop_frames :: nat

text \<open>The capture in progress, owned by the worker.\<close>

record calibration_capture =
  cc_request :: calibration_request
  cc_first_sequence :: nat
  cc_dropped_at_acceptance :: nat
  cc_copied :: nat
  cc_complete_windows :: nat
  cc_sums :: "f64 list"
  cc_peaks :: "f32 list"
  cc_counts :: "nat list"
  cc_starts :: "nat list"
  cc_started :: "bool list"
  cc_invalid :: bool

definition calibration_new ::
    "(nat \<Rightarrow> nat \<Rightarrow> bool) \<Rightarrow> nat \<Rightarrow> nat \<Rightarrow> nat \<Rightarrow> nat \<Rightarrow> calibration_slot result" where
  "calibration_new alloc sample_frames windows window_frames hop_frames =
     bindR (materialized_new_zeroed alloc 0 sample_frames) (\<lambda>samples.
     bindR (materialized_new_zeroed alloc 1 windows) (\<lambda>rms.
     bindR (materialized_new_zeroed alloc 2 windows) (\<lambda>peak.
       Inr \<lparr>cal_state = CalIdle, cal_request = None,
            cal_metadata = \<lparr>cm_frames = 0, cm_sample_rate = 0, cm_complete_windows = 0,
                            cm_partial_final_frames = 0, cm_dropped_frames = 0, cm_usable = False\<rparr>,
            cal_samples = samples, cal_rms = rms, cal_peak = peak,
            cal_window_frames = window_frames, cal_hop_frames = hop_frames\<rparr>)))"

section \<open>The client\<close>

text \<open>
  \<open>begin\<close> claims the slot, writes the request, and publishes it unless it was cancelled in
  between: two atomic steps.
\<close>

definition cal_begin_claim :: "calibration_slot \<Rightarrow> calibration_slot \<times> unit result" where
  "cal_begin_claim s =
     (if cal_state s = CalIdle then (s\<lparr>cal_state := CalPreparing\<rparr>, Inr ())
      else (s, Inl (ControlInvariant ''calibration already pending'')))"

definition cal_begin_publish :: "calibration_request \<Rightarrow> calibration_slot \<Rightarrow> calibration_slot \<times> unit result" where
  "cal_begin_publish request s =
     (let s1 = s\<lparr>cal_request := Some request\<rparr> in
      case cal_state s1 of
        CalPreparing \<Rightarrow> (s1\<lparr>cal_state := CalReady\<rparr>, Inr ())
      | CalCancelled \<Rightarrow> (s1\<lparr>cal_state := CalIdle\<rparr>, Inl (CaptureInvariant ''calibration capture was cancelled''))
      | CalIdle \<Rightarrow> (s1\<lparr>cal_state := CalIdle\<rparr>, Inl (CaptureInvariant ''calibration capture was cancelled''))
      | _ \<Rightarrow> (s1, Inl (ControlInvariant ''calibration state changed while preparing'')))"

definition cal_cancel :: "calibration_slot \<Rightarrow> calibration_slot \<times> bool" where
  "cal_cancel s =
     (case cal_state s of
        CalPreparing \<Rightarrow> (s\<lparr>cal_state := CalCancelled\<rparr>, True)
      | CalCapturing \<Rightarrow> (s\<lparr>cal_state := CalCancelled\<rparr>, True)
      | CalReady \<Rightarrow> (s\<lparr>cal_state := CalIdle\<rparr>, True)
      | _ \<Rightarrow> (s, False))"

text \<open>The checks of \<open>calibrate_channel_until\<close> before \<open>begin\<close>.\<close>

definition calibrate_validate :: "nat \<Rightarrow> calibration_request \<Rightarrow> calibration_slot \<Rightarrow> unit result" where
  "calibrate_validate channels request s =
     (if channels \<le> cr_channel request
      then Inl (Validation ''calibration channel is out of range'')
      else if cr_frames request = 0 \<or> length (cal_samples s) < cr_frames request
      then Inl (Validation ''calibration frame count is outside startup capacity'')
      else Inr ())"

text \<open>
  One turn of the waiting loop.  \<open>abort\<close> is the answer of the caller's predicate,
  \<open>late\<close> whether the deadline has passed, \<open>exited\<close> whether the worker has exited;
  the result is \<^const>\<open>None\<close> while the loop goes on.
\<close>

definition calibrate_turn ::
    "bool \<Rightarrow> bool \<Rightarrow> bool \<Rightarrow> calibration_slot \<Rightarrow> calibration_slot \<times> calibration_metadata result option" where
  "calibrate_turn abort late exited s =
     (if cal_state s \<noteq> CalComplete \<and> cal_state s \<noteq> CalFailed \<and> abort
      then (case cal_cancel s of
              (s1, True) \<Rightarrow> (s1, Some (Inl (CaptureInvariant ''calibration capture was cancelled'')))
            | (s1, False) \<Rightarrow> (s1, None))
      else (case cal_state s of
              CalComplete \<Rightarrow> (s\<lparr>cal_state := CalLeased\<rparr>, Some (Inr (cal_metadata s)))
            | CalFailed \<Rightarrow> (s\<lparr>cal_state := CalIdle\<rparr>,
                Some (Inl (CaptureInvariant ''capture worker failed during calibration'')))
            | CalIdle \<Rightarrow> (s, Some (Inl (CaptureInvariant ''calibration capture was cancelled'')))
            | st \<Rightarrow>
                if (st = CalReady \<or> st = CalCapturing) \<and> late
                then (s\<lparr>cal_state := (if st = CalReady then CalIdle else CalCancelled)\<rparr>,
                      Some (Inl (ControlInvariant ''calibration timed out'')))
                else if exited
                then (if st = CalReady \<or> st = CalCapturing \<or> st = CalCancelled
                      then (s\<lparr>cal_state := CalIdle\<rparr>,
                            Some (Inl (CaptureInvariant ''capture worker exited during calibration'')))
                      else (s, None))
                else (s, None)))"

definition lease_drop :: "calibration_slot \<Rightarrow> calibration_slot" where
  "lease_drop s = (if cal_state s = CalLeased then s\<lparr>cal_state := CalIdle\<rparr> else s)"

section \<open>The worker\<close>

definition cal_take_ready :: "calibration_slot \<Rightarrow> (calibration_slot \<times> calibration_request) option" where
  "cal_take_ready s =
     (if cal_state s = CalReady
      then map_option (\<lambda>request. (s\<lparr>cal_state := CalCapturing\<rparr>, request)) (cal_request s)
      else None)"

definition cal_acknowledge_cancel :: "calibration_slot \<Rightarrow> calibration_slot" where
  "cal_acknowledge_cancel s = (if cal_state s = CalCancelled then s\<lparr>cal_state := CalIdle\<rparr> else s)"

definition cal_fail :: "calibration_slot \<Rightarrow> calibration_slot" where
  "cal_fail s =
     (case cal_state s of
        CalReady \<Rightarrow> s\<lparr>cal_state := CalFailed\<rparr>
      | CalCapturing \<Rightarrow> s\<lparr>cal_state := CalFailed\<rparr>
      | CalCancelled \<Rightarrow> s\<lparr>cal_state := CalIdle\<rparr>
      | _ \<Rightarrow> s)"

definition new_capture :: "calibration_request \<Rightarrow> nat \<Rightarrow> nat \<Rightarrow> calibration_capture" where
  "new_capture request first dropped =
     \<lparr>cc_request = request, cc_first_sequence = first, cc_dropped_at_acceptance = dropped,
      cc_copied = 0, cc_complete_windows = 0, cc_sums = [0, 0], cc_peaks = [0, 0],
      cc_counts = [0, 0], cc_starts = [0, 0], cc_started = [False, False], cc_invalid = False\<rparr>"

text \<open>One accumulator taking in one sample; an output past the buffers is a panic.\<close>

definition accumulate ::
    "fp_ops \<Rightarrow> f32 \<Rightarrow> nat \<Rightarrow> calibration_capture \<times> calibration_slot \<Rightarrow> (calibration_capture \<times> calibration_slot) result" where
  "accumulate fp sample a acc =
     (let (cap, s) = acc in
      if cc_started cap ! a \<and> cc_counts cap ! a < cal_window_frames s then
        let x = fp_of_f32 fp sample;
            sum = fp_add fp (cc_sums cap ! a) (fp_mul fp x x);
            peak = fp_max32 fp (cc_peaks cap ! a) (f32_abs sample);
            count = cc_counts cap ! a + 1;
            cap1 = cap\<lparr>cc_sums := (cc_sums cap)[a := sum], cc_peaks := (cc_peaks cap)[a := peak],
                       cc_counts := (cc_counts cap)[a := count]\<rparr>
        in
        if count = cal_window_frames s then
          let output = cc_complete_windows cap1 in
          if length (cal_rms s) \<le> output \<or> length (cal_peak s) \<le> output
          then Inl (Panicked ''calibration window index out of bounds'')
          else
            Inr (cap1\<lparr>cc_complete_windows := output + 1, cc_started := (cc_started cap1)[a := False]\<rparr>,
                 s\<lparr>cal_rms := (cal_rms s)[output := fp_to_f32 fp (fp_sqrt fp (fp_div fp sum (fp_of_u64 fp count)))],
                   cal_peak := (cal_peak s)[output := peak]\<rparr>)
        else Inr (cap1, s)
      else Inr (cap, s))"

definition open_window :: "nat \<Rightarrow> calibration_capture \<Rightarrow> calibration_capture" where
  "open_window hop cap =
     (let index = cc_copied cap in
      if index mod hop = 0 then
        let a = (index div hop) mod 2 in
        cap\<lparr>cc_sums := (cc_sums cap)[a := 0], cc_peaks := (cc_peaks cap)[a := 0],
            cc_counts := (cc_counts cap)[a := 0], cc_starts := (cc_starts cap)[a := index],
            cc_started := (cc_started cap)[a := True]\<rparr>
      else cap)"

definition copy_frame ::
    "fp_ops \<Rightarrow> f32 \<Rightarrow> calibration_capture \<times> calibration_slot \<Rightarrow> (calibration_capture \<times> calibration_slot) result" where
  "copy_frame fp sample acc =
     (let (cap, s) = acc in
      if length (cal_samples s) \<le> cc_copied cap
      then Inl (Panicked ''calibration sample index out of bounds'')
      else if cal_hop_frames s = 0 then Inl (Panicked ''remainder by zero'')
      else
        let s1 = s\<lparr>cal_samples := (cal_samples s)[cc_copied cap := sample]\<rparr>;
            cap1 = (if f32_is_finite sample then cap else cap\<lparr>cc_invalid := True\<rparr>);
            cap2 = open_window (cal_hop_frames s) cap1
        in
        bindR (accumulate fp sample 0 (cap2, s1)) (\<lambda>acc1.
        bindR (accumulate fp sample 1 acc1) (\<lambda>(cap3, s3).
          Inr (cap3\<lparr>cc_copied := cc_copied cap3 + 1\<rparr>, s3))))"

text \<open>The frame loop; it stops when the request is complete.\<close>

fun copy_frames ::
    "fp_ops \<Rightarrow> f32 list \<Rightarrow> calibration_capture \<times> calibration_slot \<Rightarrow> (calibration_capture \<times> calibration_slot) result" where
  "copy_frames fp [] acc = Inr acc"
| "copy_frames fp (x # xs) acc =
     (if cc_copied (fst acc) = cr_frames (cc_request (fst acc)) then Inr acc
      else bindR (copy_frame fp x acc) (copy_frames fp xs))"

text \<open>
  The frames of the latest accumulator that is under way; \<open>max_by_key\<close> prefers the later
  of two equal keys.
\<close>

definition partial_final :: "nat \<Rightarrow> calibration_capture \<Rightarrow> nat" where
  "partial_final window cap =
     (let open_acc = (\<lambda>a. cc_started cap ! a \<and> 0 < cc_counts cap ! a \<and> cc_counts cap ! a < window) in
      if open_acc 0 \<and> open_acc 1
      then (if cc_starts cap ! 0 \<le> cc_starts cap ! 1 then cc_counts cap ! 1 else cc_counts cap ! 0)
      else if open_acc 0 then cc_counts cap ! 0
      else if open_acc 1 then cc_counts cap ! 1
      else 0)"

definition finish_calibration ::
    "nat \<Rightarrow> nat \<Rightarrow> calibration_capture \<Rightarrow> calibration_slot \<Rightarrow> calibration_slot" where
  "finish_calibration cumulative_dropped sample_rate cap s =
     (let dropped = saturating_sub64 cumulative_dropped (cc_dropped_at_acceptance cap);
          s1 = s\<lparr>cal_metadata := \<lparr>cm_frames = cc_copied cap, cm_sample_rate = sample_rate,
                  cm_complete_windows = cc_complete_windows cap,
                  cm_partial_final_frames = partial_final (cal_window_frames s) cap,
                  cm_dropped_frames = dropped,
                  cm_usable = (\<not> cc_invalid cap \<and> dropped = 0 \<and> 0 < cc_complete_windows cap)\<rparr>\<rparr>
      in
      case cal_state s1 of
        CalCapturing \<Rightarrow> s1\<lparr>cal_state := CalComplete\<rparr>
      | CalCancelled \<Rightarrow> s1\<lparr>cal_state := CalIdle\<rparr>
      | _ \<Rightarrow> s1)"

text \<open>The sample of the requested channel in each frame of an interleaved buffer.\<close>

definition channel_samples :: "nat \<Rightarrow> nat \<Rightarrow> nat \<Rightarrow> f32 list \<Rightarrow> f32 list" where
  "channel_samples channels channel frames samples =
     map (\<lambda>f. samples ! (f * channels + channel)) [0..<frames]"

definition copy_calibration_samples ::
    "fp_ops \<Rightarrow> nat \<Rightarrow> nat \<Rightarrow> nat \<Rightarrow> f32 list \<Rightarrow> nat \<Rightarrow> nat \<Rightarrow> calibration_capture option \<Rightarrow> calibration_slot
      \<Rightarrow> (calibration_capture option \<times> calibration_slot) result" where
  "copy_calibration_samples fp cumulative_dropped sample_rate channels samples frames sq calibration s =
     (case calibration of
        None \<Rightarrow> Inr (None, s)
      | Some cap \<Rightarrow>
          if cal_state s = CalCancelled then Inr (None, cal_acknowledge_cancel s)
          else if sq < cc_first_sequence cap then Inr (Some cap, s)
          else
            bindR (copy_frames fp (channel_samples channels (cr_channel (cc_request cap)) frames samples) (cap, s))
              (\<lambda>(cap1, s1).
                 Inr (if cc_copied cap1 = cr_frames (cc_request cap1)
                      then (None, finish_calibration cumulative_dropped sample_rate cap1 s1)
                      else (Some cap1, s1))))"

end
