(* ===== verification/Capture_Worker.thy ===== *)
theory Capture_Worker
  imports Sample_Ring Calibration_Slot
begin

text \<open>
  The capture worker of \<open>src/capture_arena.rs\<close>: two rings used as alternating epochs, the
  absolute frame counter over both, and the commands freeze, release, clear, status and
  shutdown.  The worker thread owns its state; the queue, the calibration slot and the final
  counters are shared.  An \<open>Arc<SampleRing>\<close> is the index of the epoch.
\<close>

section \<open>State\<close>

record capture_status =
  cs_dropped_frames :: nat
  cs_retained_frames :: nat
  cs_capacity_frames :: nat
  cs_last_overrun :: "nat option"
  cs_active_absolute_range :: "nat \<times> nat"
  cs_ingress_enqueued_frames :: nat
  cs_capture_dropped_frames :: nat
  cs_worker_written_frames :: nat
  cs_worker_dropped_frames :: nat
  cs_frozen_pending :: bool

record clear_report =
  rep_arena_runtime_id :: nat
  rep_coordinator_id :: nat
  rep_clear_id :: nat
  rep_expected_active_start :: nat
  rep_active_absolute_range :: "nat \<times> nat"
  rep_pending_retention_lost_frames :: nat
  rep_pending_cleared_frames :: nat
  rep_cumulative_dropped_frames :: nat

record clear_accounting =
  acc_arena_runtime_id :: nat
  acc_coordinator_id :: nat
  acc_clear_id :: nat
  acc_expected_active_start :: nat
  acc_pending_retention_lost_frames :: nat
  acc_pending_cleared_frames :: nat

record frozen_descriptor =
  fd_index :: nat
  fd_generation :: nat
  fd_base :: nat
  fd_absolute_range :: "nat \<times> nat"
  fd_local_range :: "nat \<times> nat"
  fd_channels :: nat
  fd_sample_rate :: nat
  fd_format :: sample_format

datatype worker_command =
    CmdFreeze nat "nat option"
  | CmdRelease nat nat nat
  | CmdClear nat nat clear_accounting
  | CmdStatus nat
  | CmdShutdown nat

datatype worker_reply =
    RepFrozen "frozen_descriptor option"
  | RepReleased
  | RepCleared clear_report
  | RepStatus capture_status
  | RepShutdown

fun target_sequence :: "worker_command \<Rightarrow> nat" where
  "target_sequence (CmdFreeze t _) = t"
| "target_sequence (CmdRelease t _ _) = t"
| "target_sequence (CmdClear t _ _) = t"
| "target_sequence (CmdStatus t) = t"
| "target_sequence (CmdShutdown t) = t"

record worker_state =
  w_epochs :: "sample_ring list"
  w_active :: nat
  w_bases :: "nat list"
  w_absolute_head :: nat
  w_next_generation :: nat
  w_frozen :: "(nat \<times> nat) option"
  w_retired_dropped_frames :: nat
  w_retired_last_overrun :: "nat option"
  w_written_frames :: nat
  w_dropped_frames :: nat
  w_fault :: "string option"
  w_channels :: nat
  w_sample_rate :: nat
  w_format :: sample_format
  w_calibration :: "calibration_capture option"

record capture_runtime =
  rt_queue :: ingress_queue
  rt_cal :: calibration_slot
  rt_worker :: worker_state
  rt_final_worker_dropped_frames :: nat
  rt_final_worker_written_frames :: nat
  rt_worker_done :: bool

abbreviation upd_worker :: "(worker_state \<Rightarrow> worker_state) \<Rightarrow> capture_runtime \<Rightarrow> capture_runtime" where
  "upd_worker f rt \<equiv> rt\<lparr>rt_worker := f (rt_worker rt)\<rparr>"

definition worker_new :: "sample_ring \<Rightarrow> sample_ring \<Rightarrow> ring_config \<Rightarrow> worker_state" where
  "worker_new e0 e1 c =
     \<lparr>w_epochs = [e0, e1], w_active = 0, w_bases = [0, 0], w_absolute_head = 0, w_next_generation = 1,
      w_frozen = None, w_retired_dropped_frames = 0, w_retired_last_overrun = None,
      w_written_frames = 0, w_dropped_frames = 0, w_fault = None, w_channels = rc_channels c,
      w_sample_rate = rc_sample_rate c, w_format = rc_format c, w_calibration = None\<rparr>"

section \<open>Calibration hooks and faults\<close>

definition fail_calibration :: "capture_runtime \<Rightarrow> capture_runtime" where
  "fail_calibration rt =
     upd_worker (\<lambda>w. w\<lparr>w_calibration := None\<rparr>) (rt\<lparr>rt_cal := cal_fail (rt_cal rt)\<rparr>)"

definition set_worker_fault :: "string \<Rightarrow> capture_runtime \<Rightarrow> capture_runtime" where
  "set_worker_fault fault rt = fail_calibration (upd_worker (\<lambda>w. w\<lparr>w_fault := Some fault\<rparr>) rt)"

definition cancel_calibration_if_requested :: "capture_runtime \<Rightarrow> capture_runtime" where
  "cancel_calibration_if_requested rt =
     (if cal_state (rt_cal rt) = CalCancelled
      then upd_worker (\<lambda>w. w\<lparr>w_calibration := None\<rparr>) (rt\<lparr>rt_cal := cal_acknowledge_cancel (rt_cal rt)\<rparr>)
      else rt)"

text \<open>\<open>obs\<close> is the queue at the loads of the boundary check.\<close>

definition start_calibration_if_ready :: "(nat \<Rightarrow> ingress_queue) \<Rightarrow> capture_runtime \<Rightarrow> capture_runtime" where
  "start_calibration_if_ready obs rt =
     (case calibration_boundary obs of
        Inl _ \<Rightarrow> set_worker_fault ''capture producer generation exhausted'' rt
      | Inr None \<Rightarrow> rt
      | Inr (Some (first, dropped)) \<Rightarrow>
          (case cal_take_ready (rt_cal rt) of
             None \<Rightarrow> rt
           | Some (cal, request) \<Rightarrow>
               let rt1 = rt\<lparr>rt_cal := cal\<rparr> in
               if cal_state (rt_cal rt1) \<noteq> CalCapturing then cancel_calibration_if_requested rt1
               else upd_worker (\<lambda>w. w\<lparr>w_calibration := Some (new_capture request first dropped)\<rparr>) rt1))"

section \<open>Consuming\<close>

definition drop_worker_frames :: "nat \<Rightarrow> capture_runtime \<Rightarrow> capture_runtime" where
  "drop_worker_frames frames rt =
     (case add_cumulative_dropped_frames frames (rt_queue rt) of
        (q, Inl _) \<Rightarrow> set_worker_fault ''capture worker drop counter exhausted'' (rt\<lparr>rt_queue := q\<rparr>)
      | (q, Inr _) \<Rightarrow>
          let rt1 = rt\<lparr>rt_queue := q\<rparr> in
          (case checked_add64 (w_dropped_frames (rt_worker rt1)) frames of
             None \<Rightarrow> set_worker_fault ''capture worker drop counter exhausted'' rt1
           | Some tot \<Rightarrow>
               (upd_worker (\<lambda>w. w\<lparr>w_dropped_frames := tot\<rparr>) rt1)\<lparr>rt_final_worker_dropped_frames := tot\<rparr>))"

text \<open>\<open>now\<close> is the clock for the ring's overrun time; the result is an error only for a panic.\<close>

definition consume_samples ::
    "fp_ops \<Rightarrow> nat \<Rightarrow> f32 list \<Rightarrow> nat \<Rightarrow> nat \<Rightarrow> capture_runtime \<Rightarrow> capture_runtime result" where
  "consume_samples fp now samples frames sq rt =
     (let w = rt_worker rt in
      if w_fault w \<noteq> None then
        let rt1 = fail_calibration rt in
        Inr (rt1\<lparr>rt_queue := fst (ingress_add_dropped_frames frames (rt_queue rt1))\<rparr>)
      else
        (case checked_add64 (w_absolute_head w) frames of
           None \<Rightarrow> Inr (drop_worker_frames frames rt)
         | Some next_absolute \<Rightarrow>
           (case checked_add64 (w_written_frames w) frames of
              None \<Rightarrow> Inr (drop_worker_frames frames rt)
            | Some next_written \<Rightarrow>
              (case write_interleaved now samples (w_channels w) (w_epochs w ! w_active w) of
                 (r, Inl (Panicked m)) \<Rightarrow> Inl (Panicked m)
               | (r, Inl _) \<Rightarrow>
                   Inr (drop_worker_frames frames
                          (upd_worker (\<lambda>w. w\<lparr>w_epochs := (w_epochs w)[w_active w := r]\<rparr>) rt))
               | (r, Inr _) \<Rightarrow>
                   let rt1 = upd_worker (\<lambda>w. w\<lparr>w_epochs := (w_epochs w)[w_active w := r],
                                               w_absolute_head := next_absolute,
                                               w_written_frames := next_written\<rparr>) rt
                   in bindR (copy_calibration_samples fp (cumulative_dropped_frames (rt_queue rt1))
                               (w_sample_rate w) (w_channels w) samples frames sq
                               (w_calibration (rt_worker rt1)) (rt_cal rt1))
                        (\<lambda>(cap, cal). Inr (upd_worker (\<lambda>w. w\<lparr>w_calibration := cap\<rparr>) (rt1\<lparr>rt_cal := cal\<rparr>)))))))"

text \<open>
  \<open>consume_one\<close>: the slot is released to the producer only after the samples were consumed.
  The boolean tells whether a slot was consumed.
\<close>

definition consume_one ::
    "fp_ops \<Rightarrow> nat \<Rightarrow> (nat \<Rightarrow> ingress_queue) \<Rightarrow> capture_runtime \<Rightarrow> (capture_runtime \<times> bool) result" where
  "consume_one fp now obs rt =
     (let rt1 = start_calibration_if_ready obs rt in
      case consume_next (rt_queue rt1) of
        None \<Rightarrow> Inr (rt1, False)
      | Some ((samples, frames, sq), _) \<Rightarrow>
          bindR (consume_samples fp now samples frames sq rt1) (\<lambda>rt2.
            Inr (rt2\<lparr>rt_queue := (rt_queue rt2)\<lparr>consumed_sequence := sq + 1\<rparr>\<rparr>, True)))"

section \<open>Commands\<close>

definition latest_overrun :: "nat option \<Rightarrow> nat option \<Rightarrow> nat option" where
  "latest_overrun first second =
     (case (first, second) of
        (None, None) \<Rightarrow> None
      | (Some a, None) \<Rightarrow> Some a
      | (None, Some b) \<Rightarrow> Some b
      | (Some a, Some b) \<Rightarrow> Some (max a b))"

definition retire_and_reset :: "nat \<Rightarrow> worker_state \<Rightarrow> worker_state \<times> unit result" where
  "retire_and_reset index w =
     (let status = sample_ring_status (w_epochs w ! index) in
      case checked_add64 (w_retired_dropped_frames w) (st_dropped_frames status) of
        None \<Rightarrow> (w, Inl (ControlInvariant ''cumulative dropped frame counter exhausted''))
      | Some retired \<Rightarrow>
          (case ring_reset (w_epochs w ! index) of
             (r, Inl e) \<Rightarrow> (w\<lparr>w_epochs := (w_epochs w)[index := r]\<rparr>, Inl e)
           | (r, Inr _) \<Rightarrow>
               (w\<lparr>w_epochs := (w_epochs w)[index := r], w_retired_dropped_frames := retired,
                  w_retired_last_overrun := latest_overrun (w_retired_last_overrun w) (st_last_overrun status)\<rparr>,
                Inr ())))"

definition abs_overflow :: lamb_error where
  "abs_overflow = ControlInvariant ''absolute capture frame counter exhausted''"

definition freeze :: "nat option \<Rightarrow> worker_state \<Rightarrow> worker_state \<times> frozen_descriptor option result" where
  "freeze committed_start w =
     (if w_frozen w \<noteq> None
      then (w, Inl (ControlInvariant ''a frozen capture epoch is already pending''))
      else
        let old = w_active w;
            standby = 1 - old;
            old_base = w_bases w ! old;
            local_end = write_head_frame (w_epochs w ! old);
            local_oldest = oldest_frame (w_epochs w ! old)
        in
        (case checked_add64 old_base local_end of
           None \<Rightarrow> (w, Inl abs_overflow)
         | Some absolute_end \<Rightarrow>
        (case checked_add64 old_base local_oldest of
           None \<Rightarrow> (w, Inl abs_overflow)
         | Some absolute_oldest \<Rightarrow>
           let absolute_start = max (case committed_start of None \<Rightarrow> absolute_oldest | Some c \<Rightarrow> c) absolute_oldest
           in
           if absolute_start < absolute_end \<and> checked_add64 (w_next_generation w) 1 = None
           then (w, Inl (ControlInvariant ''frozen epoch generation exhausted''))
           else
             (case retire_and_reset standby w of
                (w1, Inl e) \<Rightarrow> (w1, Inl e)
              | (w1, Inr _) \<Rightarrow>
                  let w2 = w1\<lparr>w_bases := (w_bases w1)[standby := w_absolute_head w1], w_active := standby\<rparr> in
                  if absolute_start < absolute_end then
                    let generation = w_next_generation w + 1 in
                    (w2\<lparr>w_next_generation := generation, w_frozen := Some (old, generation)\<rparr>,
                     Inr (Some \<lparr>fd_index = old, fd_generation = generation, fd_base = old_base,
                                fd_absolute_range = (absolute_start, absolute_end),
                                fd_local_range = (absolute_start - old_base, local_end),
                                fd_channels = w_channels w2, fd_sample_rate = w_sample_rate w2,
                                fd_format = w_format w2\<rparr>))
                  else (w2, Inr None)))))"

definition release :: "nat \<Rightarrow> nat \<Rightarrow> worker_state \<Rightarrow> worker_state \<times> unit result" where
  "release index generation w =
     (case w_frozen w of
        None \<Rightarrow> (w, Inl (ControlInvariant ''no frozen capture epoch pending''))
      | Some (i, g) \<Rightarrow>
          if i \<noteq> index \<or> g \<noteq> generation
          then (w, Inl (ControlInvariant ''frozen capture capability does not match worker state''))
          else (case retire_and_reset index w of
                  (w1, Inl e) \<Rightarrow> (w1, Inl e)
                | (w1, Inr _) \<Rightarrow> (w1\<lparr>w_frozen := None\<rparr>, Inr ())))"

definition active_absolute_range :: "worker_state \<Rightarrow> (nat \<times> nat) result" where
  "active_absolute_range w =
     bindR (ok_or (checked_add64 (w_bases w ! w_active w) (oldest_frame (w_epochs w ! w_active w))) abs_overflow) (\<lambda>start.
     bindR (ok_or (checked_add64 (w_bases w ! w_active w) (write_head_frame (w_epochs w ! w_active w))) abs_overflow) (\<lambda>end.
       Inr (start, end)))"

definition worker_clear ::
    "nat \<Rightarrow> clear_accounting \<Rightarrow> worker_state \<Rightarrow> worker_state \<times> clear_report result" where
  "worker_clear ingress_dropped accounting w =
     (case (bindR (active_absolute_range w) (\<lambda>(range_start, range_end).
            let retention_lost = saturating_sub64 range_start (acc_expected_active_start accounting);
                recoverable_start = max (acc_expected_active_start accounting) range_start;
                cleared = saturating_sub64 range_end recoverable_start
            in
            bindR (ok_or (checked_add64 (acc_pending_retention_lost_frames accounting) retention_lost)
                     (ControlInvariant ''pending retention loss counter exhausted'')) (\<lambda>lost.
            bindR (ok_or (checked_add64 (acc_pending_cleared_frames accounting) cleared)
                     (ControlInvariant ''pending cleared frame counter exhausted'')) (\<lambda>cleared'.
            bindR (ok_or (checked_add64 ingress_dropped (w_dropped_frames w))
                     (ControlInvariant ''cumulative capture dropped frame counter exhausted'')) (\<lambda>cumulative.
              Inr \<lparr>rep_arena_runtime_id = acc_arena_runtime_id accounting,
                   rep_coordinator_id = acc_coordinator_id accounting,
                   rep_clear_id = acc_clear_id accounting,
                   rep_expected_active_start = acc_expected_active_start accounting,
                   rep_active_absolute_range = (range_start, range_end),
                   rep_pending_retention_lost_frames = lost,
                   rep_pending_cleared_frames = cleared',
                   rep_cumulative_dropped_frames = cumulative\<rparr>))))) of
        Inl e \<Rightarrow> (w, Inl e)
      | Inr report \<Rightarrow>
          (w\<lparr>w_epochs := (w_epochs w)[w_active w := fst (ring_clear (w_epochs w ! w_active w))]\<rparr>, Inr report))"

definition worker_status :: "ingress_queue \<Rightarrow> worker_state \<Rightarrow> capture_status result" where
  "worker_status q w =
     (case w_fault w of
        Some fault \<Rightarrow> Inl (CaptureInvariant fault)
      | None \<Rightarrow>
          let active_status = sample_ring_status (w_epochs w ! w_active w);
              ingress_dropped = q_dropped_frames q
          in
          bindR (ok_or (Option.bind (checked_add64 (w_retired_dropped_frames w) (st_dropped_frames active_status)) (\<lambda>t.
                        Option.bind (checked_add64 t ingress_dropped) (\<lambda>t. checked_add64 t (w_dropped_frames w))))
                   (ControlInvariant ''cumulative dropped frame counter exhausted'')) (\<lambda>dropped.
          bindR (active_absolute_range w) (\<lambda>range.
            Inr \<lparr>cs_dropped_frames = dropped, cs_retained_frames = st_retained_frames active_status,
                 cs_capacity_frames = st_capacity_frames active_status,
                 cs_last_overrun = latest_overrun (w_retired_last_overrun w) (st_last_overrun active_status),
                 cs_active_absolute_range = range, cs_ingress_enqueued_frames = enqueued_frames q,
                 cs_capture_dropped_frames = ingress_dropped, cs_worker_written_frames = w_written_frames w,
                 cs_worker_dropped_frames = w_dropped_frames w, cs_frozen_pending = (w_frozen w \<noteq> None)\<rparr>)))"

definition process_command ::
    "worker_command \<Rightarrow> capture_runtime \<Rightarrow> capture_runtime \<times> worker_reply result" where
  "process_command command rt =
     (let w = rt_worker rt in
      if drop_counter_exhausted (rt_queue rt) \<and>
         (case command of CmdRelease _ _ _ \<Rightarrow> False | CmdShutdown _ \<Rightarrow> False | _ \<Rightarrow> True)
      then (rt, Inl (CaptureInvariant ''cumulative capture dropped frame counter exhausted''))
      else (case command of
              CmdFreeze _ committed_start \<Rightarrow>
                (case freeze committed_start w of (w1, res) \<Rightarrow>
                   (rt\<lparr>rt_worker := w1\<rparr>, bindR res (\<lambda>d. Inr (RepFrozen d))))
            | CmdRelease _ index generation \<Rightarrow>
                (case release index generation w of (w1, res) \<Rightarrow>
                   (rt\<lparr>rt_worker := w1\<rparr>, bindR res (\<lambda>_. Inr RepReleased)))
            | CmdClear _ ingress_dropped accounting \<Rightarrow>
                (case worker_clear ingress_dropped accounting w of (w1, res) \<Rightarrow>
                   (rt\<lparr>rt_worker := w1\<rparr>, bindR res (\<lambda>r. Inr (RepCleared r))))
            | CmdStatus _ \<Rightarrow> (rt, bindR (worker_status (rt_queue rt) w) (\<lambda>s. Inr (RepStatus s)))
            | CmdShutdown _ \<Rightarrow> (rt, Inr RepShutdown)))"

section \<open>The frozen epoch\<close>

record frozen_epoch =
  fe_runtime_id :: nat
  fe_index :: nat
  fe_generation :: nat
  fe_base :: nat
  fe_absolute_range :: "nat \<times> nat"
  fe_local_range :: "nat \<times> nat"
  fe_channels :: nat
  fe_sample_rate :: nat
  fe_format :: sample_format
  fe_released :: bool
  fe_release_pending :: bool

definition frozen_epoch_from_descriptor :: "nat \<Rightarrow> frozen_descriptor \<Rightarrow> frozen_epoch" where
  "frozen_epoch_from_descriptor runtime_id d =
     \<lparr>fe_runtime_id = runtime_id, fe_index = fd_index d, fe_generation = fd_generation d, fe_base = fd_base d,
      fe_absolute_range = fd_absolute_range d, fe_local_range = fd_local_range d,
      fe_channels = fd_channels d, fe_sample_rate = fd_sample_rate d, fe_format = fd_format d,
      fe_released = False, fe_release_pending = False\<rparr>"

definition frozen_copy ::
    "worker_state \<Rightarrow> frozen_epoch \<Rightarrow> nat \<Rightarrow> nat \<Rightarrow> f32 list \<Rightarrow> f32 list \<times> nat result" where
  "frozen_copy w f range_start range_end destination =
     (if fe_released f then (destination, Inl (ExportInvariant ''frozen capture epoch was released''))
      else if fe_release_pending f
      then (destination, Inl (ExportInvariant ''frozen capture release is pending''))
      else if range_start < fst (fe_absolute_range f) \<or> snd (fe_absolute_range f) < range_end
              \<or> range_end < range_start
      then (destination, Inl (ExportInvariant ''requested absolute range is outside frozen range''))
      else copy_interleaved_range_into (w_epochs w ! fe_index f) (wsub64 range_start (fe_base f))
             (wsub64 range_end (fe_base f)) destination)"

section \<open>After the worker\<close>

text \<open>\<open>classify_unconsumed_after_worker\<close>: what is still queued is counted as dropped.\<close>

function classify_unconsumed :: "ingress_queue \<Rightarrow> ingress_queue" where
  "classify_unconsumed q =
     (if consumed_sequence q < published_sequence q then
        let frames = slot_frames_used (slots q ! slot_index q (consumed_sequence q));
            q1 = fst (ingress_add_dropped_frames frames q)
        in classify_unconsumed (q1\<lparr>consumed_sequence := consumed_sequence q + 1\<rparr>)
      else q)"
  by pat_completeness auto
termination
proof (relation "measure (\<lambda>q. published_sequence q - consumed_sequence q)", goal_cases)
  case (2 q x xa)
  obtain q1 res where q1: "ingress_add_dropped_frames x q = (q1, res)" by fastforce
  with ingress_add_dropped_frames_frame[OF q1] 2 show ?case by simp
qed simp

declare classify_unconsumed.simps [simp del]

end
