(* ===== verification/Sample_Log.thy ===== *)
theory Sample_Log
  imports Errors
begin

text \<open>
  What the capture worker relies on in a sample ring: an append-only log of interleaved frames
  of which a suffix can be read back.  The lemmas of the locale are those of its client, which
  places such a log at an absolute frame \<open>b\<close> of a longer history.
\<close>

text \<open>Frames \<open>[s, e)\<close> of a history of frames of \<open>w\<close> samples.\<close>

definition frames_slice :: "nat \<Rightarrow> 'a list \<Rightarrow> nat \<Rightarrow> nat \<Rightarrow> 'a list" where
  "frames_slice w H s e = take ((e - s) * w) (drop (s * w) H)"

lemma frames_slice_append:
  assumes "e * w \<le> length H"
  shows "frames_slice w (H @ xs) s e = frames_slice w H s e"
proof (cases "s \<le> e")
  case True
  then have "(e - s) * w + s * w = e * w" by (simp flip: add_mult_distrib)
  with assms show ?thesis by (simp add: frames_slice_def)
qed (simp add: frames_slice_def)

lemma frames_slice_all: "length H = n * w \<Longrightarrow> frames_slice w H s n = drop (s * w) H"
  by (simp add: frames_slice_def diff_mult_distrib)

locale sample_log =
  fixes inv :: "'r \<Rightarrow> 'a list \<Rightarrow> bool"
    and width :: "'r \<Rightarrow> nat"
    and head :: "'r \<Rightarrow> nat"
    and oldest :: "'r \<Rightarrow> nat"
    and put :: "nat \<Rightarrow> 'a list \<Rightarrow> 'r \<Rightarrow> 'r \<times> unit result"
    and reset :: "'r \<Rightarrow> 'r \<times> unit result"
    and clear :: "'r \<Rightarrow> 'r \<times> unit result"
    and copy :: "'r \<Rightarrow> nat \<Rightarrow> nat \<Rightarrow> 'a list \<Rightarrow> 'a list \<times> nat result"
  assumes head_length: "inv r h \<Longrightarrow> length h = head r * width r"
    and oldest_le_head: "inv r h \<Longrightarrow> oldest r \<le> head r"
    and put_ok: "\<lbrakk>inv r h; length xs = n * width r; head r + n + 2 < u64_lim\<rbrakk> \<Longrightarrow>
          \<exists>r'. put t xs r = (r', Inr ()) \<and> inv r' (h @ xs) \<and> width r' = width r"
    and reset_ok: "inv r h \<Longrightarrow> \<exists>r'. reset r = (r', Inr ()) \<and> inv r' [] \<and> width r' = width r"
    and clear_ok: "inv r h \<Longrightarrow> \<exists>r'. clear r = (r', Inr ()) \<and> inv r' h \<and> width r' = width r \<and> oldest r' = head r"
    and copy_ok: "\<lbrakk>inv r h; oldest r \<le> s; s \<le> e; e \<le> head r; length dest = n * width r;
          s + n < u64_lim; length dest < u64_lim\<rbrakk> \<Longrightarrow>
          copy r s e dest = (blit dest 0 (take (min (e - s) n * width r) (drop (s * width r) h)), Inr (min (e - s) n))"
begin

lemma empty_head: "inv r [] \<Longrightarrow> 0 < width r \<Longrightarrow> head r = 0 \<and> oldest r = 0"
  using head_length[of r "[]"] oldest_le_head[of r "[]"] by simp

lemma based_put:
  assumes "inv r (drop (b * width r) H)" and "b * width r \<le> length H" and "length xs = n * width r"
    and "head r + n + 2 < u64_lim"
  shows "\<exists>r'. put t xs r = (r', Inr ()) \<and> inv r' (drop (b * width r) (H @ xs)) \<and> width r' = width r"
  using put_ok[OF assms(1,3,4), of t] assms(2) by simp

lemma based_copy:
  assumes inv: "inv r (take m (drop (b * width r) H))" and lo: "b + oldest r \<le> s" and se: "s \<le> e" and hi: "e \<le> b + head r"
    and dest: "length dest = n * width r" "s + n < u64_lim" "length dest < u64_lim"
  shows "copy r (s - b) (e - b) dest =
     (blit dest 0 (take (min (e - s) n * width r) (drop (s * width r) H)), Inr (min (e - s) n))"
proof -
  let ?w = "width r" and ?k = "min (e - s) n"
  have b: "b \<le> s" using lo by simp
  have d: "e - b - (s - b) = e - s" using b se by simp
  have "copy r (s - b) (e - b) dest =
      (blit dest 0 (take (min (e - b - (s - b)) n * ?w) (drop ((s - b) * ?w) (take m (drop (b * ?w) H)))), Inr (min (e - b - (s - b)) n))"
    using lo se hi b dest by (intro copy_ok[OF inv]) simp_all
  moreover have "take (?k * ?w) (drop ((s - b) * ?w) (take m (drop (b * ?w) H))) = take (?k * ?w) (drop (s * ?w) H)"
  proof -
    have len: "length (take m (drop (b * ?w) H)) = head r * ?w" using head_length[OF inv] .
    then have "head r * ?w \<le> m" by simp
    moreover have "(s - b) * ?w + ?k * ?w \<le> head r * ?w"
    proof -
      have "(s - b) + ?k \<le> head r" using hi b se by linarith
      then show ?thesis by (simp flip: add_mult_distrib)
    qed
    ultimately have "?k * ?w \<le> m - (s - b) * ?w" by linarith
    moreover have "(s - b) * ?w + b * ?w = s * ?w" using b by (simp flip: add_mult_distrib)
    ultimately show ?thesis by (simp add: drop_take min_absorb1 add.commute)
  qed
  ultimately show ?thesis unfolding d by simp
qed

end

end
