(* ===== verification/Capture_Epochs.thy ===== *)
theory Capture_Epochs
  imports Ring_Copy Capture_Worker Sample_Log
begin

text \<open>
  The rings as epochs: the interpretation of the sample log on the ring's operations, the
  invariant of the worker over the absolute history of captured samples, and its preservation
  by every operation of the worker.
\<close>

section \<open>A ring without snapshots is a sample log\<close>

definition epoch_ok :: "sample_ring \<Rightarrow> f32 list \<Rightarrow> bool" where
  "epoch_ok r h \<longleftrightarrow> ring_inv r h \<and> active_snapshots r = 0 \<and> (\<forall>c \<in> set (chunks r). pin_count c = 0) \<and>
     dropped_frames r = 0"

lemma epoch_write:
  assumes ok: "epoch_ok r h" and len: "length xs = n * ch_of r" and lim: "write_head_frame r + n + 2 < u64_lim"
  shows "\<exists>r'. write_interleaved t xs (ch_of r) r = (r', Inr ()) \<and> epoch_ok r' (h @ xs) \<and> ch_of r' = ch_of r"
proof -
  have inv: "ring_inv r h" using ok by (simp add: epoch_ok_def)
  then have ch: "0 < ch_of r" by (auto simp: ring_inv_def ring_geom_def)
  have "length xs div ch_of r = n" using len ch by simp
  then have eq: "write_interleaved t xs (ch_of r) r = write_loop t xs (ch_of r) n r 0"
    using len ch by (simp add: write_interleaved_def)
  have d: "dropped_frames r + n < u64_lim" using ok lim by (simp add: epoch_ok_def)
  obtain k r' where k: "k \<le> n" and run: "write_loop t xs (ch_of r) n r 0 = (r', Inr ())"
    and inv': "ring_inv r' (h @ take (k * ch_of r) xs)" and pins: "same_pins r r'"
    and dr: "dropped_frames r' = dropped_frames r + (n - k)" and full: "k < n \<longrightarrow> (\<exists>c \<in> set (chunks r). 0 < pin_count c)"
    using write_loop_history[OF inv le0, of n xs t] len lim d
    by (simp add: write_head_frame_def del: add_diff_assoc add_diff_assoc2) blast
  have "k = n" using full k ok by (auto simp: epoch_ok_def)
  moreover have "\<forall>c \<in> set (chunks r'). pin_count c = 0"
  proof -
    have "pin_count ` set (chunks r') = pin_count ` set (chunks r)" using pins by (metis same_pins_def set_map)
    then show ?thesis using ok unfolding epoch_ok_def by (metis image_eqI imageE)
  qed
  ultimately show ?thesis
    using eq run inv' pins dr len ok by (simp add: epoch_ok_def same_pins_def)
qed

lemma epoch_reset:
  assumes ok: "epoch_ok r h"
  shows "\<exists>r'. ring_reset r = (r', Inr ()) \<and> epoch_ok r' [] \<and> ch_of r' = ch_of r"
proof -
  have inv: "ring_inv r h" using ok by (simp add: epoch_ok_def)
  then have "\<not> write_poisoned r" "\<not> overrun_poisoned r" by (auto simp: ring_inv_def ring_geom_def)
  with ok ring_inv_not_writing[OF inv]
  have "\<exists>r'. ring_reset r = (r', Inr ()) \<and> dropped_frames r' = 0" by (auto simp: ring_reset_def epoch_ok_def)
  with ring_reset_inv[OF inv] show ?thesis by (auto simp: epoch_ok_def)
qed

interpretation epoch: sample_log epoch_ok ch_of write_head_frame oldest_frame
  "\<lambda>t xs r. write_interleaved t xs (ch_of r) r" ring_reset ring_clear copy_interleaved_range_into
proof unfold_locales
  fix r h assume "epoch_ok r h"
  then show "length h = write_head_frame r * ch_of r"
    by (simp add: epoch_ok_def ring_inv_def write_head_frame_def)
next
  fix r h assume "epoch_ok r h"
  then show "oldest_frame r \<le> write_head_frame r"
    using oldest_frame_le_head[of r h] by (simp add: epoch_ok_def write_head_frame_def)
next
  fix r h n t and xs :: "f32 list" assume "epoch_ok r h" "length xs = n * ch_of r" "write_head_frame r + n + 2 < u64_lim"
  then show "\<exists>r'. write_interleaved t xs (ch_of r) r = (r', Inr ()) \<and> epoch_ok r' (h @ xs) \<and> ch_of r' = ch_of r"
    by (rule epoch_write)
next
  fix r h assume "epoch_ok r h"
  then show "\<exists>r'. ring_reset r = (r', Inr ()) \<and> epoch_ok r' [] \<and> ch_of r' = ch_of r" by (rule epoch_reset)
next
  fix r h assume ok: "epoch_ok r h"
  then have "epoch_ok (fst (ring_clear r)) h" using ring_clear_inv[of r h] by (simp add: epoch_ok_def ring_clear_def)
  moreover have "oldest_frame (fst (ring_clear r)) = write_head_frame r"
    using ok ring_clear_inv[of r h] by (simp add: epoch_ok_def write_head_frame_def)
  ultimately show "\<exists>r'. ring_clear r = (r', Inr ()) \<and> epoch_ok r' h \<and> ch_of r' = ch_of r \<and> oldest_frame r' = write_head_frame r"
    by (simp add: ring_clear_def)
next
  fix r h s e n and dest :: "f32 list"
  assume ok: "epoch_ok r h" and a: "oldest_frame r \<le> s" "s \<le> e" "e \<le> write_head_frame r" "length dest = n * ch_of r"
    "s + n < u64_lim" "length dest < u64_lim"
  have inv: "ring_inv r h" using ok by (simp add: epoch_ok_def)
  then have "0 < ch_of r" by (auto simp: ring_inv_def ring_geom_def)
  with a(4) have "length dest mod ch_of r = 0" "length dest div ch_of r = n" by simp_all
  with copy_range_exact[OF inv a(1,2), of dest] a
  show "copy_interleaved_range_into r s e dest =
      (blit dest 0 (take (min (e - s) n * ch_of r) (drop (s * ch_of r) h)), Inr (min (e - s) n))"
    by (simp add: write_head_frame_def)
qed

section \<open>The worker over the absolute history\<close>

text \<open>
  \<open>hist\<close> is everything the worker has written since it started.  The active epoch holds the
  history from its base on; the other epoch, while it is frozen, holds the stretch from its own
  base to the base of the active one.
\<close>

definition worker_inv :: "ring_config \<Rightarrow> worker_state \<Rightarrow> f32 list \<Rightarrow> bool" where
  "worker_inv c w hist \<longleftrightarrow>
     length (w_epochs w) = 2 \<and> length (w_bases w) = 2 \<and> w_active w < 2 \<and>
     w_channels w = rc_channels c \<and> 0 < rc_channels c \<and> w_sample_rate w = rc_sample_rate c \<and>
     (\<forall>i < 2. ch_of (w_epochs w ! i) = rc_channels c) \<and>
     length hist = w_absolute_head w * rc_channels c \<and> w_absolute_head w < u64_lim \<and>
     w_written_frames w = w_absolute_head w \<and> w_retired_dropped_frames w = 0 \<and>
     w_bases w ! w_active w \<le> w_absolute_head w \<and>
     epoch_ok (w_epochs w ! w_active w) (drop (w_bases w ! w_active w * rc_channels c) hist) \<and>
     (case w_frozen w of
        None \<Rightarrow> \<exists>h. epoch_ok (w_epochs w ! (1 - w_active w)) h
      | Some (i, g) \<Rightarrow> i = 1 - w_active w \<and> w_bases w ! i \<le> w_bases w ! w_active w \<and>
          epoch_ok (w_epochs w ! i)
            (frames_slice (rc_channels c) hist (w_bases w ! i) (w_bases w ! w_active w)))"

text \<open>The two indices of the epochs.\<close>

lemma two_cases: "a < (2::nat) \<Longrightarrow> a = 0 \<or> a = 1"
  by linarith

lemma worker_inv_head:
  assumes "worker_inv c w hist"
  shows "w_bases w ! w_active w + write_head_frame (w_epochs w ! w_active w) = w_absolute_head w"
proof -
  let ?r = "w_epochs w ! w_active w" and ?b = "w_bases w ! w_active w" and ?ch = "rc_channels c"
  have ok: "epoch_ok ?r (drop (?b * ?ch) hist)" and ch: "ch_of ?r = ?ch" "0 < ?ch"
    and len: "length hist = w_absolute_head w * ?ch" and le: "?b \<le> w_absolute_head w"
    using assms by (auto simp: worker_inv_def)
  have "(w_absolute_head w - ?b) * ?ch = write_head_frame ?r * ?ch"
    using epoch.head_length[OF ok] ch(1) len by (simp add: diff_mult_distrib)
  then have "w_absolute_head w - ?b = write_head_frame ?r" using ch(2) by simp
  then show ?thesis using le by simp
qed

lemma worker_write:
  assumes inv: "worker_inv c w hist" and len: "length xs = n * rc_channels c"
    and lim: "w_absolute_head w + n + 2 < u64_lim"
  shows "\<exists>r'. write_interleaved t xs (rc_channels c) (w_epochs w ! w_active w) = (r', Inr ()) \<and>
           worker_inv c (w\<lparr>w_epochs := (w_epochs w)[w_active w := r'], w_absolute_head := w_absolute_head w + n,
                           w_written_frames := w_written_frames w + n\<rparr>) (hist @ xs)"
proof -
  let ?a = "w_active w" and ?ch = "rc_channels c"
  let ?r = "w_epochs w ! w_active w" and ?b = "w_bases w ! w_active w"
  have a: "?a < 2" and ch: "ch_of ?r = ?ch" "0 < ?ch" and len2: "length (w_epochs w) = 2" "length (w_bases w) = 2"
    and hl: "length hist = w_absolute_head w * ?ch" and bl: "?b \<le> w_absolute_head w"
    and ok: "epoch_ok ?r (drop (?b * ?ch) hist)"
    using inv by (auto simp: worker_inv_def)
  have bh: "?b * ?ch \<le> length hist" using bl hl by simp
  have "write_head_frame ?r + n + 2 < u64_lim" using worker_inv_head[OF inv] lim by linarith
  then obtain r' where run: "write_interleaved t xs ?ch ?r = (r', Inr ())"
    and ok': "epoch_ok r' (drop (?b * ?ch) (hist @ xs))" and ch': "ch_of r' = ?ch"
    using epoch.based_put[of ?r ?b hist xs n t] ok ch bh len by auto
  have other: "(w_epochs w)[?a := r'] ! (1 - ?a) = w_epochs w ! (1 - ?a)"
    using two_cases[OF a] by auto
  have chs: "\<forall>i < 2. ch_of ((w_epochs w)[?a := r'] ! i) = ?ch"
    using inv ch' len2 by (auto simp: worker_inv_def nth_list_update)
  have "worker_inv c (w\<lparr>w_epochs := (w_epochs w)[?a := r'], w_absolute_head := w_absolute_head w + n,
                           w_written_frames := w_written_frames w + n\<rparr>) (hist @ xs)"
    using inv a len2 hl bl ok' chs other frames_slice_append[OF bh] len lim
    by (auto simp: worker_inv_def add_mult_distrib split: option.splits)
  with run show ?thesis by blast
qed

section \<open>Commands keep the invariant\<close>

lemma retire_and_reset_ok:
  assumes ok: "epoch_ok (w_epochs w ! i) h" and i: "i < length (w_epochs w)" and z: "w_retired_dropped_frames w = 0"
  shows "\<exists>r lo. retire_and_reset i w = (w\<lparr>w_epochs := (w_epochs w)[i := r], w_retired_last_overrun := lo\<rparr>, Inr ()) \<and>
           epoch_ok r [] \<and> ch_of r = ch_of (w_epochs w ! i)"
proof -
  obtain r where r: "ring_reset (w_epochs w ! i) = (r, Inr ())" "epoch_ok r []" "ch_of r = ch_of (w_epochs w ! i)"
    using epoch.reset_ok[OF ok] by blast
  have d: "st_dropped_frames (sample_ring_status (w_epochs w ! i)) = 0"
    using ok by (simp add: sample_ring_status_def Let_def epoch_ok_def)
  have eq: "w\<lparr>w_epochs := (w_epochs w)[i := r], w_retired_dropped_frames := 0, w_retired_last_overrun := lo\<rparr> =
      w\<lparr>w_epochs := (w_epochs w)[i := r], w_retired_last_overrun := lo\<rparr>" for lo
    using z by (cases w) simp
  show ?thesis
    using r d z by (intro exI[of _ r]) (auto simp: retire_and_reset_def Let_def checked_add64_def eq)
qed

text \<open>An outstanding descriptor agrees with the frozen epoch of the worker.\<close>

definition desc_ok :: "ring_config \<Rightarrow> worker_state \<Rightarrow> frozen_descriptor \<Rightarrow> bool" where
  "desc_ok c w d \<longleftrightarrow>
     w_frozen w = Some (fd_index d, fd_generation d) \<and> fd_index d < 2 \<and>
     fd_base d = w_bases w ! fd_index d \<and> fd_channels d = rc_channels c \<and> fd_sample_rate d = rc_sample_rate c \<and>
     fd_base d + oldest_frame (w_epochs w ! fd_index d) \<le> fst (fd_absolute_range d) \<and>
     fst (fd_absolute_range d) \<le> snd (fd_absolute_range d) \<and>
     snd (fd_absolute_range d) = fd_base d + write_head_frame (w_epochs w ! fd_index d) \<and>
     snd (fd_absolute_range d) < u64_lim"

lemma freeze_ok:
  assumes inv: "worker_inv c w hist" and nf: "w_frozen w = None" and gen: "w_next_generation w + 1 < u64_lim"
    and start_def: "start = max (case committed of None \<Rightarrow> w_bases w ! w_active w + oldest_frame (w_epochs w ! w_active w) | Some k \<Rightarrow> k)
                       (w_bases w ! w_active w + oldest_frame (w_epochs w ! w_active w))"
  shows "\<exists>w' d. freeze committed w = (w', Inr d) \<and> worker_inv c w' hist \<and>
           w_absolute_head w' = w_absolute_head w \<and> w_bases w' ! w_active w' = w_absolute_head w \<and>
           (if start < w_absolute_head w
            then \<exists>x. d = Some x \<and> fd_absolute_range x = (start, w_absolute_head w) \<and> desc_ok c w' x
            else d = None \<and> w_frozen w' = None)"
proof -
  let ?a = "w_active w" and ?s = "1 - w_active w" and ?ch = "rc_channels c"
  let ?r = "w_epochs w ! w_active w" and ?b = "w_bases w ! w_active w" and ?H = "w_absolute_head w"
  have a: "?a < 2" "?s < 2" "?s \<noteq> ?a" "1 - ?s = ?a" and len: "length (w_epochs w) = 2" "length (w_bases w) = 2"
    using inv by (auto simp: worker_inv_def dest: two_cases)
  have ch: "\<forall>i < 2. ch_of (w_epochs w ! i) = ?ch" "0 < ?ch" and hl: "length hist = ?H * ?ch" "?H < u64_lim"
    and ok: "epoch_ok ?r (drop (?b * ?ch) hist)" and z: "w_retired_dropped_frames w = 0" and bl: "?b \<le> ?H"
    using inv by (auto simp: worker_inv_def)
  from inv nf obtain h where "epoch_ok (w_epochs w ! ?s) h" by (auto simp: worker_inv_def)
  from retire_and_reset_ok[OF this _ z] a len obtain r lo
    where rr: "retire_and_reset ?s w = (w\<lparr>w_epochs := (w_epochs w)[?s := r], w_retired_last_overrun := lo\<rparr>, Inr ())"
      and r: "epoch_ok r []" "ch_of r = ?ch" using ch by auto
  have hd: "?b + write_head_frame ?r = ?H" by (rule worker_inv_head[OF inv])
  have od: "oldest_frame ?r \<le> write_head_frame ?r" by (rule epoch.oldest_le_head[OF ok])
  define w2 where "w2 = w\<lparr>w_epochs := (w_epochs w)[?s := r], w_retired_last_overrun := lo,
      w_bases := (w_bases w)[?s := ?H], w_active := ?s\<rparr>"
  have keep: "(w_epochs w)[?s := r] ! ?a = ?r" "(w_bases w)[?s := ?H] ! ?a = ?b"
    "(w_epochs w)[?s := r] ! ?s = r" "(w_bases w)[?s := ?H] ! ?s = ?H"
    using a len by simp_all
  have chs: "\<forall>i < 2. ch_of ((w_epochs w)[?s := r] ! i) = ?ch" using ch r len by (auto simp: nth_list_update)
  have slice: "frames_slice ?ch hist ?b ?H = drop (?b * ?ch) hist" using frames_slice_all[OF hl(1)] .
  have inv2: "worker_inv c (w2\<lparr>w_next_generation := g, w_frozen := f\<rparr>) hist"
    if "f = None \<or> f = Some (?a, g)" for f g
    using that inv a len chs keep r ok hl bl slice z by (auto simp: worker_inv_def w2_def)
  have b2: "w_bases w2 ! w_active w2 = ?H" "w_absolute_head w2 = ?H" using keep by (simp_all add: w2_def)
  have adds: "checked_add64 ?b (write_head_frame ?r) = Some ?H" "checked_add64 ?b (oldest_frame ?r) = Some (?b + oldest_frame ?r)"
    using hd od hl(2) by simp_all
  have go: "freeze committed w =
     (if start < ?H
      then (w2\<lparr>w_next_generation := w_next_generation w + 1, w_frozen := Some (?a, w_next_generation w + 1)\<rparr>,
            Inr (Some \<lparr>fd_index = ?a, fd_generation = w_next_generation w + 1, fd_base = ?b,
                       fd_absolute_range = (start, ?H), fd_local_range = (start - ?b, write_head_frame ?r),
                       fd_channels = w_channels w, fd_sample_rate = w_sample_rate w, fd_format = w_format w\<rparr>))
      else (w2, Inr None))"
    using nf gen adds rr
    by (simp add: freeze_def Let_def start_def w2_def del: checked_add64_Some_iff)
  have wch: "w_channels w = ?ch" "w_sample_rate w = rc_sample_rate c" using inv by (simp_all add: worker_inv_def)
  have lo: "?b + oldest_frame ?r \<le> start" by (simp add: start_def)
  show ?thesis
  proof (cases "start < ?H")
    case True
    let ?d = "\<lparr>fd_index = ?a, fd_generation = w_next_generation w + 1, fd_base = ?b,
                       fd_absolute_range = (start, ?H), fd_local_range = (start - ?b, write_head_frame ?r),
                       fd_channels = w_channels w, fd_sample_rate = w_sample_rate w, fd_format = w_format w\<rparr>"
    let ?w = "w2\<lparr>w_next_generation := w_next_generation w + 1, w_frozen := Some (?a, w_next_generation w + 1)\<rparr>"
    have "desc_ok c ?w ?d"
      using a keep hd hl(2) lo True wch by (simp add: desc_ok_def w2_def)
    moreover have "worker_inv c ?w hist" by (rule inv2) simp
    ultimately show ?thesis using go True b2 by simp
  next
    case False
    have "w2\<lparr>w_next_generation := w_next_generation w2, w_frozen := None\<rparr> = w2"
      using nf by (cases w) (simp add: w2_def)
    then have "worker_inv c w2 hist" using inv2[of None "w_next_generation w2"] by simp
    then show ?thesis using go False b2 nf by (simp add: w2_def)
  qed
qed

lemma freeze_pending: "w_frozen w \<noteq> None \<Longrightarrow> fst (freeze committed w) = w"
  by (simp add: freeze_def)

lemma release_ok:
  assumes inv: "worker_inv c w hist" and f: "w_frozen w = Some (i, g)"
  shows "\<exists>w'. release i g w = (w', Inr ()) \<and> worker_inv c w' hist \<and> w_frozen w' = None \<and>
           w_absolute_head w' = w_absolute_head w \<and> w_bases w' = w_bases w \<and> w_active w' = w_active w"
proof -
  have a: "w_active w < 2" "i = 1 - w_active w" "i \<noteq> w_active w" "i < 2" and len: "length (w_epochs w) = 2"
    and ok: "\<exists>h. epoch_ok (w_epochs w ! i) h" and z: "w_retired_dropped_frames w = 0"
    and ch: "\<forall>i < 2. ch_of (w_epochs w ! i) = rc_channels c"
    using inv f by (auto simp: worker_inv_def dest: two_cases)
  from ok obtain h where "epoch_ok (w_epochs w ! i) h" by blast
  from retire_and_reset_ok[OF this _ z] a len obtain r lo
    where rr: "retire_and_reset i w = (w\<lparr>w_epochs := (w_epochs w)[i := r], w_retired_last_overrun := lo\<rparr>, Inr ())"
      and r: "epoch_ok r []" "ch_of r = rc_channels c" using ch by auto
  have "(w_epochs w)[i := r] ! w_active w = w_epochs w ! w_active w" "(w_epochs w)[i := r] ! i = r"
    "\<forall>j < 2. ch_of ((w_epochs w)[i := r] ! j) = rc_channels c"
    using a len r ch by (auto simp: nth_list_update)
  with inv a r f rr show ?thesis
    by (auto simp: release_def worker_inv_def)
qed

lemma release_refused:
  "w_frozen w \<noteq> Some (i, g) \<Longrightarrow> \<exists>e. release i g w = (w, Inl e)"
  by (auto simp: release_def split: option.splits)

lemma worker_clear_inv:
  assumes inv: "worker_inv c w hist" and run: "worker_clear n acc w = (w', res)"
  shows "worker_inv c w' hist \<and> w_frozen w' = w_frozen w \<and> w_bases w' = w_bases w \<and> w_active w' = w_active w \<and>
         (\<forall>i. i \<noteq> w_active w \<longrightarrow> w_epochs w' ! i = w_epochs w ! i)"
proof -
  let ?r = "w_epochs w ! w_active w"
  have ok: "epoch_ok ?r (drop (w_bases w ! w_active w * rc_channels c) hist)" and a: "w_active w < 2"
    and len: "length (w_epochs w) = 2"
    using inv by (auto simp: worker_inv_def)
  obtain r where r: "ring_clear ?r = (r, Inr ())" "epoch_ok r (drop (w_bases w ! w_active w * rc_channels c) hist)"
    "ch_of r = ch_of ?r" using epoch.clear_ok[OF ok] by blast
  have "w' = w \<or> w' = w\<lparr>w_epochs := (w_epochs w)[w_active w := r]\<rparr>"
    using run r(1) by (auto simp: worker_clear_def split: sum.splits)
  then show ?thesis
  proof
    assume w': "w' = w\<lparr>w_epochs := (w_epochs w)[w_active w := r]\<rparr>"
    have "(w_epochs w)[w_active w := r] ! (1 - w_active w) = w_epochs w ! (1 - w_active w)"
      using two_cases[OF a] by auto
    moreover have "\<forall>j < 2. ch_of ((w_epochs w)[w_active w := r] ! j) = rc_channels c"
      using inv r len by (auto simp: nth_list_update worker_inv_def)
    ultimately show ?thesis
      using inv r a len unfolding w' worker_inv_def by (auto split: option.splits)
  qed (use inv in simp)
qed

text \<open>Copying out of an outstanding frozen epoch.\<close>

lemma frozen_copy_exact:
  assumes inv: "worker_inv c w hist" and dk: "desc_ok c w d"
    and lo: "fst (fd_absolute_range d) \<le> s" and se: "s \<le> e" and hi: "e \<le> snd (fd_absolute_range d)"
    and dest: "length dest = n * rc_channels c" "s + n < u64_lim" "length dest < u64_lim"
  shows "frozen_copy w (frozen_epoch_from_descriptor rid d) s e dest =
     (blit dest 0 (take (min (e - s) n * rc_channels c) (drop (s * rc_channels c) hist)), Inr (min (e - s) n))"
proof -
  let ?w = w and ?i = "fd_index d" and ?ch = "rc_channels c"
  let ?r = "w_epochs ?w ! fd_index d"
  have ch: "ch_of ?r = ?ch" and b: "fd_base d = w_bases ?w ! ?i"
    using inv dk by (auto simp: worker_inv_def desc_ok_def)
  have ok: "epoch_ok ?r (take ((w_bases ?w ! w_active ?w - fd_base d) * ?ch) (drop (fd_base d * ch_of ?r) hist))"
  proof -
    have "w_frozen ?w = Some (?i, fd_generation d)" using dk by (simp add: desc_ok_def)
    with inv have "epoch_ok ?r (frames_slice ?ch hist (w_bases ?w ! ?i) (w_bases ?w ! w_active ?w))"
      by (auto simp: worker_inv_def)
    then show ?thesis unfolding ch b frames_slice_def .
  qed
  have bounds: "fd_base d + oldest_frame ?r \<le> s" "e \<le> fd_base d + write_head_frame ?r"
    using dk lo hi by (auto simp: desc_ok_def)
  then have "wsub64 s (fd_base d) = s - fd_base d" "wsub64 e (fd_base d) = e - fd_base d"
    using se by simp_all
  moreover note epoch.based_copy[OF ok bounds(1) se bounds(2), of dest n] 
  ultimately show ?thesis
    using lo se hi dest ch by (simp add: frozen_copy_def frozen_epoch_from_descriptor_def)
qed


end
