(* ===== verification/Ingress_Theorems.thy ===== *)
theory Ingress_Theorems
  imports Ingress_Queue
begin

text \<open>
  The theorems on the ingress queue: a push accounts for every frame, the queue delivers in
  order, producer and consumer never touch the same slot, and the calibration boundary is a
  consistent reading.
\<close>

section \<open>A push accounts for every frame\<close>

lemma queue_inv_counters:
  assumes "queue_inv q"
  shows "queue_inv (q\<lparr>cumulative_dropped_frames := a, q_dropped_frames := b\<rparr>)"
    and "queue_items (q\<lparr>cumulative_dropped_frames := a, q_dropped_frames := b\<rparr>) = queue_items q"
  using assms
  by (simp_all add: queue_inv_def queue_items_def slot_item_def slot_index_def)

lemma push_iteration_full:
  assumes "queue_inv q" and "length (queue_items q) = queue_capacity q" and "\<not> drop_counter_exhausted q"
    and "cumulative_dropped_frames q + (tot - source) < u64_lim" and "q_dropped_frames q + (tot - source) < u64_lim"
  shows "push_iteration samples ch tot source q =
     (q\<lparr>cumulative_dropped_frames := cumulative_dropped_frames q + (tot - source),
        q_dropped_frames := q_dropped_frames q + (tot - source)\<rparr>, Inr None)"
  using assms
  by (auto simp: push_iteration_def queue_depth_def queue_inv_def queue_capacity_def length_queue_items
      checked_sub64_def ingress_add_dropped_frames_def add_cumulative_dropped_frames_def checked_add64_def)

lemma push_iteration_room:
  assumes inv: "queue_inv q" and room: "length (queue_items q) < queue_capacity q"
    and src: "source < tot" "tot * q_channels q \<le> length samples" "length samples < u64_lim"
    and lim: "published_sequence q + 1 < u64_lim" "enqueued_frames q + (tot - source) < u64_lim"
  defines "n \<equiv> min (tot - source) (q_slot_frames q)"
  shows "push_iteration samples (q_channels q) tot source q =
     (stored (take (n * q_channels q) (drop (source * q_channels q) samples)) n q, Inr (Some n))"
proof -
  let ?ch = "q_channels q" and ?i = "slot_index q (published_sequence q)"
  have "(source + n) * ?ch \<le> tot * ?ch" using src(1) by (intro mult_le_mono1) (simp add: n_def)
  then have b: "source * ?ch + n * ?ch \<le> length samples" using src(2) unfolding add_mult_distrib by linarith
  then have m: "source * ?ch < u64_lim" "n * ?ch < u64_lim" using src(3) by linarith+
  have "slots q ! ?i \<in> set (slots q)" using inv by (simp add: slot_index_def queue_inv_def)
  then have "length (slot_samples (slots q ! ?i)) = q_slot_frames q * ?ch" using inv by (simp add: queue_inv_def)
  moreover have "n * ?ch \<le> q_slot_frames q * ?ch" by (intro mult_le_mono1) (simp add: n_def)
  ultimately have fit: "\<not> length (slot_samples (slots q ! ?i)) < n * ?ch" by linarith
  have e: "enqueued_frames q + n < u64_lim" using lim(2) by (simp add: n_def)
  have "push_store samples ?ch source n q = (stored (take (n * ?ch) (drop (source * ?ch) samples)) n q, Inr (Some n))"
    using b m fit e lim(1)
    by (simp add: push_store_def add_enqueued_frames_def checked_add64_def checked_mul64_def stored_def slot_index_def)
  then show ?thesis
    using inv room
    by (simp add: push_iteration_def queue_depth_def queue_inv_def queue_capacity_def length_queue_items
        checked_sub64_def n_def)
qed

lemma push_loop_conserves:
  assumes "queue_inv q" and "\<not> drop_counter_exhausted q" and "source \<le> tot"
    and "tot * q_channels q \<le> length samples" and "length samples < u64_lim"
    and "published_sequence q + (tot - source) + 1 < u64_lim" and "enqueued_frames q + (tot - source) < u64_lim"
    and "cumulative_dropped_frames q + (tot - source) < u64_lim" and "q_dropped_frames q + (tot - source) < u64_lim"
  shows "\<exists>k q'. source \<le> k \<and> k \<le> tot \<and>
     push_loop samples (q_channels q) tot source enq q =
       (q', Inr \<lparr>po_enqueued_frames = enq + (k - source), po_dropped_frames = tot - k, po_published_sequence = published_sequence q'\<rparr>) \<and>
     queue_inv q' \<and> q_channels q' = q_channels q \<and>
     concat (queue_items q') = concat (queue_items q) @ take ((k - source) * q_channels q) (drop (source * q_channels q) samples) \<and>
     enqueued_frames q' = enqueued_frames q + (k - source) \<and>
     cumulative_dropped_frames q' = cumulative_dropped_frames q + (tot - k) \<and>
     q_dropped_frames q' = q_dropped_frames q + (tot - k) \<and>
     published_sequence q' \<le> published_sequence q + (k - source) \<and>
     (k < tot \<longrightarrow> length (queue_items q') = queue_capacity q')"
  using assms
proof (induction "tot - source" arbitrary: q source enq rule: less_induct)
  case less
  let ?ch = "q_channels q"
  have ch: "0 < ?ch" and F: "0 < q_slot_frames q" using less.prems(1) by (auto simp: queue_inv_def)
  consider "source = tot" | "source < tot" "length (queue_items q) = queue_capacity q"
    | "source < tot" "length (queue_items q) < queue_capacity q"
    using less.prems(3) ingress.within[OF less.prems(1)] by linarith
  then show ?case
  proof cases
    case 1
    with less.prems(1) show ?thesis
      by (intro exI[of _ source] exI[of _ q]) (simp add: push_loop.simps)
  next
    case 2
    let ?q = "q\<lparr>cumulative_dropped_frames := cumulative_dropped_frames q + (tot - source),
        q_dropped_frames := q_dropped_frames q + (tot - source)\<rparr>"
    have it: "push_iteration samples ?ch tot source q = (?q, Inr None)"
      by (rule push_iteration_full[OF less.prems(1) 2(2) less.prems(2,8,9)])
    note c = queue_inv_counters[OF less.prems(1), where a = "cumulative_dropped_frames q + (tot - source)" and b = "q_dropped_frames q + (tot - source)"]
    have "queue_capacity ?q = queue_capacity q" by (simp add: queue_capacity_def)
    with it c 2 show ?thesis
      by (intro exI[of _ source] exI[of _ ?q]) (simp add: push_loop.simps)
  next
    case 3
    define n where "n = min (tot - source) (q_slot_frames q)"
    define src where "src = take (n * ?ch) (drop (source * ?ch) samples)"
    let ?q = "stored src n q"
    have n: "0 < n" "source + n \<le> tot" "n \<le> q_slot_frames q" using 3(1) F by (auto simp: n_def)
    have lim: "published_sequence q + 1 < u64_lim" using less.prems(6) by linarith
    have it: "push_iteration samples ?ch tot source q = (?q, Inr (Some n))"
      unfolding src_def n_def by (rule push_iteration_room[OF less.prems(1) 3(2,1) less.prems(4,5) lim less.prems(7)])
    have "(source + n) * ?ch \<le> tot * ?ch" using n(2) by (rule mult_le_mono1)
    then have "source * ?ch + n * ?ch \<le> length samples" using less.prems(4) unfolding add_mult_distrib by linarith
    then have srclen: "length src = n * ?ch" by (simp add: src_def)
    have room: "published_sequence q - consumed_sequence q < length (slots q)"
      using 3(2) by (simp add: length_queue_items queue_capacity_def)
    note st = stored_slot[OF less.prems(1) room srclen n(3) lim]
    have smaller: "tot - (source + n) < tot - source" using n 3(1) by linarith
    have lims: "published_sequence ?q + (tot - (source + n)) + 1 < u64_lim" "enqueued_frames ?q + (tot - (source + n)) < u64_lim"
      "cumulative_dropped_frames ?q + (tot - (source + n)) < u64_lim" "q_dropped_frames ?q + (tot - (source + n)) < u64_lim"
      unfolding stored_simps using less.prems(6-9) n by linarith+
    have same: "\<not> drop_counter_exhausted ?q" "tot * q_channels ?q \<le> length samples"
      unfolding stored_simps using less.prems(2,4) by blast+
    from less.hyps[OF smaller st(1) same(1) n(2) same(2) less.prems(5) lims, of "enq + n"]
    obtain k q' where k: "source + n \<le> k" "k \<le> tot"
      and run: "push_loop samples ?ch tot (source + n) (enq + n) ?q =
        (q', Inr \<lparr>po_enqueued_frames = enq + n + (k - (source + n)), po_dropped_frames = tot - k, po_published_sequence = published_sequence q'\<rparr>)"
      and rest: "queue_inv q'" "q_channels q' = ?ch"
        "concat (queue_items q') = concat (queue_items ?q) @ take ((k - (source + n)) * ?ch) (drop ((source + n) * ?ch) samples)"
        "enqueued_frames q' = enqueued_frames ?q + (k - (source + n))"
        "cumulative_dropped_frames q' = cumulative_dropped_frames ?q + (tot - k)"
        "q_dropped_frames q' = q_dropped_frames ?q + (tot - k)"
        "published_sequence q' \<le> published_sequence ?q + (k - (source + n))"
        "k < tot \<longrightarrow> length (queue_items q') = queue_capacity q'"
      unfolding stored_simps(4) by blast
    have "published_sequence q' \<le> published_sequence q + (k - source)" using rest(7) n(1) k(1) unfolding stored_simps by linarith
    note pub = this
    have e: "n * ?ch + (k - (source + n)) * ?ch = (k - source) * ?ch"
      using k(1) by (simp flip: add_mult_distrib)
    have "src @ take ((k - (source + n)) * ?ch) (drop ((source + n) * ?ch) samples) = take ((k - source) * ?ch) (drop (source * ?ch) samples)"
      unfolding src_def add_mult_distrib[of source n] take_drop_append_take_drop e ..
    moreover have "push_loop samples ?ch tot source enq q = push_loop samples ?ch tot (source + n) (enq + n) ?q"
      using it 3(1) by (simp add: push_loop.simps[of samples ?ch tot source enq q])
    ultimately show ?thesis
      using run rest(1-6,8) pub k st(2) by (intro exI[of _ k] exI[of _ q']) simp
  qed
qed

section \<open>Producer and consumer side by side\<close>

text \<open>
  The accesses of both sides as separate steps.  \<open>ps_writing\<close> is the sequence number the
  producer has claimed after its capacity check, \<open>ps_reading\<close> the one the consumer is
  reading.
\<close>

record spsc =
  ps_queue :: ingress_queue
  ps_writing :: "nat option"
  ps_reading :: "nat option"

inductive spsc_step :: "spsc \<Rightarrow> spsc \<Rightarrow> bool" where
  claim: "\<lbrakk>ps_writing y = None; queue_depth (ps_queue y) = Inr d; d < length (slots (ps_queue y))\<rbrakk> \<Longrightarrow>
    spsc_step y (y\<lparr>ps_writing := Some (published_sequence (ps_queue y))\<rparr>)"
| fill: "\<lbrakk>ps_writing y = Some n\<rbrakk> \<Longrightarrow> spsc_step y (y\<lparr>ps_queue := fill_slot src frames (ps_queue y)\<rparr>)"
| publish: "\<lbrakk>ps_writing y = Some n\<rbrakk> \<Longrightarrow>
    spsc_step y (y\<lparr>ps_writing := None, ps_queue := (ps_queue y)\<lparr>published_sequence := n + 1\<rparr>\<rparr>)"
| open_slot: "\<lbrakk>ps_reading y = None; consume_next (ps_queue y) = Some ((x, frames, n), q')\<rbrakk> \<Longrightarrow>
    spsc_step y (y\<lparr>ps_reading := Some n\<rparr>)"
| close_slot: "\<lbrakk>ps_reading y = Some n\<rbrakk> \<Longrightarrow>
    spsc_step y (y\<lparr>ps_reading := None, ps_queue := (ps_queue y)\<lparr>consumed_sequence := n + 1\<rparr>\<rparr>)"

definition spsc_inv :: "spsc \<Rightarrow> bool" where
  "spsc_inv y \<longleftrightarrow>
     (let q = ps_queue y; p = published_sequence q; c = consumed_sequence q in
      0 < length (slots q) \<and> c \<le> p \<and> p \<le> c + length (slots q) \<and>
      (\<forall>n. ps_writing y = Some n \<longrightarrow> n = p \<and> p < c + length (slots q)) \<and>
      (\<forall>n. ps_reading y = Some n \<longrightarrow> n = c \<and> c < p))"

lemma spsc_inv_step: "spsc_step y y' \<Longrightarrow> spsc_inv y \<Longrightarrow> spsc_inv y'"
  by (induction rule: spsc_step.induct)
     (auto simp: spsc_inv_def Let_def queue_depth_def fill_slot_def consume_next_def split: if_splits)

lemma spsc_inv_reach: "spsc_step\<^sup>*\<^sup>* y y' \<Longrightarrow> spsc_inv y \<Longrightarrow> spsc_inv y'"
  by (induction rule: rtranclp_induct) (auto intro: spsc_inv_step)

section \<open>The calibration boundary\<close>

text \<open>
  The producers beside a reader of the boundary.  The second component counts producers that
  have already advanced the generation in their destructor but not yet left.
\<close>

inductive producer_step :: "ingress_queue \<times> nat \<Rightarrow> ingress_queue \<times> nat \<Rightarrow> bool" where
  enter: "producer_acquire q = (q', Inr ()) \<Longrightarrow> producer_step (q, l) (q', l)"
| push: "\<lbrakk>l < admitted_producers q; push_iteration samples ch tot source q = (q', res)\<rbrakk> \<Longrightarrow>
    producer_step (q, l) (q', l)"
| bump: "\<lbrakk>l < admitted_producers q;
      q' = (case checked_add64 (producer_generation q) 1 of
              Some n \<Rightarrow> q\<lparr>producer_generation := n\<rparr>
            | None \<Rightarrow> q\<lparr>producer_generation_exhausted := True\<rparr>)\<rbrakk> \<Longrightarrow>
    producer_step (q, l) (q', l + 1)"
| leave: "\<lbrakk>0 < l\<rbrakk> \<Longrightarrow>
    producer_step (q, l) (q\<lparr>producer_admission := wsub64 (producer_admission q) 1\<rparr>, l - 1)"
| shut: "producer_step (q, l) (close_producer_admission q, l)"

text \<open>Entering and leaving count the admitted producers.\<close>

lemma admitted_acquire:
  "producer_acquire q = (q', Inr ()) \<Longrightarrow> admitted_producers q' = admitted_producers q + 1"
proof -
  assume a: "producer_acquire q = (q', Inr ())"
  then have ne: "producer_admission q mod PRODUCER_OPEN \<noteq> PRODUCER_OPEN - 1" and q': "producer_admission q' = producer_admission q + 1"
    by (auto simp: producer_acquire_def admitted_producers_def split: if_splits)
  then show ?thesis
    by (simp add: admitted_producers_def mod_Suc PRODUCER_OPEN_def)
qed

lemma admitted_leave:
  assumes "0 < admitted_producers q"
  shows "admitted_producers (q\<lparr>producer_admission := wsub64 (producer_admission q) 1\<rparr>) = admitted_producers q - 1"
proof -
  let ?a = "producer_admission q"
  have "0 < ?a" using assms by (auto simp: admitted_producers_def intro: gr0I)
  then have e: "Suc (?a - 1) = ?a" "wsub64 ?a 1 = ?a - 1" by (simp_all add: wsub64_def)
  have "?a mod PRODUCER_OPEN = Suc ((?a - 1) mod PRODUCER_OPEN)"
    using assms mod_Suc[of "?a - 1" PRODUCER_OPEN] unfolding e(1) admitted_producers_def by (auto split: if_splits)
  then show ?thesis unfolding admitted_producers_def using e(2) by simp
qed

lemma push_iteration_admission:
  assumes "push_iteration samples ch tot source q = (q', res)"
  shows "producer_admission q' = producer_admission q \<and> producer_generation q' = producer_generation q \<and>
         producer_generation_exhausted q' = producer_generation_exhausted q"
proof -
  have d: "ingress_add_dropped_frames n q = (q1, r1) \<Longrightarrow> producer_admission q1 = producer_admission q \<and>
      producer_generation q1 = producer_generation q \<and> producer_generation_exhausted q1 = producer_generation_exhausted q" for n q1 r1
    by (auto simp: ingress_add_dropped_frames_def add_cumulative_dropped_frames_def split: if_splits option.splits)
  have e: "add_enqueued_frames n q = (q1, r1) \<Longrightarrow> producer_admission q1 = producer_admission q \<and>
      producer_generation q1 = producer_generation q \<and> producer_generation_exhausted q1 = producer_generation_exhausted q" for n q1 r1
    by (auto simp: add_enqueued_frames_def split: option.splits)
  have p: "push_store samples ch source n q = (q1, r1) \<Longrightarrow> producer_admission q1 = producer_admission q \<and>
      producer_generation q1 = producer_generation q \<and> producer_generation_exhausted q1 = producer_generation_exhausted q" for n q1 r1
    by (auto simp: push_store_def fill_slot_def Let_def dest!: e split: option.splits prod.splits sum.splits if_splits)
  show ?thesis
    using assms by (auto simp: push_iteration_def dest!: d p split: sum.splits if_splits prod.splits)
qed

text \<open>
  While the generation is still \<open>g\<close>, either both counters still have the values \<open>f\<close> and
  \<open>d\<close>, or some producer is inside that has not begun to leave.
\<close>

definition boundary_inv :: "nat \<Rightarrow> nat \<Rightarrow> nat \<Rightarrow> ingress_queue \<times> nat \<Rightarrow> bool" where
  "boundary_inv g f d y \<longleftrightarrow>
     (case y of (q, l) \<Rightarrow>
        l \<le> admitted_producers q \<and> g \<le> producer_generation q \<and>
        (producer_generation q = g \<and> \<not> producer_generation_exhausted q \<longrightarrow>
           published_sequence q = f \<and> cumulative_dropped_frames q = d \<or> l < admitted_producers q))"

lemma boundary_inv_step: "producer_step y y' \<Longrightarrow> boundary_inv g f d y \<Longrightarrow> boundary_inv g f d y'"
proof (induction rule: producer_step.induct)
  case (enter q q' l)
  then have "producer_generation q' = producer_generation q" "published_sequence q' = published_sequence q"
    "cumulative_dropped_frames q' = cumulative_dropped_frames q"
    "producer_generation_exhausted q' = producer_generation_exhausted q"
    by (auto simp: producer_acquire_def split: if_splits)
  with admitted_acquire[OF enter(1)] enter(2) show ?case by (auto simp: boundary_inv_def)
next
  case (push l q samples ch tot source q' res)
  from push_iteration_admission[OF push(2)] push(1,3) show ?case
    by (auto simp: boundary_inv_def admitted_producers_def)
next
  case (bump l q q')
  then show ?case
    by (auto simp: boundary_inv_def admitted_producers_def split: option.splits)
next
  case (leave l q)
  then have "0 < admitted_producers q" by (auto simp: boundary_inv_def)
  from admitted_leave[OF this] leave show ?case by (auto simp: boundary_inv_def)
next
  case (shut q l)
  then show ?case by (auto simp: boundary_inv_def close_producer_admission_def admitted_producers_def)
qed

lemma boundary_inv_reach: "producer_step\<^sup>*\<^sup>* y y' \<Longrightarrow> boundary_inv g f d y \<Longrightarrow> boundary_inv g f d y'"
  by (induction rule: rtranclp_induct) (auto intro: boundary_inv_step)

text \<open>Generations and the exhaustion flag only grow, and the leaving are among the admitted.\<close>

lemma producer_step_mono:
  "producer_step y y' \<Longrightarrow> snd y \<le> admitted_producers (fst y) \<Longrightarrow>
     snd y' \<le> admitted_producers (fst y') \<and> producer_generation (fst y) \<le> producer_generation (fst y') \<and>
     (producer_generation_exhausted (fst y) \<longrightarrow> producer_generation_exhausted (fst y'))"
proof (induction rule: producer_step.induct)
  case (enter q q' l)
  with admitted_acquire[OF enter(1)] show ?case by (auto simp: producer_acquire_def split: if_splits)
next
  case (push l q samples ch tot source q' res)
  with push_iteration_admission[OF push(2)] show ?case by (simp add: admitted_producers_def)
next
  case (bump l q q')
  then show ?case by (auto simp: admitted_producers_def split: option.splits)
next
  case (leave l q)
  then show ?case using admitted_leave[of q] by auto
next
  case (shut q l)
  then show ?case by (simp add: close_producer_admission_def admitted_producers_def)
qed

lemma producer_reach_mono:
  "producer_step\<^sup>*\<^sup>* y y' \<Longrightarrow> snd y \<le> admitted_producers (fst y) \<Longrightarrow>
     snd y' \<le> admitted_producers (fst y') \<and> producer_generation (fst y) \<le> producer_generation (fst y') \<and>
     (producer_generation_exhausted (fst y) \<longrightarrow> producer_generation_exhausted (fst y'))"
  by (induction rule: rtranclp_induct) (auto dest!: producer_step_mono intro: le_trans)

section \<open>Theorems\<close>

definition demo_queue :: ingress_queue where
  "demo_queue = \<lparr>slots = [\<lparr>slot_frames_used = 0, slot_samples = [0, 0]\<rparr>], q_channels = 1, q_slot_frames = 2,
     published_sequence = 0, consumed_sequence = 0, enqueued_frames = 0, q_dropped_frames = 0,
     cumulative_dropped_frames = 0, drop_counter_exhausted = False, producer_admission = PRODUCER_OPEN,
     producer_generation = 0, producer_generation_exhausted = False\<rparr>"

lemma demo_queue_inv: "queue_inv demo_queue" "queue_items demo_queue = []"
  by (simp_all add: queue_inv_def demo_queue_def queue_items_def u32_lim_def u64_lim_def)

text \<open>
  (C23) A push of whole frames succeeds and accounts for every frame: the frames it reports as
  enqueued are appended to the queued samples in order, the frames it reports as dropped are
  added to both drop counters, together they are all the frames, and it drops only when every
  slot is taken.
\<close>

theorem push_accounts_for_every_frame:
  assumes "queue_inv q" and "\<not> drop_counter_exhausted q" and whole: "length samples = tot * q_channels q"
    and "length samples < u64_lim"
    and "published_sequence q + tot + 1 < u64_lim" and "enqueued_frames q + tot < u64_lim"
    and "cumulative_dropped_frames q + tot < u64_lim" and "q_dropped_frames q + tot < u64_lim"
  shows "\<exists>q' out. try_push samples (q_channels q) q = (q', Inr out) \<and> queue_inv q' \<and>
     po_enqueued_frames out + po_dropped_frames out = tot \<and>
     concat (queue_items q') = concat (queue_items q) @ take (po_enqueued_frames out * q_channels q) samples \<and>
     enqueued_frames q' = enqueued_frames q + po_enqueued_frames out \<and>
     cumulative_dropped_frames q' = cumulative_dropped_frames q + po_dropped_frames out \<and>
     q_dropped_frames q' = q_dropped_frames q + po_dropped_frames out \<and>
     (0 < po_dropped_frames out \<longrightarrow> length (queue_items q') = queue_capacity q')"
proof -
  have ch: "0 < q_channels q" using assms(1) by (simp add: queue_inv_def)
  have div: "length samples div q_channels q = tot" using whole ch by simp
  obtain k q' where k: "k \<le> tot" and run: "push_loop samples (q_channels q) tot 0 0 q =
       (q', Inr \<lparr>po_enqueued_frames = k, po_dropped_frames = tot - k, po_published_sequence = published_sequence q'\<rparr>)"
    and rest: "queue_inv q'" "concat (queue_items q') = concat (queue_items q) @ take (k * q_channels q) samples"
     "enqueued_frames q' = enqueued_frames q + k"
     "cumulative_dropped_frames q' = cumulative_dropped_frames q + (tot - k)"
     "q_dropped_frames q' = q_dropped_frames q + (tot - k)"
     "k < tot \<longrightarrow> length (queue_items q') = queue_capacity q'"
    using push_loop_conserves[OF assms(1,2) le0, of tot samples 0] assms(3-8) by auto
  have "try_push samples (q_channels q) q = push_loop samples (q_channels q) tot 0 0 q"
    using assms(2) whole ch div by (simp add: try_push_def)
  with run rest k show ?thesis by auto
qed

theorem push_accounts_for_every_frame_witness:
  "\<exists>q' out. try_push [1, 2, 3] 1 demo_queue = (q', Inr out) \<and> po_enqueued_frames out + po_dropped_frames out = 3 \<and>
     concat (queue_items q') = take (po_enqueued_frames out) [1, 2, 3]"
  using push_accounts_for_every_frame[OF demo_queue_inv(1), of "[1, 2, 3]" 3] demo_queue_inv(2)
  by (auto simp: demo_queue_def u64_lim_def)

text \<open>
  (C24) The queue is a bounded first-in first-out channel: over any sequence of slot pushes and
  slot pops the accepted slots come out once each and in order, and never more than the slots
  of the queue are waiting.
\<close>

theorem ingress_is_fifo:
  assumes "queue_inv q" and "\<forall>x. Push x \<in> set ops \<longrightarrow> slot_fits q x"
    and "fifo_run push_slot pop_slot ops q = (q', accepted, delivered)"
  shows "queue_items q @ accepted = delivered @ queue_items q' \<and> length (queue_items q') \<le> queue_capacity q"
  using ingress.run_conserves[OF assms] by blast

theorem ingress_is_fifo_witness:
  "let (q', accepted, delivered) = fifo_run push_slot pop_slot [Push [1, 2], Push [3], Pop, Push [4]] demo_queue
   in accepted = delivered @ queue_items q' \<and> length (queue_items q') \<le> 1"
proof -
  have "slot_fits demo_queue [1, 2]" "slot_fits demo_queue [3]" "slot_fits demo_queue [4]"
    by (simp_all add: slot_fits_def demo_queue_def)
  then have "\<forall>x. Push x \<in> set [Push [1, 2], Push [3], Pop, Push [4]] \<longrightarrow> slot_fits demo_queue x" by auto
  moreover obtain q' a d where "fifo_run push_slot pop_slot [Push [1, 2], Push [3], Pop, Push [4]] demo_queue = (q', a, d)"
    by (metis prod_cases3)
  moreover have "queue_capacity demo_queue = 1" by (simp add: queue_capacity_def demo_queue_def)
  ultimately show ?thesis
    using ingress_is_fifo[OF demo_queue_inv(1), of "[Push [1, 2], Push [3], Pop, Push [4]]" q' a d] demo_queue_inv(2)
    by simp
qed

text \<open>
  (C25) No data race on a slot: in every interleaving of the accesses of one producer and one
  consumer, the slot being written is never the slot being read.
\<close>

theorem producer_and_consumer_disjoint:
  assumes "spsc_step\<^sup>*\<^sup>* \<lparr>ps_queue = q, ps_writing = None, ps_reading = None\<rparr> y" and "queue_inv q"
    and "ps_writing y = Some n" and "ps_reading y = Some m"
  shows "slot_index (ps_queue y) n \<noteq> slot_index (ps_queue y) m"
proof -
  have "spsc_inv \<lparr>ps_queue = q, ps_writing = None, ps_reading = None\<rparr>"
    using assms(2) by (auto simp: spsc_inv_def Let_def queue_inv_def)
  from spsc_inv_reach[OF assms(1) this] assms(3,4) show ?thesis
    using mod_window_inj[of "length (slots (ps_queue y))" m n]
    by (auto simp: spsc_inv_def Let_def slot_index_def)
qed

definition demo_queue2 :: ingress_queue where
  "demo_queue2 = demo_queue\<lparr>slots := replicate 2 \<lparr>slot_frames_used = 1, slot_samples = [7, 0]\<rparr>, published_sequence := 1\<rparr>"

theorem producer_and_consumer_disjoint_witness:
  "slot_index demo_queue2 1 \<noteq> slot_index demo_queue2 0"
proof -
  let ?y0 = "\<lparr>ps_queue = demo_queue2, ps_writing = None, ps_reading = None\<rparr>"
  let ?y1 = "\<lparr>ps_queue = demo_queue2, ps_writing = Some 1, ps_reading = None\<rparr>"
  let ?y2 = "\<lparr>ps_queue = demo_queue2, ps_writing = Some 1, ps_reading = Some 0\<rparr>"
  have inv: "queue_inv demo_queue2"
    by (auto simp: queue_inv_def demo_queue2_def demo_queue_def u32_lim_def u64_lim_def slot_index_def)
  have "spsc_step ?y0 ?y1"
    using claim[of ?y0 1] by (simp add: demo_queue2_def demo_queue_def queue_depth_def checked_sub64_def)
  moreover have "spsc_step ?y1 ?y2"
    using open_slot[of ?y1 "[7]" 1 0] by (simp add: demo_queue2_def demo_queue_def consume_next_def slot_index_def Let_def)
  ultimately have "spsc_step\<^sup>*\<^sup>* ?y0 ?y2" by simp
  from producer_and_consumer_disjoint[OF this inv, of 1 0] show ?thesis by simp
qed

text \<open>
  (C26) The calibration boundary is a consistent reading: when the two-sided check lets a pair
  of values through, both counters had exactly these values during the whole of the reading,
  from the first check of the admission count to the second, although producers may enter,
  push and leave at any time.  (The generation counter must not have been exhausted.)
\<close>

theorem calibration_boundary_consistent:
  assumes ok: "calibration_boundary (\<lambda>i. fst (obs i)) = Inr (Some (f, d))"
    and run: "\<forall>i < 6. producer_step\<^sup>*\<^sup>* (obs i) (obs (Suc i))"
    and start: "snd (obs 0) \<le> admitted_producers (fst (obs 0))"
    and live: "\<not> producer_generation_exhausted (fst (obs 6))"
  shows "\<forall>i \<in> {2..5}. published_sequence (fst (obs i)) = f \<and> cumulative_dropped_frames (fst (obs i)) = d"
proof -
  have step: "producer_step\<^sup>*\<^sup>* (obs i) (obs j)" if "i \<le> j" "j \<le> 6" for i j
    using that
  proof (induction j)
    case (Suc j)
    show ?case
    proof (cases "i = Suc j")
      case False
      with Suc have "producer_step\<^sup>*\<^sup>* (obs i) (obs j)" by simp
      moreover have "producer_step\<^sup>*\<^sup>* (obs j) (obs (Suc j))" using run Suc.prems by simp
      ultimately show ?thesis by (rule rtranclp_trans)
    qed simp
  qed simp
  have lv: "snd (obs i) \<le> admitted_producers (fst (obs i))" if "i \<le> 6" for i
    using producer_reach_mono[OF step[OF le0 that] start] by simp
  from ok have g: "producer_generation (fst (obs 6)) = producer_generation (fst (obs 1))"
    and a2: "admitted_producers (fst (obs 2)) = 0" and a5: "admitted_producers (fst (obs 5)) = 0"
    and f: "f = published_sequence (fst (obs 3))" and d: "d = cumulative_dropped_frames (fst (obs 4))"
    by (auto simp: calibration_boundary_def Let_def split: if_splits)
  let ?g = "producer_generation (fst (obs 1))"
  have gen: "producer_generation (fst (obs i)) = ?g \<and> \<not> producer_generation_exhausted (fst (obs i))" if "1 \<le> i" "i \<le> 6" for i
  proof -
    have "producer_generation (fst (obs 1)) \<le> producer_generation (fst (obs i))"
      using producer_reach_mono[OF step[OF that] lv[of 1]] by simp
    moreover have "producer_generation (fst (obs i)) \<le> producer_generation (fst (obs 6)) \<and>
        (producer_generation_exhausted (fst (obs i)) \<longrightarrow> producer_generation_exhausted (fst (obs 6)))"
      using producer_reach_mono[OF step[OF that(2) order.refl] lv[OF that(2)]] by blast
    ultimately show ?thesis using g live by (auto intro: antisym)
  qed
  have same: "published_sequence (fst (obs i)) = published_sequence (fst (obs 2)) \<and>
      cumulative_dropped_frames (fst (obs i)) = cumulative_dropped_frames (fst (obs 2))" if i: "2 \<le> i" "i \<le> 5" for i
  proof -
    let ?P = "boundary_inv ?g (published_sequence (fst (obs i))) (cumulative_dropped_frames (fst (obs i)))"
    let ?Q = "boundary_inv ?g (published_sequence (fst (obs 2))) (cumulative_dropped_frames (fst (obs 2)))"
    have "?Q (obs 2)" using lv[of 2] gen[of 2] by (simp add: boundary_inv_def case_prod_beta)
    from boundary_inv_reach[OF step[of 2 5] this] have q5: "?Q (obs 5)" by simp
    have "?P (obs i)" using lv[of i] gen[of i] i by (simp add: boundary_inv_def case_prod_beta)
    from boundary_inv_reach[OF step[of i 5] this] i have p5: "?P (obs 5)" by simp
    from p5 q5 a5 gen[of 5] show ?thesis by (simp add: boundary_inv_def case_prod_beta)
  qed
  show ?thesis
  proof
    fix i :: nat assume "i \<in> {2..5}"
    then have "2 \<le> i" "i \<le> 5" by simp_all
    note i = same[OF this]
    have "f = published_sequence (fst (obs 2))" "d = cumulative_dropped_frames (fst (obs 2))"
      unfolding f d using same[of 3] same[of 4] by simp_all
    with i show "published_sequence (fst (obs i)) = f \<and> cumulative_dropped_frames (fst (obs i)) = d" by simp
  qed
qed

theorem calibration_boundary_consistent_witness:
  "published_sequence demo_queue = 0 \<and> cumulative_dropped_frames demo_queue = 0"
proof -
  let ?obs = "\<lambda>i::nat. (demo_queue, 0::nat)"
  have "calibration_boundary (\<lambda>i. fst (?obs i)) = Inr (Some (0, 0))"
    by (simp add: calibration_boundary_def demo_queue_def admitted_producers_def Let_def)
  from calibration_boundary_consistent[OF this] show ?thesis by (simp add: demo_queue_def)
qed

end
