(* ===== verification/Ring_Snapshot.thy ===== *)
theory Ring_Snapshot
  imports Ring_Copy
begin

text \<open>
  Snapshots of the ring (\<open>ActiveSnapshotGuard\<close>, \<open>collect_segments\<close>,
  \<open>pin_snapshot_range\<close>, \<open>finish_snapshot\<close>, the three selectors,
  \<open>read_channel_samples\<close> and the destructor of \<open>src/sample_ring.rs\<close>).

  A selector runs in two parts: the part under the \<open>write_chunk\<close> lock validates the range
  and pins the overlapping chunks, the part after it sorts the segments and checks coverage.
  The two parts are separate operations here, so that writes of other threads may fall between
  them.
\<close>

section \<open>Data\<close>

record snapshot_segment =
  seg_chunk :: nat
  expected_sequence :: nat
  start_frame_in_chunk :: nat
  frame_count :: nat

record snapshot =
  segments :: "snapshot_segment list"
  start_frame :: nat
  end_frame :: nat
  snap_channels :: nat
  snap_sample_rate :: nat
  snap_format :: sample_format
  total_frames :: nat
  active_counter :: bool

record snapshot_selection =
  sel_requested_start :: nat
  sel_oldest_frame :: nat
  sel_snapshot :: snapshot

section \<open>The guard of the active-snapshot slot\<close>

definition guard_acquire :: "sample_ring \<Rightarrow> sample_ring \<times> unit result" where
  "guard_acquire r =
     (if rc_max_active_snapshots (cfg r) \<le> active_snapshots r
      then (r, Inl (Control ''export already active''))
      else (r\<lparr>active_snapshots := wadd32 (active_snapshots r) 1\<rparr>, Inr ()))"

text \<open>Dropping a guard releases the slot unless the guard was consumed.\<close>

definition guard_drop :: "bool \<Rightarrow> sample_ring \<Rightarrow> sample_ring" where
  "guard_drop consumed r =
     (if consumed then r else r\<lparr>active_snapshots := wsub32 (active_snapshots r) 1\<rparr>)"

section \<open>Pinning\<close>

definition pin_chunk :: "nat \<Rightarrow> sample_ring \<Rightarrow> sample_ring" where
  "pin_chunk i r = set_chunk r i ((chunks r ! i)\<lparr>pin_count := wadd32 (pin_count (chunks r ! i)) 1\<rparr>)"

definition unpin_chunk :: "nat \<Rightarrow> sample_ring \<Rightarrow> sample_ring" where
  "unpin_chunk i r = set_chunk r i ((chunks r ! i)\<lparr>pin_count := wsub32 (pin_count (chunks r ! i)) 1\<rparr>)"

definition collect_step ::
    "nat \<Rightarrow> nat \<Rightarrow> nat \<Rightarrow> nat \<Rightarrow> sample_ring \<times> snapshot_segment list \<Rightarrow> sample_ring \<times> snapshot_segment list" where
  "collect_step first_chunk range_start range_end offset acc =
     (let (r, segs) = acc;
          i = (first_chunk + offset) mod length (chunks r);
          c = chunks r ! i
      in
      if state c \<noteq> Published then (r, segs)
      else
        let sq = sequence c;
            valid_start = valid_start_frame c;
            valid_end = wadd64 valid_start (valid_frame_count c)
        in
        if valid_end \<le> range_start \<or> range_end \<le> valid_start then (r, segs)
        else
          let overlap_start = max valid_start range_start;
              overlap_end = min valid_end range_end
          in
          if overlap_end \<le> overlap_start then (r, segs)
          else
            let r1 = pin_chunk i r; c1 = chunks r1 ! i in
            if state c1 \<noteq> Published \<or> sequence c1 \<noteq> sq then (unpin_chunk i r1, segs)
            else (r1, segs @ [\<lparr>seg_chunk = i, expected_sequence = sq,
                              start_frame_in_chunk = (overlap_start - valid_start) mod u32_lim,
                              frame_count = (overlap_end - overlap_start) mod u32_lim\<rparr>]))"

definition collect_segments ::
    "nat \<Rightarrow> nat \<Rightarrow> nat \<Rightarrow> sample_ring \<times> snapshot_segment list \<Rightarrow> sample_ring \<times> snapshot_segment list" where
  "collect_segments first_chunk range_start range_end acc =
     fold (collect_step first_chunk range_start range_end) [0..<length (chunks (fst acc))] acc"

text \<open>
  The result is the ring, the collected segments and whether a guard is held (an empty range
  takes none).
\<close>

definition pin_snapshot_range ::
    "sample_ring \<Rightarrow> nat \<Rightarrow> nat \<Rightarrow> nat \<Rightarrow> nat \<Rightarrow> sample_ring \<times> (snapshot_segment list \<times> bool) result" where
  "pin_snapshot_range r range_start range_end head oldest =
     (if range_end < range_start
      then (r, Inl (Control (''snapshot range start '' @ show_nat range_start @ '' exceeds end '' @ show_nat range_end)))
      else if range_start < oldest
      then (r, Inl (Control (''snapshot range starts at '' @ show_nat range_start @ '', before oldest retained frame '' @ show_nat oldest)))
      else if head < range_end
      then (r, Inl (Control (''snapshot range ends at '' @ show_nat range_end @ '', after write head '' @ show_nat head)))
      else if range_start = range_end then (r, Inr ([], False))
      else (case guard_acquire r of
              (r1, Inl e) \<Rightarrow> (r1, Inl e)
            | (r1, Inr _) \<Rightarrow>
                let first_chunk = (range_start div rc_chunk_frames (cfg r1)) mod length (chunks r1);
                    (r2, segs) = collect_segments first_chunk range_start range_end (r1, [])
                in (r2, Inr (segs, True))))"

section \<open>Finishing a snapshot\<close>

definition snapshot_drop :: "snapshot \<Rightarrow> sample_ring \<Rightarrow> sample_ring" where
  "snapshot_drop s r =
     (let r1 = fold (\<lambda>seg. unpin_chunk (seg_chunk seg)) (segments s) r in
      if active_counter s then r1\<lparr>active_snapshots := wsub32 (active_snapshots r1) 1\<rparr> else r1)"

definition segment_key :: "sample_ring \<Rightarrow> snapshot_segment \<Rightarrow> nat" where
  "segment_key r seg = wadd64 (valid_start_frame (chunks r ! seg_chunk seg)) (start_frame_in_chunk seg)"

fun check_coverage :: "sample_ring \<Rightarrow> nat \<Rightarrow> snapshot_segment list \<Rightarrow> nat result" where
  "check_coverage r expected_start [] = Inr expected_start"
| "check_coverage r expected_start (seg # segs) =
     (if segment_key r seg \<noteq> expected_start
      then Inl (Control (''snapshot range has incomplete coverage at frame '' @ show_nat expected_start))
      else check_coverage r (wadd64 (segment_key r seg) (frame_count seg)) segs)"

definition finish_snapshot ::
    "nat \<Rightarrow> nat \<Rightarrow> snapshot_segment list \<Rightarrow> bool \<Rightarrow> sample_ring \<Rightarrow> sample_ring \<times> snapshot result" where
  "finish_snapshot range_start range_end segs guard r =
     (let sorted = sort_key (segment_key r) segs;
          s = \<lparr>segments = sorted, start_frame = range_start, end_frame = range_end,
               snap_channels = rc_channels (cfg r), snap_sample_rate = rc_sample_rate (cfg r),
               snap_format = rc_format (cfg r),
               total_frames = foldl (\<lambda>t seg. wadd64 t (frame_count seg)) 0 sorted,
               active_counter = False\<rparr>;
          fail = (\<lambda>e. (let r1 = snapshot_drop s r in if guard then guard_drop False r1 else r1, Inl e))
      in
      case check_coverage r range_start sorted of
        Inl e \<Rightarrow> fail e
      | Inr expected_start \<Rightarrow>
          if expected_start \<noteq> range_end
          then fail (Control (''snapshot range has incomplete coverage at frame '' @ show_nat expected_start))
          else (r, Inr (s\<lparr>active_counter := guard\<rparr>)))"

section \<open>The selectors\<close>

text \<open>
  Each selector is its locked part, which also fixes the range, followed by
  \<open>finish_snapshot\<close>.  The locked part yields the range, the segments and the guard.
\<close>

type_synonym pinned_range = "nat \<times> nat \<times> snapshot_segment list \<times> bool"

definition locked_pin ::
    "sample_ring \<Rightarrow> (nat \<Rightarrow> nat \<Rightarrow> nat \<times> nat) \<Rightarrow> sample_ring \<times> pinned_range result" where
  "locked_pin r pick =
     (if write_poisoned r then (r, Inl (Control ''write chunk lock poisoned''))
      else
        let head = write_head_frame r;
            oldest = oldest_frame_at r head;
            (s, e) = pick head oldest
        in
        (case pin_snapshot_range r s e head oldest of
           (r1, Inl err) \<Rightarrow> (r1, Inl err)
         | (r1, Inr (segs, guard)) \<Rightarrow> (r1, Inr (s, e, segs, guard))))"

definition last_frames_range :: "nat \<Rightarrow> nat \<Rightarrow> nat \<Rightarrow> nat \<times> nat" where
  "last_frames_range requested_frames head oldest =
     (max (saturating_sub64 head requested_frames) oldest, head)"

definition committed_range :: "nat option \<Rightarrow> nat \<Rightarrow> nat \<Rightarrow> nat \<times> nat" where
  "committed_range committed_start head oldest =
     (max (case committed_start of None \<Rightarrow> oldest | Some c \<Rightarrow> c) oldest, head)"

definition run_selector ::
    "(nat \<Rightarrow> nat \<Rightarrow> nat \<times> nat) \<Rightarrow> sample_ring \<Rightarrow> sample_ring \<times> snapshot result" where
  "run_selector pick r =
     (case locked_pin r pick of
        (r1, Inl err) \<Rightarrow> (r1, Inl err)
      | (r1, Inr (s, e, segs, guard)) \<Rightarrow> finish_snapshot s e segs guard r1)"

definition snapshot_last_frames :: "nat \<Rightarrow> sample_ring \<Rightarrow> sample_ring \<times> snapshot result" where
  "snapshot_last_frames requested_frames r = run_selector (last_frames_range requested_frames) r"

definition snapshot_range :: "nat \<Rightarrow> nat \<Rightarrow> sample_ring \<Rightarrow> sample_ring \<times> snapshot result" where
  "snapshot_range s e r = run_selector (\<lambda>head oldest. (s, e)) r"

definition select_snapshot :: "nat option \<Rightarrow> sample_ring \<Rightarrow> sample_ring \<times> snapshot_selection result" where
  "select_snapshot committed_start r =
     (let oldest = oldest_frame_at r (write_head_frame r) in
      case run_selector (committed_range committed_start) r of
        (r1, Inl err) \<Rightarrow> (r1, Inl err)
      | (r1, Inr s) \<Rightarrow>
          (r1, Inr \<lparr>sel_requested_start = (case committed_start of None \<Rightarrow> oldest | Some c \<Rightarrow> c),
                    sel_oldest_frame = oldest, sel_snapshot = s\<rparr>))"

section \<open>Reading a channel\<close>

definition segment_channel :: "sample_ring \<Rightarrow> nat \<Rightarrow> nat \<Rightarrow> snapshot_segment \<Rightarrow> f32 list result" where
  "segment_channel r channels channel_index seg =
     (let c = chunks r ! seg_chunk seg in
      if sequence c \<noteq> expected_sequence seg \<or> state c \<noteq> Published
      then Inl (Export ''snapshot segment generation mismatch'')
      else if data_poisoned c then Inl (Export ''chunk data lock poisoned'')
      else if \<exists>k \<in> set [0..<frame_count seg].
                length (data c) \<le> wadd32 (start_frame_in_chunk seg) k * channels + channel_index
      then Inl (Panicked ''index out of bounds'')
      else Inr (map (\<lambda>k. data c ! (wadd32 (start_frame_in_chunk seg) k * channels + channel_index))
                  [0..<frame_count seg]))"

definition read_channel_samples :: "sample_ring \<Rightarrow> snapshot \<Rightarrow> nat \<Rightarrow> f32 list result" where
  "read_channel_samples r s channel_index =
     (if snap_channels s \<le> channel_index
      then Inl (Export (''channel index '' @ show_nat channel_index @ '' out of range for ''
                        @ show_nat (snap_channels s) @ '' channels''))
      else bindR (collectR (map (segment_channel r (snap_channels s) channel_index) (segments s)))
             (\<lambda>parts. Inr (concat parts)))"

end
