(* ===== verification/Snapshot_Isolation.thy ===== *)
theory Snapshot_Isolation
  imports Ring_Snapshot
begin

text \<open>
  The ring and its snapshots as a concurrent system.  Its steps are the atomic parts of the
  operations of \<open>src/sample_ring.rs\<close>: one iteration of the writer, the locked part of a
  selector, the unlocked end of a selector, the destructor of a snapshot, clear, reset and the
  drop counter.  The invariant accounts for every pin and relates the pinned chunks to the
  history at the time of pinning; from it follow that a selector never fails its coverage check
  and that a snapshot reads the same samples for as long as it lives.
\<close>

section \<open>Pins\<close>

abbreviation pin_segs :: "snapshot_segment list \<Rightarrow> sample_ring \<Rightarrow> sample_ring" where
  "pin_segs \<equiv> fold (\<lambda>g. pin_chunk (seg_chunk g))"

abbreviation unpin_segs :: "snapshot_segment list \<Rightarrow> sample_ring \<Rightarrow> sample_ring" where
  "unpin_segs \<equiv> fold (\<lambda>g. unpin_chunk (seg_chunk g))"

definition unpinned :: "chunk \<Rightarrow> chunk" where
  "unpinned c = c\<lparr>pin_count := 0\<rparr>"

text \<open>Two rings that differ in pin counts and in the active counter only.\<close>

definition pin_variant :: "sample_ring \<Rightarrow> sample_ring \<Rightarrow> bool" where
  "pin_variant r r' \<longleftrightarrow>
     map unpinned (chunks r') = map unpinned (chunks r) \<and>
     r'\<lparr>chunks := [], active_snapshots := 0\<rparr> = r\<lparr>chunks := [], active_snapshots := 0\<rparr>"

lemma pin_variant_refl [simp]: "pin_variant r r"
  by (simp add: pin_variant_def)

lemma pin_variant_trans: "pin_variant r r' \<Longrightarrow> pin_variant r' r'' \<Longrightarrow> pin_variant r r''"
  by (simp add: pin_variant_def)

lemma pin_variant_active: "pin_variant r (r\<lparr>active_snapshots := n\<rparr>)"
  by (simp add: pin_variant_def)

lemma map_unpinned_update:
  "unpinned c = unpinned (xs ! i) \<Longrightarrow> map unpinned (xs[i := c]) = map unpinned xs"
  by (cases "i < length xs") (auto intro!: nth_equalityI simp: nth_list_update)

lemma pin_variant_pin: "pin_variant r (pin_chunk i r)" "pin_variant r (unpin_chunk i r)"
  by (simp_all add: pin_variant_def pin_chunk_def unpin_chunk_def map_unpinned_update unpinned_def)

lemma pin_variant_pin_segs: "pin_variant r (pin_segs gs r)" "pin_variant r (unpin_segs gs r)"
  by (induction gs arbitrary: r) (auto intro: pin_variant_trans[OF pin_variant_pin(1)] pin_variant_trans[OF pin_variant_pin(2)])

lemma pin_variantD:
  assumes "pin_variant r r'"
  shows "C_of r' = C_of r" "cfg r' = cfg r" "global_write_frame r' = global_write_frame r"
    "write_poisoned r' = write_poisoned r" "clear_after_frame r' = clear_after_frame r"
    "write_chunk r' = write_chunk r" "next_sequence r' = next_sequence r"
    "overrun_poisoned r' = overrun_poisoned r"
proof -
  show "C_of r' = C_of r" using assms unfolding pin_variant_def by (metis length_map)
  have e: "r'\<lparr>chunks := [], active_snapshots := 0\<rparr> = r\<lparr>chunks := [], active_snapshots := 0\<rparr>"
    using assms by (simp add: pin_variant_def)
  show "cfg r' = cfg r" "global_write_frame r' = global_write_frame r"
    "write_poisoned r' = write_poisoned r" "clear_after_frame r' = clear_after_frame r"
    "write_chunk r' = write_chunk r" "next_sequence r' = next_sequence r"
    "overrun_poisoned r' = overrun_poisoned r"
    using e by (cases r; cases r'; simp)+
qed

lemma unpinned_fields:
  "unpinned c = unpinned c' \<Longrightarrow>
     state c = state c' \<and> sequence c = sequence c' \<and> valid_start_frame c = valid_start_frame c' \<and>
     valid_frame_count c = valid_frame_count c' \<and> data c = data c' \<and> data_poisoned c = data_poisoned c'"
  by (cases c; cases c') (simp add: unpinned_def)

lemma pin_variant_nth:
  assumes "pin_variant r r'" and "i < C_of r"
  shows "unpinned (chunks r' ! i) = unpinned (chunks r ! i)"
  using assms pin_variantD(1)[OF assms(1)] unfolding pin_variant_def by (metis nth_map)

lemma ring_inv_pin_variant:
  assumes "ring_inv r hist" and v: "pin_variant r r'"
  shows "ring_inv r' hist"
proof -
  note d = pin_variantD[OF v]
  have f: "state (chunks r' ! i) = state (chunks r ! i) \<and> sequence (chunks r' ! i) = sequence (chunks r ! i) \<and>
      valid_start_frame (chunks r' ! i) = valid_start_frame (chunks r ! i) \<and>
      valid_frame_count (chunks r' ! i) = valid_frame_count (chunks r ! i) \<and> data (chunks r' ! i) = data (chunks r ! i) \<and>
      data_poisoned (chunks r' ! i) = data_poisoned (chunks r ! i)" if "i < C_of r" for i
    using pin_variant_nth[OF v that] by (rule unpinned_fields)
  have "ring_geom r'"
  proof -
    have "length (data c) = F_of r * ch_of r \<and> \<not> data_poisoned c" if "c \<in> set (chunks r')" for c
    proof -
      from that obtain i where "i < C_of r" "c = chunks r' ! i"
        using d(1) by (auto simp: in_set_conv_nth)
      with f[of i] assms(1) show ?thesis by (simp add: ring_inv_def ring_geom_def)
    qed
    then show ?thesis using assms(1) d by (simp add: ring_inv_def ring_geom_def)
  qed
  moreover have "chunk_holds F ch N hist q (chunks r' ! i) = chunk_holds F ch N hist q (chunks r ! i)"
    if "i < C_of r" for F ch N q i
    using f[OF that] by (simp add: chunk_holds_def)
  moreover have "0 < C_of r" using assms(1) by (auto simp: ring_inv_def ring_geom_def)
  ultimately show ?thesis
    using assms(1) d f by (auto simp: ring_inv_def)
qed

lemma nth_pin_chunk:
  "i < C_of r \<Longrightarrow> pin_count (chunks (pin_chunk j r) ! i) =
     (if i = j then wadd32 (pin_count (chunks r ! i)) 1 else pin_count (chunks r ! i))"
  by (simp add: pin_chunk_def nth_list_update)

lemma nth_unpin_chunk:
  "i < C_of r \<Longrightarrow> pin_count (chunks (unpin_chunk j r) ! i) =
     (if i = j then wsub32 (pin_count (chunks r ! i)) 1 else pin_count (chunks r ! i))"
  by (simp add: unpin_chunk_def nth_list_update)

lemma length_pin_chunk [simp]: "C_of (pin_chunk i r) = C_of r" "C_of (unpin_chunk i r) = C_of r"
  by (simp_all add: pin_chunk_def unpin_chunk_def)

abbreviation seg_count :: "snapshot_segment list \<Rightarrow> nat \<Rightarrow> nat" where
  "seg_count gs i \<equiv> count_list (map seg_chunk gs) i"

lemma pin_count_pin_segs:
  "i < C_of r \<Longrightarrow> pin_count (chunks r ! i) + seg_count gs i < u32_lim \<Longrightarrow>
   pin_count (chunks (pin_segs gs r) ! i) = pin_count (chunks r ! i) + seg_count gs i"
proof (induction gs arbitrary: r)
  case Nil
  then show ?case by simp
next
  case (Cons g gs)
  have "pin_count (chunks (pin_chunk (seg_chunk g) r) ! i) + seg_count gs i =
        pin_count (chunks r ! i) + seg_count (g # gs) i"
    using Cons.prems by (auto simp: nth_pin_chunk)
  with Cons.IH[of "pin_chunk (seg_chunk g) r"] Cons.prems show ?case by simp
qed

lemma pin_count_unpin_segs:
  "i < C_of r \<Longrightarrow> seg_count gs i \<le> pin_count (chunks r ! i) \<Longrightarrow>
   pin_count (chunks (unpin_segs gs r) ! i) = pin_count (chunks r ! i) - seg_count gs i"
proof (induction gs arbitrary: r)
  case Nil
  then show ?case by simp
next
  case (Cons g gs)
  have "pin_count (chunks (unpin_chunk (seg_chunk g) r) ! i) =
        pin_count (chunks r ! i) - (if i = seg_chunk g then 1 else 0)"
    using Cons.prems by (auto simp: nth_unpin_chunk split: if_splits)
  with Cons.IH[of "unpin_chunk (seg_chunk g) r"] Cons.prems show ?case
    by (auto split: if_splits)
qed

lemma active_pin_segs [simp]:
  "active_snapshots (pin_segs gs r) = active_snapshots r"
  "active_snapshots (unpin_segs gs r) = active_snapshots r"
  by (induction gs arbitrary: r) (simp_all add: pin_chunk_def unpin_chunk_def)

section \<open>Collecting the segments of a range\<close>

text \<open>The segment of generation \<open>q\<close> for the range \<open>[s, e)\<close>.\<close>

definition gen_segment :: "nat \<Rightarrow> nat \<Rightarrow> nat \<Rightarrow> nat \<Rightarrow> nat \<Rightarrow> snapshot_segment" where
  "gen_segment F C s e q =
     \<lparr>seg_chunk = q mod C, expected_sequence = q + 1,
      start_frame_in_chunk = max (q * F) s - q * F,
      frame_count = min (q * F + F) e - max (q * F) s\<rparr>"

lemma seg_chunk_gen_segment [simp]: "seg_chunk (gen_segment F C s e q) = q mod C"
  by (simp add: gen_segment_def)

lemma collect_step_eq:
  assumes inv: "ring_inv r hist" and v: "pin_variant r r'"
    and i: "i = (first + off) mod C_of r" and c: "c = chunks r ! i"
  shows "collect_step first s e off (r', gs) =
    (if state c \<noteq> Published \<or> wadd64 (valid_start_frame c) (valid_frame_count c) \<le> s \<or> e \<le> valid_start_frame c
        \<or> min (wadd64 (valid_start_frame c) (valid_frame_count c)) e \<le> max (valid_start_frame c) s
     then (r', gs)
     else (pin_chunk i r', gs @ [\<lparr>seg_chunk = i, expected_sequence = sequence c,
              start_frame_in_chunk = (max (valid_start_frame c) s - valid_start_frame c) mod u32_lim,
              frame_count = (min (wadd64 (valid_start_frame c) (valid_frame_count c)) e - max (valid_start_frame c) s) mod u32_lim\<rparr>]))"
proof -
  have C: "0 < C_of r" using inv by (auto simp: ring_inv_def ring_geom_def)
  then have il: "i < C_of r" using i by simp
  note f = unpinned_fields[OF pin_variant_nth[OF v il], folded c]
  have v2: "pin_variant r (pin_chunk i r')" using v pin_variant_pin(1) by (rule pin_variant_trans)
  note f2 = unpinned_fields[OF pin_variant_nth[OF v2 il], folded c]
  show ?thesis
    by (simp add: collect_step_def pin_variantD(1)[OF v] Let_def i[symmetric] f f2 del: max.bounded_iff min.bounded_iff)
qed

lemma collect_loop_eq:
  assumes inv: "ring_inv r hist" and v: "pin_variant r r0" and s: "q0 = s div F_of r" and se: "s < e"
    and e: "e \<le> global_write_frame r" and lo: "started (F_of r) (global_write_frame r) \<le> q0 + C_of r"
  shows "m \<le> C_of r \<Longrightarrow>
    fold (collect_step (q0 mod C_of r) s e) [0..<m] (r0, []) =
      (let gs = map (gen_segment (F_of r) (C_of r) s e) [q0..<min (q0 + m) (started (F_of r) e)]
       in (pin_segs gs r0, gs))"
proof (induction m)
  case 0
  then show ?case by simp
next
  case (Suc m)
  let ?F = "F_of r" and ?C = "C_of r" and ?N = "global_write_frame r"
  let ?S = "started ?F ?N" and ?E = "started ?F e" and ?g = "gen_segment (F_of r) (C_of r) s e"
  let ?q = "q0 + m"
  define gs where "gs = map ?g [q0..<min ?q ?E]"
  have F: "0 < ?F" and F32: "?F < u32_lim" and C: "0 < ?C" and Nlim: "?N < u64_lim"
    using inv by (auto simp: ring_inv_def ring_geom_def)
  have qs: "q0 * ?F \<le> s" "s < q0 * ?F + ?F"
    using div_mult_mod_eq[of s ?F] mod_less_divisor[OF F, of s] unfolding s by linarith+
  have qE: "q0 < ?E" using less_started_iff[OF F, of q0 e] qs(1) se by linarith
  have IH: "fold (collect_step (q0 mod ?C) s e) [0..<m] (r0, []) = (pin_segs gs r0, gs)"
    using Suc by (simp add: Let_def gs_def)
  have idx: "(q0 mod ?C + m) mod ?C = ?q mod ?C" by (simp add: mod_add_left_eq)
  note step = collect_step_eq[OF inv pin_variant_trans[OF v pin_variant_pin_segs(1)[of r0 gs]] refl refl,
      where first = "q0 mod ?C" and off = m and s = s and e = e and gs = gs, unfolded idx]
  let ?c = "chunks r ! (?q mod ?C)"
  have holds: "state ?c = Published \<and> sequence ?c = p + 1 \<and> valid_start_frame ?c = p * ?F \<and>
      wadd64 (valid_start_frame ?c) (valid_frame_count ?c) = p * ?F + min ?F (?N - p * ?F)"
    if "p < ?S" "?S \<le> p + ?C" "p mod ?C = ?q mod ?C" for p
  proof -
    have h: "chunk_holds ?F (ch_of r) ?N hist p ?c"
      using inv that unfolding ring_inv_def by metis
    have "p * ?F < ?N" using that(1) less_started_iff[OF F] by simp
    then have "p * ?F + min ?F (?N - p * ?F) < u64_lim" using Nlim by linarith
    with h show ?thesis by (simp add: chunk_holds_def)
  qed
  show ?case
  proof (cases "?q < ?E")
    case True
    then have qe: "?q * ?F < e" using less_started_iff[OF F] by simp
    then have "?q < ?S" using less_started_iff[OF F, of ?q ?N] e by linarith
    then have h: "state ?c = Published" "sequence ?c = ?q + 1" "valid_start_frame ?c = ?q * ?F"
      "wadd64 (?q * ?F) (valid_frame_count ?c) = ?q * ?F + min ?F (?N - ?q * ?F)"
      using holds[of ?q] lo by auto
    have mono: "q0 * ?F \<le> ?q * ?F" by simp
    have sq: "s < ?q * ?F + min ?F (?N - ?q * ?F)"
      using qs mono qe e se by linarith
    have sub: "min (?q * ?F + min ?F (?N - ?q * ?F)) e = min (?q * ?F + ?F) e"
      using e qe by linarith
    have b: "max (?q * ?F) s - ?q * ?F < u32_lim" "min (?q * ?F + ?F) e - max (?q * ?F) s < u32_lim"
      using qs mono F32 by linarith+
    have pos: "max (?q * ?F) s < min (?q * ?F + ?F) e"
      using qs(2) mono qe se F by linarith
    have "collect_step (q0 mod ?C) s e m (pin_segs gs r0, gs) = (pin_chunk (?q mod ?C) (pin_segs gs r0), gs @ [?g ?q])"
      unfolding step h sub using h(1) sq qe pos b
      by (simp add: gen_segment_def not_le del: max_less_iff_conj min_less_iff_conj)
    moreover have "map ?g [q0..<min (q0 + Suc m) ?E] = gs @ [?g ?q]"
      using True by (simp add: gs_def min_absorb1)
    ultimately show ?thesis
      using IH by (simp add: Let_def)
  next
    case False
    then have qe: "e \<le> ?q * ?F" using started_le_iff[OF F, of e ?q] by simp
    have same: "map ?g [q0..<min (q0 + Suc m) ?E] = gs"
      using False by (simp add: gs_def min_absorb2)
    have "collect_step (q0 mod ?C) s e m (pin_segs gs r0, gs) = (pin_segs gs r0, gs)"
    proof (cases "?q < ?S")
      case True
      with holds[of ?q] lo qe show ?thesis unfolding step by auto
    next
      case past: False
      show ?thesis
      proof (cases "?C \<le> ?q")
        case True
        define p where "p = ?q - ?C"
        have p: "p < q0" using Suc.prems True p_def by linarith
        have "p mod ?C = ?q mod ?C" using True by (simp add: p_def le_mod_geq)
        moreover have "q0 \<le> ?S"
          using qE less_started_iff[OF F, of q0 e] less_started_iff[OF F, of q0 ?N] e by linarith
        ultimately have h: "valid_start_frame ?c = p * ?F"
          "wadd64 (p * ?F) (valid_frame_count ?c) = p * ?F + min ?F (?N - p * ?F)"
          using holds[of p] p past True p_def by auto
        have "Suc p * ?F \<le> q0 * ?F" using p by (intro mult_le_mono1) simp
        then have "wadd64 (valid_start_frame ?c) (valid_frame_count ?c) \<le> s"
          unfolding h using qs(1) by (simp add: min_def)
        then show ?thesis unfolding step by simp
      next
        case False
        then have "state ?c = Writable" using inv past by (simp add: ring_inv_def)
        then show ?thesis unfolding step by simp
      qed
    qed
    then show ?thesis using IH same by (simp add: Let_def)
  qed
qed

section \<open>Coverage and content of pinned segments\<close>

definition seg_ok :: "sample_ring \<Rightarrow> nat \<Rightarrow> snapshot_segment \<Rightarrow> bool" where
  "seg_ok r s g \<longleftrightarrow>
     seg_chunk g < C_of r \<and>
     (let c = chunks r ! seg_chunk g in
      state c = Published \<and> sequence c = expected_sequence g \<and> \<not> data_poisoned c \<and>
      valid_start_frame c + start_frame_in_chunk g = s \<and> length (data c) = F_of r * ch_of r) \<and>
     0 < frame_count g \<and> s + frame_count g < u64_lim \<and>
     start_frame_in_chunk g + frame_count g \<le> F_of r"

fun covers :: "sample_ring \<Rightarrow> nat \<Rightarrow> nat \<Rightarrow> snapshot_segment list \<Rightarrow> bool" where
  "covers r s e [] \<longleftrightarrow> s = e"
| "covers r s e (g # gs) \<longleftrightarrow> seg_ok r s g \<and> covers r (s + frame_count g) e gs"

definition seg_slice :: "sample_ring \<Rightarrow> snapshot_segment \<Rightarrow> f32 list" where
  "seg_slice r g =
     take (frame_count g * ch_of r) (drop (start_frame_in_chunk g * ch_of r) (data (chunks r ! seg_chunk g)))"

text \<open>Coverage and content depend only on the bodies of the chunks of the segments.\<close>

lemma covers_cong:
  assumes "cfg r' = cfg r" and "C_of r' = C_of r"
    and "\<forall>g \<in> set gs. unpinned (chunks r' ! seg_chunk g) = unpinned (chunks r ! seg_chunk g)"
  shows "covers r' s e gs = covers r s e gs" and "map (seg_slice r') gs = map (seg_slice r) gs"
proof -
  have f: "state (chunks r' ! seg_chunk g) = state (chunks r ! seg_chunk g) \<and>
      sequence (chunks r' ! seg_chunk g) = sequence (chunks r ! seg_chunk g) \<and>
      valid_start_frame (chunks r' ! seg_chunk g) = valid_start_frame (chunks r ! seg_chunk g) \<and>
      data (chunks r' ! seg_chunk g) = data (chunks r ! seg_chunk g) \<and>
      data_poisoned (chunks r' ! seg_chunk g) = data_poisoned (chunks r ! seg_chunk g)" if "g \<in> set gs" for g
    using unpinned_fields[of "chunks r' ! seg_chunk g" "chunks r ! seg_chunk g"] assms(3) that by blast
  then show "map (seg_slice r') gs = map (seg_slice r) gs"
    using assms(1) by (simp add: seg_slice_def)
  have "seg_ok r' t g = seg_ok r t g" if "g \<in> set gs" for g t
    using f[OF that] assms(1,2) by (simp add: seg_ok_def Let_def)
  then show "covers r' s e gs = covers r s e gs"
    by (induction gs arbitrary: s) simp_all
qed

lemma covers_le: "covers r s e gs \<Longrightarrow> s \<le> e"
  by (induction gs arbitrary: s) (auto dest: add_leD1)

lemma covers_bounds: "covers r s e gs \<Longrightarrow> g \<in> set gs \<Longrightarrow> seg_chunk g < C_of r"
  by (induction gs arbitrary: s) (auto simp: seg_ok_def)

lemma gen_segments_cover:
  assumes inv: "ring_inv r hist" and q0: "q0 = s div F_of r" and se: "s < e"
    and e: "e \<le> global_write_frame r" and lo: "started (F_of r) (global_write_frame r) \<le> q0 + C_of r"
    and p: "q0 \<le> p" "p \<le> started (F_of r) e" and t: "t = max s (min (p * F_of r) e)"
  defines "gs \<equiv> map (gen_segment (F_of r) (C_of r) s e) [p..<started (F_of r) e]"
  shows "covers r t e gs \<and> concat (map (seg_slice r) gs) = take ((e - t) * ch_of r) (drop (t * ch_of r) hist)"
  using p t unfolding gs_def
proof (induction "started (F_of r) e - p" arbitrary: p t)
  case 0
  have F: "0 < F_of r" using inv by (auto simp: ring_inv_def ring_geom_def)
  from 0 have "p = started (F_of r) e" by simp
  moreover from this have "e \<le> p * F_of r" using started_le_iff[OF F, of e p] by simp
  ultimately show ?case using 0 se by (simp add: min_absorb2 max_absorb2)
next
  case (Suc n)
  let ?F = "F_of r" and ?C = "C_of r" and ?N = "global_write_frame r" and ?ch = "ch_of r"
  let ?E = "started ?F e" and ?g = "gen_segment (F_of r) (C_of r) s e p"
  have F: "0 < ?F" and C: "0 < ?C" and Nlim: "?N < u64_lim"
    using inv by (auto simp: ring_inv_def ring_geom_def)
  have pE: "p < ?E" using Suc.hyps(2) by simp
  then have pe: "p * ?F < e" using less_started_iff[OF F] by simp
  then have "p < started ?F ?N" using less_started_iff[OF F, of p ?N] e by linarith
  moreover have "started ?F ?N \<le> p + ?C" using lo Suc.prems(1) by linarith
  ultimately have h: "chunk_holds ?F ?ch ?N hist p (chunks r ! (p mod ?C))"
    using inv unfolding ring_inv_def by blast
  have "s < q0 * ?F + ?F"
    using div_mult_mod_eq[of s ?F] mod_less_divisor[OF F, of s] unfolding q0 by linarith
  moreover have mono: "q0 * ?F \<le> p * ?F" using Suc.prems(1) by (rule mult_le_mono1)
  ultimately have sp: "s < p * ?F + ?F" by linarith
  have t: "t = max (p * ?F) s" using Suc.prems(3) pe by linarith
  have cnt: "frame_count ?g = min (p * ?F + ?F) e - t" and st: "start_frame_in_chunk ?g = t - p * ?F"
    by (simp_all add: gen_segment_def t)
  have te: "t < min (p * ?F + ?F) e" "p * ?F \<le> t" using t sp pe se F by linarith+
  define t' where "t' = min (p * ?F + ?F) e"
  have t': "t + frame_count ?g = t'" using te unfolding cnt t'_def by linarith
  have "chunks r ! (p mod ?C) \<in> set (chunks r)" using C by simp
  then have cdata: "length (data (chunks r ! (p mod ?C))) = ?F * ?ch" "\<not> data_poisoned (chunks r ! (p mod ?C))"
    using inv by (auto simp: ring_inv_def ring_geom_def)
  have ok: "seg_ok r t ?g"
    using h te C Nlim e cdata unfolding seg_ok_def Let_def cnt st
    by (auto simp: chunk_holds_def gen_segment_def)
  have "n = ?E - Suc p" and "q0 \<le> Suc p" and "Suc p \<le> ?E" and "t' = max s (min (Suc p * ?F) e)"
    using Suc.hyps(2) Suc.prems pE te sp se unfolding t'_def mult_Suc by linarith+
  from Suc.hyps(1)[OF this]
  have ih: "covers r t' e (map (gen_segment ?F ?C s e) [Suc p..<?E])"
    "concat (map (seg_slice r) (map (gen_segment ?F ?C s e) [Suc p..<?E])) = take ((e - t') * ?ch) (drop (t' * ?ch) hist)"
    by auto
  have "t' \<le> p * ?F + min ?F (?N - p * ?F)" using e te unfolding t'_def by linarith
  moreover have "t \<le> t'" using te t'_def by linarith
  ultimately have slice: "seg_slice r ?g = take ((t' - t) * ?ch) (drop (t * ?ch) hist)"
    using chunk_holds_slice[OF h te(2), of t'] unfolding seg_slice_def cnt st t'_def[symmetric] by simp
  have sum: "(t' - t) * ?ch + (e - t') * ?ch = (e - t) * ?ch" "t * ?ch + (t' - t) * ?ch = t' * ?ch"
    using te t'_def by (simp_all flip: add_mult_distrib)
  have "[p..<?E] = p # [Suc p..<?E]" using pE by (rule upt_conv_Cons)
  then show ?case
    using ok ih slice unfolding t'[symmetric]
    by (simp add: t' sum(2)[symmetric] take_drop_append_take_drop sum(1))
qed

section \<open>Finishing and reading\<close>

lemma segment_key_ok: "seg_ok r s g \<Longrightarrow> segment_key r g = s"
  by (auto simp: seg_ok_def Let_def segment_key_def)

lemma covers_keys: "covers r s e gs \<Longrightarrow> g \<in> set gs \<Longrightarrow> s \<le> segment_key r g"
proof (induction gs arbitrary: s)
  case (Cons a gs)
  then show ?case
    using segment_key_ok[of r s a] Cons.IH[of "s + frame_count a"] by (auto dest: add_leD1)
qed simp

lemma covers_sorted: "covers r s e gs \<Longrightarrow> sort_key (segment_key r) gs = gs"
proof (induction gs arbitrary: s)
  case (Cons a gs)
  then have "sort_key (segment_key r) gs = gs" by auto
  moreover have "\<forall>g \<in> set gs. segment_key r a \<le> segment_key r g"
    using Cons.prems covers_keys[of r "s + frame_count a" e gs] segment_key_ok[of r s a] by fastforce
  ultimately show ?case by (cases gs) simp_all
qed simp

lemma covers_check: "covers r s e gs \<Longrightarrow> check_coverage r s gs = Inr e"
proof (induction gs arbitrary: s)
  case (Cons a gs)
  then show ?case using segment_key_ok[of r s a] by (auto simp: seg_ok_def)
qed simp

lemma covers_total:
  "covers r s e gs \<Longrightarrow> e < u64_lim \<Longrightarrow> t \<le> s \<Longrightarrow>
   foldl (\<lambda>t g. wadd64 t (frame_count g)) t gs = t + (e - s)"
proof (induction gs arbitrary: s t)
  case (Cons a gs)
  have le: "s + frame_count a \<le> e" using Cons.prems(1) covers_le by auto
  with Cons.prems have "wadd64 t (frame_count a) = t + frame_count a" by simp
  with Cons.IH[of "s + frame_count a" "t + frame_count a"] Cons.prems le show ?case by simp
qed simp

lemma finish_snapshot_ok:
  assumes "covers r s e gs" and "e < u64_lim"
  shows "finish_snapshot s e gs g r = (r,
    Inr \<lparr>segments = gs, start_frame = s, end_frame = e, snap_channels = ch_of r,
         snap_sample_rate = rc_sample_rate (cfg r), snap_format = rc_format (cfg r),
         total_frames = e - s, active_counter = g\<rparr>)"
  using assms covers_total[OF assms, of 0]
  by (simp add: finish_snapshot_def Let_def covers_sorted covers_check)

text \<open>The samples of one channel of an interleaved buffer.\<close>

definition channel_of :: "nat \<Rightarrow> nat \<Rightarrow> f32 list \<Rightarrow> f32 list" where
  "channel_of ch k xs = map (\<lambda>f. xs ! (f * ch + k)) [0..<length xs div ch]"

lemma frame_index_less: "k < ch \<Longrightarrow> f < n \<Longrightarrow> f * ch + k < n * (ch::nat)"
proof -
  assume k: "k < ch" and f: "f < n"
  have "Suc f * ch \<le> n * ch" using f by (intro mult_le_mono1) simp
  with k show ?thesis by simp
qed

lemma channel_of_append:
  assumes len: "length xs = n * ch" and k: "k < ch"
  shows "channel_of ch k (xs @ ys) = channel_of ch k xs @ channel_of ch k ys"
proof -
  have ch: "0 < ch" using k by simp
  have d: "length (xs @ ys) div ch = n + length ys div ch" using len ch by simp
  have lo: "map (\<lambda>f. (xs @ ys) ! (f * ch + k)) [0..<n] = map (\<lambda>f. xs ! (f * ch + k)) [0..<n]"
  proof (rule map_cong[OF refl])
    fix f assume "f \<in> set [0..<n]"
    then have "f * ch + k < length xs" using frame_index_less[OF k, of f n] len by simp
    then show "(xs @ ys) ! (f * ch + k) = xs ! (f * ch + k)" by (rule nth_append_left)
  qed
  have hi: "map (\<lambda>f. (xs @ ys) ! (f * ch + k)) [n..<n + m] = map (\<lambda>f. ys ! (f * ch + k)) [0..<m]" for m
  proof (rule nth_equalityI)
    fix i assume "i < length (map (\<lambda>f. (xs @ ys) ! (f * ch + k)) [n..<n + m])"
    moreover have "(n + i) * ch + k = length xs + (i * ch + k)" by (simp add: len add_mult_distrib)
    ultimately show "map (\<lambda>f. (xs @ ys) ! (f * ch + k)) [n..<n + m] ! i = map (\<lambda>f. ys ! (f * ch + k)) [0..<m] ! i"
      by (simp only: length_map length_upt nth_map nth_upt nth_append_length_plus) simp
  qed simp
  have "length xs div ch = n" using len ch by simp
  then show ?thesis
    unfolding channel_of_def d upt_add_eq_append[OF le0] map_append lo hi by simp
qed

lemma segment_channel_ok:
  assumes ok: "seg_ok r s g" and F: "F_of r < u32_lim" and k: "k < ch_of r"
  shows "segment_channel r (ch_of r) k g = Inr (channel_of (ch_of r) k (seg_slice r g))"
    and "length (seg_slice r g) = frame_count g * ch_of r"
proof -
  let ?c = "chunks r ! seg_chunk g" and ?n = "frame_count g" and ?o = "start_frame_in_chunk g" and ?ch = "ch_of r"
  have o: "?o + ?n \<le> F_of r" and len: "length (data ?c) = F_of r * ?ch"
    using ok by (auto simp: seg_ok_def Let_def)
  have fit: "?n * ?ch + ?o * ?ch \<le> length (data ?c)"
    using mult_le_mono1[OF o, of ?ch] len by (simp add: add_mult_distrib add.commute)
  then show slen: "length (seg_slice r g) = ?n * ?ch" by (simp add: seg_slice_def)
  have w: "wadd32 ?o j = ?o + j" if "j < ?n" for j using that o F by simp
  have b: "wadd32 ?o j * ?ch + k < length (data ?c)" if "j < ?n" for j
    using frame_index_less[OF k, of "?o + j" "F_of r"] that o w len by simp
  have at: "data ?c ! (wadd32 ?o j * ?ch + k) = seg_slice r g ! (j * ?ch + k)" if "j < ?n" for j
  proof -
    have le: "?o * ?ch \<le> length (data ?c)" using fit by (rule add_leD2)
    have "?o * ?ch + (j * ?ch + k) = wadd32 ?o j * ?ch + k" using w[OF that] by (simp add: add_mult_distrib)
    then show ?thesis
      unfolding seg_slice_def nth_take[OF frame_index_less[OF k that]] nth_drop[OF le] by (simp only:)
  qed
  have "\<not> (\<exists>j \<in> set [0..<?n]. length (data ?c) \<le> wadd32 ?o j * ?ch + k)"
    using b by (auto simp: not_le)
  moreover have "map (\<lambda>j. data ?c ! (wadd32 ?o j * ?ch + k)) [0..<?n] = channel_of ?ch k (seg_slice r g)"
    unfolding channel_of_def slen using at k by simp
  moreover have "sequence ?c = expected_sequence g" "state ?c = Published" "\<not> data_poisoned ?c"
    using ok by (auto simp: seg_ok_def Let_def)
  ultimately show "segment_channel r ?ch k g = Inr (channel_of ?ch k (seg_slice r g))"
    by (simp only: segment_channel_def Let_def if_False simp_thms)
qed

lemma read_segments_ok:
  assumes "covers r s e gs" and F: "F_of r < u32_lim" and k: "k < ch_of r"
  shows "\<exists>parts. collectR (map (segment_channel r (ch_of r) k) gs) = Inr parts \<and>
           concat parts = channel_of (ch_of r) k (concat (map (seg_slice r) gs))"
  using assms(1)
proof (induction gs arbitrary: s)
  case Nil
  then show ?case by (simp add: channel_of_def)
next
  case (Cons g gs)
  then have ok: "seg_ok r s g" and rest: "covers r (s + frame_count g) e gs" by auto
  from Cons.IH[OF rest] obtain parts
    where p: "collectR (map (segment_channel r (ch_of r) k) gs) = Inr parts"
      "concat parts = channel_of (ch_of r) k (concat (map (seg_slice r) gs))" by blast
  note sc = segment_channel_ok[OF ok F k]
  have "collectR (map (segment_channel r (ch_of r) k) (g # gs)) = Inr (channel_of (ch_of r) k (seg_slice r g) # parts)"
    using p(1) sc(1) by simp
  moreover have "concat (channel_of (ch_of r) k (seg_slice r g) # parts) =
      channel_of (ch_of r) k (concat (map (seg_slice r) (g # gs)))"
    using p(2) channel_of_append[OF sc(2) k] by simp
  ultimately show ?case by blast
qed

section \<open>The concurrent system\<close>

text \<open>
  A held range: between the locked part of a selector and the end of the life of its snapshot.
  \<open>h_content\<close> is a ghost: the slice of the history at the time of pinning.
\<close>

record held =
  h_start :: nat
  h_end :: nat
  h_segs :: "snapshot_segment list"
  h_guard :: bool
  h_snap :: "snapshot option"
  h_content :: "f32 list"

record ring_sys =
  sys_ring :: sample_ring
  sys_hist :: "f32 list"
  sys_held :: "held list"

inductive ring_step :: "ring_sys \<Rightarrow> ring_sys \<Rightarrow> bool" where
  step_write: "\<lbrakk>fi < tot; tot * ch_of r \<le> length samples;
      write_iteration now samples (ch_of r) tot r fi = (r', Inr (Some fi'))\<rbrakk> \<Longrightarrow>
    ring_step \<lparr>sys_ring = r, sys_hist = hist, sys_held = hs\<rparr>
      \<lparr>sys_ring = r', sys_hist = hist @ take ((fi' - fi) * ch_of r) (drop (fi * ch_of r) samples), sys_held = hs\<rparr>"
| step_write_stop: "\<lbrakk>fi < tot; tot * ch_of r \<le> length samples;
      write_iteration now samples (ch_of r) tot r fi = (r', res); \<nexists>fi'. res = Inr (Some fi')\<rbrakk> \<Longrightarrow>
    ring_step \<lparr>sys_ring = r, sys_hist = hist, sys_held = hs\<rparr> \<lparr>sys_ring = r', sys_hist = hist, sys_held = hs\<rparr>"
| step_pin: "\<lbrakk>locked_pin r pick = (r', Inr (s, e, gs, g))\<rbrakk> \<Longrightarrow>
    ring_step \<lparr>sys_ring = r, sys_hist = hist, sys_held = hs\<rparr>
      \<lparr>sys_ring = r', sys_hist = hist,
       sys_held = hs @ [\<lparr>h_start = s, h_end = e, h_segs = gs, h_guard = g, h_snap = None,
                         h_content = take ((e - s) * ch_of r) (drop (s * ch_of r) hist)\<rparr>]\<rparr>"
| step_pin_fail: "\<lbrakk>locked_pin r pick = (r', Inl err)\<rbrakk> \<Longrightarrow>
    ring_step \<lparr>sys_ring = r, sys_hist = hist, sys_held = hs\<rparr> \<lparr>sys_ring = r', sys_hist = hist, sys_held = hs\<rparr>"
| step_finish: "\<lbrakk>h_snap h = None; finish_snapshot (h_start h) (h_end h) (h_segs h) (h_guard h) r = (r', Inr sn)\<rbrakk> \<Longrightarrow>
    ring_step \<lparr>sys_ring = r, sys_hist = hist, sys_held = hs1 @ h # hs2\<rparr>
      \<lparr>sys_ring = r', sys_hist = hist, sys_held = hs1 @ h\<lparr>h_snap := Some sn\<rparr> # hs2\<rparr>"
| step_finish_fail: "\<lbrakk>h_snap h = None; finish_snapshot (h_start h) (h_end h) (h_segs h) (h_guard h) r = (r', Inl err)\<rbrakk> \<Longrightarrow>
    ring_step \<lparr>sys_ring = r, sys_hist = hist, sys_held = hs1 @ h # hs2\<rparr>
      \<lparr>sys_ring = r', sys_hist = hist, sys_held = hs1 @ hs2\<rparr>"
| step_drop: "\<lbrakk>h_snap h = Some sn\<rbrakk> \<Longrightarrow>
    ring_step \<lparr>sys_ring = r, sys_hist = hist, sys_held = hs1 @ h # hs2\<rparr>
      \<lparr>sys_ring = snapshot_drop sn r, sys_hist = hist, sys_held = hs1 @ hs2\<rparr>"
| step_clear: "ring_step \<lparr>sys_ring = r, sys_hist = hist, sys_held = hs\<rparr>
      \<lparr>sys_ring = fst (ring_clear r), sys_hist = hist, sys_held = hs\<rparr>"
| step_reset: "\<lbrakk>ring_reset r = (r', Inr u)\<rbrakk> \<Longrightarrow>
    ring_step \<lparr>sys_ring = r, sys_hist = hist, sys_held = hs\<rparr> \<lparr>sys_ring = r', sys_hist = [], sys_held = hs\<rparr>"
| step_dropped: "\<lbrakk>record_dropped_frames n r = (r', res)\<rbrakk> \<Longrightarrow>
    ring_step \<lparr>sys_ring = r, sys_hist = hist, sys_held = hs\<rparr> \<lparr>sys_ring = r', sys_hist = hist, sys_held = hs\<rparr>"

inductive ring_reach :: "int \<Rightarrow> (nat \<Rightarrow> nat \<Rightarrow> bool) \<Rightarrow> ring_config \<Rightarrow> ring_sys \<Rightarrow> bool" for sc alloc c where
  reach_new: "\<lbrakk>ring_new sc alloc c = Inr r; rc_chunk_frames c < u32_lim; rc_max_active_snapshots c < u32_lim\<rbrakk> \<Longrightarrow>
    ring_reach sc alloc c \<lparr>sys_ring = r, sys_hist = [], sys_held = []\<rparr>"
| reach_step: "\<lbrakk>ring_reach sc alloc c y; ring_step y y'\<rbrakk> \<Longrightarrow> ring_reach sc alloc c y'"

section \<open>Its invariant\<close>

definition held_ok :: "sample_ring \<Rightarrow> held \<Rightarrow> bool" where
  "held_ok r h \<longleftrightarrow>
     covers r (h_start h) (h_end h) (h_segs h) \<and> h_end h < u64_lim \<and>
     concat (map (seg_slice r) (h_segs h)) = h_content h \<and>
     distinct (map seg_chunk (h_segs h)) \<and> (\<not> h_guard h \<longrightarrow> h_segs h = []) \<and>
     (case h_snap h of None \<Rightarrow> True
      | Some sn \<Rightarrow> segments sn = h_segs h \<and> start_frame sn = h_start h \<and> end_frame sn = h_end h \<and>
          snap_channels sn = ch_of r \<and> active_counter sn = h_guard h \<and> total_frames sn = h_end h - h_start h)"

definition pins_of :: "held list \<Rightarrow> nat \<Rightarrow> nat" where
  "pins_of hs i = (\<Sum>h \<leftarrow> hs. seg_count (h_segs h) i)"

definition guards_of :: "held list \<Rightarrow> nat" where
  "guards_of hs = (\<Sum>h \<leftarrow> hs. if h_guard h then 1 else 0)"

definition sys_inv :: "ring_config \<Rightarrow> ring_sys \<Rightarrow> bool" where
  "sys_inv c y \<longleftrightarrow>
     (let r = sys_ring y; hs = sys_held y in
      ring_inv r (sys_hist y) \<and> cfg r = c \<and>
      (\<forall>h \<in> set hs. held_ok r h) \<and>
      (\<forall>i < C_of r. pin_count (chunks r ! i) = pins_of hs i) \<and>
      active_snapshots r = guards_of hs \<and> guards_of hs \<le> rc_max_active_snapshots c \<and>
      rc_max_active_snapshots c < u32_lim)"

lemma pins_of_simps [simp]:
  "pins_of [] i = 0" "pins_of (h # hs) i = seg_count (h_segs h) i + pins_of hs i"
  "pins_of (hs @ hs') i = pins_of hs i + pins_of hs' i"
  by (simp_all add: pins_of_def)

lemma guards_of_simps [simp]:
  "guards_of [] = 0" "guards_of (h # hs) = (if h_guard h then 1 else 0) + guards_of hs"
  "guards_of (hs @ hs') = guards_of hs + guards_of hs'"
  by (simp_all add: guards_of_def)

lemma count_list_distinct: "distinct xs \<Longrightarrow> count_list xs x \<le> 1"
  by (induction xs) (auto simp: count_list_0_iff)

lemma held_seg_count_le: "held_ok r h \<Longrightarrow> seg_count (h_segs h) i \<le> (if h_guard h then 1 else 0)"
proof -
  assume h: "held_ok r h"
  then have "count_list (map seg_chunk (h_segs h)) i \<le> 1"
    unfolding held_ok_def by (blast intro: count_list_distinct)
  with h show ?thesis by (auto simp: held_ok_def)
qed

lemma pins_le_guards: "\<forall>h \<in> set hs. held_ok r h \<Longrightarrow> pins_of hs i \<le> guards_of hs"
proof (induction hs)
  case (Cons h hs)
  then show ?case using held_seg_count_le[of r h i] by simp
qed simp

lemma pins_of_pos: "h \<in> set hs \<Longrightarrow> g \<in> set (h_segs h) \<Longrightarrow> 0 < pins_of hs (seg_chunk g)"
proof (induction hs)
  case (Cons a hs)
  then show ?case
    by (cases "h = a") (auto simp: count_list_0_iff intro: trans_less_add2 intro!: gr0I)
qed simp

lemma held_ok_cong:
  assumes "held_ok r h" and "cfg r' = cfg r" and "C_of r' = C_of r"
    and "\<forall>g \<in> set (h_segs h). unpinned (chunks r' ! seg_chunk g) = unpinned (chunks r ! seg_chunk g)"
  shows "held_ok r' h"
  using assms(1) unfolding held_ok_def covers_cong[OF assms(2-4)] assms(2) .

lemma held_ok_pin_variant:
  assumes "held_ok r h" and v: "pin_variant r r'"
  shows "held_ok r' h"
proof (rule held_ok_cong[OF assms(1) pin_variantD(2,1)[OF v]], rule ballI)
  fix g assume "g \<in> set (h_segs h)"
  then have "seg_chunk g < C_of r"
    using assms(1) covers_bounds unfolding held_ok_def by blast
  then show "unpinned (chunks r' ! seg_chunk g) = unpinned (chunks r ! seg_chunk g)"
    by (rule pin_variant_nth[OF v])
qed

subsection \<open>The writer\<close>

lemma sys_inv_write:
  assumes inv: "sys_inv c \<lparr>sys_ring = r, sys_hist = hist, sys_held = hs\<rparr>"
    and "ring_inv r' hist'" and pins: "same_pins r r'"
  shows "sys_inv c \<lparr>sys_ring = r', sys_hist = hist', sys_held = hs\<rparr>"
proof -
  have len: "C_of r' = C_of r" using same_pins_length[OF pins] .
  have "held_ok r' h" if h: "h \<in> set hs" for h
  proof (rule held_ok_cong)
    show ok: "held_ok r h" using inv h by (simp add: sys_inv_def Let_def)
    show "cfg r' = cfg r" using pins by (simp add: same_pins_def)
    show "C_of r' = C_of r" by (rule len)
    show "\<forall>g \<in> set (h_segs h). unpinned (chunks r' ! seg_chunk g) = unpinned (chunks r ! seg_chunk g)"
    proof
      fix g assume g: "g \<in> set (h_segs h)"
      have i: "seg_chunk g < C_of r" using ok g covers_bounds unfolding held_ok_def by blast
      moreover have "0 < pin_count (chunks r ! seg_chunk g)"
        using inv i pins_of_pos[OF h g] by (simp add: sys_inv_def Let_def)
      ultimately show "unpinned (chunks r' ! seg_chunk g) = unpinned (chunks r ! seg_chunk g)"
        using pins by (simp add: same_pins_def)
    qed
  qed
  then show ?thesis
    using inv assms(2) len same_pins_pin_count[OF pins] pins
    by (simp add: sys_inv_def Let_def same_pins_def)
qed

subsection \<open>Pinning\<close>

lemma gen_segments_distinct:
  assumes "0 < C" and "E \<le> q0 + C"
  shows "distinct (map seg_chunk (map (gen_segment F C s e) [q0..<E]))"
proof -
  have "inj_on (\<lambda>q. q mod C) {q0..<E}"
  proof (rule inj_onI)
    fix p q assume pq: "p \<in> {q0..<E}" "q \<in> {q0..<E}" "p mod C = q mod C"
    show "p = q"
    proof (rule ccontr)
      assume "p \<noteq> q"
      then consider "p < q" | "q < p" by linarith
      then show False
        using mod_window_inj[OF assms(1), of p q] mod_window_inj[OF assms(1), of q p] pq assms(2)
        by cases auto
    qed
  qed
  then show ?thesis by (simp add: distinct_map comp_def)
qed

lemma pin_snapshot_range_eq:
  assumes inv: "ring_inv r hist" and ok: "oldest_frame r \<le> s" "s \<le> e" "e \<le> global_write_frame r"
    and room: "active_snapshots r < rc_max_active_snapshots (cfg r)" "rc_max_active_snapshots (cfg r) < u32_lim"
  shows "pin_snapshot_range r s e (global_write_frame r) (oldest_frame r) =
    (if s = e then (r, Inr ([], False))
     else let gs = map (gen_segment (F_of r) (C_of r) s e) [s div F_of r..<started (F_of r) e]
          in (pin_segs gs (r\<lparr>active_snapshots := active_snapshots r + 1\<rparr>), Inr (gs, True)))"
proof (cases "s = e")
  case False
  let ?r = "r\<lparr>active_snapshots := active_snapshots r + 1\<rparr>"
  have F: "0 < F_of r" using inv by (auto simp: ring_inv_def ring_geom_def)
  have lo: "started (F_of r) (global_write_frame r) \<le> s div F_of r + C_of r"
    using window_of_oldest[OF inv ok(1)] .
  have EC: "started (F_of r) e \<le> s div F_of r + C_of r"
    using lo started_le_iff[OF F, of e] started_le_iff[OF F, of "global_write_frame r"] ok(3)
    by (meson le_trans)
  have acq: "guard_acquire r = (?r, Inr ())"
    using room by (simp add: guard_acquire_def)
  have "collect_segments ((s div F_of r) mod C_of r) s e (?r, []) =
      (let gs = map (gen_segment (F_of r) (C_of r) s e) [s div F_of r..<started (F_of r) e] in (pin_segs gs ?r, gs))"
    using collect_loop_eq[OF inv pin_variant_active refl _ ok(3) lo order.refl, of "active_snapshots r + 1"] False ok(2) EC
    by (simp add: collect_segments_def min_absorb2)
  then show ?thesis
    using False ok acq by (simp add: pin_snapshot_range_def Let_def)
qed (use ok in \<open>simp add: pin_snapshot_range_def\<close>)

lemma sys_inv_pin:
  assumes inv: "sys_inv c \<lparr>sys_ring = r, sys_hist = hist, sys_held = hs\<rparr>"
    and pin: "locked_pin r pick = (r', Inr (s, e, gs, g))"
  shows "sys_inv c \<lparr>sys_ring = r', sys_hist = hist,
       sys_held = hs @ [\<lparr>h_start = s, h_end = e, h_segs = gs, h_guard = g, h_snap = None,
                         h_content = take ((e - s) * ch_of r) (drop (s * ch_of r) hist)\<rparr>]\<rparr>"
    (is "sys_inv c \<lparr>sys_ring = r', sys_hist = hist, sys_held = hs @ [?h]\<rparr>")
proof -
  let ?F = "F_of r" and ?C = "C_of r" and ?N = "global_write_frame r"
  from inv have ri: "ring_inv r hist" and cf: "cfg r = c" and held: "\<forall>h \<in> set hs. held_ok r h"
    and pc: "\<And>i. i < ?C \<Longrightarrow> pin_count (chunks r ! i) = pins_of hs i"
    and ac: "active_snapshots r = guards_of hs" "guards_of hs \<le> rc_max_active_snapshots c"
    and mx: "rc_max_active_snapshots c < u32_lim"
    by (auto simp: sys_inv_def Let_def)
  have Nlim: "?N < u64_lim" and C: "0 < ?C" and F: "0 < ?F"
    using ri by (auto simp: ring_inv_def ring_geom_def)
  from pin have call: "pin_snapshot_range r s e ?N (oldest_frame r) = (r', Inr (gs, g))"
    by (auto simp: locked_pin_def Let_def write_head_frame_def oldest_frame_def
        split: if_splits prod.splits sum.splits)
  then have ok: "oldest_frame r \<le> s" "s \<le> e" "e \<le> ?N"
    by (auto simp: pin_snapshot_range_def split: if_splits)
  show ?thesis
  proof (cases "s = e")
    case True
    then have "r' = r" "gs = []" "\<not> g" using call ok by (auto simp: pin_snapshot_range_def)
    then show ?thesis using inv True ok Nlim by (auto simp: sys_inv_def Let_def held_ok_def)
  next
    case False
    then have room: "active_snapshots r < rc_max_active_snapshots (cfg r)"
      using call ok by (auto simp: pin_snapshot_range_def guard_acquire_def split: if_splits)
    let ?gs = "map (gen_segment ?F ?C s e) [s div ?F..<started ?F e]"
    let ?ra = "r\<lparr>active_snapshots := active_snapshots r + 1\<rparr>"
    from pin_snapshot_range_eq[OF ri ok room] mx cf False call
    have r': "r' = pin_segs gs ?ra" and gs: "gs = ?gs" and g: "g" by (auto simp: Let_def)
    have v: "pin_variant r r'"
      unfolding r' using pin_variant_trans[OF pin_variant_active pin_variant_pin_segs(1)] .
    have lo: "started ?F ?N \<le> s div ?F + ?C" using window_of_oldest[OF ri ok(1)] .
    have qs: "s div ?F * ?F \<le> s" by simp
    have "s div ?F < started ?F e"
      unfolding less_started_iff[OF F] using qs ok(2) False by linarith
    then have sE: "s div ?F \<le> started ?F e" "s = max s (min (s div ?F * ?F) e)"
      using qs by linarith+
    have cov: "covers r s e gs \<and> concat (map (seg_slice r) gs) = h_content ?h"
      using gen_segments_cover[OF ri refl _ ok(3) lo order.refl sE] ok(2) False unfolding gs by simp
    have "started ?F e \<le> s div ?F + ?C"
      using lo started_le_iff[OF F, of e] started_le_iff[OF F, of ?N] ok(3) by (meson le_trans)
    then have "held_ok r ?h"
      using cov ok(3) Nlim g gen_segments_distinct[OF C] unfolding gs held_ok_def by simp
    then have hk: "\<forall>h \<in> set (hs @ [?h]). held_ok r' h"
      using held held_ok_pin_variant[OF _ v] by auto
    have gu: "guards_of (hs @ [?h]) \<le> rc_max_active_snapshots c" "active_snapshots r' = guards_of (hs @ [?h])"
      using g room ac cf by (auto simp: r')
    have "pin_count (chunks r' ! i) = pins_of (hs @ [?h]) i" if i: "i < C_of r'" for i
    proof -
      have "pins_of hs i + seg_count gs i < u32_lim"
        using pins_le_guards[OF hk, of i] gu(1) mx by simp
      then show ?thesis
        using pin_count_pin_segs[of i ?ra gs] i pc[of i] pin_variantD(1)[OF v] unfolding r' by simp
    qed
    with hk gu mx ring_inv_pin_variant[OF ri v] pin_variantD(2)[OF v] cf show ?thesis
      unfolding sys_inv_def Let_def by simp
  qed
qed

lemma locked_pin_fail: "locked_pin r pick = (r', Inl err) \<Longrightarrow> r' = r"
  by (auto simp: locked_pin_def Let_def pin_snapshot_range_def guard_acquire_def
      split: if_splits prod.splits sum.splits)

subsection \<open>Releasing\<close>

lemma sys_inv_release:
  assumes inv: "sys_inv c \<lparr>sys_ring = r, sys_hist = hist, sys_held = hs1 @ h # hs2\<rparr>"
    and r': "r' = unpin_segs (h_segs h) r"
    and r'': "r'' = (if h_guard h then r'\<lparr>active_snapshots := wsub32 (active_snapshots r') 1\<rparr> else r')"
  shows "sys_inv c \<lparr>sys_ring = r'', sys_hist = hist, sys_held = hs1 @ hs2\<rparr>"
proof -
  from inv have ri: "ring_inv r hist" and cf: "cfg r = c" and held: "\<forall>h \<in> set (hs1 @ h # hs2). held_ok r h"
    and pc: "\<And>i. i < C_of r \<Longrightarrow> pin_count (chunks r ! i) = pins_of (hs1 @ h # hs2) i"
    and ac: "active_snapshots r = guards_of (hs1 @ h # hs2)" "guards_of (hs1 @ h # hs2) \<le> rc_max_active_snapshots c"
    and mx: "rc_max_active_snapshots c < u32_lim"
    by (auto simp: sys_inv_def Let_def)
  have v: "pin_variant r r''"
    using pin_variant_pin_segs(2)[of r "h_segs h"] pin_variant_trans[OF _ pin_variant_active] by (simp add: r'' r')
  have cs: "chunks r'' = chunks r'" by (simp add: r'')
  have "pin_count (chunks r'' ! i) = pins_of (hs1 @ hs2) i" if "i < C_of r''" for i
    using pin_count_unpin_segs[of i r "h_segs h"] pc[of i] that pin_variantD(1)[OF v] unfolding cs r' by simp
  moreover have "active_snapshots r'' = guards_of (hs1 @ hs2)"
    using ac by (simp add: r'' r')
  ultimately show ?thesis
    using ring_inv_pin_variant[OF ri v] held held_ok_pin_variant[OF _ v] pin_variantD(2)[OF v] cf ac(2) mx
    unfolding sys_inv_def Let_def by auto
qed

lemma snapshot_drop_eq:
  "snapshot_drop sn r = (if active_counter sn
     then (unpin_segs (segments sn) r)\<lparr>active_snapshots := wsub32 (active_snapshots (unpin_segs (segments sn) r)) 1\<rparr>
     else unpin_segs (segments sn) r)"
  by (simp add: snapshot_drop_def Let_def)

subsection \<open>Every step\<close>

lemma sys_inv_finish:
  assumes inv: "sys_inv c \<lparr>sys_ring = r, sys_hist = hist, sys_held = hs1 @ h # hs2\<rparr>"
    and fin: "finish_snapshot (h_start h) (h_end h) (h_segs h) (h_guard h) r = (r', res)"
  shows "r' = r \<and> (\<exists>sn. res = Inr sn \<and>
     sys_inv c \<lparr>sys_ring = r, sys_hist = hist, sys_held = hs1 @ h\<lparr>h_snap := Some sn\<rparr> # hs2\<rparr>)"
proof -
  from inv have "held_ok r h" by (simp add: sys_inv_def Let_def)
  with finish_snapshot_ok[of r "h_start h" "h_end h" "h_segs h" "h_guard h"] fin inv show ?thesis
    by (auto simp: sys_inv_def Let_def held_ok_def)
qed

lemma sys_inv_step: "ring_step y y' \<Longrightarrow> sys_inv c y \<Longrightarrow> sys_inv c y'"
proof (induction rule: ring_step.induct)
  case (step_write fi tot r samples now r' fi' hist hs)
  then have "ring_inv r hist" by (simp add: sys_inv_def Let_def)
  from write_iteration_inv[OF this step_write(1-3)] sys_inv_write[OF step_write(4)] show ?case by simp
next
  case (step_write_stop fi tot r samples now r' res hist hs)
  then have ri: "ring_inv r hist" by (simp add: sys_inv_def Let_def)
  from step_write_stop(4) have "(case res of Inr (Some fi') \<Rightarrow> take ((fi' - fi) * ch_of r) (drop (fi * ch_of r) samples) | _ \<Rightarrow> []) = []"
    by (auto split: sum.splits option.splits)
  with write_iteration_inv[OF ri step_write_stop(1-3)] sys_inv_write[OF step_write_stop(5)] show ?case by simp
next
  case (step_pin r pick r' s e gs g hist hs)
  then show ?case by (simp add: sys_inv_pin)
next
  case (step_pin_fail r pick r' err hist hs)
  then show ?case using locked_pin_fail by blast
next
  case (step_finish h r r' sn hist hs1 hs2)
  with sys_inv_finish[OF step_finish(3,2)] show ?case by auto
next
  case (step_finish_fail h r r' err hist hs1 hs2)
  with sys_inv_finish[OF step_finish_fail(3,2)] show ?case by auto
next
  case (step_drop h sn r hist hs1 hs2)
  then have "held_ok r h" by (simp add: sys_inv_def Let_def)
  with step_drop(1) have "segments sn = h_segs h" "active_counter sn = h_guard h" by (auto simp: held_ok_def)
  then have "snapshot_drop sn r = (if h_guard h
      then (unpin_segs (h_segs h) r)\<lparr>active_snapshots := wsub32 (active_snapshots (unpin_segs (h_segs h) r)) 1\<rparr>
      else unpin_segs (h_segs h) r)"
    unfolding snapshot_drop_eq by (simp only:)
  with sys_inv_release[OF step_drop(2) refl refl] show ?case by (simp only:)
next
  case (step_clear r hist hs)
  then have "ring_inv (fst (ring_clear r)) hist" using ring_clear_inv[of r hist] by (simp add: sys_inv_def Let_def)
  moreover have "pin_count (chunks (fst (ring_clear r)) ! i) = pin_count (chunks r ! i)" for i
    by (simp add: ring_clear_def)
  moreover have "held_ok (fst (ring_clear r)) h" if "held_ok r h" for h
    using that by (rule held_ok_cong) (simp_all add: ring_clear_def)
  ultimately show ?case using step_clear by (simp add: sys_inv_def Let_def ring_clear_def)
next
  case (step_reset r r' u hist hs)
  then have ri: "ring_inv r hist" by (simp add: sys_inv_def Let_def)
  note rs = ring_reset_inv[OF ri step_reset(1)]
  have len: "C_of r' = C_of r" using step_reset(1) by (auto simp: ring_reset_def split: if_splits)
  have none: "h_segs h = []" if "h \<in> set hs" for h
  proof -
    have "guards_of hs = 0" using step_reset(2) rs by (simp add: sys_inv_def Let_def)
    then have "\<not> h_guard h" using that by (auto simp: guards_of_def)
    then show ?thesis using step_reset(2) that by (auto simp: sys_inv_def Let_def held_ok_def)
  qed
  have "held_ok r' h" if h: "h \<in> set hs" for h
    by (rule held_ok_cong[of r]) (use step_reset(2) h rs len none[OF h] in \<open>auto simp: sys_inv_def Let_def\<close>)
  moreover have "pins_of hs i = 0" for i
    using none by (auto simp: pins_of_def)
  ultimately show ?case
    using step_reset(2) rs len by (auto simp: sys_inv_def Let_def)
next
  case (step_dropped n r r' res hist hs)
  then consider "r' = r" | "r' = r\<lparr>dropped_frames := dropped_frames r + n\<rparr>"
    by (auto simp: record_dropped_frames_def add_dropped_frames_def checked_add64_def split: if_splits)
  then show ?case
  proof cases
    case 2
    have "ring_inv r hist" using step_dropped(2) by (simp add: sys_inv_def Let_def)
    from ring_inv_cong(2)[OF this] 2 show ?thesis
      by (intro sys_inv_write[OF step_dropped(2)]) (simp_all add: same_pins_def)
  qed (use step_dropped in simp)
qed

lemma reach_inv: "ring_reach sc alloc c y \<Longrightarrow> sys_inv c y"
proof (induction rule: ring_reach.induct)
  case (reach_new r)
  from ring_new_inv[OF reach_new(1,2)] reach_new(3) show ?case
    by (auto simp: sys_inv_def Let_def)
next
  case (reach_step y y')
  then show ?case by (blast intro: sys_inv_step)
qed

end
