(* ===== verification/Ring_Theorems.thy ===== *)
theory Ring_Theorems
  imports Snapshot_Isolation
begin

text \<open>
  The theorems on the sample ring, over every state that the concurrent system of writers,
  selectors, snapshots, clears and resets can reach from a freshly constructed ring.
\<close>

section \<open>The whole writer is a sequence of steps\<close>

lemma reach_write_iteration:
  assumes "ring_reach sc alloc c \<lparr>sys_ring = r, sys_hist = hist, sys_held = hs\<rparr>"
    and "fi < tot" and "tot * ch_of r \<le> length samples"
    and "write_iteration now samples (ch_of r) tot r fi = (r', res)"
  shows "ring_reach sc alloc c \<lparr>sys_ring = r', sys_hist = hist @ (case res of Inr (Some fi') \<Rightarrow>
            take ((fi' - fi) * ch_of r) (drop (fi * ch_of r) samples) | _ \<Rightarrow> []), sys_held = hs\<rparr>"
proof (cases "\<exists>fi'. res = Inr (Some fi')")
  case True
  then obtain fi' where "res = Inr (Some fi')" by blast
  with step_write[OF assms(2,3), of now r' fi' hist hs] assms(4) reach_step[OF assms(1)] show ?thesis by simp
next
  case False
  then have "(case res of Inr (Some fi') \<Rightarrow> take ((fi' - fi) * ch_of r) (drop (fi * ch_of r) samples) | _ \<Rightarrow> []) = []"
    by (auto split: sum.splits option.splits)
  with False step_write_stop[OF assms(2-4), of hist hs] reach_step[OF assms(1)] show ?thesis by simp
qed

lemma write_loop_invariant:
  assumes "write_loop now samples ch tot r fi = (r', res)" and "P r fi"
    and step: "\<And>r fi r' res. \<lbrakk>P r fi; fi < tot; write_iteration now samples ch tot r fi = (r', res)\<rbrakk> \<Longrightarrow>
                 P r' (case res of Inr (Some fi') \<Rightarrow> fi' | _ \<Rightarrow> fi)"
  shows "\<exists>k. P r' k"
  using assms(1,2)
proof (induction "tot - fi" arbitrary: r fi rule: less_induct)
  case less
  show ?case
  proof (cases "fi < tot")
    case False
    with less.prems show ?thesis by (auto simp: write_loop.simps)
  next
    case True
    obtain r1 res1 where it: "write_iteration now samples ch tot r fi = (r1, res1)" by fastforce
    note p = step[OF less.prems(2) True it]
    show ?thesis
    proof (cases "\<exists>fi1. res1 = Inr (Some fi1)")
      case prog: True
      then obtain fi1 where fi1: "res1 = Inr (Some fi1)" by blast
      with it True less.prems(1) have "write_loop now samples ch tot r1 fi1 = (r', res)"
        by (simp add: write_loop.simps[of now samples ch tot r fi])
      moreover have "tot - fi1 < tot - fi" using write_iteration_progress[OF it[unfolded fi1] True] by linarith
      ultimately show ?thesis using less.hyps p fi1 by simp
    next
      case False
      with it True less.prems(1) have "r1 = r'"
        by (auto simp: write_loop.simps[of now samples ch tot r fi] split: sum.splits option.splits)
      with p show ?thesis by blast
    qed
  qed
qed

lemma reach_write_loop:
  assumes reach: "ring_reach sc alloc c \<lparr>sys_ring = r, sys_hist = hist, sys_held = hs\<rparr>"
    and src: "tot * ch_of r \<le> length samples" and run: "write_loop now samples (ch_of r) tot r 0 = (r', res)"
  shows "\<exists>k. ring_reach sc alloc c \<lparr>sys_ring = r', sys_hist = hist @ take (k * ch_of r) samples, sys_held = hs\<rparr>"
proof -
  let ?ch = "ch_of r"
  let ?P = "\<lambda>r1 fi. cfg r1 = cfg r \<and> ring_reach sc alloc c \<lparr>sys_ring = r1, sys_hist = hist @ take (fi * ?ch) samples, sys_held = hs\<rparr>"
  have "\<exists>k. ?P r' k"
  proof (rule write_loop_invariant[OF run])
    show "?P r 0" using reach by simp
  next
    fix r1 fi r2 res
    assume p: "?P r1 fi" and fi: "fi < tot" and it: "write_iteration now samples ?ch tot r1 fi = (r2, res)"
    have ch: "ch_of r1 = ?ch" using p by simp
    have src1: "tot * ch_of r1 \<le> length samples" using src ch by simp
    have it1: "write_iteration now samples (ch_of r1) tot r1 fi = (r2, res)" using it ch by simp
    have reach2: "ring_reach sc alloc c \<lparr>sys_ring = r2, sys_hist = (hist @ take (fi * ?ch) samples) @
        (case res of Inr (Some fi') \<Rightarrow> take ((fi' - fi) * ?ch) (drop (fi * ?ch) samples) | _ \<Rightarrow> []), sys_held = hs\<rparr>"
      using reach_write_iteration[OF conjunct2[OF p] fi src1 it1] unfolding ch .
    have "cfg r2 = c" "cfg r = c"
      using reach_inv[OF reach2] reach_inv[OF reach] by (simp_all add: sys_inv_def Let_def)
    moreover have "take (fi * ?ch) samples @ take ((fi' - fi) * ?ch) (drop (fi * ?ch) samples) = take (fi' * ?ch) samples"
      if "fi < fi'" for fi'
      using that take_drop_append_take_drop[of "fi * ?ch" 0 samples "(fi' - fi) * ?ch"]
      by (simp flip: add_mult_distrib)
    ultimately show "?P r2 (case res of Inr (Some fi') \<Rightarrow> fi' | _ \<Rightarrow> fi)"
      using reach2 write_iteration_progress[of now samples ?ch tot r1 fi r2] it fi
      by (auto split: sum.splits option.splits)
  qed
  then show ?thesis by blast
qed

lemma reach_write_interleaved:
  assumes reach: "ring_reach sc alloc c \<lparr>sys_ring = r, sys_hist = hist, sys_held = hs\<rparr>"
    and whole: "length samples = tot * rc_channels c"
    and lim: "global_write_frame r + tot + 2 < u64_lim" "dropped_frames r + tot < u64_lim"
  shows "\<exists>k r'. k \<le> tot \<and> write_interleaved now samples (rc_channels c) r = (r', Inr ()) \<and>
           ring_reach sc alloc c \<lparr>sys_ring = r', sys_hist = hist @ take (k * rc_channels c) samples, sys_held = hs\<rparr> \<and>
           global_write_frame r' = global_write_frame r + k \<and>
           dropped_frames r' = dropped_frames r + (tot - k) \<and>
           (k < tot \<longrightarrow> (\<exists>h \<in> set hs. h_segs h \<noteq> []))"
proof -
  have si: "sys_inv c \<lparr>sys_ring = r, sys_hist = hist, sys_held = hs\<rparr>" using reach_inv[OF reach] .
  then have inv: "ring_inv r hist" and cf: "cfg r = c"
    and pc: "\<And>i. i < C_of r \<Longrightarrow> pin_count (chunks r ! i) = pins_of hs i"
    by (auto simp: sys_inv_def Let_def)
  let ?ch = "ch_of r"
  have ch: "0 < ?ch" using inv by (auto simp: ring_inv_def ring_geom_def)
  have src: "tot * ?ch \<le> length samples" using whole cf by simp
  have "length samples div ?ch = tot" using whole cf ch by simp
  then have eq: "write_interleaved now samples (rc_channels c) r = write_loop now samples ?ch tot r 0"
    using whole cf ch by (simp add: write_interleaved_def)
  obtain k r' where k: "k \<le> tot" and run: "write_loop now samples ?ch tot r 0 = (r', Inr ())"
    and inv': "ring_inv r' (hist @ take (k * ?ch) samples)"
    and g: "global_write_frame r' = global_write_frame r + k" and d: "dropped_frames r' = dropped_frames r + (tot - k)"
    and full: "k < tot \<longrightarrow> (\<exists>x \<in> set (chunks r). 0 < pin_count x)"
    using write_loop_history[OF inv le0 src, of now] lim by (simp del: add_diff_assoc add_diff_assoc2) blast
  from reach_write_loop[OF reach src run] obtain k' where
    reach': "ring_reach sc alloc c \<lparr>sys_ring = r', sys_hist = hist @ take (k' * ?ch) samples, sys_held = hs\<rparr>" by blast
  have "ring_inv r' (hist @ take (k' * ?ch) samples)"
    using reach_inv[OF reach'] by (simp add: sys_inv_def Let_def)
  with inv' have "length (take (k' * ?ch) samples) = length (take (k * ?ch) samples)"
    by (simp add: ring_inv_def)
  then have "take (k' * ?ch) samples = take (k * ?ch) samples"
    by (metis append_take_drop_id append_eq_append_conv length_take take_all_iff take_take min.commute nat_le_linear min.absorb1)
  moreover have "\<exists>h \<in> set hs. h_segs h \<noteq> []" if "k < tot"
  proof -
    from full that obtain i where "i < C_of r" "0 < pin_count (chunks r ! i)" by (auto simp: in_set_conv_nth)
    with pc[of i] have "pins_of hs i \<noteq> 0" by simp
    then show ?thesis unfolding pins_of_def sum_list_eq_0_iff by fastforce
  qed
  ultimately show ?thesis
    using eq run reach' g d k cf by (intro exI[of _ k] exI[of _ r']) auto
qed

section \<open>A concrete ring\<close>

definition demo_cfg :: ring_config where
  "demo_cfg = \<lparr>rc_channels = 2, rc_sample_rate = 48000, rc_format = F32Le, rc_chunk_frames = 2,
               rc_chunk_count = 2, rc_max_active_snapshots = 1\<rparr>"

definition demo_ring :: sample_ring where
  "demo_ring = \<lparr>cfg = demo_cfg, chunks = [new_chunk [0, 0, 0, 0], new_chunk [0, 0, 0, 0]], write_chunk = 0,
     write_poisoned = False, global_write_frame = 0, clear_after_frame = 0, next_sequence = 1,
     dropped_frames = 0, active_snapshots = 0, last_overrun = None, overrun_poisoned = False,
     allocated_sample_bytes = 32, metadata_budget_bytes = 24544\<rparr>"

lemma replicate_4: "replicate 4 x = [x, x, x, x]"
  by (simp add: numeral_eq_Suc)

lemma demo_new: "ring_new 4096 (\<lambda>_ _. True) demo_cfg = Inr demo_ring"
  by (simp add: ring_new_def demo_cfg_def exact_array_try_from_fn_def materialized_new_zeroed_def upt_rec
      checked_mul64_def checked_add64_def isize_max_def u64_lim_def Let_def ring_metadata_budget_of_def
      ring_metadata_total_def allocation_budget_bytes_def checked_add_def checked_mul_def system_page_size_def
      div_ceil_def checked_sub64_def replicate_4 ALLOCATOR_HEADER_RESERVE_BYTES_def RING_CHUNK_OBJECT_RESERVE_BYTES_def RING_FIXED_METADATA_RESERVE_BYTES_def demo_ring_def)


definition demo_written :: sample_ring where
  "demo_written = \<lparr>cfg = demo_cfg,
     chunks = [\<lparr>sequence = 1, state = Published, pin_count = 0, valid_start_frame = 0, valid_frame_count = 2,
                data = [1, 2, 3, 4], data_poisoned = False\<rparr>,
               \<lparr>sequence = 2, state = Published, pin_count = 0, valid_start_frame = 2, valid_frame_count = 1,
                data = [5, 6, 0, 0], data_poisoned = False\<rparr>],
     write_chunk = 1, write_poisoned = False, global_write_frame = 3, clear_after_frame = 0,
     next_sequence = 3, dropped_frames = 0, active_snapshots = 0, last_overrun = None,
     overrun_poisoned = False, allocated_sample_bytes = 32, metadata_budget_bytes = 24544\<rparr>"

definition demo_half :: sample_ring where
  "demo_half = demo_written\<lparr>chunks := [chunks demo_written ! 0, new_chunk [0, 0, 0, 0]], global_write_frame := 2, next_sequence := 2\<rparr>"

lemmas demo_eval = write_iteration_def write_segment_def begin_chunk_def new_chunk_def Let_def
  checked_add64_def u64_lim_def blit_def demo_half_def demo_written_def demo_ring_def demo_cfg_def

lemma demo_iterations:
  "write_iteration 0 [1, 2, 3, 4, 5, 6] 2 3 demo_ring 0 = (demo_half, Inr (Some 2))"
  "write_iteration 0 [1, 2, 3, 4, 5, 6] 2 3 demo_half 2 = (demo_written, Inr (Some 3))"
  by (simp_all add: demo_eval)

lemma demo_write: "write_interleaved 0 [1, 2, 3, 4, 5, 6] 2 demo_ring = (demo_written, Inr ())"
proof -
  have "write_loop 0 [1, 2, 3, 4, 5, 6] 2 3 demo_ring 0 = (demo_written, Inr ())"
    by (subst write_loop.simps, simp add: demo_iterations, subst write_loop.simps,
        simp add: demo_iterations, subst write_loop.simps, simp)
  moreover have "ch_of demo_ring = 2" by (simp add: demo_ring_def demo_cfg_def)
  ultimately show ?thesis by (simp add: write_interleaved_def numeral_3_eq_3)
qed


abbreviation demo_sys0 :: ring_sys where
  "demo_sys0 \<equiv> \<lparr>sys_ring = demo_ring, sys_hist = [], sys_held = []\<rparr>"

abbreviation demo_sys1 :: ring_sys where
  "demo_sys1 \<equiv> \<lparr>sys_ring = demo_written, sys_hist = [1, 2, 3, 4, 5, 6], sys_held = []\<rparr>"

lemma demo_reach0: "ring_reach 4096 (\<lambda>_ _. True) demo_cfg demo_sys0"
  by (rule reach_new[OF demo_new]) (simp_all add: demo_cfg_def u32_lim_def)

lemma demo_reach1: "ring_reach 4096 (\<lambda>_ _. True) demo_cfg demo_sys1"
proof -
  have c: "ch_of demo_ring = 2" "ch_of demo_half = 2"
    by (simp_all add: demo_ring_def demo_half_def demo_written_def demo_cfg_def)
  have "ring_reach 4096 (\<lambda>_ _. True) demo_cfg \<lparr>sys_ring = demo_half, sys_hist = [1, 2, 3, 4], sys_held = []\<rparr>"
    using reach_step[OF demo_reach0 step_write[of 0 3 demo_ring "[1, 2, 3, 4, 5, 6]" 0 demo_half 2]]
    by (simp add: c demo_iterations)
  from reach_step[OF this step_write[of 2 3 demo_half "[1, 2, 3, 4, 5, 6]" 0 demo_written 3]]
  show ?thesis by (simp add: c demo_iterations)
qed

definition demo_pinned :: sample_ring where
  "demo_pinned = demo_written\<lparr>chunks := map (\<lambda>c. c\<lparr>pin_count := 1\<rparr>) (chunks demo_written), active_snapshots := 1\<rparr>"

definition demo_segs :: "snapshot_segment list" where
  "demo_segs = [\<lparr>seg_chunk = 0, expected_sequence = 1, start_frame_in_chunk = 1, frame_count = 1\<rparr>,
                \<lparr>seg_chunk = 1, expected_sequence = 2, start_frame_in_chunk = 0, frame_count = 1\<rparr>]"

lemma demo_pin: "locked_pin demo_written (last_frames_range 2) = (demo_pinned, Inr (1, 3, demo_segs, True))"
proof -
  have old: "oldest_frame_at demo_written 3 = 0"
  proof -
    have "length (chunks demo_written) = Suc (Suc 0)" by (simp add: demo_written_def)
    then show ?thesis
      by (simp add: oldest_frame_at_def) (simp add: demo_written_def demo_cfg_def Let_def u64_lim_def)
  qed
  have acq: "guard_acquire demo_written = (demo_written\<lparr>active_snapshots := 1\<rparr>, Inr ())"
    by (simp add: guard_acquire_def demo_written_def demo_cfg_def u32_lim_def)
  have col: "collect_segments 0 1 3 (demo_written\<lparr>active_snapshots := 1\<rparr>, []) = (demo_pinned, demo_segs)"
    by (simp add: collect_segments_def demo_written_def demo_cfg_def upt_rec collect_step_def Let_def
        pin_chunk_def u64_lim_def u32_lim_def demo_pinned_def demo_segs_def)
  have "F_of demo_written = 2" "\<not> write_poisoned demo_written" "global_write_frame demo_written = 3"
    by (simp_all add: demo_written_def demo_cfg_def)
  then show ?thesis
    using old acq col
    by (simp add: locked_pin_def write_head_frame_def last_frames_range_def saturating_sub64_def
        pin_snapshot_range_def Let_def)
qed


definition demo_held :: held where
  "demo_held = \<lparr>h_start = 1, h_end = 3, h_segs = demo_segs, h_guard = True, h_snap = None, h_content = [3, 4, 5, 6]\<rparr>"

abbreviation demo_sys2 :: ring_sys where
  "demo_sys2 \<equiv> \<lparr>sys_ring = demo_pinned, sys_hist = [1, 2, 3, 4, 5, 6], sys_held = [demo_held]\<rparr>"

lemma demo_reach2: "ring_reach 4096 (\<lambda>_ _. True) demo_cfg demo_sys2"
proof -
  have "ch_of demo_written = 2" by (simp add: demo_written_def demo_cfg_def)
  with reach_step[OF demo_reach1 step_pin[OF demo_pin]] show ?thesis by (simp add: demo_held_def)
qed

definition demo_snap :: snapshot where
  "demo_snap = \<lparr>segments = demo_segs, start_frame = 1, end_frame = 3, snap_channels = 2, snap_sample_rate = 48000,
     snap_format = F32Le, total_frames = 2, active_counter = True\<rparr>"

section \<open>Theorems\<close>

text \<open>
  (C18) Snapshot isolation.  In every reachable state, whatever was written, cleared or dropped
  since its range was pinned, a live snapshot reads for each channel exactly the samples that
  the history held in the pinned range at the time of pinning; no generation check fails.
\<close>

theorem snapshot_reads_pinned_history:
  assumes reach: "ring_reach sc alloc c y" and h: "h \<in> set (sys_held y)" and sn: "h_snap h = Some sn"
    and k: "k < rc_channels c"
  shows "read_channel_samples (sys_ring y) sn k = Inr (channel_of (rc_channels c) k (h_content h))"
proof -
  let ?r = "sys_ring y"
  from reach_inv[OF reach] h have ok: "held_ok ?r h" and cf: "cfg ?r = c" and F: "F_of ?r < u32_lim"
    by (auto simp: sys_inv_def Let_def ring_inv_def ring_geom_def)
  from ok sn have s: "segments sn = h_segs h" "snap_channels sn = rc_channels c"
    and cov: "covers ?r (h_start h) (h_end h) (h_segs h)" and cont: "concat (map (seg_slice ?r) (h_segs h)) = h_content h"
    by (auto simp: held_ok_def cf)
  from read_segments_ok[OF cov F, of k] k cf cont show ?thesis
    by (auto simp: read_channel_samples_def s)
qed

theorem snapshot_reads_pinned_history_witness:
  "\<exists>y h. ring_reach 4096 (\<lambda>_ _. True) demo_cfg y \<and> h \<in> set (sys_held y) \<and> h_snap h = Some demo_snap \<and>
     read_channel_samples (sys_ring y) demo_snap 1 = Inr [4, 6]"
proof -
  let ?h = "demo_held\<lparr>h_snap := Some demo_snap\<rparr>"
  let ?y = "\<lparr>sys_ring = demo_pinned, sys_hist = [1, 2, 3, 4, 5, 6], sys_held = [?h]\<rparr>"
  have ok: "held_ok demo_pinned demo_held" using reach_inv[OF demo_reach2] by (simp add: sys_inv_def Let_def)
  have fin: "finish_snapshot (h_start demo_held) (h_end demo_held) (h_segs demo_held) (h_guard demo_held) demo_pinned = (demo_pinned, Inr demo_snap)"
    by (subst finish_snapshot_ok)
      (use ok in \<open>auto simp: held_ok_def demo_held_def demo_snap_def demo_pinned_def demo_written_def demo_cfg_def\<close>)
  have "h_snap demo_held = None" by (simp add: demo_held_def)
  from reach_step[OF demo_reach2] step_finish[OF this fin, of "[1, 2, 3, 4, 5, 6]" "[]" "[]"]
  have reach: "ring_reach 4096 (\<lambda>_ _. True) demo_cfg ?y" by simp
  have "read_channel_samples (sys_ring ?y) demo_snap 1 = Inr (channel_of (rc_channels demo_cfg) 1 (h_content ?h))"
    by (rule snapshot_reads_pinned_history[OF reach]) (simp_all add: demo_cfg_def)
  moreover have "channel_of (rc_channels demo_cfg) 1 (h_content ?h) = [4, 6]"
    by (simp add: channel_of_def demo_cfg_def demo_held_def upt_rec)
  ultimately show ?thesis using reach by (intro exI[of _ ?y] exI[of _ ?h]) simp
qed

text \<open>
  (C19) A selector that got past its locked part always completes: between pinning and the
  coverage check any other steps may happen, and still the check succeeds, the ring is left
  unchanged and the snapshot covers exactly the pinned range.
\<close>

theorem finish_snapshot_never_fails:
  assumes "ring_reach sc alloc c y" and "h \<in> set (sys_held y)" and "h_snap h = None"
  shows "\<exists>sn. finish_snapshot (h_start h) (h_end h) (h_segs h) (h_guard h) (sys_ring y) = (sys_ring y, Inr sn) \<and>
           start_frame sn = h_start h \<and> end_frame sn = h_end h \<and> total_frames sn = h_end h - h_start h"
proof -
  from reach_inv[OF assms(1)] assms(2) have "held_ok (sys_ring y) h" by (auto simp: sys_inv_def Let_def)
  then show ?thesis
    using finish_snapshot_ok[of "sys_ring y" "h_start h" "h_end h" "h_segs h" "h_guard h"]
    by (auto simp: held_ok_def)
qed

theorem finish_snapshot_never_fails_witness:
  "\<exists>sn. finish_snapshot 1 3 demo_segs True demo_pinned = (demo_pinned, Inr sn) \<and> total_frames sn = 2"
  using finish_snapshot_never_fails[OF demo_reach2, of demo_held]
  by (auto simp: demo_held_def)

text \<open>
  (C20) The range copy is exact: within the retained range it fills the destination with that
  slice of the history of accepted samples, as far as the destination reaches, and reports the
  number of frames; outside the retained range it fails and leaves the destination untouched.
\<close>

theorem range_copy_exact:
  assumes reach: "ring_reach sc alloc c y" and se: "s \<le> e" and whole: "length dest = n * rc_channels c"
    and cap: "s + n < u64_lim" "length dest < u64_lim"
  shows "copy_interleaved_range_into (sys_ring y) s e dest =
    (if oldest_frame (sys_ring y) \<le> s \<and> e \<le> global_write_frame (sys_ring y)
     then (blit dest 0 (take (min (e - s) n * rc_channels c) (drop (s * rc_channels c) (sys_hist y))), Inr (min (e - s) n))
     else (dest, Inl (ExportInvariant ''copy range is outside retained range'')))"
proof -
  from reach_inv[OF reach] have inv: "ring_inv (sys_ring y) (sys_hist y)" and cf: "cfg (sys_ring y) = c"
    by (auto simp: sys_inv_def Let_def)
  then have "0 < rc_channels c" by (auto simp: ring_inv_def ring_geom_def)
  then have "length dest div rc_channels c = n" "length dest mod rc_channels c = 0" using whole by simp_all
  then show ?thesis
    using copy_range_exact[OF inv _ se, of dest] copy_range_refused[OF inv se, of dest] cap cf by auto
qed

theorem range_copy_exact_witness:
  "copy_interleaved_range_into demo_written 1 3 [0, 0, 0, 0] = ([3, 4, 5, 6], Inr 2)"
proof -
  have "oldest_frame demo_written = 0"
    using oldest_frame_at_eq[of demo_written "[1, 2, 3, 4, 5, 6]"] reach_inv[OF demo_reach1]
    by (simp add: sys_inv_def Let_def oldest_frame_def write_head_frame_def demo_written_def started_def demo_cfg_def div_ceil_def)
  moreover have "global_write_frame demo_written = 3" by (simp add: demo_written_def)
  ultimately show ?thesis
    using range_copy_exact[OF demo_reach1, of 1 3 "[0, 0, 0, 0]" 2]
    by (simp add: demo_cfg_def u64_lim_def blit_def)
qed

text \<open>
  (C21) The writer accounts for every frame.  A whole-frame buffer is accepted: some prefix of
  \<open>k\<close> frames extends the history, the remaining frames are added to the drop counter, and
  frames are dropped only while some snapshot holds pinned chunks.
\<close>

theorem write_accounts_for_every_frame:
  assumes "ring_reach sc alloc c y" and "length samples = tot * rc_channels c"
    and "global_write_frame (sys_ring y) + tot + 2 < u64_lim" and "dropped_frames (sys_ring y) + tot < u64_lim"
  shows "\<exists>k r'. k \<le> tot \<and> write_interleaved now samples (rc_channels c) (sys_ring y) = (r', Inr ()) \<and>
           ring_reach sc alloc c (y\<lparr>sys_ring := r', sys_hist := sys_hist y @ take (k * rc_channels c) samples\<rparr>) \<and>
           global_write_frame r' = global_write_frame (sys_ring y) + k \<and>
           dropped_frames r' = dropped_frames (sys_ring y) + (tot - k) \<and>
           (k < tot \<longrightarrow> (\<exists>h \<in> set (sys_held y). h_segs h \<noteq> []))"
  using reach_write_interleaved[of sc alloc c "sys_ring y" "sys_hist y" "sys_held y" samples tot now] assms
  by (cases y) simp

theorem write_accounts_for_every_frame_witness:
  "\<exists>k r'. k \<le> 1 \<and> write_interleaved 5 [7, 8] (rc_channels demo_cfg) demo_pinned = (r', Inr ()) \<and>
     global_write_frame r' = 3 + k \<and> dropped_frames r' = 0 + (1 - k)"
  using write_accounts_for_every_frame[OF demo_reach2, of "[7, 8]" 1 5]
  by (auto simp: demo_cfg_def demo_pinned_def demo_written_def u64_lim_def)

text \<open>
  Retention.  A ring that was not cleared retains at most its capacity and at least
  everything written or all but one of its chunks, whichever is less; the reported status says
  so.
\<close>

theorem retained_frames_bounds:
  assumes "ring_reach sc alloc c y" and "clear_after_frame (sys_ring y) = 0"
  shows "st_retained_frames (sample_ring_status (sys_ring y)) \<le> st_capacity_frames (sample_ring_status (sys_ring y)) \<and>
         min (global_write_frame (sys_ring y)) ((rc_chunk_count c - 1) * rc_chunk_frames c)
           \<le> st_retained_frames (sample_ring_status (sys_ring y))"
proof -
  from reach_inv[OF assms(1)] have inv: "ring_inv (sys_ring y) (sys_hist y)" and cf: "cfg (sys_ring y) = c"
    by (auto simp: sys_inv_def Let_def)
  then have "C_of (sys_ring y) = rc_chunk_count c" by (auto simp: ring_inv_def ring_geom_def)
  then show ?thesis
    using retained_bounds[OF inv assms(2)] cf
    by (simp add: sample_ring_status_def Let_def saturating_sub64_def oldest_frame_def write_head_frame_def mult.commute)
qed

theorem retained_frames_bounds_witness:
  "st_retained_frames (sample_ring_status demo_written) \<le> 4 \<and> 2 \<le> st_retained_frames (sample_ring_status demo_written)"
  using retained_frames_bounds[OF demo_reach1]
  by (simp add: demo_written_def demo_cfg_def sample_ring_status_def Let_def)

text \<open>
  No pin leaks and no reset under a snapshot.  In a reachable state a reset succeeds
  exactly when no pending selector and no live snapshot holds a slot: once the last snapshot is
  dropped the ring can be reset, and never before.
\<close>

theorem reset_iff_no_pins:
  assumes "ring_reach sc alloc c y"
  shows "snd (ring_reset (sys_ring y)) = Inr () \<longleftrightarrow> (\<forall>h \<in> set (sys_held y). \<not> h_guard h)"
proof -
  let ?r = "sys_ring y" and ?hs = "sys_held y"
  from reach_inv[OF assms] have inv: "ring_inv ?r (sys_hist y)" and held: "\<forall>h \<in> set ?hs. held_ok ?r h"
    and pc: "\<And>i. i < C_of ?r \<Longrightarrow> pin_count (chunks ?r ! i) = pins_of ?hs i"
    and ac: "active_snapshots ?r = guards_of ?hs"
    by (auto simp: sys_inv_def Let_def)
  have np: "\<not> write_poisoned ?r" "\<not> overrun_poisoned ?r" using inv by (auto simp: ring_inv_def ring_geom_def)
  have nw: "\<forall>x \<in> set (chunks ?r). state x \<noteq> Writing" by (rule ring_inv_not_writing[OF inv])
  have g0: "guards_of ?hs = 0 \<longleftrightarrow> (\<forall>h \<in> set ?hs. \<not> h_guard h)" by (auto simp: guards_of_def)
  have "0 < guards_of ?hs" if "0 < pin_count x" "x \<in> set (chunks ?r)" for x
  proof -
    from that(2) obtain i where "i < C_of ?r" "x = chunks ?r ! i" by (auto simp: in_set_conv_nth)
    with that(1) pins_le_guards[OF held, of i] pc[of i] show ?thesis by simp
  qed
  then show ?thesis
    unfolding g0[symmetric] using np nw ac by (auto simp: ring_reset_def)
qed

theorem reset_iff_no_pins_witness:
  "snd (ring_reset demo_written) = Inr () \<and> snd (ring_reset demo_pinned) \<noteq> Inr ()"
  using reset_iff_no_pins[OF demo_reach1] reset_iff_no_pins[OF demo_reach2] by (simp add: demo_held_def)

end
