(* ===== verification/Capture_Theorems.thy ===== *)
theory Capture_Theorems
  imports Capture_Epochs Ingress_Theorems Ring_Theorems
begin

text \<open>
  The capture pipeline as a system: the producer pushes into the ingress queue, the worker
  moves slots into the active ring and executes commands, clients operate on the calibration
  slot.  The theorems relate what was pushed, what is queued, what was written and what a frozen
  epoch returns.
\<close>

section \<open>The system\<close>

record cap_sys =
  cy_rt :: capture_runtime
  cy_hist :: "f32 list"
  cy_pushed :: "f32 list"
  cy_desc :: "frozen_descriptor option"

definition desc_after :: "worker_reply result \<Rightarrow> frozen_descriptor option \<Rightarrow> frozen_descriptor option" where
  "desc_after res d =
     (case res of
        Inr (RepFrozen (Some x)) \<Rightarrow> Some x
      | Inr RepReleased \<Rightarrow> None
      | _ \<Rightarrow> d)"

text \<open>
  The bounds of the steps keep the 64-bit counters from running out; at one step per sample
  frame that takes millions of years.
\<close>

definition queue_counters_ok :: "nat \<Rightarrow> ingress_queue \<Rightarrow> bool" where
  "queue_counters_ok tot q \<longleftrightarrow>
     published_sequence q + tot + 1 < u64_lim \<and> enqueued_frames q + tot < u64_lim \<and>
     cumulative_dropped_frames q + tot < u64_lim \<and> q_dropped_frames q + tot < u64_lim"

inductive cap_step :: "fp_ops \<Rightarrow> cap_sys \<Rightarrow> cap_sys \<Rightarrow> bool" for fp where
  cap_push: "\<lbrakk>try_push_interleaved samples (q_channels (rt_queue rt)) (rt_queue rt) = (q', Inr out);
      length samples = tot * q_channels (rt_queue rt); length samples < u64_lim; queue_counters_ok tot (rt_queue rt)\<rbrakk> \<Longrightarrow>
    cap_step fp \<lparr>cy_rt = rt, cy_hist = h, cy_pushed = p, cy_desc = d\<rparr>
      \<lparr>cy_rt = rt\<lparr>rt_queue := q'\<rparr>, cy_hist = h,
       cy_pushed = p @ take (po_enqueued_frames out * q_channels (rt_queue rt)) samples, cy_desc = d\<rparr>"
| cap_consume: "\<lbrakk>consume_one fp now obs rt = Inr (rt', True); is_ok (calibration_boundary obs);
      w_absolute_head (rt_worker rt) + u32_lim + 2 < u64_lim\<rbrakk> \<Longrightarrow>
    cap_step fp \<lparr>cy_rt = rt, cy_hist = h, cy_pushed = p, cy_desc = d\<rparr>
      \<lparr>cy_rt = rt', cy_hist = h @ slot_item (rt_queue rt) (consumed_sequence (rt_queue rt)), cy_pushed = p, cy_desc = d\<rparr>"
| cap_idle: "\<lbrakk>consume_one fp now obs rt = Inr (rt', False); is_ok (calibration_boundary obs)\<rbrakk> \<Longrightarrow>
    cap_step fp \<lparr>cy_rt = rt, cy_hist = h, cy_pushed = p, cy_desc = d\<rparr> \<lparr>cy_rt = rt', cy_hist = h, cy_pushed = p, cy_desc = d\<rparr>"
| cap_command: "\<lbrakk>process_command cmd rt = (rt', res); w_next_generation (rt_worker rt) + 1 < u64_lim\<rbrakk> \<Longrightarrow>
    cap_step fp \<lparr>cy_rt = rt, cy_hist = h, cy_pushed = p, cy_desc = d\<rparr>
      \<lparr>cy_rt = rt', cy_hist = h, cy_pushed = p, cy_desc = desc_after res d\<rparr>"
| cap_calibration: "cap_step fp \<lparr>cy_rt = rt, cy_hist = h, cy_pushed = p, cy_desc = d\<rparr>
      \<lparr>cy_rt = rt\<lparr>rt_cal := s\<rparr>, cy_hist = h, cy_pushed = p, cy_desc = d\<rparr>"

inductive cap_reach :: "fp_ops \<Rightarrow> ring_config \<Rightarrow> cap_sys \<Rightarrow> bool" for fp c where
  cap_start: "\<lbrakk>ring_new sc alloc c = Inr e0; ring_new sc alloc' c = Inr e1; rc_chunk_frames c < u32_lim;
      ingress_new alloc'' slot_size slot_count slot_frames (rc_channels c) = Inr q; 0 < slot_count; 0 < slot_frames;
      slot_frames < u32_lim\<rbrakk> \<Longrightarrow>
    cap_reach fp c \<lparr>cy_rt = \<lparr>rt_queue = q, rt_cal = s, rt_worker = worker_new e0 e1 c,
        rt_final_worker_dropped_frames = 0, rt_final_worker_written_frames = 0, rt_worker_done = False\<rparr>,
      cy_hist = [], cy_pushed = [], cy_desc = None\<rparr>"
| cap_more: "\<lbrakk>cap_reach fp c y; cap_step fp y y'\<rbrakk> \<Longrightarrow> cap_reach fp c y'"

definition cap_inv :: "ring_config \<Rightarrow> cap_sys \<Rightarrow> bool" where
  "cap_inv c y \<longleftrightarrow>
     (let q = rt_queue (cy_rt y); w = rt_worker (cy_rt y) in
      worker_inv c w (cy_hist y) \<and> w_fault w = None \<and> queue_inv q \<and> q_channels q = rc_channels c \<and>
      cy_pushed y = cy_hist y @ concat (queue_items q) \<and>
      (case cy_desc y of None \<Rightarrow> w_frozen w = None | Some d \<Rightarrow> desc_ok c w d))"

section \<open>Its steps keep the invariant\<close>

lemma queue_admission_cong:
  "queue_inv (q\<lparr>producer_admission := a\<rparr>) = queue_inv q"
  "queue_items (q\<lparr>producer_admission := a\<rparr>) = queue_items q"
  "queue_inv (q\<lparr>producer_generation := g\<rparr>) = queue_inv q"
  "queue_items (q\<lparr>producer_generation := g\<rparr>) = queue_items q"
  "queue_inv (q\<lparr>producer_generation_exhausted := b\<rparr>) = queue_inv q"
  "queue_items (q\<lparr>producer_generation_exhausted := b\<rparr>) = queue_items q"
  by (simp_all add: queue_inv_def queue_items_def slot_item_def[abs_def] slot_index_def)

lemma producer_drop_items:
  "queue_inv (producer_drop q) = queue_inv q" "queue_items (producer_drop q) = queue_items q"
  "q_channels (producer_drop q) = q_channels q"
  by (simp_all add: producer_drop_def Let_def queue_admission_cong split: option.split)

lemma try_push_items:
  assumes inv: "queue_inv q" and run: "try_push samples (q_channels q) q = (q', Inr out)"
    and len: "length samples = tot * q_channels q" "length samples < u64_lim" and lim: "queue_counters_ok tot q"
  shows "queue_inv q' \<and> q_channels q' = q_channels q \<and>
         concat (queue_items q') = concat (queue_items q) @ take (po_enqueued_frames out * q_channels q) samples"
proof -
  have nd: "\<not> drop_counter_exhausted q" using run by (auto simp: try_push_def)
  have ch: "0 < q_channels q" using inv by (simp add: queue_inv_def)
  have "length samples div q_channels q = tot" using len ch by simp
  then have run': "push_loop samples (q_channels q) tot 0 0 q = (q', Inr out)"
    using run nd len ch by (simp add: try_push_def)
  from push_loop_conserves[OF inv nd le0, of tot samples 0] len lim run'
  show ?thesis by (auto simp: queue_counters_ok_def)
qed

lemma start_calibration_frame:
  assumes "is_ok (calibration_boundary obs)"
  shows "rt_queue (start_calibration_if_ready obs rt) = rt_queue rt \<and>
         rt_worker (start_calibration_if_ready obs rt) =
           (rt_worker rt)\<lparr>w_calibration := w_calibration (rt_worker (start_calibration_if_ready obs rt))\<rparr>"
proof (cases "calibration_boundary obs")
  case (Inr b)
  show ?thesis
  proof (cases b)
    case (Some p)
    with Inr show ?thesis
      by (cases p; cases "cal_take_ready (rt_cal rt)")
         (auto simp: start_calibration_if_ready_def cancel_calibration_if_requested_def Let_def)
  qed (simp add: Inr start_calibration_if_ready_def)
qed (use assms in simp)

lemma worker_inv_calibration [simp]: "worker_inv c (w\<lparr>w_calibration := cap\<rparr>) h = worker_inv c w h"
  by (auto simp: worker_inv_def split: option.splits)

lemma desc_ok_calibration [simp]: "desc_ok c (w\<lparr>w_calibration := cap\<rparr>) d = desc_ok c w d"
  by (simp add: desc_ok_def)

lemma consume_samples_ok:
  assumes inv: "worker_inv c (rt_worker rt) h" and nf: "w_fault (rt_worker rt) = None"
    and len: "length samples = n * rc_channels c" and lim: "w_absolute_head (rt_worker rt) + n + 2 < u64_lim"
    and run: "consume_samples fp now samples n sq rt = Inr rt'"
  shows "worker_inv c (rt_worker rt') (h @ samples) \<and> w_fault (rt_worker rt') = None \<and> rt_queue rt' = rt_queue rt \<and>
         w_frozen (rt_worker rt') = w_frozen (rt_worker rt) \<and> w_bases (rt_worker rt') = w_bases (rt_worker rt) \<and>
         w_next_generation (rt_worker rt') = w_next_generation (rt_worker rt) \<and>
         w_absolute_head (rt_worker rt') = w_absolute_head (rt_worker rt) + n \<and>
         (\<forall>i. i \<noteq> w_active (rt_worker rt) \<longrightarrow> w_epochs (rt_worker rt') ! i = w_epochs (rt_worker rt) ! i)"
proof -
  let ?w = "rt_worker rt"
  obtain r where wr: "write_interleaved now samples (rc_channels c) (w_epochs ?w ! w_active ?w) = (r, Inr ())"
    and inv': "worker_inv c (?w\<lparr>w_epochs := (w_epochs ?w)[w_active ?w := r], w_absolute_head := w_absolute_head ?w + n,
                           w_written_frames := w_written_frames ?w + n\<rparr>) (h @ samples)" (is "worker_inv c ?w1 _")
    using worker_write[OF inv len lim, of now] by blast
  have ch: "w_channels ?w = rc_channels c" and wf: "w_written_frames ?w = w_absolute_head ?w"
    using inv by (auto simp: worker_inv_def)
  have adds: "checked_add64 (w_absolute_head ?w) n = Some (w_absolute_head ?w + n)"
    "checked_add64 (w_written_frames ?w) n = Some (w_written_frames ?w + n)"
    using lim wf by simp_all
  from run nf adds wr ch have "rt_worker rt' = ?w1\<lparr>w_calibration := w_calibration (rt_worker rt')\<rparr> \<and> rt_queue rt' = rt_queue rt"
    by (auto simp: consume_samples_def Let_def bindR_Inr_iff simp del: checked_add64_Some_iff)
  then obtain cap where rt': "rt_worker rt' = ?w1\<lparr>w_calibration := cap\<rparr>" "rt_queue rt' = rt_queue rt" by blast
  show ?thesis
    using inv' nf unfolding rt' by simp
qed

lemma desc_ok_frame:
  assumes "desc_ok c w d" and "w_frozen w' = w_frozen w" and "w_bases w' = w_bases w"
    and "w_epochs w' ! fd_index d = w_epochs w ! fd_index d"
  shows "desc_ok c w' d"
  using assms by (simp add: desc_ok_def)

lemma desc_index: "worker_inv c w h \<Longrightarrow> desc_ok c w d \<Longrightarrow> fd_index d \<noteq> w_active w"
  by (auto simp: worker_inv_def desc_ok_def dest: two_cases)

lemma queue_items_consumed:
  "queue_items (q\<lparr>consumed_sequence := n\<rparr>) = map (slot_item q) [n..<published_sequence q]"
  by (simp add: queue_items_def slot_item_def[abs_def] slot_index_def)

lemma cap_inv_consume:
  assumes inv: "cap_inv c \<lparr>cy_rt = rt, cy_hist = h, cy_pushed = p, cy_desc = d\<rparr>"
    and run: "consume_one fp now obs rt = Inr (rt', b)" and cal: "is_ok (calibration_boundary obs)"
    and lim: "b \<Longrightarrow> w_absolute_head (rt_worker rt) + u32_lim + 2 < u64_lim"
  shows "cap_inv c \<lparr>cy_rt = rt',
     cy_hist = (if b then h @ slot_item (rt_queue rt) (consumed_sequence (rt_queue rt)) else h),
     cy_pushed = p, cy_desc = d\<rparr> \<and>
     rt_queue rt' = (rt_queue rt)\<lparr>consumed_sequence := consumed_sequence (rt_queue rt')\<rparr> \<and>
     w_next_generation (rt_worker rt') = w_next_generation (rt_worker rt) \<and>
     w_absolute_head (rt_worker rt) \<le> w_absolute_head (rt_worker rt') \<and>
     w_absolute_head (rt_worker rt') \<le> w_absolute_head (rt_worker rt) + u32_lim"
proof -
  let ?q = "rt_queue rt" and ?w = "rt_worker rt" and ?rt = "start_calibration_if_ready obs rt"
  obtain cap where sq: "rt_queue ?rt = ?q" and sw: "rt_worker ?rt = ?w\<lparr>w_calibration := cap\<rparr>"
    using start_calibration_frame[OF cal, of rt] by blast
  have wi: "worker_inv c ?w h" and nf: "w_fault ?w = None" and qi: "queue_inv ?q" and qc: "q_channels ?q = rc_channels c"
    and ps: "p = h @ concat (queue_items ?q)" and dk: "case d of None \<Rightarrow> w_frozen ?w = None | Some x \<Rightarrow> desc_ok c ?w x"
    using inv by (auto simp: cap_inv_def Let_def)
  show ?thesis
  proof (cases "queue_items ?q")
    case Nil
    then have "consume_next ?q = None" by (auto simp: consume_next_def queue_items_def Let_def)
    then have "rt' = ?rt" "\<not> b" using run sq by (auto simp: consume_one_def Let_def)
    then show ?thesis using wi nf qi qc ps dk sq sw by (auto simp: cap_inv_def Let_def split: option.splits)
  next
    case (Cons x xs)
    from consume_next_item[OF qi Cons] obtain n where
      cn: "consume_next ?q = Some ((x, n, consumed_sequence ?q), ?q\<lparr>consumed_sequence := consumed_sequence ?q + 1\<rparr>)"
      and xl: "length x = n * q_channels ?q" and qi': "queue_inv (?q\<lparr>consumed_sequence := consumed_sequence ?q + 1\<rparr>)"
      and its: "queue_items (?q\<lparr>consumed_sequence := consumed_sequence ?q + 1\<rparr>) = xs" by blast
    have xi: "x = slot_item ?q (consumed_sequence ?q)"
      using cn by (auto simp: consume_next_def Let_def slot_item_def split: if_splits)
    have b: "b" using run cn sq by (auto simp: consume_one_def Let_def bindR_Inr_iff)
    obtain rt2 where cs: "consume_samples fp now x n (consumed_sequence ?q) ?rt = Inr rt2"
      and rt': "rt' = rt2\<lparr>rt_queue := (rt_queue rt2)\<lparr>consumed_sequence := consumed_sequence ?q + 1\<rparr>\<rparr>"
      using run cn sq by (auto simp: consume_one_def Let_def bindR_Inr_iff)
    have "n \<le> q_slot_frames ?q" using consumed_frames_le[OF qi cn] .
    then have nl: "n \<le> u32_lim" using qi by (simp add: queue_inv_def)
    then have "w_absolute_head ?w + n + 2 < u64_lim" using lim[OF b] by linarith
    with consume_samples_ok[of c ?rt h x n fp now "consumed_sequence ?q" rt2] cs wi nf xl qc sw
    have r2: "worker_inv c (rt_worker rt2) (h @ x)" "w_fault (rt_worker rt2) = None" "rt_queue rt2 = ?q"
      "w_frozen (rt_worker rt2) = w_frozen ?w" "w_bases (rt_worker rt2) = w_bases ?w"
      "w_next_generation (rt_worker rt2) = w_next_generation ?w" "w_absolute_head (rt_worker rt2) = w_absolute_head ?w + n"
      "\<forall>i. i \<noteq> w_active ?w \<longrightarrow> w_epochs (rt_worker rt2) ! i = w_epochs ?w ! i"
      using sq by auto
    have "case d of None \<Rightarrow> w_frozen (rt_worker rt2) = None | Some y \<Rightarrow> desc_ok c (rt_worker rt2) y"
      using dk r2 desc_ok_frame[of c ?w _ "rt_worker rt2"] desc_index[OF wi] by (auto split: option.splits)
    then show ?thesis
      using r2 qi' its ps b Cons qc xi nl by (simp add: cap_inv_def Let_def rt')
  qed
qed

lemma retire_fault: "retire_and_reset i w = (w', res) \<Longrightarrow> w_fault w' = w_fault w"
  by (auto simp: retire_and_reset_def Let_def split: option.splits prod.splits sum.splits)

lemma release_fault: "release i g w = (w', res) \<Longrightarrow> w_fault w' = w_fault w"
  by (auto simp: release_def dest: retire_fault split: option.splits prod.splits sum.splits if_splits)

lemma freeze_fault: "freeze committed w = (w', res) \<Longrightarrow> w_fault w' = w_fault w"
  by (auto simp: freeze_def Let_def dest: retire_fault split: option.splits prod.splits sum.splits if_splits)

lemma cap_inv_command:
  assumes inv: "cap_inv c \<lparr>cy_rt = rt, cy_hist = h, cy_pushed = p, cy_desc = d\<rparr>"
    and run: "process_command cmd rt = (rt', res)" and gen: "w_next_generation (rt_worker rt) + 1 < u64_lim"
  shows "cap_inv c \<lparr>cy_rt = rt', cy_hist = h, cy_pushed = p, cy_desc = desc_after res d\<rparr>"
proof -
  let ?w = "rt_worker rt"
  have wi: "worker_inv c ?w h" and nf: "w_fault ?w = None" and qi: "queue_inv (rt_queue rt)"
    and qc: "q_channels (rt_queue rt) = rc_channels c" and ps: "p = h @ concat (queue_items (rt_queue rt))"
    and dk: "case d of None \<Rightarrow> w_frozen ?w = None | Some x \<Rightarrow> desc_ok c ?w x"
    using inv by (auto simp: cap_inv_def Let_def)
  have same: "cap_inv c \<lparr>cy_rt = rt, cy_hist = h, cy_pushed = p, cy_desc = desc_after res d\<rparr>" if "desc_after res d = d"
    using inv that by simp
  have upd: "cap_inv c \<lparr>cy_rt = rt\<lparr>rt_worker := w'\<rparr>, cy_hist = h, cy_pushed = p, cy_desc = d'\<rparr>"
    if "worker_inv c w' h" "w_fault w' = None" "case d' of None \<Rightarrow> w_frozen w' = None | Some x \<Rightarrow> desc_ok c w' x" for w' d'
    using that qi qc ps by (simp add: cap_inv_def Let_def)
  show ?thesis
  proof (cases "drop_counter_exhausted (rt_queue rt) \<and>
         (case cmd of CmdRelease _ _ _ \<Rightarrow> False | CmdShutdown _ \<Rightarrow> False | _ \<Rightarrow> True)")
    case True
    then have "rt' = rt" "desc_after res d = d" using run by (auto simp: process_command_def Let_def desc_after_def)
    then show ?thesis using inv by simp
  next
    case live: False
    show ?thesis
    proof (cases cmd)
      case (CmdFreeze t committed)
      obtain w' fr where fz: "freeze committed ?w = (w', fr)" by fastforce
      with live run CmdFreeze have rt': "rt' = rt\<lparr>rt_worker := w'\<rparr>" and res: "res = bindR fr (\<lambda>x. Inr (RepFrozen x))"
        by (auto simp: process_command_def Let_def)
      show ?thesis
      proof (cases "w_frozen ?w")
        case (Some f)
        then have "w' = ?w" "\<exists>e. fr = Inl e" using fz by (auto simp: freeze_def)
        then show ?thesis using inv rt' res by (auto simp: desc_after_def)
      next
        case None
        with dk have dn: "d = None" by (cases d) (auto simp: desc_ok_def)
        from freeze_ok[OF wi None gen refl, of committed] fz obtain x where x: "fr = Inr x" "worker_inv c w' h"
          and xd: "(\<exists>y. x = Some y \<and> desc_ok c w' y) \<or> x = None \<and> w_frozen w' = None"
          by (auto split: if_splits simp del: split_paired_All split_paired_Ex)
        have "w_fault w' = None" using freeze_fault[OF fz] nf by simp
        with x xd dn show ?thesis unfolding rt' res
          by (intro upd) (auto simp: desc_after_def)
      qed
    next
      case (CmdRelease t i g)
      obtain w' rr where rl: "release i g ?w = (w', rr)" by fastforce
      with live run CmdRelease have rt': "rt' = rt\<lparr>rt_worker := w'\<rparr>" and res: "res = bindR rr (\<lambda>_. Inr RepReleased)"
        by (auto simp: process_command_def Let_def)
      show ?thesis
      proof (cases "w_frozen ?w = Some (i, g)")
        case True
        have "w_fault w' = None" using release_fault[OF rl] nf by simp
        with release_ok[OF wi True] rl show ?thesis unfolding rt' res by (intro upd) (auto simp: desc_after_def)
      next
        case False
        with release_refused[OF this] rl have "w' = ?w" "\<exists>e. rr = Inl e" by auto
        then show ?thesis using inv rt' res by (auto simp: desc_after_def)
      qed
    next
      case (CmdClear t n acc)
      obtain w' cr where cl: "worker_clear n acc ?w = (w', cr)" by fastforce
      with live run CmdClear have rt': "rt' = rt\<lparr>rt_worker := w'\<rparr>" and res: "res = bindR cr (\<lambda>x. Inr (RepCleared x))"
        by (auto simp: process_command_def Let_def)
      have f: "w_fault w' = None" using cl nf by (auto simp: worker_clear_def split: sum.splits)
      note ci = worker_clear_inv[OF wi cl]
      have "desc_after res d = d" using res by (cases cr) (auto simp: desc_after_def)
      moreover have "case d of None \<Rightarrow> w_frozen w' = None | Some x \<Rightarrow> desc_ok c w' x"
        using dk ci desc_ok_frame[of c ?w _ w'] desc_index[OF wi] by (auto split: option.splits)
      ultimately show ?thesis unfolding rt' using ci f by (intro upd) simp_all
    next
      case (CmdStatus t)
      then have "rt' = rt" "desc_after res d = d" using live run
        by (auto simp: process_command_def Let_def desc_after_def bindR_def split: sum.splits)
      then show ?thesis using inv by simp
    next
      case (CmdShutdown t)
      then have "rt' = rt" "desc_after res d = d" using live run by (auto simp: process_command_def Let_def desc_after_def)
      then show ?thesis using inv by simp
    qed
  qed
qed

lemma cap_inv_step: "cap_step fp y y' \<Longrightarrow> cap_inv c y \<Longrightarrow> cap_inv c y'"
proof (induction rule: cap_step.induct)
  case (cap_push samples rt q' out tot h p d)
  let ?q = "rt_queue rt"
  obtain q1 q2 where acq: "producer_acquire ?q = (q1, Inr ())" and push: "try_push samples (q_channels ?q) q1 = (q2, Inr out)"
    and q': "q' = producer_drop q2"
    using cap_push(1) by (auto simp: try_push_interleaved_def split: prod.splits sum.splits)
  from acq obtain a where q1: "q1 = ?q\<lparr>producer_admission := a\<rparr>" by (auto simp: producer_acquire_def split: if_splits)
  have inv: "queue_inv q1" "queue_items q1 = queue_items ?q" "q_channels q1 = q_channels ?q"
    "queue_counters_ok tot q1"
    using cap_push(4,5) by (simp_all add: q1 queue_admission_cong cap_inv_def Let_def queue_counters_ok_def)
  from try_push_items[OF inv(1), of samples q2 out tot] push cap_push(2,3) inv
  have "queue_inv q2 \<and> q_channels q2 = q_channels ?q \<and>
      concat (queue_items q2) = concat (queue_items ?q) @ take (po_enqueued_frames out * q_channels ?q) samples" by simp
  then show ?case
    using cap_push(5) by (auto simp: cap_inv_def Let_def q' producer_drop_items)
next
  case (cap_consume now obs rt rt' h p d)
  from cap_inv_consume[OF cap_consume(4,1,2,3)] show ?case by simp
next
  case (cap_idle now obs rt rt' h p d)
  from cap_inv_consume[OF cap_idle(3,1,2)] show ?case by simp
next
  case (cap_command cmd rt rt' res h p d)
  from cap_inv_command[OF cap_command(3,1,2)] show ?case .
next
  case (cap_calibration rt h p d s)
  then show ?case by (simp add: cap_inv_def Let_def)
qed

lemma ingress_new_inv:
  assumes "ingress_new alloc sz n f ch = Inr q" and "0 < n" "0 < f" "f < u32_lim" "0 < ch"
  shows "queue_inv q \<and> queue_items q = [] \<and> q_channels q = ch"
proof -
  obtain ss where ss: "exact_array_try_from_fn alloc sz n
              (\<lambda>_ i. bindR (materialized_new_zeroed alloc (i + 1) (f * ch)) (\<lambda>buffer.
                 Inr ((), \<lparr>slot_frames_used = 0, slot_samples = buffer\<rparr>))) () = Inr ((), ss)" and fc: "f * ch < u64_lim"
    and q: "slots q = ss" "q_channels q = ch" "q_slot_frames q = f" "published_sequence q = 0" "consumed_sequence q = 0"
    using assms(1) by (auto simp: ingress_new_def bindR_Inr_iff)
  have "length ss = n \<and> (\<forall>x \<in> set ss. length (slot_samples x) = f * ch)"
    by (rule exact_array_invariant[OF ss])
       (auto simp: bindR_Inr_iff materialized_new_zeroed_def Let_def split: if_splits)
  then show ?thesis using assms q fc by (auto simp: queue_inv_def queue_items_def)
qed

lemma cap_reach_inv: "cap_reach fp c y \<Longrightarrow> cap_inv c y"
proof (induction rule: cap_reach.induct)
  case (cap_start sc alloc e0 alloc' e1 alloc'' slot_size slot_count slot_frames q s)
  have e: "epoch_ok e0 []" "epoch_ok e1 []" "cfg e0 = c" "cfg e1 = c"
    using ring_new_inv[OF cap_start(1,3)] ring_new_inv[OF cap_start(2,3)] by (auto simp: epoch_ok_def)
  then have ch: "0 < rc_channels c" by (auto simp: epoch_ok_def ring_inv_def ring_geom_def)
  have "worker_inv c (worker_new e0 e1 c) []"
    using e ch by (auto simp: worker_inv_def worker_new_def less_2_cases_iff)
  with ingress_new_inv[OF cap_start(4-7) ch] show ?case
    by (simp add: cap_inv_def Let_def worker_new_def)
next
  case (cap_more y y')
  then show ?case by (blast intro: cap_inv_step)
qed

section \<open>A concrete run\<close>

definition demo_fp :: fp_ops where
  "demo_fp = \<lparr>fp_of_f32 = (\<lambda>x. ucast x), fp_mul = (\<lambda>x y. x * y), fp_add = (\<lambda>x y. x + y), fp_div = (\<lambda>x y. x),
     fp_of_u64 = (\<lambda>n. of_nat n), fp_sqrt = (\<lambda>x. x), fp_to_f32 = (\<lambda>x. ucast x), fp_max32 = max\<rparr>"

definition demo_cal :: calibration_slot where
  "demo_cal = \<lparr>cal_state = CalIdle, cal_request = None,
     cal_metadata = \<lparr>cm_frames = 0, cm_sample_rate = 0, cm_complete_windows = 0, cm_partial_final_frames = 0,
                     cm_dropped_frames = 0, cm_usable = False\<rparr>,
     cal_samples = [], cal_rms = [], cal_peak = [], cal_window_frames = 2, cal_hop_frames = 1\<rparr>"

definition demo_cq :: "nat \<Rightarrow> f32 list \<Rightarrow> nat \<Rightarrow> nat \<Rightarrow> nat \<Rightarrow> ingress_queue" where
  "demo_cq used buf pub con gen =
     \<lparr>slots = [\<lparr>slot_frames_used = used, slot_samples = buf\<rparr>], q_channels = 2, q_slot_frames = 4,
      published_sequence = pub, consumed_sequence = con, enqueued_frames = used, q_dropped_frames = 0,
      cumulative_dropped_frames = 0, drop_counter_exhausted = False, producer_admission = PRODUCER_OPEN,
      producer_generation = gen, producer_generation_exhausted = False\<rparr>"

abbreviation demo_rt :: "ingress_queue \<Rightarrow> worker_state \<Rightarrow> capture_runtime" where
  "demo_rt q w \<equiv> \<lparr>rt_queue = q, rt_cal = demo_cal, rt_worker = w, rt_final_worker_dropped_frames = 0,
     rt_final_worker_written_frames = 0, rt_worker_done = False\<rparr>"

abbreviation demo_q0 :: ingress_queue where "demo_q0 \<equiv> demo_cq 0 [0, 0, 0, 0, 0, 0, 0, 0] 0 0 0"
abbreviation demo_q1 :: ingress_queue where "demo_q1 \<equiv> demo_cq 3 [1, 2, 3, 4, 5, 6, 0, 0] 1 0 1"
abbreviation demo_q2 :: ingress_queue where "demo_q2 \<equiv> demo_cq 3 [1, 2, 3, 4, 5, 6, 0, 0] 1 1 1"

definition demo_w0 :: worker_state where
  "demo_w0 = worker_new demo_ring demo_ring demo_cfg"

definition demo_w1 :: worker_state where
  "demo_w1 = demo_w0\<lparr>w_epochs := [demo_written, demo_ring], w_absolute_head := 3, w_written_frames := 3\<rparr>"

lemma demo_cq_new: "ingress_new (\<lambda>_ _. True) 32 1 4 2 = Inr demo_q0"
proof -
  have "replicate 8 (0::f32) = [0, 0, 0, 0, 0, 0, 0, 0]" by (simp add: numeral_eq_Suc)
  then show ?thesis
    by (simp add: ingress_new_def exact_array_try_from_fn_def materialized_new_zeroed_def Let_def isize_max_def
        checked_mul64_def u64_lim_def demo_cq_def)
qed

lemma demo_cap0: "cap_reach demo_fp demo_cfg \<lparr>cy_rt = demo_rt demo_q0 demo_w0, cy_hist = [], cy_pushed = [], cy_desc = None\<rparr>"
  unfolding demo_w0_def
proof (rule cap_start[OF demo_new demo_new])
  show "ingress_new (\<lambda>_ _. True) 32 1 4 (rc_channels demo_cfg) = Inr demo_q0"
    using demo_cq_new by (simp add: demo_cfg_def)
qed (simp_all add: demo_cfg_def u32_lim_def)

lemma demo_push:
  "try_push_interleaved [1, 2, 3, 4, 5, 6] 2 demo_q0 =
     (demo_q1, Inr \<lparr>po_enqueued_frames = 3, po_dropped_frames = 0, po_published_sequence = 1\<rparr>)"
proof -
  let ?q = "demo_q0\<lparr>producer_admission := Suc PRODUCER_OPEN\<rparr>"
  let ?q1 = "(demo_cq 3 [1, 2, 3, 4, 5, 6, 0, 0] 1 0 0)\<lparr>producer_admission := Suc PRODUCER_OPEN\<rparr>"
  have acq: "producer_acquire demo_q0 = (?q, Inr ())"
    by (simp add: producer_acquire_def demo_cq_def admission_open_def admitted_producers_def PRODUCER_OPEN_def)
  have it: "push_iteration [1, 2, 3, 4, 5, 6] 2 3 0 ?q = (?q1, Inr (Some 3))"
    by (simp add: push_iteration_def queue_depth_def demo_cq_def push_store_def add_enqueued_frames_def checked_add64_def
        checked_mul64_def checked_sub64_def u64_lim_def u32_lim_def slot_index_def fill_slot_def blit_def Let_def)
  have "push_loop [1, 2, 3, 4, 5, 6] 2 3 0 0 ?q = (?q1, Inr \<lparr>po_enqueued_frames = 3, po_dropped_frames = 0, po_published_sequence = 1\<rparr>)"
    by (subst push_loop.simps, simp add: it, subst push_loop.simps, simp add: demo_cq_def)
  then have "try_push [1, 2, 3, 4, 5, 6] 2 ?q = (?q1, Inr \<lparr>po_enqueued_frames = 3, po_dropped_frames = 0, po_published_sequence = 1\<rparr>)"
    by (simp add: try_push_def numeral_3_eq_3) (simp add: demo_cq_def)
  moreover have "producer_drop ?q1 = demo_q1"
    by (simp add: producer_drop_def demo_cq_def checked_add64_def u64_lim_def wsub64_def)
  ultimately show ?thesis by (simp add: try_push_interleaved_def acq)
qed

lemma demo_cap1: "cap_reach demo_fp demo_cfg
    \<lparr>cy_rt = demo_rt demo_q1 demo_w0, cy_hist = [], cy_pushed = [1, 2, 3, 4, 5, 6], cy_desc = None\<rparr>"
proof -
  have "cap_step demo_fp \<lparr>cy_rt = demo_rt demo_q0 demo_w0, cy_hist = [], cy_pushed = [], cy_desc = None\<rparr>
      \<lparr>cy_rt = demo_rt demo_q1 demo_w0, cy_hist = [], cy_pushed = [1, 2, 3, 4, 5, 6], cy_desc = None\<rparr>"
    using cap_push[of "[1, 2, 3, 4, 5, 6]" "demo_rt demo_q0 demo_w0" demo_q1 _ 3 demo_fp "[]" "[]" None] demo_push
    by (simp add: queue_counters_ok_def u64_lim_def) (simp add: demo_cq_def)
  then show ?thesis by (rule cap_more[OF demo_cap0])
qed

lemma demo_consume: "consume_one demo_fp 0 (\<lambda>_. demo_q1) (demo_rt demo_q1 demo_w0) = Inr (demo_rt demo_q2 demo_w1, True)"
proof -
  have st: "start_calibration_if_ready (\<lambda>_. demo_q1) (demo_rt demo_q1 demo_w0) = demo_rt demo_q1 demo_w0"
    by (simp add: start_calibration_if_ready_def calibration_boundary_def demo_cq_def admitted_producers_def
        cal_take_ready_def demo_cal_def Let_def)
  have cn: "consume_next demo_q1 = Some (([1, 2, 3, 4, 5, 6], 3, 0), demo_q2)"
    by (simp add: consume_next_def demo_cq_def slot_index_def)
  have w: "w_fault demo_w0 = None" "w_absolute_head demo_w0 = 0" "w_written_frames demo_w0 = 0" "w_channels demo_w0 = 2"
    "w_epochs demo_w0 = [demo_ring, demo_ring]" "w_active demo_w0 = 0" "w_calibration demo_w0 = None"
    by (simp_all add: demo_w0_def worker_new_def demo_cfg_def)
  have cs: "consume_samples demo_fp 0 [1, 2, 3, 4, 5, 6] 3 0 (demo_rt demo_q1 demo_w0) = Inr (demo_rt demo_q1 demo_w1)"
    using demo_write w
    by (simp add: consume_samples_def copy_calibration_samples_def checked_add64_def u64_lim_def demo_w1_def)
  have "demo_q1\<lparr>consumed_sequence := 1\<rparr> = demo_q2" by (simp add: demo_cq_def)
  then show ?thesis using st cn cs by (simp add: consume_one_def Let_def)
qed

lemma demo_cap2: "cap_reach demo_fp demo_cfg
    \<lparr>cy_rt = demo_rt demo_q2 demo_w1, cy_hist = [1, 2, 3, 4, 5, 6], cy_pushed = [1, 2, 3, 4, 5, 6], cy_desc = None\<rparr>"
proof -
  have b: "is_ok (calibration_boundary (\<lambda>_. demo_q1))"
    by (simp add: calibration_boundary_def demo_cq_def Let_def)
  have i: "slot_item demo_q1 (consumed_sequence demo_q1) = [1, 2, 3, 4, 5, 6]"
    by (simp add: slot_item_def slot_index_def demo_cq_def Let_def)
  have l: "w_absolute_head (rt_worker (demo_rt demo_q1 demo_w0)) + u32_lim + 2 < u64_lim"
    by (simp add: demo_w0_def worker_new_def u32_lim_def u64_lim_def)
  have "cap_step demo_fp \<lparr>cy_rt = demo_rt demo_q1 demo_w0, cy_hist = [], cy_pushed = [1, 2, 3, 4, 5, 6], cy_desc = None\<rparr>
      \<lparr>cy_rt = demo_rt demo_q2 demo_w1, cy_hist = [] @ slot_item demo_q1 (consumed_sequence demo_q1), cy_pushed = [1, 2, 3, 4, 5, 6], cy_desc = None\<rparr>"
    using cap_consume[OF demo_consume b l, of "[]" "[1, 2, 3, 4, 5, 6]" None] by simp
  from cap_more[OF demo_cap1 this] i show ?thesis by simp
qed

lemma demo_w1_inv: "worker_inv demo_cfg demo_w1 [1, 2, 3, 4, 5, 6]"
  using cap_reach_inv[OF demo_cap2] by (simp add: cap_inv_def Let_def)

lemma demo_old: "oldest_frame demo_written = 0" "write_head_frame demo_written = 3"
  using oldest_frame_at_eq[of demo_written "[1, 2, 3, 4, 5, 6]"] reach_inv[OF demo_reach1]
  by (simp_all add: sys_inv_def Let_def oldest_frame_def write_head_frame_def demo_written_def started_def demo_cfg_def div_ceil_def)

text \<open>A freeze after the run yields a descriptor for frames 0 to 3.\<close>

lemma demo_cap3: "\<exists>rt d. cap_reach demo_fp demo_cfg
    \<lparr>cy_rt = rt, cy_hist = [1, 2, 3, 4, 5, 6], cy_pushed = [1, 2, 3, 4, 5, 6], cy_desc = Some d\<rparr> \<and>
    fd_absolute_range d = (0, 3)"
proof -
  have w: "w_frozen demo_w1 = None" "w_next_generation demo_w1 + 1 < u64_lim" "w_absolute_head demo_w1 = 3"
    "w_bases demo_w1 ! w_active demo_w1 = 0" "w_epochs demo_w1 ! w_active demo_w1 = demo_written"
    by (simp_all add: demo_w1_def demo_w0_def worker_new_def u64_lim_def)
  from freeze_ok[OF demo_w1_inv w(1,2) refl, of None] w demo_old obtain w' d
    where fz: "freeze None demo_w1 = (w', Inr (Some d))" and r: "fd_absolute_range d = (0, 3)" by auto
  have "\<not> drop_counter_exhausted demo_q2" by (simp add: demo_cq_def)
  then have pc: "process_command (CmdFreeze 0 None) (demo_rt demo_q2 demo_w1) = (demo_rt demo_q2 w', Inr (RepFrozen (Some d)))"
    using fz by (simp add: process_command_def)
  have "w_next_generation (rt_worker (demo_rt demo_q2 demo_w1)) + 1 < u64_lim" using w(2) by simp
  from cap_more[OF demo_cap2 cap_command[OF pc this]] r show ?thesis
    by (auto simp: desc_after_def)
qed

section \<open>Theorems\<close>

text \<open>
  (C27) No accepted sample is lost, duplicated or reordered between the audio callback and the
  rings: in every reachable state of the pipeline, everything the queue ever accepted is the
  absolute history written by the worker followed by what is still queued, and the worker's
  absolute frame counter is the length of that history.
\<close>

theorem capture_pipeline_lossless:
  assumes "cap_reach fp c y"
  shows "cy_pushed y = cy_hist y @ concat (queue_items (rt_queue (cy_rt y))) \<and>
         length (cy_hist y) = w_absolute_head (rt_worker (cy_rt y)) * rc_channels c \<and>
         w_written_frames (rt_worker (cy_rt y)) = w_absolute_head (rt_worker (cy_rt y))"
  using cap_reach_inv[OF assms] by (auto simp: cap_inv_def Let_def worker_inv_def)

theorem capture_pipeline_lossless_witness:
  "[1, 2, 3, 4, 5, 6] = [] @ concat (queue_items demo_q1)"
  using capture_pipeline_lossless[OF demo_cap1] by simp

text \<open>
  (C28) A frozen epoch is an exact and stable export source: as long as its descriptor is
  outstanding, whatever is captured, cleared or queried meanwhile, copying any sub-range of its
  absolute range returns exactly those frames of the absolute history.
\<close>

theorem frozen_epoch_exact:
  assumes reach: "cap_reach fp c y" and d: "cy_desc y = Some d"
    and lo: "fst (fd_absolute_range d) \<le> s" and se: "s \<le> e" and hi: "e \<le> snd (fd_absolute_range d)"
    and dest: "length dest = n * rc_channels c" "s + n < u64_lim" "length dest < u64_lim"
  shows "frozen_copy (rt_worker (cy_rt y)) (frozen_epoch_from_descriptor rid d) s e dest =
     (blit dest 0 (take (min (e - s) n * rc_channels c) (drop (s * rc_channels c) (cy_hist y))), Inr (min (e - s) n))"
  using cap_reach_inv[OF reach] d frozen_copy_exact[OF _ _ lo se hi dest, of "rt_worker (cy_rt y)" "cy_hist y" rid]
  by (auto simp: cap_inv_def Let_def)

theorem frozen_epoch_exact_witness:
  "\<exists>rt d. cap_reach demo_fp demo_cfg
    \<lparr>cy_rt = rt, cy_hist = [1, 2, 3, 4, 5, 6], cy_pushed = [1, 2, 3, 4, 5, 6], cy_desc = Some d\<rparr> \<and>
    frozen_copy (rt_worker rt) (frozen_epoch_from_descriptor 0 d) 1 3 [0, 0, 0, 0] = ([3, 4, 5, 6], Inr 2)"
proof -
  obtain rt d where r: "cap_reach demo_fp demo_cfg
    \<lparr>cy_rt = rt, cy_hist = [1, 2, 3, 4, 5, 6], cy_pushed = [1, 2, 3, 4, 5, 6], cy_desc = Some d\<rparr>"
    and d: "fd_absolute_range d = (0, 3)" using demo_cap3 by blast
  have ch: "rc_channels demo_cfg = 2" by (simp add: demo_cfg_def)
  have "frozen_copy (rt_worker rt) (frozen_epoch_from_descriptor 0 d) 1 3 [0, 0, 0, 0] = ([3, 4, 5, 6], Inr 2)"
    using frozen_epoch_exact[OF r, of d 1 3 "[0, 0, 0, 0]" 2 0] d ch by (simp add: u64_lim_def blit_def)
  with r show ?thesis by blast
qed

text \<open>
  (C29) Freezing hands over without a gap.  With no epoch frozen, a freeze succeeds; the range
  it returns ends at the absolute head, starts at the committed frame or, if that is no longer
  retained, at the oldest retained one, and is absent exactly when there is nothing new; the
  next active epoch starts where the range ends, and the history is untouched.
\<close>

theorem freeze_hands_over:
  assumes reach: "cap_reach fp c y" and none: "cy_desc y = None"
    and gen: "w_next_generation (rt_worker (cy_rt y)) + 1 < u64_lim"
    and range: "active_absolute_range (rt_worker (cy_rt y)) = Inr (oldest, head)"
    and start: "start = max (case committed of None \<Rightarrow> oldest | Some k \<Rightarrow> k) oldest"
  shows "\<exists>w' d. freeze committed (rt_worker (cy_rt y)) = (w', Inr d) \<and> worker_inv c w' (cy_hist y) \<and>
           head = w_absolute_head (rt_worker (cy_rt y)) \<and>
           w_absolute_head w' = head \<and> w_bases w' ! w_active w' = head \<and>
           (if start < head then \<exists>x. d = Some x \<and> fd_absolute_range x = (start, head) else d = None)"
proof -
  let ?w = "rt_worker (cy_rt y)"
  have inv: "worker_inv c ?w (cy_hist y)" and nf: "w_frozen ?w = None"
    using cap_reach_inv[OF reach] none by (auto simp: cap_inv_def Let_def)
  have r: "oldest = w_bases ?w ! w_active ?w + oldest_frame (w_epochs ?w ! w_active ?w)"
    "head = w_bases ?w ! w_active ?w + write_head_frame (w_epochs ?w ! w_active ?w)"
    using range by (auto simp: active_absolute_range_def bindR_Inr_iff)
  from freeze_ok[OF inv nf gen refl, of committed] worker_inv_head[OF inv] r start show ?thesis
    by (auto split: if_splits)
qed

theorem freeze_hands_over_witness:
  "\<exists>w' d. freeze (Some 1) demo_w1 = (w', Inr (Some d)) \<and> fd_absolute_range d = (1, 3)"
proof -
  have w: "w_next_generation demo_w1 + 1 < u64_lim" "active_absolute_range demo_w1 = Inr (0, 3)"
    using demo_old by (simp_all add: demo_w1_def demo_w0_def worker_new_def u64_lim_def active_absolute_range_def
        checked_add64_def)
  have "\<exists>w' d. freeze (Some 1) demo_w1 = (w', Inr d) \<and> worker_inv demo_cfg w' [1, 2, 3, 4, 5, 6] \<and>
           (3::nat) = w_absolute_head demo_w1 \<and> w_absolute_head w' = 3 \<and> w_bases w' ! w_active w' = 3 \<and>
           (if 1 < (3::nat) then \<exists>x. d = Some x \<and> fd_absolute_range x = (1, 3) else d = None)"
    using freeze_hands_over[OF demo_cap2, of 0 3 1 "Some 1"] w by simp
  then show ?thesis by auto
qed

text \<open>What a clear reports and leaves behind.\<close>

lemma worker_clear_split:
  assumes wi: "worker_inv c w hist" and run: "worker_clear ingress_dropped acc w = (w', Inr rep)"
  shows "\<exists>start \<le> w_absolute_head w. active_absolute_range w = Inr (start, w_absolute_head w) \<and>
           rep_active_absolute_range rep = (start, w_absolute_head w) \<and>
           rep_pending_retention_lost_frames rep = acc_pending_retention_lost_frames acc + (start - acc_expected_active_start acc) \<and>
           rep_pending_cleared_frames rep =
             acc_pending_cleared_frames acc + (w_absolute_head w - max (acc_expected_active_start acc) start) \<and>
           active_absolute_range w' = Inr (w_absolute_head w, w_absolute_head w) \<and> w_absolute_head w' = w_absolute_head w"
proof -
  let ?a = "w_active w" and ?b = "w_bases w ! w_active w" and ?r = "w_epochs w ! w_active w"
  have hd: "?b + write_head_frame ?r = w_absolute_head w" by (rule worker_inv_head[OF wi])
  have ok: "epoch_ok ?r (drop (?b * rc_channels c) hist)" and a: "?a < length (w_epochs w)"
    and H: "w_absolute_head w < u64_lim" using wi by (auto simp: worker_inv_def)
  have old: "oldest_frame ?r \<le> write_head_frame ?r" by (rule epoch.oldest_le_head[OF ok])
  obtain r where cl: "ring_clear ?r = (r, Inr ())" "oldest_frame r = write_head_frame ?r"
    using epoch.clear_ok[OF ok] by blast
  have hr: "write_head_frame r = write_head_frame ?r" using cl(1) by (auto simp: ring_clear_def write_head_frame_def)
  have w': "w' = w\<lparr>w_epochs := (w_epochs w)[?a := r]\<rparr>"
    using run cl(1) by (auto simp: worker_clear_def split: sum.splits)
  have rep: "rep_pending_retention_lost_frames rep = acc_pending_retention_lost_frames acc + (?b + oldest_frame ?r - acc_expected_active_start acc)"
    "rep_pending_cleared_frames rep = acc_pending_cleared_frames acc +
       (w_absolute_head w - max (acc_expected_active_start acc) (?b + oldest_frame ?r))"
    "rep_active_absolute_range rep = (?b + oldest_frame ?r, w_absolute_head w)"
    using run hd by (auto simp: worker_clear_def active_absolute_range_def bindR_Inr_iff Let_def saturating_sub64_def
        split: sum.splits)
  have "active_absolute_range w' = Inr (w_absolute_head w, w_absolute_head w)"
    using a cl(2) hr hd H by (simp add: w' active_absolute_range_def checked_add64_def)
  moreover have "active_absolute_range w = Inr (?b + oldest_frame ?r, w_absolute_head w)"
    using hd old H by (simp add: active_absolute_range_def checked_add64_def)
  ultimately show ?thesis using rep hd old by (intro exI[of _ "?b + oldest_frame ?r"]) (simp add: w')
qed

lemma worker_clear_accounts:
  assumes "worker_inv c w hist" and "worker_clear ingress_dropped acc w = (w', Inr rep)"
    and "acc_expected_active_start acc \<le> w_absolute_head w"
  shows "rep_pending_retention_lost_frames rep + rep_pending_cleared_frames rep =
           acc_pending_retention_lost_frames acc + acc_pending_cleared_frames acc +
           (w_absolute_head w - acc_expected_active_start acc) \<and>
         snd (rep_active_absolute_range rep) = w_absolute_head w \<and>
         active_absolute_range w' = Inr (w_absolute_head w, w_absolute_head w)"
  using worker_clear_split[OF assms(1,2)] assms(3) by auto

text \<open>
  (C30) A clear accounts for every pending frame.  The active range runs from the oldest frame
  still retained to the absolute head and is reported as it was.  The frames from the expected
  start up to the oldest retained one are added to those lost to retention, the frames from the
  later of the two up to the head to those cleared, so together all frames from the expected
  start to the head; afterwards the active range is empty and the head is where it was.
\<close>

theorem clear_accounts_for_every_frame:
  assumes "worker_inv c w hist" and run: "worker_clear ingress_dropped acc w = (w', Inr rep)"
    and le: "acc_expected_active_start acc \<le> w_absolute_head w"
  shows "rep_pending_retention_lost_frames rep + rep_pending_cleared_frames rep =
           acc_pending_retention_lost_frames acc + acc_pending_cleared_frames acc +
           (w_absolute_head w - acc_expected_active_start acc) \<and>
         (\<exists>start \<le> w_absolute_head w. active_absolute_range w = Inr (start, w_absolute_head w) \<and>
           rep_active_absolute_range rep = (start, w_absolute_head w) \<and>
           rep_pending_retention_lost_frames rep = acc_pending_retention_lost_frames acc + (start - acc_expected_active_start acc) \<and>
           rep_pending_cleared_frames rep =
             acc_pending_cleared_frames acc + (w_absolute_head w - max (acc_expected_active_start acc) start)) \<and>
         active_absolute_range w' = Inr (w_absolute_head w, w_absolute_head w) \<and> w_absolute_head w' = w_absolute_head w"
  using worker_clear_split[OF assms(1,2)] worker_clear_accounts[OF assms] by blast

theorem clear_accounts_for_every_frame_witness:
  "\<exists>w' rep. worker_clear 0 \<lparr>acc_arena_runtime_id = 1, acc_coordinator_id = 1, acc_clear_id = 1, acc_expected_active_start = 1,
       acc_pending_retention_lost_frames = 4, acc_pending_cleared_frames = 5\<rparr> demo_w1 = (w', Inr rep) \<and>
     rep_pending_retention_lost_frames rep = 4 \<and> rep_pending_cleared_frames rep = 7 \<and> rep_active_absolute_range rep = (0, 3)"
proof -
  let ?acc = "\<lparr>acc_arena_runtime_id = 1, acc_coordinator_id = 1, acc_clear_id = 1, acc_expected_active_start = 1,
       acc_pending_retention_lost_frames = 4, acc_pending_cleared_frames = 5\<rparr>"
  have w: "active_absolute_range demo_w1 = Inr (0, 3)" "w_dropped_frames demo_w1 = 0" "w_absolute_head demo_w1 = 3"
    using demo_old by (simp_all add: demo_w1_def demo_w0_def worker_new_def u64_lim_def active_absolute_range_def
        checked_add64_def)
  then obtain w' rep where run: "worker_clear 0 ?acc demo_w1 = (w', Inr rep)"
    by (simp add: worker_clear_def checked_add64_def u64_lim_def saturating_sub64_def Let_def)
  from clear_accounts_for_every_frame[OF demo_w1_inv run] w show ?thesis
    by (intro exI[of _ w'] exI[of _ rep]) (use run in simp)
qed

end
