(* ===== verification/Calibration_Theorems.thy ===== *)
theory Calibration_Theorems
  imports Calibration_Slot
begin

text \<open>
  The calibration slot as a system of one client, the worker and any number of cancellers.
\<close>

datatype client_phase = Outside | Preparing | Waiting | Leased

record cal_sys =
  kc_slot :: calibration_slot
  kc_capture :: "calibration_capture option"
  kc_phase :: client_phase
  kc_exited :: bool

inductive cal_step :: "fp_ops \<Rightarrow> cal_sys \<Rightarrow> cal_sys \<Rightarrow> bool" for fp where
  kc_begin: "\<lbrakk>kc_phase y = Outside; cal_begin_claim (kc_slot y) = (s', Inr u)\<rbrakk> \<Longrightarrow>
    cal_step fp y (y\<lparr>kc_slot := s', kc_phase := Preparing\<rparr>)"
| kc_publish: "\<lbrakk>kc_phase y = Preparing; cal_begin_publish request (kc_slot y) = (s', res)\<rbrakk> \<Longrightarrow>
    cal_step fp y (y\<lparr>kc_slot := s', kc_phase := (if is_ok res then Waiting else Outside)\<rparr>)"
| kc_turn: "\<lbrakk>kc_phase y = Waiting; calibrate_turn abort late (kc_exited y) (kc_slot y) = (s', out)\<rbrakk> \<Longrightarrow>
    cal_step fp y (y\<lparr>kc_slot := s', kc_phase :=
      (case out of None \<Rightarrow> Waiting | Some res \<Rightarrow> if is_ok res then Leased else Outside)\<rparr>)"
| kc_cancel: "cal_step fp y (y\<lparr>kc_slot := fst (cal_cancel (kc_slot y))\<rparr>)"
| kc_return: "\<lbrakk>kc_phase y = Leased\<rbrakk> \<Longrightarrow> cal_step fp y (y\<lparr>kc_slot := lease_drop (kc_slot y), kc_phase := Outside\<rparr>)"
| kc_accept: "\<lbrakk>\<not> kc_exited y; cal_take_ready (kc_slot y) = Some (s', request)\<rbrakk> \<Longrightarrow>
    cal_step fp y (y\<lparr>kc_slot := s', kc_capture := Some (new_capture request first dropped)\<rparr>)"
| kc_copy: "\<lbrakk>\<not> kc_exited y;
      copy_calibration_samples fp cum rate channels samples frames sq (kc_capture y) (kc_slot y) = Inr (cap, s')\<rbrakk> \<Longrightarrow>
    cal_step fp y (y\<lparr>kc_slot := s', kc_capture := cap\<rparr>)"
| kc_ack: "\<lbrakk>\<not> kc_exited y; cal_state (kc_slot y) = CalCancelled\<rbrakk> \<Longrightarrow>
    cal_step fp y (y\<lparr>kc_slot := cal_acknowledge_cancel (kc_slot y), kc_capture := None\<rparr>)"
| kc_fail: "\<lbrakk>\<not> kc_exited y\<rbrakk> \<Longrightarrow> cal_step fp y (y\<lparr>kc_slot := cal_fail (kc_slot y), kc_capture := None\<rparr>)"
| kc_exit: "cal_step fp y (y\<lparr>kc_capture := None, kc_exited := True\<rparr>)"

definition cal_inv :: "cal_sys \<Rightarrow> bool" where
  "cal_inv y \<longleftrightarrow>
     (let st = cal_state (kc_slot y) in
      (case kc_phase y of
         Outside \<Rightarrow> st \<in> {CalIdle, CalCancelled}
       | Preparing \<Rightarrow> st \<in> {CalPreparing, CalCancelled, CalIdle} \<and> kc_capture y = None
       | Waiting \<Rightarrow> st \<in> {CalReady, CalCapturing, CalCancelled, CalComplete, CalFailed, CalIdle}
       | Leased \<Rightarrow> st = CalLeased) \<and>
      (kc_capture y \<noteq> None \<longrightarrow> st \<in> {CalCapturing, CalCancelled}) \<and>
      (kc_exited y \<longrightarrow> kc_capture y = None) \<and>
      (st = CalReady \<longrightarrow> cal_request (kc_slot y) \<noteq> None))"

lemma accumulate_state:
  "accumulate fp x a (cap, s) = Inr (cap', s') \<Longrightarrow>
     cal_state s' = cal_state s \<and> cal_request s' = cal_request s \<and> cal_hop_frames s' = cal_hop_frames s \<and>
     cal_window_frames s' = cal_window_frames s \<and> cc_request cap' = cc_request cap \<and> cc_copied cap' = cc_copied cap \<and>
     cal_samples s' = cal_samples s"
  by (auto simp: accumulate_def Let_def split: if_splits)

lemma copy_frame_state:
  assumes "copy_frame fp x (cap, s) = Inr (cap', s')"
  shows "cal_state s' = cal_state s \<and> cal_request s' = cal_request s \<and> cc_request cap' = cc_request cap \<and>
     cc_copied cap' = cc_copied cap + 1 \<and> cc_copied cap < length (cal_samples s) \<and>
     cal_samples s' = (cal_samples s)[cc_copied cap := x]"
proof -
  let ?cap1 = "if f32_is_finite x then cap else cap\<lparr>cc_invalid := True\<rparr>"
  have ow: "cc_copied (open_window h p) = cc_copied p \<and> cc_request (open_window h p) = cc_request p" for h p
    by (simp add: open_window_def Let_def)
  obtain c1 s1 c2 where "accumulate fp x 0 (open_window (cal_hop_frames s) ?cap1, s\<lparr>cal_samples := (cal_samples s)[cc_copied cap := x]\<rparr>) = Inr (c1, s1)"
    "accumulate fp x 1 (c1, s1) = Inr (c2, s')" "cap' = c2\<lparr>cc_copied := cc_copied c2 + 1\<rparr>"
    "cc_copied cap < length (cal_samples s)"
    using assms by (auto simp: copy_frame_def Let_def bindR_Inr_iff split: if_splits)
  with accumulate_state[of fp x 0] accumulate_state[of fp x 1] ow show ?thesis by fastforce
qed

lemma copy_frames_state:
  "copy_frames fp xs (cap, s) = Inr (cap', s') \<Longrightarrow>
     cal_state s' = cal_state s \<and> cal_request s' = cal_request s \<and> cc_request cap' = cc_request cap"
proof (induction xs arbitrary: cap s)
  case (Cons x xs)
  then show ?case
    by (auto simp: bindR_Inr_iff split: if_splits dest!: copy_frame_state)
qed simp

lemma finish_calibration_state:
  "cal_state (finish_calibration cum rate cap s) =
     (case cal_state s of CalCapturing \<Rightarrow> CalComplete | CalCancelled \<Rightarrow> CalIdle | st \<Rightarrow> st)"
  "cal_request (finish_calibration cum rate cap s) = cal_request s"
  by (auto simp: finish_calibration_def Let_def split: calibration_state.splits)

lemma copy_calibration_state:
  assumes "copy_calibration_samples fp cum rate channels samples frames sq capture s = Inr (cap', s')"
  shows "cal_request s' = cal_request s \<and>
     (capture = None \<longrightarrow> cap' = None \<and> s' = s) \<and>
     (cal_state s = CalCapturing \<longrightarrow> (cal_state s' = CalCapturing \<or> cap' = None \<and> cal_state s' = CalComplete)) \<and>
     (cal_state s = CalCancelled \<longrightarrow> capture \<noteq> None \<longrightarrow> cap' = None \<and> cal_state s' = CalIdle)"
proof (cases capture)
  case (Some cap)
  show ?thesis
  proof (cases "cal_state s = CalCancelled \<or> sq < cc_first_sequence cap")
    case True
    with assms Some show ?thesis by (auto simp: copy_calibration_samples_def cal_acknowledge_cancel_def split: if_splits)
  next
    case False
    obtain c1 s1 where cf: "copy_frames fp (channel_samples channels (cr_channel (cc_request cap)) frames samples) (cap, s) = Inr (c1, s1)"
      and out: "(cap', s') = (if cc_copied c1 = cr_frames (cc_request c1)
                      then (None, finish_calibration cum rate c1 s1) else (Some c1, s1))"
      using assms Some False by (auto simp: copy_calibration_samples_def bindR_Inr_iff split: if_splits)
    from copy_frames_state[OF cf] out False show ?thesis
      by (auto simp: finish_calibration_state Some split: if_splits)
  qed
qed (use assms in \<open>auto simp: copy_calibration_samples_def\<close>)

lemma cal_inv_step: "cal_step fp y y' \<Longrightarrow> cal_inv y \<Longrightarrow> cal_inv y'"
proof (induction rule: cal_step.induct)
  case (kc_begin y s' u)
  then show ?case by (auto simp: cal_inv_def Let_def cal_begin_claim_def split: if_splits)
next
  case (kc_publish y request s' res)
  then show ?case
    by (auto simp: cal_inv_def Let_def cal_begin_publish_def split: if_splits calibration_state.splits)
next
  case (kc_turn y abort late s' out)
  then show ?case
    by (auto simp: cal_inv_def Let_def calibrate_turn_def cal_cancel_def split: if_splits calibration_state.splits)
next
  case (kc_cancel y)
  then show ?case
    by (auto simp: cal_inv_def Let_def cal_cancel_def split: client_phase.splits calibration_state.splits)
next
  case (kc_return y)
  then show ?case by (auto simp: cal_inv_def Let_def lease_drop_def)
next
  case (kc_accept y s' request first dropped)
  then show ?case
    by (auto simp: cal_inv_def Let_def cal_take_ready_def split: if_splits client_phase.splits)
next
  case (kc_copy y cum rate channels samples frames sq cap s')
  from copy_calibration_state[OF kc_copy(2)] kc_copy(3) show ?case
    by (cases "kc_capture y") (auto simp: cal_inv_def Let_def split: client_phase.splits)
next
  case (kc_ack y)
  then show ?case
    by (auto simp: cal_inv_def Let_def cal_acknowledge_cancel_def split: client_phase.splits)
next
  case (kc_fail y)
  then show ?case
    by (auto simp: cal_inv_def Let_def cal_fail_def split: client_phase.splits calibration_state.splits)
next
  case (kc_exit y)
  then show ?case by (auto simp: cal_inv_def Let_def split: client_phase.splits)
qed

lemma cal_inv_reach: "(cal_step fp)\<^sup>*\<^sup>* y y' \<Longrightarrow> cal_inv y \<Longrightarrow> cal_inv y'"
  by (induction rule: rtranclp_induct) (auto intro: cal_inv_step)

text \<open>
  (C31) The lease on the calibration buffers is exclusive.  In every interleaving of a client,
  the worker and cancellers that starts with an idle slot, the client holds the lease exactly
  when the slot says so, and then the worker has no capture under way: whatever it consumes,
  copying leaves the slot and its buffers as they are.
\<close>

theorem calibration_lease_exclusive:
  assumes "(cal_step fp)\<^sup>*\<^sup>* \<lparr>kc_slot = s, kc_capture = None, kc_phase = Outside, kc_exited = False\<rparr> y"
    and "cal_state s = CalIdle"
  shows "(kc_phase y = Leased \<longleftrightarrow> cal_state (kc_slot y) = CalLeased) \<and>
         (kc_phase y = Leased \<longrightarrow>
            copy_calibration_samples fp cum rate channels samples frames sq (kc_capture y) (kc_slot y) = Inr (None, kc_slot y))"
proof -
  have "cal_inv y"
    by (rule cal_inv_reach[OF assms(1)]) (simp add: cal_inv_def assms(2))
  then show ?thesis
    by (cases "kc_capture y")
       (auto simp: cal_inv_def Let_def copy_calibration_samples_def split: client_phase.splits)
qed

definition demo_slot :: calibration_slot where
  "demo_slot = \<lparr>cal_state = CalIdle, cal_request = None,
     cal_metadata = \<lparr>cm_frames = 0, cm_sample_rate = 0, cm_complete_windows = 0, cm_partial_final_frames = 0,
                     cm_dropped_frames = 0, cm_usable = False\<rparr>,
     cal_samples = [0], cal_rms = [0], cal_peak = [0], cal_window_frames = 1, cal_hop_frames = 1\<rparr>"

definition demo_ops :: fp_ops where
  "demo_ops = \<lparr>fp_of_f32 = ucast, fp_mul = (\<lambda>x y. x * y), fp_add = (\<lambda>x y. x + y), fp_div = (\<lambda>x y. x),
     fp_of_u64 = of_nat, fp_sqrt = (\<lambda>x. x), fp_to_f32 = ucast, fp_max32 = max\<rparr>"

theorem calibration_lease_exclusive_witness:
  "\<exists>y. (cal_step demo_ops)\<^sup>*\<^sup>* \<lparr>kc_slot = demo_slot, kc_capture = None, kc_phase = Outside, kc_exited = False\<rparr> y \<and>
       kc_phase y = Leased \<and> cal_state (kc_slot y) = CalLeased \<and>
       copy_calibration_samples demo_ops 0 48000 1 [5] 1 0 (kc_capture y) (kc_slot y) = Inr (None, kc_slot y)"
proof -
  let ?r = "\<lparr>cr_channel = 0, cr_frames = 1\<rparr>"
  let ?mk = "\<lambda>st rq cap ph. \<lparr>kc_slot = demo_slot\<lparr>cal_state := st, cal_request := rq\<rparr>, kc_capture = cap, kc_phase = ph, kc_exited = False\<rparr>"
  let ?v0 = "\<lparr>kc_slot = demo_slot, kc_capture = None, kc_phase = Outside, kc_exited = False\<rparr>"
  have s1: "cal_step demo_ops ?v0 (?mk CalPreparing None None Preparing)"
    using kc_begin[of ?v0 "demo_slot\<lparr>cal_state := CalPreparing\<rparr>" "()" demo_ops]
    by (simp add: cal_begin_claim_def demo_slot_def)
  have s2: "cal_step demo_ops (?mk CalPreparing None None Preparing) (?mk CalReady (Some ?r) None Waiting)"
    using kc_publish[of "?mk CalPreparing None None Preparing" ?r "demo_slot\<lparr>cal_state := CalReady, cal_request := Some ?r\<rparr>" "Inr ()" demo_ops]
    by (simp add: cal_begin_publish_def Let_def demo_slot_def)
  have s3: "cal_step demo_ops (?mk CalReady (Some ?r) None Waiting) (?mk CalCapturing (Some ?r) (Some (new_capture ?r 0 0)) Waiting)"
    using kc_accept[of "?mk CalReady (Some ?r) None Waiting" "demo_slot\<lparr>cal_state := CalCapturing, cal_request := Some ?r\<rparr>" ?r demo_ops 0 0]
    by (simp add: cal_take_ready_def demo_slot_def)
  let ?run = "copy_calibration_samples demo_ops 0 48000 1 [7] 1 0 (Some (new_capture ?r 0 0))
      (demo_slot\<lparr>cal_state := CalCapturing, cal_request := Some ?r\<rparr>)"
  have "case ?run of Inr (None, s4) \<Rightarrow> cal_state s4 = CalComplete | _ \<Rightarrow> False"
    by (simp add: copy_calibration_samples_def new_capture_def demo_slot_def channel_samples_def copy_frame_def
        open_window_def accumulate_def Let_def finish_calibration_def)
  then obtain s4 where cp: "?run = Inr (None, s4)" and st4: "cal_state s4 = CalComplete"
    by (auto split: sum.splits option.splits)
  let ?v4 = "\<lparr>kc_slot = s4, kc_capture = None, kc_phase = Waiting, kc_exited = False\<rparr>"
  have s4: "cal_step demo_ops (?mk CalCapturing (Some ?r) (Some (new_capture ?r 0 0)) Waiting) ?v4"
    using kc_copy[of "?mk CalCapturing (Some ?r) (Some (new_capture ?r 0 0)) Waiting" demo_ops 0 48000 1 "[7]" 1 0 None s4] cp by simp
  let ?v5 = "\<lparr>kc_slot = s4\<lparr>cal_state := CalLeased\<rparr>, kc_capture = None, kc_phase = Leased, kc_exited = False\<rparr>"
  have s5: "cal_step demo_ops ?v4 ?v5"
    using kc_turn[of ?v4 False False "s4\<lparr>cal_state := CalLeased\<rparr>" "Some (Inr (cal_metadata s4))" demo_ops] st4
    by (simp add: calibrate_turn_def)
  have run: "(cal_step demo_ops)\<^sup>*\<^sup>* ?v0 ?v5"
    using s1 s2 s3 s4 s5 by (meson converse_rtranclp_into_rtranclp rtranclp.rtrancl_refl)
  have "cal_state demo_slot = CalIdle" by (simp add: demo_slot_def)
  from calibration_lease_exclusive[OF run this, of 0 48000 1 "[5]" 1 0] run show ?thesis
    by (intro exI[of _ ?v5]) simp
qed

end
