(* ===== verification/Operation_Lane.thy ===== *)
theory Operation_Lane
  imports Bounded_Fifo Errors
begin

text \<open>
  The operation lane of the control server (\<open>src/control_server.rs\<close>): a bounded queue of
  jobs behind a mutex, a condition variable and an atomic flag that closes admission.  The
  sequential operations come first and provide the \<open>bounded_fifo\<close> interface.  The second
  part is the lane under its threads: producers that enqueue, the one worker of
  \<open>spawn_operation_worker\<close>, and the thread that closes the lane and joins the worker, with
  one step per atomic action of the source.  A poisoned mutex is entered anyway
  (\<open>into_inner\<close>), so poisoning has no effect on the lane.
\<close>

section \<open>The lane\<close>

datatype enqueue_error = Full | Closed

record 'a lane =
  lane_queue :: "'a list"
  lane_capacity :: nat
  lane_closed :: bool

definition lane_new :: "nat \<Rightarrow> 'a lane result" where
  "lane_new capacity =
     (if capacity = 0 then Inl (Control ''operation lane capacity must be greater than zero'')
      else Inr \<lparr>lane_queue = [], lane_capacity = capacity, lane_closed = False\<rparr>)"

definition try_enqueue :: "'a \<Rightarrow> 'a lane \<Rightarrow> 'a lane \<times> (enqueue_error \<times> 'a + unit)" where
  "try_enqueue job l =
     (if lane_closed l then (l, Inl (Closed, job))
      else if lane_capacity l \<le> length (lane_queue l) then (l, Inl (Full, job))
      else (l\<lparr>lane_queue := lane_queue l @ [job]\<rparr>, Inr ()))"

definition pop_front :: "'a lane \<Rightarrow> ('a \<times> 'a lane) option" where
  "pop_front l = (case lane_queue l of [] \<Rightarrow> None | job # rest \<Rightarrow> Some (job, l\<lparr>lane_queue := rest\<rparr>))"

text \<open>One turn of the loop of \<open>pop\<close>, the lock held: a result, or \<open>None\<close> to wait.\<close>

definition pop_turn :: "'a lane \<Rightarrow> ('a option \<times> 'a lane) option" where
  "pop_turn l =
     (case pop_front l of
        Some (job, l') \<Rightarrow> Some (Some job, l')
      | None \<Rightarrow> if lane_closed l then Some (None, l) else None)"

definition lane_close :: "'a lane \<Rightarrow> 'a lane" where
  "lane_close l = l\<lparr>lane_closed := True\<rparr>"

definition lane_inv :: "'a lane \<Rightarrow> bool" where
  "lane_inv l \<longleftrightarrow> length (lane_queue l) \<le> lane_capacity l"

definition lane_push :: "'a \<Rightarrow> 'a lane \<Rightarrow> 'a lane option" where
  "lane_push job l = (case try_enqueue job l of (l', Inr _) \<Rightarrow> Some l' | (_, Inl _) \<Rightarrow> None)"

lemmas lane_defs = lane_inv_def lane_push_def try_enqueue_def pop_front_def

interpretation lane: bounded_fifo lane_inv lane_queue lane_capacity "\<lambda>l job. True" lane_push pop_front
  by unfold_locales (auto simp: lane_defs split: if_splits list.splits)

section \<open>The lane under its threads\<close>

text \<open>
  Where the worker is: outside \<open>pop\<close> or woken and asking for the mutex; in the loop with the
  mutex (about to take the front, about to load the closed flag, about to wait); parked on the
  condition variable with the mutex released; with a job, before its \<open>is_closed\<close> test; or
  returned.
\<close>

datatype 'a worker_pc = WantLock | Scan | LoadClosed | GoWait | Parked | Got 'a | Exited

datatype closer_pc = ToStore | ToNotify | Joining

record 'a lane_sys =
  ls_lane :: "'a lane"
  ls_worker :: "'a worker_pc"
  ls_closer :: closer_pc
  ls_accepted :: "'a list"
  ls_handled :: "'a list"
  ls_cancelled :: "'a list"

definition wake :: "'a worker_pc \<Rightarrow> 'a worker_pc" where
  "wake pc = (if pc = Parked then WantLock else pc)"

definition holds_lock :: "'a worker_pc \<Rightarrow> bool" where
  "holds_lock pc \<longleftrightarrow> pc = Scan \<or> pc = LoadClosed \<or> pc = GoWait"

text \<open>The parameter says whether the condition variable may wake its waiter without cause.\<close>

inductive lane_step :: "bool \<Rightarrow> 'a lane_sys \<Rightarrow> 'a lane_sys \<Rightarrow> bool" for spurious where
  ln_enqueue: "\<lbrakk>\<not> holds_lock (ls_worker y); try_enqueue job (ls_lane y) = (l', Inr u)\<rbrakk> \<Longrightarrow>
    lane_step spurious y (y\<lparr>ls_lane := l', ls_worker := wake (ls_worker y), ls_accepted := ls_accepted y @ [job]\<rparr>)"
| ln_refuse: "\<lbrakk>\<not> holds_lock (ls_worker y); try_enqueue job (ls_lane y) = (l', Inl e)\<rbrakk> \<Longrightarrow>
    lane_step spurious y (y\<lparr>ls_lane := l'\<rparr>)"
| ln_lock: "ls_worker y = WantLock \<Longrightarrow> lane_step spurious y (y\<lparr>ls_worker := Scan\<rparr>)"
| ln_take: "\<lbrakk>ls_worker y = Scan; pop_front (ls_lane y) = Some (job, l')\<rbrakk> \<Longrightarrow>
    lane_step spurious y (y\<lparr>ls_lane := l', ls_worker := Got job\<rparr>)"
| ln_empty: "\<lbrakk>ls_worker y = Scan; pop_front (ls_lane y) = None\<rbrakk> \<Longrightarrow>
    lane_step spurious y (y\<lparr>ls_worker := LoadClosed\<rparr>)"
| ln_load: "ls_worker y = LoadClosed \<Longrightarrow>
    lane_step spurious y (y\<lparr>ls_worker := (if lane_closed (ls_lane y) then Exited else GoWait)\<rparr>)"
| ln_wait: "ls_worker y = GoWait \<Longrightarrow> lane_step spurious y (y\<lparr>ls_worker := Parked\<rparr>)"
| ln_spurious: "\<lbrakk>spurious; ls_worker y = Parked\<rbrakk> \<Longrightarrow> lane_step spurious y (y\<lparr>ls_worker := WantLock\<rparr>)"
| ln_job: "ls_worker y = Got job \<Longrightarrow>
    lane_step spurious y
      (if lane_closed (ls_lane y) then y\<lparr>ls_worker := WantLock, ls_cancelled := ls_cancelled y @ [job]\<rparr>
       else y\<lparr>ls_worker := WantLock, ls_handled := ls_handled y @ [job]\<rparr>)"
| ln_store: "ls_closer y = ToStore \<Longrightarrow>
    lane_step spurious y (y\<lparr>ls_lane := lane_close (ls_lane y), ls_closer := ToNotify\<rparr>)"
| ln_notify: "ls_closer y = ToNotify \<Longrightarrow>
    lane_step spurious y (y\<lparr>ls_worker := wake (ls_worker y), ls_closer := Joining\<rparr>)"

definition lane_start :: "'a lane \<Rightarrow> 'a lane_sys" where
  "lane_start l = \<lparr>ls_lane = l, ls_worker = WantLock, ls_closer = ToStore,
     ls_accepted = [], ls_handled = [], ls_cancelled = []\<rparr>"

fun in_flight :: "'a worker_pc \<Rightarrow> 'a list" where
  "in_flight (Got job) = [job]"
| "in_flight _ = []"

definition lane_sys_inv :: "'a lane_sys \<Rightarrow> bool" where
  "lane_sys_inv y \<longleftrightarrow>
     lane_inv (ls_lane y) \<and>
     ls_handled y @ ls_cancelled y @ in_flight (ls_worker y) @ lane_queue (ls_lane y) = ls_accepted y \<and>
     (ls_cancelled y \<noteq> [] \<longrightarrow> lane_closed (ls_lane y)) \<and>
     (ls_worker y \<in> {LoadClosed, GoWait} \<longrightarrow> lane_queue (ls_lane y) = []) \<and>
     (ls_worker y = Parked \<longrightarrow> lane_queue (ls_lane y) = []) \<and>
     (ls_worker y = Exited \<longrightarrow> lane_closed (ls_lane y) \<and> lane_queue (ls_lane y) = [])"

lemma lane_sys_inv_step: "lane_step sp y y' \<Longrightarrow> lane_sys_inv y \<Longrightarrow> lane_sys_inv y'"
proof (induction rule: lane_step.induct)
  case (ln_enqueue y job l' u)
  then show ?case
    by (cases "ls_worker y") (auto simp: lane_sys_inv_def lane_defs holds_lock_def wake_def split: if_splits)
next
  case (ln_take y job l')
  then show ?case by (auto simp: lane_sys_inv_def lane_defs split: list.splits)
next
  case (ln_empty y)
  then show ?case by (auto simp: lane_sys_inv_def lane_defs split: list.splits)
next
  case (ln_notify y)
  then show ?case by (cases "ls_worker y") (auto simp: lane_sys_inv_def wake_def)
next
  case (ln_store y)
  then show ?case by (auto simp: lane_sys_inv_def lane_close_def lane_inv_def)
qed (auto simp: lane_sys_inv_def try_enqueue_def split: if_splits)

lemma lane_sys_inv_reach: "(lane_step sp)\<^sup>*\<^sup>* y y' \<Longrightarrow> lane_sys_inv y \<Longrightarrow> lane_sys_inv y'"
  by (induction rule: rtranclp_induct) (auto intro: lane_sys_inv_step)

lemma lane_new_inv: "lane_new capacity = Inr l \<Longrightarrow> lane_sys_inv (lane_start l)"
  by (auto simp: lane_new_def lane_start_def lane_sys_inv_def lane_inv_def split: if_splits)

text \<open>The worker's steps from the top of the loop of \<open>pop\<close> are one turn of it.\<close>

lemma pop_turn_steps:
  assumes "ls_worker y = Scan"
  shows "(lane_step sp)\<^sup>*\<^sup>* y
     (case pop_turn (ls_lane y) of
        Some (Some job, l') \<Rightarrow> y\<lparr>ls_lane := l', ls_worker := Got job\<rparr>
      | Some (None, l') \<Rightarrow> y\<lparr>ls_lane := l', ls_worker := Exited\<rparr>
      | None \<Rightarrow> y\<lparr>ls_worker := Parked\<rparr>)"
proof (cases "pop_front (ls_lane y)")
  case (Some p)
  then obtain job l' where "pop_front (ls_lane y) = Some (job, l')" by (cases p) simp
  with ln_take[OF assms this, of sp] show ?thesis by (simp add: pop_turn_def)
next
  case None
  let ?y1 = "y\<lparr>ls_worker := LoadClosed\<rparr>"
  have 1: "lane_step sp y ?y1" by (rule ln_empty[OF assms None])
  have 2: "lane_step sp ?y1 (y\<lparr>ls_worker := (if lane_closed (ls_lane y) then Exited else GoWait)\<rparr>)"
    using ln_load[of ?y1 sp] by simp
  have 3: "lane_step sp (y\<lparr>ls_worker := GoWait\<rparr>) (y\<lparr>ls_worker := Parked\<rparr>)"
    using ln_wait[of "y\<lparr>ls_worker := GoWait\<rparr>" sp] by simp
  have "y\<lparr>ls_lane := ls_lane y, ls_worker := Exited\<rparr> = y\<lparr>ls_worker := Exited\<rparr>" by simp
  with 1 2 3 None show ?thesis
    by (auto simp: pop_turn_def split: if_splits intro: converse_rtranclp_into_rtranclp)
qed

section \<open>Properties\<close>

text \<open>
  (C32) The lane delivers every admitted job once and in order.  In every interleaving of
  producers, the worker and the closing thread, with or without spurious wake-ups: the jobs the
  handler ran, then the jobs that were cancelled, then the one in the worker's hands, then the
  queue, are the admitted jobs in the order of admission; the queue never exceeds its capacity;
  a job is cancelled only after the lane was closed; and a worker that has returned has
  delivered every admitted job.
\<close>

theorem lane_delivers_once_in_order:
  assumes "lane_new capacity = Inr l" and "(lane_step sp)\<^sup>*\<^sup>* (lane_start l) y"
  shows "ls_handled y @ ls_cancelled y @ in_flight (ls_worker y) @ lane_queue (ls_lane y) = ls_accepted y \<and>
         length (lane_queue (ls_lane y)) \<le> lane_capacity (ls_lane y) \<and>
         (ls_cancelled y \<noteq> [] \<longrightarrow> lane_closed (ls_lane y)) \<and>
         (ls_worker y = Exited \<longrightarrow> ls_handled y @ ls_cancelled y = ls_accepted y)"
proof -
  from lane_sys_inv_reach[OF assms(2) lane_new_inv[OF assms(1)]]
  have inv: "lane_sys_inv y" .
  then show ?thesis by (auto simp: lane_sys_inv_def lane_inv_def)
qed

text \<open>The run of the witness: one job is admitted and taken, the lane closes, the job is cancelled.\<close>

definition demo_lane :: "nat lane" where
  "demo_lane = \<lparr>lane_queue = [], lane_capacity = 1, lane_closed = False\<rparr>"

definition demo_lane_end :: "nat lane_sys" where
  "demo_lane_end = \<lparr>ls_lane = \<lparr>lane_queue = [], lane_capacity = 1, lane_closed = True\<rparr>, ls_worker = WantLock,
     ls_closer = ToNotify, ls_accepted = [7], ls_handled = [], ls_cancelled = [7]\<rparr>"

lemma demo_lane_run: "(lane_step sp)\<^sup>*\<^sup>* (lane_start demo_lane) demo_lane_end"
proof -
  let ?y = "lane_start demo_lane"
  let ?y1 = "?y\<lparr>ls_lane := demo_lane\<lparr>lane_queue := [7]\<rparr>, ls_accepted := [7]\<rparr>"
  let ?y2 = "?y1\<lparr>ls_worker := Scan\<rparr>"
  let ?y3 = "?y2\<lparr>ls_lane := demo_lane, ls_worker := Got 7\<rparr>"
  let ?y4 = "?y3\<lparr>ls_lane := demo_lane\<lparr>lane_closed := True\<rparr>, ls_closer := ToNotify\<rparr>"
  have 1: "lane_step sp ?y ?y1"
    using ln_enqueue[of ?y 7 "demo_lane\<lparr>lane_queue := [7]\<rparr>" "()" sp]
    by (simp add: lane_start_def demo_lane_def try_enqueue_def holds_lock_def wake_def)
  have 2: "lane_step sp ?y1 ?y2"
    using ln_lock[of ?y1 sp] by (simp add: lane_start_def)
  have 3: "lane_step sp ?y2 ?y3"
    using ln_take[of ?y2 7 demo_lane sp] by (simp add: pop_front_def lane_start_def demo_lane_def)
  have 4: "lane_step sp ?y3 ?y4"
    using ln_store[of ?y3 sp] by (simp add: lane_close_def lane_start_def)
  have 5: "lane_step sp ?y4 demo_lane_end"
    using ln_job[of ?y4 7 sp] by (simp add: lane_start_def demo_lane_end_def demo_lane_def)
  from 1 2 3 4 5 show ?thesis
    by (meson converse_rtranclp_into_rtranclp rtranclp.rtrancl_refl)
qed

theorem lane_delivers_once_in_order_witness:
  "lane_new 1 = Inr demo_lane \<and> (lane_step False)\<^sup>*\<^sup>* (lane_start demo_lane) demo_lane_end \<and>
   ls_cancelled demo_lane_end \<noteq> [] \<and> lane_closed (ls_lane demo_lane_end)"
proof -
  have new: "lane_new 1 = Inr demo_lane"
    by (simp add: lane_new_def demo_lane_def)
  from lane_delivers_once_in_order[OF new demo_lane_run[of False]] new demo_lane_run[of False]
  show ?thesis by (simp add: demo_lane_end_def)
qed

text \<open>
  (C33) \<open>close\<close> stores the flag and notifies without taking the mutex, so a wake-up can be
  lost: when the worker has loaded the flag as open and is about to wait, both actions of
  \<open>close\<close> may come first.  The worker then parks on a closed, empty lane that nobody will
  notify again: every later enqueue is refused before it notifies, and without a spurious
  wake-up of the condition variable the worker stays parked in every continuation, so a thread
  that joins it (\<open>finish_idle_listener\<close>) does not return.
\<close>

theorem close_can_strand_worker:
  "\<exists>y. (lane_step False)\<^sup>*\<^sup>* (lane_start demo_lane) y \<and>
       lane_closed (ls_lane y) \<and> ls_closer y = Joining \<and> ls_worker y = Parked \<and>
       {z. (lane_step False)\<^sup>*\<^sup>* y z} \<subseteq> {z. ls_worker z = Parked}"
proof -
  let ?y = "lane_start demo_lane"
  let ?g = "?y\<lparr>ls_worker := GoWait\<rparr>"
  let ?c = "?g\<lparr>ls_lane := lane_close demo_lane, ls_closer := ToNotify\<rparr>"
  let ?p = "?c\<lparr>ls_worker := Parked, ls_closer := Joining\<rparr>"
  have "lane_step False ?y (?y\<lparr>ls_worker := Scan\<rparr>)"
    using ln_lock[of ?y False] by (simp add: lane_start_def)
  moreover have "lane_step False (?y\<lparr>ls_worker := Scan\<rparr>) (?y\<lparr>ls_worker := LoadClosed\<rparr>)"
    using ln_empty[of "?y\<lparr>ls_worker := Scan\<rparr>" False] by (simp add: pop_front_def lane_start_def demo_lane_def)
  moreover have "lane_step False (?y\<lparr>ls_worker := LoadClosed\<rparr>) ?g"
    using ln_load[of "?y\<lparr>ls_worker := LoadClosed\<rparr>" False] by (simp add: lane_start_def demo_lane_def)
  moreover have "lane_step False ?g ?c"
    using ln_store[of ?g False] by (simp add: lane_start_def)
  moreover have "lane_step False ?c (?c\<lparr>ls_closer := Joining\<rparr>)"
    using ln_notify[of ?c False] by (simp add: wake_def lane_start_def)
  moreover have "lane_step False (?c\<lparr>ls_closer := Joining\<rparr>) ?p"
    using ln_wait[of "?c\<lparr>ls_closer := Joining\<rparr>" False] by (simp add: lane_start_def)
  ultimately have run: "(lane_step False)\<^sup>*\<^sup>* ?y ?p"
    by (meson converse_rtranclp_into_rtranclp rtranclp.rtrancl_refl)
  define stuck :: "nat lane_sys \<Rightarrow> bool" where
    "stuck z \<longleftrightarrow> lane_closed (ls_lane z) \<and> ls_closer z = Joining \<and> ls_worker z = Parked" for z
  have step: "lane_step False z z' \<Longrightarrow> stuck z \<Longrightarrow> stuck z'" for z z'
    by (induction rule: lane_step.induct) (auto simp: stuck_def try_enqueue_def)
  have "(lane_step False)\<^sup>*\<^sup>* z z' \<Longrightarrow> stuck z \<Longrightarrow> stuck z'" for z z'
    by (induction rule: rtranclp_induct) (auto intro: step)
  moreover have "stuck ?p"
    by (simp add: stuck_def lane_close_def)
  ultimately show ?thesis
    using run by (intro exI[of _ ?p]) (auto simp: stuck_def)
qed

text \<open>
  Any sequence of enqueues and pops, whatever their outcomes, keeps the lane a bounded
  first-in first-out channel: what was queued followed by the admitted jobs is what was popped
  followed by what is still queued.
\<close>

theorem lane_is_fifo:
  assumes "lane_inv l" and "fifo_run lane_push pop_front ops l = (l', acc, out)"
  shows "lane_queue l @ acc = out @ lane_queue l' \<and> length (lane_queue l') \<le> lane_capacity l"
  using lane.run_conserves[OF assms(1) _ assms(2)] by simp

theorem lane_is_fifo_witness:
  "lane_inv demo_lane \<and>
   fifo_run lane_push pop_front [Push 1, Push 2, Pop, Push 3] demo_lane = (demo_lane\<lparr>lane_queue := [3]\<rparr>, [1, 3], [1]) \<and>
   lane_queue demo_lane @ [1, 3] = [1] @ lane_queue (demo_lane\<lparr>lane_queue := [3]\<rparr>)"
proof -
  have inv: "lane_inv demo_lane"
    by (simp add: lane_inv_def demo_lane_def)
  have run: "fifo_run lane_push pop_front [Push 1, Push 2, Pop, Push 3] demo_lane = (demo_lane\<lparr>lane_queue := [3]\<rparr>, [1, 3], [1])"
    by (simp add: lane_push_def try_enqueue_def pop_front_def demo_lane_def)
  from lane_is_fifo[OF inv run] inv run show ?thesis by simp
qed

end
