(* ===== verification/Lifecycle.thy ===== *)
theory Lifecycle
  imports Operation_Lane
begin

text \<open>
  The lifecycle of the daemon (\<open>src/daemon_lifecycle.rs\<close>): the state that the status
  request reports, the bounded back-off of capture retries, and the scheduler thread that hands
  retries and runtime faults to the operation lane.  A \<open>Duration\<close> is its number of
  milliseconds; a \<open>RetryInstant\<close> is the \<open>u64\<close> it wraps.  The clock and the
  lane's answer to a submission are arguments.
\<close>

section \<open>Retry delays\<close>

type_synonym retry_instant = nat

definition RETRY_DELAYS :: "nat list" where
  "RETRY_DELAYS = [1000, 2000, 5000, 10000, 30000, 60000]"

definition retry_delay :: "nat \<Rightarrow> nat" where
  "retry_delay attempt =
     (let index = attempt - 1 in RETRY_DELAYS ! min index (length RETRY_DELAYS - 1))"

definition instant_checked_add :: "retry_instant \<Rightarrow> nat \<Rightarrow> retry_instant option" where
  "instant_checked_add at delay =
     (if delay < u64_lim then checked_add64 at delay else None)"

lemma retry_delay_eq: "retry_delay a = RETRY_DELAYS ! min (a - 1) 5"
proof -
  have "length RETRY_DELAYS - 1 = 5" by (simp add: RETRY_DELAYS_def)
  then show ?thesis by (simp only: retry_delay_def Let_def)
qed

lemma retry_delay_mono: "a \<le> b \<Longrightarrow> retry_delay a \<le> retry_delay b"
proof -
  have step: "RETRY_DELAYS ! min i 5 \<le> RETRY_DELAYS ! min (Suc i) 5" for i
  proof (cases "i < 5")
    case True
    then consider "i = 0" | "i = 1" | "i = 2" | "i = 3" | "i = 4" by linarith
    then show ?thesis by cases (simp_all add: RETRY_DELAYS_def)
  qed simp
  have mono: "i \<le> j \<Longrightarrow> RETRY_DELAYS ! min i 5 \<le> RETRY_DELAYS ! min j 5" for i j
    by (rule lift_Suc_mono_le[of "\<lambda>i. RETRY_DELAYS ! min i 5"]) (use step in auto)
  assume "a \<le> b"
  then have "a - 1 \<le> b - 1" by simp
  from mono[OF this] show ?thesis by (simp add: retry_delay_eq)
qed

lemma retry_delay_bounds: "1000 \<le> retry_delay a" "retry_delay a \<le> 60000"
proof -
  show "1000 \<le> retry_delay a"
    using retry_delay_mono[of 0 a] by (simp add: retry_delay_def RETRY_DELAYS_def)
  show "retry_delay a \<le> 60000"
    using retry_delay_mono[of a "max a 6"] by (simp add: retry_delay_def RETRY_DELAYS_def)
qed

section \<open>Lifecycle state\<close>

datatype daemon_state = Ready | Degraded | Stopping
datatype capture_state = Stopped | Starting | Running | WaitingForDevice | Faulted
datatype error_class = Permanent | Transient | Fatal
datatype retry_policy = NoRetry | Manual | BoundedBackoff

record lifecycle_state =
  lf_daemon_state :: daemon_state
  lf_capture_state :: capture_state
  lf_error_class :: "error_class option"
  lf_last_error :: "string option"
  lf_retry_policy :: retry_policy
  lf_retry_attempt :: nat
  lf_next_retry_at :: "retry_instant option"
  lf_active_profile :: "string option"
  lf_resolved_target :: "string option"
  lf_generation :: nat

definition ready_stopped :: "string option \<Rightarrow> lifecycle_state" where
  "ready_stopped active_profile =
     \<lparr>lf_daemon_state = Ready, lf_capture_state = Stopped, lf_error_class = None, lf_last_error = None,
      lf_retry_policy = NoRetry, lf_retry_attempt = 0, lf_next_retry_at = None,
      lf_active_profile = active_profile, lf_resolved_target = None, lf_generation = 0\<rparr>"

definition clear_error_and_retry :: "lifecycle_state \<Rightarrow> lifecycle_state" where
  "clear_error_and_retry s =
     s\<lparr>lf_error_class := None, lf_last_error := None, lf_retry_policy := NoRetry, lf_retry_attempt := 0,
       lf_next_retry_at := None\<rparr>"

definition mark_starting :: "string option \<Rightarrow> lifecycle_state \<Rightarrow> lifecycle_state" where
  "mark_starting active_profile s =
     (clear_error_and_retry (s\<lparr>lf_daemon_state := Ready, lf_capture_state := Starting\<rparr>))
       \<lparr>lf_active_profile := active_profile, lf_resolved_target := None\<rparr>"

definition mark_permanent :: "string \<Rightarrow> lifecycle_state \<Rightarrow> lifecycle_state" where
  "mark_permanent err s =
     s\<lparr>lf_daemon_state := Degraded, lf_capture_state := Faulted, lf_error_class := Some Permanent,
       lf_last_error := Some err, lf_retry_policy := Manual, lf_retry_attempt := 0, lf_next_retry_at := None\<rparr>"

definition mark_transient :: "capture_state \<Rightarrow> string \<Rightarrow> retry_instant \<Rightarrow> lifecycle_state \<Rightarrow> lifecycle_state" where
  "mark_transient capture_state err now s =
     (let attempt = min (lf_retry_attempt s + 1) (u32_lim - 1) in
      s\<lparr>lf_daemon_state := Degraded, lf_capture_state := capture_state, lf_error_class := Some Transient,
        lf_last_error := Some err, lf_retry_policy := BoundedBackoff, lf_retry_attempt := attempt,
        lf_next_retry_at :=
          Some (case instant_checked_add now (retry_delay attempt) of None \<Rightarrow> u64_lim - 1 | Some at \<Rightarrow> at)\<rparr>)"

definition mark_running :: "string option \<Rightarrow> string option \<Rightarrow> lifecycle_state \<Rightarrow> lifecycle_state" where
  "mark_running active_profile resolved_target s =
     (clear_error_and_retry (s\<lparr>lf_daemon_state := Ready, lf_capture_state := Running\<rparr>))
       \<lparr>lf_active_profile := active_profile, lf_resolved_target := resolved_target\<rparr>"

definition mark_stopped :: "string option \<Rightarrow> lifecycle_state \<Rightarrow> lifecycle_state" where
  "mark_stopped active_profile s =
     (clear_error_and_retry (s\<lparr>lf_daemon_state := Ready, lf_capture_state := Stopped\<rparr>))
       \<lparr>lf_active_profile := active_profile, lf_resolved_target := None\<rparr>"

definition mark_stopping :: "lifecycle_state \<Rightarrow> lifecycle_state" where
  "mark_stopping s = clear_error_and_retry (s\<lparr>lf_daemon_state := Stopping\<rparr>)"

definition begin_operation :: "lifecycle_state \<Rightarrow> lifecycle_state \<times> nat result" where
  "begin_operation s =
     (if lf_daemon_state s = Stopping then (s, Inl (Control ''daemon is stopping''))
      else case checked_add64 (lf_generation s) 1 of
        None \<Rightarrow> (s, Inl (ControlInvariant ''operation generation overflow''))
      | Some next \<Rightarrow> (s\<lparr>lf_generation := next\<rparr>, Inr next))"

record lifecycle_status =
  st_daemon_state :: daemon_state
  st_capture_state :: capture_state
  st_error_class :: "error_class option"
  st_last_error :: "string option"
  st_retry_policy :: retry_policy
  st_retry_attempt :: nat
  st_next_retry_at :: "nat option"
  st_active_profile :: "string option"
  st_resolved_target :: "string option"

text \<open>The status maps the due time through the clock's \<open>unix_seconds\<close>.\<close>

definition lifecycle_status_of :: "(retry_instant \<Rightarrow> nat) \<Rightarrow> lifecycle_state \<Rightarrow> lifecycle_status" where
  "lifecycle_status_of unix_seconds s =
     \<lparr>st_daemon_state = lf_daemon_state s, st_capture_state = lf_capture_state s,
      st_error_class = lf_error_class s, st_last_error = lf_last_error s,
      st_retry_policy = lf_retry_policy s, st_retry_attempt = lf_retry_attempt s,
      st_next_retry_at = map_option unix_seconds (lf_next_retry_at s),
      st_active_profile = lf_active_profile s, st_resolved_target = lf_resolved_target s\<rparr>"

text \<open>The operations of the state as one datatype, so that a history is a list of them.\<close>

datatype lifecycle_op =
    OpStarting "string option"
  | OpPermanent string
  | OpTransient capture_state string retry_instant
  | OpRunning "string option" "string option"
  | OpStopped "string option"
  | OpStopping
  | OpBegin

fun lifecycle_apply :: "lifecycle_op \<Rightarrow> lifecycle_state \<Rightarrow> lifecycle_state" where
  "lifecycle_apply (OpStarting p) s = mark_starting p s"
| "lifecycle_apply (OpPermanent e) s = mark_permanent e s"
| "lifecycle_apply (OpTransient c e now) s = mark_transient c e now s"
| "lifecycle_apply (OpRunning p t) s = mark_running p t s"
| "lifecycle_apply (OpStopped p) s = mark_stopped p s"
| "lifecycle_apply OpStopping s = mark_stopping s"
| "lifecycle_apply OpBegin s = fst (begin_operation s)"

lemmas lifecycle_defs = mark_starting_def mark_permanent_def mark_transient_def mark_running_def mark_stopped_def
  mark_stopping_def clear_error_and_retry_def begin_operation_def

definition lifecycle_inv :: "lifecycle_state \<Rightarrow> bool" where
  "lifecycle_inv s \<longleftrightarrow>
     (lf_daemon_state s = Degraded \<longleftrightarrow> lf_error_class s \<noteq> None) \<and>
     (lf_last_error s = None \<longleftrightarrow> lf_error_class s = None) \<and>
     lf_error_class s \<noteq> Some Fatal \<and>
     (lf_retry_policy s = Manual \<longleftrightarrow> lf_error_class s = Some Permanent) \<and>
     (lf_retry_policy s = BoundedBackoff \<longleftrightarrow> lf_error_class s = Some Transient) \<and>
     (lf_next_retry_at s \<noteq> None \<longleftrightarrow> lf_error_class s = Some Transient) \<and>
     (0 < lf_retry_attempt s \<longleftrightarrow> lf_error_class s = Some Transient) \<and>
     lf_retry_attempt s < u32_lim \<and> lf_generation s < u64_lim"

lemma lifecycle_inv_apply: "lifecycle_inv s \<Longrightarrow> lifecycle_inv (lifecycle_apply op s)"
proof (cases op)
  case (OpTransient c e now)
  have "min (lf_retry_attempt s + 1) (u32_lim - 1) < u32_lim" "0 < min (lf_retry_attempt s + 1) (u32_lim - 1)"
    by (simp_all add: u32_lim_def)
  then show "lifecycle_inv s \<Longrightarrow> ?thesis"
    using OpTransient by (auto simp: lifecycle_inv_def mark_transient_def Let_def)
qed (auto simp: lifecycle_inv_def lifecycle_defs split: option.splits)

section \<open>Lifecycle properties\<close>

text \<open>
  (C34) After any sequence of lifecycle operations the reported state is coherent: the daemon
  is degraded exactly when an error is recorded, a permanent error waits for a manual retry, a
  transient one has an attempt counted and a due time, nothing else has either, and the
  generation is at most the number of operations begun.
\<close>

theorem lifecycle_coherent:
  "(let s = fold lifecycle_apply ops (ready_stopped profile); st = lifecycle_status_of unix s in
    (st_daemon_state st = Degraded \<longleftrightarrow> st_error_class st \<noteq> None) \<and>
    (st_last_error st = None \<longleftrightarrow> st_error_class st = None) \<and>
    (st_retry_policy st = Manual \<longleftrightarrow> st_error_class st = Some Permanent) \<and>
    (st_retry_policy st = BoundedBackoff \<longleftrightarrow> st_error_class st = Some Transient) \<and>
    (st_next_retry_at st \<noteq> None \<longleftrightarrow> st_error_class st = Some Transient) \<and>
    (0 < st_retry_attempt st \<longleftrightarrow> st_error_class st = Some Transient) \<and>
    lf_generation s \<le> length (filter (\<lambda>op. op = OpBegin) ops))"
proof -
  have inv: "lifecycle_inv (fold lifecycle_apply ops s) \<and>
      lf_generation (fold lifecycle_apply ops s) \<le> lf_generation s + length (filter (\<lambda>op. op = OpBegin) ops)"
    if "lifecycle_inv s" for s
    using that
  proof (induction ops arbitrary: s)
    case (Cons op ops)
    have "lf_generation (lifecycle_apply op s) \<le> lf_generation s + (if op = OpBegin then 1 else 0)"
      by (cases op) (auto simp: lifecycle_defs Let_def split: option.splits)
    with Cons.IH[OF lifecycle_inv_apply[OF Cons.prems, of op]] show ?case by (simp split: if_splits)
  qed simp
  have "lifecycle_inv (ready_stopped profile)"
    by (simp add: ready_stopped_def lifecycle_inv_def)
  from inv[OF this] show ?thesis
    by (simp add: lifecycle_inv_def lifecycle_status_of_def Let_def ready_stopped_def)
qed

text \<open>
  (C35) Bounded back-off.  After \<open>n + 1\<close> consecutive transient failures on a state without
  an error, the last of them at time \<open>now\<close>, the attempt counter is \<open>n + 1\<close> and the
  next retry is due one delay after \<open>now\<close>; the delay is between one second and one minute,
  does not decrease from one failure to the next and is one minute from the sixth on.
\<close>

theorem backoff_is_bounded:
  assumes "lf_retry_attempt s = 0" and "n + 1 < u32_lim" and "length fs = n" and "now + 60000 < u64_lim"
    and "s' = fold (\<lambda>(c, e, t). mark_transient c e t) (fs @ [(c, e, now)]) s"
  shows "lf_retry_attempt s' = n + 1 \<and> lf_next_retry_at s' = Some (now + retry_delay (n + 1)) \<and>
         1000 \<le> retry_delay (n + 1) \<and> retry_delay (n + 1) \<le> retry_delay (n + 2) \<and>
         retry_delay (n + 1) \<le> 60000 \<and> (5 \<le> n \<longrightarrow> retry_delay (n + 1) = 60000)"
proof -
  have count: "lf_retry_attempt (fold (\<lambda>(c, e, t). mark_transient c e t) gs s0) = lf_retry_attempt s0 + length gs"
    if "lf_retry_attempt s0 + length gs < u32_lim" for gs s0
    using that
  proof (induction gs arbitrary: s0)
    case (Cons g gs)
    then have "lf_retry_attempt ((case g of (c, e, t) \<Rightarrow> mark_transient c e t) s0) = lf_retry_attempt s0 + 1"
      by (auto simp: mark_transient_def Let_def split: prod.splits)
    with Cons show ?case by simp
  qed simp
  have c: "lf_retry_attempt (fold (\<lambda>(c, e, t). mark_transient c e t) fs s) = n"
    using count[of s fs] assms(1-3) by simp
  have last: "min (Suc n) (u32_lim - Suc 0) = Suc n" using assms(2) by simp
  have "now + retry_delay (n + 1) < u64_lim" "retry_delay (n + 1) < u64_lim"
    using retry_delay_bounds(2)[of "n + 1"] assms(4) by linarith+
  then have "lf_retry_attempt s' = n + 1 \<and> lf_next_retry_at s' = Some (now + retry_delay (n + 1))"
    unfolding assms(5) by (simp add: mark_transient_def c Let_def last instant_checked_add_def checked_add64_def)
  moreover have "5 \<le> n \<Longrightarrow> retry_delay (n + 1) = 60000"
    by (simp add: retry_delay_def RETRY_DELAYS_def)
  ultimately show ?thesis
    using retry_delay_bounds[of "n + 1"] retry_delay_mono[of "n + 1" "n + 2"] by auto
qed

theorem backoff_is_bounded_witness:
  "lf_next_retry_at (fold (\<lambda>(c, e, t). mark_transient c e t)
      [(WaitingForDevice, ''gone'', 10), (Faulted, ''xrun'', 2000), (WaitingForDevice, ''gone'', 5000)]
      (ready_stopped None)) = Some 10000"
proof -
  have "lf_retry_attempt (ready_stopped None) = 0" by (simp add: ready_stopped_def)
  from backoff_is_bounded[OF this, of 2 "[(WaitingForDevice, ''gone'', 10), (Faulted, ''xrun'', 2000)]" 5000 _
      WaitingForDevice "''gone''", OF _ _ _ refl]
  show ?thesis by (simp add: u32_lim_def u64_lim_def retry_delay_def RETRY_DELAYS_def)
qed

end
