(* ===== verification/Retry_Scheduler.thy ===== *)
theory Retry_Scheduler
  imports Lifecycle
begin

text \<open>
  The retry scheduler (\<open>src/daemon_lifecycle.rs\<close>): one pending operation behind a mutex,
  replaced by later ones of the same or a newer generation, and the thread that submits it to
  the operation lane.  The thread holds the mutex from one wait to the next, so a turn of its
  loop is one step; every other operation of the handle is one step too.
\<close>

datatype capture_fault = DeviceDisconnected string | BackendFault string

datatype scheduled_operation =
    Retry nat
  | RuntimeFault nat nat capture_fault

fun operation_generation :: "scheduled_operation \<Rightarrow> nat" where
  "operation_generation (Retry generation) = generation"
| "operation_generation (RuntimeFault generation _ _) = generation"

datatype pending_operation =
    PendingRetry nat retry_instant
  | Immediate scheduled_operation

fun pending_generation :: "pending_operation \<Rightarrow> nat" where
  "pending_generation (PendingRetry generation _) = generation"
| "pending_generation (Immediate op) = operation_generation op"

fun operation_of :: "pending_operation \<Rightarrow> scheduled_operation" where
  "operation_of (PendingRetry generation _) = Retry generation"
| "operation_of (Immediate op) = op"

record scheduler =
  sc_generation :: nat
  sc_pending :: "pending_operation option"
  sc_stopped :: bool
  sc_wake_epoch :: nat
  sc_thread_spawned :: bool

definition scheduler_new :: scheduler where
  "scheduler_new = \<lparr>sc_generation = 0, sc_pending = None, sc_stopped = False, sc_wake_epoch = 0,
     sc_thread_spawned = False\<rparr>"

definition bump :: "scheduler \<Rightarrow> scheduler" where
  "bump s = s\<lparr>sc_wake_epoch := wadd64 (sc_wake_epoch s) 1\<rparr>"

definition schedule_retry :: "nat \<Rightarrow> retry_instant \<Rightarrow> scheduler \<Rightarrow> scheduler" where
  "schedule_retry generation due s =
     (if sc_stopped s \<or> generation < sc_generation s then s
      else bump (s\<lparr>sc_generation := generation, sc_pending := Some (PendingRetry generation due)\<rparr>))"

definition notify_fault :: "nat \<Rightarrow> nat \<Rightarrow> capture_fault \<Rightarrow> scheduler \<Rightarrow> scheduler" where
  "notify_fault generation attempt_id fault s =
     (if sc_stopped s \<or> generation < sc_generation s then s
      else bump (s\<lparr>sc_generation := generation,
                   sc_pending := Some (Immediate (RuntimeFault generation attempt_id fault))\<rparr>))"

definition invalidate :: "nat \<Rightarrow> scheduler \<Rightarrow> scheduler" where
  "invalidate generation s =
     (if generation < sc_generation s then s
      else bump (s\<lparr>sc_generation := generation, sc_pending := None\<rparr>))"

definition notify_lane_available :: "scheduler \<Rightarrow> scheduler" where
  "notify_lane_available s = bump s"

definition scheduler_stop :: "scheduler \<Rightarrow> scheduler" where
  "scheduler_stop s = bump (s\<lparr>sc_stopped := True, sc_pending := None\<rparr>)"

text \<open>The guard at the start of \<open>spawn_retry_scheduler\<close>; \<open>spawned\<close> is the outcome of the thread builder.\<close>

definition spawn_guard :: "bool \<Rightarrow> scheduler \<Rightarrow> scheduler \<times> unit result" where
  "spawn_guard spawned s =
     (if sc_thread_spawned s then (s, Inl (io_error ''retry scheduler'' ''retry scheduler already spawned''))
      else if spawned then (s\<lparr>sc_thread_spawned := True\<rparr>, Inr ())
      else (s\<lparr>sc_thread_spawned := False\<rparr>, Inl (io_error ''retry scheduler'' ''thread spawn failed'')))"

text \<open>
  One turn of the thread's loop, at time \<open>now\<close> and with the lane answering \<open>submit\<close>
  (\<open>None\<close> for an admitted job): the state, how the turn ends and the operation it had
  admitted.
\<close>

datatype turn_end = Return | Wait | WaitFor nat | Continue

definition scheduler_turn ::
    "retry_instant \<Rightarrow> (scheduled_operation \<Rightarrow> enqueue_error option) \<Rightarrow> scheduler
     \<Rightarrow> scheduler \<times> turn_end \<times> scheduled_operation option" where
  "scheduler_turn now submit s =
     (if sc_stopped s then (s, Return, None)
      else case sc_pending s of
        None \<Rightarrow> (s, Wait, None)
      | Some pending \<Rightarrow>
          if pending_generation pending \<noteq> sc_generation s then (s\<lparr>sc_pending := None\<rparr>, Continue, None)
          else case pending of
            PendingRetry _ due \<Rightarrow>
              if now < due then (s, WaitFor (due - now), None)
              else (case submit (operation_of pending) of
                      None \<Rightarrow> (s\<lparr>sc_pending := None\<rparr>, Continue, Some (operation_of pending))
                    | Some Closed \<Rightarrow> (s\<lparr>sc_pending := None\<rparr>, Continue, None)
                    | Some Full \<Rightarrow> (s, Wait, None))
          | Immediate op \<Rightarrow>
              (case submit (operation_of pending) of
                 None \<Rightarrow> (s\<lparr>sc_pending := None\<rparr>, Continue, Some (operation_of pending))
               | Some Closed \<Rightarrow> (s\<lparr>sc_pending := None\<rparr>, Continue, None)
               | Some Full \<Rightarrow> (s, Wait, None)))"

section \<open>Histories\<close>

text \<open>
  A history of the scheduler: the requests its clients made, in order, and for every admitted
  operation the time of its admission, the number of requests made before it and the operation.
\<close>

datatype request =
    RqRetry nat retry_instant
  | RqFault nat nat capture_fault
  | RqInvalidate nat
  | RqLane
  | RqStop

fun apply_request :: "request \<Rightarrow> scheduler \<Rightarrow> scheduler" where
  "apply_request (RqRetry g due) s = schedule_retry g due s"
| "apply_request (RqFault g a f) s = notify_fault g a f s"
| "apply_request (RqInvalidate g) s = invalidate g s"
| "apply_request RqLane s = notify_lane_available s"
| "apply_request RqStop s = scheduler_stop s"

text \<open>The operation a request asks for, with its earliest time.\<close>

fun asks_for :: "request \<Rightarrow> (scheduled_operation \<times> retry_instant) option" where
  "asks_for (RqRetry g due) = Some (Retry g, due)"
| "asks_for (RqFault g a f) = Some (RuntimeFault g a f, 0)"
| "asks_for _ = None"

fun request_generation :: "request \<Rightarrow> nat" where
  "request_generation (RqRetry g _) = g"
| "request_generation (RqFault g _ _) = g"
| "request_generation (RqInvalidate g) = g"
| "request_generation RqLane = 0"
| "request_generation RqStop = 0"

record sched_sys =
  ss_state :: scheduler
  ss_requests :: "request list"
  ss_admitted :: "(retry_instant \<times> nat \<times> scheduled_operation) list"

inductive sched_step :: "sched_sys \<Rightarrow> sched_sys \<Rightarrow> bool" where
  ss_request: "sched_step y (y\<lparr>ss_state := apply_request r (ss_state y), ss_requests := ss_requests y @ [r]\<rparr>)"
| ss_turn: "scheduler_turn now submit (ss_state y) = (s', e, admitted) \<Longrightarrow>
    sched_step y (y\<lparr>ss_state := s', ss_admitted := ss_admitted y @
       (case admitted of None \<Rightarrow> [] | Some op \<Rightarrow> [(now, length (ss_requests y), op)])\<rparr>)"

definition sched_start :: sched_sys where
  "sched_start = \<lparr>ss_state = scheduler_new, ss_requests = [], ss_admitted = []\<rparr>"

text \<open>
  The request an admitted operation answers: an earlier one that asked for it, due by then, with
  no newer generation and no stop before the admission.
\<close>

definition justified :: "request list \<Rightarrow> retry_instant \<times> nat \<times> scheduled_operation \<Rightarrow> nat \<Rightarrow> bool" where
  "justified rs entry i \<longleftrightarrow>
     (case entry of (now, k, op) \<Rightarrow>
        i < k \<and> k \<le> length rs \<and>
        (\<exists>due. asks_for (rs ! i) = Some (op, due) \<and> due \<le> now) \<and>
        (\<forall>j<k. request_generation (rs ! j) \<le> operation_generation op \<and> rs ! j \<noteq> RqStop) \<and>
        (\<forall>j. i < j \<and> j < k \<longrightarrow> rs ! j = RqLane \<or> request_generation (rs ! j) < operation_generation op))"

definition answered :: "sched_sys \<Rightarrow> nat list \<Rightarrow> bool" where
  "answered y is \<longleftrightarrow> length is = length (ss_admitted y) \<and> sorted_wrt (<) is \<and>
     (\<forall>n<length is. justified (ss_requests y) (ss_admitted y ! n) (is ! n))"

fun due_of :: "pending_operation \<Rightarrow> retry_instant" where
  "due_of (PendingRetry _ due) = due"
| "due_of (Immediate _) = 0"

definition awaits :: "request list \<Rightarrow> scheduler \<Rightarrow> pending_operation \<Rightarrow> nat \<Rightarrow> bool" where
  "awaits rs s p i \<longleftrightarrow>
     i < length rs \<and> asks_for (rs ! i) = Some (operation_of p, due_of p) \<and>
     (\<forall>j. i < j \<and> j < length rs \<longrightarrow> rs ! j = RqLane \<or> request_generation (rs ! j) < sc_generation s)"

definition sched_inv :: "sched_sys \<Rightarrow> nat list \<Rightarrow> bool" where
  "sched_inv y is \<longleftrightarrow>
     answered y is \<and>
     (sc_stopped (ss_state y) \<longleftrightarrow> RqStop \<in> set (ss_requests y)) \<and>
     (sc_stopped (ss_state y) \<longrightarrow> sc_pending (ss_state y) = None) \<and>
     (\<not> sc_stopped (ss_state y) \<longrightarrow> (\<forall>r\<in>set (ss_requests y). request_generation r \<le> sc_generation (ss_state y))) \<and>
     (\<forall>p. sc_pending (ss_state y) = Some p \<longrightarrow> pending_generation p = sc_generation (ss_state y) \<and>
        (\<exists>i. awaits (ss_requests y) (ss_state y) p i \<and> (\<forall>n<length is. is ! n < i)))"

lemmas request_defs = schedule_retry_def notify_fault_def invalidate_def notify_lane_available_def scheduler_stop_def bump_def

lemma justified_append:
  assumes "justified rs entry i"
  shows "justified (rs @ [r]) entry i"
proof -
  obtain now k op where e: "entry = (now, k, op)" by (cases entry)
  have "j < k \<Longrightarrow> (rs @ [r]) ! j = rs ! j" for j
    using assms by (simp add: justified_def e nth_append)
  with assms show ?thesis unfolding justified_def e by auto
qed

lemma justified_below: "justified rs entry i \<Longrightarrow> i < length rs"
  by (cases entry) (simp add: justified_def)

lemma answered_append: "answered y is \<Longrightarrow> answered (y\<lparr>ss_state := s, ss_requests := ss_requests y @ [r]\<rparr>) is"
  by (simp add: answered_def justified_append)

text \<open>A request that leaves the pending operation in place is for the lane or too old.\<close>

lemma awaits_append:
  assumes "awaits rs s p i" and "r = RqLane \<or> request_generation r < sc_generation s" and "sc_generation s' = sc_generation s"
  shows "awaits (rs @ [r]) s' p i"
  using assms by (auto simp: awaits_def nth_append less_Suc_eq)

lemma awaits_new:
  "asks_for r = Some (operation_of p, due_of p) \<Longrightarrow> awaits (rs @ [r]) s p (length rs)"
  by (simp add: awaits_def)

lemma apply_request_cases:
  assumes "s' = apply_request r s"
  shows "sc_stopped s' = (sc_stopped s \<or> r = RqStop) \<and>
    (\<not> sc_stopped s' \<longrightarrow> sc_generation s' = max (sc_generation s) (request_generation r)) \<and>
    (sc_stopped s \<longrightarrow> sc_pending s' = sc_pending s \<or> sc_pending s' = None) \<and>
    (r = RqStop \<longrightarrow> sc_pending s' = None) \<and>
    (\<forall>p. sc_pending s' = Some p \<longrightarrow> \<not> sc_stopped s \<longrightarrow>
       (sc_pending s = Some p \<and> (r = RqLane \<or> request_generation r < sc_generation s) \<and> sc_generation s' = sc_generation s) \<or>
       (asks_for r = Some (operation_of p, due_of p) \<and> pending_generation p = sc_generation s'))"
  unfolding assms by (cases r) (auto simp: request_defs)

lemma sched_inv_request:
  assumes inv: "sched_inv y is"
  shows "sched_inv (y\<lparr>ss_state := apply_request r (ss_state y), ss_requests := ss_requests y @ [r]\<rparr>) is"
proof -
  let ?s = "ss_state y" and ?s' = "apply_request r (ss_state y)" and ?rs = "ss_requests y"
  note c = apply_request_cases[of ?s' r ?s, OF refl]
  have ans: "answered y is" using inv by (simp add: sched_inv_def)
  have below: "\<forall>n<length is. is ! n < length ?rs"
    using ans justified_below unfolding answered_def by blast
  have pend: "pending_generation p = sc_generation ?s' \<and> (\<exists>i. awaits (?rs @ [r]) ?s' p i \<and> (\<forall>n<length is. is ! n < i))"
    if p: "sc_pending ?s' = Some p" for p
  proof -
    have ns: "\<not> sc_stopped ?s"
      using p c inv unfolding sched_inv_def by (metis option.distinct(1))
    from c p ns consider
      (kept) "sc_pending ?s = Some p" "r = RqLane \<or> request_generation r < sc_generation ?s" "sc_generation ?s' = sc_generation ?s"
    | (new) "asks_for r = Some (operation_of p, due_of p)" "pending_generation p = sc_generation ?s'"
      by blast
    then show ?thesis
    proof cases
      case kept
      with inv obtain i where "awaits ?rs ?s p i" "\<forall>n<length is. is ! n < i" "pending_generation p = sc_generation ?s"
        unfolding sched_inv_def by blast
      with awaits_append[OF this(1) kept(2,3)] kept(3) show ?thesis by auto
    next
      case new
      with awaits_new[OF new(1), of ?rs ?s'] below show ?thesis by auto
    qed
  qed
  have "sc_stopped ?s' \<longrightarrow> sc_pending ?s' = None"
    using c inv unfolding sched_inv_def by metis
  with c pend answered_append[OF ans] inv show ?thesis
    unfolding sched_inv_def by auto
qed

lemma turn_cases:
  assumes "scheduler_turn now submit s = (s', e, admitted)"
  shows "(admitted = None \<and> (s' = s \<or> s' = s\<lparr>sc_pending := None\<rparr>)) \<or>
    (\<exists>p. sc_pending s = Some p \<and> \<not> sc_stopped s \<and> due_of p \<le> now \<and> pending_generation p = sc_generation s \<and>
         admitted = Some (operation_of p) \<and> s' = s\<lparr>sc_pending := None\<rparr>)"
  using assms
  by (auto simp: scheduler_turn_def split: if_splits option.splits pending_operation.splits enqueue_error.splits)

lemma operation_of_generation: "operation_generation (operation_of p) = pending_generation p"
  by (cases p) simp_all

lemma sched_inv_turn:
  assumes inv: "sched_inv y is" and turn: "scheduler_turn now submit (ss_state y) = (s', e, admitted)"
  shows "\<exists>js. sched_inv (y\<lparr>ss_state := s', ss_admitted := ss_admitted y @
       (case admitted of None \<Rightarrow> [] | Some op \<Rightarrow> [(now, length (ss_requests y), op)])\<rparr>) js"
  using turn_cases[OF turn]
proof
  assume "admitted = None \<and> (s' = ss_state y \<or> s' = (ss_state y)\<lparr>sc_pending := None\<rparr>)"
  with inv show ?thesis by (intro exI[of _ "is"]) (auto simp: sched_inv_def answered_def awaits_def)
next
  assume "\<exists>p. sc_pending (ss_state y) = Some p \<and> \<not> sc_stopped (ss_state y) \<and> due_of p \<le> now \<and>
    pending_generation p = sc_generation (ss_state y) \<and> admitted = Some (operation_of p) \<and>
    s' = (ss_state y)\<lparr>sc_pending := None\<rparr>"
  then obtain p where p: "sc_pending (ss_state y) = Some p" "\<not> sc_stopped (ss_state y)" "due_of p \<le> now"
      "admitted = Some (operation_of p)" "s' = (ss_state y)\<lparr>sc_pending := None\<rparr>"
      and gen: "pending_generation p = sc_generation (ss_state y)" by blast
  from inv p(1) obtain i where i: "awaits (ss_requests y) (ss_state y) p i" "\<forall>n<length is. is ! n < i"
    unfolding sched_inv_def by blast
  have gens: "\<forall>j<length (ss_requests y). request_generation (ss_requests y ! j) \<le> pending_generation p \<and> ss_requests y ! j \<noteq> RqStop"
    using inv p(2) unfolding gen sched_inv_def by (metis nth_mem)
  have j: "justified (ss_requests y) (now, length (ss_requests y), operation_of p) i"
    using i(1) gens p(3) gen by (simp add: justified_def awaits_def operation_of_generation)
  have ans: "answered y is" using inv by (simp add: sched_inv_def)
  have "answered (y\<lparr>ss_state := s', ss_admitted := ss_admitted y @ [(now, length (ss_requests y), operation_of p)]\<rparr>) (is @ [i])"
    using ans j i(2) by (auto simp: answered_def nth_append less_Suc_eq sorted_wrt_append in_set_conv_nth)
  then show ?thesis
    using inv p by (intro exI[of _ "is @ [i]"]) (auto simp: sched_inv_def)
qed

lemma sched_inv_reach: "sched_step\<^sup>*\<^sup>* sched_start y \<Longrightarrow> \<exists>is. sched_inv y is"
proof (induction rule: rtranclp_induct)
  case base
  show ?case by (intro exI[of _ "[]"]) (simp add: sched_inv_def answered_def sched_start_def scheduler_new_def)
next
  case (step y z)
  then obtain "is" where inv: "sched_inv y is" by blast
  from step(2) show ?case
  proof cases
    case (ss_request r)
    with sched_inv_request[OF inv] show ?thesis by blast
  next
    case (ss_turn now submit s' e admitted)
    with sched_inv_turn[OF inv] show ?thesis by blast
  qed
qed

section \<open>Properties\<close>

text \<open>
  (C36) Whatever the order of requests, wake-ups and turns, the scheduler admits an operation to
  the lane only in answer to an earlier request for exactly that operation, at or after its due
  time, while no request of a newer generation, no later request or invalidation of the same
  generation and no stop has come in between; and it answers each request at most once and in
  order.
\<close>

theorem scheduler_admits_only_current:
  assumes "sched_step\<^sup>*\<^sup>* sched_start y"
  shows "\<exists>is. answered y is"
  using sched_inv_reach[OF assms] by (auto simp: sched_inv_def)

theorem scheduler_admits_only_current_witness:
  "\<exists>y. sched_step\<^sup>*\<^sup>* sched_start y \<and> ss_requests y = [RqRetry 1 500, RqLane] \<and>
       ss_admitted y = [(500, 2, Retry 1)] \<and> (\<exists>is. answered y is)"
proof -
  let ?s = "\<lparr>sc_generation = 1, sc_pending = Some (PendingRetry 1 500), sc_stopped = False, sc_wake_epoch = 1,
     sc_thread_spawned = False\<rparr>"
  let ?y1 = "\<lparr>ss_state = ?s, ss_requests = [RqRetry 1 500], ss_admitted = []\<rparr>"
  let ?y2 = "\<lparr>ss_state = ?s\<lparr>sc_wake_epoch := wadd64 1 1\<rparr>, ss_requests = [RqRetry 1 500, RqLane], ss_admitted = []\<rparr>"
  let ?y3 = "?y2\<lparr>ss_state := ?s\<lparr>sc_wake_epoch := wadd64 1 1, sc_pending := None\<rparr>, ss_admitted := [(500, 2, Retry 1)]\<rparr>"
  have "sched_step sched_start ?y1"
    using ss_request[of sched_start "RqRetry 1 500"]
    by (simp add: sched_start_def scheduler_new_def request_defs u64_lim_def)
  moreover have "sched_step ?y1 ?y2"
    using ss_request[of ?y1 RqLane] by (simp add: request_defs)
  moreover have "sched_step ?y2 ?y3"
    using ss_turn[of 500 "\<lambda>_. None" ?y2 "?s\<lparr>sc_wake_epoch := wadd64 1 1, sc_pending := None\<rparr>" Continue "Some (Retry 1)"]
    by (simp add: scheduler_turn_def numeral_2_eq_2)
  ultimately have run: "sched_step\<^sup>*\<^sup>* sched_start ?y3"
    by (meson converse_rtranclp_into_rtranclp rtranclp.rtrancl_refl)
  from scheduler_admits_only_current[OF run] run show ?thesis by (intro exI[of _ ?y3]) simp
qed

end
