(* ===== verification/Activity_Detector.thy ===== *)
theory Activity_Detector
  imports Capture_Worker
begin

text \<open>
  The activity detectors and the frozen export decision (\<open>src/activity.rs\<close>).  The
  detector's workspace is scratch memory that every call resets before use: it enters the model
  through its sizes and its sample buffer and is not part of the results; it has one state per
  channel, as \<open>DetectorWorkspace::new\<close> builds it.  Decibel arithmetic on
  \<open>f64\<close> is a parameter, a record that extends the one of the calibration accumulators.
\<close>

section \<open>Decisions\<close>

datatype export_mode = Always | Auto | Never
datatype detector_kind = ExactZero | WindowedRmsPeak | FixedLevel | CalibratedNoiseFloor
datatype activity_result = Active | Inactive | Ambiguous
datatype disposition = Retain | Omit

fun canonical_disposition :: "export_mode \<Rightarrow> activity_result \<Rightarrow> disposition" where
  "canonical_disposition Never _ = Omit"
| "canonical_disposition Always _ = Retain"
| "canonical_disposition Auto Inactive = Omit"
| "canonical_disposition Auto _ = Retain"

record channel_decision =
  cd_mode :: export_mode
  cd_result :: activity_result
  cd_disposition :: disposition
  cd_first_evidence_frame :: "nat option"

definition empty_channel_decision :: channel_decision where
  "empty_channel_decision =
     \<lparr>cd_mode = Never, cd_result = Inactive, cd_disposition = Omit, cd_first_evidence_frame = None\<rparr>"

record epoch_identity =
  id_runtime_id :: nat
  id_index :: nat
  id_generation :: nat

definition frozen_identity :: "frozen_epoch \<Rightarrow> epoch_identity" where
  "frozen_identity f = \<lparr>id_runtime_id = fe_runtime_id f, id_index = fe_index f, id_generation = fe_generation f\<rparr>"

record export_decision =
  ed_channels :: "channel_decision list"
  ed_export_range :: "nat \<times> nat"
  ed_sample_rate :: nat
  ed_valid :: bool
  ed_frozen_epoch :: "epoch_identity option"
  ed_storage_id :: nat

definition export_decision_new :: "nat \<Rightarrow> nat \<Rightarrow> nat \<Rightarrow> export_decision" where
  "export_decision_new channels sample_rate storage_id =
     \<lparr>ed_channels = replicate channels empty_channel_decision, ed_export_range = (0, 0),
      ed_sample_rate = sample_rate, ed_valid = False, ed_frozen_epoch = None, ed_storage_id = storage_id\<rparr>"

definition matches_frozen_epoch :: "export_decision \<Rightarrow> frozen_epoch \<Rightarrow> bool" where
  "matches_frozen_epoch d f \<longleftrightarrow> ed_frozen_epoch d = Some (frozen_identity f)"

definition decision_reset :: "export_decision \<Rightarrow> export_decision" where
  "decision_reset d =
     d\<lparr>ed_channels := map (\<lambda>_. empty_channel_decision) (ed_channels d), ed_export_range := (0, 0),
       ed_valid := False, ed_frozen_epoch := None\<rparr>"

definition is_reset :: "export_decision \<Rightarrow> bool" where
  "is_reset d \<longleftrightarrow> \<not> ed_valid d \<and> ed_export_range d = (0, 0) \<and> ed_frozen_epoch d = None \<and>
     list_all (\<lambda>ch. ch = empty_channel_decision) (ed_channels d)"

definition compatible_reset_with :: "export_decision \<Rightarrow> export_decision \<Rightarrow> bool" where
  "compatible_reset_with d e \<longleftrightarrow> is_reset d \<and> is_reset e \<and> ed_sample_rate d = ed_sample_rate e \<and>
     length (ed_channels d) = length (ed_channels e)"

text \<open>\<open>FrozenExportDecision::finalize\<close>: the checks, the crop and the final channel decisions.\<close>

definition contradicts :: "channel_decision \<Rightarrow> bool" where
  "contradicts ch \<longleftrightarrow> cd_disposition ch \<noteq> canonical_disposition (cd_mode ch) (cd_result ch)"

definition evidence_outside :: "nat \<Rightarrow> nat \<Rightarrow> channel_decision \<Rightarrow> bool" where
  "evidence_outside start stop ch \<longleftrightarrow>
     (case cd_first_evidence_frame ch of None \<Rightarrow> False | Some frame \<Rightarrow> frame < start \<or> stop \<le> frame)"

definition evidence_frames :: "bool \<Rightarrow> channel_decision list \<Rightarrow> nat list" where
  "evidence_frames forced_omit channels =
     map (the \<circ> cd_first_evidence_frame)
       (filter (\<lambda>ch. \<not> forced_omit \<and> cd_disposition ch = Retain \<and> cd_first_evidence_frame ch \<noteq> None) channels)"

definition crop_start :: "nat \<Rightarrow> bool \<Rightarrow> nat list \<Rightarrow> nat \<Rightarrow> nat" where
  "crop_start sample_rate trim frames start =
     (if trim
      then max (case frames of [] \<Rightarrow> start | f # fs \<Rightarrow> saturating_sub64 (fold min fs f) (2 * sample_rate)) start
      else start)"

definition finalize ::
    "nat \<Rightarrow> nat \<Rightarrow> channel_decision list \<Rightarrow> bool \<Rightarrow> bool \<Rightarrow> export_decision \<Rightarrow> export_decision \<times> unit result" where
  "finalize start stop channels trim zero_gate d =
     (if ed_valid d then (d, Inl (ExportInvariant ''frozen export decision is already final''))
      else if stop < start \<or> length channels \<noteq> length (ed_channels d)
      then (d, Inl (ExportInvariant ''invalid frozen export decision geometry''))
      else if list_ex contradicts channels
      then (d, Inl (ExportInvariant ''activity disposition contradicts mode and result''))
      else if list_ex (evidence_outside start stop) channels
      then (d, Inl (ExportInvariant ''activity evidence is outside the frozen range''))
      else
        let all_never = list_all (\<lambda>ch. cd_mode ch = Never) channels;
            forced_omit = all_never \<or> zero_gate;
            begin = crop_start (ed_sample_rate d) trim (evidence_frames forced_omit channels) start
        in if stop < begin then (d, Inl (ExportInvariant ''activity crop is outside the frozen range''))
           else (d\<lparr>ed_channels := map (\<lambda>ch. if forced_omit then ch\<lparr>cd_disposition := Omit\<rparr> else ch) channels,
                   ed_export_range := (begin, stop), ed_valid := True\<rparr>, Inr ()))"

section \<open>Windows\<close>

record db_ops = fp_ops +
  fp_sub :: "f64 \<Rightarrow> f64 \<Rightarrow> f64"
  fp_max :: "f64 \<Rightarrow> f64 \<Rightarrow> f64"
  fp_log10 :: "f64 \<Rightarrow> f64"
  fp_le :: "f64 \<Rightarrow> f64 \<Rightarrow> bool"
  fp_lt :: "f64 \<Rightarrow> f64 \<Rightarrow> bool"

definition f64_abs :: "f64 \<Rightarrow> f64" where
  "f64_abs b = and b 0x7FFFFFFFFFFFFFFF"

definition f64_is_zero :: "f64 \<Rightarrow> bool" where
  "f64_is_zero b \<longleftrightarrow> b = 0 \<or> b = 0x8000000000000000"

definition f64_is_finite :: "f64 \<Rightarrow> bool" where
  "f64_is_finite b \<longleftrightarrow> unat b div 2 ^ 52 mod 2 ^ 11 \<noteq> 2047"

text \<open>The constants 20.0, 6.0, 12.0 and -120.0 are written as their bit patterns.\<close>

definition dbfs :: "db_ops \<Rightarrow> f64 \<Rightarrow> f64" where
  "dbfs ops value =
     (if f64_is_zero value then 0xC05E000000000000
      else fp_mul ops 0x4034000000000000 (fp_log10 ops value))"

record window_accumulator =
  wa_start :: nat
  wa_sum_squares :: f64
  wa_peak :: f64
  wa_count :: nat

definition accumulator_new :: "nat \<Rightarrow> window_accumulator" where
  "accumulator_new start = \<lparr>wa_start = start, wa_sum_squares = 0, wa_peak = 0, wa_count = 0\<rparr>"

record detector_state =
  ds_accumulators :: "window_accumulator list"
  ds_gate_open_since :: "nat option"
  ds_result :: activity_result
  ds_non_finite :: bool
  ds_exact_nonzero :: bool
  ds_evidence :: "nat option"

definition detector_empty :: detector_state where
  "detector_empty =
     \<lparr>ds_accumulators = [accumulator_new 0, accumulator_new 0], ds_gate_open_since = None, ds_result = Inactive,
      ds_non_finite = False, ds_exact_nonzero = False, ds_evidence = None\<rparr>"

record window_geometry =
  wg_window :: nat
  wg_hop :: nat
  wg_sustained :: nat

definition window_geometry_new :: "nat \<Rightarrow> window_geometry result" where
  "window_geometry_new sample_rate =
     (if sample_rate = 0 then Inl (Validation ''windowed detector sample rate is zero'')
      else let window = div_ceil (sample_rate * 20) 1000; hop = div_ceil (sample_rate * 10) 1000 in
        if u32_lim \<le> window then Inl (Validation ''window size overflow'')
        else if u32_lim \<le> hop then Inl (Validation ''window hop overflow'')
        else Inr \<lparr>wg_window = max window 1, wg_hop = max hop 1,
                   wg_sustained = max (div_ceil (sample_rate * 100) 1000) 1\<rparr>)"

definition prepare_windowed :: "nat \<Rightarrow> detector_state \<Rightarrow> detector_state" where
  "prepare_windowed hop s = s\<lparr>ds_accumulators := [accumulator_new 0, accumulator_new hop]\<rparr>"

definition prepare_state :: "detector_kind \<Rightarrow> window_geometry \<Rightarrow> f64 option \<Rightarrow> nat \<Rightarrow> detector_state \<Rightarrow> detector_state" where
  "prepare_state detector geo threshold tx s =
     (if detector = WindowedRmsPeak then
        let s1 = prepare_windowed (wg_hop geo) s in
        if threshold = None then s1\<lparr>ds_result := Ambiguous, ds_evidence := Some tx\<rparr> else s1
      else s)"

definition evaluate_window ::
    "db_ops \<Rightarrow> nat \<Rightarrow> nat \<Rightarrow> f64 \<Rightarrow> window_accumulator \<Rightarrow> detector_state \<Rightarrow> detector_state result" where
  "evaluate_window ops tx sustained open_threshold a s =
     (if wa_count a = 0 then Inr s
      else bindR (ok_or (checked_add64 tx (wa_start a)) (ExportInvariant ''activity evidence overflow'')) (\<lambda>window_start.
        bindR (ok_or (checked_add64 window_start (wa_count a)) (ExportInvariant ''activity window end overflow'')) (\<lambda>window_end.
          let rms_dbfs = dbfs ops (fp_sqrt ops (fp_div ops (wa_sum_squares a) (fp_of_u64 ops (wa_count a))));
              peak_dbfs = dbfs ops (wa_peak a);
              close_threshold = fp_sub ops open_threshold 0x4018000000000000;
              transient = fp_le ops (fp_add ops open_threshold 0x4028000000000000) peak_dbfs;
              s1 = (if fp_le ops close_threshold rms_dbfs \<or> transient
                    then s\<lparr>ds_evidence := Some (case ds_evidence s of None \<Rightarrow> window_start | Some current \<Rightarrow> min current window_start),
                           ds_result := (if ds_result s = Inactive then Ambiguous else ds_result s)\<rparr>
                    else s)
          in Inr (if transient then s1\<lparr>ds_result := Active\<rparr>
                  else case ds_gate_open_since s1 of
                    Some open_since \<Rightarrow>
                      if fp_lt ops rms_dbfs close_threshold then s1\<lparr>ds_gate_open_since := None\<rparr>
                      else if sustained \<le> saturating_sub64 window_end open_since then s1\<lparr>ds_result := Active\<rparr>
                      else s1
                  | None \<Rightarrow>
                      if fp_le ops open_threshold rms_dbfs then
                        (let s2 = s1\<lparr>ds_gate_open_since := Some window_start\<rparr> in
                         if sustained \<le> saturating_sub64 window_end window_start then s2\<lparr>ds_result := Active\<rparr> else s2)
                      else s1))))"

definition accumulator_add :: "db_ops \<Rightarrow> f32 \<Rightarrow> window_accumulator \<Rightarrow> window_accumulator" where
  "accumulator_add ops sample a =
     (let a1 = a\<lparr>wa_count := wadd32 (wa_count a) 1\<rparr> in
      if f32_is_finite sample then
        let value = fp_of_f32 ops sample in
        a1\<lparr>wa_sum_squares := fp_add ops (wa_sum_squares a1) (fp_mul ops value value),
           wa_peak := fp_max ops (wa_peak a1) (f64_abs value)\<rparr>
      else a1)"

definition feed_accumulator ::
    "db_ops \<Rightarrow> window_geometry \<Rightarrow> nat \<Rightarrow> f64 \<Rightarrow> f32 \<Rightarrow> nat \<Rightarrow> nat \<Rightarrow> detector_state \<Rightarrow> detector_state result" where
  "feed_accumulator ops geo tx threshold sample relative_frame index s =
     (let a = ds_accumulators s ! index in
      if relative_frame < wa_start a \<or> wadd64 (wa_start a) (wg_window geo) \<le> relative_frame then Inr s
      else let completed = accumulator_add ops sample a in
        if wa_count completed = wg_window geo then
          bindR (ok_or (checked_add64 (wa_start a) (2 * wg_hop geo)) (ExportInvariant ''activity window overflow'')) (\<lambda>next.
            evaluate_window ops tx (wg_sustained geo) threshold completed
              (s\<lparr>ds_accumulators := (ds_accumulators s)[index := accumulator_new next]\<rparr>))
        else Inr (s\<lparr>ds_accumulators := (ds_accumulators s)[index := completed]\<rparr>))"

definition note_sample :: "detector_kind \<Rightarrow> f32 \<Rightarrow> nat \<Rightarrow> detector_state \<Rightarrow> detector_state" where
  "note_sample detector sample absolute_frame s =
     (if \<not> f32_is_finite sample then s\<lparr>ds_non_finite := True\<rparr>
      else if \<not> f32_is_zero sample then
        let s1 = s\<lparr>ds_exact_nonzero := True\<rparr> in
        if detector = ExactZero
        then s1\<lparr>ds_result := Active,
                ds_evidence := Some (case ds_evidence s1 of None \<Rightarrow> absolute_frame | Some f \<Rightarrow> f)\<rparr>
        else s1
      else s)"

definition feed_sample ::
    "db_ops \<Rightarrow> detector_kind \<Rightarrow> window_geometry \<Rightarrow> nat \<Rightarrow> nat \<Rightarrow> f32 \<Rightarrow> f64 option \<Rightarrow> detector_state
     \<Rightarrow> detector_state result" where
  "feed_sample ops detector geo tx relative_frame sample threshold s =
     bindR (ok_or (checked_add64 tx relative_frame) (ExportInvariant ''activity frame overflow'')) (\<lambda>absolute_frame.
       let s1 = note_sample detector sample absolute_frame s in
       case threshold of
         None \<Rightarrow> Inr s1
       | Some level \<Rightarrow>
           if detector \<noteq> WindowedRmsPeak then Inr s1
           else bindR (feed_accumulator ops geo tx level sample relative_frame 0 s1)
                  (feed_accumulator ops geo tx level sample relative_frame 1))"

definition finish_state ::
    "db_ops \<Rightarrow> detector_kind \<Rightarrow> window_geometry \<Rightarrow> nat \<Rightarrow> f64 option \<Rightarrow> detector_state \<Rightarrow> detector_state result" where
  "finish_state ops detector geo tx threshold s =
     bindR (case threshold of
              Some level \<Rightarrow>
                if detector = WindowedRmsPeak then
                  try_fold (\<lambda>st a. if 0 < wa_count a then evaluate_window ops tx (wg_sustained geo) level a st else Inr st)
                    s (sort_key wa_start (ds_accumulators s))
                else Inr s
            | None \<Rightarrow> Inr s)
       (\<lambda>s1. Inr (if ds_non_finite s1 then s1\<lparr>ds_result := Ambiguous\<rparr> else s1))"

definition channel_decision_of :: "export_mode \<Rightarrow> detector_state \<Rightarrow> channel_decision" where
  "channel_decision_of mode s =
     \<lparr>cd_mode = mode, cd_result = ds_result s, cd_disposition = canonical_disposition mode (ds_result s),
      cd_first_evidence_frame = ds_evidence s\<rparr>"

section \<open>Classification\<close>

text \<open>
  One channel's samples, \<open>enumerate\<close>d from a first relative frame; and the mono detector of
  the trait \<open>ActivityDetector\<close>, whose workspace has \<open>capacity\<close> states.
\<close>

definition feed_channel ::
    "db_ops \<Rightarrow> detector_kind \<Rightarrow> window_geometry \<Rightarrow> nat \<Rightarrow> f64 option \<Rightarrow> nat \<Rightarrow> f32 list \<Rightarrow> detector_state
     \<Rightarrow> detector_state result" where
  "feed_channel ops detector geo tx threshold rel xs s =
     try_fold (\<lambda>st (frame, x). feed_sample ops detector geo tx frame x threshold st) s (enumerate rel xs)"

definition windowed_classify ::
    "db_ops \<Rightarrow> f32 list \<Rightarrow> nat \<Rightarrow> nat \<Rightarrow> nat \<Rightarrow> f64 \<Rightarrow> nat \<Rightarrow> channel_decision result" where
  "windowed_classify ops samples channels start_frame sample_rate threshold_dbfs capacity =
     (if channels \<noteq> 1 \<or> sample_rate = 0 \<or> length samples mod channels \<noteq> 0
      then Inl (Validation ''invalid windowed detector geometry'')
      else if capacity \<noteq> 1 then Inl (Validation ''windowed detector workspace must be mono'')
      else bindR (window_geometry_new sample_rate) (\<lambda>geo.
        let threshold = (if f64_is_finite threshold_dbfs then Some threshold_dbfs else None);
            s0 = prepare_state WindowedRmsPeak geo threshold start_frame detector_empty in
        bindR (feed_channel ops WindowedRmsPeak geo start_frame threshold 0 samples s0) (\<lambda>s1.
          bindR (finish_state ops WindowedRmsPeak geo start_frame threshold s1) (\<lambda>s2.
            Inr (channel_decision_of Auto s2)))))"

record channel_policy =
  cp_name :: string
  cp_mode :: export_mode
  cp_threshold_dbfs :: "f64 option"

record activity_policy =
  ap_detector :: detector_kind
  ap_channels :: "channel_policy list"
  ap_whole_export_exact_zero_gate :: bool
  ap_trim_leading_silence :: bool

text \<open>The threshold of a channel if it is finite.\<close>

definition threshold_of :: "channel_policy \<Rightarrow> f64 option" where
  "threshold_of cp =
     (case cp_threshold_dbfs cp of None \<Rightarrow> None | Some v \<Rightarrow> if f64_is_finite v then Some v else None)"

fun chunks_exact :: "nat \<Rightarrow> 'a list \<Rightarrow> 'a list list" where
  "chunks_exact n xs = (if n = 0 \<or> length xs < n then [] else take n xs # chunks_exact n (drop n xs))"

declare chunks_exact.simps [simp del]

text \<open>The samples of one frame go to the states of their channels, in channel order.\<close>

fun feed_frame ::
    "db_ops \<Rightarrow> detector_kind \<Rightarrow> window_geometry \<Rightarrow> nat \<Rightarrow> nat \<Rightarrow> f64 option list \<Rightarrow> f32 list \<Rightarrow> detector_state list
     \<Rightarrow> detector_state list result" where
  "feed_frame ops detector geo tx rel ths [] ss = Inr ss"
| "feed_frame ops detector geo tx rel (th # ths) (v # vs) (s # ss) =
     bindR (feed_sample ops detector geo tx rel v th s) (\<lambda>s'.
       bindR (feed_frame ops detector geo tx rel ths vs ss) (\<lambda>ss'. Inr (s' # ss')))"
| "feed_frame ops detector geo tx rel _ (v # vs) _ = Inl (Panicked ''index out of bounds'')"

fun feed_frames ::
    "db_ops \<Rightarrow> detector_kind \<Rightarrow> window_geometry \<Rightarrow> nat \<Rightarrow> f64 option list \<Rightarrow> nat \<Rightarrow> f32 list list \<Rightarrow> detector_state list
     \<Rightarrow> detector_state list result" where
  "feed_frames ops detector geo tx ths rel [] ss = Inr ss"
| "feed_frames ops detector geo tx ths rel (v # vs) ss =
     bindR (feed_frame ops detector geo tx rel ths v ss) (feed_frames ops detector geo tx ths (rel + 1) vs)"

definition prepare_states :: "activity_policy \<Rightarrow> window_geometry \<Rightarrow> nat \<Rightarrow> detector_state list" where
  "prepare_states policy geo tx =
     map (\<lambda>cp. prepare_state (ap_detector policy) geo (threshold_of cp) tx detector_empty) (ap_channels policy)"

definition finish_states ::
    "db_ops \<Rightarrow> activity_policy \<Rightarrow> window_geometry \<Rightarrow> nat \<Rightarrow> detector_state list \<Rightarrow> detector_state list result" where
  "finish_states ops policy geo tx ss =
     collectR (map2 (\<lambda>cp s. finish_state ops (ap_detector policy) geo tx (threshold_of cp) s) (ap_channels policy) ss)"

definition decisions_of :: "activity_policy \<Rightarrow> detector_state list \<Rightarrow> channel_decision list" where
  "decisions_of policy ss = map2 (\<lambda>cp s. channel_decision_of (cp_mode cp) s) (ap_channels policy) ss"

text \<open>\<open>capacity\<close> is the number of channels the workspace was built for.\<close>

definition classify_samples ::
    "db_ops \<Rightarrow> f32 list \<Rightarrow> nat \<Rightarrow> nat \<Rightarrow> nat \<Rightarrow> activity_policy \<Rightarrow> nat \<Rightarrow> channel_decision list result" where
  "classify_samples ops samples channels start_frame sample_rate policy capacity =
     (if channels = 0 \<or> length samples mod channels \<noteq> 0 \<or> length (ap_channels policy) \<noteq> channels \<or> capacity \<noteq> channels
      then Inl (Validation ''invalid activity classification geometry'')
      else bindR (window_geometry_new sample_rate) (\<lambda>geo.
        bindR (feed_frames ops (ap_detector policy) geo start_frame (map threshold_of (ap_channels policy)) 0
                 (chunks_exact channels samples) (prepare_states policy geo start_frame)) (\<lambda>ss.
          bindR (finish_states ops policy geo start_frame ss) (\<lambda>ss'. Inr (decisions_of policy ss')))))"

text \<open>
  The copy loop of \<open>classify_frozen_epoch\<close>.  \<open>copy from to buffer\<close> is the copy out of
  the frozen epoch, which fills the scratch buffer and returns the number of frames.
\<close>

function classify_loop ::
    "(nat \<Rightarrow> nat \<Rightarrow> f32 list \<Rightarrow> f32 list \<times> nat result) \<Rightarrow> db_ops \<Rightarrow> detector_kind \<Rightarrow> window_geometry
     \<Rightarrow> nat \<Rightarrow> nat \<Rightarrow> nat \<Rightarrow> f64 option list \<Rightarrow> nat \<Rightarrow> f32 list \<Rightarrow> detector_state list \<Rightarrow> detector_state list result" where
  "classify_loop copy ops detector geo start stop channels ths cursor scratch ss =
     (if cursor < stop then
        case copy cursor stop scratch of
          (_, Inl e) \<Rightarrow> Inl e
        | (scratch', Inr copied) \<Rightarrow>
            if copied = 0 then Inl (ExportInvariant ''frozen epoch copy made no progress'')
            else if length scratch' < copied * channels then Inl (Panicked ''index out of bounds'')
            else bindR (feed_frames ops detector geo start ths (cursor - start)
                          (chunks_exact channels (take (copied * channels) scratch')) ss) (\<lambda>ss'.
              case checked_add64 cursor copied of
                None \<Rightarrow> Inl (ExportInvariant ''frozen cursor overflow'')
              | Some cursor' \<Rightarrow> classify_loop copy ops detector geo start stop channels ths cursor' scratch' ss')
      else Inr ss)"
  by pat_completeness auto
termination
  by (relation "measure (\<lambda>(_, _, _, _, _, stop, _, _, cursor, _, _). stop - cursor)") auto

declare classify_loop.simps [simp del]

definition finite_zero :: "detector_state \<Rightarrow> bool" where
  "finite_zero s \<longleftrightarrow> \<not> ds_non_finite s \<and> \<not> ds_exact_nonzero s"

definition classify_frozen_epoch ::
    "db_ops \<Rightarrow> worker_state \<Rightarrow> frozen_epoch \<Rightarrow> activity_policy \<Rightarrow> f32 list \<Rightarrow> export_decision
     \<Rightarrow> export_decision \<times> (bool \<times> nat \<times> nat) result" where
  "classify_frozen_epoch ops w frozen policy scratch decision =
     (let start = fst (fe_absolute_range frozen); stop = snd (fe_absolute_range frozen);
          channels = fe_channels frozen; ths = map threshold_of (ap_channels policy);
          detector = ap_detector policy
      in
      if ed_valid decision then (decision, Inl (ExportInvariant ''frozen export decision is already final''))
      else if length scratch < channels
      then (decision, Inl (ExportInvariant ''activity workspace has invalid scratch geometry''))
      else if length (ap_channels policy) \<noteq> channels \<or> length (ed_channels decision) \<noteq> channels
      then (decision, Inl (ExportInvariant ''activity policy does not match frozen geometry''))
      else if fe_sample_rate frozen \<noteq> ed_sample_rate decision \<or> fe_sample_rate frozen = 0
      then (decision, Inl (ExportInvariant ''activity sample rate does not match frozen decision''))
      else case bindR (window_geometry_new (fe_sample_rate frozen)) (\<lambda>geo.
             bindR (classify_loop (frozen_copy w frozen) ops detector geo start stop channels ths start scratch
                      (prepare_states policy geo start)) (finish_states ops policy geo start)) of
        Inl e \<Rightarrow> (decision, Inl e)
      | Inr ss \<Rightarrow>
          (case finalize start stop (decisions_of policy ss) (ap_trim_leading_silence policy)
                  (ap_whole_export_exact_zero_gate policy \<and> list_all finite_zero ss) decision of
             (d1, Inl e) \<Rightarrow> (d1, Inl e)
           | (d1, Inr _) \<Rightarrow>
               let d2 = d1\<lparr>ed_frozen_epoch := Some (frozen_identity frozen)\<rparr> in
               (d2, Inr (ed_valid d2, fst (ed_export_range d2), snd (ed_export_range d2)))))"

end
