(* ===== verification/Activity_Windows.thy ===== *)
theory Activity_Windows
  imports Activity_Detector
begin

text \<open>
  The streaming window detector against its reference.  The code keeps two accumulators that
  leapfrog over the sample stream; the reference looks at every window
  \<open>k * hop ..< k * hop + window\<close> of the whole sample list, in order, and judges it.
\<close>

section \<open>The reference\<close>

definition window_at :: "db_ops \<Rightarrow> window_geometry \<Rightarrow> nat \<Rightarrow> f32 list \<Rightarrow> window_accumulator" where
  "window_at ops geo k xs =
     foldl (\<lambda>a x. accumulator_add ops x a) (accumulator_new (k * wg_hop geo))
       (take (wg_window geo) (drop (k * wg_hop geo) xs))"

definition judge :: "db_ops \<Rightarrow> window_geometry \<Rightarrow> nat \<Rightarrow> f64 \<Rightarrow> window_accumulator \<Rightarrow> detector_state \<Rightarrow> detector_state" where
  "judge ops geo tx level a s =
     (case evaluate_window ops tx (wg_sustained geo) level a s of Inl _ \<Rightarrow> s | Inr s' \<Rightarrow> s')"

definition judge_windows :: "db_ops \<Rightarrow> window_geometry \<Rightarrow> nat \<Rightarrow> f64 \<Rightarrow> f32 list \<Rightarrow> nat \<Rightarrow> detector_state \<Rightarrow> detector_state" where
  "judge_windows ops geo tx level xs n s = fold (\<lambda>k. judge ops geo tx level (window_at ops geo k xs)) [0..<n] s"

definition geo_ok :: "window_geometry \<Rightarrow> bool" where
  "geo_ok geo \<longleftrightarrow> 0 < wg_hop geo \<and> wg_hop geo \<le> wg_window geo \<and> wg_window geo \<le> 2 * wg_hop geo \<and> wg_window geo < u32_lim"

lemma window_geometry_ok:
  assumes "window_geometry_new rate = Inr geo"
  shows "geo_ok geo"
proof -
  have "div_ceil (rate * 20) 1000 \<le> 2 * div_ceil (rate * 10) 1000" "div_ceil (rate * 10) 1000 \<le> div_ceil (rate * 20) 1000"
    by (simp_all add: div_ceil_eq)
  moreover have "0 < div_ceil (rate * 10) 1000" if "0 < rate"
    using that by (simp add: div_ceil_eq)
  ultimately show ?thesis
    using assms by (auto simp: window_geometry_new_def geo_ok_def Let_def split: if_splits)
qed

section \<open>Windows of a growing list\<close>

lemma accumulator_add_start [simp]: "wa_start (accumulator_add ops x a) = wa_start a"
  by (simp add: accumulator_add_def Let_def)

lemma accumulator_add_count [simp]: "wa_count (accumulator_add ops x a) = wadd32 (wa_count a) 1"
  by (simp add: accumulator_add_def Let_def)

lemma accumulator_new_fields [simp]: "wa_start (accumulator_new k) = k" "wa_count (accumulator_new k) = 0"
  by (simp_all add: accumulator_new_def)

lemma fold_accumulator:
  "length xs + wa_count a < u32_lim \<Longrightarrow>
     wa_count (foldl (\<lambda>a x. accumulator_add ops x a) a xs) = wa_count a + length xs \<and>
     wa_start (foldl (\<lambda>a x. accumulator_add ops x a) a xs) = wa_start a"
  by (induction xs arbitrary: a) simp_all

lemma window_at_fields:
  assumes "geo_ok geo"
  shows "wa_count (window_at ops geo k xs) = min (wg_window geo) (length xs - k * wg_hop geo) \<and>
    wa_start (window_at ops geo k xs) = k * wg_hop geo"
proof -
  let ?ys = "take (wg_window geo) (drop (k * wg_hop geo) xs)"
  have "length ?ys \<le> wg_window geo" by simp
  also have "\<dots> < u32_lim" using assms by (simp add: geo_ok_def)
  finally have "length ?ys + wa_count (accumulator_new (k * wg_hop geo)) < u32_lim" by simp
  from fold_accumulator[OF this, of ops] show ?thesis
    unfolding window_at_def by (simp add: min.commute)
qed

lemma window_at_start [simp]: "geo_ok geo \<Longrightarrow> wa_start (window_at ops geo k xs) = k * wg_hop geo"
  using window_at_fields by blast

lemma window_at_count [simp]:
  "geo_ok geo \<Longrightarrow> wa_count (window_at ops geo k xs) = min (wg_window geo) (length xs - k * wg_hop geo)"
  using window_at_fields by blast

lemma window_at_snoc:
  "window_at ops geo k (xs @ [x]) =
     (if k * wg_hop geo \<le> length xs \<and> length xs < k * wg_hop geo + wg_window geo
      then accumulator_add ops x (window_at ops geo k xs) else window_at ops geo k xs)"
proof -
  let ?h = "k * wg_hop geo" and ?w = "wg_window geo"
  consider "length xs < ?h" | "?h \<le> length xs" "length xs < ?h + ?w" | "?h + ?w \<le> length xs"
    by linarith
  then show ?thesis
  proof cases
    case 1
    then show ?thesis by (simp add: window_at_def)
  next
    case 2
    then show ?thesis by (simp add: window_at_def)
  next
    case 3
    then show ?thesis by (simp add: window_at_def)
  qed
qed

lemma window_at_future: "length xs \<le> k * wg_hop geo \<Longrightarrow> window_at ops geo k xs = accumulator_new (k * wg_hop geo)"
  by (simp add: window_at_def)

text \<open>A window that is complete does not change when the list grows.\<close>

lemma window_at_complete:
  "k * wg_hop geo + wg_window geo \<le> length xs \<Longrightarrow> window_at ops geo k (xs @ ys) = window_at ops geo k xs"
  by (simp add: window_at_def)

definition windows_done :: "window_geometry \<Rightarrow> nat \<Rightarrow> nat" where
  "windows_done geo n = (if n < wg_window geo then 0 else (n - wg_window geo) div wg_hop geo + 1)"

lemma windows_done_iff: "geo_ok geo \<Longrightarrow> k < windows_done geo n \<longleftrightarrow> k * wg_hop geo + wg_window geo \<le> n"
proof -
  assume "geo_ok geo"
  then have h: "0 < wg_hop geo" by (simp add: geo_ok_def)
  show ?thesis
  proof (cases "n < wg_window geo")
    case False
    have "k < windows_done geo n \<longleftrightarrow> k \<le> (n - wg_window geo) div wg_hop geo"
      using False by (auto simp: windows_done_def)
    also have "\<dots> \<longleftrightarrow> k * wg_hop geo \<le> n - wg_window geo"
      using h by (simp add: less_eq_div_iff_mult_less_eq)
    finally show ?thesis using False by linarith
  qed (simp add: windows_done_def)
qed

lemma windows_done_Suc:
  assumes "geo_ok geo"
  shows "windows_done geo (Suc n) =
     (if windows_done geo n * wg_hop geo + wg_window geo = Suc n then Suc (windows_done geo n) else windows_done geo n)"
proof -
  let ?K = "windows_done geo n" and ?h = "wg_hop geo" and ?w = "wg_window geo"
  note iff = windows_done_iff[OF assms]
  have lo: "?K \<le> windows_done geo (Suc n)"
  proof (rule ccontr)
    assume "\<not> ?thesis"
    then have "windows_done geo (Suc n) < ?K" by simp
    with iff[of "windows_done geo (Suc n)" n] iff[of "windows_done geo (Suc n)" "Suc n"] show False by simp
  qed
  have open_K: "n < ?K * ?h + ?w" using iff[of ?K n] by simp
  have "0 < ?h" using assms by (simp add: geo_ok_def)
  then have "\<not> Suc ?K * ?h + ?w \<le> Suc n" using open_K by simp
  then have hi: "windows_done geo (Suc n) \<le> Suc ?K" using iff[of "Suc ?K" "Suc n"] by simp
  have "?K < windows_done geo (Suc n) \<longleftrightarrow> ?K * ?h + ?w = Suc n"
    using iff[of ?K "Suc n"] open_K by linarith
  with lo hi show ?thesis by auto
qed

section \<open>Judging\<close>

lemma evaluate_window_judge:
  "tx + wa_start a + wa_count a < u64_lim \<Longrightarrow>
     evaluate_window ops tx (wg_sustained geo) level a s = Inr (judge ops geo tx level a s)"
  by (auto simp: judge_def evaluate_window_def bindR_def ok_or_def checked_add64_def Let_def split: sum.splits)

lemma judge_empty [simp]: "wa_count a = 0 \<Longrightarrow> judge ops geo tx level a s = s"
  by (simp add: judge_def evaluate_window_def)

text \<open>
  The verdict on a window depends on the gate, the result and the evidence only, and changes
  nothing else.
\<close>

definition core :: "detector_state \<Rightarrow> nat option \<times> activity_result \<times> nat option" where
  "core s = (ds_gate_open_since s, ds_result s, ds_evidence s)"

lemma judge_keeps [simp]:
  "ds_accumulators (judge ops geo tx level a s) = ds_accumulators s"
  "ds_non_finite (judge ops geo tx level a s) = ds_non_finite s"
  "ds_exact_nonzero (judge ops geo tx level a s) = ds_exact_nonzero s"
  by (auto simp: judge_def evaluate_window_def bindR_def ok_or_def Let_def split: option.splits sum.splits)

lemma judge_accumulators:
  "judge ops geo tx level a (s\<lparr>ds_accumulators := as\<rparr>) = (judge ops geo tx level a s)\<lparr>ds_accumulators := as\<rparr>"
  by (cases s) (simp add: judge_def evaluate_window_def bindR_def ok_or_def Let_def split: option.splits)

lemma judge_core_cong:
  "core s = core t \<Longrightarrow> core (judge ops geo tx level a s) = core (judge ops geo tx level a t)"
  by (simp add: core_def judge_def evaluate_window_def bindR_def ok_or_def Let_def split: option.splits)

lemma judge_windows_Suc:
  "judge_windows ops geo tx level xs (Suc n) s =
     judge ops geo tx level (window_at ops geo n xs) (judge_windows ops geo tx level xs n s)"
  by (simp add: judge_windows_def)

lemma judge_windows_snoc:
  assumes "geo_ok geo" and "n \<le> windows_done geo (length xs)"
  shows "judge_windows ops geo tx level (xs @ ys) n s = judge_windows ops geo tx level xs n s"
  using assms(2)
proof (induction n)
  case (Suc n)
  then have "n * wg_hop geo + wg_window geo \<le> length xs"
    using windows_done_iff[OF assms(1), of n "length xs"] by simp
  with Suc show ?case by (simp add: judge_windows_Suc window_at_complete)
qed (simp add: judge_windows_def)

section \<open>The leapfrogging accumulators\<close>

definition stream_inv :: "db_ops \<Rightarrow> window_geometry \<Rightarrow> nat \<Rightarrow> f64 \<Rightarrow> detector_state \<Rightarrow> f32 list \<Rightarrow> detector_state \<Rightarrow> bool" where
  "stream_inv ops geo tx level s0 xs s \<longleftrightarrow>
     (let K = windows_done geo (length xs) in
      core s = core (judge_windows ops geo tx level xs K s0) \<and> length (ds_accumulators s) = 2 \<and>
      ds_accumulators s ! (K mod 2) = window_at ops geo K xs \<and>
      ds_accumulators s ! (Suc K mod 2) = window_at ops geo (Suc K) xs \<and>
      (ds_non_finite s \<longleftrightarrow> list_ex (\<lambda>x. \<not> f32_is_finite x) xs))"

lemma feed_accumulator_window:
  assumes geo: "geo_ok geo" and i: "i < length (ds_accumulators s)"
    and a: "ds_accumulators s ! i = window_at ops geo k xs"
    and open_k: "length xs < k * wg_hop geo + wg_window geo"
    and near: "k * wg_hop geo \<le> length xs + 2 * wg_hop geo"
    and lim: "tx + length xs + 4 * wg_hop geo < u64_lim"
  shows "feed_accumulator ops geo tx level x (length xs) i s = Inr
     (if Suc (length xs) = k * wg_hop geo + wg_window geo
      then judge ops geo tx level (window_at ops geo k (xs @ [x]))
             (s\<lparr>ds_accumulators := (ds_accumulators s)[i := window_at ops geo (k + 2) (xs @ [x])]\<rparr>)
      else s\<lparr>ds_accumulators := (ds_accumulators s)[i := window_at ops geo k (xs @ [x])]\<rparr>)"
proof -
  let ?h = "wg_hop geo" and ?w = "wg_window geo" and ?n = "length xs"
  have w: "?w \<le> 2 * ?h" "?w < u32_lim" "?h \<le> ?w" "0 < ?h" using geo by (simp_all add: geo_ok_def)
  have wadd: "wadd64 (k * ?h) ?w = k * ?h + ?w" using near w lim by (intro wadd64_exact) linarith
  show ?thesis
  proof (cases "?n < k * ?h")
    case True
    then have "window_at ops geo k (xs @ [x]) = ds_accumulators s ! i" by (simp add: a window_at_snoc)
    moreover have "Suc ?n \<noteq> k * ?h + ?w" using True w by linarith
    moreover have "s\<lparr>ds_accumulators := (ds_accumulators s)[i := window_at ops geo k xs]\<rparr> = s"
      unfolding a[symmetric] by simp
    ultimately show ?thesis
      using True geo by (simp add: feed_accumulator_def a wadd)
  next
    case False
    have snoc: "window_at ops geo k (xs @ [x]) = accumulator_add ops x (window_at ops geo k xs)"
      using False open_k by (simp add: window_at_snoc)
    have count: "wa_count (window_at ops geo k (xs @ [x])) = Suc ?n - k * ?h"
      using geo False open_k by simp
    show ?thesis
    proof (cases "Suc ?n = k * ?h + ?w")
      case True
      have next_w: "window_at ops geo (k + 2) (xs @ [x]) = accumulator_new (k * ?h + 2 * ?h)"
      proof -
        have k2: "(k + 2) * ?h = k * ?h + 2 * ?h" by (simp add: algebra_simps)
        then have "length (xs @ [x]) \<le> (k + 2) * ?h" using True w by simp
        from window_at_future[OF this] show ?thesis unfolding k2 .
      qed
      have add: "checked_add64 (k * ?h) (2 * ?h) = Some (k * ?h + 2 * ?h)"
        using near lim by simp
      have "tx + wa_start (window_at ops geo k (xs @ [x])) + wa_count (window_at ops geo k (xs @ [x])) < u64_lim"
        using geo count True w lim by simp
      note ev = evaluate_window_judge[OF this, of ops geo level]
      have full: "wa_count (window_at ops geo k (xs @ [x])) = ?w" using count True by simp
      show ?thesis
        using True False geo wadd add next_w ev full
        by (simp add: feed_accumulator_def a snoc[symmetric] Let_def checked_add64_def del: window_at_count)
    next
      case nf: False
      then have "wa_count (window_at ops geo k (xs @ [x])) \<noteq> ?w" using count open_k False by linarith
      then show ?thesis
        using False open_k geo wadd nf by (simp add: feed_accumulator_def a snoc[symmetric] Let_def del: window_at_count)
    qed
  qed
qed

text \<open>Both accumulators take in a sample; the older one may complete its window.\<close>

lemma stream_inv_step:
  assumes geo: "geo_ok geo" and inv: "stream_inv ops geo tx level s0 xs s"
    and lim: "tx + length xs + 4 * wg_hop geo < u64_lim"
  shows "\<exists>s'. feed_sample ops WindowedRmsPeak geo tx (length xs) x (Some level) s = Inr s' \<and>
     stream_inv ops geo tx level s0 (xs @ [x]) s'"
proof -
  let ?h = "wg_hop geo" and ?w = "wg_window geo" and ?n = "length xs"
  let ?K = "windows_done geo ?n" and ?W = "window_at ops geo" and ?ys = "xs @ [x]"
  let ?s1 = "note_sample WindowedRmsPeak x (tx + ?n) s"
  have w: "?w \<le> 2 * ?h" "0 < ?h" using geo by (simp_all add: geo_ok_def)
  have s1: "ds_accumulators ?s1 = ds_accumulators s" "core ?s1 = core s"
    "ds_non_finite ?s1 \<longleftrightarrow> ds_non_finite s \<or> \<not> f32_is_finite x"
    by (auto simp: note_sample_def core_def Let_def)
  have K: "?n < ?K * ?h + ?w" using windows_done_iff[OF geo, of ?K ?n] by simp
  have near: "?K * ?h \<le> ?n + ?h"
  proof (cases "?K")
    case (Suc j)
    then have "j * ?h + ?w \<le> ?n" using windows_done_iff[OF geo, of j ?n] by simp
    with Suc show ?thesis by simp
  qed simp
  have sK: "?n < Suc ?K * ?h + ?w" "Suc ?K * ?h \<le> ?n + 2 * ?h" "?K * ?h \<le> ?n + 2 * ?h" "Suc ?n \<noteq> Suc ?K * ?h + ?w"
    using K near w by simp_all
  let ?as = "ds_accumulators s"
  have as: "length ?as = 2" "?as ! (?K mod 2) = ?W ?K xs" "?as ! (Suc ?K mod 2) = ?W (Suc ?K) xs"
    using inv by (simp_all add: stream_inv_def Let_def)
  define full where "full \<longleftrightarrow> Suc ?n = ?K * ?h + ?w"
  have K': "windows_done geo (length ?ys) = (if full then Suc ?K else ?K)"
    using windows_done_Suc[OF geo, of ?n] by (auto simp: full_def)
  have fed: "feed_accumulator ops geo tx level x ?n (?K mod 2) t = Inr
       (if full then judge ops geo tx level (?W ?K ?ys) (t\<lparr>ds_accumulators := (ds_accumulators t)[?K mod 2 := ?W (?K + 2) ?ys]\<rparr>)
        else t\<lparr>ds_accumulators := (ds_accumulators t)[?K mod 2 := ?W ?K ?ys]\<rparr>)"
    if "length (ds_accumulators t) = 2" "ds_accumulators t ! (?K mod 2) = ?W ?K xs" for t
    unfolding full_def using that by (intro feed_accumulator_window[OF geo _ _ K sK(3) lim]) simp_all
  have fed': "feed_accumulator ops geo tx level x ?n (Suc ?K mod 2) t = Inr
       (t\<lparr>ds_accumulators := (ds_accumulators t)[Suc ?K mod 2 := ?W (Suc ?K) ?ys]\<rparr>)"
    if "length (ds_accumulators t) = 2" "ds_accumulators t ! (Suc ?K mod 2) = ?W (Suc ?K) xs" for t
    using that feed_accumulator_window[OF geo _ _ sK(1,2) lim, of "Suc ?K mod 2" t ops level x] sK(4) by simp
  let ?A = "?as[?K mod 2 := (if full then ?W (?K + 2) ?ys else ?W ?K ?ys), Suc ?K mod 2 := ?W (Suc ?K) ?ys]"
  have two: "bindR (feed_accumulator ops geo tx level x ?n 0 ?s1) (feed_accumulator ops geo tx level x ?n 1) = Inr
     (if full then judge ops geo tx level (?W ?K ?ys) (?s1\<lparr>ds_accumulators := ?A\<rparr>) else ?s1\<lparr>ds_accumulators := ?A\<rparr>)"
  proof (cases "even ?K")
    case True
    then have k: "?K mod 2 = 0" "Suc ?K mod 2 = 1" by presburger+
    define t where "t = (if full then judge ops geo tx level (?W ?K ?ys) (?s1\<lparr>ds_accumulators := ?as[0 := ?W (?K + 2) ?ys]\<rparr>)
                              else ?s1\<lparr>ds_accumulators := ?as[0 := ?W ?K ?ys]\<rparr>)"
    have t: "feed_accumulator ops geo tx level x ?n 0 ?s1 = Inr t"
      using fed[of ?s1] as s1(1) unfolding k t_def by simp
    have ta: "ds_accumulators t = ?as[0 := (if full then ?W (?K + 2) ?ys else ?W ?K ?ys)]"
      by (simp add: t_def)
    then have "feed_accumulator ops geo tx level x ?n 1 t = Inr (t\<lparr>ds_accumulators := ?A\<rparr>)"
      using fed'[of t] as unfolding k by simp
    with t show ?thesis by (simp add: t_def judge_accumulators)
  next
    case False
    then have k: "?K mod 2 = 1" "Suc ?K mod 2 = 0" by presburger+
    have "fed'1": "feed_accumulator ops geo tx level x ?n 0 ?s1 = Inr (?s1\<lparr>ds_accumulators := ?as[0 := ?W (Suc ?K) ?ys]\<rparr>)"
      using fed'[of ?s1] as s1(1) unfolding k by simp
    show ?thesis
      using "fed'1" fed[of "?s1\<lparr>ds_accumulators := ?as[0 := ?W (Suc ?K) ?ys]\<rparr>"] as s1(1)
      unfolding k by (simp add: list_update_swap[of "Suc 0" 0])
  qed
  let ?s' = "if full then judge ops geo tx level (?W ?K ?ys) (?s1\<lparr>ds_accumulators := ?A\<rparr>) else ?s1\<lparr>ds_accumulators := ?A\<rparr>"
  have "feed_sample ops WindowedRmsPeak geo tx ?n x (Some level) s = Inr ?s'"
    using two lim by (simp add: feed_sample_def Let_def ok_or_def checked_add64_def)
  moreover have "stream_inv ops geo tx level s0 ?ys ?s'"
  proof -
    have "?A ! (?K mod 2) = (if full then ?W (?K + 2) ?ys else ?W ?K ?ys)" "?A ! (Suc ?K mod 2) = ?W (Suc ?K) ?ys"
      using as(1) by (cases "even ?K"; simp add: mod_2_eq_odd)+
    moreover have "core ?s' = core (judge_windows ops geo tx level ?ys (windows_done geo (length ?ys)) s0)"
    proof -
      have c: "core (?s1\<lparr>ds_accumulators := ?A\<rparr>) = core (judge_windows ops geo tx level ?ys ?K s0)"
        using s1(2) inv judge_windows_snoc[OF geo order_refl, of ops tx level xs "[x]" s0]
        by (simp add: stream_inv_def Let_def core_def)
      show ?thesis
        unfolding K' using c judge_core_cong[OF c, of ops geo tx level "?W ?K ?ys"]
        by (cases full) (simp_all only: if_True if_False judge_windows_Suc)
    qed
    moreover have "ds_non_finite ?s' \<longleftrightarrow> list_ex (\<lambda>x. \<not> f32_is_finite x) ?ys"
      using s1(3) inv by (auto simp: stream_inv_def Let_def)
    moreover define B where "B = ?A"
    moreover have "length B = 2" using as(1) by (simp add: B_def)
    moreover have "ds_accumulators ?s' = B" by (simp add: B_def)
    moreover have "Suc (Suc ?K) mod 2 = ?K mod 2" "?K + 2 = Suc (Suc ?K)" by presburger+
    ultimately show ?thesis unfolding stream_inv_def K' Let_def B_def[symmetric] by (cases full) (simp_all only: if_True if_False simp_thms)
  qed
  ultimately show ?thesis by blast
qed

lemma stream_inv_feed:
  assumes geo: "geo_ok geo" and inv: "stream_inv ops geo tx level s0 xs s"
    and lim: "tx + length xs + length ys + 4 * wg_hop geo < u64_lim"
  shows "\<exists>s'. feed_channel ops WindowedRmsPeak geo tx (Some level) (length xs) ys s = Inr s' \<and>
     stream_inv ops geo tx level s0 (xs @ ys) s'"
  using inv lim
proof (induction ys arbitrary: xs s)
  case Nil
  then show ?case by (simp add: feed_channel_def)
next
  case (Cons y ys)
  have "tx + length xs + 4 * wg_hop geo < u64_lim" using Cons.prems by simp
  from stream_inv_step[OF geo Cons.prems(1) this, of y] obtain s1 where
    s1: "feed_sample ops WindowedRmsPeak geo tx (length xs) y (Some level) s = Inr s1" "stream_inv ops geo tx level s0 (xs @ [y]) s1"
    by blast
  from Cons.IH[OF s1(2)] Cons.prems(2) s1(1) show ?case by (simp add: feed_channel_def)
qed

lemma stream_inv_start:
  assumes "geo_ok geo"
  shows "stream_inv ops geo tx level detector_empty [] (prepare_state WindowedRmsPeak geo (Some level) tx detector_empty)"
proof -
  have "windows_done geo 0 = 0" using assms by (simp add: windows_done_def geo_ok_def)
  then show ?thesis
    by (simp add: stream_inv_def prepare_state_def prepare_windowed_def window_at_def judge_windows_def
        detector_empty_def core_def)
qed

lemma sorted_accumulators:
  assumes geo: "geo_ok geo" and inv: "stream_inv ops geo tx level s0 xs s" and K: "K = windows_done geo (length xs)"
  shows "sort_key wa_start (ds_accumulators s) = [window_at ops geo K xs, window_at ops geo (Suc K) xs]"
proof -
  have h: "0 < wg_hop geo" using geo by (simp add: geo_ok_def)
  have len: "length (ds_accumulators s) = 2"
    and a: "ds_accumulators s ! (K mod 2) = window_at ops geo K xs"
    and b: "ds_accumulators s ! (Suc K mod 2) = window_at ops geo (Suc K) xs"
    using inv K by (simp_all add: stream_inv_def Let_def)
  obtain p q where pq: "ds_accumulators s = [p, q]"
    using len by (auto simp: numeral_2_eq_2 length_Suc_conv)
  show ?thesis
  proof (cases "even K")
    case True
    then have "K mod 2 = 0" "Suc K mod 2 = 1" by presburger+
    then have "p = window_at ops geo K xs" "q = window_at ops geo (Suc K) xs" using a b pq by simp_all
    then show ?thesis using geo pq h by simp
  next
    case False
    then have "K mod 2 = 1" "Suc K mod 2 = 0" by presburger+
    then have "q = window_at ops geo K xs" "p = window_at ops geo (Suc K) xs" using a b pq by simp_all
    then show ?thesis using geo pq h by simp
  qed
qed

text \<open>The windows that begin within the samples are the complete ones and at most two partial ones.\<close>

lemma judge_windows_all:
  assumes geo: "geo_ok geo" and K: "K = windows_done geo (length xs)"
  shows "judge_windows ops geo tx level xs (Suc (Suc K)) s = judge_windows ops geo tx level xs (div_ceil (length xs) (wg_hop geo)) s"
proof -
  let ?h = "wg_hop geo" and ?n = "length xs"
  have h: "0 < ?h" "wg_window geo \<le> 2 * ?h" "0 < wg_window geo" using geo by (simp_all add: geo_ok_def)
  have begins: "k < div_ceil ?n ?h \<longleftrightarrow> k * ?h < ?n" for k
  proof -
    have "k < div_ceil ?n ?h \<Longrightarrow> k * ?h < ?n"
    proof -
      assume "k < div_ceil ?n ?h"
      then have "Suc k * ?h \<le> div_ceil ?n ?h * ?h" by (intro mult_le_mono1) simp
      with div_ceil_mult_less[OF h(1), of ?n] show ?thesis by simp
    qed
    moreover have "k * ?h < ?n \<Longrightarrow> k < div_ceil ?n ?h"
    proof -
      assume "k * ?h < ?n"
      with div_ceil_mult_ge[OF h(1), of ?n] have "k * ?h < div_ceil ?n ?h * ?h" by linarith
      then show ?thesis by simp
    qed
    ultimately show ?thesis by blast
  qed
  have quiet: "judge_windows ops geo tx level xs (m + d) s = judge_windows ops geo tx level xs m s"
    if "?n \<le> m * ?h" for m d
  proof (induction d)
    case (Suc d)
    have "?n \<le> (m + d) * ?h" using that by (simp add: algebra_simps)
    then have "wa_count (window_at ops geo (m + d) xs) = 0" using geo by simp
    with Suc show ?case by (simp add: judge_windows_Suc del: window_at_count)
  qed simp
  have "?n \<le> Suc (Suc K) * ?h"
    using windows_done_iff[OF geo, of K ?n] h K by simp
  then have "div_ceil ?n ?h \<le> Suc (Suc K)"
    using begins[of "Suc (Suc K)"] by linarith
  moreover have "?n \<le> div_ceil ?n ?h * ?h" using div_ceil_mult_ge[OF h(1)] .
  ultimately show ?thesis
    using quiet[of "div_ceil ?n ?h" "Suc (Suc K) - div_ceil ?n ?h"] by simp
qed

definition reference_state :: "db_ops \<Rightarrow> window_geometry \<Rightarrow> nat \<Rightarrow> f64 \<Rightarrow> f32 list \<Rightarrow> detector_state" where
  "reference_state ops geo tx level xs =
     (let s = judge_windows ops geo tx level xs (div_ceil (length xs) (wg_hop geo)) detector_empty in
      if list_ex (\<lambda>x. \<not> f32_is_finite x) xs then s\<lparr>ds_result := Ambiguous\<rparr> else s)"

lemma finish_stream:
  assumes geo: "geo_ok geo" and inv: "stream_inv ops geo tx level detector_empty xs s"
    and lim: "tx + length xs + 4 * wg_hop geo < u64_lim"
  shows "\<exists>s'. finish_state ops WindowedRmsPeak geo tx (Some level) s = Inr s' \<and> core s' = core (reference_state ops geo tx level xs)"
proof -
  let ?n = "length xs" and ?h = "wg_hop geo" and ?w = "wg_window geo" and ?J = "judge ops geo tx level"
  define K where "K = windows_done geo ?n"
  let ?a = "window_at ops geo K xs" and ?b = "window_at ops geo (Suc K) xs"
  have h: "0 < ?h" "?w \<le> 2 * ?h" using geo by (simp_all add: geo_ok_def)
  have ev: "(if 0 < wa_count (window_at ops geo k xs) then evaluate_window ops tx (wg_sustained geo) level (window_at ops geo k xs) t
             else Inr t) = Inr (?J (window_at ops geo k xs) t)" for k t
  proof (cases "0 < wa_count (window_at ops geo k xs)")
    case True
    then have "k * ?h < ?n" using geo by simp
    then have "tx + wa_start (window_at ops geo k xs) + wa_count (window_at ops geo k xs) < u64_lim"
      using geo lim min.cobounded2[of ?w "?n - k * ?h"] by simp
    from evaluate_window_judge[OF this] True show ?thesis by simp
  qed (simp del: window_at_count)
  let ?t = "?J ?b (?J ?a s)"
  have fin: "finish_state ops WindowedRmsPeak geo tx (Some level) s =
      Inr (if ds_non_finite s then ?t\<lparr>ds_result := Ambiguous\<rparr> else ?t)"
    using sorted_accumulators[OF geo inv K_def] by (simp add: finish_state_def ev)
  have c: "core s = core (judge_windows ops geo tx level xs K detector_empty)"
    and nf: "ds_non_finite s \<longleftrightarrow> list_ex (\<lambda>x. \<not> f32_is_finite x) xs"
    using inv by (simp_all add: stream_inv_def Let_def K_def)
  have "core ?t = core (judge_windows ops geo tx level xs (Suc (Suc K)) detector_empty)"
    unfolding judge_windows_Suc by (intro judge_core_cong c)
  then have "core ?t = core (judge_windows ops geo tx level xs (div_ceil ?n ?h) detector_empty)"
    by (simp only: judge_windows_all[OF geo K_def])
  then show ?thesis
    unfolding fin using nf by (auto simp: reference_state_def Let_def core_def)
qed

lemma windowed_channel:
  assumes geo: "geo_ok geo" and lim: "tx + length xs + 4 * wg_hop geo < u64_lim"
  shows "\<exists>s1 s2. feed_channel ops WindowedRmsPeak geo tx (Some level) 0 xs
            (prepare_state WindowedRmsPeak geo (Some level) tx detector_empty) = Inr s1 \<and>
     finish_state ops WindowedRmsPeak geo tx (Some level) s1 = Inr s2 \<and>
     core s2 = core (reference_state ops geo tx level xs) \<and>
     (ds_non_finite s1 \<longleftrightarrow> list_ex (\<lambda>x. \<not> f32_is_finite x) xs)"
proof -
  from stream_inv_feed[OF geo stream_inv_start[OF geo], of tx xs ops level] lim obtain s1 where
    s1: "feed_channel ops WindowedRmsPeak geo tx (Some level) 0 xs
            (prepare_state WindowedRmsPeak geo (Some level) tx detector_empty) = Inr s1"
    and inv: "stream_inv ops geo tx level detector_empty xs s1" by auto
  from finish_stream[OF geo inv lim] s1 inv show ?thesis by (auto simp: stream_inv_def Let_def)
qed

section \<open>The detector is its reference\<close>

text \<open>
  (C38) The streaming window detector computes its reference.  For a finite threshold and any
  samples (at frame numbers below the 64-bit limit), the mono detector with its two
  leapfrogging accumulators never fails and returns the decision of the reference, which judges
  every window \<open>k * hop ..< k * hop + window\<close> of the whole recording in order, the last ones
  cut off at its end, and reports ambiguity when a sample is not finite.
\<close>

theorem windowed_detector_is_reference:
  assumes "window_geometry_new rate = Inr geo" and "f64_is_finite level"
    and "tx + length xs + 4 * wg_hop geo < u64_lim"
  shows "windowed_classify ops xs 1 tx rate level 1 =
         Inr (channel_decision_of Auto (reference_state ops geo tx level xs))"
proof -
  have rate: "rate \<noteq> 0" using assms(1) by (cases "rate = 0") (simp_all add: window_geometry_new_def)
  from windowed_channel[OF window_geometry_ok[OF assms(1)] assms(3), of ops level] obtain s1 s2 where
    run: "feed_channel ops WindowedRmsPeak geo tx (Some level) 0 xs
            (prepare_state WindowedRmsPeak geo (Some level) tx detector_empty) = Inr s1"
      "finish_state ops WindowedRmsPeak geo tx (Some level) s1 = Inr s2"
    and c: "core s2 = core (reference_state ops geo tx level xs)" by blast
  have "channel_decision_of Auto s2 = channel_decision_of Auto (reference_state ops geo tx level xs)"
    using c by (simp add: core_def channel_decision_of_def)
  with run rate assms(1,2) show ?thesis by (simp add: windowed_classify_def Let_def)
qed

definition demo_db :: db_ops where
  "demo_db = \<lparr>fp_of_f32 = ucast, fp_mul = (\<lambda>x y. x * y), fp_add = (\<lambda>x y. x + y), fp_div = (\<lambda>x y. x),
     fp_of_u64 = of_nat, fp_sqrt = (\<lambda>x. x), fp_to_f32 = ucast, fp_max32 = max,
     fp_sub = (\<lambda>x y. x), fp_max = max, fp_log10 = (\<lambda>x. x), fp_le = (\<le>), fp_lt = (<)\<rparr>"

definition demo_geo :: window_geometry where
  "demo_geo = \<lparr>wg_window = 2, wg_hop = 1, wg_sustained = 10\<rparr>"

lemma demo_geometry: "window_geometry_new 100 = Inr demo_geo"
  by (simp add: window_geometry_new_def div_ceil_def u32_lim_def demo_geo_def Let_def)

theorem windowed_detector_is_reference_witness:
  "windowed_classify demo_db [1, 2, 0] 1 5 100 7 1 =
     Inr (channel_decision_of Auto (reference_state demo_db demo_geo 5 7 [1, 2, 0]))"
proof -
  have "f64_is_finite 7" by (simp add: f64_is_finite_def)
  from windowed_detector_is_reference[OF demo_geometry this, of 5 "[1, 2, 0]" demo_db] show ?thesis
    by (simp add: u64_lim_def demo_geo_def)
qed

end
