(* ===== verification/Activity_Verdict.thy ===== *)
theory Activity_Verdict
  imports Activity_Windows
begin

text \<open>
  What the verdict of the window detector means: a channel is inactive exactly when no window
  reaches the closing threshold or the transient level, and the evidence is the first window
  that does.
\<close>

definition window_rms :: "db_ops \<Rightarrow> window_accumulator \<Rightarrow> f64" where
  "window_rms ops a = dbfs ops (fp_sqrt ops (fp_div ops (wa_sum_squares a) (fp_of_u64 ops (wa_count a))))"

definition close_level :: "db_ops \<Rightarrow> f64 \<Rightarrow> f64" where
  "close_level ops level = fp_sub ops level 0x4018000000000000"

definition loud :: "db_ops \<Rightarrow> f64 \<Rightarrow> window_accumulator \<Rightarrow> bool" where
  "loud ops level a \<longleftrightarrow>
     fp_le ops (close_level ops level) (window_rms ops a) \<or>
     fp_le ops (fp_add ops level 0x4028000000000000) (dbfs ops (wa_peak a))"

text \<open>
  What IEEE comparison guarantees for levels that are not NaN: less-than is the negation of
  greater-or-equal, and a level above the opening threshold is above the closing one.  The level
  of a window is not NaN when the window has a sample: the sum adds squares of finite
  \<open>f32\<close> only, so it is finite and not negative, and it is divided by a positive count.
\<close>

definition ordered_at :: "db_ops \<Rightarrow> f64 \<Rightarrow> f64 \<Rightarrow> bool" where
  "ordered_at ops level r \<longleftrightarrow>
     (fp_lt ops r (close_level ops level) \<longleftrightarrow> \<not> fp_le ops (close_level ops level) r) \<and>
     (fp_le ops level r \<longrightarrow> fp_le ops (close_level ops level) r)"

text \<open>The verdict in terms of its comparisons.\<close>

definition verdict :: "nat \<Rightarrow> nat \<Rightarrow> nat \<Rightarrow> bool \<Rightarrow> bool \<Rightarrow> bool \<Rightarrow> bool \<Rightarrow> detector_state \<Rightarrow> detector_state" where
  "verdict sustained first stop hot transient opens cold s =
     (let s1 = (if hot \<or> transient
                then s\<lparr>ds_evidence := Some (case ds_evidence s of None \<Rightarrow> first | Some e \<Rightarrow> min e first),
                       ds_result := (if ds_result s = Inactive then Ambiguous else ds_result s)\<rparr>
                else s)
      in if transient then s1\<lparr>ds_result := Active\<rparr>
         else case ds_gate_open_since s1 of
           Some since \<Rightarrow> if cold then s1\<lparr>ds_gate_open_since := None\<rparr>
                         else if sustained \<le> saturating_sub64 stop since then s1\<lparr>ds_result := Active\<rparr> else s1
         | None \<Rightarrow> if opens then (let s2 = s1\<lparr>ds_gate_open_since := Some first\<rparr> in
                                  if sustained \<le> saturating_sub64 stop first then s2\<lparr>ds_result := Active\<rparr> else s2)
                   else s1)"

lemma judge_eq_verdict:
  assumes "wa_count a \<noteq> 0" and "tx + wa_start a + wa_count a < u64_lim"
  shows "judge ops geo tx level a s =
     verdict (wg_sustained geo) (tx + wa_start a) (tx + wa_start a + wa_count a)
       (fp_le ops (close_level ops level) (window_rms ops a))
       (fp_le ops (fp_add ops level 0x4028000000000000) (dbfs ops (wa_peak a)))
       (fp_le ops level (window_rms ops a)) (fp_lt ops (window_rms ops a) (close_level ops level)) s"
proof -
  have "checked_add64 tx (wa_start a) = Some (tx + wa_start a)"
    "checked_add64 (tx + wa_start a) (wa_count a) = Some (tx + wa_start a + wa_count a)"
    using assms(2) by simp_all
  then show ?thesis
    using assms(1) by (simp only: judge_def evaluate_window_def verdict_def window_rms_def close_level_def
        ok_or_simps bindR_simps Let_def sum.case if_False)
qed

lemma verdict_fields:
  assumes "cold \<longleftrightarrow> \<not> hot" and "opens \<Longrightarrow> hot" and "ds_gate_open_since s \<noteq> None \<longrightarrow> ds_result s \<noteq> Inactive"
  shows "(ds_result (verdict sus first stop hot transient opens cold s) \<noteq> Inactive \<longleftrightarrow>
            ds_result s \<noteq> Inactive \<or> hot \<or> transient) \<and>
     (ds_gate_open_since (verdict sus first stop hot transient opens cold s) \<noteq> None \<longrightarrow>
        ds_result (verdict sus first stop hot transient opens cold s) \<noteq> Inactive) \<and>
     ds_evidence (verdict sus first stop hot transient opens cold s) =
       (if hot \<or> transient then Some (case ds_evidence s of None \<Rightarrow> first | Some e \<Rightarrow> min e first) else ds_evidence s)"
  using assms by (cases hot; cases transient; cases opens; cases "ds_gate_open_since s")
    (simp_all add: verdict_def Let_def)

lemma find_append: "find p (xs @ ys) = (case find p xs of None \<Rightarrow> find p ys | Some x \<Rightarrow> Some x)"
  by (induction xs) simp_all

lemma judge_verdict:
  assumes "wa_count a \<noteq> 0" and "tx + wa_start a + wa_count a < u64_lim"
    and "ordered_at ops level (window_rms ops a)"
    and "ds_gate_open_since s \<noteq> None \<longrightarrow> ds_result s \<noteq> Inactive"
  shows "(ds_result (judge ops geo tx level a s) \<noteq> Inactive \<longleftrightarrow> ds_result s \<noteq> Inactive \<or> loud ops level a) \<and>
     (ds_gate_open_since (judge ops geo tx level a s) \<noteq> None \<longrightarrow> ds_result (judge ops geo tx level a s) \<noteq> Inactive) \<and>
     ds_evidence (judge ops geo tx level a s) =
       (if loud ops level a then Some (case ds_evidence s of None \<Rightarrow> tx + wa_start a | Some e \<Rightarrow> min e (tx + wa_start a))
        else ds_evidence s)"
proof -
  have "fp_lt ops (window_rms ops a) (close_level ops level) \<longleftrightarrow> \<not> fp_le ops (close_level ops level) (window_rms ops a)"
    "fp_le ops level (window_rms ops a) \<Longrightarrow> fp_le ops (close_level ops level) (window_rms ops a)"
    using assms(3) by (simp_all add: ordered_at_def)
  from verdict_fields[OF this assms(4)] show ?thesis
    unfolding judge_eq_verdict[OF assms(1,2)] loud_def .
qed

lemma judge_windows_verdict:
  assumes geo: "geo_ok geo" and lim: "tx + length xs < u64_lim" and n: "n \<le> div_ceil (length xs) (wg_hop geo)"
    and ord: "\<And>k. k < div_ceil (length xs) (wg_hop geo) \<Longrightarrow> ordered_at ops level (window_rms ops (window_at ops geo k xs))"
    and s: "s = judge_windows ops geo tx level xs n detector_empty"
  shows "(ds_result s = Inactive \<longleftrightarrow> (\<forall>k<n. \<not> loud ops level (window_at ops geo k xs))) \<and>
     (ds_gate_open_since s \<noteq> None \<longrightarrow> ds_result s \<noteq> Inactive) \<and>
     ds_evidence s = map_option (\<lambda>k. tx + k * wg_hop geo) (find (\<lambda>k. loud ops level (window_at ops geo k xs)) [0..<n])"
  using n s
proof (induction n arbitrary: s)
  case 0
  then show ?case by (simp add: judge_windows_def detector_empty_def)
next
  case (Suc n)
  let ?h = "wg_hop geo" and ?a = "window_at ops geo n xs"
  let ?t = "judge_windows ops geo tx level xs n detector_empty" and ?p = "\<lambda>k. loud ops level (window_at ops geo k xs)"
  have h: "0 < ?h" using geo by (simp add: geo_ok_def)
  have "Suc n * ?h \<le> div_ceil (length xs) ?h * ?h" using Suc.prems(1) by (rule mult_le_mono1)
  with div_ceil_mult_less[OF h, of "length xs"] have begins: "n * ?h < length xs" by simp
  then have c: "wa_count ?a \<noteq> 0" "tx + wa_start ?a + wa_count ?a < u64_lim"
    using geo lim min.cobounded2[of "wg_window geo" "length xs - n * ?h"] by (auto simp: geo_ok_def)
  have t: "(ds_result ?t = Inactive \<longleftrightarrow> (\<forall>k<n. \<not> ?p k))"
    "ds_gate_open_since ?t \<noteq> None \<longrightarrow> ds_result ?t \<noteq> Inactive"
    "ds_evidence ?t = map_option (\<lambda>k. tx + k * ?h) (find ?p [0..<n])"
    using Suc.IH[OF _ refl] Suc.prems(1) by auto
  have first: "find ?p [0..<Suc n] = (case find ?p [0..<n] of Some k \<Rightarrow> Some k | None \<Rightarrow> if ?p n then Some n else None)"
    by (simp add: find_append split: option.splits)
  have below: "find ?p [0..<n] = Some k \<Longrightarrow> k < n" for k
    by (auto simp: find_Some_iff)
  have "n < div_ceil (length xs) ?h" using Suc.prems(1) by simp
  note ord_n = ord[OF this]
  show ?case
  proof (intro conjI)
    note v = judge_verdict[OF c ord_n t(2), of geo] Suc.prems(2)[unfolded judge_windows_Suc]
    show "ds_result s = Inactive \<longleftrightarrow> (\<forall>k<Suc n. \<not> ?p k)"
      using v t(1) by (auto simp: less_Suc_eq)
    show "ds_gate_open_since s \<noteq> None \<longrightarrow> ds_result s \<noteq> Inactive"
      using v by simp
    show "ds_evidence s = map_option (\<lambda>k. tx + k * ?h) (find ?p [0..<Suc n])"
      unfolding first using v t(3) geo below
      by (cases "find ?p [0..<n]") (auto simp: min_def)
  qed
qed

text \<open>
  (C39) The verdict of the window detector.  With a comparison that is ordered at the levels of
  the windows of the recording, all of which have a sample, a channel is reported inactive exactly when all its samples are finite and none of its
  windows is loud (at the closing threshold or above, or with a transient peak); the evidence
  frame is the start of the first loud window, and there is none when no window is loud.
\<close>

theorem inactive_iff_quiet:
  assumes "window_geometry_new rate = Inr geo" and "f64_is_finite level"
    and "tx + length xs + 4 * wg_hop geo < u64_lim"
    and "\<forall>k < div_ceil (length xs) (wg_hop geo). ordered_at ops level (window_rms ops (window_at ops geo k xs))"
  shows "\<exists>d. windowed_classify ops xs 1 tx rate level 1 = Inr d \<and>
     (cd_result d = Inactive \<longleftrightarrow> list_all f32_is_finite xs \<and>
        list_all (\<lambda>k. \<not> loud ops level (window_at ops geo k xs)) [0..<div_ceil (length xs) (wg_hop geo)]) \<and>
     cd_first_evidence_frame d = map_option (\<lambda>k. tx + k * wg_hop geo)
        (find (\<lambda>k. loud ops level (window_at ops geo k xs)) [0..<div_ceil (length xs) (wg_hop geo)]) \<and>
     (cd_disposition d = Omit \<longleftrightarrow> cd_result d = Inactive)"
proof -
  let ?n = "div_ceil (length xs) (wg_hop geo)"
  have geo: "geo_ok geo" using assms(1) by (rule window_geometry_ok)
  have lim: "tx + length xs < u64_lim" using assms(3) by linarith
  from windowed_channel[OF geo assms(3), of ops level] obtain s1 s2 where
    run: "feed_channel ops WindowedRmsPeak geo tx (Some level) 0 xs
            (prepare_state WindowedRmsPeak geo (Some level) tx detector_empty) = Inr s1"
      "finish_state ops WindowedRmsPeak geo tx (Some level) s1 = Inr s2"
    and c: "core s2 = core (reference_state ops geo tx level xs)" by blast
  have rate: "rate \<noteq> 0" using assms(1) by (cases "rate = 0") (simp_all add: window_geometry_new_def)
  have call: "windowed_classify ops xs 1 tx rate level 1 = Inr (channel_decision_of Auto s2)"
    using run rate assms(1,2) by (simp add: windowed_classify_def Let_def)
  note v = judge_windows_verdict[OF geo lim order_refl assms(4)[rule_format] refl]
  have r: "ds_result s2 = Inactive \<longleftrightarrow> list_all f32_is_finite xs \<and> (\<forall>k<?n. \<not> loud ops level (window_at ops geo k xs))"
    "ds_evidence s2 = map_option (\<lambda>k. tx + k * wg_hop geo) (find (\<lambda>k. loud ops level (window_at ops geo k xs)) [0..<?n])"
    using c v by (auto simp: core_def reference_state_def Let_def list_ex_iff list_all_iff split: if_splits)
  have d: "canonical_disposition Auto q = Omit \<longleftrightarrow> q = Inactive" for q by (cases q) simp_all
  show ?thesis
    unfolding call using r d by (auto simp: channel_decision_of_def list_all_iff)
qed

section \<open>A recording of three frames\<close>

text \<open>
  The comparisons of IEEE 754, on bit patterns: a number is ordered by its sign and magnitude,
  and a comparison with NaN is false.
\<close>

definition f64_not_a_number :: "f64 \<Rightarrow> bool" where
  "f64_not_a_number b \<longleftrightarrow> \<not> f64_is_finite b \<and> unat b mod 2 ^ 52 \<noteq> 0"

definition f64_rank :: "f64 \<Rightarrow> int" where
  "f64_rank b = (if unat b < 2 ^ 63 then int (unat b) else 2 ^ 63 - int (unat b))"

definition ieee_le :: "f64 \<Rightarrow> f64 \<Rightarrow> bool" where
  "ieee_le a b \<longleftrightarrow> \<not> f64_not_a_number a \<and> \<not> f64_not_a_number b \<and> f64_rank a \<le> f64_rank b"

definition ieee_lt :: "f64 \<Rightarrow> f64 \<Rightarrow> bool" where
  "ieee_lt a b \<longleftrightarrow> \<not> f64_not_a_number a \<and> \<not> f64_not_a_number b \<and> f64_rank a < f64_rank b"

lemma ieee_ordered_at:
  assumes "fp_le ops = ieee_le" and "fp_lt ops = ieee_lt"
    and "ieee_le (close_level ops level) level" and "\<not> f64_not_a_number r"
  shows "ordered_at ops level r"
  using assms by (auto simp: ordered_at_def ieee_le_def ieee_lt_def)

text \<open>
  The other operations as IEEE 754 computes them at the arguments of this run, among them
  0 / 0 of a window without a sample; elsewhere they give NaN.
\<close>

definition tabulated :: "('a \<times> f64) list \<Rightarrow> 'a \<Rightarrow> f64" where
  "tabulated table a = (case map_of table a of None \<Rightarrow> 0x7FF8000000000000 | Some v \<Rightarrow> v)"

definition run_ops :: db_ops where
  "run_ops = \<lparr>fp_of_f32 = tabulated [(0, 0), (0x3F800000, 0x3FF0000000000000)],
     fp_mul = (\<lambda>x y. tabulated [((0, 0), 0), ((0x3FF0000000000000, 0x3FF0000000000000), 0x3FF0000000000000),
        ((0x4034000000000000, 0), 0), ((0x4034000000000000, 0xBFC34413509F79FE), 0xC008151824C7587E)] (x, y)),
     fp_add = (\<lambda>x y. tabulated [((0, 0), 0), ((0, 0x3FF0000000000000), 0x3FF0000000000000),
        ((0xC048000000000000, 0x4028000000000000), 0xC042000000000000)] (x, y)),
     fp_div = (\<lambda>x y. tabulated [((0, 0x3FF0000000000000), 0), ((0, 0x4000000000000000), 0),
        ((0x3FF0000000000000, 0x4000000000000000), 0x3FE0000000000000),
        ((0x3FF0000000000000, 0x3FF0000000000000), 0x3FF0000000000000), ((0, 0), 0x7FF8000000000000)] (x, y)),
     fp_of_u64 = tabulated [(0, 0), (1, 0x3FF0000000000000), (2, 0x4000000000000000)],
     fp_sqrt = tabulated [(0, 0), (0x3FE0000000000000, 0x3FE6A09E667F3BCD), (0x3FF0000000000000, 0x3FF0000000000000)],
     fp_to_f32 = (\<lambda>_. 0x7FC00000), fp_max32 = (\<lambda>_ _. 0x7FC00000),
     fp_sub = (\<lambda>x y. tabulated [((0xC048000000000000, 0x4018000000000000), 0xC04B000000000000)] (x, y)),
     fp_max = (\<lambda>x y. tabulated [((0, 0), 0), ((0, 0x3FF0000000000000), 0x3FF0000000000000)] (x, y)),
     fp_log10 = tabulated [(0x3FE6A09E667F3BCD, 0xBFC34413509F79FE), (0x3FF0000000000000, 0)],
     fp_le = ieee_le, fp_lt = ieee_lt\<rparr>"

text \<open>The threshold is -48 dB; the levels are those of silence, -3 dB, 0 dB and no sample at all.\<close>

lemmas run_eval = window_rms_def window_at_def demo_geo_def run_ops_def tabulated_def accumulator_new_def accumulator_add_def Let_def
  wadd32_def u32_lim_def f32_is_finite_def f64_abs_def dbfs_def f64_is_zero_def

lemma run_levels:
  "map (\<lambda>k. window_rms run_ops (window_at run_ops demo_geo k [0, 0, 0x3F800000])) [0, 1, 2, 3]
     = [0xC05E000000000000, 0xC008151824C7587E, 0, 0x7FF8000000000000]"
  "map (\<lambda>k. window_rms run_ops (window_at run_ops demo_geo k [0, 0, 0])) [0, 1, 2, 3]
     = [0xC05E000000000000, 0xC05E000000000000, 0xC05E000000000000, 0x7FF8000000000000]"
  by (simp_all add: run_eval)

lemma run_peaks:
  "map (\<lambda>k. dbfs run_ops (wa_peak (window_at run_ops demo_geo k [0, 0, 0x3F800000]))) [0, 1, 2] = [0xC05E000000000000, 0, 0]"
  "map (\<lambda>k. dbfs run_ops (wa_peak (window_at run_ops demo_geo k [0, 0, 0]))) [0, 1, 2]
     = [0xC05E000000000000, 0xC05E000000000000, 0xC05E000000000000]"
  by (simp_all add: run_eval)

lemma run_thresholds:
  "close_level run_ops 0xC048000000000000 = 0xC04B000000000000" "fp_add run_ops 0xC048000000000000 0x4028000000000000 = 0xC042000000000000"
  "fp_le run_ops = ieee_le" "fp_lt run_ops = ieee_lt"
  by (simp_all add: close_level_def run_ops_def tabulated_def)

lemma run_comparisons:
  "\<not> ieee_le 0xC04B000000000000 0xC05E000000000000" "ieee_le 0xC04B000000000000 0xC008151824C7587E" "ieee_le 0xC04B000000000000 0"
  "\<not> ieee_le 0xC042000000000000 0xC05E000000000000" "ieee_le 0xC042000000000000 0" "ieee_le 0xC04B000000000000 0xC048000000000000"
  by (simp_all add: ieee_le_def f64_rank_def f64_not_a_number_def f64_is_finite_def)

lemma run_loud:
  "map (\<lambda>k. loud run_ops 0xC048000000000000 (window_at run_ops demo_geo k [0, 0, 0x3F800000])) [0, 1, 2] = [False, True, True]"
  "map (\<lambda>k. loud run_ops 0xC048000000000000 (window_at run_ops demo_geo k [0, 0, 0])) [0, 1, 2] = [False, False, False]"
  using run_levels run_peaks by (simp_all add: loud_def run_thresholds run_comparisons)

lemma run_ordered:
  assumes "k < div_ceil 3 1"
  shows "ordered_at run_ops 0xC048000000000000 (window_rms run_ops (window_at run_ops demo_geo k [0, 0, 0x3F800000]))"
    and "ordered_at run_ops 0xC048000000000000 (window_rms run_ops (window_at run_ops demo_geo k [0, 0, 0]))"
proof -
  have k: "k = 0 \<or> k = 1 \<or> k = 2" using assms by (auto simp: div_ceil_def)
  have num: "\<not> f64_not_a_number 0xC05E000000000000" "\<not> f64_not_a_number 0xC008151824C7587E" "\<not> f64_not_a_number 0"
    by (simp_all add: f64_not_a_number_def f64_is_finite_def)
  have "ieee_le (close_level run_ops 0xC048000000000000) 0xC048000000000000" by (simp add: run_thresholds run_comparisons)
  note ordered = ieee_ordered_at[OF run_thresholds(3,4) this]
  from k show "ordered_at run_ops 0xC048000000000000 (window_rms run_ops (window_at run_ops demo_geo k [0, 0, 0x3F800000]))"
    using run_levels(1) num by (intro ordered) auto
  from k show "ordered_at run_ops 0xC048000000000000 (window_rms run_ops (window_at run_ops demo_geo k [0, 0, 0]))"
    using run_levels(2) num by (intro ordered) auto
qed

lemma run_ordered_all:
  "\<forall>k < div_ceil 3 1. ordered_at run_ops 0xC048000000000000 (window_rms run_ops (window_at run_ops demo_geo k [0, 0, 0x3F800000]))"
  "\<forall>k < div_ceil 3 1. ordered_at run_ops 0xC048000000000000 (window_rms run_ops (window_at run_ops demo_geo k [0, 0, 0]))"
  using run_ordered by blast+

theorem inactive_iff_quiet_witness:
  "(\<exists>d. windowed_classify run_ops [0, 0, 0x3F800000] 1 5 100 0xC048000000000000 1 = Inr d \<and>
      cd_result d \<noteq> Inactive \<and> cd_first_evidence_frame d = Some 6 \<and> cd_disposition d = Retain) \<and>
   (\<exists>d. windowed_classify run_ops [0, 0, 0] 1 5 100 0xC048000000000000 1 = Inr d \<and>
      cd_result d = Inactive \<and> cd_first_evidence_frame d = None \<and> cd_disposition d = Omit)"
proof -
  let ?L = "0xC048000000000000 :: f64"
  have fin: "f64_is_finite ?L" by (simp add: f64_is_finite_def)
  have geo: "wg_hop demo_geo = 1" by (simp add: demo_geo_def)
  have upt: "[0..<div_ceil 3 1] = [0, 1, 2]" by (simp add: div_ceil_def upt_rec)
  have f32: "f32_is_finite 0" by (simp add: f32_is_finite_def)
  have retain: "cd_disposition d = Retain \<longleftrightarrow> cd_disposition d \<noteq> Omit" for d by (cases "cd_disposition d") simp_all
  have len: "length [0, 0, 0x3F800000 :: f32] = 3" "length [0, 0, 0 :: f32] = 3" by simp_all
  have lim: "5 + 3 + 4 * 1 < u64_lim" by (simp add: u64_lim_def)
  note run = inactive_iff_quiet[OF demo_geometry fin, unfolded geo]
  have signal: "\<exists>d. windowed_classify run_ops [0, 0, 0x3F800000] 1 5 100 ?L 1 = Inr d \<and>
      cd_result d \<noteq> Inactive \<and> cd_first_evidence_frame d = Some 6 \<and> cd_disposition d = Retain"
    using run[of 5 "[0, 0, 0x3F800000]" run_ops, unfolded len upt, OF lim run_ordered_all(1)] run_loud(1)
    by (elim exE conjE) (simp add: retain)
  have silence: "\<exists>d. windowed_classify run_ops [0, 0, 0] 1 5 100 ?L 1 = Inr d \<and>
      cd_result d = Inactive \<and> cd_first_evidence_frame d = None \<and> cd_disposition d = Omit"
    using run[of 5 "[0, 0, 0]" run_ops, unfolded len upt, OF lim run_ordered_all(2)] run_loud(2) f32
    by (elim exE conjE) simp
  from signal silence show ?thesis ..
qed

end
