(* ===== verification/Activity_Epoch.thy ===== *)
theory Activity_Epoch
  imports Activity_Verdict Capture_Epochs
begin

text \<open>
  Classification of a frozen epoch: the interface of the source that the classification reads
  in chunks, the proof that reading in chunks is one pass over the whole content, and the
  totality of the detectors.
\<close>

section \<open>Frames and channels\<close>

lemma chunks_exact_0 [simp]: "chunks_exact 0 xs = []"
  by (simp add: chunks_exact.simps[of 0])

lemma chunks_exact_Nil [simp]: "chunks_exact n [] = []"
  by (cases n) (simp_all add: chunks_exact.simps[of "Suc _" "[]"])

lemma chunks_exact_step: "0 < n \<Longrightarrow> n \<le> length xs \<Longrightarrow> chunks_exact n xs = take n xs # chunks_exact n (drop n xs)"
  by (subst chunks_exact.simps) simp

lemma chunks_exact_append: "length xs = m * n \<Longrightarrow> chunks_exact n (xs @ ys) = chunks_exact n xs @ chunks_exact n ys"
proof (cases "n = 0")
  case False
  show "length xs = m * n \<Longrightarrow> ?thesis"
  proof (induction m arbitrary: xs)
    case (Suc m)
    then have "n \<le> length xs" "length (drop n xs) = m * n" by simp_all
    with Suc.IH[of "drop n xs"] False show ?case by (simp add: chunks_exact_step)
  qed simp
qed simp

lemma length_chunks_exact:
  assumes "length xs = m * n" and "0 < n"
  shows "length (chunks_exact n xs) = m \<and> list_all (\<lambda>v. length v = n) (chunks_exact n xs)"
  using assms(1)
proof (induction m arbitrary: xs)
  case (Suc m)
  then have le: "n \<le> length xs" and ld: "length (drop n xs) = m * n" by simp_all
  from Suc.IH[OF ld] le assms(2) show ?case by (simp add: chunks_exact_step min_absorb2)
qed simp

text \<open>One channel of a list of frames.\<close>

definition channel_column :: "nat \<Rightarrow> 'a list list \<Rightarrow> 'a list" where
  "channel_column c frames = map (\<lambda>v. v ! c) frames"

lemma feed_frames_append:
  "feed_frames ops det geo tx ths rel (xs @ ys) ss =
     bindR (feed_frames ops det geo tx ths rel xs ss) (feed_frames ops det geo tx ths (rel + length xs) ys)"
proof (induction xs arbitrary: rel ss)
  case (Cons v vs)
  then show ?case by (cases "feed_frame ops det geo tx rel ths v ss") simp_all
qed simp

lemma feed_frame_channels:
  assumes "length ths = length vs" and "length ss = length vs"
    and "\<And>c. c < length vs \<Longrightarrow> feed_sample ops det geo tx rel (vs ! c) (ths ! c) (ss ! c) = Inr (g c)"
  shows "feed_frame ops det geo tx rel ths vs ss = Inr (map g [0..<length vs])"
  using assms
proof (induction vs arbitrary: ths ss g)
  case (Cons v vs)
  obtain th ths' s ss' where eq: "ths = th # ths'" "ss = s # ss'"
    using Cons.prems(1,2) by (cases ths; cases ss) auto
  have "feed_frame ops det geo tx rel ths' vs ss' = Inr (map (\<lambda>c. g (Suc c)) [0..<length vs])"
    using Cons.prems eq by (intro Cons.IH) (use Cons.prems(3)[of "Suc _"] in auto)
  moreover have "feed_sample ops det geo tx rel v th s = Inr (g 0)" using Cons.prems(3)[of 0] eq by simp
  moreover have "map g [0..<Suc (length vs)] = g 0 # map (\<lambda>c. g (Suc c)) [0..<length vs]"
    by (simp only: map_upt_Suc)
  ultimately show ?case by (simp add: eq)
qed simp

lemma feed_channel_Cons:
  "feed_channel ops det geo tx th rel (x # xs) s =
     bindR (feed_sample ops det geo tx rel x th s) (feed_channel ops det geo tx th (rel + 1) xs)"
  by (simp add: feed_channel_def[abs_def])

lemma feed_channel_snoc:
  "feed_channel ops det geo tx th rel (xs @ [x]) s =
     bindR (feed_channel ops det geo tx th rel xs s) (feed_sample ops det geo tx (rel + length xs) x th)"
proof -
  have "enumerate rel (xs @ [x]) = enumerate rel xs @ [(rel + length xs, x)]"
    by (simp add: enumerate_append_eq)
  moreover have "bindR m (\<lambda>s. bindR (f s) Inr) = bindR m f" for m :: "detector_state result" and f :: "detector_state \<Rightarrow> detector_state result"
    by (cases m) (simp_all add: bindR_def split: sum.splits)
  ultimately show ?thesis by (simp add: feed_channel_def try_fold_append)
qed

text \<open>Feeding frames is feeding each channel on its own, as long as no channel fails.\<close>

lemma feed_frames_channels:
  assumes "list_all (\<lambda>v. length v = N) frames" and "length ths = N" and "length ss = N"
    and "\<And>c. c < N \<Longrightarrow> feed_channel ops det geo tx (ths ! c) rel (channel_column c frames) (ss ! c) = Inr (g c)"
  shows "feed_frames ops det geo tx ths rel frames ss = Inr (map g [0..<N])"
  using assms
proof (induction frames arbitrary: rel ss)
  case Nil
  then have "ss ! c = g c" if "c < N" for c using that by (simp add: feed_channel_def channel_column_def)
  with Nil show ?case by (auto intro: nth_equalityI)
next
  case (Cons v frames)
  have "\<exists>s. feed_sample ops det geo tx rel (v ! c) (ths ! c) (ss ! c) = Inr s \<and>
      feed_channel ops det geo tx (ths ! c) (rel + 1) (channel_column c frames) s = Inr (g c)" if "c < N" for c
    using Cons.prems(4)[OF that] by (auto simp: channel_column_def feed_channel_Cons bindR_Inr_iff)
  then obtain h where h: "\<And>c. c < N \<Longrightarrow> feed_sample ops det geo tx rel (v ! c) (ths ! c) (ss ! c) = Inr (h c) \<and>
      feed_channel ops det geo tx (ths ! c) (rel + 1) (channel_column c frames) (h c) = Inr (g c)" by metis
  have "length v = N" using Cons.prems(1) by simp
  then have "feed_frame ops det geo tx rel ths v ss = Inr (map h [0..<N])"
    using feed_frame_channels[of ths v ss ops det geo tx rel h] Cons.prems h by simp
  moreover have "feed_frames ops det geo tx ths (rel + 1) frames (map h [0..<N]) = Inr (map g [0..<N])"
    using Cons.prems h by (intro Cons.IH) auto
  ultimately show ?case by simp
qed

section \<open>Reading a source in chunks\<close>

locale export_source =
  fixes valid :: "'s \<Rightarrow> bool"
    and first :: "'s \<Rightarrow> nat"
    and stop :: "'s \<Rightarrow> nat"
    and width :: "'s \<Rightarrow> nat"
    and content :: "'s \<Rightarrow> f32 list"
    and copy :: "'s \<Rightarrow> nat \<Rightarrow> nat \<Rightarrow> f32 list \<Rightarrow> f32 list \<times> nat result"
  assumes shape: "valid x \<Longrightarrow> 0 < width x \<and> first x \<le> stop x \<and> length (content x) = (stop x - first x) * width x"
    and copy_slice: "\<lbrakk>valid x; first x \<le> s; s \<le> e; e \<le> stop x; length dest = n * width x; s + n < u64_lim;
          length dest < u64_lim\<rbrakk> \<Longrightarrow>
          copy x s e dest = (blit dest 0 (take (min (e - s) n * width x) (drop ((s - first x) * width x) (content x))),
                             Inr (min (e - s) n))"
begin

lemma loop_is_one_pass:
  assumes v: "valid x" and n: "0 < n" "stop x + n < u64_lim" "n * width x < u64_lim"
    and cur: "first x \<le> cursor" "cursor \<le> stop x" and scratch: "length scratch = n * width x"
  shows "classify_loop (copy x) ops det geo (first x) (stop x) (width x) ths cursor scratch ss =
     feed_frames ops det geo (first x) ths (cursor - first x)
       (chunks_exact (width x) (drop ((cursor - first x) * width x) (content x))) ss"
  using cur scratch
proof (induction "stop x - cursor" arbitrary: cursor scratch ss rule: less_induct)
  case less
  let ?w = "width x" and ?k = "(cursor - first x) * width x"
  have shp: "0 < ?w" "first x \<le> stop x" "length (content x) = (stop x - first x) * ?w" using shape[OF v] by simp_all
  show ?case
  proof (cases "cursor < stop x")
    case False
    then have "drop ?k (content x) = []" using shp less.prems by simp
    with False show ?thesis by (simp add: classify_loop.simps)
  next
    case True
    define m where "m = min (stop x - cursor) n"
    define ys where "ys = take (m * ?w) (drop ?k (content x))"
    define scratch' where "scratch' = blit scratch 0 ys"
    have "cursor - first x + m \<le> stop x - first x" using less.prems True by (simp add: m_def)
    then have "(cursor - first x + m) * ?w \<le> (stop x - first x) * ?w" by (rule mult_le_mono1)
    then have "?k + m * ?w \<le> (stop x - first x) * ?w" by (simp add: add_mult_distrib)
    then have ys: "length ys = m * ?w" using shp by (simp add: ys_def min_absorb2)
    have "m * ?w \<le> n * ?w" by (simp add: m_def)
    then have len: "length ys \<le> length scratch" using ys less.prems(3) by simp
    then have tk: "take (m * ?w) scratch' = ys" and ls: "length scratch' = n * ?w"
      using ys less.prems(3) by (simp_all add: scratch'_def blit_def)
    have cp: "copy x cursor (stop x) scratch = (scratch', Inr m)"
      using copy_slice[OF v less.prems(1,2) order_refl less.prems(3)] n less.prems(2,3)
      by (simp add: m_def ys_def scratch'_def)
    have m: "0 < m" "cursor + m \<le> stop x" "\<not> length scratch' < m * ?w"
      using True n ls len ys less.prems(3) by (simp_all add: m_def)
    have add: "cursor + m < u64_lim" using m n by simp
    have split: "drop ?k (content x) = ys @ drop ((cursor + m - first x) * ?w) (content x)"
    proof -
      have "(cursor + m - first x) * ?w = m * ?w + ?k" using less.prems(1) by (simp add: algebra_simps diff_mult_distrib)
      then show ?thesis unfolding ys_def by (metis append_take_drop_id drop_drop)
    qed
    have ck: "chunks_exact ?w (drop ?k (content x)) =
        chunks_exact ?w ys @ chunks_exact ?w (drop ((cursor + m - first x) * ?w) (content x))"
      unfolding split by (rule chunks_exact_append[OF ys])
    have lc: "length (chunks_exact ?w ys) = m" using length_chunks_exact[OF ys shp(1)] by simp
    have ih: "classify_loop (copy x) ops det geo (first x) (stop x) ?w ths (cursor + m) scratch' ss' =
        feed_frames ops det geo (first x) ths (cursor + m - first x)
          (chunks_exact ?w (drop ((cursor + m - first x) * ?w) (content x))) ss'" for ss'
      using m less.prems(1) ls True by (intro less.hyps) simp_all
    have rel: "cursor - first x + m = cursor + m - first x" using less.prems(1) by simp
    show ?thesis
      unfolding ck feed_frames_append lc rel
      using True m cp add tk ih by (subst classify_loop.simps) (simp add: checked_add64_def)
  qed
qed

end

text \<open>A frozen epoch whose descriptor is outstanding is such a source.\<close>

type_synonym frozen_source = "ring_config \<times> worker_state \<times> f32 list \<times> nat \<times> frozen_descriptor"

definition frozen_valid :: "frozen_source \<Rightarrow> bool" where
  "frozen_valid x \<longleftrightarrow> (case x of (c, w, hist, rid, d) \<Rightarrow> worker_inv c w hist \<and> desc_ok c w d)"

definition frozen_first :: "frozen_source \<Rightarrow> nat" where
  "frozen_first x = (case x of (c, w, hist, rid, d) \<Rightarrow> fst (fd_absolute_range d))"

definition frozen_stop :: "frozen_source \<Rightarrow> nat" where
  "frozen_stop x = (case x of (c, w, hist, rid, d) \<Rightarrow> snd (fd_absolute_range d))"

definition frozen_width :: "frozen_source \<Rightarrow> nat" where
  "frozen_width x = (case x of (c, w, hist, rid, d) \<Rightarrow> rc_channels c)"

definition frozen_content :: "frozen_source \<Rightarrow> f32 list" where
  "frozen_content x = (case x of (c, w, hist, rid, d) \<Rightarrow>
     frames_slice (rc_channels c) hist (fst (fd_absolute_range d)) (snd (fd_absolute_range d)))"

definition frozen_source_copy :: "frozen_source \<Rightarrow> nat \<Rightarrow> nat \<Rightarrow> f32 list \<Rightarrow> f32 list \<times> nat result" where
  "frozen_source_copy x = (case x of (c, w, hist, rid, d) \<Rightarrow> frozen_copy w (frozen_epoch_from_descriptor rid d))"

lemma length_frames_slice:
  assumes "b * ch \<le> length hist"
  shows "length (frames_slice ch hist a b) = (b - a) * ch"
proof -
  have "(b - a) * ch \<le> length hist - a * ch" using assms by (simp add: diff_mult_distrib)
  then show ?thesis unfolding frames_slice_def length_take length_drop by (rule min_absorb2)
qed

lemma desc_end_le_head:
  assumes inv: "worker_inv c w hist" and dk: "desc_ok c w d"
  shows "snd (fd_absolute_range d) \<le> w_absolute_head w"
proof -
  let ?i = "fd_index d" and ?ch = "rc_channels c"
  let ?r = "w_epochs w ! ?i"
  have fr: "w_frozen w = Some (?i, fd_generation d)" and i: "?i < 2" and b: "fd_base d = w_bases w ! ?i"
    and e: "snd (fd_absolute_range d) = fd_base d + write_head_frame ?r" using dk by (auto simp: desc_ok_def)
  have ok: "epoch_ok ?r (frames_slice ?ch hist (w_bases w ! ?i) (w_bases w ! w_active w))"
    and le: "w_bases w ! ?i \<le> w_bases w ! w_active w" "w_bases w ! w_active w \<le> w_absolute_head w" "0 < ?ch"
    and ch: "ch_of ?r = ?ch"
    using inv fr i by (auto simp: worker_inv_def)
  have "length (frames_slice ?ch hist (w_bases w ! ?i) (w_bases w ! w_active w)) \<le> (w_bases w ! w_active w - w_bases w ! ?i) * ?ch"
    unfolding frames_slice_def length_take by (rule min.cobounded2)
  with epoch.head_length[OF ok] ch have "write_head_frame ?r * ?ch \<le> (w_bases w ! w_active w - w_bases w ! ?i) * ?ch"
    by simp
  then have "write_head_frame ?r \<le> w_bases w ! w_active w - w_bases w ! ?i" using le(3) by simp
  with e b le show ?thesis by linarith
qed

interpretation frozen: export_source frozen_valid frozen_first frozen_stop frozen_width frozen_content frozen_source_copy
proof unfold_locales
  fix x assume v: "frozen_valid x"
  obtain c w hist rid d where x: "x = (c, w, hist, rid, d)" by (cases x)
  have inv: "worker_inv c w hist" and dk: "desc_ok c w d" using v by (simp_all add: x frozen_valid_def)
  have "snd (fd_absolute_range d) * rc_channels c \<le> w_absolute_head w * rc_channels c"
    by (rule mult_le_mono1) (rule desc_end_le_head[OF inv dk])
  also have "\<dots> = length hist" using inv by (simp add: worker_inv_def)
  finally have "length (frozen_content x) = (frozen_stop x - frozen_first x) * frozen_width x"
    unfolding x frozen_content_def frozen_stop_def frozen_first_def frozen_width_def prod.case by (rule length_frames_slice)
  moreover have "0 < rc_channels c" "fst (fd_absolute_range d) \<le> snd (fd_absolute_range d)"
    using inv dk unfolding worker_inv_def desc_ok_def by blast+
  ultimately show "0 < frozen_width x \<and> frozen_first x \<le> frozen_stop x \<and>
      length (frozen_content x) = (frozen_stop x - frozen_first x) * frozen_width x"
    by (simp add: x frozen_width_def frozen_first_def frozen_stop_def)
next
  fix x s e and dest :: "f32 list" and n
  assume h: "frozen_valid x" "frozen_first x \<le> s" "s \<le> e" "e \<le> frozen_stop x" "length dest = n * frozen_width x"
    "s + n < u64_lim" "length dest < u64_lim"
  obtain c w hist rid d where x: "x = (c, w, hist, rid, d)" by (cases x)
  let ?ch = "rc_channels c" and ?a = "fst (fd_absolute_range d)" and ?b = "snd (fd_absolute_range d)"
  have inv: "worker_inv c w hist" and dk: "desc_ok c w d" using h(1) by (simp_all add: x frozen_valid_def)
  have le: "?a \<le> s" "e \<le> ?b" using h(2,4) by (simp_all add: x frozen_first_def frozen_stop_def)
  have "(min (e - s) n + (s - ?a)) * ?ch \<le> (?b - ?a) * ?ch"
    using le h(3) by (intro mult_le_mono1) linarith
  then have "take (min (e - s) n * ?ch) (drop ((s - ?a) * ?ch) (frames_slice ?ch hist ?a ?b)) =
      take (min (e - s) n * ?ch) (drop (s * ?ch) hist)"
  proof -
    assume fits: "(min (e - s) n + (s - ?a)) * ?ch \<le> (?b - ?a) * ?ch"
    then have le2: "min (e - s) n * ?ch \<le> (?b - ?a) * ?ch - (s - ?a) * ?ch"
      by (simp only: add_mult_distrib)
    have eq: "(s - ?a) * ?ch + ?a * ?ch = s * ?ch"
      using le(1) by (simp flip: add_mult_distrib)
    have "drop ((s - ?a) * ?ch) (frames_slice ?ch hist ?a ?b) = take ((?b - ?a) * ?ch - (s - ?a) * ?ch) (drop (s * ?ch) hist)"
      unfolding frames_slice_def drop_take drop_drop eq ..
    then show ?thesis using le2 by (simp add: min_absorb1)
  qed
  with frozen_copy_exact[OF inv dk le(1) h(3) le(2), of dest n rid] h
  show "frozen_source_copy x s e dest =
      (blit dest 0 (take (min (e - s) n * frozen_width x) (drop ((s - frozen_first x) * frozen_width x) (frozen_content x))),
       Inr (min (e - s) n))"
    by (simp add: x frozen_source_copy_def frozen_width_def frozen_first_def frozen_content_def)
qed

end
