(* ===== verification/Activity_Theorems.thy ===== *)
theory Activity_Theorems
  imports Activity_Epoch Capture_Theorems
begin

text \<open>
  The properties of the classification: the exact-zero detector, the crop of the export range,
  and the classification of a frozen epoch, which never fails and is the classification of its
  frames in one piece.
\<close>

section \<open>The sample flags and the exact-zero detector\<close>

definition audible :: "f32 \<Rightarrow> bool" where
  "audible x \<longleftrightarrow> f32_is_finite x \<and> \<not> f32_is_zero x"

definition streams :: "detector_kind \<Rightarrow> f64 option \<Rightarrow> bool" where
  "streams det th \<longleftrightarrow> det = WindowedRmsPeak \<and> th \<noteq> None"

lemma feed_sample_flags:
  assumes "\<not> streams det th" and "tx + k < u64_lim"
  shows "feed_sample ops det geo tx k x th s = Inr (note_sample det x (tx + k) s)"
  using assms by (auto simp: feed_sample_def streams_def ok_or_def checked_add64_def Let_def split: option.splits)

lemma find_nth_snoc:
  "find (\<lambda>k. p ((xs @ [x]) ! k)) [0..<Suc (length xs)] =
     (case find (\<lambda>k. p (xs ! k)) [0..<length xs] of Some k \<Rightarrow> Some k | None \<Rightarrow> if p x then Some (length xs) else None)"
proof -
  have "find (\<lambda>k. p ((xs @ [x]) ! k)) [0..<length xs] = find (\<lambda>k. p (xs ! k)) [0..<length xs]"
    by (rule find_cong) (simp_all add: nth_append)
  then show ?thesis by (simp add: find_append split: option.splits)
qed

lemma feed_channel_flags:
  assumes "\<not> streams det th" and "tx + length xs < u64_lim"
  shows "\<exists>s'. feed_channel ops det geo tx th 0 xs s = Inr s' \<and>
     (ds_non_finite s' \<longleftrightarrow> ds_non_finite s \<or> list_ex (\<lambda>x. \<not> f32_is_finite x) xs) \<and>
     (ds_exact_nonzero s' \<longleftrightarrow> ds_exact_nonzero s \<or> list_ex audible xs) \<and>
     (if det = ExactZero
      then ds_result s' = (if list_ex audible xs then Active else ds_result s) \<and>
           ds_evidence s' = (case ds_evidence s of Some e \<Rightarrow> Some e
              | None \<Rightarrow> map_option (\<lambda>k. tx + k) (find (\<lambda>k. audible (xs ! k)) [0..<length xs]))
      else ds_result s' = ds_result s \<and> ds_evidence s' = ds_evidence s)"
  using assms(2)
proof (induction xs rule: rev_induct)
  case Nil
  then show ?case by (simp add: feed_channel_def split: option.splits)
next
  case (snoc x xs)
  then obtain t where t: "feed_channel ops det geo tx th 0 xs s = Inr t"
    and nf: "ds_non_finite t \<longleftrightarrow> ds_non_finite s \<or> list_ex (\<lambda>x. \<not> f32_is_finite x) xs"
    and nz: "ds_exact_nonzero t \<longleftrightarrow> ds_exact_nonzero s \<or> list_ex audible xs"
    and ez: "if det = ExactZero
      then ds_result t = (if list_ex audible xs then Active else ds_result s) \<and>
           ds_evidence t = (case ds_evidence s of Some e \<Rightarrow> Some e
              | None \<Rightarrow> map_option (\<lambda>k. tx + k) (find (\<lambda>k. audible (xs ! k)) [0..<length xs]))
      else ds_result t = ds_result s \<and> ds_evidence t = ds_evidence s" by auto
  let ?u = "note_sample det x (tx + length xs) t"
  have run: "feed_channel ops det geo tx th 0 (xs @ [x]) s = Inr ?u"
    using t feed_sample_flags[OF assms(1)] snoc.prems by (simp add: feed_channel_snoc)
  have flags: "ds_non_finite ?u \<longleftrightarrow> ds_non_finite t \<or> \<not> f32_is_finite x" "ds_exact_nonzero ?u \<longleftrightarrow> ds_exact_nonzero t \<or> audible x"
    by (auto simp: note_sample_def audible_def Let_def)
  have rest: "det \<noteq> ExactZero \<Longrightarrow> ds_result ?u = ds_result t \<and> ds_evidence ?u = ds_evidence t"
    "det = ExactZero \<Longrightarrow> ds_result ?u = (if audible x then Active else ds_result t) \<and>
       ds_evidence ?u = (case ds_evidence t of Some e \<Rightarrow> Some e | None \<Rightarrow> if audible x then Some (tx + length xs) else None)"
    by (auto simp: note_sample_def audible_def Let_def split: option.splits)
  have ev: "map_option (\<lambda>k. tx + k) (find (\<lambda>k. audible ((xs @ [x]) ! k)) [0..<length (xs @ [x])]) =
      (case map_option (\<lambda>k. tx + k) (find (\<lambda>k. audible (xs ! k)) [0..<length xs]) of
         Some e \<Rightarrow> Some e | None \<Rightarrow> if audible x then Some (tx + length xs) else None)"
    using find_nth_snoc[of audible xs x] by (simp split: option.splits)
  show ?case
  proof (cases "det = ExactZero")
    case True
    then show ?thesis using run flags rest(2) nf nz ez unfolding ev by (auto split: option.splits)
  next
    case False
    then show ?thesis using run flags rest(1) nf nz ez by auto
  qed
qed

lemma finish_flags:
  "\<not> streams det th \<Longrightarrow> finish_state ops det geo tx th s = Inr (if ds_non_finite s then s\<lparr>ds_result := Ambiguous\<rparr> else s)"
  by (auto simp: finish_state_def streams_def split: option.splits)

text \<open>The evidence of the window detector lies within the samples.\<close>

lemma judge_evidence:
  "ds_evidence (judge ops geo tx level a s) = ds_evidence s \<or>
   wa_count a \<noteq> 0 \<and> ds_evidence (judge ops geo tx level a s) =
     Some (case ds_evidence s of None \<Rightarrow> tx + wa_start a | Some e \<Rightarrow> min e (tx + wa_start a))"
proof (cases "wa_count a \<noteq> 0 \<and> tx + wa_start a + wa_count a < u64_lim")
  case True
  then show ?thesis
    unfolding judge_eq_verdict[OF conjunct1[OF True] conjunct2[OF True]]
    by (simp add: verdict_def Let_def split: option.splits)
next
  case False
  then have "judge ops geo tx level a s = s"
    by (auto simp: judge_def evaluate_window_def bindR_def ok_or_def checked_add64_def Let_def split: sum.splits)
  then show ?thesis by simp
qed

lemma judge_windows_evidence:
  assumes "geo_ok geo"
  shows "ds_evidence (judge_windows ops geo tx level xs n detector_empty) = Some e \<Longrightarrow> tx \<le> e \<and> e < tx + length xs"
proof (induction n arbitrary: e)
  case 0
  then show ?case by (simp add: judge_windows_def detector_empty_def)
next
  case (Suc n)
  let ?a = "window_at ops geo n xs" and ?t = "judge_windows ops geo tx level xs n detector_empty"
  have a: "wa_count ?a \<noteq> 0 \<Longrightarrow> n * wg_hop geo < length xs" using assms by simp
  from judge_evidence[of ops geo tx level ?a ?t] Suc.prems[unfolded judge_windows_Suc] show ?case
  proof (elim disjE conjE)
    assume "wa_count ?a \<noteq> 0" and "ds_evidence (judge ops geo tx level ?a ?t) =
      Some (case ds_evidence ?t of None \<Rightarrow> tx + wa_start ?a | Some e \<Rightarrow> min e (tx + wa_start ?a))"
    with a Suc.prems[unfolded judge_windows_Suc] Suc.IH assms show ?thesis
      by (auto simp: min_def split: option.splits if_splits)
  qed (use Suc.IH in auto)
qed

text \<open>Every detector runs to its end and finds its evidence among the frames it was fed.\<close>

lemma channel_total:
  assumes geo: "geo_ok geo" and lim: "tx + length xs + 4 * wg_hop geo < u64_lim" and ne: "xs \<noteq> []"
  shows "\<exists>s1 s2. feed_channel ops det geo tx th 0 xs (prepare_state det geo th tx detector_empty) = Inr s1 \<and>
     finish_state ops det geo tx th s1 = Inr s2 \<and>
     (\<forall>e. ds_evidence s2 = Some e \<longrightarrow> tx \<le> e \<and> e < tx + length xs)"
proof (cases "streams det th")
  case True
  then obtain level where l: "det = WindowedRmsPeak" "th = Some level" by (auto simp: streams_def)
  from windowed_channel[OF geo lim, of ops level] obtain s1 s2 where
    run: "feed_channel ops det geo tx th 0 xs (prepare_state det geo th tx detector_empty) = Inr s1"
      "finish_state ops det geo tx th s1 = Inr s2"
    and c: "core s2 = core (reference_state ops geo tx level xs)" unfolding l by blast
  have "ds_evidence s2 = ds_evidence (judge_windows ops geo tx level xs (div_ceil (length xs) (wg_hop geo)) detector_empty)"
    using c by (simp add: core_def reference_state_def Let_def split: if_splits)
  with run judge_windows_evidence[OF geo] show ?thesis by metis
next
  case False
  have lim': "tx + length xs < u64_lim" using lim by linarith
  let ?s0 = "prepare_state det geo th tx detector_empty"
  obtain s1 where s1: "feed_channel ops det geo tx th 0 xs ?s0 = Inr s1"
    and e': "if det = ExactZero
      then ds_result s1 = (if list_ex audible xs then Active else ds_result ?s0) \<and> ds_evidence s1 = (case ds_evidence ?s0 of Some e \<Rightarrow> Some e
              | None \<Rightarrow> map_option (\<lambda>k. tx + k) (find (\<lambda>k. audible (xs ! k)) [0..<length xs]))
      else ds_result s1 = ds_result ?s0 \<and> ds_evidence s1 = ds_evidence ?s0"
    using feed_channel_flags[OF False lim', of ops geo ?s0] by blast
  have e: "if det = ExactZero
      then ds_evidence s1 = (case ds_evidence ?s0 of Some e \<Rightarrow> Some e
              | None \<Rightarrow> map_option (\<lambda>k. tx + k) (find (\<lambda>k. audible (xs ! k)) [0..<length xs]))
      else ds_evidence s1 = ds_evidence ?s0"
    using e' by (simp split: if_splits)
  have e0: "ds_evidence ?s0 = Some f \<Longrightarrow> f = tx" "det = ExactZero \<Longrightarrow> ds_evidence ?s0 = None" for f
    by (auto simp: prepare_state_def prepare_windowed_def detector_empty_def Let_def split: if_splits)
  have "tx \<le> f \<and> f < tx + length xs" if "ds_evidence s1 = Some f" for f
  proof (cases "det = ExactZero")
    case True
    with that e e0(2) obtain k where "f = tx + k" "find (\<lambda>k. audible (xs ! k)) [0..<length xs] = Some k" by auto
    then show ?thesis by (auto simp: find_Some_iff)
  next
    case False
    with that e e0(1) ne show ?thesis by simp
  qed
  with s1 finish_flags[OF False] show ?thesis by simp
qed

section \<open>The crop\<close>

lemma fold_min: "fold min fs f \<in> set (f # fs) \<and> (\<forall>g\<in>set (f # fs). fold min fs f \<le> (g::nat))"
proof (induction fs arbitrary: f)
  case (Cons g gs)
  from Cons.IH[of "min g f"] show ?case by (auto simp: min_def split: if_splits)
qed simp

lemma crop_start_bounds:
  assumes "start \<le> stop" and "\<forall>f\<in>set frames. start \<le> f \<and> f < stop"
  shows "start \<le> crop_start rate trim frames start" "crop_start rate trim frames start \<le> stop"
    "f \<in> set frames \<Longrightarrow> crop_start rate trim frames start = start \<or> crop_start rate trim frames start + 2 * rate \<le> f"
proof -
  show "start \<le> crop_start rate trim frames start" by (simp add: crop_start_def)
  show "crop_start rate trim frames start \<le> stop"
  proof (cases frames)
    case (Cons g gs)
    with assms fold_min[of gs g] have "fold min gs g < stop" by (metis list.set_intros(1) set_ConsD)
    with Cons assms(1) show ?thesis by (auto simp: crop_start_def saturating_sub64_def)
  qed (use assms in \<open>simp add: crop_start_def\<close>)
  show "crop_start rate trim frames start = start \<or> crop_start rate trim frames start + 2 * rate \<le> f" if f: "f \<in> set frames"
  proof (cases frames)
    case (Cons g gs)
    with f fold_min[of gs g] have "fold min gs g \<le> f" by auto
    with Cons show ?thesis by (auto simp: crop_start_def saturating_sub64_def max_def split: if_splits)
  qed (use f in simp)
qed

text \<open>The channel decisions a final decision holds.\<close>

definition forced :: "bool \<Rightarrow> channel_decision list \<Rightarrow> bool" where
  "forced zero_gate channels \<longleftrightarrow> list_all (\<lambda>ch. cd_mode ch = Never) channels \<or> zero_gate"

lemma evidence_frames_iff:
  "f \<in> set (evidence_frames fo channels) \<longleftrightarrow>
     \<not> fo \<and> (\<exists>ch\<in>set channels. cd_disposition ch = Retain \<and> cd_first_evidence_frame ch = Some f)"
  by (force simp: evidence_frames_def)

lemma evidence_inside:
  assumes "\<not> list_ex (evidence_outside start stop) channels"
  shows "\<forall>f\<in>set (evidence_frames fo channels). start \<le> f \<and> f < stop"
proof
  fix f assume "f \<in> set (evidence_frames fo channels)"
  then obtain ch where "ch \<in> set channels" "cd_first_evidence_frame ch = Some f" by (auto simp: evidence_frames_iff)
  with assms have "\<not> (f < start \<or> stop \<le> f)" by (fastforce simp: list_ex_iff evidence_outside_def)
  then show "start \<le> f \<and> f < stop" by linarith
qed

lemma finalize_success:
  assumes "\<not> ed_valid d" and "start \<le> stop" and "length channels = length (ed_channels d)"
    and "\<not> list_ex contradicts channels" and "\<not> list_ex (evidence_outside start stop) channels"
  shows "finalize start stop channels trim zero_gate d =
     (d\<lparr>ed_channels := map (\<lambda>ch. if forced zero_gate channels then ch\<lparr>cd_disposition := Omit\<rparr> else ch) channels,
        ed_export_range := (crop_start (ed_sample_rate d) trim (evidence_frames (forced zero_gate channels) channels) start, stop),
        ed_valid := True\<rparr>, Inr ())"
proof -
  from crop_start_bounds(2)[OF assms(2) evidence_inside[OF assms(5)]]
  have "\<not> stop < crop_start (ed_sample_rate d) trim (evidence_frames (forced zero_gate channels) channels) start"
    by (simp add: not_less)
  with assms show ?thesis by (simp add: finalize_def forced_def Let_def)
qed

text \<open>
  (C40) A final decision crops safely.  When \<open>finalize\<close> succeeds, the export range ends with
  the frozen range and starts inside it; without trimming it is the whole range; a channel that
  is retained is one whose mode and result say so; and no evidence of a retained channel is cut
  off: the export starts with the frozen range or at least two seconds before it.  When it
  fails, the decision is unchanged.
\<close>

theorem finalize_crops_safely:
  assumes "finalize start stop channels trim zero_gate d = (d', res)"
  shows "case res of
      Inl e \<Rightarrow> d' = d
    | Inr _ \<Rightarrow> (case ed_export_range d' of (b, e) \<Rightarrow>
        e = stop \<and> start \<le> b \<and> b \<le> stop \<and> (trim \<or> b = start) \<and> ed_valid d' \<and>
        list_all (\<lambda>ch. cd_disposition ch = Omit \<or>
            canonical_disposition (cd_mode ch) (cd_result ch) = Retain \<and>
            (case cd_first_evidence_frame ch of None \<Rightarrow> True | Some f \<Rightarrow> b = start \<or> b + 2 * ed_sample_rate d \<le> f))
          (ed_channels d'))"
proof (cases res)
  case (Inl e)
  then show ?thesis using assms by (auto simp: finalize_def Let_def split: if_splits)
next
  case (Inr u)
  then have ok: "\<not> ed_valid d" "start \<le> stop" "length channels = length (ed_channels d)"
      "\<not> list_ex contradicts channels" "\<not> list_ex (evidence_outside start stop) channels"
    using assms by (auto simp: finalize_def split: if_splits)
  let ?fo = "forced zero_gate channels" and ?b = "crop_start (ed_sample_rate d) trim (evidence_frames (forced zero_gate channels) channels) start"
  have d': "d' = d\<lparr>ed_channels := map (\<lambda>ch. if ?fo then ch\<lparr>cd_disposition := Omit\<rparr> else ch) channels,
        ed_export_range := (?b, stop), ed_valid := True\<rparr>"
    using assms finalize_success[OF ok, of trim zero_gate] by simp
  have ins: "\<forall>f\<in>set (evidence_frames ?fo channels). start \<le> f \<and> f < stop"
    by (rule evidence_inside[OF ok(5)])
  note b = crop_start_bounds[OF ok(2) ins, where rate = "ed_sample_rate d" and trim = trim]
  have "cd_disposition ch = Omit \<or> canonical_disposition (cd_mode ch) (cd_result ch) = Retain \<and>
      (case cd_first_evidence_frame ch of None \<Rightarrow> True | Some f \<Rightarrow> ?b = start \<or> ?b + 2 * ed_sample_rate d \<le> f)"
    if "ch \<in> set channels" "\<not> ?fo" for ch
  proof (cases "cd_disposition ch")
    case Retain
    with that ok(4) have "canonical_disposition (cd_mode ch) (cd_result ch) = Retain"
      by (auto simp: list_ex_iff contradicts_def)
    moreover have "?b = start \<or> ?b + 2 * ed_sample_rate d \<le> f" if "cd_first_evidence_frame ch = Some f" for f
      using b(3)[of f] Retain that \<open>ch \<in> set channels\<close> \<open>\<not> ?fo\<close> by (auto simp: evidence_frames_iff)
    ultimately show ?thesis by (auto split: option.splits)
  qed simp
  then have each: "list_all (\<lambda>ch. cd_disposition ch = Omit \<or> canonical_disposition (cd_mode ch) (cd_result ch) = Retain \<and>
      (case cd_first_evidence_frame ch of None \<Rightarrow> True | Some f \<Rightarrow> ?b = start \<or> ?b + 2 * ed_sample_rate d \<le> f)) (ed_channels d')"
    unfolding d' list_all_iff by (cases ?fo) auto
  have "trim \<or> ?b = start" by (simp add: crop_start_def)
  with each b(1,2) Inr show ?thesis by (simp add: d')
qed

definition demo_channel :: channel_decision where
  "demo_channel = \<lparr>cd_mode = Auto, cd_result = Active, cd_disposition = Retain, cd_first_evidence_frame = Some 700\<rparr>"

theorem finalize_crops_safely_witness:
  "finalize 100 900 [demo_channel] True False (export_decision_new 1 100 0) =
     ((export_decision_new 1 100 0)\<lparr>ed_channels := [demo_channel], ed_export_range := (500, 900), ed_valid := True\<rparr>, Inr ()) \<and>
   (500 = (100::nat) \<or> 500 + 2 * 100 \<le> (700::nat))"
proof -
  have run: "finalize 100 900 [demo_channel] True False (export_decision_new 1 100 0) =
     ((export_decision_new 1 100 0)\<lparr>ed_channels := [demo_channel], ed_export_range := (500, 900), ed_valid := True\<rparr>, Inr ())"
    by (simp add: finalize_def export_decision_new_def demo_channel_def contradicts_def evidence_outside_def crop_start_def
        evidence_frames_def saturating_sub64_def Let_def)
  from finalize_crops_safely[OF run] run show ?thesis
    by (simp add: demo_channel_def export_decision_new_def)
qed

section \<open>Classifying a frozen epoch\<close>

lemma frames_classified:
  assumes geo: "geo_ok geo" and fr: "list_all (\<lambda>v. length v = N) frames" "frames \<noteq> []"
    and N: "length (ap_channels policy) = N" and lim: "tx + length frames + 4 * wg_hop geo < u64_lim"
  shows "\<exists>ss ss2. feed_frames ops (ap_detector policy) geo tx (map threshold_of (ap_channels policy)) 0 frames
       (prepare_states policy geo tx) = Inr ss \<and> finish_states ops policy geo tx ss = Inr ss2 \<and> length ss2 = N \<and>
       (\<forall>s\<in>set ss2. \<forall>e. ds_evidence s = Some e \<longrightarrow> tx \<le> e \<and> e < tx + length frames)"
proof -
  let ?det = "ap_detector policy" and ?ths = "map threshold_of (ap_channels policy)" and ?ss = "prepare_states policy geo tx"
  have "\<exists>s1 s2. feed_channel ops ?det geo tx (?ths ! c) 0 (channel_column c frames) (?ss ! c) = Inr s1 \<and>
     finish_state ops ?det geo tx (?ths ! c) s1 = Inr s2 \<and>
     (\<forall>e. ds_evidence s2 = Some e \<longrightarrow> tx \<le> e \<and> e < tx + length frames)" if "c < N" for c
    using channel_total[OF geo, of tx "channel_column c frames" ops ?det "?ths ! c"] that fr(2) lim N
    by (simp add: channel_column_def prepare_states_def)
  then obtain g h where g: "\<And>c. c < N \<Longrightarrow> feed_channel ops ?det geo tx (?ths ! c) 0 (channel_column c frames) (?ss ! c) = Inr (g c)"
    and h: "\<And>c. c < N \<Longrightarrow> finish_state ops ?det geo tx (?ths ! c) (g c) = Inr (h c) \<and>
      (\<forall>e. ds_evidence (h c) = Some e \<longrightarrow> tx \<le> e \<and> e < tx + length frames)" by metis
  have run: "feed_frames ops ?det geo tx ?ths 0 frames ?ss = Inr (map g [0..<N])"
    using feed_frames_channels[OF fr(1) _ _ g] N by (simp add: prepare_states_def)
  have "map2 (\<lambda>cp s. finish_state ops ?det geo tx (threshold_of cp) s) (ap_channels policy) (map g [0..<N]) = map Inr (map h [0..<N])"
    using h N by (intro nth_equalityI) auto
  then have "finish_states ops policy geo tx (map g [0..<N]) = Inr (map h [0..<N])"
    by (simp add: finish_states_def collectR_Inr_iff)
  with run h show ?thesis by auto
qed

lemma decisions_sound:
  assumes "length (ap_channels policy) = length ss"
    and "\<forall>s\<in>set ss. \<forall>e. ds_evidence s = Some e \<longrightarrow> start \<le> e \<and> e < stop"
  shows "\<not> list_ex contradicts (decisions_of policy ss)" "\<not> list_ex (evidence_outside start stop) (decisions_of policy ss)"
proof -
  have el: "\<exists>(cp :: channel_policy) s. ch = channel_decision_of (cp_mode cp) s \<and> s \<in> set ss" if m: "ch \<in> set (decisions_of policy ss)" for ch
  proof -
    obtain cp s where "(cp, s) \<in> set (zip (ap_channels policy) ss)" "ch = channel_decision_of (cp_mode cp) s"
      using m by (auto simp: decisions_of_def)
    then show ?thesis by (blast dest: set_zip_rightD)
  qed
  show "\<not> list_ex contradicts (decisions_of policy ss)"
    using el by (force simp: list_ex_iff contradicts_def channel_decision_of_def)
  have "\<not> evidence_outside start stop ch" if "ch \<in> set (decisions_of policy ss)" for ch
    using el[OF that] assms(2) by (force simp: evidence_outside_def channel_decision_of_def split: option.splits)
  then show "\<not> list_ex (evidence_outside start stop) (decisions_of policy ss)" by (simp add: list_ex_iff)
qed

lemma geometry_exists: "0 < rate \<Longrightarrow> rate < u32_lim \<Longrightarrow> \<exists>geo. window_geometry_new rate = Inr geo \<and> wg_hop geo \<le> rate"
proof -
  assume r: "0 < rate" "rate < u32_lim"
  have "div_ceil (rate * 20) 1000 < u32_lim" "div_ceil (rate * 10) 1000 \<le> rate"
    using r by (simp_all add: div_ceil_eq u32_lim_def)
  then show ?thesis using r by (auto simp: window_geometry_new_def Let_def)
qed

text \<open>
  (C37) Classifying a frozen epoch never fails and does not depend on the buffer.  In every
  reachable state of the capture runtime with an outstanding, non-empty epoch, for a policy and a
  fresh decision of its geometry and a buffer of any whole number of frames, the classification
  succeeds; the channel verdicts are those of classifying the frozen frames in one piece with
  \<open>classify_samples\<close>; and the decision is final, belongs to this epoch, and its export
  range ends with the epoch and starts inside it.
\<close>

theorem frozen_classification_total:
  assumes reach: "cap_reach fp c y" and desc: "cy_desc y = Some d"
    and range: "fd_absolute_range d = (start, stop)" "start < stop" "stop + n < u64_lim" "stop + 4 * rc_sample_rate c < u64_lim"
    and rate: "0 < rc_sample_rate c" "rc_sample_rate c < u32_lim"
    and policy: "length (ap_channels policy) = rc_channels c"
    and decision: "\<not> ed_valid e" "length (ed_channels e) = rc_channels c" "ed_sample_rate e = rc_sample_rate c"
    and scratch: "length scratch = n * rc_channels c" "0 < n" "length scratch < u64_lim"
  shows "\<exists>e' b ds. classify_frozen_epoch ops (rt_worker (cy_rt y)) (frozen_epoch_from_descriptor rid d) policy scratch e =
       (e', Inr (True, b, stop)) \<and> start \<le> b \<and> b \<le> stop \<and> ed_export_range e' = (b, stop) \<and>
       matches_frozen_epoch e' (frozen_epoch_from_descriptor rid d) \<and>
       classify_samples ops (frames_slice (rc_channels c) (cy_hist y) start stop) (rc_channels c) start (rc_sample_rate c)
         policy (rc_channels c) = Inr ds \<and>
       map cd_result (ed_channels e') = map cd_result ds"
proof -
  let ?w = "rt_worker (cy_rt y)" and ?ch = "rc_channels c" and ?f = "frozen_epoch_from_descriptor rid d"
  let ?x = "(c, ?w, cy_hist y, rid, d)" and ?ths = "map threshold_of (ap_channels policy)"
  have inv: "worker_inv c ?w (cy_hist y)" and dk: "desc_ok c ?w d"
    using cap_reach_inv[OF reach] desc by (auto simp: cap_inv_def Let_def)
  have v: "frozen_valid ?x" using inv dk by (simp add: frozen_valid_def)
  define xs where "xs = frames_slice ?ch (cy_hist y) start stop"
  have xs: "length xs = (stop - start) * ?ch" and ch: "0 < ?ch"
    using frozen.shape[OF v] range(1) by (simp_all add: xs_def frozen_content_def frozen_stop_def frozen_first_def frozen_width_def)
  have frames: "length (chunks_exact ?ch xs) = stop - start" "list_all (\<lambda>v. length v = ?ch) (chunks_exact ?ch xs)"
    using length_chunks_exact[OF xs ch] by simp_all
  obtain geo where g: "window_geometry_new (rc_sample_rate c) = Inr geo" "wg_hop geo \<le> rc_sample_rate c"
    using geometry_exists[OF rate] by blast
  have lim: "start + length (chunks_exact ?ch xs) + 4 * wg_hop geo < u64_lim"
    using frames(1) range g(2) by simp
  have ne: "chunks_exact ?ch xs \<noteq> []" using frames(1) range(2) by auto
  from frames_classified[OF window_geometry_ok[OF g(1)] frames(2) ne policy lim] obtain ss ss2 where
    run: "feed_frames ops (ap_detector policy) geo start ?ths 0 (chunks_exact ?ch xs) (prepare_states policy geo start) = Inr ss"
      "finish_states ops policy geo start ss = Inr ss2"
    and ss2: "length ss2 = ?ch" "\<forall>s\<in>set ss2. \<forall>e. ds_evidence s = Some e \<longrightarrow> start \<le> e \<and> e < start + length (chunks_exact ?ch xs)"
    by blast
  have loop: "classify_loop (frozen_copy ?w ?f) ops (ap_detector policy) geo start stop ?ch ?ths start scratch (prepare_states policy geo start) = Inr ss"
    using frozen.loop_is_one_pass[OF v scratch(2), of start scratch ops "ap_detector policy" geo ?ths "prepare_states policy geo start"]
      run(1) range scratch
    by (simp add: frozen_stop_def frozen_first_def frozen_width_def frozen_content_def frozen_source_copy_def xs_def)
  have bnd: "\<forall>s\<in>set ss2. \<forall>e. ds_evidence s = Some e \<longrightarrow> start \<le> e \<and> e < stop"
    using ss2(2) frames(1) range(2) by simp
  note sound = decisions_sound[OF _ bnd, of policy]
  let ?ds = "decisions_of policy ss2" and ?gate = "ap_whole_export_exact_zero_gate policy \<and> list_all finite_zero ss2"
  have lds: "length ?ds = length (ed_channels e)" using ss2(1) policy decision(2) by (simp add: decisions_of_def)
  have le: "start \<le> stop" using range(2) by simp
  let ?b = "crop_start (ed_sample_rate e) (ap_trim_leading_silence policy) (evidence_frames (forced ?gate ?ds) ?ds) start"
  have fin: "finalize start stop ?ds (ap_trim_leading_silence policy) ?gate e =
     (e\<lparr>ed_channels := map (\<lambda>ch. if forced ?gate ?ds then ch\<lparr>cd_disposition := Omit\<rparr> else ch) ?ds,
        ed_export_range := (?b, stop), ed_valid := True\<rparr>, Inr ())"
    using sound ss2(1) policy by (intro finalize_success[OF decision(1) le lds]) simp_all
  have b: "start \<le> ?b" "?b \<le> stop"
    using crop_start_bounds(1,2)[OF le evidence_inside[OF sound(2)]] ss2(1) policy by auto
  have cls: "classify_samples ops xs ?ch start (rc_sample_rate c) policy ?ch = Inr ?ds"
    using run g(1) ch policy xs by (simp add: classify_samples_def)
  let ?e' = "e\<lparr>ed_channels := map (\<lambda>ch. if forced ?gate ?ds then ch\<lparr>cd_disposition := Omit\<rparr> else ch) ?ds,
        ed_export_range := (?b, stop), ed_valid := True, ed_frozen_epoch := Some (frozen_identity ?f)\<rparr>"
  have fe: "fe_absolute_range ?f = (start, stop)" "fe_channels ?f = ?ch" "fe_sample_rate ?f = rc_sample_rate c"
    using range(1) dk by (simp_all add: frozen_epoch_from_descriptor_def desc_ok_def)
  have "classify_frozen_epoch ops ?w ?f policy scratch e = (?e', Inr (True, ?b, stop))"
    using fe decision scratch policy rate loop run(2) g(1) fin
    by (simp add: classify_frozen_epoch_def Let_def)
  then show ?thesis
    using b cls unfolding xs_def[symmetric]
    by (intro exI[of _ ?e'] exI[of _ ?b] exI[of _ ?ds]) (auto simp: matches_frozen_epoch_def)
qed

definition demo_policy :: activity_policy where
  "demo_policy = \<lparr>ap_detector = ExactZero,
     ap_channels = [\<lparr>cp_name = ''a'', cp_mode = Auto, cp_threshold_dbfs = None\<rparr>,
                    \<lparr>cp_name = ''b'', cp_mode = Never, cp_threshold_dbfs = None\<rparr>],
     ap_whole_export_exact_zero_gate = True, ap_trim_leading_silence = True\<rparr>"

theorem frozen_classification_total_witness:
  "\<exists>rt d e' b ds. cap_reach demo_fp demo_cfg
       \<lparr>cy_rt = rt, cy_hist = [1, 2, 3, 4, 5, 6], cy_pushed = [1, 2, 3, 4, 5, 6], cy_desc = Some d\<rparr> \<and>
     classify_frozen_epoch demo_db (rt_worker rt) (frozen_epoch_from_descriptor 0 d) demo_policy [0, 0]
       (export_decision_new 2 48000 0) = (e', Inr (True, b, 3)) \<and>
     classify_samples demo_db [1, 2, 3, 4, 5, 6] 2 0 48000 demo_policy 2 = Inr ds \<and>
     map cd_result (ed_channels e') = map cd_result ds"
proof -
  obtain rt d where r: "cap_reach demo_fp demo_cfg
    \<lparr>cy_rt = rt, cy_hist = [1, 2, 3, 4, 5, 6], cy_pushed = [1, 2, 3, 4, 5, 6], cy_desc = Some d\<rparr>"
    and d: "fd_absolute_range d = (0, 3)" using demo_cap3 by blast
  have cfg: "rc_channels demo_cfg = 2" "rc_sample_rate demo_cfg = 48000" by (simp_all add: demo_cfg_def)
  have p: "length (ap_channels demo_policy) = rc_channels demo_cfg" by (simp add: demo_policy_def cfg)
  have e: "\<not> ed_valid (export_decision_new 2 48000 0)" "length (ed_channels (export_decision_new 2 48000 0)) = rc_channels demo_cfg"
    "ed_sample_rate (export_decision_new 2 48000 0) = rc_sample_rate demo_cfg" by (simp_all add: export_decision_new_def cfg)
  have sl: "frames_slice 2 [1, 2, 3, 4, 5, 6] 0 3 = [1, 2, 3, 4, 5, 6 :: f32]" by (simp add: frames_slice_def)
  have "\<exists>e' b ds. classify_frozen_epoch demo_db (rt_worker rt) (frozen_epoch_from_descriptor 0 d) demo_policy [0, 0]
       (export_decision_new 2 48000 0) = (e', Inr (True, b, 3)) \<and>
     classify_samples demo_db [1, 2, 3, 4, 5, 6] 2 0 48000 demo_policy 2 = Inr ds \<and>
     map cd_result (ed_channels e') = map cd_result ds"
    using frozen_classification_total[OF r, of d 0 3 1, OF _ d _ _ _ _ _ p e, of "[0, 0]" demo_db 0]
    by (simp add: u64_lim_def u32_lim_def cfg sl) blast
  with r show ?thesis by blast
qed

text \<open>
  The exact-zero detector is exact: for a single channel whose frame numbers fit in 64
  bits it reports ambiguity when a sample is not finite, and otherwise activity exactly when
  some sample is not zero; its evidence is the first finite sample that is not zero.
\<close>

theorem exact_zero_is_exact:
  assumes "window_geometry_new rate = Inr geo" and "start + length xs < u64_lim"
    and "policy = \<lparr>ap_detector = ExactZero, ap_channels = [cp], ap_whole_export_exact_zero_gate = g,
                   ap_trim_leading_silence = t\<rparr>"
  shows "\<exists>d. classify_samples ops xs 1 start rate policy 1 = Inr [d] \<and>
     cd_mode d = cp_mode cp \<and>
     cd_result d = (if list_ex (\<lambda>x. \<not> f32_is_finite x) xs then Ambiguous
                    else if list_ex (\<lambda>x. \<not> f32_is_zero x) xs then Active else Inactive) \<and>
     cd_first_evidence_frame d = map_option (\<lambda>k. start + k) (find (\<lambda>k. audible (xs ! k)) [0..<length xs])"
proof -
  let ?th = "threshold_of cp"
  have ns: "\<not> streams ExactZero ?th" by (simp add: streams_def)
  have s0: "prepare_state ExactZero geo ?th start detector_empty = detector_empty" by (simp add: prepare_state_def)
  obtain s where s: "feed_channel ops ExactZero geo start ?th 0 xs detector_empty = Inr s"
    and nf: "ds_non_finite s \<longleftrightarrow> list_ex (\<lambda>x. \<not> f32_is_finite x) xs"
    and r: "ds_result s = (if list_ex audible xs then Active else Inactive)"
      "ds_evidence s = map_option (\<lambda>k. start + k) (find (\<lambda>k. audible (xs ! k)) [0..<length xs])"
    using feed_channel_flags[OF ns assms(2), of ops geo detector_empty]
    by (auto simp: detector_empty_def)
  have len: "length xs = length xs * 1" by simp
  note ck = length_chunks_exact[OF len zero_less_one]
  have col: "channel_column 0 (chunks_exact 1 xs) = xs"
  proof (induction xs)
    case (Cons x xs)
    then show ?case by (simp add: chunks_exact_step channel_column_def)
  qed (simp add: channel_column_def)
  have feed: "feed_frames ops ExactZero geo start [?th] 0 (chunks_exact 1 xs) [detector_empty] = Inr [s]"
    using feed_frames_channels[of 1 "chunks_exact 1 xs" "[?th]" "[detector_empty]" ops ExactZero geo start 0 "\<lambda>_. s"] ck s col
    by simp
  have "audible x \<longleftrightarrow> \<not> f32_is_zero x" if "\<not> list_ex (\<lambda>x. \<not> f32_is_finite x) xs" "x \<in> set xs" for x
    using that by (auto simp: audible_def list_ex_iff)
  then have au: "\<not> list_ex (\<lambda>x. \<not> f32_is_finite x) xs \<Longrightarrow> list_ex audible xs = list_ex (\<lambda>x. \<not> f32_is_zero x) xs"
    by (auto simp: list_ex_iff)
  let ?s2 = "if ds_non_finite s then s\<lparr>ds_result := Ambiguous\<rparr> else s"
  have "classify_samples ops xs 1 start rate policy 1 = Inr [channel_decision_of (cp_mode cp) ?s2]"
    using feed finish_flags[OF ns, of ops geo start s] assms(1)
    by (simp add: classify_samples_def assms(3) prepare_states_def s0 finish_states_def decisions_of_def)
  then show ?thesis using nf r au by (auto simp: channel_decision_of_def)
qed

theorem exact_zero_is_exact_witness:
  "\<exists>d. classify_samples demo_db [0, 0, 5] 1 10 100
        \<lparr>ap_detector = ExactZero, ap_channels = [\<lparr>cp_name = ''a'', cp_mode = Auto, cp_threshold_dbfs = None\<rparr>],
         ap_whole_export_exact_zero_gate = False, ap_trim_leading_silence = False\<rparr> 1 = Inr [d] \<and>
     cd_result d = Active \<and> cd_first_evidence_frame d = Some 12"
  using exact_zero_is_exact[OF demo_geometry, of 10 "[0, 0, 5]" _ _ False False demo_db, OF _ refl,
      of "\<lparr>cp_name = ''a'', cp_mode = Auto, cp_threshold_dbfs = None\<rparr>"]
  by (auto simp: u64_lim_def audible_def f32_is_finite_def f32_is_zero_def)

end
