(* ===== verification/Effects.thy ===== *)
theory Effects
  imports Errors
begin

text \<open>
  Stateful operations that may fail: a function from the state to the new state and a result.
  An error keeps the changes made before it, as a Rust method on \<open>&mut self\<close> that returns
  early does.  The weakest precondition of an operation has one postcondition for its success
  and one for its failure; the rewrite rules compute it through a method body, so that an
  invariant is carried by simplification and by the rule of consequence.
\<close>

type_synonym ('s, 'x) eff = "'s \<Rightarrow> 's \<times> 'x result"

definition retE :: "'x \<Rightarrow> ('s, 'x) eff" where
  "retE x s = (s, Inr x)"

definition failE :: "lamb_error \<Rightarrow> ('s, 'x) eff" where
  "failE e s = (s, Inl e)"

definition bindE :: "('s, 'x) eff \<Rightarrow> ('x \<Rightarrow> ('s, 'y) eff) \<Rightarrow> ('s, 'y) eff" where
  "bindE m k s = (case m s of (s', Inl e) \<Rightarrow> (s', Inl e) | (s', Inr x) \<Rightarrow> k x s')"

definition getE :: "('s \<Rightarrow> 'x) \<Rightarrow> ('s, 'x) eff" where
  "getE f s = (s, Inr (f s))"

definition modE :: "('s \<Rightarrow> 's) \<Rightarrow> ('s, unit) eff" where
  "modE f s = (f s, Inr ())"

definition liftE :: "'x result \<Rightarrow> ('s, 'x) eff" where
  "liftE r s = (s, r)"

definition ensureE :: "bool \<Rightarrow> lamb_error \<Rightarrow> ('s, unit) eff" where
  "ensureE b e s = (s, if b then Inr () else Inl e)"

text \<open>The outcome of an operation as a value, for a caller that inspects it.\<close>

definition tryE :: "('s, 'x) eff \<Rightarrow> ('s, 'x result) eff" where
  "tryE m s = (case m s of (s', r) \<Rightarrow> (s', Inr r))"

text \<open>Loops over a list, with and without a value that is carried along.\<close>

fun forE :: "('a \<Rightarrow> ('s, unit) eff) \<Rightarrow> 'a list \<Rightarrow> ('s, unit) eff" where
  "forE f [] = retE ()"
| "forE f (x # xs) = bindE (f x) (\<lambda>_. forE f xs)"

fun foldE :: "('c \<Rightarrow> 'a \<Rightarrow> ('s, 'c) eff) \<Rightarrow> 'c \<Rightarrow> 'a list \<Rightarrow> ('s, 'c) eff" where
  "foldE f c [] = retE c"
| "foldE f c (x # xs) = bindE (f c x) (\<lambda>c'. foldE f c' xs)"

lemmas eff_defs = retE_def failE_def bindE_def getE_def modE_def liftE_def ensureE_def tryE_def

definition wpE :: "('s, 'x) eff \<Rightarrow> ('x \<Rightarrow> 's \<Rightarrow> bool) \<Rightarrow> (lamb_error \<Rightarrow> 's \<Rightarrow> bool) \<Rightarrow> 's \<Rightarrow> bool" where
  "wpE m Q E s = (case m s of (s', Inl e) \<Rightarrow> E e s' | (s', Inr x) \<Rightarrow> Q x s')"

named_theorems wp \<open>rewrite rules for weakest preconditions\<close>

lemma wpE_bind [wp]: "wpE (bindE m k) Q E = wpE m (\<lambda>x. wpE (k x) Q E) E"
  by (simp add: wpE_def bindE_def fun_eq_iff split: prod.split sum.split)

lemma wpE_basic [wp]:
  "wpE (retE x) Q1 E = Q1 x"
  "wpE (failE e) Q2 E = E e"
  "wpE (getE f) Q3 E = (\<lambda>s. Q3 (f s) s)"
  "wpE (modE g) Q4 E = (\<lambda>s. Q4 () (g s))"
  "wpE (liftE r) Q5 E = (\<lambda>s. case r of Inl e \<Rightarrow> E e s | Inr y \<Rightarrow> Q5 y s)"
  "wpE (ensureE b e) Q6 E = (\<lambda>s. if b then Q6 () s else E e s)"
  by (simp_all add: wpE_def eff_defs fun_eq_iff)

lemma wpE_try [wp]: "wpE (tryE m) Q E = wpE m (\<lambda>x. Q (Inr x)) (\<lambda>e. Q (Inl e))"
  by (simp add: wpE_def tryE_def fun_eq_iff split: prod.split sum.split)

lemma wpE_if [wp]: "wpE (if b then m else n) Q E s = (if b then wpE m Q E s else wpE n Q E s)"
  by simp

lemma wpE_mono:
  assumes "wpE m Q' E' s" and "\<And>x s'. Q' x s' \<Longrightarrow> Q x s'" and "\<And>e s'. E' e s' \<Longrightarrow> E e s'"
  shows "wpE m Q E s"
  using assms by (auto simp: wpE_def split: prod.splits sum.splits)

lemma wpE_seq:
  assumes "wpE m Q' E s" and "\<And>x s'. Q' x s' \<Longrightarrow> wpE (k x) Q E s'"
  shows "wpE (bindE m k) Q E s"
  unfolding wpE_bind by (rule wpE_mono[OF assms(1)]) (auto intro: assms(2))

text \<open>What a run shows, from the weakest precondition.\<close>

lemma wpE_run: "wpE m Q E s \<Longrightarrow> m s = (s', r) \<Longrightarrow> (case r of Inl e \<Rightarrow> E e s' | Inr x \<Rightarrow> Q x s')"
  by (simp add: wpE_def)

lemma wpE_same: "wpE m (\<lambda>_. Q) (\<lambda>_. Q) s \<longleftrightarrow> Q (fst (m s))"
  by (simp add: wpE_def split: prod.split sum.split)

end
