(* ===== verification/Dump_Coordinator.thy ===== *)
theory Dump_Coordinator
  imports Effects Activity_Detector
begin

text \<open>
  The dump coordinator (\<open>src/dump.rs\<close>): which frames have been persisted, lost or cleared,
  the frozen transaction that survives failed attempts, the pending clear, and the completion
  authority that outlives a delivery.  The coordinator is a client of the capture arena and of
  the persistence workspace: their operations are fields of two records, applied to an arena and
  a workspace state of any type.  The values handed to the delivery callback are an output of
  the operations, kept in \<open>wd_delivered\<close>; the output paths they carry belong to the
  workspace and are left out.
\<close>

section \<open>Interfaces\<close>

record clear_recovery =
  rcv_arena_runtime_id :: nat
  rcv_coordinator_id :: nat
  rcv_clear_id :: nat

definition recovery_matches :: "clear_recovery \<Rightarrow> clear_report \<Rightarrow> bool" where
  "recovery_matches rc rep \<longleftrightarrow> rcv_arena_runtime_id rc = rep_arena_runtime_id rep \<and>
     rcv_coordinator_id rc = rep_coordinator_id rep \<and> rcv_clear_id rc = rep_clear_id rep"

record 'a arena_ops =
  ao_runtime_id :: "'a \<Rightarrow> nat"
  ao_cumulative_capture_dropped_frames :: "'a \<Rightarrow> 'a \<times> nat"
  ao_freeze_since :: "nat option \<Rightarrow> 'a \<Rightarrow> 'a \<times> frozen_epoch option result"
  ao_release_frozen :: "frozen_epoch \<Rightarrow> 'a \<Rightarrow> 'a \<times> (frozen_epoch \<times> unit result)"
  ao_clear_active_accounted :: "clear_accounting \<Rightarrow> 'a \<Rightarrow> 'a \<times> clear_report result"
  ao_recover_clear_result :: "clear_recovery \<Rightarrow> 'a \<Rightarrow> 'a \<times> clear_report option result"

datatype prepared = PrepSilent | PrepSkippedSilent | PrepSkippedByPolicy | PrepReady

datatype 'p publication = Published | RetryableFailure lamb_error | Indeterminate lamb_error 'p

datatype publication_recovery = RecComplete | RecRolledBack | RecPending

record ('w, 'p) ws_ops =
  wo_finish_completed_publication :: "'w \<Rightarrow> 'w \<times> unit result"
  wo_recover_indeterminate_publication :: "'p \<Rightarrow> 'w \<Rightarrow> 'w \<times> ('p \<times> publication_recovery result)"
  wo_prepare :: "frozen_epoch \<Rightarrow> export_decision \<Rightarrow> 'w \<Rightarrow> 'w \<times> (export_decision \<times> prepared result)"
  wo_publish_prepared :: "'w \<Rightarrow> 'w \<times> 'p publication"

section \<open>State\<close>

record loss_breakdown =
  lb_retention_lost_frames :: nat
  lb_cleared_frames :: nat
  lb_capture_dropped_frames :: nat

definition lost_frames :: "loss_breakdown \<Rightarrow> nat" where
  "lost_frames l = saturating_add64 (saturating_add64 (lb_retention_lost_frames l) (lb_cleared_frames l)) (lb_capture_dropped_frames l)"

datatype committed =
    Written "nat \<times> nat" "nat \<times> nat" nat loss_breakdown
  | SkippedSilent "nat \<times> nat" nat loss_breakdown
  | SkippedByPolicy "nat \<times> nat" nat loss_breakdown
  | NoNewAudio loss_breakdown

record frozen_transaction =
  ft_frozen :: frozen_epoch
  ft_retention_lost_frames :: nat
  ft_decision :: export_decision

record loss_commit =
  lc_acknowledged_dropped_frames :: nat
  lc_retention_lost_frames :: nat
  lc_cleared_frames :: nat

record pending_clear =
  pc_arena_runtime_id :: nat
  pc_coordinator_id :: nat
  pc_clear_id :: nat
  pc_requested_start :: nat
  pc_accounting :: clear_accounting
  pc_frozen_end :: "nat option"
  pc_acknowledged_dropped_frames :: nat

datatype completion_authority = Delivering | Finalized export_decision "frozen_epoch option"

record 'p dump_state =
  ds_bound_runtime_id :: "nat option"
  ds_committed_until :: "nat option"
  ds_frozen :: "frozen_transaction option"
  ds_reusable_decision :: "export_decision option"
  ds_pending_clear :: "pending_clear option"
  ds_pending_release :: "frozen_epoch option"
  ds_completion_in_progress :: bool
  ds_pending_completion :: "completion_authority option"
  ds_indeterminate_publication :: "'p option"
  ds_acknowledged_dropped_frames :: nat
  ds_pending_retention_lost_frames :: nat
  ds_pending_cleared_frames :: nat
  ds_next_clear_id :: nat

record ('a, 'w, 'p) world =
  wd_id :: nat
  wd_poisoned :: bool
  wd_state :: "'p dump_state"
  wd_arena :: 'a
  wd_workspace :: 'w
  wd_delivered :: "committed list"

definition dump_state_new :: "'p dump_state" where
  "dump_state_new = \<lparr>ds_bound_runtime_id = None, ds_committed_until = None, ds_frozen = None, ds_reusable_decision = None,
     ds_pending_clear = None, ds_pending_release = None, ds_completion_in_progress = False, ds_pending_completion = None,
     ds_indeterminate_publication = None, ds_acknowledged_dropped_frames = 0, ds_pending_retention_lost_frames = 0,
     ds_pending_cleared_frames = 0, ds_next_clear_id = 0\<rparr>"

definition with_frozen_decision :: "export_decision \<Rightarrow> 'p dump_state" where
  "with_frozen_decision decision = dump_state_new\<lparr>ds_reusable_decision := Some decision\<rparr>"

definition stateE :: "('p dump_state \<Rightarrow> 'x) \<Rightarrow> (('a, 'w, 'p) world, 'x) eff" where
  "stateE f = getE (\<lambda>s. f (wd_state s))"

definition setE :: "('p dump_state \<Rightarrow> 'p dump_state) \<Rightarrow> (('a, 'w, 'p) world, unit) eff" where
  "setE f = modE (\<lambda>s. s\<lparr>wd_state := f (wd_state s)\<rparr>)"

definition arenaE :: "('a \<Rightarrow> 'a \<times> 'x result) \<Rightarrow> (('a, 'w, 'p) world, 'x) eff" where
  "arenaE f s = (case f (wd_arena s) of (a, r) \<Rightarrow> (s\<lparr>wd_arena := a\<rparr>, r))"

definition workE :: "('w \<Rightarrow> 'w \<times> 'x result) \<Rightarrow> (('a, 'w, 'p) world, 'x) eff" where
  "workE f s = (case f (wd_workspace s) of (w, r) \<Rightarrow> (s\<lparr>wd_workspace := w\<rparr>, r))"

text \<open>The operations that report no error of their own.\<close>

definition arenaI :: "('a \<Rightarrow> 'a \<times> 'x) \<Rightarrow> (('a, 'w, 'p) world, 'x) eff" where
  "arenaI f s = (case f (wd_arena s) of (a, x) \<Rightarrow> (s\<lparr>wd_arena := a\<rparr>, Inr x))"

definition workI :: "('w \<Rightarrow> 'w \<times> 'x) \<Rightarrow> (('a, 'w, 'p) world, 'x) eff" where
  "workI f s = (case f (wd_workspace s) of (w, x) \<Rightarrow> (s\<lparr>wd_workspace := w\<rparr>, Inr x))"

section \<open>Loss accounting\<close>

definition checked_loss_add :: "nat \<Rightarrow> nat \<Rightarrow> string \<Rightarrow> nat result" where
  "checked_loss_add left right message = ok_or (checked_add64 left right) (ControlInvariant message)"

definition prevalidate_loss_commit :: "'p dump_state \<Rightarrow> nat \<Rightarrow> nat \<Rightarrow> loss_commit result" where
  "prevalidate_loss_commit st cumulative retention =
     (if cumulative < ds_acknowledged_dropped_frames st
      then Inl (ControlInvariant ''cumulative capture dropped frame counter regressed'')
      else bindR (checked_loss_add (ds_pending_retention_lost_frames st) retention ''retention loss counter exhausted'') (\<lambda>lost.
        Inr \<lparr>lc_acknowledged_dropped_frames = ds_acknowledged_dropped_frames st, lc_retention_lost_frames = lost,
             lc_cleared_frames = ds_pending_cleared_frames st\<rparr>))"

definition committed_losses :: "nat \<Rightarrow> loss_commit \<Rightarrow> loss_breakdown" where
  "committed_losses cumulative lc =
     \<lparr>lb_retention_lost_frames = lc_retention_lost_frames lc, lb_cleared_frames = lc_cleared_frames lc,
      lb_capture_dropped_frames = wsub64 cumulative (lc_acknowledged_dropped_frames lc)\<rparr>"

definition commit_losses :: "nat \<Rightarrow> loss_commit \<Rightarrow> (('a, 'w, 'p) world, loss_breakdown) eff" where
  "commit_losses cumulative lc =
     bindE (setE (\<lambda>st. st\<lparr>ds_acknowledged_dropped_frames := cumulative, ds_pending_retention_lost_frames := 0,
                          ds_pending_cleared_frames := 0\<rparr>))
       (\<lambda>_. retE (committed_losses cumulative lc))"

section \<open>Locking, binding and recovery\<close>

definition lock_state :: "(('a, 'w, 'p) world, unit) eff" where
  "lock_state s =
     (s, if wd_poisoned s \<and> \<not> (ds_completion_in_progress (wd_state s) \<or> ds_pending_completion (wd_state s) \<noteq> None)
         then Inl (Export ''dump state lock poisoned'') else Inr ())"

definition clear_completion_poison_if_reconciled :: "(('a, 'w, 'p) world, unit) eff" where
  "clear_completion_poison_if_reconciled =
     modE (\<lambda>s. let st = wd_state s in
       if \<not> ds_completion_in_progress st \<and> ds_pending_completion st = None \<and> ds_pending_release st = None
       then s\<lparr>wd_poisoned := False\<rparr> else s)"

definition bind_arena :: "'a arena_ops \<Rightarrow> (('a, 'w, 'p) world, unit) eff" where
  "bind_arena ao =
     bindE (getE (\<lambda>s. (ds_bound_runtime_id (wd_state s), ao_runtime_id ao (wd_arena s)))) (\<lambda>(bound, rid).
       case bound of
         Some runtime_id \<Rightarrow>
           ensureE (runtime_id = rid) (ControlInvariant ''dump coordinator belongs to a different capture runtime'')
       | None \<Rightarrow> setE (\<lambda>st. st\<lparr>ds_bound_runtime_id := Some rid\<rparr>))"

definition recover_indeterminate_publication :: "('w, 'p) ws_ops \<Rightarrow> (('a, 'w, 'p) world, bool) eff" where
  "recover_indeterminate_publication wo =
     bindE (stateE ds_indeterminate_publication) (\<lambda>pending.
       case pending of
         None \<Rightarrow> retE False
       | Some publication \<Rightarrow>
           bindE (setE (\<lambda>st. st\<lparr>ds_indeterminate_publication := None\<rparr>)) (\<lambda>_.
           bindE (workI (wo_recover_indeterminate_publication wo publication)) (\<lambda>(publication', r).
             case r of
               Inr RecComplete \<Rightarrow> retE True
             | Inr RecRolledBack \<Rightarrow> retE False
             | Inr RecPending \<Rightarrow>
                 bindE (setE (\<lambda>st. st\<lparr>ds_indeterminate_publication := Some publication'\<rparr>)) (\<lambda>_.
                   failE (IndeterminatePublication (ControlInvariant ''publication recovery remains pending'')))
             | Inl e \<Rightarrow>
                 bindE (setE (\<lambda>st. st\<lparr>ds_indeterminate_publication := Some publication'\<rparr>)) (\<lambda>_.
                   failE (IndeterminatePublication e)))))"

text \<open>A release that fails puts the epoch, as the arena left it, back where it came from.\<close>

definition release_or_put_back ::
    "'a arena_ops \<Rightarrow> (frozen_epoch \<Rightarrow> 'p dump_state \<Rightarrow> 'p dump_state) \<Rightarrow> frozen_epoch \<Rightarrow> (('a, 'w, 'p) world, unit) eff" where
  "release_or_put_back ao put_back frozen =
     bindE (arenaI (ao_release_frozen ao frozen)) (\<lambda>(frozen', r).
       case r of
         Inr _ \<Rightarrow> retE ()
       | Inl e \<Rightarrow> bindE (setE (put_back frozen')) (\<lambda>_. failE e))"

definition recover_pending_release :: "'a arena_ops \<Rightarrow> (('a, 'w, 'p) world, unit) eff" where
  "recover_pending_release ao =
     bindE (stateE ds_pending_clear) (\<lambda>clear.
     bindE (ensureE (clear = None) (ControlInvariant ''pending clear must be recovered before frozen release'')) (\<lambda>_.
     bindE (stateE ds_pending_release) (\<lambda>pending.
     bindE (case pending of
              None \<Rightarrow> retE ()
            | Some frozen \<Rightarrow>
                bindE (setE (\<lambda>st. st\<lparr>ds_pending_release := None\<rparr>)) (\<lambda>_.
                  release_or_put_back ao (\<lambda>f st. st\<lparr>ds_pending_release := Some f\<rparr>) frozen)) (\<lambda>_.
     bindE (stateE ds_pending_completion) (\<lambda>completion.
       case completion of
         Some (Finalized reset (Some frozen)) \<Rightarrow>
           bindE (setE (\<lambda>st. st\<lparr>ds_pending_completion := Some (Finalized reset None)\<rparr>)) (\<lambda>_.
             release_or_put_back ao (\<lambda>f st. st\<lparr>ds_pending_completion := Some (Finalized reset (Some f))\<rparr>) frozen)
       | _ \<Rightarrow> retE ())))))"

definition reconcile_without_release :: "(('a, 'w, 'p) world, unit) eff" where
  "reconcile_without_release =
     bindE (stateE (\<lambda>st. (ds_pending_completion st, ds_completion_in_progress st, ds_reusable_decision st))) (\<lambda>(bundle, active, primary).
       case bundle of
         None \<Rightarrow> ensureE (\<not> active) (ControlInvariant ''completion marker has no authority slot'')
       | Some Delivering \<Rightarrow> failE (ControlInvariant ''completion delivery is active'')
       | Some (Finalized reset_decision failed_release) \<Rightarrow>
           bindE (ensureE active (ControlInvariant ''completion authority has no active marker'')) (\<lambda>_.
           bindE (ensureE (failed_release = None) (ControlInvariant ''completion frozen release remains pending'')) (\<lambda>_.
           bindE (case primary of
                    Some p \<Rightarrow>
                      bindE (ensureE (compatible_reset_with p reset_decision)
                               (ControlInvariant ''completion reset decisions are incompatible'')) (\<lambda>_.
                        setE (\<lambda>st. st\<lparr>ds_pending_completion := None\<rparr>))
                  | None \<Rightarrow> setE (\<lambda>st. st\<lparr>ds_pending_completion := None, ds_reusable_decision := Some reset_decision\<rparr>)) (\<lambda>_.
             setE (\<lambda>st. st\<lparr>ds_completion_in_progress := False\<rparr>)))))"

definition reconcile_completion_authority :: "'a arena_ops \<Rightarrow> (('a, 'w, 'p) world, unit) eff" where
  "reconcile_completion_authority ao =
     bindE (stateE (\<lambda>st. (ds_pending_completion st, ds_completion_in_progress st))) (\<lambda>(bundle, active).
     bindE (case bundle of
              Some Delivering \<Rightarrow> failE (ControlInvariant ''completion delivery is active'')
            | Some (Finalized _ _) \<Rightarrow> ensureE active (ControlInvariant ''completion authority has no active marker'')
            | None \<Rightarrow> ensureE (\<not> active) (ControlInvariant ''completion marker has no authority slot'')) (\<lambda>_.
     bindE (recover_pending_release ao) (\<lambda>_. reconcile_without_release)))"

definition begin_completion :: "(('a, 'w, 'p) world, unit) eff" where
  "begin_completion =
     bindE (stateE (\<lambda>st. ds_completion_in_progress st \<or> ds_pending_completion st \<noteq> None \<or> ds_pending_release st \<noteq> None)) (\<lambda>busy.
     bindE (ensureE (\<not> busy) (ControlInvariant ''completion authorities must reconcile before delivery'')) (\<lambda>_.
       setE (\<lambda>st. st\<lparr>ds_completion_in_progress := True, ds_pending_completion := Some Delivering\<rparr>)))"

definition cancel_completion :: "'p dump_state \<Rightarrow> 'p dump_state" where
  "cancel_completion st =
     (if ds_pending_completion st = Some Delivering
      then st\<lparr>ds_pending_completion := None, ds_completion_in_progress := False\<rparr> else st)"

definition finalize_completed_transaction ::
    "'a arena_ops \<Rightarrow> frozen_transaction option \<Rightarrow> (('a, 'w, 'p) world, unit) eff" where
  "finalize_completed_transaction ao transaction =
     bindE (stateE (\<lambda>st. ds_completion_in_progress st \<and> ds_pending_completion st = Some Delivering)) (\<lambda>reserved.
       if \<not> reserved then
         bindE (setE (\<lambda>st. if ds_frozen st = None then st\<lparr>ds_frozen := transaction\<rparr> else st)) (\<lambda>_.
           failE (ControlInvariant ''completion authority slot is not reserved for delivery''))
       else case transaction of
         None \<Rightarrow> bindE (setE cancel_completion) (\<lambda>_. failE (ControlInvariant ''completion guard has no frozen transaction''))
       | Some tx \<Rightarrow>
           bindE (arenaI (ao_release_frozen ao (ft_frozen tx))) (\<lambda>(frozen, r).
             let failed_release = (case r of Inl _ \<Rightarrow> Some frozen | Inr _ \<Rightarrow> None) in
             bindE (setE (\<lambda>st. st\<lparr>ds_pending_completion := Some (Finalized (decision_reset (ft_decision tx)) failed_release)\<rparr>)) (\<lambda>_.
               if failed_release \<noteq> None then retE () else reconcile_without_release)))"

section \<open>Clear reports\<close>

definition validate_clear_report :: "nat \<Rightarrow> nat \<Rightarrow> clear_report \<Rightarrow> 'p dump_state \<Rightarrow> unit result" where
  "validate_clear_report coordinator_id runtime_id report st =
     (case ds_pending_clear st of
        None \<Rightarrow> Inl (ControlInvariant ''clear report has no pending coordinator transaction'')
      | Some p \<Rightarrow>
          if pc_arena_runtime_id p \<noteq> runtime_id \<or> pc_coordinator_id p \<noteq> coordinator_id
             \<or> rep_arena_runtime_id report \<noteq> pc_arena_runtime_id p
             \<or> rep_coordinator_id report \<noteq> pc_coordinator_id p
             \<or> rep_clear_id report \<noteq> pc_clear_id p
             \<or> rep_expected_active_start report \<noteq> acc_expected_active_start (pc_accounting p)
             \<or> rep_cumulative_dropped_frames report < pc_acknowledged_dropped_frames p
          then Inl (ControlInvariant ''clear report does not match pending coordinator transaction'')
          else
            let frozen_end = map_option (\<lambda>tx. snd (fe_absolute_range (ft_frozen tx))) (ds_frozen st) in
            if pc_frozen_end p \<noteq> None \<and> frozen_end \<noteq> pc_frozen_end p
            then Inl (ControlInvariant ''pending clear frozen capability changed before commit'')
            else if pc_frozen_end p = None \<and> ds_frozen st \<noteq> None
            then Inl (ControlInvariant ''pending clear unexpectedly acquired a frozen capability'')
            else if acc_expected_active_start (pc_accounting p) < pc_requested_start p
                    \<or> snd (rep_active_absolute_range report) < fst (rep_active_absolute_range report)
            then Inl (ControlInvariant ''clear report boundary invariant failed'')
            else Inr ())"

definition commit_clear_report :: "clear_report \<Rightarrow> 'p dump_state \<Rightarrow> 'p dump_state" where
  "commit_clear_report report st =
     (case ds_pending_clear st of
        None \<Rightarrow> st
      | Some p \<Rightarrow>
          let st1 = st\<lparr>ds_pending_retention_lost_frames := rep_pending_retention_lost_frames report,
                       ds_pending_cleared_frames := rep_pending_cleared_frames report,
                       ds_committed_until := Some (snd (rep_active_absolute_range report))\<rparr>;
              st2 = (case (pc_frozen_end p, ds_frozen st1) of
                       (Some _, Some tx) \<Rightarrow>
                         st1\<lparr>ds_frozen := None, ds_reusable_decision := Some (decision_reset (ft_decision tx)),
                             ds_pending_release := Some (ft_frozen tx)\<rparr>
                     | _ \<Rightarrow> st1)
          in st2\<lparr>ds_pending_clear := None\<rparr>)"

definition accept_clear_report :: "'a arena_ops \<Rightarrow> clear_report \<Rightarrow> (('a, 'w, 'p) world, unit) eff" where
  "accept_clear_report ao report =
     bindE (getE (\<lambda>s. validate_clear_report (wd_id s) (ao_runtime_id ao (wd_arena s)) report (wd_state s))) (\<lambda>r.
     bindE (liftE r) (\<lambda>_. setE (commit_clear_report report)))"

definition recover_pending_clear :: "'a arena_ops \<Rightarrow> (('a, 'w, 'p) world, bool) eff" where
  "recover_pending_clear ao =
     bindE (getE (\<lambda>s. (ds_pending_clear (wd_state s), wd_id s, ao_runtime_id ao (wd_arena s)))) (\<lambda>(pending, coordinator_id, rid).
       case pending of
         None \<Rightarrow> retE False
       | Some p \<Rightarrow>
           bindE (ensureE (pc_arena_runtime_id p = rid \<and> pc_coordinator_id p = coordinator_id)
                    (ControlInvariant ''pending clear belongs to a different arena or coordinator'')) (\<lambda>_.
           bindE (arenaE (ao_recover_clear_result ao
                    \<lparr>rcv_arena_runtime_id = pc_arena_runtime_id p, rcv_coordinator_id = pc_coordinator_id p,
                     rcv_clear_id = pc_clear_id p\<rparr>)) (\<lambda>reply.
             case reply of
               None \<Rightarrow>
                 bindE (setE (\<lambda>st. st\<lparr>ds_pending_clear := None\<rparr>)) (\<lambda>_.
                   failE (ControlInvariant ''pending clear completed without a recoverable report''))
             | Some report \<Rightarrow> bindE (accept_clear_report ao report) (\<lambda>_. retE True))))"

section \<open>Clearing\<close>

definition is_timeout :: "lamb_error \<Rightarrow> bool" where
  "is_timeout e \<longleftrightarrow> e = ControlInvariant ''capture command timed out'' \<or> e = ControlInvariant ''capture command client timed out''"

text \<open>The accounting of a clear, with the frames of a frozen transaction counted as cleared.\<close>

definition clear_accounting_of :: "nat \<Rightarrow> nat \<Rightarrow> 'p dump_state \<Rightarrow> clear_accounting result" where
  "clear_accounting_of coordinator_id runtime_id st =
     bindR (ok_or (checked_add64 (ds_next_clear_id st) 1) (ControlInvariant ''clear transaction identity exhausted'')) (\<lambda>clear_id.
       let acc = \<lparr>acc_arena_runtime_id = runtime_id, acc_coordinator_id = coordinator_id, acc_clear_id = clear_id,
                  acc_expected_active_start = (case ds_committed_until st of None \<Rightarrow> 0 | Some c \<Rightarrow> c),
                  acc_pending_retention_lost_frames = ds_pending_retention_lost_frames st,
                  acc_pending_cleared_frames = ds_pending_cleared_frames st\<rparr> in
       case ds_frozen st of
         None \<Rightarrow> Inr acc
       | Some tx \<Rightarrow>
           let (first, stop) = fe_absolute_range (ft_frozen tx) in
           bindR (checked_loss_add (acc_pending_retention_lost_frames acc) (ft_retention_lost_frames tx)
                    ''pending retention loss counter exhausted'') (\<lambda>lost.
           bindR (checked_loss_add (acc_pending_cleared_frames acc) (stop - first)
                    ''pending cleared frame counter exhausted'') (\<lambda>cleared.
             Inr (acc\<lparr>acc_pending_retention_lost_frames := lost, acc_pending_cleared_frames := cleared,
                      acc_expected_active_start := stop\<rparr>))))"

definition pending_clear_of :: "nat \<Rightarrow> nat \<Rightarrow> clear_accounting \<Rightarrow> 'p dump_state \<Rightarrow> pending_clear" where
  "pending_clear_of coordinator_id runtime_id acc st =
     \<lparr>pc_arena_runtime_id = runtime_id, pc_coordinator_id = coordinator_id, pc_clear_id = acc_clear_id acc,
      pc_requested_start = (case ds_committed_until st of None \<Rightarrow> 0 | Some c \<Rightarrow> c), pc_accounting = acc,
      pc_frozen_end = map_option (\<lambda>tx. snd (fe_absolute_range (ft_frozen tx))) (ds_frozen st),
      pc_acknowledged_dropped_frames = ds_acknowledged_dropped_frames st\<rparr>"

definition submit_clear :: "'a arena_ops \<Rightarrow> (('a, 'w, 'p) world, clear_report) eff" where
  "submit_clear ao =
     bindE (getE (\<lambda>s. clear_accounting_of (wd_id s) (ao_runtime_id ao (wd_arena s)) (wd_state s))) (\<lambda>r.
     bindE (liftE r) (\<lambda>acc.
     bindE (getE (\<lambda>s. pending_clear_of (wd_id s) (ao_runtime_id ao (wd_arena s)) acc (wd_state s))) (\<lambda>pending.
     bindE (setE (\<lambda>st. st\<lparr>ds_next_clear_id := acc_clear_id acc, ds_pending_clear := Some pending\<rparr>)) (\<lambda>_.
     bindE (tryE (arenaE (ao_clear_active_accounted ao acc))) (\<lambda>reply.
       case reply of
         Inr report \<Rightarrow> retE report
       | Inl e \<Rightarrow>
           bindE (setE (\<lambda>st. if is_timeout e then st else st\<lparr>ds_pending_clear := None\<rparr>)) (\<lambda>_. failE e))))))"

text \<open>
  What every operation does first: take the lock, bind the arena, recover a clear that timed out
  (the result tells whether there was one), reconcile the completion authorities and lift a
  poison they explain.
\<close>

definition enter :: "'a arena_ops \<Rightarrow> (('a, 'w, 'p) world, bool) eff" where
  "enter ao =
     bindE lock_state (\<lambda>_.
     bindE (bind_arena ao) (\<lambda>_.
     bindE (recover_pending_clear ao) (\<lambda>recovered_clear.
     bindE (reconcile_completion_authority ao) (\<lambda>_.
     bindE clear_completion_poison_if_reconciled (\<lambda>_.
       retE recovered_clear)))))"

definition clear_in_order_with_release_timeout :: "'a arena_ops \<Rightarrow> (('a, 'w, 'p) world, unit) eff" where
  "clear_in_order_with_release_timeout ao =
     bindE (enter ao) (\<lambda>recovered_clear.
       if recovered_clear then retE ()
       else
         bindE (stateE ds_indeterminate_publication) (\<lambda>indeterminate.
         bindE (ensureE (indeterminate = None)
                  (IndeterminatePublication (ExportInvariant ''publication cleanup recovery is required before clear''))) (\<lambda>_.
         bindE (recover_pending_release ao) (\<lambda>_.
         bindE (submit_clear ao) (\<lambda>report.
         bindE (accept_clear_report ao report) (\<lambda>_.
         bindE (tryE (recover_pending_release ao)) (\<lambda>_. retE ())))))))"

section \<open>Persisting\<close>

definition frozen_range :: "frozen_transaction \<Rightarrow> nat \<times> nat" where
  "frozen_range tx = fe_absolute_range (ft_frozen tx)"

definition export_range_of :: "frozen_transaction \<Rightarrow> nat \<times> nat" where
  "export_range_of tx = (if ed_valid (ft_decision tx) then ed_export_range (ft_decision tx) else frozen_range tx)"

text \<open>Delivery, then the clean-up of the completion guard, and the combination of their errors.\<close>

definition guard_finalize :: "'a arena_ops \<Rightarrow> ('w, 'p) ws_ops \<Rightarrow> frozen_transaction \<Rightarrow> (('a, 'w, 'p) world, unit) eff" where
  "guard_finalize ao wo tx =
     bindE (tryE (workE (wo_finish_completed_publication wo))) (\<lambda>cleanup.
     bindE (tryE (finalize_completed_transaction ao (Some tx))) (\<lambda>reconciled.
     bindE (modE (\<lambda>s. if is_ok reconciled \<and> \<not> ds_completion_in_progress (wd_state s) \<and> ds_pending_completion (wd_state s) = None
                      then s\<lparr>wd_poisoned := False\<rparr> else s)) (\<lambda>_.
       liftE cleanup)))"

definition deliverE :: "(committed \<Rightarrow> unit result) \<Rightarrow> committed \<Rightarrow> (('a, 'w, 'p) world, unit) eff" where
  "deliverE deliver outcome =
     bindE (modE (\<lambda>s. s\<lparr>wd_delivered := wd_delivered s @ [outcome]\<rparr>)) (\<lambda>_. liftE (deliver outcome))"

definition deliver_and_finalize ::
    "'a arena_ops \<Rightarrow> ('w, 'p) ws_ops \<Rightarrow> (committed \<Rightarrow> unit result) \<Rightarrow> committed \<Rightarrow> frozen_transaction
     \<Rightarrow> (('a, 'w, 'p) world, unit) eff" where
  "deliver_and_finalize ao wo deliver outcome tx =
     bindE (tryE (deliverE deliver outcome)) (\<lambda>delivery.
     bindE (tryE (guard_finalize ao wo tx)) (\<lambda>cleanup.
       liftE (case (delivery, cleanup) of
                (Inr _, c) \<Rightarrow> c
              | (Inl operation, Inr _) \<Rightarrow> Inl operation
              | (Inl operation, Inl c) \<Rightarrow> Inl (PersistenceCleanup operation c))))"

text \<open>
  Committing a transaction: the losses, the new position, the reservation of the completion
  slot and the hand-over of the transaction to the guard.
\<close>

definition commit_transaction ::
    "nat \<Rightarrow> loss_commit \<Rightarrow> nat \<Rightarrow> string \<Rightarrow> (('a, 'w, 'p) world, loss_breakdown \<times> frozen_transaction) eff" where
  "commit_transaction cumulative lc range_end message =
     bindE (commit_losses cumulative lc) (\<lambda>losses.
     bindE (setE (\<lambda>st. st\<lparr>ds_committed_until := Some range_end\<rparr>)) (\<lambda>_.
     bindE begin_completion (\<lambda>_.
     bindE (stateE ds_frozen) (\<lambda>frozen.
       case frozen of
         None \<Rightarrow> bindE (setE (\<lambda>st. st\<lparr>ds_completion_in_progress := False\<rparr>)) (\<lambda>_. failE (ControlInvariant message))
       | Some tx \<Rightarrow> bindE (setE (\<lambda>st. st\<lparr>ds_frozen := None\<rparr>)) (\<lambda>_. retE (losses, tx))))))"

definition persist_prologue :: "'a arena_ops \<Rightarrow> ('w, 'p) ws_ops \<Rightarrow> (('a, 'w, 'p) world, bool) eff" where
  "persist_prologue ao wo = bindE (workE (wo_finish_completed_publication wo)) (\<lambda>_. enter ao)"

text \<open>The losses a recovered publication would commit, checked before the recovery is attempted.\<close>

definition recovery_accounting :: "'a arena_ops \<Rightarrow> (('a, 'w, 'p) world, (nat \<times> loss_commit) option) eff" where
  "recovery_accounting ao =
     bindE (stateE (\<lambda>st. (ds_indeterminate_publication st, ds_frozen st))) (\<lambda>(indeterminate, frozen).
       if indeterminate = None then retE None
       else case frozen of
         None \<Rightarrow> failE (ControlInvariant ''indeterminate publication has no frozen transaction'')
       | Some tx \<Rightarrow>
           bindE (arenaI (ao_cumulative_capture_dropped_frames ao)) (\<lambda>cumulative.
           bindE (stateE (\<lambda>st. prevalidate_loss_commit st cumulative (ft_retention_lost_frames tx))) (\<lambda>r.
           bindE (liftE r) (\<lambda>lc. retE (Some (cumulative, lc))))))"

definition persist_recovered ::
    "'a arena_ops \<Rightarrow> ('w, 'p) ws_ops \<Rightarrow> (committed \<Rightarrow> unit result) \<Rightarrow> (nat \<times> loss_commit) option
     \<Rightarrow> (('a, 'w, 'p) world, unit) eff" where
  "persist_recovered ao wo deliver accounting =
     bindE (stateE ds_frozen) (\<lambda>frozen.
       case frozen of
         None \<Rightarrow> failE (ControlInvariant ''complete recovered publication has no frozen transaction'')
       | Some tx0 \<Rightarrow>
           (case accounting of
              None \<Rightarrow> failE (Panicked ''complete recovery retains prevalidated loss accounting'')
            | Some (cumulative, lc) \<Rightarrow>
                bindE (commit_transaction cumulative lc (snd (frozen_range tx0))
                         ''recovered completion lost its frozen transaction'') (\<lambda>(losses, tx).
                  let (first, stop) = frozen_range tx0 in
                  deliver_and_finalize ao wo deliver
                    (Written (first, stop) (export_range_of tx) (stop - first) losses) tx)))"

text \<open>Freezing when no transaction is left over; \<open>True\<close> when there is one to persist.\<close>

definition persist_freeze :: "'a arena_ops \<Rightarrow> (committed \<Rightarrow> unit result) \<Rightarrow> (('a, 'w, 'p) world, bool) eff" where
  "persist_freeze ao deliver =
     bindE (stateE (\<lambda>st. (ds_frozen st, ds_reusable_decision st, ds_committed_until st))) (\<lambda>(frozen, reusable, committed_until).
       if frozen \<noteq> None then retE True
       else case reusable of
         None \<Rightarrow> failE (ControlInvariant ''persistence coordinator has no reusable frozen decision'')
       | Some decision \<Rightarrow>
           bindE (arenaE (ao_freeze_since ao committed_until)) (\<lambda>reply.
             case reply of
               None \<Rightarrow>
                 bindE (arenaI (ao_cumulative_capture_dropped_frames ao)) (\<lambda>cumulative.
                 bindE (stateE (\<lambda>st. prevalidate_loss_commit st cumulative 0)) (\<lambda>r.
                 bindE (liftE r) (\<lambda>lc.
                 bindE (commit_losses cumulative lc) (\<lambda>losses.
                 bindE (deliverE deliver (NoNewAudio losses)) (\<lambda>_. retE False)))))
             | Some epoch \<Rightarrow>
                 let requested = (case committed_until of None \<Rightarrow> 0 | Some c \<Rightarrow> c) in
                 bindE (setE (\<lambda>st. st\<lparr>ds_frozen := Some \<lparr>ft_frozen = epoch,
                                ft_retention_lost_frames = saturating_sub64 (fst (fe_absolute_range epoch)) requested,
                                ft_decision = decision\<rparr>, ds_reusable_decision := None\<rparr>)) (\<lambda>_.
                   retE True)))"

datatype publish_outcome = PubWritten | PubSilent | PubByPolicy

text \<open>
  Preparing and publishing the frozen transaction.  The decision is updated in place by the
  preparation; an indeterminate publication is recorded before its error is returned.
\<close>

definition persist_publish ::
    "('w, 'p) ws_ops \<Rightarrow> frozen_transaction \<Rightarrow> (('a, 'w, 'p) world, publish_outcome) eff" where
  "persist_publish wo tx =
     bindE (workI (wo_prepare wo (ft_frozen tx) (ft_decision tx))) (\<lambda>(decision, prep).
     bindE (setE (\<lambda>st. st\<lparr>ds_frozen := Some (tx\<lparr>ft_decision := decision\<rparr>)\<rparr>)) (\<lambda>_.
     bindE (liftE prep) (\<lambda>prepared.
     bindE (case prepared of
              PrepSilent \<Rightarrow> retE (Inr (PubSilent, None))
            | PrepSkippedSilent \<Rightarrow> retE (Inr (PubSilent, None))
            | PrepSkippedByPolicy \<Rightarrow> retE (Inr (PubByPolicy, None))
            | PrepReady \<Rightarrow>
                bindE (workI (wo_publish_prepared wo)) (\<lambda>publication.
                  retE (case publication of
                          Published \<Rightarrow> Inr (PubWritten, None)
                        | RetryableFailure e \<Rightarrow> Inl e
                        | Indeterminate operation cleanup \<Rightarrow> Inr (PubWritten, Some (operation, cleanup))))) (\<lambda>publication.
     let (first, stop) = frozen_range tx; (export_start, export_end) = export_range_of (tx\<lparr>ft_decision := decision\<rparr>) in
     bindE (ensureE (\<not> (export_start < first \<or> export_end \<noteq> stop \<or> export_end < export_start))
              (ExportInvariant ''frozen export range is outside the consumed range'')) (\<lambda>_.
     bindE (liftE publication) (\<lambda>(outcome, indeterminate).
       case indeterminate of
         None \<Rightarrow> retE outcome
       | Some (operation, cleanup) \<Rightarrow>
           bindE (setE (\<lambda>st. st\<lparr>ds_indeterminate_publication := Some cleanup\<rparr>)) (\<lambda>_.
             failE (IndeterminatePublication operation))))))))"

definition committed_kind :: "publish_outcome \<Rightarrow> frozen_transaction \<Rightarrow> loss_breakdown \<Rightarrow> committed" where
  "committed_kind outcome tx losses =
     (let (first, stop) = frozen_range tx in
      case outcome of
        PubByPolicy \<Rightarrow> SkippedByPolicy (first, stop) (stop - first) losses
      | PubSilent \<Rightarrow> SkippedSilent (first, stop) (stop - first) losses
      | PubWritten \<Rightarrow> Written (first, stop) (export_range_of tx) (stop - first) losses)"

definition persist_transaction ::
    "'a arena_ops \<Rightarrow> ('w, 'p) ws_ops \<Rightarrow> (committed \<Rightarrow> unit result) \<Rightarrow> frozen_transaction \<Rightarrow> (('a, 'w, 'p) world, unit) eff" where
  "persist_transaction ao wo deliver tx0 =
     bindE (persist_publish wo tx0) (\<lambda>outcome.
     bindE (arenaI (ao_cumulative_capture_dropped_frames ao)) (\<lambda>cumulative.
     bindE (stateE (\<lambda>st. prevalidate_loss_commit st cumulative (ft_retention_lost_frames tx0))) (\<lambda>r.
     bindE (liftE r) (\<lambda>lc.
     bindE (commit_transaction cumulative lc (snd (frozen_range tx0)) ''committed completion lost its frozen transaction'') (\<lambda>(losses, tx).
       deliver_and_finalize ao wo deliver (committed_kind outcome tx losses) tx)))))"

definition persist_policy_with_delivery ::
    "'a arena_ops \<Rightarrow> ('w, 'p) ws_ops \<Rightarrow> (committed \<Rightarrow> unit result) \<Rightarrow> (('a, 'w, 'p) world, unit) eff" where
  "persist_policy_with_delivery ao wo deliver =
     bindE (persist_prologue ao wo) (\<lambda>_.
     bindE (recovery_accounting ao) (\<lambda>accounting.
     bindE (recover_indeterminate_publication wo) (\<lambda>recovered.
       if recovered then persist_recovered ao wo deliver accounting
       else
         bindE (persist_freeze ao deliver) (\<lambda>go.
           if \<not> go then retE ()
           else
             bindE (stateE ds_frozen) (\<lambda>frozen.
               case frozen of
                 None \<Rightarrow> failE (Panicked ''frozen transaction remains present'')
               | Some tx \<Rightarrow> persist_transaction ao wo deliver tx)))))"

text \<open>
  \<open>persist_policy\<close>: the delivery keeps a copy of what it is given; a success without a
  delivery is an error.
\<close>

definition persist_policy :: "'a arena_ops \<Rightarrow> ('w, 'p) ws_ops \<Rightarrow> (('a, 'w, 'p) world, committed) eff" where
  "persist_policy ao wo =
     bindE (getE (\<lambda>s. length (wd_delivered s))) (\<lambda>before.
     bindE (persist_policy_with_delivery ao wo (\<lambda>_. Inr ())) (\<lambda>_.
     bindE (getE (\<lambda>s. if before < length (wd_delivered s) then Some (last (wd_delivered s)) else None)) (\<lambda>outcome.
       liftE (ok_or outcome (ControlInvariant ''persistence delivery did not provide an outcome'')))))"

end
