(* ===== verification/Arena_Client.thy ===== *)
theory Arena_Client
  imports Capture_Theorems Dump_Coordinator
begin

text \<open>
  The client side of the capture arena (\<open>src/capture_arena.rs\<close>): the command slot shared
  with the worker thread, the bounded waits, and the recovery of the result of a command whose
  client gave up.  Time and the other threads are a tape of events that the waits consume: a
  producer pushes, the worker takes a turn of its loop, the deadline passes, the client mutex is
  unavailable.  The tape is arbitrary, so a theorem about every tape covers every schedule of
  whole turns.  The last submitted freeze and clear are kept as history variables.
\<close>

section \<open>The command slot\<close>

datatype command_kind = KindNone | KindFreeze | KindRelease | KindClear | KindStatus | KindShutdown

datatype slot_state = SlotIdle | SlotPreparing | SlotReady worker_command | SlotProcessing | SlotResult "worker_reply result"

record command_slot =
  sl_state :: slot_state
  sl_kind :: command_kind
  sl_abandoned :: bool

definition command_slot_new :: command_slot where
  "command_slot_new = \<lparr>sl_state = SlotIdle, sl_kind = KindNone, sl_abandoned = False\<rparr>"

definition slot_begin :: "command_kind \<Rightarrow> command_slot \<Rightarrow> command_slot \<times> unit result" where
  "slot_begin kind sl =
     (if sl_state sl \<noteq> SlotIdle then (sl, Inl (ControlInvariant ''capture command already pending''))
      else (sl\<lparr>sl_state := SlotPreparing, sl_kind := kind, sl_abandoned := False\<rparr>, Inr ()))"

definition slot_publish :: "worker_command \<Rightarrow> command_slot \<Rightarrow> command_slot" where
  "slot_publish command sl = sl\<lparr>sl_state := SlotReady command\<rparr>"

definition ready_target :: "command_slot \<Rightarrow> nat option" where
  "ready_target sl = (case sl_state sl of SlotReady command \<Rightarrow> Some (target_sequence command) | _ \<Rightarrow> None)"

definition take_command :: "command_slot \<Rightarrow> (command_slot \<times> worker_command) option" where
  "take_command sl = (case sl_state sl of SlotReady command \<Rightarrow> Some (sl\<lparr>sl_state := SlotProcessing\<rparr>, command) | _ \<Rightarrow> None)"

definition publish_result :: "worker_reply result \<Rightarrow> command_slot \<Rightarrow> command_slot" where
  "publish_result reply sl = sl\<lparr>sl_state := SlotResult reply\<rparr>"

definition take_result :: "command_slot \<Rightarrow> (command_slot \<times> worker_reply result) option" where
  "take_result sl =
     (case sl_state sl of
        SlotResult reply \<Rightarrow> Some (sl\<lparr>sl_state := SlotIdle, sl_kind := KindNone, sl_abandoned := False\<rparr>, reply)
      | _ \<Rightarrow> None)"

definition cancel_preparing :: "command_slot \<Rightarrow> command_slot \<times> bool" where
  "cancel_preparing sl = (if sl_state sl = SlotPreparing then (sl\<lparr>sl_state := SlotIdle\<rparr>, True) else (sl, False))"

section \<open>The arena and its schedule\<close>

datatype tick = Push "f32 list" | Turn nat "nat \<Rightarrow> ingress_queue" | Expire | DeadlineOverflow | LockBusy | LockPoisoned

record arena =
  ar_runtime_id :: nat
  ar_rt :: capture_runtime
  ar_slot :: command_slot
  ar_recovered_frozen :: "frozen_descriptor option"
  ar_recovered_clear :: "clear_report option"
  ar_exited :: bool
  ar_tape :: "tick list"
  ar_last_freeze :: "nat option"
  ar_last_clear :: clear_accounting

text \<open>One turn of the worker's loop; a worker that panics takes no more turns.\<close>

definition consume_turn :: "fp_ops \<Rightarrow> nat \<Rightarrow> (nat \<Rightarrow> ingress_queue) \<Rightarrow> arena \<Rightarrow> arena" where
  "consume_turn fp now obs a =
     (case consume_one fp now obs (ar_rt a) of
        Inl _ \<Rightarrow> a\<lparr>ar_exited := True\<rparr>
      | Inr (rt, _) \<Rightarrow> a\<lparr>ar_rt := rt\<rparr>)"

definition command_turn :: "worker_command \<Rightarrow> arena \<Rightarrow> arena" where
  "command_turn command a =
     (case process_command command (ar_rt a) of
        (rt, reply) \<Rightarrow>
          let shutdown = (case command of CmdShutdown _ \<Rightarrow> True | _ \<Rightarrow> False) in
          a\<lparr>ar_rt := (if shutdown then (fail_calibration rt)\<lparr>rt_worker_done := True\<rparr> else rt),
            ar_slot := publish_result reply (ar_slot a), ar_exited := shutdown\<rparr>)"

definition worker_turn :: "fp_ops \<Rightarrow> nat \<Rightarrow> (nat \<Rightarrow> ingress_queue) \<Rightarrow> arena \<Rightarrow> arena" where
  "worker_turn fp now obs a0 =
     (if ar_exited a0 then a0
      else
        let a = a0\<lparr>ar_rt := cancel_calibration_if_requested (ar_rt a0)\<rparr> in
        if sl_state (ar_slot a) = SlotPreparing then a
        else case ready_target (ar_slot a) of
          Some target \<Rightarrow>
            if consumed_sequence (rt_queue (ar_rt a)) < target then consume_turn fp now obs a
            else (case take_command (ar_slot a) of
                    None \<Rightarrow> a\<lparr>ar_exited := True\<rparr>
                  | Some (slot, command) \<Rightarrow> command_turn command (a\<lparr>ar_slot := slot\<rparr>))
        | None \<Rightarrow> consume_turn fp now obs a)"

definition tick_step :: "fp_ops \<Rightarrow> tick \<Rightarrow> arena \<Rightarrow> arena" where
  "tick_step fp t a =
     (case t of
        Push samples \<Rightarrow>
          a\<lparr>ar_rt := (ar_rt a)\<lparr>rt_queue := fst (try_push_interleaved samples (q_channels (rt_queue (ar_rt a))) (rt_queue (ar_rt a)))\<rparr>\<rparr>
      | Turn now obs \<Rightarrow> worker_turn fp now obs a
      | _ \<Rightarrow> a)"

section \<open>Waiting\<close>

definition timed_out :: lamb_error where
  "timed_out = ControlInvariant ''capture command timed out''"

text \<open>The wait polls the slot before it looks at the clock; an empty tape is a deadline that has passed.\<close>

fun wait_on :: "fp_ops \<Rightarrow> tick list \<Rightarrow> arena \<Rightarrow> arena \<times> worker_reply result result" where
  "wait_on fp tape a =
     (case take_result (ar_slot a) of
        Some (slot, reply) \<Rightarrow> (a\<lparr>ar_slot := slot, ar_tape := tape\<rparr>, Inr reply)
      | None \<Rightarrow>
          (case tape of
             [] \<Rightarrow> (a\<lparr>ar_slot := (ar_slot a)\<lparr>sl_abandoned := True\<rparr>, ar_tape := []\<rparr>, Inl timed_out)
           | Expire # later \<Rightarrow> (a\<lparr>ar_slot := (ar_slot a)\<lparr>sl_abandoned := True\<rparr>, ar_tape := later\<rparr>, Inl timed_out)
           | t # later \<Rightarrow> wait_on fp later (tick_step fp t a)))"

declare wait_on.simps [simp del]

definition wait_slot_result :: "fp_ops \<Rightarrow> (arena, worker_reply result) eff" where
  "wait_slot_result fp a = wait_on fp (ar_tape a) a"

text \<open>The deadline is computed and the client mutex taken.\<close>

definition lock_command_client :: "(arena, unit) eff" where
  "lock_command_client a =
     (case ar_tape a of
        DeadlineOverflow # later \<Rightarrow> (a\<lparr>ar_tape := later\<rparr>, Inl (ControlInvariant ''capture command deadline overflow''))
      | LockBusy # later \<Rightarrow> (a\<lparr>ar_tape := later\<rparr>, Inl (ControlInvariant ''capture command client timed out''))
      | LockPoisoned # later \<Rightarrow> (a\<lparr>ar_tape := later\<rparr>, Inl (ControlInvariant ''capture command client mutex poisoned''))
      | _ \<Rightarrow> (a, Inr ()))"

definition published_head :: "arena \<Rightarrow> nat" where
  "published_head a = published_sequence (rt_queue (ar_rt a))"

section \<open>Submitting and recovering\<close>

definition note_command :: "worker_command \<Rightarrow> arena \<Rightarrow> arena" where
  "note_command command a =
     (case command of
        CmdFreeze _ committed_start \<Rightarrow> a\<lparr>ar_last_freeze := committed_start\<rparr>
      | CmdClear _ _ accounting \<Rightarrow> a\<lparr>ar_last_clear := accounting\<rparr>
      | _ \<Rightarrow> a)"

definition begin_command :: "command_kind \<Rightarrow> (arena, unit) eff" where
  "begin_command kind a = (case slot_begin kind (ar_slot a) of (slot, r) \<Rightarrow> (a\<lparr>ar_slot := slot\<rparr>, r))"

definition submit_locked :: "fp_ops \<Rightarrow> command_kind \<Rightarrow> (arena \<Rightarrow> worker_command) \<Rightarrow> (arena, worker_reply) eff" where
  "submit_locked fp kind build =
     bindE (begin_command kind) (\<lambda>_.
     bindE (getE build) (\<lambda>command.
     bindE (modE (\<lambda>a. note_command command (a\<lparr>ar_slot := slot_publish command (ar_slot a)\<rparr>))) (\<lambda>_.
     bindE (wait_slot_result fp) liftE)))"

text \<open>
  \<open>recover_before\<close>: the result of an abandoned command is awaited before the next one.
  \<open>Some reply\<close> answers the request with it; \<open>None\<close> lets the request go on.
\<close>

definition keep_stale ::
    "command_kind \<Rightarrow> command_kind \<Rightarrow> worker_reply result \<Rightarrow> (arena, worker_reply result option) eff" where
  "keep_stale requested stale_kind stale =
     (if stale_kind = KindClear then
        (case stale of
           Inr (RepCleared report) \<Rightarrow>
             bindE (modE (\<lambda>a. a\<lparr>ar_recovered_clear := Some report\<rparr>)) (\<lambda>_.
               if requested = KindStatus then retE None
               else failE (ControlInvariant ''clear result pending explicit recovery''))
         | _ \<Rightarrow> retE (if requested = KindClear then Some stale else None))
      else if stale_kind = KindFreeze then
        (case stale of
           Inr (RepFrozen (Some descriptor)) \<Rightarrow>
             if requested = KindFreeze then retE (Some stale)
             else bindE (modE (\<lambda>a. a\<lparr>ar_recovered_frozen := Some descriptor\<rparr>)) (\<lambda>_.
               failE (ControlInvariant ''frozen result pending recovery''))
         | _ \<Rightarrow> retE (if requested = KindFreeze then Some stale else None))
      else if stale_kind = KindRelease then retE (Some stale)
      else if stale_kind = requested then retE (Some stale)
      else if stale_kind = KindShutdown then failE (ControlInvariant ''shutdown result pending recovery'')
      else retE None)"

definition recover_before :: "fp_ops \<Rightarrow> command_kind \<Rightarrow> (arena, worker_reply result option) eff" where
  "recover_before fp requested =
     bindE (getE (\<lambda>a. a)) (\<lambda>a.
       if ar_recovered_clear a \<noteq> None \<and> requested \<noteq> KindStatus
       then failE (ControlInvariant ''clear result pending explicit recovery'')
       else if ar_recovered_frozen a \<noteq> None then
         (if requested = KindFreeze
          then bindE (modE (\<lambda>a. a\<lparr>ar_recovered_frozen := None\<rparr>)) (\<lambda>_. retE (Some (Inr (RepFrozen (ar_recovered_frozen a)))))
          else failE (ControlInvariant ''frozen result pending recovery''))
       else if sl_state (ar_slot a) = SlotIdle then retE None
       else if \<not> sl_abandoned (ar_slot a) then failE (ControlInvariant ''capture command already pending'')
       else
         let stale_kind = sl_kind (ar_slot a) in
         if stale_kind = KindRelease \<and> requested \<noteq> KindRelease
         then failE (ControlInvariant ''release result pending recovery'')
         else bindE (wait_slot_result fp) (keep_stale requested stale_kind))"

definition execute_locked :: "fp_ops \<Rightarrow> command_kind \<Rightarrow> (arena \<Rightarrow> worker_command) \<Rightarrow> (arena, worker_reply) eff" where
  "execute_locked fp kind build =
     bindE (recover_before fp kind) (\<lambda>recovered.
       case recovered of Some reply \<Rightarrow> liftE reply | None \<Rightarrow> submit_locked fp kind build)"

definition execute_command :: "fp_ops \<Rightarrow> command_kind \<Rightarrow> (arena \<Rightarrow> worker_command) \<Rightarrow> (arena, worker_reply) eff" where
  "execute_command fp kind build = bindE lock_command_client (\<lambda>_. execute_locked fp kind build)"

section \<open>The operations\<close>

definition freeze_since :: "fp_ops \<Rightarrow> nat option \<Rightarrow> (arena, frozen_epoch option) eff" where
  "freeze_since fp committed_start =
     bindE (execute_command fp KindFreeze (\<lambda>a. CmdFreeze (published_head a) committed_start)) (\<lambda>reply.
       case reply of
         RepFrozen descriptor \<Rightarrow> getE (\<lambda>a. map_option (frozen_epoch_from_descriptor (ar_runtime_id a)) descriptor)
       | _ \<Rightarrow> failE (ControlInvariant ''capture worker returned the wrong freeze result''))"

text \<open>
  The handle is updated in place.  An error before a command was run leaves it as it was; a
  failed command marks the release as pending while the slot is in use.
\<close>

definition release_submit :: "fp_ops \<Rightarrow> frozen_epoch \<Rightarrow> (arena, frozen_epoch \<times> unit result) eff" where
  "release_submit fp f =
     bindE (recover_before fp KindRelease) (\<lambda>recovered.
     bindE (tryE (case recovered of
                    Some reply \<Rightarrow> liftE reply
                  | None \<Rightarrow> submit_locked fp KindRelease (\<lambda>a. CmdRelease (published_head a) (fe_index f) (fe_generation f)))) (\<lambda>reply.
       case reply of
         Inl e \<Rightarrow> getE (\<lambda>a. (f\<lparr>fe_release_pending := (sl_state (ar_slot a) \<noteq> SlotIdle)\<rparr>, Inl e))
       | Inr RepReleased \<Rightarrow> retE (f\<lparr>fe_release_pending := False, fe_released := True\<rparr>, Inr ())
       | Inr _ \<Rightarrow> retE (f\<lparr>fe_release_pending := False\<rparr>,
                         Inl (ControlInvariant ''capture worker returned the wrong release result''))))"

definition release_frozen :: "fp_ops \<Rightarrow> frozen_epoch \<Rightarrow> arena \<Rightarrow> arena \<times> (frozen_epoch \<times> unit result)" where
  "release_frozen fp f a =
     (if fe_runtime_id f \<noteq> ar_runtime_id a
      then (a, f, Inl (ControlInvariant ''frozen epoch belongs to a different capture runtime''))
      else if fe_released f then (a, f, Inl (ControlInvariant ''frozen epoch was already released''))
      else (case bindE lock_command_client (\<lambda>_. release_submit fp f) a of
              (a', Inl e) \<Rightarrow> (a', f, Inl e)
            | (a', Inr out) \<Rightarrow> (a', out)))"

definition clear_active_accounted :: "fp_ops \<Rightarrow> clear_accounting \<Rightarrow> (arena, clear_report) eff" where
  "clear_active_accounted fp accounting =
     bindE (getE (\<lambda>a. acc_arena_runtime_id accounting = ar_runtime_id a)) (\<lambda>mine.
     bindE (ensureE mine (ControlInvariant ''clear accounting belongs to a different capture runtime'')) (\<lambda>_.
     bindE (execute_command fp KindClear (\<lambda>a. CmdClear (published_head a) (q_dropped_frames (rt_queue (ar_rt a))) accounting)) (\<lambda>reply.
       case reply of
         RepCleared report \<Rightarrow> retE report
       | _ \<Rightarrow> failE (ControlInvariant ''capture worker returned the wrong clear result''))))"

definition cumulative_capture_dropped_frames :: "arena \<Rightarrow> nat" where
  "cumulative_capture_dropped_frames a = cumulative_dropped_frames (rt_queue (ar_rt a))"

definition await_clear :: "fp_ops \<Rightarrow> clear_recovery \<Rightarrow> (arena, clear_report option) eff" where
  "await_clear fp recovery =
     bindE (wait_slot_result fp) (\<lambda>result.
     bindE (liftE result) (\<lambda>reply.
       case reply of
         RepCleared report \<Rightarrow>
           if recovery_matches recovery report then retE (Some report)
           else bindE (modE (\<lambda>a. a\<lparr>ar_recovered_clear := Some report\<rparr>)) (\<lambda>_.
             failE (ControlInvariant ''clear recovery identity does not match completed report''))
       | _ \<Rightarrow> failE (ControlInvariant ''capture worker returned the wrong clear recovery result'')))"

definition recover_clear_locked :: "fp_ops \<Rightarrow> clear_recovery \<Rightarrow> (arena, clear_report option) eff" where
  "recover_clear_locked fp recovery =
     bindE (getE (\<lambda>a. a)) (\<lambda>a.
       case ar_recovered_clear a of
         Some report \<Rightarrow>
           bindE (ensureE (recovery_matches recovery report)
                    (ControlInvariant ''clear recovery identity does not match retained report'')) (\<lambda>_.
           bindE (modE (\<lambda>a. a\<lparr>ar_recovered_clear := None\<rparr>)) (\<lambda>_. retE (Some report)))
       | None \<Rightarrow>
           if sl_state (ar_slot a) = SlotIdle then retE None
           else if \<not> sl_abandoned (ar_slot a) \<or> sl_kind (ar_slot a) \<noteq> KindClear
           then failE (ControlInvariant ''capture clear result is not recoverable'')
           else await_clear fp recovery)"

definition recover_clear_result :: "fp_ops \<Rightarrow> clear_recovery \<Rightarrow> (arena, clear_report option) eff" where
  "recover_clear_result fp recovery =
     bindE (getE ar_runtime_id) (\<lambda>rid.
     bindE (ensureE (rcv_arena_runtime_id recovery = rid)
              (ControlInvariant ''clear recovery belongs to a different capture runtime'')) (\<lambda>_.
     bindE lock_command_client (\<lambda>_. recover_clear_locked fp recovery)))"

definition arena_status :: "fp_ops \<Rightarrow> (arena, capture_status) eff" where
  "arena_status fp =
     bindE (execute_command fp KindStatus (\<lambda>a. CmdStatus (published_head a))) (\<lambda>reply.
       case reply of
         RepStatus status \<Rightarrow> retE status
       | _ \<Rightarrow> failE (ControlInvariant ''capture worker returned the wrong status result''))"

text \<open>The operations as the coordinator calls them.\<close>

definition client_ops :: "fp_ops \<Rightarrow> arena arena_ops" where
  "client_ops fp =
     \<lparr>ao_runtime_id = ar_runtime_id,
      ao_cumulative_capture_dropped_frames = (\<lambda>a. (a, cumulative_capture_dropped_frames a)),
      ao_freeze_since = freeze_since fp, ao_release_frozen = release_frozen fp,
      ao_clear_active_accounted = clear_active_accounted fp, ao_recover_clear_result = recover_clear_result fp\<rparr>"

end
