(* ===== verification/Dump_Accounting.thy ===== *)
theory Dump_Accounting
  imports Dump_Coordinator
begin

text \<open>
  The accounting of the dump coordinator.  The locale states what the coordinator relies on in
  the capture arena: the absolute head and the drop counter only grow, a frozen range starts at
  the requested frame or later and ends at the head of its time, and a clear reports every frame
  between the expected start and its end.  An operation that times out leaves the arena owing
  its result; \<open>owed\<close> is that debt.  Inside the locale the coordinator's operations keep the
  invariant that every frame up to the committed position is delivered, lost or cleared exactly
  once.
\<close>

section \<open>What was delivered\<close>

definition dump_outcome_losses :: "committed \<Rightarrow> loss_breakdown" where
  "dump_outcome_losses outcome =
     (case outcome of Written _ _ _ l \<Rightarrow> l | SkippedSilent _ _ l \<Rightarrow> l | SkippedByPolicy _ _ l \<Rightarrow> l | NoNewAudio l \<Rightarrow> l)"

definition dump_outcome_range :: "committed \<Rightarrow> (nat \<times> nat) option" where
  "dump_outcome_range outcome =
     (case outcome of Written r _ _ _ \<Rightarrow> Some r | SkippedSilent r _ _ \<Rightarrow> Some r | SkippedByPolicy r _ _ \<Rightarrow> Some r
      | NoNewAudio _ \<Rightarrow> None)"

definition position :: "'p dump_state \<Rightarrow> nat" where
  "position st = (case ds_committed_until st of None \<Rightarrow> 0 | Some c \<Rightarrow> c)"

definition accounted_frames :: "committed \<Rightarrow> nat" where
  "accounted_frames outcome =
     (case dump_outcome_range outcome of None \<Rightarrow> 0 | Some (first, stop) \<Rightarrow> stop - first) +
     lb_retention_lost_frames (dump_outcome_losses outcome) + lb_cleared_frames (dump_outcome_losses outcome)"

definition dropped_frames_of :: "committed \<Rightarrow> nat" where
  "dropped_frames_of outcome = lb_capture_dropped_frames (dump_outcome_losses outcome)"

text \<open>The delivered ranges follow one another; an exported range is a suffix of its own.\<close>

fun ranges_below :: "nat \<Rightarrow> committed list \<Rightarrow> bool" where
  "ranges_below limit [] = True"
| "ranges_below limit (outcome # earlier) =
     (case dump_outcome_range outcome of
        None \<Rightarrow> ranges_below limit earlier
      | Some (first, stop) \<Rightarrow> first < stop \<and> stop \<le> limit \<and> ranges_below first earlier)"

definition export_within :: "committed \<Rightarrow> bool" where
  "export_within outcome =
     (case outcome of
        Written (first, stop) (export_start, export_end) frames _ \<Rightarrow>
          first \<le> export_start \<and> export_start \<le> export_end \<and> export_end = stop \<and> frames = stop - first
      | SkippedSilent (first, stop) frames _ \<Rightarrow> frames = stop - first
      | SkippedByPolicy (first, stop) frames _ \<Rightarrow> frames = stop - first
      | NoNewAudio _ \<Rightarrow> True)"

lemma ranges_below_mono: "ranges_below a D \<Longrightarrow> a \<le> b \<Longrightarrow> ranges_below b D"
  by (induction a D arbitrary: b rule: ranges_below.induct) (auto split: option.splits)

section \<open>The invariant of the coordinator\<close>

datatype owed = OwesNothing | OwesFreeze "nat option" | OwesClear clear_accounting

definition frozen_ok :: "nat \<Rightarrow> 'p dump_state \<Rightarrow> bool" where
  "frozen_ok h st =
     (case ds_frozen st of
        None \<Rightarrow> True
      | Some tx \<Rightarrow> fst (frozen_range tx) = position st + ft_retention_lost_frames tx \<and>
          fst (frozen_range tx) < snd (frozen_range tx) \<and> snd (frozen_range tx) \<le> h)"

definition clear_ok :: "nat \<Rightarrow> 'p dump_state \<Rightarrow> bool" where
  "clear_ok h st =
     (case ds_pending_clear st of
        None \<Rightarrow> True
      | Some p \<Rightarrow> ds_indeterminate_publication st = None \<and>
          pc_frozen_end p = map_option (\<lambda>tx. snd (frozen_range tx)) (ds_frozen st) \<and>
          position st \<le> acc_expected_active_start (pc_accounting p) \<and> acc_expected_active_start (pc_accounting p) \<le> h \<and>
          acc_pending_retention_lost_frames (pc_accounting p) + acc_pending_cleared_frames (pc_accounting p) + position st =
            ds_pending_retention_lost_frames st + ds_pending_cleared_frames st + acc_expected_active_start (pc_accounting p))"

definition owed_ok :: "owed \<Rightarrow> 'p dump_state \<Rightarrow> bool" where
  "owed_ok w st =
     (case w of
        OwesNothing \<Rightarrow> True
      | OwesFreeze c \<Rightarrow> ds_frozen st = None \<and> c = ds_committed_until st
      | OwesClear acc \<Rightarrow> map_option pc_accounting (ds_pending_clear st) = Some acc)"

definition publication_ok :: "'p dump_state \<Rightarrow> bool" where
  "publication_ok st =
     (ds_indeterminate_publication st = None \<or>
      (case ds_frozen st of
         None \<Rightarrow> False
       | Some tx \<Rightarrow> fst (frozen_range tx) \<le> fst (export_range_of tx) \<and>
           fst (export_range_of tx) \<le> snd (export_range_of tx) \<and> snd (export_range_of tx) = snd (frozen_range tx)))"

definition ledger_ok :: "'p dump_state \<Rightarrow> committed list \<Rightarrow> bool" where
  "ledger_ok st D \<longleftrightarrow>
     sum_list (map accounted_frames D) + ds_pending_retention_lost_frames st + ds_pending_cleared_frames st = position st \<and>
     sum_list (map dropped_frames_of D) = ds_acknowledged_dropped_frames st \<and>
     ranges_below (position st) (rev D) \<and> list_all export_within D"

definition coord_ok :: "nat \<Rightarrow> nat \<Rightarrow> owed \<Rightarrow> 'p dump_state \<Rightarrow> committed list \<Rightarrow> bool" where
  "coord_ok h k w st D \<longleftrightarrow>
     ledger_ok st D \<and> position st \<le> h \<and> ds_acknowledged_dropped_frames st \<le> k \<and>
     frozen_ok h st \<and> clear_ok h st \<and> owed_ok w st \<and> publication_ok st"

text \<open>Between two operations the completion marker is set exactly when an authority remains, and no delivery is active.\<close>

definition rest_ok :: "'p dump_state \<Rightarrow> bool" where
  "rest_ok st \<longleftrightarrow> ds_pending_completion st \<noteq> Some Delivering \<and> (ds_completion_in_progress st \<longleftrightarrow> ds_pending_completion st \<noteq> None)"

definition reconciled :: "'p dump_state \<Rightarrow> bool" where
  "reconciled st \<longleftrightarrow> \<not> ds_completion_in_progress st \<and> ds_pending_completion st = None \<and> ds_pending_release st = None \<and>
     ds_pending_clear st = None"

lemmas coord_defs = coord_ok_def ledger_ok_def frozen_ok_def clear_ok_def owed_ok_def publication_ok_def position_def

lemma coord_ok_mono:
  assumes "coord_ok h k w st D" and "h \<le> h'" and "k \<le> k'" and "w' \<in> {w, OwesNothing}"
  shows "coord_ok h' k' w' st D"
  using assms by (auto simp: coord_ok_def frozen_ok_def clear_ok_def owed_ok_def split: option.splits owed.splits)

text \<open>The fields the accounting does not depend on.\<close>

lemma coord_ok_free [simp]:
  "coord_ok h k w (st\<lparr>ds_bound_runtime_id := i\<rparr>) D = coord_ok h k w st D"
  "coord_ok h k w (st\<lparr>ds_pending_release := f\<rparr>) D = coord_ok h k w st D"
  "coord_ok h k w (st\<lparr>ds_completion_in_progress := b\<rparr>) D = coord_ok h k w st D"
  "coord_ok h k w (st\<lparr>ds_pending_completion := a\<rparr>) D = coord_ok h k w st D"
  "coord_ok h k w (st\<lparr>ds_reusable_decision := d\<rparr>) D = coord_ok h k w st D"
  "coord_ok h k w (st\<lparr>ds_next_clear_id := n\<rparr>) D = coord_ok h k w st D"
  by (simp_all add: coord_defs split: option.split owed.split)

lemma rest_ok_free [simp]:
  "rest_ok (st\<lparr>ds_bound_runtime_id := i\<rparr>) = rest_ok st"
  "rest_ok (st\<lparr>ds_pending_release := f\<rparr>) = rest_ok st"
  "rest_ok (st\<lparr>ds_reusable_decision := d\<rparr>) = rest_ok st"
  "rest_ok (st\<lparr>ds_next_clear_id := n\<rparr>) = rest_ok st"
  "rest_ok (st\<lparr>ds_pending_clear := c\<rparr>) = rest_ok st"
  "rest_ok (st\<lparr>ds_frozen := t\<rparr>) = rest_ok st"
  "rest_ok (st\<lparr>ds_indeterminate_publication := u\<rparr>) = rest_ok st"
  by (simp_all add: rest_ok_def)

text \<open>The clear that is recorded before it is submitted.\<close>

lemma pending_clear_recorded:
  assumes c: "coord_ok h k w st D" and ni: "ds_indeterminate_publication st = None"
    and w: "case w of OwesClear _ \<Rightarrow> False | _ \<Rightarrow> True" and acc: "clear_accounting_of i r st = Inr acc"
  shows "coord_ok h k w (st\<lparr>ds_next_clear_id := n, ds_pending_clear := Some (pending_clear_of i r acc st)\<rparr>) D \<and>
         acc_expected_active_start acc \<le> h"
proof -
  have "acc_pending_retention_lost_frames acc + acc_pending_cleared_frames acc + position st =
          ds_pending_retention_lost_frames st + ds_pending_cleared_frames st + acc_expected_active_start acc \<and>
        position st \<le> acc_expected_active_start acc \<and> acc_expected_active_start acc \<le> h"
  proof (cases "ds_frozen st")
    case None
    then show ?thesis using acc c
      by (auto simp: clear_accounting_of_def bindR_Inr_iff Let_def coord_ok_def position_def split: option.splits)
  next
    case (Some tx)
    then show ?thesis using acc c
      by (auto simp: clear_accounting_of_def bindR_Inr_iff Let_def coord_ok_def frozen_ok_def frozen_range_def checked_loss_add_def
          position_def split: option.splits prod.splits)
  qed
  with c ni w show ?thesis
    by (auto simp: coord_ok_def ledger_ok_def frozen_ok_def clear_ok_def owed_ok_def publication_ok_def position_def
        pending_clear_of_def frozen_range_def split: option.splits owed.splits)
qed

lemma pending_clear_owed: "pc_accounting (pending_clear_of i r acc st) = acc"
  by (simp add: pending_clear_of_def)

text \<open>The ledger after a commit: the outcome carries the pending losses, which start again at zero.\<close>

lemma ledger_commit:
  assumes "ledger_ok st D" and "export_within outcome"
    and "case dump_outcome_range outcome of None \<Rightarrow> position st' = position st \<and> ret = 0
         | Some (first, stop) \<Rightarrow> first = position st + ret \<and> first < stop \<and> position st' = stop"
    and "lb_retention_lost_frames (dump_outcome_losses outcome) = ds_pending_retention_lost_frames st + ret"
    and "lb_cleared_frames (dump_outcome_losses outcome) = ds_pending_cleared_frames st"
    and "lb_capture_dropped_frames (dump_outcome_losses outcome) + ds_acknowledged_dropped_frames st = ds_acknowledged_dropped_frames st'"
    and "ds_pending_retention_lost_frames st' = 0" and "ds_pending_cleared_frames st' = 0"
  shows "ledger_ok st' (D @ [outcome])"
  using assms ranges_below_mono[of "position st" "rev D"]
  by (auto simp: ledger_ok_def accounted_frames_def dropped_frames_of_def split: option.splits)

section \<open>The contract with the capture arena\<close>

definition report_for :: "clear_accounting \<Rightarrow> clear_report \<Rightarrow> bool" where
  "report_for acc report \<longleftrightarrow>
     acc_expected_active_start acc \<le> snd (rep_active_absolute_range report) \<and>
     rep_pending_retention_lost_frames report + rep_pending_cleared_frames report + acc_expected_active_start acc =
       acc_pending_retention_lost_frames acc + acc_pending_cleared_frames acc + snd (rep_active_absolute_range report)"

text \<open>Updates of the parts of the world in one order.\<close>

lemma world_update_order [simp]:
  "s\<lparr>wd_arena := a, wd_state := x\<rparr> = s\<lparr>wd_state := x, wd_arena := a\<rparr>"
  "s\<lparr>wd_workspace := w, wd_state := x\<rparr> = s\<lparr>wd_state := x, wd_workspace := w\<rparr>"
  "s\<lparr>wd_workspace := w, wd_arena := a\<rparr> = s\<lparr>wd_arena := a, wd_workspace := w\<rparr>"
  by simp_all

text \<open>Weakest preconditions of the accesses to the parts of the world.\<close>

lemma wp_state [wp]:
  "wpE (stateE f) Q E = (\<lambda>s. Q (f (wd_state s)) s)"
  "wpE (setE g) Q' E = (\<lambda>s. Q' () (s\<lparr>wd_state := g (wd_state s)\<rparr>))"
  by (simp_all add: stateE_def setE_def wp)

lemma wp_work: "(\<And>w x. Q x (s\<lparr>wd_workspace := w\<rparr>)) \<Longrightarrow> (\<And>w e. E e (s\<lparr>wd_workspace := w\<rparr>)) \<Longrightarrow> wpE (workE f) Q E s"
  by (auto simp: wpE_def workE_def split: prod.split sum.split)

lemma wp_arena:
  assumes "\<And>a x. f (wd_arena s) = (a, Inr x) \<Longrightarrow> Q x (s\<lparr>wd_arena := a\<rparr>)"
    and "\<And>a e. f (wd_arena s) = (a, Inl e) \<Longrightarrow> E e (s\<lparr>wd_arena := a\<rparr>)"
  shows "wpE (arenaE f) Q E s"
  using assms by (auto simp: wpE_def arenaE_def split: prod.split sum.split)

lemma wp_arenaI [wp]: "wpE (arenaI f) Q E = (\<lambda>s. case f (wd_arena s) of (a, x) \<Rightarrow> Q x (s\<lparr>wd_arena := a\<rparr>))"
  by (auto simp: wpE_def arenaI_def fun_eq_iff split: prod.split)

lemma wp_workI [wp]: "wpE (workI f) Q E = (\<lambda>s. case f (wd_workspace s) of (w, x) \<Rightarrow> Q x (s\<lparr>wd_workspace := w\<rparr>))"
  by (auto simp: wpE_def workI_def fun_eq_iff split: prod.split)

locale arena_contract =
  fixes ao :: "'a arena_ops" and ainv :: "'a \<Rightarrow> bool" and head :: "'a \<Rightarrow> nat" and cum :: "'a \<Rightarrow> nat" and owes :: "'a \<Rightarrow> owed"
    and progress :: "'a \<Rightarrow> 'a \<Rightarrow> bool"
  assumes progress: "\<lbrakk>ainv a; progress a a'\<rbrakk> \<Longrightarrow>
      ainv a' \<and> head a \<le> head a' \<and> cum a \<le> cum a' \<and> ao_runtime_id ao a' = ao_runtime_id ao a"
    and cum_bound: "ainv a \<Longrightarrow> cum a < u64_lim"
    and cumulative_law: "\<lbrakk>ainv a; ao_cumulative_capture_dropped_frames ao a = (a', n)\<rbrakk> \<Longrightarrow>
      progress a a' \<and> owes a' = owes a \<and> n = cum a'"
    and freeze_law: "\<lbrakk>ainv a; ao_freeze_since ao c a = (a', fr); (case c of None \<Rightarrow> 0 | Some k \<Rightarrow> k) \<le> head a;
        owes a \<in> {OwesNothing, OwesFreeze c}\<rbrakk> \<Longrightarrow>
      progress a a' \<and>
      (case fr of
         Inl e \<Rightarrow> owes a' \<in> {OwesNothing, OwesFreeze c}
       | Inr None \<Rightarrow> owes a' = OwesNothing
       | Inr (Some f) \<Rightarrow> owes a' = OwesNothing \<and> (case c of None \<Rightarrow> 0 | Some k \<Rightarrow> k) \<le> fst (fe_absolute_range f) \<and>
           fst (fe_absolute_range f) < snd (fe_absolute_range f) \<and> snd (fe_absolute_range f) \<le> head a')"
    and release_law: "\<lbrakk>ainv a; ao_release_frozen ao f a = (a', rl)\<rbrakk> \<Longrightarrow> progress a a' \<and> owes a' \<in> {owes a, OwesNothing}"
    and clear_law: "\<lbrakk>ainv a; ao_clear_active_accounted ao acc a = (a', cl); acc_expected_active_start acc \<le> head a\<rbrakk> \<Longrightarrow>
      progress a a' \<and>
      (case cl of
         Inl e \<Rightarrow> owes a' \<in> {owes a, OwesNothing} \<or> is_timeout e \<and> owes a' = OwesClear acc
       | Inr report \<Rightarrow> owes a' = OwesNothing \<and> report_for acc report \<and> snd (rep_active_absolute_range report) \<le> head a')"
    and recover_law: "\<lbrakk>ainv a; ao_recover_clear_result ao rc a = (a', rec)\<rbrakk> \<Longrightarrow>
      progress a a' \<and>
      (case rec of
         Inl e \<Rightarrow> owes a' \<in> {owes a, OwesNothing}
       | Inr None \<Rightarrow> owes a' = owes a \<and> (case owes a of OwesClear _ \<Rightarrow> False | _ \<Rightarrow> True)
       | Inr (Some report) \<Rightarrow> owes a' = OwesNothing \<and>
           (case owes a of OwesClear acc \<Rightarrow> report_for acc report \<and> snd (rep_active_absolute_range report) \<le> head a' | _ \<Rightarrow> False))"
begin

text \<open>The coordinator's state fits the arena's; the rest of the world is free.\<close>

definition fits :: "('a, 'w, 'p) world \<Rightarrow> bool" where
  "fits s \<longleftrightarrow> ainv (wd_arena s) \<and>
     coord_ok (head (wd_arena s)) (cum (wd_arena s)) (owes (wd_arena s)) (wd_state s) (wd_delivered s)"

definition at_rest :: "('a, 'w, 'p) world \<Rightarrow> bool" where
  "at_rest s \<longleftrightarrow> fits s \<and> rest_ok (wd_state s)"

lemma fits_progress:
  assumes "fits s" and "progress (wd_arena s) a" and "owes a \<in> {owes (wd_arena s), OwesNothing}"
  shows "fits (s\<lparr>wd_arena := a\<rparr>)"
  using assms progress[of "wd_arena s" a] coord_ok_mono by (fastforce simp: fits_def)

lemma fits_workspace [simp]: "fits (s\<lparr>wd_workspace := w\<rparr>) = fits s"
  by (simp add: fits_def)

lemma fits_poisoned [simp]: "fits (s\<lparr>wd_poisoned := b\<rparr>) = fits s"
  by (simp add: fits_def)

lemma bind_arena_ok: "at_rest s \<Longrightarrow> wpE (bind_arena ao) (\<lambda>_. at_rest) (\<lambda>_. at_rest) s"
  by (auto simp: bind_arena_def wp at_rest_def fits_def split: option.split)

lemma wp_release:
  assumes "fits s" and "\<And>a. fits (s\<lparr>wd_arena := a\<rparr>) \<Longrightarrow> Q () (s\<lparr>wd_arena := a\<rparr>)"
    and "\<And>a g e. fits (s\<lparr>wd_arena := a\<rparr>) \<Longrightarrow> E e (s\<lparr>wd_arena := a, wd_state := put g (wd_state s)\<rparr>)"
  shows "wpE (release_or_put_back ao put f) Q E s"
proof -
  have "fits (s\<lparr>wd_arena := a\<rparr>)" if "ao_release_frozen ao f (wd_arena s) = (a, r)" for a r
    using release_law[OF _ that] assms(1) by (blast intro: fits_progress dest: fits_def[THEN iffD1])
  with assms show ?thesis
    by (auto simp: release_or_put_back_def wp split: sum.split prod.split)
qed

definition released :: "'p dump_state \<Rightarrow> bool" where
  "released st \<longleftrightarrow> ds_pending_clear st = None \<and> ds_pending_release st = None \<and>
     (case ds_pending_completion st of Some (Finalized _ (Some _)) \<Rightarrow> False | _ \<Rightarrow> True)"

lemma recover_pending_release_ok:
  assumes "at_rest s"
  shows "wpE (recover_pending_release ao) (\<lambda>_ s'. at_rest s' \<and> released (wd_state s')) (\<lambda>_. at_rest) s"
  using assms unfolding recover_pending_release_def
  by (auto simp: wp at_rest_def released_def fits_def rest_ok_def intro!: wp_release split: option.split completion_authority.split)

lemma reconcile_without_release_ok:
  assumes "at_rest s" and "released (wd_state s)"
  shows "wpE reconcile_without_release (\<lambda>_ s'. at_rest s' \<and> reconciled (wd_state s')) (\<lambda>_. at_rest) s"
  using assms unfolding reconcile_without_release_def
  by (auto simp: wp at_rest_def released_def reconciled_def fits_def rest_ok_def split: option.split completion_authority.split)

lemma reconcile_completion_ok:
  assumes "at_rest s"
  shows "wpE (reconcile_completion_authority ao) (\<lambda>_ s'. at_rest s' \<and> reconciled (wd_state s')) (\<lambda>_. at_rest) s"
proof -
  have "wpE (bindE (recover_pending_release ao) (\<lambda>_. reconcile_without_release))
          (\<lambda>_ s'. at_rest s' \<and> reconciled (wd_state s')) (\<lambda>_. at_rest) s"
    by (simp add: wp, rule wpE_mono[OF recover_pending_release_ok[OF assms]]) (auto intro: reconcile_without_release_ok)
  with assms show ?thesis
    by (auto simp: reconcile_completion_authority_def wp split: option.split completion_authority.split)
qed

lemma clear_poison_ok: "P (wd_state s) \<Longrightarrow> at_rest s \<Longrightarrow> wpE clear_completion_poison_if_reconciled (\<lambda>_ s'. at_rest s' \<and> P (wd_state s')) E s"
  by (auto simp: clear_completion_poison_if_reconciled_def wp Let_def at_rest_def)

lemma accept_clear_report_ok:
  assumes rest: "at_rest s" and p: "ds_pending_clear (wd_state s) = Some p"
    and rep: "report_for (pc_accounting p) report" and le: "snd (rep_active_absolute_range report) \<le> head (wd_arena s)"
    and none: "owes (wd_arena s) = OwesNothing"
  shows "wpE (accept_clear_report ao report) (\<lambda>_ s'. at_rest s' \<and> ds_pending_clear (wd_state s') = None) (\<lambda>_. at_rest) s"
proof -
  let ?st = "wd_state s" and ?st' = "commit_clear_report report (wd_state s)"
  have c: "coord_ok (head (wd_arena s)) (cum (wd_arena s)) OwesNothing ?st (wd_delivered s)"
    using rest none by (simp add: at_rest_def fits_def)
  have pos: "position ?st' = snd (rep_active_absolute_range report)"
    using p by (simp add: commit_clear_report_def Let_def position_def split: option.split)
  have fz: "ds_frozen ?st' = None" "ds_pending_clear ?st' = None" "ds_indeterminate_publication ?st' = None"
    using c p by (auto simp: coord_ok_def clear_ok_def commit_clear_report_def Let_def split: option.splits)
  have st': "ds_pending_retention_lost_frames ?st' = rep_pending_retention_lost_frames report"
    "ds_pending_cleared_frames ?st' = rep_pending_cleared_frames report"
    "ds_acknowledged_dropped_frames ?st' = ds_acknowledged_dropped_frames ?st" "rest_ok ?st' = rest_ok ?st"
    using p by (simp_all add: commit_clear_report_def Let_def rest_ok_def split: option.split)
  have q: "position ?st \<le> position ?st'"
    using c p rep pos by (simp add: coord_ok_def clear_ok_def report_for_def)
  have "ledger_ok ?st' (wd_delivered s)"
    using c p rep q by (auto simp: coord_ok_def clear_ok_def report_for_def ledger_ok_def st' pos intro: ranges_below_mono)
  then have "coord_ok (head (wd_arena s)) (cum (wd_arena s)) OwesNothing ?st' (wd_delivered s)"
    using c fz le pos st' by (simp add: coord_ok_def frozen_ok_def clear_ok_def owed_ok_def publication_ok_def)
  then have "at_rest (s\<lparr>wd_state := ?st'\<rparr>)" using rest none st' by (simp add: at_rest_def fits_def)
  with fz rest show ?thesis by (auto simp: accept_clear_report_def wp split: sum.split)
qed

lemma recover_pending_clear_ok:
  assumes rest: "at_rest s"
  shows "wpE (recover_pending_clear ao) (\<lambda>_ s'. at_rest s' \<and> ds_pending_clear (wd_state s') = None) (\<lambda>_. at_rest) s"
proof (cases "ds_pending_clear (wd_state s)")
  case None
  then show ?thesis using rest by (simp add: recover_pending_clear_def wp)
next
  case (Some p)
  let ?rc = "\<lparr>rcv_arena_runtime_id = pc_arena_runtime_id p, rcv_coordinator_id = pc_coordinator_id p, rcv_clear_id = pc_clear_id p\<rparr>"
  have f: "fits s" and ai: "ainv (wd_arena s)" using rest by (simp_all add: at_rest_def fits_def)
  let ?reply = "\<lambda>reply. case reply of
         None \<Rightarrow> bindE (setE (\<lambda>st. st\<lparr>ds_pending_clear := None\<rparr>)) (\<lambda>_.
           failE (ControlInvariant ''pending clear completed without a recoverable report''))
       | Some report \<Rightarrow> bindE (accept_clear_report ao report) (\<lambda>_. retE True)"
  let ?Q = "\<lambda>_ s'. at_rest s' \<and> ds_pending_clear (wd_state s') = None"
  have "wpE (arenaE (ao_recover_clear_result ao ?rc)) (\<lambda>reply. wpE (?reply reply) ?Q (\<lambda>_. at_rest)) (\<lambda>_. at_rest) s"
  proof (rule wp_arena)
    fix a e assume "ao_recover_clear_result ao ?rc (wd_arena s) = (a, Inl e)"
    from recover_law[OF ai this] fits_progress[OF f] rest show "at_rest (s\<lparr>wd_arena := a\<rparr>)"
      by (simp add: at_rest_def)
  next
    fix a reply assume run: "ao_recover_clear_result ao ?rc (wd_arena s) = (a, Inr reply)"
    note law = recover_law[OF ai run]
    show "wpE (?reply reply) ?Q (\<lambda>_. at_rest) (s\<lparr>wd_arena := a\<rparr>)"
    proof (cases reply)
      case None
      have "fits (s\<lparr>wd_arena := a\<rparr>)" using law None fits_progress[OF f] by simp
      moreover have "\<And>acc. owes a \<noteq> OwesClear acc" using law None by auto
      ultimately have "at_rest (s\<lparr>wd_arena := a, wd_state := (wd_state s)\<lparr>ds_pending_clear := None\<rparr>\<rparr>)"
        using rest by (auto simp: at_rest_def fits_def coord_defs split: owed.splits option.splits)
      then show ?thesis by (simp add: None wp)
    next
      case (Some report)
      have r: "at_rest (s\<lparr>wd_arena := a\<rparr>)" using law Some fits_progress[OF f] rest by (simp add: at_rest_def)
      have "report_for (pc_accounting p) report \<and> snd (rep_active_absolute_range report) \<le> head a \<and> owes a = OwesNothing"
        using law Some f \<open>ds_pending_clear (wd_state s) = Some p\<close>
        by (auto simp: fits_def coord_ok_def owed_ok_def split: owed.splits)
      with accept_clear_report_ok[OF r, of p report] \<open>ds_pending_clear (wd_state s) = Some p\<close> show ?thesis
        by (simp add: Some wp)
    qed
  qed
  with Some rest show ?thesis by (auto simp: recover_pending_clear_def wp)
qed

lemma enter_ok:
  assumes "at_rest s"
  shows "wpE (enter ao) (\<lambda>_ s'. at_rest s' \<and> reconciled (wd_state s')) (\<lambda>_. at_rest) s"
  unfolding enter_def
proof (rule wpE_seq[where Q' = "\<lambda>_. at_rest"])
  show "wpE lock_state (\<lambda>_. at_rest) (\<lambda>_. at_rest) s" using assms by (simp add: wpE_def lock_state_def)
next
  fix s' assume "at_rest (s' :: ('a, 'b, 'c) world)"
  then show "wpE (bindE (bind_arena ao) (\<lambda>_. bindE (recover_pending_clear ao) (\<lambda>b. bindE (reconcile_completion_authority ao)
            (\<lambda>_. bindE clear_completion_poison_if_reconciled (\<lambda>_. retE b)))))
          (\<lambda>_ s'. at_rest s' \<and> reconciled (wd_state s')) (\<lambda>_. at_rest) s'"
    by (intro wpE_seq[OF bind_arena_ok] wpE_seq[OF recover_pending_clear_ok] wpE_seq[OF reconcile_completion_ok])
       (auto simp: wp intro!: clear_poison_ok)
qed

lemma not_owed_clear: "fits s \<Longrightarrow> ds_pending_clear (wd_state s) = None \<Longrightarrow> case owes (wd_arena s) of OwesClear _ \<Rightarrow> False | _ \<Rightarrow> True"
  by (auto simp: fits_def coord_ok_def owed_ok_def split: owed.splits)

lemma submit_clear_ok:
  assumes rest: "at_rest s" and rec: "reconciled (wd_state s)" and ni: "ds_indeterminate_publication (wd_state s) = None"
  shows "wpE (submit_clear ao)
     (\<lambda>report s'. at_rest s' \<and> owes (wd_arena s') = OwesNothing \<and> snd (rep_active_absolute_range report) \<le> head (wd_arena s') \<and>
        (\<exists>p. ds_pending_clear (wd_state s') = Some p \<and> report_for (pc_accounting p) report)) (\<lambda>_. at_rest) s"
    (is "wpE _ ?Q ?E s")
proof (cases "clear_accounting_of (wd_id s) (ao_runtime_id ao (wd_arena s)) (wd_state s)")
  case (Inl e)
  then show ?thesis using rest by (simp add: submit_clear_def wp)
next
  case (Inr acc)
  let ?p = "pending_clear_of (wd_id s) (ao_runtime_id ao (wd_arena s)) acc (wd_state s)"
  define s1 where "s1 = s\<lparr>wd_state := (wd_state s)\<lparr>ds_next_clear_id := acc_clear_id acc, ds_pending_clear := Some ?p\<rparr>\<rparr>"
  have f: "fits s" and ai: "ainv (wd_arena s)" using rest by (simp_all add: at_rest_def fits_def)
  have w: "case owes (wd_arena s) of OwesClear _ \<Rightarrow> False | _ \<Rightarrow> True"
    using not_owed_clear[OF f] rec by (simp add: reconciled_def)
  from pending_clear_recorded[OF _ ni w Inr] f have s1: "fits s1" and le: "acc_expected_active_start acc \<le> head (wd_arena s)"
    by (auto simp: fits_def s1_def)
  have "wpE (tryE (arenaE (ao_clear_active_accounted ao acc))) (\<lambda>reply. wpE (case reply of
         Inr report \<Rightarrow> retE report
       | Inl e \<Rightarrow> bindE (setE (\<lambda>st. if is_timeout e then st else st\<lparr>ds_pending_clear := None\<rparr>)) (\<lambda>_. failE e)) ?Q ?E) ?E s1"
    unfolding wpE_try
  proof (rule wp_arena)
    fix a report assume "ao_clear_active_accounted ao acc (wd_arena s1) = (a, Inr report)"
    with clear_law[OF ai _ le] have law: "progress (wd_arena s1) a" "owes a = OwesNothing" "report_for acc report"
      "snd (rep_active_absolute_range report) \<le> head a" by (fastforce simp: s1_def)+
    with fits_progress[OF s1] have "fits (s1\<lparr>wd_arena := a\<rparr>)" by simp
    with law rest show "wpE (case Inr report of Inl e \<Rightarrow> bindE (setE (\<lambda>st. if is_timeout e then st else st\<lparr>ds_pending_clear := None\<rparr>))
          (\<lambda>_. failE e) | Inr report \<Rightarrow> retE report) ?Q ?E (s1\<lparr>wd_arena := a\<rparr>)"
      by (simp add: wp at_rest_def s1_def pending_clear_owed)
  next
    fix a e assume "ao_clear_active_accounted ao acc (wd_arena s1) = (a, Inl e)"
    with clear_law[OF ai _ le] have pr: "progress (wd_arena s1) a"
      and ow: "owes a \<in> {owes (wd_arena s1), OwesNothing} \<or> is_timeout e \<and> owes a = OwesClear acc"
      by (fastforce simp: s1_def)+
    have keep: "fits (s1\<lparr>wd_arena := a\<rparr>)"
    proof (cases "owes a = OwesClear acc")
      case True
      with s1 progress[OF _ pr] coord_ok_mono[of "head (wd_arena s1)" "cum (wd_arena s1)" "owes (wd_arena s1)" "wd_state s1" "wd_delivered s1"
          "head a" "cum a" OwesNothing] show ?thesis
        by (auto simp: fits_def s1_def coord_ok_def owed_ok_def pending_clear_owed)
    qed (use fits_progress[OF s1 pr] ow in auto)
    moreover have "fits (s1\<lparr>wd_arena := a, wd_state := (wd_state s1)\<lparr>ds_pending_clear := None\<rparr>\<rparr>)" if "\<not> is_timeout e"
      using keep ow w that by (auto simp: fits_def coord_defs s1_def split: owed.splits option.splits)
    ultimately show "wpE (case Inl e of Inl e \<Rightarrow> bindE (setE (\<lambda>st. if is_timeout e then st else st\<lparr>ds_pending_clear := None\<rparr>))
          (\<lambda>_. failE e) | Inr report \<Rightarrow> retE report) ?Q ?E (s1\<lparr>wd_arena := a\<rparr>)"
      using rest by (auto simp: wp at_rest_def s1_def fits_def)
  qed
  then show ?thesis by (simp add: submit_clear_def wp Inr s1_def)
qed

lemma recover_pending_release_idle:
  "reconciled (wd_state s) \<Longrightarrow> wpE (recover_pending_release ao) Q E s = Q () s"
  by (simp add: recover_pending_release_def wp reconciled_def)

theorem clear_in_order_ok:
  assumes "at_rest s"
  shows "wpE (clear_in_order_with_release_timeout ao) (\<lambda>_. at_rest) (\<lambda>_. at_rest) s"
  unfolding clear_in_order_with_release_timeout_def
proof (rule wpE_seq[OF enter_ok[OF assms]])
  fix b s' assume s': "at_rest s' \<and> reconciled (wd_state s')"
  have "wpE (bindE (submit_clear ao) (\<lambda>report. bindE (accept_clear_report ao report) (\<lambda>_.
         bindE (tryE (recover_pending_release ao)) (\<lambda>_. retE ())))) (\<lambda>_. at_rest) (\<lambda>_. at_rest) s'"
    if "ds_indeterminate_publication (wd_state s') = None"
  proof (rule wpE_seq[OF submit_clear_ok])
    fix report s2 assume "at_rest s2 \<and> owes (wd_arena s2) = OwesNothing \<and> snd (rep_active_absolute_range report) \<le> head (wd_arena s2) \<and>
        (\<exists>p. ds_pending_clear (wd_state s2) = Some p \<and> report_for (pc_accounting p) report)"
    then obtain p where "at_rest s2" "owes (wd_arena s2) = OwesNothing" "snd (rep_active_absolute_range report) \<le> head (wd_arena s2)"
      "ds_pending_clear (wd_state s2) = Some p" "report_for (pc_accounting p) report" by blast
    then show "wpE (bindE (accept_clear_report ao report) (\<lambda>_. bindE (tryE (recover_pending_release ao)) (\<lambda>_. retE ())))
        (\<lambda>_. at_rest) (\<lambda>_. at_rest) s2"
      by (intro wpE_seq[OF accept_clear_report_ok])
         (auto simp: wp intro!: wpE_mono[OF recover_pending_release_ok])
  qed (use s' that in auto)
  with s' show "wpE (if b then retE ()
       else bindE (stateE ds_indeterminate_publication) (\<lambda>indeterminate.
         bindE (ensureE (indeterminate = None)
                  (IndeterminatePublication (ExportInvariant ''publication cleanup recovery is required before clear''))) (\<lambda>_.
         bindE (recover_pending_release ao) (\<lambda>_.
         bindE (submit_clear ao) (\<lambda>report.
         bindE (accept_clear_report ao report) (\<lambda>_.
         bindE (tryE (recover_pending_release ao)) (\<lambda>_. retE ()))))))) (\<lambda>_. at_rest) (\<lambda>_. at_rest) s'"
    by (simp add: wp recover_pending_release_idle)
qed

subsection \<open>Persisting\<close>

definition exportable :: "frozen_transaction \<Rightarrow> bool" where
  "exportable tx \<longleftrightarrow> fst (frozen_range tx) \<le> fst (export_range_of tx) \<and>
     fst (export_range_of tx) \<le> snd (export_range_of tx) \<and> snd (export_range_of tx) = snd (frozen_range tx)"

text \<open>The transaction a commit may start from, and the state of the world while its outcome is being delivered.\<close>

definition ready :: "frozen_transaction \<Rightarrow> ('a, 'w, 'p) world \<Rightarrow> bool" where
  "ready tx s \<longleftrightarrow> at_rest s \<and> reconciled (wd_state s) \<and> ds_indeterminate_publication (wd_state s) = None \<and>
     ds_frozen (wd_state s) = Some tx"

definition handing_over :: "committed \<Rightarrow> ('a, 'w, 'p) world \<Rightarrow> bool" where
  "handing_over outcome s \<longleftrightarrow> fits (s\<lparr>wd_delivered := wd_delivered s @ [outcome]\<rparr>) \<and>
     ds_completion_in_progress (wd_state s) \<and> ds_pending_completion (wd_state s) = Some Delivering \<and>
     ds_pending_release (wd_state s) = None \<and> ds_pending_clear (wd_state s) = None"

lemma commit_transaction_ok:
  assumes r: "ready tx s" and lc: "prevalidate_loss_commit (wd_state s) n (ft_retention_lost_frames tx) = Inr lc"
    and n: "n \<le> cum (wd_arena s)"
  shows "wpE (commit_transaction n lc (snd (frozen_range tx)) msg)
     (\<lambda>(losses, tx') s'. tx' = tx \<and>
        (\<forall>outcome. dump_outcome_range outcome = Some (frozen_range tx) \<longrightarrow> dump_outcome_losses outcome = losses \<longrightarrow>
           export_within outcome \<longrightarrow> handing_over outcome s')) E s"
proof -
  let ?st = "wd_state s" and ?a = "wd_arena s" and ?l = "committed_losses n lc"
  define st' where "st' = ?st\<lparr>ds_acknowledged_dropped_frames := n, ds_pending_retention_lost_frames := 0, ds_pending_cleared_frames := 0,
     ds_committed_until := Some (snd (frozen_range tx)), ds_completion_in_progress := True,
     ds_pending_completion := Some Delivering, ds_frozen := None\<rparr>"
  have c: "coord_ok (head ?a) (cum ?a) (owes ?a) ?st (wd_delivered s)" and ai: "ainv ?a" and rec: "reconciled ?st"
    and fz: "ds_frozen ?st = Some tx" and ni: "ds_indeterminate_publication ?st = None"
    using r by (simp_all add: ready_def at_rest_def fits_def)
  have ow: "owes ?a = OwesNothing"
    using c rec fz by (auto simp: coord_ok_def owed_ok_def reconciled_def split: owed.splits)
  have ack: "ds_acknowledged_dropped_frames ?st \<le> n" and lcv: "lc_acknowledged_dropped_frames lc = ds_acknowledged_dropped_frames ?st"
    "lc_retention_lost_frames lc = ds_pending_retention_lost_frames ?st + ft_retention_lost_frames tx"
    "lc_cleared_frames lc = ds_pending_cleared_frames ?st"
    using lc by (auto simp: prevalidate_loss_commit_def checked_loss_add_def bindR_Inr_iff split: if_splits)
  have drop: "lb_capture_dropped_frames ?l = n - ds_acknowledged_dropped_frames ?st"
    using ack n cum_bound[OF ai] lcv by (simp add: committed_losses_def wsub64_exact)
  have lg: "ledger_ok ?st (wd_delivered s)" and fo: "frozen_ok (head ?a) ?st" using c by (simp_all add: coord_ok_def)
  have "fits (s\<lparr>wd_state := st', wd_delivered := wd_delivered s @ [outcome]\<rparr>)"
    if o: "dump_outcome_range outcome = Some (frozen_range tx)" "dump_outcome_losses outcome = ?l" "export_within outcome" for outcome
  proof -
    have "ledger_ok st' (wd_delivered s @ [outcome])"
      by (rule ledger_commit[OF lg o(3), where ret = "ft_retention_lost_frames tx"])
         (use o drop lcv ack fo fz in \<open>auto simp: frozen_ok_def st'_def position_def committed_losses_def\<close>)
    moreover have "frozen_ok (head ?a) st'" "clear_ok (head ?a) st'" "owed_ok (owes ?a) st'" "publication_ok st'"
      "position st' \<le> head ?a" "ds_acknowledged_dropped_frames st' \<le> cum ?a"
      using fo fz ow rec ni n by (simp_all add: frozen_ok_def clear_ok_def owed_ok_def publication_ok_def st'_def reconciled_def position_def)
    ultimately show ?thesis using ai by (simp add: fits_def coord_ok_def)
  qed
  then have "\<forall>outcome. dump_outcome_range outcome = Some (frozen_range tx) \<longrightarrow> dump_outcome_losses outcome = ?l \<longrightarrow>
      export_within outcome \<longrightarrow> handing_over outcome (s\<lparr>wd_state := st'\<rparr>)"
    using rec by (simp add: handing_over_def st'_def reconciled_def)
  with rec fz show ?thesis
    by (simp add: commit_transaction_def commit_losses_def begin_completion_def wp reconciled_def st'_def)
qed

lemma finalize_ok:
  assumes f: "fits s" and d: "ds_completion_in_progress (wd_state s)" "ds_pending_completion (wd_state s) = Some Delivering"
    and n: "ds_pending_release (wd_state s) = None" "ds_pending_clear (wd_state s) = None"
  shows "wpE (finalize_completed_transaction ao (Some tx)) (\<lambda>_. at_rest) (\<lambda>_. at_rest) s"
proof -
  let ?done = "\<lambda>a fr. s\<lparr>wd_arena := a, wd_state := (wd_state s)\<lparr>ds_pending_completion := Some (Finalized (decision_reset (ft_decision tx)) fr)\<rparr>\<rparr>"
  have rest: "at_rest (?done a fr)" if "ao_release_frozen ao (ft_frozen tx) (wd_arena s) = (a, r)" for a r fr
  proof -
    from release_law[OF _ that] fits_progress[OF f, of a] f have "fits (s\<lparr>wd_arena := a\<rparr>)" by (auto simp: fits_def)
    then show ?thesis using d by (simp add: at_rest_def fits_def rest_ok_def)
  qed
  obtain a g r where run: "ao_release_frozen ao (ft_frozen tx) (wd_arena s) = (a, g, r)" by (metis prod_cases3)
  have "wpE reconcile_without_release (\<lambda>_. at_rest) (\<lambda>_. at_rest) (?done a None)"
    by (rule wpE_mono[OF reconcile_without_release_ok]) (use rest[OF run] n in \<open>auto simp: released_def\<close>)
  then show ?thesis
    using d run rest[OF run] by (cases r) (simp_all add: finalize_completed_transaction_def wp Let_def)
qed

lemma deliver_and_finalize_ok:
  assumes "handing_over outcome s"
  shows "wpE (deliver_and_finalize ao wo deliver outcome tx) (\<lambda>_. at_rest) (\<lambda>_. at_rest) s"
proof -
  let ?s = "\<lambda>w. s\<lparr>wd_delivered := wd_delivered s @ [outcome], wd_workspace := w\<rparr>"
  have fin: "wpE (finalize_completed_transaction ao (Some tx)) (\<lambda>_. at_rest) (\<lambda>_. at_rest) (?s w)" for w
    using assms by (intro finalize_ok) (auto simp: handing_over_def)
  have "wpE (guard_finalize ao wo tx) (\<lambda>_. at_rest) (\<lambda>_. at_rest) (s\<lparr>wd_delivered := wd_delivered s @ [outcome]\<rparr>)"
    unfolding guard_finalize_def wp
    by (rule wp_work; rule wpE_mono[OF fin]) (auto simp: at_rest_def)
  then show ?thesis
    unfolding deliver_and_finalize_def deliverE_def wp
    by (auto simp: wpE_same wp split: sum.split elim!: wpE_mono)
qed

lemma cumulative_ok:
  assumes "at_rest s" and "\<And>a. \<lbrakk>at_rest (s\<lparr>wd_arena := a\<rparr>); owes a = owes (wd_arena s)\<rbrakk> \<Longrightarrow> Q (cum a) (s\<lparr>wd_arena := a\<rparr>)"
  shows "wpE (arenaI (ao_cumulative_capture_dropped_frames ao)) Q E s"
proof -
  obtain a n where run: "ao_cumulative_capture_dropped_frames ao (wd_arena s) = (a, n)" by fastforce
  have ai: "ainv (wd_arena s)" and f: "fits s" using assms(1) by (simp_all add: at_rest_def fits_def)
  from cumulative_law[OF ai run] fits_progress[OF f, of a] assms(1)
  have "at_rest (s\<lparr>wd_arena := a\<rparr>)" "owes a = owes (wd_arena s)" "n = cum a" by (auto simp: at_rest_def)
  with assms(2) run show ?thesis by (simp add: wp)
qed

lemma no_new_audio_ok:
  assumes rest: "at_rest s" and rec: "reconciled (wd_state s)" and n: "n \<le> cum (wd_arena s)"
    and lc: "prevalidate_loss_commit (wd_state s) n 0 = Inr lc"
  shows "wpE (bindE (commit_losses n lc) (\<lambda>losses. deliverE deliver (NoNewAudio losses))) (\<lambda>_. at_rest) (\<lambda>_. at_rest) s"
proof -
  let ?st = "wd_state s" and ?a = "wd_arena s" and ?o = "NoNewAudio (committed_losses n lc)"
  define st' where "st' = ?st\<lparr>ds_acknowledged_dropped_frames := n, ds_pending_retention_lost_frames := 0, ds_pending_cleared_frames := 0\<rparr>"
  have c: "coord_ok (head ?a) (cum ?a) (owes ?a) ?st (wd_delivered s)" and r: "rest_ok ?st" and ai: "ainv ?a"
    using rest by (simp_all add: at_rest_def fits_def)
  have v: "ds_acknowledged_dropped_frames ?st \<le> n" "lc_acknowledged_dropped_frames lc = ds_acknowledged_dropped_frames ?st"
    "lc_retention_lost_frames lc = ds_pending_retention_lost_frames ?st" "lc_cleared_frames lc = ds_pending_cleared_frames ?st"
    using lc by (auto simp: prevalidate_loss_commit_def checked_loss_add_def bindR_Inr_iff split: if_splits)
  have "ledger_ok st' (wd_delivered s @ [?o])"
    by (rule ledger_commit[where st = ?st and ret = 0])
       (use c v in \<open>auto simp: coord_ok_def export_within_def dump_outcome_range_def dump_outcome_losses_def committed_losses_def
          st'_def position_def\<close>)
  then have "coord_ok (head ?a) (cum ?a) (owes ?a) st' (wd_delivered s @ [?o])"
    using c n rec by (auto simp: coord_ok_def frozen_ok_def clear_ok_def owed_ok_def publication_ok_def position_def st'_def
        reconciled_def split: option.splits owed.splits)
  then have "at_rest (s\<lparr>wd_state := st', wd_delivered := wd_delivered s @ [?o]\<rparr>)"
    using ai r by (simp add: at_rest_def fits_def st'_def rest_ok_def)
  then show ?thesis by (auto simp: commit_losses_def deliverE_def wp st'_def split: sum.split)
qed

lemma freeze_stored:
  assumes rest: "at_rest s" and rec: "reconciled (wd_state s)" and ni: "ds_indeterminate_publication (wd_state s) = None"
    and none: "ds_frozen (wd_state s) = None" and ow: "owes (wd_arena s) = OwesNothing"
    and f: "position (wd_state s) \<le> fst (fe_absolute_range e)" "fst (fe_absolute_range e) < snd (fe_absolute_range e)"
      "snd (fe_absolute_range e) \<le> head (wd_arena s)"
    and tx: "tx = \<lparr>ft_frozen = e, ft_retention_lost_frames = saturating_sub64 (fst (fe_absolute_range e)) (position (wd_state s)),
        ft_decision = d\<rparr>"
  shows "ready tx (s\<lparr>wd_state := (wd_state s)\<lparr>ds_frozen := Some tx, ds_reusable_decision := None\<rparr>\<rparr>)"
proof -
  let ?st = "wd_state s" and ?a = "wd_arena s"
  have c: "coord_ok (head ?a) (cum ?a) (owes ?a) ?st (wd_delivered s)" and r: "rest_ok ?st" and ai: "ainv ?a"
    using rest by (simp_all add: at_rest_def fits_def)
  have "coord_ok (head ?a) (cum ?a) (owes ?a) (?st\<lparr>ds_frozen := Some tx\<rparr>) (wd_delivered s)"
    using c f rec ni ow
    by (auto simp: coord_ok_def ledger_ok_def frozen_ok_def clear_ok_def owed_ok_def publication_ok_def position_def reconciled_def tx
        frozen_range_def saturating_sub64_def)
  then show ?thesis using ai r rec ni by (simp add: ready_def at_rest_def fits_def reconciled_def)
qed

lemma persist_freeze_ok:
  assumes rest: "at_rest s" and rec: "reconciled (wd_state s)" and ni: "ds_indeterminate_publication (wd_state s) = None"
  shows "wpE (persist_freeze ao deliver) (\<lambda>go s'. if go then \<exists>tx. ready tx s' else at_rest s') (\<lambda>_. at_rest) s"
proof (cases "ds_frozen (wd_state s) = None \<and> ds_reusable_decision (wd_state s) \<noteq> None")
  case False
  then show ?thesis using assms by (auto simp: persist_freeze_def wp ready_def split: option.split)
next
  case True
  let ?st = "wd_state s" and ?a = "wd_arena s" and ?c = "ds_committed_until (wd_state s)"
  from True obtain d where none: "ds_frozen ?st = None" and d: "ds_reusable_decision ?st = Some d" by blast
  obtain a r where run: "ao_freeze_since ao ?c ?a = (a, r)" by fastforce
  have f: "fits s" and ai: "ainv ?a" and le: "position ?st \<le> head ?a" using rest by (simp_all add: at_rest_def fits_def coord_ok_def)
  have "owes ?a \<in> {OwesNothing, OwesFreeze ?c}"
    using f rec by (auto simp: fits_def coord_ok_def owed_ok_def reconciled_def split: owed.splits)
  note law = freeze_law[OF ai run le[unfolded position_def] this]
  have keep: "at_rest (s\<lparr>wd_arena := a\<rparr>)" if "owes a \<in> {OwesNothing, OwesFreeze ?c}"
  proof -
    have "coord_ok (head a) (cum a) OwesNothing ?st (wd_delivered s)"
      using f law progress[OF ai] by (auto simp: fits_def intro: coord_ok_mono)
    then show ?thesis
      using that none rest law progress[OF ai] by (auto simp: at_rest_def fits_def coord_ok_def owed_ok_def)
  qed
  show ?thesis
  proof (cases r)
    case (Inl e)
    with run law keep none d show ?thesis by (simp add: persist_freeze_def wp wpE_def[of "arenaE _"] arenaE_def)
  next
    case (Inr reply)
    have o: "owes a = OwesNothing" using law Inr by (simp split: option.splits)
    note k = keep[unfolded o, simplified]
    show ?thesis
    proof (cases reply)
      case None
      have new: "wpE (commit_losses (cum b) lc) (\<lambda>l. wpE (deliverE deliver (NoNewAudio l)) (\<lambda>_. at_rest) (\<lambda>_. at_rest)) (\<lambda>_. at_rest)
          (s\<lparr>wd_arena := b\<rparr>)" if "at_rest (s\<lparr>wd_arena := b\<rparr>)" "prevalidate_loss_commit ?st (cum b) 0 = Inr lc" for b lc
        using no_new_audio_ok[of "s\<lparr>wd_arena := b\<rparr>" "cum b" lc deliver] rec that by (simp add: wp)
      have "wpE (arenaI (ao_cumulative_capture_dropped_frames ao)) (\<lambda>n s'.
              case prevalidate_loss_commit (wd_state s') n 0 of
                Inl e \<Rightarrow> at_rest s'
              | Inr lc \<Rightarrow> wpE (commit_losses n lc) (\<lambda>l. wpE (deliverE deliver (NoNewAudio l)) (\<lambda>_. at_rest) (\<lambda>_. at_rest)) (\<lambda>_. at_rest) s')
            (\<lambda>_. at_rest) (s\<lparr>wd_arena := a\<rparr>)"
        by (rule cumulative_ok[OF k])
           (use new in \<open>auto split: sum.split\<close>)
      with run Inr None none d show ?thesis
        by (simp add: persist_freeze_def wp wpE_def[of "arenaE _"] arenaE_def sum.case_distrib[of "\<lambda>m. wpE m _ _ _"] if_distrib)
    next
      case (Some e)
      have "position ?st \<le> fst (fe_absolute_range e)" "fst (fe_absolute_range e) < snd (fe_absolute_range e)"
        "snd (fe_absolute_range e) \<le> head a"
        using law Inr Some by (simp_all add: position_def)
      with freeze_stored[OF k, of e _ d] rec ni none o run Inr Some d show ?thesis
        by (auto simp: persist_freeze_def wp wpE_def[of "arenaE _"] arenaE_def position_def Let_def)
    qed
  qed
qed

lemma ready_workspace: "ready tx s \<Longrightarrow> ready tx (s\<lparr>wd_workspace := w\<rparr>)"
  by (simp add: ready_def at_rest_def)

lemma ready_decision:
  assumes "ready tx s"
  shows "ready (tx\<lparr>ft_decision := d\<rparr>) (s\<lparr>wd_state := (wd_state s)\<lparr>ds_frozen := Some (tx\<lparr>ft_decision := d\<rparr>)\<rparr>\<rparr>)"
  using assms by (auto simp: ready_def at_rest_def fits_def coord_defs frozen_range_def reconciled_def split: owed.splits)

lemma ready_indeterminate:
  assumes "ready tx s" and "exportable tx"
  shows "at_rest (s\<lparr>wd_state := (wd_state s)\<lparr>ds_indeterminate_publication := Some u\<rparr>\<rparr>)"
  using assms by (auto simp: ready_def at_rest_def fits_def coord_defs exportable_def reconciled_def split: owed.splits)

lemma persist_publish_ok:
  assumes r: "ready tx s"
  shows "wpE (persist_publish wo tx)
     (\<lambda>_ s'. \<exists>d. ready (tx\<lparr>ft_decision := d\<rparr>) s' \<and> exportable (tx\<lparr>ft_decision := d\<rparr>)) (\<lambda>_. at_rest) s"
proof -
  obtain w d prep where run: "wo_prepare wo (ft_frozen tx) (ft_decision tx) (wd_workspace s) = (w, d, prep)" by (metis prod_cases3)
  let ?tx = "tx\<lparr>ft_decision := d\<rparr>"
  let ?s = "\<lambda>w. s\<lparr>wd_workspace := w, wd_state := (wd_state s)\<lparr>ds_frozen := Some ?tx\<rparr>\<rparr>"
  have rd: "ready ?tx (?s w)" for w using ready_decision[OF ready_workspace[OF r]] by simp
  then have rest: "at_rest (?s w)" for w by (simp add: ready_def)
  let ?ok = "\<not> (fst (export_range_of ?tx) < fst (frozen_range tx) \<or> snd (export_range_of ?tx) \<noteq> snd (frozen_range tx)
      \<or> snd (export_range_of ?tx) < fst (export_range_of ?tx))"
  have ex: "exportable ?tx" if ?ok using that by (auto simp: exportable_def frozen_range_def)
  have ind: "at_rest (?s w\<lparr>wd_state := (wd_state (?s w))\<lparr>ds_indeterminate_publication := Some u\<rparr>\<rparr>)" if ?ok for w u
    using ready_indeterminate[OF rd ex[OF that]] .
  have "wpE (workI (wo_publish_prepared wo)) (\<lambda>pub s'. (if ?ok then
            (case pub of Published \<Rightarrow> ready ?tx s' \<and> exportable ?tx
             | RetryableFailure e \<Rightarrow> at_rest s'
             | Indeterminate operation cleanup \<Rightarrow> at_rest (s'\<lparr>wd_state := (wd_state s')\<lparr>ds_indeterminate_publication := Some cleanup\<rparr>\<rparr>))
           else at_rest s')) (\<lambda>_. at_rest) (?s w)"
  proof -
    obtain w' pub where "wo_publish_prepared wo w = (w', pub)" by fastforce
    with rd[of w'] rest[of w'] ex ind[of _ w'] show ?thesis by (cases pub) (auto simp: wp)
  qed
  note pub = this
  show ?thesis
  proof (cases prep)
    case (Inl e)
    then show ?thesis using run rest[of w] by (simp add: persist_publish_def wp)
  next
    case (Inr p)
    then show ?thesis using run rd[of w] rest[of w] ex pub
      by (cases p) (auto simp: persist_publish_def wp Let_def split: prod.splits publication.splits)
  qed
qed

lemma recover_publication_ok:
  assumes rest: "at_rest s" and rec: "reconciled (wd_state s)"
  shows "wpE (recover_indeterminate_publication wo)
     (\<lambda>b s'. at_rest s' \<and> wd_arena s' = wd_arena s \<and> wd_state s' = (wd_state s)\<lparr>ds_indeterminate_publication := None\<rparr> \<and>
        (b \<longrightarrow> ds_indeterminate_publication (wd_state s) \<noteq> None)) (\<lambda>_. at_rest) s"
proof (cases "ds_indeterminate_publication (wd_state s)")
  case None
  then have "(wd_state s)\<lparr>ds_indeterminate_publication := None\<rparr> = wd_state s" by simp
  with None rest show ?thesis by (simp add: recover_indeterminate_publication_def wp)
next
  case (Some u)
  obtain w v r where run: "wo_recover_indeterminate_publication wo u (wd_workspace s) = (w, v, r)" by (metis prod_cases3)
  let ?s = "\<lambda>x. s\<lparr>wd_state := (wd_state s)\<lparr>ds_indeterminate_publication := x\<rparr>, wd_workspace := w\<rparr>"
  have "at_rest (?s None) \<and> at_rest (?s (Some v))"
    using rest Some rec by (auto simp: at_rest_def fits_def coord_defs reconciled_def split: owed.splits option.splits)
  with Some run show ?thesis
    by (auto simp: recover_indeterminate_publication_def wp split: sum.split publication_recovery.split)
qed

lemma commit_and_deliver_ok:
  assumes r: "ready tx s" and ex: "exportable tx" and n: "n \<le> cum (wd_arena s)"
    and lc: "prevalidate_loss_commit (wd_state s) n (ft_retention_lost_frames tx) = Inr lc"
    and o: "\<And>losses. dump_outcome_range (outcome losses tx) = Some (frozen_range tx)"
      "\<And>losses. dump_outcome_losses (outcome losses tx) = losses" "\<And>losses. export_within (outcome losses tx)"
  shows "wpE (bindE (commit_transaction n lc (snd (frozen_range tx)) msg) (\<lambda>(losses, tx). deliver_and_finalize ao wo deliver (outcome losses tx) tx))
           (\<lambda>_. at_rest) (\<lambda>_. at_rest) s"
  by (rule wpE_seq[OF commit_transaction_ok[OF r lc n]]) (use o in \<open>auto intro: deliver_and_finalize_ok\<close>)

lemma exported_outcome:
  assumes "exportable tx"
  shows "dump_outcome_range (committed_kind k tx l) = Some (frozen_range tx)" "dump_outcome_losses (committed_kind k tx l) = l"
    "export_within (committed_kind k tx l)"
  using assms by (auto simp: committed_kind_def dump_outcome_range_def dump_outcome_losses_def export_within_def exportable_def
      split: publish_outcome.split prod.splits)

lemma persist_transaction_ok:
  assumes r: "ready tx s"
  shows "wpE (persist_transaction ao wo deliver tx) (\<lambda>_. at_rest) (\<lambda>_. at_rest) s"
  unfolding persist_transaction_def
proof (rule wpE_seq[OF persist_publish_ok[OF r]])
  fix k and s' :: "('a, 'b, 'c) world" assume "\<exists>d. ready (tx\<lparr>ft_decision := d\<rparr>) s' \<and> exportable (tx\<lparr>ft_decision := d\<rparr>)"
  then obtain d where r': "ready (tx\<lparr>ft_decision := d\<rparr>) s'" and ex: "exportable (tx\<lparr>ft_decision := d\<rparr>)" by blast
  let ?tx = "tx\<lparr>ft_decision := d\<rparr>"
  have fr: "frozen_range ?tx = frozen_range tx" by (simp add: frozen_range_def)
  show "wpE (bindE (arenaI (ao_cumulative_capture_dropped_frames ao)) (\<lambda>cumulative.
     bindE (stateE (\<lambda>st. prevalidate_loss_commit st cumulative (ft_retention_lost_frames tx))) (\<lambda>r.
     bindE (liftE r) (\<lambda>lc.
     bindE (commit_transaction cumulative lc (snd (frozen_range tx)) ''committed completion lost its frozen transaction'') (\<lambda>(losses, tx).
       deliver_and_finalize ao wo deliver (committed_kind k tx losses) tx))))) (\<lambda>_. at_rest) (\<lambda>_. at_rest) s'"
    unfolding wpE_bind[of "arenaI _"]
  proof (rule cumulative_ok)
    fix a assume a: "at_rest (s'\<lparr>wd_arena := a\<rparr>)" "owes a = owes (wd_arena s')"
    have ra: "ready ?tx (s'\<lparr>wd_arena := a\<rparr>)" using r' a by (simp add: ready_def)
    show "wpE (bindE (stateE (\<lambda>st. prevalidate_loss_commit st (cum a) (ft_retention_lost_frames tx))) (\<lambda>r.
       bindE (liftE r) (\<lambda>lc.
       bindE (commit_transaction (cum a) lc (snd (frozen_range tx)) ''committed completion lost its frozen transaction'') (\<lambda>(losses, tx).
         deliver_and_finalize ao wo deliver (committed_kind k tx losses) tx)))) (\<lambda>_. at_rest) (\<lambda>_. at_rest) (s'\<lparr>wd_arena := a\<rparr>)"
      using commit_and_deliver_ok[OF ra ex, where outcome = "\<lambda>l tx. committed_kind k tx l" and n = "cum a"
          and msg = "''committed completion lost its frozen transaction''" and wo = wo and deliver = deliver] exported_outcome[OF ex] a fr
      by (auto simp: wp split: sum.split)
  qed (use r' in \<open>simp add: ready_def\<close>)
qed

lemma persist_recovered_ok:
  assumes rest: "at_rest s" and rec: "reconciled (wd_state s)" and ni: "ds_indeterminate_publication (wd_state s) = None"
    and fz: "ds_frozen (wd_state s) = Some tx" and ex: "exportable tx" and n: "n \<le> cum (wd_arena s)"
    and lc: "prevalidate_loss_commit (wd_state s) n (ft_retention_lost_frames tx) = Inr lc"
  shows "wpE (persist_recovered ao wo deliver (Some (n, lc))) (\<lambda>_. at_rest) (\<lambda>_. at_rest) s"
proof -
  have r: "ready tx s" using rest rec ni fz by (simp add: ready_def)
  let ?o = "\<lambda>l t. Written (frozen_range tx) (export_range_of t) (snd (frozen_range tx) - fst (frozen_range tx)) l"
  have "wpE (bindE (commit_transaction n lc (snd (frozen_range tx)) ''recovered completion lost its frozen transaction'')
           (\<lambda>(l, t). deliver_and_finalize ao wo deliver (?o l t) t)) (\<lambda>_. at_rest) (\<lambda>_. at_rest) s"
    using exported_outcome[OF ex, of PubWritten]
    by (intro commit_and_deliver_ok[OF r ex n lc]) (simp_all add: committed_kind_def split_beta)
  then show ?thesis using fz by (simp add: persist_recovered_def wp split_beta)
qed

text \<open>The recovery of an indeterminate publication, as far as the persist that follows it.\<close>

lemma recovery_accounting_ok:
  assumes rest: "at_rest s" and rec: "reconciled (wd_state s)"
  shows "wpE (recovery_accounting ao) (\<lambda>acc s'. at_rest s' \<and> reconciled (wd_state s') \<and>
      (case acc of
         None \<Rightarrow> ds_indeterminate_publication (wd_state s') = None
       | Some (n, lc) \<Rightarrow> \<exists>tx. ds_frozen (wd_state s') = Some tx \<and> exportable tx \<and> n \<le> cum (wd_arena s') \<and>
           prevalidate_loss_commit (wd_state s') n (ft_retention_lost_frames tx) = Inr lc)) (\<lambda>_. at_rest) s"
proof (cases "ds_indeterminate_publication (wd_state s)")
  case None
  then show ?thesis using assms by (simp add: recovery_accounting_def wp)
next
  case (Some u)
  then obtain tx where fz: "ds_frozen (wd_state s) = Some tx" and ex: "exportable tx"
    using rest by (auto simp: at_rest_def fits_def coord_ok_def publication_ok_def exportable_def split: option.splits)
  have "wpE (arenaI (ao_cumulative_capture_dropped_frames ao)) (\<lambda>n s'.
      case prevalidate_loss_commit (wd_state s') n (ft_retention_lost_frames tx) of
        Inl e \<Rightarrow> at_rest s'
      | Inr lc \<Rightarrow> at_rest s' \<and> reconciled (wd_state s') \<and> n \<le> cum (wd_arena s') \<and> ds_frozen (wd_state s') = Some tx \<and>
          prevalidate_loss_commit (wd_state s') n (ft_retention_lost_frames tx) = Inr lc) (\<lambda>_. at_rest) s"
    by (rule cumulative_ok[OF rest]) (use rec fz in \<open>auto split: sum.split\<close>)
  then show ?thesis using Some fz ex
    by (auto simp: recovery_accounting_def wp split: sum.splits prod.splits)
qed

theorem persist_ok:
  assumes "at_rest s"
  shows "wpE (persist_policy_with_delivery ao wo deliver) (\<lambda>_. at_rest) (\<lambda>_. at_rest) s"
proof -
  let ?rec = "\<lambda>_ s'. at_rest s' \<and> reconciled (wd_state s')"
  have pro: "wpE (persist_prologue ao wo) ?rec (\<lambda>_. at_rest) s"
    unfolding persist_prologue_def wp
    using assms by (intro wp_work enter_ok) (simp_all add: at_rest_def)
  have fresh: "wpE (bindE (persist_freeze ao deliver) (\<lambda>go. if \<not> go then retE ()
           else bindE (stateE ds_frozen) (\<lambda>frozen. case frozen of
                 None \<Rightarrow> failE (Panicked ''frozen transaction remains present'')
               | Some tx \<Rightarrow> persist_transaction ao wo deliver tx))) (\<lambda>_. at_rest) (\<lambda>_. at_rest) s'"
    if "at_rest s'" "reconciled (wd_state s')" "ds_indeterminate_publication (wd_state s') = None" for s' :: "('a, 'b, 'c) world"
    by (rule wpE_seq[OF persist_freeze_ok[OF that]])
       (auto simp: wp ready_def intro: persist_transaction_ok[unfolded ready_def] split: if_splits)
  have rest: "wpE (bindE (recover_indeterminate_publication wo) (\<lambda>recovered.
       if recovered then persist_recovered ao wo deliver acc
       else bindE (persist_freeze ao deliver) (\<lambda>go. if \<not> go then retE ()
           else bindE (stateE ds_frozen) (\<lambda>frozen. case frozen of
                 None \<Rightarrow> failE (Panicked ''frozen transaction remains present'')
               | Some tx \<Rightarrow> persist_transaction ao wo deliver tx)))) (\<lambda>_. at_rest) (\<lambda>_. at_rest) s'"
    if s': "at_rest s'" "reconciled (wd_state s')" and acc: "case acc of
         None \<Rightarrow> ds_indeterminate_publication (wd_state s') = None
       | Some (n, lc) \<Rightarrow> \<exists>tx. ds_frozen (wd_state s') = Some tx \<and> exportable tx \<and> n \<le> cum (wd_arena s') \<and>
           prevalidate_loss_commit (wd_state s') n (ft_retention_lost_frames tx) = Inr lc" for s' :: "('a, 'b, 'c) world" and acc
  proof (rule wpE_seq[OF recover_publication_ok[OF s']])
    fix b and s2 :: "('a, 'b, 'c) world"
    assume s2: "at_rest s2 \<and> wd_arena s2 = wd_arena s' \<and> wd_state s2 = (wd_state s')\<lparr>ds_indeterminate_publication := None\<rparr> \<and>
        (b \<longrightarrow> ds_indeterminate_publication (wd_state s') \<noteq> None)"
    then have r2: "reconciled (wd_state s2)" and n2: "ds_indeterminate_publication (wd_state s2) = None"
      using s' by (simp_all add: reconciled_def)
    show "wpE (if b then persist_recovered ao wo deliver acc
       else bindE (persist_freeze ao deliver) (\<lambda>go. if \<not> go then retE ()
           else bindE (stateE ds_frozen) (\<lambda>frozen. case frozen of
                 None \<Rightarrow> failE (Panicked ''frozen transaction remains present'')
               | Some tx \<Rightarrow> persist_transaction ao wo deliver tx))) (\<lambda>_. at_rest) (\<lambda>_. at_rest) s2"
    proof (cases b)
      case True
      with s2 acc obtain n lc tx where "acc = Some (n, lc)" "ds_frozen (wd_state s') = Some tx" "exportable tx" "n \<le> cum (wd_arena s')"
        "prevalidate_loss_commit (wd_state s') n (ft_retention_lost_frames tx) = Inr lc" by (auto split: option.splits)
      moreover have "prevalidate_loss_commit (wd_state s2) = prevalidate_loss_commit (wd_state s')"
        using s2 by (simp add: prevalidate_loss_commit_def fun_eq_iff)
      ultimately show ?thesis
        using True s2 r2 n2 persist_recovered_ok[of s2 tx n lc wo deliver] by simp
    qed (use s2 r2 n2 fresh in simp)
  qed
  show ?thesis
    unfolding persist_policy_with_delivery_def
    by (rule wpE_seq[OF pro], rule wpE_seq[OF recovery_accounting_ok]) (use rest in auto)
qed

end

section \<open>Runs\<close>

text \<open>
  A run: a session starts with a fresh coordinator and arena; persists and clears follow one
  another in any order and with any outcome, the arena moves on by itself in between, and a panic
  in the workspace may poison the lock.
\<close>

inductive dump_reach ::
    "'a arena_ops \<Rightarrow> ('w, 'p) ws_ops \<Rightarrow> ('a \<Rightarrow> bool) \<Rightarrow> ('a \<Rightarrow> 'a \<Rightarrow> bool) \<Rightarrow> ('a, 'w, 'p) world \<Rightarrow> bool"
  for ao wo start env where
  dump_start: "start a \<Longrightarrow> dump_reach ao wo start env
     \<lparr>wd_id = i, wd_poisoned = False, wd_state = with_frozen_decision d, wd_arena = a, wd_workspace = w, wd_delivered = []\<rparr>"
| dump_persist: "\<lbrakk>dump_reach ao wo start env s; persist_policy_with_delivery ao wo deliver s = (s', r)\<rbrakk> \<Longrightarrow> dump_reach ao wo start env s'"
| dump_clear: "\<lbrakk>dump_reach ao wo start env s; clear_in_order_with_release_timeout ao s = (s', r)\<rbrakk> \<Longrightarrow> dump_reach ao wo start env s'"
| dump_env: "\<lbrakk>dump_reach ao wo start env s; env (wd_arena s) a\<rbrakk> \<Longrightarrow> dump_reach ao wo start env (s\<lparr>wd_arena := a\<rparr>)"
| dump_poison: "dump_reach ao wo start env s \<Longrightarrow> dump_reach ao wo start env (s\<lparr>wd_poisoned := True\<rparr>)"

locale arena_runs = arena_contract +
  fixes start :: "'a \<Rightarrow> bool" and env :: "'a \<Rightarrow> 'a \<Rightarrow> bool"
  assumes start_law: "start a \<Longrightarrow> ainv a \<and> owes a = OwesNothing"
    and env_law: "\<lbrakk>ainv a; env a a'\<rbrakk> \<Longrightarrow> progress a a' \<and> owes a' \<in> {owes a, OwesNothing}"
begin

theorem reach_at_rest: "dump_reach ao wo start env s \<Longrightarrow> at_rest s"
proof (induction rule: dump_reach.induct)
  case (dump_start a i d w)
  then show ?case
    using start_law[OF dump_start]
    by (simp add: at_rest_def fits_def coord_defs with_frozen_decision_def dump_state_new_def rest_ok_def)
next
  case (dump_persist s deliver s' r)
  from persist_ok[OF dump_persist.IH, of wo deliver] dump_persist.hyps(2) show ?case by (simp add: wpE_same)
next
  case (dump_clear s s' r)
  from clear_in_order_ok[OF dump_clear.IH] dump_clear.hyps(2) show ?case by (simp add: wpE_same)
next
  case (dump_env s a)
  then have ai: "ainv (wd_arena s)" and f: "fits s" by (simp_all add: at_rest_def fits_def)
  from env_law[OF ai dump_env.hyps(2)] fits_progress[OF f, of a] dump_env.IH show ?case by (auto simp: at_rest_def)
qed (simp add: at_rest_def)

theorem reach_ledger: "dump_reach ao wo start env s \<Longrightarrow> ledger_ok (wd_state s) (wd_delivered s) \<and> position (wd_state s) \<le> head (wd_arena s)"
  using reach_at_rest by (auto simp: at_rest_def fits_def coord_ok_def)

end

end
