(* ===== verification/Arena_Contract.thy ===== *)
theory Arena_Contract
  imports Arena_Client Dump_Accounting
begin

text \<open>
  The capture arena meets the contract of the dump coordinator.  The invariant of the arena ties
  the pipeline (queue, worker, rings) to the command slot and to what the client has put aside;
  it holds for every tape whose length leaves the 64-bit counters room.  What a command whose
  client gave up still owes is read off the slot.
\<close>

section \<open>The pipeline under a schedule\<close>

definition arena_head :: "arena \<Rightarrow> nat" where
  "arena_head a = w_absolute_head (rt_worker (ar_rt a))"

definition arena_cum :: "arena \<Rightarrow> nat" where
  "arena_cum a = cumulative_dropped_frames (rt_queue (ar_rt a))"

definition pipeline_ok :: "ring_config \<Rightarrow> capture_runtime \<Rightarrow> bool" where
  "pipeline_ok c rt \<longleftrightarrow> (\<exists>h p d. cap_inv c \<lparr>cy_rt = rt, cy_hist = h, cy_pushed = p, cy_desc = d\<rparr>)"

text \<open>A tape of \<open>n\<close> events leaves every counter room: an event adds less than 2 to the power 32 to each.\<close>

definition rt_counters :: "capture_runtime \<Rightarrow> nat list" where
  "rt_counters rt =
     [w_absolute_head (rt_worker rt), w_next_generation (rt_worker rt), published_sequence (rt_queue rt), enqueued_frames (rt_queue rt),
      cumulative_dropped_frames (rt_queue rt), q_dropped_frames (rt_queue rt)]"

definition budget :: "nat \<Rightarrow> capture_runtime \<Rightarrow> bool" where
  "budget n rt \<longleftrightarrow> list_all (\<lambda>x. x + (n + 1) * (u32_lim + 2) < u64_lim) (rt_counters rt)"

definition tick_ok :: "tick \<Rightarrow> bool" where
  "tick_ok t = (case t of Push samples \<Rightarrow> length samples < u32_lim | Turn _ obs \<Rightarrow> is_ok (calibration_boundary obs) | _ \<Rightarrow> True)"

text \<open>What a step of the pipeline may do to the counters.\<close>

definition moves :: "capture_runtime \<Rightarrow> capture_runtime \<Rightarrow> bool" where
  "moves rt rt' \<longleftrightarrow> w_absolute_head (rt_worker rt) \<le> w_absolute_head (rt_worker rt') \<and>
     cumulative_dropped_frames (rt_queue rt) \<le> cumulative_dropped_frames (rt_queue rt') \<and>
     list_all2 (\<lambda>x y. y \<le> x + (u32_lim + 2)) (rt_counters rt) (rt_counters rt')"

lemma moves_refl [simp]: "moves rt rt"
  by (simp add: moves_def rt_counters_def)

lemma budget_moves: "budget (Suc n) rt \<Longrightarrow> moves rt rt' \<Longrightarrow> budget n rt'"
  by (auto simp: budget_def moves_def rt_counters_def)

lemma budget_less: "budget n rt \<Longrightarrow> m \<le> n \<Longrightarrow> budget m rt"
proof -
  assume b: "budget n rt" and le: "m \<le> n"
  have "(m + 1) * (u32_lim + 2) \<le> (n + 1) * (u32_lim + 2)" using le by (intro mult_le_mono1) simp
  then have "x + (m + 1) * (u32_lim + 2) < u64_lim" if "x + (n + 1) * (u32_lim + 2) < u64_lim" for x using that by linarith
  then show ?thesis using b by (auto simp: budget_def list_all_iff)
qed

lemma consume_pipeline:
  assumes "pipeline_ok c rt" and b: "budget n rt" and "is_ok (calibration_boundary obs)" and "consume_one fp now obs rt = Inr (rt', g)"
  shows "pipeline_ok c rt' \<and> moves rt rt'"
proof -
  from assms(1) obtain h p d where inv: "cap_inv c \<lparr>cy_rt = rt, cy_hist = h, cy_pushed = p, cy_desc = d\<rparr>" by (auto simp: pipeline_ok_def)
  have "budget 0 rt" by (rule budget_less[OF b]) simp
  then have "w_absolute_head (rt_worker rt) + u32_lim + 2 < u64_lim" by (simp add: budget_def rt_counters_def)
  from cap_inv_consume[OF inv assms(4,3)] this
  have "pipeline_ok c rt'" and q: "rt_queue rt' = (rt_queue rt)\<lparr>consumed_sequence := consumed_sequence (rt_queue rt')\<rparr>"
    and w: "w_next_generation (rt_worker rt') = w_next_generation (rt_worker rt)"
      "w_absolute_head (rt_worker rt) \<le> w_absolute_head (rt_worker rt')" "w_absolute_head (rt_worker rt') \<le> w_absolute_head (rt_worker rt) + u32_lim"
    by (auto simp: pipeline_ok_def)
  moreover have "published_sequence (rt_queue rt') = published_sequence (rt_queue rt)" "enqueued_frames (rt_queue rt') = enqueued_frames (rt_queue rt)"
    "cumulative_dropped_frames (rt_queue rt') = cumulative_dropped_frames (rt_queue rt)" "q_dropped_frames (rt_queue rt') = q_dropped_frames (rt_queue rt)"
    by (subst q, simp)+
  ultimately show ?thesis by (simp add: moves_def rt_counters_def)
qed

lemma producer_drop_counters:
  "rt_counters (rt\<lparr>rt_queue := producer_drop q\<rparr>) = rt_counters (rt\<lparr>rt_queue := q\<rparr>)"
  by (simp add: producer_drop_def Let_def rt_counters_def split: option.split)

lemma push_loop_pipeline:
  assumes q: "queue_inv q" and nd: "\<not> drop_counter_exhausted q" and len: "length samples mod q_channels q = 0" "length samples < u32_lim"
    and b: "budget n (rt\<lparr>rt_queue := q\<rparr>)"
    and run: "push_loop samples (q_channels q) (length samples div q_channels q) 0 0 q = (q', r)"
  shows "queue_inv q' \<and> q_channels q' = q_channels q \<and> (\<exists>xs. concat (queue_items q') = concat (queue_items q) @ xs) \<and>
         moves (rt\<lparr>rt_queue := q\<rparr>) (rt\<lparr>rt_queue := q'\<rparr>)"
proof -
  let ?ch = "q_channels q" and ?tot = "length samples div q_channels q"
  have ch: "0 < ?ch" using q by (simp add: queue_inv_def)
  have tl: "?tot * ?ch = length samples" using len(1) by auto
  have tle: "?tot < u32_lim" using len(2) by (simp add: le_less_trans[OF div_le_dividend])
  have "budget 0 (rt\<lparr>rt_queue := q\<rparr>)" by (rule budget_less[OF b]) simp
  then have "published_sequence q + u32_lim + 2 < u64_lim" "enqueued_frames q + u32_lim + 2 < u64_lim"
    "cumulative_dropped_frames q + u32_lim + 2 < u64_lim" "q_dropped_frames q + u32_lim + 2 < u64_lim"
    by (simp_all add: budget_def rt_counters_def)
  with tle have lim: "published_sequence q + (?tot - 0) + 1 < u64_lim" "enqueued_frames q + (?tot - 0) < u64_lim"
    "cumulative_dropped_frames q + (?tot - 0) < u64_lim" "q_dropped_frames q + (?tot - 0) < u64_lim"
    by linarith+
  have "length samples < u64_lim" using len(2) by (simp add: u32_lim_def u64_lim_def)
  from push_loop_conserves[OF q nd le0 _ this lim, of 0] tl run obtain k where k: "k \<le> ?tot" "queue_inv q'" "q_channels q' = ?ch"
    "concat (queue_items q') = concat (queue_items q) @ take (k * ?ch) samples" "enqueued_frames q' = enqueued_frames q + k"
    "cumulative_dropped_frames q' = cumulative_dropped_frames q + (?tot - k)" "q_dropped_frames q' = q_dropped_frames q + (?tot - k)"
    "published_sequence q' \<le> published_sequence q + k"
    by auto
  with tle show ?thesis by (auto simp: moves_def rt_counters_def)
qed

lemma push_pipeline:
  assumes ok: "pipeline_ok c rt" and b: "budget n rt" and len: "length samples < u32_lim"
    and rt': "rt' = rt\<lparr>rt_queue := fst (try_push_interleaved samples (q_channels (rt_queue rt)) (rt_queue rt))\<rparr>"
  shows "pipeline_ok c rt' \<and> moves rt rt'"
proof (cases "producer_acquire (rt_queue rt)")
  case (Pair q1 r)
  let ?q = "rt_queue rt"
  from ok obtain h p d where inv: "cap_inv c \<lparr>cy_rt = rt, cy_hist = h, cy_pushed = p, cy_desc = d\<rparr>" by (auto simp: pipeline_ok_def)
  show ?thesis
  proof (cases r)
    case (Inl e)
    then have "rt' = rt" using Pair by (simp add: rt' try_push_interleaved_def) (auto simp: producer_acquire_def split: if_splits)
    then show ?thesis using ok by simp
  next
    case (Inr u)
    then obtain x where q1: "q1 = ?q\<lparr>producer_admission := x\<rparr>" using Pair by (auto simp: producer_acquire_def split: if_splits)
    obtain q2 out where tp: "try_push samples (q_channels ?q) q1 = (q2, out)" by fastforce
    have qi: "queue_inv q1" "q_channels q1 = q_channels ?q" "queue_items q1 = queue_items ?q"
      using inv by (simp_all add: q1 queue_admission_cong cap_inv_def Let_def)
    have cs: "rt_counters (rt\<lparr>rt_queue := q1\<rparr>) = rt_counters rt" by (simp add: rt_counters_def q1)
    have b1: "budget n (rt\<lparr>rt_queue := q1\<rparr>)" using b by (simp add: budget_def cs)
    have q2: "queue_inv q2 \<and> q_channels q2 = q_channels q1 \<and> (\<exists>xs. concat (queue_items q2) = concat (queue_items q1) @ xs) \<and>
        moves (rt\<lparr>rt_queue := q1\<rparr>) (rt\<lparr>rt_queue := q2\<rparr>)"
    proof (cases "q2 = q1")
      case False
      with tp qi have "\<not> drop_counter_exhausted q1" "length samples mod q_channels q1 = 0"
        "push_loop samples (q_channels q1) (length samples div q_channels q1) 0 0 q1 = (q2, out)"
        by (auto simp: try_push_def split: if_splits)
      from push_loop_pipeline[OF qi(1) this(1,2) len b1 this(3)] show ?thesis .
    qed (use qi in auto)
    then obtain xs where xs: "concat (queue_items q2) = concat (queue_items q1) @ xs" by blast
    have r': "rt' = rt\<lparr>rt_queue := producer_drop q2\<rparr>" using Pair Inr tp by (simp add: rt' try_push_interleaved_def)
    have "cap_inv c \<lparr>cy_rt = rt', cy_hist = h, cy_pushed = p @ xs, cy_desc = d\<rparr>"
      using inv q2 xs qi by (auto simp: cap_inv_def Let_def r' producer_drop_items)
    moreover have "moves rt rt'"
      using q2 cs producer_drop_counters[of q2 rt] unfolding r' moves_def by (auto simp: rt_counters_def)
    ultimately show ?thesis by (auto simp: pipeline_ok_def)
  qed
qed

section \<open>Commands\<close>

definition desc_fits :: "nat option \<Rightarrow> nat \<Rightarrow> frozen_descriptor \<Rightarrow> bool" where
  "desc_fits k h d \<longleftrightarrow> (case k of None \<Rightarrow> 0 | Some m \<Rightarrow> m) \<le> fst (fd_absolute_range d) \<and>
     fst (fd_absolute_range d) < snd (fd_absolute_range d) \<and> snd (fd_absolute_range d) \<le> h"

definition report_fits :: "clear_accounting \<Rightarrow> nat \<Rightarrow> clear_report \<Rightarrow> bool" where
  "report_fits acc h report \<longleftrightarrow> report_for acc report \<and> snd (rep_active_absolute_range report) \<le> h"

text \<open>The replies a command of each kind may get.\<close>

fun reply_ok :: "command_kind \<Rightarrow> nat option \<Rightarrow> clear_accounting \<Rightarrow> nat \<Rightarrow> worker_reply result \<Rightarrow> bool" where
  "reply_ok kind k acc h (Inl _) = True"
| "reply_ok kind k acc h (Inr (RepFrozen d)) = (kind = KindFreeze \<and> (case d of None \<Rightarrow> True | Some x \<Rightarrow> desc_fits k h x))"
| "reply_ok kind k acc h (Inr (RepCleared report)) = (kind = KindClear \<and> report_fits acc h report)"
| "reply_ok kind k acc h (Inr RepReleased) = (kind = KindRelease)"
| "reply_ok kind k acc h (Inr (RepStatus _)) = (kind = KindStatus)"
| "reply_ok kind k acc h (Inr RepShutdown) = (kind = KindShutdown)"

fun command_ok :: "command_kind \<Rightarrow> nat option \<Rightarrow> clear_accounting \<Rightarrow> nat \<Rightarrow> worker_command \<Rightarrow> bool" where
  "command_ok kind k acc h (CmdFreeze _ c) = (kind = KindFreeze \<and> k = c)"
| "command_ok kind k acc h (CmdRelease _ _ _) = (kind = KindRelease)"
| "command_ok kind k acc h (CmdClear _ _ a) = (kind = KindClear \<and> acc = a \<and> acc_expected_active_start a \<le> h)"
| "command_ok kind k acc h (CmdStatus _) = (kind = KindStatus)"
| "command_ok kind k acc h (CmdShutdown _) = (kind = KindShutdown)"

lemma desc_fits_mono: "desc_fits k h d \<Longrightarrow> h \<le> h' \<Longrightarrow> desc_fits k h' d"
  by (simp add: desc_fits_def)

lemma report_fits_mono: "report_fits acc h r \<Longrightarrow> h \<le> h' \<Longrightarrow> report_fits acc h' r"
  by (simp add: report_fits_def)

lemma reply_ok_mono: "reply_ok kind k acc h r \<Longrightarrow> h \<le> h' \<Longrightarrow> reply_ok kind k acc h' r"
  by (induction kind k acc h r rule: reply_ok.induct) (auto simp: desc_fits_mono report_fits_mono split: option.splits)

lemma command_ok_mono: "command_ok kind k acc h cmd \<Longrightarrow> h \<le> h' \<Longrightarrow> command_ok kind k acc h' cmd"
  by (cases cmd) auto

lemma freeze_generation: "freeze k w = (w', res) \<Longrightarrow> w_next_generation w \<le> w_next_generation w' \<and> w_next_generation w' \<le> w_next_generation w + 1"
  by (auto simp: freeze_def Let_def retire_and_reset_def split: option.splits sum.splits prod.splits if_splits)

lemma release_generation: "release i g w = (w', res) \<Longrightarrow> w_next_generation w' = w_next_generation w \<and> w_absolute_head w' = w_absolute_head w"
  by (auto simp: release_def retire_and_reset_def Let_def split: option.splits sum.splits prod.splits if_splits)

lemma clear_generation: "worker_clear n acc w = (w', res) \<Longrightarrow> w_next_generation w' = w_next_generation w \<and> w_absolute_head w' = w_absolute_head w"
  by (auto simp: worker_clear_def split: sum.splits)

lemma freeze_reply:
  assumes inv: "worker_inv c w h" and gen: "w_next_generation w + 1 < u64_lim" and run: "freeze k w = (w', res)"
  shows "w_absolute_head w' = w_absolute_head w \<and> (case res of Inr (Some d) \<Rightarrow> desc_fits k (w_absolute_head w) d | _ \<Rightarrow> True)"
proof (cases "w_frozen w")
  case None
  from freeze_ok[OF inv None gen refl, of k] run show ?thesis
    by (auto simp: desc_fits_def split: if_splits option.splits)
next
  case (Some f)
  with run show ?thesis by (auto simp: freeze_def)
qed

lemma command_pipeline:
  assumes ok: "pipeline_ok c rt" and b: "budget n rt" and cmd: "command_ok kind k acc (w_absolute_head (rt_worker rt)) cmd"
    and run: "process_command cmd rt = (rt', res)"
  shows "pipeline_ok c rt' \<and> moves rt rt' \<and> w_absolute_head (rt_worker rt') = w_absolute_head (rt_worker rt) \<and>
         reply_ok kind k acc (w_absolute_head (rt_worker rt)) res"
proof -
  let ?w = "rt_worker rt"
  from ok obtain h p d where inv: "cap_inv c \<lparr>cy_rt = rt, cy_hist = h, cy_pushed = p, cy_desc = d\<rparr>" by (auto simp: pipeline_ok_def)
  then have wi: "worker_inv c ?w h" by (simp add: cap_inv_def Let_def)
  have "budget 0 rt" by (rule budget_less[OF b]) simp
  then have gen: "w_next_generation ?w + 1 < u64_lim" by (simp add: budget_def rt_counters_def)
  from cap_inv_command[OF inv run gen] have "pipeline_ok c rt'" by (auto simp: pipeline_ok_def)
  moreover have "rt_queue rt' = rt_queue rt \<and> w_absolute_head (rt_worker rt') = w_absolute_head ?w \<and>
      w_next_generation (rt_worker rt') \<le> w_next_generation ?w + 1 \<and> reply_ok kind k acc (w_absolute_head ?w) res"
  proof (cases "drop_counter_exhausted (rt_queue rt) \<and>
         (case cmd of CmdRelease _ _ _ \<Rightarrow> False | CmdShutdown _ \<Rightarrow> False | _ \<Rightarrow> True)")
    case True
    then show ?thesis using run by (auto simp: process_command_def Let_def)
  next
    case live: False
    show ?thesis
    proof (cases cmd)
      case (CmdFreeze t m)
      obtain w' fr where fz: "freeze m ?w = (w', fr)" by fastforce
      with live run CmdFreeze freeze_reply[OF wi gen fz] freeze_generation[OF fz] cmd show ?thesis
        by (cases fr) (auto simp: process_command_def Let_def split: option.splits)
    next
      case (CmdRelease t i g)
      obtain w' rr where rl: "release i g ?w = (w', rr)" by fastforce
      with live run CmdRelease release_generation[OF rl] cmd show ?thesis
        by (cases rr) (auto simp: process_command_def Let_def)
    next
      case (CmdClear t m acc')
      obtain w' cr where cl: "worker_clear m acc' ?w = (w', cr)" by fastforce
      have "report_fits acc (w_absolute_head ?w) r" if "cr = Inr r" for r
        using worker_clear_accounts[OF wi, of m acc' w' r] cl that cmd CmdClear by (auto simp: report_fits_def report_for_def)
      with live run CmdClear cl clear_generation[OF cl] cmd show ?thesis
        by (cases cr) (auto simp: process_command_def Let_def)
    next
      case (CmdStatus t)
      then show ?thesis using live run cmd
        by (cases "worker_status (rt_queue rt) ?w") (auto simp: process_command_def Let_def)
    next
      case (CmdShutdown t)
      then show ?thesis using live run cmd by (auto simp: process_command_def Let_def)
    qed
  qed
  ultimately show ?thesis by (auto simp: moves_def rt_counters_def)
qed

section \<open>The invariant of the arena\<close>

definition slot_ok :: "command_slot \<Rightarrow> nat option \<Rightarrow> clear_accounting \<Rightarrow> nat \<Rightarrow> bool" where
  "slot_ok sl k acc h =
     (case sl_state sl of
        SlotIdle \<Rightarrow> sl_kind sl = KindNone
      | SlotReady cmd \<Rightarrow> command_ok (sl_kind sl) k acc h cmd
      | SlotResult r \<Rightarrow> sl_kind sl \<noteq> KindNone \<and> reply_ok (sl_kind sl) k acc h r
      | _ \<Rightarrow> False)"

definition kept_ok ::
    "frozen_descriptor option \<Rightarrow> clear_report option \<Rightarrow> command_kind \<Rightarrow> nat option \<Rightarrow> clear_accounting \<Rightarrow> nat \<Rightarrow> bool" where
  "kept_ok frozen report kind k acc h \<longleftrightarrow>
     (case frozen of None \<Rightarrow> True | Some d \<Rightarrow> desc_fits k h d \<and> report = None \<and> kind = KindNone) \<and>
     (case report of None \<Rightarrow> True | Some r \<Rightarrow> report_fits acc h r \<and> kind \<in> {KindNone, KindStatus})"

definition arena_base :: "ring_config \<Rightarrow> tick list \<Rightarrow> arena \<Rightarrow> bool" where
  "arena_base c tape a \<longleftrightarrow> pipeline_ok c (ar_rt a) \<and> budget (length tape) (ar_rt a) \<and> list_all tick_ok tape \<and>
     slot_ok (ar_slot a) (ar_last_freeze a) (ar_last_clear a) (arena_head a) \<and>
     kept_ok (ar_recovered_frozen a) (ar_recovered_clear a) (sl_kind (ar_slot a)) (ar_last_freeze a) (ar_last_clear a) (arena_head a)"

lemma slot_ok_mono: "slot_ok sl k acc h \<Longrightarrow> h \<le> h' \<Longrightarrow> slot_ok sl k acc h'"
  by (auto simp: slot_ok_def intro: command_ok_mono reply_ok_mono split: slot_state.splits)

lemma kept_ok_mono: "kept_ok f r kind k acc h \<Longrightarrow> h \<le> h' \<Longrightarrow> kept_ok f r kind k acc h'"
  by (auto simp: kept_ok_def intro: desc_fits_mono report_fits_mono split: option.splits)

text \<open>Between two calls a slot in use belongs to a client that gave up.\<close>

definition arena_inv :: "ring_config \<Rightarrow> arena \<Rightarrow> bool" where
  "arena_inv c a \<longleftrightarrow> arena_base c (ar_tape a) a \<and> (sl_state (ar_slot a) = SlotIdle \<or> sl_abandoned (ar_slot a))"

definition arena_owes :: "arena \<Rightarrow> owed" where
  "arena_owes a =
     (if ar_recovered_clear a \<noteq> None \<or> sl_kind (ar_slot a) = KindClear then OwesClear (ar_last_clear a)
      else if ar_recovered_frozen a \<noteq> None \<or> sl_kind (ar_slot a) = KindFreeze then OwesFreeze (ar_last_freeze a)
      else OwesNothing)"

definition arena_progress :: "ring_config \<Rightarrow> arena \<Rightarrow> arena \<Rightarrow> bool" where
  "arena_progress c a a' \<longleftrightarrow> arena_inv c a' \<and> arena_head a \<le> arena_head a' \<and> arena_cum a \<le> arena_cum a' \<and>
     ar_runtime_id a' = ar_runtime_id a"

text \<open>What the schedule leaves alone while the client waits.\<close>

definition forward :: "arena \<Rightarrow> arena \<Rightarrow> bool" where
  "forward a a' \<longleftrightarrow> arena_head a \<le> arena_head a' \<and> arena_cum a \<le> arena_cum a' \<and> ar_runtime_id a' = ar_runtime_id a \<and>
     ar_recovered_frozen a' = ar_recovered_frozen a \<and> ar_recovered_clear a' = ar_recovered_clear a \<and>
     ar_last_freeze a' = ar_last_freeze a \<and> ar_last_clear a' = ar_last_clear a"

lemma forward_refl [simp]: "forward a a"
  by (simp add: forward_def)

lemma forward_trans: "forward a b \<Longrightarrow> forward b d \<Longrightarrow> forward a d"
  by (auto simp: forward_def)

lemma moves_forward: "moves (ar_rt a) rt \<Longrightarrow> forward a (a\<lparr>ar_rt := rt\<rparr>)"
  by (simp add: forward_def moves_def arena_head_def arena_cum_def)

lemma base_rt:
  assumes b: "arena_base c (t # tape) a" and rt: "pipeline_ok c rt" "moves (ar_rt a) rt"
  shows "arena_base c tape (a\<lparr>ar_rt := rt\<rparr>)"
proof -
  have "arena_head a \<le> arena_head (a\<lparr>ar_rt := rt\<rparr>)" using rt(2) by (simp add: moves_def arena_head_def)
  then show ?thesis
    using b rt budget_moves[of "length tape" "ar_rt a" rt] by (auto simp: arena_base_def intro: slot_ok_mono kept_ok_mono)
qed

lemma base_drop: "arena_base c (t # tape) a \<Longrightarrow> arena_base c tape a"
  using base_rt[of c t tape a "ar_rt a"] by (simp add: arena_base_def)

lemma desc_ok_calibration_fun [simp]: "desc_ok c (w\<lparr>w_calibration := cap\<rparr>) = desc_ok c w"
  by (rule ext) simp

lemma cancel_pipeline: "pipeline_ok c (cancel_calibration_if_requested rt) = pipeline_ok c rt"
  "moves rt (cancel_calibration_if_requested rt)" "rt_counters (cancel_calibration_if_requested rt) = rt_counters rt"
  "w_absolute_head (rt_worker (cancel_calibration_if_requested rt)) = w_absolute_head (rt_worker rt)"
  by (simp_all add: cancel_calibration_if_requested_def pipeline_ok_def cap_inv_def Let_def moves_def rt_counters_def)

lemma exited_base [simp]: "arena_base c tape (a\<lparr>ar_exited := b\<rparr>) = arena_base c tape a"
  by (simp add: arena_base_def arena_head_def)

lemma exited_forward [simp]: "forward a (a'\<lparr>ar_exited := b\<rparr>) = forward a a'"
  by (simp add: forward_def arena_head_def arena_cum_def)

lemma stop_pipeline: "pipeline_ok c ((fail_calibration rt)\<lparr>rt_worker_done := b\<rparr>) = pipeline_ok c rt"
  "moves rt0 ((fail_calibration rt)\<lparr>rt_worker_done := b\<rparr>) = moves rt0 rt"
  "w_absolute_head (rt_worker (fail_calibration rt)) = w_absolute_head (rt_worker rt)"
  by (simp_all add: fail_calibration_def pipeline_ok_def cap_inv_def Let_def moves_def rt_counters_def)

text \<open>While a client waits its slot stays in use, with the same kind, and the wait sees every event.\<close>

definition same_slot :: "command_slot \<Rightarrow> command_slot \<Rightarrow> bool" where
  "same_slot sl sl' \<longleftrightarrow> sl_kind sl' = sl_kind sl \<and> sl_abandoned sl' = sl_abandoned sl \<and> (sl_state sl' = SlotIdle \<longleftrightarrow> sl_state sl = SlotIdle)"

lemma same_slot_refl [simp]: "same_slot sl sl"
  by (simp add: same_slot_def)

lemma consume_turn_base:
  assumes b: "arena_base c (t # tape) a" and cal: "is_ok (calibration_boundary obs)"
  shows "arena_base c tape (consume_turn fp now obs a) \<and> forward a (consume_turn fp now obs a) \<and> ar_slot (consume_turn fp now obs a) = ar_slot a"
proof (cases "consume_one fp now obs (ar_rt a)")
  case (Inl e)
  then show ?thesis using base_drop[OF b] by (simp add: consume_turn_def)
next
  case (Inr x)
  obtain rt g where x: "x = (rt, g)" by fastforce
  have "pipeline_ok c rt \<and> moves (ar_rt a) rt"
    using consume_pipeline[of c "ar_rt a" "length (t # tape)" obs fp now rt g] b cal Inr x by (simp add: arena_base_def)
  then show ?thesis using base_rt[OF b] moves_forward Inr x by (simp add: consume_turn_def)
qed

lemma command_turn_base:
  assumes b: "arena_base c (t # tape) a" and st: "sl_state (ar_slot a) = SlotReady cmd" and sl: "slot = (ar_slot a)\<lparr>sl_state := SlotProcessing\<rparr>"
    and a': "a' = command_turn cmd (a\<lparr>ar_slot := slot\<rparr>)"
  shows "arena_base c tape a' \<and> forward a a' \<and> same_slot (ar_slot a) (ar_slot a')"
proof -
  obtain rt reply where run: "process_command cmd (ar_rt a) = (rt, reply)" by fastforce
  have cmd: "command_ok (sl_kind (ar_slot a)) (ar_last_freeze a) (ar_last_clear a) (arena_head a) cmd"
    using b st by (simp add: arena_base_def slot_ok_def)
  from b have "pipeline_ok c (ar_rt a)" "budget (length (t # tape)) (ar_rt a)" by (simp_all add: arena_base_def)
  note p = command_pipeline[OF this cmd[unfolded arena_head_def] run]
  have kn: "sl_kind (ar_slot a) \<noteq> KindNone" using cmd by (cases cmd) auto
  define rt' where "rt' = (case cmd of CmdShutdown _ \<Rightarrow> (fail_calibration rt)\<lparr>rt_worker_done := True\<rparr> | _ \<Rightarrow> rt)"
  have rt': "pipeline_ok c rt' \<and> moves (ar_rt a) rt' \<and> w_absolute_head (rt_worker rt') = arena_head a"
    using p by (cases cmd) (auto simp: rt'_def stop_pipeline arena_head_def)
  have eq: "a' = a\<lparr>ar_rt := rt', ar_slot := (ar_slot a)\<lparr>sl_state := SlotResult reply\<rparr>, ar_exited := (case cmd of CmdShutdown _ \<Rightarrow> True | _ \<Rightarrow> False)\<rparr>"
    using run by (cases cmd) (simp_all add: a' command_turn_def publish_result_def sl rt'_def Let_def)
  have "arena_base c tape (a\<lparr>ar_rt := rt'\<rparr>)" using base_rt[OF b] rt' by blast
  then have "arena_base c tape a'"
    using p kn rt' by (simp add: eq arena_base_def slot_ok_def arena_head_def)
  moreover have "forward a a'" using rt' by (auto simp: eq forward_def arena_head_def arena_cum_def moves_def)
  ultimately show ?thesis by (simp add: eq same_slot_def st)
qed

lemma tick_base:
  assumes b: "arena_base c (t # tape) a"
  shows "arena_base c tape (tick_step fp t a) \<and> forward a (tick_step fp t a) \<and> same_slot (ar_slot a) (ar_slot (tick_step fp t a))"
proof -
  have rest: "arena_base c tape a \<and> forward a a \<and> same_slot (ar_slot a) (ar_slot a)" using base_drop[OF b] by simp
  show ?thesis
  proof (cases t)
    case (Push samples)
    let ?rt = "(ar_rt a)\<lparr>rt_queue := fst (try_push_interleaved samples (q_channels (rt_queue (ar_rt a))) (rt_queue (ar_rt a)))\<rparr>"
    have "pipeline_ok c ?rt \<and> moves (ar_rt a) ?rt"
      using push_pipeline[of c "ar_rt a" "length (t # tape)" samples ?rt] b Push by (simp add: arena_base_def tick_ok_def)
    then show ?thesis using base_rt[OF b] moves_forward Push by (simp add: tick_step_def)
  next
    case (Turn now obs)
    let ?a = "a\<lparr>ar_rt := cancel_calibration_if_requested (ar_rt a)\<rparr>"
    have b1: "arena_base c (t # tape) ?a" and f1: "forward a ?a"
      using b by (simp_all add: arena_base_def cancel_pipeline budget_def arena_head_def forward_def arena_cum_def)
         (simp_all add: cancel_calibration_if_requested_def)
    have cal: "is_ok (calibration_boundary obs)" using b Turn by (simp add: arena_base_def tick_ok_def)
    note ct = consume_turn_base[OF b1 cal, of fp now]
    have cons: "arena_base c tape (consume_turn fp now obs ?a) \<and> forward a (consume_turn fp now obs ?a) \<and>
        same_slot (ar_slot a) (ar_slot (consume_turn fp now obs ?a))"
      using ct forward_trans[OF f1] by auto
    have np: "sl_state (ar_slot a) \<noteq> SlotPreparing" "sl_state (ar_slot a) \<noteq> SlotProcessing"
      using b by (auto simp: arena_base_def slot_ok_def)
    show ?thesis
    proof (cases "sl_state (ar_slot a)")
      case (SlotReady cmd)
      from command_turn_base[OF b1 _ refl refl, of cmd] SlotReady forward_trans[OF f1]
      have "arena_base c tape (command_turn cmd (?a\<lparr>ar_slot := (ar_slot a)\<lparr>sl_state := SlotProcessing\<rparr>\<rparr>)) \<and>
          forward a (command_turn cmd (?a\<lparr>ar_slot := (ar_slot a)\<lparr>sl_state := SlotProcessing\<rparr>\<rparr>)) \<and>
          same_slot (ar_slot a) (ar_slot (command_turn cmd (?a\<lparr>ar_slot := (ar_slot a)\<lparr>sl_state := SlotProcessing\<rparr>\<rparr>)))" by auto
      with cons rest SlotReady Turn show ?thesis
        by (auto simp: tick_step_def worker_turn_def Let_def ready_target_def take_command_def)
    qed (use cons rest Turn np in \<open>auto simp: tick_step_def worker_turn_def Let_def ready_target_def\<close>)
  qed (use rest in \<open>simp_all add: tick_step_def\<close>)
qed

section \<open>Waiting\<close>

lemma kept_ok_idle: "kept_ok f r kind k acc h \<Longrightarrow> kept_ok f r KindNone k acc h"
  by (auto simp: kept_ok_def split: option.splits)

definition idle :: "arena \<Rightarrow> bool" where
  "idle a \<longleftrightarrow> sl_state (ar_slot a) = SlotIdle \<and> sl_kind (ar_slot a) = KindNone"

definition waited :: "ring_config \<Rightarrow> arena \<Rightarrow> arena \<Rightarrow> worker_reply result result \<Rightarrow> bool" where
  "waited c a a' r \<longleftrightarrow> arena_base c (ar_tape a') a' \<and> forward a a' \<and>
     (case r of
        Inl e \<Rightarrow> e = timed_out \<and> sl_abandoned (ar_slot a') \<and> sl_state (ar_slot a') \<noteq> SlotIdle \<and> sl_kind (ar_slot a') = sl_kind (ar_slot a)
      | Inr reply \<Rightarrow> idle a' \<and> reply_ok (sl_kind (ar_slot a)) (ar_last_freeze a) (ar_last_clear a) (arena_head a') reply)"

lemma waited_result:
  assumes "arena_base c tape a" and "take_result (ar_slot a) = Some (slot, reply)"
  shows "waited c a (a\<lparr>ar_slot := slot, ar_tape := tape\<rparr>) (Inr reply)"
  using assms
  by (auto simp: waited_def take_result_def arena_base_def slot_ok_def arena_head_def forward_def arena_cum_def idle_def
      intro: kept_ok_idle split: slot_state.splits)

lemma waited_timeout:
  assumes "arena_base c tape a" and "sl_state (ar_slot a) \<noteq> SlotIdle"
  shows "waited c a (a\<lparr>ar_slot := (ar_slot a)\<lparr>sl_abandoned := True\<rparr>, ar_tape := tape\<rparr>) (Inl timed_out)"
  using assms by (auto simp: waited_def arena_base_def slot_ok_def arena_head_def forward_def arena_cum_def split: slot_state.splits)

lemma wait_on_ok:
  assumes "arena_base c tape a" and "sl_state (ar_slot a) \<noteq> SlotIdle" and "wait_on fp tape a = (a', r)"
  shows "waited c a a' r"
  using assms
proof (induction tape arbitrary: a)
  case (Nil a)
  then show ?case
    using waited_result[OF Nil(1)] waited_timeout[OF Nil(1,2)] by (auto simp: wait_on.simps[of fp "[]"] split: option.splits)
next
  case (Cons t tape a)
  show ?case
  proof (cases "t = Expire \<or> take_result (ar_slot a) \<noteq> None")
    case True
    then show ?thesis
      using Cons.prems waited_result[OF Cons.prems(1)] waited_timeout[OF base_drop[OF Cons.prems(1)] Cons.prems(2)]
      by (auto simp: wait_on.simps[of fp "_ # tape"] split: option.splits)
  next
    case False
    then have none: "take_result (ar_slot a) = None" by blast
    let ?a = "tick_step fp t a"
    have run: "wait_on fp tape ?a = (a', r)"
      using False Cons.prems(3) none by (cases t) (simp_all add: wait_on.simps[of fp "_ # tape"])
    note b = tick_base[OF Cons.prems(1), of fp]
    have busy: "sl_state (ar_slot ?a) \<noteq> SlotIdle" using b Cons.prems(2) by (simp add: same_slot_def)
    from Cons.IH[OF _ busy run] b show ?thesis
      by (auto simp: waited_def same_slot_def forward_def split: sum.splits)
  qed
qed

text \<open>The wait as an operation of the client, in the terms the calls need.\<close>

definition advance :: "arena \<Rightarrow> arena \<Rightarrow> bool" where
  "advance a a' \<longleftrightarrow> arena_head a \<le> arena_head a' \<and> arena_cum a \<le> arena_cum a' \<and> ar_runtime_id a' = ar_runtime_id a"

lemma wp_wait:
  assumes "arena_base c (ar_tape a) a" and "sl_state (ar_slot a) \<noteq> SlotIdle"
    and "\<And>reply a'. \<lbrakk>arena_inv c a'; forward a a'; idle a';
           reply_ok (sl_kind (ar_slot a)) (ar_last_freeze a) (ar_last_clear a) (arena_head a') reply\<rbrakk> \<Longrightarrow> Q reply a'"
    and "\<And>a'. \<lbrakk>arena_inv c a'; forward a a'; sl_kind (ar_slot a') = sl_kind (ar_slot a); sl_state (ar_slot a') \<noteq> SlotIdle\<rbrakk> \<Longrightarrow> E timed_out a'"
  shows "wpE (wait_slot_result fp) Q E a"
proof -
  obtain a' r where run: "wait_on fp (ar_tape a) a = (a', r)" by fastforce
  from wait_on_ok[OF assms(1,2) run, unfolded waited_def] have w: "arena_base c (ar_tape a') a'" "forward a a'" and r: "case r of
        Inl e \<Rightarrow> e = timed_out \<and> sl_abandoned (ar_slot a') \<and> sl_state (ar_slot a') \<noteq> SlotIdle \<and> sl_kind (ar_slot a') = sl_kind (ar_slot a)
      | Inr reply \<Rightarrow> idle a' \<and> reply_ok (sl_kind (ar_slot a)) (ar_last_freeze a) (ar_last_clear a) (arena_head a') reply" by auto
  show ?thesis
  proof (cases r)
    case (Inl e)
    with r w have "E timed_out a'" "e = timed_out" by (auto intro!: assms(4) simp: arena_inv_def)
    with Inl run show ?thesis by (simp add: wpE_def wait_slot_result_def)
  next
    case (Inr reply)
    with r w have "Q reply a'" by (auto intro!: assms(3) simp: arena_inv_def idle_def)
    with Inr run show ?thesis by (simp add: wpE_def wait_slot_result_def)
  qed
qed

section \<open>Recovering and submitting\<close>

lemma forward_advance: "forward a a' \<Longrightarrow> advance a a'"
  by (simp add: forward_def advance_def)

lemma advance_refl [simp]: "advance a a"
  by (simp add: advance_def)

lemma advance_trans: "advance a b \<Longrightarrow> advance b d \<Longrightarrow> advance a d"
  by (auto simp: advance_def)

text \<open>A call that ends with an error keeps the debt or clears it.\<close>

definition gave_up :: "ring_config \<Rightarrow> arena \<Rightarrow> arena \<Rightarrow> bool" where
  "gave_up c a a' \<longleftrightarrow> arena_inv c a' \<and> advance a a' \<and> arena_owes a' \<in> {arena_owes a, OwesNothing}"

definition recovered :: "ring_config \<Rightarrow> command_kind \<Rightarrow> arena \<Rightarrow> worker_reply result option \<Rightarrow> arena \<Rightarrow> bool" where
  "recovered c req a out a' \<longleftrightarrow> gave_up c a a' \<and> idle a' \<and> ar_recovered_frozen a' = None \<and>
     (req = KindStatus \<or> ar_recovered_clear a' = None) \<and> ar_last_freeze a' = ar_last_freeze a \<and> ar_last_clear a' = ar_last_clear a \<and>
     (case out of
        None \<Rightarrow> True
      | Some reply \<Rightarrow> reply_ok req (ar_last_freeze a) (ar_last_clear a) (arena_head a') reply \<and>
          (req \<noteq> KindFreeze \<or> arena_owes a = OwesFreeze (ar_last_freeze a)) \<and> (req \<noteq> KindClear \<or> \<not> is_ok reply))"

lemma keep_stale_ok:
  assumes inv: "arena_inv c b" and f: "forward a b" and i: "idle b" and k: "kind \<noteq> KindNone"
    and r: "reply_ok kind (ar_last_freeze a) (ar_last_clear a) (arena_head b) stale"
    and rel: "kind = KindRelease \<longrightarrow> req = KindRelease" and n: "ar_recovered_frozen a = None"
    and cl: "ar_recovered_clear a \<noteq> None \<longrightarrow> req = KindStatus \<and> kind = KindStatus" and kind: "sl_kind (ar_slot a) = kind"
  shows "wpE (keep_stale req kind stale) (recovered c req a) (\<lambda>_. gave_up c a) b"
proof -
  have b: "ar_recovered_frozen b = None" "ar_recovered_clear b = ar_recovered_clear a" "ar_last_freeze b = ar_last_freeze a"
    "ar_last_clear b = ar_last_clear a" "advance a b" "sl_kind (ar_slot b) = KindNone" "sl_state (ar_slot b) = SlotIdle"
    using f n i by (auto simp: forward_def advance_def idle_def)
  have g: "gave_up c a b" using inv b cl kind n k by (auto simp: gave_up_def arena_owes_def)
  have kc: "gave_up c a (b\<lparr>ar_recovered_clear := Some report\<rparr>)" if "kind = KindClear" "stale = Inr (RepCleared report)" for report
    using inv b r that kind
    by (auto simp: gave_up_def arena_inv_def arena_base_def kept_ok_def arena_owes_def advance_def arena_head_def arena_cum_def split: option.splits)
  have kf: "gave_up c a (b\<lparr>ar_recovered_frozen := Some d\<rparr>)" if "kind = KindFreeze" "stale = Inr (RepFrozen (Some d))" for d
    using inv b r that kind cl
    by (auto simp: gave_up_def arena_inv_def arena_base_def kept_ok_def arena_owes_def advance_def arena_head_def arena_cum_def split: option.splits)
  have rec: "recovered c req a out b" if "req = KindStatus \<or> ar_recovered_clear a = None"
     "out = None \<or> (out = Some stale \<and> req = kind \<and> (kind = KindClear \<longrightarrow> \<not> is_ok stale))" for out
    using g i b r that kind by (auto simp: recovered_def arena_owes_def split: option.splits)
  show ?thesis
  proof (cases kind)
    case KindFreeze
    with r rec kf cl show ?thesis
      by (cases stale; cases "projr stale") (auto simp: keep_stale_def wp split: option.splits)
  next
    case KindClear
    have "recovered c KindStatus a None (b\<lparr>ar_recovered_clear := Some report\<rparr>)" if "stale = Inr (RepCleared report)" for report
      using kc[OF KindClear that] i b by (auto simp: recovered_def idle_def)
    with r rec kc KindClear cl show ?thesis
      by (cases stale; cases "projr stale") (auto simp: keep_stale_def wp)
  qed (use rec rel k cl g in \<open>auto simp: keep_stale_def wp\<close>)
qed

lemma recover_before_ok:
  assumes inv: "arena_inv c a"
  shows "wpE (recover_before fp req) (recovered c req a) (\<lambda>_. gave_up c a) a"
proof -
  have base: "arena_base c (ar_tape a) a" and ab: "sl_state (ar_slot a) = SlotIdle \<or> sl_abandoned (ar_slot a)"
    using inv by (simp_all add: arena_inv_def)
  have same: "gave_up c a a" using inv by (simp add: gave_up_def)
  have kept: "kept_ok (ar_recovered_frozen a) (ar_recovered_clear a) (sl_kind (ar_slot a)) (ar_last_freeze a) (ar_last_clear a) (arena_head a)"
    and slot: "slot_ok (ar_slot a) (ar_last_freeze a) (ar_last_clear a) (arena_head a)" using base by (simp_all add: arena_base_def)
  show ?thesis
  proof (cases "ar_recovered_frozen a")
    case (Some d)
    have "recovered c KindFreeze a (Some (Inr (RepFrozen (Some d)))) (a\<lparr>ar_recovered_frozen := None\<rparr>)"
      using inv kept slot Some
      by (auto simp: recovered_def gave_up_def arena_inv_def arena_base_def kept_ok_def arena_owes_def advance_def arena_head_def arena_cum_def idle_def
          slot_ok_def split: slot_state.splits option.splits) (auto simp: command_ok.simps elim: command_ok.elims)
    with Some same show ?thesis by (auto simp: recover_before_def wp)
  next
    case None
    show ?thesis
    proof (cases "sl_state (ar_slot a) = SlotIdle")
      case True
      then have "idle a" using slot by (simp add: idle_def slot_ok_def)
      with None same True show ?thesis by (auto simp: recover_before_def wp recovered_def)
    next
      case False
      then have kn: "sl_kind (ar_slot a) \<noteq> KindNone"
        using slot by (auto simp: slot_ok_def elim: command_ok.elims split: slot_state.splits)
      have "wpE (bindE (wait_slot_result fp) (keep_stale req (sl_kind (ar_slot a)))) (recovered c req a) (\<lambda>_. gave_up c a) a"
        if "\<not> (ar_recovered_clear a \<noteq> None \<and> req \<noteq> KindStatus)" "\<not> (sl_kind (ar_slot a) = KindRelease \<and> req \<noteq> KindRelease)"
        unfolding wp
      proof (rule wp_wait[OF base False])
        fix reply a' assume a': "arena_inv c a'" "forward a a'" "idle a'"
          "reply_ok (sl_kind (ar_slot a)) (ar_last_freeze a) (ar_last_clear a) (arena_head a') reply"
        show "wpE (keep_stale req (sl_kind (ar_slot a)) reply) (recovered c req a) (\<lambda>_. gave_up c a) a'"
          using keep_stale_ok[OF a'(1-3) kn a'(4) _ None _ refl, of req] that kept kn by (cases "ar_recovered_clear a") (auto simp: kept_ok_def)
      next
        fix a' assume "arena_inv c a'" "forward a a'" "sl_kind (ar_slot a') = sl_kind (ar_slot a)" "sl_state (ar_slot a') \<noteq> SlotIdle"
        then show "gave_up c a a'" by (auto simp: gave_up_def forward_advance arena_owes_def forward_def)
      qed
      then show ?thesis using None False ab same by (auto simp: recover_before_def wp Let_def)
    qed
  qed
qed

text \<open>A command that was submitted: its reply, or a debt of its kind.\<close>

definition timed_owing :: "ring_config \<Rightarrow> command_kind \<Rightarrow> nat option \<Rightarrow> clear_accounting \<Rightarrow> arena \<Rightarrow> lamb_error \<Rightarrow> arena \<Rightarrow> bool" where
  "timed_owing c kind k acc a e a' \<longleftrightarrow> arena_inv c a' \<and> advance a a' \<and>
     (arena_owes a' = arena_owes a \<or>
      e = timed_out \<and> arena_owes a' = (if kind = KindClear then OwesClear acc else if kind = KindFreeze then OwesFreeze k else arena_owes a))"

lemma submit_locked_ok:
  assumes inv: "arena_inv c a" and i: "idle a" and n: "ar_recovered_frozen a = None" and cl: "kind = KindStatus \<or> ar_recovered_clear a = None"
    and slot: "slot = (ar_slot a)\<lparr>sl_state := SlotPreparing, sl_kind := kind, sl_abandoned := False\<rparr>"
    and cmd: "command_ok kind k acc (arena_head a) (build (a\<lparr>ar_slot := slot\<rparr>))"
    and k: "k = ar_last_freeze (note_command (build (a\<lparr>ar_slot := slot\<rparr>)) a)" and acc: "acc = ar_last_clear (note_command (build (a\<lparr>ar_slot := slot\<rparr>)) a)"
  shows "wpE (submit_locked fp kind build) (\<lambda>reply a'. gave_up c a a' \<and> reply_ok kind k acc (arena_head a') (Inr reply))
           (timed_owing c kind k acc a) a"
proof -
  let ?cmd = "build (a\<lparr>ar_slot := slot\<rparr>)"
  define b where "b = note_command ?cmd (a\<lparr>ar_slot := slot\<lparr>sl_state := SlotReady ?cmd\<rparr>\<rparr>)"
  have b: "ar_rt b = ar_rt a" "ar_slot b = slot\<lparr>sl_state := SlotReady ?cmd\<rparr>" "ar_tape b = ar_tape a" "ar_runtime_id b = ar_runtime_id a"
    "ar_recovered_frozen b = ar_recovered_frozen a" "ar_recovered_clear b = ar_recovered_clear a" "ar_last_freeze b = k" "ar_last_clear b = acc"
    by (auto simp: b_def note_command_def k acc split: worker_command.splits)
  have kc: "kind \<noteq> KindStatus \<longrightarrow> ar_recovered_clear a = None" "kind = KindStatus \<longrightarrow> acc = ar_last_clear a"
    using cl cmd acc by (auto simp: note_command_def split: worker_command.splits elim: command_ok.elims)
  have base: "arena_base c (ar_tape b) b"
    using inv cmd n kc by (auto simp: arena_inv_def arena_base_def b slot_ok_def slot kept_ok_def arena_head_def split: option.splits)
  have busy: "sl_state (ar_slot b) \<noteq> SlotIdle" by (simp add: b)
  have adv: "advance a a'" if "forward b a'" for a' using that b by (simp add: forward_def advance_def arena_head_def arena_cum_def)
  have "wpE (wait_slot_result fp)
      (\<lambda>r. wpE (liftE r) (\<lambda>reply a'. gave_up c a a' \<and> reply_ok kind k acc (arena_head a') (Inr reply)) (timed_owing c kind k acc a))
      (timed_owing c kind k acc a) b"
  proof (rule wp_wait[OF base busy])
    fix reply a' assume a': "arena_inv c a'" "forward b a'" "idle a'"
      and r: "reply_ok (sl_kind (ar_slot b)) (ar_last_freeze b) (ar_last_clear b) (arena_head a') reply"
    have "arena_owes a' = arena_owes a"
      using a' i n kc b by (cases "kind = KindStatus") (auto simp: arena_owes_def forward_def idle_def)
    with a' adv[of a'] have "gave_up c a a'" "timed_owing c kind k acc a e a'" for e by (auto simp: gave_up_def timed_owing_def)
    with r show "wpE (liftE reply) (\<lambda>reply a'. gave_up c a a' \<and> reply_ok kind k acc (arena_head a') (Inr reply)) (timed_owing c kind k acc a) a'"
      by (auto simp: wp b slot split: sum.splits)
  next
    fix a' assume "arena_inv c a'" "forward b a'" "sl_kind (ar_slot a') = sl_kind (ar_slot b)"
    then show "timed_owing c kind k acc a timed_out a'"
      using adv[of a'] b i n kc by (auto simp: timed_owing_def arena_owes_def forward_def slot idle_def)
  qed
  moreover have "slot_begin kind (ar_slot a) = (slot, Inr ())" using i by (simp add: slot_begin_def slot idle_def)
  ultimately show ?thesis
    by (simp add: submit_locked_def wp wpE_def[of "begin_command _"] begin_command_def slot_publish_def b_def)
qed

section \<open>Commands from the client\<close>

definition failed :: "ring_config \<Rightarrow> command_kind \<Rightarrow> nat option \<Rightarrow> clear_accounting \<Rightarrow> arena \<Rightarrow> lamb_error \<Rightarrow> arena \<Rightarrow> bool" where
  "failed c kind k acc a e a' \<longleftrightarrow> arena_inv c a' \<and> advance a a' \<and>
     (arena_owes a' \<in> {arena_owes a, OwesNothing} \<or>
      e = timed_out \<and> (kind = KindClear \<and> arena_owes a' = OwesClear acc \<or> kind = KindFreeze \<and> arena_owes a' = OwesFreeze k))"

definition answered :: "ring_config \<Rightarrow> command_kind \<Rightarrow> nat option \<Rightarrow> clear_accounting \<Rightarrow> arena \<Rightarrow> worker_reply \<Rightarrow> arena \<Rightarrow> bool" where
  "answered c kind k acc a reply a' \<longleftrightarrow> gave_up c a a' \<and> (kind = KindStatus \<or> arena_owes a' = OwesNothing) \<and>
     reply_ok kind k acc (arena_head a') (Inr reply)"

lemma reply_ok_other: "reply_ok kind k acc h r \<Longrightarrow> kind \<noteq> KindFreeze \<or> k = k' \<Longrightarrow> kind \<noteq> KindClear \<or> \<not> is_ok r \<Longrightarrow> reply_ok kind k' acc' h r"
  by (induction kind k acc h r rule: reply_ok.induct) auto

lemma owes_nothing: "idle a \<Longrightarrow> ar_recovered_frozen a = None \<Longrightarrow> ar_recovered_clear a = None \<Longrightarrow> arena_owes a = OwesNothing"
  by (simp add: arena_owes_def idle_def)

lemma execute_locked_ok:
  assumes inv: "arena_inv c a"
    and cmd: "\<And>b. \<lbrakk>advance a b; ar_last_freeze b = ar_last_freeze a; ar_last_clear b = ar_last_clear a\<rbrakk> \<Longrightarrow>
        command_ok kind k acc (arena_head b) (build b) \<and> k = ar_last_freeze (note_command (build b) b) \<and> acc = ar_last_clear (note_command (build b) b)"
    and stale: "kind \<noteq> KindFreeze \<or> arena_owes a \<in> {OwesNothing, OwesFreeze k}"
  shows "wpE (execute_locked fp kind build) (answered c kind k acc a) (failed c kind k acc a) a"
  unfolding execute_locked_def wpE_bind
proof (rule wpE_mono[OF recover_before_ok[OF inv]])
  fix e a' assume "gave_up c a a'"
  then show "failed c kind k acc a e a'" by (auto simp: gave_up_def failed_def)
next
  fix out b assume out: "recovered c kind a out b"
  then have b: "gave_up c a b" "idle b" "ar_recovered_frozen b = None" "kind = KindStatus \<or> ar_recovered_clear b = None"
    "ar_last_freeze b = ar_last_freeze a" "ar_last_clear b = ar_last_clear a" by (simp_all add: recovered_def)
  have none: "kind = KindStatus \<or> arena_owes b = OwesNothing" using owes_nothing[OF b(2,3)] b(4) by auto
  show "wpE (case out of Some reply \<Rightarrow> liftE reply | None \<Rightarrow> submit_locked fp kind build) (answered c kind k acc a) (failed c kind k acc a) b"
  proof (cases out)
    case (Some reply)
    with out stale have "reply_ok kind k acc (arena_head b) reply"
      by (auto simp: recovered_def intro: reply_ok_other)
    with Some b none show ?thesis
      by (cases reply) (auto simp: wp answered_def failed_def gave_up_def)
  next
    case None
    let ?slot = "(ar_slot b)\<lparr>sl_state := SlotPreparing, sl_kind := kind, sl_abandoned := False\<rparr>"
    have adv: "advance a (b\<lparr>ar_slot := ?slot\<rparr>)" using b(1) by (simp add: gave_up_def advance_def arena_head_def arena_cum_def)
    have c: "command_ok kind k acc (arena_head b) (build (b\<lparr>ar_slot := ?slot\<rparr>)) \<and>
        k = ar_last_freeze (note_command (build (b\<lparr>ar_slot := ?slot\<rparr>)) b) \<and> acc = ar_last_clear (note_command (build (b\<lparr>ar_slot := ?slot\<rparr>)) b)"
      using cmd[OF adv] b(5,6) by (auto simp: arena_head_def note_command_def split: worker_command.splits)
    have ib: "arena_inv c b" using b(1) by (simp add: gave_up_def)
    have "wpE (submit_locked fp kind build) (answered c kind k acc a) (failed c kind k acc a) b"
      by (rule wpE_mono[OF submit_locked_ok[OF ib b(2,3,4) refl]])
         (use c b(1) none in \<open>auto simp: answered_def failed_def gave_up_def timed_owing_def advance_def split: if_splits\<close>)
    with None show ?thesis by simp
  qed
qed

lemma lock_ok:
  assumes "arena_inv c a" and "Q () a" and "\<And>e t. gave_up c a (a\<lparr>ar_tape := t\<rparr>) \<Longrightarrow> E e (a\<lparr>ar_tape := t\<rparr>)"
  shows "wpE lock_command_client Q E a"
proof -
  have "gave_up c a (a\<lparr>ar_tape := t\<rparr>)" if "ar_tape a = x # t" for x t
    using assms(1) that base_drop[of c x t a]
    by (auto simp: gave_up_def arena_inv_def advance_def arena_owes_def arena_base_def arena_head_def arena_cum_def)
  with assms(2,3) show ?thesis by (auto simp: wpE_def lock_command_client_def split: list.split tick.split)
qed

lemma gave_up_failed: "gave_up c a a' \<Longrightarrow> failed c kind k acc a e a'"
  by (auto simp: gave_up_def failed_def)

lemma execute_command_ok:
  assumes inv: "arena_inv c a"
    and cmd: "\<And>b. \<lbrakk>advance a b; ar_last_freeze b = ar_last_freeze a; ar_last_clear b = ar_last_clear a\<rbrakk> \<Longrightarrow>
        command_ok kind k acc (arena_head b) (build b) \<and> k = ar_last_freeze (note_command (build b) b) \<and> acc = ar_last_clear (note_command (build b) b)"
    and stale: "kind \<noteq> KindFreeze \<or> arena_owes a \<in> {OwesNothing, OwesFreeze k}"
  shows "wpE (execute_command fp kind build) (answered c kind k acc a) (failed c kind k acc a) a"
  unfolding execute_command_def wpE_bind
proof (rule lock_ok[OF inv])
  show "wpE (execute_locked fp kind build) (answered c kind k acc a) (failed c kind k acc a) a"
    by (rule execute_locked_ok[OF inv _ stale]) (rule cmd)
qed (rule gave_up_failed)

section \<open>The operations meet the contract\<close>

lemma gave_up_progress: "gave_up c a a' \<Longrightarrow> arena_progress c a a' \<and> arena_owes a' \<in> {arena_owes a, OwesNothing}"
  by (auto simp: gave_up_def arena_progress_def advance_def)

lemma failed_progress: "failed c kind k acc a e a' \<Longrightarrow> arena_progress c a a'"
  by (auto simp: failed_def arena_progress_def advance_def)

lemma timed_out_timeout: "is_timeout timed_out"
  by (simp add: is_timeout_def timed_out_def)

lemma freeze_since_ok:
  assumes inv: "arena_inv c a" and ow: "arena_owes a \<in> {OwesNothing, OwesFreeze k}"
  shows "wpE (freeze_since fp k)
     (\<lambda>r a'. arena_progress c a a' \<and> arena_owes a' = OwesNothing \<and>
        (case r of
           None \<Rightarrow> True
         | Some f \<Rightarrow> (case k of None \<Rightarrow> 0 | Some m \<Rightarrow> m) \<le> fst (fe_absolute_range f) \<and>
             fst (fe_absolute_range f) < snd (fe_absolute_range f) \<and> snd (fe_absolute_range f) \<le> arena_head a'))
     (\<lambda>_ a'. arena_progress c a a' \<and> arena_owes a' \<in> {OwesNothing, OwesFreeze k}) a"
  unfolding freeze_since_def wpE_bind
proof (rule wpE_mono[OF execute_command_ok[OF inv, where k = k and acc = "ar_last_clear a"]])
  fix reply a' assume a': "answered c KindFreeze k (ar_last_clear a) a reply a'"
  then obtain d where d: "reply = RepFrozen d" "case d of None \<Rightarrow> True | Some x \<Rightarrow> desc_fits k (arena_head a') x"
    by (cases reply) (auto simp: answered_def)
  then show "wpE (case reply of RepFrozen descriptor \<Rightarrow> getE (\<lambda>a. map_option (frozen_epoch_from_descriptor (ar_runtime_id a)) descriptor)
       | _ \<Rightarrow> failE (ControlInvariant ''capture worker returned the wrong freeze result''))
     (\<lambda>r a'. arena_progress c a a' \<and> arena_owes a' = OwesNothing \<and>
        (case r of
           None \<Rightarrow> True
         | Some f \<Rightarrow> (case k of None \<Rightarrow> 0 | Some m \<Rightarrow> m) \<le> fst (fe_absolute_range f) \<and>
             fst (fe_absolute_range f) < snd (fe_absolute_range f) \<and> snd (fe_absolute_range f) \<le> arena_head a'))
     (\<lambda>_ a'. arena_progress c a a' \<and> arena_owes a' \<in> {OwesNothing, OwesFreeze k}) a'"
    using a' gave_up_progress[of c a a']
    by (auto simp: answered_def wp desc_fits_def frozen_epoch_from_descriptor_def split: option.splits)
next
  fix e a' assume "failed c KindFreeze k (ar_last_clear a) a e a'"
  with ow failed_progress[OF this] show "arena_progress c a a' \<and> arena_owes a' \<in> {OwesNothing, OwesFreeze k}"
    by (auto simp: failed_def)
qed (use ow in \<open>auto simp: note_command_def\<close>)

lemma clear_active_ok:
  assumes inv: "arena_inv c a" and le: "acc_expected_active_start acc \<le> arena_head a"
  shows "wpE (clear_active_accounted fp acc)
     (\<lambda>report a'. arena_progress c a a' \<and> arena_owes a' = OwesNothing \<and> report_for acc report \<and>
        snd (rep_active_absolute_range report) \<le> arena_head a')
     (\<lambda>e a'. arena_progress c a a' \<and> (arena_owes a' \<in> {arena_owes a, OwesNothing} \<or> is_timeout e \<and> arena_owes a' = OwesClear acc)) a"
proof -
  let ?build = "\<lambda>a. CmdClear (published_head a) (q_dropped_frames (rt_queue (ar_rt a))) acc"
  have self: "arena_progress c a a" using inv by (simp add: arena_progress_def)
  have "wpE (execute_command fp KindClear ?build) (answered c KindClear (ar_last_freeze a) acc a) (failed c KindClear (ar_last_freeze a) acc a) a"
    by (rule execute_command_ok[OF inv]) (use le in \<open>auto simp: note_command_def advance_def\<close>)
  then have "wpE (execute_command fp KindClear ?build)
      (\<lambda>reply a'. \<exists>report. reply = RepCleared report \<and> arena_progress c a a' \<and> arena_owes a' = OwesNothing \<and> report_for acc report \<and>
        snd (rep_active_absolute_range report) \<le> arena_head a')
      (\<lambda>e a'. arena_progress c a a' \<and> (arena_owes a' \<in> {arena_owes a, OwesNothing} \<or> is_timeout e \<and> arena_owes a' = OwesClear acc)) a"
  proof (rule wpE_mono)
    fix reply a' assume "answered c KindClear (ar_last_freeze a) acc a reply a'"
    then show "\<exists>report. reply = RepCleared report \<and> arena_progress c a a' \<and> arena_owes a' = OwesNothing \<and> report_for acc report \<and>
        snd (rep_active_absolute_range report) \<le> arena_head a'"
      using gave_up_progress[of c a a'] by (cases reply) (auto simp: answered_def report_fits_def)
  next
    fix e a' assume "failed c KindClear (ar_last_freeze a) acc a e a'"
    then show "arena_progress c a a' \<and> (arena_owes a' \<in> {arena_owes a, OwesNothing} \<or> is_timeout e \<and> arena_owes a' = OwesClear acc)"
      using failed_progress[of c KindClear "ar_last_freeze a" acc a e a'] timed_out_timeout by (auto simp: failed_def)
  qed
  then show ?thesis
    using self by (auto simp: clear_active_accounted_def wp elim!: wpE_mono)
qed

lemma release_frozen_ok:
  assumes inv: "arena_inv c a" and run: "release_frozen fp f a = (a', r)"
  shows "arena_progress c a a' \<and> arena_owes a' \<in> {arena_owes a, OwesNothing}"
proof -
  let ?build = "\<lambda>a. CmdRelease (published_head a) (fe_index f) (fe_generation f)"
  have self: "gave_up c a a" using inv by (simp add: gave_up_def)
  have "wpE (bindE lock_command_client (\<lambda>_. release_submit fp f)) (\<lambda>_. gave_up c a) (\<lambda>_. gave_up c a) a"
  proof -
    have go: "wpE (tryE (case out of Some reply \<Rightarrow> liftE reply | None \<Rightarrow> submit_locked fp KindRelease ?build))
        (\<lambda>_. gave_up c a) (\<lambda>_. gave_up c a) b" if out: "recovered c KindRelease a out b" for out b
    proof (cases out)
      case None
      have b: "arena_inv c b" "idle b" "ar_recovered_frozen b = None" "ar_recovered_clear b = None" "gave_up c a b"
        using out by (auto simp: recovered_def gave_up_def)
      let ?slot = "(ar_slot b)\<lparr>sl_state := SlotPreparing, sl_kind := KindRelease, sl_abandoned := False\<rparr>"
      have "wpE (submit_locked fp KindRelease ?build) (\<lambda>_. gave_up c a) (\<lambda>_. gave_up c a) b"
        by (rule wpE_mono[OF submit_locked_ok[OF b(1-3) _ refl, where k = "ar_last_freeze b" and acc = "ar_last_clear b"]])
           (use b(4,5) in \<open>auto simp: note_command_def gave_up_def timed_owing_def advance_def\<close>)
      then show ?thesis by (simp add: None wp)
    qed (use out in \<open>auto simp: wp recovered_def split: sum.split\<close>)
    have "wpE (release_submit fp f) (\<lambda>_. gave_up c a) (\<lambda>_. gave_up c a) a"
      unfolding release_submit_def wpE_bind
      by (rule wpE_mono[OF recover_before_ok[OF inv]], rule wpE_mono[OF go])
         (auto simp: wp split: sum.split worker_reply.split)
    then show ?thesis unfolding wpE_bind by (intro lock_ok[OF inv]) auto
  qed
  then have "gave_up c a a'"
    using run self by (auto simp: release_frozen_def wpE_def split: if_splits prod.splits sum.splits)
  then show ?thesis by (rule gave_up_progress)
qed

definition clear_recovered :: "ring_config \<Rightarrow> arena \<Rightarrow> clear_report option \<Rightarrow> arena \<Rightarrow> bool" where
  "clear_recovered c a r a' \<longleftrightarrow> arena_progress c a a' \<and>
     (case r of
        None \<Rightarrow> arena_owes a' = arena_owes a \<and> (case arena_owes a of OwesClear _ \<Rightarrow> False | _ \<Rightarrow> True)
      | Some report \<Rightarrow> arena_owes a' = OwesNothing \<and>
          (case arena_owes a of
             OwesClear acc \<Rightarrow> report_for acc report \<and> snd (rep_active_absolute_range report) \<le> arena_head a'
           | _ \<Rightarrow> False))"

lemma await_clear_ok:
  assumes inv: "arena_inv c a" and k: "sl_kind (ar_slot a) = KindClear" "ar_recovered_clear a = None"
  shows "wpE (await_clear fp rc) (clear_recovered c a) (\<lambda>_. gave_up c a) a"
  unfolding await_clear_def wpE_bind[of "wait_slot_result fp"]
proof (rule wp_wait)
  show "arena_base c (ar_tape a) a" using inv by (simp add: arena_inv_def)
  then show "sl_state (ar_slot a) \<noteq> SlotIdle" using k by (auto simp: arena_base_def slot_ok_def)
  have nf: "ar_recovered_frozen a = None" using inv k by (auto simp: arena_inv_def arena_base_def kept_ok_def split: option.splits)
  fix reply a' assume a': "arena_inv c a'" "forward a a'" "idle a'"
    and r: "reply_ok (sl_kind (ar_slot a)) (ar_last_freeze a) (ar_last_clear a) (arena_head a') reply"
  have p: "arena_progress c a a'" "arena_owes a' = OwesNothing" "arena_owes a = OwesClear (ar_last_clear a)" "gave_up c a a'"
    using a' k nf owes_nothing[OF a'(3)] forward_advance[OF a'(2)] by (auto simp: arena_progress_def forward_def arena_owes_def gave_up_def)
  have keep: "gave_up c a (a'\<lparr>ar_recovered_clear := Some report\<rparr>)" if "report_fits (ar_last_clear a) (arena_head a') report" for report
    using that a' nf k
    by (auto simp: gave_up_def advance_def arena_inv_def arena_base_def arena_owes_def kept_ok_def forward_def arena_head_def arena_cum_def idle_def)
  show "wpE (bindE (liftE reply) (\<lambda>reply.
       case reply of
         RepCleared report \<Rightarrow>
           if recovery_matches rc report then retE (Some report)
           else bindE (modE (\<lambda>a. a\<lparr>ar_recovered_clear := Some report\<rparr>)) (\<lambda>_.
             failE (ControlInvariant ''clear recovery identity does not match completed report''))
       | _ \<Rightarrow> failE (ControlInvariant ''capture worker returned the wrong clear recovery result''))) (clear_recovered c a) (\<lambda>_. gave_up c a) a'"
    using r k p keep by (cases reply; cases "projr reply") (auto simp: wp report_fits_def clear_recovered_def)
next
  fix a' assume "arena_inv c a'" "forward a a'" "sl_kind (ar_slot a') = sl_kind (ar_slot a)"
  then show "gave_up c a a'" using k by (auto simp: gave_up_def forward_advance forward_def arena_owes_def)
qed

lemma recover_clear_ok:
  assumes inv: "arena_inv c a"
  shows "wpE (recover_clear_result fp rc) (clear_recovered c a) (\<lambda>_. gave_up c a) a"
proof -
  have kept: "kept_ok (ar_recovered_frozen a) (ar_recovered_clear a) (sl_kind (ar_slot a)) (ar_last_freeze a) (ar_last_clear a) (arena_head a)"
    and slot: "slot_ok (ar_slot a) (ar_last_freeze a) (ar_last_clear a) (arena_head a)" using inv by (simp_all add: arena_inv_def arena_base_def)
  have self: "gave_up c a a" using inv by (simp add: gave_up_def)
  have taken: "clear_recovered c a (Some report) (a\<lparr>ar_recovered_clear := None\<rparr>)" if "ar_recovered_clear a = Some report" for report
    using that inv kept
    by (auto simp: clear_recovered_def arena_progress_def arena_inv_def arena_base_def arena_owes_def kept_ok_def arena_head_def arena_cum_def
        report_fits_def split: option.splits)
  have empty: "clear_recovered c a None a" if "sl_state (ar_slot a) = SlotIdle" "ar_recovered_clear a = None"
    using that inv slot by (simp add: clear_recovered_def arena_progress_def arena_owes_def slot_ok_def)
  have "wpE (recover_clear_locked fp rc) (clear_recovered c a) (\<lambda>_. gave_up c a) a"
    unfolding recover_clear_locked_def
    using self taken empty await_clear_ok[OF inv, of fp rc] by (cases "ar_recovered_clear a") (auto simp: wp)
  then show ?thesis
    using self unfolding recover_clear_result_def wpE_bind wpE_basic by (auto intro!: lock_ok[OF inv])
qed

lemma status_ok:
  assumes inv: "arena_inv c a" and run: "arena_status fp a = (a', r)"
  shows "arena_progress c a a' \<and> arena_owes a' \<in> {arena_owes a, OwesNothing}"
proof -
  have "wpE (execute_command fp KindStatus (\<lambda>a. CmdStatus (published_head a))) (answered c KindStatus (ar_last_freeze a) (ar_last_clear a) a)
      (failed c KindStatus (ar_last_freeze a) (ar_last_clear a) a) a"
    by (rule execute_command_ok[OF inv]) (auto simp: note_command_def)
  then have "wpE (arena_status fp) (\<lambda>_. gave_up c a) (\<lambda>_. gave_up c a) a"
    unfolding arena_status_def wpE_bind
    by (rule wpE_mono) (auto simp: wp answered_def failed_def gave_up_def split: worker_reply.split)
  then have "gave_up c a a'" using run by (auto simp: wpE_def split: sum.splits)
  then show ?thesis by (rule gave_up_progress)
qed

section \<open>Interpretation\<close>

text \<open>The arena moves on between the calls of the coordinator: an event of the schedule, or a status call of another client.\<close>

inductive arena_env :: "fp_ops \<Rightarrow> arena \<Rightarrow> arena \<Rightarrow> bool" for fp where
  env_tick: "ar_tape a = t # later \<Longrightarrow> arena_env fp a (tick_step fp t (a\<lparr>ar_tape := later\<rparr>))"
| env_status: "arena_status fp a = (a', r) \<Longrightarrow> arena_env fp a a'"

definition arena_start :: "fp_ops \<Rightarrow> ring_config \<Rightarrow> arena \<Rightarrow> bool" where
  "arena_start fp c a \<longleftrightarrow> (\<exists>h p d. cap_reach fp c \<lparr>cy_rt = ar_rt a, cy_hist = h, cy_pushed = p, cy_desc = d\<rparr>) \<and>
     ar_slot a = command_slot_new \<and> ar_recovered_frozen a = None \<and> ar_recovered_clear a = None \<and>
     list_all tick_ok (ar_tape a) \<and> budget (length (ar_tape a)) (ar_rt a)"

lemma tick_tape: "ar_tape (tick_step fp t a) = ar_tape a"
  by (auto simp: tick_step_def worker_turn_def consume_turn_def command_turn_def Let_def split: tick.split option.split sum.split prod.split)

lemma tape_base [simp]: "arena_base c tape (a\<lparr>ar_tape := t\<rparr>) = arena_base c tape a"
  by (simp add: arena_base_def arena_head_def)

lemma env_ok:
  assumes inv: "arena_inv c a" and env: "arena_env fp a a'"
  shows "arena_progress c a a' \<and> arena_owes a' \<in> {arena_owes a, OwesNothing}"
  using env
proof cases
  case (env_tick t later)
  let ?b = "a\<lparr>ar_tape := later\<rparr>"
  have "arena_base c (t # later) ?b" using inv env_tick by (simp add: arena_inv_def)
  from tick_base[OF this, of fp] inv show ?thesis
    unfolding env_tick(1)
    by (auto simp: arena_progress_def arena_inv_def tick_tape forward_def same_slot_def arena_owes_def arena_head_def arena_cum_def)
qed (rule status_ok[OF inv])

lemma arena_start_ok: "arena_start fp c a \<Longrightarrow> arena_inv c a \<and> arena_owes a = OwesNothing"
  using cap_reach_inv[of fp c]
  by (auto simp: arena_start_def arena_inv_def arena_base_def pipeline_ok_def command_slot_new_def slot_ok_def kept_ok_def arena_owes_def)

interpretation client: arena_runs "client_ops fp" "arena_inv c" arena_head arena_cum arena_owes "arena_progress c" "arena_start fp c" "arena_env fp"
  for fp c
proof (unfold_locales, goal_cases)
  case (1 a a') then show ?case by (simp add: arena_progress_def client_ops_def)
next
  case (2 a)
  then have "budget 0 (ar_rt a)" by (auto simp: arena_inv_def arena_base_def intro: budget_less)
  then show ?case by (simp add: arena_cum_def budget_def rt_counters_def)
next
  case (3 a a' n) then show ?case by (auto simp: client_ops_def arena_progress_def arena_cum_def cumulative_capture_dropped_frames_def)
next
  case (4 a k a' fr)
  have run: "freeze_since fp k a = (a', fr)" using 4(2) by (simp add: client_ops_def)
  from wpE_run[OF freeze_since_ok[OF 4(1,4)] run] show ?case by (auto split: sum.splits option.splits)
next
  case (5 a f a' rl) then show ?case using release_frozen_ok by (simp add: client_ops_def)
next
  case (6 a acc a' cl)
  have run: "clear_active_accounted fp acc a = (a', cl)" using 6(2) by (simp add: client_ops_def)
  from wpE_run[OF clear_active_ok[OF 6(1,3)] run] show ?case by (auto split: sum.splits)
next
  case (7 a rc a' r)
  have run: "recover_clear_result fp rc a = (a', r)" using 7(2) by (simp add: client_ops_def)
  from wpE_run[OF recover_clear_ok[OF 7(1)] run] gave_up_progress[of c a a'] show ?case
    by (auto simp: clear_recovered_def split: sum.splits option.splits)
next
  case (8 a) then show ?case by (rule arena_start_ok)
next
  case (9 a a') then show ?case by (rule env_ok)
qed

end
