(* ===== verification/Dump_Theorems.thy ===== *)
theory Dump_Theorems
  imports Arena_Contract
begin

text \<open>
  What the coordinator and the arena guarantee together: the accounting of every frame, the order
  of the delivered ranges, the answer of a persist, the refusal of an operation while a delivery
  is active, and a state from which the coordinator does not recover by itself.
\<close>

section \<open>A concrete session\<close>

definition demo_arena :: "tick list \<Rightarrow> arena" where
  "demo_arena tape =
     \<lparr>ar_runtime_id = 1, ar_rt = demo_rt demo_q2 demo_w1, ar_slot = command_slot_new, ar_recovered_frozen = None,
      ar_recovered_clear = None, ar_exited = False, ar_tape = tape, ar_last_freeze = None,
      ar_last_clear = \<lparr>acc_arena_runtime_id = 1, acc_coordinator_id = 0, acc_clear_id = 0, acc_expected_active_start = 0,
        acc_pending_retention_lost_frames = 0, acc_pending_cleared_frames = 0\<rparr>\<rparr>"

definition demo_ws :: "(unit, unit) ws_ops" where
  "demo_ws =
     \<lparr>wo_finish_completed_publication = (\<lambda>w. (w, Inr ())),
      wo_recover_indeterminate_publication = (\<lambda>p w. (w, p, Inr RecRolledBack)),
      wo_prepare = (\<lambda>f d w. (w, d, Inr PrepSilent)),
      wo_publish_prepared = (\<lambda>w. (w, Published))\<rparr>"

definition demo_world :: "tick list \<Rightarrow> (arena, unit, unit) world" where
  "demo_world tape =
     \<lparr>wd_id = 1, wd_poisoned = False, wd_state = with_frozen_decision (export_decision_new 2 48000 1),
      wd_arena = demo_arena tape, wd_workspace = (), wd_delivered = []\<rparr>"

abbreviation demo_turn :: tick where
  "demo_turn \<equiv> Turn 0 (\<lambda>_. demo_q2)"

lemma demo_arena_start: "arena_start demo_fp demo_cfg (demo_arena [demo_turn])"
  unfolding arena_start_def
proof (intro conjI exI)
  show "cap_reach demo_fp demo_cfg \<lparr>cy_rt = ar_rt (demo_arena [demo_turn]), cy_hist = [1, 2, 3, 4, 5, 6],
      cy_pushed = [1, 2, 3, 4, 5, 6], cy_desc = None\<rparr>" using demo_cap2 by (simp add: demo_arena_def)
  show "budget (length (ar_tape (demo_arena [demo_turn]))) (ar_rt (demo_arena [demo_turn]))"
    by (simp add: demo_arena_def budget_def rt_counters_def demo_w1_def demo_w0_def worker_new_def u32_lim_def u64_lim_def)
       (simp add: demo_cq_def)
qed (simp_all add: demo_arena_def tick_ok_def calibration_boundary_def Let_def, simp add: demo_cq_def)

lemma demo_freeze_since:
  "\<exists>w' f. freeze_since demo_fp None (demo_arena [demo_turn]) =
       (demo_arena []\<lparr>ar_rt := demo_rt demo_q2 w'\<rparr>, Inr (Some f)) \<and> fe_absolute_range f = (0, 3) \<and> fe_runtime_id f = 1 \<and> \<not> fe_released f"
proof -
  have w: "w_frozen demo_w1 = None" "w_next_generation demo_w1 + 1 < u64_lim" "w_absolute_head demo_w1 = 3"
    "w_bases demo_w1 ! w_active demo_w1 = 0" "w_epochs demo_w1 ! w_active demo_w1 = demo_written"
    by (simp_all add: demo_w1_def demo_w0_def worker_new_def u64_lim_def)
  from freeze_ok[OF demo_w1_inv w(1,2) refl, of None] w demo_old obtain w' d
    where fz: "freeze None demo_w1 = (w', Inr (Some d))" and r: "fd_absolute_range d = (0, 3)" by auto
  have q: "\<not> drop_counter_exhausted demo_q2" "published_sequence demo_q2 = 1" "consumed_sequence demo_q2 = 1" by (simp_all add: demo_cq_def)
  have pc: "process_command (CmdFreeze 1 None) (demo_rt demo_q2 demo_w1) = (demo_rt demo_q2 w', Inr (RepFrozen (Some d)))"
    using fz q by (simp add: process_command_def)
  have "freeze_since demo_fp None (demo_arena [demo_turn]) =
      (demo_arena []\<lparr>ar_rt := demo_rt demo_q2 w'\<rparr>, Inr (Some (frozen_epoch_from_descriptor 1 d)))"
    using q pc
    by (simp add: freeze_since_def execute_command_def execute_locked_def recover_before_def submit_locked_def eff_defs lock_command_client_def
        demo_arena_def command_slot_new_def begin_command_def slot_begin_def slot_publish_def note_command_def published_head_def wait_slot_result_def
        wait_on.simps take_result_def tick_step_def worker_turn_def ready_target_def take_command_def command_turn_def publish_result_def
        cancel_calibration_if_requested_def demo_cal_def Let_def)
  with r show ?thesis by (intro exI) (auto simp: frozen_epoch_from_descriptor_def)
qed

lemma demo_release:
  assumes "fe_runtime_id f = 1" and "\<not> fe_released f"
  shows "\<exists>a g e. release_frozen demo_fp f (demo_arena []\<lparr>ar_rt := rt\<rparr>) = (a, g, Inl e)"
  using assms
  by (simp add: release_frozen_def release_submit_def recover_before_def submit_locked_def eff_defs lock_command_client_def
      demo_arena_def command_slot_new_def begin_command_def slot_begin_def slot_publish_def note_command_def wait_slot_result_def
      wait_on.simps take_result_def)

abbreviation no_losses :: loss_breakdown where
  "no_losses \<equiv> \<lparr>lb_retention_lost_frames = 0, lb_cleared_frames = 0, lb_capture_dropped_frames = 0\<rparr>"

text \<open>The session persists the three captured frames; the release that follows times out.\<close>

lemma demo_persist:
  "\<exists>s. persist_policy_with_delivery (client_ops demo_fp) demo_ws (\<lambda>_. Inr ()) (demo_world [demo_turn]) = (s, Inr ()) \<and>
     wd_delivered s = [SkippedSilent (0, 3) 3 no_losses] \<and> ds_committed_until (wd_state s) = Some 3"
proof -
  from demo_freeze_since obtain w' f where fz: "freeze_since demo_fp None (demo_arena [demo_turn]) =
       (demo_arena []\<lparr>ar_rt := demo_rt demo_q2 w'\<rparr>, Inr (Some f))" and f: "fe_absolute_range f = (0, 3)" "fe_runtime_id f = 1" "\<not> fe_released f"
    by blast
  from demo_release[OF f(2,3), of "demo_rt demo_q2 w'"] obtain a g e
    where rl: "release_frozen demo_fp f (demo_arena []\<lparr>ar_rt := demo_rt demo_q2 w'\<rparr>) = (a, g, Inl e)" by blast
  have cm: "cumulative_capture_dropped_frames (demo_arena []\<lparr>ar_rt := demo_rt demo_q2 w'\<rparr>) = 0"
    by (simp add: cumulative_capture_dropped_frames_def demo_cq_def)
  have pro: "persist_prologue (client_ops demo_fp) demo_ws (demo_world [demo_turn]) =
      (demo_world [demo_turn]\<lparr>wd_state := (wd_state (demo_world [demo_turn]))\<lparr>ds_bound_runtime_id := Some 1\<rparr>\<rparr>, Inr False)"
    by (simp add: persist_prologue_def enter_def demo_ws_def demo_world_def with_frozen_decision_def dump_state_new_def workE_def lock_state_def
        bind_arena_def recover_pending_clear_def reconcile_completion_authority_def recover_pending_release_def reconcile_without_release_def
        clear_completion_poison_if_reconciled_def stateE_def setE_def eff_defs client_ops_def demo_arena_def Let_def)
  have "persist_policy_with_delivery (client_ops demo_fp) demo_ws (\<lambda>_. Inr ()) (demo_world [demo_turn]) =
      (\<lparr>wd_id = 1, wd_poisoned = False, wd_state = (with_frozen_decision (export_decision_new 2 48000 1))\<lparr>ds_bound_runtime_id := Some 1,
          ds_committed_until := Some 3, ds_reusable_decision := None, ds_completion_in_progress := True,
          ds_pending_completion := Some (Finalized (decision_reset (export_decision_new 2 48000 1)) (Some g))\<rparr>,
        wd_arena = a, wd_workspace = (), wd_delivered = [SkippedSilent (0, 3) 3 no_losses]\<rparr>, Inr ())"
    unfolding persist_policy_with_delivery_def bindE_def[of "persist_prologue _ _"] pro
    using fz rl cm f
    by (simp add: recovery_accounting_def recover_indeterminate_publication_def persist_freeze_def persist_transaction_def
        persist_publish_def demo_ws_def demo_world_def with_frozen_decision_def dump_state_new_def stateE_def setE_def eff_defs arenaE_def arenaI_def
        workE_def workI_def client_ops_def prevalidate_loss_commit_def checked_loss_add_def commit_transaction_def commit_losses_def begin_completion_def
        committed_losses_def frozen_range_def export_range_of_def export_decision_new_def deliver_and_finalize_def deliverE_def guard_finalize_def
        finalize_completed_transaction_def committed_kind_def checked_add64_def u64_lim_def saturating_sub64_def Let_def)
  then show ?thesis by simp
qed

section \<open>Theorems\<close>

text \<open>
  (C1) Every captured frame is accounted for exactly once.  In every state that a session
  reaches through persists, clears, time-outs, failures and the activity of the capture threads,
  the frames of the delivered outcomes (exported, skipped, lost to retention or cleared) and the
  losses not yet reported add up to the committed position, which does not pass what was
  captured; and the drops reported so far are the drops acknowledged.
\<close>

theorem every_frame_accounted_once:
  assumes "dump_reach (client_ops fp) wo (arena_start fp c) (arena_env fp) s"
  shows "sum_list (map accounted_frames (wd_delivered s)) + ds_pending_retention_lost_frames (wd_state s) +
           ds_pending_cleared_frames (wd_state s) = position (wd_state s) \<and>
         position (wd_state s) \<le> arena_head (wd_arena s) \<and>
         sum_list (map dropped_frames_of (wd_delivered s)) = ds_acknowledged_dropped_frames (wd_state s)"
  using client.reach_ledger[OF assms] by (simp add: ledger_ok_def)

lemma demo_reach_persist:
  "\<exists>s. dump_reach (client_ops demo_fp) demo_ws (arena_start demo_fp demo_cfg) (arena_env demo_fp) s \<and>
     wd_delivered s = [SkippedSilent (0, 3) 3 no_losses] \<and> ds_committed_until (wd_state s) = Some 3"
proof -
  from demo_persist obtain s where run: "persist_policy_with_delivery (client_ops demo_fp) demo_ws (\<lambda>_. Inr ()) (demo_world [demo_turn]) = (s, Inr ())"
    and s: "wd_delivered s = [SkippedSilent (0, 3) 3 no_losses]" "ds_committed_until (wd_state s) = Some 3" by blast
  have "dump_reach (client_ops demo_fp) demo_ws (arena_start demo_fp demo_cfg) (arena_env demo_fp) (demo_world [demo_turn])"
    unfolding demo_world_def by (intro dump_start demo_arena_start)
  from dump_persist[OF this run] s show ?thesis by blast
qed

theorem every_frame_accounted_once_witness:
  "\<exists>s. wd_delivered s = [SkippedSilent (0, 3) 3 no_losses] \<and> position (wd_state s) = 3 \<and>
     (3::nat) + ds_pending_retention_lost_frames (wd_state s) + ds_pending_cleared_frames (wd_state (s :: (arena, unit, unit) world)) = 3"
proof -
  from demo_reach_persist obtain s where r: "dump_reach (client_ops demo_fp) demo_ws (arena_start demo_fp demo_cfg) (arena_env demo_fp) s"
    and s: "wd_delivered s = [SkippedSilent (0, 3) 3 no_losses]" "ds_committed_until (wd_state s) = Some 3" by blast
  from every_frame_accounted_once[OF r] s show ?thesis
    by (intro exI[of _ s]) (simp add: accounted_frames_def dump_outcome_range_def dump_outcome_losses_def position_def)
qed

definition delivered_ranges :: "committed list \<Rightarrow> (nat \<times> nat) list" where
  "delivered_ranges D = List.map_filter dump_outcome_range D"

lemma ranges_below_sorted:
  "ranges_below l D \<Longrightarrow> sorted_wrt (\<lambda>r q. snd q \<le> fst r) (delivered_ranges D) \<and>
     list_all (\<lambda>r. fst r < snd r \<and> snd r \<le> l) (delivered_ranges D)"
proof (induction l D rule: ranges_below.induct)
  case (2 l x D)
  show ?case
  proof (cases "dump_outcome_range x")
    case None
    with 2 show ?thesis by (simp add: delivered_ranges_def)
  next
    case (Some r)
    then have "delivered_ranges (x # D) = r # delivered_ranges D" by (simp add: delivered_ranges_def)
    moreover from Some 2(2,3) obtain a b where "r = (a, b)" "a < b" "b \<le> l"
      "sorted_wrt (\<lambda>r q. snd q \<le> fst r) (delivered_ranges D)" "\<forall>r \<in> set (delivered_ranges D). fst r < snd r \<and> snd r \<le> a"
      by (cases r) (auto simp: list_all_iff)
    ultimately show ?thesis by (fastforce simp: list_all_iff)
  qed
qed (simp add: delivered_ranges_def)

lemma delivered_ranges_rev: "delivered_ranges (rev D) = rev (delivered_ranges D)"
  by (simp add: delivered_ranges_def List.map_filter_def rev_map rev_filter)

text \<open>
  (C2) The delivered ranges are disjoint and in the order of capture: an earlier one ends where
  a later one starts, or before; none is empty or passes the committed position, and what an
  export writes is a suffix of the range it consumes.
\<close>

theorem delivered_ranges_in_order:
  assumes "dump_reach (client_ops fp) wo (arena_start fp c) (arena_env fp) s"
  shows "sorted_wrt (\<lambda>r q. snd r \<le> fst q) (delivered_ranges (wd_delivered s)) \<and>
         list_all (\<lambda>r. fst r < snd r \<and> snd r \<le> position (wd_state s)) (delivered_ranges (wd_delivered s)) \<and>
         list_all export_within (wd_delivered s)"
  using client.reach_ledger[OF assms] ranges_below_sorted[of "position (wd_state s)" "rev (wd_delivered s)"]
  by (simp add: ledger_ok_def delivered_ranges_rev sorted_wrt_rev)

theorem delivered_ranges_in_order_witness:
  "\<exists>s. wd_delivered s = [SkippedSilent (0, 3) 3 no_losses] \<and> (3::nat) \<le> position (wd_state (s :: (arena, unit, unit) world))"
proof -
  from demo_reach_persist obtain s where r: "dump_reach (client_ops demo_fp) demo_ws (arena_start demo_fp demo_cfg) (arena_env demo_fp) s"
    and s: "wd_delivered s = [SkippedSilent (0, 3) 3 no_losses]" by blast
  from delivered_ranges_in_order[OF r] s show ?thesis
    by (intro exI[of _ s]) (simp add: delivered_ranges_def dump_outcome_range_def List.map_filter_def)
qed

text \<open>
  (C6) While an outcome is being delivered the coordinator refuses every other operation and
  changes nothing: a persist and a clear fail with the same error, and only the workspace of the
  caller has been looked at.
\<close>

theorem delivery_excludes_other_operations:
  assumes "ds_pending_completion (wd_state s) = Some Delivering" and "ds_pending_clear (wd_state s) = None"
    and "ds_bound_runtime_id (wd_state s) = Some (ao_runtime_id ao (wd_arena s))"
    and "wo_finish_completed_publication wo (wd_workspace s) = (w, Inr ())"
  shows "clear_in_order_with_release_timeout ao s = (s, Inl (ControlInvariant ''completion delivery is active'')) \<and>
         persist_policy_with_delivery ao wo deliver s = (s\<lparr>wd_workspace := w\<rparr>, Inl (ControlInvariant ''completion delivery is active''))"
proof -
  have "enter ao s' = (s', Inl (ControlInvariant ''completion delivery is active''))"
    if "wd_state s' = wd_state s" "wd_arena s' = wd_arena s" for s'
    using assms that
    by (simp add: enter_def lock_state_def bind_arena_def recover_pending_clear_def reconcile_completion_authority_def stateE_def eff_defs)
  from this[of s] this[of "s\<lparr>wd_workspace := w\<rparr>"] show ?thesis
    using assms(4)
    by (simp add: clear_in_order_with_release_timeout_def persist_policy_with_delivery_def persist_prologue_def workE_def bindE_def)
qed

definition demo_delivering :: "(arena, unit, unit) world" where
  "demo_delivering = demo_world []\<lparr>wd_state := (wd_state (demo_world []))\<lparr>ds_bound_runtime_id := Some 1,
     ds_completion_in_progress := True, ds_pending_completion := Some Delivering\<rparr>\<rparr>"

theorem delivery_excludes_other_operations_witness:
  "clear_in_order_with_release_timeout (client_ops demo_fp) demo_delivering =
     (demo_delivering, Inl (ControlInvariant ''completion delivery is active''))"
  using delivery_excludes_other_operations[of demo_delivering "client_ops demo_fp" demo_ws "()" "\<lambda>_. Inr ()"]
  by (simp add: demo_delivering_def demo_world_def with_frozen_decision_def dump_state_new_def client_ops_def demo_arena_def demo_ws_def)

text \<open>A slot whose freeze was abandoned, whether or not the worker has served it, with the client mutex free.\<close>

definition lock_free :: "tick list \<Rightarrow> bool" where
  "lock_free tape = (case tape of DeadlineOverflow # _ \<Rightarrow> False | LockBusy # _ \<Rightarrow> False | LockPoisoned # _ \<Rightarrow> False | _ \<Rightarrow> True)"

definition freeze_abandoned :: "arena \<Rightarrow> bool" where
  "freeze_abandoned a \<longleftrightarrow> sl_state (ar_slot a) \<noteq> SlotIdle \<and> sl_kind (ar_slot a) = KindFreeze \<and> sl_abandoned (ar_slot a) \<and>
     ar_recovered_frozen a = None \<and> ar_recovered_clear a = None \<and> lock_free (ar_tape a)"

definition not_recoverable :: lamb_error where
  "not_recoverable = ControlInvariant ''capture clear result is not recoverable''"

lemma lock_free_lock: "lock_free (ar_tape a) \<Longrightarrow> lock_command_client a = (a, Inr ())"
  by (auto simp: lock_free_def lock_command_client_def split: list.splits tick.splits)

lemma clear_times_out:
  assumes "freeze_abandoned a" and "sl_state (ar_slot a) = SlotReady cmd" and "ar_tape a = Expire # later"
    and "acc_arena_runtime_id acc = ar_runtime_id a"
  shows "clear_active_accounted fp acc a = (a\<lparr>ar_tape := later\<rparr>, Inl timed_out)"
proof -
  have "(ar_slot a)\<lparr>sl_abandoned := True\<rparr> = ar_slot a" using assms(1) by (cases "ar_slot a") (simp add: freeze_abandoned_def)
  then have "wait_slot_result fp a = (a\<lparr>ar_tape := later\<rparr>, Inl timed_out)"
    using assms(2,3) by (simp add: wait_slot_result_def wait_on.simps take_result_def)
  then show ?thesis
    using assms lock_free_lock[of a]
    by (simp add: clear_active_accounted_def execute_command_def execute_locked_def recover_before_def eff_defs freeze_abandoned_def Let_def)
qed

lemma enter_wedged:
  assumes "freeze_abandoned (wd_arena s)" and "ds_pending_clear (wd_state s) = Some p" and "\<not> wd_poisoned s"
    and "ds_bound_runtime_id (wd_state s) = Some (ar_runtime_id (wd_arena s))"
    and "pc_arena_runtime_id p = ar_runtime_id (wd_arena s)" and "pc_coordinator_id p = wd_id s"
  shows "enter (client_ops fp) s = (s, Inl not_recoverable)"
  using assms lock_free_lock[of "wd_arena s"]
  by (simp add: enter_def lock_state_def bind_arena_def recover_pending_clear_def client_ops_def arenaE_def recover_clear_result_def
      recover_clear_locked_def eff_defs freeze_abandoned_def not_recoverable_def)

text \<open>
  (C7) A clear that times out behind an abandoned freeze wedges the coordinator.  The clear was
  never submitted, yet it stays recorded as pending; from then on, in every state of the arena in
  which the freeze still occupies the slot, served or not, each clear and each persist fails with
  the same error and changes nothing, so that the coordinator by itself never collects the freeze.
\<close>

theorem clear_behind_abandoned_freeze_wedges:
  assumes a: "freeze_abandoned (wd_arena s)" "sl_state (ar_slot (wd_arena s)) = SlotReady cmd" "ar_tape (wd_arena s) = Expire # later"
    and st: "reconciled (wd_state s)" "ds_indeterminate_publication (wd_state s) = None" "\<not> wd_poisoned s"
      "ds_bound_runtime_id (wd_state s) = Some (ar_runtime_id (wd_arena s))" "ds_next_clear_id (wd_state s) + 1 < u64_lim" "ds_frozen (wd_state s) = None"
  shows "\<exists>s1. clear_in_order_with_release_timeout (client_ops fp) s = (s1, Inl timed_out) \<and> ds_pending_clear (wd_state s1) \<noteq> None \<and>
     (\<forall>b w wo deliver. freeze_abandoned b \<longrightarrow> ar_runtime_id b = ar_runtime_id (wd_arena s) \<longrightarrow>
        wo_finish_completed_publication wo (wd_workspace s1) = (w, Inr ()) \<longrightarrow>
        clear_in_order_with_release_timeout (client_ops fp) (s1\<lparr>wd_arena := b\<rparr>) = (s1\<lparr>wd_arena := b\<rparr>, Inl not_recoverable) \<and>
        persist_policy_with_delivery (client_ops fp) wo deliver (s1\<lparr>wd_arena := b\<rparr>) =
          (s1\<lparr>wd_arena := b, wd_workspace := w\<rparr>, Inl not_recoverable))"
proof -
  let ?rid = "ar_runtime_id (wd_arena s)" and ?st = "wd_state s"
  from st(5,6) obtain acc where acc: "clear_accounting_of (wd_id s) ?rid ?st = Inr acc" and rid: "acc_arena_runtime_id acc = ?rid"
    by (auto simp: clear_accounting_of_def Let_def checked_add64_def)
  define p where "p = pending_clear_of (wd_id s) ?rid acc ?st"
  define s1 where "s1 = s\<lparr>wd_state := ?st\<lparr>ds_next_clear_id := acc_clear_id acc, ds_pending_clear := Some p\<rparr>,
     wd_arena := (wd_arena s)\<lparr>ar_tape := later\<rparr>\<rparr>"
  have en: "enter (client_ops fp) s = (s, Inr False)"
    using st by (simp add: enter_def lock_state_def bind_arena_def recover_pending_clear_def reconcile_completion_authority_def
        recover_pending_release_def reconcile_without_release_def clear_completion_poison_if_reconciled_def client_ops_def stateE_def
        eff_defs reconciled_def Let_def)
  have "recover_pending_release (client_ops fp) s = (s, Inr ())"
    using st by (simp add: recover_pending_release_def stateE_def eff_defs reconciled_def)
  moreover have "submit_clear (client_ops fp) s = (s1, Inl timed_out)"
    using acc clear_times_out[OF a rid, of fp] timed_out_timeout
    by (simp add: submit_clear_def eff_defs arenaE_def setE_def client_ops_def s1_def p_def)
  ultimately have "clear_in_order_with_release_timeout (client_ops fp) s = (s1, Inl timed_out)"
    using st en by (simp add: clear_in_order_with_release_timeout_def bindE_def stateE_def getE_def ensureE_def)
  moreover have wedge: "enter (client_ops fp) s2 = (s2, Inl not_recoverable)"
    if "freeze_abandoned (wd_arena s2)" "ar_runtime_id (wd_arena s2) = ?rid" "wd_state s2 = wd_state s1" "wd_id s2 = wd_id s"
      "wd_poisoned s2 = wd_poisoned s" for s2
    using that st by (intro enter_wedged[where p = p]) (simp_all add: s1_def p_def pending_clear_of_def)
  have "enter (client_ops fp) (s1\<lparr>wd_arena := b\<rparr>) = (s1\<lparr>wd_arena := b\<rparr>, Inl not_recoverable)"
    "enter (client_ops fp) (s1\<lparr>wd_arena := b, wd_workspace := w\<rparr>) = (s1\<lparr>wd_arena := b, wd_workspace := w\<rparr>, Inl not_recoverable)"
    if "freeze_abandoned b" "ar_runtime_id b = ?rid" for b w
    using wedge[of "s1\<lparr>wd_arena := b\<rparr>"] wedge[of "s1\<lparr>wd_arena := b, wd_workspace := w\<rparr>"] that by (simp_all add: s1_def)
  ultimately show ?thesis
    by (intro exI[of _ s1])
       (simp add: clear_in_order_with_release_timeout_def persist_policy_with_delivery_def persist_prologue_def workE_def bindE_def, simp add: s1_def)
qed

definition demo_stuck :: "(arena, unit, unit) world" where
  "demo_stuck = demo_world []\<lparr>wd_state := (wd_state (demo_world []))\<lparr>ds_bound_runtime_id := Some 1\<rparr>,
     wd_arena := demo_arena [Expire]\<lparr>ar_slot := \<lparr>sl_state = SlotReady (CmdFreeze 1 None), sl_kind = KindFreeze, sl_abandoned = True\<rparr>\<rparr>\<rparr>"

theorem clear_behind_abandoned_freeze_wedges_witness:
  "\<exists>s1. clear_in_order_with_release_timeout (client_ops demo_fp) demo_stuck = (s1, Inl timed_out) \<and> ds_pending_clear (wd_state s1) \<noteq> None"
  using clear_behind_abandoned_freeze_wedges[of demo_stuck "CmdFreeze 1 None" "[]" demo_fp]
  by (auto simp: demo_stuck_def demo_world_def demo_arena_def freeze_abandoned_def lock_free_def reconciled_def with_frozen_decision_def
      dump_state_new_def u64_lim_def)

section \<open>What a persist answers\<close>

text \<open>Operations that deliver nothing.\<close>

definition quiet :: "(('a, 'w, 'p) world, 'x) eff \<Rightarrow> bool" where
  "quiet m \<longleftrightarrow> (\<forall>s. wd_delivered (fst (m s)) = wd_delivered s)"

named_theorems quiet_intro \<open>operations that deliver nothing\<close>

lemma quiet_basic [quiet_intro]:
  "quiet (retE x)" "quiet (failE e)" "quiet (getE f)" "quiet (liftE r)" "quiet (ensureE b e)" "quiet (stateE g)" "quiet (setE u)"
  by (simp_all add: quiet_def eff_defs stateE_def setE_def)

lemma quiet_access [quiet_intro]: "quiet (arenaE f)" "quiet (arenaI g)" "quiet (workE h)" "quiet (workI k)" "quiet lock_state"
  by (simp_all add: quiet_def arenaE_def arenaI_def workE_def workI_def lock_state_def split: prod.split)

lemma quiet_bind [quiet_intro]: "quiet m \<Longrightarrow> (\<And>x. quiet (k x)) \<Longrightarrow> quiet (bindE m k)"
  by (auto simp: quiet_def bindE_def split: prod.splits sum.splits) (metis fst_conv)+

lemma quiet_try [quiet_intro]: "quiet m \<Longrightarrow> quiet (tryE m)"
  by (auto simp: quiet_def tryE_def split: prod.splits) (metis fst_conv)+

lemma quiet_mod [quiet_intro]: "(\<And>s. wd_delivered (f s) = wd_delivered s) \<Longrightarrow> quiet (modE f)"
  by (simp add: quiet_def modE_def)

lemma quiet_case [quiet_intro]:
  "quiet m1 \<Longrightarrow> quiet m2 \<Longrightarrow> quiet (if b then m1 else m2)"
  "quiet n \<Longrightarrow> (\<And>y. quiet (f y)) \<Longrightarrow> quiet (case opt of None \<Rightarrow> n | Some y \<Rightarrow> f y)"
  "(\<And>u v. quiet (g u v)) \<Longrightarrow> quiet (case pr of (u, v) \<Rightarrow> g u v)"
  "(\<And>e. quiet (i e)) \<Longrightarrow> (\<And>x. quiet (j x)) \<Longrightarrow> quiet (case r of Inl e \<Rightarrow> i e | Inr x \<Rightarrow> j x)"
  by (auto split: option.split prod.split sum.split)

lemma quiet_authority [quiet_intro]: "quiet d \<Longrightarrow> (\<And>e f. quiet (m e f)) \<Longrightarrow> quiet (case auth of Delivering \<Rightarrow> d | Finalized e f \<Rightarrow> m e f)"
  by (simp split: completion_authority.split)

lemma quiet_recovery [quiet_intro]: "quiet a \<Longrightarrow> quiet b \<Longrightarrow> quiet e \<Longrightarrow> quiet (case v of RecComplete \<Rightarrow> a | RecRolledBack \<Rightarrow> b | RecPending \<Rightarrow> e)"
  by (simp split: publication_recovery.split)

lemma quiet_prepared [quiet_intro]:
  "quiet a \<Longrightarrow> quiet b \<Longrightarrow> quiet e \<Longrightarrow> quiet f \<Longrightarrow>
     quiet (case v of PrepSilent \<Rightarrow> a | PrepSkippedSilent \<Rightarrow> b | PrepSkippedByPolicy \<Rightarrow> e | PrepReady \<Rightarrow> f)"
  by (simp split: prepared.split)

lemma quiet_recover_pending_release: "quiet (recover_pending_release ao)"
  unfolding recover_pending_release_def release_or_put_back_def by (intro quiet_intro)

lemma quiet_reconcile_without_release: "quiet reconcile_without_release"
  unfolding reconcile_without_release_def by (intro quiet_intro)

lemma quiet_enter: "quiet (enter ao)"
  unfolding enter_def bind_arena_def recover_pending_clear_def accept_clear_report_def reconcile_completion_authority_def
    clear_completion_poison_if_reconciled_def
  by (intro quiet_intro quiet_recover_pending_release quiet_reconcile_without_release) (simp add: Let_def)

lemma quiet_publish: "quiet (persist_publish wo tx)"
  unfolding persist_publish_def by (intro quiet_intro; simp add: Let_def split_beta; intro quiet_intro)

lemma quiet_commit: "quiet (commit_transaction n lc e msg)"
  unfolding commit_transaction_def commit_losses_def begin_completion_def by (intro quiet_intro)

lemma quiet_finalize: "quiet (guard_finalize ao wo tx)"
  unfolding guard_finalize_def finalize_completed_transaction_def Let_def by (intro quiet_intro quiet_reconcile_without_release) simp

text \<open>Operations that deliver one outcome exactly when their result satisfies a test; a failure may come before or after it.\<close>

definition delivered_post :: "('x \<Rightarrow> bool) \<Rightarrow> committed list \<Rightarrow> 'x result \<Rightarrow> committed list \<Rightarrow> bool" where
  "delivered_post P D r D' =
     (case r of
        Inl _ \<Rightarrow> D' = D \<or> (\<exists>outcome. D' = D @ [outcome])
      | Inr x \<Rightarrow> if P x then \<exists>outcome. D' = D @ [outcome] else D' = D)"

definition answers :: "('x \<Rightarrow> bool) \<Rightarrow> (('a, 'w, 'p) world, 'x) eff \<Rightarrow> bool" where
  "answers P m \<longleftrightarrow> (\<forall>s s' r. m s = (s', r) \<longrightarrow> delivered_post P (wd_delivered s) r (wd_delivered s'))"

lemma quietD: "quiet m \<Longrightarrow> m s = (s', r) \<Longrightarrow> wd_delivered s' = wd_delivered s"
  unfolding quiet_def by (metis fst_conv)

lemma answersD: "answers P m \<Longrightarrow> m s = (s', r) \<Longrightarrow> delivered_post P (wd_delivered s) r (wd_delivered s')"
  by (simp add: answers_def)

lemma quiet_answers: "quiet m \<Longrightarrow> (\<And>x. \<not> P x) \<Longrightarrow> answers P m"
  by (auto simp: answers_def delivered_post_def dest: quietD split: sum.split)

lemma answers_fail: "answers P (failE e)"
  by (simp add: answers_def failE_def delivered_post_def)

lemma answers_after:
  assumes "quiet m" and "\<And>x. answers P (k x)"
  shows "answers P (bindE m k)"
  unfolding answers_def
proof (intro allI impI)
  fix s s' r assume run: "bindE m k s = (s', r)"
  obtain s1 r1 where m: "m s = (s1, r1)" by fastforce
  show "delivered_post P (wd_delivered s) r (wd_delivered s')"
  proof (cases r1)
    case (Inl e)
    with run m quietD[OF assms(1) m] show ?thesis by (auto simp: bindE_def delivered_post_def)
  next
    case (Inr x)
    with run m have "k x s1 = (s', r)" by (simp add: bindE_def)
    from answersD[OF assms(2) this] quietD[OF assms(1) m] show ?thesis by simp
  qed
qed

lemma answers_before:
  assumes "answers P m" and "\<And>x. if P x then quiet (k x) else answers (\<lambda>_. True) (k x)"
  shows "answers (\<lambda>_. True) (bindE m k)"
  unfolding answers_def
proof (intro allI impI)
  fix s s' r assume run: "bindE m k s = (s', r)"
  obtain s1 r1 where m: "m s = (s1, r1)" by fastforce
  note post = answersD[OF assms(1) m]
  show "delivered_post (\<lambda>_. True) (wd_delivered s) r (wd_delivered s')"
  proof (cases r1)
    case (Inl e)
    with run m post show ?thesis by (auto simp: bindE_def delivered_post_def)
  next
    case (Inr x)
    have k: "k x s1 = (s', r)" using run m Inr by (simp add: bindE_def)
    show ?thesis
    proof (cases "P x")
      case True
      then have "quiet (k x)" using assms(2)[of x] by simp
      from quietD[OF this k] True post Inr show ?thesis by (auto simp: delivered_post_def split: sum.split)
    next
      case False
      then have "answers (\<lambda>_. True) (k x)" using assms(2)[of x] by simp
      from answersD[OF this k] False post Inr show ?thesis by (auto simp: delivered_post_def split: sum.splits)
    qed
  qed
qed

lemma deliver_answers: "answers (\<lambda>_. True) (deliver_and_finalize ao wo deliver outcome tx)"
proof -
  have "answers (\<lambda>_. True) (tryE (deliverE deliver outcome))"
    by (simp add: answers_def tryE_def deliverE_def eff_defs delivered_post_def)
  then show ?thesis
    unfolding deliver_and_finalize_def by (rule answers_before) (simp, intro quiet_intro quiet_finalize)
qed

lemma freeze_answers: "answers Not (persist_freeze ao deliver)"
proof -
  have d: "answers Not (bindE (deliverE deliver outcome) (\<lambda>_. retE False))" for outcome
    by (auto simp: answers_def deliverE_def eff_defs delivered_post_def split: sum.splits)
  have t: "answers Not (retE True)" by (simp add: answers_def retE_def delivered_post_def)
  show ?thesis
    unfolding persist_freeze_def Let_def commit_losses_def
    by (auto simp: split_beta intro!: answers_after answers_fail quiet_intro d t split: option.split)
qed

lemma persist_answers: "answers (\<lambda>_. True) (persist_policy_with_delivery ao wo deliver)"
proof -
  have tx: "answers (\<lambda>_. True) (persist_transaction ao wo deliver tx)" for tx
    unfolding persist_transaction_def
    by (intro answers_after quiet_publish quiet_commit quiet_intro) (simp add: split_beta deliver_answers)
  have rec: "answers (\<lambda>_. True) (persist_recovered ao wo deliver acc)" for acc
    unfolding persist_recovered_def Let_def
    by (auto simp: split_beta intro!: answers_after answers_fail deliver_answers quiet_commit quiet_intro split: option.split)
  have fresh: "answers (\<lambda>_. True) (bindE (persist_freeze ao deliver) (\<lambda>go. if \<not> go then retE () else
      bindE (stateE ds_frozen) (\<lambda>frozen. case frozen of None \<Rightarrow> failE (Panicked ''frozen transaction remains present'')
        | Some tx \<Rightarrow> persist_transaction ao wo deliver tx)))"
    by (rule answers_before[OF freeze_answers])
       (auto intro!: answers_after answers_fail quiet_intro tx split: option.split)
  show ?thesis
    unfolding persist_policy_with_delivery_def persist_prologue_def recovery_accounting_def recover_indeterminate_publication_def
    by (intro answers_after quiet_intro quiet_enter) (simp_all add: rec fresh)
qed

text \<open>
  (C5) A persist that succeeds has delivered exactly one outcome and returns it: the error for a
  success without a delivery is never raised.  A persist that fails has delivered at most one,
  when its own completion failed after the commit.
\<close>

theorem persist_policy_answers_once:
  "case persist_policy ao wo s of
     (s', Inr outcome) \<Rightarrow> wd_delivered s' = wd_delivered s @ [outcome]
   | (s', Inl e) \<Rightarrow> fst (persist_policy_with_delivery ao wo (\<lambda>_. Inr ()) s) = s' \<and>
       snd (persist_policy_with_delivery ao wo (\<lambda>_. Inr ()) s) = Inl e \<and>
       (wd_delivered s' = wd_delivered s \<or> (\<exists>outcome. wd_delivered s' = wd_delivered s @ [outcome]))"
proof -
  obtain s' r where run: "persist_policy_with_delivery ao wo (\<lambda>_. Inr ()) s = (s', r)" by fastforce
  from answersD[OF persist_answers run] run show ?thesis
    by (cases r) (auto simp: persist_policy_def eff_defs delivered_post_def)
qed

end
