(* ===== verification/Paths.thy ===== *)
theory Paths
  imports Errors
begin

text \<open>
  What the program uses of the strings and paths of the standard library.  A \<open>str\<close> is the
  list of its UTF-8 bytes; a path is the string it prints as, so that a path that is not UTF-8
  does not arise.  Paths are compared by their components, as \<open>Path\<close> does.
\<close>

section \<open>Strings and paths of the standard library\<close>

definition str_contains :: "char \<Rightarrow> string \<Rightarrow> bool" where
  "str_contains c s = (c \<in> set s)"

fun double_slash :: "string \<Rightarrow> bool" where
  "double_slash (a # b # s) = ((a = CHR ''/'' \<and> b = CHR ''/'') \<or> double_slash (b # s))"
| "double_slash s = False"

definition starts_slash :: "string \<Rightarrow> bool" where
  "starts_slash s = (case s of [] \<Rightarrow> False | a # _ \<Rightarrow> a = CHR ''/'')"

definition ends_slash :: "string \<Rightarrow> bool" where
  "ends_slash s = (s \<noteq> [] \<and> List.last s = CHR ''/'')"

text \<open>\<open>str::split\<close> on a character: always at least one piece.\<close>

fun split_on :: "char \<Rightarrow> string \<Rightarrow> string list" where
  "split_on c [] = [[]]"
| "split_on c (x # xs) =
     (if x = c then [] # split_on c xs
      else (case split_on c xs of [] \<Rightarrow> [[x]] | p # ps \<Rightarrow> (x # p) # ps))"

datatype path_component = RootDir | CurDir | ParentDir | Normal string

definition component_of :: "string \<Rightarrow> path_component" where
  "component_of p = (if p = ''..'' then ParentDir else Normal p)"

text \<open>\<open>Path::components\<close>: repeated separators and inner dots are skipped, a leading dot is kept.\<close>

definition path_components :: "string \<Rightarrow> path_component list" where
  "path_components s =
     (let pieces = split_on (CHR ''/'') s in
      (if starts_slash s then [RootDir] else if hd pieces = ''.'' then [CurDir] else []) @
      map component_of (filter (\<lambda>p. p \<noteq> [] \<and> p \<noteq> ''.'') pieces))"

definition path_starts_with :: "string \<Rightarrow> string \<Rightarrow> bool" where
  "path_starts_with s base = (take (length (path_components base)) (path_components s) = path_components base)"

text \<open>\<open>Path::join\<close>.\<close>

definition path_join :: "string \<Rightarrow> string \<Rightarrow> string" where
  "path_join base p =
     (if starts_slash p then p else if base = [] \<or> ends_slash base then base @ p else base @ CHR ''/'' # p)"

definition nul_char :: char where
  "nul_char = CHR 0x00"

text \<open>
  A byte offset is a character boundary unless the byte there continues a character.
  \<open>str::get(..n)\<close> is \<open>None\<close> off a boundary, slicing panics.
\<close>

definition continuation_byte :: "char \<Rightarrow> bool" where
  "continuation_byte c \<longleftrightarrow> 128 \<le> (of_char c :: nat) \<and> (of_char c :: nat) < 192"

definition is_char_boundary :: "string \<Rightarrow> nat \<Rightarrow> bool" where
  "is_char_boundary s n \<longleftrightarrow> n \<le> length s \<and> (n < length s \<longrightarrow> \<not> continuation_byte (s ! n))"

definition str_get_to :: "string \<Rightarrow> nat \<Rightarrow> string option" where
  "str_get_to s n = (if is_char_boundary s n then Some (take n s) else None)"

definition str_ends_with :: "string \<Rightarrow> string \<Rightarrow> bool" where
  "str_ends_with s t \<longleftrightarrow> length t \<le> length s \<and> drop (length s - length t) s = t"

definition is_absolute :: "string \<Rightarrow> bool" where
  "is_absolute s = starts_slash s"

text \<open>\<open>Path::parent\<close>: the last component goes, with the separators and dots that end what is left.\<close>

definition trim_pieces :: "string list \<Rightarrow> string list" where
  "trim_pieces ps = rev (dropWhile (\<lambda>p. p = [] \<or> p = ''.'') (rev ps))"

fun join_pieces :: "string list \<Rightarrow> string" where
  "join_pieces [] = []"
| "join_pieces [p] = p"
| "join_pieces (p # ps) = p @ CHR ''/'' # join_pieces ps"

definition path_parent :: "string \<Rightarrow> string option" where
  "path_parent s =
     (let pieces = split_on (CHR ''/'') s in
      if starts_slash s
      then (case trim_pieces (tl pieces) of
              [] \<Rightarrow> None
            | ps \<Rightarrow> Some (CHR ''/'' # join_pieces (trim_pieces (butlast ps))))
      else (case trim_pieces pieces of
              [] \<Rightarrow> if hd pieces = ''.'' then Some [] else None
            | ps \<Rightarrow> Some (join_pieces (case trim_pieces (butlast ps) of
                                        [] \<Rightarrow> if 1 < length ps \<and> hd pieces = ''.'' then [''.''] else []
                                      | qs \<Rightarrow> qs))))"

definition path_file_name :: "string \<Rightarrow> string option" where
  "path_file_name s =
     (case rev (path_components s) of Normal name # _ \<Rightarrow> Some name | _ \<Rightarrow> None)"

text \<open>\<open>Path::strip_prefix\<close>, as the components that are left.\<close>

definition path_strip_prefix :: "string \<Rightarrow> string \<Rightarrow> path_component list option" where
  "path_strip_prefix s base =
     (if path_starts_with s base then Some (drop (length (path_components base)) (path_components s)) else None)"

section \<open>Lemmas\<close>

lemma split_on_append: "split_on c (a @ c # b) = split_on c a @ split_on c b"
proof (induction a)
  case Nil
  then show ?case by simp
next
  case (Cons x a)
  moreover have "split_on c a \<noteq> []" by (induction a) (auto split: list.splits)
  ultimately show ?case by (auto split: list.splits)
qed

lemma split_on_single: "c \<notin> set s \<Longrightarrow> split_on c s = [s]"
  by (induction s) auto

lemma split_on_nonempty [simp]: "split_on c s \<noteq> []"
  by (induction s) (auto split: list.splits)

lemma hd_split_on: "s \<noteq> [] \<Longrightarrow> hd s \<noteq> c \<Longrightarrow> hd (split_on c s) \<noteq> []"
  by (cases s) (auto split: list.splits)

definition plain_piece :: "string \<Rightarrow> bool" where
  "plain_piece p \<longleftrightarrow> p \<noteq> [] \<and> p \<noteq> ''.'' \<and> p \<noteq> ''..''"

lemma map_component_plain:
  "list_all plain_piece ps \<Longrightarrow> map component_of (filter (\<lambda>p. p \<noteq> [] \<and> p \<noteq> ''.'') ps) = map Normal ps"
  by (induction ps) (auto simp: plain_piece_def component_of_def)

lemma path_components_absolute:
  "starts_slash s \<Longrightarrow> path_components s =
     RootDir # map component_of (filter (\<lambda>p. p \<noteq> [] \<and> p \<noteq> ''.'') (split_on (CHR ''/'') s))"
  by (simp add: path_components_def Let_def)

text \<open>Joining relative text to an absolute path appends its components.\<close>

lemma path_components_join:
  assumes "starts_slash base" and "\<not> starts_slash p" and "list_all plain_piece (split_on (CHR ''/'') p) \<or> p = []"
  shows "path_components (path_join base p) =
         path_components base @ (if p = [] then [] else map Normal (split_on (CHR ''/'') p))"
    and "starts_slash (path_join base p)"
proof -
  obtain r where base: "base = CHR ''/'' # r" using assms(1) by (cases base) (auto simp: starts_slash_def)
  show abs: "starts_slash (path_join base p)" using assms(2) by (simp add: path_join_def base starts_slash_def)
  let ?f = "\<lambda>s. map component_of (filter (\<lambda>p. p \<noteq> [] \<and> p \<noteq> ''.'') (split_on (CHR ''/'') s))"
  have sep: "?f (base @ CHR ''/'' # p) = ?f base @ ?f p" by (simp add: split_on_append)
  have slash: "ends_slash base \<Longrightarrow> ?f (base @ p) = ?f base @ ?f p"
  proof -
    assume "ends_slash base"
    then obtain b where b: "base = b @ [CHR ''/'']" by (cases base rule: rev_cases) (auto simp: ends_slash_def)
    have "?f (b @ CHR ''/'' # p) = ?f b @ ?f p" "?f (b @ CHR ''/'' # []) = ?f b @ ?f []"
      by (simp_all only: split_on_append map_append filter_append)
    then show ?thesis by (simp add: b)
  qed
  have "?f p = (if p = [] then [] else map Normal (split_on (CHR ''/'') p))"
    using assms(3) map_component_plain[of "split_on (CHR ''/'') p"] by auto
  with sep slash assms(1,2) abs show "path_components (path_join base p) =
      path_components base @ (if p = [] then [] else map Normal (split_on (CHR ''/'') p))"
    by (auto simp: path_components_absolute path_join_def base)
qed

text \<open>Parent and file name take the components apart.\<close>

abbreviation named_piece :: "string \<Rightarrow> bool" where
  "named_piece p \<equiv> p \<noteq> [] \<and> p \<noteq> ''.''"

lemma split_on_pieces: "p \<in> set (split_on c s) \<Longrightarrow> c \<notin> set p"
proof (induction s arbitrary: p)
  case (Cons x s)
  then show ?case by (cases "split_on c s") (auto split: if_splits)
qed simp

lemma split_join_pieces: "qs \<noteq> [] \<Longrightarrow> list_all (\<lambda>q. CHR ''/'' \<notin> set q) qs \<Longrightarrow> split_on (CHR ''/'') (join_pieces qs) = qs"
  by (induction qs rule: join_pieces.induct) (simp_all add: split_on_append split_on_single)

lemma filter_dropWhile_not: "filter P (dropWhile (\<lambda>x. \<not> P x) xs) = filter P xs"
  by (induction xs) auto

lemma filter_trim: "filter named_piece (trim_pieces ps) = filter named_piece ps"
proof -
  have "filter named_piece (trim_pieces ps) = rev (filter named_piece (dropWhile (\<lambda>p. \<not> named_piece p) (rev ps)))"
    unfolding trim_pieces_def by (simp add: rev_filter)
  also have "\<dots> = filter named_piece ps" by (simp only: filter_dropWhile_not rev_filter rev_rev_ident)
  finally show ?thesis .
qed

lemma last_trim: "trim_pieces ps \<noteq> [] \<Longrightarrow> named_piece (List.last (trim_pieces ps))"
  using hd_dropWhile[of "\<lambda>p. p = [] \<or> p = ''.''" "rev ps"] by (simp add: trim_pieces_def last_rev)

lemma set_trim: "set (trim_pieces ps) \<subseteq> set ps"
  by (auto simp: trim_pieces_def dest: set_dropWhileD)

lemma components_join_pieces:
  assumes "list_all (\<lambda>q. CHR ''/'' \<notin> set q) qs"
  shows "path_components (CHR ''/'' # join_pieces qs) = RootDir # map component_of (filter named_piece qs)"
  using assms by (cases "qs = []") (simp_all add: path_components_def starts_slash_def split_join_pieces)

lemma path_parent_components:
  assumes "starts_slash s" and "path_parent s = Some q"
  shows "starts_slash q" and "\<exists>p. path_components s = path_components q @ [component_of p] \<and> CHR ''/'' \<notin> set p \<and> named_piece p"
proof -
  obtain r where s: "s = CHR ''/'' # r" using assms(1) by (cases s) (auto simp: starts_slash_def)
  define ps where "ps = trim_pieces (split_on (CHR ''/'') r)"
  have ne: "ps \<noteq> []" and q: "q = CHR ''/'' # join_pieces (trim_pieces (butlast ps))"
    using assms by (auto simp: path_parent_def s Let_def starts_slash_def ps_def split: list.splits)
  show "starts_slash q" by (simp add: q starts_slash_def)
  have free: "CHR ''/'' \<notin> set p" if "p \<in> set ps" for p
    using that set_trim[of "split_on (CHR ''/'') r"] by (auto simp: ps_def dest: split_on_pieces)
  have "list_all (\<lambda>p. CHR ''/'' \<notin> set p) (trim_pieces (butlast ps))"
    using set_trim[of "butlast ps"] free by (auto simp: list_all_iff dest: in_set_butlastD)
  then have "path_components q = RootDir # map component_of (filter named_piece (butlast ps))"
    by (simp only: q components_join_pieces filter_trim)
  moreover have "path_components s = RootDir # map component_of (filter named_piece ps)"
    unfolding ps_def filter_trim by (simp add: path_components_def s starts_slash_def)
  moreover have "filter named_piece ps = filter named_piece (butlast ps) @ [List.last ps]"
  proof -
    have "filter named_piece (butlast ps @ [List.last ps]) = filter named_piece (butlast ps) @ [List.last ps]"
      unfolding filter_append using ne last_trim[of "split_on (CHR ''/'') r"] by (simp add: ps_def)
    then show ?thesis by (simp only: append_butlast_last_id[OF ne])
  qed
  ultimately show "\<exists>p. path_components s = path_components q @ [component_of p] \<and> CHR ''/'' \<notin> set p \<and> named_piece p"
    using ne free[OF last_in_set[OF ne]] last_trim[of "split_on (CHR ''/'') r"]
    by (intro exI[of _ "List.last ps"]) (simp add: ps_def)
qed

lemma path_file_name_plain:
  assumes "path_file_name s = Some n"
  shows "plain_piece n" and "CHR ''/'' \<notin> set n" and "path_components s = butlast (path_components s) @ [Normal n]"
proof -
  obtain cs where cs: "path_components s = cs @ [Normal n]"
    using assms by (cases "path_components s" rule: rev_cases) (auto simp: path_file_name_def split: path_component.splits)
  then show "path_components s = butlast (path_components s) @ [Normal n]" by simp
  have "Normal n \<in> set (path_components s)" by (simp add: cs)
  then have "n \<in> set (split_on (CHR ''/'') s)" "named_piece n" "n \<noteq> ''..''"
    by (auto simp: path_components_def Let_def component_of_def split: if_splits)
  then show "plain_piece n" "CHR ''/'' \<notin> set n" by (auto simp: plain_piece_def dest: split_on_pieces)
qed

lemma path_parent_exists:
  assumes "starts_slash s" and "path_file_name s = Some n"
  shows "\<exists>q. path_parent s = Some q"
proof -
  obtain r where s: "s = CHR ''/'' # r" using assms(1) by (cases s) (auto simp: starts_slash_def)
  have "path_components s = RootDir # map component_of (filter named_piece (trim_pieces (split_on (CHR ''/'') r)))"
    unfolding filter_trim by (simp add: path_components_def s starts_slash_def)
  with assms(2) have "trim_pieces (split_on (CHR ''/'') r) \<noteq> []" by (auto simp: path_file_name_def)
  then show ?thesis by (auto simp: path_parent_def s starts_slash_def split: list.split)
qed

end
