(* ===== verification/Export_Policy.thy ===== *)
theory Export_Policy
  imports Paths Wav_Math
begin

text \<open>
  The export policy (\<open>src/export_policy.rs\<close>): the patterns that name the exported files,
  their rendering, and the checks that keep the rendered paths inside the output directory.
  The writer that \<open>render_output_to\<close> fills is a
  parameter: a write returns the new output or fails.
\<close>

section \<open>Layouts and patterns\<close>

datatype export_command = Recall | Dump

datatype pattern_token = Timestamp | Channel | SampleRate | StartFrame | EndFrame | Part | PartSuffix | Profile

datatype pattern_segment = Literal string | Token pattern_token | ZeroPaddedToken pattern_token nat

type_synonym validated_pattern = "pattern_segment list"

datatype resolved_layout = CommandDefault | FlatDetailed | TimestampDirectory | Custom validated_pattern validated_pattern

datatype publication_strategy = FileSet | AtomicDirectory

datatype effective_layout = EffFlatDetailed | EffTimestampDirectory | EffCustom

fun effective_layout_of :: "resolved_layout \<Rightarrow> export_command \<Rightarrow> effective_layout" where
  "effective_layout_of CommandDefault Recall = EffFlatDetailed"
| "effective_layout_of CommandDefault Dump = EffTimestampDirectory"
| "effective_layout_of FlatDetailed _ = EffFlatDetailed"
| "effective_layout_of TimestampDirectory _ = EffTimestampDirectory"
| "effective_layout_of (Custom _ _) _ = EffCustom"

definition publication_strategy_of :: "resolved_layout \<Rightarrow> export_command \<Rightarrow> publication_strategy" where
  "publication_strategy_of layout command =
     (case effective_layout_of layout command of EffTimestampDirectory \<Rightarrow> AtomicDirectory | _ \<Rightarrow> FileSet)"

definition token_parse :: "string \<Rightarrow> pattern_token option" where
  "token_parse value =
     (if value = ''timestamp'' then Some Timestamp
      else if value = ''channel'' then Some Channel
      else if value = ''sampleRate'' then Some SampleRate
      else if value = ''startFrame'' then Some StartFrame
      else if value = ''endFrame'' then Some EndFrame
      else if value = ''part'' then Some Part
      else if value = ''partSuffix'' then Some PartSuffix
      else if value = ''profile'' then Some Profile
      else None)"

definition is_brace :: "char \<Rightarrow> bool" where
  "is_brace c \<longleftrightarrow> c = CHR ''{'' \<or> c = CHR ''}''"

text \<open>\<open>ValidatedPattern::parse\<close>, on what is left of the pattern behind the cursor.\<close>

function pattern_parse :: "string \<Rightarrow> validated_pattern result" where
  "pattern_parse pattern =
     (if pattern = [] then Inr []
      else
        let literal = takeWhile (\<lambda>c. \<not> is_brace c) pattern;
            segments = (if literal = [] then [] else [Literal literal])
        in
        (case dropWhile (\<lambda>c. \<not> is_brace c) pattern of
           [] \<Rightarrow> Inr [Literal pattern]
         | brace # token_remainder \<Rightarrow>
             if brace = CHR ''}'' then Inl (Validation ''unmatched closing brace in export pattern'')
             else
               let token_name = takeWhile (\<lambda>c. c \<noteq> CHR ''}'') token_remainder in
               (case dropWhile (\<lambda>c. c \<noteq> CHR ''}'') token_remainder of
                  [] \<Rightarrow> Inl (Validation ''unmatched opening brace in export pattern'')
                | _ # rest \<Rightarrow>
                    if str_contains (CHR ''{'') token_name
                    then Inl (Validation ''nested braces are not allowed in export patterns'')
                    else (case token_parse token_name of
                            None \<Rightarrow> Inl (Validation (''unknown or empty export pattern token {'' @ token_name @ ''}''))
                          | Some token \<Rightarrow> bindR (pattern_parse rest) (\<lambda>later. Inr (segments @ Token token # later))))))"
  by pat_completeness auto
termination
proof (relation "measure length", goal_cases)
  case (2 pattern x xa x21 x22 xb x21a x22a x2)
  have "length (x21 # x22) \<le> length pattern" using 2(4) length_dropWhile_le[of "\<lambda>c. \<not> is_brace c" pattern] by simp
  moreover have "length (x21a # x22a) \<le> length x22" using 2(7) length_dropWhile_le[of "\<lambda>c. c \<noteq> CHR ''}''" x22] by simp
  ultimately show ?case by simp
qed simp

declare pattern_parse.simps [simp del]

definition contains_token :: "validated_pattern \<Rightarrow> pattern_token \<Rightarrow> bool" where
  "contains_token pattern wanted =
     list_ex (\<lambda>segment. case segment of Literal _ \<Rightarrow> False | Token t \<Rightarrow> t = wanted | ZeroPaddedToken t _ \<Rightarrow> t = wanted) pattern"

definition with_zero_padding :: "(pattern_token \<times> nat) list \<Rightarrow> validated_pattern \<Rightarrow> validated_pattern" where
  "with_zero_padding widths pattern =
     map (\<lambda>segment. case segment of
            Token token \<Rightarrow> (case map_of widths token of None \<Rightarrow> segment | Some width \<Rightarrow> ZeroPaddedToken token width)
          | _ \<Rightarrow> segment) pattern"

record render_context =
  rx_command :: export_command
  rx_profile :: string
  rx_timestamp :: string
  rx_sample_rate :: nat
  rx_export_start_frame :: nat
  rx_export_end_frame :: nat
  rx_split_when_over_bytes :: nat
  rx_maximum_path_bytes :: nat

definition token_capacity :: "render_context \<Rightarrow> string \<Rightarrow> pattern_token \<Rightarrow> nat" where
  "token_capacity context channel token =
     (case token of
        Timestamp \<Rightarrow> length (rx_timestamp context)
      | Channel \<Rightarrow> length channel
      | SampleRate \<Rightarrow> 10
      | StartFrame \<Rightarrow> 20 | EndFrame \<Rightarrow> 20 | Part \<Rightarrow> 20
      | PartSuffix \<Rightarrow> 25
      | Profile \<Rightarrow> length (rx_profile context))"

definition segment_capacity :: "render_context \<Rightarrow> string \<Rightarrow> pattern_segment \<Rightarrow> nat" where
  "segment_capacity context channel segment =
     (case segment of
        Literal value \<Rightarrow> length value
      | Token token \<Rightarrow> token_capacity context channel token
      | ZeroPaddedToken token width \<Rightarrow> max (token_capacity context channel token) width)"

definition maximum_rendered_bytes :: "validated_pattern \<Rightarrow> render_context \<Rightarrow> string \<Rightarrow> nat result" where
  "maximum_rendered_bytes pattern context channel =
     try_fold (\<lambda>len segment. ok_or (checked_add64 len (segment_capacity context channel segment))
                 (Validation ''export pattern capacity overflow'')) 0 pattern"

section \<open>Rendering\<close>

text \<open>What a segment writes, with the message of the error when the writer fails.\<close>

definition segment_text ::
    "render_context \<Rightarrow> string \<Rightarrow> nat \<Rightarrow> string \<Rightarrow> nat \<Rightarrow> nat \<Rightarrow> pattern_segment \<Rightarrow> (string \<times> string) result" where
  "segment_text context channel part part_suffix start_frame end_frame segment =
     (case segment of
        Literal value \<Rightarrow> Inr (value, ''could not render literal'')
      | Token Timestamp \<Rightarrow> Inr (rx_timestamp context, ''could not render timestamp token'')
      | Token Channel \<Rightarrow> Inr (channel, ''could not render channel token'')
      | Token SampleRate \<Rightarrow> Inr (show_nat (rx_sample_rate context), ''could not render sample-rate token'')
      | Token StartFrame \<Rightarrow> Inr (show_nat start_frame, ''could not render start-frame token'')
      | Token EndFrame \<Rightarrow> Inr (show_nat end_frame, ''could not render end-frame token'')
      | Token Part \<Rightarrow> Inr (show_nat part, ''could not render part token'')
      | Token PartSuffix \<Rightarrow> Inr (part_suffix, ''could not render part suffix token'')
      | Token Profile \<Rightarrow> Inr (rx_profile context, ''could not render profile token'')
      | ZeroPaddedToken StartFrame width \<Rightarrow> Inr (show_padded width start_frame, ''could not render start-frame token'')
      | ZeroPaddedToken EndFrame width \<Rightarrow> Inr (show_padded width end_frame, ''could not render end-frame token'')
      | ZeroPaddedToken Part width \<Rightarrow> Inr (show_padded width part, ''could not render part token'')
      | ZeroPaddedToken _ _ \<Rightarrow> Inl (Validation ''unsupported zero-padded export token''))"

definition render_output_to ::
    "('o \<Rightarrow> string \<Rightarrow> 'o option) \<Rightarrow> validated_pattern \<Rightarrow> render_context \<Rightarrow> string \<Rightarrow> nat \<Rightarrow> string \<Rightarrow> nat \<Rightarrow> nat \<Rightarrow> 'o \<Rightarrow> 'o result" where
  "render_output_to write_str pattern context channel part part_suffix start_frame end_frame output =
     try_fold (\<lambda>out segment.
         bindR (segment_text context channel part part_suffix start_frame end_frame segment) (\<lambda>(text, message).
           ok_or (write_str out text) (Validation message))) output pattern"

text \<open>A \<open>String\<close> takes every write.\<close>

definition string_write :: "string \<Rightarrow> string \<Rightarrow> string option" where
  "string_write out text = Some (out @ text)"

definition render_output_into ::
    "validated_pattern \<Rightarrow> render_context \<Rightarrow> string \<Rightarrow> nat \<Rightarrow> string \<Rightarrow> nat \<Rightarrow> nat \<Rightarrow> string result" where
  "render_output_into pattern context channel part part_suffix start_frame end_frame =
     render_output_to string_write pattern context channel part part_suffix start_frame end_frame []"

end
