(* ===== verification/Export_Paths.thy ===== *)
theory Export_Paths
  imports Export_Policy Activity_Detector
begin

text \<open>
  The resolved export policy and the paths it plans (\<open>src/export_policy.rs\<close>): the checks on
  the output directory, on rendered directories and on file names, the worst-case length of a
  path, and \<open>preview_export_paths\<close>, which lists every file an export will write.
  \<open>activity_policy\<close> is the record of the activity detector.
\<close>

section \<open>Lexical checks\<close>

definition path_bytes :: "string \<Rightarrow> nat result" where
  "path_bytes path = ok_or (checked_add64 (length path) 0) (Validation ''rendered export path length overflow'')"

definition validate_output_dir :: "string \<Rightarrow> unit result" where
  "validate_output_dir path =
     (if \<not> starts_slash path then Inl (Validation ''export outputDir must be absolute'')
      else if str_contains nul_char path
            \<or> double_slash path
            \<or> (1 < length path \<and> ends_slash path)
            \<or> list_ex (\<lambda>component. component = ''.'' \<or> component = ''..'') (split_on (CHR ''/'') path)
      then Inl (Validation ''export outputDir must be lexically canonical'')
      else if list_ex (\<lambda>component. component = CurDir \<or> component = ParentDir) (path_components path)
      then Inl (Validation ''export outputDir must be lexically canonical'')
      else Inr ())"

definition validate_rendered_directory :: "string \<Rightarrow> unit result" where
  "validate_rendered_directory directory =
     (if directory = [] then Inr ()
      else if str_contains nul_char directory
            \<or> str_contains (CHR 0x5C) directory
            \<or> starts_slash directory
            \<or> ends_slash directory
            \<or> double_slash directory
      then Inl (Validation ''rendered export directory is not a safe relative path'')
      else if list_ex (\<lambda>component. component = [] \<or> component = ''.'' \<or> component = ''..'')
                (split_on (CHR ''/'') directory)
      then Inl (Validation ''rendered export directory contains an unsafe component'')
      else Inr ())"

text \<open>The test that \<open>validate_filename\<close> and \<open>validate_component_value\<close> both spell out.\<close>

definition unsafe_component :: "string \<Rightarrow> bool" where
  "unsafe_component value \<longleftrightarrow>
     value = [] \<or> value = ''.'' \<or> value = ''..'' \<or> str_contains (CHR ''/'') value
     \<or> str_contains (CHR 0x5C) value \<or> str_contains nul_char value"

definition validate_filename :: "string \<Rightarrow> unit result" where
  "validate_filename filename =
     ensure (\<not> unsafe_component filename)
       (Validation ''rendered export filename must be one nonempty normal component'')"

definition validate_component_value :: "string \<Rightarrow> string \<Rightarrow> unit result" where
  "validate_component_value value label =
     ensure (\<not> unsafe_component value) (Validation (''unsafe export '' @ label @ '' value''))"

definition validate_final_path :: "string \<Rightarrow> string \<Rightarrow> nat \<Rightarrow> unit result" where
  "validate_final_path output_dir final_path maximum_bytes =
     (if \<not> path_starts_with final_path output_dir then Inl (Validation ''rendered export path escapes outputDir'')
      else bindR (path_bytes final_path) (\<lambda>len.
        ensure (len \<le> maximum_bytes)
          (Validation (''rendered export path requires '' @ show_nat len
             @ '' bytes, exceeding maximumPathBytes '' @ show_nat maximum_bytes))))"

definition validate_rendered_output_path :: "string \<Rightarrow> string \<Rightarrow> string \<Rightarrow> string \<Rightarrow> nat \<Rightarrow> unit result" where
  "validate_rendered_output_path output_dir directory filename final_path maximum_bytes =
     bindR (validate_rendered_directory directory) (\<lambda>_.
     bindR (validate_filename filename) (\<lambda>_.
     validate_final_path output_dir final_path maximum_bytes))"

definition validate_context_values :: "validated_pattern \<Rightarrow> validated_pattern \<Rightarrow> render_context \<Rightarrow> unit result" where
  "validate_context_values directory_pattern filename_pattern context =
     try_fold (\<lambda>_ (token, value, label).
         if contains_token directory_pattern token \<or> contains_token filename_pattern token
         then validate_component_value value label else Inr ()) ()
       [(Timestamp, rx_timestamp context, ''timestamp''), (Profile, rx_profile context, ''profile'')]"

definition validate_pattern_capacity ::
    "validated_pattern \<Rightarrow> validated_pattern \<Rightarrow> string \<Rightarrow> render_context \<Rightarrow> string \<Rightarrow> unit result" where
  "validate_pattern_capacity directory_pattern filename_pattern output_dir context channel =
     bindR (maximum_rendered_bytes directory_pattern context channel) (\<lambda>directory_bytes.
     bindR (maximum_rendered_bytes filename_pattern context channel) (\<lambda>filename_bytes.
       let root_separator = (if path_components output_dir \<noteq> path_components ''/'' then 1 else 0);
           directory_separator = (if directory_bytes \<noteq> 0 then 1 else 0)
       in
       bindR (path_bytes output_dir) (\<lambda>bytes.
       bindR (ok_or
           (Option.bind (checked_add64 bytes root_separator) (\<lambda>value.
            Option.bind (checked_add64 value directory_bytes) (\<lambda>value.
            Option.bind (checked_add64 value directory_separator) (\<lambda>value.
            checked_add64 value filename_bytes))))
           (Validation ''maximum rendered path capacity overflow'')) (\<lambda>maximum_bytes.
         ensure (maximum_bytes \<le> rx_maximum_path_bytes context)
           (Validation (''worst-case rendered relative path requires '' @ show_nat maximum_bytes
              @ '' bytes, exceeding maximumPathBytes '' @ show_nat (rx_maximum_path_bytes context)))))))"

section \<open>The resolved policy\<close>

record export_policy =
  xp_output_dir :: string
  xp_use_system_temp :: bool
  xp_layout :: resolved_layout
  xp_activity :: activity_policy
  xp_recall_directory :: validated_pattern
  xp_recall_filename :: validated_pattern
  xp_dump_directory :: validated_pattern
  xp_dump_filename :: validated_pattern

definition patterns_for_layout :: "resolved_layout \<Rightarrow> export_command \<Rightarrow> (validated_pattern \<times> validated_pattern) result" where
  "patterns_for_layout layout command =
     (case effective_layout_of layout command of
        EffFlatDetailed \<Rightarrow>
          bindR (pattern_parse '''') (\<lambda>directory.
          bindR (pattern_parse ''lamb-{timestamp}-{channel}-{sampleRate}Hz-{startFrame}-{endFrame}-part{part}.wav'') (\<lambda>filename.
          Inr (directory, with_zero_padding [(StartFrame, 9), (EndFrame, 9), (Part, 3)] filename)))
      | EffTimestampDirectory \<Rightarrow>
          bindR (pattern_parse ''{timestamp}'') (\<lambda>directory.
          bindR (pattern_parse ''{channel}{partSuffix}.wav'') (\<lambda>filename.
          Inr (directory, filename)))
      | EffCustom \<Rightarrow>
          (case layout of
             Custom directory_pattern filename_pattern \<Rightarrow> Inr (directory_pattern, filename_pattern)
           | _ \<Rightarrow> Inl (Validation ''custom layout resolution is inconsistent'')))"

definition policy_new :: "string \<Rightarrow> resolved_layout \<Rightarrow> activity_policy \<Rightarrow> export_policy result" where
  "policy_new output_dir layout activity =
     bindR (validate_output_dir output_dir) (\<lambda>_.
     bindR (patterns_for_layout layout Recall) (\<lambda>(recall_directory, recall_filename).
     bindR (patterns_for_layout layout Dump) (\<lambda>(dump_directory, dump_filename).
     Inr \<lparr>xp_output_dir = output_dir, xp_use_system_temp = False, xp_layout = layout, xp_activity = activity,
          xp_recall_directory = recall_directory, xp_recall_filename = recall_filename,
          xp_dump_directory = dump_directory, xp_dump_filename = dump_filename\<rparr>)))"

definition with_system_temp :: "bool \<Rightarrow> export_policy \<Rightarrow> export_policy" where
  "with_system_temp use_system_temp policy = policy\<lparr>xp_use_system_temp := use_system_temp\<rparr>"

definition staging_root :: "export_policy \<Rightarrow> string" where
  "staging_root policy =
     (if xp_use_system_temp policy then ''/tmp/LAMB/staging''
      else path_join (case path_parent (xp_output_dir policy) of None \<Rightarrow> xp_output_dir policy | Some parent \<Rightarrow> parent) ''tmp'')"

definition policy_patterns :: "export_policy \<Rightarrow> export_command \<Rightarrow> validated_pattern \<times> validated_pattern" where
  "policy_patterns policy command =
     (case command of
        Recall \<Rightarrow> (xp_recall_directory policy, xp_recall_filename policy)
      | Dump \<Rightarrow> (xp_dump_directory policy, xp_dump_filename policy))"

definition render_policy_output_into ::
    "('d \<Rightarrow> string \<Rightarrow> 'd option) \<Rightarrow> ('f \<Rightarrow> string \<Rightarrow> 'f option) \<Rightarrow> export_policy \<Rightarrow> render_context \<Rightarrow> string
     \<Rightarrow> nat \<Rightarrow> string \<Rightarrow> nat \<Rightarrow> nat \<Rightarrow> 'd \<Rightarrow> 'f \<Rightarrow> ('d \<times> 'f) result" where
  "render_policy_output_into write_dir write_file policy context channel part part_suffix start_frame end_frame directory filename =
     (case policy_patterns policy (rx_command context) of (directory_pattern, filename_pattern) \<Rightarrow>
        bindR (validate_context_values directory_pattern filename_pattern context) (\<lambda>_.
        bindR (validate_component_value channel ''channel'') (\<lambda>_.
        bindR (validate_pattern_capacity directory_pattern filename_pattern (xp_output_dir policy) context channel) (\<lambda>_.
        bindR (render_output_to write_dir directory_pattern context channel part part_suffix start_frame end_frame directory) (\<lambda>directory'.
        bindR (render_output_to write_file filename_pattern context channel part part_suffix start_frame end_frame filename) (\<lambda>filename'.
        Inr (directory', filename')))))))"

section \<open>Planning the files of an export\<close>

record rendered_output =
  ro_channel_index :: nat
  ro_channel :: string
  ro_part :: nat
  ro_part_count :: nat
  ro_part_suffix :: string
  ro_start_frame :: nat
  ro_end_frame :: nat
  ro_relative_directory :: string
  ro_filename :: string
  ro_final_path :: string

text \<open>
  The loops carry the outputs and the set of final paths inserted so far.  Two \<open>PathBuf\<close>s
  are the same element of a \<open>HashSet\<close> when their components agree.
\<close>

type_synonym preview_state = "rendered_output list \<times> path_component list set"

definition part_suffix_of :: "nat \<Rightarrow> nat \<Rightarrow> string" where
  "part_suffix_of part_count part = (if part_count = 1 then [] else ''-part'' @ show_padded 3 part)"

definition preview_part ::
    "export_policy \<Rightarrow> render_context \<Rightarrow> nat \<Rightarrow> nat \<Rightarrow> string \<Rightarrow> preview_state \<Rightarrow> nat \<times> wav_part \<Rightarrow> preview_state result" where
  "preview_part policy context part_count channel_index channel =
     (\<lambda>(outputs, final_paths) (zero_based_part, wav_part).
       case policy_patterns policy (rx_command context) of (directory_pattern, filename_pattern) \<Rightarrow>
       bindR (ok_or (checked_add64 zero_based_part 1) (Validation ''one-based split part overflow'')) (\<lambda>part.
       bindR (ok_or (checked_add64 (rx_export_start_frame context) (part_start wav_part))
               (Validation ''absolute part start frame overflow'')) (\<lambda>start_frame.
       bindR (ok_or (checked_add64 start_frame (part_frames wav_part))
               (Validation ''absolute part end frame overflow'')) (\<lambda>end_frame.
       let part_suffix = part_suffix_of part_count part in
       bindR (render_output_into directory_pattern context channel part part_suffix start_frame end_frame) (\<lambda>rendered_directory.
       bindR (render_output_into filename_pattern context channel part part_suffix start_frame end_frame) (\<lambda>filename.
       bindR (validate_rendered_directory rendered_directory) (\<lambda>_.
       bindR (validate_filename filename) (\<lambda>_.
       let final_path = path_join (path_join (xp_output_dir policy) rendered_directory) filename in
       bindR (validate_final_path (xp_output_dir policy) final_path (rx_maximum_path_bytes context)) (\<lambda>_.
       if path_components final_path \<in> final_paths
       then Inl (Validation (''duplicate rendered export path: '' @ final_path))
       else Inr (outputs @ [\<lparr>ro_channel_index = channel_index, ro_channel = channel, ro_part = part,
                              ro_part_count = part_count, ro_part_suffix = part_suffix,
                              ro_start_frame = start_frame, ro_end_frame = end_frame,
                              ro_relative_directory = rendered_directory, ro_filename = filename,
                              ro_final_path = final_path\<rparr>],
                 insert (path_components final_path) final_paths))))))))))"

definition preview_channel ::
    "export_policy \<Rightarrow> render_context \<Rightarrow> wav_part list \<Rightarrow> preview_state \<Rightarrow> nat \<Rightarrow> preview_state result" where
  "preview_channel policy context parts st channel_index =
     (case policy_patterns policy (rx_command context) of (directory_pattern, filename_pattern) \<Rightarrow>
      if length (ap_channels (xp_activity policy)) \<le> channel_index
      then Inl (Validation (''retained channel index '' @ show_nat channel_index @ '' is invalid''))
      else
        let channel = cp_name (ap_channels (xp_activity policy) ! channel_index) in
        bindR (validate_component_value channel ''channel'') (\<lambda>_.
        bindR (validate_pattern_capacity directory_pattern filename_pattern (xp_output_dir policy) context channel) (\<lambda>_.
        try_fold (preview_part policy context (length parts) channel_index channel) st (enumerate 0 parts))))"

definition path_conflict :: "rendered_output \<Rightarrow> rendered_output \<Rightarrow> bool" where
  "path_conflict output other \<longleftrightarrow>
     path_starts_with (ro_final_path output) (ro_final_path other)
     \<or> path_starts_with (ro_final_path other) (ro_final_path output)"

fun validate_no_file_parent_conflicts :: "rendered_output list \<Rightarrow> unit result" where
  "validate_no_file_parent_conflicts [] = Inr ()"
| "validate_no_file_parent_conflicts (output # others) =
     (case find (path_conflict output) others of
        Some other \<Rightarrow> Inl (Validation (''rendered export file/parent path conflict between ''
                         @ ro_final_path output @ '' and '' @ ro_final_path other))
      | None \<Rightarrow> validate_no_file_parent_conflicts others)"

definition preview_export_paths :: "export_policy \<Rightarrow> render_context \<Rightarrow> nat list \<Rightarrow> rendered_output list result" where
  "preview_export_paths policy context retained_channels =
     bindR (validate_output_dir (xp_output_dir policy)) (\<lambda>_.
     if rx_export_end_frame context < rx_export_start_frame context
     then Inl (Validation ''export end frame precedes export start frame'')
     else if rx_maximum_path_bytes context = 0 then Inl (Validation ''maximum path bytes must be nonzero'')
     else case policy_patterns policy (rx_command context) of (directory_pattern, filename_pattern) \<Rightarrow>
     bindR (validate_context_values directory_pattern filename_pattern context) (\<lambda>_.
     let total_frames = rx_export_end_frame context - rx_export_start_frame context in
     bindR (wav_parts_for_channel total_frames 3 (rx_split_when_over_bytes context)) (\<lambda>parts.
     bindR (ok_or (checked_mul64 (length retained_channels) (length parts))
             (Validation ''rendered output count overflow'')) (\<lambda>_.
     bindR (try_fold (preview_channel policy context parts) ([], {}) retained_channels) (\<lambda>(outputs, _).
     bindR (validate_no_file_parent_conflicts outputs) (\<lambda>_. Inr outputs))))))"

end
