(* ===== verification/Export_Theorems.thy ===== *)
theory Export_Theorems
  imports Export_Paths
begin

text \<open>
  Properties of the export policy: parsing a pattern loses nothing, a rendered path is never
  longer than the worst case that was checked, and the planned files stay under the output
  directory, never collide and together hold every exported frame.
\<close>

section \<open>Parsing\<close>

fun token_name :: "pattern_token \<Rightarrow> string" where
  "token_name Timestamp = ''timestamp''"
| "token_name Channel = ''channel''"
| "token_name SampleRate = ''sampleRate''"
| "token_name StartFrame = ''startFrame''"
| "token_name EndFrame = ''endFrame''"
| "token_name Part = ''part''"
| "token_name PartSuffix = ''partSuffix''"
| "token_name Profile = ''profile''"

definition braced :: "pattern_token \<Rightarrow> string" where
  "braced t = CHR ''{'' # token_name t @ ''}''"

fun segment_source :: "pattern_segment \<Rightarrow> string" where
  "segment_source (Literal v) = v"
| "segment_source (Token t) = braced t"
| "segment_source (ZeroPaddedToken t w) = braced t"

definition pattern_source :: "validated_pattern \<Rightarrow> string" where
  "pattern_source segments = concat (map segment_source segments)"

text \<open>The segment lists a parse can return: maximal literals between tokens, no padding.\<close>

fun literal_ok :: "string \<Rightarrow> bool" where
  "literal_ok v \<longleftrightarrow> v \<noteq> [] \<and> list_all (\<lambda>c. \<not> is_brace c) v"

fun parsed_form :: "validated_pattern \<Rightarrow> bool" where
  "parsed_form [] = True"
| "parsed_form (Token t # rest) = parsed_form rest"
| "parsed_form [Literal v] = literal_ok v"
| "parsed_form (Literal v # Token t # rest) = (literal_ok v \<and> parsed_form rest)"
| "parsed_form _ = False"

lemma token_parse_Some_iff: "token_parse s = Some t \<longleftrightarrow> s = token_name t"
  by (cases t) (auto simp: token_parse_def)

lemma token_name_no_brace: "list_all (\<lambda>c. \<not> is_brace c) (token_name t)"
  by (cases t) (simp_all add: is_brace_def)

lemma pattern_source_simps [simp]:
  "pattern_source [] = []"
  "pattern_source (s # ss) = segment_source s @ pattern_source ss"
  "pattern_source (ss @ ts) = pattern_source ss @ pattern_source ts"
  by (simp_all add: pattern_source_def)

lemma takeWhile_until:
  "list_all P xs \<Longrightarrow> \<not> P y \<Longrightarrow> takeWhile P (xs @ y # ys) = xs"
  "list_all P xs \<Longrightarrow> \<not> P y \<Longrightarrow> dropWhile P (xs @ y # ys) = y # ys"
  by (induction xs) auto

lemma pattern_parse_nil: "pattern_parse [] = Inr []"
  by (simp add: pattern_parse.simps)

lemma pattern_parse_literal:
  assumes "literal_ok v"
  shows "pattern_parse v = Inr [Literal v]"
proof -
  have "dropWhile (\<lambda>c. \<not> is_brace c) v = []" using assms by (simp add: list_all_iff)
  with assms show ?thesis by (subst pattern_parse.simps) (simp add: Let_def del: dropWhile_eq_Nil_conv)
qed

lemma pattern_parse_token:
  assumes v: "list_all (\<lambda>c. \<not> is_brace c) v"
  shows "pattern_parse (v @ braced t @ rest) =
         bindR (pattern_parse rest) (\<lambda>later. Inr ((if v = [] then [] else [Literal v]) @ Token t # later))"
proof -
  have name: "list_all (\<lambda>c. c \<noteq> CHR ''}'') (token_name t)" "CHR ''{'' \<notin> set (token_name t)"
    by (cases t; simp)+
  have open_brace: "\<not> (\<not> is_brace (CHR ''{''))" by (simp add: is_brace_def)
  have src: "v @ braced t @ rest = v @ CHR ''{'' # (token_name t @ CHR ''}'' # rest)" by (simp add: braced_def)
  note scan = takeWhile_until[of "\<lambda>c. \<not> is_brace c", OF v open_brace]
    takeWhile_until[of "\<lambda>c. c \<noteq> CHR ''}''", OF name(1)]
  have "token_parse (token_name t) = Some t" by (simp add: token_parse_Some_iff)
  with name(2) show ?thesis
    unfolding src by (subst pattern_parse.simps) (simp add: scan Let_def str_contains_def)
qed

lemma pattern_parse_source: "parsed_form segs \<Longrightarrow> pattern_parse (pattern_source segs) = Inr segs"
proof (induction segs rule: parsed_form.induct)
  case 1
  then show ?case by (simp add: pattern_parse_nil)
next
  case (2 t rest)
  then show ?case using pattern_parse_token[of "[]" t "pattern_source rest"] by simp
next
  case (3 v)
  then show ?case by (simp add: pattern_parse_literal del: literal_ok.simps)
next
  case (4 v t rest)
  then show ?case using pattern_parse_token[of v t "pattern_source rest"] by simp
qed simp_all

lemma parsed_form_token: "parsed_form later \<Longrightarrow> v = [] \<or> literal_ok v \<Longrightarrow>
  parsed_form ((if v = [] then [] else [Literal v]) @ Token t # later)"
  by auto

lemma dropWhile_eq_ConsD:
  "dropWhile P xs = y # ys \<Longrightarrow> \<not> P y \<and> xs = takeWhile P xs @ y # ys \<and> list_all P (takeWhile P xs)"
  using takeWhile_dropWhile_id[of P xs] hd_dropWhile[of P xs] set_takeWhileD[of _ P xs]
  by (auto simp: list_all_iff)

lemma pattern_parse_braceD:
  assumes parse: "pattern_parse p = Inr segs" and brace: "dropWhile (\<lambda>c. \<not> is_brace c) p = b # r"
  obtains rest t later where "b = CHR ''{''" "dropWhile (\<lambda>c. c \<noteq> CHR ''}'') r = CHR ''}'' # rest"
    "\<not> str_contains (CHR ''{'') (takeWhile (\<lambda>c. c \<noteq> CHR ''}'') r)"
    "token_parse (takeWhile (\<lambda>c. c \<noteq> CHR ''}'') r) = Some t" "pattern_parse rest = Inr later"
    "segs = (if takeWhile (\<lambda>c. \<not> is_brace c) p = [] then [] else [Literal (takeWhile (\<lambda>c. \<not> is_brace c) p)])
            @ Token t # later"
proof (cases "dropWhile (\<lambda>c. c \<noteq> CHR ''}'') r")
  case Nil
  with assms show ?thesis
    by (subst (asm) pattern_parse.simps) (simp add: Let_def del: dropWhile_eq_Nil_conv split: if_splits)
next
  case (Cons x rest)
  have x: "x = CHR ''}''" using dropWhile_eq_ConsD[OF Cons] by simp
  have b: "b = CHR ''{'' \<or> b = CHR ''}''" using dropWhile_eq_ConsD[OF brace] by (simp add: is_brace_def)
  from assms Cons show ?thesis
    by (subst (asm) pattern_parse.simps)
      (use b x that in \<open>simp add: Let_def bindR_Inr_iff split: if_split_asm option.split_asm; blast\<close>)
qed

lemma pattern_parse_InrD: "pattern_parse p = Inr segs \<Longrightarrow> parsed_form segs \<and> pattern_source segs = p"
proof (induction "length p" arbitrary: p segs rule: less_induct)
  case less
  let ?nb = "\<lambda>c. \<not> is_brace c"
  show ?case
  proof (cases "dropWhile ?nb p")
    case Nil
    then have ok: "list_all ?nb p" by (simp add: list_all_iff)
    then have "pattern_parse p = Inr (if p = [] then [] else [Literal p])"
      by (simp add: pattern_parse_nil pattern_parse_literal)
    with less(2) ok show ?thesis by (auto split: if_splits)
  next
    case (Cons b r)
    note p = dropWhile_eq_ConsD[OF Cons]
    from less(2) Cons show ?thesis
    proof (rule pattern_parse_braceD)
      fix rest t later
      assume op: "b = CHR ''{''" and close: "dropWhile (\<lambda>c. c \<noteq> CHR ''}'') r = CHR ''}'' # rest"
        and tok: "token_parse (takeWhile (\<lambda>c. c \<noteq> CHR ''}'') r) = Some t" and rec: "pattern_parse rest = Inr later"
        and segs: "segs = (if takeWhile ?nb p = [] then [] else [Literal (takeWhile ?nb p)]) @ Token t # later"
      note r = dropWhile_eq_ConsD[OF close]
      have src: "p = takeWhile ?nb p @ braced t @ rest"
        using p r tok op by (auto simp: braced_def token_parse_Some_iff)
      then have "length rest < length p" by (metis braced_def length_append length_Cons less_add_Suc2 add.assoc add_Suc_right append_Cons)
      from less(1)[OF this rec] have ih: "parsed_form later" "pattern_source later = rest" by simp_all
      have "pattern_source segs = takeWhile ?nb p @ braced t @ rest" using segs ih by simp
      moreover have "parsed_form segs"
        unfolding segs using ih p by (intro parsed_form_token) auto
      ultimately show ?thesis using src by simp
    qed
  qed
qed

text \<open>
  (C17) Parsing an export pattern is lossless and complete.  A pattern parses to a list of
  segments exactly when that list has the shape the parser produces (nonempty brace-free
  literals, never two in a row, and known tokens) and printing the list gives the pattern back.
  So the parser accepts precisely the printed patterns, and every other pattern is an error.
\<close>

theorem pattern_parse_roundtrip:
  "pattern_parse pattern = Inr segments \<longleftrightarrow> parsed_form segments \<and> pattern_source segments = pattern"
  using pattern_parse_source pattern_parse_InrD by blast

section \<open>Rendered lengths\<close>

definition pattern_capacity :: "validated_pattern \<Rightarrow> render_context \<Rightarrow> string \<Rightarrow> nat" where
  "pattern_capacity pattern context channel = (\<Sum>segment\<leftarrow>pattern. segment_capacity context channel segment)"

lemma maximum_rendered_bytes_Inr:
  assumes "maximum_rendered_bytes pattern context channel = Inr n"
  shows "n = pattern_capacity pattern context channel"
proof -
  have "try_fold (\<lambda>len segment. ok_or (checked_add64 len (segment_capacity context channel segment))
          (Validation ''export pattern capacity overflow'')) k pattern = Inr n \<Longrightarrow>
        n = k + (\<Sum>segment\<leftarrow>pattern. segment_capacity context channel segment)" for k
    by (induction pattern arbitrary: k) (auto simp: bindR_Inr_iff, fastforce)
  from this[of 0] assms show ?thesis
    by (simp add: maximum_rendered_bytes_def pattern_capacity_def)
qed

text \<open>The values a render receives have the widths the capacities allow for.\<close>

definition render_args_ok :: "render_context \<Rightarrow> nat \<Rightarrow> string \<Rightarrow> nat \<Rightarrow> nat \<Rightarrow> bool" where
  "render_args_ok context part part_suffix start_frame end_frame \<longleftrightarrow>
     rx_sample_rate context < u32_lim \<and> part < u64_lim \<and> start_frame < u64_lim \<and> end_frame < u64_lim
     \<and> length part_suffix \<le> 25"

lemma segment_text_length:
  assumes "render_args_ok context part part_suffix start_frame end_frame"
    and "segment_text context channel part part_suffix start_frame end_frame segment = Inr (piece, message)"
  shows "length piece \<le> segment_capacity context channel segment"
proof -
  note digits = length_show_nat_u64[of part] length_show_nat_u64[of start_frame] length_show_nat_u64[of end_frame]
    length_show_nat_u32[of "rx_sample_rate context"]
  note defs = segment_text_def segment_capacity_def token_capacity_def
  show ?thesis
  proof (cases segment)
    case (Literal v)
    with assms(2) show ?thesis by (simp add: defs)
  next
    case (Token t)
    with assms digits show ?thesis by (cases t) (auto simp: defs render_args_ok_def)
  next
    case (ZeroPaddedToken t w)
    with assms digits show ?thesis by (cases t) (auto simp: defs render_args_ok_def le_max_iff_disj)
  qed
qed

lemma render_output_to_length:
  assumes "render_args_ok context part part_suffix start_frame end_frame"
    and "render_output_to string_write pattern context channel part part_suffix start_frame end_frame out = Inr out'"
  shows "length out' \<le> length out + pattern_capacity pattern context channel"
  using assms(2)
proof (induction pattern arbitrary: out)
  case Nil
  then show ?case by (simp add: render_output_to_def)
next
  case (Cons segment pattern)
  then obtain piece message where
      t: "segment_text context channel part part_suffix start_frame end_frame segment = Inr (piece, message)"
    and r: "render_output_to string_write pattern context channel part part_suffix start_frame end_frame (out @ piece) = Inr out'"
    by (auto simp: render_output_to_def bindR_Inr_iff string_write_def)
  from Cons.IH[OF r] segment_text_length[OF assms(1) t] show ?case
    by (simp add: pattern_capacity_def)
qed

lemma length_part_suffix: "part < u64_lim \<Longrightarrow> length (part_suffix_of part_count part) \<le> 25"
  using length_show_nat_u64[of part] by (simp add: part_suffix_of_def)

section \<open>Length of a path\<close>

lemma if_split_eq_Inr: "(if b then Inl e else m) = Inr x \<longleftrightarrow> \<not> b \<and> m = Inr x"
  by simp

lemma validate_output_dir_InrD:
  assumes "validate_output_dir out = Inr u"
  shows "starts_slash out" and "out = ''/'' \<or> \<not> ends_slash out"
    and "ParentDir \<notin> set (path_components out)" and "CurDir \<notin> set (path_components out)"
    and "path_components out = path_components ''/'' \<Longrightarrow> out = ''/''"
proof -
  note ok = assms[unfolded validate_output_dir_def, unfolded if_split_eq_Inr]
  from ok show s: "starts_slash out" and "ParentDir \<notin> set (path_components out)"
    and "CurDir \<notin> set (path_components out)" by (simp_all add: list_ex_iff) blast+
  then obtain r where r: "out = CHR ''/'' # r" by (cases out) (auto simp: starts_slash_def)
  from ok r show "out = ''/'' \<or> \<not> ends_slash out" by (cases r) simp_all
  have "out = ''/''" if eq: "path_components out = path_components ''/''"
  proof (rule ccontr)
    assume "out \<noteq> ''/''"
    with r have ne: "r \<noteq> []" by simp
    have hd: "hd r \<noteq> CHR ''/''" using ok ne by (cases r) (auto simp: r)
    have dot: "''.'' \<notin> set (split_on (CHR ''/'') out)"
      using ok by (auto simp: list_ex_iff)
    define h where "h = hd (split_on (CHR ''/'') r)"
    have mem: "h \<in> set (split_on (CHR ''/'') out)" by (simp add: r h_def)
    then have "h \<noteq> ''.''" using dot by (intro notI) simp
    with mem hd_split_on[OF ne hd] have "h \<in> set (filter (\<lambda>p. p \<noteq> [] \<and> p \<noteq> ''.'') (split_on (CHR ''/'') out))"
      by (simp add: h_def)
    then have "filter (\<lambda>p. p \<noteq> [] \<and> p \<noteq> ''.'') (split_on (CHR ''/'') out) \<noteq> []"
      by (intro notI) simp
    with eq s show False by (simp add: path_components_absolute starts_slash_def[of "''/''"])
  qed
  then show "path_components out = path_components ''/'' \<Longrightarrow> out = ''/''" .
qed

lemma length_path_join_le:
  "length (path_join base p) \<le> length base + (if base = [] \<or> ends_slash base then 0 else 1) + length p"
  by (simp add: path_join_def)

lemma ends_slash_path_join_nil: "base \<noteq> [] \<Longrightarrow> ends_slash (path_join base [])"
  by (auto simp: path_join_def starts_slash_def ends_slash_def)

lemma length_final_path_le:
  assumes "validate_output_dir out = Inr u"
  shows "length (path_join (path_join out d) f)
         \<le> length out + (if path_components out \<noteq> path_components ''/'' then 1 else 0)
           + length d + (if d \<noteq> [] then 1 else 0) + length f"
proof -
  note dir = validate_output_dir_InrD[OF assms]
  have ne: "out \<noteq> []" using dir(1) by (auto simp: starts_slash_def)
  have one: "length (path_join out d) \<le>
      length out + (if path_components out \<noteq> path_components ''/'' then 1 else 0) + length d"
    using length_path_join_le[of out d] dir(2,5) ne by (auto split: if_splits simp: ends_slash_def)
  have two: "length (path_join (path_join out d) f) \<le> length (path_join out d) + (if d \<noteq> [] then 1 else 0) + length f"
    using length_path_join_le[of "path_join out d" f] ends_slash_path_join_nil[OF ne] by (auto split: if_splits)
  from one two show ?thesis by simp
qed

lemma validate_pattern_capacity_InrD:
  assumes "validate_pattern_capacity dp fp out context channel = Inr u"
  shows "length out + (if path_components out \<noteq> path_components ''/'' then 1 else 0)
         + pattern_capacity dp context channel + (if pattern_capacity dp context channel \<noteq> 0 then 1 else 0)
         + pattern_capacity fp context channel \<le> rx_maximum_path_bytes context"
  using assms
  by (auto simp: validate_pattern_capacity_def bindR_Inr_iff Let_def path_bytes_def bind_eq_Some_conv
      dest!: maximum_rendered_bytes_Inr split: if_splits)

lemma capacity_bounds_final_path:
  assumes "validate_output_dir out = Inr u" and "validate_pattern_capacity dp fp out context channel = Inr v"
    and "length d \<le> pattern_capacity dp context channel" and "length f \<le> pattern_capacity fp context channel"
  shows "length (path_join (path_join out d) f) \<le> rx_maximum_path_bytes context"
  using length_final_path_le[OF assms(1), of d f] validate_pattern_capacity_InrD[OF assms(2)] assms(3,4)
  by (auto split: if_splits)

text \<open>
  (C16) The worst-case check is enough.  Whatever policy was resolved for a valid output
  directory, when rendering a part succeeds, the path of the part is no longer than the
  configured maximum, for every part number, frame number and sample rate of their integer
  width and every number of parts.  So the length test made on the finished path never fires,
  and a path that passes the early check cannot fail late, after audio has been staged.
\<close>

theorem rendered_path_within_maximum:
  assumes "policy_new output_dir layout activity = Inr policy"
    and "rx_sample_rate context < u32_lim" "part < u64_lim" "start_frame < u64_lim" "end_frame < u64_lim"
    and "render_policy_output_into string_write string_write policy context channel part
           (part_suffix_of part_count part) start_frame end_frame [] [] = Inr (directory, filename)"
  shows "length (path_join (path_join output_dir directory) filename) \<le> rx_maximum_path_bytes context"
proof -
  have out: "validate_output_dir output_dir = Inr ()" "xp_output_dir policy = output_dir"
    using assms(1) by (auto simp: policy_new_def bindR_Inr_iff)
  obtain dp fp where pats: "policy_patterns policy (rx_command context) = (dp, fp)" by force
  have args: "render_args_ok context part (part_suffix_of part_count part) start_frame end_frame"
    using assms(2-5) length_part_suffix[of part part_count] by (simp add: render_args_ok_def)
  from assms(6) pats out(2) have cap: "validate_pattern_capacity dp fp output_dir context channel = Inr ()"
    and d: "render_output_to string_write dp context channel part (part_suffix_of part_count part) start_frame end_frame [] = Inr directory"
    and f: "render_output_to string_write fp context channel part (part_suffix_of part_count part) start_frame end_frame [] = Inr filename"
    by (auto simp: render_policy_output_into_def bindR_Inr_iff)
  show ?thesis
    using capacity_bounds_final_path[OF out(1) cap] render_output_to_length[OF args d] render_output_to_length[OF args f]
    by simp
qed

section \<open>Planned paths\<close>

lemma validate_rendered_directory_InrD:
  assumes "validate_rendered_directory d = Inr u"
  shows "\<not> starts_slash d" and "list_all plain_piece (split_on (CHR ''/'') d) \<or> d = []"
  using assms
  by (auto simp: validate_rendered_directory_def list_ex_iff list_all_iff plain_piece_def starts_slash_def split: if_splits)

lemma validate_filename_InrD:
  assumes "validate_filename f = Inr u"
  shows "f \<noteq> []" and "\<not> starts_slash f" and "split_on (CHR ''/'') f = [f]" and "plain_piece f"
  using assms
  by (auto simp: validate_filename_def unsafe_component_def str_contains_def plain_piece_def starts_slash_def
      intro: split_on_single split: list.splits)

text \<open>A rendered path is the output directory, the rendered directories and the file name.\<close>

lemma final_path_components:
  assumes "validate_output_dir out = Inr u" and "validate_rendered_directory d = Inr v" and "validate_filename f = Inr w"
  shows "path_components (path_join (path_join out d) f) =
         path_components out @ map Normal ((if d = [] then [] else split_on (CHR ''/'') d) @ [f])"
proof -
  note o' = validate_output_dir_InrD(1)[OF assms(1)]
  note j = path_components_join[OF o' validate_rendered_directory_InrD[OF assms(2)]]
  note fn = validate_filename_InrD[OF assms(3)]
  have "list_all plain_piece (split_on (CHR ''/'') f) \<or> f = []" using fn by simp
  from path_components_join(1)[OF j(2) fn(2) this] j(1) fn show ?thesis by simp
qed

text \<open>What the loop body makes of one part of one channel.\<close>

definition planned :: "export_policy \<Rightarrow> render_context \<Rightarrow> nat \<Rightarrow> nat \<Rightarrow> nat \<times> wav_part \<Rightarrow> rendered_output \<Rightarrow> bool" where
  "planned policy context part_count channel_index = (\<lambda>(i, p) out.
     let channel = cp_name (ap_channels (xp_activity policy) ! channel_index);
         start = rx_export_start_frame context + part_start p;
         suffix = part_suffix_of part_count (i + 1);
         patterns = policy_patterns policy (rx_command context)
     in ro_channel_index out = channel_index \<and> ro_channel out = channel \<and> ro_part out = i + 1
        \<and> ro_start_frame out = start \<and> ro_end_frame out = start + part_frames p
        \<and> render_output_into (fst patterns) context channel (i + 1) suffix start (start + part_frames p)
            = Inr (ro_relative_directory out)
        \<and> render_output_into (snd patterns) context channel (i + 1) suffix start (start + part_frames p)
            = Inr (ro_filename out)
        \<and> validate_rendered_directory (ro_relative_directory out) = Inr ()
        \<and> validate_filename (ro_filename out) = Inr ()
        \<and> ro_final_path out = path_join (path_join (xp_output_dir policy) (ro_relative_directory out)) (ro_filename out)
        \<and> length (ro_final_path out) \<le> rx_maximum_path_bytes context)"

abbreviation final_components :: "rendered_output \<Rightarrow> path_component list" where
  "final_components out \<equiv> path_components (ro_final_path out)"

lemma preview_part_InrD:
  assumes "preview_part policy context part_count channel_index
      (cp_name (ap_channels (xp_activity policy) ! channel_index)) (outs, seen) ip = Inr (outs', seen')"
  obtains out where "outs' = outs @ [out]" "seen' = insert (final_components out) seen" "final_components out \<notin> seen"
    "planned policy context part_count channel_index ip out"
proof -
  obtain i p where ip: "ip = (i, p)" by force
  obtain dp fp where pats: "policy_patterns policy (rx_command context) = (dp, fp)" by force
  let ?out = "List.last outs'"
  from assms have "outs' = outs @ [?out] \<and> seen' = insert (final_components ?out) seen
      \<and> final_components ?out \<notin> seen \<and> planned policy context part_count channel_index ip ?out"
    unfolding preview_part_def ip prod.case pats Let_def bindR_Inr_iff
    by (auto simp: planned_def Let_def pats validate_final_path_def path_bytes_def bindR_Inr_iff split: if_splits)
  then show ?thesis using that by blast
qed

text \<open>The set of final paths mirrors the outputs, and no path is planned twice.\<close>

definition preview_ok :: "preview_state \<Rightarrow> bool" where
  "preview_ok = (\<lambda>(outs, seen). seen = set (map final_components outs) \<and> distinct (map final_components outs))"

lemma preview_parts_InrD:
  assumes "try_fold (preview_part policy context part_count channel_index
      (cp_name (ap_channels (xp_activity policy) ! channel_index))) st ips = Inr st'" and "preview_ok st"
  shows "preview_ok st' \<and> (\<exists>os. fst st' = fst st @ os \<and> list_all2 (planned policy context part_count channel_index) ips os)"
  using assms
proof (induction ips arbitrary: st)
  case Nil
  then show ?case by simp
next
  case (Cons ip ips)
  obtain outs seen where st: "st = (outs, seen)" by force
  obtain outs1 seen1 where
    one: "preview_part policy context part_count channel_index
      (cp_name (ap_channels (xp_activity policy) ! channel_index)) (outs, seen) ip = Inr (outs1, seen1)"
    and more: "try_fold (preview_part policy context part_count channel_index
      (cp_name (ap_channels (xp_activity policy) ! channel_index))) (outs1, seen1) ips = Inr st'"
    using Cons.prems(1) by (auto simp: st bindR_Inr_iff)
  from one show ?case
  proof (rule preview_part_InrD)
    fix out
    assume o1: "outs1 = outs @ [out]" "seen1 = insert (final_components out) seen"
      "final_components out \<notin> seen" "planned policy context part_count channel_index ip out"
    then have "preview_ok (outs1, seen1)" using Cons.prems(2) by (auto simp: st preview_ok_def)
    from Cons.IH[OF more this] o1 show ?thesis by (auto simp: st)
  qed
qed

lemma preview_channels_InrD:
  assumes "try_fold (preview_channel policy context parts) st channels = Inr st'" and "preview_ok st"
  shows "preview_ok st' \<and> (\<exists>oss. fst st' = fst st @ concat oss \<and>
           list_all2 (\<lambda>c os. list_all2 (planned policy context (length parts) c) (enumerate 0 parts) os) channels oss)"
  using assms
proof (induction channels arbitrary: st)
  case Nil
  then show ?case by simp
next
  case (Cons c channels)
  obtain st1 where
    chan: "preview_channel policy context parts st c = Inr st1"
    and more: "try_fold (preview_channel policy context parts) st1 channels = Inr st'"
    using Cons.prems(1) by (auto simp: bindR_Inr_iff)
  then have one: "try_fold (preview_part policy context (length parts) c
            (cp_name (ap_channels (xp_activity policy) ! c))) st (enumerate 0 parts) = Inr st1"
    by (auto simp: preview_channel_def bindR_Inr_iff Let_def split: prod.splits if_splits)
  from preview_parts_InrD[OF one Cons.prems(2)] obtain os where
    os: "preview_ok st1" "fst st1 = fst st @ os" "list_all2 (planned policy context (length parts) c) (enumerate 0 parts) os"
    by blast
  from Cons.IH[OF more os(1)] obtain oss where
    "preview_ok st'" "fst st' = fst st1 @ concat oss"
    "list_all2 (\<lambda>c os. list_all2 (planned policy context (length parts) c) (enumerate 0 parts) os) channels oss"
    by blast
  with os show ?case by (auto intro!: exI[of _ "os # oss"])
qed

lemma validate_no_file_parent_conflicts_Inr_iff:
  "validate_no_file_parent_conflicts outs = Inr u \<longleftrightarrow> sorted_wrt (\<lambda>a b. \<not> path_conflict a b) outs"
  by (induction outs) (auto simp: find_None_iff find_Some_iff split: option.splits)

lemma preview_export_paths_InrD:
  assumes "preview_export_paths policy context retained = Inr outs"
  obtains parts oss where "validate_output_dir (xp_output_dir policy) = Inr ()"
    "rx_export_start_frame context \<le> rx_export_end_frame context"
    "wav_parts_for_channel (rx_export_end_frame context - rx_export_start_frame context) 3 (rx_split_when_over_bytes context) = Inr parts"
    "outs = concat oss" "distinct (map final_components outs)"
    "list_all2 (\<lambda>c os. list_all2 (planned policy context (length parts) c) (enumerate 0 parts) os) retained oss"
    "sorted_wrt (\<lambda>a b. \<not> path_conflict a b) outs"
proof -
  from assms obtain parts seen where
    out: "validate_output_dir (xp_output_dir policy) = Inr ()"
    and le: "rx_export_start_frame context \<le> rx_export_end_frame context"
    and parts: "wav_parts_for_channel (rx_export_end_frame context - rx_export_start_frame context) 3 (rx_split_when_over_bytes context) = Inr parts"
    and fold: "try_fold (preview_channel policy context parts) ([], {}) retained = Inr (outs, seen)"
    and nc: "validate_no_file_parent_conflicts outs = Inr ()"
    by (auto simp: preview_export_paths_def bindR_Inr_iff Let_def split: prod.splits if_splits)
  have "preview_ok ([], {})" by (simp add: preview_ok_def)
  from preview_channels_InrD[OF fold this] obtain oss where
    "preview_ok (outs, seen)" "outs = concat oss"
    "list_all2 (\<lambda>c os. list_all2 (planned policy context (length parts) c) (enumerate 0 parts) os) retained oss"
    by auto
  with out le parts nc that show ?thesis
    by (auto simp: preview_ok_def validate_no_file_parent_conflicts_Inr_iff)
qed

lemma list_all2_memD: "list_all2 P xs ys \<Longrightarrow> y \<in> set ys \<Longrightarrow> \<exists>x. P x y"
  by (induction rule: list_all2_induct) auto

lemma list_all2_concatD:
  "list_all2 (\<lambda>c os. list_all2 (P c) ips os) cs oss \<Longrightarrow> out \<in> set (concat oss) \<Longrightarrow> \<exists>c ip. P c ip out"
  by (induction rule: list_all2_induct) (auto, metis list_all2_memD)

lemma planned_paths_facts:
  assumes "preview_export_paths policy context retained = Inr outputs"
  shows "list_all (\<lambda>out.
             final_components out = path_components (xp_output_dir policy)
               @ map Normal ((if ro_relative_directory out = [] then [] else split_on (CHR ''/'') (ro_relative_directory out))
                             @ [ro_filename out])
             \<and> length (ro_final_path out) \<le> rx_maximum_path_bytes context) outputs"
    and "distinct (map final_components outputs)"
    and "sorted_wrt (\<lambda>a b. \<not> path_starts_with (ro_final_path a) (ro_final_path b)
                          \<and> \<not> path_starts_with (ro_final_path b) (ro_final_path a)) outputs"
proof -
  from assms obtain parts oss where
    out: "validate_output_dir (xp_output_dir policy) = Inr ()" and outs: "outputs = concat oss"
    and dist: "distinct (map final_components outputs)"
    and pl: "list_all2 (\<lambda>c os. list_all2 (planned policy context (length parts) c) (enumerate 0 parts) os) retained oss"
    and nc: "sorted_wrt (\<lambda>a b. \<not> path_conflict a b) outputs"
    by (rule preview_export_paths_InrD)
  show "distinct (map final_components outputs)" by (rule dist)
  show "sorted_wrt (\<lambda>a b. \<not> path_starts_with (ro_final_path a) (ro_final_path b)
                          \<and> \<not> path_starts_with (ro_final_path b) (ro_final_path a)) outputs"
    using nc by (simp add: path_conflict_def)
  have "\<exists>c ip. planned policy context (length parts) c ip out" if "out \<in> set outputs" for out
    using list_all2_concatD[OF pl that[unfolded outs]] by blast
  then show "list_all (\<lambda>out.
             final_components out = path_components (xp_output_dir policy)
               @ map Normal ((if ro_relative_directory out = [] then [] else split_on (CHR ''/'') (ro_relative_directory out))
                             @ [ro_filename out])
             \<and> length (ro_final_path out) \<le> rx_maximum_path_bytes context) outputs"
    using final_path_components[OF out] by (fastforce simp: list_all_iff planned_def Let_def)
qed

text \<open>
  (C8) The planned files are safe.  When the planning of an export succeeds, every planned path
  is the output directory followed by normal components only (no \<open>..\<close>, no dot, no second
  root), it is no longer than the configured maximum, no two planned paths name the same file,
  and none is a directory on the way to another.
\<close>

theorem planned_paths_are_safe:
  assumes "preview_export_paths policy context retained = Inr outputs"
  shows "list_all (\<lambda>out.
             final_components out = path_components (xp_output_dir policy)
               @ map Normal ((if ro_relative_directory out = [] then [] else split_on (CHR ''/'') (ro_relative_directory out))
                             @ [ro_filename out])
             \<and> length (ro_final_path out) \<le> rx_maximum_path_bytes context) outputs
    \<and> distinct (map final_components outputs)
    \<and> sorted_wrt (\<lambda>a b. \<not> path_starts_with (ro_final_path a) (ro_final_path b)
                          \<and> \<not> path_starts_with (ro_final_path b) (ro_final_path a)) outputs"
  using planned_paths_facts[OF assms] by blast

lemma planned_same_path:
  "planned policy context n c ip a \<Longrightarrow> planned policy context n c ip b \<Longrightarrow> ro_final_path a = ro_final_path b"
  by (auto simp: planned_def Let_def)

lemma planned_channel_distinct:
  assumes "list_all2 (\<lambda>c os. list_all2 (planned policy context n c) ips os) channels oss"
    and "distinct (map final_components (concat oss))" and "ips \<noteq> []"
  shows "distinct channels"
  using assms
proof (induction channels arbitrary: oss)
  case Nil
  then show ?case by simp
next
  case (Cons c channels)
  then obtain os rest where oss: "oss = os # rest" "list_all2 (planned policy context n c) ips os"
    "list_all2 (\<lambda>c os. list_all2 (planned policy context n c) ips os) channels rest"
    by (auto simp: list_all2_Cons1)
  with Cons.prems(3) obtain ip ips' o1 os' where hd: "ips = ip # ips'" "os = o1 # os'" "planned policy context n c ip o1"
    by (cases ips) (auto simp: list_all2_Cons1)
  have "c \<notin> set channels"
  proof
    assume "c \<in> set channels"
    then obtain j where j: "j < length channels" "channels ! j = c" by (auto simp: in_set_conv_nth)
    with oss(3) have "list_all2 (planned policy context n c) ips (rest ! j)" and "j < length rest"
      by (auto simp: list_all2_conv_all_nth)
    with hd obtain o2 os2 where o2: "rest ! j = o2 # os2" "planned policy context n c ip o2" "j < length rest"
      by (auto simp: list_all2_Cons1)
    then have "o2 \<in> set (concat rest)" using nth_mem[of j rest] by (fastforce intro: bexI[of _ "o2 # os2"])
    with hd o2 planned_same_path[of policy "context" n c ip o1 o2] Cons.prems(2) show False
      by (auto simp: oss)
  qed
  with Cons.IH[OF oss(3)] Cons.prems oss(1) show ?case by simp
qed

abbreviation file_frames :: "rendered_output \<Rightarrow> nat list" where
  "file_frames out \<equiv> [ro_start_frame out ..< ro_end_frame out]"

lemma planned_fields:
  "planned policy context n c (i, p) out \<Longrightarrow>
     ro_channel_index out = c \<and> ro_part out = i + 1
     \<and> ro_start_frame out = rx_export_start_frame context + part_start p
     \<and> ro_end_frame out = rx_export_start_frame context + part_start p + part_frames p"
  by (simp add: planned_def Let_def)

lemma planned_frames:
  assumes "list_all2 (planned policy context n c) (enumerate k parts) os"
  shows "concat (map file_frames os) =
           map (\<lambda>f. rx_export_start_frame context + f) (concat (map part_range parts))"
    and "map ro_part os = map Suc [k ..< k + length parts]" and "\<forall>out\<in>set os. ro_channel_index out = c"
proof -
  let ?S = "rx_export_start_frame context"
  have shift: "[?S + a ..< ?S + b] = map (\<lambda>f. ?S + f) [a..<b]" for a b
    by (induction b) auto
  show "concat (map file_frames os) = map (\<lambda>f. ?S + f) (concat (map part_range parts))"
    using assms
    by (induction parts arbitrary: k os)
      (auto simp: list_all2_Cons1 planned_fields add.assoc shift[symmetric])
  have part: "ro_part (os ! i) = Suc (k + i)" if "i < length parts" for i
    using list_all2_nthD[OF assms, of i] that by (auto simp: nth_enumerate_eq dest: planned_fields)
  show "map ro_part os = map Suc [k ..< k + length parts]"
    using list_all2_lengthD[OF assms] by (intro nth_equalityI) (simp_all add: part)
  show "\<forall>out\<in>set os. ro_channel_index out = c"
    using assms by (induction parts arbitrary: k os) (auto simp: list_all2_Cons1 planned_fields)
qed

lemma filter_channel_concat:
  assumes "list_all2 (\<lambda>c os. \<forall>out\<in>set os. ro_channel_index out = c) channels oss" and "distinct channels"
  shows "filter (\<lambda>out. ro_channel_index out = c) (concat oss) =
         (case find (\<lambda>(c', _). c' = c) (zip channels oss) of None \<Rightarrow> [] | Some (_, os) \<Rightarrow> os)"
  using assms
proof (induction channels oss rule: list_all2_induct)
  case Nil
  then show ?case by simp
next
  case (Cons d ds os oss)
  show ?case
  proof (cases "d = c")
    case True
    then have "c \<notin> set ds" using Cons.prems by simp
    then have "find (\<lambda>(c', _). c' = c) (zip ds oss) = None"
      by (auto simp: find_None_iff dest: set_zip_leftD)
    with Cons True show ?thesis by (simp add: filter_id_conv)
  next
    case False
    with Cons have "filter (\<lambda>out. ro_channel_index out = c) os = []" by (auto simp: filter_empty_conv)
    with Cons False show ?thesis by simp
  qed
qed

lemma planned_nonempty:
  assumes "list_all2 (planned policy context n c) (enumerate k parts) os" and "\<forall>p \<in> set parts. 0 < part_frames p" and "out \<in> set os"
  shows "ro_start_frame out < ro_end_frame out"
  using assms by (induction parts arbitrary: k os) (auto simp: list_all2_Cons1 planned_fields)

lemma planned_files_of_channel:
  fixes c :: nat
  assumes "preview_export_paths policy context retained = Inr outputs"
  defines "files \<equiv> filter (\<lambda>out. ro_channel_index out = c) outputs"
  shows "concat (map file_frames files) =
           (if c \<in> set retained then [rx_export_start_frame context ..< rx_export_end_frame context] else [])
         \<and> map ro_part files = map Suc [0 ..< length files]
         \<and> (\<forall>out \<in> set outputs. ro_channel_index out \<in> set retained \<and> ro_start_frame out < ro_end_frame out)"
  using assms(1)
proof (rule preview_export_paths_InrD)
  fix parts oss
  let ?S = "rx_export_start_frame context" and ?E = "rx_export_end_frame context"
  assume le: "?S \<le> ?E" and parts: "wav_parts_for_channel (?E - ?S) 3 (rx_split_when_over_bytes context) = Inr parts"
    and outs: "outputs = concat oss" and dist: "distinct (map final_components outputs)"
    and pl: "list_all2 (\<lambda>c os. list_all2 (planned policy context (length parts) c) (enumerate 0 parts) os) retained oss"
  from parts obtain fpp where "wav_frames_per_part 3 (rx_split_when_over_bytes context) = Inr fpp"
    and loop: "parts = wav_parts_loop (?E - ?S) fpp 0"
    by (auto simp: wav_parts_for_channel_def bindR_Inr_iff)
  with wav_frames_per_part_Inr wav_parts_loop_tile[of fpp 0 "?E - ?S"]
  have tile: "concat (map part_range parts) = [0 ..< ?E - ?S]" by blast
  have shift: "map (\<lambda>f. ?S + f) [0 ..< ?E - ?S] = [?S ..< ?E]"
    using le map_add_upt[of ?S "?E - ?S"] by (simp add: add.commute)
  have frames: "concat (map file_frames os) = [?S ..< ?E]" and nums: "map ro_part os = map Suc [0 ..< length os]"
    if "list_all2 (planned policy context (length parts) d) (enumerate 0 parts) os" for d os
    using planned_frames[OF that] list_all2_lengthD[OF that] by (simp_all add: tile shift)
  have own: "ro_channel_index out \<in> set retained \<and> ro_start_frame out < ro_end_frame out" if "out \<in> set outputs" for out
  proof -
    obtain os where "os \<in> set oss" "out \<in> set os" using \<open>out \<in> set outputs\<close> outs by auto
    then obtain i where i: "i < length oss" "out \<in> set (oss ! i)" by (metis in_set_conv_nth)
    then have pl': "list_all2 (planned policy context (length parts) (retained ! i)) (enumerate 0 parts) (oss ! i)"
      and mem: "retained ! i \<in> set retained"
      using pl by (auto simp: list_all2_conv_all_nth)
    have "\<forall>p \<in> set parts. 0 < part_frames p" using wav_parts_loop_sizes by (auto simp: loop)
    from planned_nonempty[OF pl' this i(2)] planned_frames(3)[OF pl'] mem i(2) show ?thesis by auto
  qed
  have "concat (map file_frames files) = (if c \<in> set retained then [?S ..< ?E] else []) \<and> map ro_part files = map Suc [0 ..< length files]"
  proof (cases "parts = []")
    case True
    then have "list_all ((=) []) oss" using pl by (auto simp: list_all2_conv_all_nth list_all_length)
    then have "files = []" unfolding files_def outs by (induction oss) auto
    moreover have "?E \<le> ?S" using arg_cong[OF tile, of length] True by simp
    ultimately show ?thesis by simp
  next
    case False
    have idx: "list_all2 (\<lambda>c os. \<forall>out\<in>set os. ro_channel_index out = c) retained oss"
      using pl planned_frames(3) by (rule list_all2_mono) blast
    have "distinct retained"
      using planned_channel_distinct[OF pl] dist False outs by (simp add: enumerate_eq_zip)
    note files = filter_channel_concat[OF idx this, of c, folded outs, folded files_def]
    show ?thesis
    proof (cases "find (\<lambda>(c', _). c' = c) (zip retained oss)")
      case None
      then have "c \<notin> set retained"
        using list_all2_lengthD[OF pl] by (auto simp: find_None_iff in_set_conv_nth set_zip)
      with files None show ?thesis by simp
    next
      case (Some dos)
      obtain d os where dos: "dos = (d, os)" by force
      with Some have "d = c" "(c, os) \<in> set (zip retained oss)" by (auto simp: find_Some_iff in_set_conv_nth)
      moreover then have "list_all2 (planned policy context (length parts) c) (enumerate 0 parts) os" "c \<in> set retained"
        using pl by (auto simp: list_all2_iff dest: set_zip_leftD)
      ultimately show ?thesis using files Some dos frames nums by simp
    qed
  qed
  with own show ?thesis by blast
qed

text \<open>
  (C9) The planned files hold the whole export and nothing else.  When planning succeeds, the
  files of a retained channel, in the order planned, hold exactly the frames from the start to
  the end of the export, each once, and are numbered from one.  Every planned file belongs to a
  retained channel, so the others get no file, and no file is empty.
\<close>

theorem planned_files_cover_export:
  assumes "preview_export_paths policy context retained = Inr outputs"
  shows "concat (map file_frames (filter (\<lambda>out. ro_channel_index out = c) outputs)) =
           (if c \<in> set retained then [rx_export_start_frame context ..< rx_export_end_frame context] else [])
    \<and> map ro_part (filter (\<lambda>out. ro_channel_index out = c) outputs) =
           map Suc [0 ..< length (filter (\<lambda>out. ro_channel_index out = c) outputs)]
    \<and> (\<forall>out \<in> set outputs. ro_channel_index out \<in> set retained \<and> ro_start_frame out < ro_end_frame out)
    \<and> (c \<notin> set retained \<longrightarrow> filter (\<lambda>out. ro_channel_index out = c) outputs = [])"
  using planned_files_of_channel[OF assms] by (auto simp: filter_empty_conv)

section \<open>A concrete export\<close>

text \<open>Six frames of one channel, split after three, dumped under \<open>/o\<close>.\<close>

definition sample_activity :: activity_policy where
  "sample_activity = \<lparr>ap_detector = ExactZero, ap_channels = [\<lparr>cp_name = ''a'', cp_mode = Always, cp_threshold_dbfs = None\<rparr>],
     ap_whole_export_exact_zero_gate = False, ap_trim_leading_silence = False\<rparr>"

definition sample_policy :: export_policy where
  "sample_policy = \<lparr>xp_output_dir = ''/o'', xp_use_system_temp = False, xp_layout = TimestampDirectory,
     xp_activity = sample_activity,
     xp_recall_directory = [Token Timestamp], xp_recall_filename = [Token Channel, Token PartSuffix, Literal ''.wav''],
     xp_dump_directory = [Token Timestamp], xp_dump_filename = [Token Channel, Token PartSuffix, Literal ''.wav'']\<rparr>"

definition sample_context :: render_context where
  "sample_context = \<lparr>rx_command = Dump, rx_profile = ''p'', rx_timestamp = ''t'', rx_sample_rate = 48000,
     rx_export_start_frame = 10, rx_export_end_frame = 16, rx_split_when_over_bytes = 53, rx_maximum_path_bytes = 99\<rparr>"

lemma sample_patterns: "pattern_parse ''{timestamp}'' = Inr [Token Timestamp]"
  "pattern_parse ''{channel}{partSuffix}.wav'' = Inr [Token Channel, Token PartSuffix, Literal ''.wav'']"
  by code_simp+

lemma sample_policy_new: "policy_new ''/o'' TimestampDirectory sample_activity = Inr sample_policy"
  by (simp add: policy_new_def patterns_for_layout_def sample_patterns sample_policy_def validate_output_dir_def
      starts_slash_def str_contains_def nul_char_def ends_slash_def path_components_def Let_def component_of_def)

lemma sample_output_dir: "validate_output_dir ''/o'' = Inr ()"
  using sample_policy_new by (auto simp: policy_new_def bindR_Inr_iff)

lemma sample_suffixes: "part_suffix_of 2 1 = ''-part001''" "part_suffix_of 2 (Suc 0) = ''-part001''" "part_suffix_of 2 2 = ''-part002''"
  by code_simp+

lemma sample_capacity:
  "validate_pattern_capacity [Token Timestamp] [Token Channel, Token PartSuffix, Literal ''.wav''] ''/o'' sample_context ''a'' = Inr ()"
  by (simp add: validate_pattern_capacity_def maximum_rendered_bytes_def segment_capacity_def token_capacity_def
      checked_add64_def u64_lim_def path_bytes_def path_components_def starts_slash_def component_of_def Let_def
      sample_context_def bindR_def)

lemma sample_values:
  "validate_context_values [Token Timestamp] [Token Channel, Token PartSuffix, Literal ''.wav''] sample_context = Inr ()"
  "validate_component_value ''a'' ''channel'' = Inr ()"
  by (simp_all add: validate_context_values_def contains_token_def validate_component_value_def unsafe_component_def
      str_contains_def nul_char_def ensure_def sample_context_def)

lemma sample_render:
  "policy_patterns sample_policy Dump = ([Token Timestamp], [Token Channel, Token PartSuffix, Literal ''.wav''])"
  "render_output_to string_write [Token Timestamp] sample_context ''a'' part suffix s e [] = Inr ''t''"
  "render_output_to string_write [Token Channel, Token PartSuffix, Literal ''.wav''] sample_context ''a'' part suffix s e []
     = Inr (''a'' @ suffix @ ''.wav'')"
  "rx_command sample_context = Dump" "xp_output_dir sample_policy = ''/o''"
  by (simp_all add: policy_patterns_def sample_policy_def sample_context_def render_output_to_def segment_text_def string_write_def)

theorem rendered_path_within_maximum_witness:
  "length (path_join (path_join ''/o'' ''t'') ''a-part002.wav'') \<le> rx_maximum_path_bytes sample_context"
proof (rule rendered_path_within_maximum[OF sample_policy_new])
  show "render_policy_output_into string_write string_write sample_policy sample_context ''a'' 2
          (part_suffix_of 2 2) 13 16 [] [] = Inr (''t'', ''a-part002.wav'')"
    by (simp add: render_policy_output_into_def sample_render sample_values sample_capacity sample_suffixes)
qed (simp_all add: sample_context_def u32_lim_def u64_lim_def)

definition sample_file :: "nat \<Rightarrow> string" where
  "sample_file part = (if part = 1 then ''a-part001.wav'' else ''a-part002.wav'')"

definition sample_path :: "nat \<Rightarrow> string" where
  "sample_path part = path_join (path_join ''/o'' ''t'') (sample_file part)"

definition sample_output :: "nat \<Rightarrow> nat \<Rightarrow> nat \<Rightarrow> rendered_output" where
  "sample_output part s e = \<lparr>ro_channel_index = 0, ro_channel = ''a'', ro_part = part, ro_part_count = 2,
     ro_part_suffix = part_suffix_of 2 part, ro_start_frame = s, ro_end_frame = e, ro_relative_directory = ''t'',
     ro_filename = sample_file part, ro_final_path = sample_path part\<rparr>"

lemma sample_file_ok: "validate_rendered_directory ''t'' = Inr ()" "validate_filename (sample_file part) = Inr ()"
  by (simp_all add: validate_rendered_directory_def validate_filename_def unsafe_component_def str_contains_def nul_char_def
      ensure_def starts_slash_def ends_slash_def sample_file_def)

lemma sample_path_components:
  "path_components (sample_path part) = [RootDir, Normal ''o'', Normal ''t'', Normal (sample_file part)]"
  unfolding sample_path_def final_path_components[OF sample_output_dir sample_file_ok]
  by (simp add: path_components_def starts_slash_def component_of_def Let_def)

lemma sample_path_ok: "validate_final_path ''/o'' (sample_path part) 99 = Inr ()"
proof -
  have "length (sample_path part) \<le> 99" "checked_add64 (length (sample_path part)) 0 = Some (length (sample_path part))"
    by (simp_all add: sample_path_def sample_file_def path_join_def starts_slash_def ends_slash_def u64_lim_def)
  moreover have "path_starts_with (sample_path part) ''/o''"
    unfolding path_starts_with_def sample_path_components
    by (simp add: path_components_def starts_slash_def component_of_def Let_def)
  ultimately show ?thesis
    by (simp add: validate_final_path_def path_bytes_def ensure_def del: checked_add64_Some_iff)
qed

lemma sample_part:
  assumes "part = 1 \<or> part = 2" and "path_components (sample_path part) \<notin> seen" and "s < 9" "n < 9"
  shows "preview_part sample_policy sample_context 2 0 ''a'' (outs, seen) (part - 1, \<lparr>part_start = s, part_frames = n\<rparr>) =
    Inr (outs @ [sample_output part (10 + s) (10 + s + n)], insert (path_components (sample_path part)) seen)"
proof -
  have add: "checked_add64 (part - 1) 1 = Some part" "checked_add64 10 s = Some (10 + s)"
    "checked_add64 (10 + s) n = Some (10 + s + n)"
    using assms by (auto simp: u64_lim_def)
  have ctx: "rx_export_start_frame sample_context = 10" "rx_maximum_path_bytes sample_context = 99"
    by (simp_all add: sample_context_def)
  have fname: "''a'' @ part_suffix_of 2 part @ ''.wav'' = sample_file part"
    using assms(1) by (auto simp: sample_suffixes sample_file_def)
  have render: "render_output_into [Token Timestamp] sample_context ''a'' p x a b = Inr ''t''"
    "render_output_into [Token Channel, Token PartSuffix, Literal ''.wav''] sample_context ''a'' part (part_suffix_of 2 part) a b
       = Inr (sample_file part)" for p x a b
    unfolding render_output_into_def sample_render fname by simp_all
  show ?thesis
    using assms(2)
    unfolding preview_part_def prod.case sample_render ctx add Let_def ok_or_simps bindR_simps render sample_file_ok
      sample_path_def[symmetric] sample_path_ok
    by (simp add: sample_output_def add del: checked_add64_Some_iff)
qed

lemma sample_plan:
  "preview_export_paths sample_policy sample_context [0] = Inr [sample_output 1 10 13, sample_output 2 13 16]"
proof -
  have split: "wav_parts_for_channel 6 3 53 = Inr [\<lparr>part_start = 0, part_frames = 3\<rparr>, \<lparr>part_start = 3, part_frames = 3\<rparr>]"
    by (simp add: wav_parts_for_channel_def wav_frames_per_part_def WAV_HEADER_BYTES_def wav_parts_loop_step)
  have files: "sample_file 1 = ''a-part001.wav''" "sample_file (Suc 0) = ''a-part001.wav''" "sample_file 2 = ''a-part002.wav''"
    by (simp_all add: sample_file_def)
  have parts: "try_fold (preview_part sample_policy sample_context 2 0 ''a'') ([], {})
      (enumerate 0 [\<lparr>part_start = 0, part_frames = 3\<rparr>, \<lparr>part_start = 3, part_frames = 3\<rparr>]) =
      Inr ([sample_output 1 10 13, sample_output 2 13 16],
           {path_components (sample_path 2), path_components (sample_path 1)})"
    using sample_part[of 1 "{}" 0 3 "[]"]
      sample_part[of 2 "{path_components (sample_path 1)}" 3 3 "[sample_output 1 10 13]"]
    by (simp add: sample_path_components files)
  have ctx: "rx_export_start_frame sample_context = 10" "rx_export_end_frame sample_context = 16"
    "rx_maximum_path_bytes sample_context = 99" "rx_split_when_over_bytes sample_context = 53"
    "cp_name (ap_channels (xp_activity sample_policy) ! 0) = ''a''" "length (ap_channels (xp_activity sample_policy)) = 1"
    by (simp_all add: sample_context_def sample_policy_def sample_activity_def)
  have chan: "preview_channel sample_policy sample_context [\<lparr>part_start = 0, part_frames = 3\<rparr>, \<lparr>part_start = 3, part_frames = 3\<rparr>]
      ([], {}) 0 = Inr ([sample_output 1 10 13, sample_output 2 13 16],
           {path_components (sample_path 2), path_components (sample_path 1)})"
    using parts by (simp add: preview_channel_def sample_render sample_values sample_capacity ctx numeral_2_eq_2)
  have "validate_no_file_parent_conflicts [sample_output 1 10 13, sample_output 2 13 16] = Inr ()"
    by (simp add: path_conflict_def path_starts_with_def sample_output_def sample_path_components files)
  then show ?thesis
    by (simp add: preview_export_paths_def sample_render sample_output_dir ctx sample_values split checked_mul64_def u64_lim_def
        chan del: validate_no_file_parent_conflicts.simps)
qed

theorem planned_paths_are_safe_witness:
  "distinct (map final_components [sample_output 1 10 13, sample_output 2 13 16])"
  using planned_paths_are_safe[OF sample_plan] by blast

theorem planned_files_cover_export_witness:
  "concat (map file_frames (filter (\<lambda>out. ro_channel_index out = 0)
     [sample_output 1 10 13, sample_output 2 13 16])) = [10 ..< 16]
   \<and> filter (\<lambda>out. ro_channel_index out = 1) [sample_output 1 10 13, sample_output 2 13 16] = []"
proof -
  have "concat (map file_frames (filter (\<lambda>out. ro_channel_index out = 0) [sample_output 1 10 13, sample_output 2 13 16])) = [10 ..< 16]"
    using planned_files_cover_export[OF sample_plan, of 0, THEN conjunct1] by (simp add: sample_context_def del: filter.simps)
  moreover have "1 \<notin> set [0::nat]" by simp
  ultimately show ?thesis using planned_files_cover_export[OF sample_plan, of 1] by blast
qed

end
