(* ===== verification/File_System.thy ===== *)
theory File_System
  imports Paths Effects
begin

text \<open>
  The file system as the recovery code sees it: a list of entries, each a path with its inode,
  in the order a directory lists them.  Every system call consults a tape of faults first, so
  that each call of a run may fail with any error.  Synchronisations, removals
  and renames are recorded in a log, in their order.  No other process changes the entries during a run.  A path
  below a symbolic link has no entry: every path the code acts on has been checked to contain no
  symbolic link.
\<close>

record file_identity =
  fi_device :: nat
  fi_inode :: nat

text \<open>A symbolic link knows what kind of file it leads to, which \<open>is_dir\<close> and \<open>is_file\<close> report.\<close>

datatype link_target = ToDirectory | ToFile | ToNothing

datatype file_kind = RegularFile | Directory | Symlink link_target | SpecialFile

record inode =
  in_identity :: file_identity
  in_kind :: file_kind
  in_data :: string

type_synonym fs_path = "path_component list"

datatype errno = NotFound | AlreadyExists | DirectoryNotEmpty | NotADirectory | IsADirectory | TooManyLinks | OtherErrno string

definition show_errno :: "errno \<Rightarrow> string" where
  "show_errno e = (case e of NotFound \<Rightarrow> ''No such file or directory'' | AlreadyExists \<Rightarrow> ''File exists''
     | DirectoryNotEmpty \<Rightarrow> ''Directory not empty'' | NotADirectory \<Rightarrow> ''Not a directory''
     | IsADirectory \<Rightarrow> ''Is a directory'' | TooManyLinks \<Rightarrow> ''Too many levels of symbolic links'' | OtherErrno s \<Rightarrow> s)"

datatype fs_event = Synced fs_path | Removed fs_path | Renamed fs_path fs_path

record fs =
  fs_entries :: "(fs_path \<times> inode) list"
  fs_faults :: "string option list"
  fs_log :: "fs_event list"

definition lookup :: "fs \<Rightarrow> string \<Rightarrow> inode option" where
  "lookup s path = map_of (fs_entries s) (path_components path)"

section \<open>System calls\<close>

type_synonym 'x syscall = "(fs, errno + 'x) eff"

text \<open>
  A call fails with the next fault of the tape, or runs.  A fault is an error of its own, never
  one that says something about the file.  A fault of an \<open>open\<close> also stands for one of the
  \<open>fstat\<close> and \<open>read\<close> calls on the opened file, which fail the same way.
\<close>

definition syscall :: "(fs \<Rightarrow> fs \<times> (errno + 'x)) \<Rightarrow> 'x syscall" where
  "syscall run s =
     (case fs_faults s of
        Some e # rest \<Rightarrow> (s\<lparr>fs_faults := rest\<rparr>, Inr (Inl (OtherErrno e)))
      | faults \<Rightarrow> (case run (s\<lparr>fs_faults := tl faults\<rparr>) of (s', r) \<Rightarrow> (s', Inr r)))"

definition lstat_at :: "fs_path \<Rightarrow> inode syscall" where
  "lstat_at p = syscall (\<lambda>s. (s, case map_of (fs_entries s) p of None \<Rightarrow> Inl NotFound | Some n \<Rightarrow> Inr n))"

definition lstat :: "string \<Rightarrow> inode syscall" where
  "lstat path = lstat_at (path_components path)"

definition is_link :: "inode \<Rightarrow> bool" where
  "is_link n = (case in_kind n of Symlink _ \<Rightarrow> True | _ \<Rightarrow> False)"

text \<open>\<open>open\<close> for reading with \<open>O_NOFOLLOW\<close>, and with \<open>O_DIRECTORY\<close> besides.\<close>

definition open_nofollow :: "string \<Rightarrow> inode syscall" where
  "open_nofollow path = syscall (\<lambda>s. (s, case lookup s path of None \<Rightarrow> Inl NotFound
     | Some n \<Rightarrow> if is_link n then Inl TooManyLinks else Inr n))"

definition open_directory :: "string \<Rightarrow> inode syscall" where
  "open_directory path = syscall (\<lambda>s. (s, case lookup s path of None \<Rightarrow> Inl NotFound
     | Some n \<Rightarrow> if in_kind n = Directory then Inr n else Inl NotADirectory))"

definition fsync :: "string \<Rightarrow> unit syscall" where
  "fsync path = syscall (\<lambda>s. (s\<lparr>fs_log := fs_log s @ [Synced (path_components path)]\<rparr>, Inr ()))"

definition fs_remove :: "fs_path \<Rightarrow> fs \<Rightarrow> fs" where
  "fs_remove p s = s\<lparr>fs_entries := filter (\<lambda>(q, _). q \<noteq> p) (fs_entries s), fs_log := fs_log s @ [Removed p]\<rparr>"

definition remove_file :: "string \<Rightarrow> unit syscall" where
  "remove_file path = syscall (\<lambda>s. case lookup s path of
       None \<Rightarrow> (s, Inl NotFound)
     | Some n \<Rightarrow> if in_kind n = Directory then (s, Inl IsADirectory) else (fs_remove (path_components path) s, Inr ()))"

definition strictly_below :: "fs_path \<Rightarrow> fs_path \<Rightarrow> bool" where
  "strictly_below p q \<longleftrightarrow> length p < length q \<and> take (length p) q = p"

definition remove_dir :: "string \<Rightarrow> unit syscall" where
  "remove_dir path = syscall (\<lambda>s. case lookup s path of
       None \<Rightarrow> (s, Inl NotFound)
     | Some n \<Rightarrow>
         if in_kind n \<noteq> Directory then (s, Inl NotADirectory)
         else if list_ex (\<lambda>(q, _). strictly_below (path_components path) q) (fs_entries s) then (s, Inl DirectoryNotEmpty)
         else (fs_remove (path_components path) s, Inr ()))"

text \<open>The children of a directory, each of which the iterator may fail to deliver.\<close>

definition children :: "fs_path \<Rightarrow> (fs_path \<times> inode) list \<Rightarrow> fs_path list" where
  "children p es = map fst (filter (\<lambda>(q, _). length q = Suc (length p) \<and> take (length p) q = p) es)"

definition read_dir :: "string \<Rightarrow> fs_path list syscall" where
  "read_dir path = syscall (\<lambda>s. (s, case lookup s path of None \<Rightarrow> Inl NotFound
     | Some n \<Rightarrow> if in_kind n = Directory then Inr (children (path_components path) (fs_entries s)) else Inl NotADirectory))"

definition next_entry :: "fs_path \<Rightarrow> fs_path syscall" where
  "next_entry entry = syscall (\<lambda>s. (s, Inr entry))"

section \<open>Weakest preconditions\<close>

definition same_files :: "fs \<Rightarrow> fs \<Rightarrow> bool" where
  "same_files s t \<longleftrightarrow> fs_entries t = fs_entries s \<and> fs_log t = fs_log s"

lemma same_files_refl [simp]: "same_files s s"
  by (simp add: same_files_def)

lemma same_files_trans: "same_files s t \<Longrightarrow> same_files t u \<Longrightarrow> same_files s u"
  by (simp add: same_files_def)

lemma same_files_lookup: "same_files s t \<Longrightarrow> lookup t p = lookup s p"
  by (simp add: same_files_def lookup_def)

lemma wpE_syscall:
  assumes "\<And>t msg. same_files s t \<Longrightarrow> Q (Inl (OtherErrno msg)) t"
    and "\<And>t u r. same_files s t \<Longrightarrow> run t = (u, r) \<Longrightarrow> Q r u"
  shows "wpE (syscall run) Q E s"
proof -
  have same: "same_files s (s\<lparr>fs_faults := f\<rparr>)" for f by (simp add: same_files_def)
  obtain u r where run: "run (s\<lparr>fs_faults := tl (fs_faults s)\<rparr>) = (u, r)" by force
  show ?thesis
  proof (cases "\<exists>e rest. fs_faults s = Some e # rest")
    case True
    with assms(1)[OF same] show ?thesis by (auto simp: wpE_def syscall_def)
  next
    case False
    then have "syscall run s = (u, Inr r)" using run by (auto simp: syscall_def split: list.split option.split)
    with assms(2)[OF same run] show ?thesis by (simp add: wpE_def)
  qed
qed

text \<open>What a look at a path can answer.\<close>

definition stat_answer :: "fs \<Rightarrow> fs_path \<Rightarrow> errno + inode \<Rightarrow> bool" where
  "stat_answer s p r =
     (case r of
        Inr n \<Rightarrow> map_of (fs_entries s) p = Some n
      | Inl NotFound \<Rightarrow> map_of (fs_entries s) p = None
      | Inl _ \<Rightarrow> True)"

lemma wpE_lstat:
  assumes "\<And>t r. same_files s t \<Longrightarrow> stat_answer s (path_components path) r \<Longrightarrow> Q r t"
  shows "wpE (lstat path) Q E s"
  unfolding lstat_def lstat_at_def
  by (rule wpE_syscall) (use assms in \<open>auto simp: stat_answer_def same_files_def split: option.splits\<close>)

lemma wpE_lstat_at:
  assumes "\<And>t r. same_files s t \<Longrightarrow> stat_answer s p r \<Longrightarrow> Q r t"
  shows "wpE (lstat_at p) Q E s"
  unfolding lstat_at_def
  by (rule wpE_syscall) (use assms in \<open>auto simp: stat_answer_def same_files_def split: option.splits\<close>)

lemma wpE_open:
  assumes "\<And>t r. same_files s t \<Longrightarrow> (\<And>n. r = Inr n \<Longrightarrow> lookup s path = Some n) \<Longrightarrow> Q r t"
  shows "wpE (open_nofollow path) Q E s" and "wpE (open_directory path) Q E s"
  unfolding open_nofollow_def open_directory_def
  by (rule wpE_syscall; use assms in \<open>auto simp: same_files_def lookup_def split: option.splits if_splits\<close>)+

lemma wpE_fsync:
  assumes "\<And>t msg. same_files s t \<Longrightarrow> Q (Inl (OtherErrno msg)) t"
    and "\<And>t. fs_entries t = fs_entries s \<Longrightarrow> fs_log t = fs_log s @ [Synced (path_components path)] \<Longrightarrow> Q (Inr ()) t"
  shows "wpE (fsync path) Q E s"
  unfolding fsync_def by (rule wpE_syscall) (use assms in \<open>auto simp: same_files_def\<close>)

text \<open>Removing a file that is there and is no directory; removing a directory.\<close>

lemma wpE_remove_file:
  assumes "lookup s path = Some n" and "in_kind n \<noteq> Directory"
    and "\<And>t msg. same_files s t \<Longrightarrow> Q (Inl (OtherErrno msg)) t"
    and "\<And>t. same_files (fs_remove (path_components path) s) t \<Longrightarrow> Q (Inr ()) t"
  shows "wpE (remove_file path) Q E s"
  unfolding remove_file_def
  by (rule wpE_syscall) (use assms in \<open>auto simp: same_files_def lookup_def fs_remove_def\<close>)

lemma wpE_remove_dir:
  assumes "lookup s path = Some n"
    and "\<And>t e. same_files s t \<Longrightarrow> e \<noteq> NotFound \<Longrightarrow> Q (Inl e) t"
    and "\<And>t. same_files (fs_remove (path_components path) s) t \<Longrightarrow> Q (Inr ()) t"
  shows "wpE (remove_dir path) Q E s"
  unfolding remove_dir_def
  by (rule wpE_syscall) (use assms in \<open>auto simp: same_files_def lookup_def fs_remove_def split: if_splits\<close>)

section \<open>Removal only\<close>

text \<open>
  A run that only removes: what is left is what was there less some entries that satisfy a
  predicate, and the log grows by synchronisations and removals of such entries.  The rules compose it through a body.
\<close>

definition removes :: "(fs_path \<Rightarrow> inode \<Rightarrow> bool) \<Rightarrow> fs \<Rightarrow> fs \<Rightarrow> bool" where
  "removes P s s' \<longleftrightarrow>
     (\<exists>keep. fs_entries s' = filter keep (fs_entries s)
           \<and> (\<forall>(p, n)\<in>set (fs_entries s). \<not> keep (p, n) \<longrightarrow> P p n))
     \<and> (\<exists>later. fs_log s' = fs_log s @ later
           \<and> (\<forall>p. Removed p \<in> set later \<longrightarrow> (\<exists>n. (p, n) \<in> set (fs_entries s) \<and> P p n)))"

definition only_removes :: "(fs_path \<Rightarrow> inode \<Rightarrow> bool) \<Rightarrow> (fs, 'x) eff \<Rightarrow> bool" where
  "only_removes P m \<longleftrightarrow> (\<forall>s. distinct (map fst (fs_entries s)) \<longrightarrow> removes P s (fst (m s)))"

named_theorems removal \<open>rules for operations that only remove\<close>

lemma removes_cong:
  "fs_entries s' = fs_entries s \<Longrightarrow> fs_log s' = fs_log s @ later \<Longrightarrow> \<forall>p. Removed p \<notin> set later \<Longrightarrow> removes P s s'"
  unfolding removes_def by (intro conjI exI[of _ "\<lambda>_. True"] exI[of _ later]) simp_all

lemma removes_refl [simp]: "removes P s s"
  by (rule removes_cong[of _ _ "[]"]) simp_all

lemma removes_trans:
  assumes "removes P s t" and "removes P t u"
  shows "removes P s u"
proof -
  obtain k where k: "fs_entries t = filter k (fs_entries s)" "\<forall>(p, n)\<in>set (fs_entries s). \<not> k (p, n) \<longrightarrow> P p n"
    using assms(1) by (auto simp: removes_def)
  obtain l where l: "fs_entries u = filter l (fs_entries t)" "\<forall>(p, n)\<in>set (fs_entries t). \<not> l (p, n) \<longrightarrow> P p n"
    using assms(2) by (auto simp: removes_def)
  obtain l1 where l1: "fs_log t = fs_log s @ l1" "\<forall>p. Removed p \<in> set l1 \<longrightarrow> (\<exists>n. (p, n) \<in> set (fs_entries s) \<and> P p n)"
    using assms(1) by (auto simp: removes_def)
  obtain l2 where l2: "fs_log u = fs_log t @ l2" "\<forall>p. Removed p \<in> set l2 \<longrightarrow> (\<exists>n. (p, n) \<in> set (fs_entries t) \<and> P p n)"
    using assms(2) by (auto simp: removes_def)
  have "\<exists>later. fs_log u = fs_log s @ later \<and> (\<forall>p. Removed p \<in> set later \<longrightarrow> (\<exists>n. (p, n) \<in> set (fs_entries s) \<and> P p n))"
    using l1 l2 k(1) by (intro exI[of _ "l1 @ l2"]) auto
  moreover have "fs_entries u = filter (\<lambda>e. k e \<and> l e) (fs_entries s)" using k(1) l(1) by (simp add: conj_commute)
  moreover have "\<forall>(p, n)\<in>set (fs_entries s). \<not> (k (p, n) \<and> l (p, n)) \<longrightarrow> P p n" using k l by auto
  ultimately show ?thesis unfolding removes_def by blast
qed

lemma removes_mono: "removes P s t \<Longrightarrow> (\<And>p n. P p n \<Longrightarrow> Q p n) \<Longrightarrow> removes Q s t"
  unfolding removes_def by (fastforce simp: case_prod_beta)

lemma removes_mono_in:
  "removes P s t \<Longrightarrow> (\<And>p n. map_of (fs_entries s) p = Some n \<Longrightarrow> P p n \<Longrightarrow> Q p n) \<Longrightarrow> distinct (map fst (fs_entries s))
     \<Longrightarrow> removes Q s t"
  unfolding removes_def by (fastforce intro: map_of_is_SomeI)

lemma removes_distinct: "removes P s t \<Longrightarrow> distinct (map fst (fs_entries s)) \<Longrightarrow> distinct (map fst (fs_entries t))"
  by (auto simp: removes_def distinct_map_filter)

lemma removes_lookup:
  assumes "removes P s t" and "distinct (map fst (fs_entries s))"
  shows "lookup t p = lookup s p \<or> (lookup t p = None \<and> (\<exists>n. lookup s p = Some n \<and> P (path_components p) n))"
proof (cases "lookup s p")
  case None
  moreover have "fst ` set (fs_entries t) \<subseteq> fst ` set (fs_entries s)"
    using assms(1) by (auto simp: removes_def)
  ultimately have "lookup t p = None" by (auto simp: lookup_def map_of_eq_None_iff)
  with None show ?thesis by simp
next
  case (Some n)
  then have mem: "(path_components p, n) \<in> set (fs_entries s)" by (auto simp: lookup_def dest: map_of_SomeD)
  obtain k where k: "fs_entries t = filter k (fs_entries s)" "\<forall>(p, n)\<in>set (fs_entries s). \<not> k (p, n) \<longrightarrow> P p n"
    using assms(1) by (auto simp: removes_def)
  show ?thesis
  proof (cases "k (path_components p, n)")
    case True
    with mem k(1) removes_distinct[OF assms] have "lookup t p = Some n"
      by (auto simp: lookup_def intro: map_of_is_SomeI)
    with Some show ?thesis by simp
  next
    case False
    have "(path_components p, n') \<notin> set (fs_entries t)" for n'
      using False eq_key_imp_eq_value[OF assms(2) mem, of n'] k(1) by (cases "n' = n") auto
    then have "lookup t p = None" by (auto simp: lookup_def map_of_eq_None_iff)
    with Some False k(2) mem show ?thesis by auto
  qed
qed

lemma removes_none: "removes (\<lambda>_ _. False) s t \<Longrightarrow> fs_entries t = fs_entries s \<and>
    (\<exists>later. fs_log t = fs_log s @ later \<and> (\<forall>p. Removed p \<notin> set later))"
  by (auto simp: removes_def filter_id_conv)

lemma only_removes_basic [removal]:
  "only_removes P (retE x)" "only_removes P (failE e)" "only_removes P (getE f)" "only_removes P (liftE r)"
  "only_removes P (ensureE b e)"
  by (simp_all add: only_removes_def eff_defs)

lemma only_removes_bind [removal]:
  "only_removes P m \<Longrightarrow> (\<And>x. only_removes P (k x)) \<Longrightarrow> only_removes P (bindE m k)"
  unfolding only_removes_def
proof (intro allI impI)
  fix s :: fs
  assume m: "\<forall>s. distinct (map fst (fs_entries s)) \<longrightarrow> removes P s (fst (m s))"
    and k: "\<And>x. \<forall>s. distinct (map fst (fs_entries s)) \<longrightarrow> removes P s (fst (k x s))"
    and d: "distinct (map fst (fs_entries s))"
  obtain t r where t: "m s = (t, r)" by force
  with m d have st: "removes P s t" by (metis fst_conv)
  with removes_distinct[OF st d] k have "removes P s (fst (k x t))" for x
    using removes_trans by blast
  with t st show "removes P s (fst (bindE m k s))" by (simp add: bindE_def split: sum.split)
qed

lemma only_removes_try [removal]: "only_removes P m \<Longrightarrow> only_removes P (tryE m)"
  by (simp add: only_removes_def tryE_def case_prod_beta)

lemma only_removes_mono: "only_removes P m \<Longrightarrow> (\<And>p n. P p n \<Longrightarrow> Q p n) \<Longrightarrow> only_removes Q m"
  unfolding only_removes_def using removes_mono by blast

lemma only_removes_syscall:
  assumes "\<And>s. distinct (map fst (fs_entries s)) \<Longrightarrow> removes P s (fst (run s))"
  shows "only_removes P (syscall run)"
  unfolding only_removes_def
proof (intro allI impI)
  fix s :: fs
  assume d: "distinct (map fst (fs_entries s))"
  have "removes P s (fst (run (s\<lparr>fs_faults := f\<rparr>)))" for f
    using removes_trans[OF removes_cong[of _ _ "[]"] assms, of "s\<lparr>fs_faults := f\<rparr>" s] d by simp
  moreover have "removes P s (s\<lparr>fs_faults := f\<rparr>)" for f
    by (rule removes_cong[of _ _ "[]"]) simp_all
  ultimately show "removes P s (fst (syscall run s))"
    by (auto simp: syscall_def split: list.split option.split prod.split) (metis fst_conv)+
qed

lemma only_removes_for [removal]: "(\<And>x. x \<in> set xs \<Longrightarrow> only_removes P (f x)) \<Longrightarrow> only_removes P (forE f xs)"
  by (induction xs) (simp_all add: removal)

lemma only_removes_fold [removal]:
  "(\<And>c x. x \<in> set xs \<Longrightarrow> only_removes P (f c x)) \<Longrightarrow> only_removes P (foldE f c xs)"
  by (induction xs arbitrary: c) (simp_all add: removal)

lemma only_removes_reads [removal]:
  "only_removes P (lstat_at p)" "only_removes P (lstat path)" "only_removes P (open_nofollow path)" "only_removes P (open_directory path)"
  "only_removes P (fsync path)" "only_removes P (read_dir path)" "only_removes P (next_entry e)"
  unfolding lstat_def lstat_at_def open_nofollow_def open_directory_def fsync_def read_dir_def next_entry_def
  by (auto intro!: only_removes_syscall intro: removes_cong)

end
