(* ===== verification/Manifest.thy ===== *)
theory Manifest
  imports File_System
begin

text \<open>
  The transaction manifest of \<open>src/recovery.rs\<close>: fixed slots for the entries and for the
  directories a transaction created, and a byte arena that holds all its path strings.  The
  lemmas show that a path read back from the arena is the path that was pushed, and that later
  pushes do not disturb it.
\<close>

definition MANIFEST_VERSION :: nat where
  "MANIFEST_VERSION = 2"

definition LEGACY_MANIFEST_VERSION :: nat where
  "LEGACY_MANIFEST_VERSION = 1"

definition RECALL_MANIFEST_NAME :: string where
  "RECALL_MANIFEST_NAME = ''manifest.json''"

datatype transaction_kind = KindRecall | KindDump | KindFileSet | KindAtomicDirectory

datatype manifest_phase = Prepared | Publishing nat | Complete

record path_ref =
  pr_offset :: nat
  pr_len :: nat

definition path_ref_default :: path_ref where
  "path_ref_default = \<lparr>pr_offset = 0, pr_len = 0\<rparr>"

record manifest_entry_slot =
  me_staged_path :: path_ref
  me_staged_identity :: "file_identity option"
  me_partial_path :: path_ref
  me_partial_identity :: "file_identity option"
  me_final_path :: path_ref
  me_final_identity :: "file_identity option"

definition entry_slot_default :: manifest_entry_slot where
  "entry_slot_default =
     \<lparr>me_staged_path = path_ref_default, me_staged_identity = None,
      me_partial_path = path_ref_default, me_partial_identity = None,
      me_final_path = path_ref_default, me_final_identity = None\<rparr>"

datatype manifest_directory_state = Intent | Owned

record manifest_directory_slot =
  md_entry_index :: nat
  md_prefix_len :: nat
  md_state :: "manifest_directory_state option"
  md_identity :: "file_identity option"

definition directory_slot_default :: manifest_directory_slot where
  "directory_slot_default = \<lparr>md_entry_index = 0, md_prefix_len = 0, md_state = None, md_identity = None\<rparr>"

section \<open>The path arena\<close>

record path_arena =
  pa_bytes :: string
  pa_used :: nat

definition path_arena_new :: "string \<Rightarrow> path_arena" where
  "path_arena_new bytes = \<lparr>pa_bytes = bytes, pa_used = 0\<rparr>"

definition arena_push :: "string \<Rightarrow> path_arena \<Rightarrow> (path_ref \<times> path_arena) result" where
  "arena_push value a =
     (if u32_lim \<le> length value then Inl (Validation ''manifest path is too long'')
      else bindR (ok_or (checked_add64 (pa_used a) (length value)) (Validation ''manifest path arena overflow'')) (\<lambda>end'.
        if length (pa_bytes a) < end' then Inl (Validation ''manifest path arena capacity exceeded'')
        else if u32_lim \<le> pa_used a then Inl (Validation ''manifest path arena overflow'')
        else Inr (\<lparr>pr_offset = pa_used a, pr_len = length value\<rparr>,
                  a\<lparr>pa_bytes := blit (pa_bytes a) (pa_used a) value, pa_used := end'\<rparr>)))"

definition arena_slice :: "path_arena \<Rightarrow> path_ref \<Rightarrow> string" where
  "arena_slice a r = take (pr_len r) (drop (pr_offset r) (pa_bytes a))"

section \<open>The manifest\<close>

record transaction_manifest =
  tm_version :: nat
  tm_uid :: nat
  tm_kind :: transaction_kind
  tm_phase :: manifest_phase
  tm_transaction_id :: path_ref
  tm_staging_root_path :: path_ref
  tm_staging_root_identity :: "file_identity option"
  tm_output_root :: path_ref
  tm_final_directory_path :: path_ref
  tm_final_directory_identity :: "file_identity option"
  tm_entry_count :: nat
  tm_slots :: "manifest_entry_slot list"
  tm_directory_slots :: "manifest_directory_slot list"
  tm_directory_count :: nat
  tm_directory_journal_present :: bool
  tm_path_arena :: path_arena

definition manifest_new_with_directories :: "nat \<Rightarrow> nat \<Rightarrow> string \<Rightarrow> transaction_manifest" where
  "manifest_new_with_directories slots directory_slots path_bytes =
     \<lparr>tm_version = 0, tm_uid = 0, tm_kind = KindFileSet, tm_phase = Prepared,
      tm_transaction_id = path_ref_default, tm_staging_root_path = path_ref_default, tm_staging_root_identity = None,
      tm_output_root = path_ref_default, tm_final_directory_path = path_ref_default, tm_final_directory_identity = None,
      tm_entry_count = 0, tm_slots = replicate slots entry_slot_default,
      tm_directory_slots = replicate directory_slots directory_slot_default, tm_directory_count = 0,
      tm_directory_journal_present = True, tm_path_arena = path_arena_new path_bytes\<rparr>"

definition manifest_path :: "transaction_manifest \<Rightarrow> path_ref \<Rightarrow> string" where
  "manifest_path m r = arena_slice (tm_path_arena m) r"

definition push_path :: "string \<Rightarrow> transaction_manifest \<Rightarrow> (path_ref \<times> transaction_manifest) result" where
  "push_path value m =
     bindR (arena_push value (tm_path_arena m)) (\<lambda>(r, a). Inr (r, m\<lparr>tm_path_arena := a\<rparr>))"

definition entries_of :: "transaction_manifest \<Rightarrow> manifest_entry_slot list" where
  "entries_of m = take (tm_entry_count m) (tm_slots m)"

definition set_entry_count :: "nat \<Rightarrow> transaction_manifest \<Rightarrow> transaction_manifest result" where
  "set_entry_count count m =
     (if length (tm_slots m) < count then Inl (Validation ''manifest exceeds the reserved entry capacity'')
      else Inr (m\<lparr>tm_entry_count := count\<rparr>))"

definition directories_of :: "transaction_manifest \<Rightarrow> manifest_directory_slot list" where
  "directories_of m = take (tm_directory_count m) (tm_directory_slots m)"

definition push_directory_intent :: "nat \<Rightarrow> nat \<Rightarrow> transaction_manifest \<Rightarrow> (nat \<times> transaction_manifest) result" where
  "push_directory_intent entry_index prefix_len m =
     (if length (tm_directory_slots m) \<le> tm_directory_count m
      then Inl (Validation ''manifest exceeds the reserved directory capacity'')
      else if u32_lim \<le> entry_index then Inl (Validation ''directory entry index overflow'')
      else if u32_lim \<le> prefix_len then Inl (Validation ''directory prefix length overflow'')
      else
        let index = tm_directory_count m;
            slot = \<lparr>md_entry_index = entry_index, md_prefix_len = prefix_len, md_state = Some Intent, md_identity = None\<rparr>
        in Inr (index, m\<lparr>tm_directory_slots := (tm_directory_slots m)[index := slot],
                        tm_directory_count := tm_directory_count m + 1\<rparr>))"

definition directory_path :: "transaction_manifest \<Rightarrow> manifest_directory_slot \<Rightarrow> string result" where
  "directory_path m slot =
     (if length (entries_of m) \<le> md_entry_index slot
      then Inl (Validation ''directory entry index exceeds manifest entries'')
      else ok_or (str_get_to (manifest_path m (me_final_path (entries_of m ! md_entry_index slot))) (md_prefix_len slot))
             (Validation ''directory prefix is not a UTF-8 boundary''))"

definition final_directory :: "transaction_manifest \<Rightarrow> (string \<times> file_identity option) option" where
  "final_directory m =
     (if pr_len (tm_final_directory_path m) = 0 then None
      else Some (manifest_path m (tm_final_directory_path m), tm_final_directory_identity m))"

definition transaction_id_str :: "transaction_manifest \<Rightarrow> string" where
  "transaction_id_str m = manifest_path m (tm_transaction_id m)"

definition staging_root_of :: "transaction_manifest \<Rightarrow> string" where
  "staging_root_of m = manifest_path m (tm_staging_root_path m)"

definition output_root_of :: "transaction_manifest \<Rightarrow> string" where
  "output_root_of m = manifest_path m (tm_output_root m)"

definition staged_of :: "transaction_manifest \<Rightarrow> manifest_entry_slot \<Rightarrow> string \<times> file_identity option" where
  "staged_of m entry = (manifest_path m (me_staged_path entry), me_staged_identity entry)"

definition partial_of :: "transaction_manifest \<Rightarrow> manifest_entry_slot \<Rightarrow> (string \<times> file_identity option) option" where
  "partial_of m entry =
     (if pr_len (me_partial_path entry) = 0 then None
      else Some (manifest_path m (me_partial_path entry), me_partial_identity entry))"

definition final_of :: "transaction_manifest \<Rightarrow> manifest_entry_slot \<Rightarrow> string \<times> file_identity option" where
  "final_of m entry = (manifest_path m (me_final_path entry), me_final_identity entry)"

section \<open>Lemmas\<close>

definition ref_ok :: "path_arena \<Rightarrow> path_ref \<Rightarrow> bool" where
  "ref_ok a r \<longleftrightarrow> pr_offset r + pr_len r \<le> pa_used a"

definition arena_ok :: "path_arena \<Rightarrow> bool" where
  "arena_ok a \<longleftrightarrow> pa_used a \<le> length (pa_bytes a)"

lemma arena_push_InrD:
  assumes "arena_push v a = Inr (r, a')" and "arena_ok a"
  shows "arena_ok a'" and "ref_ok a' r" and "arena_slice a' r = v" and "pr_len r = length v"
    and "pa_used a' = pa_used a + length v" and "length (pa_bytes a') = length (pa_bytes a)"
    and "ref_ok a q \<Longrightarrow> ref_ok a' q \<and> arena_slice a' q = arena_slice a q"
proof -
  have fit: "pa_used a + length v \<le> length (pa_bytes a)"
    and r: "r = \<lparr>pr_offset = pa_used a, pr_len = length v\<rparr>"
    and a': "a' = a\<lparr>pa_bytes := blit (pa_bytes a) (pa_used a) v, pa_used := pa_used a + length v\<rparr>"
    using assms(1) by (auto simp: arena_push_def bindR_Inr_iff split: if_splits)
  from fit r a' show "arena_ok a'" "ref_ok a' r" "pr_len r = length v" "pa_used a' = pa_used a + length v"
    "length (pa_bytes a') = length (pa_bytes a)"
    by (simp_all add: arena_ok_def ref_ok_def)
  from fit show "arena_slice a' r = v"
    by (simp add: r a' arena_slice_def blit_def)
  show "ref_ok a q \<Longrightarrow> ref_ok a' q \<and> arena_slice a' q = arena_slice a q"
    using fit by (auto simp: a' ref_ok_def arena_slice_def blit_def take_drop)
qed

lemma arena_push_fits:
  "arena_push v a = Inr (r, a') \<longleftrightarrow>
     length v < u32_lim \<and> pa_used a < u32_lim \<and> pa_used a + length v < u64_lim \<and> pa_used a + length v \<le> length (pa_bytes a)
     \<and> r = \<lparr>pr_offset = pa_used a, pr_len = length v\<rparr>
     \<and> a' = a\<lparr>pa_bytes := blit (pa_bytes a) (pa_used a) v, pa_used := pa_used a + length v\<rparr>"
  by (auto simp: arena_push_def bindR_Inr_iff)

end
