(* ===== verification/Manifest_Check.thy ===== *)
theory Manifest_Check
  imports Manifest
begin

text \<open>
  The checks a manifest passes before recovery acts on it (\<open>src/recovery.rs\<close>): its version
  and owner, the names and containment of every path, the phase against the recorded identities,
  and the uniqueness of paths and identities.  Only \<open>reject_symlink_path\<close> looks at the file
  system; no check changes it.  The effective user id is a parameter.
\<close>

section \<open>Path checks\<close>

definition validate_component :: "string \<Rightarrow> string \<Rightarrow> unit result" where
  "validate_component component description =
     ensure (component \<noteq> [] \<and> (case path_components component of [Normal _] \<Rightarrow> True | _ \<Rightarrow> False))
       (Validation (description @ '' is not a safe path component''))"

definition validate_lexical_path :: "string \<Rightarrow> unit result" where
  "validate_lexical_path path =
     ensure (is_absolute path \<and> \<not> list_ex (\<lambda>c. c = CurDir \<or> c = ParentDir) (path_components path))
       (Validation (''path is not absolute and lexically canonical: '' @ path))"

definition is_normal :: "path_component \<Rightarrow> bool" where
  "is_normal c = (case c of Normal _ \<Rightarrow> True | _ \<Rightarrow> False)"

definition validate_contained :: "string \<Rightarrow> string \<Rightarrow> unit result" where
  "validate_contained root path =
     bindR (validate_lexical_path path) (\<lambda>_.
     bindR (ok_or (path_strip_prefix path root)
             (Validation (''path escapes approved root '' @ root @ '': '' @ path))) (\<lambda>relative.
       ensure (relative \<noteq> [] \<and> list_all is_normal relative)
         (Validation (''path is not canonically contained by '' @ root @ '': '' @ path))))"

definition validate_direct_child :: "string \<Rightarrow> string \<Rightarrow> unit result" where
  "validate_direct_child parent path =
     bindR (validate_contained parent path) (\<lambda>_.
       case path_strip_prefix path parent of
         Some [Normal name] \<Rightarrow> validate_component name ''manifest filename''
       | Some _ \<Rightarrow> Inl (Validation (''path is not an adjacent child of '' @ parent @ '': '' @ path))
       | None \<Rightarrow> Inl (Panicked ''validated containment''))"

definition insert_unique_path :: "fs_path set \<Rightarrow> string \<Rightarrow> fs_path set result" where
  "insert_unique_path paths path =
     (if path_components path \<in> paths
      then Inl (Validation (''transaction manifest contains duplicate path '' @ path))
      else Inr (insert (path_components path) paths))"

text \<open>A path built from components prints with single separators.\<close>

fun component_text :: "path_component \<Rightarrow> string" where
  "component_text RootDir = []"
| "component_text CurDir = ''.''"
| "component_text ParentDir = ''..''"
| "component_text (Normal n) = n"

definition path_text :: "fs_path \<Rightarrow> string" where
  "path_text p = (if p = [RootDir] then ''/'' else join_pieces (map component_text p))"

fun reject_prefixes :: "fs_path \<Rightarrow> fs_path \<Rightarrow> (fs, unit) eff" where
  "reject_prefixes prefix [] = retE ()"
| "reject_prefixes prefix (c # cs) =
     bindE (lstat_at (prefix @ [c])) (\<lambda>r.
       case r of
         Inr n \<Rightarrow> if is_link n
                  then failE (Validation (''manifest path traverses a symlink: '' @ path_text (prefix @ [c])))
                  else reject_prefixes (prefix @ [c]) cs
       | Inl NotFound \<Rightarrow> retE ()
       | Inl e \<Rightarrow> failE (io_error (path_text (prefix @ [c])) (show_errno e)))"

definition reject_symlink_path :: "string \<Rightarrow> (fs, unit) eff" where
  "reject_symlink_path path = reject_prefixes [] (path_components path)"

section \<open>Checks on the manifest alone\<close>

definition version_matches :: "nat \<Rightarrow> transaction_kind \<Rightarrow> bool" where
  "version_matches version kind \<longleftrightarrow>
     version = LEGACY_MANIFEST_VERSION \<and> (kind = KindRecall \<or> kind = KindDump)
     \<or> version = MANIFEST_VERSION \<and> (kind = KindFileSet \<or> kind = KindAtomicDirectory)"

definition validate_manifest_basics :: "nat \<Rightarrow> transaction_manifest \<Rightarrow> unit result" where
  "validate_manifest_basics euid m =
     (if tm_version m \<noteq> MANIFEST_VERSION \<and> tm_version m \<noteq> LEGACY_MANIFEST_VERSION
      then Inl (Validation (''unsupported transaction manifest version '' @ show_nat (tm_version m)))
      else if \<not> version_matches (tm_version m) (tm_kind m)
      then Inl (Validation ''transaction manifest version and strategy do not match'')
      else if tm_uid m \<noteq> euid then Inl (Validation ''transaction manifest belongs to a different uid'')
      else bindR (validate_component (transaction_id_str m) ''transaction id'') (\<lambda>_.
        if tm_entry_count m = 0 then Inl (Validation ''transaction manifest has no file entries'')
        else if tm_version m = MANIFEST_VERSION \<and> \<not> tm_directory_journal_present m
        then Inl (Validation ''version-two manifest omits created directory journal'')
        else if tm_version m = LEGACY_MANIFEST_VERSION \<and> tm_directory_count m \<noteq> 0
        then Inl (Validation ''version-one manifest may not contain created directory journal'')
        else Inr ()))"

definition kind_expected :: "transaction_kind \<Rightarrow> nat \<Rightarrow> transaction_kind \<Rightarrow> bool" where
  "kind_expected expected version kind \<longleftrightarrow>
     (expected, version, kind) \<in>
       {(KindFileSet, LEGACY_MANIFEST_VERSION, KindRecall), (KindAtomicDirectory, LEGACY_MANIFEST_VERSION, KindDump),
        (KindFileSet, MANIFEST_VERSION, KindFileSet), (KindAtomicDirectory, MANIFEST_VERSION, KindAtomicDirectory)}"

definition directory_strategy :: "transaction_kind \<Rightarrow> bool" where
  "directory_strategy kind \<longleftrightarrow> kind = KindDump \<or> kind = KindAtomicDirectory"

definition publishing_entry_ok :: "nat \<Rightarrow> nat \<times> manifest_entry_slot \<Rightarrow> bool" where
  "publishing_entry_ok active = (\<lambda>(index, e).
     if index < active then me_final_identity e \<noteq> None \<and> me_partial_identity e = None
     else if index = active then \<not> (me_final_identity e \<noteq> None \<and> me_partial_identity e \<noteq> None)
     else me_final_identity e = None \<and> me_partial_identity e = None)"

definition validate_phase_state :: "transaction_manifest \<Rightarrow> unit result" where
  "validate_phase_state m =
     (if directory_strategy (tm_kind m)
      then
        if (case tm_phase m of Publishing _ \<Rightarrow> True | _ \<Rightarrow> False)
        then Inl (Validation ''dump manifest has an impossible publishing phase'')
        else bindR (ok_or (Option.bind (final_directory m) snd)
                      (Validation ''dump final directory identity is missing'')) (\<lambda>directory_identity.
          ensure (tm_staging_root_identity m = Some directory_identity
                  \<and> \<not> list_ex (\<lambda>e. me_staged_identity e = None \<or> me_final_identity e \<noteq> me_staged_identity e) (entries_of m))
            (Validation ''dump manifest identities do not describe one directory rename''))
      else
        (case tm_phase m of
           Prepared \<Rightarrow>
             ensure (\<not> list_ex (\<lambda>e. me_final_identity e \<noteq> None \<or> me_partial_identity e \<noteq> None) (entries_of m))
               (Validation ''prepared recall manifest contains publication identities'')
         | Complete \<Rightarrow>
             ensure (\<not> list_ex (\<lambda>e. me_final_identity e = None \<or> me_partial_identity e \<noteq> None) (entries_of m))
               (Validation ''complete recall manifest has incomplete identities'')
         | Publishing active \<Rightarrow>
             ensure (list_all (publishing_entry_ok active) (enumerate 0 (entries_of m)))
               (Validation ''recall manifest identities contradict publication phase'')))"

definition insert_identity :: "file_identity set \<Rightarrow> file_identity \<Rightarrow> file_identity set result" where
  "insert_identity ids i =
     (if i \<in> ids then Inl (Validation ''transaction manifest contains duplicate owned identity'') else Inr (insert i ids))"

definition list_of_option :: "'a option \<Rightarrow> 'a list" where
  "list_of_option x = (case x of None \<Rightarrow> [] | Some y \<Rightarrow> [y])"

definition owned_identities :: "transaction_manifest \<Rightarrow> file_identity list" where
  "owned_identities m =
     concat (map (\<lambda>e. list_of_option (me_staged_identity e)
                      @ (if directory_strategy (tm_kind m) then []
                         else list_of_option (me_partial_identity e) @ list_of_option (me_final_identity e))) (entries_of m))
     @ concat (map (\<lambda>d. list_of_option (md_identity d)) (directories_of m))"

definition validate_identity_uniqueness :: "transaction_manifest \<Rightarrow> unit result" where
  "validate_identity_uniqueness m =
     bindR (try_fold insert_identity (set (list_of_option (tm_staging_root_identity m))) (owned_identities m)) (\<lambda>_. Inr ())"

section \<open>The whole check\<close>

definition validate_names :: "transaction_kind \<Rightarrow> string \<Rightarrow> string \<Rightarrow> string \<Rightarrow> transaction_manifest \<Rightarrow> unit result" where
  "validate_names expected_kind expected_staging_root expected_output_root mpath m =
     bindR (validate_lexical_path expected_staging_root) (\<lambda>_.
     bindR (validate_lexical_path expected_output_root) (\<lambda>_.
     if path_components (staging_root_of m) \<noteq> path_components expected_staging_root
        \<or> path_components (output_root_of m) \<noteq> path_components expected_output_root
     then Inl (Validation ''transaction manifest roots do not match approved recovery roots'')
     else if tm_staging_root_identity m = None
     then Inl (Validation ''transaction staging root has no recorded identity'')
     else
       bindR (case expected_kind of
                KindFileSet \<Rightarrow> Inr (transaction_id_str m)
              | KindAtomicDirectory \<Rightarrow> Inr (''.tmp-lamb-'' @ transaction_id_str m)
              | _ \<Rightarrow> Inl (Panicked ''strategy only'')) (\<lambda>expected_staging_name.
       if path_file_name (staging_root_of m) \<noteq> Some expected_staging_name
       then Inl (Validation ''transaction id does not match its staging directory'')
       else if (case tm_phase m of Publishing index \<Rightarrow> tm_entry_count m \<le> index | _ \<Rightarrow> False)
       then Inl (Validation ''manifest publication index exceeds its file entries'')
       else if expected_kind = KindFileSet
       then ensure (path_components mpath = path_components (path_join expected_staging_root RECALL_MANIFEST_NAME))
              (Validation ''recall manifest is not inside its transaction directory'')
       else ensure (path_file_name mpath = Some (''.'' @ transaction_id_str m @ ''.manifest.json''))
              (Validation ''dump manifest name does not match its transaction id''))))"

definition validate_final_directory ::
    "transaction_kind \<Rightarrow> string \<Rightarrow> transaction_manifest \<Rightarrow> fs_path set \<Rightarrow> fs_path set result" where
  "validate_final_directory expected_kind expected_output_root m paths =
     (if expected_kind = KindAtomicDirectory
      then (case final_directory m of
              None \<Rightarrow> Inl (Validation ''dump manifest has no final directory'')
            | Some (final_directory_path, _) \<Rightarrow>
                bindR (validate_direct_child expected_output_root (staging_root_of m)) (\<lambda>_.
                bindR (validate_direct_child expected_output_root final_directory_path) (\<lambda>_.
                insert_unique_path paths final_directory_path)))
      else if final_directory m \<noteq> None then Inl (Validation ''recall manifest must not name a final directory'')
      else Inr paths)"

definition check_previous :: "transaction_manifest \<Rightarrow> string \<Rightarrow> unit \<Rightarrow> manifest_directory_slot \<Rightarrow> unit result" where
  "check_previous m path _ slot =
     bindR (directory_path m slot) (\<lambda>previous.
       if path_components previous = path_components path
       then Inl (Validation ''created directory journal contains duplicate derived path'')
       else if path_starts_with previous path \<and> path_components previous \<noteq> path_components path
       then Inl (Validation ''created directory journal is not parent-first'')
       else Inr ())"

definition validate_directory :: "string \<Rightarrow> transaction_manifest \<Rightarrow> nat \<times> manifest_directory_slot \<Rightarrow> unit result" where
  "validate_directory expected_output_root m = (\<lambda>(index, directory).
     bindR (directory_path m directory) (\<lambda>path.
     if length (entries_of m) \<le> md_entry_index directory
     then Inl (Validation ''directory entry index exceeds sparse entry count'')
     else
       let final_path = fst (final_of m (entries_of m ! md_entry_index directory)) in
       bindR (validate_contained expected_output_root path) (\<lambda>_.
       bindR (validate_contained path final_path) (\<lambda>_.
       if path_components path = path_components expected_output_root
       then Inl (Validation ''created directory journal may not own output root'')
       else
         bindR (try_fold (check_previous m path) () (take index (directories_of m))) (\<lambda>_.
           case (md_state directory, md_identity directory) of
             (Some Intent, None) \<Rightarrow> Inr ()
           | (Some Owned, Some _) \<Rightarrow> Inr ()
           | _ \<Rightarrow> Inl (Validation ''created directory journal state and identity disagree''))))))"

definition validate_directories :: "transaction_kind \<Rightarrow> string \<Rightarrow> transaction_manifest \<Rightarrow> unit result" where
  "validate_directories expected_kind expected_output_root m =
     (if expected_kind = KindFileSet
      then try_fold (\<lambda>_ d. validate_directory expected_output_root m d) () (enumerate 0 (directories_of m))
      else ensure (tm_directory_count m = 0)
             (Validation ''atomic-directory manifest may not contain created directory journal''))"

definition validate_partial :: "transaction_manifest \<Rightarrow> fs_path set \<Rightarrow> manifest_entry_slot \<Rightarrow> fs_path set result" where
  "validate_partial m paths entry =
     (case partial_of m entry of
        None \<Rightarrow> Inl (Validation ''recall entry has no adjacent partial path'')
      | Some (partial_path, _) \<Rightarrow>
          (case path_parent (fst (final_of m entry)) of
             None \<Rightarrow> Inl (Validation ''final path has no parent'')
           | Some final_parent \<Rightarrow>
               if map_option path_components (path_parent partial_path) \<noteq> Some (path_components final_parent)
               then Inl (Validation ''file-set partial is not adjacent to its final'')
               else (case path_file_name partial_path of
                       None \<Rightarrow> Inl (Validation ''partial path has an invalid filename'')
                     | Some partial_name \<Rightarrow>
                         bindR (validate_component partial_name ''partial filename'') (\<lambda>_.
                         if take 1 partial_name \<noteq> ''.'' \<or> \<not> str_ends_with partial_name ''.partial''
                         then Inl (Validation ''recall partial filename is not transaction-hidden'')
                         else insert_unique_path paths partial_path))))"

definition validate_entry_kind :: "transaction_kind \<Rightarrow> transaction_manifest \<Rightarrow> fs_path set \<Rightarrow> manifest_entry_slot \<Rightarrow> fs_path set result" where
  "validate_entry_kind expected_kind m paths entry =
     (if expected_kind = KindFileSet then validate_partial m paths entry
      else if partial_of m entry \<noteq> None then Inl (Validation ''dump entry must not contain a partial file'')
      else (case final_directory m of
              None \<Rightarrow> Inl (Panicked ''validated above'')
            | Some (final_directory_path, _) \<Rightarrow>
                bindR (validate_direct_child (staging_root_of m) (fst (staged_of m entry))) (\<lambda>_.
                bindR (validate_direct_child final_directory_path (fst (final_of m entry))) (\<lambda>_. Inr paths))))"

definition validate_entry_paths ::
    "transaction_kind \<Rightarrow> string \<Rightarrow> string \<Rightarrow> transaction_manifest \<Rightarrow> fs_path set \<Rightarrow> manifest_entry_slot \<Rightarrow> fs_path set result" where
  "validate_entry_paths expected_kind expected_staging_root expected_output_root m paths entry =
     (let staged_path = fst (staged_of m entry); final_path = fst (final_of m entry) in
      bindR (validate_contained expected_staging_root staged_path) (\<lambda>_.
      bindR (validate_contained expected_output_root final_path) (\<lambda>_.
      bindR (ok_or (path_parent staged_path) (Validation ''staged path has no parent'')) (\<lambda>parent.
      bindR (validate_direct_child parent staged_path) (\<lambda>_.
      bindR (validate_entry_kind expected_kind m paths entry) (\<lambda>paths.
      bindR (insert_unique_path paths staged_path) (\<lambda>paths.
      insert_unique_path paths final_path)))))))"

definition validate_entry ::
    "transaction_kind \<Rightarrow> string \<Rightarrow> string \<Rightarrow> transaction_manifest \<Rightarrow> fs_path set \<Rightarrow> manifest_entry_slot \<Rightarrow> (fs, fs_path set) eff" where
  "validate_entry expected_kind expected_staging_root expected_output_root m paths entry =
     bindE (liftE (validate_entry_paths expected_kind expected_staging_root expected_output_root m paths entry)) (\<lambda>paths.
     bindE (reject_symlink_path (fst (staged_of m entry))) (\<lambda>_.
     bindE (case partial_of m entry of None \<Rightarrow> retE () | Some (partial_path, _) \<Rightarrow> reject_symlink_path partial_path) (\<lambda>_.
     bindE (reject_symlink_path (fst (final_of m entry))) (\<lambda>_. retE paths))))"

definition validate_manifest ::
    "nat \<Rightarrow> transaction_kind \<Rightarrow> string \<Rightarrow> string \<Rightarrow> string \<Rightarrow> transaction_manifest \<Rightarrow> (fs, unit) eff" where
  "validate_manifest euid expected_kind expected_staging_root expected_output_root mpath m =
     bindE (liftE (validate_manifest_basics euid m)) (\<lambda>_.
     bindE (ensureE (kind_expected expected_kind (tm_version m) (tm_kind m))
             (Validation ''transaction manifest kind does not match recovery API'')) (\<lambda>_.
     bindE (liftE (validate_names expected_kind expected_staging_root expected_output_root mpath m)) (\<lambda>_.
     bindE (reject_symlink_path expected_staging_root) (\<lambda>_.
     bindE (reject_symlink_path expected_output_root) (\<lambda>_.
     bindE (reject_symlink_path mpath) (\<lambda>_.
     bindE (liftE (insert_unique_path {} (staging_root_of m))) (\<lambda>paths.
     bindE (liftE (insert_unique_path paths mpath)) (\<lambda>paths.
     bindE (liftE (validate_final_directory expected_kind expected_output_root m paths)) (\<lambda>paths.
     bindE (liftE (validate_directories expected_kind expected_output_root m)) (\<lambda>_.
     bindE (foldE (validate_entry expected_kind expected_staging_root expected_output_root m) paths (entries_of m)) (\<lambda>_.
     bindE (liftE (validate_phase_state m)) (\<lambda>_.
     liftE (validate_identity_uniqueness m)))))))))))))"

end
