(* ===== verification/Manifest_Codec.thy ===== *)
theory Manifest_Codec
  imports Manifest
begin

text \<open>
  Writing a manifest and reading it back (\<open>src/recovery.rs\<close>): the \<open>Serialize\<close>
  implementations and the seeds that parse a manifest into preallocated slots and the path
  arena.  A document is a JSON value; its text is the business of \<open>serde_json\<close>.  What
  \<open>serde\<close> derives for the small types is the parameter record \<open>serde_ops\<close>, with the
  laws of the locale \<open>serde_laws\<close>; \<open>derived_ops\<close> is the instance that follows the
  attributes of those types.
\<close>

datatype json = JNull | JBool bool | JNum nat | JFloat | JStr string | JArr "json list" | JObj "(string \<times> json) list"

record serde_ops =
  se_u32 :: "nat \<Rightarrow> json"
  de_u32 :: "json \<Rightarrow> string + nat"
  se_kind :: "transaction_kind \<Rightarrow> json"
  de_kind :: "json \<Rightarrow> string + transaction_kind"
  se_phase :: "manifest_phase \<Rightarrow> json"
  de_phase :: "json \<Rightarrow> string + manifest_phase"
  se_identity :: "file_identity option \<Rightarrow> json"
  de_identity :: "json \<Rightarrow> string + file_identity option"
  se_state :: "manifest_directory_state option \<Rightarrow> json"
  de_state :: "json \<Rightarrow> string + manifest_directory_state"

section \<open>Serialization\<close>

definition ser_path :: "serde_ops \<Rightarrow> string \<times> file_identity option \<Rightarrow> json" where
  "ser_path sd = (\<lambda>(path, identity). JObj [(''path'', JStr path), (''identity'', se_identity sd identity)])"

definition ser_option_path :: "serde_ops \<Rightarrow> (string \<times> file_identity option) option \<Rightarrow> json" where
  "ser_option_path sd p = (case p of None \<Rightarrow> JNull | Some pi \<Rightarrow> ser_path sd pi)"

definition ser_entry :: "serde_ops \<Rightarrow> transaction_manifest \<Rightarrow> manifest_entry_slot \<Rightarrow> json" where
  "ser_entry sd m slot =
     JObj [(''staged'', ser_path sd (staged_of m slot)),
           (''partial'', ser_option_path sd (partial_of m slot)),
           (''final_path'', ser_path sd (final_of m slot))]"

definition ser_directory :: "serde_ops \<Rightarrow> manifest_directory_slot \<Rightarrow> json" where
  "ser_directory sd slot =
     JObj [(''entry_index'', se_u32 sd (md_entry_index slot)), (''prefix_len'', se_u32 sd (md_prefix_len slot)),
           (''state'', se_state sd (md_state slot)), (''identity'', se_identity sd (md_identity slot))]"

definition ser_manifest :: "serde_ops \<Rightarrow> transaction_manifest \<Rightarrow> json" where
  "ser_manifest sd m =
     JObj ([(''version'', se_u32 sd (tm_version m)),
            (''uid'', se_u32 sd (tm_uid m)),
            (''transaction_id'', JStr (transaction_id_str m)),
            (''kind'', se_kind sd (tm_kind m)),
            (''phase'', se_phase sd (tm_phase m)),
            (''staging_root'', ser_path sd (staging_root_of m, tm_staging_root_identity m)),
            (''output_root'', JStr (output_root_of m)),
            (''final_directory'', ser_option_path sd (final_directory m)),
            (''entries'', JArr (map (ser_entry sd m) (entries_of m)))]
           @ (if tm_version m = MANIFEST_VERSION
              then [(''created_directories'', JArr (map (ser_directory sd) (directories_of m)))] else []))"

section \<open>Parsing\<close>

type_synonym 'x parser = "transaction_manifest \<Rightarrow> string + 'x \<times> transaction_manifest"

text \<open>\<open>StrSeed\<close>.\<close>

definition de_str :: "json \<Rightarrow> path_ref parser" where
  "de_str j m =
     (case j of
        JStr value \<Rightarrow> (case push_path value m of Inl e \<Rightarrow> Inl (error_display e) | Inr rm \<Rightarrow> Inr rm)
      | _ \<Rightarrow> Inl ''invalid type: expected a UTF-8 path string'')"

text \<open>\<open>ManifestPathSeed\<close>: the fields in the order of the document; a repeated field overwrites.\<close>

definition de_path_field ::
    "serde_ops \<Rightarrow> (path_ref \<times> file_identity option) \<times> transaction_manifest \<Rightarrow> string \<times> json
     \<Rightarrow> string + (path_ref \<times> file_identity option) \<times> transaction_manifest" where
  "de_path_field sd = (\<lambda>((path, identity), m) (key, j).
     if key = ''path'' then bindR (de_str j m) (\<lambda>(r, m'). Inr ((r, identity), m'))
     else if key = ''identity'' then bindR (de_identity sd j) (\<lambda>i. Inr ((path, i), m))
     else Inl (''unknown field '' @ key))"

definition de_path :: "serde_ops \<Rightarrow> json \<Rightarrow> (path_ref \<times> file_identity option) parser" where
  "de_path sd j m =
     (case j of
        JObj kvs \<Rightarrow> try_fold (de_path_field sd) ((path_ref_default, None), m) kvs
      | _ \<Rightarrow> Inl ''invalid type: expected a manifest path with identity'')"

definition de_option_path :: "serde_ops \<Rightarrow> json \<Rightarrow> (path_ref \<times> file_identity option) option parser" where
  "de_option_path sd j m =
     (case j of
        JNull \<Rightarrow> Inr (None, m)
      | _ \<Rightarrow> bindR (de_path sd j m) (\<lambda>(pi, m'). Inr (Some pi, m')))"

text \<open>\<open>EntrySlotSeed\<close>.\<close>

record entry_fields =
  ef_staged :: "path_ref \<times> file_identity option"
  ef_partial :: "(path_ref \<times> file_identity option) option"
  ef_final :: "path_ref \<times> file_identity option"

definition de_entry_field ::
    "serde_ops \<Rightarrow> entry_fields \<times> transaction_manifest \<Rightarrow> string \<times> json \<Rightarrow> string + entry_fields \<times> transaction_manifest" where
  "de_entry_field sd = (\<lambda>(f, m) (key, j).
     if key = ''staged'' then bindR (de_path sd j m) (\<lambda>(v, m'). Inr (f\<lparr>ef_staged := v\<rparr>, m'))
     else if key = ''partial'' then bindR (de_option_path sd j m) (\<lambda>(v, m'). Inr (f\<lparr>ef_partial := v\<rparr>, m'))
     else if key = ''final_path'' then bindR (de_path sd j m) (\<lambda>(v, m'). Inr (f\<lparr>ef_final := v\<rparr>, m'))
     else Inl (''unknown field '' @ key))"

definition slot_of_fields :: "entry_fields \<Rightarrow> manifest_entry_slot" where
  "slot_of_fields f =
     (let partial = (case ef_partial f of Some pi \<Rightarrow> pi | None \<Rightarrow> (path_ref_default, None)) in
      \<lparr>me_staged_path = fst (ef_staged f), me_staged_identity = snd (ef_staged f),
       me_partial_path = fst partial, me_partial_identity = snd partial,
       me_final_path = fst (ef_final f), me_final_identity = snd (ef_final f)\<rparr>)"

definition de_entry :: "serde_ops \<Rightarrow> nat \<Rightarrow> json \<Rightarrow> transaction_manifest \<Rightarrow> string + transaction_manifest" where
  "de_entry sd index j m =
     (case j of
        JObj kvs \<Rightarrow>
          bindR (try_fold (de_entry_field sd)
                   (\<lparr>ef_staged = (path_ref_default, None), ef_partial = None, ef_final = (path_ref_default, None)\<rparr>, m) kvs)
            (\<lambda>(f, m'). if index < length (tm_slots m')
                       then Inr (m'\<lparr>tm_slots := (tm_slots m')[index := slot_of_fields f]\<rparr>)
                       else Inl ''manifest exceeds entry capacity'')
      | _ \<Rightarrow> Inl ''invalid type: expected a manifest entry'')"

text \<open>\<open>DirectorySlotSeed\<close>.\<close>

record directory_fields =
  df_entry_index :: "nat option"
  df_prefix_len :: "nat option"
  df_state :: "manifest_directory_state option"
  df_identity :: "file_identity option option"

definition de_directory_field :: "serde_ops \<Rightarrow> directory_fields \<Rightarrow> string \<times> json \<Rightarrow> string + directory_fields" where
  "de_directory_field sd = (\<lambda>f (key, j).
     if key = ''entry_index'' \<and> df_entry_index f = None then bindR (de_u32 sd j) (\<lambda>v. Inr (f\<lparr>df_entry_index := Some v\<rparr>))
     else if key = ''prefix_len'' \<and> df_prefix_len f = None then bindR (de_u32 sd j) (\<lambda>v. Inr (f\<lparr>df_prefix_len := Some v\<rparr>))
     else if key = ''state'' \<and> df_state f = None then bindR (de_state sd j) (\<lambda>v. Inr (f\<lparr>df_state := Some v\<rparr>))
     else if key = ''identity'' \<and> df_identity f = None then bindR (de_identity sd j) (\<lambda>v. Inr (f\<lparr>df_identity := Some v\<rparr>))
     else if key \<in> {''entry_index'', ''prefix_len'', ''state'', ''identity''} then Inl ''duplicate created directory field''
     else Inl (''unknown field '' @ key))"

definition de_directory :: "serde_ops \<Rightarrow> nat \<Rightarrow> json \<Rightarrow> transaction_manifest \<Rightarrow> string + transaction_manifest" where
  "de_directory sd index j m =
     (case j of
        JObj kvs \<Rightarrow>
          bindR (try_fold (de_directory_field sd)
                   \<lparr>df_entry_index = None, df_prefix_len = None, df_state = None, df_identity = None\<rparr> kvs) (\<lambda>f.
          if length (tm_directory_slots m) \<le> index then Inl ''manifest exceeds directory capacity''
          else
            bindR (ok_or (df_entry_index f) ''created directory entry index missing'') (\<lambda>entry_index.
            bindR (ok_or (df_prefix_len f) ''created directory prefix length missing'') (\<lambda>prefix_len.
            bindR (ok_or (df_state f) ''created directory state missing'') (\<lambda>state.
            bindR (ok_or (df_identity f) ''created directory identity missing'') (\<lambda>identity.
            Inr (m\<lparr>tm_directory_slots := (tm_directory_slots m)[index :=
                    \<lparr>md_entry_index = entry_index, md_prefix_len = prefix_len, md_state = Some state, md_identity = identity\<rparr>]\<rparr>))))))
      | _ \<Rightarrow> Inl ''invalid type: expected a created directory record'')"

text \<open>\<open>EntriesSeed\<close> and \<open>DirectoriesSeed\<close>: the elements in order, counted.\<close>

fun de_elements ::
    "(nat \<Rightarrow> json \<Rightarrow> transaction_manifest \<Rightarrow> string + transaction_manifest) \<Rightarrow> nat \<Rightarrow> json list \<Rightarrow> nat parser" where
  "de_elements de count [] m = Inr (count, m)"
| "de_elements de count (j # js) m = bindR (de count j m) (\<lambda>m'. de_elements de (count + 1) js m')"

definition de_array ::
    "(nat \<Rightarrow> json \<Rightarrow> transaction_manifest \<Rightarrow> string + transaction_manifest) \<Rightarrow> string \<Rightarrow> json \<Rightarrow> nat parser" where
  "de_array de expecting j m =
     (case j of JArr js \<Rightarrow> de_elements de 0 js m | _ \<Rightarrow> Inl (''invalid type: expected '' @ expecting))"

text \<open>\<open>ManifestParseSeed\<close>.\<close>

definition de_manifest_field :: "serde_ops \<Rightarrow> transaction_manifest \<Rightarrow> string \<times> json \<Rightarrow> string + transaction_manifest" where
  "de_manifest_field sd = (\<lambda>m (key, j).
     if key = ''version'' then bindR (de_u32 sd j) (\<lambda>v. Inr (m\<lparr>tm_version := v\<rparr>))
     else if key = ''uid'' then bindR (de_u32 sd j) (\<lambda>v. Inr (m\<lparr>tm_uid := v\<rparr>))
     else if key = ''transaction_id'' then bindR (de_str j m) (\<lambda>(r, m'). Inr (m'\<lparr>tm_transaction_id := r\<rparr>))
     else if key = ''kind'' then bindR (de_kind sd j) (\<lambda>v. Inr (m\<lparr>tm_kind := v\<rparr>))
     else if key = ''phase'' then bindR (de_phase sd j) (\<lambda>v. Inr (m\<lparr>tm_phase := v\<rparr>))
     else if key = ''staging_root''
     then bindR (de_path sd j m) (\<lambda>((r, i), m'). Inr (m'\<lparr>tm_staging_root_path := r, tm_staging_root_identity := i\<rparr>))
     else if key = ''output_root'' then bindR (de_str j m) (\<lambda>(r, m'). Inr (m'\<lparr>tm_output_root := r\<rparr>))
     else if key = ''final_directory''
     then bindR (de_option_path sd j m) (\<lambda>(v, m').
            case v of
              Some (r, i) \<Rightarrow> Inr (m'\<lparr>tm_final_directory_path := r, tm_final_directory_identity := i\<rparr>)
            | None \<Rightarrow> Inr (m'\<lparr>tm_final_directory_path := path_ref_default, tm_final_directory_identity := None\<rparr>))
     else if key = ''entries''
     then bindR (de_array (de_entry sd) ''an array of manifest entries'' j m) (\<lambda>(n, m'). Inr (m'\<lparr>tm_entry_count := n\<rparr>))
     else if key = ''created_directories''
     then if tm_directory_journal_present m then Inl ''duplicate created_directories field''
          else bindR (de_array (de_directory sd) ''an array of created directory records'' j (m\<lparr>tm_directory_journal_present := True\<rparr>))
                 (\<lambda>(n, m'). Inr (m'\<lparr>tm_directory_count := n\<rparr>))
     else Inl (''unknown manifest field '' @ key))"

definition parse_start :: "nat \<Rightarrow> nat \<Rightarrow> string \<Rightarrow> transaction_manifest" where
  "parse_start slots directory_slots path_bytes =
     (manifest_new_with_directories slots directory_slots path_bytes)
       \<lparr>tm_kind := KindRecall, tm_directory_journal_present := False\<rparr>"

definition de_manifest :: "serde_ops \<Rightarrow> nat \<Rightarrow> nat \<Rightarrow> string \<Rightarrow> json \<Rightarrow> string + transaction_manifest" where
  "de_manifest sd slots directory_slots path_bytes j =
     (case j of
        JObj kvs \<Rightarrow> try_fold (de_manifest_field sd) (parse_start slots directory_slots path_bytes) kvs
      | _ \<Rightarrow> Inl ''invalid type: expected a transaction manifest'')"

end
