(* ===== verification/Recovery.thy ===== *)
theory Recovery
  imports Manifest_Check Manifest_Codec
begin

text \<open>
  Recovery of an interrupted publication (\<open>src/recovery.rs\<close>): reading the manifest, deciding
  whether the final files are all there, finishing the transaction or undoing it, and the scans
  over all marked transactions.  The JSON reader is a parameter, the first value of a text.
\<close>

datatype recovery_outcome = OutcomeComplete | RolledBack | Pending

section \<open>Looking at files\<close>

definition path_exists :: "string \<Rightarrow> (fs, bool) eff" where
  "path_exists path =
     bindE (lstat path) (\<lambda>r. case r of
         Inr _ \<Rightarrow> retE True
       | Inl NotFound \<Rightarrow> retE False
       | Inl e \<Rightarrow> failE (io_error path (show_errno e)))"

definition identity_matches :: "string \<Rightarrow> file_identity \<Rightarrow> bool \<Rightarrow> (fs, bool) eff" where
  "identity_matches path expected directory =
     bindE (lstat path) (\<lambda>r. case r of
         Inl NotFound \<Rightarrow> retE False
       | Inl e \<Rightarrow> failE (io_error path (show_errno e))
       | Inr n \<Rightarrow>
           let right_kind = (if directory then in_kind n = Directory else in_kind n = RegularFile)
           in retE (\<not> is_link n \<and> right_kind \<and> in_identity n = expected))"

definition read_manifest_identity :: "string \<Rightarrow> file_identity syscall" where
  "read_manifest_identity path =
     bindE (lstat path) (\<lambda>r. case r of
         Inl e \<Rightarrow> retE (Inl e)
       | Inr n \<Rightarrow> if is_link n \<or> in_kind n \<noteq> RegularFile then retE (Inl (OtherErrno ''manifest is not a regular file''))
                  else retE (Inr (in_identity n)))"

section \<open>Removing what the transaction owns\<close>

definition cleanup_file :: "string \<Rightarrow> file_identity option \<Rightarrow> (fs, bool) eff" where
  "cleanup_file path identity =
     (case identity of
        None \<Rightarrow> bindE (path_exists path) (\<lambda>b. retE (\<not> b))
      | Some i \<Rightarrow>
          bindE (lstat path) (\<lambda>r. case r of
              Inl NotFound \<Rightarrow> retE True
            | Inl e \<Rightarrow> failE (io_error path (show_errno e))
            | Inr n \<Rightarrow>
                if in_identity n \<noteq> i then retE True
                else if is_link n \<or> in_kind n \<noteq> RegularFile then retE False
                else bindE (remove_file path) (\<lambda>r. case r of
                         Inr _ \<Rightarrow> retE True
                       | Inl NotFound \<Rightarrow> retE True
                       | Inl _ \<Rightarrow> retE False)))"

definition remove_directory_if_identity :: "string \<Rightarrow> file_identity option \<Rightarrow> (fs, bool) eff" where
  "remove_directory_if_identity path identity =
     (case identity of
        None \<Rightarrow> bindE (path_exists path) (\<lambda>b. retE (\<not> b))
      | Some i \<Rightarrow>
          bindE (lstat path) (\<lambda>r. case r of
              Inl NotFound \<Rightarrow> retE True
            | Inl e \<Rightarrow> failE (io_error path (show_errno e))
            | Inr n \<Rightarrow>
                if in_identity n \<noteq> i then retE True
                else if is_link n \<or> in_kind n \<noteq> Directory then retE False
                else bindE (remove_dir path) (\<lambda>r. case r of
                         Inr _ \<Rightarrow> retE True
                       | Inl NotFound \<Rightarrow> retE True
                       | Inl _ \<Rightarrow> retE False)))"

definition remove_if_identity :: "string \<Rightarrow> file_identity \<Rightarrow> (fs, unit) eff" where
  "remove_if_identity path expected =
     bindE (lstat path) (\<lambda>r. case r of
         Inl NotFound \<Rightarrow> retE ()
       | Inl e \<Rightarrow> failE (io_error path (show_errno e))
       | Inr n \<Rightarrow>
           if in_identity n \<noteq> expected then retE ()
           else if is_link n \<or> in_kind n \<noteq> RegularFile then retE ()
           else bindE (remove_file path) (\<lambda>r. case r of
                    Inr _ \<Rightarrow> retE ()
                  | Inl e \<Rightarrow> failE (io_error path (show_errno e))))"

definition manifest_temp_path :: "string \<Rightarrow> string \<Rightarrow> string result" where
  "manifest_temp_path mpath transaction_id =
     (case path_file_name mpath of
        None \<Rightarrow> Inl (Validation ''manifest filename is invalid'')
      | Some file_name \<Rightarrow>
          let temp = ''.'' @ file_name @ ''.'' @ transaction_id @ ''.tmp'' in
          Inr (case path_parent mpath of None \<Rightarrow> temp | Some parent \<Rightarrow> path_join parent temp))"

definition cleanup_dump_temp_manifest :: "string \<Rightarrow> string \<Rightarrow> (fs, bool) eff" where
  "cleanup_dump_temp_manifest mpath transaction_id =
     bindE (liftE (manifest_temp_path mpath transaction_id)) (\<lambda>temp_path.
     bindE (lstat temp_path) (\<lambda>r. case r of
         Inl NotFound \<Rightarrow> retE True
       | Inl e \<Rightarrow> failE (io_error temp_path (show_errno e))
       | Inr n \<Rightarrow>
           if is_link n \<or> in_kind n \<noteq> RegularFile then retE True
           else bindE (remove_file temp_path) (\<lambda>r. case r of
                    Inr _ \<Rightarrow> retE True
                  | Inl NotFound \<Rightarrow> retE True
                  | Inl _ \<Rightarrow> retE False)))"

fun only_allowed :: "string \<Rightarrow> string \<Rightarrow> fs_path list \<Rightarrow> (fs, bool) eff" where
  "only_allowed directory allowed [] = retE True"
| "only_allowed directory allowed (entry # entries) =
     bindE (next_entry entry) (\<lambda>r. case r of
         Inl e \<Rightarrow> failE (io_error directory (show_errno e))
       | Inr path \<Rightarrow> if path \<noteq> path_components allowed then retE False else only_allowed directory allowed entries)"

definition directory_contains_only :: "string \<Rightarrow> string \<Rightarrow> (fs, bool) eff" where
  "directory_contains_only directory allowed =
     bindE (read_dir directory) (\<lambda>r. case r of
         Inl e \<Rightarrow> failE (io_error directory (show_errno e))
       | Inr entries \<Rightarrow> only_allowed directory allowed entries)"

definition best_effort_remove_recall_metadata ::
    "transaction_manifest \<Rightarrow> string \<Rightarrow> file_identity \<Rightarrow> (fs, unit) eff" where
  "best_effort_remove_recall_metadata m mpath manifest_identity =
     bindE (forE (\<lambda>entry.
         bindE (tryE (cleanup_file (fst (staged_of m entry)) (snd (staged_of m entry)))) (\<lambda>_.
         case partial_of m entry of
           None \<Rightarrow> retE ()
         | Some (partial_path, partial_identity) \<Rightarrow>
             bindE (tryE (cleanup_file partial_path partial_identity)) (\<lambda>_. retE ()))) (entries_of m)) (\<lambda>_.
     bindE (tryE (directory_contains_only (staging_root_of m) mpath)) (\<lambda>r.
       if r = Inr True
       then bindE (tryE (remove_if_identity mpath manifest_identity)) (\<lambda>_.
            bindE (tryE (remove_directory_if_identity (staging_root_of m) (tm_staging_root_identity m))) (\<lambda>_. retE ()))
       else retE ()))"

section \<open>Synchronising\<close>

definition sync_directory :: "string \<Rightarrow> (fs, unit) eff" where
  "sync_directory path =
     bindE (open_directory path) (\<lambda>r. case r of
         Inl e \<Rightarrow> failE (io_error path (show_errno e))
       | Inr _ \<Rightarrow> bindE (fsync path) (\<lambda>r. case r of
                      Inl e \<Rightarrow> failE (io_error path (show_errno e))
                    | Inr _ \<Rightarrow> retE ()))"

definition sync_owned_directory :: "string \<Rightarrow> file_identity \<Rightarrow> (fs, unit) eff" where
  "sync_owned_directory path expected =
     bindE (open_directory path) (\<lambda>r. case r of
         Inl e \<Rightarrow> failE (io_error path (show_errno e))
       | Inr n \<Rightarrow>
           if in_identity n \<noteq> expected
           then failE (Validation ''published directory identity changed before synchronization'')
           else bindE (fsync path) (\<lambda>r. case r of
                    Inl e \<Rightarrow> failE (io_error path (show_errno e))
                  | Inr _ \<Rightarrow>
                      bindE (identity_matches path expected True) (\<lambda>b.
                      ensureE b (Validation ''published directory identity changed during synchronization''))))"

definition sync_regular_file :: "string \<Rightarrow> file_identity \<Rightarrow> (fs, unit) eff" where
  "sync_regular_file path expected =
     bindE (open_nofollow path) (\<lambda>r. case r of
         Inl e \<Rightarrow> failE (io_error path (show_errno e))
       | Inr n \<Rightarrow>
           if in_kind n \<noteq> RegularFile then failE (Validation ''published path is not a regular file'')
           else if in_identity n \<noteq> expected
           then failE (Validation ''published file identity changed before synchronization'')
           else bindE (fsync path) (\<lambda>r. case r of
                    Inl e \<Rightarrow> failE (io_error path (show_errno e))
                  | Inr _ \<Rightarrow>
                      bindE (identity_matches path expected False) (\<lambda>b.
                      ensureE b (Validation ''published file identity changed during synchronization''))))"

definition sync_unless_seen :: "transaction_manifest \<Rightarrow> nat \<Rightarrow> string \<Rightarrow> (fs, unit) eff" where
  "sync_unless_seen m index candidate =
     (let seen = list_ex (\<lambda>prior.
            case path_parent (fst (final_of m prior)) of
              None \<Rightarrow> False
            | Some prior_parent \<Rightarrow> path_starts_with prior_parent candidate) (take index (entries_of m))
      in if seen then retE () else sync_directory candidate)"

text \<open>
  The ancestors of a parent directory below a byte offset, from the root down: each is
  synchronized before the next separator is searched.  Slicing off a character boundary panics.
\<close>

function sync_ancestors :: "transaction_manifest \<Rightarrow> nat \<Rightarrow> string \<Rightarrow> nat \<Rightarrow> (fs, unit) eff" where
  "sync_ancestors m index parent end' =
     (if end' < length parent
      then if \<not> is_char_boundary parent (end' + 1) then failE (Panicked ''byte index is not a char boundary'')
           else let next = end' + 1 + length (takeWhile (\<lambda>c. c \<noteq> CHR ''/'') (drop (end' + 1) parent))
                in bindE (sync_unless_seen m index (take next parent)) (\<lambda>_. sync_ancestors m index parent next)
      else retE ())"
  by pat_completeness auto
termination by (relation "measure (\<lambda>(_, _, parent, e). length parent - e)") auto

declare sync_ancestors.simps [simp del]

definition sync_entry_directories :: "transaction_manifest \<Rightarrow> string \<Rightarrow> nat \<times> manifest_entry_slot \<Rightarrow> (fs, unit) eff" where
  "sync_entry_directories m output_root = (\<lambda>(index, entry).
     case path_parent (fst (final_of m entry)) of
       None \<Rightarrow> retE ()
     | Some parent \<Rightarrow>
         sync_ancestors m index parent (length output_root))"

definition sync_file_set_directories :: "transaction_manifest \<Rightarrow> string \<Rightarrow> (fs, unit) eff" where
  "sync_file_set_directories m output_root =
     bindE (sync_directory output_root) (\<lambda>_.
     forE (sync_entry_directories m output_root) (enumerate 0 (entries_of m)))"

section \<open>Is the transaction complete?\<close>

definition inferred_final_identity :: "transaction_manifest \<Rightarrow> nat \<Rightarrow> (fs, file_identity option) eff" where
  "inferred_final_identity m index =
     (let entry = entries_of m ! index in
      if me_final_identity entry \<noteq> None then retE (me_final_identity entry)
      else if tm_phase m \<noteq> Publishing index then retE None
      else case me_partial_identity entry of
        None \<Rightarrow> retE None
      | Some partial_identity \<Rightarrow>
          (case partial_of m entry of
             None \<Rightarrow> failE (Panicked ''publishing recall entry has a partial path'')
           | Some (partial_path, _) \<Rightarrow>
               bindE (path_exists partial_path) (\<lambda>b. retE (if b then None else Some partial_identity))))"

fun finals_match :: "transaction_manifest \<Rightarrow> (nat \<times> manifest_entry_slot) list \<Rightarrow> (fs, bool) eff" where
  "finals_match m [] = retE True"
| "finals_match m ((index, entry) # rest) =
     bindE (inferred_final_identity m index) (\<lambda>identity.
       case identity of
         None \<Rightarrow> retE False
       | Some i \<Rightarrow>
           bindE (identity_matches (fst (final_of m entry)) i False) (\<lambda>b.
           if b then finals_match m rest else retE False))"

definition complete_final_set :: "transaction_manifest \<Rightarrow> (fs, bool) eff" where
  "complete_final_set m =
     bindE (if directory_strategy (tm_kind m)
            then (case final_directory m of
                    Some (final_directory_path, Some identity) \<Rightarrow> identity_matches final_directory_path identity True
                  | _ \<Rightarrow> retE False)
            else retE True) (\<lambda>b.
     if b then finals_match m (enumerate 0 (entries_of m)) else retE False)"

section \<open>Reading the manifest\<close>

record recovery_env =
  re_euid :: nat
  re_serde :: serde_ops
  re_first_json :: "string \<Rightarrow> string + json"
  re_buffer :: nat
  re_slots :: nat
  re_directory_slots :: nat
  re_path_bytes :: string

definition read_file_bounded :: "recovery_env \<Rightarrow> string \<Rightarrow> (fs, string) eff" where
  "read_file_bounded env mpath =
     (if re_buffer env = 0 then failE (Validation ''manifest buffer must not be empty'')
      else bindE (open_nofollow mpath) (\<lambda>r. case r of
          Inl e \<Rightarrow> failE (io_error mpath (show_errno e))
        | Inr n \<Rightarrow>
            if in_kind n \<noteq> RegularFile then failE (Validation ''manifest must be a regular file'')
            else if re_buffer env < length (in_data n)
            then failE (Validation ''manifest exceeds the fixed recovery buffer'')
            else retE (in_data n)))"

definition read_with_identity_directories :: "recovery_env \<Rightarrow> string \<Rightarrow> (fs, transaction_manifest \<times> file_identity) eff" where
  "read_with_identity_directories env mpath =
     bindE (read_file_bounded env mpath) (\<lambda>data.
     bindE (read_manifest_identity mpath) (\<lambda>r. case r of
         Inl e \<Rightarrow> failE (Validation (''failed to read manifest identity: '' @ show_errno e))
       | Inr identity \<Rightarrow>
           (case bindR (re_first_json env data)
                   (de_manifest (re_serde env) (re_slots env) (re_directory_slots env) (re_path_bytes env)) of
              Inl error \<Rightarrow> failE (Validation (''malformed transaction manifest: '' @ error))
            | Inr m \<Rightarrow> retE (m, identity))))"

section \<open>File sets\<close>

definition sync_final :: "transaction_manifest \<Rightarrow> nat \<times> manifest_entry_slot \<Rightarrow> (fs, unit) eff" where
  "sync_final m = (\<lambda>(index, entry).
     bindE (inferred_final_identity m index) (\<lambda>identity.
     bindE (liftE (ok_or identity (Validation ''complete recall identity disappeared''))) (\<lambda>i.
     sync_regular_file (fst (final_of m entry)) i)))"

definition finish_recall :: "transaction_manifest \<Rightarrow> string \<Rightarrow> string \<Rightarrow> file_identity \<Rightarrow> (fs, recovery_outcome) eff" where
  "finish_recall m output_root mpath manifest_identity =
     bindE (forE (sync_final m) (enumerate 0 (entries_of m))) (\<lambda>_.
     bindE (sync_file_set_directories m output_root) (\<lambda>_.
     bindE (best_effort_remove_recall_metadata m mpath manifest_identity) (\<lambda>_.
     bindE (case path_parent (staging_root_of m) of
              None \<Rightarrow> retE ()
            | Some parent \<Rightarrow> bindE (tryE (sync_directory parent)) (\<lambda>_. retE ())) (\<lambda>_.
     retE OutcomeComplete))))"

definition undo_entry :: "transaction_manifest \<Rightarrow> bool \<Rightarrow> nat \<times> manifest_entry_slot \<Rightarrow> (fs, bool) eff" where
  "undo_entry m pending = (\<lambda>(index, entry).
     bindE (inferred_final_identity m index) (\<lambda>final_identity.
     bindE (cleanup_file (fst (final_of m entry)) final_identity) (\<lambda>b1.
     bindE (case partial_of m entry of
              None \<Rightarrow> retE True
            | Some (partial_path, partial_identity) \<Rightarrow> cleanup_file partial_path partial_identity) (\<lambda>b2.
     bindE (cleanup_file (fst (staged_of m entry)) (snd (staged_of m entry))) (\<lambda>b3.
     retE (pending \<or> \<not> b1 \<or> \<not> b2 \<or> \<not> b3))))))"

definition drop_staging :: "transaction_manifest \<Rightarrow> string \<Rightarrow> file_identity \<Rightarrow> (fs, recovery_outcome) eff" where
  "drop_staging m mpath manifest_identity =
     bindE (remove_if_identity mpath manifest_identity) (\<lambda>_.
     bindE (remove_directory_if_identity (staging_root_of m) (tm_staging_root_identity m)) (\<lambda>gone.
     retE (if gone then RolledBack else Pending)))"

definition drop_directories :: "transaction_manifest \<Rightarrow> string \<Rightarrow> file_identity \<Rightarrow> (fs, recovery_outcome) eff" where
  "drop_directories m mpath manifest_identity =
     bindE (forE (\<lambda>directory.
         if md_state directory = Some Owned
         then bindE (liftE (directory_path m directory)) (\<lambda>path.
              bindE (remove_directory_if_identity path (md_identity directory)) (\<lambda>_. retE ()))
         else retE ()) (rev (directories_of m))) (\<lambda>_.
     bindE (directory_contains_only (staging_root_of m) mpath) (\<lambda>only.
     if \<not> only then retE Pending else drop_staging m mpath manifest_identity))"

definition undo_recall :: "transaction_manifest \<Rightarrow> string \<Rightarrow> file_identity \<Rightarrow> (fs, recovery_outcome) eff" where
  "undo_recall m mpath manifest_identity =
     bindE (foldE (undo_entry m) False (enumerate 0 (entries_of m))) (\<lambda>pending.
     if pending then retE Pending else drop_directories m mpath manifest_identity)"

definition recover_recall_root_with_directories :: "recovery_env \<Rightarrow> string \<Rightarrow> string \<Rightarrow> (fs, recovery_outcome) eff" where
  "recover_recall_root_with_directories env transaction_root output_root =
     (let mpath = path_join transaction_root RECALL_MANIFEST_NAME in
      bindE (read_with_identity_directories env mpath) (\<lambda>(m, manifest_identity).
      bindE (validate_manifest (re_euid env) KindFileSet transaction_root output_root mpath m) (\<lambda>_.
      bindE (complete_final_set m) (\<lambda>complete.
      if complete then finish_recall m output_root mpath manifest_identity
      else undo_recall m mpath manifest_identity))))"

section \<open>Atomic directories\<close>

definition finish_dump :: "transaction_manifest \<Rightarrow> string \<Rightarrow> string \<Rightarrow> file_identity \<Rightarrow> (fs, recovery_outcome) eff" where
  "finish_dump m output_parent mpath manifest_identity =
     bindE (forE (\<lambda>entry.
         bindE (liftE (ok_or (snd (final_of m entry)) (Validation ''complete dump identity disappeared''))) (\<lambda>i.
         sync_regular_file (fst (final_of m entry)) i)) (entries_of m)) (\<lambda>_.
     bindE (liftE (ok_or (final_directory m) (Validation ''dump manifest has no final directory''))) (\<lambda>(directory, identity).
     bindE (liftE (ok_or identity (Validation ''complete dump directory identity disappeared''))) (\<lambda>i.
     bindE (sync_owned_directory directory i) (\<lambda>_.
     bindE (sync_directory output_parent) (\<lambda>_.
     bindE (remove_if_identity mpath manifest_identity) (\<lambda>_.
     bindE (cleanup_dump_temp_manifest mpath (transaction_id_str m)) (\<lambda>clean.
     if \<not> clean then retE Pending
     else bindE (sync_directory output_parent) (\<lambda>_. retE OutcomeComplete))))))))"

fun undo_staged :: "transaction_manifest \<Rightarrow> manifest_entry_slot list \<Rightarrow> (fs, bool) eff" where
  "undo_staged m [] = retE True"
| "undo_staged m (entry # rest) =
     bindE (cleanup_file (fst (staged_of m entry)) (snd (staged_of m entry))) (\<lambda>b.
     if b then undo_staged m rest else retE False)"

definition undo_dump :: "transaction_manifest \<Rightarrow> string \<Rightarrow> file_identity \<Rightarrow> (fs, recovery_outcome) eff" where
  "undo_dump m mpath manifest_identity =
     bindE (liftE (ok_or (final_directory m) (Validation ''dump manifest has no final directory''))) (\<lambda>(directory, identity).
     bindE (bindE (path_exists directory) (\<lambda>present.
              if present then (case identity of None \<Rightarrow> retE True | Some i \<Rightarrow> identity_matches directory i True)
              else retE False)) (\<lambda>blocked.
     if blocked then retE Pending
     else
       bindE (undo_staged m (entries_of m)) (\<lambda>staged_gone.
       if \<not> staged_gone then retE Pending
       else
         bindE (remove_directory_if_identity (staging_root_of m) (tm_staging_root_identity m)) (\<lambda>gone.
         if \<not> gone then retE Pending
         else
           bindE (remove_if_identity mpath manifest_identity) (\<lambda>_.
           bindE (cleanup_dump_temp_manifest mpath (transaction_id_str m)) (\<lambda>clean.
           retE (if clean then RolledBack else Pending)))))))"

definition recover_dump_parent :: "recovery_env \<Rightarrow> string \<Rightarrow> string \<Rightarrow> (fs, recovery_outcome) eff" where
  "recover_dump_parent env output_parent mpath =
     bindE (read_with_identity_directories (env\<lparr>re_directory_slots := 0\<rparr>) mpath) (\<lambda>(m, manifest_identity).
     bindE (validate_manifest (re_euid env) KindAtomicDirectory (staging_root_of m) output_parent mpath m) (\<lambda>_.
     bindE (complete_final_set m) (\<lambda>complete.
     if complete then finish_dump m output_parent mpath manifest_identity
     else undo_dump m mpath manifest_identity)))"

end
