(* ===== verification/Recovery_Steps.thy ===== *)
theory Recovery_Steps
  imports Recovery
begin

text \<open>
  What each step of recovery does to the files: checks and looks leave everything alone,
  synchronising only adds to the log, and each removal takes at most the one entry whose
  identity was recorded for its path.
\<close>

section \<open>Removals\<close>

abbreviation fs_ok :: "fs \<Rightarrow> bool" where
  "fs_ok s \<equiv> distinct (map fst (fs_entries s))"

text \<open>A path is cleared of an identity when nothing is there or something else is.\<close>

definition cleared :: "fs \<Rightarrow> string \<Rightarrow> file_identity option \<Rightarrow> bool" where
  "cleared s path identity \<longleftrightarrow>
     (case lookup s path of None \<Rightarrow> True | Some n \<Rightarrow> (case identity of None \<Rightarrow> False | Some i \<Rightarrow> in_identity n \<noteq> i))"

lemma cleared_removes: "cleared s path i \<Longrightarrow> removes P s t \<Longrightarrow> fs_ok s \<Longrightarrow> cleared t path i"
  using removes_lookup[of P s t path] by (auto simp: cleared_def split: option.splits)

lemma removes_same: "same_files s t \<Longrightarrow> removes P s t"
  by (rule removes_cong[of _ _ "[]"]) (simp_all add: same_files_def)

lemma removes_fs_remove:
  assumes "lookup s path = Some n" and "P (path_components path) n" and "fs_ok s"
    and "same_files (fs_remove (path_components path) s) t"
  shows "removes P s t"
proof -
  have mem: "(path_components path, n) \<in> set (fs_entries s)" using assms(1) by (auto simp: lookup_def dest: map_of_SomeD)
  have "fs_entries t = filter (\<lambda>(q, _). q \<noteq> path_components path) (fs_entries s)"
    using assms(4) by (simp add: same_files_def fs_remove_def)
  moreover have "P q k" if "(q, k) \<in> set (fs_entries s)" "q = path_components path" for q k
    using that mem assms(2) eq_key_imp_eq_value[OF assms(3)] by blast
  moreover have "fs_log t = fs_log s @ [Removed (path_components path)]"
    using assms(4) by (simp add: same_files_def fs_remove_def)
  ultimately show ?thesis using mem assms(2) by (auto simp: removes_def)
qed

lemma lookup_fs_remove:
  "same_files (fs_remove (path_components path) s) t \<Longrightarrow> lookup t path = None"
  by (auto simp: lookup_def same_files_def fs_remove_def map_of_eq_None_iff)

lemma stat_answer_lookup:
  "stat_answer s (path_components path) (Inr n) \<longleftrightarrow> lookup s path = Some n"
  "stat_answer s (path_components path) (Inl NotFound) \<longleftrightarrow> lookup s path = None"
  by (simp_all add: stat_answer_def lookup_def)

definition owns :: "string \<Rightarrow> file_identity option \<Rightarrow> fs_path \<Rightarrow> inode \<Rightarrow> bool" where
  "owns path identity p n \<longleftrightarrow> p = path_components path \<and> identity = Some (in_identity n)"

lemma wpE_path_exists:
  assumes "\<And>t. same_files s t \<Longrightarrow> Q (lookup s path \<noteq> None) t" and "\<And>t e. same_files s t \<Longrightarrow> E e t"
  shows "wpE (path_exists path) Q E s"
  unfolding path_exists_def wpE_bind
  by (rule wpE_lstat) (use assms in \<open>auto simp: wp stat_answer_def lookup_def split: sum.splits errno.splits\<close>)

lemma wpE_identity_matches_iff:
  assumes "\<And>b t. same_files s t \<Longrightarrow>
      b = (\<exists>n. lookup s path = Some n \<and> in_identity n = i \<and> in_kind n = (if d then Directory else RegularFile)) \<Longrightarrow> Q b t"
    and "\<And>t e. same_files s t \<Longrightarrow> E e t"
  shows "wpE (identity_matches path i d) Q E s"
  unfolding identity_matches_def wpE_bind
proof (rule wpE_lstat)
  fix t and r :: "errno + inode"
  assume t: "same_files s t" and r: "stat_answer s (path_components path) r"
  have "wpE (retE (\<not> is_link n \<and> (if d then in_kind n = Directory else in_kind n = RegularFile) \<and> in_identity n = i)) Q E t"
    if "lookup s path = Some n" for n
    unfolding wpE_basic using t that by (intro assms(1)) (auto simp: is_link_def split: file_kind.split)
  moreover have "wpE (retE False) Q E t" if "lookup s path = None" unfolding wpE_basic by (rule assms(1)[OF t]) (simp add: that)
  moreover have "wpE (failE e) Q E t" for e unfolding wpE_basic by (rule assms(2)[OF t])
  ultimately show "wpE (case r of Inl NotFound \<Rightarrow> retE False
      | Inl e \<Rightarrow> failE (io_error path (show_errno e))
      | Inr n \<Rightarrow> let right_kind = (if d then in_kind n = Directory else in_kind n = RegularFile)
                 in retE (\<not> is_link n \<and> right_kind \<and> in_identity n = i)) Q E t"
    using r by (auto simp: stat_answer_lookup Let_def split: sum.split errno.split)
qed

lemma wpE_identity_matches:
  assumes "\<And>b t. same_files s t \<Longrightarrow>
      (b \<Longrightarrow> \<exists>n. lookup s path = Some n \<and> in_identity n = i \<and> in_kind n = (if d then Directory else RegularFile)) \<Longrightarrow> Q b t"
    and "\<And>t e. same_files s t \<Longrightarrow> E e t"
  shows "wpE (identity_matches path i d) Q E s"
  by (rule wpE_identity_matches_iff) (use assms in auto)

lemma wpE_remove_owned:
  assumes ok: "fs_ok s" and t: "same_files s t" and n: "lookup s path = Some n" and i: "identity = Some (in_identity n)"
    and fails: "\<And>u e. same_files s u \<Longrightarrow> e \<noteq> NotFound \<Longrightarrow> Q (Inl e) u"
    and gone: "\<And>u. removes (owns path identity) s u \<Longrightarrow> lookup u path = None \<Longrightarrow> Q (Inr ()) u"
  shows "in_kind n \<noteq> Directory \<Longrightarrow> wpE (remove_file path) Q E t" and "wpE (remove_dir path) Q E t"
proof -
  have n': "lookup t path = Some n" using n t by (simp add: same_files_lookup)
  have fail': "Q (Inl e) u" if "same_files t u" "e \<noteq> NotFound" for u e
    using same_files_trans[OF t that(1)] that(2) by (rule fails)
  have gone': "Q (Inr ()) u" if u: "same_files (fs_remove (path_components path) t) u" for u
  proof (rule gone)
    have "same_files (fs_remove (path_components path) s) u" using u t by (simp add: same_files_def fs_remove_def)
    then show "removes (owns path identity) s u"
      by (intro removes_fs_remove[OF n _ ok]) (auto simp: owns_def i)
    show "lookup u path = None" using u by (rule lookup_fs_remove)
  qed
  show "wpE (remove_file path) Q E t" if "in_kind n \<noteq> Directory"
    using n' that by (rule wpE_remove_file) (auto intro: fail' gone')
  show "wpE (remove_dir path) Q E t"
    using n' by (rule wpE_remove_dir) (auto intro: fail' gone')
qed

lemma cleared_unless: "lookup s path = Some n \<Longrightarrow> in_identity n \<noteq> i \<Longrightarrow> cleared s path (Some i)"
  "lookup s path = None \<Longrightarrow> cleared s path identity"
  by (simp_all add: cleared_def)

lemma wpE_cleanup_file:
  assumes ok: "fs_ok s"
    and Q: "\<And>b t. removes (owns path identity) s t \<Longrightarrow> (b \<Longrightarrow> cleared t path identity) \<Longrightarrow> Q b t"
    and E: "\<And>e t. same_files s t \<Longrightarrow> E e t"
  shows "wpE (cleanup_file path identity) Q E s"
proof (cases identity)
  case None
  then show ?thesis
    unfolding cleanup_file_def None option.case wpE_bind
    by (intro wpE_path_exists)
      (auto simp: wp cleared_def same_files_lookup removes_same intro!: Q E split: option.splits)
next
  case (Some i)
  show ?thesis
    unfolding cleanup_file_def Some option.case wpE_bind
  proof (rule wpE_lstat)
    fix t and r :: "errno + inode"
    assume t: "same_files s t" and r: "stat_answer s (path_components path) r"
    have keep: "Q b t" if "b \<Longrightarrow> cleared t path (Some i)" for b
      using that Q[OF removes_same[OF t]] by (simp add: Some)
    have rm: "wpE (bindE (remove_file path) (\<lambda>r. case r of Inr _ \<Rightarrow> retE True | Inl NotFound \<Rightarrow> retE True | Inl _ \<Rightarrow> retE False)) Q E t"
      if n: "lookup s path = Some n" "in_identity n = i" "in_kind n = RegularFile" for n
      unfolding wpE_bind using n Some
      by (intro wpE_remove_owned(1)[OF ok t n(1), of identity])
        (auto simp: wp intro!: Q removes_same cleared_unless(2) split: errno.split)
    show "wpE (case r of Inl NotFound \<Rightarrow> retE True
        | Inl e \<Rightarrow> failE (io_error path (show_errno e))
        | Inr n \<Rightarrow> if in_identity n \<noteq> i then retE True
                   else if is_link n \<or> in_kind n \<noteq> RegularFile then retE False
                   else bindE (remove_file path) (\<lambda>r. case r of Inr _ \<Rightarrow> retE True | Inl NotFound \<Rightarrow> retE True | Inl _ \<Rightarrow> retE False)) Q E t"
      using r t rm
      by (auto simp: stat_answer_lookup wp same_files_lookup cleared_def E intro!: keep
          split: sum.split errno.split)
  qed
qed

lemma wpE_remove_directory_if_identity:
  assumes ok: "fs_ok s"
    and Q: "\<And>b t. removes (owns path identity) s t \<Longrightarrow> (b \<Longrightarrow> cleared t path identity) \<Longrightarrow> Q b t"
    and E: "\<And>e t. same_files s t \<Longrightarrow> E e t"
  shows "wpE (remove_directory_if_identity path identity) Q E s"
proof (cases identity)
  case None
  then show ?thesis
    unfolding remove_directory_if_identity_def None option.case wpE_bind
    by (intro wpE_path_exists)
      (auto simp: wp cleared_def same_files_lookup removes_same intro!: Q E split: option.splits)
next
  case (Some i)
  show ?thesis
    unfolding remove_directory_if_identity_def Some option.case wpE_bind
  proof (rule wpE_lstat)
    fix t and r :: "errno + inode"
    assume t: "same_files s t" and r: "stat_answer s (path_components path) r"
    have keep: "Q b t" if "b \<Longrightarrow> cleared t path (Some i)" for b
      using that Q[OF removes_same[OF t]] by (simp add: Some)
    have rm: "wpE (bindE (remove_dir path) (\<lambda>r. case r of Inr _ \<Rightarrow> retE True | Inl NotFound \<Rightarrow> retE True | Inl _ \<Rightarrow> retE False)) Q E t"
      if n: "lookup s path = Some n" "in_identity n = i" for n
      unfolding wpE_bind using n Some
      by (intro wpE_remove_owned(2)[OF ok t n(1), of identity])
        (auto simp: wp intro!: Q removes_same cleared_unless(2) split: errno.split)
    show "wpE (case r of Inl NotFound \<Rightarrow> retE True
        | Inl e \<Rightarrow> failE (io_error path (show_errno e))
        | Inr n \<Rightarrow> if in_identity n \<noteq> i then retE True
                   else if is_link n \<or> in_kind n \<noteq> Directory then retE False
                   else bindE (remove_dir path) (\<lambda>r. case r of Inr _ \<Rightarrow> retE True | Inl NotFound \<Rightarrow> retE True | Inl _ \<Rightarrow> retE False)) Q E t"
      using r t rm
      by (auto simp: stat_answer_lookup wp same_files_lookup cleared_def E intro!: keep
          split: sum.split errno.split)
  qed
qed

lemma wpE_remove_if_identity:
  assumes ok: "fs_ok s"
    and Q: "\<And>t. removes (owns path (Some i)) s t \<Longrightarrow>
        (\<And>n. lookup t path = Some n \<Longrightarrow> in_identity n \<noteq> i \<or> in_kind n \<noteq> RegularFile) \<Longrightarrow> Q () t"
    and E: "\<And>e t. same_files s t \<Longrightarrow> E e t"
  shows "wpE (remove_if_identity path i) Q E s"
  unfolding remove_if_identity_def wpE_bind
proof (rule wpE_lstat)
  fix t and r :: "errno + inode"
  assume t: "same_files s t" and r: "stat_answer s (path_components path) r"
  have keep: "Q () t" if "\<And>n. lookup s path = Some n \<Longrightarrow> in_identity n \<noteq> i \<or> in_kind n \<noteq> RegularFile"
    using that Q[OF removes_same[OF t]] t by (simp add: same_files_lookup)
  have rm: "wpE (bindE (remove_file path) (\<lambda>r. case r of Inr _ \<Rightarrow> retE () | Inl e \<Rightarrow> failE (io_error path (show_errno e)))) Q E t"
    if n: "lookup s path = Some n" "in_identity n = i" "in_kind n = RegularFile" for n
    unfolding wpE_bind using n
    by (intro wpE_remove_owned(1)[OF ok t n(1), of "Some i"]) (auto simp: wp intro!: Q E)
  show "wpE (case r of Inl NotFound \<Rightarrow> retE ()
      | Inl e \<Rightarrow> failE (io_error path (show_errno e))
      | Inr n \<Rightarrow> if in_identity n \<noteq> i then retE ()
                 else if is_link n \<or> in_kind n \<noteq> RegularFile then retE ()
                 else bindE (remove_file path) (\<lambda>r. case r of Inr _ \<Rightarrow> retE () | Inl e \<Rightarrow> failE (io_error path (show_errno e)))) Q E t"
  proof (cases "\<exists>n. r = Inr n \<and> in_identity n = i \<and> in_kind n = RegularFile")
    case True
    then obtain n where n: "r = Inr n" "in_identity n = i" "in_kind n = RegularFile" by blast
    then have "\<not> (is_link n \<or> in_kind n \<noteq> RegularFile)" by (simp add: is_link_def)
    with rm[of n] n r show ?thesis by (simp only: n(1) sum.case if_False not_not if_not_P stat_answer_lookup simp_thms)
  next
    case False
    then show ?thesis
      using r t by (auto simp: stat_answer_lookup wp E is_link_def intro!: keep split: sum.split errno.split file_kind.split)
  qed
qed

section \<open>Everything removed is owned\<close>

lemma only_removesI:
  "(\<And>s. fs_ok s \<Longrightarrow> wpE m (\<lambda>_. removes P s) (\<lambda>_. removes P s) s) \<Longrightarrow> only_removes P m"
  by (simp add: only_removes_def wpE_same)

lemma only_removes_bind_result:
  assumes "only_removes P m" and "\<And>s t x. m s = (t, Inr x) \<Longrightarrow> only_removes P (k x)"
  shows "only_removes P (bindE m k)"
proof -
  have "only_removes P (bindE m (\<lambda>x. if \<exists>s t. m s = (t, Inr x) then k x else failE (Panicked [])))"
    using assms by (intro only_removes_bind) (auto intro: only_removes_basic)
  moreover have "bindE m (\<lambda>x. if \<exists>s t. m s = (t, Inr x) then k x else failE (Panicked [])) = bindE m k"
    by (fastforce simp: bindE_def fun_eq_iff split: prod.split sum.split)
  ultimately show ?thesis by simp
qed

lemma only_removes_owned:
  assumes "\<And>p n. owns path identity p n \<Longrightarrow> P p n"
  shows "only_removes P (cleanup_file path identity)" and "only_removes P (remove_directory_if_identity path identity)"
  by (rule only_removesI, rule wpE_cleanup_file wpE_remove_directory_if_identity;
      use removes_mono[OF _ assms] in \<open>auto intro: removes_same\<close>)+

lemma only_removes_remove_if_identity:
  assumes "\<And>p n. owns path (Some i) p n \<Longrightarrow> P p n"
  shows "only_removes P (remove_if_identity path i)"
  by (rule only_removesI, rule wpE_remove_if_identity) (use removes_mono[OF _ assms] in \<open>auto intro: removes_same\<close>)

lemma only_removes_looks [removal]:
  "only_removes P (path_exists path)" "only_removes P (identity_matches path i d)" "only_removes P (read_manifest_identity path)"
  "only_removes P (sync_directory path)" "only_removes P (sync_owned_directory path i)" "only_removes P (sync_regular_file path i)"
  unfolding path_exists_def identity_matches_def read_manifest_identity_def sync_directory_def sync_owned_directory_def
    sync_regular_file_def
  by (auto simp: Let_def intro!: removal split: sum.split errno.split)

lemma only_removes_reject_prefixes [removal]: "only_removes P (reject_prefixes prefix cs)"
  by (induction cs arbitrary: prefix) (auto intro!: removal split: sum.split errno.split)

lemma only_removes_validate [removal]: "only_removes P (validate_manifest euid kind sr out mpath m)"
  unfolding validate_manifest_def validate_entry_def reject_symlink_path_def
  by (auto intro!: removal split: option.split)

lemma only_removes_read [removal]: "only_removes P (read_with_identity_directories env mpath)"
  unfolding read_with_identity_directories_def read_file_bounded_def
  by (auto intro!: removal split: sum.split)

lemma only_removes_inferred [removal]: "only_removes P (inferred_final_identity m index)"
  unfolding inferred_final_identity_def Let_def by (auto intro!: removal split: option.split)

lemma only_removes_finals_match [removal]: "only_removes P (finals_match m ies)"
  by (induction m ies rule: finals_match.induct) (auto intro!: removal split: option.split)

lemma only_removes_complete [removal]: "only_removes P (complete_final_set m)"
  unfolding complete_final_set_def by (auto intro!: removal split: option.split)

lemma only_removes_only_allowed [removal]: "only_removes P (only_allowed d a es)"
  by (induction es) (auto intro!: removal split: sum.split)

lemma only_removes_contains_only [removal]: "only_removes P (directory_contains_only d a)"
  unfolding directory_contains_only_def by (auto intro!: removal split: sum.split)

lemma only_removes_sync_ancestors [removal]: "only_removes P (sync_ancestors m index parent e)"
proof (induction m index parent e rule: sync_ancestors.induct)
  case (1 m index parent e)
  then show ?case
    by (subst sync_ancestors.simps) (auto simp: Let_def sync_unless_seen_def intro!: removal)
qed

lemma only_removes_sync_directories [removal]:
  "only_removes P (sync_entry_directories m out ie)" "only_removes P (sync_file_set_directories m out)"
  unfolding sync_file_set_directories_def sync_entry_directories_def
  by (auto intro!: removal split: option.split prod.split)

end
