(* ===== verification/Manifest_Roundtrip.thy ===== *)
theory Manifest_Roundtrip
  imports Manifest_Codec
begin

text \<open>
  A manifest that was written is read back as it was: the same fields, the same paths and
  identities for every entry and every created directory, in fresh slots and a fresh arena.
\<close>

section \<open>Growing the arena\<close>

definition grows :: "nat \<Rightarrow> path_arena \<Rightarrow> path_arena \<Rightarrow> bool" where
  "grows n a a' \<longleftrightarrow> arena_ok a' \<and> pa_used a' = pa_used a + n \<and> length (pa_bytes a') = length (pa_bytes a)
     \<and> (\<forall>q. ref_ok a q \<longrightarrow> ref_ok a' q \<and> arena_slice a' q = arena_slice a q)"

definition holds_str :: "path_arena \<Rightarrow> path_ref \<Rightarrow> string \<Rightarrow> bool" where
  "holds_str a r v \<longleftrightarrow> ref_ok a r \<and> arena_slice a r = v \<and> pr_len r = length v"

definition room :: "nat \<Rightarrow> path_arena \<Rightarrow> bool" where
  "room n a \<longleftrightarrow> arena_ok a \<and> pa_used a + n \<le> length (pa_bytes a) \<and> pa_used a + n < u32_lim"

lemma grows_refl: "arena_ok a \<Longrightarrow> grows 0 a a"
  by (simp add: grows_def)

lemma grows_trans: "grows n a b \<Longrightarrow> grows k b c \<Longrightarrow> grows (n + k) a c"
  by (simp add: grows_def)

lemma grows_room: "grows n a b \<Longrightarrow> room (n + k) a \<Longrightarrow> room k b"
  by (simp add: grows_def room_def)

lemma grows_holds: "grows n a b \<Longrightarrow> holds_str a r v \<Longrightarrow> holds_str b r v"
  by (simp add: grows_def holds_str_def)

lemma room_le: "room n a \<Longrightarrow> k \<le> n \<Longrightarrow> room k a"
  by (simp add: room_def)

lemma de_str_ok:
  assumes "room (length v) (tm_path_arena m)"
  obtains r a where "de_str (JStr v) m = Inr (r, m\<lparr>tm_path_arena := a\<rparr>)"
    "grows (length v) (tm_path_arena m) a" "holds_str a r v"
proof -
  from assms have ok: "arena_ok (tm_path_arena m)" by (simp add: room_def)
  obtain r a where push: "arena_push v (tm_path_arena m) = Inr (r, a)"
    using assms u32_lim_le_u64_lim by (auto simp: arena_push_fits room_def)
  note D = arena_push_InrD[OF push ok]
  have "de_str (JStr v) m = Inr (r, m\<lparr>tm_path_arena := a\<rparr>)"
    by (simp add: de_str_def push_path_def push)
  with D show thesis by (intro that) (auto simp: grows_def holds_str_def)
qed

type_synonym path_value = "string \<times> file_identity option"

type_synonym entry_value = "path_value \<times> path_value option \<times> path_value"

definition path_len :: "path_value option \<Rightarrow> nat" where
  "path_len p = (case p of None \<Rightarrow> 0 | Some v \<Rightarrow> length (fst v))"

definition holds_path :: "path_arena \<Rightarrow> path_ref \<times> file_identity option \<Rightarrow> path_value \<Rightarrow> bool" where
  "holds_path a p v \<longleftrightarrow> holds_str a (fst p) (fst v) \<and> snd p = snd v"

definition entry_view :: "transaction_manifest \<Rightarrow> manifest_entry_slot \<Rightarrow> entry_value" where
  "entry_view m e = (staged_of m e, partial_of m e, final_of m e)"

definition ser_view :: "serde_ops \<Rightarrow> entry_value \<Rightarrow> json" where
  "ser_view sd = (\<lambda>(staged, partial, final).
     JObj [(''staged'', ser_path sd staged), (''partial'', ser_option_path sd partial), (''final_path'', ser_path sd final)])"

definition entry_bytes :: "entry_value \<Rightarrow> nat" where
  "entry_bytes = (\<lambda>(staged, partial, final). length (fst staged) + path_len partial + length (fst final))"

definition holds_option :: "path_arena \<Rightarrow> path_ref \<times> file_identity option \<Rightarrow> path_value option \<Rightarrow> bool" where
  "holds_option a p v = (case v of None \<Rightarrow> p = (path_ref_default, None) | Some w \<Rightarrow> holds_path a p w \<and> fst w \<noteq> [])"

definition holds_entry :: "path_arena \<Rightarrow> manifest_entry_slot \<Rightarrow> entry_value \<Rightarrow> bool" where
  "holds_entry a e = (\<lambda>(staged, partial, final).
     holds_path a (me_staged_path e, me_staged_identity e) staged
     \<and> holds_option a (me_partial_path e, me_partial_identity e) partial
     \<and> holds_path a (me_final_path e, me_final_identity e) final)"

definition value_ok :: "entry_value \<Rightarrow> bool" where
  "value_ok = (\<lambda>(_, partial, _). case partial of None \<Rightarrow> True | Some w \<Rightarrow> fst w \<noteq> [])"

lemma grows_holds_all:
  assumes "grows n a b"
  shows "holds_path a p v \<Longrightarrow> holds_path b p v" and "holds_option a p w \<Longrightarrow> holds_option b p w"
    and "holds_entry a e x \<Longrightarrow> holds_entry b e x"
  using grows_holds[OF assms]
  by (auto simp: holds_path_def holds_option_def holds_entry_def split: option.splits prod.splits)

lemma ser_entries_view: "map (ser_entry sd m) es = map (ser_view sd) (map (entry_view m) es)"
  by (simp add: ser_entry_def ser_view_def entry_view_def)

definition directory_value_ok :: "manifest_directory_slot \<Rightarrow> bool" where
  "directory_value_ok d \<longleftrightarrow> md_entry_index d < u32_lim \<and> md_prefix_len d < u32_lim \<and> md_state d \<noteq> None"

text \<open>What a manifest says, its paths resolved, and what it takes to hold it.\<close>

record manifest_content =
  mc_version :: nat
  mc_uid :: nat
  mc_kind :: transaction_kind
  mc_phase :: manifest_phase
  mc_transaction_id :: string
  mc_staging_root :: path_value
  mc_output_root :: string
  mc_final_directory :: "path_value option"
  mc_entries :: "entry_value list"
  mc_directories :: "manifest_directory_slot list"

definition content_of :: "transaction_manifest \<Rightarrow> manifest_content" where
  "content_of m =
     \<lparr>mc_version = tm_version m, mc_uid = tm_uid m, mc_kind = tm_kind m, mc_phase = tm_phase m,
      mc_transaction_id = transaction_id_str m, mc_staging_root = (staging_root_of m, tm_staging_root_identity m),
      mc_output_root = output_root_of m, mc_final_directory = final_directory m,
      mc_entries = map (entry_view m) (entries_of m), mc_directories = directories_of m\<rparr>"

definition content_bytes :: "manifest_content \<Rightarrow> nat" where
  "content_bytes c = length (mc_transaction_id c) + (length (fst (mc_staging_root c)) + (length (mc_output_root c)
     + (path_len (mc_final_directory c) + (\<Sum>x\<leftarrow>mc_entries c. entry_bytes x))))"

definition content_ok :: "manifest_content \<Rightarrow> bool" where
  "content_ok c \<longleftrightarrow> mc_version c < u32_lim \<and> mc_uid c < u32_lim
     \<and> (case mc_final_directory c of None \<Rightarrow> True | Some w \<Rightarrow> fst w \<noteq> [])
     \<and> list_all value_ok (mc_entries c) \<and> list_all directory_value_ok (mc_directories c)
     \<and> (mc_version c \<noteq> MANIFEST_VERSION \<longrightarrow> mc_directories c = [])"

lemma content_of_sel [simp]:
  "mc_version (content_of m) = tm_version m" "mc_uid (content_of m) = tm_uid m"
  "mc_transaction_id (content_of m) = transaction_id_str m"
  "mc_staging_root (content_of m) = (staging_root_of m, tm_staging_root_identity m)"
  "mc_output_root (content_of m) = output_root_of m" "mc_final_directory (content_of m) = final_directory m"
  "mc_entries (content_of m) = map (entry_view m) (entries_of m)" "mc_directories (content_of m) = directories_of m"
  by (simp_all add: content_of_def)

definition head_fields :: "serde_ops \<Rightarrow> transaction_manifest \<Rightarrow> (string \<times> json) list" where
  "head_fields sd m0 =
       [(''version'', se_u32 sd (tm_version m0)), (''uid'', se_u32 sd (tm_uid m0)),
        (''transaction_id'', JStr (transaction_id_str m0)), (''kind'', se_kind sd (tm_kind m0)),
        (''phase'', se_phase sd (tm_phase m0)),
        (''staging_root'', ser_path sd (staging_root_of m0, tm_staging_root_identity m0)),
        (''output_root'', JStr (output_root_of m0)), (''final_directory'', ser_option_path sd (final_directory m0))]"

lemma ser_manifest_head:
  "ser_manifest sd m = JObj (head_fields sd m @ (''entries'', JArr (map (ser_entry sd m) (entries_of m))) #
     (if tm_version m = MANIFEST_VERSION then [(''created_directories'', JArr (map (ser_directory sd) (directories_of m)))] else []))"
  by (simp add: ser_manifest_def head_fields_def)

lemma holds_entry_view: "tm_path_arena m = a \<Longrightarrow> holds_entry a e x \<Longrightarrow> entry_view m e = x"
  by (cases x) (auto simp: holds_entry_def holds_path_def holds_option_def holds_str_def entry_view_def staged_of_def
      partial_of_def final_of_def manifest_path_def path_ref_default_def prod_eq_iff split: option.splits)

lemma list_all2_map_eq: "list_all2 P xs ys \<Longrightarrow> (\<And>x y. P x y \<Longrightarrow> f x = y) \<Longrightarrow> map f xs = ys"
  by (induction rule: list_all2_induct) auto

locale serde_laws =
  fixes sd :: serde_ops
  assumes u32: "n < u32_lim \<Longrightarrow> de_u32 sd (se_u32 sd n) = Inr n"
    and kind: "de_kind sd (se_kind sd k) = Inr k"
    and phase: "de_phase sd (se_phase sd p) = Inr p"
    and identity: "de_identity sd (se_identity sd i) = Inr i"
    and state: "de_state sd (se_state sd (Some st)) = Inr st"
begin

lemma de_path_ok:
  assumes "room (length v) (tm_path_arena m)"
  obtains r a where "de_path sd (ser_path sd (v, i)) m = Inr ((r, i), m\<lparr>tm_path_arena := a\<rparr>)"
    "grows (length v) (tm_path_arena m) a" "holds_str a r v"
proof (rule de_str_ok[OF assms])
  fix r a
  assume "de_str (JStr v) m = Inr (r, m\<lparr>tm_path_arena := a\<rparr>)" "grows (length v) (tm_path_arena m) a" "holds_str a r v"
  then show thesis
    by (intro that) (auto simp: de_path_def ser_path_def de_path_field_def identity)
qed

lemma de_path_holds:
  assumes "room (length (fst v)) (tm_path_arena m)"
  obtains p a where "de_path sd (ser_path sd v) m = Inr (p, m\<lparr>tm_path_arena := a\<rparr>)"
    "grows (length (fst v)) (tm_path_arena m) a" "holds_path a p v"
proof (rule de_path_ok[OF assms, of "snd v"])
  fix r a
  assume "de_path sd (ser_path sd (fst v, snd v)) m = Inr ((r, snd v), m\<lparr>tm_path_arena := a\<rparr>)"
    "grows (length (fst v)) (tm_path_arena m) a" "holds_str a r (fst v)"
  then show thesis by (intro that) (auto simp: holds_path_def)
qed

lemma de_option_path_ok:
  assumes "room (path_len w) (tm_path_arena m)"
  obtains q a where "de_option_path sd (ser_option_path sd w) m = Inr (q, m\<lparr>tm_path_arena := a\<rparr>)"
    "grows (path_len w) (tm_path_arena m) a" "rel_option (holds_path a) q w"
proof (cases w)
  case None
  with assms show thesis
    by (intro that[of None "tm_path_arena m"])
      (auto simp: de_option_path_def ser_option_path_def grows_refl room_def path_len_def)
next
  case (Some v)
  have "room (length (fst v)) (tm_path_arena m)" using assms by (simp add: Some path_len_def)
  then show thesis
  proof (rule de_path_holds)
    fix p a
    assume a: "de_path sd (ser_path sd v) m = Inr (p, m\<lparr>tm_path_arena := a\<rparr>)"
      "grows (length (fst v)) (tm_path_arena m) a" "holds_path a p v"
    have "de_option_path sd (ser_option_path sd w) m = Inr (Some p, m\<lparr>tm_path_arena := a\<rparr>)"
      using a(1) by (simp add: Some ser_option_path_def de_option_path_def ser_path_def split: prod.splits)
    with a(2,3) show thesis by (intro that) (auto simp: Some path_len_def)
  qed
qed

lemma de_entry_ok:
  assumes room: "room (entry_bytes x) (tm_path_arena m)" and i: "i < length (tm_slots m)" and x: "value_ok x"
  obtains e a where "de_entry sd i (ser_view sd x) m = Inr (m\<lparr>tm_path_arena := a, tm_slots := (tm_slots m)[i := e]\<rparr>)"
    "grows (entry_bytes x) (tm_path_arena m) a" "holds_entry a e x"
proof -
  obtain v w z where xv: "x = (v, w, z)" by (cases x)
  have "room (length (fst v)) (tm_path_arena m)" using room by (rule room_le) (simp add: xv entry_bytes_def)
  then obtain p1 a1 where s1: "de_path sd (ser_path sd v) m = Inr (p1, m\<lparr>tm_path_arena := a1\<rparr>)"
    "grows (length (fst v)) (tm_path_arena m) a1" "holds_path a1 p1 v"
    by (rule de_path_holds)
  have r1: "room (path_len w + length (fst z)) a1"
    using grows_room[OF s1(2)] room by (simp add: xv entry_bytes_def add.assoc)
  then have "room (path_len w) (tm_path_arena (m\<lparr>tm_path_arena := a1\<rparr>))" using room_le by simp
  then obtain p2 a2 where s2: "de_option_path sd (ser_option_path sd w) (m\<lparr>tm_path_arena := a1\<rparr>) = Inr (p2, m\<lparr>tm_path_arena := a2\<rparr>)"
    "grows (path_len w) a1 a2" "rel_option (holds_path a2) p2 w"
    by (rule de_option_path_ok) auto
  have "room (length (fst z)) (tm_path_arena (m\<lparr>tm_path_arena := a2\<rparr>))" using grows_room[OF s2(2) r1] by simp
  then obtain p3 a3 where s3: "de_path sd (ser_path sd z) (m\<lparr>tm_path_arena := a2\<rparr>) = Inr (p3, m\<lparr>tm_path_arena := a3\<rparr>)"
    "grows (length (fst z)) a2 a3" "holds_path a3 p3 z"
    by (rule de_path_holds) auto
  define f where "f = \<lparr>ef_staged = p1, ef_partial = p2, ef_final = p3\<rparr>"
  have "de_entry sd i (ser_view sd x) m = Inr (m\<lparr>tm_path_arena := a3, tm_slots := (tm_slots m)[i := slot_of_fields f]\<rparr>)"
    using i by (simp add: de_entry_def ser_view_def xv de_entry_field_def s1(1) s2(1) s3(1) f_def)
  moreover have "grows (entry_bytes x) (tm_path_arena m) a3"
    using grows_trans[OF grows_trans[OF s1(2) s2(2)] s3(2)] by (simp add: xv entry_bytes_def)
  moreover have "holds_path a3 p1 v" using s1(3) grows_holds_all(1) s2(2) s3(2) by blast
  moreover have "holds_option a3 (case p2 of Some q \<Rightarrow> q | None \<Rightarrow> (path_ref_default, None)) w"
    using s2(3) x grows_holds_all(1)[OF s3(2)]
    by (cases w) (auto simp: holds_option_def xv value_ok_def option_rel_Some2)
  ultimately show thesis
    using s3(3) by (intro that) (auto simp: holds_entry_def xv slot_of_fields_def f_def Let_def)
qed

lemma de_entries_ok:
  assumes "room (\<Sum>x\<leftarrow>xs. entry_bytes x) (tm_path_arena m)" and "k + length xs \<le> length (tm_slots m)"
    and "list_all value_ok xs" and "list_all2 (holds_entry (tm_path_arena m)) (take k (tm_slots m)) ys"
  shows "\<exists>slots a. de_elements (de_entry sd) k (map (ser_view sd) xs) m =
            Inr (k + length xs, m\<lparr>tm_path_arena := a, tm_slots := slots\<rparr>)
          \<and> grows (\<Sum>x\<leftarrow>xs. entry_bytes x) (tm_path_arena m) a \<and> length slots = length (tm_slots m)
          \<and> list_all2 (holds_entry a) (take (k + length xs) slots) (ys @ xs)"
  using assms
proof (induction xs arbitrary: k m ys)
  case Nil
  then show ?case
    by (intro exI[of _ "tm_slots m"] exI[of _ "tm_path_arena m"]) (auto simp: grows_refl room_def)
next
  case (Cons x xs)
  have k: "k < length (tm_slots m)" and x: "value_ok x" using Cons.prems(2,3) by simp_all
  have "room (entry_bytes x) (tm_path_arena m)" using Cons.prems(1) by (rule room_le) simp
  then obtain e a where one: "de_entry sd k (ser_view sd x) m = Inr (m\<lparr>tm_path_arena := a, tm_slots := (tm_slots m)[k := e]\<rparr>)"
    and g: "grows (entry_bytes x) (tm_path_arena m) a" and he: "holds_entry a e x"
    using k x by (rule de_entry_ok)
  let ?m = "m\<lparr>tm_path_arena := a, tm_slots := (tm_slots m)[k := e]\<rparr>"
  have "list_all2 (holds_entry a) (take k (tm_slots m)) ys"
    using Cons.prems(4) grows_holds_all(3)[OF g] by (rule list_all2_mono) blast
  then have "list_all2 (holds_entry (tm_path_arena ?m)) (take (Suc k) (tm_slots ?m)) (ys @ [x])"
    using k he by (simp add: take_Suc_conv_app_nth list_all2_appendI)
  moreover have "room (\<Sum>x\<leftarrow>xs. entry_bytes x) (tm_path_arena ?m)"
    using grows_room[OF g] Cons.prems(1) by simp
  ultimately obtain slots b where
    "de_elements (de_entry sd) (Suc k) (map (ser_view sd) xs) ?m = Inr (Suc k + length xs, ?m\<lparr>tm_path_arena := b, tm_slots := slots\<rparr>)"
    "grows (\<Sum>x\<leftarrow>xs. entry_bytes x) a b" "length slots = length (tm_slots m)"
    "list_all2 (holds_entry b) (take (Suc k + length xs) slots) ((ys @ [x]) @ xs)"
    using Cons.IH[of ?m "Suc k" "ys @ [x]"] Cons.prems(2,3) by auto
  with one grows_trans[OF g] show ?case by (intro exI[of _ slots] exI[of _ b]) auto
qed

lemma de_directory_ok:
  assumes "directory_value_ok d" and "i < length (tm_directory_slots m)"
  shows "de_directory sd i (ser_directory sd d) m = Inr (m\<lparr>tm_directory_slots := (tm_directory_slots m)[i := d]\<rparr>)"
proof -
  from assms(1) obtain st where "md_state d = Some st" by (auto simp: directory_value_ok_def)
  with assms show ?thesis
    by (cases d) (simp add: de_directory_def ser_directory_def de_directory_field_def u32 state identity directory_value_ok_def)
qed

lemma de_directories_ok:
  assumes "list_all directory_value_ok ds" and "k + length ds \<le> length (tm_directory_slots m)"
  shows "\<exists>slots. de_elements (de_directory sd) k (map (ser_directory sd) ds) m = Inr (k + length ds, m\<lparr>tm_directory_slots := slots\<rparr>)
           \<and> take (k + length ds) slots = take k (tm_directory_slots m) @ ds"
  using assms
proof (induction ds arbitrary: k m)
  case Nil
  then show ?case by (intro exI[of _ "tm_directory_slots m"]) simp
next
  case (Cons d ds)
  let ?m = "m\<lparr>tm_directory_slots := (tm_directory_slots m)[k := d]\<rparr>"
  have k: "k < length (tm_directory_slots m)" using Cons.prems(2) by simp
  with Cons.prems(1) have one: "de_directory sd k (ser_directory sd d) m = Inr ?m" by (intro de_directory_ok) simp_all
  from Cons.IH[of "Suc k" ?m] Cons.prems obtain slots where
    "de_elements (de_directory sd) (Suc k) (map (ser_directory sd) ds) ?m = Inr (Suc k + length ds, ?m\<lparr>tm_directory_slots := slots\<rparr>)"
    "take (Suc k + length ds) slots = take (Suc k) (tm_directory_slots ?m) @ ds" by auto
  with one k show ?case by (intro exI[of _ slots]) (simp add: take_Suc_conv_app_nth)
qed

text \<open>The fields in front of the entries.\<close>

lemma de_head_ok:
  assumes c: "c = content_of m0" and ok: "content_ok c" and m: "m = parse_start slots dirs bytes"
    and room: "room (content_bytes c) (tm_path_arena m)"
  obtains a r1 p2 r3 p4 where
    "try_fold (de_manifest_field sd) m
       (head_fields sd m0)
     = Inr (m\<lparr>tm_version := tm_version m0, tm_uid := tm_uid m0, tm_kind := tm_kind m0, tm_phase := tm_phase m0,
             tm_transaction_id := r1, tm_staging_root_path := fst p2, tm_staging_root_identity := snd p2,
             tm_output_root := r3, tm_final_directory_path := fst p4, tm_final_directory_identity := snd p4,
             tm_path_arena := a\<rparr>)"
    "room (\<Sum>x\<leftarrow>mc_entries c. entry_bytes x) a" "holds_str a r1 (mc_transaction_id c)" "holds_path a p2 (mc_staging_root c)"
    "holds_str a r3 (mc_output_root c)" "holds_option a p4 (mc_final_directory c)"
proof -
  let ?tail = "\<Sum>x\<leftarrow>mc_entries c. entry_bytes x"
  have u: "tm_version m0 < u32_lim" "tm_uid m0 < u32_lim" using ok by (simp_all add: c content_ok_def content_of_def)
  define m1 where "m1 = m\<lparr>tm_version := tm_version m0, tm_uid := tm_uid m0\<rparr>"
  have "room (length (transaction_id_str m0)) (tm_path_arena m1)"
    using room_le[OF room, of "length (transaction_id_str m0)"] by (simp add: m1_def c content_bytes_def content_of_def)
  then obtain r1 a1 where s1: "de_str (JStr (transaction_id_str m0)) m1 = Inr (r1, m1\<lparr>tm_path_arena := a1\<rparr>)"
    "grows (length (transaction_id_str m0)) (tm_path_arena m) a1" "holds_str a1 r1 (transaction_id_str m0)"
    by (rule de_str_ok) (simp add: m1_def)
  define m2 where "m2 = m1\<lparr>tm_path_arena := a1, tm_transaction_id := r1, tm_kind := tm_kind m0, tm_phase := tm_phase m0\<rparr>"
  define sr where "sr = (staging_root_of m0, tm_staging_root_identity m0)"
  have g1: "room (length (fst sr) + (length (output_root_of m0) + (path_len (final_directory m0) + ?tail))) a1"
    using grows_room[OF s1(2)] room by (simp add: c content_bytes_def content_of_def sr_def)
  then have "room (length (fst sr)) (tm_path_arena m2)" using room_le by (simp add: m2_def)
  then obtain p2 a2 where s2: "de_path sd (ser_path sd sr) m2 = Inr (p2, m2\<lparr>tm_path_arena := a2\<rparr>)"
    "grows (length (fst sr)) a1 a2" "holds_path a2 p2 sr"
    by (rule de_path_holds) (simp add: m2_def)
  define m3 where "m3 = m2\<lparr>tm_path_arena := a2, tm_staging_root_path := fst p2, tm_staging_root_identity := snd p2\<rparr>"
  note g2 = grows_room[OF s2(2) g1]
  then have "room (length (output_root_of m0)) (tm_path_arena m3)" using room_le by (simp add: m3_def)
  then obtain r3 a3 where s3: "de_str (JStr (output_root_of m0)) m3 = Inr (r3, m3\<lparr>tm_path_arena := a3\<rparr>)"
    "grows (length (output_root_of m0)) a2 a3" "holds_str a3 r3 (output_root_of m0)"
    by (rule de_str_ok) (simp add: m3_def)
  define m4 where "m4 = m3\<lparr>tm_path_arena := a3, tm_output_root := r3\<rparr>"
  note g3 = grows_room[OF s3(2) g2]
  then have "room (path_len (final_directory m0)) (tm_path_arena m4)" using room_le by (simp add: m4_def)
  then obtain q4 a4 where s4: "de_option_path sd (ser_option_path sd (final_directory m0)) m4 = Inr (q4, m4\<lparr>tm_path_arena := a4\<rparr>)"
    "grows (path_len (final_directory m0)) a3 a4" "rel_option (holds_path a4) q4 (final_directory m0)"
    by (rule de_option_path_ok) (simp add: m4_def)
  define p4 where "p4 = (case q4 of Some p \<Rightarrow> p | None \<Rightarrow> (path_ref_default, None))"
  have "holds_option a4 p4 (mc_final_directory c)"
    using s4(3) ok by (cases "final_directory m0")
      (auto simp: p4_def c content_of_def content_ok_def holds_option_def option_rel_Some2)
  moreover have "holds_str a4 r1 (mc_transaction_id c)" "holds_path a4 p2 (mc_staging_root c)" "holds_str a4 r3 (mc_output_root c)"
    using s1(3) s2(2,3) s3(2,3) s4(2) grows_holds grows_holds_all(1)
    by (auto simp: c content_of_def sr_def)
  moreover have "room ?tail a4" using grows_room[OF s4(2) g3] .
  moreover note fields = s1(1)[unfolded m1_def] s2(1)[unfolded m2_def m1_def sr_def] s3(1)[unfolded m3_def m2_def m1_def]
    s4(1)[unfolded m4_def m3_def m2_def m1_def]
  ultimately show thesis
    by (intro that[of a4 p4 r3 p2 r1]) (simp_all add: head_fields_def de_manifest_field_def u32 u kind phase p4_def
        case_prod_beta split: option.split)
qed

lemma de_manifest_ser_manifest:
  assumes ok: "content_ok (content_of m)" and used: "content_bytes (content_of m) \<le> length bytes"
    and lim: "content_bytes (content_of m) < u32_lim"
    and slots: "length (entries_of m) \<le> slots" and dirs: "length (directories_of m) \<le> dirs"
  shows "\<exists>m'. de_manifest sd slots dirs bytes (ser_manifest sd m) = Inr m' \<and> content_of m' = content_of m
           \<and> tm_directory_journal_present m' = (tm_version m = MANIFEST_VERSION)"
proof -
  define s where "s = parse_start slots dirs bytes"
  have start: "arena_ok (tm_path_arena s)" "pa_used (tm_path_arena s) = 0" "length (pa_bytes (tm_path_arena s)) = length bytes"
    "length (tm_slots s) = slots" "length (tm_directory_slots s) = dirs" "\<not> tm_directory_journal_present s"
    "tm_directory_count s = 0"
    by (simp_all add: s_def parse_start_def manifest_new_with_directories_def path_arena_new_def arena_ok_def)
  have "room (content_bytes (content_of m)) (tm_path_arena s)" using used lim start by (simp add: room_def)
  then obtain a r1 p2 r3 p4 where
    head: "try_fold (de_manifest_field sd) s (head_fields sd m)
      = Inr (s\<lparr>tm_version := tm_version m, tm_uid := tm_uid m, tm_kind := tm_kind m, tm_phase := tm_phase m,
             tm_transaction_id := r1, tm_staging_root_path := fst p2, tm_staging_root_identity := snd p2,
             tm_output_root := r3, tm_final_directory_path := fst p4, tm_final_directory_identity := snd p4,
             tm_path_arena := a\<rparr>)" (is "_ = Inr ?s1")
    and room: "room (\<Sum>x\<leftarrow>mc_entries (content_of m). entry_bytes x) a"
    and h: "holds_str a r1 (mc_transaction_id (content_of m))" "holds_path a p2 (mc_staging_root (content_of m))"
      "holds_str a r3 (mc_output_root (content_of m))" "holds_option a p4 (mc_final_directory (content_of m))"
    by (rule de_head_ok[OF refl ok s_def])
  obtain es b where
    es: "de_elements (de_entry sd) 0 (map (ser_view sd) (map (entry_view m) (entries_of m))) ?s1
           = Inr (length (entries_of m), ?s1\<lparr>tm_path_arena := b, tm_slots := es\<rparr>)"
    and g: "grows (\<Sum>x\<leftarrow>map (entry_view m) (entries_of m). entry_bytes x) a b"
    and rep: "list_all2 (holds_entry b) (take (length (entries_of m)) es) (map (entry_view m) (entries_of m))"
    using de_entries_ok[of "map (entry_view m) (entries_of m)" ?s1 0 "[]"] room ok slots start(4)
    by (auto simp: content_ok_def)
  define s2 where "s2 = ?s1\<lparr>tm_path_arena := b, tm_slots := es, tm_entry_count := length (entries_of m)\<rparr>"
  obtain ds where ds: "de_elements (de_directory sd) 0 (map (ser_directory sd) (directories_of m)) (s2\<lparr>tm_directory_journal_present := True\<rparr>)
       = Inr (length (directories_of m), s2\<lparr>tm_directory_journal_present := True, tm_directory_slots := ds\<rparr>)"
    "take (length (directories_of m)) ds = directories_of m"
    using de_directories_ok[of "directories_of m" 0 "s2\<lparr>tm_directory_journal_present := True\<rparr>"] ok dirs start(5)
    by (auto simp: content_ok_def content_of_def s2_def)
  define m' where "m' = (if tm_version m = MANIFEST_VERSION
     then s2\<lparr>tm_directory_journal_present := True, tm_directory_slots := ds, tm_directory_count := length (directories_of m)\<rparr> else s2)"
  have one: "de_manifest_field sd ?s1 (''entries'', JArr (map (ser_entry sd m) (entries_of m))) = Inr s2"
    unfolding ser_entries_view by (simp add: de_manifest_field_def de_array_def es[simplified] s2_def)
  have two: "de_manifest_field sd s2 (''created_directories'', JArr (map (ser_directory sd) (directories_of m))) =
      Inr (s2\<lparr>tm_directory_journal_present := True, tm_directory_slots := ds, tm_directory_count := length (directories_of m)\<rparr>)"
    using ds(1) start(6) by (simp add: de_manifest_field_def de_array_def s2_def)
  have fold: "try_fold (de_manifest_field sd) ?s1
      ((''entries'', JArr (map (ser_entry sd m) (entries_of m))) #
       (if tm_version m = MANIFEST_VERSION then [(''created_directories'', JArr (map (ser_directory sd) (directories_of m)))] else []))
      = Inr m'"
    by (simp only: try_fold.simps one bindR_simps m'_def two if_True if_False split: if_split) simp
  have "de_manifest sd slots dirs bytes (ser_manifest sd m) = Inr m'"
    unfolding de_manifest_def ser_manifest_head json.case s_def[symmetric] try_fold_append head bindR_simps fold ..
  moreover have "content_of m' = content_of m"
  proof -
    have sel: "tm_path_arena m' = b" "tm_version m' = tm_version m" "tm_uid m' = tm_uid m" "tm_kind m' = tm_kind m"
      "tm_phase m' = tm_phase m" "tm_transaction_id m' = r1" "tm_staging_root_path m' = fst p2"
      "tm_staging_root_identity m' = snd p2" "tm_output_root m' = r3" "tm_final_directory_path m' = fst p4"
      "tm_final_directory_identity m' = snd p4"
      by (simp_all add: m'_def s2_def)
    note arena = sel(1)
    have "map (entry_view m') (take (length (entries_of m)) es) = map (entry_view m) (entries_of m)"
      using rep holds_entry_view[OF arena] by (rule list_all2_map_eq)
    moreover have "entries_of m' = take (length (entries_of m)) es" by (simp add: m'_def s2_def entries_of_def)
    moreover have "directories_of m' = directories_of m"
      using ds(2) ok start(7) by (auto simp: m'_def s2_def directories_of_def content_ok_def)
    moreover have "manifest_path m' r1 = transaction_id_str m" "manifest_path m' r3 = output_root_of m"
      "manifest_path m' (fst p2) = staging_root_of m" "snd p2 = tm_staging_root_identity m"
      using h(1-3) grows_holds[OF g] by (auto simp: manifest_path_def arena holds_path_def holds_str_def)
    moreover have "final_directory m' = final_directory m"
      using grows_holds_all(2)[OF g h(4)]
      by (cases "final_directory m") (auto simp: final_directory_def[of m'] sel holds_option_def holds_path_def
          holds_str_def manifest_path_def path_ref_default_def)
    ultimately show ?thesis
      by (simp add: content_of_def transaction_id_str_def[of m'] staging_root_of_def[of m'] output_root_of_def[of m'] sel)
  qed
  moreover have "tm_directory_journal_present m' = (tm_version m = MANIFEST_VERSION)"
    using start(6) by (simp add: m'_def s2_def)
  ultimately show ?thesis by blast
qed

end

section \<open>What serde derives\<close>

text \<open>Names in snake case, the phase tagged by the field \<open>state\<close>, an absent identity as null.\<close>

definition kind_name :: "transaction_kind \<Rightarrow> string" where
  "kind_name k = (case k of KindRecall \<Rightarrow> ''recall'' | KindDump \<Rightarrow> ''dump'' | KindFileSet \<Rightarrow> ''file_set''
     | KindAtomicDirectory \<Rightarrow> ''atomic_directory'')"

definition kind_of_json :: "json \<Rightarrow> string + transaction_kind" where
  "kind_of_json j =
     (case j of
        JStr n \<Rightarrow> (case find (\<lambda>k. kind_name k = n) [KindRecall, KindDump, KindFileSet, KindAtomicDirectory] of
                     Some k \<Rightarrow> Inr k | None \<Rightarrow> Inl (''unknown variant '' @ n))
      | _ \<Rightarrow> Inl ''invalid type'')"

definition phase_json :: "manifest_phase \<Rightarrow> json" where
  "phase_json p = (case p of
     Prepared \<Rightarrow> JObj [(''state'', JStr ''prepared'')]
   | Publishing i \<Rightarrow> JObj [(''state'', JStr ''publishing''), (''index'', JNum i)]
   | Complete \<Rightarrow> JObj [(''state'', JStr ''complete'')])"

definition phase_of_json :: "json \<Rightarrow> string + manifest_phase" where
  "phase_of_json j =
     (case j of
        JObj kvs \<Rightarrow>
          (case map_of kvs ''state'' of
             Some (JStr n) \<Rightarrow>
               if n = ''prepared'' then Inr Prepared
               else if n = ''complete'' then Inr Complete
               else if n = ''publishing'' then (case map_of kvs ''index'' of Some (JNum i) \<Rightarrow> Inr (Publishing i) | _ \<Rightarrow> Inl ''missing field index'')
               else Inl (''unknown variant '' @ n)
           | _ \<Rightarrow> Inl ''missing field state'')
      | _ \<Rightarrow> Inl ''invalid type'')"

definition identity_json :: "file_identity option \<Rightarrow> json" where
  "identity_json i = (case i of None \<Rightarrow> JNull
     | Some f \<Rightarrow> JObj [(''device'', JNum (fi_device f)), (''inode'', JNum (fi_inode f))])"

definition identity_of_json :: "json \<Rightarrow> string + file_identity option" where
  "identity_of_json j =
     (case j of
        JNull \<Rightarrow> Inr None
      | JObj kvs \<Rightarrow>
          (case (map_of kvs ''device'', map_of kvs ''inode'') of
             (Some (JNum d), Some (JNum i)) \<Rightarrow>
               if length kvs = 2 then Inr (Some \<lparr>fi_device = d, fi_inode = i\<rparr>) else Inl ''unknown or duplicate field''
           | _ \<Rightarrow> Inl ''missing field'')
      | _ \<Rightarrow> Inl ''invalid type'')"

definition state_json :: "manifest_directory_state option \<Rightarrow> json" where
  "state_json s = (case s of None \<Rightarrow> JNull | Some Intent \<Rightarrow> JStr ''intent'' | Some Owned \<Rightarrow> JStr ''owned'')"

definition state_of_json :: "json \<Rightarrow> string + manifest_directory_state" where
  "state_of_json j = (case j of
     JStr n \<Rightarrow> if n = ''intent'' then Inr Intent else if n = ''owned'' then Inr Owned else Inl (''unknown variant '' @ n)
   | _ \<Rightarrow> Inl ''invalid type'')"

definition u32_of_json :: "json \<Rightarrow> string + nat" where
  "u32_of_json j = (case j of JNum n \<Rightarrow> if n < u32_lim then Inr n else Inl ''invalid value'' | _ \<Rightarrow> Inl ''invalid type'')"

definition derived_ops :: serde_ops where
  "derived_ops = \<lparr>se_u32 = JNum, de_u32 = u32_of_json, se_kind = (\<lambda>k. JStr (kind_name k)), de_kind = kind_of_json,
     se_phase = phase_json, de_phase = phase_of_json, se_identity = identity_json, de_identity = identity_of_json,
     se_state = state_json, de_state = state_of_json\<rparr>"

interpretation derived: serde_laws derived_ops
proof
  fix k :: transaction_kind
  show "de_kind derived_ops (se_kind derived_ops k) = Inr k"
    by (cases k) (simp_all add: derived_ops_def kind_of_json_def kind_name_def)
next
  fix p
  show "de_phase derived_ops (se_phase derived_ops p) = Inr p"
    by (cases p) (simp_all add: derived_ops_def phase_json_def phase_of_json_def)
next
  fix i
  show "de_identity derived_ops (se_identity derived_ops i) = Inr i"
    by (cases i) (simp_all add: derived_ops_def identity_json_def identity_of_json_def)
next
  fix st
  show "de_state derived_ops (se_state derived_ops (Some st)) = Inr st"
    by (cases st) (simp_all add: derived_ops_def state_json_def state_of_json_def)
qed (simp add: derived_ops_def u32_of_json_def)

text \<open>
  (C13) A manifest survives being written and read.  Take any manifest whose numbers fit their
  types, whose created directories carry a state and that a legacy version does not journal, and
  parse what it serialises to into slots and an arena large enough for it, whatever they
  held before: parsing succeeds and yields the same version, user, kind, phase, transaction,
  roots, entries with their staged, partial and final paths and identities, and created
  directories, in order.  The journal counts as present exactly for the current version.
\<close>

theorem manifest_roundtrip:
  assumes "serde_laws sd" and "content_ok (content_of m)"
    and "content_bytes (content_of m) \<le> length bytes" and "content_bytes (content_of m) < u32_lim"
    and "length (entries_of m) \<le> slots" and "length (directories_of m) \<le> directory_slots"
  shows "\<exists>m'. de_manifest sd slots directory_slots bytes (ser_manifest sd m) = Inr m' \<and> content_of m' = content_of m
           \<and> tm_directory_journal_present m' = (tm_version m = MANIFEST_VERSION)"
  using assms by (rule serde_laws.de_manifest_ser_manifest)

text \<open>One staged file about to be published, in a directory the transaction intends to create.\<close>

definition sample_manifest :: transaction_manifest where
  "sample_manifest =
     \<lparr>tm_version = 2, tm_uid = 7, tm_kind = KindFileSet, tm_phase = Publishing 0,
      tm_transaction_id = \<lparr>pr_offset = 0, pr_len = 1\<rparr>, tm_staging_root_path = \<lparr>pr_offset = 1, pr_len = 4\<rparr>,
      tm_staging_root_identity = Some \<lparr>fi_device = 1, fi_inode = 2\<rparr>, tm_output_root = \<lparr>pr_offset = 5, pr_len = 2\<rparr>,
      tm_final_directory_path = path_ref_default, tm_final_directory_identity = None, tm_entry_count = 1,
      tm_slots = [\<lparr>me_staged_path = \<lparr>pr_offset = 7, pr_len = 6\<rparr>, me_staged_identity = Some \<lparr>fi_device = 1, fi_inode = 3\<rparr>,
                   me_partial_path = \<lparr>pr_offset = 13, pr_len = 17\<rparr>, me_partial_identity = None,
                   me_final_path = \<lparr>pr_offset = 30, pr_len = 6\<rparr>, me_final_identity = None\<rparr>],
      tm_directory_slots = [\<lparr>md_entry_index = 0, md_prefix_len = 4, md_state = Some Intent, md_identity = None\<rparr>],
      tm_directory_count = 1, tm_directory_journal_present = True,
      tm_path_arena = \<lparr>pa_bytes = ''t/s/t/o/s/t/f/o/d/.f.t.partial/o/d/f'', pa_used = 36\<rparr>\<rparr>"

lemma sample_manifest_content:
  "content_of sample_manifest =
     \<lparr>mc_version = 2, mc_uid = 7, mc_kind = KindFileSet, mc_phase = Publishing 0, mc_transaction_id = ''t'',
      mc_staging_root = (''/s/t'', Some \<lparr>fi_device = 1, fi_inode = 2\<rparr>), mc_output_root = ''/o'', mc_final_directory = None,
      mc_entries = [((''/s/t/f'', Some \<lparr>fi_device = 1, fi_inode = 3\<rparr>), Some (''/o/d/.f.t.partial'', None), (''/o/d/f'', None))],
      mc_directories = [\<lparr>md_entry_index = 0, md_prefix_len = 4, md_state = Some Intent, md_identity = None\<rparr>]\<rparr>"
  by (simp add: content_of_def sample_manifest_def transaction_id_str_def staging_root_of_def output_root_of_def
      manifest_path_def arena_slice_def final_directory_def path_ref_default_def entries_of_def directories_of_def
      entry_view_def staged_of_def partial_of_def final_of_def)

theorem manifest_roundtrip_witness:
  "\<exists>m'. de_manifest derived_ops 4 4 (replicate 64 (CHR ''x'')) (ser_manifest derived_ops sample_manifest) = Inr m'
        \<and> content_of m' = content_of sample_manifest
        \<and> tm_directory_journal_present m' = (tm_version sample_manifest = MANIFEST_VERSION)"
proof (rule manifest_roundtrip)
  show "serde_laws derived_ops" by unfold_locales
  show "content_ok (content_of sample_manifest)"
    by (simp add: sample_manifest_content content_ok_def value_ok_def directory_value_ok_def u32_lim_def MANIFEST_VERSION_def)
  show "content_bytes (content_of sample_manifest) \<le> length (replicate 64 (CHR ''x''))"
    and "content_bytes (content_of sample_manifest) < u32_lim"
    by (simp_all add: sample_manifest_content content_bytes_def path_len_def entry_bytes_def u32_lim_def)
qed (simp_all add: sample_manifest_def entries_of_def directories_of_def)

end
