(* ===== verification/Recovery_Theorems.thy ===== *)
theory Recovery_Theorems
  imports Recovery_Steps Manifest_Roundtrip "HOL-Library.Code_Target_Nat"
begin

text \<open>
  What recovery promises: it removes nothing but what the manifest records as its own, and when
  it reports a transaction complete or rolled back, the files on disk say so.
\<close>

section \<open>Ownership\<close>

definition owned_by :: "transaction_manifest \<Rightarrow> string \<Rightarrow> file_identity \<Rightarrow> fs_path \<Rightarrow> inode \<Rightarrow> bool" where
  "owned_by m mpath manifest_identity p n \<longleftrightarrow>
     list_ex (\<lambda>e. owns (fst (staged_of m e)) (snd (staged_of m e)) p n
                \<or> (case partial_of m e of None \<Rightarrow> False | Some (pp, i) \<Rightarrow> owns pp i p n)
                \<or> owns (fst (final_of m e)) (me_final_identity e) p n
                \<or> owns (fst (final_of m e)) (me_partial_identity e) p n) (entries_of m)
     \<or> list_ex (\<lambda>d. md_state d = Some Owned
                   \<and> (case directory_path m d of Inl _ \<Rightarrow> False | Inr dp \<Rightarrow> owns dp (md_identity d) p n)) (directories_of m)
     \<or> owns (staging_root_of m) (tm_staging_root_identity m) p n
     \<or> owns mpath (Some manifest_identity) p n
     \<or> (case manifest_temp_path mpath (transaction_id_str m) of Inl _ \<Rightarrow> False
        | Inr temp \<Rightarrow> p = path_components temp \<and> in_kind n = RegularFile)"

lemma owned_by_entry:
  assumes "e \<in> set (entries_of m)"
  shows "owns (fst (staged_of m e)) (snd (staged_of m e)) p n \<Longrightarrow> owned_by m mpath i p n"
    and "partial_of m e = Some (pp, pi) \<Longrightarrow> owns pp pi p n \<Longrightarrow> owned_by m mpath i p n"
    and "owns (fst (final_of m e)) (me_final_identity e) p n \<Longrightarrow> owned_by m mpath i p n"
    and "owns (fst (final_of m e)) (me_partial_identity e) p n \<Longrightarrow> owned_by m mpath i p n"
  using assms unfolding owned_by_def list_ex_iff by (blast, force, blast, blast)

lemma owned_by_rest:
  "d \<in> set (directories_of m) \<Longrightarrow> md_state d = Some Owned \<Longrightarrow> directory_path m d = Inr dp \<Longrightarrow> owns dp (md_identity d) p n
     \<Longrightarrow> owned_by m mpath i p n"
  "owns (staging_root_of m) (tm_staging_root_identity m) p n \<Longrightarrow> owned_by m mpath i p n"
  "owns mpath (Some i) p n \<Longrightarrow> owned_by m mpath i p n"
  "manifest_temp_path mpath (transaction_id_str m) = Inr temp \<Longrightarrow> p = path_components temp \<Longrightarrow> in_kind n = RegularFile
     \<Longrightarrow> owned_by m mpath i p n"
  unfolding owned_by_def list_ex_iff by (force, blast, blast, simp)

lemma inferred_final_identity_result:
  "inferred_final_identity m index s = (t, Inr x) \<Longrightarrow>
     x = None \<or> x = me_final_identity (entries_of m ! index) \<or> x = me_partial_identity (entries_of m ! index)"
  by (auto simp: inferred_final_identity_def Let_def eff_defs split: if_splits option.splits prod.splits sum.splits)

lemma only_removes_temp:
  assumes P: "\<And>temp n. manifest_temp_path mpath tid = Inr temp \<Longrightarrow> in_kind n = RegularFile \<Longrightarrow> P (path_components temp) n"
  shows "only_removes P (cleanup_dump_temp_manifest mpath tid)"
proof (cases "manifest_temp_path mpath tid")
  case (Inl e)
  then show ?thesis by (simp add: cleanup_dump_temp_manifest_def only_removes_def eff_defs)
next
  case (Inr temp)
  show ?thesis
    unfolding cleanup_dump_temp_manifest_def Inr
  proof (rule only_removesI)
    fix s assume ok: "fs_ok s"
    have rm: "wpE (bindE (remove_file temp) (\<lambda>r. case r of Inr _ \<Rightarrow> retE True | Inl NotFound \<Rightarrow> retE True | Inl _ \<Rightarrow> retE False))
        (\<lambda>_. removes P s) (\<lambda>_. removes P s) t"
      if t: "same_files s t" and n: "lookup s temp = Some n" "in_kind n = RegularFile" for t n
      unfolding wpE_bind
    proof (rule wpE_remove_owned(1)[OF ok t n(1) refl])
      fix u assume "removes (owns temp (Some (in_identity n))) s u"
      then have "removes P s u"
        by (rule removes_mono_in) (use n ok P[OF Inr] in \<open>auto simp: owns_def lookup_def dest: eq_key_imp_eq_value\<close>)
      then show "wpE (case Inr () of Inr _ \<Rightarrow> retE True | Inl NotFound \<Rightarrow> retE True | Inl _ \<Rightarrow> retE False)
          (\<lambda>_. removes P s) (\<lambda>_. removes P s) u" by (simp add: wp)
    qed (use n in \<open>auto simp: wp removes_same split: errno.split\<close>)
    show "wpE (bindE (liftE (Inr temp)) (\<lambda>temp_path. bindE (lstat temp_path) (\<lambda>r. case r of
           Inl NotFound \<Rightarrow> retE True
         | Inl e \<Rightarrow> failE (io_error temp_path (show_errno e))
         | Inr n \<Rightarrow> if is_link n \<or> in_kind n \<noteq> RegularFile then retE True
                    else bindE (remove_file temp_path) (\<lambda>r. case r of
                         Inr _ \<Rightarrow> retE True | Inl NotFound \<Rightarrow> retE True | Inl _ \<Rightarrow> retE False))))
        (\<lambda>_. removes P s) (\<lambda>_. removes P s) s"
      unfolding wpE_bind wpE_basic sum.case
      by (rule wpE_lstat) (use rm in \<open>auto simp: wp removes_same stat_answer_lookup split: sum.split errno.split\<close>)
  qed
qed

lemma only_removes_temp_manifest:
  "only_removes (owned_by m mpath i) (cleanup_dump_temp_manifest mpath (transaction_id_str m))"
  by (rule only_removes_temp) (auto intro: owned_by_rest(4))

lemma only_removes_metadata [removal]:
  "only_removes (owned_by m mpath i) (best_effort_remove_recall_metadata m mpath i)"
  unfolding best_effort_remove_recall_metadata_def
  by (auto intro!: removal only_removes_owned only_removes_remove_if_identity intro: owned_by_entry owned_by_rest
      split: option.split)

lemma only_removes_finish_recall [removal]: "only_removes (owned_by m mpath i) (finish_recall m out mpath i)"
  unfolding finish_recall_def sync_final_def by (auto intro!: removal split: option.split prod.split)

lemma only_removes_undo_entry:
  assumes "index < length (entries_of m)"
  shows "only_removes (owned_by m mpath i) (undo_entry m pending (index, entries_of m ! index))"
  unfolding undo_entry_def prod.case
proof (rule only_removes_bind_result)
  fix s t x
  assume "inferred_final_identity m index s = (t, Inr x)"
  from inferred_final_identity_result[OF this] assms
  have "only_removes (owned_by m mpath i) (cleanup_file (fst (final_of m (entries_of m ! index))) x)"
    by (intro only_removes_owned) (auto simp: owns_def intro: owned_by_entry(3,4)[OF nth_mem, of index])
  then show "only_removes (owned_by m mpath i)
      (bindE (cleanup_file (fst (final_of m (entries_of m ! index))) x) (\<lambda>b1.
       bindE (case partial_of m (entries_of m ! index) of None \<Rightarrow> retE True
              | Some (partial_path, partial_identity) \<Rightarrow> cleanup_file partial_path partial_identity) (\<lambda>b2.
       bindE (cleanup_file (fst (staged_of m (entries_of m ! index))) (snd (staged_of m (entries_of m ! index)))) (\<lambda>b3.
       retE (pending \<or> \<not> b1 \<or> \<not> b2 \<or> \<not> b3)))))"
    using nth_mem[OF assms]
    by (auto intro!: removal only_removes_owned intro: owned_by_entry split: option.split)
qed (rule removal)

lemma only_removes_undo_recall [removal]: "only_removes (owned_by m mpath i) (undo_recall m mpath i)"
proof -
  have "only_removes (owned_by m mpath i) (undo_entry m b x)" if "x \<in> set (enumerate 0 (entries_of m))" for b x
    using that only_removes_undo_entry by (auto simp: in_set_conv_nth nth_enumerate_eq)
  moreover have "only_removes (owned_by m mpath i)
      (bindE (liftE (directory_path m d)) (\<lambda>path. bindE (remove_directory_if_identity path (md_identity d)) (\<lambda>_. retE ())))"
    if "d \<in> set (directories_of m)" "md_state d = Some Owned" for d
    by (rule only_removes_bind_result)
      (auto simp: liftE_def intro!: removal only_removes_owned intro: owned_by_rest(1)[OF that])
  ultimately show ?thesis
    unfolding undo_recall_def drop_directories_def drop_staging_def
    by (auto intro!: removal only_removes_owned only_removes_remove_if_identity; blast intro: owned_by_rest(2,3))
qed

lemma only_removes_finish_dump [removal]: "only_removes (owned_by m mpath i) (finish_dump m out mpath i)"
  unfolding finish_dump_def
  by (auto intro!: removal only_removes_temp_manifest only_removes_remove_if_identity owned_by_rest(3) split: prod.split)

lemma only_removes_undo_staged:
  "set es \<subseteq> set (entries_of m) \<Longrightarrow> only_removes (owned_by m mpath i) (undo_staged m es)"
  by (induction es) (auto intro!: removal only_removes_owned intro: owned_by_entry(1))

lemma only_removes_undo_dump [removal]: "only_removes (owned_by m mpath i) (undo_dump m mpath i)"
  unfolding undo_dump_def
  by (auto intro!: removal only_removes_undo_staged only_removes_owned only_removes_temp_manifest only_removes_remove_if_identity
      split: prod.split option.split; blast intro: owned_by_rest(2,3))

lemma removes_after_read:
  assumes "fs_ok s" and "\<And>m i. only_removes (owned_by m mpath i) (k (m, i))"
  shows "removes (\<lambda>p n. case snd (read_with_identity_directories env mpath s) of Inl _ \<Rightarrow> False | Inr (m, i) \<Rightarrow> owned_by m mpath i p n)
           s (fst (bindE (read_with_identity_directories env mpath) k s))"
proof -
  obtain t r where t: "read_with_identity_directories env mpath s = (t, r)" by force
  have "removes Q s t" for Q
    using only_removes_read[of Q env mpath] assms(1) t by (metis only_removes_def fst_conv)
  note st = this and ok = removes_distinct[OF this assms(1)]
  show ?thesis
  proof (cases r)
    case (Inl e)
    then show ?thesis using st by (simp add: bindE_def t)
  next
    case (Inr mi)
    obtain m i where mi: "mi = (m, i)" by force
    have "removes (owned_by m mpath i) t (fst (k (m, i) t))"
      using assms(2) ok by (simp add: only_removes_def)
    then show ?thesis by (simp add: bindE_def t Inr mi removes_trans[OF st])
  qed
qed

text \<open>
  (C10) Recovery removes only what the transaction owns.  For any content of the file system, any
  manifest found there and any pattern of failing system calls, recovering a file-set or a
  directory transaction creates and changes nothing, and every entry that is gone afterwards
  either carried exactly the identity the manifest records for its path (a staged, partial or
  final file, a directory the transaction created, the staging root, the manifest itself) or was
  the transaction's own temporary manifest.  When the manifest cannot be read nothing is removed.
\<close>

theorem recovery_removes_only_owned:
  assumes "distinct (map fst (fs_entries s))"
  shows "removes (\<lambda>p n. case snd (read_with_identity_directories env (path_join root RECALL_MANIFEST_NAME) s) of
             Inl _ \<Rightarrow> False
           | Inr (m, i) \<Rightarrow> owned_by m (path_join root RECALL_MANIFEST_NAME) i p n)
           s (fst (recover_recall_root_with_directories env root output_root s))
       \<and> removes (\<lambda>p n. case snd (read_with_identity_directories (env\<lparr>re_directory_slots := 0\<rparr>) mpath s) of
             Inl _ \<Rightarrow> False
           | Inr (m, i) \<Rightarrow> owned_by m mpath i p n)
           s (fst (recover_dump_parent env output_parent mpath s))"
  unfolding recover_recall_root_with_directories_def recover_dump_parent_def Let_def
  by (intro conjI removes_after_read[OF assms]) (auto intro!: removal)

section \<open>A run\<close>

text \<open>One staged file, its manifest and the staging directory, found after a crash before publication.\<close>

definition sample_fs :: fs where
  "sample_fs =
     \<lparr>fs_entries =
        [([RootDir], \<lparr>in_identity = \<lparr>fi_device = 1, fi_inode = 1\<rparr>, in_kind = Directory, in_data = []\<rparr>),
         ([RootDir, Normal ''s''], \<lparr>in_identity = \<lparr>fi_device = 1, fi_inode = 8\<rparr>, in_kind = Directory, in_data = []\<rparr>),
         ([RootDir, Normal ''o''], \<lparr>in_identity = \<lparr>fi_device = 1, fi_inode = 9\<rparr>, in_kind = Directory, in_data = []\<rparr>),
         ([RootDir, Normal ''s'', Normal ''t''], \<lparr>in_identity = \<lparr>fi_device = 1, fi_inode = 2\<rparr>, in_kind = Directory, in_data = []\<rparr>),
         ([RootDir, Normal ''s'', Normal ''t'', Normal ''manifest.json''],
            \<lparr>in_identity = \<lparr>fi_device = 1, fi_inode = 4\<rparr>, in_kind = RegularFile, in_data = ''m''\<rparr>),
         ([RootDir, Normal ''s'', Normal ''t'', Normal ''f''],
            \<lparr>in_identity = \<lparr>fi_device = 1, fi_inode = 3\<rparr>, in_kind = RegularFile, in_data = ''w''\<rparr>)],
      fs_faults = [], fs_log = []\<rparr>"

definition sample_env :: recovery_env where
  "sample_env =
     \<lparr>re_euid = 7, re_serde = derived_ops, re_first_json = (\<lambda>_. Inr (ser_manifest derived_ops sample_manifest)), re_buffer = 16,
      re_slots = 1, re_directory_slots = 1, re_path_bytes = replicate 40 (CHR ''x'')\<rparr>"

lemma sample_run:
  "snd (recover_recall_root_with_directories sample_env ''/s/t'' ''/o'' sample_fs) = Inr RolledBack"
  "map fst (fs_entries (fst (recover_recall_root_with_directories sample_env ''/s/t'' ''/o'' sample_fs)))
     = [[RootDir], [RootDir, Normal ''s''], [RootDir, Normal ''o'']]"
  "distinct (map fst (fs_entries sample_fs))"
  by code_simp+

theorem recovery_removes_only_owned_witness:
  "length (fs_entries (fst (recover_recall_root_with_directories sample_env ''/s/t'' ''/o'' sample_fs))) = 3
   \<and> removes (\<lambda>p n. case snd (read_with_identity_directories sample_env (path_join ''/s/t'' RECALL_MANIFEST_NAME) sample_fs) of
             Inl _ \<Rightarrow> False
           | Inr (m, i) \<Rightarrow> owned_by m (path_join ''/s/t'' RECALL_MANIFEST_NAME) i p n)
           sample_fs (fst (recover_recall_root_with_directories sample_env ''/s/t'' ''/o'' sample_fs))
   \<and> removes (\<lambda>p n. case snd (read_with_identity_directories (sample_env\<lparr>re_directory_slots := 0\<rparr>) ''/o/.t.manifest.json'' sample_fs) of
             Inl _ \<Rightarrow> False
           | Inr (m, i) \<Rightarrow> owned_by m ''/o/.t.manifest.json'' i p n)
           sample_fs (fst (recover_dump_parent sample_env ''/o'' ''/o/.t.manifest.json'' sample_fs))"
  using recovery_removes_only_owned[where env=sample_env and root="''/s/t''" and output_root="''/o''" and output_parent="''/o''"
      and mpath="''/o/.t.manifest.json''", OF sample_run(3)]
    arg_cong[OF sample_run(2), of length] by simp

end
