(* ===== verification/Recovery_Outcomes.thy ===== *)
theory Recovery_Outcomes
  imports Recovery_Theorems
begin

text \<open>
  The outcome recovery reports and the files it leaves: complete means that every final file is
  in place and was synchronised before anything was removed, rolled back means that nothing of
  the transaction is left, pending means that the manifest is still there to try again or that
  all files of the transaction are gone.
\<close>

section \<open>What the check establishes\<close>

definition entry_paths :: "transaction_manifest \<Rightarrow> manifest_entry_slot \<Rightarrow> fs_path list" where
  "entry_paths m e = (case partial_of m e of None \<Rightarrow> [] | Some (pp, _) \<Rightarrow> [path_components pp])
     @ [path_components (fst (staged_of m e)), path_components (fst (final_of m e))]"

lemma insert_unique_path_InrD:
  "insert_unique_path paths p = Inr paths' \<Longrightarrow> path_components p \<notin> paths \<and> paths' = insert (path_components p) paths"
  by (auto simp: insert_unique_path_def split: if_splits)

lemma validate_entry_kind_InrD:
  assumes "validate_entry_kind kind m paths e = Inr q"
  shows "case partial_of m e of None \<Rightarrow> q = paths
      | Some (pp, _) \<Rightarrow> path_components pp \<notin> paths \<and> q = insert (path_components pp) paths"
  using assms unfolding validate_entry_kind_def
  by (auto simp: validate_partial_def bindR_Inr_iff split: if_splits option.splits prod.splits dest!: insert_unique_path_InrD)

lemma validate_entry_paths_InrD:
  assumes "validate_entry_paths kind sr out m paths e = Inr paths'"
  shows "distinct (entry_paths m e) \<and> set (entry_paths m e) \<inter> paths = {} \<and> paths' = paths \<union> set (entry_paths m e)"
proof -
  from assms obtain q q2 where "validate_entry_kind kind m paths e = Inr q"
    "insert_unique_path q (fst (staged_of m e)) = Inr q2" "insert_unique_path q2 (fst (final_of m e)) = Inr paths'"
    unfolding validate_entry_paths_def Let_def bindR_Inr_iff by blast
  from validate_entry_kind_InrD[OF this(1)] this(2,3)[THEN insert_unique_path_InrD] show ?thesis
    by (auto simp: entry_paths_def split: option.splits)
qed

lemma validate_entries_InrD:
  assumes "foldE (validate_entry kind sr out m) paths es s = (t, Inr paths')"
  shows "distinct (concat (map (entry_paths m) es)) \<and> set (concat (map (entry_paths m) es)) \<inter> paths = {}"
  using assms
proof (induction es arbitrary: paths s)
  case Nil
  then show ?case by simp
next
  case (Cons e es)
  then obtain u q where one: "validate_entry kind sr out m paths e s = (u, Inr q)"
    and more: "foldE (validate_entry kind sr out m) q es u = (t, Inr paths')"
    by (auto simp: bindE_def split: prod.splits sum.splits)
  from one have "validate_entry_paths kind sr out m paths e = Inr q"
    by (auto simp: validate_entry_def bindE_def liftE_def retE_def split: prod.splits sum.splits)
  from validate_entry_paths_InrD[OF this] Cons.IH[OF more] show ?case by auto
qed

definition manifest_paths :: "transaction_manifest \<Rightarrow> string \<Rightarrow> fs_path list" where
  "manifest_paths m mpath = path_components (staging_root_of m) # path_components mpath # concat (map (entry_paths m) (entries_of m))"

lemma validate_manifest_InrD:
  assumes "validate_manifest euid kind sr out mpath m s = (t, Inr u)"
  shows "distinct (manifest_paths m mpath)" and "validate_phase_state m = Inr ()"
    and "kind_expected kind (tm_version m) (tm_kind m)"
proof -
  note run = assms[unfolded validate_manifest_def bindE_def liftE_def ensureE_def]
  obtain p1 p2 p3 v w q where p1: "insert_unique_path {} (staging_root_of m) = Inr p1"
    and p2: "insert_unique_path p1 mpath = Inr p2" and p3: "validate_final_directory kind out m p2 = Inr p3"
    and es: "foldE (validate_entry kind sr out m) p3 (entries_of m) v = (w, Inr q)"
    and ph: "validate_phase_state m = Inr ()" and k: "kind_expected kind (tm_version m) (tm_kind m)"
    using run by (auto split: prod.splits sum.splits if_splits)
  have "p2 \<subseteq> p3" using p3
    by (auto simp: validate_final_directory_def bindR_Inr_iff split: if_splits option.splits prod.splits dest!: insert_unique_path_InrD)
  with insert_unique_path_InrD[OF p1] insert_unique_path_InrD[OF p2] validate_entries_InrD[OF es]
  show "distinct (manifest_paths m mpath)" by (auto simp: manifest_paths_def)
  show "validate_phase_state m = Inr ()" "kind_expected kind (tm_version m) (tm_kind m)" by (fact ph k)+
qed

section \<open>Undoing\<close>

lemma wpE_only_removes:
  assumes "only_removes P m" and "fs_ok s" and "\<And>x t. removes P s t \<Longrightarrow> Q x t" and "\<And>e t. removes P s t \<Longrightarrow> E e t"
  shows "wpE m Q E s"
proof -
  have "removes P s (fst (m s))" using assms(1,2) by (simp add: only_removes_def)
  with assms(3,4) show ?thesis by (auto simp: wpE_def split: prod.split sum.split)
qed

definition gone :: "fs \<Rightarrow> string \<Rightarrow> file_identity option \<Rightarrow> bool" where
  "gone s path identity = (case lookup s path of None \<Rightarrow> True | Some n \<Rightarrow> identity \<noteq> Some (in_identity n))"

definition undone :: "fs \<Rightarrow> transaction_manifest \<Rightarrow> manifest_entry_slot \<Rightarrow> bool" where
  "undone s m e \<longleftrightarrow>
     gone s (fst (final_of m e)) (me_final_identity e) \<and> gone s (fst (final_of m e)) (me_partial_identity e)
     \<and> (case partial_of m e of None \<Rightarrow> True | Some (pp, i) \<Rightarrow> gone s pp i)
     \<and> gone s (fst (staged_of m e)) (me_staged_identity e)"

lemma cleared_gone: "cleared s path i \<Longrightarrow> gone s path i" "cleared s path None \<Longrightarrow> gone s path i"
  by (auto simp: cleared_def gone_def split: option.splits)

lemma gone_removes: "gone s path i \<Longrightarrow> removes P s t \<Longrightarrow> fs_ok s \<Longrightarrow> gone t path i"
  using removes_lookup[of P s t path] by (auto simp: gone_def split: option.splits)

lemma undone_removes: "undone s m e \<Longrightarrow> removes P s t \<Longrightarrow> fs_ok s \<Longrightarrow> undone t m e"
  by (auto simp: undone_def intro: gone_removes split: option.splits)

lemma wpE_inferred:
  assumes "\<And>x t. same_files s t \<Longrightarrow>
      x = me_final_identity (entries_of m ! index) \<and> x \<noteq> None
      \<or> me_final_identity (entries_of m ! index) = None \<and> (x = None \<or> x = me_partial_identity (entries_of m ! index)) \<Longrightarrow> Q x t"
    and "\<And>e t. same_files s t \<Longrightarrow> E e t"
  shows "wpE (inferred_final_identity m index) Q E s"
  unfolding inferred_final_identity_def Let_def
  by (auto simp: wp intro!: wpE_path_exists assms split: option.split if_splits)

definition not_both :: "manifest_entry_slot \<Rightarrow> bool" where
  "not_both e \<longleftrightarrow> me_final_identity e = None \<or> me_partial_identity e = None"

lemma wpE_undo_entry:
  assumes ok: "fs_ok s" and e: "e = entries_of m ! index" and nb: "not_both e"
  shows "wpE (undo_entry m pending (index, e))
           (\<lambda>b t. removes (\<lambda>p _. p \<in> set (entry_paths m e)) s t \<and> (\<not> b \<longrightarrow> \<not> pending \<and> undone t m e))
           (\<lambda>_ _. True) s"
proof -
  let ?P = "\<lambda>p _. p \<in> set (entry_paths m e)"
  have final: "owns (fst (final_of m e)) x p n \<Longrightarrow> ?P p n" and staged: "owns (fst (staged_of m e)) y p n \<Longrightarrow> ?P p n"
    and part: "partial_of m e = Some (pp, z) \<Longrightarrow> owns pp z p n \<Longrightarrow> ?P p n" for x y z pp p n
    by (simp_all add: owns_def entry_paths_def)
  have step: "removes ?P s u \<and> fs_ok u" if "removes ?P s t" "removes Q t u" "\<And>p n. Q p n \<Longrightarrow> ?P p n" for t u Q
  proof -
    have "removes ?P t u" using that(2,3) by (rule removes_mono)
    with that(1) have "removes ?P s u" by (rule removes_trans)
    with removes_distinct[OF this ok] show ?thesis by blast
  qed
  show ?thesis
    unfolding undo_entry_def prod.case wpE_bind
  proof (rule wpE_inferred)
    fix x t
    assume t: "same_files s t"
      and "x = me_final_identity (entries_of m ! index) \<and> x \<noteq> None
        \<or> me_final_identity (entries_of m ! index) = None \<and> (x = None \<or> x = me_partial_identity (entries_of m ! index))"
    note x = this(2)[folded e]
    have okt: "fs_ok t" "removes ?P s t" using ok t by (auto simp: same_files_def intro: removes_same)
    show "wpE (cleanup_file (fst (final_of m e)) x) (\<lambda>b1. wpE (case partial_of m e of None \<Rightarrow> retE True
           | Some (partial_path, partial_identity) \<Rightarrow> cleanup_file partial_path partial_identity) (\<lambda>b2.
           wpE (cleanup_file (fst (staged_of m e)) (snd (staged_of m e))) (\<lambda>b3. wpE (retE (pending \<or> \<not> b1 \<or> \<not> b2 \<or> \<not> b3))
             (\<lambda>b t. removes ?P s t \<and> (\<not> b \<longrightarrow> \<not> pending \<and> undone t m e)) (\<lambda>_ _. True)) (\<lambda>_ _. True)) (\<lambda>_ _. True)) (\<lambda>_ _. True) t"
    proof (rule wpE_cleanup_file[OF okt(1)])
      fix b1 u
      assume u: "removes (owns (fst (final_of m e)) x) t u" "b1 \<Longrightarrow> cleared u (fst (final_of m e)) x"
      have su: "removes ?P s u" "fs_ok u" using step[OF okt(2) u(1)] final by blast+
      have fin: "b1 \<Longrightarrow> gone u (fst (final_of m e)) (me_final_identity e) \<and> gone u (fst (final_of m e)) (me_partial_identity e)"
        using u(2) x nb by (auto simp: not_both_def intro: cleared_gone) (auto simp: gone_def split: option.splits)
      have rest: "wpE (cleanup_file (fst (staged_of m e)) (snd (staged_of m e))) (\<lambda>b3. wpE (retE (pending \<or> \<not> b1 \<or> \<not> b2 \<or> \<not> b3))
             (\<lambda>b t. removes ?P s t \<and> (\<not> b \<longrightarrow> \<not> pending \<and> undone t m e)) (\<lambda>_ _. True)) (\<lambda>_ _. True) v"
        if v: "removes ?P u v" and b2: "b2 \<Longrightarrow> case partial_of m e of None \<Rightarrow> True | Some (pp, i) \<Rightarrow> gone v pp i" for b2 v
      proof (rule wpE_cleanup_file)
        show okv: "fs_ok v" using removes_distinct[OF v] su by blast
        fix b3 w
        assume w: "removes (owns (fst (staged_of m e)) (snd (staged_of m e))) v w" "b3 \<Longrightarrow> cleared w (fst (staged_of m e)) (snd (staged_of m e))"
        have "removes ?P v w" using w(1) by (rule removes_mono) (rule staged)
        then have "removes ?P s w" using removes_trans[OF su(1) v] removes_trans by blast
        moreover have "undone w m e" if "b1" "b2" "b3"
          using fin[OF that(1)] b2[OF that(2)] w(2)[OF that(3)] gone_removes[OF _ v] gone_removes[OF _ w(1) okv] su
          by (auto simp: undone_def staged_of_def intro: cleared_gone split: option.splits)
        ultimately show "wpE (retE (pending \<or> \<not> b1 \<or> \<not> b2 \<or> \<not> b3))
             (\<lambda>b t. removes ?P s t \<and> (\<not> b \<longrightarrow> \<not> pending \<and> undone t m e)) (\<lambda>_ _. True) w" by (simp add: wp)
      qed simp
      show "wpE (case partial_of m e of None \<Rightarrow> retE True
           | Some (partial_path, partial_identity) \<Rightarrow> cleanup_file partial_path partial_identity) (\<lambda>b2.
           wpE (cleanup_file (fst (staged_of m e)) (snd (staged_of m e))) (\<lambda>b3. wpE (retE (pending \<or> \<not> b1 \<or> \<not> b2 \<or> \<not> b3))
             (\<lambda>b t. removes ?P s t \<and> (\<not> b \<longrightarrow> \<not> pending \<and> undone t m e)) (\<lambda>_ _. True)) (\<lambda>_ _. True)) (\<lambda>_ _. True) u"
      proof (cases "partial_of m e")
        case None
        then show ?thesis using rest[OF removes_refl, of True] by (simp add: wp)
      next
        case (Some ppi)
        obtain pp i where ppi: "ppi = (pp, i)" by force
        show ?thesis
          unfolding Some ppi option.case prod.case
        proof (rule wpE_cleanup_file[OF su(2)])
          fix b2 v
          assume v: "removes (owns pp i) u v" "b2 \<Longrightarrow> cleared v pp i"
          from v(1) have "removes ?P u v" by (rule removes_mono) (rule part[OF Some[unfolded ppi]])
          with v(2) show "wpE (cleanup_file (fst (staged_of m e)) (snd (staged_of m e))) (\<lambda>b3. wpE (retE (pending \<or> \<not> b1 \<or> \<not> b2 \<or> \<not> b3))
             (\<lambda>b t. removes ?P s t \<and> (\<not> b \<longrightarrow> \<not> pending \<and> undone t m e)) (\<lambda>_ _. True)) (\<lambda>_ _. True) v"
            by (intro rest) (auto simp: Some ppi intro: cleared_gone)
        qed simp
      qed
    qed simp
  qed simp
qed

section \<open>Loops and removals\<close>

lemma wpE_then:
  assumes "wpE m Q' E' s" and "\<And>e t. E' e t \<Longrightarrow> E e t" and "\<And>x t. Q' x t \<Longrightarrow> wpE (k x) Q E t"
  shows "wpE (bindE m k) Q E s"
  unfolding wpE_bind using assms(1) by (rule wpE_mono) (fact assms(2,3))+

lemma wpE_for:
  assumes "P ys s" and "\<And>zs x t. P zs t \<Longrightarrow> x \<in> set xs \<Longrightarrow> wpE (f x) (\<lambda>_. P (zs @ [x])) E t"
  shows "wpE (forE f xs) (\<lambda>_. P (ys @ xs)) E s"
  using assms
proof (induction xs arbitrary: ys s)
  case Nil
  then show ?case by (simp add: wp)
next
  case (Cons x xs)
  have "wpE (forE f xs) (\<lambda>_. P ((ys @ [x]) @ xs)) E t" if "P (ys @ [x]) t" for t
    using that Cons.prems(2) by (intro Cons.IH) auto
  then show ?case unfolding forE.simps by (intro wpE_seq[OF Cons.prems(2)[OF Cons.prems(1)]]) auto
qed

lemma wpE_fold:
  assumes "P ys c s" and "\<And>zs d x t. P zs d t \<Longrightarrow> x \<in> set xs \<Longrightarrow> wpE (f d x) (\<lambda>d'. P (zs @ [x]) d') E t"
  shows "wpE (foldE f c xs) (\<lambda>d. P (ys @ xs) d) E s"
  using assms
proof (induction xs arbitrary: ys c s)
  case Nil
  then show ?case by (simp add: wp)
next
  case (Cons x xs)
  have "wpE (foldE f d xs) (\<lambda>d. P ((ys @ [x]) @ xs) d) E t" if "P (ys @ [x]) d t" for d t
    using that Cons.prems(2) by (intro Cons.IH) auto
  then show ?case unfolding foldE.simps by (intro wpE_seq[OF Cons.prems(2)[OF Cons.prems(1)]]) auto
qed

lemma wpE_and_removes:
  "only_removes P m \<Longrightarrow> fs_ok s \<Longrightarrow> wpE m Q E s \<Longrightarrow> wpE m (\<lambda>x t. Q x t \<and> removes P s t) (\<lambda>e t. E e t \<and> removes P s t) s"
  by (auto simp: wpE_def only_removes_def split: prod.splits sum.splits)

lemma removes_keeps:
  "removes P s t \<Longrightarrow> fs_ok s \<Longrightarrow> (\<And>n. \<not> P (path_components p) n) \<Longrightarrow> lookup t p = lookup s p"
  using removes_lookup by blast

section \<open>Undoing a file set\<close>

lemma file_set_not_both:
  assumes "validate_phase_state m = Inr ()" and "kind_expected KindFileSet (tm_version m) (tm_kind m)" and "e \<in> set (entries_of m)"
  shows "not_both e"
proof -
  obtain i where "i < length (entries_of m)" "e = entries_of m ! i" using assms(3) by (auto simp: in_set_conv_nth)
  then have i: "(i, e) \<in> set (enumerate 0 (entries_of m))" by (simp add: in_set_enumerate_eq)
  have "\<not> directory_strategy (tm_kind m)" using assms(2) by (auto simp: kind_expected_def directory_strategy_def)
  with assms(1,3) i show ?thesis
    by (auto simp: validate_phase_state_def ensure_def list_ex_iff list_all_iff publishing_entry_ok_def not_both_def
        split: manifest_phase.splits if_splits)
qed

lemma only_removes_entry_paths: "only_removes (\<lambda>p _. p \<in> set (entry_paths m e)) (undo_entry m pending (index, e))"
  unfolding undo_entry_def prod.case
  by (auto simp: entry_paths_def owns_def intro!: removal only_removes_owned split: option.split)

abbreviation entry_path_set :: "transaction_manifest \<Rightarrow> fs_path set" where
  "entry_path_set m \<equiv> set (concat (map (entry_paths m) (entries_of m)))"

lemma wpE_undo_entries:
  assumes ok: "fs_ok s" and nb: "\<And>e. e \<in> set (entries_of m) \<Longrightarrow> not_both e"
  shows "wpE (foldE (undo_entry m) False (enumerate 0 (entries_of m)))
      (\<lambda>b t. (\<not> b \<longrightarrow> list_all (undone t m) (entries_of m)) \<and> removes (\<lambda>p _. p \<in> entry_path_set m) s t)
      (\<lambda>_ t. removes (\<lambda>p _. p \<in> entry_path_set m) s t) s"
proof -
  let ?I = "\<lambda>ys b t. removes (\<lambda>_ _. True) s t \<and> (\<not> b \<longrightarrow> list_all (undone t m) (map snd ys))"
  have snd: "map snd (enumerate 0 (entries_of m)) = entries_of m" by (simp add: enumerate_eq_zip)
  have one: "wpE (undo_entry m b x) (\<lambda>b'. ?I (ys @ [x]) b') (\<lambda>_ _. True) t"
    if I: "?I ys b t" and x: "x \<in> set (enumerate 0 (entries_of m))" for ys b x t
  proof -
    obtain i e where "x = (i, e)" by force
    with x have ie: "x = (i, e)" "e = entries_of m ! i" "e \<in> set (entries_of m)" by (auto simp: in_set_enumerate_eq)
    have okt: "fs_ok t" using I removes_distinct[OF _ ok] by blast
    show ?thesis
      unfolding ie(1)
    proof (rule wpE_mono[OF wpE_undo_entry[OF okt ie(2) nb[OF ie(3)], of b]])
      fix b' u
      assume u: "removes (\<lambda>p _. p \<in> set (entry_paths m e)) t u \<and> (\<not> b' \<longrightarrow> \<not> b \<and> undone u m e)"
      then have tu: "removes (\<lambda>_ _. True) t u" by (auto intro: removes_mono)
      have "list_all (undone u m) (map snd ys)" if "\<not> b"
        using I that undone_removes[OF _ tu okt] by (auto simp: list_all_iff)
      with u I removes_trans[OF _ tu] show "?I (ys @ [(i, e)]) b' u" by auto
    qed simp
  qed
  have run: "wpE (foldE (undo_entry m) False (enumerate 0 (entries_of m))) (?I ([] @ enumerate 0 (entries_of m))) (\<lambda>_ _. True) s"
    by (rule wpE_fold[where P="?I"]) (use one in auto)
  have only: "only_removes (\<lambda>p _. p \<in> entry_path_set m) (foldE (undo_entry m) False (enumerate 0 (entries_of m)))"
  proof (rule only_removes_fold)
    fix c and x :: "nat \<times> manifest_entry_slot"
    assume "x \<in> set (enumerate 0 (entries_of m))"
    moreover obtain i e where ie: "x = (i, e)" by force
    ultimately have "e \<in> set (entries_of m)" by (auto simp: in_set_enumerate_eq)
    then show "only_removes (\<lambda>p _. p \<in> entry_path_set m) (undo_entry m c x)"
      unfolding ie by (auto intro: only_removes_mono[OF only_removes_entry_paths])
  qed
  show ?thesis by (rule wpE_mono[OF wpE_and_removes[OF only ok run]]) (auto simp: snd)
qed

lemma lookup_removed:
  assumes "lookup s path = Some n" and "in_identity n = i" and "in_kind n = RegularFile" and "removes P s t" and "fs_ok s"
    and "\<And>k. lookup t path = Some k \<Longrightarrow> in_identity k \<noteq> i \<or> in_kind k \<noteq> RegularFile"
  shows "lookup t path = None"
  using assms removes_lookup[OF assms(4,5), of path] by (cases "lookup t path") auto

lemma wpE_anything: "wpE m (\<lambda>_ _. True) (\<lambda>_ _. True) s"
  by (simp add: wpE_def split: prod.split sum.split)

text \<open>After the files are gone: the directories, the manifest and the staging root.\<close>

lemma wpE_drop_manifest:
  assumes ok0: "fs_ok s0" and n: "lookup s0 mpath = Some n" "in_identity n = i" "in_kind n = RegularFile"
    and before: "removes (\<lambda>_ _. True) s0 s"
  shows "wpE (drop_staging m mpath i)
           (\<lambda>r t. r \<noteq> OutcomeComplete \<and> ( r = RolledBack \<longrightarrow> lookup t mpath = None \<and> cleared t (staging_root_of m) (tm_staging_root_identity m)))
           (\<lambda>_ _. True) s"
  unfolding drop_staging_def wpE_bind
proof (rule wpE_remove_if_identity)
  show ok: "fs_ok s" by (rule removes_distinct[OF before ok0])
  fix t
  assume t: "removes (owns mpath (Some i)) s t" "\<And>k. lookup t mpath = Some k \<Longrightarrow> in_identity k \<noteq> i \<or> in_kind k \<noteq> RegularFile"
  have "removes (\<lambda>_ _. True) s t" using t(1) by (rule removes_mono) simp
  from lookup_removed[OF n removes_trans[OF before this] ok0 t(2)] have none: "lookup t mpath = None" by blast
  have okt: "fs_ok t" by (rule removes_distinct[OF t(1) ok])
  show "wpE (remove_directory_if_identity (staging_root_of m) (tm_staging_root_identity m))
      (\<lambda>gone. wpE (retE (if gone then RolledBack else Pending))
        (\<lambda>r t. r \<noteq> OutcomeComplete \<and> (r = RolledBack \<longrightarrow> lookup t mpath = None \<and> cleared t (staging_root_of m) (tm_staging_root_identity m))) (\<lambda>_ _. True))
      (\<lambda>_ _. True) t"
  proof (rule wpE_remove_directory_if_identity[OF okt])
    fix b u
    assume "removes (owns (staging_root_of m) (tm_staging_root_identity m)) t u"
      "b \<Longrightarrow> cleared u (staging_root_of m) (tm_staging_root_identity m)"
    then show "wpE (retE (if b then RolledBack else Pending))
        (\<lambda>r t. r \<noteq> OutcomeComplete \<and> (r = RolledBack \<longrightarrow> lookup t mpath = None \<and> cleared t (staging_root_of m) (tm_staging_root_identity m))) (\<lambda>_ _. True) u"
      using removes_lookup[OF _ okt, of _ u mpath] none by (auto simp: wp)
  qed simp
qed simp

definition left_over :: "fs \<Rightarrow> transaction_manifest \<Rightarrow> string \<Rightarrow> fs \<Rightarrow> bool" where
  "left_over s m mpath t \<longleftrightarrow> lookup t mpath = lookup s mpath \<or> list_all (undone t m) (entries_of m)"

definition rolled_back :: "transaction_manifest \<Rightarrow> string \<Rightarrow> fs \<Rightarrow> bool" where
  "rolled_back m mpath t \<longleftrightarrow> list_all (undone t m) (entries_of m) \<and> lookup t mpath = None
     \<and> cleared t (staging_root_of m) (tm_staging_root_identity m)"

lemma wpE_drop_directories:
  assumes ok0: "fs_ok s0" and n: "lookup s0 mpath = Some n" "in_identity n = i" "in_kind n = RegularFile"
    and before: "removes (\<lambda>_ _. True) s0 s" and un: "list_all (undone s m) (entries_of m)"
  shows "wpE (drop_directories m mpath i)
           (\<lambda>r t. r \<noteq> OutcomeComplete \<and> (r = RolledBack \<longrightarrow> rolled_back m mpath t) \<and> list_all (undone t m) (entries_of m))
           (\<lambda>_ t. list_all (undone t m) (entries_of m)) s"
proof -
  let ?T = "\<lambda>_ _. True"
  let ?Q = "\<lambda>r t. r \<noteq> OutcomeComplete \<and> (r = RolledBack \<longrightarrow> lookup t mpath = None \<and> cleared t (staging_root_of m) (tm_staging_root_identity m))"
  have ok: "fs_ok s" by (rule removes_distinct[OF before ok0])
  have dirs: "only_removes ?T (forE (\<lambda>d. if md_state d = Some Owned then bindE (liftE (directory_path m d)) (\<lambda>path.
      bindE (remove_directory_if_identity path (md_identity d)) (\<lambda>_. retE ())) else retE ()) (rev (directories_of m)))"
    by (auto intro!: removal only_removes_owned)
  have all: "only_removes ?T (drop_directories m mpath i)"
    unfolding drop_directories_def drop_staging_def
    by (auto intro!: removal only_removes_owned only_removes_remove_if_identity)
  have "wpE (drop_directories m mpath i) ?Q ?T s"
    unfolding drop_directories_def wpE_bind
  proof (rule wpE_only_removes[OF dirs ok])
    fix t
    assume t: "removes ?T s t"
    show "wpE (directory_contains_only (staging_root_of m) mpath)
        (\<lambda>only. wpE (if \<not> only then retE Pending else drop_staging m mpath i) ?Q ?T) ?T t"
    proof (rule wpE_only_removes)
      show "fs_ok t" by (rule removes_distinct[OF t ok])
      fix only u
      assume u: "removes ?T t u"
      show "wpE (if \<not> only then retE Pending else drop_staging m mpath i) ?Q ?T u"
        using wpE_drop_manifest[OF ok0 n removes_trans[OF before removes_trans[OF t u]]] by (auto simp: wp)
    qed (auto intro: removal)
  qed simp
  note run = wpE_and_removes[OF all ok this]
  have keep: "list_all (undone t m) (entries_of m)" if "removes ?T s t" for t
    using un undone_removes[OF _ that ok] by (simp add: list_all_iff)
  show ?thesis by (rule wpE_mono[OF run]) (auto simp: rolled_back_def intro: keep)
qed

lemma wpE_undo_recall:
  assumes ok: "fs_ok s" and nb: "\<And>e. e \<in> set (entries_of m) \<Longrightarrow> not_both e" and d: "distinct (manifest_paths m mpath)"
    and n: "lookup s mpath = Some n" "in_identity n = i" "in_kind n = RegularFile"
  shows "wpE (undo_recall m mpath i)
           (\<lambda>r t. r \<noteq> OutcomeComplete \<and> (r = RolledBack \<longrightarrow> rolled_back m mpath t) \<and> (r = Pending \<longrightarrow> left_over s m mpath t))
           (\<lambda>_ t. left_over s m mpath t) s"
  unfolding undo_recall_def
proof (rule wpE_seq)
  have keep: "left_over s m mpath t \<and> removes (\<lambda>_ _. True) s t" if t: "removes (\<lambda>p _. p \<in> entry_path_set m) s t" for t
  proof
    have "lookup t mpath = lookup s mpath" using t ok by (rule removes_keeps) (use d in \<open>auto simp: manifest_paths_def\<close>)
    then show "left_over s m mpath t" by (simp add: left_over_def)
    show "removes (\<lambda>_ _. True) s t" using t by (rule removes_mono) simp
  qed
  show "wpE (foldE (undo_entry m) False (enumerate 0 (entries_of m)))
      (\<lambda>b t. (\<not> b \<longrightarrow> list_all (undone t m) (entries_of m)) \<and> left_over s m mpath t \<and> removes (\<lambda>_ _. True) s t)
      (\<lambda>_ t. left_over s m mpath t) s"
    using keep by (intro wpE_mono[OF wpE_undo_entries[OF ok nb]]) blast+
next
  fix b t
  assume t: "(\<not> b \<longrightarrow> list_all (undone t m) (entries_of m)) \<and> left_over s m mpath t \<and> removes (\<lambda>_ _. True) s t"
  show "wpE (if b then retE Pending else drop_directories m mpath i)
      (\<lambda>r t. r \<noteq> OutcomeComplete \<and> (r = RolledBack \<longrightarrow> rolled_back m mpath t) \<and> (r = Pending \<longrightarrow> left_over s m mpath t))
      (\<lambda>_ t. left_over s m mpath t) t"
  proof (cases b)
    case True
    with t show ?thesis by (simp add: wp)
  next
    case False
    with t have "wpE (drop_directories m mpath i)
           (\<lambda>r t. r \<noteq> OutcomeComplete \<and> (r = RolledBack \<longrightarrow> rolled_back m mpath t) \<and> list_all (undone t m) (entries_of m))
           (\<lambda>_ t. list_all (undone t m) (entries_of m)) t" by (intro wpE_drop_directories[OF ok n]) auto
    then have "wpE (drop_directories m mpath i)
      (\<lambda>r t. r \<noteq> OutcomeComplete \<and> (r = RolledBack \<longrightarrow> rolled_back m mpath t) \<and> (r = Pending \<longrightarrow> left_over s m mpath t))
      (\<lambda>_ t. left_over s m mpath t) t" by (rule wpE_mono) (auto simp: left_over_def)
    with False show ?thesis by simp
  qed
qed

section \<open>Finishing a file set\<close>

definition new_log :: "fs \<Rightarrow> fs \<Rightarrow> fs_event list" where
  "new_log s t = drop (length (fs_log s)) (fs_log t)"

text \<open>Synchronised before anything was removed.\<close>

definition synced_first :: "fs_event list \<Rightarrow> fs_path \<Rightarrow> bool" where
  "synced_first log p \<longleftrightarrow> Synced p \<in> set (takeWhile (\<lambda>ev. case ev of Synced _ \<Rightarrow> True | Removed _ \<Rightarrow> False | Renamed _ _ \<Rightarrow> True) log)"

definition in_place :: "fs \<Rightarrow> transaction_manifest \<Rightarrow> manifest_entry_slot \<Rightarrow> bool" where
  "in_place s m e =
     (case lookup s (fst (final_of m e)) of
        None \<Rightarrow> False
      | Some n \<Rightarrow> in_kind n = RegularFile
                  \<and> (me_final_identity e = Some (in_identity n) \<or> me_partial_identity e = Some (in_identity n)))"

abbreviation removes_nothing :: "fs \<Rightarrow> fs \<Rightarrow> bool" where
  "removes_nothing \<equiv> removes (\<lambda>_ _. False)"

lemma removes_log: "removes P s t \<Longrightarrow> \<exists>l. fs_log t = fs_log s @ l"
  by (auto simp: removes_def)

lemma new_log_trans: "removes P s t \<Longrightarrow> removes Q t u \<Longrightarrow> new_log s u = new_log s t @ new_log t u"
  by (auto simp: new_log_def dest!: removes_log)

lemma new_log_nothing: "removes_nothing s t \<Longrightarrow> Removed p \<notin> set (new_log s t)"
  by (auto simp: new_log_def dest!: removes_none)

lemma synced_first_append:
  assumes "removes_nothing s t"
  shows "synced_first (new_log s t @ l) p \<longleftrightarrow> Synced p \<in> set (new_log s t) \<or> synced_first l p"
proof -
  have "takeWhile (\<lambda>ev. case ev of Synced _ \<Rightarrow> True | Removed _ \<Rightarrow> False | Renamed _ _ \<Rightarrow> True) (new_log s t @ l)
      = new_log s t @ takeWhile (\<lambda>ev. case ev of Synced _ \<Rightarrow> True | Removed _ \<Rightarrow> False | Renamed _ _ \<Rightarrow> True) l"
    by (rule takeWhile_append2) (use new_log_nothing[OF assms] in \<open>auto split: fs_event.split\<close>)
  then show ?thesis by (simp add: synced_first_def)
qed

lemma synced_first_trans:
  assumes "removes_nothing s t" and "removes P t u"
  shows "synced_first (new_log s u) p \<longleftrightarrow> Synced p \<in> set (new_log s t) \<or> synced_first (new_log t u) p"
  unfolding new_log_trans[OF assms] by (rule synced_first_append[OF assms(1)])

lemma wpE_nothing:
  "only_removes (\<lambda>_ _. False) m \<Longrightarrow> fs_ok s \<Longrightarrow> wpE m Q (\<lambda>_ _. True) s
     \<Longrightarrow> wpE m (\<lambda>x t. Q x t \<and> removes_nothing s t) (\<lambda>_ t. removes_nothing s t) s"
  using wpE_and_removes[of "\<lambda>_ _. False" m s Q "\<lambda>_ _. True"] by simp

lemma wpE_sync_directory:
  assumes "fs_ok s"
  shows "wpE (sync_directory path) (\<lambda>_ t. Synced (path_components path) \<in> set (new_log s t) \<and> removes_nothing s t)
           (\<lambda>_ t. removes_nothing s t) s"
proof (rule wpE_nothing[OF _ assms])
  show "wpE (sync_directory path) (\<lambda>_ t. Synced (path_components path) \<in> set (new_log s t)) (\<lambda>_ _. True) s"
    unfolding sync_directory_def wpE_bind
    by (rule wpE_open) (auto simp: wp new_log_def same_files_def intro!: wpE_fsync split: sum.split)
qed (rule removal)

lemma wpE_sync_regular_file:
  assumes "fs_ok s"
  shows "wpE (sync_regular_file path i)
           (\<lambda>_ t. (Synced (path_components path) \<in> set (new_log s t)
                 \<and> (\<exists>n. lookup s path = Some n \<and> in_kind n = RegularFile \<and> in_identity n = i)) \<and> removes_nothing s t)
           (\<lambda>_ t. removes_nothing s t) s"
proof (rule wpE_nothing[OF _ assms])
  show "wpE (sync_regular_file path i) (\<lambda>_ t. Synced (path_components path) \<in> set (new_log s t)
      \<and> (\<exists>n. lookup s path = Some n \<and> in_kind n = RegularFile \<and> in_identity n = i)) (\<lambda>_ _. True) s"
    unfolding sync_regular_file_def wpE_bind
    by (rule wpE_open)
      (auto simp: wp new_log_def same_files_def intro!: wpE_fsync wpE_identity_matches split: sum.split)
qed (rule removal)

lemma in_place_same: "fs_entries t = fs_entries s \<Longrightarrow> in_place t m e = in_place s m e"
  by (simp add: in_place_def lookup_def)

definition synced_finals :: "fs \<Rightarrow> transaction_manifest \<Rightarrow> manifest_entry_slot list \<Rightarrow> fs \<Rightarrow> bool" where
  "synced_finals s m es t \<longleftrightarrow> removes_nothing s t
     \<and> list_all (\<lambda>e. in_place s m e \<and> Synced (path_components (fst (final_of m e))) \<in> set (new_log s t)) es"

lemma synced_finals_later:
  assumes "synced_finals s m es t" and "removes_nothing t u"
  shows "synced_finals s m es u"
proof -
  have "removes_nothing s t" using assms(1) by (simp add: synced_finals_def)
  from removes_trans[OF this assms(2)] new_log_trans[OF this assms(2)] assms(1) show ?thesis
    by (auto simp: synced_finals_def list_all_iff)
qed

lemma wpE_sync_one:
  assumes ok: "fs_ok s" and t: "synced_finals s m es t" and i: "me_final_identity e = Some i \<or> me_partial_identity e = Some i"
  shows "wpE (sync_regular_file (fst (final_of m e)) i) (\<lambda>_. synced_finals s m (es @ [e])) (\<lambda>_ u. removes_nothing s u) t"
proof -
  have st: "removes_nothing s t" using t by (simp add: synced_finals_def)
  have ent: "fs_entries t = fs_entries s" using removes_none[OF st] by blast
  then have okt: "fs_ok t" using ok by simp
  show ?thesis
  proof (rule wpE_mono[OF wpE_sync_regular_file[OF okt]])
    fix v
    assume v: "(Synced (path_components (fst (final_of m e))) \<in> set (new_log t v)
        \<and> (\<exists>n. lookup t (fst (final_of m e)) = Some n \<and> in_kind n = RegularFile \<and> in_identity n = i)) \<and> removes_nothing t v"
    have "in_place t m e" using v i by (auto simp: in_place_def)
    then have "in_place s m e" using ent in_place_same by blast
    with v t synced_finals_later[OF t] new_log_trans[OF st, of _ v] show "synced_finals s m (es @ [e]) v"
      by (auto simp: synced_finals_def)
  qed (rule removes_trans[OF st])
qed

lemma wpE_sync_final:
  assumes ok: "fs_ok s" and before: "synced_finals s m es t" and e: "e = entries_of m ! index"
  shows "wpE (sync_final m (index, e)) (\<lambda>_. synced_finals s m (es @ [e])) (\<lambda>_ u. removes_nothing s u) t"
  unfolding sync_final_def prod.case wpE_bind
proof (rule wpE_inferred)
  have later: "removes_nothing s u" "synced_finals s m es u" if "same_files t u" for u
    using before removes_trans[OF _ removes_same[OF that]] synced_finals_later[OF before removes_same[OF that]]
    by (auto simp: synced_finals_def)
  then show "removes_nothing s u" if "same_files t u" for u using that by blast
  fix x u
  assume u: "same_files t u"
    and x: "x = me_final_identity (entries_of m ! index) \<and> x \<noteq> None
      \<or> me_final_identity (entries_of m ! index) = None \<and> (x = None \<or> x = me_partial_identity (entries_of m ! index))"
  have "wpE (sync_regular_file (fst (final_of m e)) i) (\<lambda>_. synced_finals s m (es @ [e])) (\<lambda>_ u. removes_nothing s u) u"
    if "x = Some i" for i
    by (rule wpE_sync_one[OF ok later(2)[OF u]]) (use x that e in auto)
  then show "wpE (liftE (ok_or x (Validation ''complete recall identity disappeared'')))
      (\<lambda>i. wpE (sync_regular_file (fst (final_of m e)) i) (\<lambda>_. synced_finals s m (es @ [e])) (\<lambda>_ u. removes_nothing s u))
      (\<lambda>_ u. removes_nothing s u) u"
    using later(1)[OF u] by (auto simp: wp ok_or_def split: option.split)
qed

lemma wpE_sync_finals:
  assumes ok: "fs_ok s"
  shows "wpE (forE (sync_final m) (enumerate 0 (entries_of m))) (\<lambda>_. synced_finals s m (entries_of m)) (\<lambda>_ u. removes_nothing s u) s"
proof -
  let ?I = "\<lambda>ys. synced_finals s m (map snd ys)"
  have "wpE (sync_final m x) (\<lambda>_. ?I (ys @ [x])) (\<lambda>_ u. removes_nothing s u) t"
    if "?I ys t" "x \<in> set (enumerate 0 (entries_of m))" for ys x t
    using wpE_sync_final[OF ok that(1), of "snd x" "fst x"] that(2) by (auto simp: in_set_enumerate_eq)
  moreover have "?I [] s" by (simp add: synced_finals_def)
  ultimately have "wpE (forE (sync_final m) (enumerate 0 (entries_of m))) (\<lambda>_. ?I ([] @ enumerate 0 (entries_of m))) (\<lambda>_ u. removes_nothing s u) s"
    by (intro wpE_for[where P="?I"])
  then show ?thesis by (simp add: enumerate_eq_zip)
qed

text \<open>Removing the metadata leaves the final files alone.\<close>

definition final_path :: "transaction_manifest \<Rightarrow> manifest_entry_slot \<Rightarrow> fs_path" where
  "final_path m e = path_components (fst (final_of m e))"

definition published :: "fs \<Rightarrow> transaction_manifest \<Rightarrow> string \<Rightarrow> fs \<Rightarrow> bool" where
  "published s m output_root t \<longleftrightarrow>
     list_all (\<lambda>e. in_place t m e \<and> synced_first (new_log s t) (final_path m e)) (entries_of m)
     \<and> synced_first (new_log s t) (path_components output_root)"

lemma final_paths_apart:
  assumes "distinct (manifest_paths m mpath)" and "e \<in> set (entries_of m)" and "e' \<in> set (entries_of m)"
  shows "final_path m e \<noteq> path_components (staging_root_of m)" and "final_path m e \<noteq> path_components mpath"
    and "final_path m e \<noteq> path_components (fst (staged_of m e'))"
    and "partial_of m e' = Some (pp, pid) \<Longrightarrow> final_path m e \<noteq> path_components pp"
proof -
  have mem: "final_path m e \<in> set (concat (map (entry_paths m) (entries_of m)))"
    using assms(2) by (auto simp: entry_paths_def final_path_def split: option.split)
  from mem assms(1) show "final_path m e \<noteq> path_components (staging_root_of m)" "final_path m e \<noteq> path_components mpath"
    by (auto simp: manifest_paths_def)
  have "final_path m e \<notin> set (butlast (entry_paths m e'))"
  proof (cases "entry_paths m e = entry_paths m e'")
    case True
    have "entry_paths m e \<noteq> []" "final_path m e = last (entry_paths m e)" by (simp_all add: entry_paths_def final_path_def)
    with True have "entry_paths m e' = butlast (entry_paths m e') @ [final_path m e]" by (metis append_butlast_last_id)
    moreover have "distinct (entry_paths m e')" using assms by (auto simp: manifest_paths_def distinct_concat_iff)
    ultimately show ?thesis by (metis distinct_append not_distinct_conv_prefix distinct.simps(2) list.set_intros(1) disjoint_iff)
  next
    case False
    with assms have "set (entry_paths m e) \<inter> set (entry_paths m e') = {}"
      unfolding manifest_paths_def by (auto simp: distinct_concat_iff)
    moreover have "final_path m e \<in> set (entry_paths m e)" by (simp add: entry_paths_def final_path_def)
    ultimately show ?thesis by (meson disjoint_iff in_set_butlastD)
  qed
  then show "final_path m e \<noteq> path_components (fst (staged_of m e'))"
    and "partial_of m e' = Some (pp, pid) \<Longrightarrow> final_path m e \<noteq> path_components pp"
    by (auto simp: entry_paths_def butlast_append split: option.splits)
qed

lemma only_removes_metadata_apart:
  assumes "distinct (manifest_paths m mpath)"
  shows "only_removes (\<lambda>p _. p \<notin> set (map (final_path m) (entries_of m))) (best_effort_remove_recall_metadata m mpath i)"
  unfolding best_effort_remove_recall_metadata_def
  using final_paths_apart[OF assms]
  by (auto simp: owns_def intro!: removal only_removes_owned only_removes_remove_if_identity split: option.split)

lemma in_place_kept:
  assumes "removes (\<lambda>p _. p \<notin> set (map (final_path m) (entries_of m))) s t" and "fs_ok s" and "e \<in> set (entries_of m)"
  shows "in_place t m e = in_place s m e"
proof -
  have "lookup t (fst (final_of m e)) = lookup s (fst (final_of m e))"
    using assms(1,2) by (rule removes_keeps) (use assms(3) in \<open>auto simp: final_path_def\<close>)
  then show ?thesis by (simp add: in_place_def)
qed

lemma wpE_try_any: "wpE (bindE (tryE m) (\<lambda>r. k r)) Q E s" if "\<And>r t. wpE (k r) Q E t"
  using that by (simp add: wp wpE_def[of m] split: prod.split sum.split)

lemma wpE_metadata_total: "wpE (best_effort_remove_recall_metadata m mpath i) (\<lambda>_ _. True) (\<lambda>_ _. False) s"
  unfolding best_effort_remove_recall_metadata_def
proof (rule wpE_seq)
  show "wpE (forE (\<lambda>entry. bindE (tryE (cleanup_file (fst (staged_of m entry)) (snd (staged_of m entry)))) (\<lambda>_.
         case partial_of m entry of None \<Rightarrow> retE ()
         | Some (partial_path, partial_identity) \<Rightarrow> bindE (tryE (cleanup_file partial_path partial_identity)) (\<lambda>_. retE ())))
       (entries_of m)) (\<lambda>_ _. True) (\<lambda>_ _. False) s"
    by (rule wpE_for[where P="\<lambda>_ _. True"]) (auto simp: wpE_basic intro!: wpE_try_any split: option.split)
  fix t
  show "wpE (bindE (tryE (directory_contains_only (staging_root_of m) mpath)) (\<lambda>r.
       if r = Inr True
       then bindE (tryE (remove_if_identity mpath i)) (\<lambda>_.
            bindE (tryE (remove_directory_if_identity (staging_root_of m) (tm_staging_root_identity m))) (\<lambda>_. retE ()))
       else retE ())) (\<lambda>_ _. True) (\<lambda>_ _. False) t"
    by (auto simp: wpE_basic intro!: wpE_try_any)
qed

lemma wpE_sync_file_set_directories:
  assumes "fs_ok s"
  shows "wpE (sync_file_set_directories m out) (\<lambda>_ t. Synced (path_components out) \<in> set (new_log s t) \<and> removes_nothing s t)
           (\<lambda>_ t. removes_nothing s t) s"
proof (rule wpE_nothing[OF _ assms])
  let ?loop = "forE (sync_entry_directories m out) (enumerate 0 (entries_of m))"
  have only: "only_removes (\<lambda>_ _. False) ?loop"
    by (auto intro!: removal)
  have "wpE ?loop (\<lambda>_ t. Synced (path_components out) \<in> set (new_log s t)) (\<lambda>_ _. True) t"
    if t: "Synced (path_components out) \<in> set (new_log s t) \<and> removes_nothing s t" for t
  proof (rule wpE_only_removes[OF only])
    show "fs_ok t" using t removes_distinct[OF _ assms] by blast
    show "Synced (path_components out) \<in> set (new_log s u)" if "removes_nothing t u" for u
      using new_log_trans[OF _ that, of "\<lambda>_ _. False" s] t by simp
  qed simp
  then show "wpE (sync_file_set_directories m out) (\<lambda>_ t. Synced (path_components out) \<in> set (new_log s t)) (\<lambda>_ _. True) s"
    unfolding sync_file_set_directories_def
    by (intro wpE_seq[OF wpE_mono[OF wpE_sync_directory[OF assms]]]) auto
qed (rule removal)

lemma wpE_finish_recall:
  assumes ok: "fs_ok s" and d: "distinct (manifest_paths m mpath)"
  shows "wpE (finish_recall m out mpath i) (\<lambda>r t. r = OutcomeComplete \<and> published s m out t) (\<lambda>_ t. removes_nothing s t) s"
  unfolding finish_recall_def
proof (rule wpE_seq[OF wpE_sync_finals[OF ok]])
  let ?A = "\<lambda>p _. p \<notin> set (map (final_path m) (entries_of m))"
  let ?rest = "bindE (best_effort_remove_recall_metadata m mpath i) (\<lambda>_.
     bindE (case path_parent (staging_root_of m) of None \<Rightarrow> retE ()
            | Some parent \<Rightarrow> bindE (tryE (sync_directory parent)) (\<lambda>_. retE ())) (\<lambda>_. retE OutcomeComplete))"
  fix t
  assume t: "synced_finals s m (entries_of m) t"
  have st: "removes_nothing s t" using t by (simp add: synced_finals_def)
  have okt: "fs_ok t" by (rule removes_distinct[OF st ok])
  have finish: "wpE ?rest (\<lambda>r v. r = OutcomeComplete \<and> published s m out v) (\<lambda>_ v. removes_nothing s v) u"
    if u: "Synced (path_components out) \<in> set (new_log t u) \<and> removes_nothing t u" for u
  proof -
    have su: "synced_finals s m (entries_of m) u" "removes_nothing s u"
      using synced_finals_later[OF t] removes_trans[OF st] u by blast+
    have ent: "fs_entries u = fs_entries s" using removes_none[OF su(2)] by blast
    have out: "Synced (path_components out) \<in> set (new_log s u)" using new_log_trans[OF st, of _ u] u by auto
    have "only_removes ?A ?rest"
      using only_removes_metadata_apart[OF d] by (auto intro!: removal split: option.split)
    moreover have "wpE ?rest (\<lambda>r _. r = OutcomeComplete) (\<lambda>_ _. False) u"
      by (rule wpE_seq[OF wpE_metadata_total]) (cases "path_parent (staging_root_of m)"; simp add: wp wpE_anything)
    ultimately have run: "wpE ?rest (\<lambda>r v. r = OutcomeComplete \<and> removes ?A u v) (\<lambda>_ v. False \<and> removes ?A u v) u"
      using removes_distinct[OF su(2) ok] by (intro wpE_and_removes) auto
    have "published s m out v" if v: "removes ?A u v" for v
      using su(1) in_place_kept[OF v removes_distinct[OF su(2) ok]] in_place_same[OF ent] synced_first_trans[OF su(2) v] out
      by (auto simp: published_def synced_finals_def list_all_iff final_path_def)
    then show ?thesis by (intro wpE_mono[OF run]) auto
  qed
  show "wpE (bindE (sync_file_set_directories m out) (\<lambda>_. ?rest)) (\<lambda>r t. r = OutcomeComplete \<and> published s m out t)
      (\<lambda>_ t. removes_nothing s t) t"
  proof (rule wpE_seq)
    show "wpE (sync_file_set_directories m out) (\<lambda>_ u. Synced (path_components out) \<in> set (new_log t u) \<and> removes_nothing t u)
        (\<lambda>_ u. removes_nothing s u) t"
      using removes_trans[OF st] by (intro wpE_mono[OF wpE_sync_file_set_directories[OF okt]]) auto
  qed (rule finish)
qed

section \<open>Recovering a file set\<close>

lemma wpE_read_manifest_identity:
  "wpE (read_manifest_identity path)
     (\<lambda>r _. case r of Inl _ \<Rightarrow> True | Inr i \<Rightarrow> \<exists>n. lookup s path = Some n \<and> in_identity n = i \<and> in_kind n = RegularFile) (\<lambda>_ _. True) s"
  unfolding read_manifest_identity_def wpE_bind
  by (rule wpE_lstat) (auto simp: wp stat_answer_lookup split: sum.split)

lemma read_identity_found:
  assumes "read_with_identity_directories env mpath s = (t, Inr (m, i))" and "fs_ok s"
  shows "removes_nothing s t" and "\<exists>n. lookup s mpath = Some n \<and> in_identity n = i \<and> in_kind n = RegularFile"
proof -
  show "removes_nothing s t"
    using only_removes_read[of "\<lambda>_ _. False" env mpath] assms by (auto simp: only_removes_def dest: spec[of _ s])
  obtain u data where u: "read_file_bounded env mpath s = (u, Inr data)"
    using assms(1) by (auto simp: read_with_identity_directories_def bindE_def split: prod.splits sum.splits)
  have "only_removes (\<lambda>_ _. False) (read_file_bounded env mpath)"
    unfolding read_file_bounded_def by (auto intro!: removal split: sum.split)
  with u assms(2) have "removes_nothing s u" by (auto simp: only_removes_def dest: spec[of _ s])
  then have same: "lookup u mpath = lookup s mpath" by (auto simp: lookup_def dest: removes_none)
  obtain v where "read_manifest_identity mpath u = (v, Inr (Inr i))"
    using assms(1) u by (auto simp: read_with_identity_directories_def bindE_def failE_def retE_def split: prod.splits sum.splits)
  from wpE_run[OF wpE_read_manifest_identity this] same
  show "\<exists>n. lookup s mpath = Some n \<and> in_identity n = i \<and> in_kind n = RegularFile" by simp
qed

definition recall_settled :: "fs \<Rightarrow> transaction_manifest \<Rightarrow> string \<Rightarrow> string \<Rightarrow> fs \<Rightarrow> recovery_outcome result \<Rightarrow> bool" where
  "recall_settled s m output_root mpath t r =
     (case r of
        Inr OutcomeComplete \<Rightarrow> published s m output_root t
      | Inr RolledBack \<Rightarrow> rolled_back m mpath t
      | Inr Pending \<Rightarrow> left_over s m mpath t
      | Inl _ \<Rightarrow> left_over s m mpath t)"

lemma recall_settled_from:
  assumes "removes_nothing s t" and "fs_ok s" and "removes P t u" and "recall_settled t m out mpath u r"
  shows "recall_settled s m out mpath u r"
proof -
  have "lookup t mpath = lookup s mpath" using removes_none[OF assms(1)] by (simp add: lookup_def)
  moreover have "published s m out u" if "published t m out u"
    using that synced_first_trans[OF assms(1,3)] by (auto simp: published_def list_all_iff)
  ultimately show ?thesis using assms(4)
    by (auto simp: recall_settled_def left_over_def split: sum.splits recovery_outcome.splits)
qed

lemma recall_settled_nothing: "removes_nothing s t \<Longrightarrow> recall_settled s m out mpath t (Inl e)"
  by (auto simp: recall_settled_def left_over_def lookup_def dest: removes_none)

lemma only_removes_run: "only_removes P m \<Longrightarrow> fs_ok s \<Longrightarrow> m s = (t, r) \<Longrightarrow> removes P s t"
  by (metis only_removes_def fst_conv)

lemma recall_decided:
  assumes ok: "fs_ok s" and n: "lookup s mpath = Some n" "in_identity n = i" "in_kind n = RegularFile"
    and d: "distinct (manifest_paths m mpath)" and nb: "\<And>e. e \<in> set (entries_of m) \<Longrightarrow> not_both e"
    and run: "(if complete then finish_recall m out mpath i else undo_recall m mpath i) s = (t, r)"
  shows "recall_settled s m out mpath t r"
proof (cases complete)
  case True
  with run have "finish_recall m out mpath i s = (t, r)" by simp
  from wpE_run[OF wpE_finish_recall[OF ok d] this] show ?thesis
    by (auto simp: recall_settled_def left_over_def lookup_def split: sum.splits dest: removes_none)
next
  case False
  with run have "undo_recall m mpath i s = (t, r)" by simp
  from wpE_run[OF wpE_undo_recall[OF ok nb d n] this] show ?thesis
    by (auto simp: recall_settled_def split: sum.splits recovery_outcome.splits)
qed

lemma recall_after_read:
  assumes ok: "fs_ok s" and n: "lookup s mpath = Some n" "in_identity n = i" "in_kind n = RegularFile"
    and run: "bindE (validate_manifest euid KindFileSet root out mpath m) (\<lambda>_. bindE (complete_final_set m) (\<lambda>complete.
        if complete then finish_recall m out mpath i else undo_recall m mpath i)) s = (t, r)"
  shows "recall_settled s m out mpath t r"
proof -
  obtain u rv where u: "validate_manifest euid KindFileSet root out mpath m s = (u, rv)" by force
  have su: "removes_nothing s u" by (rule only_removes_run[OF only_removes_validate ok u])
  note oku = removes_distinct[OF su ok]
  obtain v rc where v: "complete_final_set m u = (v, rc)" by force
  have uv: "removes_nothing u v" by (rule only_removes_run[OF only_removes_complete oku v])
  note sv = removes_trans[OF su uv] and okv = removes_distinct[OF uv oku]
  show ?thesis
  proof (cases rv)
    case (Inl e)
    with run u su show ?thesis by (auto simp: bindE_def recall_settled_nothing)
  next
    case valid: (Inr x)
    note V = validate_manifest_InrD[OF u[unfolded valid]]
    show ?thesis
    proof (cases rc)
      case (Inl e)
      with run u v valid sv show ?thesis by (auto simp: bindE_def recall_settled_nothing)
    next
      case (Inr complete)
      have run': "(if complete then finish_recall m out mpath i else undo_recall m mpath i) v = (t, r)"
        using run u v valid Inr by (simp add: bindE_def)
      have "lookup v mpath = Some n" using removes_none[OF sv] n(1) by (simp add: lookup_def)
      from recall_decided[OF okv this n(2,3) V(1) file_set_not_both[OF V(2,3)] run']
      have settled: "recall_settled v m out mpath t r" .
      have "only_removes (owned_by m mpath i) (if complete then finish_recall m out mpath i else undo_recall m mpath i)"
        by (auto intro: removal)
      then have "removes (owned_by m mpath i) v t" using okv run' by (rule only_removes_run)
      with settled show ?thesis using recall_settled_from[OF sv ok] by blast
    qed
  qed
qed

text \<open>
  (C11) What the outcome of recovering a file set means, for any content of the file system and
  any pattern of failing system calls.  Complete: every final file is in place with an identity
  the manifest records, and all of them and the output directory were synchronised before
  anything was removed.  Rolled back: no staged, partial or final file of the transaction is
  left, nor its manifest and staging directory.  Pending or an error: the manifest is still
  there for the next attempt, or no file of the transaction is left.  A manifest that cannot be
  read is reported and nothing is changed.
\<close>

theorem recall_recovery_outcome:
  assumes "distinct (map fst (fs_entries s))"
  shows "case recover_recall_root_with_directories env root output_root s of (t, r) \<Rightarrow>
     (case snd (read_with_identity_directories env (path_join root RECALL_MANIFEST_NAME) s) of
        Inl e \<Rightarrow> r = Inl e \<and> fs_entries t = fs_entries s
      | Inr (m, _) \<Rightarrow>
          (case r of
             Inr OutcomeComplete \<Rightarrow> published s m output_root t
           | Inr RolledBack \<Rightarrow> rolled_back m (path_join root RECALL_MANIFEST_NAME) t
           | Inr Pending \<Rightarrow> left_over s m (path_join root RECALL_MANIFEST_NAME) t
           | Inl _ \<Rightarrow> left_over s m (path_join root RECALL_MANIFEST_NAME) t))"
proof -
  let ?p = "path_join root RECALL_MANIFEST_NAME"
  obtain t r where run: "recover_recall_root_with_directories env root output_root s = (t, r)" by force
  obtain u x where u: "read_with_identity_directories env ?p s = (u, x)" by force
  have su: "removes_nothing s u" by (rule only_removes_run[OF only_removes_read assms u])
  show ?thesis
  proof (cases x)
    case (Inl e)
    with run u removes_none[OF su] show ?thesis
      by (simp add: recover_recall_root_with_directories_def Let_def bindE_def)
  next
    case (Inr mi)
    obtain m i where mi: "mi = (m, i)" by force
    from read_identity_found(2)[OF u[unfolded Inr mi] assms] obtain n
      where "lookup s ?p = Some n" and n: "in_identity n = i" "in_kind n = RegularFile" by blast
    with removes_none[OF su] have look: "lookup u ?p = Some n" by (simp add: lookup_def)
    have oku: "fs_ok u" by (rule removes_distinct[OF su assms])
    have rest: "bindE (validate_manifest (re_euid env) KindFileSet root output_root ?p m) (\<lambda>_. bindE (complete_final_set m) (\<lambda>complete.
        if complete then finish_recall m output_root ?p i else undo_recall m ?p i)) u = (t, r)"
      using run u Inr mi by (simp add: recover_recall_root_with_directories_def Let_def bindE_def[of "read_with_identity_directories env ?p"])
    have "only_removes (owned_by m ?p i) (bindE (validate_manifest (re_euid env) KindFileSet root output_root ?p m)
        (\<lambda>_. bindE (complete_final_set m) (\<lambda>complete. if complete then finish_recall m output_root ?p i else undo_recall m ?p i)))"
      by (auto intro!: removal)
    from recall_settled_from[OF su assms only_removes_run[OF this oku rest] recall_after_read[OF oku look n rest]]
    show ?thesis using run u Inr mi by (simp add: recall_settled_def)
  qed
qed

theorem recall_recovery_outcome_witness:
  "case snd (read_with_identity_directories sample_env (path_join ''/s/t'' RECALL_MANIFEST_NAME) sample_fs) of
     Inl _ \<Rightarrow> False
   | Inr (m, _) \<Rightarrow> rolled_back m (path_join ''/s/t'' RECALL_MANIFEST_NAME)
                      (fst (recover_recall_root_with_directories sample_env ''/s/t'' ''/o'' sample_fs))"
  using recall_recovery_outcome[where env=sample_env and root="''/s/t''" and output_root="''/o''", OF sample_run(3)] sample_run(1)
  by (auto split: prod.splits sum.splits)

end
