(* ===== verification/Recovery_Directory.thy ===== *)
theory Recovery_Directory
  imports Recovery_Outcomes
begin

text \<open>
  The outcome of recovering a directory transaction and the files it leaves, in the manner of
  \<open>Recovery_Outcomes\<close>.
\<close>

section \<open>What the check establishes\<close>

lemma validate_direct_child_InrD:
  assumes "validate_direct_child parent path = Inr u"
  shows "\<exists>n. path_components path = path_components parent @ [Normal n]"
proof -
  obtain n where "path_strip_prefix path parent = Some [Normal n]"
    using assms by (auto simp: validate_direct_child_def bindR_Inr_iff split: option.splits list.splits path_component.splits)
  then show ?thesis
    unfolding path_strip_prefix_def path_starts_with_def by (metis append_take_drop_id option.distinct(1) option.inject)
qed

lemma validate_entry_directory:
  assumes "foldE (validate_entry KindAtomicDirectory sr out m) paths es s = (t, Inr paths')" and "e \<in> set es"
  shows "\<exists>fd i n. final_directory m = Some (fd, i) \<and> path_components (fst (final_of m e)) = path_components fd @ [Normal n]"
  using assms
proof (induction es arbitrary: paths s)
  case (Cons x es)
  from Cons.prems(1) obtain u q where one: "validate_entry KindAtomicDirectory sr out m paths x s = (u, Inr q)"
    and more: "foldE (validate_entry KindAtomicDirectory sr out m) q es u = (t, Inr paths')"
    by (auto simp: bindE_def split: prod.splits sum.splits)
  from one obtain q' where "validate_entry_kind KindAtomicDirectory m paths x = Inr q'"
    by (auto simp: validate_entry_def bindE_def liftE_def retE_def validate_entry_paths_def Let_def bindR_Inr_iff split: prod.splits sum.splits)
  then have "\<exists>fd i n. final_directory m = Some (fd, i) \<and> path_components (fst (final_of m x)) = path_components fd @ [Normal n]"
    by (auto simp: validate_entry_kind_def bindR_Inr_iff split: if_splits option.splits dest!: validate_direct_child_InrD)
  with Cons.IH[OF more] Cons.prems(2) show ?case by auto
qed simp

lemma validate_names_directory:
  assumes "validate_names KindAtomicDirectory sr out mpath m = Inr u"
  shows "starts_slash out" and "path_file_name (staging_root_of m) = Some (''.tmp-lamb-'' @ transaction_id_str m)"
  using assms
  by (auto simp: validate_names_def validate_lexical_path_def ensure_def is_absolute_def bindR_Inr_iff split: if_splits)

lemma validate_phase_directory:
  assumes "validate_phase_state m = Inr ()" and "kind_expected KindAtomicDirectory (tm_version m) (tm_kind m)"
  obtains fd i where "final_directory m = Some (fd, Some i)" and "tm_staging_root_identity m = Some i"
    and "\<And>e. e \<in> set (entries_of m) \<Longrightarrow> me_staged_identity e \<noteq> None \<and> me_final_identity e = me_staged_identity e"
proof -
  have "directory_strategy (tm_kind m)" using assms(2) by (auto simp: kind_expected_def directory_strategy_def)
  with assms(1) obtain i where i: "Option.bind (final_directory m) snd = Some i" "tm_staging_root_identity m = Some i"
      "\<not> list_ex (\<lambda>e. me_staged_identity e = None \<or> me_final_identity e \<noteq> me_staged_identity e) (entries_of m)"
    by (auto simp: validate_phase_state_def bindR_Inr_iff ensure_def ok_or_def split: if_splits option.splits)
  from i(1) obtain fd where "final_directory m = Some (fd, Some i)" by (cases "final_directory m") auto
  with i(2,3) show ?thesis by (intro that[of fd i]) (auto simp: list_ex_iff)
qed

lemma validate_manifest_directoryD:
  assumes "validate_manifest euid KindAtomicDirectory sr out mpath m s = (t, Inr u)"
  obtains fd i n where "final_directory m = Some (fd, Some i)" and "path_components fd = path_components out @ [Normal n]"
    and "path_components fd \<noteq> path_components mpath"
    and "\<And>e. e \<in> set (entries_of m) \<Longrightarrow> \<exists>k. path_components (fst (final_of m e)) = path_components fd @ [Normal k]"
    and "path_file_name (staging_root_of m) = Some (''.tmp-lamb-'' @ transaction_id_str m)" and "starts_slash out"
proof -
  note run = assms[unfolded validate_manifest_def bindE_def liftE_def ensureE_def]
  obtain p1 p2 p3 v w q where p2: "insert_unique_path p1 mpath = Inr p2"
    and names: "validate_names KindAtomicDirectory sr out mpath m = Inr ()"
    and p3: "validate_final_directory KindAtomicDirectory out m p2 = Inr p3"
    and es: "foldE (validate_entry KindAtomicDirectory sr out m) p3 (entries_of m) v = (w, Inr q)"
    using run by (auto split: prod.splits sum.splits if_splits)
  obtain fd i where fd: "final_directory m = Some (fd, Some i)"
    using validate_phase_directory[OF validate_manifest_InrD(2,3)[OF assms]] by blast
  have n: "\<exists>n. path_components fd = path_components out @ [Normal n]" and ne: "path_components fd \<noteq> path_components mpath"
    using p3 fd insert_unique_path_InrD[OF p2]
    by (auto simp: validate_final_directory_def bindR_Inr_iff dest!: insert_unique_path_InrD validate_direct_child_InrD)
  have "\<exists>k. path_components (fst (final_of m e)) = path_components fd @ [Normal k]" if "e \<in> set (entries_of m)" for e
    using validate_entry_directory[OF es that] fd by auto
  with fd n ne validate_names_directory[OF names] that show ?thesis by blast
qed

text \<open>The temporary manifest is a sibling of the manifest.\<close>

lemma temp_path_sibling:
  assumes "manifest_temp_path mpath tid = Inr temp" and "starts_slash mpath" and "CHR ''/'' \<notin> set tid"
  shows "length (path_components temp) = length (path_components mpath)"
proof -
  obtain name where name: "path_file_name mpath = Some name"
    using assms(1) by (auto simp: manifest_temp_path_def split: option.splits)
  note plain = path_file_name_plain[OF name]
  let ?t = "''.'' @ name @ ''.'' @ tid @ ''.tmp''"
  have piece: "split_on (CHR ''/'') ?t = [?t]" by (rule split_on_single) (use plain(2) assms(3) in auto)
  obtain q where q: "path_parent mpath = Some q" using path_parent_exists[OF assms(2) name] by blast
  note par = path_parent_components[OF assms(2) q]
  have "temp = path_join q ?t" using assms(1) by (simp add: manifest_temp_path_def name q Let_def)
  moreover have "path_components (path_join q ?t) = path_components q @ [Normal ?t]"
    using path_components_join(1)[OF par(1), of ?t] piece by (simp add: starts_slash_def plain_piece_def)
  ultimately show ?thesis using par(2) by auto
qed

section \<open>Finishing a directory\<close>

definition directory_in_place :: "transaction_manifest \<Rightarrow> fs \<Rightarrow> bool" where
  "directory_in_place m t =
     (case final_directory m of
        None \<Rightarrow> False
      | Some (fd, identity) \<Rightarrow>
          (case lookup t fd of None \<Rightarrow> False | Some n \<Rightarrow> in_kind n = Directory \<and> identity = Some (in_identity n)))"

definition directory_published :: "fs \<Rightarrow> transaction_manifest \<Rightarrow> string \<Rightarrow> fs \<Rightarrow> bool" where
  "directory_published s m output_parent t \<longleftrightarrow> published s m output_parent t \<and> directory_in_place m t
     \<and> (case final_directory m of None \<Rightarrow> False | Some (fd, _) \<Rightarrow> synced_first (new_log s t) (path_components fd))"

text \<open>What removing the manifest and its temporary copy may take.\<close>

definition metadata_only :: "transaction_manifest \<Rightarrow> string \<Rightarrow> fs_path \<Rightarrow> inode \<Rightarrow> bool" where
  "metadata_only m mpath p n \<longleftrightarrow> p = path_components mpath
     \<or> (case manifest_temp_path mpath (transaction_id_str m) of Inl _ \<Rightarrow> False
        | Inr temp \<Rightarrow> p = path_components temp \<and> in_kind n = RegularFile)"

lemma directory_published_kept:
  assumes V: "validate_manifest euid KindAtomicDirectory sr out mpath m s0 = (t0, Inr u0)"
    and mp: "path_components mpath = path_components out @ [Normal name]" "starts_slash mpath"
    and t: "synced_finals s m (entries_of m) t" "directory_in_place m t" "fs_ok t"
    and fd: "final_directory m = Some (fd, i)" "Synced (path_components fd) \<in> set (new_log s t)"
    and out: "Synced (path_components out) \<in> set (new_log s t)"
    and v: "removes (metadata_only m mpath) t v"
  shows "directory_published s m out v"
proof -
  obtain fd' fi k where D: "final_directory m = Some (fd', Some fi)" "path_components fd' = path_components out @ [Normal k]"
      "path_components fd' \<noteq> path_components mpath"
      "\<And>e. e \<in> set (entries_of m) \<Longrightarrow> \<exists>k. path_components (fst (final_of m e)) = path_components fd' @ [Normal k]"
      "path_file_name (staging_root_of m) = Some (''.tmp-lamb-'' @ transaction_id_str m)" "starts_slash out"
    using that by (rule validate_manifest_directoryD[OF V])
  have free: "CHR ''/'' \<notin> set (transaction_id_str m)" using path_file_name_plain(2)[OF D(5)] by simp
  have final: "\<not> metadata_only m mpath (final_path m e) n" if "e \<in> set (entries_of m)" for e n
  proof -
    have "length (final_path m e) = length (path_components mpath) + 1"
      using D(4)[OF that] D(2) mp(1) by (auto simp: final_path_def)
    then show ?thesis
      using temp_path_sibling[OF _ mp(2) free] by (auto simp: metadata_only_def split: sum.splits)
  qed
  have st: "removes_nothing s t" using t(1) by (simp add: synced_finals_def)
  have "removes (\<lambda>p _. p \<notin> set (map (final_path m) (entries_of m))) t v"
    using v by (rule removes_mono) (use final in auto)
  note kept = in_place_kept[OF this t(3)]
  have same: "fs_entries t = fs_entries s" using removes_none[OF st] by blast
  have "published s m out v"
    using t(1) kept in_place_same[OF same] synced_first_trans[OF st v] out
    by (auto simp: published_def synced_finals_def list_all_iff final_path_def)
  moreover have "directory_in_place m v"
  proof -
    obtain n where n: "lookup t fd' = Some n" "in_kind n = Directory" "in_identity n = fi"
      using t(2) D(1) by (auto simp: directory_in_place_def split: option.splits)
    then have "lookup v fd' = Some n"
      using removes_lookup[OF v t(3), of fd'] D(3) by (auto simp: metadata_only_def split: sum.splits)
    with n D(1) show ?thesis by (simp add: directory_in_place_def)
  qed
  ultimately show ?thesis
    using fd D(1) synced_first_trans[OF st v] by (simp add: directory_published_def)
qed

lemma wpE_sync_owned_directory:
  assumes "fs_ok s"
  shows "wpE (sync_owned_directory path i)
           (\<lambda>_ t. (Synced (path_components path) \<in> set (new_log s t)
                 \<and> (\<exists>n. lookup s path = Some n \<and> in_kind n = Directory \<and> in_identity n = i)) \<and> removes_nothing s t)
           (\<lambda>_ t. removes_nothing s t) s"
proof (rule wpE_nothing[OF _ assms])
  show "wpE (sync_owned_directory path i) (\<lambda>_ t. Synced (path_components path) \<in> set (new_log s t)
      \<and> (\<exists>n. lookup s path = Some n \<and> in_kind n = Directory \<and> in_identity n = i)) (\<lambda>_ _. True) s"
    unfolding sync_owned_directory_def wpE_bind
    by (rule wpE_open)
      (auto simp: wp new_log_def same_files_def lookup_def intro!: wpE_fsync wpE_identity_matches split: sum.split)
qed (rule removal)

lemma wpE_sync_dump_finals:
  assumes ok: "fs_ok s"
  shows "wpE (forE (\<lambda>entry. bindE (liftE (ok_or (snd (final_of m entry)) (Validation ''complete dump identity disappeared''))) (\<lambda>i.
             sync_regular_file (fst (final_of m entry)) i)) (entries_of m))
           (\<lambda>_. synced_finals s m (entries_of m)) (\<lambda>_ u. removes_nothing s u) s"
proof -
  let ?f = "\<lambda>entry. bindE (liftE (ok_or (snd (final_of m entry)) (Validation ''complete dump identity disappeared''))) (\<lambda>i.
             sync_regular_file (fst (final_of m entry)) i)"
  have "wpE (?f e) (\<lambda>_. synced_finals s m (es @ [e])) (\<lambda>_ u. removes_nothing s u) t" if t: "synced_finals s m es t" for es e t
    using wpE_sync_one[OF ok t, of e] t by (auto simp: wp ok_or_def final_of_def synced_finals_def split: option.split)
  moreover have "synced_finals s m [] s" by (simp add: synced_finals_def)
  ultimately have "wpE (forE ?f (entries_of m)) (\<lambda>_. synced_finals s m ([] @ entries_of m)) (\<lambda>_ u. removes_nothing s u) s"
    by (intro wpE_for[where P="synced_finals s m"])
  then show ?thesis by simp
qed

definition directory_left :: "fs \<Rightarrow> transaction_manifest \<Rightarrow> string \<Rightarrow> string \<Rightarrow> fs \<Rightarrow> bool" where
  "directory_left s m output_parent mpath t \<longleftrightarrow>
     lookup t mpath = lookup s mpath
     \<or> directory_published s m output_parent t
     \<or> list_all (\<lambda>e. gone t (fst (staged_of m e)) (me_staged_identity e)) (entries_of m)
        \<and> cleared t (staging_root_of m) (tm_staging_root_identity m)"

lemma directory_left_nothing: "removes_nothing s t \<Longrightarrow> directory_left s m out mpath t"
  by (auto simp: directory_left_def lookup_def dest: removes_none)

text \<open>The last steps: the manifest, its temporary copy, and the directory that held them.\<close>

lemma wpE_drop_metadata:
  assumes ok: "fs_ok s" and n: "lookup s0 mpath = Some n" "in_identity n = i" "in_kind n = RegularFile" "fs_ok s0" "removes (\<lambda>_ _. True) s0 s"
    and k: "\<And>b. only_removes (\<lambda>_ _. True) (k b)"
  shows "wpE (bindE (remove_if_identity mpath i) (\<lambda>_. bindE (cleanup_dump_temp_manifest mpath tid) k))
           (\<lambda>_ t. lookup t mpath = None) (\<lambda>_ _. True) s"
  unfolding wpE_bind
proof (rule wpE_remove_if_identity[OF ok])
  fix t
  assume t: "removes (owns mpath (Some i)) s t" "\<And>k. lookup t mpath = Some k \<Longrightarrow> in_identity k \<noteq> i \<or> in_kind k \<noteq> RegularFile"
  have "removes (\<lambda>_ _. True) s t" using t(1) by (rule removes_mono) simp
  from lookup_removed[OF n(1-3) removes_trans[OF n(5) this] n(4) t(2)] have none: "lookup t mpath = None" by blast
  have okt: "fs_ok t" by (rule removes_distinct[OF t(1) ok])
  have "only_removes (\<lambda>_ _. True) (bindE (cleanup_dump_temp_manifest mpath tid) k)"
    using k by (auto intro!: removal only_removes_temp)
  from wpE_only_removes[OF this okt, where Q="\<lambda>_ u. lookup u mpath = None" and E="\<lambda>_ _. True"]
  have "wpE (bindE (cleanup_dump_temp_manifest mpath tid) k) (\<lambda>_ u. lookup u mpath = None) (\<lambda>_ _. True) t"
    using removes_lookup[OF _ okt, of "\<lambda>_ _. True"] none by (metis option.distinct(1))
  then show "wpE (cleanup_dump_temp_manifest mpath tid) (\<lambda>b. wpE (k b) (\<lambda>_ u. lookup u mpath = None) (\<lambda>_ _. True)) (\<lambda>_ _. True) t"
    by (simp add: wpE_bind)
qed simp

lemma wpE_conj: "wpE m Q E s \<Longrightarrow> wpE m Q' E' s \<Longrightarrow> wpE m (\<lambda>x t. Q x t \<and> Q' x t) (\<lambda>e t. E e t \<and> E' e t) s"
  by (auto simp: wpE_def split: prod.splits sum.splits)

definition directory_settled :: "fs \<Rightarrow> transaction_manifest \<Rightarrow> string \<Rightarrow> string \<Rightarrow> fs \<Rightarrow> recovery_outcome result \<Rightarrow> bool" where
  "directory_settled s m output_parent mpath t r =
     (case r of
        Inr OutcomeComplete \<Rightarrow> directory_published s m output_parent t \<and> lookup t mpath = None
      | Inr RolledBack \<Rightarrow>
          list_all (\<lambda>e. gone t (fst (staged_of m e)) (me_staged_identity e)) (entries_of m)
          \<and> cleared t (staging_root_of m) (tm_staging_root_identity m) \<and> lookup t mpath = None \<and> \<not> directory_in_place m t
      | Inr Pending \<Rightarrow> directory_left s m output_parent mpath t
      | Inl _ \<Rightarrow> directory_left s m output_parent mpath t)"

lemma only_removes_metadata_only:
  "only_removes (metadata_only m mpath)
     (bindE (remove_if_identity mpath i) (\<lambda>_. bindE (cleanup_dump_temp_manifest mpath (transaction_id_str m)) k))"
  if "\<And>b. only_removes (metadata_only m mpath) (k b)"
  using that by (auto simp: metadata_only_def owns_def intro!: removal only_removes_temp only_removes_remove_if_identity split: sum.split)

lemma wpE_finish_dump:
  assumes ok: "fs_ok s" and V: "validate_manifest euid KindAtomicDirectory sr out mpath m s0 = (t0, Inr u0)"
    and mp: "path_components mpath = path_components out @ [Normal name]" "starts_slash mpath"
    and n: "lookup s mpath = Some n" "in_identity n = i" "in_kind n = RegularFile"
  shows "wpE (finish_dump m out mpath i) (\<lambda>r t. directory_settled s m out mpath t (Inr r)) (\<lambda>e t. directory_settled s m out mpath t (Inl e)) s"
proof -
  let ?Q = "\<lambda>r t. directory_settled s m out mpath t (Inr r)" and ?E = "\<lambda>e t. directory_settled s m out mpath t (Inl e)"
  let ?k = "\<lambda>clean. if \<not> clean then retE Pending else bindE (sync_directory out) (\<lambda>_. retE OutcomeComplete)"
  let ?rest = "bindE (remove_if_identity mpath i) (\<lambda>_. bindE (cleanup_dump_temp_manifest mpath (transaction_id_str m)) ?k)"
  obtain fd fi where fd: "final_directory m = Some (fd, Some fi)"
    using validate_phase_directory[OF validate_manifest_InrD(2,3)[OF V]] by blast
  have early: "?E e t" if "removes_nothing s t" for e t
    using directory_left_nothing[OF that] by (simp add: directory_settled_def)
  have late: "wpE ?rest ?Q ?E v"
    if v: "synced_finals s m (entries_of m) v" "directory_in_place m v" "Synced (path_components fd) \<in> set (new_log s v)"
      "Synced (path_components out) \<in> set (new_log s v)" for v
  proof -
    have sv: "removes_nothing s v" using v(1) by (simp add: synced_finals_def)
    have okv: "fs_ok v" by (rule removes_distinct[OF sv ok])
    have sv': "removes (\<lambda>_ _. True) s v" using sv by (rule removes_mono) simp
    have "wpE ?rest (\<lambda>_ t. lookup t mpath = None) (\<lambda>_ _. True) v"
      by (rule wpE_drop_metadata[OF okv n ok sv']) (auto intro!: removal)
    moreover have "wpE ?rest (\<lambda>r _. r \<noteq> RolledBack) (\<lambda>_ _. True) v"
      by (intro wpE_seq[OF wpE_anything]) (simp add: wp wpE_anything)
    moreover have "only_removes (metadata_only m mpath) ?rest"
      by (rule only_removes_metadata_only) (auto intro!: removal)
    ultimately have run: "wpE ?rest (\<lambda>r t. (lookup t mpath = None \<and> r \<noteq> RolledBack) \<and> removes (metadata_only m mpath) v t)
        (\<lambda>_ t. (True \<and> True) \<and> removes (metadata_only m mpath) v t) v"
      using okv by (intro wpE_and_removes wpE_conj)
    have "directory_published s m out t" if "removes (metadata_only m mpath) v t" for t
      by (rule directory_published_kept[OF V mp v(1,2) okv fd v(3,4) that])
    then show ?thesis
      by (intro wpE_mono[OF run]) (auto simp: directory_settled_def directory_left_def split: recovery_outcome.split)
  qed
  have dirs: "wpE (bindE (sync_owned_directory fd fi) (\<lambda>_. bindE (sync_directory out) (\<lambda>_. ?rest))) ?Q ?E t"
    if t: "synced_finals s m (entries_of m) t" for t
  proof -
    have st: "removes_nothing s t" using t by (simp add: synced_finals_def)
    have okt: "fs_ok t" by (rule removes_distinct[OF st ok])
    show ?thesis
    proof (rule wpE_then[OF wpE_sync_owned_directory[OF okt]])
      fix u
      assume u: "(Synced (path_components fd) \<in> set (new_log t u)
          \<and> (\<exists>n. lookup t fd = Some n \<and> in_kind n = Directory \<and> in_identity n = fi)) \<and> removes_nothing t u"
      then have tu: "removes_nothing t u" by blast
      have su: "removes_nothing s u" by (rule removes_trans[OF st tu])
      have oku: "fs_ok u" by (rule removes_distinct[OF tu okt])
      show "wpE (bindE (sync_directory out) (\<lambda>_. ?rest)) ?Q ?E u"
      proof (rule wpE_then[OF wpE_sync_directory[OF oku]])
        fix v
        assume v: "Synced (path_components out) \<in> set (new_log u v) \<and> removes_nothing u v"
        then have uv: "removes_nothing u v" by blast
        have "fs_entries v = fs_entries t" using removes_none[OF tu] removes_none[OF uv] by simp
        then have "directory_in_place m v" using u fd by (auto simp: directory_in_place_def lookup_def)
        moreover have "new_log s v = new_log s t @ new_log t u @ new_log u v"
          using new_log_trans[OF st tu] new_log_trans[OF su uv] by simp
        ultimately show "wpE ?rest ?Q ?E v"
          using u v by (intro late synced_finals_later[OF synced_finals_later[OF t tu] uv]) auto
      qed (use early removes_trans[OF su] in blast)
    qed (use early removes_trans[OF st] in blast)
  qed
  show ?thesis
    unfolding finish_dump_def
  proof (rule wpE_then[OF wpE_sync_dump_finals[OF ok]])
    fix t assume "synced_finals s m (entries_of m) t"
    from dirs[OF this] show "wpE (bindE (liftE (ok_or (final_directory m) (Validation ''dump manifest has no final directory''))) (\<lambda>(directory, identity).
        bindE (liftE (ok_or identity (Validation ''complete dump directory identity disappeared''))) (\<lambda>i'.
        bindE (sync_owned_directory directory i') (\<lambda>_. bindE (sync_directory out) (\<lambda>_. ?rest))))) ?Q ?E t"
      by (simp only: fd ok_or_def option.case wpE_bind wpE_basic sum.case prod.case)
  qed (rule early)
qed

section \<open>Undoing a directory\<close>

lemma wpE_undo_staged:
  assumes "fs_ok s" and "set es \<subseteq> set (entries_of m)"
  shows "wpE (undo_staged m es)
      (\<lambda>b t. (b \<longrightarrow> list_all (\<lambda>e. gone t (fst (staged_of m e)) (me_staged_identity e)) es)
             \<and> removes (\<lambda>p _. p \<in> entry_path_set m) s t)
      (\<lambda>_ t. removes (\<lambda>p _. p \<in> entry_path_set m) s t) s"
  using assms
proof (induction es arbitrary: s)
  case Nil
  then show ?case by (simp add: wp)
next
  case (Cons e es)
  let ?R = "removes (\<lambda>p _. p \<in> entry_path_set m)"
  have e: "owns (fst (staged_of m e)) x p n \<Longrightarrow> p \<in> entry_path_set m" for x p n
    using Cons.prems(2) by (auto simp: owns_def entry_paths_def split: option.split)
  show ?case
    unfolding undo_staged.simps wpE_bind
  proof (rule wpE_cleanup_file[OF Cons.prems(1)])
    fix b t
    assume t: "removes (owns (fst (staged_of m e)) (snd (staged_of m e))) s t" "b \<Longrightarrow> cleared t (fst (staged_of m e)) (snd (staged_of m e))"
    have st: "?R s t" using t(1) by (rule removes_mono) (rule e)
    have okt: "fs_ok t" by (rule removes_distinct[OF st Cons.prems(1)])
    have more: "wpE (undo_staged m es)
        (\<lambda>b' u. (b' \<longrightarrow> list_all (\<lambda>e. gone u (fst (staged_of m e)) (me_staged_identity e)) (e # es)) \<and> ?R s u) (\<lambda>_ u. ?R s u) t" if b
    proof (rule wpE_mono[OF Cons.IH[OF okt]])
      fix b' u
      assume u: "(b' \<longrightarrow> list_all (\<lambda>e. gone u (fst (staged_of m e)) (me_staged_identity e)) es) \<and> ?R t u"
      have "gone u (fst (staged_of m e)) (me_staged_identity e)"
        using cleared_gone(1)[OF t(2)[OF that]] gone_removes[OF _ _ okt] u by (fastforce simp: staged_of_def)
      with u st removes_trans show "(b' \<longrightarrow> list_all (\<lambda>e. gone u (fst (staged_of m e)) (me_staged_identity e)) (e # es)) \<and> ?R s u" by auto
    qed (use Cons.prems(2) st in \<open>auto intro: removes_trans\<close>)
    show "wpE (if b then undo_staged m es else retE False)
        (\<lambda>b' u. (b' \<longrightarrow> list_all (\<lambda>e. gone u (fst (staged_of m e)) (me_staged_identity e)) (e # es)) \<and> ?R s u) (\<lambda>_ u. ?R s u) t"
      using more st by (simp add: wp)
  qed (rule removes_same)
qed

abbreviation staged_gone :: "transaction_manifest \<Rightarrow> fs \<Rightarrow> bool" where
  "staged_gone m t \<equiv> list_all (\<lambda>e. gone t (fst (staged_of m e)) (me_staged_identity e)) (entries_of m)"

lemma staged_gone_removes: "staged_gone m t \<Longrightarrow> removes P t u \<Longrightarrow> fs_ok t \<Longrightarrow> staged_gone m u"
  by (auto simp: list_all_iff intro: gone_removes)

lemma not_in_place_removes: "\<not> directory_in_place m t \<Longrightarrow> removes P t u \<Longrightarrow> fs_ok t \<Longrightarrow> \<not> directory_in_place m u"
  using removes_lookup[of P t u] by (auto simp: directory_in_place_def split: option.splits) (metis option.distinct(1) option.inject)+

lemma wpE_drop_dump:
  assumes ok: "fs_ok s" and n: "lookup s mpath = Some n" "in_identity n = i" "in_kind n = RegularFile"
    and st: "removes (\<lambda>_ _. True) s t" and t: "staged_gone m t" "cleared t (staging_root_of m) (tm_staging_root_identity m)"
      "\<not> directory_in_place m t"
  shows "wpE (bindE (remove_if_identity mpath i) (\<lambda>_. bindE (cleanup_dump_temp_manifest mpath (transaction_id_str m)) (\<lambda>clean.
             retE (if clean then RolledBack else Pending))))
           (\<lambda>r u. directory_settled s m out mpath u (Inr r)) (\<lambda>e u. directory_settled s m out mpath u (Inl e)) t"
proof -
  let ?k = "\<lambda>clean. retE (if clean then RolledBack else Pending)"
  let ?rest = "bindE (remove_if_identity mpath i) (\<lambda>_. bindE (cleanup_dump_temp_manifest mpath (transaction_id_str m)) ?k)"
  have okt: "fs_ok t" by (rule removes_distinct[OF st ok])
  have "wpE ?rest (\<lambda>_ u. lookup u mpath = None) (\<lambda>_ _. True) t"
    by (rule wpE_drop_metadata[OF okt n ok st]) (auto intro!: removal)
  moreover have "wpE ?rest (\<lambda>r _. r \<noteq> OutcomeComplete) (\<lambda>_ _. True) t"
    by (intro wpE_seq[OF wpE_anything]) (simp add: wp)
  moreover have "only_removes (metadata_only m mpath) ?rest" by (rule only_removes_metadata_only) (auto intro!: removal)
  ultimately have run: "wpE ?rest (\<lambda>r u. (lookup u mpath = None \<and> r \<noteq> OutcomeComplete) \<and> removes (metadata_only m mpath) t u)
      (\<lambda>_ u. (True \<and> True) \<and> removes (metadata_only m mpath) t u) t"
    using okt by (intro wpE_and_removes wpE_conj)
  have "staged_gone m u \<and> cleared u (staging_root_of m) (tm_staging_root_identity m) \<and> \<not> directory_in_place m u"
    if "removes (metadata_only m mpath) t u" for u
    using staged_gone_removes[OF t(1) that okt] cleared_removes[OF t(2) that okt] not_in_place_removes[OF t(3) that okt] by blast
  then show ?thesis
    by (intro wpE_mono[OF run]) (auto simp: directory_settled_def directory_left_def split: recovery_outcome.split)
qed

lemma wpE_blocked:
  assumes fd: "final_directory m = Some (fd, Some i)"
  shows "wpE (bindE (path_exists fd) (\<lambda>present. if present then identity_matches fd i True else retE False))
           (\<lambda>b t. same_files s t \<and> (\<not> b \<longrightarrow> \<not> directory_in_place m t)) (\<lambda>_ t. same_files s t) s"
proof -
  have look: "\<not> directory_in_place m t" if "same_files s t"
      "\<not> (\<exists>n. lookup s fd = Some n \<and> in_identity n = i \<and> in_kind n = Directory)" for t
    using that fd same_files_lookup[OF that(1), of fd] by (auto simp: directory_in_place_def split: option.splits)
  have ids: "wpE (identity_matches fd i True) (\<lambda>b t. same_files s t \<and> (\<not> b \<longrightarrow> \<not> directory_in_place m t)) (\<lambda>_ t. same_files s t) t"
    if t: "same_files s t" for t
  proof (rule wpE_identity_matches_iff)
    fix b u
    assume u: "same_files t u"
      and b: "b = (\<exists>n. lookup t fd = Some n \<and> in_identity n = i \<and> in_kind n = (if True then Directory else RegularFile))"
    from same_files_trans[OF t u] show "same_files s u \<and> (\<not> b \<longrightarrow> \<not> directory_in_place m u)"
      using b look[of u] same_files_lookup[OF t, of fd] by simp
  qed (rule same_files_trans[OF t])
  show ?thesis
    unfolding wpE_bind
  proof (rule wpE_path_exists)
    fix t assume t: "same_files s t"
    show "wpE (if lookup s fd \<noteq> None then identity_matches fd i True else retE False)
        (\<lambda>b t. same_files s t \<and> (\<not> b \<longrightarrow> \<not> directory_in_place m t)) (\<lambda>_ t. same_files s t) t"
      using ids[OF t] t look[OF t] by (auto simp: wp)
  qed
qed

lemma wpE_undo_dump:
  assumes ok: "fs_ok s" and V: "validate_manifest euid KindAtomicDirectory sr out mpath m s0 = (t0, Inr u0)"
    and n: "lookup s mpath = Some n" "in_identity n = i" "in_kind n = RegularFile"
  shows "wpE (undo_dump m mpath i) (\<lambda>r t. directory_settled s m out mpath t (Inr r)) (\<lambda>e t. directory_settled s m out mpath t (Inl e)) s"
proof -
  let ?Q = "\<lambda>r t. directory_settled s m out mpath t (Inr r)" and ?E = "\<lambda>e t. directory_settled s m out mpath t (Inl e)"
  let ?A = "\<lambda>p _. p \<in> entry_path_set m \<or> p = path_components (staging_root_of m)"
  let ?drop = "bindE (remove_if_identity mpath i) (\<lambda>_. bindE (cleanup_dump_temp_manifest mpath (transaction_id_str m)) (\<lambda>clean.
             retE (if clean then RolledBack else Pending)))"
  obtain fd fi where fd: "final_directory m = Some (fd, Some fi)"
    using validate_phase_directory[OF validate_manifest_InrD(2,3)[OF V]] by blast
  have keep: "?E e t" "?Q Pending t" if "removes ?A s t" for e t
  proof -
    have "lookup t mpath = lookup s mpath"
      using that ok by (rule removes_keeps) (use validate_manifest_InrD(1)[OF V] in \<open>auto simp: manifest_paths_def\<close>)
    then show "?E e t" "?Q Pending t" by (simp_all add: directory_settled_def directory_left_def)
  qed
  have root: "wpE (bindE (remove_directory_if_identity (staging_root_of m) (tm_staging_root_identity m)) (\<lambda>gone.
      if \<not> gone then retE Pending else ?drop)) ?Q ?E t"
    if t: "staged_gone m t" "\<not> directory_in_place m t" and st: "removes ?A s t" for t
    unfolding wpE_bind
  proof (rule wpE_remove_directory_if_identity)
    show okt: "fs_ok t" by (rule removes_distinct[OF st ok])
    fix b u
    assume u: "removes (owns (staging_root_of m) (tm_staging_root_identity m)) t u"
      "b \<Longrightarrow> cleared u (staging_root_of m) (tm_staging_root_identity m)"
    from u(1) have "removes ?A t u" by (rule removes_mono) (simp add: owns_def)
    with st have su: "removes ?A s u" by (rule removes_trans)
    then have su': "removes (\<lambda>_ _. True) s u" by (rule removes_mono) simp
    have "wpE ?drop ?Q ?E u" if b
      by (rule wpE_drop_dump[OF ok n su' staged_gone_removes[OF t(1) u(1) okt] u(2)[OF that] not_in_place_removes[OF t(2) u(1) okt]])
    then show "wpE (if \<not> b then retE Pending else ?drop) ?Q ?E u" using keep(2)[OF su] by (simp add: wpE_basic)
  qed (use keep removes_trans[OF st] in \<open>blast intro: removes_same\<close>)
  have staged: "wpE (bindE (undo_staged m (entries_of m)) (\<lambda>staged_gone. if \<not> staged_gone then retE Pending
      else bindE (remove_directory_if_identity (staging_root_of m) (tm_staging_root_identity m)) (\<lambda>gone.
        if \<not> gone then retE Pending else ?drop))) ?Q ?E t"
    if t: "same_files s t" "\<not> directory_in_place m t" for t
  proof -
    have okt: "fs_ok t" using ok t(1) by (simp add: same_files_def)
    have wide: "removes ?A s u" if "removes (\<lambda>p _. p \<in> entry_path_set m) t u" for u
      using removes_trans[OF removes_same[OF t(1)] removes_mono[OF that]] by auto
    show ?thesis
    proof (rule wpE_then[OF wpE_undo_staged[OF okt subset_refl]])
      fix b u
      assume u: "(b \<longrightarrow> staged_gone m u) \<and> removes (\<lambda>p _. p \<in> entry_path_set m) t u"
      then have "b \<Longrightarrow> \<not> directory_in_place m u" using not_in_place_removes[OF t(2) _ okt] by blast
      with u root[OF _ _ wide] keep(2)[OF wide] show "wpE (if \<not> b then retE Pending
          else bindE (remove_directory_if_identity (staging_root_of m) (tm_staging_root_identity m)) (\<lambda>gone.
            if \<not> gone then retE Pending else ?drop)) ?Q ?E u"
        by (cases b) (simp_all add: wpE_basic)
    qed (use keep wide in blast)
  qed
  show ?thesis
    unfolding undo_dump_def fd ok_or_def option.case wpE_bind[of "liftE _"] wpE_basic sum.case prod.case
  proof (rule wpE_then[OF wpE_blocked[OF fd]])
    fix b t
    assume "same_files s t \<and> (\<not> b \<longrightarrow> \<not> directory_in_place m t)"
    with staged[of t] keep(2)[OF removes_same[of s t]] show "wpE (if b then retE Pending
        else bindE (undo_staged m (entries_of m)) (\<lambda>staged_gone. if \<not> staged_gone then retE Pending
          else bindE (remove_directory_if_identity (staging_root_of m) (tm_staging_root_identity m)) (\<lambda>gone.
            if \<not> gone then retE Pending else ?drop))) ?Q ?E t"
      by (cases b) (simp_all add: wpE_basic)
  qed (use keep in \<open>blast intro: removes_same\<close>)
qed

section \<open>Recovering a directory\<close>

lemma directory_settled_from:
  assumes "removes_nothing s t" and "removes P t u" and "directory_settled t m out mpath u r"
  shows "directory_settled s m out mpath u r"
proof -
  have "lookup t mpath = lookup s mpath" using removes_none[OF assms(1)] by (simp add: lookup_def)
  moreover have "directory_published s m out u" if "directory_published t m out u"
    using that synced_first_trans[OF assms(1,2)]
    by (auto simp: directory_published_def published_def list_all_iff split: option.splits)
  ultimately show ?thesis using assms(3)
    by (auto simp: directory_settled_def directory_left_def split: sum.splits recovery_outcome.splits)
qed

lemma directory_after_read:
  assumes ok: "fs_ok s" and n: "lookup s mpath = Some n" "in_identity n = i" "in_kind n = RegularFile"
    and mp: "path_components mpath = path_components out @ [Normal name]" "starts_slash mpath"
    and run: "bindE (validate_manifest euid KindAtomicDirectory sr out mpath m) (\<lambda>_. bindE (complete_final_set m) (\<lambda>complete.
        if complete then finish_dump m out mpath i else undo_dump m mpath i)) s = (t, r)"
  shows "directory_settled s m out mpath t r"
proof -
  obtain u rv where u: "validate_manifest euid KindAtomicDirectory sr out mpath m s = (u, rv)" by force
  have su: "removes_nothing s u" by (rule only_removes_run[OF only_removes_validate ok u])
  note oku = removes_distinct[OF su ok]
  obtain v rc where v: "complete_final_set m u = (v, rc)" by force
  have uv: "removes_nothing u v" by (rule only_removes_run[OF only_removes_complete oku v])
  note sv = removes_trans[OF su uv] and okv = removes_distinct[OF uv oku]
  have fails: "directory_settled s m out mpath w (Inl e)" if "removes_nothing s w" for w e
    using directory_left_nothing[OF that] by (simp add: directory_settled_def)
  show ?thesis
  proof (cases rv)
    case (Inl e)
    with run u su show ?thesis by (auto simp: bindE_def fails)
  next
    case valid: (Inr x)
    note V = u[unfolded valid]
    show ?thesis
    proof (cases rc)
      case (Inl e)
      with run u v valid sv show ?thesis by (auto simp: bindE_def fails)
    next
      case (Inr complete)
      have run': "(if complete then finish_dump m out mpath i else undo_dump m mpath i) v = (t, r)"
        using run u v valid Inr by (simp add: bindE_def)
      have look: "lookup v mpath = Some n" using removes_none[OF sv] n(1) by (simp add: lookup_def)
      have "wpE (if complete then finish_dump m out mpath i else undo_dump m mpath i)
          (\<lambda>r t. directory_settled v m out mpath t (Inr r)) (\<lambda>e t. directory_settled v m out mpath t (Inl e)) v"
        using wpE_finish_dump[OF okv V mp look n(2,3)] wpE_undo_dump[OF okv V look n(2,3)] by simp
      from wpE_run[OF this run'] have settled: "directory_settled v m out mpath t r" by (cases r) simp_all
      have "only_removes (owned_by m mpath i) (if complete then finish_dump m out mpath i else undo_dump m mpath i)"
        by (auto intro: removal)
      then have "removes (owned_by m mpath i) v t" using okv run' by (rule only_removes_run)
      from directory_settled_from[OF sv this settled] show ?thesis .
    qed
  qed
qed

text \<open>
  (C12) What the outcome of recovering a directory transaction means, for a manifest that lies in
  the output directory, any content of the file system and any pattern of failing system calls.
  Complete: the final directory and every file in it are in place with the recorded identities,
  all of them and the output directory were synchronised before anything was removed, and the
  manifest is gone.  Rolled back: no staged file is left, nor the staging directory and the
  manifest, and the final directory is not in place.  Pending or an error: the manifest is still
  there, or the publication is complete on disk, or no staged file is left.
\<close>

theorem directory_recovery_outcome:
  assumes "distinct (map fst (fs_entries s))" and "starts_slash mpath"
    and "path_components mpath = path_components output_parent @ [Normal name]"
  shows "case recover_dump_parent env output_parent mpath s of (t, r) \<Rightarrow>
     (case snd (read_with_identity_directories (env\<lparr>re_directory_slots := 0\<rparr>) mpath s) of
        Inl e \<Rightarrow> r = Inl e \<and> fs_entries t = fs_entries s
      | Inr (m, _) \<Rightarrow> directory_settled s m output_parent mpath t r)"
proof -
  let ?env = "env\<lparr>re_directory_slots := 0\<rparr>"
  obtain t r where run: "recover_dump_parent env output_parent mpath s = (t, r)" by force
  obtain u x where u: "read_with_identity_directories ?env mpath s = (u, x)" by force
  have su: "removes_nothing s u" by (rule only_removes_run[OF only_removes_read assms(1) u])
  show ?thesis
  proof (cases x)
    case (Inl e)
    with run u removes_none[OF su] show ?thesis by (simp add: recover_dump_parent_def bindE_def)
  next
    case (Inr mi)
    obtain m i where mi: "mi = (m, i)" by force
    from read_identity_found(2)[OF u[unfolded Inr mi] assms(1)] obtain n
      where "lookup s mpath = Some n" and n: "in_identity n = i" "in_kind n = RegularFile" by blast
    with removes_none[OF su] have look: "lookup u mpath = Some n" by (simp add: lookup_def)
    have oku: "fs_ok u" by (rule removes_distinct[OF su assms(1)])
    have rest: "bindE (validate_manifest (re_euid env) KindAtomicDirectory (staging_root_of m) output_parent mpath m) (\<lambda>_.
        bindE (complete_final_set m) (\<lambda>complete.
        if complete then finish_dump m output_parent mpath i else undo_dump m mpath i)) u = (t, r)"
      using run u Inr mi by (simp add: recover_dump_parent_def bindE_def[of "read_with_identity_directories ?env mpath"])
    have "only_removes (owned_by m mpath i) (bindE (validate_manifest (re_euid env) KindAtomicDirectory (staging_root_of m) output_parent mpath m)
        (\<lambda>_. bindE (complete_final_set m) (\<lambda>complete. if complete then finish_dump m output_parent mpath i else undo_dump m mpath i)))"
      by (auto intro!: removal)
    from directory_settled_from[OF su only_removes_run[OF this oku rest] directory_after_read[OF oku look n assms(3,2) rest]]
    show ?thesis using run u Inr mi by simp
  qed
qed

section \<open>Runs\<close>

text \<open>A directory that was renamed into place before the crash.\<close>

definition sample_dump_manifest :: transaction_manifest where
  "sample_dump_manifest =
     \<lparr>tm_version = 2, tm_uid = 7, tm_kind = KindAtomicDirectory, tm_phase = Prepared,
      tm_transaction_id = \<lparr>pr_offset = 0, pr_len = 1\<rparr>, tm_staging_root_path = \<lparr>pr_offset = 1, pr_len = 14\<rparr>,
      tm_staging_root_identity = Some \<lparr>fi_device = 1, fi_inode = 5\<rparr>, tm_output_root = \<lparr>pr_offset = 15, pr_len = 2\<rparr>,
      tm_final_directory_path = \<lparr>pr_offset = 17, pr_len = 4\<rparr>,
      tm_final_directory_identity = Some \<lparr>fi_device = 1, fi_inode = 5\<rparr>, tm_entry_count = 1,
      tm_slots = [\<lparr>me_staged_path = \<lparr>pr_offset = 21, pr_len = 16\<rparr>, me_staged_identity = Some \<lparr>fi_device = 1, fi_inode = 6\<rparr>,
                   me_partial_path = path_ref_default, me_partial_identity = None,
                   me_final_path = \<lparr>pr_offset = 37, pr_len = 6\<rparr>, me_final_identity = Some \<lparr>fi_device = 1, fi_inode = 6\<rparr>\<rparr>],
      tm_directory_slots = [], tm_directory_count = 0, tm_directory_journal_present = True,
      tm_path_arena = \<lparr>pa_bytes = ''t/o/.tmp-lamb-t/o/o/d/o/.tmp-lamb-t/f/o/d/f'', pa_used = 43\<rparr>\<rparr>"

definition sample_dump_fs :: fs where
  "sample_dump_fs =
     \<lparr>fs_entries =
        [([RootDir], \<lparr>in_identity = \<lparr>fi_device = 1, fi_inode = 1\<rparr>, in_kind = Directory, in_data = []\<rparr>),
         ([RootDir, Normal ''o''], \<lparr>in_identity = \<lparr>fi_device = 1, fi_inode = 9\<rparr>, in_kind = Directory, in_data = []\<rparr>),
         ([RootDir, Normal ''o'', Normal ''d''], \<lparr>in_identity = \<lparr>fi_device = 1, fi_inode = 5\<rparr>, in_kind = Directory, in_data = []\<rparr>),
         ([RootDir, Normal ''o'', Normal ''d'', Normal ''f''],
            \<lparr>in_identity = \<lparr>fi_device = 1, fi_inode = 6\<rparr>, in_kind = RegularFile, in_data = ''w''\<rparr>),
         ([RootDir, Normal ''o'', Normal ''.t.manifest.json''],
            \<lparr>in_identity = \<lparr>fi_device = 1, fi_inode = 4\<rparr>, in_kind = RegularFile, in_data = ''m''\<rparr>)],
      fs_faults = [], fs_log = []\<rparr>"

definition sample_dump_env :: recovery_env where
  "sample_dump_env =
     \<lparr>re_euid = 7, re_serde = derived_ops, re_first_json = (\<lambda>_. Inr (ser_manifest derived_ops sample_dump_manifest)), re_buffer = 16,
      re_slots = 1, re_directory_slots = 1, re_path_bytes = replicate 43 (CHR ''x'')\<rparr>"

lemma sample_dump_run:
  "snd (recover_dump_parent sample_dump_env ''/o'' ''/o/.t.manifest.json'' sample_dump_fs) = Inr OutcomeComplete"
  "distinct (map fst (fs_entries sample_dump_fs))"
  "starts_slash ''/o/.t.manifest.json''"
  "path_components ''/o/.t.manifest.json'' = path_components ''/o'' @ [Normal ''.t.manifest.json'']"
  by code_simp+

theorem directory_recovery_outcome_witness:
  "case snd (read_with_identity_directories (sample_dump_env\<lparr>re_directory_slots := 0\<rparr>) ''/o/.t.manifest.json'' sample_dump_fs) of
     Inl _ \<Rightarrow> False
   | Inr (m, _) \<Rightarrow> directory_published sample_dump_fs m ''/o''
                      (fst (recover_dump_parent sample_dump_env ''/o'' ''/o/.t.manifest.json'' sample_dump_fs))"
  using directory_recovery_outcome[where env=sample_dump_env, OF sample_dump_run(2-4)] sample_dump_run(1)
  by (auto simp: directory_settled_def split: prod.splits sum.splits)

text \<open>
  A crash while a manifest was being replaced leaves its temporary copy in the staging directory
  of a file set.  Recovery removes the files of the transaction, finds the copy, and reports the
  transaction pending; the next recovery changes nothing and reports it pending again.
\<close>

definition stranded_fs :: fs where
  "stranded_fs = sample_fs\<lparr>fs_entries := fs_entries sample_fs @
     [([RootDir, Normal ''s'', Normal ''t'', Normal ''.manifest.json.t.tmp''],
        \<lparr>in_identity = \<lparr>fi_device = 1, fi_inode = 10\<rparr>, in_kind = RegularFile, in_data = ''m''\<rparr>)]\<rparr>"

theorem temp_manifest_strands_file_set:
  "let recover = recover_recall_root_with_directories sample_env ''/s/t'' ''/o'';
       first = recover stranded_fs; second = recover (fst first)
   in snd first = Inr Pending \<and> snd second = Inr Pending \<and> fs_entries (fst second) = fs_entries (fst first)
      \<and> manifest_temp_path ''/s/t/manifest.json'' ''t'' = Inr ''/s/t/.manifest.json.t.tmp''"
  by code_simp

end
