(* ===== verification/Recovery_Scan.thy ===== *)
theory Recovery_Scan
  imports Recovery_Directory
begin

text \<open>
  The scans at start-up (\<open>src/recovery.rs\<close>): every marked transaction below a directory is
  recovered, each on its own, and the outcomes are counted.  A panic inside a recovery ends the
  scan.
\<close>

record recovery_issue =
  ri_path :: string
  ri_error :: string

record scan_summary =
  sc_discovered :: nat
  sc_completed :: nat
  sc_rolled_back :: nat
  sc_pending :: nat
  sc_failed :: nat
  sc_issues :: "recovery_issue list"

definition scan_summary_default :: scan_summary where
  "scan_summary_default = \<lparr>sc_discovered = 0, sc_completed = 0, sc_rolled_back = 0, sc_pending = 0, sc_failed = 0, sc_issues = []\<rparr>"

definition scan_merge :: "scan_summary \<Rightarrow> scan_summary \<Rightarrow> scan_summary" where
  "scan_merge self other =
     \<lparr>sc_discovered = sc_discovered self + sc_discovered other, sc_completed = sc_completed self + sc_completed other,
      sc_rolled_back = sc_rolled_back self + sc_rolled_back other, sc_pending = sc_pending self + sc_pending other,
      sc_failed = sc_failed self + sc_failed other, sc_issues = sc_issues self @ sc_issues other\<rparr>"

text \<open>\<open>Path::is_dir\<close> and \<open>Path::is_file\<close> follow a link and answer no on any error.\<close>

definition is_dir :: "string \<Rightarrow> (fs, bool) eff" where
  "is_dir path = bindE (lstat path) (\<lambda>r. case r of
       Inl _ \<Rightarrow> retE False | Inr n \<Rightarrow> retE (in_kind n = Directory \<or> in_kind n = Symlink ToDirectory))"

definition is_file :: "string \<Rightarrow> (fs, bool) eff" where
  "is_file path = bindE (lstat path) (\<lambda>r. case r of
       Inl _ \<Rightarrow> retE False | Inr n \<Rightarrow> retE (in_kind n = RegularFile \<or> in_kind n = Symlink ToFile))"

text \<open>The path of a directory entry.\<close>

definition entry_name :: "fs_path \<Rightarrow> string" where
  "entry_name entry = component_text (List.last entry)"

definition count_outcome :: "string \<Rightarrow> recovery_outcome result \<Rightarrow> scan_summary \<Rightarrow> scan_summary" where
  "count_outcome path r summary =
     (case r of
        Inr OutcomeComplete \<Rightarrow> summary\<lparr>sc_completed := sc_completed summary + 1\<rparr>
      | Inr RolledBack \<Rightarrow> summary\<lparr>sc_rolled_back := sc_rolled_back summary + 1\<rparr>
      | Inr Pending \<Rightarrow> summary\<lparr>sc_pending := sc_pending summary + 1,
          sc_issues := sc_issues summary @ [\<lparr>ri_path = path, ri_error = ''recovery incomplete; transaction remains pending''\<rparr>]\<rparr>
      | Inl error \<Rightarrow> summary\<lparr>sc_failed := sc_failed summary + 1,
          sc_issues := sc_issues summary @ [\<lparr>ri_path = path, ri_error = error_display error\<rparr>]\<rparr>)"

definition scan_one :: "string \<Rightarrow> (fs, recovery_outcome) eff \<Rightarrow> scan_summary \<Rightarrow> (fs, scan_summary) eff" where
  "scan_one path recover summary =
     bindE (tryE recover) (\<lambda>r. case r of
         Inl (Panicked e) \<Rightarrow> failE (Panicked e)
       | _ \<Rightarrow> retE (count_outcome path r (summary\<lparr>sc_discovered := sc_discovered summary + 1\<rparr>)))"

definition scan_recall_entry :: "recovery_env \<Rightarrow> string \<Rightarrow> string \<Rightarrow> scan_summary \<Rightarrow> fs_path \<Rightarrow> (fs, scan_summary) eff" where
  "scan_recall_entry env staging_root output_root summary entry =
     bindE (next_entry entry) (\<lambda>r. case r of
         Inl _ \<Rightarrow> retE summary
       | Inr entry \<Rightarrow>
           let path = path_join staging_root (entry_name entry) in
           bindE (is_dir path) (\<lambda>directory.
           if \<not> directory then retE summary
           else bindE (is_file (path_join path RECALL_MANIFEST_NAME)) (\<lambda>marked.
             if \<not> marked then retE summary
             else scan_one path (recover_recall_root_with_directories env path output_root) summary)))"

definition recover_recall_staging_root_with_directories :: "recovery_env \<Rightarrow> string \<Rightarrow> string \<Rightarrow> (fs, scan_summary) eff" where
  "recover_recall_staging_root_with_directories env staging_root output_root =
     bindE (read_dir staging_root) (\<lambda>r. case r of
         Inl _ \<Rightarrow> retE scan_summary_default
       | Inr entries \<Rightarrow> foldE (scan_recall_entry env staging_root output_root) scan_summary_default entries)"

definition scan_dump_entry :: "recovery_env \<Rightarrow> string \<Rightarrow> scan_summary \<Rightarrow> fs_path \<Rightarrow> (fs, scan_summary) eff" where
  "scan_dump_entry env dump_parent summary entry =
     bindE (next_entry entry) (\<lambda>r. case r of
         Inl _ \<Rightarrow> retE summary
       | Inr entry \<Rightarrow>
           let mpath = path_join dump_parent (entry_name entry) in
           (case path_file_name mpath of
              None \<Rightarrow> retE summary
            | Some name \<Rightarrow>
                if take 1 name \<noteq> ''.'' \<or> \<not> str_ends_with name ''.manifest.json'' then retE summary
                else scan_one mpath (recover_dump_parent env dump_parent mpath) summary))"

definition recover_dump_root :: "recovery_env \<Rightarrow> string \<Rightarrow> (fs, scan_summary) eff" where
  "recover_dump_root env dump_parent =
     bindE (read_dir dump_parent) (\<lambda>r. case r of
         Inl _ \<Rightarrow> retE scan_summary_default
       | Inr entries \<Rightarrow> foldE (scan_dump_entry env dump_parent) scan_summary_default entries)"

section \<open>Lemmas\<close>

text \<open>Every discovered transaction is counted once, and every one that needs attention is reported.\<close>

definition summary_ok :: "scan_summary \<Rightarrow> bool" where
  "summary_ok c \<longleftrightarrow> sc_discovered c = sc_completed c + sc_rolled_back c + sc_pending c + sc_failed c
     \<and> length (sc_issues c) = sc_pending c + sc_failed c"

lemma summary_ok_default [simp]: "summary_ok scan_summary_default"
  by (simp add: summary_ok_def scan_summary_default_def)

lemma summary_ok_merge: "summary_ok a \<Longrightarrow> summary_ok b \<Longrightarrow> summary_ok (scan_merge a b)"
  by (simp add: summary_ok_def scan_merge_def)

lemma summary_ok_count:
  "summary_ok c \<Longrightarrow> summary_ok (count_outcome path r (c\<lparr>sc_discovered := Suc (sc_discovered c)\<rparr>))"
  by (auto simp: summary_ok_def count_outcome_def split: sum.split recovery_outcome.split)

lemma wpE_scan_one: "summary_ok c \<Longrightarrow> wpE (scan_one path m c) (\<lambda>c' _. summary_ok c') (\<lambda>_ _. True) s"
  unfolding scan_one_def
  by (rule wpE_seq[OF wpE_anything]) (simp add: wp summary_ok_count split: sum.split lamb_error.split)

lemma wpE_scan:
  assumes "\<And>c x t. summary_ok c \<Longrightarrow> wpE (f c x) (\<lambda>c' _. summary_ok c') (\<lambda>_ _. True) t"
  shows "wpE (bindE (read_dir root) (\<lambda>r. case r of
         Inl _ \<Rightarrow> retE scan_summary_default | Inr entries \<Rightarrow> foldE f scan_summary_default entries))
       (\<lambda>c _. summary_ok c) (\<lambda>_ _. True) s"
proof (rule wpE_seq[OF wpE_anything])
  fix r t
  show "wpE (case r of Inl _ \<Rightarrow> retE scan_summary_default | Inr entries \<Rightarrow> foldE f scan_summary_default entries)
      (\<lambda>c _. summary_ok c) (\<lambda>_ _. True) t"
    by (cases r) (auto simp: wp intro!: wpE_fold[where P="\<lambda>_ c _. summary_ok c"] assms)
qed

lemma scan_entries_ok:
  assumes "summary_ok c"
  shows "wpE (scan_recall_entry env root out c x) (\<lambda>c' _. summary_ok c') (\<lambda>_ _. True) s"
    and "wpE (scan_dump_entry env root c x) (\<lambda>c' _. summary_ok c') (\<lambda>_ _. True) s"
  unfolding scan_recall_entry_def scan_dump_entry_def Let_def
  using assms by (auto simp: wpE_basic intro!: wpE_seq[OF wpE_anything] wpE_scan_one split: sum.split option.split)

lemma scan_counts_every_transaction:
  "wpE (recover_recall_staging_root_with_directories env root out) (\<lambda>c _. summary_ok c) (\<lambda>_ _. True) s"
  "wpE (recover_dump_root env root) (\<lambda>c _. summary_ok c) (\<lambda>_ _. True) s"
  unfolding recover_recall_staging_root_with_directories_def recover_dump_root_def
  by (intro wpE_scan scan_entries_ok; assumption)+

text \<open>A scan finishes the transaction it finds and leaves everything else alone.\<close>

lemma sample_scan:
  "snd (recover_recall_staging_root_with_directories sample_env ''/s'' ''/o'' sample_fs)
     = Inr (scan_summary_default\<lparr>sc_discovered := 1, sc_rolled_back := 1\<rparr>)"
  "snd (recover_dump_root sample_dump_env ''/o'' sample_dump_fs)
     = Inr (scan_summary_default\<lparr>sc_discovered := 1, sc_completed := 1\<rparr>)"
  by code_simp+

end
