(* ===== verification/Memory_Headroom.thy ===== *)
theory Memory_Headroom
  imports Complex_Main Memory_Budget
begin

text \<open>
  The memory requirement with headroom (\<open>required_bytes_with_headroom\<close> in
  \<open>src/memory_plan.rs\<close>): an exact product of a byte count with a floating-point factor,
  computed on the bit pattern of the factor in 128-bit integers.  An \<open>f64\<close> is its pattern;
  the comparisons follow IEEE 754.
\<close>

unbundle bit_operations_syntax

section \<open>Definitions\<close>

type_synonym f64 = "64 word"

definition f64_exponent :: "f64 \<Rightarrow> f64" where
  "f64_exponent h = drop_bit 52 h AND 0x7ff"

definition f64_fraction :: "f64 \<Rightarrow> f64" where
  "f64_fraction h = h AND (push_bit 52 1 - 1)"

definition f64_finite :: "f64 \<Rightarrow> bool" where
  "f64_finite h \<longleftrightarrow> f64_exponent h \<noteq> 0x7ff"

definition f64_is_nan :: "f64 \<Rightarrow> bool" where
  "f64_is_nan h \<longleftrightarrow> f64_exponent h = 0x7ff \<and> f64_fraction h \<noteq> 0"

definition f64_less_than_one :: "f64 \<Rightarrow> bool" where
  "f64_less_than_one h \<longleftrightarrow> \<not> f64_is_nan h \<and> (bit h 63 \<or> h < 0x3FF0000000000000)"

definition u128_lim :: nat where
  "u128_lim = 2 ^ 128"

definition checked_mul128 :: "nat \<Rightarrow> nat \<Rightarrow> nat option" where
  "checked_mul128 a b = (if a * b < u128_lim then Some (a * b) else None)"

definition checked_add128 :: "nat \<Rightarrow> nat \<Rightarrow> nat option" where
  "checked_add128 a b = (if a + b < u128_lim then Some (a + b) else None)"

text \<open>\<open>u128::checked_shl\<close> checks the distance only: bits that leave at the top are lost.\<close>

definition checked_shl128 :: "nat \<Rightarrow> nat \<Rightarrow> nat option" where
  "checked_shl128 a n = (if n < 128 then Some (a * 2 ^ n mod u128_lim) else None)"

function trailing_zeros :: "nat \<Rightarrow> nat" where
  "trailing_zeros n = (if n = 0 then 128 else if even n then 1 + trailing_zeros (n div 2) else 0)"
  by pat_completeness auto
termination by (relation "measure id") auto

declare trailing_zeros.simps [simp del]

definition headroom_ratio :: "f64 \<Rightarrow> (nat \<times> nat) result" where
  "headroom_ratio h =
     (let exponent = int (unat (f64_exponent h)) - 1023 - 52;
          numerator = unat (f64_fraction h OR push_bit 52 1)
      in if exponent < 0
         then let denominator_exponent = nat (- exponent);
                  common_power = min (trailing_zeros numerator) denominator_exponent
              in bindR (ok_or (checked_shl128 1 (denominator_exponent - common_power))
                         (Validation ''headroom ratio exponent overflow'')) (\<lambda>denominator.
                 Inr (numerator div 2 ^ common_power, denominator))
         else bindR (ok_or (checked_shl128 numerator (nat exponent)) (Validation ''headroom ratio overflow'')) (\<lambda>numerator.
              Inr (numerator, 1)))"

definition required_bytes_with_headroom :: "nat \<Rightarrow> f64 \<Rightarrow> nat result" where
  "required_bytes_with_headroom committed_bytes h =
     (if f64_less_than_one h \<or> \<not> f64_finite h then Inl (Validation ''headroom must be finite and >= 1.0'')
      else bindR (headroom_ratio h) (\<lambda>(numerator, denominator).
        bindR (ok_or (checked_mul128 committed_bytes numerator) (Validation ''memory requirement overflow'')) (\<lambda>product.
        bindR (ok_or (checked_add128 (product div denominator) (if product mod denominator \<noteq> 0 then 1 else 0))
                (Validation ''memory requirement overflow'')) (\<lambda>required.
        if required < u64_lim then Inr required
        else Inl (Validation ''memory requirement with headroom overflow'')))))"

section \<open>Lemmas\<close>

text \<open>The value of a normal positive number.\<close>

definition f64_value :: "f64 \<Rightarrow> real" where
  "f64_value h = real (unat (f64_fraction h) + 2 ^ 52) * 2 powi (int (unat (f64_exponent h)) - 1075)"

lemma f64_fraction_less: "unat (f64_fraction h) < 2 ^ 52"
proof -
  have "f64_fraction h = take_bit 52 h"
    by (simp add: f64_fraction_def take_bit_eq_mask mask_eq_exp_minus_1 push_bit_eq_mult)
  then show ?thesis by (simp add: take_bit_eq_mod unat_mod)
qed

lemma numerator_eq: "unat (f64_fraction h OR push_bit 52 1) = unat (f64_fraction h) + 2 ^ 52"
proof -
  have frac: "f64_fraction h = take_bit 52 h"
    by (simp add: f64_fraction_def take_bit_eq_mask mask_eq_exp_minus_1 push_bit_eq_mult)
  have "f64_fraction h AND push_bit 52 1 = 0"
    by (rule bit_word_eqI) (simp only: frac bit_and_iff bit_take_bit_iff bit_push_bit_iff bit_0_eq, simp)
  then have "f64_fraction h OR push_bit 52 1 = f64_fraction h + push_bit 52 1"
    by (simp add: disjunctive_add_eq_or)
  moreover have "unat (f64_fraction h + push_bit 52 1) = unat (f64_fraction h) + 2 ^ 52"
    using f64_fraction_less[of h] by (simp add: unat_word_ariths push_bit_eq_mult)
  ultimately show ?thesis by simp
qed

lemma f64_exponent_range:
  assumes "\<not> f64_less_than_one h" and "f64_finite h"
  shows "1023 \<le> unat (f64_exponent h)" and "unat (f64_exponent h) \<le> 2046"
proof -
  have "f64_exponent h = take_bit 11 (drop_bit 52 h)"
    by (simp add: f64_exponent_def take_bit_eq_mask mask_eq_exp_minus_1)
  then have e: "unat (f64_exponent h) = unat h div 2 ^ 52 mod 2 ^ 11"
    by (simp add: take_bit_eq_mod drop_bit_eq_div unat_div unat_mod)
  have sign: "\<not> bit h 63" and big: "0x3FF0000000000000 \<le> h"
    using assms by (auto simp: f64_less_than_one_def f64_is_nan_def f64_finite_def)
  have "unat h < 2 ^ 63"
  proof -
    have "h = take_bit 63 h"
    proof (rule bit_word_eqI)
      fix n assume "n < LENGTH(64)"
      then have "n < 63 \<or> n = 63" by auto
      with sign show "bit h n = bit (take_bit 63 h) n" by (auto simp: bit_take_bit_iff)
    qed
    then have "unat h = unat h mod 2 ^ 63" by (metis unsigned_take_bit_eq take_bit_eq_mod)
    then show ?thesis by (metis mod_less_divisor zero_less_numeral zero_less_power)
  qed
  moreover have "1023 * 2 ^ 52 \<le> unat h" using big by (simp add: word_le_nat_alt)
  ultimately show "1023 \<le> unat (f64_exponent h)" unfolding e by (simp add: less_mult_imp_div_less div_le_mono[of "1023 * 2 ^ 52" "unat h" "2 ^ 52", simplified])
  have "unat (f64_exponent h) < 2 ^ 11" unfolding e by simp
  moreover have "unat (f64_exponent h) \<noteq> 2047"
    using assms(2) word_unat_eq_iff[of "f64_exponent h" "0x7ff"] by (simp add: f64_finite_def)
  ultimately show "unat (f64_exponent h) \<le> 2046" by simp
qed

lemma trailing_zeros_dvd: "n \<noteq> 0 \<Longrightarrow> 2 ^ trailing_zeros n dvd n"
proof (induction n rule: trailing_zeros.induct)
  case (1 n)
  show ?case
  proof (cases "even n")
    case True
    with 1 have "2 ^ trailing_zeros (n div 2) dvd n div 2" by auto
    with True 1(2) show ?thesis by (subst trailing_zeros.simps) (auto elim!: evenE)
  qed (simp add: trailing_zeros.simps 1(2))
qed

lemma ceiling_div_nat:
  assumes "0 < b"
  shows "\<lceil>real a / real b\<rceil> = int (div_ceil a b)"
proof (rule ceiling_unique)
  have "real (div_ceil a b * b) < real (a + b)" using div_ceil_mult_less[OF assms] by (simp only: of_nat_less_iff)
  then show "real_of_int (int (div_ceil a b)) - 1 < real a / real b" using assms by (simp add: field_simps)
  have "real a \<le> real (div_ceil a b * b)" using div_ceil_mult_ge[OF assms] by (simp only: of_nat_le_iff)
  then show "real a / real b \<le> real_of_int (int (div_ceil a b))" using assms by (simp add: field_simps)
qed

lemma headroom_ratio_eq:
  assumes "m = unat (f64_fraction h) + 2 ^ 52" and "e = unat (f64_exponent h)"
  shows "headroom_ratio h =
     (if e < 1075
      then let k = min (trailing_zeros m) (1075 - e)
           in bindR (ok_or (checked_shl128 1 (1075 - e - k)) (Validation ''headroom ratio exponent overflow'')) (\<lambda>den. Inr (m div 2 ^ k, den))
      else bindR (ok_or (checked_shl128 m (e - 1075)) (Validation ''headroom ratio overflow'')) (\<lambda>num. Inr (num, 1)))"
proof (cases "e < 1075")
  case True
  then have "int e - 1023 - 52 < 0" "nat (- (int e - 1023 - 52)) = 1075 - e" by auto
  with True show ?thesis unfolding headroom_ratio_def numerator_eq Let_def assms[symmetric] by (simp only: if_True)
next
  case False
  then have "\<not> int e - 1023 - 52 < 0" "nat (int e - 1023 - 52) = e - 1075" by auto
  with False show ?thesis unfolding headroom_ratio_def numerator_eq Let_def assms[symmetric] by (simp only: if_False)
qed

lemma headroom_ratio_below:
  assumes h: "\<not> f64_less_than_one h" "f64_finite h" and e: "unat (f64_exponent h) < 1075"
  obtains num den where "headroom_ratio h = Inr (num, den)" and "0 < den" and "num \<le> 2 ^ 53"
    and "f64_value h = real num / real den"
proof -
  let ?m = "unat (f64_fraction h) + 2 ^ 52" and ?d = "1075 - unat (f64_exponent h)"
  let ?k = "min (trailing_zeros ?m) ?d"
  have d: "?d \<le> 52" using f64_exponent_range[OF h] e by auto
  have "2 ^ (?d - ?k) \<le> (2::nat) ^ 52" by (rule power_increasing) (use d in auto)
  then have den: "2 ^ (?d - ?k) mod u128_lim = 2 ^ (?d - ?k)" by (simp add: u128_lim_def)
  have "headroom_ratio h = Inr (?m div 2 ^ ?k, 2 ^ (?d - ?k))"
    using e diff_le_self[of ?d ?k, THEN order_trans, OF d] den unfolding headroom_ratio_eq[OF refl refl] by (simp add: Let_def checked_shl128_def ok_or_def)
  moreover have "?m div 2 ^ ?k \<le> 2 ^ 53" by (rule order_trans[OF div_le_dividend]) (use f64_fraction_less[of h] in simp)
  moreover have "f64_value h = real (?m div 2 ^ ?k) / real (2 ^ (?d - ?k))"
  proof -
    have dvd: "2 ^ ?k dvd ?m" by (rule dvd_trans[OF le_imp_power_dvd trailing_zeros_dvd]) simp_all
    have split: "(2::real) ^ ?d = 2 ^ ?k * 2 ^ (?d - ?k)" by (simp flip: power_add)
    have whole: "real (?m div 2 ^ ?k) = real ?m / 2 ^ ?k" using real_of_nat_div[OF dvd] by (simp only: of_nat_power of_nat_numeral)
    have "int (unat (f64_exponent h)) - 1075 = - int ?d" using e by simp
    then have "f64_value h = real ?m * (1 / 2 ^ ?d)"
      unfolding f64_value_def by (simp only: power_int_minus power_int_of_nat inverse_eq_divide)
    also have "\<dots> = real ?m / 2 ^ ?k / 2 ^ (?d - ?k)" unfolding split by simp
    finally show ?thesis by (simp only: whole of_nat_power of_nat_numeral)
  qed
  ultimately show ?thesis using that by force
qed

lemma headroom_ratio_above:
  assumes h: "\<not> f64_less_than_one h" "f64_finite h" and e: "1075 \<le> unat (f64_exponent h)" and small: "f64_value h < 2 ^ 128"
  obtains num where "headroom_ratio h = Inr (num, 1)" and "f64_value h = real num"
proof -
  let ?m = "unat (f64_fraction h) + 2 ^ 52" and ?e = "unat (f64_exponent h) - 1075"
  have "int (unat (f64_exponent h)) - 1075 = int ?e" using e by simp
  then have v: "f64_value h = real (?m * 2 ^ ?e)" unfolding f64_value_def by (simp only: power_int_of_nat) simp
  have num: "?m * 2 ^ ?e < 2 ^ 128"
  proof -
    have "real (?m * 2 ^ ?e) < real (2 ^ 128)" using small v by simp
    then show ?thesis by (simp only: of_nat_less_iff)
  qed
  have "?e < 128"
  proof (rule ccontr)
    assume "\<not> ?e < 128"
    then have "(2::nat) ^ 128 \<le> 2 ^ ?e" by (intro power_increasing) auto
    also have "\<dots> \<le> ?m * 2 ^ ?e" by simp
    finally show False using num by simp
  qed
  then have "headroom_ratio h = Inr (?m * 2 ^ ?e, 1)"
    using e num unfolding headroom_ratio_eq[OF refl refl] by (simp add: checked_shl128_def ok_or_def u128_lim_def)
  with v show ?thesis by (intro that[of "?m * 2 ^ ?e"]) simp_all
qed

lemma required_from_ratio:
  assumes h: "\<not> f64_less_than_one h" "f64_finite h" and c: "committed < u64_lim"
    and ratio: "headroom_ratio h = Inr (num, den)" "0 < den" "f64_value h = real num / real den" and fits: "num \<le> 2 ^ 53 \<or> den = 1"
  shows "case required_bytes_with_headroom committed h of
           Inl _ \<Rightarrow> 2 ^ 64 \<le> \<lceil>real committed * f64_value h\<rceil>
         | Inr required \<Rightarrow> required < 2 ^ 64 \<and> int required = \<lceil>real committed * f64_value h\<rceil>"
proof -
  let ?p = "committed * num"
  have "real committed * f64_value h = real ?p / real den" by (simp add: ratio(3) of_nat_mult)
  then have ceil: "\<lceil>real committed * f64_value h\<rceil> = int (div_ceil ?p den)" using ceiling_div_nat[OF ratio(2), of ?p] by (simp only:)
  have round: "?p div den + (if ?p mod den \<noteq> 0 then 1 else 0) = div_ceil ?p den" by (simp add: div_ceil_def)
  have small: "?p < u128_lim" if "num \<le> 2 ^ 53"
  proof -
    have "?p \<le> u64_lim * 2 ^ 53" using c that by (intro mult_le_mono) auto
    also have "\<dots> < u128_lim" by (simp add: u64_lim_def u128_lim_def)
    finally show ?thesis .
  qed
  have le: "div_ceil ?p den \<le> ?p" using div_ceil_le[OF ratio(2)] .
  show ?thesis
  proof (cases "?p < u128_lim")
    case True
    with le have "checked_add128 (?p div den) (if ?p mod den \<noteq> 0 then 1 else 0) = Some (div_ceil ?p den)"
      unfolding checked_add128_def round by simp
    with True h ratio(1) have "required_bytes_with_headroom committed h =
        (if div_ceil ?p den < u64_lim then Inr (div_ceil ?p den) else Inl (Validation ''memory requirement with headroom overflow''))"
      by (simp add: required_bytes_with_headroom_def checked_mul128_def ok_or_def)
    then show ?thesis by (simp add: ceil u64_lim_def)
  next
    case False
    with small fits have den: "den = 1" by blast
    from False h ratio(1) have "required_bytes_with_headroom committed h = Inl (Validation ''memory requirement overflow'')"
      by (simp add: required_bytes_with_headroom_def checked_mul128_def ok_or_def)
    moreover have "int (2 ^ 64) \<le> int ?p" using False by (simp only: of_nat_le_iff) (simp add: u128_lim_def)
    ultimately show ?thesis unfolding ceil den by (simp add: div_ceil_def)
  qed
qed

lemma headroom_shift_loses_factor: "required_bytes_with_headroom committed 0x47F0000000000000 = Inr 0"
proof -
  have bits: "f64_exponent 0x47F0000000000000 = 0x47F" "f64_fraction 0x47F0000000000000 = 0"
    by (simp_all add: f64_exponent_def f64_fraction_def)
  have "headroom_ratio 0x47F0000000000000 = Inr (0, 1)"
    unfolding headroom_ratio_eq[OF refl refl] bits by (simp add: checked_shl128_def u128_lim_def)
  moreover have "\<not> f64_less_than_one 0x47F0000000000000" "f64_finite 0x47F0000000000000"
    by (simp_all add: f64_less_than_one_def f64_finite_def bits)
  ultimately show ?thesis
    by (simp add: required_bytes_with_headroom_def checked_mul128_def checked_add128_def u128_lim_def)
qed

text \<open>
  (C15) The memory requirement is exact below 2 to the 128: for every accepted headroom factor
  smaller than that, the result is the exact product of the committed bytes and the factor,
  rounded up, when that fits 64 bits, and an error is returned exactly when it does not.  At 2 to the 128
  the shift of the factor loses its only bit and the requirement is zero, whatever is committed.
\<close>

theorem headroom_requirement_exact:
  assumes "\<not> f64_less_than_one h" and "f64_finite h" and "committed < u64_lim" and "f64_value h < 2 ^ 128"
  shows "(case required_bytes_with_headroom committed h of
            Inl _ \<Rightarrow> 2 ^ 64 \<le> \<lceil>real committed * f64_value h\<rceil>
          | Inr required \<Rightarrow> required < 2 ^ 64 \<and> int required = \<lceil>real committed * f64_value h\<rceil>)
         \<and> f64_value 0x47F0000000000000 = 2 ^ 128 \<and> required_bytes_with_headroom committed 0x47F0000000000000 = Inr 0"
proof -
  have "case required_bytes_with_headroom committed h of
            Inl _ \<Rightarrow> 2 ^ 64 \<le> \<lceil>real committed * f64_value h\<rceil>
          | Inr required \<Rightarrow> required < 2 ^ 64 \<and> int required = \<lceil>real committed * f64_value h\<rceil>"
  proof (cases "unat (f64_exponent h) < 1075")
    case True
    then obtain num den where "headroom_ratio h = Inr (num, den)" "0 < den" "num \<le> 2 ^ 53" "f64_value h = real num / real den"
      using headroom_ratio_below[OF assms(1,2)] by blast
    then show ?thesis by (intro required_from_ratio[OF assms(1-3)]) auto
  next
    case False
    then obtain num where "headroom_ratio h = Inr (num, 1)" "f64_value h = real num"
      using headroom_ratio_above[OF assms(1,2) _ assms(4)] by (metis linorder_not_less)
    then show ?thesis by (intro required_from_ratio[OF assms(1-3)]) auto
  qed
  moreover have "f64_value 0x47F0000000000000 = 2 ^ 128"
    by (simp add: f64_value_def f64_fraction_def f64_exponent_def)
  moreover have "required_bytes_with_headroom committed 0x47F0000000000000 = Inr 0"
    by (rule headroom_shift_loses_factor)
  ultimately show ?thesis by blast
qed

theorem headroom_requirement_exact_witness:
  "required_bytes_with_headroom 100 0x3FF8000000000000 = Inr 150
   \<and> (\<exists>e. required_bytes_with_headroom (2 ^ 64 - 1) 0x3FF8000000000000 = Inl e)"
proof -
  have v: "f64_value 0x3FF8000000000000 = 3 / 2"
    by (simp add: f64_value_def f64_fraction_def f64_exponent_def power_int_def power_one_over)
  have h: "\<not> f64_less_than_one 0x3FF8000000000000" "f64_finite 0x3FF8000000000000"
    by (simp_all add: f64_less_than_one_def f64_finite_def f64_exponent_def)
  have "f64_value 0x3FF8000000000000 < 2 ^ 128" by (simp add: v)
  note exact = headroom_requirement_exact[OF h _ this, THEN conjunct1, unfolded v]
  have "required_bytes_with_headroom 100 0x3FF8000000000000 = Inr 150"
    using exact[of 100] by (auto simp: u64_lim_def split: sum.splits)
  moreover have "\<exists>e. required_bytes_with_headroom (2 ^ 64 - 1) 0x3FF8000000000000 = Inl e"
    using exact[of "2 ^ 64 - 1"] by (auto simp: u64_lim_def split: sum.splits)
  ultimately show ?thesis ..
qed

end
