(* ===== verification/Memory_Plan.thy ===== *)
theory Memory_Plan
  imports Memory_Headroom Wav_Math Sample_Ring Manifest
begin

text \<open>
  The memory plan of a session (\<open>src/memory_plan.rs\<close>): the sizes of all buffers, queues and
  slots from the configuration, each computed with checked arithmetic, their sum, and the
  requirement with headroom.  \<open>calculate\<close> runs through the groups in the order of the code.
  Parameters are the page size \<open>sysconf\<close> reports and the size the compiler gives the slot
  type \<open>CurrentArtifactSlot\<close>.
\<close>

section \<open>Definitions\<close>

definition RING_COUNT :: nat where "RING_COUNT = 2"
definition WAV_SAMPLE_BYTES :: nat where "WAV_SAMPLE_BYTES = 3"
definition OUTPUT_PATH_SLOTS_PER_PART :: nat where "OUTPUT_PATH_SLOTS_PER_PART = 2"
definition MANIFEST_FIXED_PATH_ENTRIES :: nat where "MANIFEST_FIXED_PATH_ENTRIES = 5"
definition SPLIT_PART_SLOT_BYTES :: nat where "SPLIT_PART_SLOT_BYTES = 32"
definition FILE_WRITER_SLOT_BYTES :: nat where "FILE_WRITER_SLOT_BYTES = 256"
definition PATH_SLOT_METADATA_BYTES :: nat where "PATH_SLOT_METADATA_BYTES = 32"
definition MANIFEST_ENTRY_METADATA_BYTES :: nat where "MANIFEST_ENTRY_METADATA_BYTES = 128"
definition MANIFEST_DIRECTORY_METADATA_BYTES :: nat where "MANIFEST_DIRECTORY_METADATA_BYTES = 64"
definition MANIFEST_PATH_ESCAPE_MULTIPLIER :: nat where "MANIFEST_PATH_ESCAPE_MULTIPLIER = 6"
definition MANIFEST_JSON_ENTRY_OVERHEAD_BYTES :: nat where "MANIFEST_JSON_ENTRY_OVERHEAD_BYTES = 256"
definition MANIFEST_JSON_DIRECTORY_OVERHEAD_BYTES :: nat where "MANIFEST_JSON_DIRECTORY_OVERHEAD_BYTES = 192"
definition MANIFEST_JSON_FIXED_OVERHEAD_BYTES :: nat where "MANIFEST_JSON_FIXED_OVERHEAD_BYTES = 1024"
definition OPERATION_QUEUE_SLOT_BYTES :: nat where "OPERATION_QUEUE_SLOT_BYTES = 256"
definition RUNTIME_METADATA_RESERVE_BYTES :: nat where "RUNTIME_METADATA_RESERVE_BYTES = 512"
definition CAPTURE_QUEUE_SLOT_METADATA_BYTES :: nat where "CAPTURE_QUEUE_SLOT_METADATA_BYTES = 64"
definition CAPTURE_COMMAND_RESULT_SLOT_BYTES :: nat where "CAPTURE_COMMAND_RESULT_SLOT_BYTES = 512"
definition FROZEN_EXPORT_DECISION_SLOT_BYTES :: nat where "FROZEN_EXPORT_DECISION_SLOT_BYTES = 24"
definition ACTIVITY_DETECTOR_STATE_SLOT_BYTES :: nat where "ACTIVITY_DETECTOR_STATE_SLOT_BYTES = 104"
definition CALIBRATION_SLOT_METADATA_BYTES :: nat where "CALIBRATION_SLOT_METADATA_BYTES = 256"
definition PUBLICATION_SYNC_SLOT_BYTES :: nat where "PUBLICATION_SYNC_SLOT_BYTES = 16"

record session_memory_inputs =
  mi_retention_frames :: nat
  mi_channels :: nat
  mi_sample_rate :: nat
  mi_sample_format :: sample_format
  mi_chunk_frames :: nat
  mi_max_active_snapshots :: nat
  mi_sample_bytes :: nat
  mi_split_when_over_bytes :: nat
  mi_control_queue_capacity :: nat
  mi_worker_stack_bytes :: nat
  mi_capture_queue_slots :: nat
  mi_capture_slot_frames :: nat
  mi_capture_worker_stack_bytes :: nat
  mi_io_buffer_bytes_per_channel :: nat
  mi_maximum_path_bytes :: nat
  mi_maximum_calibration_seconds :: nat
  mi_headroom :: f64

record memory_component =
  mc_name :: string
  mc_bytes :: nat

definition component :: "string \<Rightarrow> nat \<Rightarrow> memory_component" where
  "component name bytes = \<lparr>mc_name = name, mc_bytes = bytes\<rparr>"

definition positive_inputs :: "session_memory_inputs \<Rightarrow> (string \<times> nat) list" where
  "positive_inputs i =
     [(''retention_frames'', mi_retention_frames i), (''channels'', mi_channels i), (''sample_rate'', mi_sample_rate i),
      (''chunk_frames'', mi_chunk_frames i), (''max_active_snapshots'', mi_max_active_snapshots i),
      (''sample_bytes'', mi_sample_bytes i), (''control_queue_capacity'', mi_control_queue_capacity i),
      (''worker_stack_bytes'', mi_worker_stack_bytes i), (''capture_queue_slots'', mi_capture_queue_slots i),
      (''capture_slot_frames'', mi_capture_slot_frames i), (''capture_worker_stack_bytes'', mi_capture_worker_stack_bytes i),
      (''io_buffer_bytes_per_channel'', mi_io_buffer_bytes_per_channel i), (''maximum_path_bytes'', mi_maximum_path_bytes i)]"

definition validate_inputs :: "session_memory_inputs \<Rightarrow> unit result" where
  "validate_inputs i =
     (if 30 < mi_maximum_calibration_seconds i then Inl (Validation ''maximum_calibration_seconds must be <= 30'')
      else bindR (try_fold (\<lambda>_ (name, value). ensure (value \<noteq> 0) (Validation (name @ '' must be > 0''))) () (positive_inputs i)) (\<lambda>_.
        if mi_sample_bytes i \<noteq> 4 then Inl (Validation ''sample_bytes must be 4 for the supported f32 ring layout'')
        else if mi_sample_format i \<noteq> F32Le then Inl (Validation ''sample_format must be F32Le for the supported ring layout'')
        else if f64_less_than_one (mi_headroom i) \<or> \<not> f64_finite (mi_headroom i)
        then Inl (Validation ''headroom must be finite and >= 1.0'')
        else Inr ()))"

text \<open>The rings.\<close>

record ring_group =
  rg_chunk_count :: nat
  rg_allocated_frames :: nat
  rg_components :: "memory_component list"

definition plan_rings :: "int \<Rightarrow> session_memory_inputs \<Rightarrow> ring_group result" where
  "plan_rings sc i =
     (let chunk_count = div_ceil (mi_retention_frames i) (mi_chunk_frames i) in
      if u32_lim \<le> chunk_count then Inl (Validation ''ring chunk count exceeds supported maximum'')
      else
      bindR (checked_mul ''ring frame allocation overflow'' chunk_count (mi_chunk_frames i)) (\<lambda>allocated_frames.
      bindR (checked_mul ''ring sample count overflow'' allocated_frames (mi_channels i)) (\<lambda>samples_per_ring.
      bindR (checked_mul ''ring sample byte count overflow'' samples_per_ring (mi_sample_bytes i)) (\<lambda>sample_bytes_per_ring.
      bindR (checked_mul ''dual-ring sample byte count overflow'' sample_bytes_per_ring RING_COUNT) (\<lambda>ring_samples.
      bindR (checked_mul ''chunk sample count overflow'' (mi_chunk_frames i) (mi_channels i)) (\<lambda>chunk_samples.
      bindR (checked_mul ''chunk sample byte count overflow'' chunk_samples (mi_sample_bytes i)) (\<lambda>chunk_sample_bytes.
      bindR (ring_metadata_budget_of sc chunk_count chunk_sample_bytes) (\<lambda>ring_metadata.
      bindR (checked_mul ''dual-ring sample allocator padding overflow'' (sample_allocator_padding ring_metadata) RING_COUNT) (\<lambda>padding.
      bindR (checked_mul ''dual-ring chunk object budget overflow'' (chunk_objects ring_metadata) RING_COUNT) (\<lambda>objects.
      bindR (checked_mul ''dual-ring chunk index budget overflow'' (chunk_index ring_metadata) RING_COUNT) (\<lambda>index.
      bindR (checked_mul ''dual-ring fixed metadata budget overflow'' (fixed_bytes ring_metadata) RING_COUNT) (\<lambda>fixed.
      Inr \<lparr>rg_chunk_count = chunk_count, rg_allocated_frames = allocated_frames,
           rg_components = [component ''ring_samples'' ring_samples, component ''ring_sample_allocator_padding'' padding,
             component ''ring_chunk_objects'' objects, component ''ring_chunk_index'' index,
             component ''ring_fixed_metadata'' fixed]\<rparr>))))))))))))"

text \<open>The ingress queue and its worker.\<close>

definition plan_capture :: "int \<Rightarrow> session_memory_inputs \<Rightarrow> memory_component list result" where
  "plan_capture sc i =
     bindR (bindR (checked_mul ''capture slot sample count overflow'' (mi_capture_slot_frames i) (mi_channels i)) (\<lambda>samples.
            checked_mul ''capture slot sample byte count overflow'' samples (mi_sample_bytes i))) (\<lambda>slot_sample_bytes.
     bindR (allocation_budget_bytes sc slot_sample_bytes) (\<lambda>slot_allocation.
     bindR (checked_mul ''capture queue sample storage overflow'' (mi_capture_queue_slots i) slot_allocation) (\<lambda>samples.
     bindR (bindR (checked_mul ''capture queue slot metadata overflow'' (mi_capture_queue_slots i) CAPTURE_QUEUE_SLOT_METADATA_BYTES)
              (allocation_budget_bytes sc)) (\<lambda>slot_metadata.
     bindR (allocation_budget_bytes sc CAPTURE_COMMAND_RESULT_SLOT_BYTES) (\<lambda>command_slot.
     bindR (allocation_budget_bytes sc (mi_capture_worker_stack_bytes i)) (\<lambda>stack.
     Inr [component ''capture_queue_samples'' samples, component ''capture_queue_slot_metadata'' slot_metadata,
          component ''capture_command_result_slot'' command_slot, component ''capture_worker_stack'' stack]))))))"

text \<open>The calibration buffers: all samples, and a level for each complete window of 20 ms every 10 ms.\<close>

record calibration_group =
  cg_sample_frames :: nat
  cg_complete_windows :: nat
  cg_window_frames :: nat
  cg_hop_frames :: nat
  cg_components :: "memory_component list"

definition calibration_allocation :: "int \<Rightarrow> nat \<Rightarrow> nat result" where
  "calibration_allocation sc payload = (if payload = 0 then Inr 0 else allocation_budget_bytes sc payload)"

definition complete_windows :: "nat \<Rightarrow> nat \<Rightarrow> nat \<Rightarrow> nat result" where
  "complete_windows sample_frames window_frames hop_frames =
     (if sample_frames = 0 \<or> sample_frames < window_frames then Inr 0
      else ok_or (Option.bind (checked_sub64 sample_frames window_frames) (\<lambda>remaining.
                  Option.bind (if hop_frames = 0 then None else Some (remaining div hop_frames)) (\<lambda>hops. checked_add64 hops 1)))
             (Validation ''calibration window count overflow''))"

definition plan_calibration :: "int \<Rightarrow> session_memory_inputs \<Rightarrow> calibration_group result" where
  "plan_calibration sc i =
     bindR (checked_mul ''calibration sample frame count overflow'' (mi_maximum_calibration_seconds i) (mi_sample_rate i)) (\<lambda>sample_frames.
     bindR (checked_mul ''calibration window geometry overflow'' (mi_sample_rate i) 20) (\<lambda>w.
     let window_frames = max (div_ceil w 1000) 1 in
     bindR (checked_mul ''calibration hop geometry overflow'' (mi_sample_rate i) 10) (\<lambda>h.
     let hop_frames = max (div_ceil h 1000) 1 in
     bindR (complete_windows sample_frames window_frames hop_frames) (\<lambda>windows.
     bindR (checked_mul ''calibration sample storage overflow'' sample_frames 4) (\<lambda>samples_payload.
     bindR (checked_mul ''calibration RMS storage overflow'' windows 4) (\<lambda>rms_payload.
     bindR (calibration_allocation sc samples_payload) (\<lambda>samples.
     bindR (calibration_allocation sc rms_payload) (\<lambda>rms.
     bindR (calibration_allocation sc rms_payload) (\<lambda>peak.
     bindR (allocation_budget_bytes sc CALIBRATION_SLOT_METADATA_BYTES) (\<lambda>metadata.
     Inr \<lparr>cg_sample_frames = sample_frames, cg_complete_windows = windows, cg_window_frames = window_frames, cg_hop_frames = hop_frames,
          cg_components = [component ''calibration_samples'' samples, component ''calibration_rms'' rms,
            component ''calibration_peak'' peak, component ''calibration_slot_metadata'' metadata]\<rparr>))))))))))"

text \<open>The buffers between ring and file.\<close>

record workspace_group =
  wg_interleaved_scratch :: nat
  wg_components :: "memory_component list"

definition plan_workspace :: "int \<Rightarrow> session_memory_inputs \<Rightarrow> workspace_group result" where
  "plan_workspace sc i =
     bindR (bindR (checked_mul ''interleaved scratch sample count overflow'' (mi_chunk_frames i) (mi_channels i)) (\<lambda>samples.
            checked_mul ''interleaved scratch byte count overflow'' samples (mi_sample_bytes i))) (\<lambda>interleaved_scratch.
     bindR (checked_mul ''channel I/O workspace overflow'' (mi_channels i) (mi_io_buffer_bytes_per_channel i)) (\<lambda>channel_io.
     bindR (checked_add ''persistence workspace overflow'' interleaved_scratch channel_io) (\<lambda>workspace.
     bindR (allocation_budget_bytes sc interleaved_scratch) (\<lambda>scratch_allocation.
     bindR (ok_or (checked_sub64 scratch_allocation interleaved_scratch) (Validation ''scratch allocator padding underflow'')) (\<lambda>scratch_padding.
     bindR (allocation_budget_bytes sc (mi_io_buffer_bytes_per_channel i)) (\<lambda>channel_allocation.
     bindR (ok_or (checked_sub64 channel_allocation (mi_io_buffer_bytes_per_channel i))
              (Validation ''channel allocator padding underflow'')) (\<lambda>channel_padding.
     bindR (checked_mul ''channel allocator padding overflow'' (mi_channels i) channel_padding) (\<lambda>all_channels.
     bindR (checked_add ''workspace allocator padding overflow'' scratch_padding all_channels) (\<lambda>padding.
     Inr \<lparr>wg_interleaved_scratch = interleaved_scratch,
          wg_components = [component ''persistence_workspace'' workspace, component ''workspace_allocator_padding'' padding]\<rparr>)))))))))"

text \<open>The slots for the files of an export and their paths.\<close>

record output_group =
  og_parts_per_channel :: nat
  og_part_slots :: nat
  og_path_slot_count :: nat
  og_components :: "memory_component list"

definition plan_outputs :: "int \<Rightarrow> session_memory_inputs \<Rightarrow> output_group result" where
  "plan_outputs sc i =
     bindR (wav_part_count (mi_retention_frames i) WAV_SAMPLE_BYTES (mi_split_when_over_bytes i)) (\<lambda>parts_per_channel.
     bindR (checked_mul ''WAV part slot count overflow'' parts_per_channel (mi_channels i)) (\<lambda>part_slots.
     bindR (bindR (checked_mul ''split-part slot byte count overflow'' part_slots SPLIT_PART_SLOT_BYTES) (allocation_budget_bytes sc)) (\<lambda>split_part_slots.
     bindR (bindR (checked_mul ''file/writer slot byte count overflow'' (mi_channels i) FILE_WRITER_SLOT_BYTES) (allocation_budget_bytes sc)) (\<lambda>file_writer_slots.
     bindR (checked_mul ''output path slot count overflow'' part_slots OUTPUT_PATH_SLOTS_PER_PART) (\<lambda>output_path_slots.
     bindR (checked_add ''path slot count overflow'' output_path_slots MANIFEST_FIXED_PATH_ENTRIES) (\<lambda>path_slot_count.
     bindR (checked_mul ''path byte count overflow'' path_slot_count (mi_maximum_path_bytes i)) (\<lambda>path_bytes.
     bindR (allocation_budget_bytes sc (mi_maximum_path_bytes i)) (\<lambda>path_allocation.
     bindR (ok_or (checked_sub64 path_allocation (mi_maximum_path_bytes i)) (Validation ''path allocator padding underflow'')) (\<lambda>padding_per_slot.
     bindR (checked_mul ''path allocator padding overflow'' path_slot_count padding_per_slot) (\<lambda>path_padding.
     bindR (bindR (checked_mul ''path slot metadata byte count overflow'' path_slot_count PATH_SLOT_METADATA_BYTES) (allocation_budget_bytes sc)) (\<lambda>path_slot_metadata.
     Inr \<lparr>og_parts_per_channel = parts_per_channel, og_part_slots = part_slots, og_path_slot_count = path_slot_count,
          og_components = [component ''split_part_slots'' split_part_slots, component ''file_writer_slots'' file_writer_slots,
            component ''path_bytes'' path_bytes, component ''path_allocator_padding'' path_padding,
            component ''path_slot_metadata'' path_slot_metadata]\<rparr>)))))))))))"

text \<open>The manifest: entries, directory journal, scratch of the publication, serialised text and path arena.\<close>

record manifest_group =
  mg_directory_slots :: nat
  mg_publication_scratch :: nat
  mg_paths :: nat
  mg_components :: "memory_component list"

definition plan_scratch :: "int \<Rightarrow> nat \<Rightarrow> nat \<Rightarrow> nat \<Rightarrow> nat result" where
  "plan_scratch sc artifact_slot_bytes maximum_path_bytes directory_slots =
     bindR (checked_add ''publication component buffer overflow'' maximum_path_bytes 1) (\<lambda>component_bytes.
     bindR (checked_mul ''publication sync slot storage overflow'' directory_slots PUBLICATION_SYNC_SLOT_BYTES) (\<lambda>sync_payload.
     bindR (allocation_budget_bytes sc sync_payload) (\<lambda>sync.
     bindR (allocation_budget_bytes sc component_bytes) (\<lambda>buffer.
     bindR (checked_mul ''publication component buffer storage overflow'' 2 buffer) (\<lambda>buffers.
     bindR (checked_add ''publication scratch overflow'' sync buffers) (\<lambda>subtotal.
     bindR (allocation_budget_bytes sc artifact_slot_bytes) (\<lambda>artifact.
     checked_add ''publication scratch overflow'' subtotal artifact)))))))"

definition plan_serialization :: "int \<Rightarrow> nat \<Rightarrow> nat \<Rightarrow> nat \<Rightarrow> nat result" where
  "plan_serialization sc maximum_path_bytes path_entries directory_slots =
     bindR (checked_mul ''escaped manifest path byte count overflow'' maximum_path_bytes MANIFEST_PATH_ESCAPE_MULTIPLIER) (\<lambda>escaped.
     bindR (checked_add ''manifest path entry byte count overflow'' escaped MANIFEST_JSON_ENTRY_OVERHEAD_BYTES) (\<lambda>entry_bytes.
     bindR (checked_mul ''manifest path entries byte count overflow'' path_entries entry_bytes) (\<lambda>all_entries.
     bindR (checked_mul ''manifest directory serialization overflow'' directory_slots MANIFEST_JSON_DIRECTORY_OVERHEAD_BYTES) (\<lambda>directories.
     bindR (checked_add ''manifest serialization total overflow'' MANIFEST_JSON_FIXED_OVERHEAD_BYTES all_entries) (\<lambda>subtotal.
     bindR (checked_add ''manifest serialization payload overflow'' subtotal directories) (\<lambda>payload.
     allocation_budget_bytes sc payload))))))"

definition plan_manifest :: "int \<Rightarrow> nat \<Rightarrow> session_memory_inputs \<Rightarrow> nat \<Rightarrow> manifest_group result" where
  "plan_manifest sc artifact_slot_bytes i part_slots =
     bindR (bindR (checked_mul ''manifest entry byte count overflow'' part_slots MANIFEST_ENTRY_METADATA_BYTES) (allocation_budget_bytes sc)) (\<lambda>entries.
     bindR (checked_mul ''manifest directory slot count overflow'' part_slots (div_ceil (mi_maximum_path_bytes i) 2)) (\<lambda>directory_slots.
     bindR (bindR (checked_mul ''manifest directory metadata overflow'' directory_slots MANIFEST_DIRECTORY_METADATA_BYTES) (allocation_budget_bytes sc)) (\<lambda>directories.
     bindR (plan_scratch sc artifact_slot_bytes (mi_maximum_path_bytes i) directory_slots) (\<lambda>scratch.
     bindR (bindR (checked_mul ''manifest entry path count overflow'' part_slots 3) (\<lambda>n.
            checked_add ''manifest entry path slot count overflow'' n MANIFEST_FIXED_PATH_ENTRIES)) (\<lambda>path_entries.
     bindR (plan_serialization sc (mi_maximum_path_bytes i) path_entries directory_slots) (\<lambda>serialization.
     bindR (bindR (checked_mul ''manifest path arena byte count overflow'' path_entries (mi_maximum_path_bytes i)) (allocation_budget_bytes sc)) (\<lambda>paths.
     Inr \<lparr>mg_directory_slots = directory_slots, mg_publication_scratch = scratch, mg_paths = paths,
          mg_components = [component ''manifest_entries'' entries, component ''manifest_directories'' directories,
            component ''publication_scratch'' scratch, component ''manifest_serialization'' serialization,
            component ''manifest_paths'' paths]\<rparr>)))))))"

text \<open>
  The length of the path arena as the persistence workspace computes it again when it allocates
  (\<open>src/persistence_workspace.rs\<close>): the exact product, without the rounding to pages
  of the plan.
\<close>

definition manifest_paths_len :: "nat \<Rightarrow> nat \<Rightarrow> nat result" where
  "manifest_paths_len output_slots maximum_path_bytes =
     ok_or (Option.bind (checked_mul64 output_slots 3) (\<lambda>slots.
            Option.bind (checked_add64 slots MANIFEST_FIXED_PATH_ENTRIES) (\<lambda>slots.
            checked_mul64 slots maximum_path_bytes)))
       (Validation ''manifest path arena capacity overflow'')"

text \<open>The operation lane and the detectors.\<close>

definition plan_runtime :: "int \<Rightarrow> session_memory_inputs \<Rightarrow> nat \<Rightarrow> memory_component list result" where
  "plan_runtime sc i interleaved_scratch =
     bindR (bindR (checked_mul ''operation queue byte count overflow'' (mi_control_queue_capacity i) OPERATION_QUEUE_SLOT_BYTES) (allocation_budget_bytes sc)) (\<lambda>queue.
     bindR (allocation_budget_bytes sc (mi_worker_stack_bytes i)) (\<lambda>stack.
     bindR (allocation_budget_bytes sc RUNTIME_METADATA_RESERVE_BYTES) (\<lambda>fixed.
     bindR (bindR (checked_mul ''frozen export decision storage overflow'' (mi_channels i) FROZEN_EXPORT_DECISION_SLOT_BYTES) (allocation_budget_bytes sc)) (\<lambda>decisions.
     bindR (bindR (checked_mul ''activity detector state storage overflow'' (mi_channels i) ACTIVITY_DETECTOR_STATE_SLOT_BYTES) (allocation_budget_bytes sc)) (\<lambda>states.
     bindR (bindR (checked_mul ''activity detector decision storage overflow'' (mi_channels i) FROZEN_EXPORT_DECISION_SLOT_BYTES) (allocation_budget_bytes sc)) (\<lambda>detector_decisions.
     bindR (allocation_budget_bytes sc interleaved_scratch) (\<lambda>detector_scratch.
     bindR (bindR (checked_add ''activity detector state and decision workspace overflow'' states detector_decisions) (\<lambda>workspace.
            checked_add ''activity detector workspace overflow'' workspace detector_scratch)) (\<lambda>detector.
     Inr [component ''operation_worker_stack'' stack, component ''operation_queue'' queue, component ''runtime_fixed_metadata'' fixed,
          component ''frozen_export_decisions'' decisions, component ''activity_detector_workspace'' detector]))))))))"

record session_memory_plan =
  sp_inputs :: session_memory_inputs
  sp_components :: "memory_component list"
  sp_committed_bytes :: nat
  sp_required_with_headroom :: nat
  sp_allocated_retention_frames :: nat
  sp_chunk_count :: nat
  sp_maximum_wav_parts_per_channel :: nat
  sp_output_file_slots :: nat
  sp_path_slots :: nat
  sp_manifest_paths_bytes :: nat
  sp_manifest_directory_slots :: nat
  sp_publication_scratch :: nat
  sp_calibration_sample_frames :: nat
  sp_calibration_complete_windows :: nat
  sp_calibration_window_frames :: nat
  sp_calibration_hop_frames :: nat

definition plan_component :: "session_memory_plan \<Rightarrow> string \<Rightarrow> memory_component option" where
  "plan_component plan name = find (\<lambda>c. mc_name c = name) (sp_components plan)"

definition committed_total :: "memory_component list \<Rightarrow> nat result" where
  "committed_total components = try_fold (\<lambda>t c. checked_add ''committed memory byte count overflow'' t (mc_bytes c)) 0 components"

definition calculate :: "int \<Rightarrow> nat \<Rightarrow> session_memory_inputs \<Rightarrow> session_memory_plan result" where
  "calculate sc artifact_slot_bytes i =
     bindR (validate_inputs i) (\<lambda>_.
     bindR (plan_rings sc i) (\<lambda>rings.
     bindR (plan_capture sc i) (\<lambda>capture.
     bindR (plan_calibration sc i) (\<lambda>calibration.
     bindR (plan_workspace sc i) (\<lambda>workspace.
     bindR (plan_outputs sc i) (\<lambda>outputs.
     bindR (plan_manifest sc artifact_slot_bytes i (og_part_slots outputs)) (\<lambda>manifest.
     bindR (plan_runtime sc i (wg_interleaved_scratch workspace)) (\<lambda>runtime.
     let components = rg_components rings @ capture @ cg_components calibration @ wg_components workspace
                      @ og_components outputs @ mg_components manifest @ runtime in
     bindR (committed_total components) (\<lambda>committed.
     bindR (required_bytes_with_headroom committed (mi_headroom i)) (\<lambda>required.
     Inr \<lparr>sp_inputs = i, sp_components = components, sp_committed_bytes = committed, sp_required_with_headroom = required,
          sp_allocated_retention_frames = rg_allocated_frames rings, sp_chunk_count = rg_chunk_count rings,
          sp_maximum_wav_parts_per_channel = og_parts_per_channel outputs, sp_output_file_slots = og_part_slots outputs,
          sp_path_slots = og_path_slot_count outputs, sp_manifest_paths_bytes = mg_paths manifest,
          sp_manifest_directory_slots = mg_directory_slots manifest, sp_publication_scratch = mg_publication_scratch manifest,
          sp_calibration_sample_frames = cg_sample_frames calibration, sp_calibration_complete_windows = cg_complete_windows calibration,
          sp_calibration_window_frames = cg_window_frames calibration, sp_calibration_hop_frames = cg_hop_frames calibration\<rparr>))))))))))"

text \<open>Admission against the configured maximum.\<close>

definition describe_component :: "memory_component \<Rightarrow> string" where
  "describe_component c = mc_name c @ ''='' @ show_nat (mc_bytes c) @ '' bytes''"

fun join_comma :: "string list \<Rightarrow> string" where
  "join_comma [] = []"
| "join_comma [x] = x"
| "join_comma (x # xs) = x @ '', '' @ join_comma xs"

definition describe_limit_failure :: "session_memory_plan \<Rightarrow> nat \<Rightarrow> string" where
  "describe_limit_failure plan limit =
     ''session memory requirement '' @ show_nat (sp_required_with_headroom plan) @ '' bytes exceeds configured maximum ''
     @ show_nat limit @ '' bytes (committed='' @ show_nat (sp_committed_bytes plan) @ '' bytes; ''
     @ join_comma (map describe_component (sp_components plan)) @ '')''"

definition validate_max :: "session_memory_plan \<Rightarrow> nat option \<Rightarrow> unit result" where
  "validate_max plan maximum =
     (case maximum of
        None \<Rightarrow> Inr ()
      | Some limit \<Rightarrow> if limit < sp_required_with_headroom plan then Inl (Validation (describe_limit_failure plan limit)) else Inr ())"

definition allocate_within :: "session_memory_plan \<Rightarrow> nat option \<Rightarrow> ('s, 'a) eff \<Rightarrow> ('s, 'a) eff" where
  "allocate_within plan maximum allocate = bindE (liftE (validate_max plan maximum)) (\<lambda>_. allocate)"

end
