(* ===== verification/Memory_Theorems.thy ===== *)
theory Memory_Theorems
  imports Memory_Plan
begin

text \<open>
  What a plan that \<open>calculate\<close> returns guarantees to the components built from it: the
  committed bytes are the sum of its parts, the rings hold the retention, and the slots, the
  path arena and the windows are enough for every export and every calibration.
\<close>

section \<open>The sum\<close>

lemma committed_fold_Inr:
  "a < u64_lim \<Longrightarrow> try_fold (\<lambda>t c. checked_add ''committed memory byte count overflow'' t (mc_bytes c)) a cs = Inr t
     \<longleftrightarrow> t = a + sum_list (map mc_bytes cs) \<and> t < u64_lim"
proof (induction cs arbitrary: a)
  case Nil
  then show ?case by auto
next
  case (Cons c cs)
  show ?case
  proof (cases "a + mc_bytes c < u64_lim")
    case True
    with Cons.IH[OF True] show ?thesis by (simp add: bindR_Inr_iff add.assoc)
  next
    case False
    then show ?thesis by (auto simp: bindR_Inr_iff)
  qed
qed

lemma committed_total_Inr: "committed_total cs = Inr t \<longleftrightarrow> t = sum_list (map mc_bytes cs) \<and> t < u64_lim"
  by (simp add: committed_total_def committed_fold_Inr)

lemma calculate_InrD:
  assumes "calculate sc slot i = Inr plan"
  obtains rings calibration outputs manifest where "validate_inputs i = Inr ()"
    and "plan_rings sc i = Inr rings" and "plan_calibration sc i = Inr calibration" and "plan_outputs sc i = Inr outputs"
    and "plan_manifest sc slot i (og_part_slots outputs) = Inr manifest"
    and "committed_total (sp_components plan) = Inr (sp_committed_bytes plan)"
    and "required_bytes_with_headroom (sp_committed_bytes plan) (mi_headroom i) = Inr (sp_required_with_headroom plan)"
    and "sp_allocated_retention_frames plan = rg_allocated_frames rings" and "sp_chunk_count plan = rg_chunk_count rings"
    and "sp_maximum_wav_parts_per_channel plan = og_parts_per_channel outputs" and "sp_output_file_slots plan = og_part_slots outputs"
    and "sp_manifest_paths_bytes plan = mg_paths manifest"
    and "sp_calibration_complete_windows plan = cg_complete_windows calibration"
    and "sp_calibration_sample_frames plan = cg_sample_frames calibration"
    and "sp_calibration_window_frames plan = cg_window_frames calibration"
    and "sp_calibration_hop_frames plan = cg_hop_frames calibration"
  using assms unfolding calculate_def bindR_Inr_iff Let_def by auto

section \<open>Rings, slots and windows\<close>

lemma validate_inputs_InrD:
  assumes "validate_inputs i = Inr u"
  shows "0 < mi_chunk_frames i" and "0 < mi_channels i" and "0 < mi_sample_rate i"
    and "\<not> f64_less_than_one (mi_headroom i)" and "f64_finite (mi_headroom i)"
  using assms by (auto simp: validate_inputs_def positive_inputs_def bindR_Inr_iff split: if_splits)

lemma plan_rings_InrD:
  assumes "plan_rings sc i = Inr rings" and "0 < mi_chunk_frames i"
  shows "rg_allocated_frames rings = rg_chunk_count rings * mi_chunk_frames i" and "rg_chunk_count rings < u32_lim"
    and "mi_retention_frames i \<le> rg_allocated_frames rings" and "rg_allocated_frames rings < mi_retention_frames i + mi_chunk_frames i"
proof -
  have "rg_chunk_count rings = div_ceil (mi_retention_frames i) (mi_chunk_frames i)"
    and "rg_allocated_frames rings = rg_chunk_count rings * mi_chunk_frames i" and "rg_chunk_count rings < u32_lim"
    using assms(1) by (auto simp: plan_rings_def Let_def bindR_Inr_iff split: if_splits)
  with div_ceil_mult_ge[OF assms(2)] div_ceil_mult_less[OF assms(2)]
  show "rg_allocated_frames rings = rg_chunk_count rings * mi_chunk_frames i" "rg_chunk_count rings < u32_lim"
    "mi_retention_frames i \<le> rg_allocated_frames rings" "rg_allocated_frames rings < mi_retention_frames i + mi_chunk_frames i"
    by simp_all
qed

lemma div_ceil_mono: "0 < b \<Longrightarrow> a \<le> a' \<Longrightarrow> div_ceil a b \<le> div_ceil a' b"
  by (simp add: div_ceil_eq div_le_mono)

lemma plan_outputs_InrD:
  assumes "plan_outputs sc i = Inr outputs" and "frames \<le> mi_retention_frames i"
  shows "\<exists>parts. wav_parts_for_channel frames WAV_SAMPLE_BYTES (mi_split_when_over_bytes i) = Inr parts
           \<and> length parts \<le> og_parts_per_channel outputs"
    and "og_part_slots outputs = og_parts_per_channel outputs * mi_channels i"
proof -
  have count: "wav_part_count (mi_retention_frames i) WAV_SAMPLE_BYTES (mi_split_when_over_bytes i) = Inr (og_parts_per_channel outputs)"
    and "og_part_slots outputs = og_parts_per_channel outputs * mi_channels i"
    using assms(1) by (auto simp: plan_outputs_def bindR_Inr_iff)
  then obtain fpp where fpp: "wav_frames_per_part WAV_SAMPLE_BYTES (mi_split_when_over_bytes i) = Inr fpp"
    and parts: "og_parts_per_channel outputs = div_ceil (mi_retention_frames i) fpp"
    by (auto simp: wav_part_count_def bindR_Inr_iff)
  have pos: "0 < fpp" using fpp by (auto simp: wav_frames_per_part_def Let_def split: if_splits)
  obtain ps where ps: "wav_parts_for_channel frames WAV_SAMPLE_BYTES (mi_split_when_over_bytes i) = Inr ps"
    using fpp by (simp add: wav_parts_for_channel_def)
  have "length ps = div_ceil frames fpp" using wav_part_count_wav_parts[OF ps] fpp by (simp add: wav_part_count_def)
  with ps parts div_ceil_mono[OF pos assms(2)]
  show "\<exists>parts. wav_parts_for_channel frames WAV_SAMPLE_BYTES (mi_split_when_over_bytes i) = Inr parts
           \<and> length parts \<le> og_parts_per_channel outputs" by auto
  show "og_part_slots outputs = og_parts_per_channel outputs * mi_channels i" by fact
qed

text \<open>The complete windows are exactly the positions at which a window fits.\<close>

lemma complete_windows_Inr:
  assumes "complete_windows n w h = Inr k" and "0 < w" and "0 < h"
  shows "j < k \<longleftrightarrow> j * h + w \<le> n"
proof (cases "n < w")
  case True
  with assms show ?thesis by (auto simp: complete_windows_def)
next
  case False
  with assms have "k = (n - w) div h + 1"
    by (auto simp: complete_windows_def checked_sub64_def split: if_splits option.splits bind_splits)
  then have "j < k \<longleftrightarrow> j \<le> (n - w) div h" by auto
  also have "\<dots> \<longleftrightarrow> j * h \<le> n - w" using assms(3) by (simp add: less_eq_div_iff_mult_less_eq)
  finally show ?thesis using False by auto
qed

lemma plan_calibration_InrD:
  assumes "plan_calibration sc i = Inr c"
  shows "complete_windows (cg_sample_frames c) (cg_window_frames c) (cg_hop_frames c) = Inr (cg_complete_windows c)"
    and "0 < cg_window_frames c" and "0 < cg_hop_frames c"
    and "cg_sample_frames c = mi_maximum_calibration_seconds i * mi_sample_rate i"
  using assms by (auto simp: plan_calibration_def Let_def bindR_Inr_iff)

section \<open>The path arena\<close>

definition push_all :: "string list \<Rightarrow> path_arena \<Rightarrow> path_arena result" where
  "push_all paths a = try_fold (\<lambda>a p. bindR (arena_push p a) (\<lambda>(_, a'). Inr a')) a paths"

text \<open>
  When there is room, a push fails only where the 32 bits of a reference do not hold the offset
  or the length.
\<close>

definition addressable :: "nat \<Rightarrow> string list \<Rightarrow> bool" where
  "addressable used paths \<longleftrightarrow> (\<forall>k < length paths. used + sum_list (map length (take k paths)) < u32_lim \<and> length (paths ! k) < u32_lim)"

lemma addressable_Nil [simp]: "addressable used []"
  by (simp add: addressable_def)

lemma addressable_Cons:
  "addressable used (p # ps) \<longleftrightarrow> used < u32_lim \<and> length p < u32_lim \<and> addressable (used + length p) ps"
  by (simp add: addressable_def All_less_Suc2 add.assoc conj_ac)

lemma push_all_iff:
  assumes "list_all (\<lambda>p. length p \<le> k) ps" and "pa_used a + length ps * k \<le> length (pa_bytes a)" and "length (pa_bytes a) < u64_lim"
  shows "is_ok (push_all ps a) \<longleftrightarrow> addressable (pa_used a) ps"
  using assms
proof (induction ps arbitrary: a)
  case Nil
  then show ?case by (simp add: push_all_def is_ok_def)
next
  case (Cons p ps)
  let ?a = "a\<lparr>pa_bytes := blit (pa_bytes a) (pa_used a) p, pa_used := pa_used a + length p\<rparr>"
  have room: "pa_used a + length p \<le> length (pa_bytes a)" "pa_used a + length p < u64_lim"
    using Cons.prems by auto
  show ?case
  proof (cases "length p < u32_lim \<and> pa_used a < u32_lim")
    case True
    then have push: "arena_push p a = Inr (\<lparr>pr_offset = pa_used a, pr_len = length p\<rparr>, ?a)"
      using room by (subst arena_push_fits) auto
    have "arena_ok a" using room by (simp add: arena_ok_def)
    note kept = arena_push_InrD[OF push this]
    have "is_ok (push_all ps ?a) \<longleftrightarrow> addressable (pa_used ?a) ps"
      using Cons.prems kept(6) by (intro Cons.IH) simp_all
    with push True show ?thesis by (simp add: push_all_def addressable_Cons)
  next
    case False
    have no: "\<not> (\<exists>r a'. arena_push p a = Inr (r, a'))" using False by (auto simp: arena_push_fits)
    then have "\<exists>e. arena_push p a = Inl e" by (cases "arena_push p a") auto
    with False show ?thesis by (auto simp: push_all_def addressable_Cons is_ok_def)
  qed
qed

lemma addressable_small:
  assumes "used + sum_list (map length ps) < u32_lim"
  shows "addressable used ps"
  using assms by (induction ps arbitrary: used) (auto simp: addressable_Cons add.assoc)

lemma sum_length_le: "list_all (\<lambda>p. length p \<le> k) ps \<Longrightarrow> sum_list (map length ps) \<le> length ps * k"
  by (induction ps) auto

lemma plan_manifest_InrD:
  assumes "plan_manifest sc slot i parts = Inr m"
  shows "manifest_paths_len parts (mi_maximum_path_bytes i) = Inr ((3 * parts + MANIFEST_FIXED_PATH_ENTRIES) * mi_maximum_path_bytes i)"
    and "(3 * parts + MANIFEST_FIXED_PATH_ENTRIES) * mi_maximum_path_bytes i \<le> mg_paths m"
    and "(3 * parts + MANIFEST_FIXED_PATH_ENTRIES) * mi_maximum_path_bytes i < u64_lim"
proof -
  obtain payload where p: "payload = (parts * 3 + MANIFEST_FIXED_PATH_ENTRIES) * mi_maximum_path_bytes i" "payload < u64_lim"
      "parts * 3 < u64_lim" "parts * 3 + MANIFEST_FIXED_PATH_ENTRIES < u64_lim"
    and "allocation_budget_bytes sc payload = Inr (mg_paths m)"
    using assms by (auto simp: plan_manifest_def bindR_Inr_iff checked_mul_def checked_add_def checked_mul64_def checked_add64_def split: if_splits)
  with allocation_budget_bytes_Inr(1)[of sc payload "mg_paths m"]
  show "(3 * parts + MANIFEST_FIXED_PATH_ENTRIES) * mi_maximum_path_bytes i \<le> mg_paths m"
    "(3 * parts + MANIFEST_FIXED_PATH_ENTRIES) * mi_maximum_path_bytes i < u64_lim" by (simp_all add: mult.commute)
  show "manifest_paths_len parts (mi_maximum_path_bytes i) = Inr ((3 * parts + MANIFEST_FIXED_PATH_ENTRIES) * mi_maximum_path_bytes i)"
    using p by (simp add: manifest_paths_len_def checked_mul64_def checked_add64_def ok_or_def mult.commute)
qed

section \<open>The plan\<close>

text \<open>
  (C14) The plan covers the session.  The committed bytes are the sum of all components and fit
  64 bits.  Each ring has whole chunks, few enough for 32 bits, that hold the retention.  For any
  export within the retention, every channel can be split, and all parts of all channels have a
  file slot.  A calibration level is planned for exactly the windows that fit the recording.
  The path arena, of the length the workspace computes, stays within the planned bytes and has
  room for all paths of a manifest with an entry in every file slot, each up to the maximum
  length: pushing them succeeds exactly when the 32-bit offsets and lengths of their references
  hold them, so always when the arena is smaller than 4 GiB.  The plan itself sets no such limit.
\<close>

theorem memory_plan_covers_session:
  assumes "calculate sc slot i = Inr plan" and "frames \<le> mi_retention_frames i"
    and "list_all (\<lambda>p. length p \<le> mi_maximum_path_bytes i) paths" and "length paths \<le> 3 * sp_output_file_slots plan + 5"
  shows "sp_committed_bytes plan = sum_list (map mc_bytes (sp_components plan)) \<and> sp_committed_bytes plan < u64_lim
    \<and> sp_allocated_retention_frames plan = sp_chunk_count plan * mi_chunk_frames i \<and> sp_chunk_count plan < u32_lim
    \<and> mi_retention_frames i \<le> sp_allocated_retention_frames plan
    \<and> (\<exists>parts. wav_parts_for_channel frames WAV_SAMPLE_BYTES (mi_split_when_over_bytes i) = Inr parts
               \<and> length parts * mi_channels i \<le> sp_output_file_slots plan)
    \<and> (j < sp_calibration_complete_windows plan
         \<longleftrightarrow> j * sp_calibration_hop_frames plan + sp_calibration_window_frames plan \<le> sp_calibration_sample_frames plan)
    \<and> (\<exists>n. manifest_paths_len (sp_output_file_slots plan) (mi_maximum_path_bytes i) = Inr n \<and> n \<le> sp_manifest_paths_bytes plan
          \<and> (is_ok (push_all paths (path_arena_new (replicate n nul_char))) \<longleftrightarrow> addressable 0 paths)
          \<and> (n < u32_lim \<longrightarrow> addressable 0 paths))"
proof -
  from assms(1) obtain rings calibration outputs manifest where v: "validate_inputs i = Inr ()"
    and rings: "plan_rings sc i = Inr rings" and cal: "plan_calibration sc i = Inr calibration" and outs: "plan_outputs sc i = Inr outputs"
    and man: "plan_manifest sc slot i (og_part_slots outputs) = Inr manifest"
    and com: "committed_total (sp_components plan) = Inr (sp_committed_bytes plan)"
    and eqs: "sp_allocated_retention_frames plan = rg_allocated_frames rings" "sp_chunk_count plan = rg_chunk_count rings"
      "sp_maximum_wav_parts_per_channel plan = og_parts_per_channel outputs" "sp_output_file_slots plan = og_part_slots outputs"
      "sp_manifest_paths_bytes plan = mg_paths manifest" "sp_calibration_complete_windows plan = cg_complete_windows calibration"
      "sp_calibration_sample_frames plan = cg_sample_frames calibration"
      "sp_calibration_window_frames plan = cg_window_frames calibration" "sp_calibration_hop_frames plan = cg_hop_frames calibration"
    by (rule calculate_InrD)
  note R = plan_rings_InrD[OF rings validate_inputs_InrD(1)[OF v]]
  note O = plan_outputs_InrD[OF outs assms(2)]
  note C = plan_calibration_InrD[OF cal]
  note M = plan_manifest_InrD[OF man]
  define n where "n = (3 * og_part_slots outputs + MANIFEST_FIXED_PATH_ENTRIES) * mi_maximum_path_bytes i"
  have room: "length paths * mi_maximum_path_bytes i \<le> n"
    unfolding n_def using assms(4) eqs by (intro mult_le_mono1) (simp add: MANIFEST_FIXED_PATH_ENTRIES_def)
  have "is_ok (push_all paths (path_arena_new (replicate n nul_char))) \<longleftrightarrow> addressable 0 paths"
    using push_all_iff[OF assms(3), of "path_arena_new (replicate n nul_char)"] room M(3) by (simp add: path_arena_new_def n_def)
  moreover have "n < u32_lim \<longrightarrow> addressable 0 paths"
    using addressable_small[of 0 paths] order_trans[OF sum_length_le[OF assms(3)] room] by auto
  ultimately have "\<exists>n. manifest_paths_len (sp_output_file_slots plan) (mi_maximum_path_bytes i) = Inr n \<and> n \<le> sp_manifest_paths_bytes plan
      \<and> (is_ok (push_all paths (path_arena_new (replicate n nul_char))) \<longleftrightarrow> addressable 0 paths) \<and> (n < u32_lim \<longrightarrow> addressable 0 paths)"
    using M(1,2) eqs by (auto simp: n_def)
  moreover have "\<exists>parts. wav_parts_for_channel frames WAV_SAMPLE_BYTES (mi_split_when_over_bytes i) = Inr parts
      \<and> length parts * mi_channels i \<le> sp_output_file_slots plan"
    using O eqs by (auto intro: mult_le_mono1)
  ultimately show ?thesis
    using com R eqs complete_windows_Inr[OF C(1-3), of j] by (simp add: committed_total_Inr)
qed

definition sample_inputs :: session_memory_inputs where
  "sample_inputs =
     \<lparr>mi_retention_frames = 480, mi_channels = 2, mi_sample_rate = 48, mi_sample_format = F32Le, mi_chunk_frames = 100,
      mi_max_active_snapshots = 1, mi_sample_bytes = 4, mi_split_when_over_bytes = 644, mi_control_queue_capacity = 4,
      mi_worker_stack_bytes = 100, mi_capture_queue_slots = 4, mi_capture_slot_frames = 10, mi_capture_worker_stack_bytes = 100,
      mi_io_buffer_bytes_per_channel = 100, mi_maximum_path_bytes = 20, mi_maximum_calibration_seconds = 2,
      mi_headroom = 0x3FF8000000000000\<rparr>"

lemma alloc_4096:
  assumes "n < 1000000"
  shows "allocation_budget_bytes 4096 n = Inr (div_ceil (n + 64) 4096 * 4096)"
proof -
  have "div_ceil (n + 64) 4096 * 4096 < n + 64 + 4096" by (rule div_ceil_mult_less) simp
  moreover have "n + 64 + 4096 < u64_lim" using assms by (simp add: u64_lim_def)
  ultimately show ?thesis
    by (simp add: allocation_budget_bytes_def checked_add_def checked_mul_def checked_add64_def checked_mul64_def
        ALLOCATOR_HEADER_RESERVE_BYTES_def system_page_size_def)
qed

lemma sample_required: "required_bytes_with_headroom 319488 0x3FF8000000000000 = Inr 479232"
proof -
  have bits: "f64_exponent 0x3FF8000000000000 = 0x3FF" "f64_fraction 0x3FF8000000000000 = 2251799813685248"
    by (simp_all add: f64_exponent_def f64_fraction_def)
  have "headroom_ratio 0x3FF8000000000000 = Inr (3, 2)"
    unfolding headroom_ratio_eq[OF refl refl] bits by (simp add: checked_shl128_def u128_lim_def trailing_zeros.simps)
  moreover have "\<not> f64_less_than_one 0x3FF8000000000000" "f64_finite 0x3FF8000000000000"
    by (simp_all add: f64_less_than_one_def f64_finite_def bits)
  ultimately show ?thesis
    by (simp add: required_bytes_with_headroom_def checked_mul128_def checked_add128_def u128_lim_def u64_lim_def)
qed

lemma sample_valid: "validate_inputs sample_inputs = Inr ()"
  by (simp add: validate_inputs_def positive_inputs_def sample_inputs_def ensure_def f64_less_than_one_def f64_finite_def f64_exponent_def)

lemmas plan_eval = sample_inputs_def checked_mul_def checked_add_def checked_mul64_def checked_sub64_def checked_add64_def alloc_4096
  div_ceil_def u32_lim_def u64_lim_def

lemmas plan_groups = plan_rings_def ring_metadata_budget_of_def plan_capture_def plan_calibration_def calibration_allocation_def
  complete_windows_def plan_workspace_def plan_outputs_def wav_part_count_def wav_frames_per_part_def plan_manifest_def plan_scratch_def
  plan_serialization_def plan_runtime_def

lemmas plan_constants = WAV_HEADER_BYTES_def RING_COUNT_def RING_CHUNK_OBJECT_RESERVE_BYTES_def RING_FIXED_METADATA_RESERVE_BYTES_def
  CAPTURE_QUEUE_SLOT_METADATA_BYTES_def CAPTURE_COMMAND_RESULT_SLOT_BYTES_def CALIBRATION_SLOT_METADATA_BYTES_def WAV_SAMPLE_BYTES_def
  SPLIT_PART_SLOT_BYTES_def FILE_WRITER_SLOT_BYTES_def OUTPUT_PATH_SLOTS_PER_PART_def MANIFEST_FIXED_PATH_ENTRIES_def
  PATH_SLOT_METADATA_BYTES_def MANIFEST_ENTRY_METADATA_BYTES_def MANIFEST_DIRECTORY_METADATA_BYTES_def PUBLICATION_SYNC_SLOT_BYTES_def
  MANIFEST_PATH_ESCAPE_MULTIPLIER_def MANIFEST_JSON_ENTRY_OVERHEAD_BYTES_def MANIFEST_JSON_DIRECTORY_OVERHEAD_BYTES_def
  MANIFEST_JSON_FIXED_OVERHEAD_BYTES_def OPERATION_QUEUE_SLOT_BYTES_def RUNTIME_METADATA_RESERVE_BYTES_def
  FROZEN_EXPORT_DECISION_SLOT_BYTES_def ACTIVITY_DETECTOR_STATE_SLOT_BYTES_def

lemma sample_calculated:
  "\<exists>plan. calculate 4096 96 sample_inputs = Inr plan \<and> sp_committed_bytes plan = 319488
     \<and> sp_output_file_slots plan = 6 \<and> sp_manifest_paths_bytes plan = 4096"
  unfolding calculate_def sample_valid
  by (simp add: plan_groups plan_constants plan_eval component_def committed_total_def sample_required)

theorem memory_plan_covers_session_witness:
  "\<exists>plan. calculate 4096 96 sample_inputs = Inr plan \<and> sp_committed_bytes plan = 319488
     \<and> sum_list (map mc_bytes (sp_components plan)) = 319488
     \<and> (\<exists>parts. wav_parts_for_channel 480 WAV_SAMPLE_BYTES 644 = Inr parts \<and> length parts * 2 \<le> sp_output_file_slots plan)
     \<and> is_ok (push_all [''/o/a.wav'', ''/o/b.wav''] (path_arena_new (replicate 460 nul_char)))"
proof -
  obtain plan where plan: "calculate 4096 96 sample_inputs = Inr plan" "sp_committed_bytes plan = 319488"
      "sp_output_file_slots plan = 6" "sp_manifest_paths_bytes plan = 4096"
    using sample_calculated by blast
  have "480 \<le> mi_retention_frames sample_inputs" "list_all (\<lambda>p. length p \<le> mi_maximum_path_bytes sample_inputs) [''/o/a.wav'', ''/o/b.wav'']"
    "length [''/o/a.wav'', ''/o/b.wav''] \<le> 3 * sp_output_file_slots plan + 5"
    using plan by (simp_all add: sample_inputs_def)
  note covers = memory_plan_covers_session[OF plan(1) this, of 0]
  have n: "manifest_paths_len (sp_output_file_slots plan) (mi_maximum_path_bytes sample_inputs) = Inr 460"
    using plan by (simp add: sample_inputs_def manifest_paths_len_def checked_mul64_def checked_add64_def MANIFEST_FIXED_PATH_ENTRIES_def ok_or_def u64_lim_def)
  have "is_ok (push_all [''/o/a.wav'', ''/o/b.wav''] (path_arena_new (replicate 460 nul_char)))"
    using covers unfolding n by (elim conjE exE) (simp add: u32_lim_def)
  with covers plan show ?thesis by (auto simp: sample_inputs_def)
qed

end
