(* ===== verification/File_Creation.thy ===== *)
theory File_Creation
  imports File_System
begin

text \<open>
  The system calls that create and move files, as the publication code uses them: calls relative
  to an open directory, which is the path it was opened at, since no other process renames
  directories during a run; a directory reached through a symbolic link at the end of that path is
  not a directory here, where opening it would follow the link.  A new file gets the inode number the environment chooses.  A write
  may stop after any byte, so it is one call per byte.
\<close>

section \<open>System calls\<close>

definition open_dir_at :: "fs_path \<Rightarrow> inode syscall" where
  "open_dir_at p = syscall (\<lambda>s. (s, case map_of (fs_entries s) p of None \<Rightarrow> Inl NotFound
     | Some n \<Rightarrow> if in_kind n = Directory then Inr n else Inl NotADirectory))"

definition open_nofollow_at :: "fs_path \<Rightarrow> inode syscall" where
  "open_nofollow_at p = syscall (\<lambda>s. (s, case map_of (fs_entries s) p of None \<Rightarrow> Inl NotFound
     | Some n \<Rightarrow> if is_link n then Inl TooManyLinks else Inr n))"

text \<open>\<open>File::open\<close> follows a symbolic link.\<close>

definition open_read :: "string \<Rightarrow> inode syscall" where
  "open_read path = syscall (\<lambda>s. (s, case lookup s path of None \<Rightarrow> Inl NotFound
     | Some n \<Rightarrow> if in_kind n = Symlink ToNothing then Inl NotFound else Inr n))"

text \<open>\<open>fstat\<close> and \<open>dup\<close> on an open file.\<close>

definition fstat :: "inode \<Rightarrow> inode syscall" where
  "fstat n = syscall (\<lambda>s. (s, Inr n))"

definition dup :: "fs_path \<Rightarrow> fs_path syscall" where
  "dup p = syscall (\<lambda>s. (s, Inr p))"

definition fsync_at :: "fs_path \<Rightarrow> unit syscall" where
  "fsync_at p = syscall (\<lambda>s. (s\<lparr>fs_log := fs_log s @ [Synced p]\<rparr>, Inr ()))"

definition create_at :: "(fs \<Rightarrow> nat) \<Rightarrow> file_kind \<Rightarrow> fs_path \<Rightarrow> inode syscall" where
  "create_at ino kind p = syscall (\<lambda>s.
     case map_of (fs_entries s) p of
       Some _ \<Rightarrow> (s, Inl AlreadyExists)
     | None \<Rightarrow>
         (case map_of (fs_entries s) (butlast p) of
            None \<Rightarrow> (s, Inl NotFound)
          | Some d \<Rightarrow>
              if in_kind d \<noteq> Directory then (s, Inl NotADirectory)
              else let n = \<lparr>in_identity = \<lparr>fi_device = fi_device (in_identity d), fi_inode = ino s\<rparr>, in_kind = kind, in_data = []\<rparr>
                   in (s\<lparr>fs_entries := fs_entries s @ [(p, n)]\<rparr>, Inr n)))"

definition append_byte :: "fs_path \<Rightarrow> char \<Rightarrow> (fs_path \<times> inode) \<Rightarrow> (fs_path \<times> inode)" where
  "append_byte p c = (\<lambda>(q, n). (q, if q = p then n\<lparr>in_data := in_data n @ [c]\<rparr> else n))"

definition write_byte :: "fs_path \<Rightarrow> char \<Rightarrow> unit syscall" where
  "write_byte p c = syscall (\<lambda>s. (s\<lparr>fs_entries := map (append_byte p c) (fs_entries s)\<rparr>, Inr ()))"

definition unlink_at :: "fs_path \<Rightarrow> unit syscall" where
  "unlink_at p = syscall (\<lambda>s. case map_of (fs_entries s) p of
       None \<Rightarrow> (s, Inl NotFound)
     | Some n \<Rightarrow> if in_kind n = Directory then (s, Inl IsADirectory) else (fs_remove p s, Inr ()))"

text \<open>
  \<open>renameat2\<close>: what is at or below the one path goes to the other.  The log records the
  rename, so that it can be told which synchronisations came after it.
\<close>

definition within :: "fs_path \<Rightarrow> fs_path \<Rightarrow> bool" where
  "within p q \<longleftrightarrow> take (length p) q = p"

definition rebase :: "fs_path \<Rightarrow> fs_path \<Rightarrow> fs_path \<Rightarrow> fs_path" where
  "rebase old new q = new @ drop (length old) q"

definition rename_noreplace :: "fs_path \<Rightarrow> fs_path \<Rightarrow> unit syscall" where
  "rename_noreplace old new = syscall (\<lambda>s.
     if map_of (fs_entries s) old = None then (s, Inl NotFound)
     else if map_of (fs_entries s) new \<noteq> None then (s, Inl AlreadyExists)
     else (s\<lparr>fs_entries := map (\<lambda>(q, n). (if within old q then rebase old new q else q, n)) (fs_entries s),
                 fs_log := fs_log s @ [Renamed old new]\<rparr>, Inr ()))"

definition rename_exchange :: "fs_path \<Rightarrow> fs_path \<Rightarrow> unit syscall" where
  "rename_exchange old new = syscall (\<lambda>s.
     if map_of (fs_entries s) old = None \<or> map_of (fs_entries s) new = None then (s, Inl NotFound)
     else (s\<lparr>fs_entries := map (\<lambda>(q, n). (if within old q then rebase old new q
                                          else if within new q then rebase new old q else q, n)) (fs_entries s),
                 fs_log := fs_log s @ [Renamed old new]\<rparr>, Inr ()))"

section \<open>Calls whose error is reported with a path\<close>

definition report :: "string \<Rightarrow> 'x syscall \<Rightarrow> (fs, 'x) eff" where
  "report path m = bindE m (\<lambda>r. case r of Inl e \<Rightarrow> failE (io_error path (show_errno e)) | Inr x \<Rightarrow> retE x)"

definition write_all :: "string \<Rightarrow> fs_path \<Rightarrow> string \<Rightarrow> (fs, unit) eff" where
  "write_all path p data = forE (\<lambda>c. report path (write_byte p c)) data"

end
