(* ===== verification/Publication_Root.thy ===== *)
theory Publication_Root
  imports File_Creation Recovery
begin

text \<open>
  What publication (\<open>src/export_wav.rs\<close>) is built from: the state a transaction keeps in
  its workspace, names and prefixes of paths, calls relative to an open directory, and the
  trusted output root, which is opened component by component and verified against the
  identities first seen.  The hook is the one of production, which only synchronises directories.
\<close>

section \<open>Workspace\<close>

record current_artifact_slot =
  ca_path :: path_ref
  ca_identity :: "file_identity option"
  ca_quarantine_parent_identity :: "file_identity option"
  ca_quarantine_identity :: "file_identity option"
  ca_final_name :: bool
  ca_quarantine_created :: bool
  ca_quarantine_setup_complete :: bool
  ca_quarantine_handoff :: bool
  ca_quarantine_artifact_removed :: bool
  ca_quarantine_removed :: bool

definition artifact_default :: current_artifact_slot where
  "artifact_default = \<lparr>ca_path = path_ref_default, ca_identity = None, ca_quarantine_parent_identity = None,
     ca_quarantine_identity = None, ca_final_name = False, ca_quarantine_created = False, ca_quarantine_setup_complete = False,
     ca_quarantine_handoff = False, ca_quarantine_artifact_removed = False, ca_quarantine_removed = False\<rparr>"

record directory_sync_slot =
  ds_entry_index :: nat
  ds_prefix_len :: nat
  ds_active :: bool

record publication =
  pb_fs :: fs
  pb_manifest :: transaction_manifest
  pb_manifest_identity :: "file_identity option"
  pb_current_artifact :: current_artifact_slot
  pb_sync_slots :: "directory_sync_slot list"

type_synonym 'x pub = "(publication, 'x) eff"

text \<open>What a manifest on disk is compared by, and the environment.\<close>

record existing_manifest_check =
  ec_version :: nat
  ec_uid :: nat
  ec_transaction_id :: string
  ec_kind :: transaction_kind
  ec_staging_root :: string
  ec_output_root :: string

record publish_env =
  pe_euid :: nat
  pe_serde :: serde_ops
  pe_to_text :: "json \<Rightarrow> string"
  pe_identity_fields :: "string \<Rightarrow> string + existing_manifest_check"
  pe_inode :: "fs \<Rightarrow> nat"
  pe_buffer :: nat
  pe_component :: nat
  pe_path_capacity :: nat

definition onfs :: "(fs, 'x) eff \<Rightarrow> 'x pub" where
  "onfs m p = (case m (pb_fs p) of (s, r) \<Rightarrow> (p\<lparr>pb_fs := s\<rparr>, r))"

section \<open>Names and prefixes\<close>

definition prepare_component :: "publish_env \<Rightarrow> string \<Rightarrow> string \<Rightarrow> unit result" where
  "prepare_component env path name =
     ensure (nul_char \<notin> set name \<and> length name < pe_component env)
       (io_error path ''component contains NUL or exceeds scratch capacity'')"

definition path_prefix :: "string \<Rightarrow> nat \<Rightarrow> string result" where
  "path_prefix s prefix_len = ok_or (str_get_to s prefix_len) (ExportInvariant ''file-set path prefix is not a UTF-8 boundary'')"

definition next_component_prefix_len :: "string \<Rightarrow> nat \<Rightarrow> string \<Rightarrow> nat result" where
  "next_component_prefix_len s prefix_len name =
     (let start = (if prefix_len = 1 then 1 else prefix_len + 1) in
      bindR (ok_or (checked_add64 start (length name)) (ExportInvariant ''file-set path prefix overflow'')) (\<lambda>end'.
      if is_char_boundary s start \<and> is_char_boundary s end' \<and> drop start (take end' s) = name then Inr end'
      else Inl (ExportInvariant ''file-set path is not normalized'')))"

text \<open>\<open>ReusablePath\<close>: a string within a fixed capacity.\<close>

definition push_bytes :: "publish_env \<Rightarrow> string \<Rightarrow> string \<Rightarrow> string result" where
  "push_bytes env value path =
     (if nul_char \<in> set value then Inl (Export ''path contains an embedded NUL byte'')
      else bindR (ok_or (checked_add64 (length path) (length value)) (ExportInvariant ''workspace path length overflow'')) (\<lambda>end'.
      if pe_path_capacity env < end'
      then Inl (Export (''path requires '' @ show_nat end' @ '' bytes but workspace capacity is '' @ show_nat (pe_path_capacity env)))
      else Inr (path @ value)))"

definition set_path :: "publish_env \<Rightarrow> string \<Rightarrow> string result" where
  "set_path env path = push_bytes env path []"

definition push_separator :: "publish_env \<Rightarrow> string \<Rightarrow> string result" where
  "push_separator env path = (if path \<noteq> [] \<and> \<not> ends_slash path then push_bytes env ''/'' path else Inr path)"

definition partial_path_for :: "publish_env \<Rightarrow> string \<Rightarrow> string \<Rightarrow> string \<Rightarrow> string result" where
  "partial_path_for env partial_parent file_name transaction_id =
     bindR (set_path env partial_parent) (\<lambda>p.
     bindR (push_separator env p) (\<lambda>p.
     bindR (push_bytes env ''.'' p) (\<lambda>p.
     bindR (push_bytes env file_name p) (\<lambda>p.
     bindR (push_bytes env ''.'' p) (\<lambda>p.
     bindR (push_bytes env transaction_id p) (\<lambda>p.
     push_bytes env ''.partial'' p))))))"

section \<open>Calls relative to an open directory\<close>

definition mkdir_at :: "publish_env \<Rightarrow> fs_path \<Rightarrow> string \<Rightarrow> string \<Rightarrow> (fs, unit) eff" where
  "mkdir_at env parent name error_path =
     bindE (report error_path (create_at (pe_inode env) Directory (parent @ [Normal name]))) (\<lambda>_. retE ())"

definition create_new_file_at :: "publish_env \<Rightarrow> fs_path \<Rightarrow> string \<Rightarrow> string \<Rightarrow> (fs, inode) eff" where
  "create_new_file_at env parent name error_path =
     report error_path (create_at (pe_inode env) RegularFile (parent @ [Normal name]))"

definition open_regular_file_at :: "fs_path \<Rightarrow> string \<Rightarrow> string \<Rightarrow> (fs, inode) eff" where
  "open_regular_file_at parent name error_path =
     bindE (report error_path (open_nofollow_at (parent @ [Normal name]))) (\<lambda>n.
     bindE (report error_path (fstat n)) (\<lambda>n.
     bindE (ensureE (in_kind n = RegularFile) (ExportInvariant ''prepared publication file is not a regular file'')) (\<lambda>_.
     retE n)))"

definition rename_no_replace_at :: "fs_path \<Rightarrow> string \<Rightarrow> string \<Rightarrow> string \<Rightarrow> (fs, unit) eff" where
  "rename_no_replace_at parent old_name new_name error_path =
     report error_path (rename_noreplace (parent @ [Normal old_name]) (parent @ [Normal new_name]))"

fun open_directories :: "publish_env \<Rightarrow> string \<Rightarrow> lamb_error \<Rightarrow> fs_path \<times> inode \<Rightarrow> path_component list \<Rightarrow> (fs, fs_path \<times> inode) eff" where
  "open_directories env path invalid directory [] = retE directory"
| "open_directories env path invalid (p, n) (Normal name # parts) =
     bindE (liftE (prepare_component env path name)) (\<lambda>_.
     bindE (report path (open_dir_at (p @ [Normal name]))) (\<lambda>n'.
     open_directories env path invalid (p @ [Normal name], n') parts))"
| "open_directories env path invalid directory (_ # parts) = failE invalid"

definition open_absolute_root :: "string \<Rightarrow> (fs, fs_path \<times> inode) eff" where
  "open_absolute_root path = bindE (report path (open_dir_at [RootDir])) (\<lambda>n. retE ([RootDir], n))"

definition open_existing_absolute_directory :: "publish_env \<Rightarrow> string \<Rightarrow> (fs, fs_path \<times> inode) eff" where
  "open_existing_absolute_directory env path =
     bindE (open_absolute_root path) (\<lambda>root.
     open_directories env path (Validation ''absolute directory path is not normalized'') root
       (filter (\<lambda>c. c \<noteq> RootDir) (path_components path)))"

section \<open>The trusted output root\<close>

record trusted_root =
  tr_output_path :: string
  tr_anchor_prefix_len :: nat
  tr_anchor_identity :: file_identity
  tr_output :: fs_path
  tr_output_identity :: file_identity

record root_walk =
  rw_directory :: fs_path
  rw_inode :: inode
  rw_anchor_prefix_len :: nat
  rw_traversal_prefix_len :: nat
  rw_anchor_identity :: "file_identity option"
  rw_missing :: bool

definition make_directory :: "publish_env \<Rightarrow> string \<Rightarrow> fs_path \<Rightarrow> string \<Rightarrow> (fs, inode) eff" where
  "make_directory env path directory name =
     bindE (mkdir_at env directory name path) (\<lambda>_. report path (open_dir_at (directory @ [Normal name])))"

text \<open>Opens the next directory of the output path, or creates it; the first missing one fixes the anchor.\<close>

definition enter_directory :: "publish_env \<Rightarrow> string \<Rightarrow> root_walk \<Rightarrow> string \<Rightarrow> (fs, inode \<times> bool \<times> root_walk) eff" where
  "enter_directory env output_path w name =
     (if rw_missing w
      then bindE (make_directory env output_path (rw_directory w) name) (\<lambda>n. retE (n, True, w))
      else bindE (open_dir_at (rw_directory w @ [Normal name])) (\<lambda>r. case r of
          Inr n \<Rightarrow> retE (n, False, w)
        | Inl NotFound \<Rightarrow>
            bindE (liftE (path_prefix output_path (rw_traversal_prefix_len w))) (\<lambda>anchor_path.
            bindE (report anchor_path (fstat (rw_inode w))) (\<lambda>metadata.
            bindE (make_directory env output_path (rw_directory w) name) (\<lambda>n.
            retE (n, True, w\<lparr>rw_anchor_prefix_len := rw_traversal_prefix_len w,
                            rw_anchor_identity := Some (in_identity metadata), rw_missing := True\<rparr>))))
        | Inl e \<Rightarrow> failE (io_error output_path (show_errno e))))"

definition root_step :: "publish_env \<Rightarrow> string \<Rightarrow> root_walk \<Rightarrow> path_component \<Rightarrow> (fs, root_walk) eff" where
  "root_step env output_path w part =
     (case part of
        RootDir \<Rightarrow> retE w
      | Normal name \<Rightarrow>
          bindE (liftE (next_component_prefix_len output_path (rw_traversal_prefix_len w) name)) (\<lambda>next_prefix_len.
          bindE (liftE (prepare_component env output_path name)) (\<lambda>_.
          bindE (enter_directory env output_path w name) (\<lambda>(n, created, w').
          bindE (liftE (path_prefix output_path (rw_traversal_prefix_len w))) (\<lambda>parent_path.
          bindE (report parent_path (fsync_at (rw_directory w))) (\<lambda>_.
          bindE (if created then sync_directory parent_path else retE ()) (\<lambda>_.
          retE (w'\<lparr>rw_directory := rw_directory w @ [Normal name], rw_inode := n, rw_traversal_prefix_len := next_prefix_len\<rparr>)))))))
      | _ \<Rightarrow> failE (Validation ''file-set output root is not a normalized absolute path''))"

definition trusted_root_open :: "publish_env \<Rightarrow> string \<Rightarrow> (fs, trusted_root) eff" where
  "trusted_root_open env output_path =
     bindE (ensureE (is_absolute output_path) (Validation ''file-set output root must be absolute'')) (\<lambda>_.
     bindE (open_absolute_root output_path) (\<lambda>(root, n).
     bindE (foldE (root_step env output_path)
              \<lparr>rw_directory = root, rw_inode = n, rw_anchor_prefix_len = 1, rw_traversal_prefix_len = 1,
               rw_anchor_identity = None, rw_missing = False\<rparr> (path_components output_path)) (\<lambda>w.
     bindE (report output_path (fstat (rw_inode w))) (\<lambda>metadata.
     retE \<lparr>tr_output_path = output_path,
           tr_anchor_prefix_len = (if rw_missing w then rw_anchor_prefix_len w else rw_traversal_prefix_len w),
           tr_anchor_identity = (case rw_anchor_identity w of Some i \<Rightarrow> i | None \<Rightarrow> in_identity metadata),
           tr_output = rw_directory w, tr_output_identity = in_identity metadata\<rparr>))))"

definition trusted_root_verify :: "publish_env \<Rightarrow> trusted_root \<Rightarrow> (fs, unit) eff" where
  "trusted_root_verify env tr =
     bindE (liftE (path_prefix (tr_output_path tr) (tr_anchor_prefix_len tr))) (\<lambda>anchor_path.
     bindE (open_existing_absolute_directory env anchor_path) (\<lambda>(_, reopened).
     bindE (report anchor_path (fstat reopened)) (\<lambda>metadata.
     bindE (ensureE (in_identity metadata = tr_anchor_identity tr)
              (ExportInvariant ''file-set output anchor identity changed during publication'')) (\<lambda>_.
     bindE (open_existing_absolute_directory env (tr_output_path tr)) (\<lambda>(_, output).
     bindE (report (tr_output_path tr) (fstat output)) (\<lambda>metadata.
     ensureE (in_identity metadata = tr_output_identity tr)
       (ExportInvariant ''configured file-set output root identity changed during publication'')))))))"

definition output_root :: "publish_env \<Rightarrow> trusted_root \<Rightarrow> (fs, fs_path) eff" where
  "output_root env tr = bindE (trusted_root_verify env tr) (\<lambda>_. report (tr_output_path tr) (dup (tr_output tr)))"

definition no_inode :: inode where
  "no_inode = \<lparr>in_identity = \<lparr>fi_device = 0, fi_inode = 0\<rparr>, in_kind = Directory, in_data = []\<rparr>"

definition open_relative_directory :: "publish_env \<Rightarrow> trusted_root \<Rightarrow> path_component list \<Rightarrow> (fs, fs_path) eff" where
  "open_relative_directory env tr relative =
     bindE (output_root env tr) (\<lambda>root.
     bindE (open_directories env (tr_output_path tr)
              (ExportInvariant ''file-set relative directory contains a non-normal component'') (root, no_inode) relative) (\<lambda>(p, _).
     retE p))"

text \<open>The directories of a final path that exist, or \<open>None\<close> at the first that does not.\<close>

fun descend_existing :: "publish_env \<Rightarrow> string \<Rightarrow> fs_path \<Rightarrow> path_component list \<Rightarrow> (fs, fs_path option) eff" where
  "descend_existing env final_path p [] = retE (Some p)"
| "descend_existing env final_path p (Normal name # parts) =
     bindE (liftE (prepare_component env final_path name)) (\<lambda>_.
     bindE (open_dir_at (p @ [Normal name])) (\<lambda>r. case r of
         Inr _ \<Rightarrow> descend_existing env final_path (p @ [Normal name]) parts
       | Inl NotFound \<Rightarrow> retE None
       | Inl e \<Rightarrow> failE (io_error final_path (show_errno e))))"
| "descend_existing env final_path p (_ # parts) = failE (Validation ''file-set parent is not lexically contained'')"

definition relative_parent :: "string \<Rightarrow> string \<Rightarrow> path_component list result" where
  "relative_parent output_directory final_path =
     bindR (ok_or (path_parent final_path) (ExportInvariant ''prepared file-set final path has no parent'')) (\<lambda>parent.
     ok_or (path_strip_prefix parent output_directory) (Validation ''file-set final path escapes output root''))"

definition ensure_final_absent :: "publish_env \<Rightarrow> trusted_root \<Rightarrow> string \<Rightarrow> (fs, unit) eff" where
  "ensure_final_absent env tr final_path =
     bindE (liftE (relative_parent (tr_output_path tr) final_path)) (\<lambda>relative.
     bindE (output_root env tr) (\<lambda>root.
     bindE (descend_existing env final_path root relative) (\<lambda>d. case d of
         None \<Rightarrow> retE ()
       | Some directory \<Rightarrow>
           bindE (liftE (ok_or (path_file_name final_path) (ExportInvariant ''prepared file-set final path has no filename''))) (\<lambda>final_name.
           bindE (liftE (prepare_component env final_path final_name)) (\<lambda>_.
           bindE (lstat_at (directory @ [Normal final_name])) (\<lambda>r. case r of
               Inr _ \<Rightarrow> failE (io_error final_path ''final path already exists'')
             | Inl NotFound \<Rightarrow> retE ()
             | Inl e \<Rightarrow> failE (io_error final_path (show_errno e))))))))"

definition materialize_directory_slot :: "publish_env \<Rightarrow> trusted_root \<Rightarrow> path_component list \<Rightarrow> (fs, inode \<times> bool) eff" where
  "materialize_directory_slot env tr relative =
     (case rev relative of
        Normal name # _ \<Rightarrow>
          bindE (open_relative_directory env tr (butlast relative)) (\<lambda>parent.
          bindE (liftE (prepare_component env (tr_output_path tr) name)) (\<lambda>_.
          bindE (open_dir_at (parent @ [Normal name])) (\<lambda>r. case r of
              Inr n \<Rightarrow> retE (n, False)
            | Inl NotFound \<Rightarrow> bindE (make_directory env (tr_output_path tr) parent name) (\<lambda>n. retE (n, True))
            | Inl e \<Rightarrow> failE (io_error (tr_output_path tr) (show_errno e)))))
      | _ \<Rightarrow> failE (ExportInvariant ''file-set directory intent has no final component''))"

end
