(* ===== verification/Publication.thy ===== *)
theory Publication
  imports Publication_Root
begin

text \<open>
  Publication of prepared files (\<open>src/export_wav.rs\<close>) with the writer of its manifest
  (\<open>src/recovery.rs\<close>).  A file set is copied file by file to partial names and renamed; a
  directory is renamed as a whole.  In both the manifest is written before anything that
  recovery might have to undo.  The hook of the publication is the production one: it does
  nothing at its checkpoints and synchronizes directories.
\<close>

section \<open>Writing the manifest\<close>

definition serialize_bounded :: "publish_env \<Rightarrow> transaction_manifest \<Rightarrow> string result" where
  "serialize_bounded env m =
     (let data = pe_to_text env (ser_manifest (pe_serde env) m) in
      if pe_buffer env < length data then Inl (Validation ''manifest exceeds planned serialization capacity'') else Inr data)"

definition open_regular_at :: "fs_path \<Rightarrow> inode syscall" where
  "open_regular_at p =
     bindE (open_nofollow_at p) (\<lambda>r. case r of
         Inl e \<Rightarrow> retE (Inl e)
       | Inr n \<Rightarrow> bindE (fstat n) (\<lambda>r. case r of
             Inl e \<Rightarrow> retE (Inl e)
           | Inr n \<Rightarrow> retE (if in_kind n = RegularFile then Inr n else Inl (OtherErrno ''manifest is not a regular file''))))"

definition identity_at :: "fs_path \<Rightarrow> string \<Rightarrow> (fs, file_identity) eff" where
  "identity_at p display =
     bindE (report display (open_regular_at p)) (\<lambda>n.
     bindE (report display (fstat n)) (\<lambda>n. retE (in_identity n)))"

definition unlink_if_identity_at :: "fs_path \<Rightarrow> file_identity \<Rightarrow> string \<Rightarrow> (fs, unit) eff" where
  "unlink_if_identity_at p expected display =
     bindE (identity_at p display) (\<lambda>i.
     bindE (ensureE (i = expected) (Validation ''refusing to remove identity-changed manifest temporary'')) (\<lambda>_.
     report display (unlink_at p)))"

text \<open>The check of what is at the name of the manifest before it is written.\<close>

definition check_current :: "file_identity option \<Rightarrow> fs_path \<Rightarrow> string \<Rightarrow> (fs, unit) eff" where
  "check_current current p display =
     (case current of
        None \<Rightarrow> bindE (open_regular_at p) (\<lambda>r. case r of
            Inl NotFound \<Rightarrow> retE ()
          | Inr _ \<Rightarrow> failE (Validation ''refusing to replace an unowned manifest'')
          | Inl e \<Rightarrow> failE (io_error display (show_errno e)))
      | Some expected \<Rightarrow>
          bindE (identity_at p display) (\<lambda>i.
          ensureE (i = expected) (Validation ''manifest identity changed during prepared publication'')))"

text \<open>The temporary file takes the name of the manifest, and the old manifest, if any, is removed.\<close>

definition replace_manifest :: "fs_path \<Rightarrow> fs_path \<Rightarrow> string \<Rightarrow> file_identity \<Rightarrow> unit pub" where
  "replace_manifest temp p display temp_identity =
     bindE (getE pb_manifest_identity) (\<lambda>current.
       case current of
         None \<Rightarrow>
           bindE (onfs (report display (rename_noreplace temp p))) (\<lambda>_.
           modE (\<lambda>b. b\<lparr>pb_manifest_identity := Some temp_identity\<rparr>))
       | Some expected \<Rightarrow>
           bindE (onfs (report display (rename_exchange temp p))) (\<lambda>_.
           bindE (onfs (identity_at temp display)) (\<lambda>replaced.
           if replaced \<noteq> expected
           then bindE (tryE (onfs (report display (rename_exchange temp p)))) (\<lambda>r. case r of
                    Inr _ \<Rightarrow> failE (Validation ''manifest identity changed during atomic replacement'')
                  | Inl e \<Rightarrow> failE (IndeterminatePublication e))
           else
             bindE (onfs (unlink_if_identity_at temp expected display)) (\<lambda>_.
             modE (\<lambda>b. b\<lparr>pb_manifest_identity := Some temp_identity\<rparr>)))))"

text \<open>The body of the write, and what happens when it fails.\<close>

definition write_temporary :: "fs_path \<Rightarrow> fs_path \<Rightarrow> fs_path \<Rightarrow> string \<Rightarrow> string \<Rightarrow> string \<Rightarrow> file_identity \<Rightarrow> unit pub" where
  "write_temporary parent temp p display display_parent data temp_identity =
     bindE (onfs (write_all display temp data)) (\<lambda>_.
     bindE (onfs (report display (fsync_at temp))) (\<lambda>_.
     bindE (replace_manifest temp p display temp_identity) (\<lambda>_.
     onfs (report display_parent (fsync_at parent)))))"

definition write_or_clean :: "fs_path \<Rightarrow> fs_path \<Rightarrow> fs_path \<Rightarrow> string \<Rightarrow> string \<Rightarrow> string \<Rightarrow> file_identity \<Rightarrow> unit pub" where
  "write_or_clean parent temp p display display_parent data temp_identity =
     bindE (tryE (write_temporary parent temp p display display_parent data temp_identity)) (\<lambda>r. case r of
         Inr _ \<Rightarrow> retE ()
       | Inl e \<Rightarrow> bindE (tryE (onfs (unlink_if_identity_at temp temp_identity display))) (\<lambda>_. failE e))"

definition write_prepared_at :: "publish_env \<Rightarrow> fs_path \<Rightarrow> string \<Rightarrow> string \<Rightarrow> string \<Rightarrow> unit pub" where
  "write_prepared_at env parent manifest_name temp_name display =
     bindE (getE pb_manifest) (\<lambda>m.
     bindE (liftE (validate_manifest_basics (pe_euid env) m)) (\<lambda>_.
     bindE (liftE (ok_or (path_parent display) (Validation ''manifest path has no parent directory''))) (\<lambda>display_parent.
     bindE (liftE (serialize_bounded env m)) (\<lambda>data.
     bindE (getE pb_manifest_identity) (\<lambda>current.
     let p = parent @ [Normal manifest_name]; temp = parent @ [Normal temp_name] in
     bindE (onfs (check_current current p display)) (\<lambda>_.
     bindE (onfs (report display (create_at (pe_inode env) RegularFile temp))) (\<lambda>n.
     bindE (onfs (report display (fstat n))) (\<lambda>n.
     write_or_clean parent temp p display display_parent data (in_identity n)))))))))"

definition persist_manifest_prepared :: "publish_env \<Rightarrow> fs_path \<Rightarrow> string \<Rightarrow> string \<Rightarrow> unit pub" where
  "persist_manifest_prepared env parent mpath transaction_id =
     bindE (liftE (ok_or (path_file_name mpath) (ExportInvariant ''prepared manifest has no filename''))) (\<lambda>name.
     bindE (liftE (prepare_component env mpath name)) (\<lambda>_.
     bindE (liftE (ok_or (Option.bind (checked_add64 1 (length name)) (\<lambda>n. Option.bind (checked_add64 n 1) (\<lambda>n.
                          Option.bind (checked_add64 n (length transaction_id)) (\<lambda>n. checked_add64 n 4))))
                    (ExportInvariant ''prepared manifest temporary name overflow''))) (\<lambda>required.
     bindE (ensureE (required < pe_component env)
              (ExportInvariant ''prepared manifest temporary name exceeds component scratch'')) (\<lambda>_.
     let temp_name = ''.'' @ name @ ''.'' @ transaction_id @ ''.tmp'' in
     bindE (ensureE (nul_char \<notin> set temp_name) (io_error mpath ''data provided contains an interior nul byte'')) (\<lambda>_.
     write_prepared_at env parent name temp_name mpath)))))"

text \<open>The manifest on disk is read back and compared by the fields that identify the transaction.\<close>

definition verify_manifest_matches :: "publish_env \<Rightarrow> string \<Rightarrow> transaction_manifest \<Rightarrow> (fs, file_identity) eff" where
  "verify_manifest_matches env mpath expected =
     bindE (report mpath (read_manifest_identity mpath)) (\<lambda>identity.
     bindE (ensureE (pe_buffer env \<noteq> 0) (Validation ''manifest buffer must not be empty'')) (\<lambda>_.
     bindE (report mpath (open_nofollow mpath)) (\<lambda>n.
     bindE (ensureE (in_kind n = RegularFile) (Validation ''manifest must be a regular file'')) (\<lambda>_.
     bindE (ensureE (length (in_data n) \<le> pe_buffer env) (Validation ''manifest exceeds the fixed recovery buffer'')) (\<lambda>_.
     case pe_identity_fields env (in_data n) of
       Inl e \<Rightarrow> failE (Validation (''malformed transaction manifest: '' @ e))
     | Inr previous \<Rightarrow>
         bindE (ensureE (ec_version previous = tm_version expected \<and> ec_uid previous = tm_uid expected
                         \<and> ec_transaction_id previous = transaction_id_str expected \<and> ec_kind previous = tm_kind expected
                         \<and> path_components (ec_staging_root previous) = path_components (staging_root_of expected)
                         \<and> path_components (ec_output_root previous) = path_components (output_root_of expected))
                  (Validation ''transaction manifest changed before publication outcome'')) (\<lambda>_.
         retE identity))))))"

section \<open>Building the manifest\<close>

definition push_path_of :: "string \<Rightarrow> path_ref pub" where
  "push_path_of value =
     bindE (getE pb_manifest) (\<lambda>m.
     bindE (liftE (push_path value m)) (\<lambda>(r, m').
     bindE (modE (\<lambda>b. b\<lparr>pb_manifest := m'\<rparr>)) (\<lambda>_. retE r)))"

definition set_manifest :: "(transaction_manifest \<Rightarrow> transaction_manifest) \<Rightarrow> unit pub" where
  "set_manifest f = modE (\<lambda>b. b\<lparr>pb_manifest := f (pb_manifest b)\<rparr>)"

definition set_entry :: "nat \<Rightarrow> (manifest_entry_slot \<Rightarrow> manifest_entry_slot) \<Rightarrow> unit pub" where
  "set_entry index f = set_manifest (\<lambda>m. m\<lparr>tm_slots := (tm_slots m)[index := f (tm_slots m ! index)]\<rparr>)"

definition begin_manifest :: "publish_env \<Rightarrow> transaction_kind \<Rightarrow> string \<Rightarrow> string \<Rightarrow> file_identity \<Rightarrow> string \<Rightarrow> unit pub" where
  "begin_manifest env kind transaction_id staging_directory staging_identity output_directory =
     bindE (set_manifest (\<lambda>m. m\<lparr>tm_version := MANIFEST_VERSION, tm_uid := pe_euid env, tm_kind := kind, tm_phase := Prepared\<rparr>)) (\<lambda>_.
     bindE (push_path_of transaction_id) (\<lambda>r.
     bindE (set_manifest (\<lambda>m. m\<lparr>tm_transaction_id := r\<rparr>)) (\<lambda>_.
     bindE (push_path_of staging_directory) (\<lambda>r.
     bindE (set_manifest (\<lambda>m. m\<lparr>tm_staging_root_path := r, tm_staging_root_identity := Some staging_identity\<rparr>)) (\<lambda>_.
     bindE (push_path_of output_directory) (\<lambda>r.
     set_manifest (\<lambda>m. m\<lparr>tm_output_root := r\<rparr>)))))))"

definition count_entries :: "nat \<Rightarrow> unit pub" where
  "count_entries n =
     bindE (getE pb_manifest) (\<lambda>m.
     bindE (liftE (set_entry_count n m)) (\<lambda>m'. modE (\<lambda>b. b\<lparr>pb_manifest := m'\<rparr>)))"

definition record_entry :: "publish_env \<Rightarrow> fs_path \<Rightarrow> string \<Rightarrow> nat \<times> string \<times> string \<Rightarrow> unit pub" where
  "record_entry env manifest_parent transaction_id = (\<lambda>(index, staged_path, final_path).
     bindE (liftE (ok_or (path_file_name final_path) (ExportInvariant ''prepared recall final filename is invalid''))) (\<lambda>file_name.
     bindE (liftE (ok_or (path_parent final_path) (ExportInvariant ''prepared file-set final path has no parent''))) (\<lambda>partial_parent.
     bindE (liftE (partial_path_for env partial_parent file_name transaction_id)) (\<lambda>partial_path.
     bindE (push_path_of staged_path) (\<lambda>staged_ref.
     bindE (liftE (ok_or (path_file_name staged_path) (ExportInvariant ''prepared staged path has no filename''))) (\<lambda>staged_name.
     bindE (liftE (prepare_component env staged_path staged_name)) (\<lambda>_.
     bindE (onfs (open_regular_file_at manifest_parent staged_name staged_path)) (\<lambda>n.
     bindE (onfs (report staged_path (fstat n))) (\<lambda>n.
     bindE (push_path_of partial_path) (\<lambda>partial_ref.
     bindE (push_path_of final_path) (\<lambda>final_ref.
     set_entry index (\<lambda>e. e\<lparr>me_staged_path := staged_ref, me_staged_identity := Some (in_identity n),
                            me_partial_path := partial_ref, me_final_path := final_ref\<rparr>))))))))))))"

section \<open>Directories of a file set\<close>

definition add_directory_sync :: "(string \<times> string) list \<Rightarrow> nat \<Rightarrow> nat \<Rightarrow> unit pub" where
  "add_directory_sync planned entry_index prefix_len =
     bindE (ensureE (entry_index < length planned) (ExportInvariant ''directory sync entry is invalid'')) (\<lambda>_.
     bindE (liftE (path_prefix (snd (planned ! entry_index)) prefix_len)) (\<lambda>candidate.
     bindE (getE pb_sync_slots) (\<lambda>slots.
     bindE (liftE (try_fold (\<lambda>found slot.
              if found then Inr True
              else if length planned \<le> ds_entry_index slot then Inl (ExportInvariant ''directory sync entry is invalid'')
              else bindR (path_prefix (snd (planned ! ds_entry_index slot)) (ds_prefix_len slot)) (\<lambda>existing.
                   Inr (path_components existing = path_components candidate))) False (filter ds_active slots))) (\<lambda>found.
     if found then retE ()
     else
       bindE (ensureE (list_ex (\<lambda>slot. \<not> ds_active slot) slots)
                (ExportInvariant ''prepared directory sync capacity exhausted; retry transaction'')) (\<lambda>_.
       modE (\<lambda>b. b\<lparr>pb_sync_slots := slots[length (takeWhile ds_active slots) :=
         \<lparr>ds_entry_index = entry_index mod u32_lim, ds_prefix_len = prefix_len mod u32_lim, ds_active = True\<rparr>]\<rparr>))))))"

definition intent_recorded :: "transaction_manifest \<Rightarrow> string \<Rightarrow> bool" where
  "intent_recorded m path \<longleftrightarrow>
     list_ex (\<lambda>slot. case directory_path m slot of Inl _ \<Rightarrow> False | Inr candidate \<Rightarrow> path_components candidate = path_components path)
       (directories_of m)"

definition register_intent :: "string \<Rightarrow> nat \<Rightarrow> nat \<Rightarrow> unit pub" where
  "register_intent final_path entry_index prefix_len =
     bindE (liftE (path_prefix final_path prefix_len)) (\<lambda>path.
     bindE (getE pb_manifest) (\<lambda>m.
     if intent_recorded m path then retE ()
     else bindE (liftE (push_directory_intent entry_index prefix_len m)) (\<lambda>(_, m'). modE (\<lambda>b. b\<lparr>pb_manifest := m'\<rparr>))))"

fun register_parents ::
    "publish_env \<Rightarrow> (string \<times> string) list \<Rightarrow> nat \<Rightarrow> string \<Rightarrow> fs_path option \<Rightarrow> nat \<Rightarrow> path_component list \<Rightarrow> unit pub" where
  "register_parents env planned entry_index final_path directory prefix_len [] = retE ()"
| "register_parents env planned entry_index final_path directory prefix_len (Normal name # parts) =
     bindE (liftE (next_component_prefix_len final_path prefix_len name)) (\<lambda>prefix_len.
     bindE (add_directory_sync planned entry_index prefix_len) (\<lambda>_.
     bindE (case directory of
              None \<Rightarrow> retE None
            | Some parent \<Rightarrow>
                bindE (liftE (prepare_component env final_path name)) (\<lambda>_.
                bindE (onfs (open_dir_at (parent @ [Normal name]))) (\<lambda>r. case r of
                    Inr _ \<Rightarrow> retE (Some (parent @ [Normal name]))
                  | Inl NotFound \<Rightarrow> retE None
                  | Inl e \<Rightarrow> failE (io_error final_path (show_errno e))))) (\<lambda>next.
     bindE (if next = None then register_intent final_path entry_index prefix_len else retE ()) (\<lambda>_.
     register_parents env planned entry_index final_path next prefix_len parts))))"
| "register_parents env planned entry_index final_path directory prefix_len (_ # parts) =
     failE (Validation ''file-set parent is not lexically contained'')"

definition register_file_set_parent_intents ::
    "publish_env \<Rightarrow> trusted_root \<Rightarrow> (string \<times> string) list \<Rightarrow> string \<Rightarrow> nat \<times> string \<times> string \<Rightarrow> unit pub" where
  "register_file_set_parent_intents env tr planned output_directory = (\<lambda>(entry_index, _, final_path).
     bindE (liftE (relative_parent output_directory final_path)) (\<lambda>relative.
     bindE (onfs (trusted_root_verify env tr)) (\<lambda>_.
     bindE (onfs (output_root env tr)) (\<lambda>root.
     register_parents env planned entry_index final_path (Some root) (length output_directory) relative))))"

definition own_directory :: "nat \<Rightarrow> file_identity \<Rightarrow> unit pub" where
  "own_directory index identity =
     set_manifest (\<lambda>m. m\<lparr>tm_directory_slots := (tm_directory_slots m)[index :=
       (tm_directory_slots m ! index)\<lparr>md_state := Some Owned, md_identity := Some identity\<rparr>]\<rparr>)"

definition materialize_parent :: "publish_env \<Rightarrow> trusted_root \<Rightarrow> string \<Rightarrow> fs_path \<Rightarrow> string \<Rightarrow> string \<Rightarrow> nat \<Rightarrow> unit pub" where
  "materialize_parent env tr output_directory manifest_parent mpath transaction_id index =
     bindE (getE pb_manifest) (\<lambda>m.
     bindE (liftE (directory_path m (directories_of m ! index))) (\<lambda>path.
     bindE (liftE (ok_or (path_strip_prefix path output_directory) (Validation ''file-set parent escapes output root''))) (\<lambda>relative.
     bindE (onfs (materialize_directory_slot env tr relative)) (\<lambda>(n, created).
     if created
     then bindE (onfs (report path (fstat n))) (\<lambda>n.
          bindE (own_directory index (in_identity n)) (\<lambda>_.
          persist_manifest_prepared env manifest_parent mpath transaction_id))
     else retE ()))))"

definition materialize_file_set_parents :: "publish_env \<Rightarrow> trusted_root \<Rightarrow> string \<Rightarrow> fs_path \<Rightarrow> string \<Rightarrow> string \<Rightarrow> unit pub" where
  "materialize_file_set_parents env tr output_directory manifest_parent mpath transaction_id =
     bindE (onfs (trusted_root_verify env tr)) (\<lambda>_.
     bindE (onfs (output_root env tr)) (\<lambda>_.
     bindE (getE (\<lambda>b. tm_directory_count (pb_manifest b))) (\<lambda>count.
     forE (materialize_parent env tr output_directory manifest_parent mpath transaction_id) [0..<count])))"

section \<open>Publishing a file set\<close>

definition set_artifact :: "path_ref \<Rightarrow> file_identity \<Rightarrow> bool \<Rightarrow> unit pub" where
  "set_artifact path identity final_name =
     modE (\<lambda>b. b\<lparr>pb_current_artifact := artifact_default\<lparr>ca_path := path, ca_identity := Some identity, ca_final_name := final_name\<rparr>\<rparr>)"

definition clear_artifact :: "unit pub" where
  "clear_artifact = modE (\<lambda>b. b\<lparr>pb_current_artifact := artifact_default\<rparr>)"

text \<open>Copies the staged file to its partial name and records the identity of the copy.\<close>

definition copy_entry ::
    "publish_env \<Rightarrow> fs_path \<Rightarrow> string \<Rightarrow> string \<Rightarrow> fs_path \<Rightarrow> string \<Rightarrow> string \<Rightarrow> nat \<Rightarrow> string \<Rightarrow> file_identity pub" where
  "copy_entry env manifest_parent mpath transaction_id parent_directory partial_path partial_name index staged_path =
     bindE (liftE (ok_or (path_file_name staged_path) (ExportInvariant ''prepared staged path has no filename''))) (\<lambda>staged_name.
     bindE (liftE (prepare_component env staged_path staged_name)) (\<lambda>_.
     bindE (onfs (open_regular_file_at manifest_parent staged_name staged_path)) (\<lambda>source.
     bindE (liftE (prepare_component env partial_path partial_name)) (\<lambda>_.
     bindE (onfs (create_new_file_at env parent_directory partial_name partial_path)) (\<lambda>n.
     bindE (onfs (report partial_path (fstat n))) (\<lambda>n.
     bindE (getE (\<lambda>b. me_partial_path (entries_of (pb_manifest b) ! index))) (\<lambda>r.
     bindE (set_artifact r (in_identity n) False) (\<lambda>_.
     bindE (onfs (write_all partial_path (parent_directory @ [Normal partial_name]) (in_data source))) (\<lambda>_.
     bindE (onfs (report partial_path (fsync_at (parent_directory @ [Normal partial_name])))) (\<lambda>_.
     bindE (set_entry index (\<lambda>e. e\<lparr>me_partial_identity := Some (in_identity n)\<rparr>)) (\<lambda>_.
     bindE (persist_manifest_prepared env manifest_parent mpath transaction_id) (\<lambda>_.
     bindE clear_artifact (\<lambda>_. retE (in_identity n))))))))))))))"

definition publish_entry ::
    "publish_env \<Rightarrow> trusted_root \<Rightarrow> string \<Rightarrow> fs_path \<Rightarrow> string \<Rightarrow> string \<Rightarrow> nat \<times> string \<times> string \<Rightarrow> unit pub" where
  "publish_entry env tr output_directory manifest_parent mpath transaction_id = (\<lambda>(index, staged_path, final_path).
     bindE (set_manifest (\<lambda>m. m\<lparr>tm_phase := Publishing index\<rparr>)) (\<lambda>_.
     bindE (persist_manifest_prepared env manifest_parent mpath transaction_id) (\<lambda>_.
     bindE (getE (\<lambda>b. manifest_path (pb_manifest b) (me_partial_path (entries_of (pb_manifest b) ! index)))) (\<lambda>recorded.
     bindE (liftE (set_path env recorded)) (\<lambda>partial_path.
     bindE (liftE (relative_parent output_directory final_path)) (\<lambda>relative.
     bindE (onfs (trusted_root_verify env tr)) (\<lambda>_.
     bindE (onfs (open_relative_directory env tr relative)) (\<lambda>parent_directory.
     bindE (liftE (ok_or (path_file_name partial_path) (ExportInvariant ''prepared file-set partial path has no filename''))) (\<lambda>partial_name.
     bindE (liftE (ok_or (path_file_name final_path) (ExportInvariant ''prepared file-set final path has no filename''))) (\<lambda>final_name.
     bindE (copy_entry env manifest_parent mpath transaction_id parent_directory partial_path partial_name index staged_path) (\<lambda>identity.
     bindE (onfs (trusted_root_verify env tr)) (\<lambda>_.
     bindE (liftE (prepare_component env final_path partial_name)) (\<lambda>_.
     bindE (liftE (prepare_component env final_path final_name)) (\<lambda>_.
     bindE (onfs (rename_no_replace_at parent_directory partial_name final_name final_path)) (\<lambda>_.
     bindE (getE (\<lambda>b. me_final_path (entries_of (pb_manifest b) ! index))) (\<lambda>r.
     bindE (set_artifact r identity True) (\<lambda>_.
     bindE (set_entry index (\<lambda>e. e\<lparr>me_final_identity := Some identity, me_partial_identity := None\<rparr>)) (\<lambda>_.
     bindE (persist_manifest_prepared env manifest_parent mpath transaction_id) (\<lambda>_.
     clear_artifact)))))))))))))))))))"

definition sync_final_file :: "publish_env \<Rightarrow> trusted_root \<Rightarrow> string \<Rightarrow> string \<times> string \<Rightarrow> (fs, unit) eff" where
  "sync_final_file env tr output_directory = (\<lambda>(_, final_path).
     bindE (liftE (relative_parent output_directory final_path)) (\<lambda>relative.
     bindE (open_relative_directory env tr relative) (\<lambda>directory.
     bindE (liftE (ok_or (path_file_name final_path) (ExportInvariant ''prepared final has no filename''))) (\<lambda>name.
     bindE (liftE (prepare_component env final_path name)) (\<lambda>_.
     bindE (open_regular_file_at directory name final_path) (\<lambda>_.
     report final_path (fsync_at (directory @ [Normal name]))))))))"

definition sync_parent_slot :: "publish_env \<Rightarrow> trusted_root \<Rightarrow> (string \<times> string) list \<Rightarrow> string \<Rightarrow> directory_sync_slot \<Rightarrow> (fs, unit) eff" where
  "sync_parent_slot env tr planned output_directory slot =
     (if \<not> ds_active slot then retE ()
      else if length planned \<le> ds_entry_index slot then failE (Panicked ''directory sync entry is valid'')
      else
        bindE (liftE (path_prefix (snd (planned ! ds_entry_index slot)) (ds_prefix_len slot))) (\<lambda>parent.
        bindE (trusted_root_verify env tr) (\<lambda>_.
        bindE (liftE (ok_or (path_strip_prefix parent output_directory)
                (Validation ''file-set sync directory escapes output root''))) (\<lambda>relative.
        bindE (open_relative_directory env tr relative) (\<lambda>directory.
        bindE (report parent (fsync_at directory)) (\<lambda>_.
        bindE (sync_directory parent) (\<lambda>_.
        trusted_root_verify env tr)))))))"

text \<open>Until the manifest is first written a failure is retryable; then it leaves the outcome open.\<close>

definition prepare_file_set ::
    "publish_env \<Rightarrow> (string \<times> string) list \<Rightarrow> string \<Rightarrow> string \<Rightarrow> string \<Rightarrow> file_identity \<Rightarrow> trusted_root pub" where
  "prepare_file_set env planned staging_directory transaction_id output_directory staging_identity =
     bindE (onfs (trusted_root_open env output_directory)) (\<lambda>tr.
     bindE (onfs (report staging_directory (open_read staging_directory))) (\<lambda>_.
     bindE (begin_manifest env KindFileSet transaction_id staging_directory staging_identity output_directory) (\<lambda>_.
     bindE (count_entries (length planned)) (\<lambda>_.
     bindE (forE (record_entry env (path_components staging_directory) transaction_id) (enumerate 0 planned)) (\<lambda>_.
     bindE (onfs (forE (\<lambda>(_, final_path). ensure_final_absent env tr final_path) planned)) (\<lambda>_.
     bindE (add_directory_sync planned 0 (length output_directory)) (\<lambda>_.
     bindE (forE (register_file_set_parent_intents env tr planned output_directory) (enumerate 0 planned)) (\<lambda>_.
     retE tr))))))))"

definition publish_file_set ::
    "publish_env \<Rightarrow> (string \<times> string) list \<Rightarrow> string \<Rightarrow> string \<Rightarrow> string \<Rightarrow> string \<Rightarrow> trusted_root \<Rightarrow> unit pub" where
  "publish_file_set env planned staging_directory transaction_id output_directory mpath tr =
     (let manifest_parent = path_components staging_directory in
      bindE (onfs (trusted_root_verify env tr)) (\<lambda>_.
      bindE (materialize_file_set_parents env tr output_directory manifest_parent mpath transaction_id) (\<lambda>_.
      bindE (forE (publish_entry env tr output_directory manifest_parent mpath transaction_id) (enumerate 0 planned)) (\<lambda>_.
      bindE (onfs (forE (sync_final_file env tr output_directory) planned)) (\<lambda>_.
      bindE (getE pb_sync_slots) (\<lambda>slots.
      bindE (onfs (forE (sync_parent_slot env tr planned output_directory) slots)) (\<lambda>_.
      bindE (set_manifest (\<lambda>m. m\<lparr>tm_phase := Complete\<rparr>)) (\<lambda>_.
      bindE (persist_manifest_prepared env manifest_parent mpath transaction_id) (\<lambda>_.
      bindE (getE pb_manifest) (\<lambda>m.
      bindE (onfs (verify_manifest_matches env mpath m)) (\<lambda>_.
      onfs (trusted_root_verify env tr))))))))))))"

datatype publish_failure = Retryable lamb_error | Durable lamb_error

definition publish_recall_inner ::
    "publish_env \<Rightarrow> (string \<times> string) list \<Rightarrow> string \<Rightarrow> string \<Rightarrow> string \<Rightarrow> file_identity \<Rightarrow> string
     \<Rightarrow> publication \<Rightarrow> publication \<times> (publish_failure + unit)" where
  "publish_recall_inner env planned staging_directory transaction_id output_directory staging_identity mpath b =
     (case prepare_file_set env planned staging_directory transaction_id output_directory staging_identity b of
        (b, Inl e) \<Rightarrow> (b, Inl (Retryable e))
      | (b, Inr tr) \<Rightarrow>
          (case persist_manifest_prepared env (path_components staging_directory) mpath transaction_id b of
             (b, Inl e) \<Rightarrow> (b, Inl (if pb_manifest_identity b \<noteq> None then Durable e else Retryable e))
           | (b, Inr _) \<Rightarrow>
               (case publish_file_set env planned staging_directory transaction_id output_directory mpath tr b of
                  (b, Inl e) \<Rightarrow> (b, Inl (Durable e))
                | (b, Inr _) \<Rightarrow> (b, Inr ()))))"

section \<open>Publishing a directory\<close>

definition capture_identity :: "string \<Rightarrow> (fs, file_identity) eff" where
  "capture_identity path =
     bindE (report path (lstat path)) (\<lambda>n.
     bindE (ensureE (\<not> is_link n) (Validation (''refusing to capture symlink identity: '' @ path))) (\<lambda>_.
     retE (in_identity n)))"

definition sync_published_file :: "string \<Rightarrow> (fs, unit) eff" where
  "sync_published_file path =
     bindE (report path (open_read path)) (\<lambda>_. report path (fsync path))"

definition record_dump_entry :: "nat \<times> string \<times> string \<Rightarrow> unit pub" where
  "record_dump_entry = (\<lambda>(index, staged_path, final_path).
     bindE (onfs (capture_identity staged_path)) (\<lambda>staged_identity.
     bindE (push_path_of staged_path) (\<lambda>staged_ref.
     bindE (push_path_of final_path) (\<lambda>final_ref.
     set_entry index (\<lambda>e. e\<lparr>me_staged_path := staged_ref, me_staged_identity := Some staged_identity,
       me_partial_path := path_ref_default, me_final_path := final_ref, me_final_identity := Some staged_identity\<rparr>)))))"

definition dump_transaction_id :: "string \<Rightarrow> string result" where
  "dump_transaction_id staging_directory =
     (case path_file_name staging_directory of
        Some name \<Rightarrow> if take 10 name = ''.tmp-lamb-'' \<and> drop 10 name \<noteq> [] then Inr (drop 10 name)
                     else Inl (ExportInvariant ''prepared dump transaction id is invalid'')
      | None \<Rightarrow> Inl (ExportInvariant ''prepared dump transaction id is invalid''))"

definition ensure_directory_absent :: "string \<Rightarrow> (fs, unit) eff" where
  "ensure_directory_absent output_directory =
     bindE (lstat output_directory) (\<lambda>r. case r of
         Inl NotFound \<Rightarrow> retE ()
       | Inl e \<Rightarrow> failE (io_error output_directory (show_errno e))
       | Inr _ \<Rightarrow> failE (io_error output_directory ''final dump directory already exists''))"

definition prepare_dump :: "publish_env \<Rightarrow> (string \<times> string) list \<Rightarrow> string \<Rightarrow> string \<Rightarrow> string \<Rightarrow> file_identity \<Rightarrow> string pub" where
  "prepare_dump env planned staging_directory output_directory output_parent staging_identity =
     bindE (onfs (ensure_directory_absent output_directory)) (\<lambda>_.
     bindE (liftE (dump_transaction_id staging_directory)) (\<lambda>transaction_id.
     bindE (onfs (report output_parent (open_read output_parent))) (\<lambda>_.
     bindE (begin_manifest env KindAtomicDirectory transaction_id staging_directory staging_identity output_parent) (\<lambda>_.
     bindE (push_path_of output_directory) (\<lambda>r.
     bindE (set_manifest (\<lambda>m. m\<lparr>tm_final_directory_path := r, tm_final_directory_identity := Some staging_identity\<rparr>)) (\<lambda>_.
     bindE (count_entries (length planned)) (\<lambda>_.
     bindE (forE record_dump_entry (enumerate 0 planned)) (\<lambda>_.
     bindE (getE pb_manifest) (\<lambda>m.
     bindE (onfs (forE (\<lambda>e. sync_published_file (manifest_path m (me_staged_path e))) (entries_of m))) (\<lambda>_.
     bindE (onfs (sync_directory staging_directory)) (\<lambda>_.
     retE transaction_id)))))))))))"

definition rename_dump :: "publish_env \<Rightarrow> string \<Rightarrow> string \<Rightarrow> string \<Rightarrow> string \<Rightarrow> string \<Rightarrow> unit pub" where
  "rename_dump env staging_directory output_directory output_parent mpath transaction_id =
     bindE (liftE (ok_or (path_file_name staging_directory)
              (ExportInvariant ''prepared dump staging directory has no filename''))) (\<lambda>staging_name.
     bindE (liftE (ok_or (path_file_name output_directory)
              (ExportInvariant ''prepared dump output directory has no filename''))) (\<lambda>output_name.
     bindE (liftE (prepare_component env output_directory staging_name)) (\<lambda>_.
     bindE (liftE (prepare_component env output_directory output_name)) (\<lambda>_.
     bindE (onfs (rename_no_replace_at (path_components output_parent) staging_name output_name output_directory)) (\<lambda>_.
     bindE (onfs (sync_directory output_parent)) (\<lambda>_.
     bindE (set_manifest (\<lambda>m. m\<lparr>tm_phase := Complete\<rparr>)) (\<lambda>_.
     bindE (persist_manifest_prepared env (path_components output_parent) mpath transaction_id) (\<lambda>_.
     bindE (getE pb_manifest) (\<lambda>m.
     bindE (onfs (verify_manifest_matches env mpath m)) (\<lambda>_. retE ()))))))))))"

definition publish_dump_inner ::
    "publish_env \<Rightarrow> (string \<times> string) list \<Rightarrow> string \<Rightarrow> string \<Rightarrow> string \<Rightarrow> string \<Rightarrow> file_identity
     \<Rightarrow> publication \<Rightarrow> publication \<times> (publish_failure + unit)" where
  "publish_dump_inner env planned staging_directory output_directory output_parent mpath staging_identity b =
     (case prepare_dump env planned staging_directory output_directory output_parent staging_identity b of
        (b, Inl e) \<Rightarrow> (b, Inl (Retryable e))
      | (b, Inr transaction_id) \<Rightarrow>
          (case persist_manifest_prepared env (path_components output_parent) mpath transaction_id b of
             (b, Inl e) \<Rightarrow>
               (case onfs (lstat mpath) b of
                  (b, Inr (Inr n)) \<Rightarrow> (b, Inl (if in_kind n = RegularFile then Durable e else Retryable e))
                | (b, _) \<Rightarrow> (b, Inl (Retryable e)))
           | (b, Inr _) \<Rightarrow>
               (case rename_dump env staging_directory output_directory output_parent mpath transaction_id b of
                  (b, Inl e) \<Rightarrow> (b, Inl (Durable e))
                | (b, Inr _) \<Rightarrow> (b, Inr ()))))"

end
