(* ===== verification/Publication_Steps.thy ===== *)
theory Publication_Steps
  imports Publication
begin

text \<open>
  What each call of a publication does to the files, seen as a map from paths to inodes.  Every
  directory has an entry of its own (\<open>tree\<close>), so a file has nothing below it and a rename
  of a file moves one entry.
\<close>

section \<open>Files as a map\<close>

definition node_at :: "fs \<Rightarrow> fs_path \<Rightarrow> inode option" where
  "node_at s = map_of (fs_entries s)"

definition tree :: "(fs_path \<Rightarrow> inode option) \<Rightarrow> bool" where
  "tree f \<longleftrightarrow> (\<forall>p n. f p = Some n \<longrightarrow> p \<noteq> [] \<and> (1 < length p \<longrightarrow> (\<exists>d. f (butlast p) = Some d \<and> in_kind d = Directory)))"

definition log_grows :: "fs \<Rightarrow> fs \<Rightarrow> bool" where
  "log_grows s t \<longleftrightarrow> (\<exists>later. fs_log t = fs_log s @ later)"

definition same_nodes :: "fs \<Rightarrow> fs \<Rightarrow> bool" where
  "same_nodes s t \<longleftrightarrow> node_at t = node_at s \<and> log_grows s t"

lemma log_grows_refl [simp]: "log_grows s s"
  by (simp add: log_grows_def)

lemma log_grows_trans: "log_grows s t \<Longrightarrow> log_grows t u \<Longrightarrow> log_grows s u"
  by (auto simp: log_grows_def)

lemma same_nodes_refl [simp]: "same_nodes s s"
  by (simp add: same_nodes_def)

lemma same_nodes_trans: "same_nodes s t \<Longrightarrow> same_nodes t u \<Longrightarrow> same_nodes s u"
  by (auto simp: same_nodes_def intro: log_grows_trans)

lemma same_files_nodes: "same_files s t \<Longrightarrow> same_nodes s t"
  by (simp add: same_files_def same_nodes_def node_at_def log_grows_def)

lemma tree_directory:
  "tree f \<Longrightarrow> f p = Some n \<Longrightarrow> 1 < length p \<Longrightarrow> \<exists>d. f (butlast p) = Some d \<and> in_kind d = Directory"
  by (auto simp: tree_def)

lemma tree_below:
  assumes "tree f" and "f (p @ q) = Some n" and "q \<noteq> []" and "p \<noteq> []"
  shows "\<exists>d. f p = Some d \<and> in_kind d = Directory"
  using assms(2,3)
proof (induction q arbitrary: n rule: rev_induct)
  case (snoc x q)
  have "1 < length (p @ q @ [x])" using assms(4) by (cases p) auto
  with snoc.prems tree_directory[OF assms(1), of "p @ q @ [x]"]
  obtain d where "f (p @ q) = Some d" "in_kind d = Directory" by (auto simp: butlast_append)
  with snoc.IH show ?case by (cases "q = []") auto
qed simp

lemma tree_nothing_below:
  assumes "tree f" and "f p = None \<or> (\<exists>n. f p = Some n \<and> in_kind n \<noteq> Directory)" and "p \<noteq> []" and "q \<noteq> []"
  shows "f (p @ q) = None"
  using assms tree_below[OF assms(1)] by (cases "f (p @ q)") fastforce+

lemma tree_upd:
  assumes "tree f" and "p \<noteq> []" and "1 < length p \<longrightarrow> (\<exists>d. f (butlast p) = Some d \<and> in_kind d = Directory)"
    and "f p = None \<or> (\<exists>n. f p = Some n \<and> in_kind n \<noteq> Directory) \<or> in_kind n' = Directory"
  shows "tree (f(p \<mapsto> n'))"
  unfolding tree_def
proof (intro allI impI)
  fix q n
  assume q: "(f(p \<mapsto> n')) q = Some n"
  have "butlast p \<noteq> p" using assms(2) by (cases p rule: rev_cases) auto
  show "q \<noteq> [] \<and> (1 < length q \<longrightarrow> (\<exists>d. (f(p \<mapsto> n')) (butlast q) = Some d \<and> in_kind d = Directory))"
  proof (cases "q = p")
    case True
    with assms(2,3) \<open>butlast p \<noteq> p\<close> show ?thesis by auto
  next
    case False
    with q assms(1) have "q \<noteq> []" and d: "1 < length q \<longrightarrow> (\<exists>d. f (butlast q) = Some d \<and> in_kind d = Directory)"
      by (auto simp: tree_def)
    with assms(4) show ?thesis by (cases "butlast q = p") auto
  qed
qed

lemma tree_remove:
  assumes "tree f" and "f p = None \<or> (\<exists>n. f p = Some n \<and> in_kind n \<noteq> Directory)"
  shows "tree (f(p := None))"
  using assms unfolding tree_def by (auto split: if_splits)

section \<open>Calls\<close>

lemma pb_fs_first [simp]:
  "b\<lparr>pb_manifest_identity := i, pb_fs := s\<rparr> = b\<lparr>pb_fs := s, pb_manifest_identity := i\<rparr>"
  "b\<lparr>pb_manifest := m, pb_fs := s\<rparr> = b\<lparr>pb_fs := s, pb_manifest := m\<rparr>"
  "b\<lparr>pb_current_artifact := a, pb_fs := s\<rparr> = b\<lparr>pb_fs := s, pb_current_artifact := a\<rparr>"
  by simp_all

lemma wpE_onfs [wp]:
  "wpE (onfs m) Q E b = wpE m (\<lambda>x s. Q x (b\<lparr>pb_fs := s\<rparr>)) (\<lambda>e s. E e (b\<lparr>pb_fs := s\<rparr>)) (pb_fs b)"
  by (simp add: wpE_def onfs_def split: prod.split sum.split)

lemma wpE_report [wp]:
  "wpE (report path m) Q E s = wpE m (\<lambda>r t. case r of Inl e \<Rightarrow> E (io_error path (show_errno e)) t | Inr x \<Rightarrow> Q x t) E s"
  unfolding report_def wpE_bind by (rule arg_cong[where f = "\<lambda>q. wpE m q E s"]) (auto simp: fun_eq_iff wp split: sum.split)

lemma wpE_nodes:
  assumes "\<And>t e. same_nodes s t \<Longrightarrow> Q (Inl e) t" and "\<And>t u r. same_nodes s t \<Longrightarrow> run t = (u, r) \<Longrightarrow> Q r u"
  shows "wpE (syscall run) Q E s"
  by (rule wpE_syscall) (use assms same_files_nodes in blast)+

text \<open>Calls that only look, and synchronising.\<close>

lemma wpE_look:
  assumes "\<And>t. same_files s t \<Longrightarrow> g t = g s" and "\<And>t e. same_nodes s t \<Longrightarrow> Q (Inl (OtherErrno e)) t"
    and "\<And>t. same_nodes s t \<Longrightarrow> Q (g s) t"
  shows "wpE (syscall (\<lambda>s. (s, g s))) Q E s"
proof (rule wpE_syscall)
  fix t u r
  assume t: "same_files s t" and "(t, g t) = (u, r)"
  then show "Q r u" using assms(3)[OF same_files_nodes[OF t]] assms(1)[OF t] by simp
qed (rule assms(2)[OF same_files_nodes])

lemma wpE_open_dir_at:
  assumes "\<And>t r. same_nodes s t \<Longrightarrow> (\<And>n. r = Inr n \<Longrightarrow> node_at s p = Some n \<and> in_kind n = Directory)
      \<Longrightarrow> (r = Inl NotFound \<Longrightarrow> node_at s p = None) \<Longrightarrow> Q r t"
  shows "wpE (open_dir_at p) Q E s"
  unfolding open_dir_at_def
  by (rule wpE_look; (rule assms)?; auto simp: same_files_def node_at_def split: option.splits if_splits)

lemma wpE_open_nofollow_at:
  assumes "\<And>t r. same_nodes s t \<Longrightarrow> (\<And>n. r = Inr n \<Longrightarrow> node_at s p = Some n)
      \<Longrightarrow> (r = Inl NotFound \<Longrightarrow> node_at s p = None) \<Longrightarrow> Q r t"
  shows "wpE (open_nofollow_at p) Q E s"
  unfolding open_nofollow_at_def
  by (rule wpE_look; (rule assms)?; auto simp: same_files_def node_at_def split: option.splits if_splits)

lemma wpE_fstat:
  assumes "\<And>t e. same_nodes s t \<Longrightarrow> Q (Inl e) t" and "\<And>t. same_nodes s t \<Longrightarrow> Q (Inr n) t"
  shows "wpE (fstat n) Q E s"
  unfolding fstat_def by (rule wpE_nodes) (use assms in auto)

lemma wpE_fsync_at:
  assumes "\<And>t e. same_nodes s t \<Longrightarrow> Q (Inl e) t"
    and "\<And>t. same_nodes s t \<Longrightarrow> Synced p \<in> set (drop (length (fs_log s)) (fs_log t)) \<Longrightarrow> Q (Inr ()) t"
  shows "wpE (fsync_at p) Q E s"
  unfolding fsync_at_def
  by (rule wpE_syscall) (use assms in \<open>auto simp: same_nodes_def same_files_def node_at_def log_grows_def\<close>)

text \<open>The same calls with their error reported.\<close>

lemma wpE_report_fsync_at:
  assumes "\<And>t e. same_nodes s t \<Longrightarrow> E e t"
    and "\<And>t. same_nodes s t \<Longrightarrow> Synced p \<in> set (drop (length (fs_log s)) (fs_log t)) \<Longrightarrow> Q () t"
  shows "wpE (report path (fsync_at p)) Q E s"
  unfolding wpE_report by (rule wpE_fsync_at) (simp_all add: assms)

lemma wpE_report_fstat:
  assumes "\<And>t e. same_nodes s t \<Longrightarrow> E e t" and "\<And>t. same_nodes s t \<Longrightarrow> Q n t"
  shows "wpE (report path (fstat n)) Q E s"
  unfolding wpE_report by (rule wpE_fstat) (simp_all add: assms)

text \<open>Calls that change files.\<close>

lemma wpE_create_at:
  assumes "\<And>t e. same_nodes s t \<Longrightarrow> Q (Inl e) t"
    and "\<And>t n. node_at s p = None \<Longrightarrow> node_at t = (node_at s)(p \<mapsto> n) \<Longrightarrow> log_grows s t \<Longrightarrow> in_kind n = kind \<Longrightarrow> in_data n = []
      \<Longrightarrow> \<exists>d. node_at s (butlast p) = Some d \<and> in_kind d = Directory \<Longrightarrow> Q (Inr n) t"
  shows "wpE (create_at ino kind p) Q E s"
  unfolding create_at_def
proof (rule wpE_syscall)
  fix t u and r :: "errno + inode"
  assume t: "same_files s t" and run: "(case map_of (fs_entries t) p of None \<Rightarrow>
        (case map_of (fs_entries t) (butlast p) of None \<Rightarrow> (t, Inl NotFound)
         | Some d \<Rightarrow> if in_kind d \<noteq> Directory then (t, Inl NotADirectory)
             else let n = \<lparr>in_identity = \<lparr>fi_device = fi_device (in_identity d), fi_inode = ino t\<rparr>, in_kind = kind, in_data = []\<rparr>
                  in (t\<lparr>fs_entries := fs_entries t @ [(p, n)]\<rparr>, Inr n))
      | Some _ \<Rightarrow> (t, Inl AlreadyExists)) = (u, r)"
  have fail: "Q (Inl e) t" for e by (rule assms(1)[OF same_files_nodes[OF t]])
  have eq: "fs_entries t = fs_entries s" "fs_log t = fs_log s" using t by (simp_all add: same_files_def)
  show "Q r u"
  proof (cases r)
    case (Inl e)
    with run fail show ?thesis by (auto simp: Let_def split: option.splits if_splits)
  next
    case (Inr n)
    then obtain d where d: "map_of (fs_entries s) (butlast p) = Some d" "in_kind d = Directory" "map_of (fs_entries s) p = None"
      and n: "in_kind n = kind" "in_data n = []" and u: "u = t\<lparr>fs_entries := fs_entries s @ [(p, n)]\<rparr>"
      using run eq by (auto simp: Let_def split: option.splits if_splits)
    have "node_at u = (node_at s)(p \<mapsto> n)" using d(3) by (auto simp: u node_at_def fun_eq_iff map_add_def split: option.split)
    moreover have "log_grows s u" using eq by (simp add: u log_grows_def)
    ultimately show ?thesis using d n unfolding Inr by (intro assms(2)) (auto simp: node_at_def)
  qed
qed (use assms(1) same_files_nodes in blast)

lemma map_of_append_byte:
  "map_of (map (append_byte p c) es) = (map_of es)(p := map_option (\<lambda>n. n\<lparr>in_data := in_data n @ [c]\<rparr>) (map_of es p))"
  by (induction es) (auto simp: append_byte_def fun_eq_iff)

lemma wpE_write_byte:
  assumes "node_at s p = Some n" and "\<And>t e. same_nodes s t \<Longrightarrow> Q (Inl e) t"
    and "\<And>t. node_at t = (node_at s)(p \<mapsto> n\<lparr>in_data := in_data n @ [c]\<rparr>) \<Longrightarrow> log_grows s t \<Longrightarrow> Q (Inr ()) t"
  shows "wpE (write_byte p c) Q E s"
  unfolding write_byte_def
  by (rule wpE_syscall) (use assms in \<open>auto simp: same_files_def same_nodes_def node_at_def log_grows_def map_of_append_byte\<close>)

lemma map_of_filter_ne: "map_of (filter (\<lambda>(q, _). q \<noteq> p) es) = (map_of es)(p := None)"
  by (induction es) (auto simp: fun_eq_iff)

lemma wpE_unlink_at:
  assumes "\<And>t e. same_nodes s t \<Longrightarrow> Q (Inl e) t"
    and "\<And>t n. node_at s p = Some n \<Longrightarrow> in_kind n \<noteq> Directory \<Longrightarrow> node_at t = (node_at s)(p := None) \<Longrightarrow> log_grows s t \<Longrightarrow> Q (Inr ()) t"
  shows "wpE (unlink_at p) Q E s"
  unfolding unlink_at_def
  by (rule wpE_syscall)
    (use assms in \<open>auto simp: same_files_def same_nodes_def node_at_def log_grows_def fs_remove_def map_of_filter_ne split: option.splits if_splits\<close>)

text \<open>A rename of files moves single entries.\<close>

lemma within_leaf:
  assumes "q \<in> fst ` set es" and "\<And>r. r \<noteq> [] \<Longrightarrow> map_of es (p @ r) = None"
  shows "within p q \<longleftrightarrow> q = p"
proof
  assume "within p q"
  then have q: "q = p @ drop (length p) q" by (metis append_take_drop_id within_def)
  moreover have "map_of es q \<noteq> None" using assms(1) by (simp add: map_of_eq_None_iff)
  ultimately show "q = p" using assms(2)[of "drop (length p) q"] by (metis append_Nil2)
qed (simp add: within_def)

lemma within_keys:
  assumes "\<And>r. r \<noteq> [] \<Longrightarrow> map_of es (p @ r) = None"
  shows "\<forall>(q, n)\<in>set es. within p q = (q = p)"
  using within_leaf[OF _ assms] by force

lemma map_of_rename_key:
  "p \<noteq> q \<Longrightarrow> q \<notin> fst ` set es \<Longrightarrow>
     map_of (map (\<lambda>(k, n). (if k = p then q else k, n)) es) = (map_of es)(p := None, q := map_of es p)"
proof (induction es)
  case (Cons e es)
  then show ?case by (cases e) (auto simp: fun_eq_iff)
qed (simp add: fun_eq_iff)

lemma map_of_swap_key:
  "p \<noteq> q \<Longrightarrow> map_of (map (\<lambda>(k, n). (if k = p then q else if k = q then p else k, n)) es)
     = (map_of es)(p := map_of es q, q := map_of es p)"
proof (induction es)
  case (Cons e es)
  then show ?case by (cases e) (auto simp: fun_eq_iff)
qed (simp add: fun_eq_iff)

definition is_file :: "inode option \<Rightarrow> bool" where
  "is_file n \<longleftrightarrow> (\<exists>i. n = Some i \<and> in_kind i \<noteq> Directory)"

lemma tree_leaf: "tree f \<Longrightarrow> is_file (f p) \<or> f p = None \<Longrightarrow> p \<noteq> [] \<Longrightarrow> r \<noteq> [] \<Longrightarrow> f (p @ r) = None"
  by (rule tree_nothing_below) (auto simp: is_file_def)

lemma wpE_rename_noreplace:
  assumes "tree (node_at s)" and "is_file (node_at s old)" and "old \<noteq> []" and "old \<noteq> new"
    and "\<And>t e. same_nodes s t \<Longrightarrow> Q (Inl e) t"
    and "\<And>t. node_at s new = None \<Longrightarrow> node_at t = (node_at s)(old := None, new := node_at s old) \<Longrightarrow> log_grows s t
      \<Longrightarrow> fs_log t = fs_log s @ [Renamed old new] \<Longrightarrow> Q (Inr ()) t"
  shows "wpE (rename_noreplace old new) Q E s"
  unfolding rename_noreplace_def
proof (rule wpE_syscall)
  fix t u and r :: "errno + unit"
  assume t: "same_files s t" and run: "(if map_of (fs_entries t) old = None then (t, Inl NotFound)
      else if map_of (fs_entries t) new \<noteq> None then (t, Inl AlreadyExists)
      else (t\<lparr>fs_entries := map (\<lambda>(q, n). (if within old q then rebase old new q else q, n)) (fs_entries t),
              fs_log := fs_log t @ [Renamed old new]\<rparr>, Inr ())) = (u, r)"
  have eq: "fs_entries t = fs_entries s" "fs_log t = fs_log s" using t by (simp_all add: same_files_def)
  show "Q r u"
  proof (cases r)
    case (Inl e)
    with run assms(5)[OF same_files_nodes[OF t]] show ?thesis by (auto split: if_splits)
  next
    case (Inr x)
    then have new: "map_of (fs_entries s) new = None"
      and u: "u = t\<lparr>fs_entries := map (\<lambda>(q, n). (if within old q then rebase old new q else q, n)) (fs_entries s),
              fs_log := fs_log s @ [Renamed old new]\<rparr>"
      using run eq by (auto split: if_splits)
    have leaf: "map_of (fs_entries s) (old @ r) = None" if "r \<noteq> []" for r
      using tree_leaf[OF assms(1), of old r] assms(2,3) that by (simp add: node_at_def)
    have "fs_entries u = map (\<lambda>(k, n). (if k = old then new else k, n)) (fs_entries s)"
      unfolding u using within_keys[OF leaf] by (auto simp: rebase_def)
    then have "node_at u = (node_at s)(old := None, new := node_at s old)"
      using map_of_rename_key[OF assms(4), of "fs_entries s"] new by (simp add: node_at_def map_of_eq_None_iff)
    with new show ?thesis unfolding Inr by (cases x) (auto intro!: assms(6) simp: node_at_def u log_grows_def eq)
  qed
qed (rule assms(5)[OF same_files_nodes])

lemma wpE_rename_exchange:
  assumes "tree (node_at s)" and "is_file (node_at s old)" and "is_file (node_at s new) \<or> node_at s new = None"
    and "old \<noteq> []" and "new \<noteq> []" and "old \<noteq> new"
    and "\<And>t e. same_nodes s t \<Longrightarrow> Q (Inl e) t"
    and "\<And>t. is_file (node_at s new) \<Longrightarrow> node_at t = (node_at s)(old := node_at s new, new := node_at s old) \<Longrightarrow> log_grows s t
      \<Longrightarrow> fs_log t = fs_log s @ [Renamed old new] \<Longrightarrow> Q (Inr ()) t"
  shows "wpE (rename_exchange old new) Q E s"
  unfolding rename_exchange_def
proof (rule wpE_syscall)
  fix t u and r :: "errno + unit"
  assume t: "same_files s t" and run: "(if map_of (fs_entries t) old = None \<or> map_of (fs_entries t) new = None then (t, Inl NotFound)
      else (t\<lparr>fs_entries := map (\<lambda>(q, n). (if within old q then rebase old new q else if within new q then rebase new old q else q, n))
                              (fs_entries t), fs_log := fs_log t @ [Renamed old new]\<rparr>, Inr ())) = (u, r)"
  have eq: "fs_entries t = fs_entries s" "fs_log t = fs_log s" using t by (simp_all add: same_files_def)
  show "Q r u"
  proof (cases r)
    case (Inl e)
    with run assms(7)[OF same_files_nodes[OF t]] show ?thesis by (auto split: if_splits)
  next
    case (Inr x)
    then have new: "map_of (fs_entries s) new \<noteq> None"
      and u: "u = t\<lparr>fs_entries := map (\<lambda>(q, n). (if within old q then rebase old new q else if within new q then rebase new old q else q, n))
                              (fs_entries s), fs_log := fs_log s @ [Renamed old new]\<rparr>"
      using run eq by (auto split: if_splits)
    have leaf: "map_of (fs_entries s) (old @ r) = None" "map_of (fs_entries s) (new @ r) = None" if "r \<noteq> []" for r
      using tree_leaf[OF assms(1), of old r] tree_leaf[OF assms(1), of new r] assms(2-5) that by (simp_all add: node_at_def)
    have "fs_entries u = map (\<lambda>(k, n). (if k = old then new else if k = new then old else k, n)) (fs_entries s)"
      unfolding u using within_keys[OF leaf(1)] within_keys[OF leaf(2)] by (auto simp: rebase_def)
    then have "node_at u = (node_at s)(old := node_at s new, new := node_at s old)"
      using map_of_swap_key[OF assms(6), of "fs_entries s"] by (simp add: node_at_def)
    with new assms(3) show ?thesis unfolding Inr by (cases x) (auto intro!: assms(8) simp: node_at_def u log_grows_def eq)
  qed
qed (rule assms(7)[OF same_files_nodes])

text \<open>Writing a file whole.\<close>

lemma wpE_write_all:
  assumes "node_at s p = Some n"
    and "\<And>t e n'. node_at t = (node_at s)(p \<mapsto> n') \<Longrightarrow> in_identity n' = in_identity n \<Longrightarrow> in_kind n' = in_kind n \<Longrightarrow> log_grows s t \<Longrightarrow> E e t"
    and "\<And>t. node_at t = (node_at s)(p \<mapsto> n\<lparr>in_data := in_data n @ data\<rparr>) \<Longrightarrow> log_grows s t \<Longrightarrow> Q () t"
  shows "wpE (write_all path p data) Q E s"
  unfolding write_all_def using assms
proof (induction data arbitrary: s n)
  case Nil
  then show ?case by (simp add: wp fun_upd_idem)
next
  case (Cons c data)
  have fail: "E e t" if "same_nodes s t" for e t
    using that Cons.prems(1) by (intro Cons.prems(2)[of t n]) (simp_all add: same_nodes_def fun_upd_idem)
  have step: "wpE (forE (\<lambda>c. report path (write_byte p c)) data) Q E t"
    if t: "node_at t = (node_at s)(p \<mapsto> n\<lparr>in_data := in_data n @ [c]\<rparr>)" "log_grows s t" for t
  proof (rule Cons.IH[of t "n\<lparr>in_data := in_data n @ [c]\<rparr>"])
    show "node_at t p = Some (n\<lparr>in_data := in_data n @ [c]\<rparr>)" by (simp add: t)
    show "E e u" if "node_at u = (node_at t)(p \<mapsto> n')" "in_identity n' = in_identity (n\<lparr>in_data := in_data n @ [c]\<rparr>)"
        "in_kind n' = in_kind (n\<lparr>in_data := in_data n @ [c]\<rparr>)" "log_grows t u" for u e n'
      using that t(1) log_grows_trans[OF t(2)] by (intro Cons.prems(2)[of u n']) simp_all
    show "Q () u" if "node_at u = (node_at t)(p \<mapsto> n\<lparr>in_data := in_data n @ [c], in_data := in_data (n\<lparr>in_data := in_data n @ [c]\<rparr>) @ data\<rparr>)"
        "log_grows t u" for u
      using that t(1) log_grows_trans[OF t(2)] by (intro Cons.prems(3)) simp_all
  qed
  show ?case unfolding forE.simps wpE_bind wpE_report
    by (rule wpE_write_byte[OF Cons.prems(1)]) (simp_all add: fail step)
qed

end
