(* ===== verification/Publication_Journal.thy ===== *)
theory Publication_Journal
  imports Publication_Steps
begin

text \<open>
  Writing the manifest is atomic: whichever call fails, the name of the manifest holds what it
  held before or the whole new text, and nothing but the temporary file is left besides.
\<close>

definition manifest_node :: "publish_env \<Rightarrow> transaction_manifest \<Rightarrow> inode \<Rightarrow> bool" where
  "manifest_node env m n \<longleftrightarrow> in_kind n = RegularFile \<and> in_data n = pe_to_text env (ser_manifest (pe_serde env) m)"

definition half_written ::
    "publish_env \<Rightarrow> transaction_manifest \<Rightarrow> file_identity option \<Rightarrow> file_identity option \<Rightarrow> fs_path \<Rightarrow> fs_path
     \<Rightarrow> (fs_path \<Rightarrow> inode option) \<Rightarrow> (fs_path \<Rightarrow> inode option) \<Rightarrow> bool" where
  "half_written env m cur mi mp tp f g \<longleftrightarrow>
     (\<forall>p. p \<noteq> mp \<and> p \<noteq> tp \<longrightarrow> g p = f p) \<and> (is_file (g tp) \<or> g tp = None)
     \<and> ((g mp = f mp \<and> mi = cur) \<or> (\<exists>n. manifest_node env m n \<and> g mp = Some n \<and> mi \<noteq> None))"

lemma half_written_tree:
  assumes "half_written env m cur mi (parent @ [Normal a]) (parent @ [Normal b]) f g" and "tree f"
    and "f (parent @ [Normal b]) = None" and "is_file (f (parent @ [Normal a])) \<or> f (parent @ [Normal a]) = None"
    and "f parent = Some d" and "in_kind d = Directory"
  shows "tree g"
  unfolding tree_def
proof (intro allI impI)
  fix q n
  assume q: "g q = Some n"
  let ?mp = "parent @ [Normal a]" and ?tp = "parent @ [Normal b]"
  have g: "g p = f p" if "p \<noteq> ?mp" "p \<noteq> ?tp" for p using assms(1) that by (simp add: half_written_def)
  have par: "g parent = Some d" using g assms(5) by simp
  show "q \<noteq> [] \<and> (1 < length q \<longrightarrow> (\<exists>d. g (butlast q) = Some d \<and> in_kind d = Directory))"
  proof (cases "q = ?mp \<or> q = ?tp")
    case True
    with par assms(6) show ?thesis by auto
  next
    case False
    with q g have "f q = Some n" by simp
    then have *: "q \<noteq> []" "1 < length q \<Longrightarrow> \<exists>d. f (butlast q) = Some d \<and> in_kind d = Directory"
      using assms(2) by (auto simp: tree_def)
    have "g (butlast q) = f (butlast q)" if "f (butlast q) = Some d" "in_kind d = Directory" for d
      using that assms(3,4) by (intro g) (auto simp: is_file_def)
    with * show ?thesis by fastforce
  qed
qed

section \<open>Looking at the manifest\<close>

lemma wpE_open_regular_at:
  assumes "\<And>t r. same_nodes s t \<Longrightarrow> (\<And>n. r = Inr n \<Longrightarrow> node_at s p = Some n \<and> in_kind n = RegularFile)
      \<Longrightarrow> (r = Inl NotFound \<Longrightarrow> node_at s p = None) \<Longrightarrow> Q r t"
  shows "wpE (open_regular_at p) Q E s"
  unfolding open_regular_at_def wpE_bind
proof (rule wpE_open_nofollow_at)
  fix t and r :: "errno + inode"
  assume t: "same_nodes s t" and r: "\<And>n. r = Inr n \<Longrightarrow> node_at s p = Some n" "r = Inl NotFound \<Longrightarrow> node_at s p = None"
  show "wpE (case r of Inl e \<Rightarrow> retE (Inl e)
      | Inr n \<Rightarrow> bindE (fstat n) (\<lambda>r. case r of Inl e \<Rightarrow> retE (Inl e)
          | Inr n \<Rightarrow> retE (if in_kind n = RegularFile then Inr n else Inl (OtherErrno ''manifest is not a regular file'')))) Q E t"
  proof (cases r)
    case (Inl e)
    then show ?thesis using t r by (auto simp: wp intro!: assms)
  next
    case (Inr n)
    have u: "same_nodes s u" if "same_files t u" for u using same_nodes_trans[OF t same_files_nodes[OF that]] .
    show ?thesis unfolding Inr sum.case wpE_bind fstat_def
      by (rule wpE_syscall) (use r(1)[OF Inr] in \<open>auto simp: wp intro!: assms u\<close>)
  qed
qed

lemma wpE_identity_at:
  assumes "\<And>t e. same_nodes s t \<Longrightarrow> E e t"
    and "\<And>t n. same_nodes s t \<Longrightarrow> node_at s p = Some n \<Longrightarrow> in_kind n = RegularFile \<Longrightarrow> Q (in_identity n) t"
  shows "wpE (identity_at p display) Q E s"
  unfolding identity_at_def wpE_bind wpE_report
proof (rule wpE_open_regular_at)
  fix t and r :: "errno + inode"
  assume t: "same_nodes s t" and r: "\<And>n. r = Inr n \<Longrightarrow> node_at s p = Some n \<and> in_kind n = RegularFile"
  show "case r of Inl e \<Rightarrow> E (io_error display (show_errno e)) t
      | Inr n \<Rightarrow> wpE (fstat n) (\<lambda>r t. case r of Inl e \<Rightarrow> E (io_error display (show_errno e)) t | Inr n \<Rightarrow> wpE (retE (in_identity n)) Q E t) E t"
  proof (cases r)
    case (Inr n)
    then show ?thesis
      using r[OF Inr] by (auto simp: wp intro!: wpE_fstat assms same_nodes_trans[OF t])
  qed (use t assms(1) in simp)
qed

lemma wpE_unlink_if_identity_at:
  assumes "\<And>t e. same_nodes s t \<Longrightarrow> E e t"
    and "\<And>t. is_file (node_at s p) \<Longrightarrow> node_at t = (node_at s)(p := None) \<Longrightarrow> log_grows s t \<Longrightarrow> Q () t"
  shows "wpE (unlink_if_identity_at p i display) Q E s"
  unfolding unlink_if_identity_at_def wpE_bind
proof (rule wpE_identity_at)
  fix t n
  assume t: "same_nodes s t" and n: "node_at s p = Some n" "in_kind n = RegularFile"
  have fail: "E e u" if "same_nodes t u" for e u using same_nodes_trans[OF t that] by (rule assms(1))
  have gone: "Q () u" if "node_at u = (node_at t)(p := None)" "log_grows t u" for u
    using n that t log_grows_trans[of s t u] by (intro assms(2)) (auto simp: is_file_def same_nodes_def)
  show "wpE (ensureE (in_identity n = i) (Validation ''refusing to remove identity-changed manifest temporary''))
      (\<lambda>_. wpE (report display (unlink_at p)) Q E) E t"
    by (auto simp: wp fail intro!: wpE_unlink_at gone)
qed (rule assms(1))

lemma wpE_check_current:
  assumes "\<And>t e. same_nodes s t \<Longrightarrow> E e t"
    and "\<And>t. same_nodes s t \<Longrightarrow> (cur = None \<Longrightarrow> node_at s p = None)
      \<Longrightarrow> (\<And>i. cur = Some i \<Longrightarrow> \<exists>n. node_at s p = Some n \<and> in_kind n = RegularFile \<and> in_identity n = i) \<Longrightarrow> Q () t"
  shows "wpE (check_current cur p display) Q E s"
proof (cases cur)
  case None
  show ?thesis unfolding check_current_def None option.case wpE_bind
    by (rule wpE_open_regular_at) (auto simp: wp None intro!: assms split: sum.split errno.split)
next
  case (Some i)
  show ?thesis unfolding check_current_def Some option.case wpE_bind
    by (rule wpE_identity_at) (auto simp: wp Some intro!: assms)
qed

section \<open>Replacing the manifest\<close>

lemma half_written_temp:
  "mp \<noteq> tp \<Longrightarrow> is_file (Some n) \<Longrightarrow> half_written env m cur cur mp tp f (f(tp \<mapsto> n))"
  "mp \<noteq> tp \<Longrightarrow> f tp = None \<Longrightarrow> manifest_node env m n \<Longrightarrow> half_written env m cur (Some i) mp tp f (f(mp \<mapsto> n))"
  "mp \<noteq> tp \<Longrightarrow> is_file (f mp) \<Longrightarrow> manifest_node env m n \<Longrightarrow> half_written env m cur (Some i) mp tp f (f(tp := f mp, mp \<mapsto> n))"
  by (auto simp: half_written_def)

lemma wpE_replace_manifest:
  assumes tree: "tree (node_at s)" and f: "f tp = None" "mp \<noteq> tp" "mp \<noteq> []" "tp \<noteq> []"
    and s: "node_at s = f(tp \<mapsto> n)" and n: "manifest_node env m n"
    and b: "pb_fs b = s" and cur: "pb_manifest_identity b = cur" "cur = None \<Longrightarrow> f mp = None"
      "\<And>i. cur = Some i \<Longrightarrow> \<exists>n. f mp = Some n \<and> in_kind n = RegularFile \<and> in_identity n = i"
    and E: "\<And>t mi e. half_written env m cur mi mp tp f (node_at t) \<Longrightarrow> log_grows s t \<Longrightarrow> E e (b\<lparr>pb_fs := t, pb_manifest_identity := mi\<rparr>)"
    and Q: "\<And>t. node_at t = f(mp \<mapsto> n) \<Longrightarrow> log_grows s t \<Longrightarrow> Q () (b\<lparr>pb_fs := t, pb_manifest_identity := Some (in_identity n)\<rparr>)"
  shows "wpE (replace_manifest tp mp display (in_identity n)) Q E b"
proof -
  have leaf: "is_file (node_at s tp)" using n by (simp add: s is_file_def manifest_node_def)
  have keep: "b\<lparr>pb_fs := t, pb_manifest_identity := cur\<rparr> = b\<lparr>pb_fs := t\<rparr>" for t using cur(1) by simp
  have E0: "E e (b\<lparr>pb_fs := t\<rparr>)" if "same_nodes s t" for e t
    using E[of cur t e] that half_written_temp(1)[of mp tp n env m cur f] f(2) leaf
    by (simp add: keep same_nodes_def s)
  show ?thesis
  proof (cases cur)
    case None
    have "node_at t = f(mp \<mapsto> n)" if "node_at t = (node_at s)(tp := None, mp := node_at s tp)" for t
      using that f by (auto simp: s fun_eq_iff)
    then show ?thesis
      unfolding replace_manifest_def wpE_bind wpE_basic cur(1) None option.case wpE_onfs wpE_report b
      using Q by (intro wpE_rename_noreplace[OF tree leaf f(4)]) (auto simp: wp E0 f(2)[symmetric])
  next
    case (Some i)
    then obtain old where old: "f mp = Some old" "in_kind old = RegularFile" "in_identity old = i" using cur(3) by blast
    then have fold: "is_file (f mp)" by (simp add: is_file_def)
    have mp: "node_at s mp = f mp" using f(2) by (simp add: s)
    have E2: "E e (b\<lparr>pb_fs := u\<rparr>)" if "node_at u = f(tp \<mapsto> old, mp \<mapsto> n)" "log_grows s u" for e u
      using E[of cur u e] that half_written_temp(3)[where f = f and cur = cur and i = i, OF f(2) fold n] by (simp add: keep) (simp add: Some old)
    have swap: "(node_at s)(tp := node_at s mp, mp := node_at s tp) = f(tp \<mapsto> old, mp \<mapsto> n)"
      using f(2) old(1) by (auto simp: s)
    have gone: "(f(tp \<mapsto> old, mp \<mapsto> n))(tp := None) = f(mp \<mapsto> n)" using f by (auto simp: fun_eq_iff)
    have unlink: "wpE (bindE (onfs (unlink_if_identity_at tp i display)) (\<lambda>_. modE (\<lambda>b. b\<lparr>pb_manifest_identity := Some (in_identity n)\<rparr>))) Q E (b\<lparr>pb_fs := t\<rparr>)"
      if t: "node_at t = f(tp \<mapsto> old, mp \<mapsto> n)" "log_grows s t" for t
      unfolding wpE_bind wpE_basic wpE_onfs
    proof (rule wpE_unlink_if_identity_at)
      show "E e (b\<lparr>pb_fs := t, pb_fs := u\<rparr>)" if "same_nodes (pb_fs (b\<lparr>pb_fs := t\<rparr>)) u" for e u
        using that t E2[of u e] log_grows_trans[OF t(2)] by (simp add: same_nodes_def)
      show "Q () (b\<lparr>pb_fs := t, pb_fs := u, pb_manifest_identity := Some (in_identity n)\<rparr>)"
        if "node_at u = (node_at (pb_fs (b\<lparr>pb_fs := t\<rparr>)))(tp := None)" "log_grows (pb_fs (b\<lparr>pb_fs := t\<rparr>)) u" for u
        using that t Q[of u] log_grows_trans[OF t(2)] by (simp add: gone)
    qed
    have after: "wpE (identity_at tp display) (\<lambda>replaced u. wpE (if replaced \<noteq> i then X
          else bindE (onfs (unlink_if_identity_at tp i display)) (\<lambda>_. modE (\<lambda>b. b\<lparr>pb_manifest_identity := Some (in_identity n)\<rparr>))) Q E (b\<lparr>pb_fs := u\<rparr>))
        (\<lambda>e u. E e (b\<lparr>pb_fs := u\<rparr>)) t"
      if t: "node_at t = f(tp \<mapsto> old, mp \<mapsto> n)" "log_grows s t" for t X
    proof (rule wpE_identity_at)
      have u: "node_at u = f(tp \<mapsto> old, mp \<mapsto> n) \<and> log_grows s u" if "same_nodes t u" for u
        using that t log_grows_trans[OF t(2)] by (simp add: same_nodes_def)
      show "E e (b\<lparr>pb_fs := u\<rparr>)" if "same_nodes t u" for u e using u[OF that] E2 by blast
      show "wpE (if in_identity k \<noteq> i then X
          else bindE (onfs (unlink_if_identity_at tp i display)) (\<lambda>_. modE (\<lambda>b. b\<lparr>pb_manifest_identity := Some (in_identity n)\<rparr>))) Q E (b\<lparr>pb_fs := u\<rparr>)"
        if "same_nodes t u" "node_at t tp = Some k" for u k
        using u[OF that(1)] that(2) unlink[of u] t(1) f(2) old(3) by simp
    qed
    show ?thesis
      unfolding replace_manifest_def wpE_bind wpE_basic cur(1) unfolding Some option.case
    proof (subst wpE_bind, subst wpE_onfs, subst wpE_report, rule wpE_rename_exchange[of _ tp mp])
      show "tree (node_at (pb_fs b))" "is_file (node_at (pb_fs b) tp)" using tree leaf by (simp_all add: b)
      show "is_file (node_at (pb_fs b) mp) \<or> node_at (pb_fs b) mp = None" using fold by (simp add: b mp)
    qed (use f E0 after swap in \<open>auto simp: b wpE_bind wpE_onfs\<close>)
  qed
qed

section \<open>The whole write\<close>

definition could_write :: "file_identity option \<Rightarrow> fs_path \<Rightarrow> fs_path \<Rightarrow> (fs_path \<Rightarrow> inode option) \<Rightarrow> bool" where
  "could_write cur mp tp f \<longleftrightarrow> f tp = None \<and> (if cur = None then f mp = None else is_file (f mp))"

definition left_behind ::
    "publish_env \<Rightarrow> transaction_manifest \<Rightarrow> file_identity option \<Rightarrow> file_identity option \<Rightarrow> fs_path \<Rightarrow> fs_path
     \<Rightarrow> (fs_path \<Rightarrow> inode option) \<Rightarrow> (fs_path \<Rightarrow> inode option) \<Rightarrow> bool" where
  "left_behind env m cur mi mp tp f g \<longleftrightarrow>
     (g = f \<and> mi = cur) \<or> (could_write cur mp tp f \<and> half_written env m cur mi mp tp f g \<and> tree g)"

lemma wpE_write_temporary:
  assumes s: "node_at s = f(tp \<mapsto> n)" "in_kind n = RegularFile" "in_data n = []" and f: "tree f" "f parent = Some d" "in_kind d = Directory"
    and p: "mp = parent @ [Normal a]" "tp = parent @ [Normal a']" "a \<noteq> a'"
    and could: "f tp = None" "pb_manifest_identity b = None \<Longrightarrow> f mp = None"
      "\<And>i. pb_manifest_identity b = Some i \<Longrightarrow> \<exists>n. f mp = Some n \<and> in_kind n = RegularFile \<and> in_identity n = i"
    and data: "data = pe_to_text env (ser_manifest (pe_serde env) m)"
    and b: "pb_fs b = s"
    and E: "\<And>t mi e. half_written env m (pb_manifest_identity b) mi mp tp f (node_at t) \<Longrightarrow> log_grows s t
        \<Longrightarrow> E e (b\<lparr>pb_fs := t, pb_manifest_identity := mi\<rparr>)"
    and Q: "\<And>t k. manifest_node env m k \<Longrightarrow> node_at t = f(mp \<mapsto> k) \<Longrightarrow> log_grows s t
        \<Longrightarrow> Q () (b\<lparr>pb_fs := t, pb_manifest_identity := Some (in_identity k)\<rparr>)"
  shows "wpE (write_temporary parent tp mp display display_parent data (in_identity n)) Q E b"
proof -
  define k where "k = n\<lparr>in_data := data\<rparr>"
  have mk: "manifest_node env m k" using s by (simp add: k_def manifest_node_def data)
  have ne: "mp \<noteq> tp" "mp \<noteq> []" "tp \<noteq> []" using p by auto
  let ?cur = "pb_manifest_identity b"
  have half: "half_written env m ?cur ?cur mp tp f (f(tp \<mapsto> n'))" if "in_kind n' = RegularFile" for n'
    using half_written_temp(1)[OF ne(1), of n'] that by (simp add: is_file_def)
  have keep: "b\<lparr>pb_fs := t, pb_manifest_identity := ?cur\<rparr> = b\<lparr>pb_fs := t\<rparr>" for t by simp
  have E0: "E e (b\<lparr>pb_fs := t\<rparr>)" if "node_at t = f(tp \<mapsto> n')" "in_kind n' = RegularFile" "log_grows s t" for e t n'
    using E[of ?cur t e] half[OF that(2)] that by (simp only: keep)
  have tr: "tree (f(tp \<mapsto> k))"
    using f could(1) ne(3) s(2) by (intro tree_upd) (auto simp: p k_def)
  have final: "wpE (onfs (report display_parent (fsync_at parent))) Q E (b\<lparr>pb_fs := t, pb_manifest_identity := Some (in_identity k)\<rparr>)"
    if t: "node_at t = f(mp \<mapsto> k)" "log_grows s t" for t
    unfolding wpE_onfs
  proof (rule wpE_report_fsync_at)
    have u: "node_at u = f(mp \<mapsto> k)" "log_grows s u"
      if "same_nodes (pb_fs (b\<lparr>pb_fs := t, pb_manifest_identity := Some (in_identity k)\<rparr>)) u" for u
      using that t log_grows_trans[OF t(2)] by (simp_all add: same_nodes_def)
    show "E e (b\<lparr>pb_fs := t, pb_manifest_identity := Some (in_identity k), pb_fs := u\<rparr>)"
      if "same_nodes (pb_fs (b\<lparr>pb_fs := t, pb_manifest_identity := Some (in_identity k)\<rparr>)) u" for u e
      using E[of "Some (in_identity k)" u e] u[OF that] half_written_temp(2)[where f = f, OF ne(1) could(1) mk] by simp
    show "Q () (b\<lparr>pb_fs := t, pb_manifest_identity := Some (in_identity k), pb_fs := u\<rparr>)"
      if "same_nodes (pb_fs (b\<lparr>pb_fs := t, pb_manifest_identity := Some (in_identity k)\<rparr>)) u" for u
      using Q[OF mk u[OF that]] by simp
  qed
  have replace: "wpE (bindE (replace_manifest tp mp display (in_identity k)) (\<lambda>_. onfs (report display_parent (fsync_at parent)))) Q E (b\<lparr>pb_fs := t\<rparr>)"
    if t: "node_at t = f(tp \<mapsto> k)" "log_grows s t" for t
    unfolding wpE_bind
  proof (rule wpE_replace_manifest[where s = t and f = f and n = k and env = env and m = m and cur = "?cur"])
    show "tree (node_at t)" using tr by (simp add: t)
    show "wpE (onfs (report display_parent (fsync_at parent))) Q E (b\<lparr>pb_fs := t, pb_fs := u, pb_manifest_identity := Some (in_identity k)\<rparr>)"
      if "node_at u = f(mp \<mapsto> k)" "log_grows t u" for u using final[of u] that log_grows_trans[OF t(2)] by simp
    show "E e (b\<lparr>pb_fs := t, pb_fs := u, pb_manifest_identity := mi\<rparr>)"
      if "half_written env m ?cur mi mp tp f (node_at u)" "log_grows t u" for u mi e
      using E[of mi u e] that log_grows_trans[OF t(2)] by simp
  qed (use could ne mk t in auto)
  have sync: "wpE (bindE (onfs (report display (fsync_at tp))) (\<lambda>_.
      bindE (replace_manifest tp mp display (in_identity n)) (\<lambda>_. onfs (report display_parent (fsync_at parent))))) Q E (b\<lparr>pb_fs := t\<rparr>)"
    if t: "node_at t = f(tp \<mapsto> k)" "log_grows s t" for t
    unfolding wpE_bind[where m = "onfs _"] wpE_onfs[where m = "report display (fsync_at tp)"]
  proof (rule wpE_report_fsync_at)
    have u: "node_at u = f(tp \<mapsto> k)" "log_grows s u" if "same_nodes (pb_fs (b\<lparr>pb_fs := t\<rparr>)) u" for u
      using that t log_grows_trans[OF t(2)] by (simp_all add: same_nodes_def)
    show "E e (b\<lparr>pb_fs := t, pb_fs := u\<rparr>)" if "same_nodes (pb_fs (b\<lparr>pb_fs := t\<rparr>)) u" for u e
      using E0[OF u(1)[OF that] _ u(2)[OF that]] s(2) by (simp add: k_def)
    show "wpE (bindE (replace_manifest tp mp display (in_identity n)) (\<lambda>_. onfs (report display_parent (fsync_at parent)))) Q E (b\<lparr>pb_fs := t, pb_fs := u\<rparr>)"
      if "same_nodes (pb_fs (b\<lparr>pb_fs := t\<rparr>)) u" for u
      using replace[OF u[OF that]] by (simp add: k_def)
  qed
  show ?thesis
    unfolding write_temporary_def wpE_bind[where m = "onfs (write_all display tp data)"] wpE_onfs[where m = "write_all display tp data"] b
    by (rule wpE_write_all[of s tp n]) (use s E0 sync in \<open>auto simp: k_def\<close>)
qed

text \<open>Removing the temporary file after a failure keeps what half a write leaves.\<close>

lemma half_written_unlink: "half_written env m cur mi mp tp f g \<Longrightarrow> mp \<noteq> tp \<Longrightarrow> half_written env m cur mi mp tp f (g(tp := None))"
  by (auto simp: half_written_def)

lemma wpE_write_or_clean:
  assumes v: "node_at s = f(tp \<mapsto> n)" "in_kind n = RegularFile" "in_data n = []" and f: "tree f" "f parent = Some d" "in_kind d = Directory"
    and p: "mp = parent @ [Normal a]" "tp = parent @ [Normal a']" "a \<noteq> a'"
    and could: "f tp = None" "pb_manifest_identity b = None \<Longrightarrow> f mp = None"
      "\<And>i. pb_manifest_identity b = Some i \<Longrightarrow> \<exists>n. f mp = Some n \<and> in_kind n = RegularFile \<and> in_identity n = i"
    and data: "data = pe_to_text env (ser_manifest (pe_serde env) m)" and b: "pb_fs b = s"
    and E: "\<And>t mi e. half_written env m (pb_manifest_identity b) mi mp tp f (node_at t) \<Longrightarrow> log_grows s t
        \<Longrightarrow> E e (b\<lparr>pb_fs := t, pb_manifest_identity := mi\<rparr>)"
    and Q: "\<And>t k. manifest_node env m k \<Longrightarrow> node_at t = f(mp \<mapsto> k) \<Longrightarrow> log_grows s t
        \<Longrightarrow> Q () (b\<lparr>pb_fs := t, pb_manifest_identity := Some (in_identity k)\<rparr>)"
  shows "wpE (write_or_clean parent tp mp display display_parent data (in_identity n)) Q E b"
proof -
  have ne: "mp \<noteq> tp" using p by auto
  have "wpE (bindE (tryE (onfs (unlink_if_identity_at tp i display))) (\<lambda>_. failE e)) Q E (b\<lparr>pb_fs := t, pb_manifest_identity := mi\<rparr>)"
    if t: "half_written env m (pb_manifest_identity b) mi mp tp f (node_at t)" "log_grows s t" for t mi e i
    unfolding wpE_bind wpE_try wpE_basic wpE_onfs
  proof (rule wpE_unlink_if_identity_at)
    show "E e (b\<lparr>pb_fs := t, pb_manifest_identity := mi, pb_fs := u\<rparr>)"
      if "same_nodes (pb_fs (b\<lparr>pb_fs := t, pb_manifest_identity := mi\<rparr>)) u" for u
      using E[of mi u e] t that log_grows_trans[OF t(2)] by (simp add: same_nodes_def)
    show "E e (b\<lparr>pb_fs := t, pb_manifest_identity := mi, pb_fs := u\<rparr>)"
      if "node_at u = (node_at (pb_fs (b\<lparr>pb_fs := t, pb_manifest_identity := mi\<rparr>)))(tp := None)"
        "log_grows (pb_fs (b\<lparr>pb_fs := t, pb_manifest_identity := mi\<rparr>)) u" for u
      using E[of mi u e] half_written_unlink[OF t(1) ne] that log_grows_trans[OF t(2)] by simp
  qed
  then show ?thesis
    unfolding write_or_clean_def wpE_bind[where m = "tryE _"] wpE_try
    by (intro wpE_write_temporary[OF v f p could data b]) (auto simp: wpE_basic wpE_bind wpE_try intro: Q)
qed

text \<open>
  The contract of a write: on failure the files are as before, or the write had begun and left
  half; on success the manifest has its new text and nothing else changed.
\<close>

lemma wpE_write_prepared_at:
  assumes p: "mp = parent @ [Normal a]" "tp = parent @ [Normal a']" "a \<noteq> a'"
    and tree: "tree (node_at (pb_fs b))"
    and E: "\<And>t mi e. left_behind env (pb_manifest b) (pb_manifest_identity b) mi mp tp (node_at (pb_fs b)) (node_at t)
        \<Longrightarrow> log_grows (pb_fs b) t \<Longrightarrow> E e (b\<lparr>pb_fs := t, pb_manifest_identity := mi\<rparr>)"
    and Q: "\<And>t k. manifest_node env (pb_manifest b) k \<Longrightarrow> could_write (pb_manifest_identity b) mp tp (node_at (pb_fs b))
        \<Longrightarrow> node_at t = (node_at (pb_fs b))(mp \<mapsto> k) \<Longrightarrow> tree (node_at t) \<Longrightarrow> log_grows (pb_fs b) t
        \<Longrightarrow> Q () (b\<lparr>pb_fs := t, pb_manifest_identity := Some (in_identity k)\<rparr>)"
  shows "wpE (write_prepared_at env parent a a' display) Q E b"
proof -
  define f s cur m where "f = node_at (pb_fs b)" and "s = pb_fs b" and "cur = pb_manifest_identity b" and "m = pb_manifest b"
  have ne: "mp \<noteq> tp" using p by auto
  have E1: "E e (b\<lparr>pb_fs := t\<rparr>)" if "same_nodes s t" for e t
    using E[of cur t e] that by (simp add: left_behind_def same_nodes_def f_def s_def cur_def)
  have written: "wpE (bindE (onfs (report display (fstat n))) (\<lambda>n. write_or_clean parent tp mp display dp data (in_identity n))) Q E (b\<lparr>pb_fs := u\<rparr>)"
    if u: "node_at u = f(tp \<mapsto> n)" "log_grows s u" and n: "in_kind n = RegularFile" "in_data n = []"
      and data: "data = pe_to_text env (ser_manifest (pe_serde env) m)" and tp: "f tp = None"
      and c: "cur = None \<Longrightarrow> f mp = None" "\<And>i. cur = Some i \<Longrightarrow> \<exists>n. f mp = Some n \<and> in_kind n = RegularFile \<and> in_identity n = i"
      and d: "f parent = Some d" "in_kind d = Directory" for u n data dp d
    unfolding wpE_bind[where m = "onfs _"] wpE_onfs[where m = "report display (fstat n)"]
  proof (rule wpE_report_fstat)
    have could: "could_write cur mp tp f" using tp c by (cases cur) (auto simp: could_write_def is_file_def)
    then have mpf: "is_file (f mp) \<or> f mp = None" by (auto simp: could_write_def split: if_splits)
    have half: "E e (b\<lparr>pb_fs := v, pb_manifest_identity := mi\<rparr>)"
      if "half_written env m cur mi mp tp f (node_at v)" "log_grows s v" for v mi e
      using that could half_written_tree[of env m cur mi parent a a' f "node_at v" d] tree tp mpf d
      by (intro E) (simp_all add: left_behind_def f_def s_def cur_def m_def p)
    have v: "node_at v = f(tp \<mapsto> n)" "log_grows s v" if "same_nodes (pb_fs (b\<lparr>pb_fs := u\<rparr>)) v" for v
      using that u log_grows_trans[OF u(2)] by (simp_all add: same_nodes_def)
    show "E e (b\<lparr>pb_fs := u, pb_fs := v\<rparr>)" if "same_nodes (pb_fs (b\<lparr>pb_fs := u\<rparr>)) v" for e v
      using half[of cur v e] half_written_temp(1)[OF ne, of n] n v[OF that] by (simp add: cur_def is_file_def)
    have "tree (f(mp \<mapsto> k))" for k using tree d mpf by (intro tree_upd) (auto simp: f_def p is_file_def)
    then show "wpE (write_or_clean parent tp mp display dp data (in_identity n)) Q E (b\<lparr>pb_fs := u, pb_fs := v\<rparr>)"
      if "same_nodes (pb_fs (b\<lparr>pb_fs := u\<rparr>)) v" for v
      using half could c Q log_grows_trans[OF v(2)[OF that]] tree
      by (intro wpE_write_or_clean[OF v(1)[OF that] n _ d p tp _ _ data]) (auto simp: cur_def m_def f_def s_def)
  qed
  have created: "wpE (bindE (onfs (report display (create_at (pe_inode env) RegularFile tp))) (\<lambda>n.
        bindE (onfs (report display (fstat n))) (\<lambda>n. write_or_clean parent tp mp display dp data (in_identity n)))) Q E (b\<lparr>pb_fs := t\<rparr>)"
    if t: "same_nodes s t" and data: "data = pe_to_text env (ser_manifest (pe_serde env) m)"
      and c: "cur = None \<Longrightarrow> f mp = None" "\<And>i. cur = Some i \<Longrightarrow> \<exists>n. f mp = Some n \<and> in_kind n = RegularFile \<and> in_identity n = i"
    for t data dp
    unfolding wpE_bind[where m = "onfs (report display (create_at _ _ _))"] wpE_onfs[where m = "report display (create_at _ _ _)"]
      wpE_report[where m = "create_at _ _ _"]
    using t E1 written[OF _ _ _ _ data _ c] same_nodes_trans[OF t] log_grows_trans[of s t]
    by (intro wpE_create_at) (auto simp: same_nodes_def f_def s_def p)
  show ?thesis
    unfolding write_prepared_at_def Let_def p[symmetric]
    using E1[OF same_nodes_refl]
    by (auto simp: wpE_bind[where m = "getE _"] wpE_bind[where m = "liftE _"] wpE_bind[where m = "onfs (check_current _ _ _)"]
        wpE_basic wpE_onfs[where m = "check_current _ _ _"] serialize_bounded_def Let_def s_def f_def cur_def[symmetric] m_def[symmetric]
        intro!: wpE_check_current created E1 split: sum.split)
qed

lemma wpE_persist:
  assumes p: "path_file_name mpath = Some name" "mp = parent @ [Normal name]" "tp = parent @ [Normal (''.'' @ name @ ''.'' @ transaction_id @ ''.tmp'')]"
    and tree: "tree (node_at (pb_fs b))"
    and E: "\<And>t mi e. left_behind env (pb_manifest b) (pb_manifest_identity b) mi mp tp (node_at (pb_fs b)) (node_at t)
        \<Longrightarrow> log_grows (pb_fs b) t \<Longrightarrow> E e (b\<lparr>pb_fs := t, pb_manifest_identity := mi\<rparr>)"
    and Q: "\<And>t k. manifest_node env (pb_manifest b) k \<Longrightarrow> could_write (pb_manifest_identity b) mp tp (node_at (pb_fs b))
        \<Longrightarrow> node_at t = (node_at (pb_fs b))(mp \<mapsto> k) \<Longrightarrow> tree (node_at t) \<Longrightarrow> log_grows (pb_fs b) t
        \<Longrightarrow> Q () (b\<lparr>pb_fs := t, pb_manifest_identity := Some (in_identity k)\<rparr>)"
  shows "wpE (persist_manifest_prepared env parent mpath transaction_id) Q E b"
proof -
  have "length name \<noteq> length (''.'' @ name @ ''.'' @ transaction_id @ ''.tmp'')" by simp
  then have ne: "name \<noteq> ''.'' @ name @ ''.'' @ transaction_id @ ''.tmp''" by metis
  have E0: "E e b" for e
    using E[of "pb_manifest_identity b" "pb_fs b" e] by (simp add: left_behind_def)
  have "wpE (write_prepared_at env parent name (''.'' @ name @ ''.'' @ transaction_id @ ''.tmp'') mpath) Q E b"
    by (rule wpE_write_prepared_at[OF p(2,3) ne tree]) (use E Q in blast)+
  then show ?thesis
    unfolding persist_manifest_prepared_def p(1) Let_def
    by (auto simp: wpE_bind[where m = "liftE _"] wpE_bind[where m = "ensureE _ _"] wpE_basic E0 split: sum.split)
qed

section \<open>What a manifest names\<close>

definition manifest_names :: "transaction_manifest \<Rightarrow> fs_path set" where
  "manifest_names m =
     set (map (\<lambda>e. path_components (manifest_path m (me_partial_path e))) (entries_of m))
     \<union> set (map (\<lambda>e. path_components (manifest_path m (me_final_path e))) (entries_of m))
     \<union> set (concat (map (\<lambda>d. case directory_path m d of Inl _ \<Rightarrow> [] | Inr q \<Rightarrow> [path_components q]) (directories_of m)))"

definition same_paths :: "transaction_manifest \<Rightarrow> transaction_manifest \<Rightarrow> bool" where
  "same_paths m m' \<longleftrightarrow> tm_path_arena m' = tm_path_arena m
     \<and> map (\<lambda>e. (me_partial_path e, me_final_path e)) (entries_of m') = map (\<lambda>e. (me_partial_path e, me_final_path e)) (entries_of m)
     \<and> map (\<lambda>d. (md_entry_index d, md_prefix_len d)) (directories_of m') = map (\<lambda>d. (md_entry_index d, md_prefix_len d)) (directories_of m)"

lemma same_paths_refl [simp]: "same_paths m m"
  by (simp add: same_paths_def)

lemma same_paths_trans: "same_paths m m' \<Longrightarrow> same_paths m' m'' \<Longrightarrow> same_paths m m''"
  by (simp add: same_paths_def)

lemma same_paths_entry:
  assumes "same_paths m m'"
  shows "length (entries_of m') = length (entries_of m)"
    and "i < length (entries_of m) \<Longrightarrow> me_final_path (entries_of m' ! i) = me_final_path (entries_of m ! i)
           \<and> me_partial_path (entries_of m' ! i) = me_partial_path (entries_of m ! i)"
    and "manifest_path m' = manifest_path m"
proof -
  have eq: "map (\<lambda>e. (me_partial_path e, me_final_path e)) (entries_of m') = map (\<lambda>e. (me_partial_path e, me_final_path e)) (entries_of m)"
    using assms by (simp add: same_paths_def)
  then show len: "length (entries_of m') = length (entries_of m)" by (rule map_eq_imp_length_eq)
  show "me_final_path (entries_of m' ! i) = me_final_path (entries_of m ! i) \<and> me_partial_path (entries_of m' ! i) = me_partial_path (entries_of m ! i)"
    if "i < length (entries_of m)"
    using arg_cong[OF eq, of "\<lambda>l. l ! i"] that len by simp
  show "manifest_path m' = manifest_path m" using assms by (simp add: same_paths_def manifest_path_def fun_eq_iff)
qed

lemma same_paths_directory:
  assumes "same_paths m m'" and "md_entry_index d' = md_entry_index d" and "md_prefix_len d' = md_prefix_len d"
  shows "directory_path m' d' = directory_path m d"
  using assms same_paths_entry[OF assms(1)] by (auto simp: directory_path_def)

lemma same_paths_names:
  assumes "same_paths m m'"
  shows "manifest_names m' = manifest_names m"
proof -
  let ?k = "\<lambda>e. (me_partial_path e, me_final_path e)"
  let ?d = "\<lambda>d. (md_entry_index d, md_prefix_len d)"
  have e: "map ?k (entries_of m') = map ?k (entries_of m)" and d: "map ?d (directories_of m') = map ?d (directories_of m)"
    using assms by (simp_all add: same_paths_def)
  have path: "manifest_path m' = manifest_path m" by (rule same_paths_entry(3)[OF assms])
  define dp where "dp k = directory_path m \<lparr>md_entry_index = fst k, md_prefix_len = snd k, md_state = None, md_identity = None\<rparr>" for k
  have dp: "directory_path m d = dp (?d d)" "directory_path m' d = dp (?d d)" for d
    unfolding dp_def by (rule same_paths_directory[OF same_paths_refl] same_paths_directory[OF assms]; simp)+
  have "map (\<lambda>d. case directory_path m' d of Inl _ \<Rightarrow> [] | Inr q \<Rightarrow> [path_components q]) (directories_of m')
      = map (\<lambda>d. case directory_path m d of Inl _ \<Rightarrow> [] | Inr q \<Rightarrow> [path_components q]) (directories_of m)"
    unfolding dp using arg_cong[OF d, of "map (\<lambda>k. case dp k of Inl _ \<Rightarrow> [] | Inr q \<Rightarrow> [path_components q])"] by (simp add: o_def)
  moreover have "map (\<lambda>e. path_components (manifest_path m' (me_partial_path e))) (entries_of m')
      = map (\<lambda>e. path_components (manifest_path m (me_partial_path e))) (entries_of m)"
    "map (\<lambda>e. path_components (manifest_path m' (me_final_path e))) (entries_of m')
      = map (\<lambda>e. path_components (manifest_path m (me_final_path e))) (entries_of m)"
    using arg_cong[OF e, of "map (\<lambda>k. path_components (manifest_path m (fst k)))"]
      arg_cong[OF e, of "map (\<lambda>k. path_components (manifest_path m (snd k)))"] by (simp_all add: o_def path)
  ultimately show ?thesis unfolding manifest_names_def by simp
qed

lemma manifest_names_entry:
  assumes "i < length (entries_of m)"
  shows "path_components (manifest_path m (me_partial_path (entries_of m ! i))) \<in> manifest_names m"
    and "path_components (manifest_path m (me_final_path (entries_of m ! i))) \<in> manifest_names m"
  using nth_mem[OF assms] unfolding manifest_names_def set_map by blast+

lemma manifest_names_directory: "d \<in> set (directories_of m) \<Longrightarrow> directory_path m d = Inr q \<Longrightarrow> path_components q \<in> manifest_names m"
  by (force simp: manifest_names_def)

text \<open>Phases, identities and states of directories are no names.\<close>

lemma map_take_update: "(\<And>x. f (g x) = f x) \<Longrightarrow> map f (take n (xs[i := g (xs ! i)])) = map f (take n xs)"
proof (cases "i < length xs")
  case True
  assume "\<And>x. f (g x) = f x"
  then have "map f (xs[i := g (xs ! i)]) = map f xs" using True by (simp add: map_update list_update_same_conv)
  then show ?thesis by (metis take_map)
next
  case False
  then have "xs[i := g (xs ! i)] = xs" by (intro list_update_beyond) simp
  then show ?thesis by (simp only:)
qed

lemma same_paths_updates:
  "same_paths m (m\<lparr>tm_phase := ph\<rparr>)"
  "(\<And>e. me_partial_path (g e) = me_partial_path e \<and> me_final_path (g e) = me_final_path e)
     \<Longrightarrow> same_paths m (m\<lparr>tm_slots := (tm_slots m)[i := g (tm_slots m ! i)]\<rparr>)"
  "same_paths m (m\<lparr>tm_directory_slots := (tm_directory_slots m)[i := (tm_directory_slots m ! i)\<lparr>md_state := st, md_identity := idn\<rparr>]\<rparr>)"
proof -
  show "same_paths m (m\<lparr>tm_phase := ph\<rparr>)" by (simp add: same_paths_def entries_of_def directories_of_def)
  show "same_paths m (m\<lparr>tm_slots := (tm_slots m)[i := g (tm_slots m ! i)]\<rparr>)"
    if "\<And>e. me_partial_path (g e) = me_partial_path e \<and> me_final_path (g e) = me_final_path e"
    using map_take_update[of "\<lambda>e. (me_partial_path e, me_final_path e)" g] that
    by (simp add: same_paths_def entries_of_def directories_of_def)
  show "same_paths m (m\<lparr>tm_directory_slots := (tm_directory_slots m)[i := (tm_directory_slots m ! i)\<lparr>md_state := st, md_identity := idn\<rparr>]\<rparr>)"
    using map_take_update[of "\<lambda>d. (md_entry_index d, md_prefix_len d)" "\<lambda>d. d\<lparr>md_state := st, md_identity := idn\<rparr>"]
    by (simp add: same_paths_def entries_of_def directories_of_def)
qed

end
