(* ===== verification/Publication_Invariant.thy ===== *)
theory Publication_Invariant
  imports Publication_Journal
begin

text \<open>
  The invariant of a publication whose manifest is on disk: everything that was there before is
  untouched, everything new is at a path the run may use, and the manifest says so before it is
  created.  It holds after every call, so also where a crash cuts the run short.
\<close>

section \<open>Operations that only look\<close>

definition looks :: "(fs, 'x) eff \<Rightarrow> bool" where
  "looks m \<longleftrightarrow> (\<forall>s. same_nodes s (fst (m s)))"

named_theorems looking \<open>operations that leave all files as they are\<close>

lemma looks_basic [looking]:
  "looks (retE x)" "looks (failE e)" "looks (getE f)" "looks (liftE r)" "looks (ensureE c e)"
  by (simp_all add: looks_def eff_defs)

lemma looks_bind [looking]:
  assumes "looks m" and "\<And>x. looks (k x)"
  shows "looks (bindE m k)"
  unfolding looks_def
proof
  fix s
  obtain t r where t: "m s = (t, r)" by force
  with assms(1) have st: "same_nodes s t" by (metis fst_conv looks_def)
  with assms(2) have "same_nodes s (fst (k x t))" for x by (metis looks_def same_nodes_trans)
  with t st show "same_nodes s (fst (bindE m k s))" by (simp add: bindE_def split: sum.split)
qed

lemma looks_syscall: "(\<And>s. same_nodes s (fst (run s))) \<Longrightarrow> looks (syscall run)"
proof -
  assume run: "\<And>s. same_nodes s (fst (run s))"
  have "same_nodes s (s\<lparr>fs_faults := f\<rparr>)" for s f by (simp add: same_nodes_def node_at_def log_grows_def)
  then show ?thesis
    using run same_nodes_trans
    by (auto simp: looks_def syscall_def split: list.split option.split prod.split) (metis fst_conv)+
qed

lemma looks_calls [looking]:
  "looks (open_dir_at p)" "looks (open_nofollow_at p)" "looks (open_read path)" "looks (fstat n)" "looks (dup p)" "looks (fsync_at p)"
  "looks (lstat_at p)" "looks (lstat path)" "looks (open_nofollow path)" "looks (open_directory path)" "looks (fsync path)"
  unfolding open_dir_at_def open_nofollow_at_def open_read_def fstat_def dup_def fsync_at_def lstat_def lstat_at_def
    open_nofollow_def open_directory_def fsync_def
  by (rule looks_syscall; simp add: same_nodes_def node_at_def log_grows_def)+

lemma looks_report [looking]: "looks m \<Longrightarrow> looks (report path m)"
  unfolding report_def by (intro looks_bind) (auto simp: looking split: sum.split)

lemma looks_for [looking]: "(\<And>x. x \<in> set xs \<Longrightarrow> looks (f x)) \<Longrightarrow> looks (forE f xs)"
  by (induction xs) (simp_all add: looking)

lemma looks_open_directories [looking]: "looks (open_directories env path e d parts)"
  by (induction env path e d parts rule: open_directories.induct) (auto intro!: looking)

lemma looks_root [looking]:
  "looks (open_existing_absolute_directory env path)" "looks (trusted_root_verify env tr)" "looks (output_root env tr)"
  "looks (open_relative_directory env tr relative)" "looks (sync_directory path)"
  unfolding open_existing_absolute_directory_def open_absolute_root_def trusted_root_verify_def output_root_def
    open_relative_directory_def sync_directory_def
  by (auto intro!: looking split: prod.split sum.split)

lemma looks_descend [looking]: "looks (descend_existing env path p parts)"
  by (induction env path p parts rule: descend_existing.induct) (auto intro!: looking split: sum.split errno.split)

lemma looks_final [looking]:
  "looks (ensure_final_absent env tr path)" "looks (sync_final_file env tr out pf)" "looks (sync_parent_slot env tr planned out slot)"
  "looks (verify_manifest_matches env mpath m)" "looks (open_regular_file_at p name path)"
  unfolding ensure_final_absent_def sync_final_file_def sync_parent_slot_def verify_manifest_matches_def open_regular_file_at_def
    read_manifest_identity_def
  by (auto intro!: looking split: prod.split sum.split option.split errno.split)

lemma wpE_looks:
  assumes "looks m" and "\<And>x t. same_nodes s t \<Longrightarrow> Q x t" and "\<And>e t. same_nodes s t \<Longrightarrow> E e t"
  shows "wpE m Q E s"
  using assms by (auto simp: wpE_def looks_def split: prod.split sum.split) (metis fst_conv)+

text \<open>What an operation that looks returns.\<close>

lemma wpE_looks_returns:
  assumes "looks m" and "\<And>s. wpE m (\<lambda>x _. R x) (\<lambda>_ _. True) s"
    and "\<And>x t. same_nodes s t \<Longrightarrow> R x \<Longrightarrow> Q x t" and "\<And>e t. same_nodes s t \<Longrightarrow> E e t"
  shows "wpE m Q E s"
  using assms(1) assms(2)[of s] assms(3,4) by (auto simp: wpE_def looks_def split: prod.splits sum.splits) (metis fst_conv)+

lemma open_directories_returns: "wpE (open_directories env path e (p, n) parts) (\<lambda>(q, _) _. q = p @ parts) (\<lambda>_ _. True) s"
proof (induction parts arbitrary: p n s)
  case (Cons c parts)
  show ?case
  proof (cases c)
    case (Normal name)
    have "wpE (open_directories env path e (p @ [Normal name], k) parts) (\<lambda>(q, _) _. q = p @ Normal name # parts) (\<lambda>_ _. True) t" for k t
      using Cons.IH[of "p @ [Normal name]" k t] by simp
    then show ?thesis
      by (auto simp: Normal wp intro!: wpE_looks[of "open_dir_at _"] looking split: sum.split)
  qed (simp_all add: wp)
qed (simp add: wp)

lemma open_relative_returns: "wpE (open_relative_directory env tr relative) (\<lambda>p _. p = tr_output tr @ relative) (\<lambda>_ _. True) s"
proof -
  have dup: "wpE (output_root env tr) (\<lambda>p _. p = tr_output tr) (\<lambda>_ _. True) s" for s
    unfolding output_root_def wpE_bind wpE_report dup_def
    by (rule wpE_looks[OF looks_root(2)]; simp) (rule wpE_syscall; auto)
  show ?thesis unfolding open_relative_directory_def wpE_bind
    by (rule wpE_mono[OF dup]) (auto simp: wp intro!: wpE_mono[OF open_directories_returns])
qed

section \<open>The invariant\<close>

definition later :: "fs_path \<Rightarrow> fs \<Rightarrow> fs \<Rightarrow> bool" where
  "later mp s t \<longleftrightarrow> (\<forall>p n. p \<noteq> mp \<and> node_at s p = Some n \<longrightarrow> node_at t p = Some n) \<and> log_grows s t"

lemma later_same: "same_nodes s t \<Longrightarrow> later mp s t"
  by (simp add: later_def same_nodes_def)

lemma later_trans: "later mp s t \<Longrightarrow> later mp t u \<Longrightarrow> later mp s u"
  by (auto simp: later_def intro: log_grows_trans)

definition journaled :: "publish_env \<Rightarrow> fs_path \<Rightarrow> (transaction_manifest \<Rightarrow> bool) \<Rightarrow> bool \<Rightarrow> (fs_path \<Rightarrow> inode option) \<Rightarrow> bool" where
  "journaled env mp R finished f \<longleftrightarrow>
     (\<exists>m n. f mp = Some n \<and> manifest_node env m n \<and> R m \<and> (tm_phase m = Complete \<longrightarrow> finished))"

definition publishing ::
    "publish_env \<Rightarrow> (fs_path \<Rightarrow> inode option) \<Rightarrow> fs_path set \<Rightarrow> fs_path \<Rightarrow> fs_path \<Rightarrow> (transaction_manifest \<Rightarrow> bool) \<Rightarrow> (fs \<Rightarrow> bool) \<Rightarrow> fs \<Rightarrow> bool" where
  "publishing env f0 A mp tp R D s \<longleftrightarrow>
     tree (node_at s) \<and> f0 \<subseteq>\<^sub>m node_at s \<and> f0 mp = None \<and> f0 tp = None
     \<and> dom (node_at s) \<subseteq> dom f0 \<union> A \<union> {mp, tp} \<and> journaled env mp R (D s) (node_at s)"

abbreviation unfinished :: "fs \<Rightarrow> bool" where
  "unfinished \<equiv> \<lambda>_. False"

lemma publishing_same: "publishing env f0 A mp tp R D s \<Longrightarrow> same_nodes s t \<Longrightarrow> (D s \<Longrightarrow> D t) \<Longrightarrow> publishing env f0 A mp tp R D t"
  unfolding publishing_def journaled_def by (auto simp: same_nodes_def)

lemma publishing_weaken: "publishing env f0 A mp tp R unfinished s \<Longrightarrow> publishing env f0 A mp tp R D s"
  unfolding publishing_def journaled_def by blast

text \<open>A change that stays within new files named by the manifest.\<close>

lemma publishing_change:
  assumes "publishing env f0 A mp tp R unfinished s" and "\<And>p. p \<notin> X \<Longrightarrow> node_at t p = node_at s p" and "X \<subseteq> A" and "mp \<notin> X"
    and "\<And>p. p \<in> X \<Longrightarrow> f0 p = None" and "tree (node_at t)"
  shows "publishing env f0 A mp tp R unfinished t"
proof -
  have "f0 \<subseteq>\<^sub>m node_at t"
    using assms(1,2,5) unfolding publishing_def map_le_def by (metis domIff)
  moreover have "dom (node_at t) \<subseteq> dom f0 \<union> A \<union> {mp, tp}"
  proof
    fix p assume "p \<in> dom (node_at t)"
    then show "p \<in> dom f0 \<union> A \<union> {mp, tp}"
      using assms(1-3) by (cases "p \<in> X") (auto simp: publishing_def dom_def)
  qed
  ultimately show ?thesis using assms(1,2,4,6) by (simp add: publishing_def journaled_def)
qed

lemma publishing_new: "publishing env f0 A mp tp R D s \<Longrightarrow> node_at s p = None \<Longrightarrow> f0 p = None \<and> p \<noteq> mp"
  unfolding publishing_def journaled_def map_le_def by (metis domIff option.distinct(1))

lemma publishing_create:
  assumes "publishing env f0 A mp tp R unfinished s" and "node_at s p = None" and "node_at t = (node_at s)(p \<mapsto> n)" and "log_grows s t"
    and "\<exists>d. node_at s (butlast p) = Some d \<and> in_kind d = Directory" and "p \<in> A" and "p \<noteq> []"
  shows "publishing env f0 A mp tp R unfinished t" and "later mp s t"
proof -
  have "tree (node_at t)" unfolding assms(3) using assms(1,2,5,7) by (intro tree_upd) (auto simp: publishing_def)
  with assms publishing_new[OF assms(1,2)] show "publishing env f0 A mp tp R unfinished t"
    by (intro publishing_change[OF assms(1), of "{p}"]) auto
  show "later mp s t" using assms(2-4) by (auto simp: later_def)
qed

section \<open>Writing the manifest under the invariant\<close>

lemma left_behind_later:
  assumes "left_behind env m (Some i) mi mp tp (node_at s) (node_at t)" and "log_grows s t"
  shows "later mp s t" and "node_at t mp = node_at s mp \<or> (\<exists>n. manifest_node env m n \<and> node_at t mp = Some n)"
    and "dom (node_at t) \<subseteq> dom (node_at s) \<union> {mp, tp}" and "tree (node_at s) \<Longrightarrow> tree (node_at t)"
proof -
  have "node_at t = node_at s \<or> (could_write (Some i) mp tp (node_at s) \<and> half_written env m (Some i) mi mp tp (node_at s) (node_at t) \<and> tree (node_at t))"
    using assms(1) by (auto simp: left_behind_def)
  then show "later mp s t" "node_at t mp = node_at s mp \<or> (\<exists>n. manifest_node env m n \<and> node_at t mp = Some n)"
    "dom (node_at t) \<subseteq> dom (node_at s) \<union> {mp, tp}" "tree (node_at s) \<Longrightarrow> tree (node_at t)"
    using assms(2) by (auto simp: later_def could_write_def half_written_def dom_def)
qed

text \<open>
  The manifest may say \<open>Complete\<close> only when \<open>D\<close> holds, which later changes must
  keep.
\<close>

lemma wpE_persist_publishing:
  assumes p: "path_file_name mpath = Some name" "mp = parent @ [Normal name]" "tp = parent @ [Normal (''.'' @ name @ ''.'' @ transaction_id @ ''.tmp'')]"
    and inv: "publishing env f0 A mp tp R unfinished (pb_fs b)" and names: "R (pb_manifest b)"
    and mi: "pb_manifest_identity b \<noteq> None" and D: "tm_phase (pb_manifest b) = Complete \<Longrightarrow> D (pb_fs b)"
    and stable: "\<And>s t. D s \<Longrightarrow> later mp s t \<Longrightarrow> D t"
    and E: "\<And>e b'. publishing env f0 A mp tp R D (pb_fs b') \<Longrightarrow> E e b'"
    and Q: "\<And>t i k. publishing env f0 A mp tp R D t \<Longrightarrow> later mp (pb_fs b) t \<Longrightarrow> node_at t mp = Some k \<Longrightarrow> manifest_node env (pb_manifest b) k
        \<Longrightarrow> Q () (b\<lparr>pb_fs := t, pb_manifest_identity := Some i\<rparr>)"
  shows "wpE (persist_manifest_prepared env parent mpath transaction_id) Q E b"
proof -
  obtain i where i: "pb_manifest_identity b = Some i" using mi by blast
  let ?s = "pb_fs b"
  have tree: "tree (node_at ?s)" and le: "f0 \<subseteq>\<^sub>m node_at ?s" and none: "f0 mp = None" "f0 tp = None"
    and dom: "dom (node_at ?s) \<subseteq> dom f0 \<union> A \<union> {mp, tp}" and jo: "journaled env mp R False (node_at ?s)"
    using inv by (simp_all add: publishing_def)
  have kept: "publishing env f0 A mp tp R D t"
    if t: "later mp ?s t" "dom (node_at t) \<subseteq> dom (node_at ?s) \<union> {mp, tp}" "tree (node_at t)"
      "node_at t mp = node_at ?s mp \<or> (\<exists>n. manifest_node env (pb_manifest b) n \<and> node_at t mp = Some n)" for t
  proof -
    have "f0 \<subseteq>\<^sub>m node_at t"
      unfolding map_le_def
    proof
      fix p assume "p \<in> dom f0"
      then obtain n where n: "f0 p = Some n" by blast
      with le have "node_at ?s p = Some n" by (metis domI map_le_def)
      moreover have "p \<noteq> mp" using n none by auto
      ultimately show "f0 p = node_at t p" using t(1) n by (simp add: later_def)
    qed
    moreover have "journaled env mp R (D t) (node_at t)"
      using t(4)
    proof
      assume "node_at t mp = node_at ?s mp"
      with jo show ?thesis by (auto simp: journaled_def)
    next
      assume "\<exists>n. manifest_node env (pb_manifest b) n \<and> node_at t mp = Some n"
      with names D stable[OF _ t(1)] show ?thesis unfolding journaled_def by blast
    qed
    moreover have "dom (node_at t) \<subseteq> dom f0 \<union> A \<union> {mp, tp}" using dom t(2) by blast
    ultimately show ?thesis using none t(3) by (simp add: publishing_def)
  qed
  show ?thesis
  proof (rule wpE_persist[OF p tree])
    fix t mi e
    assume "left_behind env (pb_manifest b) (pb_manifest_identity b) mi mp tp (node_at ?s) (node_at t)" "log_grows ?s t"
    then show "E e (b\<lparr>pb_fs := t, pb_manifest_identity := mi\<rparr>)"
      using left_behind_later[of env "pb_manifest b" i mi mp tp ?s t] tree by (intro E) (simp add: i kept)
  next
    fix t k
    assume k: "manifest_node env (pb_manifest b) k" and t: "node_at t = (node_at ?s)(mp \<mapsto> k)" "tree (node_at t)" "log_grows ?s t"
    have l: "later mp ?s t" using t by (simp add: later_def)
    moreover have "publishing env f0 A mp tp R D t" using k t by (intro kept l) auto
    ultimately show "Q () (b\<lparr>pb_fs := t, pb_manifest_identity := Some (in_identity k)\<rparr>)" using k t by (intro Q) auto
  qed
qed

end
