(* ===== verification/Publication_Copy.thy ===== *)
theory Publication_Copy
  imports Publication_Invariant
begin

text \<open>
  The steps of a file-set publication under the invariant: creating the recorded directories,
  copying each staged file to its partial name and renaming it.
\<close>

section \<open>State of a run\<close>

record txn =
  tx_env :: publish_env
  tx_start :: "fs_path \<Rightarrow> inode option"
  tx_above :: "fs_path set"
  tx_parent :: fs_path
  tx_name :: string
  tx_id :: string
  tx_recorded :: transaction_manifest

definition tx_manifest :: "txn \<Rightarrow> fs_path" where
  "tx_manifest x = tx_parent x @ [Normal (tx_name x)]"

definition tx_temp :: "txn \<Rightarrow> fs_path" where
  "tx_temp x = tx_parent x @ [Normal (''.'' @ tx_name x @ ''.'' @ tx_id x @ ''.tmp'')]"

definition recorded_as :: "txn \<Rightarrow> transaction_manifest \<Rightarrow> bool" where
  "recorded_as x m \<longleftrightarrow> manifest_names m = manifest_names (tx_recorded x)"

definition safe :: "txn \<Rightarrow> (fs \<Rightarrow> bool) \<Rightarrow> fs \<Rightarrow> bool" where
  "safe x D = publishing (tx_env x) (tx_start x) (tx_above x \<union> manifest_names (tx_recorded x)) (tx_manifest x) (tx_temp x) (recorded_as x) D"

definition on_track :: "txn \<Rightarrow> fs \<Rightarrow> transaction_manifest \<Rightarrow> publication \<Rightarrow> bool" where
  "on_track x s0 m b \<longleftrightarrow> safe x unfinished (pb_fs b) \<and> later (tx_manifest x) s0 (pb_fs b) \<and> pb_manifest b = m
     \<and> same_paths (tx_recorded x) m \<and> tm_phase m \<noteq> Complete \<and> pb_manifest_identity b \<noteq> None"

lemma on_track_safe: "on_track x s0 m b \<Longrightarrow> safe x unfinished (pb_fs b)"
  by (simp add: on_track_def)

lemma on_track_names: "on_track x s0 m b \<Longrightarrow> manifest_names m = manifest_names (tx_recorded x)"
  using same_paths_names by (auto simp: on_track_def)

lemma safe_same: "safe x unfinished s \<Longrightarrow> same_nodes s t \<Longrightarrow> safe x unfinished t"
  unfolding safe_def by (rule publishing_same)

lemma on_track_same: "on_track x s0 m b \<Longrightarrow> same_nodes (pb_fs b) t \<Longrightarrow> on_track x s0 m (b\<lparr>pb_fs := t\<rparr>)"
  by (auto simp: on_track_def intro: safe_same later_trans later_same)

lemma on_track_restart: "on_track x s0 m b \<Longrightarrow> on_track x (pb_fs b) m b"
  by (simp add: on_track_def later_same)

lemma on_track_look:
  assumes "on_track x s0 m b" and "same_nodes (pb_fs b) t"
  shows "on_track x s0 m (b\<lparr>pb_fs := t\<rparr>) \<and> node_at (pb_fs (b\<lparr>pb_fs := t\<rparr>)) = node_at (pb_fs b)" and "safe x unfinished (pb_fs (b\<lparr>pb_fs := t\<rparr>))"
  using on_track_same[OF assms] safe_same[OF on_track_safe[OF assms(1)] assms(2)] assms(2) by (simp_all add: same_nodes_def)

lemma wpE_look_track:
  assumes "looks op" and "on_track x s0 m b"
  shows "wpE (onfs op) (\<lambda>_ b'. on_track x s0 m b' \<and> node_at (pb_fs b') = node_at (pb_fs b)) (\<lambda>_ b'. safe x unfinished (pb_fs b')) b"
  unfolding wpE_onfs
  by (rule wpE_looks[OF assms(1)]) (rule on_track_look[OF assms(2)], assumption)+

lemma wpE_look_returns_track:
  assumes "looks op" and "\<And>s. wpE op (\<lambda>r _. R r) (\<lambda>_ _. True) s" and "on_track x s0 m b"
  shows "wpE (onfs op) (\<lambda>r b'. R r \<and> on_track x s0 m b' \<and> node_at (pb_fs b') = node_at (pb_fs b)) (\<lambda>_ b'. safe x unfinished (pb_fs b')) b"
  unfolding wpE_onfs
  by (rule wpE_looks_returns[OF assms(1,2)], rule conjI, assumption) (rule on_track_look[OF assms(3)], assumption)+

lemma wpE_persist_track:
  assumes "path_file_name mpath = Some (tx_name x)" and "on_track x s0 m b"
  shows "wpE (persist_manifest_prepared (tx_env x) (tx_parent x) mpath (tx_id x))
           (\<lambda>_ b'. on_track x s0 m b' \<and> later (tx_manifest x) (pb_fs b) (pb_fs b')) (\<lambda>_ b'. safe x unfinished (pb_fs b')) b"
proof (rule wpE_persist_publishing[OF assms(1) tx_manifest_def tx_temp_def])
  show "publishing (tx_env x) (tx_start x) (tx_above x \<union> manifest_names (tx_recorded x)) (tx_manifest x) (tx_temp x) (recorded_as x) unfinished (pb_fs b)"
    using on_track_safe[OF assms(2)] by (simp add: safe_def)
  show "recorded_as x (pb_manifest b)" "pb_manifest_identity b \<noteq> None"
    using assms(2) on_track_names[OF assms(2)] by (simp_all add: on_track_def recorded_as_def)
qed (use assms(2) in \<open>auto simp: on_track_def safe_def intro: later_trans\<close>)

section \<open>Directories\<close>

lemma strip_prefix_components: "path_strip_prefix s base = Some r \<Longrightarrow> path_components s = path_components base @ r"
  by (auto simp: path_strip_prefix_def path_starts_with_def split: if_splits) (metis append_take_drop_id)

lemma wpE_make_directory:
  assumes "safe x unfinished s" and "p @ [Normal name] \<in> manifest_names (tx_recorded x)"
    and "\<And>e t. safe x unfinished t \<Longrightarrow> E e t" and "\<And>n t. safe x unfinished t \<Longrightarrow> later (tx_manifest x) s t \<Longrightarrow> Q n t"
  shows "wpE (make_directory env path p name) Q E s"
proof -
  have opened: "wpE (report path (open_dir_at (p @ [Normal name]))) Q E t" if t: "safe x unfinished t" "later (tx_manifest x) s t" for t
    by (rule wpE_looks) (use t safe_same later_trans[OF t(2)] later_same in \<open>auto intro!: looking assms(3,4)\<close>)
  show ?thesis
    unfolding make_directory_def mkdir_at_def wpE_bind wpE_report[where m = "create_at _ _ _"] wpE_basic
  proof (rule wpE_create_at)
    show "case Inl e of Inl e \<Rightarrow> E (io_error path (show_errno e)) t | Inr k \<Rightarrow> wpE (report path (open_dir_at (p @ [Normal name]))) Q E t"
      if "same_nodes s t" for t e using assms(3)[OF safe_same[OF assms(1) that]] by simp
    show "case Inr n of Inl e \<Rightarrow> E (io_error path (show_errno e)) t | Inr k \<Rightarrow> wpE (report path (open_dir_at (p @ [Normal name]))) Q E t"
      if "node_at s (p @ [Normal name]) = None" "node_at t = (node_at s)(p @ [Normal name] \<mapsto> n)" "log_grows s t"
        "\<exists>d. node_at s (butlast (p @ [Normal name])) = Some d \<and> in_kind d = Directory" for n t
      using publishing_create[OF _ that(1-4) UnI2[OF assms(2)]] assms(1) by (auto intro!: opened simp: safe_def)
  qed
qed

lemma wpE_materialize_directory_slot:
  assumes "safe x unfinished s" and "tr_output tr @ relative \<in> manifest_names (tx_recorded x)"
    and "\<And>e t. safe x unfinished t \<Longrightarrow> E e t" and "\<And>n t. safe x unfinished t \<Longrightarrow> later (tx_manifest x) s t \<Longrightarrow> Q n t"
  shows "wpE (materialize_directory_slot env tr relative) Q E s"
proof (cases "rev relative")
  case Nil
  then show ?thesis using assms(1,3) by (simp add: materialize_directory_slot_def wp)
next
  case (Cons c cs)
  show ?thesis
  proof (cases c)
    case (Normal name)
    have rel: "relative = butlast relative @ [Normal name]" using Cons Normal by (metis append_butlast_last_id last_rev list.sel(1) rev.simps(1) rev_rev_ident list.distinct(1))
    have open': "wpE (open_dir_at (p @ [Normal name])) (\<lambda>r. wpE (case r of
          Inr n \<Rightarrow> retE (n, False)
        | Inl NotFound \<Rightarrow> bindE (make_directory env (tr_output_path tr) p name) (\<lambda>n. retE (n, True))
        | Inl e \<Rightarrow> failE (io_error (tr_output_path tr) (show_errno e))) Q E) E t"
      if t: "same_nodes s t" and p: "p = tr_output tr @ butlast relative" for p t
    proof (rule wpE_looks)
      fix r u
      assume "same_nodes t u"
      then have u: "safe x unfinished u" "later (tx_manifest x) s u"
        using t assms(1) same_nodes_trans by (blast intro: safe_same later_same)+
      have "wpE (bindE (make_directory env (tr_output_path tr) p name) (\<lambda>n. retE (n, True))) Q E u"
        unfolding wpE_bind wpE_basic using u assms(2) rel
        by (intro wpE_make_directory[OF u(1)]) (auto simp: p intro: assms(3,4) later_trans)
      with u assms(3,4) show "wpE (case r of
          Inr n \<Rightarrow> retE (n, False)
        | Inl NotFound \<Rightarrow> bindE (make_directory env (tr_output_path tr) p name) (\<lambda>n. retE (n, True))
        | Inl e \<Rightarrow> failE (io_error (tr_output_path tr) (show_errno e))) Q E u"
        by (auto simp: wpE_basic split: sum.split errno.split)
    qed (auto intro: looking assms(3) safe_same[OF assms(1)] same_nodes_trans[OF t])
    show ?thesis
      unfolding materialize_directory_slot_def Cons Normal list.case path_component.case wpE_bind[where m = "open_relative_directory _ _ _"]
    proof (rule wpE_looks_returns[OF looks_root(4) open_relative_returns])
      show "wpE (bindE (liftE (prepare_component env (tr_output_path tr) name)) (\<lambda>_. bindE (open_dir_at (p @ [Normal name])) (\<lambda>r. case r of
          Inr n \<Rightarrow> retE (n, False)
        | Inl NotFound \<Rightarrow> bindE (make_directory env (tr_output_path tr) p name) (\<lambda>n. retE (n, True))
        | Inl e \<Rightarrow> failE (io_error (tr_output_path tr) (show_errno e))))) Q E t"
        if "same_nodes s t" "p = tr_output tr @ butlast relative" for p t
        using open'[OF that] safe_same[OF assms(1) that(1)] assms(3)
        by (auto simp: wpE_bind[where m = "liftE _"] wpE_bind[where m = "open_dir_at _"] wpE_basic split: sum.split)
    qed (use assms(1,3) in \<open>auto intro: safe_same\<close>)
  qed (use Cons assms(1,3) in \<open>simp_all add: materialize_directory_slot_def wp\<close>)
qed

lemma on_track_manifest:
  assumes "on_track x s0 m b" and "same_paths m m'" and "tm_phase m' \<noteq> Complete"
  shows "on_track x s0 m' (b\<lparr>pb_manifest := m'\<rparr>)"
  using assms by (auto simp: on_track_def intro: same_paths_trans)

lemma wpE_on_track_seq:
  assumes "wpE m Q' (\<lambda>_ b. safe x unfinished (pb_fs b)) b" and "\<And>r b'. Q' r b' \<Longrightarrow> wpE (k r) Q (\<lambda>_ b. safe x unfinished (pb_fs b)) b'"
  shows "wpE (bindE m k) Q (\<lambda>_ b. safe x unfinished (pb_fs b)) b"
  using assms by (rule wpE_seq)

lemma wpE_liftE_track:
  assumes "on_track x s0 m b" and "\<And>r. v = Inr r \<Longrightarrow> wpE (k r) Q (\<lambda>_ b. safe x unfinished (pb_fs b)) b"
  shows "wpE (bindE (liftE v) k) Q (\<lambda>_ b. safe x unfinished (pb_fs b)) b"
  using assms on_track_safe[OF assms(1)] by (auto simp: wpE_bind wpE_basic split: sum.split)

lemma wpE_materialize_parent:
  assumes t: "on_track x s0 m b" and tr: "tr_output tr = path_components out" and i: "index < length (directories_of m)"
    and mp: "path_file_name mpath = Some (tx_name x)"
  shows "wpE (materialize_parent (tx_env x) tr out (tx_parent x) mpath (tx_id x) index)
           (\<lambda>_ b'. \<exists>m'. on_track x s0 m' b' \<and> length (directories_of m') = length (directories_of m)) (\<lambda>_ b. safe x unfinished (pb_fs b)) b"
    (is "wpE _ ?Q ?E b")
proof -
  have m: "pb_manifest b = m" using t by (simp add: on_track_def)
  have created: "wpE (if created then bindE (onfs (report path (fstat n))) (\<lambda>n. bindE (own_directory index (in_identity n)) (\<lambda>_.
        persist_manifest_prepared (tx_env x) (tx_parent x) mpath (tx_id x))) else retE ()) ?Q ?E b'"
    if b': "on_track x s0 m b'" for b' n created path
  proof -
    have "wpE (bindE (own_directory index (in_identity n)) (\<lambda>_. persist_manifest_prepared (tx_env x) (tx_parent x) mpath (tx_id x))) ?Q ?E c"
      if c: "on_track x s0 m c" for c n
    proof -
      let ?m = "m\<lparr>tm_directory_slots := (tm_directory_slots m)[index := (tm_directory_slots m ! index)\<lparr>md_state := Some Owned, md_identity := Some (in_identity n)\<rparr>]\<rparr>"
      have "on_track x s0 ?m (c\<lparr>pb_manifest := ?m\<rparr>)"
        using c same_paths_updates(3) by (rule on_track_manifest) (use c in \<open>simp add: on_track_def\<close>)
      moreover have "length (directories_of ?m) = length (directories_of m)" by (simp add: directories_of_def)
      moreover have "pb_manifest c = m" using c by (simp add: on_track_def)
      ultimately show ?thesis
        unfolding wpE_bind own_directory_def set_manifest_def wpE_basic
        by (intro wpE_mono[OF wpE_persist_track[OF mp]]) auto
    qed
    then show ?thesis
      using b' by (auto simp: wpE_basic intro!: wpE_on_track_seq[OF wpE_look_track[OF _ b']] looking)
  qed
  have slot: "wpE (bindE (onfs (materialize_directory_slot (tx_env x) tr relative)) (\<lambda>(n, created).
        if created then bindE (onfs (report path (fstat n))) (\<lambda>n. bindE (own_directory index (in_identity n)) (\<lambda>_.
        persist_manifest_prepared (tx_env x) (tx_parent x) mpath (tx_id x))) else retE ())) ?Q ?E b"
    if "directory_path m (directories_of m ! index) = Inr path" and "path_strip_prefix path out = Some relative" for path relative
  proof -
    have "tr_output tr @ relative = path_components path" using strip_prefix_components[OF that(2)] by (simp add: tr)
    then have named: "tr_output tr @ relative \<in> manifest_names (tx_recorded x)"
      using manifest_names_directory[OF nth_mem[OF i] that(1)] on_track_names[OF t] by simp
    show ?thesis
      unfolding wpE_bind[where m = "onfs (materialize_directory_slot _ _ _)"] wpE_onfs[where m = "materialize_directory_slot _ _ _"]
    proof (rule wpE_materialize_directory_slot[OF on_track_safe[OF t] named])
      fix r :: "inode \<times> bool" and u
      assume "safe x unfinished u" "later (tx_manifest x) (pb_fs b) u"
      then have "on_track x s0 m (b\<lparr>pb_fs := u\<rparr>)" using t by (auto simp: on_track_def intro: later_trans)
      then show "wpE (case r of (n, created) \<Rightarrow> if created then bindE (onfs (report path (fstat n))) (\<lambda>n. bindE (own_directory index (in_identity n)) (\<lambda>_.
        persist_manifest_prepared (tx_env x) (tx_parent x) mpath (tx_id x))) else retE ()) ?Q ?E (b\<lparr>pb_fs := u\<rparr>)"
        by (cases r) (simp only: prod.case created)
    qed simp
  qed
  show ?thesis
    unfolding materialize_parent_def wpE_bind[where m = "getE _"] wpE_basic m
    by (rule wpE_liftE_track[OF t])+ (auto intro: slot simp: ok_or_def split: option.splits)
qed

lemma wpE_for_inv:
  assumes "\<And>a b. a \<in> set xs \<Longrightarrow> I b \<Longrightarrow> wpE (f a) (\<lambda>_. I) E b" and "I b"
  shows "wpE (forE f xs) (\<lambda>_. I) E b"
  using assms
proof (induction xs arbitrary: b)
  case (Cons a xs)
  have "wpE (f a) (\<lambda>_. I) E b" using Cons.prems by simp
  then show ?case unfolding forE.simps by (rule wpE_seq) (use Cons.IH Cons.prems(1) in simp)
qed (simp add: wp)

lemma wpE_materialize_file_set_parents:
  assumes t: "on_track x s0 m b" and tr: "tr_output tr = path_components out" and count: "tm_directory_count m = length (directories_of m)"
    and mp: "path_file_name mpath = Some (tx_name x)"
  shows "wpE (materialize_file_set_parents (tx_env x) tr out (tx_parent x) mpath (tx_id x))
           (\<lambda>_ b'. \<exists>m'. on_track x s0 m' b') (\<lambda>_ b. safe x unfinished (pb_fs b)) b"
  unfolding materialize_file_set_parents_def
proof (rule wpE_on_track_seq[OF wpE_look_track[OF looks_root(2) t]], rule wpE_on_track_seq[OF wpE_look_track[OF looks_root(3)]])
  fix r r' b' b''
  show "on_track x s0 m b' \<and> node_at (pb_fs b') = node_at (pb_fs b) \<Longrightarrow> on_track x s0 m b'" by simp
  assume "on_track x s0 m b'' \<and> node_at (pb_fs b'') = node_at (pb_fs b')"
  then have b: "on_track x s0 m b''" and m: "pb_manifest b'' = m" by (simp_all add: on_track_def)
  have "wpE (forE (materialize_parent (tx_env x) tr out (tx_parent x) mpath (tx_id x)) [0..<tm_directory_count m])
      (\<lambda>_ c. \<exists>m'. on_track x s0 m' c \<and> length (directories_of m') = length (directories_of m)) (\<lambda>_ b. safe x unfinished (pb_fs b)) b''"
  proof (rule wpE_for_inv)
    fix i c
    assume i: "i \<in> set [0..<tm_directory_count m]" and "\<exists>m'. on_track x s0 m' c \<and> length (directories_of m') = length (directories_of m)"
    then obtain m' where m': "on_track x s0 m' c" "length (directories_of m') = length (directories_of m)" by blast
    with i count have "i < length (directories_of m')" by simp
    from wpE_materialize_parent[OF m'(1) tr this mp]
    show "wpE (materialize_parent (tx_env x) tr out (tx_parent x) mpath (tx_id x) i)
        (\<lambda>_ c. \<exists>m'. on_track x s0 m' c \<and> length (directories_of m') = length (directories_of m)) (\<lambda>_ b. safe x unfinished (pb_fs b)) c"
      by (simp add: m'(2))
  qed (use b in blast)
  then show "wpE (bindE (getE (\<lambda>b. tm_directory_count (pb_manifest b))) (\<lambda>count. forE (materialize_parent (tx_env x) tr out (tx_parent x) mpath (tx_id x)) [0..<count]))
      (\<lambda>_ c. \<exists>m'. on_track x s0 m' c) (\<lambda>_ b. safe x unfinished (pb_fs b)) b''"
    by (auto simp: wpE_bind wpE_basic m elim!: wpE_mono)
qed

section \<open>Copying one file\<close>

text \<open>The partial file is there, new, and none of what the run found.\<close>

definition holding :: "txn \<Rightarrow> fs \<Rightarrow> transaction_manifest \<Rightarrow> fs_path \<Rightarrow> inode \<Rightarrow> publication \<Rightarrow> bool" where
  "holding x s0 m pp k b \<longleftrightarrow> on_track x s0 m b \<and> node_at (pb_fs b) pp = Some k \<and> in_kind k = RegularFile
     \<and> node_at s0 pp = None \<and> tx_start x pp = None \<and> pp \<noteq> tx_manifest x \<and> pp \<in> manifest_names (tx_recorded x)"

lemma on_track_artifact [simp]: "on_track x s0 m (b\<lparr>pb_current_artifact := a\<rparr>) = on_track x s0 m b"
  by (simp add: on_track_def)

lemma holding_artifact [simp]: "holding x s0 m pp k (b\<lparr>pb_current_artifact := a\<rparr>) = holding x s0 m pp k b"
  by (simp add: holding_def)

lemma holding_safe: "holding x s0 m pp k b \<Longrightarrow> safe x unfinished (pb_fs b)"
  by (simp add: holding_def on_track_def)

lemma holding_look:
  assumes "holding x s0 m pp k b" and "looks op"
  shows "wpE (onfs op) (\<lambda>_. holding x s0 m pp k) (\<lambda>_ b. safe x unfinished (pb_fs b)) b"
  using wpE_look_track[OF assms(2), of x s0 m b] assms(1) by (auto simp: holding_def elim!: wpE_mono)

lemma holding_write:
  assumes h: "holding x s0 m pp k b" and t: "node_at t = (node_at (pb_fs b))(pp \<mapsto> k')" "log_grows (pb_fs b) t" and k: "in_kind k' = in_kind k"
  shows "holding x s0 m pp k' (b\<lparr>pb_fs := t\<rparr>)"
proof -
  have tree: "tree (node_at (pb_fs b))" and pp: "node_at (pb_fs b) pp = Some k" and reg: "in_kind k = RegularFile"
    using h by (auto simp: holding_def on_track_def safe_def publishing_def)
  have ne: "pp \<noteq> []" using tree pp by (auto simp: tree_def)
  have "tree (node_at t)" unfolding t(1)
    using tree_directory[OF tree pp] pp reg ne by (intro tree_upd[OF tree]) auto
  moreover have inv: "publishing (tx_env x) (tx_start x) (tx_above x \<union> manifest_names (tx_recorded x)) (tx_manifest x) (tx_temp x) (recorded_as x) unfinished (pb_fs b)"
    using holding_safe[OF h] by (simp add: safe_def)
  moreover have new: "pp \<in> manifest_names (tx_recorded x)" "pp \<noteq> tx_manifest x" "tx_start x pp = None" "node_at s0 pp = None"
    and l: "later (tx_manifest x) s0 (pb_fs b)"
    using h by (simp_all add: holding_def on_track_def)
  ultimately have "safe x unfinished t"
    unfolding safe_def using t(1) by (intro publishing_change[OF inv, of "{pp}"]) auto
  moreover have "later (tx_manifest x) s0 t"
    using l new(4) t log_grows_trans[of s0 "pb_fs b" t] by (auto simp: later_def)
  ultimately show ?thesis using h k reg t(1) by (simp add: holding_def on_track_def)
qed

lemma holding_manifest:
  assumes "holding x s0 m pp k b" and "same_paths m m'" and "tm_phase m' \<noteq> Complete"
  shows "holding x s0 m' pp k (b\<lparr>pb_manifest := m'\<rparr>)"
  using assms on_track_manifest[OF _ assms(2,3)] by (simp add: holding_def)

lemma holding_persist:
  assumes "holding x s0 m pp k b" and "path_file_name mpath = Some (tx_name x)"
  shows "wpE (persist_manifest_prepared (tx_env x) (tx_parent x) mpath (tx_id x)) (\<lambda>_. holding x s0 m pp k) (\<lambda>_ b. safe x unfinished (pb_fs b)) b"
  by (rule wpE_mono[OF wpE_persist_track[OF assms(2)]]) (use assms(1) in \<open>auto simp: holding_def later_def\<close>)

lemma wpE_open_regular_file_at:
  assumes "\<And>e t. same_nodes s t \<Longrightarrow> E e t"
    and "\<And>n t. same_nodes s t \<Longrightarrow> node_at s (p @ [Normal name]) = Some n \<Longrightarrow> in_kind n = RegularFile \<Longrightarrow> Q n t"
  shows "wpE (open_regular_file_at p name path) Q E s"
proof -
  have rest: "wpE (bindE (report path (fstat n)) (\<lambda>n. bindE (ensureE (in_kind n = RegularFile)
      (ExportInvariant ''prepared publication file is not a regular file'')) (\<lambda>_. retE n))) Q E t"
    if t: "same_nodes s t" and n: "node_at s (p @ [Normal name]) = Some n" for n t
    unfolding wpE_bind wpE_basic
    by (rule wpE_report_fstat) (use n assms same_nodes_trans[OF t] in auto)
  show ?thesis
    unfolding open_regular_file_at_def wpE_bind[where m = "report path (open_nofollow_at _)"] wpE_report[where m = "open_nofollow_at _"]
    by (rule wpE_open_nofollow_at) (auto intro: rest assms(1) split: sum.split)
qed

lemma wpE_create_partial:
  assumes t: "on_track x s0 m b" and s0: "node_at (pb_fs b) = node_at s0" and pp: "pp = p @ [Normal name]" "pp \<in> manifest_names (tx_recorded x)"
  shows "wpE (onfs (create_new_file_at env p name path)) (\<lambda>n b'. holding x s0 m pp n b' \<and> in_data n = []) (\<lambda>_ b. safe x unfinished (pb_fs b)) b"
  unfolding create_new_file_at_def wpE_onfs wpE_report pp(1)[symmetric]
proof (rule wpE_create_at)
  show "case Inl e of Inl e \<Rightarrow> safe x unfinished (pb_fs (b\<lparr>pb_fs := u\<rparr>)) | Inr n \<Rightarrow> holding x s0 m pp n (b\<lparr>pb_fs := u\<rparr>) \<and> in_data n = []"
    if "same_nodes (pb_fs b) u" for u e using on_track_look(2)[OF t that] by simp
  fix u n
  assume new: "node_at (pb_fs b) pp = None" and u: "node_at u = (node_at (pb_fs b))(pp \<mapsto> n)" "log_grows (pb_fs b) u"
    and n: "in_kind n = RegularFile" "in_data n = []" and d: "\<exists>d. node_at (pb_fs b) (butlast pp) = Some d \<and> in_kind d = Directory"
  have inv: "publishing (tx_env x) (tx_start x) (tx_above x \<union> manifest_names (tx_recorded x)) (tx_manifest x) (tx_temp x) (recorded_as x) unfinished (pb_fs b)"
    using on_track_safe[OF t] by (simp add: safe_def)
  have "pp \<noteq> []" by (simp add: pp(1))
  from publishing_create[OF inv new u d UnI2[OF pp(2)] this] publishing_new[OF inv new]
  show "case Inr n of Inl e \<Rightarrow> safe x unfinished (pb_fs (b\<lparr>pb_fs := u\<rparr>)) | Inr n \<Rightarrow> holding x s0 m pp n (b\<lparr>pb_fs := u\<rparr>) \<and> in_data n = []"
    using t new u(1) n s0 pp(2) later_trans[of "tx_manifest x" s0 "pb_fs b" u] by (simp add: holding_def on_track_def safe_def)
qed

lemma wpE_copy_entry:
  assumes t: "on_track x s0 m b" and s0: "node_at (pb_fs b) = node_at s0" and pp: "pp = p @ [Normal partial_name]" "pp \<in> manifest_names (tx_recorded x)"
    and staged: "path_file_name staged = Some staged_name" "tx_start x (tx_parent x @ [Normal staged_name]) = Some src"
    and mp: "path_file_name mpath = Some (tx_name x)"
  shows "wpE (copy_entry (tx_env x) (tx_parent x) mpath (tx_id x) p partial_path partial_name index staged)
           (\<lambda>_ b'. \<exists>m' k. holding x s0 m' pp k b' \<and> in_data k = in_data src) (\<lambda>_ b. safe x unfinished (pb_fs b)) b" (is "wpE _ ?Q ?E b")
proof -
  have recorded: "wpE (bindE (set_entry index (\<lambda>e. e\<lparr>me_partial_identity := Some i\<rparr>)) (\<lambda>_.
      bindE (persist_manifest_prepared (tx_env x) (tx_parent x) mpath (tx_id x)) (\<lambda>_. bindE clear_artifact (\<lambda>_. retE j)))) ?Q ?E c"
    if h: "holding x s0 m pp k c" "in_data k = in_data src" for c k i j
  proof -
    let ?m = "m\<lparr>tm_slots := (tm_slots m)[index := (tm_slots m ! index)\<lparr>me_partial_identity := Some i\<rparr>]\<rparr>"
    have "same_paths m ?m" by (rule same_paths_updates(2)) simp
    then have "holding x s0 ?m pp k (c\<lparr>pb_manifest := ?m\<rparr>)"
      using h(1) by (intro holding_manifest) (auto simp: holding_def on_track_def)
    moreover have "pb_manifest c = m" using h(1) by (simp add: holding_def on_track_def)
    ultimately show ?thesis
      unfolding set_entry_def set_manifest_def clear_artifact_def wpE_bind wpE_basic
      by (intro wpE_mono[OF holding_persist[OF _ mp]]) (use h(2) in auto)
  qed
  have written: "wpE (bindE (onfs (write_all partial_path pp (in_data src))) (\<lambda>_. bindE (onfs (report partial_path (fsync_at pp))) (\<lambda>_.
      bindE (set_entry index (\<lambda>e. e\<lparr>me_partial_identity := Some i\<rparr>)) (\<lambda>_.
      bindE (persist_manifest_prepared (tx_env x) (tx_parent x) mpath (tx_id x)) (\<lambda>_. bindE clear_artifact (\<lambda>_. retE j)))))) ?Q ?E c"
    if h: "holding x s0 m pp k c" "in_data k = []" for c k i j
    unfolding wpE_bind[where m = "onfs (write_all _ _ _)"] wpE_onfs[where m = "write_all _ _ _"]
  proof (rule wpE_write_all)
    show "node_at (pb_fs c) pp = Some k" using h(1) by (simp add: holding_def)
    show "safe x unfinished (pb_fs (c\<lparr>pb_fs := t\<rparr>))"
      if "node_at t = (node_at (pb_fs c))(pp \<mapsto> n')" "in_kind n' = in_kind k" "log_grows (pb_fs c) t" for t n'
      using holding_safe[OF holding_write[OF h(1) that(1,3,2)]] by simp
    fix t
    assume "node_at t = (node_at (pb_fs c))(pp \<mapsto> k\<lparr>in_data := in_data k @ in_data src\<rparr>)" "log_grows (pb_fs c) t"
    from holding_write[OF h(1) this] h(2)
    show "wpE (bindE (onfs (report partial_path (fsync_at pp))) (\<lambda>_. bindE (set_entry index (\<lambda>e. e\<lparr>me_partial_identity := Some i\<rparr>)) (\<lambda>_.
      bindE (persist_manifest_prepared (tx_env x) (tx_parent x) mpath (tx_id x)) (\<lambda>_. bindE clear_artifact (\<lambda>_. retE j))))) ?Q ?E (c\<lparr>pb_fs := t\<rparr>)"
      by (intro wpE_on_track_seq[OF holding_look]) (auto intro!: looking recorded)
  qed
  have created: "wpE (bindE (onfs (report partial_path (fstat n))) (\<lambda>n.
      bindE (getE (\<lambda>b. me_partial_path (entries_of (pb_manifest b) ! index))) (\<lambda>r. bindE (set_artifact r (in_identity n) False) (\<lambda>_.
      bindE (onfs (write_all partial_path pp (in_data src))) (\<lambda>_. bindE (onfs (report partial_path (fsync_at pp))) (\<lambda>_.
      bindE (set_entry index (\<lambda>e. e\<lparr>me_partial_identity := Some (in_identity n)\<rparr>)) (\<lambda>_.
      bindE (persist_manifest_prepared (tx_env x) (tx_parent x) mpath (tx_id x)) (\<lambda>_. bindE clear_artifact (\<lambda>_. retE (in_identity n)))))))))) ?Q ?E c"
    if h: "holding x s0 m pp n c" "in_data n = []" for c n
  proof -
    have "wpE (onfs (report partial_path (fstat n))) (\<lambda>k c. k = n \<and> holding x s0 m pp n c) ?E c"
      unfolding wpE_onfs by (rule wpE_report_fstat)
        (use h(1) on_track_look[of x s0 m c] in \<open>auto simp: holding_def same_nodes_def\<close>)
    then show ?thesis
      by (rule wpE_on_track_seq) (auto simp: wpE_bind[where m = "getE _"] wpE_bind[where m = "modE _"] set_artifact_def wpE_basic
          intro!: written h(2))
  qed
  have source: "wpE (onfs (open_regular_file_at (tx_parent x) staged_name staged))
      (\<lambda>n c. n = src \<and> on_track x s0 m c \<and> node_at (pb_fs c) = node_at s0) ?E b"
    unfolding wpE_onfs
  proof (rule wpE_open_regular_file_at)
    fix n u
    assume u: "same_nodes (pb_fs b) u" and n: "node_at (pb_fs b) (tx_parent x @ [Normal staged_name]) = Some n"
    have "tx_start x \<subseteq>\<^sub>m node_at (pb_fs b)" using on_track_safe[OF t] by (simp add: safe_def publishing_def)
    with staged(2) n have "n = src" by (metis domI map_le_def option.inject)
    with on_track_look(1)[OF t u] s0 show "n = src \<and> on_track x s0 m (b\<lparr>pb_fs := u\<rparr>) \<and> node_at (pb_fs (b\<lparr>pb_fs := u\<rparr>)) = node_at s0" by simp
  qed (use on_track_look(2)[OF t] in simp)
  have start: "wpE (bindE (liftE (prepare_component (tx_env x) partial_path partial_name)) (\<lambda>_.
      bindE (onfs (create_new_file_at (tx_env x) p partial_name partial_path)) k)) ?Q ?E c"
    if c: "on_track x s0 m c" "node_at (pb_fs c) = node_at s0" and k: "\<And>n c. holding x s0 m pp n c \<Longrightarrow> in_data n = [] \<Longrightarrow> wpE (k n) ?Q ?E c" for c k
    by (rule wpE_liftE_track[OF c(1)], rule wpE_on_track_seq[OF wpE_create_partial[OF c pp]]) (use k in blast)
  show ?thesis
    unfolding copy_entry_def staged(1) pp(1)[symmetric]
    by (rule wpE_liftE_track[OF t], simp, rule wpE_liftE_track[OF t], rule wpE_on_track_seq[OF source])
      (auto intro!: start created)
qed

section \<open>Renaming and publishing one file\<close>

definition renamed_after :: "nat \<Rightarrow> fs \<Rightarrow> fs_path \<Rightarrow> bool" where
  "renamed_after n s p \<longleftrightarrow> (\<exists>old. Renamed old p \<in> set (drop n (fs_log s)))"

lemma renamed_later: "renamed_after n s p \<Longrightarrow> later mp s t \<Longrightarrow> renamed_after n t p"
  by (auto simp: renamed_after_def later_def log_grows_def)

lemma renamed_earlier:
  assumes "renamed_after (length (fs_log t)) u p" and "later mp s t"
  shows "renamed_after (length (fs_log s)) u p"
proof -
  have "length (fs_log s) \<le> length (fs_log t)" using assms(2) by (auto simp: later_def log_grows_def)
  from set_drop_subset_set_drop[OF this, of "fs_log u"] assms(1) show ?thesis by (auto simp: renamed_after_def)
qed

lemma wpE_rename_partial:
  assumes h: "holding x s0 m (p @ [Normal a]) k b" and ne: "a \<noteq> a'" and fp: "p @ [Normal a'] \<in> manifest_names (tx_recorded x)"
  shows "wpE (onfs (rename_no_replace_at p a a' path))
           (\<lambda>_ b'. on_track x s0 m b' \<and> node_at (pb_fs b') (p @ [Normal a']) = Some k \<and> p @ [Normal a'] \<noteq> tx_manifest x
              \<and> renamed_after (length (fs_log s0)) (pb_fs b') (p @ [Normal a']))
           (\<lambda>_ b. safe x unfinished (pb_fs b)) b"
proof -
  define pp fp s where "pp = p @ [Normal a]" and "fp = p @ [Normal a']" and "s = pb_fs b"
  have inv: "publishing (tx_env x) (tx_start x) (tx_above x \<union> manifest_names (tx_recorded x)) (tx_manifest x) (tx_temp x) (recorded_as x) unfinished s"
    using holding_safe[OF h] by (simp add: safe_def s_def)
  then have tree: "tree (node_at s)" by (simp add: publishing_def)
  have k: "node_at s pp = Some k" "in_kind k = RegularFile" and pp: "pp \<noteq> tx_manifest x" "pp \<in> manifest_names (tx_recorded x)" "tx_start x pp = None" "node_at s0 pp = None"
    and l: "later (tx_manifest x) s0 s"
    using h by (simp_all add: holding_def on_track_def pp_def s_def)
  have leaf: "is_file (node_at s pp)" using k by (simp add: is_file_def)
  have moved: "on_track x s0 m (b\<lparr>pb_fs := t\<rparr>) \<and> node_at t fp = Some k \<and> fp \<noteq> tx_manifest x \<and> renamed_after (length (fs_log s0)) t fp"
    if new: "node_at s fp = None" and t: "node_at t = (node_at s)(pp := None, fp := node_at s pp)" "log_grows s t"
      "fs_log t = fs_log s @ [Renamed pp fp]" for t
  proof -
    note f = publishing_new[OF inv new]
    have d: "1 < length fp \<longrightarrow> (\<exists>d. node_at s (butlast fp) = Some d \<and> in_kind d = Directory)"
      using tree_directory[OF tree k(1)] by (auto simp: pp_def fp_def)
    have "pp \<noteq> butlast fp" by (auto simp: pp_def fp_def dest: arg_cong[where f = length])
    then have "tree ((node_at s)(pp := None, fp \<mapsto> k))"
      using d leaf new by (intro tree_upd tree_remove[OF tree]) (auto simp: fp_def is_file_def)
    then have "tree (node_at t)" by (simp add: t(1) k(1))
    then have "safe x unfinished t"
      unfolding safe_def using t(1) f pp fp by (intro publishing_change[OF inv, of "{pp, fp}"]) (auto simp: fp_def)
    moreover have "later (tx_manifest x) s0 t"
      using l t new pp(4) log_grows_trans[of s0 s t] by (auto simp: later_def)
    moreover have "renamed_after (length (fs_log s0)) t fp"
      using l t(3) by (auto simp: renamed_after_def later_def log_grows_def)
    ultimately show ?thesis using h f t(1) k by (simp add: holding_def on_track_def s_def)
  qed
  have "pp \<noteq> fp" using ne by (simp add: pp_def fp_def)
  then show ?thesis
    unfolding rename_no_replace_at_def wpE_onfs wpE_report pp_def[symmetric] fp_def[symmetric]
    using moved safe_same[OF holding_safe[OF h]]
    by (intro wpE_rename_noreplace) (use tree leaf in \<open>auto simp: s_def pp_def\<close>)
qed

lemma root_component: "path_components s = RootDir # r \<Longrightarrow> starts_slash s"
  by (auto simp: path_components_def Let_def component_of_def split: if_splits)

lemma partial_path_components:
  assumes "partial_path_for env q name i = Inr pp" and "starts_slash q" and "CHR ''/'' \<notin> set name" and "CHR ''/'' \<notin> set i"
  shows "path_components pp = path_components q @ [Normal (''.'' @ name @ ''.'' @ i @ ''.partial'')]"
proof -
  let ?n = "''.'' @ name @ ''.'' @ i @ ''.partial''"
  have "pp = path_join q ?n"
    using assms(1,2) by (auto simp: partial_path_for_def set_path_def push_bytes_def push_separator_def bindR_Inr_iff path_join_def
        starts_slash_def split: if_splits list.splits)
  moreover have "split_on (CHR ''/'') ?n = [?n]" using assms(3,4) by (intro split_on_single) auto
  moreover have "plain_piece ?n" by (simp add: plain_piece_def)
  moreover have "\<not> starts_slash ?n" by (simp add: starts_slash_def)
  ultimately show ?thesis using path_components_join(1)[OF assms(2), of ?n] by simp
qed

definition plan_recorded :: "publish_env \<Rightarrow> (string \<times> string) list \<Rightarrow> string \<Rightarrow> transaction_manifest \<Rightarrow> bool" where
  "plan_recorded env planned i m \<longleftrightarrow> length (entries_of m) = length planned \<and>
     (\<forall>k < length planned. manifest_path m (me_final_path (entries_of m ! k)) = snd (planned ! k)
        \<and> (\<exists>q name. path_parent (snd (planned ! k)) = Some q \<and> path_file_name (snd (planned ! k)) = Some name
             \<and> partial_path_for env q name i = Inr (manifest_path m (me_partial_path (entries_of m ! k)))))"

lemma plan_recorded_same: "plan_recorded env planned i m \<Longrightarrow> same_paths m m' \<Longrightarrow> plan_recorded env planned i m'"
  unfolding plan_recorded_def using same_paths_entry[of m m'] by auto

text \<open>Where the directory of a final path leads, its partial and its final name are found.\<close>

lemma recorded_paths:
  assumes r: "plan_recorded env planned i m" and k: "k < length planned" "planned ! k = (staged, final)" and abs: "starts_slash final"
    and rel: "relative_parent out final = Inr relative" and i: "CHR ''/'' \<notin> set i" and out: "is_absolute out"
    and pn: "path_file_name (manifest_path m (me_partial_path (entries_of m ! k))) = Some pn" and fn: "path_file_name final = Some fn"
  shows "path_components out @ relative @ [Normal pn] = path_components (manifest_path m (me_partial_path (entries_of m ! k)))"
    and "path_components out @ relative @ [Normal fn] = path_components final" and "pn \<noteq> fn"
proof -
  obtain q where q: "path_parent final = Some q" and name: "partial_path_for env q fn i = Inr (manifest_path m (me_partial_path (entries_of m ! k)))"
    using r k fn by (auto simp: plan_recorded_def)
  have "path_strip_prefix q out = Some relative" using rel q by (auto simp: relative_parent_def bindR_Inr_iff ok_or_def split: option.splits)
  then have comp: "path_components q = path_components out @ relative" by (rule strip_prefix_components)
  note parent = path_parent_components[OF abs q]
  then obtain z where z: "path_components final = path_components q @ [component_of z]" by blast
  have "path_components final = butlast (path_components final) @ [Normal fn]" by (rule path_file_name_plain(3)[OF fn])
  with z show f: "path_components out @ relative @ [Normal fn] = path_components final" by (simp add: comp)
  have p: "path_components (manifest_path m (me_partial_path (entries_of m ! k))) = path_components q @ [Normal (''.'' @ fn @ ''.'' @ i @ ''.partial'')]"
    by (rule partial_path_components[OF name parent(1) path_file_name_plain(2)[OF fn] i])
  with pn have pn': "pn = ''.'' @ fn @ ''.'' @ i @ ''.partial''" by (simp add: path_file_name_def)
  with p show "path_components out @ relative @ [Normal pn] = path_components (manifest_path m (me_partial_path (entries_of m ! k)))"
    by (simp add: comp)
  have "length pn \<noteq> length fn" by (simp add: pn')
  then show "pn \<noteq> fn" by blast
qed

text \<open>The file is there with its bytes, put there by a rename after the first \<open>n\<close> events.\<close>

definition placed_at :: "nat \<Rightarrow> fs_path \<Rightarrow> fs \<Rightarrow> string \<times> fs_path \<Rightarrow> bool" where
  "placed_at n mp s = (\<lambda>(data, p). p \<noteq> mp \<and> (\<exists>k. node_at s p = Some k \<and> in_kind k = RegularFile \<and> in_data k = data)
     \<and> renamed_after n s p)"

lemma placed_later: "placed_at n mp s e \<Longrightarrow> later mp s t \<Longrightarrow> placed_at n mp t e"
  using renamed_later by (auto simp: placed_at_def later_def)

lemma placed_earlier: "placed_at (length (fs_log t)) mp u e \<Longrightarrow> later mp s t \<Longrightarrow> placed_at (length (fs_log s)) mp u e"
  using renamed_earlier by (auto simp: placed_at_def)

lemma wpE_record_final:
  assumes t: "on_track x s0 m b" and placed: "placed_at n (tx_manifest x) (pb_fs b) e" and mp: "path_file_name mpath = Some (tx_name x)"
  shows "wpE (bindE (getE (\<lambda>b. me_final_path (entries_of (pb_manifest b) ! index))) (\<lambda>r.
     bindE (set_artifact r identity True) (\<lambda>_.
     bindE (set_entry index (\<lambda>e. e\<lparr>me_final_identity := Some identity, me_partial_identity := None\<rparr>)) (\<lambda>_.
     bindE (persist_manifest_prepared (tx_env x) (tx_parent x) mpath (tx_id x)) (\<lambda>_. clear_artifact)))))
     (\<lambda>_ b'. (\<exists>m'. on_track x s0 m' b') \<and> placed_at n (tx_manifest x) (pb_fs b') e) (\<lambda>_ b. safe x unfinished (pb_fs b)) b"
proof -
  let ?m = "m\<lparr>tm_slots := (tm_slots m)[index := (tm_slots m ! index)\<lparr>me_final_identity := Some identity, me_partial_identity := None\<rparr>]\<rparr>"
  have m: "pb_manifest b = m" using t by (simp add: on_track_def)
  have "same_paths m ?m" by (rule same_paths_updates(2)) simp
  then have "on_track x s0 ?m (b\<lparr>pb_manifest := ?m\<rparr>)" using t by (intro on_track_manifest[OF t]) (auto simp: on_track_def)
  then have "on_track x s0 ?m (b\<lparr>pb_current_artifact := a, pb_manifest := ?m\<rparr>)" for a by (simp add: on_track_def)
  note kept = wpE_mono[OF wpE_persist_track[OF mp this]]
  show ?thesis
    unfolding wpE_bind wpE_basic set_artifact_def set_entry_def set_manifest_def clear_artifact_def
    by (simp add: m) (rule kept, use placed in \<open>auto intro: placed_later\<close>)
qed

lemma wpE_getE_is: "f b = v \<Longrightarrow> wpE (k v) Q E b \<Longrightarrow> wpE (bindE (getE f) k) Q E b"
  by (simp add: wpE_bind wpE_basic)

lemma set_path_same: "set_path env p = Inr q \<Longrightarrow> q = p"
  by (auto simp: set_path_def push_bytes_def bindR_Inr_iff split: if_splits)

lemma wpE_publish_entry:
  assumes t: "on_track x s0 m b" and r: "plan_recorded (tx_env x) planned (tx_id x) (tx_recorded x)"
    and k: "k < length planned" "planned ! k = (staged, final)" and abs: "starts_slash final"
    and tr: "tr_output tr = path_components out" and out: "is_absolute out" and i: "CHR ''/'' \<notin> set (tx_id x)"
    and staged: "path_file_name staged = Some staged_name" "tx_start x (tx_parent x @ [Normal staged_name]) = Some src"
    and mp: "path_file_name mpath = Some (tx_name x)"
  shows "wpE (publish_entry (tx_env x) tr out (tx_parent x) mpath (tx_id x) (k, staged, final))
           (\<lambda>_ b'. (\<exists>m'. on_track x s0 m' b') \<and> placed_at (length (fs_log s0)) (tx_manifest x) (pb_fs b') (in_data src, path_components final))
           (\<lambda>_ b. safe x unfinished (pb_fs b)) b" (is "wpE _ ?Q ?E b")
proof -
  let ?m = "m\<lparr>tm_phase := Publishing k\<rparr>"
  have t1: "on_track x s0 ?m (b\<lparr>pb_manifest := ?m\<rparr>)" using t by (rule on_track_manifest) (simp_all add: same_paths_updates)
  have m: "pb_manifest b = m" using t by (simp add: on_track_def)
  have same: "same_paths (tx_recorded x) ?m" using t1 by (simp add: on_track_def)
  have r': "plan_recorded (tx_env x) planned (tx_id x) ?m" by (rule plan_recorded_same[OF r same])
  define recd where "recd = manifest_path ?m (me_partial_path (entries_of ?m ! k))"
  have k': "k < length (entries_of ?m)" using r' k(1) by (simp add: plan_recorded_def)
  have names: "path_components recd \<in> manifest_names (tx_recorded x)" "path_components final \<in> manifest_names (tx_recorded x)"
    using manifest_names_entry[OF k'] on_track_names[OF t1] r' k by (simp_all add: recd_def plan_recorded_def)
  have renamed: "wpE (bindE (onfs (trusted_root_verify (tx_env x) tr)) (\<lambda>_.
     bindE (liftE (prepare_component (tx_env x) final pn)) (\<lambda>_. bindE (liftE (prepare_component (tx_env x) final fn)) (\<lambda>_.
     bindE (onfs (rename_no_replace_at p pn fn final)) (\<lambda>_.
     bindE (getE (\<lambda>b. me_final_path (entries_of (pb_manifest b) ! k))) (\<lambda>r.
     bindE (set_artifact r identity True) (\<lambda>_.
     bindE (set_entry k (\<lambda>e. e\<lparr>me_final_identity := Some identity, me_partial_identity := None\<rparr>)) (\<lambda>_.
     bindE (persist_manifest_prepared (tx_env x) (tx_parent x) mpath (tx_id x)) (\<lambda>_. clear_artifact)))))))))
     ?Q ?E d"
    if c: "on_track x s0 ?m c" and h: "holding x (pb_fs c) m' (p @ [Normal pn]) n d" "in_data n = in_data src" and ne: "pn \<noteq> fn"
      and fp: "p @ [Normal fn] = path_components final" for c d m' n p pn fn identity
  proof -
    have whole: "on_track x s0 m'' e" if "on_track x (pb_fs c) m'' e" for m'' e
      using that c later_trans[of "tx_manifest x" s0 "pb_fs c" "pb_fs e"] by (simp add: on_track_def)
    have reg: "in_kind n = RegularFile" using h(1) by (simp add: holding_def)
    have lift: "wpE (bindE (liftE v) K) ?Q ?E e" if "holding x (pb_fs c) m' (p @ [Normal pn]) n e"
        "\<And>r. wpE (K r) ?Q ?E e" for v :: "unit result" and K e
      using that holding_safe[OF that(1)] by (auto simp: wpE_bind wpE_basic split: sum.split)
    show ?thesis
    proof (rule wpE_on_track_seq[OF holding_look[OF h(1) looks_root(2)]], rule lift, assumption, rule lift, assumption,
        rule wpE_on_track_seq[OF wpE_rename_partial[where k = n, OF _ ne]])
      show "p @ [Normal fn] \<in> manifest_names (tx_recorded x)" using names(2) fp by simp
      fix r e
      assume r: "on_track x (pb_fs c) m' e \<and> node_at (pb_fs e) (p @ [Normal fn]) = Some n \<and> p @ [Normal fn] \<noteq> tx_manifest x
        \<and> renamed_after (length (fs_log (pb_fs c))) (pb_fs e) (p @ [Normal fn])"
      have "later (tx_manifest x) s0 (pb_fs c)" using c by (simp add: on_track_def)
      with r have e: "on_track x s0 m' e" and "placed_at (length (fs_log s0)) (tx_manifest x) (pb_fs e) (in_data src, path_components final)"
        using whole h(2) reg fp renamed_earlier by (auto simp: placed_at_def)
      then show "wpE (bindE (getE (\<lambda>b. me_final_path (entries_of (pb_manifest b) ! k))) (\<lambda>r.
         bindE (set_artifact r identity True) (\<lambda>_.
         bindE (set_entry k (\<lambda>e. e\<lparr>me_final_identity := Some identity, me_partial_identity := None\<rparr>)) (\<lambda>_.
         bindE (persist_manifest_prepared (tx_env x) (tx_parent x) mpath (tx_id x)) (\<lambda>_. clear_artifact))))) ?Q ?E e"
        by (rule wpE_record_final[OF _ _ mp])
    qed
  qed
  have copied: "wpE (bindE (copy_entry (tx_env x) (tx_parent x) mpath (tx_id x) p recd pn k staged) K) ?Q ?E c"
    if c: "on_track x s0 ?m c" and p: "p = path_components out @ relative" and rel: "relative_parent out final = Inr relative"
      and pn: "path_file_name recd = Some pn" and fn: "path_file_name final = Some fn"
      and K: "\<And>identity d m' n. holding x (pb_fs c) m' (p @ [Normal pn]) n d \<Longrightarrow> in_data n = in_data src \<Longrightarrow> pn \<noteq> fn
        \<Longrightarrow> p @ [Normal fn] = path_components final \<Longrightarrow> wpE (K identity) ?Q ?E d" for c p relative pn fn K
  proof -
    note names' = recorded_paths[OF r' k abs rel i out pn[unfolded recd_def] fn]
    have "p @ [Normal pn] \<in> manifest_names (tx_recorded x)" using names(1) names'(1) by (simp add: p recd_def)
    from wpE_copy_entry[OF on_track_restart[OF c] refl refl this staged mp]
    show ?thesis by (rule wpE_on_track_seq) (use K names'(2,3) in \<open>auto simp: p\<close>)
  qed
  have persisted: "wpE (bindE (persist_manifest_prepared (tx_env x) (tx_parent x) mpath (tx_id x)) K) ?Q ?E (b\<lparr>pb_manifest := ?m\<rparr>)"
    if "\<And>c r. on_track x s0 ?m c \<Longrightarrow> wpE (K r) ?Q ?E c" for K
    by (rule wpE_on_track_seq[OF wpE_persist_track[OF mp t1]]) (use that in blast)
  show ?thesis
    unfolding publish_entry_def prod.case set_manifest_def wpE_bind[where m = "modE _"] wpE_basic m
    apply (rule persisted)
    apply (rule wpE_getE_is[where v = recd], simp add: on_track_def recd_def)
    apply (rule wpE_liftE_track, assumption, drule set_path_same, hypsubst)
    apply (rule wpE_liftE_track, assumption)
    apply (rule wpE_on_track_seq[OF wpE_look_track[OF looks_root(2)]], assumption, elim conjE)
    apply (rule wpE_on_track_seq[OF wpE_look_returns_track[OF looks_root(4) open_relative_returns]], assumption, elim conjE)
    apply (rule wpE_liftE_track, assumption)
    apply (rule wpE_liftE_track, assumption)
    apply (rule copied, assumption, simp add: tr, assumption, simp, simp)
    apply (rule renamed[rotated], assumption+)
    done
qed

end
