(* ===== verification/Publication_Complete.thy ===== *)
theory Publication_Complete
  imports Publication_Copy
begin

text \<open>
  A file-set publication from its first manifest to its last: the manifest may say
  \<open>Complete\<close> only when every final file holds the bytes of its staged file and has been
  synchronized.
\<close>

section \<open>What a complete publication has delivered\<close>

definition expected :: "txn \<Rightarrow> string \<times> string \<Rightarrow> string \<times> fs_path" where
  "expected x pf = (in_data (the (tx_start x (tx_parent x @ [Normal (the (path_file_name (fst pf)))]))), path_components (snd pf))"

definition staged_files :: "txn \<Rightarrow> (string \<times> string) list \<Rightarrow> bool" where
  "staged_files x planned \<longleftrightarrow>
     (\<forall>pf \<in> set planned. \<exists>name src. path_file_name (fst pf) = Some name \<and> tx_start x (tx_parent x @ [Normal name]) = Some src)"

definition synced_after :: "nat \<Rightarrow> fs \<Rightarrow> fs_path \<Rightarrow> bool" where
  "synced_after n s p \<longleftrightarrow> Synced p \<in> set (drop n (fs_log s))"

text \<open>The rename that put the file at \<open>p\<close>, and after it a sync of the file and of its directory.\<close>

definition settled :: "nat \<Rightarrow> fs \<Rightarrow> fs_path \<Rightarrow> bool" where
  "settled n s p \<longleftrightarrow> (\<exists>before old after. drop n (fs_log s) = before @ Renamed old p # after
     \<and> Synced p \<in> set after \<and> Synced (butlast p) \<in> set after)"

definition delivered :: "txn \<Rightarrow> nat \<Rightarrow> (string \<times> string) list \<Rightarrow> fs \<Rightarrow> bool" where
  "delivered x n planned s \<longleftrightarrow>
     (\<forall>pf \<in> set planned. placed_at n (tx_manifest x) s (expected x pf) \<and> settled n s (path_components (snd pf)))"

lemma synced_later: "synced_after n s p \<Longrightarrow> later mp s t \<Longrightarrow> synced_after n t p"
  by (auto simp: synced_after_def later_def log_grows_def)

lemma synced_earlier: "Synced p \<in> set (drop (length (fs_log t)) (fs_log u)) \<Longrightarrow> n \<le> length (fs_log t) \<Longrightarrow> synced_after n u p"
  unfolding synced_after_def by (rule subsetD[OF set_drop_subset_set_drop])

lemma later_log: "later mp s t \<Longrightarrow> length (fs_log s) \<le> length (fs_log t)"
  by (auto simp: later_def log_grows_def)

lemma settled_later:
  assumes "settled n s p" and "later mp s t"
  shows "settled n t p"
proof -
  obtain before old after l where l: "drop n (fs_log s) = before @ Renamed old p # after" "Synced p \<in> set after" "Synced (butlast p) \<in> set after"
    and t: "fs_log t = fs_log s @ l"
    using assms by (auto simp: settled_def later_def log_grows_def)
  have "n \<le> length (fs_log s)" using arg_cong[OF l(1), of length] by simp
  with l t have "drop n (fs_log t) = before @ Renamed old p # (after @ l)" by simp
  with l(2,3) show ?thesis unfolding settled_def by (metis Un_iff set_append)
qed

lemma settledI:
  assumes "renamed_after n s p" and "log_grows s t"
    and "synced_after (length (fs_log s)) t p" and "synced_after (length (fs_log s)) t (butlast p)"
  shows "settled n t p"
proof -
  obtain l where t: "fs_log t = fs_log s @ l" using assms(2) by (auto simp: log_grows_def)
  obtain old where old: "Renamed old p \<in> set (drop n (fs_log s))" using assms(1) by (auto simp: renamed_after_def)
  then obtain xs ys where xs: "drop n (fs_log s) = xs @ Renamed old p # ys" by (meson split_list)
  have "n \<le> length (fs_log s)" using arg_cong[OF xs, of length] by simp
  with xs t have "drop n (fs_log t) = xs @ Renamed old p # (ys @ l)" by simp
  moreover have "Synced p \<in> set l" "Synced (butlast p) \<in> set l" using assms(3,4) by (simp_all add: synced_after_def t)
  ultimately show ?thesis unfolding settled_def by (metis Un_iff set_append)
qed

lemma delivered_later: "delivered x n planned s \<Longrightarrow> later (tx_manifest x) s t \<Longrightarrow> delivered x n planned t"
  unfolding delivered_def using placed_later settled_later by blast

section \<open>Loops\<close>

lemma wpE_for_nth:
  assumes "\<And>k b. k < length xs \<Longrightarrow> P k b \<Longrightarrow> wpE (f (xs ! k)) (\<lambda>_. P (Suc k)) E b" and "P 0 b"
  shows "wpE (forE f xs) (\<lambda>_. P (length xs)) E b"
  using assms
proof (induction xs arbitrary: P b)
  case (Cons a xs)
  have "wpE (f a) (\<lambda>_. P (Suc 0)) E b" using Cons.prems(1)[of 0 b] Cons.prems(2) by simp
  moreover have "wpE (forE f xs) (\<lambda>_. P (Suc (length xs))) E b'" if "P (Suc 0) b'" for b'
  proof (rule Cons.IH[of "\<lambda>k. P (Suc k)"])
    show "wpE (f (xs ! k)) (\<lambda>_. P (Suc (Suc k))) E c" if "k < length xs" "P (Suc k) c" for k c
      using Cons.prems(1)[of "Suc k" c] that by simp
  qed (rule that)
  ultimately show ?case unfolding forE.simps length_Cons by (rule wpE_seq)
qed (simp add: wp)

lemma wpE_lift_seq: "(\<And>e. E e s) \<Longrightarrow> (\<And>r. v = Inr r \<Longrightarrow> wpE (k r) Q E s) \<Longrightarrow> wpE (bindE (liftE v) k) Q E s"
  by (auto simp: wpE_bind wpE_basic split: sum.split)

section \<open>Files\<close>

lemma wpE_publish_entries:
  assumes t: "on_track x s0 m b" and r: "plan_recorded (tx_env x) planned (tx_id x) (tx_recorded x)"
    and abs: "\<forall>pf \<in> set planned. starts_slash (snd pf)"
    and tr: "tr_output tr = path_components out" and out: "is_absolute out" and i: "CHR ''/'' \<notin> set (tx_id x)"
    and staged: "staged_files x planned" and mp: "path_file_name mpath = Some (tx_name x)"
  shows "wpE (forE (publish_entry (tx_env x) tr out (tx_parent x) mpath (tx_id x)) (enumerate 0 planned))
           (\<lambda>_ b'. (\<exists>m'. on_track x s0 m' b') \<and> (\<forall>pf \<in> set planned. placed_at (length (fs_log s0)) (tx_manifest x) (pb_fs b') (expected x pf)))
           (\<lambda>_ b. safe x unfinished (pb_fs b)) b"
proof -
  define P where "P k b \<longleftrightarrow> (\<exists>m'. on_track x s0 m' b) \<and> (\<forall>j < k. placed_at (length (fs_log s0)) (tx_manifest x) (pb_fs b) (expected x (planned ! j)))" for k b
  have step: "wpE (publish_entry (tx_env x) tr out (tx_parent x) mpath (tx_id x) (enumerate 0 planned ! k)) (\<lambda>_. P (Suc k)) (\<lambda>_ b. safe x unfinished (pb_fs b)) c"
    if k: "k < length (enumerate 0 planned)" and c: "P k c" for k c
  proof -
    obtain staged final where sf: "planned ! k = (staged, final)" by force
    have mem: "(staged, final) \<in> set planned" using k sf by (metis length_enumerate nth_mem)
    with staged obtain name src where src: "path_file_name staged = Some name" "tx_start x (tx_parent x @ [Normal name]) = Some src"
      by (force simp: staged_files_def)
    obtain m' where m': "on_track x s0 m' c" using c by (auto simp: P_def)
    have kl: "k < length planned" and abs': "starts_slash final" using k mem abs by auto
    have e: "expected x (planned ! k) = (in_data src, path_components final)" using src by (simp add: expected_def sf)
    have "P (Suc k) d"
      if d: "(\<exists>m''. on_track x (pb_fs c) m'' d) \<and> placed_at (length (fs_log (pb_fs c))) (tx_manifest x) (pb_fs d) (in_data src, path_components final)" for d
    proof -
      from d obtain m'' where m'': "on_track x (pb_fs c) m'' d" by blast
      then have l: "later (tx_manifest x) (pb_fs c) (pb_fs d)" by (simp add: on_track_def)
      then have "on_track x s0 m'' d" using m' m'' later_trans[of "tx_manifest x" s0 "pb_fs c"] by (simp add: on_track_def)
      moreover have "placed_at (length (fs_log s0)) (tx_manifest x) (pb_fs d) (expected x (planned ! j))" if "j < k" for j
        using c that placed_later[OF _ l] by (simp add: P_def)
      moreover have "placed_at (length (fs_log s0)) (tx_manifest x) (pb_fs d) (in_data src, path_components final)"
        using d m' by (auto simp: on_track_def intro: placed_earlier)
      ultimately show ?thesis using e by (auto simp: P_def less_Suc_eq)
    qed
    with wpE_publish_entry[OF on_track_restart[OF m'] r kl sf abs' tr out i src mp]
    show ?thesis unfolding nth_enumerate_eq[OF kl] sf by (auto elim!: wpE_mono)
  qed
  have "P 0 b" using t by (auto simp: P_def)
  from wpE_for_nth[where P = P, OF step this] show ?thesis
    by (rule wpE_mono) (auto simp: P_def all_set_conv_all_nth)
qed

section \<open>Synchronization\<close>

definition slot_parent :: "(string \<times> string) list \<Rightarrow> directory_sync_slot \<Rightarrow> string result" where
  "slot_parent planned slot = path_prefix (snd (planned ! ds_entry_index slot)) (ds_prefix_len slot)"

definition parents_slotted :: "(string \<times> string) list \<Rightarrow> directory_sync_slot list \<Rightarrow> bool" where
  "parents_slotted planned slots \<longleftrightarrow> (\<forall>pf \<in> set planned. \<exists>slot \<in> set slots. \<exists>parent. ds_active slot
     \<and> slot_parent planned slot = Inr parent \<and> path_components parent = butlast (path_components (snd pf)))"

lemma output_path_components:
  assumes "starts_slash final" and "relative_parent out final = Inr relative" and fn: "path_file_name final = Some fn"
  shows "path_components out @ relative @ [Normal fn] = path_components final"
proof -
  obtain q where q: "path_parent final = Some q" "path_strip_prefix q out = Some relative"
    using assms(2) by (auto simp: relative_parent_def bindR_Inr_iff)
  obtain z where "path_components final = path_components q @ [component_of z]" using path_parent_components[OF assms(1) q(1)] by blast
  with path_file_name_plain(3)[OF fn] show ?thesis by (simp add: strip_prefix_components[OF q(2)])
qed

lemma wpE_sync_final_file:
  assumes abs: "starts_slash (snd pf)" and tr: "tr_output tr = path_components out" and n: "n \<le> length (fs_log s)"
  shows "wpE (sync_final_file env tr out pf) (\<lambda>_ t. same_nodes s t \<and> synced_after n t (path_components (snd pf))) (\<lambda>_ t. same_nodes s t) s"
proof -
  obtain staged final where pf: "pf = (staged, final)" by force
  have opened: "wpE (bindE (open_regular_file_at (path_components out @ relative) fn final)
      (\<lambda>_. report final (fsync_at ((path_components out @ relative) @ [Normal fn]))))
      (\<lambda>_ t. same_nodes s t \<and> synced_after n t (path_components final)) (\<lambda>_ t. same_nodes s t) t"
    if rel: "relative_parent out final = Inr relative" "path_file_name final = Some fn" and t: "same_nodes s t" for relative fn t
    unfolding wpE_bind
  proof (rule wpE_looks)
    fix u assume "same_nodes t u"
    then have u: "same_nodes s u" by (rule same_nodes_trans[OF t])
    then have nu: "n \<le> length (fs_log u)" using n by (auto simp: same_nodes_def log_grows_def)
    show "wpE (report final (fsync_at ((path_components out @ relative) @ [Normal fn])))
      (\<lambda>_ t. same_nodes s t \<and> synced_after n t (path_components final)) (\<lambda>_ t. same_nodes s t) u"
      using output_path_components[OF _ rel] abs same_nodes_trans[OF u] synced_earlier[OF _ nu]
      by (intro wpE_report_fsync_at) (auto simp: pf)
  qed (use same_nodes_trans[OF t] in \<open>auto intro: looking\<close>)
  show ?thesis
    unfolding sync_final_file_def pf prod.case snd_conv
    apply (rule wpE_lift_seq, simp)
    apply (subst wpE_bind, rule wpE_looks_returns[OF looks_root(4) open_relative_returns])
     apply (rule wpE_lift_seq, assumption, rule wpE_lift_seq, assumption)
     apply (simp add: opened tr del: append_assoc)
    apply assumption
    done
qed

lemma wpE_sync_parent_slot:
  assumes tr: "tr_output tr = path_components out" and n: "n \<le> length (fs_log s)"
  shows "wpE (sync_parent_slot env tr planned out slot)
    (\<lambda>_ t. same_nodes s t \<and> (\<forall>parent. ds_active slot \<and> slot_parent planned slot = Inr parent \<longrightarrow> synced_after n t (path_components parent)))
    (\<lambda>_ t. same_nodes s t) s" (is "wpE _ ?Q ?E s")
proof (cases "ds_active slot \<and> ds_entry_index slot < length planned")
  case True
  have synced: "wpE (bindE (report parent (fsync_at (tr_output tr @ relative))) (\<lambda>_. bindE (sync_directory parent) (\<lambda>_. trusted_root_verify env tr))) ?Q ?E t"
    if t: "same_nodes s t" and parent: "slot_parent planned slot = Inr parent" "path_strip_prefix parent out = Some relative" for parent relative t
    unfolding wpE_bind[where m = "report _ _"]
  proof (rule wpE_report_fsync_at)
    fix u assume u: "same_nodes t u" "Synced (tr_output tr @ relative) \<in> set (drop (length (fs_log t)) (fs_log u))"
    have "n \<le> length (fs_log t)" using n t by (auto simp: same_nodes_def log_grows_def)
    then have "synced_after n u (path_components parent)"
      using synced_earlier u(2) strip_prefix_components[OF parent(2)] by (simp add: tr)
    then have "synced_after n v (path_components parent)" if "same_nodes u v" for v
      using synced_later[OF _ later_same[OF that]] by blast
    then show "wpE (bindE (sync_directory parent) (\<lambda>_. trusted_root_verify env tr)) ?Q ?E u"
      using same_nodes_trans[OF same_nodes_trans[OF t u(1)]] parent(1)
      by (intro wpE_looks) (auto intro!: looking)
  qed (rule same_nodes_trans[OF t])
  have "ds_active slot" "\<not> length planned \<le> ds_entry_index slot" using True by auto
  then show ?thesis
    unfolding sync_parent_slot_def
    apply (subst if_not_P, simp, subst if_not_P, simp)
    apply (rule wpE_lift_seq, simp)
    apply (subst wpE_bind, rule wpE_looks[OF looks_root(2)])
     apply (rule wpE_lift_seq, assumption)
     apply (subst wpE_bind, rule wpE_looks_returns[OF looks_root(4) open_relative_returns])
      apply (hypsubst, rule synced, erule (1) same_nodes_trans)
       apply (simp_all add: slot_parent_def)
    apply (erule (1) same_nodes_trans)
    done
next
  case False
  then show ?thesis by (cases "ds_active slot") (auto simp: sync_parent_slot_def wpE_basic)
qed

section \<open>The directories to synchronize stay registered\<close>

definition keeps_slots :: "'r pub \<Rightarrow> bool" where
  "keeps_slots m \<longleftrightarrow> (\<forall>b. pb_sync_slots (fst (m b)) = pb_sync_slots b)"

named_theorems keeping \<open>operations that leave the directories to synchronize as they are\<close>

lemma keeps_basic [keeping]:
  "keeps_slots (retE r)" "keeps_slots (failE e)" "keeps_slots (getE f)" "keeps_slots (liftE v)" "keeps_slots (ensureE c e)"
  by (simp_all add: keeps_slots_def eff_defs)

lemma keeps_bind [keeping]: "keeps_slots m \<Longrightarrow> (\<And>r. keeps_slots (k r)) \<Longrightarrow> keeps_slots (bindE m k)"
  by (auto simp: keeps_slots_def bindE_def split: prod.split sum.split) (metis fst_conv)+

lemma keeps_try [keeping]: "keeps_slots m \<Longrightarrow> keeps_slots (tryE m)"
  by (auto simp: keeps_slots_def tryE_def split: prod.split) (metis fst_conv)

lemma keeps_onfs [keeping]: "keeps_slots (onfs m)"
  by (auto simp: keeps_slots_def onfs_def split: prod.split)

lemma keeps_mod [keeping]: "(\<And>b. pb_sync_slots (f b) = pb_sync_slots b) \<Longrightarrow> keeps_slots (modE f)"
  by (simp add: keeps_slots_def eff_defs)

lemma keeps_for [keeping]: "(\<And>a. a \<in> set xs \<Longrightarrow> keeps_slots (f a)) \<Longrightarrow> keeps_slots (forE f xs)"
  by (induction xs) (simp_all add: keeping)

lemma keeps_persist [keeping]: "keeps_slots (persist_manifest_prepared env parent mpath i)"
  unfolding persist_manifest_prepared_def write_prepared_at_def write_or_clean_def write_temporary_def replace_manifest_def Let_def
  by (auto intro!: keeping split: option.split sum.split)

lemma keeps_steps [keeping]:
  "keeps_slots (materialize_file_set_parents env tr out parent mpath i)" "keeps_slots (publish_entry env tr out parent mpath i e)"
  unfolding materialize_file_set_parents_def materialize_parent_def own_directory_def publish_entry_def copy_entry_def set_artifact_def
    clear_artifact_def set_entry_def set_manifest_def
  by (auto intro!: keeping split: prod.split)

lemma wpE_keeps:
  assumes "keeps_slots m" and "wpE m Q E b"
  shows "wpE m (\<lambda>r b'. Q r b' \<and> pb_sync_slots b' = pb_sync_slots b) E b"
  using assms by (auto simp: wpE_def keeps_slots_def split: prod.splits sum.splits) (metis fst_conv)

section \<open>The whole phase\<close>

abbreviation delivering :: "txn \<Rightarrow> fs \<Rightarrow> (string \<times> string) list \<Rightarrow> fs \<Rightarrow> bool" where
  "delivering x s0 planned \<equiv> safe x (delivered x (length (fs_log s0)) planned)"

lemma safe_delivering: "safe x unfinished s \<Longrightarrow> delivering x s0 planned s"
  unfolding safe_def by (rule publishing_weaken)

lemma delivering_same: "delivering x s0 planned s \<Longrightarrow> same_nodes s t \<Longrightarrow> delivering x s0 planned t"
  unfolding safe_def by (erule publishing_same) (auto intro: delivered_later later_same)

definition finished :: "txn \<Rightarrow> fs \<Rightarrow> (string \<times> string) list \<Rightarrow> fs \<Rightarrow> bool" where
  "finished x s0 planned s \<longleftrightarrow> delivering x s0 planned s \<and> delivered x (length (fs_log s0)) planned s
     \<and> (\<exists>m k. node_at s (tx_manifest x) = Some k \<and> manifest_node (tx_env x) m k \<and> tm_phase m = Complete
          \<and> manifest_names m = manifest_names (tx_recorded x))"

lemma finished_same: "finished x s0 planned s \<Longrightarrow> same_nodes s t \<Longrightarrow> finished x s0 planned t"
  unfolding finished_def using delivering_same delivered_later[OF _ later_same] by (auto simp: same_nodes_def)

lemma wpE_sync_all:
  assumes t: "on_track x s0 m b" and placed: "\<forall>pf \<in> set planned. placed_at (length (fs_log s0)) (tx_manifest x) (pb_fs b) (expected x pf)"
    and abs: "\<forall>pf \<in> set planned. starts_slash (snd pf)" and tr: "tr_output tr = path_components out"
    and slots: "parents_slotted planned (pb_sync_slots b)"
  shows "wpE (bindE (onfs (forE (sync_final_file env tr out) planned)) (\<lambda>_. bindE (getE pb_sync_slots) (\<lambda>slots.
             onfs (forE (sync_parent_slot env tr planned out) slots))))
           (\<lambda>_ b'. on_track x s0 m b' \<and> delivered x (length (fs_log s0)) planned (pb_fs b')) (\<lambda>_ b. safe x unfinished (pb_fs b)) b"
proof -
  define n where "n = length (fs_log (pb_fs b))"
  define F where "F k t \<longleftrightarrow> same_nodes (pb_fs b) t \<and> (\<forall>j < k. synced_after n t (path_components (snd (planned ! j))))" for k t
  define G where "G k t \<longleftrightarrow> F (length planned) t \<and> (\<forall>j < k. \<forall>parent. ds_active (pb_sync_slots b ! j)
      \<and> slot_parent planned (pb_sync_slots b ! j) = Inr parent \<longrightarrow> synced_after n t (path_components parent))" for k t
  have n: "n \<le> length (fs_log t)" if "same_nodes (pb_fs b) t" for t
    using later_log[OF later_same[OF that]] by (simp add: n_def)
  have F_same: "F k u" if "F k t" "same_nodes t u" for k t u
    using that same_nodes_trans synced_later[OF _ later_same[OF that(2)]] unfolding F_def by blast
  have bad: "safe x unfinished t" if "F k t" for k t
    using that safe_same[OF on_track_safe[OF t]] by (simp add: F_def)
  have final: "wpE (sync_final_file env tr out (planned ! k)) (\<lambda>_. F (Suc k)) (\<lambda>_. safe x unfinished) u"
    if k: "k < length planned" and u: "F k u" for k u
  proof (rule wpE_mono[OF wpE_sync_final_file[OF _ tr n]])
    show "F (Suc k) v" if "same_nodes u v \<and> synced_after n v (path_components (snd (planned ! k)))" for v
      using that F_same[OF u] by (auto simp: F_def less_Suc_eq)
  qed (use u k abs bad[OF F_same[OF u]] in \<open>auto simp: F_def\<close>)
  have parent: "wpE (sync_parent_slot env tr planned out (pb_sync_slots b ! k)) (\<lambda>_. G (Suc k)) (\<lambda>_. safe x unfinished) u"
    if u: "G k u" for k u
  proof (rule wpE_mono[OF wpE_sync_parent_slot[OF tr n]])
    show "G (Suc k) v" if v: "same_nodes u v \<and> (\<forall>parent. ds_active (pb_sync_slots b ! k) \<and> slot_parent planned (pb_sync_slots b ! k) = Inr parent
        \<longrightarrow> synced_after n v (path_components parent))" for v
      using v u F_same[of "length planned" u v] synced_later[OF _ later_same[of u v]] unfolding G_def less_Suc_eq by blast
    show "safe x unfinished v" if "same_nodes u v" for v using u bad F_same[OF _ that] by (auto simp: G_def)
  qed (use u in \<open>simp add: G_def F_def\<close>)
  have all: "on_track x s0 m (b\<lparr>pb_fs := v\<rparr>) \<and> delivered x (length (fs_log s0)) planned v" if v: "G (length (pb_sync_slots b)) v" for v
  proof -
    have same: "same_nodes (pb_fs b) v" using v by (simp add: G_def F_def)
    have "settled (length (fs_log s0)) v (path_components (snd pf))" if pf: "pf \<in> set planned" for pf
    proof -
      have renamed: "renamed_after (length (fs_log s0)) (pb_fs b) (path_components (snd pf))"
        using placed pf by (fastforce simp: placed_at_def expected_def)
      have log: "log_grows (pb_fs b) v" using same by (simp add: same_nodes_def)
      obtain slot q where "slot \<in> set (pb_sync_slots b)" "ds_active slot" "slot_parent planned slot = Inr q" "path_components q = butlast (path_components (snd pf))"
        using slots pf unfolding parents_slotted_def by blast
      with v pf have "synced_after n v (path_components (snd pf))" "synced_after n v (butlast (path_components (snd pf)))"
        unfolding G_def F_def in_set_conv_nth by metis+
      then show ?thesis using settledI[OF renamed log] by (simp add: n_def)
    qed
    with placed placed_later[OF _ later_same[OF same]] on_track_same[OF t same] show ?thesis by (auto simp: delivered_def)
  qed
  have parents: "wpE (forE (sync_parent_slot env tr planned out) (pb_sync_slots b))
      (\<lambda>_ v. on_track x s0 m (b\<lparr>pb_fs := v\<rparr>) \<and> delivered x (length (fs_log s0)) planned v) (\<lambda>_. safe x unfinished) u"
    if "F (length planned) u" for u
    by (rule wpE_mono[OF wpE_for_nth[where P = G, OF parent]]) (use that all in \<open>auto simp: G_def\<close>)
  have "wpE (forE (sync_final_file env tr out) planned) (\<lambda>_. F (length planned)) (\<lambda>_. safe x unfinished) (pb_fs b)"
    by (rule wpE_for_nth[where P = F, OF final]) (auto simp: F_def)
  then show ?thesis
    unfolding wpE_bind wpE_onfs wpE_basic by (rule wpE_mono) (use parents in \<open>simp_all\<close>)
qed

lemma wpE_complete:
  assumes t: "on_track x s0 m b" and d: "delivered x (length (fs_log s0)) planned (pb_fs b)" and mp: "path_file_name mpath = Some (tx_name x)"
  shows "wpE (bindE (set_manifest (\<lambda>m. m\<lparr>tm_phase := Complete\<rparr>)) (\<lambda>_.
      bindE (persist_manifest_prepared (tx_env x) (tx_parent x) mpath (tx_id x)) (\<lambda>_.
      bindE (getE pb_manifest) (\<lambda>m.
      bindE (onfs (verify_manifest_matches env mpath m)) (\<lambda>_.
      onfs (trusted_root_verify env tr))))))
    (\<lambda>_ b'. finished x s0 planned (pb_fs b')) (\<lambda>_ b'. delivering x s0 planned (pb_fs b')) b"
proof -
  let ?D = "delivered x (length (fs_log s0)) planned" and ?m = "m\<lparr>tm_phase := Complete\<rparr>"
  have m: "pb_manifest b = m" using t by (simp add: on_track_def)
  have looked: "wpE (bindE (getE pb_manifest) (\<lambda>m. bindE (onfs (verify_manifest_matches env mpath m)) (\<lambda>_. onfs (trusted_root_verify env tr))))
      (\<lambda>_ b'. finished x s0 planned (pb_fs b')) (\<lambda>_ b'. delivering x s0 planned (pb_fs b')) c"
    if c: "finished x s0 planned (pb_fs c)" for c
  proof -
    have "finished x s0 planned u" if "same_nodes (pb_fs c) u" for u using finished_same[OF c that] .
    then show ?thesis
      unfolding wpE_bind wpE_onfs wpE_basic
      by (intro wpE_looks[OF looks_final(4)] wpE_looks[OF looks_root(2)])
        (use same_nodes_trans in \<open>auto simp: finished_def\<close>)
  qed
  show ?thesis
    unfolding set_manifest_def wpE_bind[where m = "modE _"] wpE_basic wpE_bind[where m = "persist_manifest_prepared _ _ _ _"] m
  proof (rule wpE_persist_publishing[OF mp tx_manifest_def tx_temp_def, where D = ?D])
    show "publishing (tx_env x) (tx_start x) (tx_above x \<union> manifest_names (tx_recorded x)) (tx_manifest x) (tx_temp x) (recorded_as x) unfinished (pb_fs (b\<lparr>pb_manifest := ?m\<rparr>))"
      using on_track_safe[OF t] by (simp add: safe_def)
    show names: "recorded_as x (pb_manifest (b\<lparr>pb_manifest := ?m\<rparr>))"
      using same_paths_names[OF same_paths_updates(1)[of m Complete]] on_track_names[OF t] by (simp add: recorded_as_def)
    fix u k i
    assume u: "publishing (tx_env x) (tx_start x) (tx_above x \<union> manifest_names (tx_recorded x)) (tx_manifest x) (tx_temp x) (recorded_as x) ?D u"
      "later (tx_manifest x) (pb_fs (b\<lparr>pb_manifest := ?m\<rparr>)) u" "node_at u (tx_manifest x) = Some k"
      "manifest_node (tx_env x) (pb_manifest (b\<lparr>pb_manifest := ?m\<rparr>)) k"
    then have "finished x s0 planned u"
      using delivered_later[OF d, of u] names by (auto simp: finished_def safe_def recorded_as_def intro!: exI[of _ ?m])
    then show "wpE (bindE (getE pb_manifest) (\<lambda>m. bindE (onfs (verify_manifest_matches env mpath m)) (\<lambda>_. onfs (trusted_root_verify env tr))))
      (\<lambda>_ b'. finished x s0 planned (pb_fs b')) (\<lambda>_ b'. delivering x s0 planned (pb_fs b')) (b\<lparr>pb_manifest := ?m, pb_fs := u, pb_manifest_identity := Some i\<rparr>)"
      by (intro looked) simp
  qed (use t d delivered_later in \<open>auto simp: on_track_def safe_def\<close>)
qed

lemma wpE_publish_file_set:
  assumes t: "on_track x s0 m b" and r: "plan_recorded (tx_env x) planned (tx_id x) (tx_recorded x)"
    and abs: "\<forall>pf \<in> set planned. starts_slash (snd pf)"
    and tr: "tr_output tr = path_components out" and out: "is_absolute out" and i: "CHR ''/'' \<notin> set (tx_id x)"
    and staged: "staged_files x planned" and mp: "path_file_name mpath = Some (tx_name x)"
    and count: "tm_directory_count m = length (directories_of m)" and slots: "parents_slotted planned (pb_sync_slots b)"
    and parent: "tx_parent x = path_components staging"
  shows "wpE (publish_file_set (tx_env x) planned staging (tx_id x) out mpath tr)
           (\<lambda>_ b'. finished x s0 planned (pb_fs b')) (\<lambda>_ b'. delivering x s0 planned (pb_fs b')) b"
proof -
  have seq: "wpE (bindE op k) Q (\<lambda>_ b'. delivering x s0 planned (pb_fs b')) c"
    if "wpE op Q' (\<lambda>_ b. safe x unfinished (pb_fs b)) c" "\<And>r c'. Q' r c' \<Longrightarrow> wpE (k r) Q (\<lambda>_ b'. delivering x s0 planned (pb_fs b')) c'"
    for op :: "'a pub" and k :: "'a \<Rightarrow> unit pub" and Q Q' c
    unfolding wpE_bind by (rule wpE_mono[OF that(1)]) (use that(2) safe_delivering in auto)
  have sync: "wpE (bindE A (\<lambda>_. bindE (getE G) (\<lambda>s. bindE (C s) K))) Q E c = wpE (bindE (bindE A (\<lambda>_. bindE (getE G) C)) K) Q E c"
    for A :: "unit pub" and G :: "publication \<Rightarrow> directory_sync_slot list" and C :: "directory_sync_slot list \<Rightarrow> unit pub" and K :: "unit \<Rightarrow> unit pub" and Q E c
    by (simp only: wpE_bind)
  show ?thesis
    unfolding publish_file_set_def Let_def parent[symmetric]
    apply (rule seq[OF wpE_keeps[OF keeps_onfs wpE_look_track[OF looks_root(2) t]]])
    apply (rule seq[OF wpE_keeps[OF keeps_steps(1) wpE_materialize_file_set_parents[OF _ tr count mp]]], blast)
    apply (elim conjE exE)
    apply (rule seq[OF wpE_keeps[OF keeps_for wpE_publish_entries[OF _ r abs tr out i staged mp]]], rule keeps_steps, assumption)
    apply (elim conjE exE)
    apply (subst sync, rule seq[OF wpE_sync_all[OF _ _ abs tr]], assumption, assumption)
    using slots apply simp
    apply (rule wpE_complete[OF _ _ mp], auto)
    done
qed

end
