(* ===== verification/Publication_Prepare.thy ===== *)
theory Publication_Prepare
  imports Publication_Complete Manifest_Roundtrip
begin

text \<open>
  The preparation of a file-set publication: the output root is opened, and created where it is
  missing; the manifest is filled in; nothing else changes on disk.
\<close>

section \<open>Opening the output root\<close>

definition opened :: "(fs_path \<Rightarrow> inode option) \<Rightarrow> fs_path \<Rightarrow> fs \<Rightarrow> fs \<Rightarrow> bool" where
  "opened f0 out s0 s \<longleftrightarrow> tree (node_at s) \<and> f0 \<subseteq>\<^sub>m node_at s \<and> log_grows s0 s
     \<and> (\<forall>p n. node_at s p = Some n \<and> f0 p = None \<longrightarrow> within p out \<and> in_kind n = Directory)"

lemma opened_same: "opened f0 out s0 s \<Longrightarrow> same_nodes s t \<Longrightarrow> opened f0 out s0 t"
  by (auto simp: opened_def same_nodes_def intro: log_grows_trans)

lemma opened_create:
  assumes o: "opened f0 out s0 s" and p: "node_at s p = None" "node_at t = (node_at s)(p \<mapsto> n)" "log_grows s t" "in_kind n = Directory"
    and d: "\<exists>d. node_at s (butlast p) = Some d \<and> in_kind d = Directory" and w: "within p out" and ne: "p \<noteq> []"
  shows "opened f0 out s0 t"
proof -
  have "tree (node_at t)" unfolding p(2) using o p(1) d ne by (intro tree_upd) (auto simp: opened_def)
  moreover have "f0 p = None" using o p(1) unfolding opened_def map_le_def by (metis domIff)
  then have "f0 \<subseteq>\<^sub>m node_at t" using o unfolding opened_def p(2) by (auto simp: map_le_def)
  ultimately show ?thesis using o p w by (auto simp: opened_def intro: log_grows_trans)
qed

lemma wpE_look_opened:
  assumes "looks m" and "opened f0 out s0 s"
  shows "wpE m (\<lambda>_. opened f0 out s0) (\<lambda>_. opened f0 out s0) s"
  by (rule wpE_looks[OF assms(1)]) (rule opened_same[OF assms(2)], assumption)+

lemma wpE_open_make:
  assumes o: "opened f0 out s0 s" and w: "within (p @ [Normal name]) out"
  shows "wpE (make_directory env path p name) (\<lambda>_. opened f0 out s0) (\<lambda>_. opened f0 out s0) s"
  unfolding make_directory_def mkdir_at_def wpE_bind wpE_report[where m = "create_at _ _ _"] wpE_basic
  by (rule wpE_create_at) (use opened_same[OF o] opened_create[OF o _ _ _ _ _ w] in \<open>auto intro!: wpE_look_opened looking\<close>)

lemma wpE_enter_directory:
  assumes o: "opened f0 out s0 s" and w: "within (rw_directory w @ [Normal name]) out"
  shows "wpE (enter_directory env path w name) (\<lambda>_. opened f0 out s0) (\<lambda>_. opened f0 out s0) s"
proof (cases "rw_missing w")
  case True
  then show ?thesis by (simp add: enter_directory_def wpE_bind wpE_basic wpE_open_make[OF o w])
next
  case False
  have made: "wpE (bindE (report a (fstat i)) (\<lambda>md. bindE (make_directory env path (rw_directory w) name) (\<lambda>n. retE (g md n))))
      (\<lambda>_. opened f0 out s0) (\<lambda>_. opened f0 out s0) t" if "opened f0 out s0 t" for t a i and g :: "inode \<Rightarrow> inode \<Rightarrow> inode \<times> bool \<times> root_walk"
    unfolding wpE_bind wpE_basic
    by (rule wpE_mono[OF wpE_look_opened[OF looks_report[OF looks_calls(4)] that]]) (auto intro: wpE_open_make[OF _ w])
  from False show ?thesis
    unfolding enter_directory_def if_not_P[OF False] wpE_bind[where m = "open_dir_at _"]
    by (intro wpE_mono[OF wpE_look_opened[OF looks_calls(1) o]])
      (auto simp: wpE_basic wpE_bind[where m = "liftE _"] intro!: made split: sum.split errno.split)
qed

lemma wpE_root_step:
  assumes o: "opened f0 out s0 s" and w: "within (rw_directory w @ [c]) out" and c: "c \<noteq> RootDir"
  shows "wpE (root_step env path w c) (\<lambda>w' t. opened f0 out s0 t \<and> rw_directory w' = rw_directory w @ [c]) (\<lambda>_. opened f0 out s0) s"
proof (cases c)
  case (Normal name)
  have "within (rw_directory w @ [Normal name]) out" using w Normal by simp
  note enter = wpE_enter_directory[OF o this]
  show ?thesis
    unfolding root_step_def Normal path_component.case
    apply (rule wpE_lift_seq, rule o, rule wpE_lift_seq, rule o)
    apply (rule wpE_seq[OF enter], clarify)
    apply (rule wpE_lift_seq, assumption)
    apply (rule wpE_seq[OF wpE_look_opened], rule looks_report[OF looks_calls(6)], assumption)
    apply (rule wpE_seq[OF wpE_look_opened])
    apply (auto intro!: looking simp: wpE_basic)
    done
qed (use c o in \<open>simp_all add: root_step_def wpE_basic\<close>)

lemma within_append: "within p q \<longleftrightarrow> (\<exists>r. q = p @ r)"
  by (auto simp: within_def) (metis append_take_drop_id)

lemma wpE_root_walk:
  assumes "opened f0 out s0 s" and "out = rw_directory w @ cs" and "RootDir \<notin> set cs"
  shows "wpE (foldE (root_step env path) w cs) (\<lambda>w' t. opened f0 out s0 t \<and> rw_directory w' = out) (\<lambda>_. opened f0 out s0) s"
  using assms
proof (induction cs arbitrary: w s)
  case (Cons c cs)
  then have "within (rw_directory w @ [c]) out" "c \<noteq> RootDir" by (auto simp: within_append)
  from wpE_root_step[OF Cons.prems(1) this] show ?case
    unfolding foldE.simps by (rule wpE_seq) (use Cons in auto)
qed (simp add: wpE_basic)

lemma components_root: "starts_slash s \<Longrightarrow> \<exists>cs. path_components s = RootDir # cs \<and> RootDir \<notin> set cs"
  by (auto simp: path_components_absolute component_of_def)

lemma wpE_trusted_root_open:
  assumes o: "opened f0 (path_components out) s0 s"
  shows "wpE (trusted_root_open env out)
           (\<lambda>tr t. opened f0 (path_components out) s0 t \<and> tr_output tr = path_components out \<and> is_absolute out)
           (\<lambda>_. opened f0 (path_components out) s0) s"
proof (cases "is_absolute out")
  case True
  then obtain cs where cs: "path_components out = RootDir # cs" "RootDir \<notin> set cs" using components_root by (auto simp: is_absolute_def)
  have walk: "wpE (bindE (foldE (root_step env out) w (path_components out)) (\<lambda>w. bindE (report out (fstat (rw_inode w))) (\<lambda>md. retE (g w md))))
      (\<lambda>tr t. opened f0 (path_components out) s0 t \<and> tr_output tr = path_components out) (\<lambda>_. opened f0 (path_components out) s0) t"
    if t: "opened f0 (path_components out) s0 t" and w: "rw_directory w = [RootDir]" and g: "\<And>w md. tr_output (g w md) = rw_directory w"
    for w t and g :: "root_walk \<Rightarrow> inode \<Rightarrow> trusted_root"
  proof -
    have "wpE (foldE (root_step env out) w (path_components out))
        (\<lambda>w' t. opened f0 (path_components out) s0 t \<and> rw_directory w' = path_components out) (\<lambda>_. opened f0 (path_components out) s0) t"
      using wpE_root_walk[OF t, where w = w and cs = cs and env = env and path = out] cs w by (simp add: root_step_def wpE_bind wpE_basic)
    then show ?thesis
      by (rule wpE_seq) (use True g in \<open>auto simp: wpE_basic intro!: wpE_seq[OF wpE_look_opened] looking\<close>)
  qed
  have root: "wpE (open_absolute_root out) (\<lambda>d t. fst d = [RootDir] \<and> opened f0 (path_components out) s0 t) (\<lambda>_. opened f0 (path_components out) s0) s"
    unfolding open_absolute_root_def
    by (rule wpE_seq[OF wpE_look_opened[OF _ o]]) (auto simp: wpE_basic intro!: looking)
  show ?thesis
    unfolding trusted_root_open_def wpE_bind[where m = "ensureE _ _"] wpE_basic
    using True o by (auto intro!: wpE_seq[OF root] walk)
qed (use o in \<open>simp add: trusted_root_open_def wpE_bind wpE_basic\<close>)

section \<open>Filling in the manifest\<close>

definition unbuilt :: "(fs_path \<Rightarrow> inode option) \<Rightarrow> fs_path \<Rightarrow> fs \<Rightarrow> publication \<Rightarrow> bool" where
  "unbuilt f0 out s0 b \<longleftrightarrow> opened f0 out s0 (pb_fs b) \<and> pb_manifest_identity b = None"

definition building ::
    "(fs_path \<Rightarrow> inode option) \<Rightarrow> fs_path \<Rightarrow> fs \<Rightarrow> (transaction_manifest \<Rightarrow> bool) \<Rightarrow> (directory_sync_slot list \<Rightarrow> bool) \<Rightarrow> publication \<Rightarrow> bool" where
  "building f0 out s0 M S b \<longleftrightarrow> unbuilt f0 out s0 b \<and> M (pb_manifest b) \<and> S (pb_sync_slots b)"

lemma building_unbuilt: "building f0 out s0 M S b \<Longrightarrow> unbuilt f0 out s0 b"
  by (simp add: building_def)

lemma unbuilt_updates [simp]:
  "unbuilt f0 out s0 (b\<lparr>pb_manifest := m\<rparr>) = unbuilt f0 out s0 b" "unbuilt f0 out s0 (b\<lparr>pb_sync_slots := l\<rparr>) = unbuilt f0 out s0 b"
  by (simp_all add: unbuilt_def)

lemma building_same: "building f0 out s0 M S b \<Longrightarrow> same_nodes (pb_fs b) t \<Longrightarrow> building f0 out s0 M S (b\<lparr>pb_fs := t\<rparr>)"
  by (auto simp: building_def unbuilt_def intro: opened_same)

lemma wpE_look_building:
  assumes "looks op" and b: "building f0 out s0 M S b"
  shows "wpE (onfs op) (\<lambda>_. building f0 out s0 M S) (\<lambda>_. unbuilt f0 out s0) b"
  unfolding wpE_onfs
  by (rule wpE_looks[OF assms(1)]) (use building_same[OF b] building_unbuilt[OF building_same[OF b]] in auto)

lemma wpE_lift_building:
  assumes "building f0 out s0 M S b" and "\<And>r. v = Inr r \<Longrightarrow> wpE (k r) Q (\<lambda>_. unbuilt f0 out s0) b"
  shows "wpE (bindE (liftE v) k) Q (\<lambda>_. unbuilt f0 out s0) b"
  by (rule wpE_lift_seq) (use assms building_unbuilt in auto)

lemma wpE_push_path_of:
  assumes b: "building f0 out s0 M S b"
    and M: "\<And>m r a. M m \<Longrightarrow> arena_push v (tm_path_arena m) = Inr (r, a) \<Longrightarrow> M' r (m\<lparr>tm_path_arena := a\<rparr>)"
  shows "wpE (push_path_of v) (\<lambda>r. building f0 out s0 (M' r) S) (\<lambda>_. unbuilt f0 out s0) b"
  unfolding push_path_of_def push_path_def
  by (rule wpE_getE_is[OF refl], rule wpE_lift_building[OF b])
    (use b M in \<open>auto simp: wpE_bind wpE_basic building_def bindR_Inr_iff\<close>)

lemma wpE_set_manifest:
  assumes "building f0 out s0 M S b" and "\<And>m. M m \<Longrightarrow> M' (f m)"
  shows "wpE (set_manifest f) (\<lambda>_. building f0 out s0 M' S) (\<lambda>_. unbuilt f0 out s0) b"
  using assms by (auto simp: set_manifest_def wpE_basic building_def)

definition entry_filled :: "publish_env \<Rightarrow> string \<Rightarrow> (fs_path \<Rightarrow> inode option) \<Rightarrow> fs_path \<Rightarrow> path_arena \<Rightarrow> manifest_entry_slot \<Rightarrow> string \<times> string \<Rightarrow> bool" where
  "entry_filled env i f0 parent a e = (\<lambda>(staged, final). length final < u32_lim \<and> holds_str a (me_final_path e) final
     \<and> (\<exists>q name pp. path_parent final = Some q \<and> path_file_name final = Some name \<and> partial_path_for env q name i = Inr pp
          \<and> holds_str a (me_partial_path e) pp)
     \<and> (\<exists>name src. path_file_name staged = Some name \<and> f0 (parent @ [Normal name]) = Some src))"

lemma entry_filled_grows: "entry_filled env i f0 parent a e pf \<Longrightarrow> grows n a a' \<Longrightarrow> entry_filled env i f0 parent a' e pf"
  unfolding entry_filled_def using grows_holds by fastforce

definition started :: "transaction_manifest \<Rightarrow> bool" where
  "started m \<longleftrightarrow> arena_ok (tm_path_arena m) \<and> tm_phase m = Prepared \<and> tm_directory_count m \<le> length (tm_directory_slots m)"

definition filling :: "publish_env \<Rightarrow> (string \<times> string) list \<Rightarrow> string \<Rightarrow> (fs_path \<Rightarrow> inode option) \<Rightarrow> fs_path \<Rightarrow> nat \<Rightarrow> transaction_manifest \<Rightarrow> bool" where
  "filling env planned i f0 parent k m \<longleftrightarrow> started m \<and> tm_entry_count m = length planned \<and> length planned \<le> length (tm_slots m)
     \<and> k \<le> pa_used (tm_path_arena m) \<and> k \<le> u32_lim
     \<and> (\<forall>j < k. entry_filled env i f0 parent (tm_path_arena m) (tm_slots m ! j) (planned ! j))"

lemma push_grows: "arena_push v a = Inr (r, a') \<Longrightarrow> arena_ok a \<Longrightarrow> grows (length v) a a' \<and> holds_str a' r v \<and> pa_used a < u32_lim \<and> length v < u32_lim"
  using arena_push_InrD[of v a r a'] by (auto simp: grows_def holds_str_def arena_push_fits)

lemma filling_push:
  assumes "filling env planned i f0 parent k m" and "arena_push v (tm_path_arena m) = Inr (r, a)"
  shows "filling env planned i f0 parent k (m\<lparr>tm_path_arena := a\<rparr>)" and "grows (length v) (tm_path_arena m) a" and "holds_str a r v"
    and "k < u32_lim" and "length v < u32_lim"
proof -
  have "arena_ok (tm_path_arena m)" using assms(1) by (simp add: filling_def started_def)
  note g = push_grows[OF assms(2) this]
  then show "grows (length v) (tm_path_arena m) a" "holds_str a r v" "length v < u32_lim" by simp_all
  show "k < u32_lim" using g assms(1) by (simp add: filling_def)
  have "arena_ok a" "pa_used (tm_path_arena m) \<le> pa_used a" using g by (simp_all add: grows_def)
  with assms(1) g show "filling env planned i f0 parent k (m\<lparr>tm_path_arena := a\<rparr>)"
    by (auto simp: filling_def started_def intro: entry_filled_grows)
qed

lemma wpE_begin_manifest:
  assumes b: "building f0 out s0 started S b"
  shows "wpE (begin_manifest env kind i staging sid output) (\<lambda>_. building f0 out s0 started S) (\<lambda>_. unbuilt f0 out s0) b"
proof -
  have push: "started (m\<lparr>tm_path_arena := a\<rparr>)" if "started m" "arena_push v (tm_path_arena m) = Inr (r, a)" for m v r a
    using push_grows[OF that(2)] that(1) by (simp add: started_def grows_def)
  have set: "wpE (bindE (set_manifest f) k) Q (\<lambda>_. unbuilt f0 out s0) c"
    if "building f0 out s0 started S c" "\<And>m. started m \<Longrightarrow> started (f m)" "\<And>d. building f0 out s0 started S d \<Longrightarrow> wpE (k ()) Q (\<lambda>_. unbuilt f0 out s0) d"
    for f c and k :: "unit \<Rightarrow> unit pub" and Q
    by (rule wpE_seq[OF wpE_set_manifest[where M' = started, OF that(1,2)]]) (use that(3) in auto)
  show ?thesis
    unfolding begin_manifest_def
    apply (rule set[OF b], simp add: started_def)
    apply (rule wpE_seq[OF wpE_push_path_of[where M' = "\<lambda>_. started"]], assumption, erule (1) push)
    apply (rule set, assumption, simp add: started_def)
    apply (rule wpE_seq[OF wpE_push_path_of[where M' = "\<lambda>_. started"]], assumption, erule (1) push)
    apply (rule set, assumption, simp add: started_def)
    apply (rule wpE_seq[OF wpE_push_path_of[where M' = "\<lambda>_. started"]], assumption, erule (1) push)
    apply (rule wpE_set_manifest, assumption, simp add: started_def)
    done
qed

lemma wpE_count_entries:
  assumes b: "building f0 out s0 started S b"
  shows "wpE (count_entries (length planned)) (\<lambda>_. building f0 out s0 (filling env planned i f0 parent 0) S) (\<lambda>_. unbuilt f0 out s0) b"
  unfolding count_entries_def set_entry_count_def
  by (rule wpE_getE_is[OF refl], rule wpE_lift_building[OF b])
    (use b in \<open>auto simp: wpE_basic building_def filling_def started_def split: if_splits\<close>)

section \<open>Recording the files\<close>

lemma opened_regular: "opened f0 out s0 s \<Longrightarrow> node_at s p = Some n \<Longrightarrow> in_kind n = RegularFile \<Longrightarrow> f0 p \<noteq> None"
  unfolding opened_def by (metis file_kind.distinct(1))

lemma wpE_open_staged:
  assumes b: "building f0 out s0 M S b"
  shows "wpE (onfs (open_regular_file_at parent name path))
    (\<lambda>_ b'. building f0 out s0 M S b' \<and> (\<exists>src. f0 (parent @ [Normal name]) = Some src)) (\<lambda>_. unbuilt f0 out s0) b"
  unfolding wpE_onfs
proof (rule wpE_open_regular_file_at)
  show "building f0 out s0 M S (b\<lparr>pb_fs := t\<rparr>) \<and> (\<exists>src. f0 (parent @ [Normal name]) = Some src)"
    if "same_nodes (pb_fs b) t" "node_at (pb_fs b) (parent @ [Normal name]) = Some n" "in_kind n = RegularFile" for n t
    using opened_regular[OF _ that(2,3)] building_same[OF b that(1)] b by (auto simp: building_def unbuilt_def)
qed (rule building_unbuilt[OF building_same[OF b]])

definition both_held :: "transaction_manifest \<Rightarrow> path_ref \<Rightarrow> string \<Rightarrow> path_ref \<Rightarrow> string \<Rightarrow> bool" where
  "both_held m r v r' v' \<longleftrightarrow> holds_str (tm_path_arena m) r v \<and> holds_str (tm_path_arena m) r' v'"

lemma filling_entry:
  assumes m: "filling env planned i f0 parent k m" and k: "k < length planned" "planned ! k = (staged, final)"
    and u: "k < u32_lim" "k < pa_used (tm_path_arena m)" "length final < u32_lim"
    and held: "both_held m pr pp fr final"
    and final: "path_parent final = Some q" "path_file_name final = Some name" "partial_path_for env q name i = Inr pp"
    and src: "path_file_name staged = Some sn" "f0 (parent @ [Normal sn]) = Some src"
  shows "filling env planned i f0 parent (Suc k) (m\<lparr>tm_slots := (tm_slots m)[k := (tm_slots m ! k)
     \<lparr>me_staged_path := sr, me_staged_identity := si, me_partial_path := pr, me_final_path := fr\<rparr>]\<rparr>)"
proof -
  have l: "k < length (tm_slots m)" using m k(1) by (simp add: filling_def)
  let ?e = "(tm_slots m ! k)\<lparr>me_staged_path := sr, me_staged_identity := si, me_partial_path := pr, me_final_path := fr\<rparr>"
  have "entry_filled env i f0 parent (tm_path_arena m) ?e (planned ! k)"
    using u(3) held final src by (auto simp: entry_filled_def both_held_def k(2))
  with m l u show ?thesis by (auto simp: filling_def started_def nth_list_update less_Suc_eq)
qed

lemma wpE_record_entry:
  assumes b: "building f0 out s0 (filling env planned i f0 parent k) S b" and k: "k < length planned" "planned ! k = (staged, final)"
  shows "wpE (record_entry env parent i (k, staged, final)) (\<lambda>_. building f0 out s0 (filling env planned i f0 parent (Suc k)) S) (\<lambda>_. unbuilt f0 out s0) b"
proof -
  let ?M = "filling env planned i f0 parent k" and ?N = "filling env planned i f0 parent (Suc k)"
  have pushed: "wpE (bindE (push_path_of pp) (\<lambda>pr. bindE (push_path_of final) (\<lambda>fr. set_entry k (\<lambda>e. e\<lparr>me_staged_path := sr, me_staged_identity := si,
      me_partial_path := pr, me_final_path := fr\<rparr>)))) (\<lambda>_. building f0 out s0 ?N S) (\<lambda>_. unbuilt f0 out s0) c"
    if c: "building f0 out s0 ?M S c"
      and final: "path_file_name final = Some name" "path_parent final = Some q" "partial_path_for env q name i = Inr pp"
      and src: "path_file_name staged = Some sn" "f0 (parent @ [Normal sn]) = Some src" for c q name pp sn src sr si
  proof -
    have ne: "final \<noteq> []" using final(1) by (auto simp: path_file_name_def path_components_def starts_slash_def)
    have "wpE (push_path_of pp) (\<lambda>pr. building f0 out s0 (\<lambda>m. ?M m \<and> holds_str (tm_path_arena m) pr pp) S) (\<lambda>_. unbuilt f0 out s0) c"
      by (rule wpE_push_path_of[OF c]) (use filling_push in auto)
    then show ?thesis
    proof (rule wpE_seq)
      fix pr d
      assume d: "building f0 out s0 (\<lambda>m. ?M m \<and> holds_str (tm_path_arena m) pr pp) S d"
      have "wpE (push_path_of final) (\<lambda>fr. building f0 out s0 (\<lambda>m. ?M m \<and> k < u32_lim \<and> k < pa_used (tm_path_arena m) \<and> length final < u32_lim
          \<and> both_held m pr pp fr final) S) (\<lambda>_. unbuilt f0 out s0) d"
      proof (rule wpE_push_path_of[OF d])
        fix m r a
        assume m: "?M m \<and> holds_str (tm_path_arena m) pr pp" and push: "arena_push final (tm_path_arena m) = Inr (r, a)"
        note f = filling_push[OF conjunct1[OF m] push]
        have "k \<le> pa_used (tm_path_arena m)" using m by (simp add: filling_def)
        moreover have "pa_used a = pa_used (tm_path_arena m) + length final" using f(2) by (simp add: grows_def)
        ultimately show "?M (m\<lparr>tm_path_arena := a\<rparr>) \<and> k < u32_lim \<and> k < pa_used (tm_path_arena (m\<lparr>tm_path_arena := a\<rparr>)) \<and> length final < u32_lim
            \<and> both_held (m\<lparr>tm_path_arena := a\<rparr>) pr pp r final"
          using f m grows_holds[OF f(2)] ne by (cases final) (auto simp: both_held_def)
      qed
      then show "wpE (bindE (push_path_of final) (\<lambda>fr. set_entry k (\<lambda>e. e\<lparr>me_staged_path := sr, me_staged_identity := si,
          me_partial_path := pr, me_final_path := fr\<rparr>))) (\<lambda>_. building f0 out s0 ?N S) (\<lambda>_. unbuilt f0 out s0) d"
        unfolding set_entry_def
        by (rule wpE_seq, elim wpE_set_manifest) (use filling_entry[where ?f0.0 = f0 and parent = parent, OF _ k _ _ _ _ final(2,1,3) src] in blast)
    qed
  qed
  show ?thesis
    unfolding record_entry_def prod.case
    apply (rule wpE_lift_building[OF b], rule wpE_lift_building[OF b], rule wpE_lift_building[OF b])
    apply (rule wpE_seq[OF wpE_push_path_of[where M' = "\<lambda>_. ?M", OF b]], erule (1) filling_push)
    apply (rule wpE_lift_building, assumption, rule wpE_lift_building, assumption)
    apply (rule wpE_seq[OF wpE_open_staged], assumption, elim conjE exE)
    apply (rule wpE_seq[OF wpE_look_building], rule looks_report[OF looks_calls(4)], assumption)
    apply (rule pushed, assumption, auto)
    done
qed

lemma wpE_record_entries:
  assumes "building f0 out s0 (filling env planned i f0 parent 0) S b"
  shows "wpE (forE (record_entry env parent i) (enumerate 0 planned))
    (\<lambda>_. building f0 out s0 (filling env planned i f0 parent (length planned)) S) (\<lambda>_. unbuilt f0 out s0) b"
proof -
  have "wpE (record_entry env parent i (enumerate 0 planned ! k)) (\<lambda>_. building f0 out s0 (filling env planned i f0 parent (Suc k)) S) (\<lambda>_. unbuilt f0 out s0) c"
    if "k < length (enumerate 0 planned)" "building f0 out s0 (filling env planned i f0 parent k) S c" for k c
    using wpE_record_entry[OF that(2)] that(1) by (cases "planned ! k") (auto simp: nth_enumerate_eq)
  from wpE_for_nth[where P = "\<lambda>k. building f0 out s0 (filling env planned i f0 parent k) S", OF this assms] show ?thesis by simp
qed

lemma filling_recorded:
  assumes m: "filling env planned i f0 parent (length planned) m"
  shows "plan_recorded env planned i m"
    and "\<forall>pf \<in> set planned. \<exists>name src. path_file_name (fst pf) = Some name \<and> f0 (parent @ [Normal name]) = Some src"
    and "\<forall>pf \<in> set planned. length (snd pf) < u32_lim" and "length planned \<le> u32_lim"
proof -
  have e: "entry_filled env i f0 parent (tm_path_arena m) (entries_of m ! j) (planned ! j)" if "j < length planned" for j
    using m that by (simp add: filling_def entries_of_def)
  have "length (entries_of m) = length planned" using m by (simp add: filling_def entries_of_def)
  with e show "plan_recorded env planned i m"
    by (simp add: plan_recorded_def entry_filled_def holds_str_def manifest_path_def case_prod_beta) blast
  show "\<forall>pf \<in> set planned. \<exists>name src. path_file_name (fst pf) = Some name \<and> f0 (parent @ [Normal name]) = Some src"
    "\<forall>pf \<in> set planned. length (snd pf) < u32_lim"
    using e by (simp_all add: all_set_conv_all_nth entry_filled_def case_prod_beta)
  show "length planned \<le> u32_lim" using m by (simp add: filling_def)
qed

end
