(* ===== verification/Publication_Parents.thy ===== *)
theory Publication_Parents
  imports Publication_Prepare
begin

text \<open>
  The directories between the output root and a final file: a prefix of the final path that ends
  with a component names the directory, and each is registered for synchronization.
\<close>

section \<open>Prefixes of a path\<close>

abbreviation pieces_components :: "string \<Rightarrow> path_component list" where
  "pieces_components r \<equiv> map component_of (filter named_piece (split_on (CHR ''/'') r))"

definition component_start :: "nat \<Rightarrow> nat" where
  "component_start n = (if n = 1 then 1 else n + 1)"

text \<open>A component of the path ends at byte \<open>n\<close>, and a separator follows, or the path is at its root.\<close>

definition spelled :: "string \<Rightarrow> nat \<Rightarrow> bool" where
  "spelled s n \<longleftrightarrow> starts_slash s \<and> 0 < n \<and> component_start n \<le> length s \<and> s ! (component_start n - 1) = CHR ''/''"

lemma starts_slash_take: "starts_slash s \<Longrightarrow> 0 < n \<Longrightarrow> starts_slash (take n s)"
  by (cases s; cases n) (simp_all add: starts_slash_def)

lemma spelled_components:
  assumes "spelled s n"
  shows "path_components s = path_components (take n s) @ pieces_components (drop (component_start n) s)"
proof (cases "n = 1")
  case True
  then obtain r where "s = CHR ''/'' # r" using assms by (cases s) (auto simp: spelled_def starts_slash_def)
  then show ?thesis using True by (simp add: component_start_def path_components_absolute starts_slash_def)
next
  case False
  then have n: "n < length s" "s ! n = CHR ''/''" "starts_slash (take n s)" "starts_slash s"
    using assms by (auto simp: spelled_def component_start_def starts_slash_def split: list.splits) (cases n; simp)
  have s: "s = take n s @ CHR ''/'' # drop (Suc n) s" using id_take_nth_drop[OF n(1)] n(2) by simp
  have "pieces_components s = pieces_components (take n s) @ pieces_components (drop (Suc n) s)"
    by (subst (1) s, subst split_on_append) simp
  then show ?thesis using n(3,4) False by (simp add: path_components_absolute component_start_def)
qed

lemma split_on_prefix: "c \<notin> set p \<Longrightarrow> split_on c (p @ r) = (p @ hd (split_on c r)) # tl (split_on c r)"
proof (induction p)
  case Nil
  then show ?case by (cases "split_on c r") auto
qed auto

lemma normal_component:
  assumes "Normal name \<in> set (path_components s)"
  shows "plain_piece name" and "CHR ''/'' \<notin> set name"
  using assms split_on_pieces[of name "CHR ''/''" s]
  by (auto simp: path_components_def Let_def component_of_def plain_piece_def split: if_splits)

lemma spelled_next:
  assumes s: "spelled s n" and comps: "path_components s = path_components (take n s) @ Normal name # parts @ [Normal fn]"
    and n': "next_component_prefix_len s n name = Inr n'"
  shows "spelled s n'" and "path_components (take n' s) = path_components (take n s) @ [Normal name]"
proof -
  define st where "st = component_start n"
  have e: "n' = st + length name" "drop st (take n' s) = name" "n' \<le> length s"
    using n' by (auto simp: next_component_prefix_len_def st_def component_start_def Let_def bindR_Inr_iff is_char_boundary_def split: if_splits)
  have name: "plain_piece name" "CHR ''/'' \<notin> set name" using normal_component[of name s] comps by simp_all
  have r: "drop st s = name @ drop n' s"
    using e by (metis append_take_drop_id drop_drop add.commute take_drop length_take)
  define z where "z = hd (split_on (CHR ''/'') (drop n' s))"
  define zs where "zs = tl (split_on (CHR ''/'') (drop n' s))"
  have "pieces_components (drop st s) = Normal name # parts @ [Normal fn]"
    using spelled_components[OF s] comps by (simp add: st_def)
  moreover have sp: "split_on (CHR ''/'') (drop st s) = (name @ z) # zs" unfolding r z_def zs_def by (rule split_on_prefix[OF name(2)])
  moreover have "named_piece (name @ z)" using name(1) by (cases name) (auto simp: plain_piece_def)
  ultimately have c: "component_of (name @ z) = Normal name" "map component_of (filter named_piece zs) = parts @ [Normal fn]" by simp_all
  then have "z = []" by (auto simp: component_of_def split: if_splits)
  moreover have "zs \<noteq> []" using c(2) by auto
  ultimately have "\<exists>q. drop n' s = CHR ''/'' # q"
    using z_def zs_def hd_split_on[of "drop n' s" "CHR ''/''"] by (cases "drop n' s") (auto split: if_splits)
  then have after: "n' < length s" "s ! n' = CHR ''/''" by (auto simp: nth_via_drop intro: ccontr)
  have st: "0 < st" "n \<le> st" "0 < length name" using s name(1) by (auto simp: st_def component_start_def spelled_def plain_piece_def)
  then have "1 < n'" unfolding e(1) by linarith
  then show "spelled s n'" using after s by (simp add: spelled_def component_start_def)
  have "starts_slash (take n' s)" using s \<open>1 < n'\<close> starts_slash_take by (simp add: spelled_def)
  moreover have "take n' s ! (st - 1) = s ! (st - 1)" using st unfolding e(1) by (intro nth_take) linarith
  ultimately have "spelled (take n' s) n" using s e(1,3) by (simp add: spelled_def st_def[symmetric])
  from spelled_components[OF this] have "path_components (take n' s) = path_components (take n s) @ pieces_components name"
    using e st by (simp add: st_def[symmetric] min_def)
  then show "path_components (take n' s) = path_components (take n s) @ [Normal name]"
    using name by (auto simp: split_on_single component_of_def plain_piece_def)
qed

section \<open>Slots of directories to synchronize\<close>

definition has_slot :: "(string \<times> string) list \<Rightarrow> directory_sync_slot list \<Rightarrow> path_component list \<Rightarrow> bool" where
  "has_slot planned slots cs \<longleftrightarrow> (\<exists>slot \<in> set slots. \<exists>parent. ds_active slot
     \<and> slot_parent planned slot = Inr parent \<and> path_components parent = cs)"

definition covers :: "(string \<times> string) list \<Rightarrow> path_component list set \<Rightarrow> directory_sync_slot list \<Rightarrow> bool" where
  "covers planned C slots \<longleftrightarrow> (\<forall>cs \<in> C. has_slot planned slots cs)"

lemma path_prefix_take: "path_prefix s n = Inr p \<Longrightarrow> p = take n s \<and> n \<le> length s"
  by (auto simp: path_prefix_def str_get_to_def is_char_boundary_def split: if_splits)

lemma try_fold_found:
  assumes "try_fold (\<lambda>found a. if found then Inr True else if A a then Inl e else bindR (f a) (\<lambda>r. Inr (g r))) found xs = Inr res" and res
  shows "found \<or> (\<exists>a \<in> set xs. \<exists>r. f a = Inr r \<and> g r)"
  using assms by (induction xs arbitrary: found) (fastforce simp: bindR_Inr_iff split: if_splits)+

lemma takeWhile_update_keeps:
  "a \<in> set xs \<Longrightarrow> P a \<Longrightarrow> a \<in> set (xs[length (takeWhile P xs) := b])"
  by (induction xs) auto

lemma takeWhile_update_sets: "list_ex (\<lambda>a. \<not> P a) xs \<Longrightarrow> b \<in> set (xs[length (takeWhile P xs) := b])"
  by (induction xs) auto

lemma wpE_add_directory_sync:
  assumes b: "building f0 out s0 M (covers planned C) b"
    and lim: "\<forall>pf \<in> set planned. length (snd pf) < u32_lim" "length planned \<le> u32_lim"
  shows "wpE (add_directory_sync planned e n)
    (\<lambda>_. building f0 out s0 M (covers planned (insert (path_components (take n (snd (planned ! e)))) C))) (\<lambda>_. unbuilt f0 out s0) b"
proof (cases "e < length planned")
  case False
  then show ?thesis using building_unbuilt[OF b] by (simp add: add_directory_sync_def wpE_bind wpE_basic)
next
  case True
  let ?p = "take n (snd (planned ! e))" and ?l = "pb_sync_slots b"
  let ?slot = "\<lparr>ds_entry_index = e mod u32_lim, ds_prefix_len = n mod u32_lim, ds_active = True\<rparr>"
  let ?l' = "?l[length (takeWhile ds_active ?l) := ?slot]"
  have C: "covers planned C ?l" "unbuilt f0 out s0 b" "M (pb_manifest b)" using b by (simp_all add: building_def)
  have added: "covers planned (insert (path_components ?p) C) ?l'"
    if p: "path_prefix (snd (planned ! e)) n = Inr q" and room: "list_ex (\<lambda>slot. \<not> ds_active slot) ?l" for q
  proof -
    have "length (snd (planned ! e)) < u32_lim" using lim(1) nth_mem[OF True] by blast
    then have small: "e < u32_lim" "n < u32_lim" using True lim(2) path_prefix_take[OF p] by linarith+
    then have "slot_parent planned ?slot = Inr ?p" using p path_prefix_take[OF p] by (simp add: slot_parent_def)
    moreover have "?slot \<in> set ?l'" by (rule takeWhile_update_sets[OF room])
    ultimately have "has_slot planned ?l' (path_components ?p)" unfolding has_slot_def by force
    moreover have "has_slot planned ?l' cs" if "has_slot planned ?l cs" for cs
      using that takeWhile_update_keeps[where P = ds_active and b = ?slot] unfolding has_slot_def by blast
    ultimately show ?thesis using C(1) by (simp add: covers_def)
  qed
  show ?thesis
    unfolding add_directory_sync_def wpE_bind[where m = "ensureE _ _"] wpE_basic if_P[OF True]
    apply (rule wpE_lift_building[OF b])
    apply (rule wpE_getE_is[OF refl])
    apply (rule wpE_lift_building[OF b])
    subgoal for q found
    proof (cases found)
      case True
      assume q: "path_prefix (snd (planned ! e)) n = Inr q" and fold: "try_fold (\<lambda>found slot.
              if found then Inr True
              else if length planned \<le> ds_entry_index slot then Inl (ExportInvariant ''directory sync entry is invalid'')
              else bindR (path_prefix (snd (planned ! ds_entry_index slot)) (ds_prefix_len slot)) (\<lambda>existing.
                   Inr (path_components existing = path_components q))) False (filter ds_active ?l) = Inr found"
      have "has_slot planned ?l (path_components q)"
        using try_fold_found[OF fold True] by (auto simp: has_slot_def slot_parent_def)
      then show ?thesis using True C path_prefix_take[OF q] by (simp add: wpE_basic building_def covers_def)
    next
      case False
      assume "path_prefix (snd (planned ! e)) n = Inr q"
      with False C(2,3) added show ?thesis by (simp add: wpE_bind wpE_basic building_def)
    qed
    done
qed


section \<open>Registering the directories of a file\<close>

lemma filling_intent:
  assumes "push_directory_intent e n m = Inr (j, m')" and "filling env planned i f0 parent k m"
  shows "filling env planned i f0 parent k m'"
  using assms by (auto simp: push_directory_intent_def filling_def started_def Let_def split: if_splits)

lemma wpE_register_intent:
  assumes b: "building f0 out s0 (filling env planned i f0 parent k) S b"
  shows "wpE (register_intent final e n) (\<lambda>_. building f0 out s0 (filling env planned i f0 parent k) S) (\<lambda>_. unbuilt f0 out s0) b"
  unfolding register_intent_def
  apply (rule wpE_lift_building[OF b])
  apply (rule wpE_getE_is[OF refl])
  using b by (auto simp: wpE_basic building_def wpE_bind dest: filling_intent split: sum.split)

lemma wpE_register_parents:
  assumes b: "building f0 out s0 (filling env planned i f0 parent k) (covers planned C) b" and e: "snd (planned ! e) = final"
    and lim: "\<forall>pf \<in> set planned. length (snd pf) < u32_lim" "length planned \<le> u32_lim"
    and s: "spelled final n" "path_components final = path_components (take n final) @ parts @ [Normal fn]"
    and c: "path_components (take n final) \<in> C"
  shows "wpE (register_parents env planned e final directory n parts)
    (\<lambda>_. building f0 out s0 (filling env planned i f0 parent k) (covers planned (insert (path_components (take n final) @ parts) C))) (\<lambda>_. unbuilt f0 out s0) b"
  using b s c
proof (induction parts arbitrary: directory n b C)
  case Nil
  then show ?case by (simp add: wpE_basic insert_absorb)
next
  case (Cons part parts)
  let ?M = "filling env planned i f0 parent k"
  show ?case
  proof (cases part)
    case (Normal name)
    have look: "wpE (case directory of None \<Rightarrow> retE None | Some parent \<Rightarrow>
        bindE (liftE (prepare_component env final name)) (\<lambda>_. bindE (onfs (open_dir_at (parent @ [Normal name]))) (\<lambda>r. case r of
            Inr _ \<Rightarrow> retE (Some (parent @ [Normal name])) | Inl NotFound \<Rightarrow> retE None
          | Inl e \<Rightarrow> failE (io_error final (show_errno e))))) (\<lambda>_. building f0 out s0 ?M (covers planned C')) (\<lambda>_. unbuilt f0 out s0) d"
      if d: "building f0 out s0 ?M (covers planned C') d" for C' d
      using d building_unbuilt
      by (auto simp: wpE_basic intro!: wpE_lift_building[OF d] wpE_seq[OF wpE_look_building[OF looks_calls(1) d]] split: option.split sum.split errno.split)
    have rest: "wpE (bindE (if nxt = None then register_intent final e n' else retE ()) (\<lambda>_. register_parents env planned e final nxt n' parts))
        (\<lambda>_. building f0 out s0 ?M (covers planned (insert (path_components (take n final) @ part # parts) C))) (\<lambda>_. unbuilt f0 out s0) d"
      if d: "building f0 out s0 ?M (covers planned (insert (path_components (take n' final)) C)) d" and n': "next_component_prefix_len final n name = Inr n'" for n' nxt d
    proof -
      note sp = spelled_next[OF Cons.prems(2) Cons.prems(3)[unfolded Normal append_Cons] n']
      have "wpE (if nxt = None then register_intent final e n' else retE ()) (\<lambda>_. building f0 out s0 ?M (covers planned (insert (path_components (take n' final)) C))) (\<lambda>_. unbuilt f0 out s0) d"
        using wpE_register_intent[OF d] d by (simp add: wpE_basic)
      then show ?thesis
      proof (rule wpE_seq)
        fix c
        assume c: "building f0 out s0 ?M (covers planned (insert (path_components (take n' final)) C)) c"
        have "path_components final = path_components (take n' final) @ parts @ [Normal fn]" using Cons.prems(3) by (simp add: sp(2) Normal)
        from Cons.IH[OF c sp(1) this] show "wpE (register_parents env planned e final nxt n' parts)
            (\<lambda>_. building f0 out s0 ?M (covers planned (insert (path_components (take n final) @ part # parts) C))) (\<lambda>_. unbuilt f0 out s0) c"
          by (rule wpE_mono) (auto simp: sp(2) Normal building_def covers_def)
      qed
    qed
    show ?thesis
      unfolding Normal register_parents.simps
      apply (rule wpE_lift_building[OF Cons.prems(1)])
      apply (rule wpE_seq[OF wpE_add_directory_sync[OF Cons.prems(1) lim]])
      apply (rule wpE_seq[OF look], simp only: e)
      apply (rule rest[unfolded Normal], assumption+)
      done
  qed (use building_unbuilt[OF Cons.prems(1)] in \<open>simp_all add: wpE_basic\<close>)
qed


text \<open>A final path that continues the output path as it is written.\<close>

definition lies_below :: "string \<Rightarrow> string \<Rightarrow> bool" where
  "lies_below out final \<longleftrightarrow> (ends_slash out \<longrightarrow> out = ''/'') \<and> take (length (path_join out [])) final = path_join out []"

lemma lies_below_spelled:
  assumes "lies_below out final" and "is_absolute out"
  shows "spelled final (length out)" and "take (length out) final = out" and "starts_slash final"
proof -
  have out: "out = ''/'' \<or> (\<not> ends_slash out \<and> 1 < length out)"
  proof -
    have "ends_slash out \<longrightarrow> out = ''/''" using assms(1) by (simp add: lies_below_def)
    moreover obtain o' where "out = CHR ''/'' # o'" using assms(2) by (cases out) (auto simp: is_absolute_def starts_slash_def)
    ultimately show ?thesis by (cases o') simp_all
  qed
  define r where "r = drop (length (path_join out [])) final"
  have final: "final = path_join out [] @ r" using assms(1) append_take_drop_id[of "length (path_join out [])" final] by (simp add: lies_below_def r_def)
  have "spelled final (length out) \<and> take (length out) final = out \<and> starts_slash final"
  proof (cases "out = ''/''")
    case True
    then show ?thesis unfolding final by (simp add: path_join_def starts_slash_def ends_slash_def spelled_def component_start_def)
  next
    case False
    with out have "final = out @ CHR ''/'' # r" "1 < length out" unfolding final by (auto simp: path_join_def starts_slash_def)
    moreover from this assms(2) have "starts_slash final" by (cases out) (simp_all add: is_absolute_def starts_slash_def)
    ultimately show ?thesis by (auto simp: spelled_def component_start_def)
  qed
  then show "spelled final (length out)" "take (length out) final = out" "starts_slash final" by simp_all
qed

lemma wpE_register_file:
  assumes b: "building f0 rt s0 (filling env planned i f0 parent k) (covers planned C) b" and e: "planned ! e = (staged, final)"
    and lim: "\<forall>pf \<in> set planned. length (snd pf) < u32_lim" "length planned \<le> u32_lim"
    and out: "is_absolute out" "path_components out \<in> C" and final: "lies_below out final" "path_file_name final = Some fn"
  shows "wpE (register_file_set_parent_intents env tr planned out (e, staged, final))
    (\<lambda>_. building f0 rt s0 (filling env planned i f0 parent k) (covers planned (insert (butlast (path_components final)) C))) (\<lambda>_. unbuilt f0 rt s0) b"
proof -
  note below = lies_below_spelled[OF final(1) out(1)]
  have e': "snd (planned ! e) = final" by (simp add: e)
  show ?thesis
    unfolding register_file_set_parent_intents_def prod.case
  proof (rule wpE_lift_building[OF b], rule wpE_seq[OF wpE_look_building[OF looks_root(2) b]], rule wpE_seq[OF wpE_look_building[OF looks_root(3)]])
    fix relative rt' c
    assume rel: "relative_parent out final = Inr relative" and c: "building f0 rt s0 (filling env planned i f0 parent k) (covers planned C) c"
    have comps: "path_components final = path_components out @ relative @ [Normal fn]" using output_path_components[OF below(3) rel final(2)] by simp
    from wpE_register_parents[OF c e' lim below(1), where parts = relative and fn = fn and directory = "Some rt'"] out(2)
    show "wpE (register_parents env planned e final (Some rt') (length out) relative)
        (\<lambda>_. building f0 rt s0 (filling env planned i f0 parent k) (covers planned (insert (butlast (path_components final)) C))) (\<lambda>_. unbuilt f0 rt s0) c"
      by (simp add: below(2) comps butlast_append)
  qed
qed

lemma wpE_register_files:
  assumes b: "building f0 rt s0 (filling env planned i f0 parent (length planned)) (covers planned {path_components out}) b"
    and out: "is_absolute out" and below: "\<forall>pf \<in> set planned. lies_below out (snd pf)"
  shows "wpE (forE (register_file_set_parent_intents env tr planned out) (enumerate 0 planned))
    (\<lambda>_. building f0 rt s0 (filling env planned i f0 parent (length planned)) (parents_slotted planned)) (\<lambda>_. unbuilt f0 rt s0) b"
proof -
  define C where "C k = insert (path_components out) ((\<lambda>j. butlast (path_components (snd (planned ! j)))) ` {..<k})" for k
  let ?M = "filling env planned i f0 parent (length planned)"
  have m: "?M (pb_manifest b)" using b by (simp add: building_def)
  note lim = filling_recorded(3,4)[OF m]
  have "wpE (register_file_set_parent_intents env tr planned out (enumerate 0 planned ! k)) (\<lambda>_. building f0 rt s0 ?M (covers planned (C (Suc k)))) (\<lambda>_. unbuilt f0 rt s0) c"
    if k: "k < length (enumerate 0 planned)" and c: "building f0 rt s0 ?M (covers planned (C k)) c" for k c
  proof -
    obtain staged final where sf: "planned ! k = (staged, final)" by force
    have mem: "(staged, final) \<in> set planned" using k sf by (metis length_enumerate nth_mem)
    have "lies_below out final" using below mem by force
    moreover obtain fn where "path_file_name final = Some fn" using filling_recorded(1)[OF m] k sf by (auto simp: plan_recorded_def)
    moreover have "insert (butlast (path_components final)) (C k) = C (Suc k)" by (auto simp: C_def lessThan_Suc sf)
    moreover have "path_components out \<in> C k" by (simp add: C_def)
    ultimately show ?thesis using wpE_register_file[OF c sf lim out] k sf by (simp add: nth_enumerate_eq)
  qed
  from wpE_for_nth[where P = "\<lambda>k. building f0 rt s0 ?M (covers planned (C k))", OF this] b
  have "wpE (forE (register_file_set_parent_intents env tr planned out) (enumerate 0 planned))
    (\<lambda>_. building f0 rt s0 ?M (covers planned (C (length planned)))) (\<lambda>_. unbuilt f0 rt s0) b" by (simp add: C_def)
  moreover have "parents_slotted planned slots" if "covers planned (C (length planned)) slots" for slots
    unfolding parents_slotted_def has_slot_def[symmetric]
  proof
    fix pf assume "pf \<in> set planned"
    then obtain j where "j < length planned" "pf = planned ! j" by (metis in_set_conv_nth)
    then show "has_slot planned slots (butlast (path_components (snd pf)))" using that by (simp add: covers_def C_def)
  qed
  ultimately show ?thesis by (auto simp: building_def elim!: wpE_mono)
qed

section \<open>The whole preparation\<close>

lemma looks_absent: "looks (forE (\<lambda>(a, final). ensure_final_absent env tr final) planned)"
  by (auto intro!: looking)

lemma wpE_prepare_file_set:
  assumes b: "opened f0 (path_components out) s0 (pb_fs b)" "pb_manifest_identity b = None" "started (pb_manifest b)"
    and below: "\<forall>pf \<in> set planned. lies_below out (snd pf)"
  shows "wpE (prepare_file_set env planned staging i out sid)
    (\<lambda>tr b'. building f0 (path_components out) s0 (filling env planned i f0 (path_components staging) (length planned)) (parents_slotted planned) b'
       \<and> tr_output tr = path_components out \<and> is_absolute out) (\<lambda>_. unbuilt f0 (path_components out) s0) b"
proof -
  let ?B = "building f0 (path_components out) s0"
  have tr: "wpE (onfs (trusted_root_open env out)) (\<lambda>tr b'. ?B started (\<lambda>_. True) b' \<and> tr_output tr = path_components out \<and> is_absolute out)
      (\<lambda>_. unbuilt f0 (path_components out) s0) b"
    unfolding wpE_onfs by (rule wpE_mono[OF wpE_trusted_root_open[OF b(1)]]) (use b(2,3) in \<open>auto simp: building_def unbuilt_def\<close>)
  have first: "take (length out) (snd (planned ! 0)) = out" if "is_absolute out" "planned \<noteq> []"
    using below that lies_below_spelled(2)[OF _ that(1)] by (cases planned) auto
  have sync: "wpE (add_directory_sync planned 0 (length out)) (\<lambda>_. ?B M (covers planned {path_components out})) (\<lambda>_. unbuilt f0 (path_components out) s0) c"
    if c: "?B M (\<lambda>_. True) c" and M: "M = filling env planned i f0 (path_components staging) (length planned)" and abs: "is_absolute out" for c M
  proof (cases "planned = []")
    case True
    then show ?thesis using building_unbuilt[OF c] by (simp add: add_directory_sync_def wpE_bind wpE_basic)
  next
    case False
    have c': "?B M (covers planned {}) c" using c by (simp add: building_def covers_def)
    have "M (pb_manifest c)" using c by (simp add: building_def)
    note lim = filling_recorded(3,4)[OF this[unfolded M]]
    from wpE_add_directory_sync[OF c' lim, of 0 "length out"] show ?thesis by (simp add: first[OF abs False])
  qed
  show ?thesis
    unfolding prepare_file_set_def
    apply (rule wpE_seq[OF tr], elim conjE)
    apply (rule wpE_seq[OF wpE_look_building], rule looks_report[OF looks_calls(3)], assumption)
    apply (rule wpE_seq[OF wpE_begin_manifest], assumption)
    apply (rule wpE_seq[OF wpE_count_entries[where env = env and i = i and parent = "path_components staging"]], assumption)
    apply (rule wpE_seq[OF wpE_record_entries], assumption)
    apply (rule wpE_seq[OF wpE_look_building[OF looks_absent]], assumption)
    apply (rule wpE_seq[OF sync[OF _ refl]], assumption, assumption)
    apply (rule wpE_seq[OF wpE_register_files[OF _ _ below]], assumption, assumption)
    apply (simp add: wpE_basic)
    done
qed

end
