(* ===== verification/Publication_Dump.thy ===== *)
theory Publication_Dump
  imports Publication_Parents
begin

text \<open>
  Publishing a directory: the staged directory takes its final name in one rename, with the
  manifest beside it.
\<close>

section \<open>Renaming a directory\<close>

definition moved :: "fs_path \<Rightarrow> fs_path \<Rightarrow> (fs_path \<Rightarrow> inode option) \<Rightarrow> fs_path \<Rightarrow> inode option" where
  "moved old new f q = (if within new q then f (rebase new old q) else if within old q then None else f q)"

lemma rebase_keys:
  assumes "\<not> within new k"
  shows "within new q \<Longrightarrow> (if within old k then rebase old new k else k) = q \<longleftrightarrow> k = rebase new old q"
    and "\<not> within new q \<Longrightarrow> (if within old k then rebase old new k else k) = q \<longleftrightarrow> \<not> within old q \<and> k = q"
proof -
  have app: "within (p :: fs_path) z \<longleftrightarrow> (\<exists>r. z = p @ r)" for p z by (rule within_append)
  show "within new q \<Longrightarrow> (if within old k then rebase old new k else k) = q \<longleftrightarrow> k = rebase new old q"
    using assms by (auto simp: app rebase_def)
  show "\<not> within new q \<Longrightarrow> (if within old k then rebase old new k else k) = q \<longleftrightarrow> \<not> within old q \<and> k = q"
    by (auto simp: app rebase_def)
qed

lemma map_of_moved:
  assumes "\<And>k n. (k, n) \<in> set es \<Longrightarrow> \<not> within new k"
  shows "map_of (map (\<lambda>(k, n). (if within old k then rebase old new k else k, n)) es) = moved old new (map_of es)"
  using assms
proof (induction es)
  case Nil
  then show ?case by (auto simp: moved_def)
next
  case (Cons e es)
  obtain k n where e: "e = (k, n)" by force
  have k: "\<not> within new k" using Cons.prems[of k n] by (simp add: e)
  have IH: "map_of (map (\<lambda>(k, n). (if within old k then rebase old new k else k, n)) es) = moved old new (map_of es)"
    using Cons.prems by (intro Cons.IH) auto
  show ?case
  proof
    fix q
    show "map_of (map (\<lambda>(k, n). (if within old k then rebase old new k else k, n)) (e # es)) q = moved old new (map_of (e # es)) q"
      using rebase_keys[OF k, of q old] IH by (cases "within new q") (auto simp: e moved_def)
  qed
qed

lemma wpE_rename_tree:
  assumes tree: "tree (node_at s)" and new: "new \<noteq> []"
    and "\<And>t e. same_nodes s t \<Longrightarrow> Q (Inl e) t"
    and "\<And>t. node_at s old \<noteq> None \<Longrightarrow> node_at s new = None \<Longrightarrow> node_at t = moved old new (node_at s) \<Longrightarrow> log_grows s t
      \<Longrightarrow> fs_log t = fs_log s @ [Renamed old new] \<Longrightarrow> Q (Inr ()) t"
  shows "wpE (rename_noreplace old new) Q E s"
  unfolding rename_noreplace_def
proof (rule wpE_syscall)
  fix t u and r :: "errno + unit"
  assume t: "same_files s t" and run: "(if map_of (fs_entries t) old = None then (t, Inl NotFound)
      else if map_of (fs_entries t) new \<noteq> None then (t, Inl AlreadyExists)
      else (t\<lparr>fs_entries := map (\<lambda>(q, n). (if within old q then rebase old new q else q, n)) (fs_entries t),
              fs_log := fs_log t @ [Renamed old new]\<rparr>, Inr ())) = (u, r)"
  have eq: "fs_entries t = fs_entries s" "fs_log t = fs_log s" using t by (simp_all add: same_files_def)
  show "Q r u"
  proof (cases r)
    case (Inl e)
    with run assms(3)[OF same_files_nodes[OF t]] show ?thesis by (auto split: if_splits)
  next
    case (Inr x)
    then have new': "node_at s new = None" and old: "node_at s old \<noteq> None"
      and u: "u = t\<lparr>fs_entries := map (\<lambda>(q, n). (if within old q then rebase old new q else q, n)) (fs_entries s),
              fs_log := fs_log s @ [Renamed old new]\<rparr>"
      using run eq by (auto simp: node_at_def split: if_splits)
    have "\<not> within new k" if "(k, n) \<in> set (fs_entries s)" for k n
    proof
      assume "within new k"
      then obtain z where "k = new @ z" by (auto simp: within_append)
      then have "node_at s k = None" using new' tree_nothing_below[OF tree _ new, of z] by (cases "z = []") auto
      with that show False by (force simp: node_at_def map_of_eq_None_iff)
    qed
    then have "node_at u = moved old new (node_at s)" using map_of_moved[of "fs_entries s" new old] by (simp add: u node_at_def)
    with new' old show ?thesis unfolding Inr by (cases x) (auto intro!: assms(4) simp: u log_grows_def eq)
  qed
qed (rule assms(3)[OF same_files_nodes])

lemma moved_tree:
  assumes "tree f" and "f (p @ [a]) \<noteq> None" and "a \<noteq> c"
  shows "tree (moved (p @ [a]) (p @ [c]) f)"
  unfolding tree_def
proof (intro allI impI)
  fix q n
  assume q: "moved (p @ [a]) (p @ [c]) f q = Some n"
  let ?m = "moved (p @ [a]) (p @ [c]) f"
  have up: "within x (butlast q) \<Longrightarrow> within x q" for x :: fs_path
    by (cases q rule: rev_cases) (auto simp: within_append)
  have short: "\<not> within (p @ [x]) p" for x by (auto simp: within_append)
  show "q \<noteq> [] \<and> (1 < length q \<longrightarrow> (\<exists>d. ?m (butlast q) = Some d \<and> in_kind d = Directory))"
  proof (cases "within (p @ [c]) q")
    case False
    then have "f q = Some n" "\<not> within (p @ [a]) q" using q by (auto simp: moved_def split: if_splits)
    moreover from this False up have "?m (butlast q) = f (butlast q)" by (auto simp: moved_def)
    ultimately show ?thesis using assms(1) by (auto simp: tree_def)
  next
    case True
    then obtain r where r: "q = p @ [c] @ r" by (auto simp: within_append)
    with q have f: "f (p @ [a] @ r) = Some n" by (auto simp: moved_def within_append rebase_def)
    show ?thesis
    proof (cases "r = []")
      case True
      have "\<exists>d. f p = Some d \<and> in_kind d = Directory" if "p \<noteq> []"
        using tree_directory[OF assms(1) f] that True by (cases p) auto
      moreover have "?m p = f p" using short by (simp add: moved_def)
      ultimately show ?thesis by (auto simp: r True)
    next
      case False
      have "?m (butlast q) = f (p @ [a] @ butlast r)" using False by (auto simp: r moved_def within_append rebase_def butlast_append)
      moreover have "\<exists>d. f (butlast (p @ [a] @ r)) = Some d \<and> in_kind d = Directory"
        using False by (intro tree_directory[OF assms(1) f]) (cases r; simp)
      ultimately show ?thesis using False by (simp add: r butlast_append)
    qed
  qed
qed

section \<open>Filling in the manifest\<close>

definition dump_header :: "string \<Rightarrow> file_identity \<Rightarrow> transaction_manifest \<Rightarrow> bool" where
  "dump_header staging sid m \<longleftrightarrow> started m \<and> tm_kind m = KindAtomicDirectory
     \<and> holds_str (tm_path_arena m) (tm_staging_root_path m) staging \<and> tm_staging_root_identity m = Some sid"

definition dump_final :: "string \<Rightarrow> file_identity \<Rightarrow> transaction_manifest \<Rightarrow> bool" where
  "dump_final out sid m \<longleftrightarrow> holds_str (tm_path_arena m) (tm_final_directory_path m) out \<and> tm_final_directory_identity m = Some sid"

definition dump_filling :: "(string \<times> string) list \<Rightarrow> string \<Rightarrow> string \<Rightarrow> file_identity \<Rightarrow> nat \<Rightarrow> transaction_manifest \<Rightarrow> bool" where
  "dump_filling planned staging out sid k m \<longleftrightarrow> dump_header staging sid m \<and> dump_final out sid m
     \<and> tm_entry_count m = length planned \<and> length planned \<le> length (tm_slots m)
     \<and> (\<forall>j < k. holds_str (tm_path_arena m) (me_staged_path (tm_slots m ! j)) (fst (planned ! j)))"

lemma dump_pushes:
  assumes "arena_push v (tm_path_arena m) = Inr (r, a)"
  shows "started m \<Longrightarrow> started (m\<lparr>tm_path_arena := a\<rparr>) \<and> holds_str a r v"
    and "dump_header staging sid m \<Longrightarrow> dump_header staging sid (m\<lparr>tm_path_arena := a\<rparr>) \<and> holds_str a r v"
    and "dump_filling planned staging out sid k m \<Longrightarrow> dump_filling planned staging out sid k (m\<lparr>tm_path_arena := a\<rparr>)
           \<and> (\<forall>q w. holds_str (tm_path_arena m) q w \<longrightarrow> holds_str a q w) \<and> holds_str a r v"
proof -
  have g: "grows (length v) (tm_path_arena m) a \<and> holds_str a r v" if "started m"
    using push_grows[OF assms] that by (simp add: started_def)
  show st: "started m \<Longrightarrow> started (m\<lparr>tm_path_arena := a\<rparr>) \<and> holds_str a r v"
    using g by (simp add: started_def grows_def)
  show hd: "dump_header staging sid m \<Longrightarrow> dump_header staging sid (m\<lparr>tm_path_arena := a\<rparr>) \<and> holds_str a r v"
    using g st grows_holds by (auto simp: dump_header_def)
  assume m: "dump_filling planned staging out sid k m"
  then have "started m" "dump_header staging sid m" by (simp_all add: dump_filling_def dump_header_def)
  with m g hd grows_holds[of "length v" "tm_path_arena m" a]
  show "dump_filling planned staging out sid k (m\<lparr>tm_path_arena := a\<rparr>)
      \<and> (\<forall>q w. holds_str (tm_path_arena m) q w \<longrightarrow> holds_str a q w) \<and> holds_str a r v"
    by (auto simp: dump_filling_def dump_final_def)
qed

lemma wpE_begin_dump:
  assumes b: "building f0 rt s0 started S b"
  shows "wpE (begin_manifest env KindAtomicDirectory i staging sid output) (\<lambda>_. building f0 rt s0 (dump_header staging sid) S) (\<lambda>_. unbuilt f0 rt s0) b"
proof -
  let ?k = "\<lambda>m. started m \<and> tm_kind m = KindAtomicDirectory"
  show ?thesis
    unfolding begin_manifest_def
    apply (rule wpE_seq[OF wpE_set_manifest[where M' = ?k, OF b]], simp add: started_def)
    apply (rule wpE_seq[OF wpE_push_path_of[where M' = "\<lambda>_. ?k"]], assumption, simp add: dump_pushes)
    apply (rule wpE_seq[OF wpE_set_manifest[where M' = ?k]], assumption, simp add: started_def)
    apply (rule wpE_seq[OF wpE_push_path_of[where M' = "\<lambda>r m. ?k m \<and> holds_str (tm_path_arena m) r staging"]], assumption, simp add: dump_pushes)
    apply (rule wpE_seq[OF wpE_set_manifest[where M' = "dump_header staging sid"]], assumption, simp add: dump_header_def started_def)
    apply (rule wpE_seq[OF wpE_push_path_of[where M' = "\<lambda>_. dump_header staging sid"]], assumption, simp add: dump_pushes)
    apply (rule wpE_set_manifest, assumption, simp add: dump_header_def started_def)
    done
qed

lemma wpE_record_dump_entry:
  assumes b: "building f0 rt s0 (dump_filling planned staging out sid k) S b" and k: "k < length planned" "planned ! k = (staged, final)"
  shows "wpE (record_dump_entry (k, staged, final)) (\<lambda>_. building f0 rt s0 (dump_filling planned staging out sid (Suc k)) S) (\<lambda>_. unbuilt f0 rt s0) b"
proof -
  let ?M = "dump_filling planned staging out sid k"
  have l: "looks (capture_identity staged)" unfolding capture_identity_def by (auto intro!: looking)
  have entry: "dump_filling planned staging out sid (Suc k) (m\<lparr>tm_slots := (tm_slots m)[k := (tm_slots m ! k)
      \<lparr>me_staged_path := sr, me_staged_identity := si, me_partial_path := pr, me_final_path := fr, me_final_identity := fi\<rparr>]\<rparr>)"
    if "?M m \<and> holds_str (tm_path_arena m) sr staged" for m sr si pr fr fi
    using that k by (auto simp: dump_filling_def dump_header_def dump_final_def started_def nth_list_update less_Suc_eq)
  show ?thesis
    unfolding record_dump_entry_def prod.case set_entry_def
    apply (rule wpE_seq[OF wpE_look_building[OF l b]])
    apply (rule wpE_seq[OF wpE_push_path_of[where M' = "\<lambda>r m. ?M m \<and> holds_str (tm_path_arena m) r staged"]], assumption, simp add: dump_pushes)
    subgoal for r c sr d
    proof -
      assume "building f0 rt s0 (\<lambda>m. ?M m \<and> holds_str (tm_path_arena m) sr staged) S d"
      then show ?thesis
        by (rule wpE_seq[OF wpE_push_path_of[where M' = "\<lambda>_ m. ?M m \<and> holds_str (tm_path_arena m) sr staged"]])
          (auto dest: dump_pushes(3) intro!: entry elim!: wpE_set_manifest)
    qed
    done
qed

lemma wpE_record_dump_entries:
  assumes "building f0 rt s0 (dump_filling planned staging out sid 0) S b"
  shows "wpE (forE record_dump_entry (enumerate 0 planned))
    (\<lambda>_. building f0 rt s0 (dump_filling planned staging out sid (length planned)) S) (\<lambda>_. unbuilt f0 rt s0) b"
proof -
  have "wpE (record_dump_entry (enumerate 0 planned ! k)) (\<lambda>_. building f0 rt s0 (dump_filling planned staging out sid (Suc k)) S) (\<lambda>_. unbuilt f0 rt s0) c"
    if "k < length (enumerate 0 planned)" "building f0 rt s0 (dump_filling planned staging out sid k) S c" for k c
    using wpE_record_dump_entry[OF that(2)] that(1) by (cases "planned ! k") (auto simp: nth_enumerate_eq)
  from wpE_for_nth[where P = "\<lambda>k. building f0 rt s0 (dump_filling planned staging out sid k) S", OF this assms] show ?thesis by simp
qed

section \<open>Synchronizing and the whole preparation\<close>

definition dump_synced :: "(string \<times> string) list \<Rightarrow> string \<Rightarrow> nat \<Rightarrow> fs \<Rightarrow> bool" where
  "dump_synced planned staging n s \<longleftrightarrow>
     (\<forall>pf \<in> set planned. synced_after n s (path_components (fst pf))) \<and> synced_after n s (path_components staging)"

lemma dump_synced_later: "dump_synced planned staging n s \<Longrightarrow> later mp s t \<Longrightarrow> dump_synced planned staging n t"
  unfolding dump_synced_def using synced_later by blast

lemma wpE_fsync_path:
  assumes "n \<le> length (fs_log s)"
  shows "wpE (fsync path) (\<lambda>r t. same_nodes s t \<and> (r = Inr () \<longrightarrow> synced_after n t (path_components path))) (\<lambda>_. same_nodes s) s"
  by (rule wpE_fsync) (use assms in \<open>auto simp: same_files_def same_nodes_def node_at_def log_grows_def synced_after_def\<close>)

lemma wpE_sync_path:
  assumes "n \<le> length (fs_log s)"
  shows "wpE (sync_published_file path) (\<lambda>_ t. same_nodes s t \<and> synced_after n t (path_components path)) (\<lambda>_. same_nodes s) s"
    and "wpE (sync_directory path) (\<lambda>_ t. same_nodes s t \<and> synced_after n t (path_components path)) (\<lambda>_. same_nodes s) s"
proof -
  have f: "wpE (fsync path) (\<lambda>r t. case r of Inl e \<Rightarrow> same_nodes s t | Inr _ \<Rightarrow> same_nodes s t \<and> synced_after n t (path_components path)) (\<lambda>_. same_nodes s) u"
    if "same_nodes s u" for u
  proof -
    have "n \<le> length (fs_log u)" using assms that by (auto simp: same_nodes_def log_grows_def)
    from wpE_fsync_path[OF this, of path] show ?thesis
      by (rule wpE_mono) (use same_nodes_trans[OF that] in \<open>auto split: sum.split\<close>)
  qed
  show "wpE (sync_published_file path) (\<lambda>_ t. same_nodes s t \<and> synced_after n t (path_components path)) (\<lambda>_. same_nodes s) s"
    unfolding sync_published_file_def wpE_bind wpE_report
    by (rule wpE_looks[OF looks_calls(3)]; simp add: f split: sum.split)
  show "wpE (sync_directory path) (\<lambda>_ t. same_nodes s t \<and> synced_after n t (path_components path)) (\<lambda>_. same_nodes s) s"
    unfolding sync_directory_def wpE_bind[where m = "open_directory _"]
    by (rule wpE_looks[OF looks_calls(10)])
      (auto simp: wpE_bind wpE_basic sum.case_distrib[where h = "\<lambda>m. wpE m _ _ _"] intro!: wpE_mono[OF f] split: sum.splits)
qed

lemma wpE_sync_dump_files:
  assumes n: "n \<le> length (fs_log s)"
  shows "wpE (forE (\<lambda>e. sync_published_file (g e)) es) (\<lambda>_ t. same_nodes s t \<and> (\<forall>e \<in> set es. synced_after n t (path_components (g e)))) (\<lambda>_. same_nodes s) s"
proof -
  define P where "P k t \<longleftrightarrow> same_nodes s t \<and> (\<forall>j < k. synced_after n t (path_components (g (es ! j))))" for k t
  have step: "wpE (sync_published_file (g (es ! k))) (\<lambda>_. P (Suc k)) (\<lambda>_. same_nodes s) t" if t: "P k t" for k t
  proof -
    have st: "same_nodes s t" and "n \<le> length (fs_log t)" using t n by (auto simp: P_def same_nodes_def log_grows_def)
    from wpE_sync_path(1)[OF this(2)] show ?thesis
    proof (rule wpE_mono)
      fix u assume u: "same_nodes t u \<and> synced_after n u (path_components (g (es ! k)))"
      then have "synced_after n u p" if "synced_after n t p" for p using synced_later[OF that later_same] by blast
      with t u same_nodes_trans[OF st] show "P (Suc k) u" by (simp add: P_def less_Suc_eq)
    qed (rule same_nodes_trans[OF st])
  qed
  have "wpE (forE (\<lambda>e. sync_published_file (g e)) es) (\<lambda>_. P (length es)) (\<lambda>_. same_nodes s) s"
    by (rule wpE_for_nth[where P = P, OF step]) (simp_all add: P_def)
  then show ?thesis by (rule wpE_mono) (auto simp: P_def all_set_conv_all_nth)
qed

lemma dump_staged_paths:
  assumes "dump_filling planned staging out sid (length planned) m"
  shows "(\<lambda>e. manifest_path m (me_staged_path e)) ` set (entries_of m) = fst ` set planned"
proof -
  have l: "length (entries_of m) = length planned" using assms by (simp add: dump_filling_def entries_of_def)
  have "map (\<lambda>e. manifest_path m (me_staged_path e)) (entries_of m) = map fst planned"
    using assms by (intro nth_equalityI) (auto simp: l dump_filling_def entries_of_def manifest_path_def holds_str_def)
  then show ?thesis by (metis set_map)
qed

lemma wpE_prepare_dump:
  assumes b: "opened f0 rt s0 (pb_fs b)" "pb_manifest_identity b = None" "started (pb_manifest b)" and n: "n \<le> length (fs_log s0)"
  shows "wpE (prepare_dump env planned staging out parent sid)
    (\<lambda>i b'. building f0 rt s0 (dump_filling planned staging out sid (length planned)) (\<lambda>_. True) b' \<and> dump_synced planned staging n (pb_fs b')
       \<and> dump_transaction_id staging = Inr i)
    (\<lambda>_. unbuilt f0 rt s0) b"
proof -
  let ?B = "\<lambda>M. building f0 rt s0 M (\<lambda>_. True)" and ?M = "dump_filling planned staging out sid (length planned)"
  have b0: "?B started b" using b by (simp add: building_def unbuilt_def)
  have absent: "looks (ensure_directory_absent out)" unfolding ensure_directory_absent_def
    by (auto intro!: looking split: sum.split errno.split)
  have count: "wpE (count_entries (length planned)) (\<lambda>_. ?B (dump_filling planned staging out sid 0)) (\<lambda>_. unbuilt f0 rt s0) c"
    if c: "?B (\<lambda>m. dump_header staging sid m \<and> dump_final out sid m) c" for c
    unfolding count_entries_def set_entry_count_def
    by (rule wpE_getE_is[OF refl], rule wpE_lift_building[OF c])
      (use c in \<open>auto simp: wpE_basic building_def dump_filling_def dump_header_def dump_final_def started_def split: if_splits\<close>)
  have synced: "wpE (bindE (getE pb_manifest) (\<lambda>m. bindE (onfs (forE (\<lambda>e. sync_published_file (manifest_path m (me_staged_path e))) (entries_of m))) (\<lambda>_.
      bindE (onfs (sync_directory staging)) (\<lambda>_. retE i)))) (\<lambda>i b'. ?B ?M b' \<and> dump_synced planned staging n (pb_fs b')
        \<and> dump_transaction_id staging = Inr i) (\<lambda>_. unbuilt f0 rt s0) c"
    if c: "?B ?M c" and i: "dump_transaction_id staging = Inr i" for c i
  proof -
    have m: "?M (pb_manifest c)" and nc: "n \<le> length (fs_log (pb_fs c))"
      using c n by (auto simp: building_def unbuilt_def opened_def log_grows_def)
    have bad: "unbuilt f0 rt s0 (c\<lparr>pb_fs := t\<rparr>)" if "same_nodes (pb_fs c) t" for t by (rule building_unbuilt[OF building_same[OF c that]])
    have dir: "wpE (sync_directory staging) (\<lambda>_ u. ?B ?M (c\<lparr>pb_fs := u\<rparr>) \<and> dump_synced planned staging n u) (\<lambda>_ u. unbuilt f0 rt s0 (c\<lparr>pb_fs := u\<rparr>)) t"
      if t: "same_nodes (pb_fs c) t" and e: "\<forall>e \<in> set (entries_of (pb_manifest c)). synced_after n t (path_components (manifest_path (pb_manifest c) (me_staged_path e)))" for t
    proof -
      have files: "\<forall>pf \<in> set planned. synced_after n t (path_components (fst pf))"
        using e dump_staged_paths[OF m] by (metis (no_types, lifting) image_iff)
      have "n \<le> length (fs_log t)" using nc t by (auto simp: same_nodes_def log_grows_def)
      from wpE_sync_path(2)[OF this] show ?thesis
      proof (rule wpE_mono)
        fix u assume u: "same_nodes t u \<and> synced_after n u (path_components staging)"
        then have "synced_after n u p" if "synced_after n t p" for p using synced_later[OF that later_same] by blast
        with u files show "?B ?M (c\<lparr>pb_fs := u\<rparr>) \<and> dump_synced planned staging n u"
          using building_same[OF c same_nodes_trans[OF t]] by (simp add: dump_synced_def)
      qed (use bad same_nodes_trans[OF t] in auto)
    qed
    show ?thesis
      unfolding wpE_bind wpE_onfs wpE_basic
      by (rule wpE_mono[OF wpE_sync_dump_files[OF nc]]) (auto simp: bad i elim!: wpE_mono[OF dir])
  qed
  show ?thesis
    unfolding prepare_dump_def
    apply (rule wpE_seq[OF wpE_look_building[OF absent b0]])
    apply (rule wpE_lift_building, assumption)
    apply (rule wpE_seq[OF wpE_look_building], rule looks_report[OF looks_calls(3)], assumption)
    apply (rule wpE_seq[OF wpE_begin_dump], assumption)
    apply (rule wpE_seq[OF wpE_push_path_of[where M' = "\<lambda>r m. dump_header staging sid m \<and> holds_str (tm_path_arena m) r out"]], assumption, simp add: dump_pushes)
    apply (rule wpE_seq[OF wpE_set_manifest[where M' = "\<lambda>m. dump_header staging sid m \<and> dump_final out sid m"]], assumption,
        simp add: dump_header_def dump_final_def started_def)
    apply (rule wpE_seq[OF count], assumption)
    apply (rule wpE_seq[OF wpE_record_dump_entries], assumption)
    apply (rule synced, assumption+)
    done
qed

section \<open>The rename under the invariant\<close>

definition names_directory :: "string \<Rightarrow> string \<Rightarrow> file_identity \<Rightarrow> transaction_manifest \<Rightarrow> bool" where
  "names_directory staging out sid m \<longleftrightarrow> tm_kind m = KindAtomicDirectory
     \<and> manifest_path m (tm_staging_root_path m) = staging \<and> tm_staging_root_identity m = Some sid
     \<and> manifest_path m (tm_final_directory_path m) = out \<and> tm_final_directory_identity m = Some sid"

lemma dump_filling_names: "dump_filling planned staging out sid k m \<Longrightarrow> names_directory staging out sid m \<and> tm_phase m = Prepared"
  by (simp add: dump_filling_def dump_header_def dump_final_def names_directory_def holds_str_def manifest_path_def started_def)

lemma names_directory_phase [simp]: "names_directory staging out sid (m\<lparr>tm_phase := ph\<rparr>) = names_directory staging out sid m"
  by (simp add: names_directory_def manifest_path_def)

lemma synced_log: "synced_after n s p \<Longrightarrow> log_grows s t \<Longrightarrow> synced_after n t p"
  by (auto simp: synced_after_def log_grows_def)

lemma moved_publishing:
  assumes s: "publishing env f0 {} mp tp R unfinished s" and t: "node_at t = moved (pc @ [a]) (pc @ [c]) (node_at s)" "node_at s (pc @ [a]) \<noteq> None"
    and p: "mp = pc @ [x]" "tp = pc @ [y]" and d: "distinct [a, c, x, y]"
  shows "publishing env (moved (pc @ [a]) (pc @ [c]) f0) {} mp tp R unfinished t"
proof -
  let ?v = "moved (pc @ [a]) (pc @ [c])"
  have le: "f0 \<subseteq>\<^sub>m node_at s" and none: "f0 mp = None" "f0 tp = None" and dom: "dom (node_at s) \<subseteq> dom f0 \<union> {mp, tp}" and jo: "journaled env mp R False (node_at s)"
    using s by (simp_all add: publishing_def)
  have away: "?v f mp = f mp" "?v f tp = f tp" for f using d by (auto simp: moved_def within_append p)
  have apart: "\<not> within (pc @ [a]) mp" "\<not> within (pc @ [a]) tp" using d by (auto simp: within_append p)
  have "tree (node_at t)" unfolding t(1) using s t(2) d by (intro moved_tree) (auto simp: publishing_def)
  moreover have "?v f0 \<subseteq>\<^sub>m node_at t"
    using le unfolding t(1) map_le_def moved_def by (auto simp: dom_def)
  moreover have "dom (node_at t) \<subseteq> dom (?v f0) \<union> {mp, tp}"
  proof
    fix q assume "q \<in> dom (node_at t)"
    then obtain n where n: "?v (node_at s) q = Some n" by (auto simp: t(1))
    show "q \<in> dom (?v f0) \<union> {mp, tp}"
    proof (cases "within (pc @ [c]) q")
      case True
      have w: "within (pc @ [a]) (rebase (pc @ [c]) (pc @ [a]) q)" by (auto simp: within_append rebase_def)
      have "rebase (pc @ [c]) (pc @ [a]) q \<in> dom f0 \<union> {mp, tp}" using n True dom by (auto simp: moved_def)
      with w apart have "rebase (pc @ [c]) (pc @ [a]) q \<in> dom f0" by auto
      then show ?thesis using True by (auto simp: moved_def)
    next
      case False
      then have "\<not> within (pc @ [a]) q" "q \<in> dom f0 \<union> {mp, tp}" using n dom by (auto simp: moved_def split: if_splits)
      then show ?thesis using False by (auto simp: moved_def)
    qed
  qed
  ultimately show ?thesis using none jo away by (simp add: publishing_def journaled_def t(1))
qed

text \<open>
  The rename of the staged directory, before it a sync of every staged file and of the directory,
  and after it a sync of the directory they are in.
\<close>

definition directory_delivered :: "(string \<times> string) list \<Rightarrow> string \<Rightarrow> string \<Rightarrow> fs_path \<Rightarrow> nat \<Rightarrow> fs \<Rightarrow> bool" where
  "directory_delivered planned staging out pc n s \<longleftrightarrow> (\<exists>before after.
     drop n (fs_log s) = before @ Renamed (path_components staging) (path_components out) # after
     \<and> (\<forall>pf \<in> set planned. Synced (path_components (fst pf)) \<in> set before) \<and> Synced (path_components staging) \<in> set before
     \<and> Synced pc \<in> set after)"

lemma directory_delivered_later:
  assumes "directory_delivered planned staging out pc n s" and "later mp s t"
  shows "directory_delivered planned staging out pc n t"
proof -
  obtain before after l where l: "drop n (fs_log s) = before @ Renamed (path_components staging) (path_components out) # after"
      "\<forall>pf \<in> set planned. Synced (path_components (fst pf)) \<in> set before" "Synced (path_components staging) \<in> set before" "Synced pc \<in> set after"
    and t: "fs_log t = fs_log s @ l"
    using assms by (auto simp: directory_delivered_def later_def log_grows_def)
  have "n \<le> length (fs_log s)" using arg_cong[OF l(1), of length] by simp
  with l(1) t have "drop n (fs_log t) = before @ Renamed (path_components staging) (path_components out) # (after @ l)" by simp
  with l(2-4) show ?thesis unfolding directory_delivered_def by (metis Un_iff set_append)
qed

lemma directory_deliveredI:
  assumes "dump_synced planned staging n s" and "n \<le> length (fs_log s)"
    and "fs_log t = fs_log s @ [Renamed (path_components staging) (path_components out)]"
    and "log_grows t u" and "synced_after (length (fs_log t)) u pc"
  shows "directory_delivered planned staging out pc n u"
proof -
  obtain l where l: "fs_log u = fs_log t @ l" using assms(4) by (auto simp: log_grows_def)
  have "drop n (fs_log u) = drop n (fs_log s) @ Renamed (path_components staging) (path_components out) # l"
    using assms(2) by (simp add: l assms(3))
  moreover have "Synced pc \<in> set l" using assms(5) by (simp add: synced_after_def l)
  ultimately show ?thesis
    unfolding directory_delivered_def using assms(1) by (metis dump_synced_def synced_after_def)
qed

lemma wpE_complete_dump:
  assumes s: "publishing env f1 {} mp tp R unfinished (pb_fs b)" and D: "directory_delivered planned staging out pc n (pb_fs b)"
    and m: "R (pb_manifest b\<lparr>tm_phase := Complete\<rparr>)" "pb_manifest_identity b \<noteq> None"
    and p: "path_file_name mpath = Some name" "mp = pc @ [Normal name]" "tp = pc @ [Normal (''.'' @ name @ ''.'' @ i @ ''.tmp'')]"
  shows "wpE (bindE (set_manifest (\<lambda>m. m\<lparr>tm_phase := Complete\<rparr>)) (\<lambda>_.
     bindE (persist_manifest_prepared env pc mpath i) (\<lambda>_.
     bindE (getE pb_manifest) (\<lambda>m. bindE (onfs (verify_manifest_matches env mpath m)) (\<lambda>_. retE ())))))
    (\<lambda>_ b'. publishing env f1 {} mp tp R (directory_delivered planned staging out pc n) (pb_fs b') \<and> directory_delivered planned staging out pc n (pb_fs b')
       \<and> (\<exists>m k. node_at (pb_fs b') mp = Some k \<and> manifest_node env m k \<and> R m \<and> tm_phase m = Complete))
    (\<lambda>_ b'. publishing env f1 {} mp tp R (directory_delivered planned staging out pc n) (pb_fs b')) b"
proof -
  let ?D = "directory_delivered planned staging out pc n" and ?m = "pb_manifest b\<lparr>tm_phase := Complete\<rparr>"
  define F where "F t \<longleftrightarrow> publishing env f1 {} mp tp R ?D t \<and> ?D t
     \<and> (\<exists>m k. node_at t mp = Some k \<and> manifest_node env m k \<and> R m \<and> tm_phase m = Complete)" for t
  have F_same: "F u" if "F t" "same_nodes t u" for t u
  proof -
    have D': "?D u" using that directory_delivered_later[OF _ later_same[OF that(2)]] by (simp add: F_def)
    then have "publishing env f1 {} mp tp R ?D u" using that publishing_same[OF _ that(2)] by (simp add: F_def)
    with D' that show ?thesis by (simp add: F_def same_nodes_def)
  qed
  have seen: "wpE (bindE (getE pb_manifest) (\<lambda>m. bindE (onfs (verify_manifest_matches env mpath m)) (\<lambda>_. retE ())))
      (\<lambda>_ b'. F (pb_fs b')) (\<lambda>_ b'. publishing env f1 {} mp tp R ?D (pb_fs b')) c" if c: "F (pb_fs c)" for c
    unfolding wpE_bind wpE_onfs wpE_basic
    by (rule wpE_looks[OF looks_final(4)]) (use F_same[OF c] in \<open>simp_all add: F_def\<close>)
  show ?thesis
    unfolding set_manifest_def wpE_bind[where m = "modE _"] wpE_basic wpE_bind[where m = "persist_manifest_prepared _ _ _ _"] F_def[symmetric]
  proof (rule wpE_persist_publishing[OF p, where D = ?D])
    fix u k j
    assume "publishing env f1 {} mp tp R ?D u" "later mp (pb_fs (b\<lparr>pb_manifest := ?m\<rparr>)) u" "node_at u mp = Some k"
      "manifest_node env (pb_manifest (b\<lparr>pb_manifest := ?m\<rparr>)) k"
    then have "F u" using directory_delivered_later[OF D, of mp u] m by (auto simp: F_def intro!: exI[of _ ?m])
    then show "wpE (bindE (getE pb_manifest) (\<lambda>m. bindE (onfs (verify_manifest_matches env mpath m)) (\<lambda>_. retE ())))
        (\<lambda>_ b'. F (pb_fs b')) (\<lambda>_ b'. publishing env f1 {} mp tp R ?D (pb_fs b')) (b\<lparr>pb_manifest := ?m, pb_fs := u, pb_manifest_identity := Some j\<rparr>)"
      by (intro seen) simp
  qed (use s m D directory_delivered_later in auto)
qed

lemma wpE_rename_dump:
  assumes s: "publishing env f0 {} mp tp (names_directory staging out sid) unfinished (pb_fs b)" and sy: "dump_synced planned staging n (pb_fs b)"
    and nl: "n \<le> length (fs_log (pb_fs b))"
    and m: "names_directory staging out sid (pb_manifest b)" "pb_manifest_identity b \<noteq> None"
    and p: "path_file_name mpath = Some name" "mp = path_components parent @ [Normal name]"
      "tp = path_components parent @ [Normal (''.'' @ name @ ''.'' @ i @ ''.tmp'')]"
    and sp: "path_components staging = path_components parent @ [Normal sn]" "path_components out = path_components parent @ [Normal on]"
    and d: "distinct [sn, on, name, ''.'' @ name @ ''.'' @ i @ ''.tmp'']"
  shows "wpE (rename_dump env staging out parent mpath i)
    (\<lambda>_ b'. publishing env (moved (path_components staging) (path_components out) f0) {} mp tp (names_directory staging out sid)
         (directory_delivered planned staging out (path_components parent) n) (pb_fs b')
       \<and> directory_delivered planned staging out (path_components parent) n (pb_fs b')
       \<and> (\<exists>m k. node_at (pb_fs b') mp = Some k \<and> manifest_node env m k \<and> names_directory staging out sid m \<and> tm_phase m = Complete))
    (\<lambda>_ b'. publishing env f0 {} mp tp (names_directory staging out sid) unfinished (pb_fs b')
       \<or> publishing env (moved (path_components staging) (path_components out) f0) {} mp tp (names_directory staging out sid)
           (directory_delivered planned staging out (path_components parent) n) (pb_fs b')) b"
    (is "wpE _ ?Q ?E b")
proof -
  let ?pc = "path_components parent" and ?f1 = "moved (path_components staging) (path_components out) f0" and ?R = "names_directory staging out sid"
  have fn: "path_file_name staging = Some sn" "path_file_name out = Some on" by (simp_all add: path_file_name_def sp)
  have tail: "wpE (bindE (onfs (sync_directory parent)) (\<lambda>_. bindE (set_manifest (\<lambda>m. m\<lparr>tm_phase := Complete\<rparr>)) (\<lambda>_.
     bindE (persist_manifest_prepared env ?pc mpath i) (\<lambda>_.
     bindE (getE pb_manifest) (\<lambda>m. bindE (onfs (verify_manifest_matches env mpath m)) (\<lambda>_. retE ())))))) ?Q ?E (b\<lparr>pb_fs := t\<rparr>)"
    if t: "publishing env ?f1 {} mp tp ?R unfinished t" "fs_log t = fs_log (pb_fs b) @ [Renamed (path_components staging) (path_components out)]" for t
  proof -
    have D: "directory_delivered planned staging out ?pc n u" if "same_nodes t u" "synced_after (length (fs_log t)) u ?pc" for u
      using directory_deliveredI[OF sy nl t(2) _ that(2)] that(1) by (simp add: same_nodes_def)
    have "wpE (onfs (sync_directory parent)) (\<lambda>_ c. publishing env ?f1 {} mp tp ?R unfinished (pb_fs c) \<and> directory_delivered planned staging out ?pc n (pb_fs c)
        \<and> pb_manifest c = pb_manifest b \<and> pb_manifest_identity c = pb_manifest_identity b) ?E (b\<lparr>pb_fs := t\<rparr>)"
      unfolding wpE_onfs
      by (rule wpE_mono, simp, rule wpE_sync_path(2)[OF order.refl])
        (use t(1) publishing_same[OF t(1)] publishing_weaken D in auto)
    then show ?thesis
      by (rule wpE_seq, elim conjE) (rule wpE_mono[OF wpE_complete_dump[OF _ _ _ _ p]], use m in auto)
  qed
  have "wpE (bindE (onfs (rename_no_replace_at ?pc sn on out)) (\<lambda>_. bindE (onfs (sync_directory parent)) (\<lambda>_. bindE (set_manifest (\<lambda>m. m\<lparr>tm_phase := Complete\<rparr>)) (\<lambda>_.
     bindE (persist_manifest_prepared env ?pc mpath i) (\<lambda>_.
     bindE (getE pb_manifest) (\<lambda>m. bindE (onfs (verify_manifest_matches env mpath m)) (\<lambda>_. retE ()))))))) ?Q ?E b"
    unfolding rename_no_replace_at_def wpE_bind[where m = "onfs (report _ (rename_noreplace _ _))"] wpE_onfs[where m = "report _ (rename_noreplace _ _)"] wpE_report
  proof (rule wpE_rename_tree)
    show "tree (node_at (pb_fs b))" using s by (simp add: publishing_def)
    fix t
    assume t: "node_at (pb_fs b) (?pc @ [Normal sn]) \<noteq> None" "node_at t = moved (?pc @ [Normal sn]) (?pc @ [Normal on]) (node_at (pb_fs b))"
      "fs_log t = fs_log (pb_fs b) @ [Renamed (?pc @ [Normal sn]) (?pc @ [Normal on])]"
    have "publishing env ?f1 {} mp tp ?R unfinished t"
      unfolding sp by (rule moved_publishing[OF s t(2,1) p(2,3)]) (use d in auto)
    from tail[OF this t(3)[folded sp]] show "case Inr () of Inl e \<Rightarrow> ?E (io_error out (show_errno e)) (b\<lparr>pb_fs := t\<rparr>)
       | Inr u \<Rightarrow> wpE (bindE (onfs (sync_directory parent)) (\<lambda>_. bindE (set_manifest (\<lambda>m. m\<lparr>tm_phase := Complete\<rparr>)) (\<lambda>_.
     bindE (persist_manifest_prepared env ?pc mpath i) (\<lambda>_.
     bindE (getE pb_manifest) (\<lambda>m. bindE (onfs (verify_manifest_matches env mpath m)) (\<lambda>_. retE ())))))) ?Q ?E (b\<lparr>pb_fs := t\<rparr>)" by simp
  qed (use publishing_same[OF s] in auto)
  then show ?thesis
    unfolding rename_dump_def using s fn
    by (auto simp: wpE_bind[where m = "liftE _"] wpE_basic split: sum.split)
qed

section \<open>The first manifest\<close>

definition unmoved :: "fs_path \<Rightarrow> fs_path \<Rightarrow> (fs_path \<Rightarrow> inode option) \<Rightarrow> fs \<Rightarrow> bool" where
  "unmoved mp tp f0 s \<longleftrightarrow> f0 \<subseteq>\<^sub>m node_at s \<and> (\<forall>p. node_at s p \<noteq> None \<and> f0 p = None \<longrightarrow> p = mp \<or> p = tp)"

lemma publishing_unmoved: "publishing env f0 {} mp tp R D s \<Longrightarrow> unmoved mp tp f0 s"
  by (auto simp: publishing_def unmoved_def)

lemma opened_nothing: "opened (node_at s0) [] s0 s \<Longrightarrow> node_at s = node_at s0"
proof
  fix p
  assume o: "opened (node_at s0) [] s0 s"
  show "node_at s p = node_at s0 p"
  proof (cases "node_at s0 p")
    case None
    then show ?thesis using o by (cases "node_at s p") (auto simp: opened_def within_append tree_def)
  next
    case (Some n)
    then show ?thesis using o unfolding opened_def map_le_def by (metis domI)
  qed
qed

lemma wpE_first_dump:
  assumes b: "building (node_at s0) [] s0 (dump_filling planned staging out sid k) S b" and sy: "dump_synced planned staging n (pb_fs b)"
    and p: "path_file_name mpath = Some name" "mp = pc @ [Normal name]" "tp = pc @ [Normal (''.'' @ name @ ''.'' @ i @ ''.tmp'')]"
  shows "wpE (persist_manifest_prepared env pc mpath i)
    (\<lambda>_ b'. publishing env (node_at s0) {} mp tp (names_directory staging out sid) unfinished (pb_fs b') \<and> dump_synced planned staging n (pb_fs b')
       \<and> log_grows s0 (pb_fs b') \<and> pb_manifest b' = pb_manifest b \<and> pb_manifest_identity b' \<noteq> None)
    (\<lambda>_ b'. unmoved mp tp (node_at s0) (pb_fs b')) b"
proof -
  have o: "opened (node_at s0) [] s0 (pb_fs b)" and none: "pb_manifest_identity b = None" and fill: "dump_filling planned staging out sid k (pb_manifest b)"
    using b by (simp_all add: building_def unbuilt_def)
  note f = opened_nothing[OF o] and names = dump_filling_names[OF fill]
  have tree: "tree (node_at s0)" and log: "log_grows s0 (pb_fs b)" using o by (simp_all add: opened_def flip: f)
  have half: "unmoved mp tp (node_at s0) t"
    if "could_write None mp tp (node_at s0)" "half_written env (pb_manifest b) None mi mp tp (node_at s0) (node_at t)" for t mi
  proof -
    have g: "node_at t p = node_at s0 p" if "p \<noteq> mp" "p \<noteq> tp" for p using \<open>half_written _ _ _ _ _ _ _ _\<close> that by (simp add: half_written_def)
    have "node_at s0 mp = None" "node_at s0 tp = None" using \<open>could_write _ _ _ _\<close> by (simp_all add: could_write_def)
    with g show ?thesis unfolding unmoved_def map_le_def by (metis domIff)
  qed
  show ?thesis
  proof (rule wpE_persist[OF p])
    show "tree (node_at (pb_fs b))" using tree by (simp add: f)
    fix t mi
    assume "left_behind env (pb_manifest b) (pb_manifest_identity b) mi mp tp (node_at (pb_fs b)) (node_at t)"
    then show "unmoved mp tp (node_at s0) (pb_fs (b\<lparr>pb_fs := t, pb_manifest_identity := mi\<rparr>))"
      using half by (auto simp: left_behind_def none f unmoved_def)
  next
    fix t k
    assume t: "manifest_node env (pb_manifest b) k" "could_write (pb_manifest_identity b) mp tp (node_at (pb_fs b))"
      "node_at t = (node_at (pb_fs b))(mp \<mapsto> k)" "tree (node_at t)" "log_grows (pb_fs b) t"
    have "publishing env (node_at s0) {} mp tp (names_directory staging out sid) unfinished t"
      using t names by (auto simp: publishing_def journaled_def could_write_def none f map_le_def)
    with sy synced_log[OF _ t(5)] log_grows_trans[OF log t(5)]
    show "publishing env (node_at s0) {} mp tp (names_directory staging out sid) unfinished (pb_fs (b\<lparr>pb_fs := t, pb_manifest_identity := Some (in_identity k)\<rparr>))
       \<and> dump_synced planned staging n (pb_fs (b\<lparr>pb_fs := t, pb_manifest_identity := Some (in_identity k)\<rparr>))
       \<and> log_grows s0 (pb_fs (b\<lparr>pb_fs := t, pb_manifest_identity := Some (in_identity k)\<rparr>))
       \<and> pb_manifest (b\<lparr>pb_fs := t, pb_manifest_identity := Some (in_identity k)\<rparr>) = pb_manifest b
       \<and> pb_manifest_identity (b\<lparr>pb_fs := t, pb_manifest_identity := Some (in_identity k)\<rparr>) \<noteq> None"
      by (simp add: dump_synced_def)
  qed
qed

section \<open>Outcomes\<close>

definition directory_journal :: "publish_env \<Rightarrow> string \<Rightarrow> string \<Rightarrow> file_identity \<Rightarrow> fs_path \<Rightarrow> fs \<Rightarrow> transaction_manifest \<Rightarrow> bool" where
  "directory_journal env staging out sid mp s m \<longleftrightarrow> (\<exists>n. node_at s mp = Some n \<and> manifest_node env m n) \<and> names_directory staging out sid m"

definition dump_outcome ::
    "publish_env \<Rightarrow> (string \<times> string) list \<Rightarrow> string \<Rightarrow> string \<Rightarrow> string \<Rightarrow> file_identity \<Rightarrow> fs_path \<Rightarrow> fs_path \<Rightarrow> fs \<Rightarrow> fs
     \<Rightarrow> (publish_failure + unit) \<Rightarrow> bool" where
  "dump_outcome env planned staging out parent sid mp tp s0 s r \<longleftrightarrow>
    (\<exists>renamed. unmoved mp tp (if renamed then moved (path_components staging) (path_components out) (node_at s0) else node_at s0) s
      \<and> (let journal = directory_journal env staging out sid mp s;
             delivered = directory_delivered planned staging out (path_components parent) (length (fs_log s0)) s
         in (renamed \<longrightarrow> (\<exists>m. journal m \<and> (tm_phase m = Complete \<longrightarrow> delivered)))
          \<and> (case r of
               Inl (Retryable e) \<Rightarrow> \<not> renamed
             | Inl (Durable e) \<Rightarrow> \<exists>n. node_at s mp = Some n \<and> in_kind n = RegularFile
             | Inr _ \<Rightarrow> renamed \<and> delivered \<and> (\<exists>m. journal m \<and> tm_phase m = Complete))))"

lemma dump_outcomes:
  shows "unmoved mp tp (node_at s0) s \<Longrightarrow> dump_outcome env planned staging out parent sid mp tp s0 s (Inl (Retryable e))"
    and "unmoved mp tp (node_at s0) s \<Longrightarrow> node_at s mp = Some n \<Longrightarrow> in_kind n = RegularFile
           \<Longrightarrow> dump_outcome env planned staging out parent sid mp tp s0 s (Inl (Durable e))"
    and "publishing env (node_at s0) {} mp tp (names_directory staging out sid) unfinished s
           \<Longrightarrow> dump_outcome env planned staging out parent sid mp tp s0 s (Inl (Durable e))"
    and "publishing env (moved (path_components staging) (path_components out) (node_at s0)) {} mp tp (names_directory staging out sid)
             (directory_delivered planned staging out (path_components parent) (length (fs_log s0))) s
           \<Longrightarrow> dump_outcome env planned staging out parent sid mp tp s0 s (Inl (Durable e))"
proof -
  show "unmoved mp tp (node_at s0) s \<Longrightarrow> dump_outcome env planned staging out parent sid mp tp s0 s (Inl (Retryable e))"
    unfolding dump_outcome_def Let_def by (rule exI[of _ False]) simp
  show plain: "dump_outcome env planned staging out parent sid mp tp s0 s (Inl (Durable e))"
    if "unmoved mp tp (node_at s0) s" "node_at s mp = Some n" "in_kind n = RegularFile" for n
    unfolding dump_outcome_def Let_def by (rule exI[of _ False]) (use that in simp)
  show "dump_outcome env planned staging out parent sid mp tp s0 s (Inl (Durable e))"
    if "publishing env (node_at s0) {} mp tp (names_directory staging out sid) unfinished s"
    using publishing_unmoved[OF that] that by (auto intro: plain simp: publishing_def journaled_def manifest_node_def)
  show "dump_outcome env planned staging out parent sid mp tp s0 s (Inl (Durable e))"
    if "publishing env (moved (path_components staging) (path_components out) (node_at s0)) {} mp tp (names_directory staging out sid)
        (directory_delivered planned staging out (path_components parent) (length (fs_log s0))) s"
    unfolding dump_outcome_def Let_def
    by (rule exI[of _ True]) (use publishing_unmoved[OF that] that in \<open>auto simp: publishing_def journaled_def directory_journal_def manifest_node_def\<close>)
qed

lemma wpE_result: "wpE m Q E s \<Longrightarrow> m s = (t, v) \<Longrightarrow> (case v of Inl e \<Rightarrow> E e t | Inr a \<Rightarrow> Q a t)"
  by (simp add: wpE_def)

lemma dump_outcome_persisted:
  assumes c: "building (node_at s0) [] s0 (dump_filling planned staging out sid k) S c" and sy: "dump_synced planned staging (length (fs_log s0)) (pb_fs c)"
    and p: "path_file_name mpath = Some name" "path_components mpath = path_components parent @ [Normal name]"
    and sp: "path_components staging = path_components parent @ [Normal sn]" "path_components out = path_components parent @ [Normal on]"
    and d: "distinct [sn, on, name, ''.'' @ name @ ''.'' @ i @ ''.tmp'']"
    and run: "(case persist_manifest_prepared env (path_components parent) mpath i c of
             (b, Inl e) \<Rightarrow>
               (case onfs (lstat mpath) b of
                  (b, Inr (Inr n)) \<Rightarrow> (b, Inl (if in_kind n = RegularFile then Durable e else Retryable e))
                | (b, _) \<Rightarrow> (b, Inl (Retryable e)))
           | (b, Inr _) \<Rightarrow>
               (case rename_dump env staging out parent mpath i b of
                  (b, Inl e) \<Rightarrow> (b, Inl (Durable e))
                | (b, Inr _) \<Rightarrow> (b, Inr ()))) = (b', r)"
  shows "dump_outcome env planned staging out parent sid (path_components mpath)
           (path_components parent @ [Normal (''.'' @ name @ ''.'' @ i @ ''.tmp'')]) s0 (pb_fs b') r"
proof -
  define mp tp where "mp = path_components mpath" and "tp = path_components parent @ [Normal (''.'' @ name @ ''.'' @ i @ ''.tmp'')]"
  have mp: "mp = path_components parent @ [Normal name]" by (simp add: mp_def p(2))
  obtain e q where e: "persist_manifest_prepared env (path_components parent) mpath i c = (e, q)" by force
  note first = wpE_result[OF wpE_first_dump[OF c sy p(1) mp tp_def] e]
  show ?thesis
  proof (cases q)
    case (Inl er)
    obtain h z where h: "onfs (lstat mpath) e = (h, z)" by force
    have u: "unmoved mp tp (node_at s0) (pb_fs e)" using first Inl by simp
    have "wpE (onfs (lstat mpath)) (\<lambda>r b. unmoved mp tp (node_at s0) (pb_fs b) \<and> (\<forall>n. r = Inr n \<longrightarrow> node_at (pb_fs b) mp = Some n)) (\<lambda>_ _. False) e"
      unfolding wpE_onfs
      by (rule wpE_lstat) (use u in \<open>auto simp: same_files_def stat_answer_def node_at_def unmoved_def mp_def split: sum.splits\<close>)
    from wpE_result[OF this h] run e h Inl show ?thesis
      unfolding mp_def[symmetric] tp_def[symmetric]
      by (auto split: sum.splits if_splits intro: dump_outcomes)
  next
    case (Inr u)
    obtain h z where h: "rename_dump env staging out parent mpath i e = (h, z)" by force
    have f: "publishing env (node_at s0) {} mp tp (names_directory staging out sid) unfinished (pb_fs e)" "dump_synced planned staging (length (fs_log s0)) (pb_fs e)"
      "length (fs_log s0) \<le> length (fs_log (pb_fs e))" "names_directory staging out sid (pb_manifest e)" "pb_manifest_identity e \<noteq> None"
      using first Inr dump_filling_names[of planned staging out sid k "pb_manifest c"] c by (auto simp: log_grows_def building_def)
    note done' = wpE_result[OF wpE_rename_dump[OF f p(1) mp tp_def sp d] h]
    show ?thesis
    proof (cases z)
      case (Inl er)
      with done' run e h Inr show ?thesis
        unfolding mp_def[symmetric] tp_def[symmetric] by (auto intro: dump_outcomes)
    next
      case (Inr v)
      have r: "b' = h" "r = Inr ()" using run e h Inr \<open>q = Inr u\<close> by auto
      show ?thesis
        unfolding mp_def[symmetric] tp_def[symmetric] dump_outcome_def Let_def r
        by (rule exI[of _ True])
          (use done' Inr publishing_unmoved in \<open>auto simp: directory_journal_def\<close>)
    qed
  qed
qed

end
