(* ===== verification/Publication_Theorems.thy ===== *)
theory Publication_Theorems
  imports Publication_Dump "HOL-Library.Code_Target_Nat"
begin

text \<open>
  What the publication of a file set and of a directory leaves behind, whichever of its calls
  fail.
\<close>

section \<open>The first manifest\<close>

definition recall_txn :: "publish_env \<Rightarrow> fs \<Rightarrow> string \<Rightarrow> string \<Rightarrow> string \<Rightarrow> string \<Rightarrow> transaction_manifest \<Rightarrow> txn" where
  "recall_txn env s staging out name i m =
     \<lparr>tx_env = env, tx_start = node_at s, tx_above = {p. within p (path_components out)}, tx_parent = path_components staging,
      tx_name = name, tx_id = i, tx_recorded = m\<rparr>"

lemma recall_txn_fields [simp]:
  "tx_env (recall_txn env s staging out name i m) = env" "tx_start (recall_txn env s staging out name i m) = node_at s"
  "tx_above (recall_txn env s staging out name i m) = {p. within p (path_components out)}"
  "tx_parent (recall_txn env s staging out name i m) = path_components staging" "tx_name (recall_txn env s staging out name i m) = name"
  "tx_id (recall_txn env s staging out name i m) = i" "tx_recorded (recall_txn env s staging out name i m) = m"
  by (simp_all add: recall_txn_def)

definition withdrawn :: "fs_path \<Rightarrow> fs_path \<Rightarrow> fs \<Rightarrow> fs \<Rightarrow> bool" where
  "withdrawn tp out s0 s \<longleftrightarrow> node_at s0 \<subseteq>\<^sub>m node_at s
     \<and> (\<forall>p n. node_at s p = Some n \<and> node_at s0 p = None \<longrightarrow> p = tp \<or> within p out \<and> in_kind n = Directory)"

lemma opened_withdrawn: "opened (node_at s0) out s0 s \<Longrightarrow> withdrawn tp out s0 s"
  by (auto simp: opened_def withdrawn_def)

lemma first_manifest:
  assumes o: "opened (node_at s0) (path_components out) s0 s" and could: "could_write None mp tp (node_at s)"
    and half: "half_written env m None mi mp tp (node_at s) (node_at t)" and tree: "tree (node_at t)" and log: "log_grows s t"
    and x: "x = recall_txn env s0 staging out name i m" "mp = tx_manifest x" "tp = tx_temp x" and ph: "tm_phase m \<noteq> Complete"
  shows "if mi = None then withdrawn tp (path_components out) s0 t else safe x unfinished t \<and> later mp s0 t"
proof -
  have f: "node_at s mp = None" "node_at s tp = None" using could by (simp_all add: could_write_def)
  have le: "node_at s0 \<subseteq>\<^sub>m node_at s" using o by (simp add: opened_def)
  then have f0: "node_at s0 mp = None" "node_at s0 tp = None" using f unfolding map_le_def by (metis domIff)+
  have g: "node_at t p = node_at s p" if "p \<noteq> mp" "p \<noteq> tp" for p using half that by (simp add: half_written_def)
  have le': "node_at s0 \<subseteq>\<^sub>m node_at t"
    using le f0 g unfolding map_le_def by (metis domIff)
  have new: "within p (path_components out) \<and> in_kind n = Directory" if "node_at t p = Some n" "node_at s0 p = None" "p \<noteq> mp" "p \<noteq> tp" for p n
  proof -
    have "node_at s p = Some n" using g[OF that(3,4)] that(1) by simp
    with o that(2) show ?thesis unfolding opened_def by blast
  qed
  show ?thesis
  proof (cases "mi = None")
    case True
    then have "node_at t mp = None" using half f by (auto simp: half_written_def)
    then show ?thesis using True le' new by (force simp: withdrawn_def)
  next
    case False
    then obtain n where n: "manifest_node env m n" "node_at t mp = Some n" using half by (auto simp: half_written_def)
    have "dom (node_at t) \<subseteq> dom (node_at s0) \<union> ({p. within p (path_components out)} \<union> manifest_names m) \<union> {mp, tp}"
      using new by blast
    moreover have "journaled env mp (recorded_as x) False (node_at t)" using n ph by (auto simp: journaled_def recorded_as_def x(1))
    ultimately have "safe x unfinished t" using tree le' f0 by (simp add: safe_def publishing_def x(2,3)[symmetric]) (simp add: x(1))
    moreover have "later mp s0 t"
      using le' o log unfolding later_def opened_def map_le_def by (metis domI log_grows_trans)
    ultimately show ?thesis using False by auto
  qed
qed

lemma wpE_first_persist:
  assumes b: "building (node_at s0) (path_components out) s0 (filling env planned i (node_at s0) parent k) S b"
    and name: "path_file_name mpath = Some name" and x: "x = recall_txn env s0 staging out name i (pb_manifest b)"
  shows "wpE (persist_manifest_prepared env (path_components staging) mpath i)
    (\<lambda>_. on_track x s0 (pb_manifest b))
    (\<lambda>_ b'. if pb_manifest_identity b' = None then withdrawn (tx_temp x) (path_components out) s0 (pb_fs b') else safe x unfinished (pb_fs b')) b"
proof -
  have o: "opened (node_at s0) (path_components out) s0 (pb_fs b)" and none: "pb_manifest_identity b = None"
    and ph: "tm_phase (pb_manifest b) \<noteq> Complete"
    using b by (simp_all add: building_def unbuilt_def filling_def started_def)
  note first = first_manifest[OF o _ _ _ _ x refl refl ph]
  have mp: "tx_manifest x = path_components staging @ [Normal name]"
    and tp: "tx_temp x = path_components staging @ [Normal (''.'' @ name @ ''.'' @ i @ ''.tmp'')]"
    by (simp_all add: tx_manifest_def tx_temp_def x)
  show ?thesis
  proof (rule wpE_persist[OF name mp tp])
    show "tree (node_at (pb_fs b))" using o by (simp add: opened_def)
    fix t mi
    assume "left_behind env (pb_manifest b) (pb_manifest_identity b) mi (tx_manifest x) (tx_temp x) (node_at (pb_fs b)) (node_at t)" and l: "log_grows (pb_fs b) t"
    then consider "node_at t = node_at (pb_fs b)" "mi = None"
      | "could_write None (tx_manifest x) (tx_temp x) (node_at (pb_fs b))"
        "half_written env (pb_manifest b) None mi (tx_manifest x) (tx_temp x) (node_at (pb_fs b)) (node_at t)" "tree (node_at t)"
      by (auto simp: left_behind_def none)
    then show "if pb_manifest_identity (b\<lparr>pb_fs := t, pb_manifest_identity := mi\<rparr>) = None
        then withdrawn (tx_temp x) (path_components out) s0 (pb_fs (b\<lparr>pb_fs := t, pb_manifest_identity := mi\<rparr>))
        else safe x unfinished (pb_fs (b\<lparr>pb_fs := t, pb_manifest_identity := mi\<rparr>))"
    proof cases
      case 1
      then show ?thesis using opened_withdrawn[OF opened_same[OF o, of t]] l by (simp add: same_nodes_def)
    next
      case 2
      from first[OF 2 l] show ?thesis by (auto split: if_splits)
    qed
  next
    fix t k
    assume t: "manifest_node env (pb_manifest b) k" "could_write (pb_manifest_identity b) (tx_manifest x) (tx_temp x) (node_at (pb_fs b))"
      "node_at t = (node_at (pb_fs b))(tx_manifest x \<mapsto> k)" "tree (node_at t)" "log_grows (pb_fs b) t"
    have "tx_manifest x \<noteq> tx_temp x" by (simp add: mp tp)
    then have "half_written env (pb_manifest b) None (Some (in_identity k)) (tx_manifest x) (tx_temp x) (node_at (pb_fs b)) (node_at t)"
      unfolding t(3) using t(1,2) by (intro half_written_temp(2)) (simp_all add: could_write_def)
    from first[OF _ this t(4,5)] t(2) show "on_track x s0 (pb_manifest b) (b\<lparr>pb_fs := t, pb_manifest_identity := Some (in_identity k)\<rparr>)"
      using ph by (simp add: none on_track_def x)
  qed
qed

section \<open>Outcomes\<close>

definition files_delivered :: "fs_path \<Rightarrow> (string \<times> string) list \<Rightarrow> fs \<Rightarrow> fs \<Rightarrow> bool" where
  "files_delivered parent planned s0 s \<longleftrightarrow> (\<forall>(staged, final) \<in> set planned. \<exists>name src n.
     path_file_name staged = Some name \<and> node_at s0 (parent @ [Normal name]) = Some src
     \<and> node_at s (path_components final) = Some n \<and> in_kind n = RegularFile \<and> in_data n = in_data src
     \<and> settled (length (fs_log s0)) s (path_components final))"

definition journal_names :: "publish_env \<Rightarrow> fs_path \<Rightarrow> fs_path \<Rightarrow> fs_path \<Rightarrow> fs \<Rightarrow> fs \<Rightarrow> transaction_manifest \<Rightarrow> bool" where
  "journal_names env mp tp out s0 s m \<longleftrightarrow> (\<exists>n. node_at s mp = Some n \<and> manifest_node env m n)
     \<and> (\<forall>p. node_at s p \<noteq> None \<and> node_at s0 p = None \<longrightarrow> p = mp \<or> p = tp \<or> within p out \<or> p \<in> manifest_names m)"

lemma delivered_files:
  assumes "delivered x (length (fs_log s0)) planned s" and "staged_files x planned" and "x = recall_txn env s0 staging out name i m"
  shows "files_delivered (path_components staging) planned s0 s"
  unfolding files_delivered_def
proof (clarify)
  fix staged final
  assume pf: "(staged, final) \<in> set planned"
  with assms(2) obtain sn src where "path_file_name staged = Some sn" "node_at s0 (path_components staging @ [Normal sn]) = Some src"
    by (force simp: staged_files_def assms(3))
  moreover from assms(1) pf have "placed_at (length (fs_log s0)) (tx_manifest x) s (expected x (staged, final))
      \<and> settled (length (fs_log s0)) s (path_components final)"
    by (force simp: delivered_def)
  ultimately show "\<exists>name src n. path_file_name staged = Some name \<and> node_at s0 (path_components staging @ [Normal name]) = Some src
     \<and> node_at s (path_components final) = Some n \<and> in_kind n = RegularFile \<and> in_data n = in_data src
     \<and> settled (length (fs_log s0)) s (path_components final)"
    by (auto simp: placed_at_def expected_def assms(3))
qed

lemma delivering_journal:
  assumes "delivering x s0 planned s" and "staged_files x planned" and x: "x = recall_txn env s0 staging out name i m"
  shows "node_at s0 \<subseteq>\<^sub>m node_at s"
    and "\<exists>m'. journal_names env (tx_manifest x) (tx_temp x) (path_components out) s0 s m'
           \<and> (tm_phase m' = Complete \<longrightarrow> files_delivered (path_components staging) planned s0 s)"
    and "manifest_node env m' n \<Longrightarrow> node_at s (tx_manifest x) = Some n \<Longrightarrow> manifest_names m' = manifest_names m
           \<Longrightarrow> journal_names env (tx_manifest x) (tx_temp x) (path_components out) s0 s m'"
proof -
  have names: "node_at s p \<noteq> None \<Longrightarrow> node_at s0 p = None \<Longrightarrow> p = tx_manifest x \<or> p = tx_temp x \<or> within p (path_components out) \<or> p \<in> manifest_names m" for p
    using assms(1) by (auto simp: safe_def publishing_def x)
  show "node_at s0 \<subseteq>\<^sub>m node_at s" using assms(1) by (simp add: safe_def publishing_def x)
  show each: "journal_names env (tx_manifest x) (tx_temp x) (path_components out) s0 s m'"
    if "manifest_node env m' n" "node_at s (tx_manifest x) = Some n" "manifest_names m' = manifest_names m" for m' n
    using names that by (auto simp: journal_names_def)
  obtain m' n where "node_at s (tx_manifest x) = Some n" "manifest_node env m' n" "manifest_names m' = manifest_names m"
      "tm_phase m' = Complete \<longrightarrow> delivered x (length (fs_log s0)) planned s"
    using assms(1) by (auto simp: safe_def publishing_def journaled_def recorded_as_def x)
  with each delivered_files[OF _ assms(2) x]
  show "\<exists>m'. journal_names env (tx_manifest x) (tx_temp x) (path_components out) s0 s m'
       \<and> (tm_phase m' = Complete \<longrightarrow> files_delivered (path_components staging) planned s0 s)" by blast
qed

definition recall_outcome ::
    "publish_env \<Rightarrow> (string \<times> string) list \<Rightarrow> string \<Rightarrow> string \<Rightarrow> string \<Rightarrow> string \<Rightarrow> fs \<Rightarrow> fs \<Rightarrow> (publish_failure + unit) \<Rightarrow> bool" where
  "recall_outcome env planned staging name i out s0 s r \<longleftrightarrow> node_at s0 \<subseteq>\<^sub>m node_at s \<and>
    (let parent = path_components staging; mp = parent @ [Normal name]; tp = parent @ [Normal (''.'' @ name @ ''.'' @ i @ ''.tmp'')];
         journal = journal_names env mp tp (path_components out) s0 s;
         delivered = files_delivered parent planned s0 s
     in case r of
          Inl (Retryable e) \<Rightarrow> withdrawn tp (path_components out) s0 s
        | Inl (Durable e) \<Rightarrow> \<exists>m. journal m \<and> (tm_phase m = Complete \<longrightarrow> delivered)
        | Inr _ \<Rightarrow> (\<exists>m. journal m \<and> tm_phase m = Complete) \<and> delivered)"

lemma recall_outcomes:
  assumes x: "x = recall_txn env s0 staging out name i m" and staged: "staged_files x planned"
  shows "withdrawn (tx_temp x) (path_components out) s0 s \<Longrightarrow> recall_outcome env planned staging name i out s0 s (Inl (Retryable e))"
    and "delivering x s0 planned s \<Longrightarrow> recall_outcome env planned staging name i out s0 s (Inl (Durable e))"
    and "finished x s0 planned s \<Longrightarrow> recall_outcome env planned staging name i out s0 s (Inr u)"
proof -
  have mp: "tx_manifest x = path_components staging @ [Normal name]"
    and tp: "tx_temp x = path_components staging @ [Normal (''.'' @ name @ ''.'' @ i @ ''.tmp'')]"
    by (simp_all add: tx_manifest_def tx_temp_def x)
  note d = delivering_journal[OF _ staged x, unfolded mp tp]
  show "withdrawn (tx_temp x) (path_components out) s0 s \<Longrightarrow> recall_outcome env planned staging name i out s0 s (Inl (Retryable e))"
    by (simp add: recall_outcome_def tp withdrawn_def)
  show "delivering x s0 planned s \<Longrightarrow> recall_outcome env planned staging name i out s0 s (Inl (Durable e))"
    using d(1,2) by (simp add: recall_outcome_def Let_def)
  assume f: "finished x s0 planned s"
  then obtain m' k where m': "delivering x s0 planned s" "delivered x (length (fs_log s0)) planned s"
      "node_at s (tx_manifest x) = Some k" "manifest_node env m' k" "tm_phase m' = Complete" "manifest_names m' = manifest_names m"
    by (auto simp: finished_def x)
  with d(1)[OF m'(1)] d(3)[OF m'(1,4) _ m'(6)] delivered_files[OF m'(2) staged x]
  show "recall_outcome env planned staging name i out s0 s (Inr u)" by (auto simp: recall_outcome_def Let_def mp)
qed

lemma recall_outcome_persisted:
  assumes c: "building (node_at s0) (path_components out) s0 (filling env planned i (node_at s0) (path_components staging) (length planned)) (parents_slotted planned) c"
    and tr: "tr_output tr = path_components out" "is_absolute out"
    and name: "path_file_name mpath = Some name" and i: "CHR ''/'' \<notin> set i"
    and below: "\<forall>pf \<in> set planned. lies_below out (snd pf)"
    and run: "(case persist_manifest_prepared env (path_components staging) mpath i c of
             (b, Inl e) \<Rightarrow> (b, Inl (if pb_manifest_identity b \<noteq> None then Durable e else Retryable e))
           | (b, Inr _) \<Rightarrow>
               (case publish_file_set env planned staging i out mpath tr b of
                  (b, Inl e) \<Rightarrow> (b, Inl (Durable e))
                | (b, Inr _) \<Rightarrow> (b, Inr ()))) = (b', r)"
  shows "recall_outcome env planned staging name i out s0 (pb_fs b') r"
proof -
  define x where "x = recall_txn env s0 staging out name i (pb_manifest c)"
  have fill: "filling env planned i (node_at s0) (path_components staging) (length planned) (pb_manifest c)" using c by (simp add: building_def)
  note rec = filling_recorded[OF fill]
  have staged: "staged_files x planned" using rec(2) by (simp add: staged_files_def x_def)
  note outcomes = recall_outcomes[OF x_def staged]
  obtain d q where d: "persist_manifest_prepared env (path_components staging) mpath i c = (d, q)" by force
  note first = wpE_result[OF wpE_keeps[OF keeps_persist wpE_first_persist[OF c name x_def]] d]
  show ?thesis
  proof (cases q)
    case (Inl e)
    with run d have r: "b' = d" "r = Inl (if pb_manifest_identity d \<noteq> None then Durable e else Retryable e)" by auto
    from first Inl show ?thesis unfolding r
      by (cases "pb_manifest_identity d = None") (auto intro: outcomes(1) outcomes(2)[OF safe_delivering])
  next
    case (Inr u)
    obtain e z where e: "publish_file_set env planned staging i out mpath tr d = (e, z)" by force
    have t: "on_track x s0 (pb_manifest c) d" and sl: "parents_slotted planned (pb_sync_slots d)" using first Inr c by (simp_all add: building_def)
    have count: "tm_directory_count (pb_manifest c) = length (directories_of (pb_manifest c))"
      using fill by (simp add: filling_def started_def directories_of_def)
    have abs: "\<forall>pf \<in> set planned. starts_slash (snd pf)" using below lies_below_spelled(3)[OF _ tr(2)] by blast
    have "wpE (publish_file_set env planned staging i out mpath tr) (\<lambda>_ b. finished x s0 planned (pb_fs b)) (\<lambda>_ b. delivering x s0 planned (pb_fs b)) d"
      using wpE_publish_file_set[OF t _ abs tr _ staged _ count sl, where staging = staging] rec(1) i name by (simp add: x_def)
    from wpE_result[OF this e] run d e Inr show ?thesis by (auto split: sum.splits intro: outcomes)
  qed
qed

text \<open>
  Publishing a file set (C3): whichever calls fail, and so also where a crash stops the run,
  everything that was on disk is still there unchanged.  Unless the outcome is retryable a
  manifest is on disk that names every new path besides itself, its temporary file and
  directories of the output path.  A manifest that says \<open>Complete\<close> is there only when every
  final file holds the bytes of its staged file and, after the rename that put it at its name,
  the file and its directory have been synchronized, and success means that it is there.  A retryable failure leaves nothing but the
  temporary file and directories of the output path.
\<close>

theorem publish_recall_outcome:
  assumes run: "publish_recall_inner env planned staging i out sid mpath b = (b', r)"
    and b: "tree (node_at (pb_fs b))" "pb_manifest_identity b = None" "pb_manifest b = manifest_new_with_directories slots dirs bytes"
    and name: "path_file_name mpath = Some name" and i: "CHR ''/'' \<notin> set i"
    and below: "\<forall>pf \<in> set planned. lies_below out (snd pf)"
  shows "node_at (pb_fs b) \<subseteq>\<^sub>m node_at (pb_fs b') \<and>
    (let parent = path_components staging; mp = parent @ [Normal name]; tp = parent @ [Normal (''.'' @ name @ ''.'' @ i @ ''.tmp'')];
         journal = journal_names env mp tp (path_components out) (pb_fs b) (pb_fs b');
         delivered = files_delivered parent planned (pb_fs b) (pb_fs b')
     in case r of
          Inl (Retryable e) \<Rightarrow> withdrawn tp (path_components out) (pb_fs b) (pb_fs b')
        | Inl (Durable e) \<Rightarrow> \<exists>m. journal m \<and> (tm_phase m = Complete \<longrightarrow> delivered)
        | Inr _ \<Rightarrow> (\<exists>m. journal m \<and> tm_phase m = Complete) \<and> delivered)"
proof -
  have start: "opened (node_at (pb_fs b)) (path_components out) (pb_fs b) (pb_fs b)" using b(1) by (auto simp: opened_def)
  have "started (pb_manifest b)" by (simp add: b(3) started_def manifest_new_with_directories_def path_arena_new_def arena_ok_def)
  note prep = wpE_prepare_file_set[OF start b(2) this below, of env staging i sid]
  obtain c p where c: "prepare_file_set env planned staging i out sid b = (c, p)" by force
  have "recall_outcome env planned staging name i out (pb_fs b) (pb_fs b') r"
  proof (cases p)
    case (Inl e)
    with run c have r: "b' = c" "r = Inl (Retryable e)" by (simp_all add: publish_recall_inner_def)
    from wpE_result[OF prep c] Inl show ?thesis
      unfolding r by (auto simp: recall_outcome_def unbuilt_def opened_withdrawn opened_def)
  next
    case (Inr tr)
    show ?thesis
      using wpE_result[OF prep c] Inr recall_outcome_persisted[OF _ _ _ name i below run[unfolded publish_recall_inner_def c Inr prod.case sum.case]] by simp
  qed
  then show ?thesis by (simp add: recall_outcome_def)
qed

section \<open>A run\<close>

definition sample_inode :: "nat \<Rightarrow> file_kind \<Rightarrow> string \<Rightarrow> inode" where
  "sample_inode i kind data = \<lparr>in_identity = \<lparr>fi_device = 1, fi_inode = i\<rparr>, in_kind = kind, in_data = data\<rparr>"

definition sample_fs :: "string option list \<Rightarrow> fs" where
  "sample_fs faults = \<lparr>fs_entries =
     [([RootDir], sample_inode 1 Directory []), ([RootDir, Normal ''s''], sample_inode 2 Directory []),
      ([RootDir, Normal ''s'', Normal ''t1''], sample_inode 3 Directory []), ([RootDir, Normal ''o''], sample_inode 4 Directory []),
      ([RootDir, Normal ''s'', Normal ''t1'', Normal ''a.wav''], sample_inode 5 RegularFile ''ab'')],
      fs_faults = faults, fs_log = []\<rparr>"

definition sample_env :: publish_env where
  "sample_env = \<lparr>pe_euid = 7, pe_serde = derived_ops, pe_to_text = (\<lambda>_. ''m''),
     pe_identity_fields = (\<lambda>_. Inr \<lparr>ec_version = MANIFEST_VERSION, ec_uid = 7, ec_transaction_id = ''t1'', ec_kind = KindFileSet,
       ec_staging_root = ''/s/t1'', ec_output_root = ''/o''\<rparr>),
     pe_inode = (\<lambda>s. Suc (length (fs_entries s) + length (fs_log s))), pe_buffer = 100, pe_component = 50, pe_path_capacity = 50\<rparr>"

definition sample_publication :: "string option list \<Rightarrow> publication" where
  "sample_publication faults = \<lparr>pb_fs = sample_fs faults, pb_manifest = manifest_new_with_directories 1 2 (replicate 100 nul_char),
     pb_manifest_identity = None, pb_current_artifact = artifact_default,
     pb_sync_slots = replicate 3 \<lparr>ds_entry_index = 0, ds_prefix_len = 0, ds_active = False\<rparr>\<rparr>"

definition sample_run :: "string option list \<Rightarrow> publication \<times> (publish_failure + unit)" where
  "sample_run faults = publish_recall_inner sample_env [(''/s/t1/a.wav'', ''/o/p/a.wav'')] ''/s/t1'' ''t1'' ''/o''
     \<lparr>fi_device = 1, fi_inode = 3\<rparr> ''/s/t1/manifest.json'' (sample_publication faults)"

lemma sample_succeeds: "snd (sample_run []) = Inr ()"
  by code_simp

lemma sample_tree: "tree (node_at (pb_fs (sample_publication faults)))"
  by (simp add: tree_def node_at_def sample_publication_def sample_fs_def sample_inode_def)

theorem publish_recall_outcome_witness:
  "snd (sample_run []) = Inr () \<and> node_at (sample_fs []) \<subseteq>\<^sub>m node_at (pb_fs (fst (sample_run [])))
   \<and> files_delivered (path_components ''/s/t1'') [(''/s/t1/a.wav'', ''/o/p/a.wav'')] (sample_fs []) (pb_fs (fst (sample_run [])))"
proof -
  have run: "publish_recall_inner sample_env [(''/s/t1/a.wav'', ''/o/p/a.wav'')] ''/s/t1'' ''t1'' ''/o''
     \<lparr>fi_device = 1, fi_inode = 3\<rparr> ''/s/t1/manifest.json'' (sample_publication []) = (fst (sample_run []), Inr ())"
    unfolding sample_succeeds[symmetric] by (simp add: sample_run_def)
  have "path_file_name ''/s/t1/manifest.json'' = Some ''manifest.json''" "lies_below ''/o'' ''/o/p/a.wav''" by code_simp+
  with publish_recall_outcome[OF run sample_tree, of 1 2 "replicate 100 nul_char" "''manifest.json''"] sample_succeeds
  show ?thesis by (simp add: Let_def sample_publication_def)
qed

section \<open>Publishing a directory\<close>

text \<open>
  Publishing a directory (C4): whichever calls fail, the staged directory is where it was or,
  with all that is in it, at its final name, and nothing else changed but the manifest and its
  temporary file beside it.  It moves only when a manifest on disk names both places; that
  manifest says \<open>Complete\<close> only when it moved, the staged files and the directory were
  synchronized before the rename and its parent after it, and success means that it does.  After a retryable failure
  the directory has not moved; any other failure leaves a file at the name of the manifest.
\<close>

theorem publish_dump_outcome:
  assumes run: "publish_dump_inner env planned staging out parent mpath sid b = (b', r)"
    and b: "tree (node_at (pb_fs b))" "pb_manifest_identity b = None" "pb_manifest b = manifest_new_with_directories slots 0 bytes"
    and p: "path_components mpath = path_components parent @ [Normal name]" "dump_transaction_id staging = Inr i"
    and sp: "path_components staging = path_components parent @ [Normal sn]" "path_components out = path_components parent @ [Normal on]"
    and d: "distinct [sn, on, name, ''.'' @ name @ ''.'' @ i @ ''.tmp'']"
  shows "\<exists>renamed.
    (let f0 = node_at (pb_fs b); f = node_at (pb_fs b'); n = length (fs_log (pb_fs b));
         expected = (if renamed then moved (path_components staging) (path_components out) f0 else f0);
         temp = path_components parent @ [Normal (''.'' @ name @ ''.'' @ i @ ''.tmp'')];
         journal = directory_journal env staging out sid (path_components mpath) (pb_fs b');
         delivered = directory_delivered planned staging out (path_components parent) n (pb_fs b')
     in expected \<subseteq>\<^sub>m f
      \<and> (\<forall>q. f q \<noteq> None \<and> expected q = None \<longrightarrow> q = path_components mpath \<or> q = temp)
      \<and> (renamed \<longrightarrow> (\<exists>m. journal m \<and> (tm_phase m = Complete \<longrightarrow> delivered)))
      \<and> (case r of
           Inl (Retryable e) \<Rightarrow> \<not> renamed
         | Inl (Durable e) \<Rightarrow> \<exists>n. f (path_components mpath) = Some n \<and> in_kind n = RegularFile
         | Inr _ \<Rightarrow> renamed \<and> delivered \<and> (\<exists>m. journal m \<and> tm_phase m = Complete)))"
proof -
  have start: "opened (node_at (pb_fs b)) [] (pb_fs b) (pb_fs b)" using b(1) by (auto simp: opened_def)
  have "started (pb_manifest b)" by (simp add: b(3) started_def manifest_new_with_directories_def path_arena_new_def arena_ok_def)
  note prep = wpE_prepare_dump[OF start b(2) this order.refl, of env planned staging out parent sid]
  have fn: "path_file_name mpath = Some name" by (simp add: path_file_name_def p(1))
  obtain c q where c: "prepare_dump env planned staging out parent sid b = (c, q)" by force
  have "dump_outcome env planned staging out parent sid (path_components mpath)
      (path_components parent @ [Normal (''.'' @ name @ ''.'' @ i @ ''.tmp'')]) (pb_fs b) (pb_fs b') r"
  proof (cases q)
    case (Inl e)
    with run c have r: "b' = c" "r = Inl (Retryable e)" by (simp_all add: publish_dump_inner_def)
    have "node_at (pb_fs c) = node_at (pb_fs b)" using wpE_result[OF prep c] Inl opened_nothing by (simp add: unbuilt_def)
    then show ?thesis unfolding r by (intro dump_outcomes(1)) (auto simp: unmoved_def)
  next
    case (Inr j)
    then have j: "j = i" using wpE_result[OF prep c] p(2) by simp
    show ?thesis
      by (rule dump_outcome_persisted[OF _ _ fn p(1) sp d run[unfolded publish_dump_inner_def c Inr prod.case sum.case j]])
        (use wpE_result[OF prep c] Inr in auto)
  qed
  then show ?thesis unfolding dump_outcome_def unmoved_def Let_def by blast
qed

definition sample_dump_start :: "(fs_path \<times> inode) list \<Rightarrow> publication" where
  "sample_dump_start others =
     \<lparr>pb_fs = \<lparr>fs_entries = [([RootDir], sample_inode 1 Directory []), ([RootDir, Normal ''s''], sample_inode 2 Directory []),
        ([RootDir, Normal ''s'', Normal ''.tmp-lamb-t1''], sample_inode 3 Directory []),
        ([RootDir, Normal ''s'', Normal ''.tmp-lamb-t1'', Normal ''a.wav''], sample_inode 4 RegularFile ''ab'')] @ others,
        fs_faults = [], fs_log = []\<rparr>,
      pb_manifest = manifest_new_with_directories 1 0 (replicate 100 nul_char), pb_manifest_identity = None,
      pb_current_artifact = artifact_default, pb_sync_slots = []\<rparr>"

definition sample_dump :: "(fs_path \<times> inode) list \<Rightarrow> publication \<times> (publish_failure + unit)" where
  "sample_dump others = publish_dump_inner
     (sample_env\<lparr>pe_identity_fields := (\<lambda>_. Inr \<lparr>ec_version = MANIFEST_VERSION, ec_uid = 7, ec_transaction_id = ''t1'',
       ec_kind = KindAtomicDirectory, ec_staging_root = ''/s/.tmp-lamb-t1'', ec_output_root = ''/s''\<rparr>)\<rparr>)
     [(''/s/.tmp-lamb-t1/a.wav'', ''/s/d/a.wav'')] ''/s/.tmp-lamb-t1'' ''/s/d'' ''/s'' ''/s/.t1.json'' \<lparr>fi_device = 1, fi_inode = 3\<rparr>
     (sample_dump_start others)"

lemma sample_dump_succeeds: "snd (sample_dump []) = Inr ()"
  by code_simp

text \<open>A foreign file at the name of the manifest is reported as if it were this transaction's.\<close>

lemma foreign_manifest_is_durable:
  "snd (sample_dump [([RootDir, Normal ''s'', Normal ''.t1.json''], sample_inode 9 RegularFile ''x'')])
   = Inl (Durable (Validation ''refusing to replace an unowned manifest''))"
  by code_simp

lemma sample_dump_tree: "tree (node_at (pb_fs (sample_dump_start [])))"
  by (simp add: tree_def node_at_def sample_dump_start_def sample_inode_def)

theorem publish_dump_outcome_witness:
  "snd (sample_dump []) = Inr ()
   \<and> node_at (pb_fs (fst (sample_dump []))) [RootDir, Normal ''s'', Normal ''d'', Normal ''a.wav''] = Some (sample_inode 4 RegularFile ''ab'')
   \<and> directory_delivered [(''/s/.tmp-lamb-t1/a.wav'', ''/s/d/a.wav'')] ''/s/.tmp-lamb-t1'' ''/s/d'' (path_components ''/s'') 0 (pb_fs (fst (sample_dump [])))"
proof -
  have run: "publish_dump_inner
     (sample_env\<lparr>pe_identity_fields := (\<lambda>_. Inr \<lparr>ec_version = MANIFEST_VERSION, ec_uid = 7, ec_transaction_id = ''t1'',
       ec_kind = KindAtomicDirectory, ec_staging_root = ''/s/.tmp-lamb-t1'', ec_output_root = ''/s''\<rparr>)\<rparr>)
     [(''/s/.tmp-lamb-t1/a.wav'', ''/s/d/a.wav'')] ''/s/.tmp-lamb-t1'' ''/s/d'' ''/s'' ''/s/.t1.json'' \<lparr>fi_device = 1, fi_inode = 3\<rparr>
     (sample_dump_start []) = (fst (sample_dump []), Inr ())"
    unfolding sample_dump_succeeds[symmetric] by (simp add: sample_dump_def)
  have p: "path_components ''/s/.t1.json'' = path_components ''/s'' @ [Normal ''.t1.json'']" "dump_transaction_id ''/s/.tmp-lamb-t1'' = Inr ''t1''"
    "path_components ''/s/.tmp-lamb-t1'' = path_components ''/s'' @ [Normal ''.tmp-lamb-t1'']" "path_components ''/s/d'' = path_components ''/s'' @ [Normal ''d'']"
    by code_simp+
  have b: "pb_manifest_identity (sample_dump_start []) = None" "pb_manifest (sample_dump_start []) = manifest_new_with_directories 1 0 (replicate 100 nul_char)"
    by (simp_all add: sample_dump_start_def)
  have d: "distinct [''.tmp-lamb-t1'', ''d'', ''.t1.json'', ''.'' @ ''.t1.json'' @ ''.'' @ ''t1'' @ ''.tmp'']" by simp
  let ?s = "pb_fs (sample_dump_start [])" and ?t = "pb_fs (fst (sample_dump []))"
  have "moved (path_components ''/s/.tmp-lamb-t1'') (path_components ''/s/d'') (node_at ?s) \<subseteq>\<^sub>m node_at ?t
      \<and> directory_delivered [(''/s/.tmp-lamb-t1/a.wav'', ''/s/d/a.wav'')] ''/s/.tmp-lamb-t1'' ''/s/d'' (path_components ''/s'') (length (fs_log ?s)) ?t"
    using publish_dump_outcome[OF run sample_dump_tree b p d] unfolding Let_def sum.case by (elim exE conjE) (simp only: if_True)
  moreover have "moved (path_components ''/s/.tmp-lamb-t1'') (path_components ''/s/d'') (node_at ?s) [RootDir, Normal ''s'', Normal ''d'', Normal ''a.wav'']
      = Some (sample_inode 4 RegularFile ''ab'')"
    by code_simp
  moreover have "length (fs_log ?s) = 0" by (simp add: sample_dump_start_def)
  ultimately show ?thesis using sample_dump_succeeds unfolding map_le_def by (metis domI)
qed

end
