(* ===== verification/Spec2Isabelle.thy ===== *)
theory Spec2Isabelle
  imports Wav_Math Capture_Theorems Calibration_Theorems Retry_Scheduler Activity_Theorems Dump_Theorems Export_Theorems Recovery_Scan Memory_Theorems Publication_Theorems
begin

text \<open>
  \<^bold>\<open>Verification of LAMB, the last-audio-memory buffer daemon.\<close>

  LAMB keeps the last minutes of audio in memory and writes them to disk on request.  An audio
  callback pushes interleaved samples into a bounded \<^emph>\<open>ingress queue\<close>; a worker thread
  moves them into one of the \<^emph>\<open>epoch rings\<close> of the capture arena; a client
  \<^emph>\<open>freezes\<close> the active epoch and the worker goes on in a fresh one; the
  \<^emph>\<open>dump coordinator\<close> classifies the frozen audio, plans the files, publishes them,
  commits the position up to which audio has been delivered, hands the outcome to the requester
  and releases the frozen epoch.  Around this core stand the operation lane that serialises
  requests, the lifecycle with its retry scheduler, the export policy that names the files, the
  publication that copies them into place, and the recovery that settles a publication a crash
  interrupted.

  \<^bold>\<open>Conventions.\<close>  \<open>u64\<close>, \<open>u32\<close> and \<open>usize\<close> are natural numbers with
  their bounds written out: checked operations return an option, operations that wrap in a
  release build are \<open>wadd64\<close> and \<open>wsub64\<close>.  Samples are the bit patterns of
  \<open>f32\<close>; floating-point operations are fields of a parameter record (\<open>fp_ops\<close>,
  \<open>db_ops\<close>), with what a theorem needs of them as a hypothesis.  Fallible code returns
  \<open>lamb_error + 'a\<close>; a panic is the error \<open>Panicked\<close>.  Allocation, the page size,
  the clock and other callers enter as parameters or as the steps of a relation.  Messages that
  format foreign errors carry them as strings.

  \<^bold>\<open>Theories.\<close>

  \<^item> \<open>Prelude\<close>, \<open>Errors\<close>, \<open>Effects\<close>: integers at their width, results, lists
    updated in place; the error type (\<open>src/error.rs\<close>); operations on a state that may
    fail, with weakest preconditions.
  \<^item> \<open>Wav_Math\<close> (\<open>src/math.rs\<close>): the split of a channel into WAV parts.
  \<^item> \<open>Memory_Budget\<close>, \<open>Memory_Headroom\<close>, \<open>Memory_Plan\<close>,
    \<open>Memory_Theorems\<close> (\<open>src/memory_plan.rs\<close>): page-rounded budgets and buffers, the
    requirement with headroom over the bits of the factor, and the plan of all buffers of a
    session, which is enough for every export and calibration, up to the 4 GiB that the 32-bit
    references into the path arena can address.
  \<^item> \<open>Sample_Ring\<close>, \<open>Ring_History\<close>, \<open>Ring_Copy\<close>, \<open>Ring_Snapshot\<close>,
    \<open>Snapshot_Isolation\<close>, \<open>Ring_Theorems\<close> (\<open>src/sample_ring.rs\<close>): the chunked
    ring, its refinement of the list of all samples ever accepted, range copies, and snapshots
    that pin chunks.  Writers, selectors and readers interleave as steps of a relation; the
    theorems say that a snapshot reads what it pinned, that a range copy is exact, and that
    every frame is appended or counted as dropped.
  \<^item> \<open>Bounded_Fifo\<close>: the interface of a bounded first-in first-out channel, a locale;
    the ingress queue and the operation lane interpret it.
  \<^item> \<open>Ingress_Queue\<close>, \<open>Ingress_Theorems\<close>, \<open>Calibration_Slot\<close>,
    \<open>Calibration_Theorems\<close> (\<open>src/capture_arena.rs\<close>): the slot ring between
    the callback and the worker, and the lease on live samples, with producer and consumer
    interleaved at their atomic accesses.
  \<^item> \<open>Capture_Worker\<close>, \<open>Sample_Log\<close>, \<open>Capture_Epochs\<close>,
    \<open>Capture_Theorems\<close> (\<open>src/capture_arena.rs\<close>): the worker, the epochs and their
    absolute positions.  The locale in \<open>Sample_Log\<close> is what the worker asks of a ring; the
    sample ring interprets it.
  \<^item> \<open>Arena_Client\<close> (\<open>src/capture_arena.rs\<close>): the command slot and the calls that
    wait on it, without the shutdown of the arena.  What happens while a call waits is a tape of ticks: samples arriving, worker
    turns, and the time-out when the tape ends.
  \<^item> \<open>Activity_Detector\<close>, \<open>Activity_Windows\<close>, \<open>Activity_Verdict\<close>,
    \<open>Activity_Epoch\<close>, \<open>Activity_Theorems\<close> (\<open>src/activity.rs\<close>): the detectors
    that decide which channels are exported; the streaming window detector equals a reference
    that judges every window on its own, and its verdict is stated over the levels of the windows
    that have a sample, which IEEE arithmetic never makes NaN.
  \<^item> \<open>Export_Policy\<close>, \<open>Export_Paths\<close>, \<open>Export_Theorems\<close>
    (\<open>src/export_policy.rs\<close>): patterns, rendering, lexical path checks and the plan of the
    files.  Parsing is lossless, the planned paths stay under the output directory, do not
    collide, fit the limit, and hold every exported frame once.
  \<^item> \<open>Paths\<close>, \<open>File_System\<close>: the parts of \<open>std::path\<close> and of the POSIX file
    calls that the sources use.  A file system is a list of entries; a tape of faults decides
    which calls fail; a log records synchronisations, removals and renames in their order.  A path
    that ends in a symbolic link to a directory is not followed.
  \<^item> \<open>Manifest\<close>, \<open>Manifest_Codec\<close>, \<open>Manifest_Roundtrip\<close>,
    \<open>Manifest_Check\<close> (\<open>src/recovery.rs\<close>): the manifest of a transaction with its
    path arena, its serialisation and parsing and their round trip over any serializer that
    keeps the laws of the locale \<open>serde_laws\<close>, and the checks on a manifest found on disk.
  \<^item> \<open>Recovery\<close>, \<open>Recovery_Steps\<close>, \<open>Recovery_Theorems\<close>,
    \<open>Recovery_Outcomes\<close>, \<open>Recovery_Directory\<close>, \<open>Recovery_Scan\<close>
    (\<open>src/recovery.rs\<close>): finishing or undoing an interrupted transaction, and the scans
    over all of them.  Recovery removes only what the manifest records as its own, and each outcome
    says what is on disk, for every pattern of failing calls.
  \<^item> \<open>File_Creation\<close>, \<open>Publication_Root\<close>, \<open>Publication\<close>
    (\<open>src/export_wav.rs\<close>, \<open>src/recovery.rs\<close>): the publication of staged files as a
    file set or as a directory, with the writer of the manifest, call by call.
    \<open>Publication_Steps\<close> has the weakest preconditions of the calls,
    \<open>Publication_Journal\<close> shows that writing the manifest is atomic,
    \<open>Publication_Invariant\<close>, \<open>Publication_Copy\<close> and
    \<open>Publication_Complete\<close> carry the invariant that the manifest names every new path through
    all steps, \<open>Publication_Prepare\<close> and \<open>Publication_Parents\<close> establish it,
    \<open>Publication_Dump\<close> does the same for the rename of a whole directory, and
    \<open>Publication_Theorems\<close> says what is on disk after any pattern of failing calls, and that
    the files and directories were synchronized after the renames that put them in place.
  \<^item> \<open>Dump_Coordinator\<close>, \<open>Dump_Accounting\<close>, \<open>Arena_Contract\<close>,
    \<open>Dump_Theorems\<close> (\<open>src/dump.rs\<close>): the coordinator over any arena that keeps the
    contract of the locales \<open>arena_contract\<close> and \<open>arena_runs\<close>; \<open>Arena_Contract\<close>
    proves that contract for the arena client.  Every frame is delivered, lost to retention or
    cleared exactly once.
  \<^item> \<open>Operation_Lane\<close> (\<open>src/control_server.rs\<close>), \<open>Lifecycle\<close>,
    \<open>Retry_Scheduler\<close> (\<open>src/daemon_lifecycle.rs\<close>): the request lane with its worker
    and closer, the lifecycle state with its back-off, and the scheduler that admits retries.

  \<^bold>\<open>Bounds and fuel.\<close>  No definition uses fuel: loops recurse on data or on a proved
  measure.  A waiting call ends when its tape does, which is its time-out.

  \<^bold>\<open>Not modelled.\<close>  Starting and shutting down the capture arena; the sockets, threads and signals of \<open>src/daemon.rs\<close> and
  \<open>src/main.rs\<close>; the PipeWire and JACK bindings; the numerical estimation of
  \<open>src/calibration.rs\<close>; the WAV encoder and the staging of files
  (\<open>src/persistence_workspace.rs\<close>); configuration files.
\<close>

end
